(* ===== verification/Coccl_Prelude.thy ===== *)
theory Coccl_Prelude
  imports Main "HOL-Library.Word"
begin

text \<open>
  Shared vocabulary of the development: machine types of the C++ code, NCCL result codes and
  the \<^verbatim>\<open>NCCLCHECK\<close> discipline of \<^verbatim>\<open>src/src/include/checks.h\<close>, NCCL data types and functions,
  the fields of a communicator the COCCL layer reads, and the generic lemmas about 64-bit
  words, error results and lists that the component theories use.
\<close>

section \<open>Collections of facts\<close>

named_theorems word_bounds \<open>exactness of guarded 64-bit arithmetic\<close>
named_theorems result_simps \<open>sequencing of error results\<close>

section \<open>Machine types\<close>

text \<open>
  \<^verbatim>\<open>size_t\<close> and \<^verbatim>\<open>uintptr_t\<close> are 64-bit and wrap around. A pointer is its address, with
  \<open>nullptr = 0\<close>. A C \<^verbatim>\<open>int\<close> is an \<open>int\<close>; the cast \<^verbatim>\<open>(size_t)x\<close> is \<open>word_of_int x\<close>.
\<close>

type_synonym size_t = "64 word"
type_synonym ptr = "64 word"

abbreviation (input) nullptr :: ptr where
  "nullptr \<equiv> 0"

abbreviation (input) SIZE_MAX :: size_t where
  "SIZE_MAX \<equiv> - 1"

abbreviation (input) size_of_int :: "int \<Rightarrow> size_t" where
  "size_of_int \<equiv> word_of_int"

section \<open>NCCL results and the check macros\<close>

datatype ncclResult_t =
  ncclSuccess | ncclUnhandledCudaError | ncclSystemError | ncclInternalError
| ncclInvalidArgument | ncclInvalidUsage | ncclRemoteError | ncclInProgress | ncclNumResults

text \<open>
  \<^verbatim>\<open>NCCLCHECK\<close> and \<^verbatim>\<open>NCCLCHECKGOTO\<close> leave the function unless the result is
  \<^verbatim>\<open>ncclSuccess\<close> or \<^verbatim>\<open>ncclInProgress\<close>.
\<close>

definition nccl_ok :: "ncclResult_t \<Rightarrow> bool" where
  "nccl_ok r \<longleftrightarrow> r = ncclSuccess \<or> r = ncclInProgress"

lemma nccl_ok_simps [simp]:
  "nccl_ok ncclSuccess" "nccl_ok ncclInProgress" "\<not> nccl_ok ncclUnhandledCudaError"
  "\<not> nccl_ok ncclSystemError" "\<not> nccl_ok ncclInternalError" "\<not> nccl_ok ncclInvalidArgument"
  "\<not> nccl_ok ncclInvalidUsage" "\<not> nccl_ok ncclRemoteError" "\<not> nccl_ok ncclNumResults"
  by (simp_all add: nccl_ok_def)

text \<open>
  A function that returns through \<^verbatim>\<open>NCCLCHECK\<close> and whose output parameters are read only
  after it succeeded is a value of \<open>ncclResult_t + 'a\<close>: \<open>Inl\<close> the returned error.
\<close>

type_synonym 'a result = "ncclResult_t + 'a"

definition bindE :: "'e + 'a \<Rightarrow> ('a \<Rightarrow> 'e + 'b) \<Rightarrow> 'e + 'b" where
  "bindE m f = (case m of Inl e \<Rightarrow> Inl e | Inr x \<Rightarrow> f x)"

lemma bindE_simps [simp]: "bindE (Inl e) f = Inl e" "bindE (Inr x) f = f x"
  by (simp_all add: bindE_def)

lemma bindE_eq_Inr [result_simps]: "bindE m f = Inr y \<longleftrightarrow> (\<exists>x. m = Inr x \<and> f x = Inr y)"
  by (cases m) simp_all

lemma bindE_eq_Inl [result_simps]:
  "bindE m f = Inl e \<longleftrightarrow> m = Inl e \<or> (\<exists>x. m = Inr x \<and> f x = Inl e)"
  by (cases m) simp_all

lemma bindE_cong [fundef_cong]:
  assumes "m = m'" and "\<And>x. m' = Inr x \<Longrightarrow> f x = f' x"
  shows "bindE m f = bindE m' f'"
  using assms by (cases m') simp_all

definition guardE :: "bool \<Rightarrow> 'e \<Rightarrow> 'e + unit" where
  "guardE b e = (if b then Inr () else Inl e)"

lemma guardE_simps [simp]: "guardE True e = Inr ()" "guardE False e = Inl e"
  by (simp_all add: guardE_def)

lemma guardE_eq_Inr [result_simps]: "guardE b e = Inr u \<longleftrightarrow> b"
  by (cases b) simp_all

lemma guardE_eq_Inl [result_simps]: "guardE b e = Inl e' \<longleftrightarrow> \<not> b \<and> e' = e"
  by (cases b) auto

text \<open>A boolean helper of the code with one output parameter is an \<open>option\<close>.\<close>

definition fromOption :: "'e \<Rightarrow> 'a option \<Rightarrow> 'e + 'a" where
  "fromOption e x = (case x of None \<Rightarrow> Inl e | Some y \<Rightarrow> Inr y)"

lemma fromOption_simps [simp]: "fromOption e None = Inl e" "fromOption e (Some y) = Inr y"
  by (simp_all add: fromOption_def)

lemma fromOption_eq_Inr [result_simps]: "fromOption e x = Inr y \<longleftrightarrow> x = Some y"
  by (cases x) simp_all

lemma fromOption_eq_Inl [result_simps]: "fromOption e x = Inl e' \<longleftrightarrow> x = None \<and> e' = e"
  by (cases x) auto

text \<open>
  A \<^verbatim>\<open>for\<close> loop whose body may leave the function: the elements the loop visits, the body as a
  step on the loop's state, and the first failure ends it.
\<close>

primrec foldE :: "('a \<Rightarrow> 's \<Rightarrow> 'e + 's) \<Rightarrow> 'a list \<Rightarrow> 's \<Rightarrow> 'e + 's" where
  "foldE f [] s = Inr s"
| "foldE f (x # xs) s = bindE (f x s) (foldE f xs)"

lemma foldE_append: "foldE f (xs @ ys) s = bindE (foldE f xs s) (foldE f ys)"
  by (induction xs arbitrary: s) (auto simp: bindE_def split: sum.splits)

lemma foldE_invariant:
  assumes "foldE f xs s = Inr s'" and "P s"
    and "\<And>x t t'. x \<in> set xs \<Longrightarrow> P t \<Longrightarrow> f x t = Inr t' \<Longrightarrow> P t'"
  shows "P s'"
  using assms
proof (induction xs arbitrary: s)
  case Nil
  then show ?case by simp
next
  case (Cons x xs)
  then obtain t where t: "f x s = Inr t" "foldE f xs t = Inr s'"
    by (auto simp: bindE_eq_Inr)
  have "P t" by (rule Cons.prems(3) [OF _ Cons.prems(2) t(1)]) simp
  then show ?case
    by (rule Cons.IH [OF t(2)]) (rule Cons.prems(3), simp_all)
qed

lemma foldE_upt_invariant:
  assumes "foldE f [0..<n] s = Inr s'" and "P 0 s"
    and "\<And>k t t'. k < n \<Longrightarrow> P k t \<Longrightarrow> f k t = Inr t' \<Longrightarrow> P (Suc k) t'"
  shows "P n s'"
  using assms
proof (induction n arbitrary: s')
  case 0
  then show ?case by simp
next
  case (Suc n)
  then obtain t where "foldE f [0..<n] s = Inr t" "f n t = Inr s'"
    by (auto simp: foldE_append bindE_eq_Inr)
  with Suc.IH [of t] Suc.prems show ?case by simp
qed

lemma foldE_upt_related:
  assumes "foldE f [0..<n] s = Inr s'" and "foldE g [0..<n] t = Inr t'" and "R 0 s t"
    and "\<And>k a b a' b'. k < n \<Longrightarrow> R k a b \<Longrightarrow> f k a = Inr a' \<Longrightarrow> g k b = Inr b' \<Longrightarrow> R (Suc k) a' b'"
  shows "R n s' t'"
  using assms
proof (induction n arbitrary: s' t')
  case 0
  then show ?case by simp
next
  case (Suc n)
  then obtain a b where "foldE f [0..<n] s = Inr a" "f n a = Inr s'"
      "foldE g [0..<n] t = Inr b" "g n b = Inr t'"
    by (auto simp: foldE_append bindE_eq_Inr)
  with Suc.IH [of a b] Suc.prems show ?case by simp
qed

text \<open>A loop that builds an array, entry by entry, and may leave the function.\<close>

primrec mapE :: "('a \<Rightarrow> 'e + 'b) \<Rightarrow> 'a list \<Rightarrow> 'e + 'b list" where
  "mapE f [] = Inr []"
| "mapE f (x # xs) = bindE (f x) (\<lambda>y. bindE (mapE f xs) (\<lambda>ys. Inr (y # ys)))"

lemma mapE_Inr: "mapE f xs = Inr ys \<longleftrightarrow> list_all2 (\<lambda>x y. f x = Inr y) xs ys"
proof (induction xs arbitrary: ys)
  case Nil
  then show ?case by auto
next
  case (Cons x xs)
  then show ?case by (auto simp: bindE_eq_Inr list_all2_Cons1)
qed

lemma mapE_Inr_nth:
  assumes "mapE f xs = Inr ys"
  shows "length ys = length xs" and "i < length xs \<Longrightarrow> f (xs ! i) = Inr (ys ! i)"
  using assms by (auto simp: mapE_Inr list_all2_conv_all_nth)

text \<open>When every failure of the body has the same code, so has a failure of the loop.\<close>

lemma mapE_Inl:
  assumes "mapE f xs = Inl e"
  obtains x where "x \<in> set xs" and "f x = Inl e"
  using assms by (induction xs) (auto simp: bindE_eq_Inl)

section \<open>Data types and functions of NCCL\<close>

datatype ncclDataType_t =
  ncclInt8 | ncclUint8 | ncclInt32 | ncclUint32 | ncclInt64 | ncclUint64
| ncclFloat16 | ncclFloat32 | ncclFloat64 | ncclBfloat16 | ncclNumTypes

text \<open>
  \<^verbatim>\<open>ncclTypeSize\<close> of \<^verbatim>\<open>collectives.h\<close>, with \<^verbatim>\<open>__CUDA_BF16_TYPES_EXIST__\<close> defined
  (the build requires CUDA 12.4).
\<close>

fun ncclTypeSize :: "ncclDataType_t \<Rightarrow> int" where
  "ncclTypeSize ncclInt8 = 1"
| "ncclTypeSize ncclUint8 = 1"
| "ncclTypeSize ncclFloat16 = 2"
| "ncclTypeSize ncclBfloat16 = 2"
| "ncclTypeSize ncclInt32 = 4"
| "ncclTypeSize ncclUint32 = 4"
| "ncclTypeSize ncclFloat32 = 4"
| "ncclTypeSize ncclInt64 = 8"
| "ncclTypeSize ncclUint64 = 8"
| "ncclTypeSize ncclFloat64 = 8"
| "ncclTypeSize ncclNumTypes = - 1"

lemma ncclTypeSize_pos_iff: "0 < ncclTypeSize t \<longleftrightarrow> t \<noteq> ncclNumTypes"
  by (cases t) simp_all

lemma ncclTypeSize_le: "ncclTypeSize t \<le> 8"
  by (cases t) simp_all

datatype ncclFunc_t =
  ncclFuncBroadcast | ncclFuncReduce | ncclFuncAllGather | ncclFuncReduceScatter
| ncclFuncAllReduce | ncclFuncSendRecv | ncclFuncSend | ncclFuncRecv | ncclNumFuncs

text \<open>
  Reduction operators: the built-in ones and the dynamic values from \<^verbatim>\<open>ncclNumOps\<close> on.
\<close>

datatype ncclRedOp_t = ncclSum | ncclProd | ncclMax | ncclMin | ncclAvg | ncclDynamicOp nat

text \<open>
  The fields of \<^verbatim>\<open>ncclComm\<close> that the COCCL layer reads. \<open>self\<close> is the address of the object:
  the value of an \<^verbatim>\<open>ncclComm_t\<close> and the key of the \<^verbatim>\<open>std::map\<close>s over communicators.
\<close>

record ncclComm =
  self :: ptr
  rank :: int
  nRanks :: int
  node :: int
  nNodes :: int
  localRanks :: int
  cudaDev :: int
  commHash :: "64 word"
  rankToNode :: "int \<Rightarrow> int"
  nodeLocalRanks :: "int \<Rightarrow> int"
  localRank :: int
  localRankToRank :: "int \<Rightarrow> int"
  nodeLocalRankToRank :: "int \<Rightarrow> int \<Rightarrow> int"

section \<open>Text output\<close>

text \<open>
  \<^verbatim>\<open>%u\<close>: the decimal digits of a number. \<^verbatim>\<open>snprintf\<close> into a buffer of the given capacity keeps the
  text that fits in front of the terminating zero, and writes nothing without a buffer.
\<close>

fun decimal :: "nat \<Rightarrow> string" where
  "decimal n = (if n < 10 then [char_of (48 + n)] else decimal (n div 10) @ [char_of (48 + n mod 10)])"

declare decimal.simps [simp del]

definition snprintf :: "size_t option \<Rightarrow> string \<Rightarrow> string option" where
  "snprintf capacity txt =
     (case capacity of None \<Rightarrow> None
      | Some n \<Rightarrow> if n = 0 then None else Some (take (unat n - 1) txt))"

section \<open>Generic lemmas on 64-bit words\<close>

lemma unat_SIZE_MAX [simp]: "unat SIZE_MAX = 2 ^ 64 - 1"
  by (simp add: unsigned_minus_1_eq_mask mask_eq_exp_minus_1)

lemma unat_lt_2p64: "unat (x :: size_t) < 2 ^ 64"
  using unsigned_less [of x] by simp

lemma unat_add_exact [word_bounds]:
  "unat (a :: size_t) + unat b < 2 ^ 64 \<Longrightarrow> unat (a + b) = unat a + unat b"
  by (simp add: unat_word_ariths)

lemma unat_mult_exact [word_bounds]:
  "unat (a :: size_t) * unat b < 2 ^ 64 \<Longrightarrow> unat (a * b) = unat a * unat b"
  by (simp add: unat_word_ariths)

lemma unat_sub_exact [word_bounds]:
  "b \<le> a \<Longrightarrow> unat ((a :: size_t) - b) = unat a - unat b"
  by (simp add: unat_sub)

lemma unat_div_size: "unat ((a :: size_t) div b) = unat a div unat b"
  by (simp add: unat_div)

lemma unat_mod_size: "unat ((a :: size_t) mod b) = unat a mod unat b"
  by (simp add: unat_mod)

lemma unat_size_of_int:
  assumes "0 \<le> x" and "x < 2 ^ 64"
  shows "unat (size_of_int x) = nat x"
  using assms by (simp add: unat_eq_nat_uint uint_word_of_int)

lemma unat_word_of_nat_size: "n < 2 ^ 64 \<Longrightarrow> unat (word_of_nat n :: size_t) = n"
  by (simp add: unat_of_nat)

lemma size_eq_iff_unat: "(a :: size_t) = b \<longleftrightarrow> unat a = unat b"
  by (simp add: word_unat_eq_iff)

text \<open>Two half-open byte ranges do not meet.\<close>

definition disjoint_ranges :: "nat \<Rightarrow> nat \<Rightarrow> nat \<Rightarrow> nat \<Rightarrow> bool" where
  "disjoint_ranges a n b m \<longleftrightarrow> a + n \<le> b \<or> b + m \<le> a"

lemma disjoint_ranges_sym: "disjoint_ranges a n b m \<Longrightarrow> disjoint_ranges b m a n"
  by (auto simp: disjoint_ranges_def)

lemma disjoint_ranges_mono:
  "disjoint_ranges a n b m \<Longrightarrow> n' \<le> n \<Longrightarrow> m' \<le> m \<Longrightarrow> disjoint_ranges a n' b m'"
  by (auto simp: disjoint_ranges_def)

lemma disjoint_ranges_shift: "disjoint_ranges (c + a) n (c + b) m \<longleftrightarrow> disjoint_ranges a n b m"
  by (auto simp: disjoint_ranges_def)

section \<open>Generic lemmas on lists\<close>

lemma nth_replicate_update:
  "i < n \<Longrightarrow> j < n \<Longrightarrow> ((replicate n a)[i := x]) ! j = (if i = j then x else a)"
  by (simp add: nth_list_update)

text \<open>An update that keeps a view of the entry it replaces keeps it of the whole list.\<close>

lemma nth_update_view:
  "t < length xs \<Longrightarrow> f x = f (xs ! k) \<Longrightarrow> f (xs[k := x] ! t) = f (xs ! t)"
  by (cases "k = t") simp_all

end
