(* ===== verification/Coccl_Api.thy ===== *)
theory Coccl_Api
  imports Coccl_Prelude
begin

text \<open>
  Calls into CUDA and into the NCCL core. The COCCL layer sees only their result codes and output
  values, so they are answered by an environment: a function from the index and the arguments of
  a call to its reply. Every theorem that does not restrict the environment holds for every
  sequence of successes and failures. The world records the calls made so far; component states
  extend it with their own fields. Also here: computations that thread such a state and may leave
  the function, the shape of every routine that uses the check macros.
\<close>

section \<open>API calls\<close>

text \<open>
  One constructor per API function, by library: the CUDA runtime, the CUDA driver, and the NCCL
  core below the COCCL layer. Addresses, stream and event handles are pointers; a communicator is
  its address. Only the arguments that matter to the callers are kept. The last constructor is a call
  of a compressor plugin's destructor: the address of the function and the state object it is given.
\<close>

datatype cuda_call =
  cudaSetDevice int | cudaGetDevice | cudaGetDeviceCount | cudaDeviceCanAccessPeer int int
| cudaDeviceSynchronize | cudaDeviceGetStreamPriorityRange
| cudaStreamCreateWithPriority int | cudaStreamDestroy ptr | cudaStreamSynchronize ptr
| cudaEventCreateWithFlags | cudaEventDestroy ptr | cudaEventQuery ptr
| cudaEventSynchronize ptr | cudaEventRecord ptr ptr | cudaStreamWaitEvent ptr ptr
| cudaStreamCreateWithFlags | cudaEventCreate | cudaEventElapsedTime ptr ptr

datatype cuda_memory_call =
  cudaMalloc size_t | cudaFree ptr | cudaMallocAsync size_t ptr | cudaFreeAsync ptr ptr
| cudaHostAlloc size_t | cudaFreeHost ptr | hostNew | hostRealloc ptr size_t
| cudaMemcpyAsync ptr ptr size_t ptr | cudaMemcpy2DAsync ptr size_t ptr size_t size_t size_t ptr
| cudaLaunchKernel string "64 word list" ptr
| cudaMemGetInfo | cudaMemset ptr size_t | cudaMemsetAsync ptr size_t ptr | cudaMemcpy ptr ptr size_t

datatype driver_call =
  cuDeviceGet int | cuDeviceGetAttribute nat | cuMemGetAllocationGranularity
| cuMemAddressReserve size_t size_t | cuMemAddressFree ptr size_t
| cuMemCreate size_t | cuMemRelease ptr | cuMemMap ptr size_t ptr | cuMemUnmap ptr size_t
| cuMemSetAccess ptr size_t int | cuDriverEntryPoint nat

datatype nccl_call =
  ncclCudaLibraryInit | ncclCuMemEnable | ncclMemAlloc size_t | ncclMemFree ptr
| ncclCommRegister ptr ptr size_t | ncclCommDeregister ptr ptr
| ncclCommSplit ptr int int | ncclCommDestroy ptr | groupLaunch | ncclGroupHasNativePendingWork
| bootstrapAllGather ptr size_t
| ncclCollective ncclFunc_t ptr ptr size_t ncclDataType_t ncclRedOp_t ptr ptr
| ncclPointToPoint ncclFunc_t ptr size_t ncclDataType_t int ptr ptr

datatype api_call =
  Cuda cuda_call | CudaMemory cuda_memory_call | Driver driver_call | Nccl nccl_call
| PluginDestroyState ptr ptr

text \<open>
  A reply: the result code, with \<open>ncclSuccess\<close> also standing for \<^verbatim>\<open>cudaSuccess\<close> and \<^verbatim>\<open>CUDA_SUCCESS\<close>, and
  the value of the output parameter.
\<close>

record api_reply =
  status :: ncclResult_t
  outValue :: "64 word"

type_synonym api_env = "nat \<Rightarrow> api_call \<Rightarrow> api_reply"

record api_world =
  apiLog :: "api_call list"

definition callApi ::
  "api_env \<Rightarrow> api_call \<Rightarrow> 'w api_world_scheme \<Rightarrow> api_reply \<times> 'w api_world_scheme" where
  "callApi env c w = (env (length (apiLog w)) c, w\<lparr>apiLog := apiLog w @ [c]\<rparr>)"

section \<open>Computations\<close>

text \<open>A routine over a state: the error it leaves with or its value, and the state either way.\<close>

type_synonym ('s, 'a) comp = "'s \<Rightarrow> (ncclResult_t + 'a) \<times> 's"

definition returnC :: "'a \<Rightarrow> ('s, 'a) comp" where
  "returnC x s = (Inr x, s)"

definition failC :: "ncclResult_t \<Rightarrow> ('s, 'a) comp" where
  "failC e s = (Inl e, s)"

definition bindC :: "('s, 'a) comp \<Rightarrow> ('a \<Rightarrow> ('s, 'b) comp) \<Rightarrow> ('s, 'b) comp" where
  "bindC m f s = (case m s of (Inl e, s') \<Rightarrow> (Inl e, s') | (Inr x, s') \<Rightarrow> f x s')"

definition guardC :: "bool \<Rightarrow> ncclResult_t \<Rightarrow> ('s, unit) comp" where
  "guardC b e = (if b then returnC () else failC e)"

definition liftE :: "'a result \<Rightarrow> ('s, 'a) comp" where
  "liftE r s = (r, s)"

definition getC :: "('s \<Rightarrow> 'a) \<Rightarrow> ('s, 'a) comp" where
  "getC f s = (Inr (f s), s)"

definition modifyC :: "('s \<Rightarrow> 's) \<Rightarrow> ('s, unit) comp" where
  "modifyC f s = (Inr (), f s)"

definition thenC :: "('s, 'a) comp \<Rightarrow> ('s, 'b) comp \<Rightarrow> ('s, 'b) comp" where
  "thenC m n = bindC m (\<lambda>_. n)"

text \<open>A \<^verbatim>\<open>for\<close> loop over a list with a body that may leave the function.\<close>

primrec forC :: "'a list \<Rightarrow> ('a \<Rightarrow> ('s, unit) comp) \<Rightarrow> ('s, unit) comp" where
  "forC [] f = returnC ()"
| "forC (x # xs) f = bindC (f x) (\<lambda>_. forC xs f)"

text \<open>
  The check macros around an API call: \<^verbatim>\<open>CUDACHECK\<close> and \<^verbatim>\<open>CUCHECK\<close> turn every failure into
  \<^verbatim>\<open>ncclUnhandledCudaError\<close>; \<^verbatim>\<open>NCCLCHECK\<close> passes the result on and lets \<^verbatim>\<open>ncclInProgress\<close> through. The
  ignoring variants only make the call.
\<close>

definition CUDACHECK :: "api_env \<Rightarrow> api_call \<Rightarrow> ('w api_world_scheme, 64 word) comp" where
  "CUDACHECK env c w =
     (let (r, w') = callApi env c w in
      (if status r = ncclSuccess then Inr (outValue r) else Inl ncclUnhandledCudaError, w'))"

definition NCCLCHECK :: "api_env \<Rightarrow> api_call \<Rightarrow> ('w api_world_scheme, 64 word) comp" where
  "NCCLCHECK env c w =
     (let (r, w') = callApi env c w in
      (if nccl_ok (status r) then Inr (outValue r) else Inl (status r), w'))"

definition ignoreC :: "api_env \<Rightarrow> api_call \<Rightarrow> ('w api_world_scheme, unit) comp" where
  "ignoreC env c w = (Inr (), snd (callApi env c w))"

text \<open>The raw reply, for code that compares the result itself.\<close>

definition queryC :: "api_env \<Rightarrow> api_call \<Rightarrow> ('w api_world_scheme, api_reply) comp" where
  "queryC env c w = (let (r, w') = callApi env c w in (Inr r, w'))"

section \<open>Rules\<close>

named_theorems comp_simps \<open>evaluation of computations\<close>

lemma returnC_run [simp, comp_simps]: "returnC x s = (Inr x, s)"
  by (simp add: returnC_def)

lemma failC_run [simp, comp_simps]: "failC e s = (Inl e, s)"
  by (simp add: failC_def)

lemma liftE_run [simp, comp_simps]: "liftE r s = (r, s)"
  by (simp add: liftE_def)

lemma getC_run [simp, comp_simps]: "getC f s = (Inr (f s), s)"
  by (simp add: getC_def)

lemma modifyC_run [simp, comp_simps]: "modifyC f s = (Inr (), f s)"
  by (simp add: modifyC_def)

lemma guardC_run [comp_simps]: "guardC b e s = (if b then Inr () else Inl e, s)"
  by (simp add: guardC_def)

lemma bindC_eq_Inr:
  "bindC m f s = (Inr y, s'') \<longleftrightarrow> (\<exists>x s'. m s = (Inr x, s') \<and> f x s' = (Inr y, s''))"
  by (auto simp: bindC_def split: prod.splits sum.splits)

lemma bindC_eq_Inl:
  "bindC m f s = (Inl e, s'') \<longleftrightarrow>
     m s = (Inl e, s'') \<or> (\<exists>x s'. m s = (Inr x, s') \<and> f x s' = (Inl e, s''))"
  by (auto simp: bindC_def split: prod.splits sum.splits)

lemma bindC_Inr_run: "m s = (Inr x, s') \<Longrightarrow> bindC m f s = f x s'"
  by (simp add: bindC_def)

lemma bindC_Inl_run: "m s = (Inl e, s') \<Longrightarrow> bindC m f s = (Inl e, s')"
  by (simp add: bindC_def)

lemma bindC_return [simp]: "bindC (returnC x) f = f x" "bindC (Pair (Inr x)) f = f x"
  by (rule ext; simp add: bindC_def returnC_def)+

lemma bindC_assoc: "bindC (bindC m f) g = bindC m (\<lambda>x. bindC (f x) g)"
  by (rule ext) (auto simp: bindC_def split: prod.splits sum.splits)

lemma bindC_cong [fundef_cong]:
  assumes "m = m'" and "s = s'" and "\<And>x t. m' s' = (Inr x, t) \<Longrightarrow> f x t = f' x t"
  shows "bindC m f s = bindC m' f' s'"
  using assms by (auto simp: bindC_def split: prod.splits sum.splits)

lemma forC_append: "forC (xs @ ys) f = bindC (forC xs f) (\<lambda>_. forC ys f)"
  by (induction xs) (simp_all add: bindC_assoc)

lemma CUDACHECK_Inr:
  "CUDACHECK env c w = (Inr v, w') \<longleftrightarrow>
     status (env (length (apiLog w)) c) = ncclSuccess \<and> v = outValue (env (length (apiLog w)) c) \<and>
     w' = w\<lparr>apiLog := apiLog w @ [c]\<rparr>"
  by (auto simp: CUDACHECK_def callApi_def)

lemma NCCLCHECK_Inr:
  "NCCLCHECK env c w = (Inr v, w') \<longleftrightarrow>
     nccl_ok (status (env (length (apiLog w)) c)) \<and> v = outValue (env (length (apiLog w)) c) \<and>
     w' = w\<lparr>apiLog := apiLog w @ [c]\<rparr>"
  by (auto simp: NCCLCHECK_def callApi_def)

text \<open>
  A predicate every loop body keeps, also when it fails, holds after the loop. The same for
  sequencing: the Hoare-style rules used for invariants that survive every early return.
\<close>

definition keeps :: "('s \<Rightarrow> bool) \<Rightarrow> ('s, 'a) comp \<Rightarrow> bool" where
  "keeps P m \<longleftrightarrow> (\<forall>s. P s \<longrightarrow> P (snd (m s)))"

lemma keepsI: "(\<And>s. P s \<Longrightarrow> P (snd (m s))) \<Longrightarrow> keeps P m"
  by (simp add: keeps_def)

lemma keepsD: "keeps P m \<Longrightarrow> P s \<Longrightarrow> P (snd (m s))"
  by (simp add: keeps_def)

named_theorems keeps_intros \<open>rules for preserved state predicates\<close>

lemma keeps_return [keeps_intros]: "keeps P (returnC x)"
  by (simp add: keeps_def)

lemma keeps_fail [keeps_intros]: "keeps P (failC e)"
  by (simp add: keeps_def)

lemma keeps_lift [keeps_intros]: "keeps P (liftE r)"
  by (simp add: keeps_def)

lemma keeps_get [keeps_intros]: "keeps P (getC f)"
  by (simp add: keeps_def)

lemma keeps_guard [keeps_intros]: "keeps P (guardC b e)"
  by (simp add: keeps_def guardC_def)

lemma keeps_bind [keeps_intros]:
  "keeps P m \<Longrightarrow> (\<And>x. keeps P (f x)) \<Longrightarrow> keeps P (bindC m f)"
  by (auto simp: keeps_def bindC_def split: prod.splits sum.splits)

lemma keeps_then [keeps_intros]: "keeps P m \<Longrightarrow> keeps P n \<Longrightarrow> keeps P (thenC m n)"
  by (simp add: thenC_def keeps_bind)

lemma keeps_for [keeps_intros]: "(\<And>x. x \<in> set xs \<Longrightarrow> keeps P (f x)) \<Longrightarrow> keeps P (forC xs f)"
  by (induction xs) (auto intro: keeps_intros)

lemma keeps_if [keeps_intros]:
  "(b \<Longrightarrow> keeps P m) \<Longrightarrow> (\<not> b \<Longrightarrow> keeps P n) \<Longrightarrow> keeps P (if b then m else n)"
  by simp

lemma keeps_modify [keeps_intros]: "(\<And>s. P s \<Longrightarrow> P (f s)) \<Longrightarrow> keeps P (modifyC f)"
  by (simp add: keeps_def)

text \<open>API calls change only the log.\<close>

definition log_blind :: "('w api_world_scheme \<Rightarrow> bool) \<Rightarrow> bool" where
  "log_blind P \<longleftrightarrow> (\<forall>w l. P w \<longrightarrow> P (w\<lparr>apiLog := l\<rparr>))"

lemma keeps_CUDACHECK [keeps_intros]: "log_blind P \<Longrightarrow> keeps P (CUDACHECK env c)"
  by (simp add: keeps_def CUDACHECK_def callApi_def log_blind_def)

lemma keeps_NCCLCHECK [keeps_intros]: "log_blind P \<Longrightarrow> keeps P (NCCLCHECK env c)"
  by (simp add: keeps_def NCCLCHECK_def callApi_def log_blind_def)

lemma keeps_ignore [keeps_intros]: "log_blind P \<Longrightarrow> keeps P (ignoreC env c)"
  by (simp add: keeps_def ignoreC_def callApi_def log_blind_def)

lemma keeps_query [keeps_intros]: "log_blind P \<Longrightarrow> keeps P (queryC env c)"
  by (simp add: keeps_def queryC_def callApi_def log_blind_def)

end
