(* ===== verification/Buffer_Slice.thy ===== *)
theory Buffer_Slice
  imports Coccl_Api "HOL-Library.Sublist"
begin

text \<open>
  The slice lists of the workspace allocator. The legacy and the VMM backend
  (\<^verbatim>\<open>core/memory/coccl_buffer_legacy.cc\<close>, \<^verbatim>\<open>coccl_buffer_vmm.cc\<close>) carve their blocks with the same
  code over \<^verbatim>\<open>LegacySlice\<close> and \<^verbatim>\<open>VmmSlice\<close>: slices are free, in use, or pending, that is released
  on a stream whose completion event has not been seen yet. Proved here once for both: merging and
  carving keep the slices a partition of the block, never touch a slice in use, and hand out
  memory only when its previous use is over or ordered before the new one by the stream.
\<close>

section \<open>Slices\<close>

definition kBufferAlignment :: size_t where
  "kBufferAlignment = 256"

datatype SliceState = SliceFree | SliceInUse | SlicePending

datatype BufferBackend = LegacyBackend | VmmBackend

text \<open>
  A node of the \<^verbatim>\<open>std::list\<close>: its identity (the address a handle keeps), its byte range in the
  block, its state, completion event and stream.
\<close>

record BufferSlice =
  sliceNode :: nat
  sliceOffset :: size_t
  sliceSize :: size_t
  sliceState :: SliceState
  doneEvent :: ptr
  pendingStream :: ptr

definition newSlice :: "nat \<Rightarrow> size_t \<Rightarrow> size_t \<Rightarrow> BufferSlice" where
  "newSlice n off siz = \<lparr>sliceNode = n, sliceOffset = off, sliceSize = siz,
     sliceState = SliceFree, doneEvent = nullptr, pendingStream = nullptr\<rparr>"

definition alignUp :: "size_t \<Rightarrow> size_t" where
  "alignUp val = (val + kBufferAlignment - 1) div kBufferAlignment * kBufferAlignment"

definition markFree :: "BufferSlice \<Rightarrow> BufferSlice" where
  "markFree s = s\<lparr>sliceState := SliceFree, pendingStream := nullptr\<rparr>"

section \<open>Operations\<close>

definition reusable ::
  "api_env \<Rightarrow> BufferSlice \<Rightarrow> 'w api_world_scheme \<Rightarrow> bool \<times> BufferSlice \<times> 'w api_world_scheme" where
  "reusable env s w =
     (case sliceState s of
        SliceFree \<Rightarrow> (True, s, w)
      | SliceInUse \<Rightarrow> (False, s, w)
      | SlicePending \<Rightarrow>
          (let (r, w') = callApi env (Cuda (cudaEventQuery (doneEvent s))) w in
           if status r = ncclSuccess then (True, markFree s, w') else (False, s, w')))"

definition reusableOnStream ::
  "api_env \<Rightarrow> ptr \<Rightarrow> bool \<Rightarrow> BufferSlice \<Rightarrow> 'w api_world_scheme \<Rightarrow>
   bool \<times> BufferSlice \<times> 'w api_world_scheme" where
  "reusableOnStream env strm allowPendingReuse s w =
     (if allowPendingReuse \<and> sliceState s = SlicePending \<and> pendingStream s = strm
      then (True, s, w) else reusable env s w)"

text \<open>The iterator loop: \<open>c\<close> is \<^verbatim>\<open>current\<close>, \<open>n\<close> the next node; a merge erases \<open>n\<close> and stays at \<open>c\<close>.\<close>

fun mergeFreeSlices ::
  "api_env \<Rightarrow> BufferSlice list \<Rightarrow> 'w api_world_scheme \<Rightarrow> BufferSlice list \<times> 'w api_world_scheme" where
  "mergeFreeSlices env (c # n # rest) w =
     (let (cOk, c1, w1) = reusable env c w in
      if \<not> cOk then (let (out, w') = mergeFreeSlices env (n # rest) w1 in (c1 # out, w'))
      else
        let (nOk, n1, w2) = reusable env n w1 in
        if nOk \<and> sliceOffset c1 + sliceSize c1 = sliceOffset n1
        then mergeFreeSlices env (c1\<lparr>sliceSize := sliceSize c1 + sliceSize n1\<rparr> # rest)
               (if doneEvent n1 \<noteq> nullptr
                then snd (callApi env (Cuda (cudaEventDestroy (doneEvent n1))) w2) else w2)
        else (let (out, w') = mergeFreeSlices env (n1 # rest) w2 in (c1 # out, w')))"
| "mergeFreeSlices env slcs w = (slcs, w)"

text \<open>
  The search of \<^verbatim>\<open>acquireFromBlock\<close>: the first reusable slice that is large enough is taken,
  and split unless it is reused while pending. \<open>node\<close> is the identity of a new remainder.
\<close>

definition carve :: "size_t \<Rightarrow> nat \<Rightarrow> BufferSlice \<Rightarrow> BufferSlice \<times> BufferSlice list" where
  "carve bytes nod s =
     (let pendingReuse = (sliceState s = SlicePending) in
      if sliceSize s > bytes \<and> \<not> pendingReuse
      then (s\<lparr>sliceSize := bytes, sliceState := SliceInUse, pendingStream := nullptr\<rparr>,
            [newSlice nod (sliceOffset s + bytes) (sliceSize s - bytes)])
      else (s\<lparr>sliceState := SliceInUse, pendingStream := nullptr\<rparr>, []))"

fun takeSlice ::
  "api_env \<Rightarrow> ptr \<Rightarrow> bool \<Rightarrow> size_t \<Rightarrow> nat \<Rightarrow> BufferSlice list \<Rightarrow> 'w api_world_scheme \<Rightarrow>
   BufferSlice option \<times> BufferSlice list \<times> 'w api_world_scheme" where
  "takeSlice env strm allow bytes nod [] w = (None, [], w)"
| "takeSlice env strm allow bytes nod (s # rest) w =
     (let (ok, s1, w1) = reusableOnStream env strm allow s w in
      if \<not> ok \<or> sliceSize s1 < bytes
      then (let (found, rest', w2) = takeSlice env strm allow bytes nod rest w1 in
            (found, s1 # rest', w2))
      else (let (chosen, rmd) = carve bytes nod s1 in (Some chosen, chosen # rmd @ rest, w1)))"

section \<open>Alignment\<close>

lemma alignUp_exact:
  assumes "unat b + 255 < 2 ^ 64"
  shows "unat (alignUp b) = (unat b + 255) div 256 * 256" and "unat b \<le> unat (alignUp b)"
proof -
  have e: "b + kBufferAlignment - 1 = b + 255" by (simp add: kBufferAlignment_def)
  have k: "unat kBufferAlignment = 256" by (simp add: kBufferAlignment_def)
  have s: "unat (b + 255) = unat b + 255" using assms by (simp add: unat_add_exact)
  have "(unat b + 255) div 256 * 256 \<le> unat b + 255" by simp
  then have lt: "(unat b + 255) div 256 * 256 < 2 ^ 64" using assms by linarith
  show eq: "unat (alignUp b) = (unat b + 255) div 256 * 256"
    unfolding alignUp_def e using lt by (simp add: unat_mult_exact unat_div_size s k)
  have "(unat b + 255) div 256 * 256 + (unat b + 255) mod 256 = unat b + 255"
    by (rule div_mult_mod_eq)
  moreover have "(unat b + 255) mod 256 \<le> 255" by simp
  ultimately show "unat b \<le> unat (alignUp b)" unfolding eq by linarith
qed

section \<open>What a query tells\<close>

text \<open>An event was seen complete by a query made between two points of the log.\<close>

definition seenDone :: "api_env \<Rightarrow> nat \<Rightarrow> nat \<Rightarrow> ptr \<Rightarrow> bool" where
  "seenDone env i j ev \<longleftrightarrow>
     (\<exists>k. i \<le> k \<and> k < j \<and> status (env k (Cuda (cudaEventQuery ev))) = ncclSuccess)"

lemma seenDone_mono: "seenDone env i j ev \<Longrightarrow> i' \<le> i \<Longrightarrow> j \<le> j' \<Longrightarrow> seenDone env i' j' ev"
  unfolding seenDone_def by (meson le_trans less_le_trans)

abbreviation logLen :: "'w api_world_scheme \<Rightarrow> nat" where
  "logLen w \<equiv> length (apiLog w)"

text \<open>The one-slice step of the queries: nothing, or a pending slice seen complete is free.\<close>

definition settled :: "(ptr \<Rightarrow> bool) \<Rightarrow> BufferSlice \<Rightarrow> BufferSlice \<Rightarrow> bool" where
  "settled seen s t \<longleftrightarrow> t = s \<or> (sliceState s = SlicePending \<and> seen (doneEvent s) \<and> t = markFree s)"

lemma reusable_spec:
  assumes "reusable env s w = (ok, t, w')"
  shows "settled (seenDone env (logLen w) (logLen w')) s t \<and> logLen w \<le> logLen w' \<and>
         (ok \<longleftrightarrow> sliceState t = SliceFree) \<and> api_world.more w' = api_world.more w"
  using assms
  by (auto simp: reusable_def callApi_def settled_def markFree_def seenDone_def
      split: SliceState.splits if_splits)

lemma settled_mono: "settled p s t \<Longrightarrow> (\<And>e. p e \<Longrightarrow> q e) \<Longrightarrow> settled q s t"
  by (auto simp: settled_def)

lemma settled_range:
  "settled p s t \<Longrightarrow> sliceOffset t = sliceOffset s" "settled p s t \<Longrightarrow> sliceSize t = sliceSize s"
  "settled p s t \<Longrightarrow> sliceNode t = sliceNode s" "settled p s t \<Longrightarrow> doneEvent t = doneEvent s"
  by (auto simp: settled_def markFree_def)

lemma settled_inUse:
  "settled p s t \<Longrightarrow> sliceState s = SliceInUse \<or> sliceState t = SliceInUse \<or> sliceState t = SlicePending
   \<Longrightarrow> t = s"
  by (auto simp: settled_def markFree_def)

section \<open>Partitions and coarsening\<close>

text \<open>The slices cover the byte positions from \<open>a\<close> to \<open>b\<close> without gap or overlap.\<close>

fun tiles :: "nat \<Rightarrow> BufferSlice list \<Rightarrow> nat \<Rightarrow> bool" where
  "tiles a [] b \<longleftrightarrow> a = b"
| "tiles a (s # ss) b \<longleftrightarrow> unat (sliceOffset s) = a \<and> tiles (a + unat (sliceSize s)) ss b"

definition overlap :: "BufferSlice \<Rightarrow> BufferSlice \<Rightarrow> bool" where
  "overlap s t \<longleftrightarrow> unat (sliceOffset s) < unat (sliceOffset t) + unat (sliceSize t) \<and>
     unat (sliceOffset t) < unat (sliceOffset s) + unat (sliceSize s) \<and>
     0 < unat (sliceSize s) \<and> 0 < unat (sliceSize t)"

lemma tiles_le: "tiles a ss b \<Longrightarrow> a \<le> b"
  by (induction ss arbitrary: a) fastforce+

lemma tiles_range:
  "tiles a ss b \<Longrightarrow> s \<in> set ss \<Longrightarrow>
     a \<le> unat (sliceOffset s) \<and> unat (sliceOffset s) + unat (sliceSize s) \<le> b"
proof (induction ss arbitrary: a)
  case (Cons t ss)
  have "tiles (a + unat (sliceSize t)) ss b" using Cons.prems by simp
  with Cons.IH [OF this] tiles_le [OF this] Cons.prems show ?case by auto
qed simp

lemma tiles_append: "tiles a (xs @ ys) b \<longleftrightarrow> (\<exists>m. tiles a xs m \<and> tiles m ys b)"
  by (induction xs arbitrary: a) auto

lemma tiles_disjoint:
  assumes "tiles a (xs @ s # ys) b" and "t \<in> set xs \<union> set ys"
  shows "\<not> overlap s t"
proof -
  from assms(1) obtain m where *: "tiles a xs m" "unat (sliceOffset s) = m"
    "tiles (m + unat (sliceSize s)) ys b"
    by (auto simp: tiles_append)
  from assms(2) tiles_range [OF *(1), of t] tiles_range [OF *(3), of t] *(2) show ?thesis
    by (auto simp: overlap_def)
qed

text \<open>
  How a list may change by queries and merges: slices are settled one by one, or a slice that is
  free (or pending and seen complete) is joined with the free slice behind it.
\<close>

definition freed :: "(ptr \<Rightarrow> bool) \<Rightarrow> BufferSlice \<Rightarrow> bool" where
  "freed seen s \<longleftrightarrow> sliceState s = SliceFree \<or> (sliceState s = SlicePending \<and> seen (doneEvent s))"

inductive coarse :: "(ptr \<Rightarrow> bool) \<Rightarrow> BufferSlice list \<Rightarrow> BufferSlice list \<Rightarrow> bool" for seen where
  coarse_nil: "coarse seen [] []"
| coarse_one: "settled seen s t \<Longrightarrow> coarse seen ss ts \<Longrightarrow> coarse seen (s # ss) (t # ts)"
| coarse_join: "freed seen s \<Longrightarrow> coarse seen ss (m # ts) \<Longrightarrow> sliceState m = SliceFree \<Longrightarrow>
    sliceState t = SliceFree \<Longrightarrow> sliceNode t = sliceNode s \<Longrightarrow> sliceOffset t = sliceOffset s \<Longrightarrow>
    sliceSize t = sliceSize s + sliceSize m \<Longrightarrow> sliceOffset s + sliceSize s = sliceOffset m \<Longrightarrow>
    coarse seen (s # ss) (t # ts)"

inductive_cases coarse_NilE: "coarse seen [] ts"
inductive_cases coarse_ConsE: "coarse seen (s # ss) ts"

lemma coarse_refl: "coarse seen ss ss"
  by (induction ss) (auto intro: coarse_nil coarse_one simp: settled_def)

lemma coarse_mono: "coarse p ss ts \<Longrightarrow> (\<And>e. p e \<Longrightarrow> q e) \<Longrightarrow> coarse q ss ts"
  by (induction rule: coarse.induct)
    (auto intro: coarse.intros settled_mono simp: freed_def)

lemma settled_free_freed: "settled seen s t \<Longrightarrow> sliceState t = SliceFree \<Longrightarrow> freed seen s"
  by (auto simp: settled_def freed_def)

text \<open>Joining first and coarsening afterwards is a coarsening of the original list.\<close>

lemma coarse_absorb:
  assumes co: "coarse seen (c1\<lparr>sliceSize := sliceSize c1 + sliceSize n1\<rparr> # rest) out"
    and c: "settled seen c c1" "sliceState c1 = SliceFree"
    and n: "settled seen n n1" "sliceState n1 = SliceFree"
    and adj: "sliceOffset c1 + sliceSize c1 = sliceOffset n1"
  shows "coarse seen (c # n # rest) out"
  using co
proof cases
  case 1: (coarse_one t ts)
  then have t: "t = c1\<lparr>sliceSize := sliceSize c1 + sliceSize n1\<rparr>"
    using c(2) by (auto simp: settled_def)
  have "coarse seen (n # rest) (n1 # ts)" by (rule coarse_one [OF n(1) 1(3)])
  from coarse_join [OF settled_free_freed [OF c] this n(2)] 1(1) t c n adj settled_range
  show ?thesis by auto
next
  case 2: (coarse_join m ts t)
  let ?n2 = "n1\<lparr>sliceSize := sliceSize n1 + sliceSize m\<rparr>"
  have *: "sliceOffset n + sliceSize n = sliceOffset m"
    using 2(9) adj settled_range [OF n(1)] by (simp add: add.assoc [symmetric])
  have "coarse seen (n # rest) (?n2 # ts)"
    by (rule coarse_join [OF settled_free_freed [OF n] 2(3) 2(4)])
      (use n(2) settled_range [OF n(1)] * in auto)
  from coarse_join [OF settled_free_freed [OF c] this]
  show ?thesis
    using 2 c n adj settled_range [OF c(1)] settled_range [OF n(1)]
    by (auto simp: algebra_simps)
qed

lemma coarse_settle:
  assumes "settled seen n n1" and "coarse seen (n1 # rest) out"
  shows "coarse seen (n # rest) out"
  using assms(2)
proof cases
  case (coarse_one t ts)
  moreover have "settled seen n t"
    using assms(1) coarse_one(2) by (auto simp: settled_def markFree_def)
  ultimately show ?thesis using coarse.coarse_one by blast
next
  case (coarse_join m ts t)
  have "freed seen n"
    using assms(1) coarse_join(2) by (auto simp: settled_def freed_def markFree_def)
  from coarse.coarse_join [OF this coarse_join(3,4)] coarse_join settled_range [OF assms(1)]
  show ?thesis by auto
qed

lemma mergeFreeSlices_spec:
  "mergeFreeSlices env ss w = (ts, w') \<Longrightarrow>
     coarse (seenDone env (logLen w) (logLen w')) ss ts \<and> logLen w \<le> logLen w' \<and>
     api_world.more w' = api_world.more w"
proof (induction "length ss" arbitrary: ss w ts w' rule: less_induct)
  case less
  consider "\<exists>s. ss = [] \<or> ss = [s]" | c n rest where "ss = c # n # rest"
    by (cases ss; cases "tl ss") auto
  then show ?case
  proof cases
    case 1
    with less.prems show ?thesis by (auto intro: coarse_refl)
  next
    case (2 c n rest)
    obtain cOk c1 w1 where c: "reusable env c w = (cOk, c1, w1)" by (cases "reusable env c w") auto
    note cs = reusable_spec [OF c]
    obtain nOk n1 w2 where n: "reusable env n w1 = (nOk, n1, w2)" by (cases "reusable env n w1") auto
    note ns = reusable_spec [OF n]
    consider (skip) "\<not> cOk" | (join) "cOk" "nOk" "sliceOffset c1 + sliceSize c1 = sliceOffset n1"
      | (pass) "cOk" "\<not> (nOk \<and> sliceOffset c1 + sliceSize c1 = sliceOffset n1)" by blast
    then show ?thesis
    proof cases
      case skip
      then obtain out where out: "mergeFreeSlices env (n # rest) w1 = (out, w')" "ts = c1 # out"
        using less.prems c 2 by (auto split: prod.splits)
      have IH: "coarse (seenDone env (logLen w1) (logLen w')) (n # rest) out \<and> logLen w1 \<le> logLen w' \<and>
         api_world.more w' = api_world.more w1"
        using less.hyps [OF _ out(1)] 2 by simp
      have "settled (seenDone env (logLen w) (logLen w')) c c1"
        by (rule settled_mono [OF conjunct1 [OF cs]]) (use IH in \<open>auto elim: seenDone_mono\<close>)
      moreover have "coarse (seenDone env (logLen w) (logLen w')) (n # rest) out"
        by (rule coarse_mono [OF conjunct1 [OF IH]]) (use cs in \<open>auto elim: seenDone_mono\<close>)
      ultimately show ?thesis using IH cs by (auto simp: 2 out(2) intro: coarse_one)
    next
      case join
      let ?w3 = "if doneEvent n1 \<noteq> nullptr
                 then snd (callApi env (Cuda (cudaEventDestroy (doneEvent n1))) w2) else w2"
      let ?c2 = "c1\<lparr>sliceSize := sliceSize c1 + sliceSize n1\<rparr>"
      have run: "mergeFreeSlices env (?c2 # rest) ?w3 = (ts, w')"
        using less.prems c n join 2 by simp
      have IH: "coarse (seenDone env (logLen ?w3) (logLen w')) (?c2 # rest) ts \<and> logLen ?w3 \<le> logLen w' \<and>
         api_world.more w' = api_world.more ?w3"
        using less.hyps [OF _ run] 2 by simp
      have w3: "logLen w2 \<le> logLen ?w3" "api_world.more ?w3 = api_world.more w2"
        by (simp_all add: callApi_def)
      have "coarse (seenDone env (logLen w) (logLen w')) (c # n # rest) ts"
      proof (rule coarse_absorb)
        show "coarse (seenDone env (logLen w) (logLen w')) (?c2 # rest) ts"
          by (rule coarse_mono [OF conjunct1 [OF IH]], erule seenDone_mono) (use cs ns w3 in linarith)+
        show "settled (seenDone env (logLen w) (logLen w')) c c1"
          by (rule settled_mono [OF conjunct1 [OF cs]], erule seenDone_mono) (use IH ns w3 in linarith)+
        show "settled (seenDone env (logLen w) (logLen w')) n n1"
          by (rule settled_mono [OF conjunct1 [OF ns]], erule seenDone_mono) (use IH cs w3 in linarith)+
      qed (use cs ns join in auto)
      moreover have "logLen w \<le> logLen w'" using IH w3 cs ns by linarith
      moreover have "api_world.more w' = api_world.more w" using IH w3(2) cs ns by simp
      ultimately show ?thesis by (simp add: 2)
    next
      case pass
      then obtain out where out: "mergeFreeSlices env (n1 # rest) w2 = (out, w')" "ts = c1 # out"
        using less.prems c n 2 by (auto split: prod.splits)
      have IH: "coarse (seenDone env (logLen w2) (logLen w')) (n1 # rest) out \<and> logLen w2 \<le> logLen w' \<and>
         api_world.more w' = api_world.more w2"
        using less.hyps [OF _ out(1)] 2 by simp
      have "coarse (seenDone env (logLen w) (logLen w')) (n1 # rest) out"
        by (rule coarse_mono [OF conjunct1 [OF IH]], erule seenDone_mono) (use cs ns in linarith)+
      moreover have "settled (seenDone env (logLen w) (logLen w')) n n1"
        by (rule settled_mono [OF conjunct1 [OF ns]], erule seenDone_mono) (use IH cs in linarith)+
      moreover have "settled (seenDone env (logLen w) (logLen w')) c c1"
        by (rule settled_mono [OF conjunct1 [OF cs]], erule seenDone_mono) (use IH ns in linarith)+
      ultimately have "coarse (seenDone env (logLen w) (logLen w')) (c # n # rest) ts"
        unfolding out(2) by (metis coarse_one coarse_settle)
      moreover have "logLen w \<le> logLen w'" using IH cs ns by linarith
      moreover have "api_world.more w' = api_world.more w" using IH cs ns by simp
      ultimately show ?thesis by (simp add: 2)
    qed
  qed
qed

section \<open>What coarsening keeps\<close>

definition inUse :: "BufferSlice \<Rightarrow> bool" where
  "inUse s \<longleftrightarrow> sliceState s = SliceInUse"

lemma freed_not_inUse: "freed seen s \<Longrightarrow> \<not> inUse s"
  by (auto simp: freed_def inUse_def)

lemma coarse_inUse: "coarse seen ss ts \<Longrightarrow> filter inUse ts = filter inUse ss"
proof (induction rule: coarse.induct)
  case (coarse_one s t ss ts)
  then show ?case by (auto simp: settled_def markFree_def inUse_def)
next
  case (coarse_join s ss m ts t)
  then show ?case using freed_not_inUse [of seen s] by (simp add: inUse_def)
qed simp

lemma coarse_nodes: "coarse seen ss ts \<Longrightarrow> subseq (map sliceNode ts) (map sliceNode ss)"
proof (induction rule: coarse.induct)
  case (coarse_one s t ss ts)
  then show ?case using settled_range(3) by fastforce
next
  case (coarse_join s ss m ts t)
  then have "subseq (map sliceNode ts) (map sliceNode ss)" by (metis list.simps(9) subseq_Cons')
  with coarse_join show ?case by simp
qed simp

lemma coarse_tiles: "coarse seen ss ts \<Longrightarrow> tiles a ss b \<Longrightarrow> b < 2 ^ 64 \<Longrightarrow> tiles a ts b"
proof (induction arbitrary: a rule: coarse.induct)
  case (coarse_one s t ss ts)
  then show ?case by (simp add: settled_range)
next
  case (coarse_join s ss m ts t)
  have m: "tiles (a + unat (sliceSize s)) (m # ts) b" using coarse_join by simp
  then have "unat (sliceSize s) + unat (sliceSize m) < 2 ^ 64"
    using tiles_range [OF m, of m] coarse_join.prems(2) by simp
  then have "unat (sliceSize t) = unat (sliceSize s) + unat (sliceSize m)"
    using coarse_join by (simp add: unat_add_exact)
  with m coarse_join show ?case by (simp add: add.assoc)
qed simp

text \<open>
  The history of the bytes of a slice after coarsening: a busy slice is the old one unchanged,
  a free slice consists of slices that were free or seen complete.
\<close>

lemma coarse_history:
  assumes "coarse seen ss ts" and "tiles a ss b" and "b < 2 ^ 64"
    and "t \<in> set ts" and "s \<in> set ss" and "overlap t s"
  shows "if sliceState t = SliceFree then freed seen s else s = t"
  using assms
proof (induction arbitrary: a t s rule: coarse.induct)
  case (coarse_one x y ss ts)
  note c = coarse.coarse_one [OF coarse_one.hyps]
  have ti: "tiles (a + unat (sliceSize x)) ss b" "unat (sliceOffset x) = a" using coarse_one.prems by auto
  have to: "tiles (a + unat (sliceSize x)) ts b" by (rule coarse_tiles [OF coarse_one.hyps(2) ti(1) coarse_one.prems(2)])
  have y: "unat (sliceOffset y) = a" "sliceSize y = sliceSize x"
    using settled_range [OF coarse_one.hyps(1)] ti by auto
  show ?case
  proof (cases "t = y \<or> t \<in> set ts \<and> s \<in> set ss")
    case True
    then show ?thesis
    proof
      assume t: "t = y"
      have "s = x \<or> s \<in> set ss" using coarse_one.prems by simp
      moreover have "\<not> overlap y s" if "s \<in> set ss"
        using tiles_range [OF ti(1) that] y by (auto simp: overlap_def)
      ultimately have "s = x" using coarse_one.prems t by auto
      with t coarse_one.hyps(1) show ?thesis
        by (auto simp: settled_def freed_def markFree_def)
    next
      assume "t \<in> set ts \<and> s \<in> set ss"
      with coarse_one.IH [OF ti(1)] coarse_one.prems show ?thesis by blast
    qed
  next
    case False
    then have "t \<in> set ts" "s = x" using coarse_one.prems by auto
    with tiles_range [OF to, of t] ti(2) coarse_one.prems show ?thesis by (auto simp: overlap_def)
  qed
next
  case (coarse_join x ss m ts y)
  have ti: "tiles (a + unat (sliceSize x)) ss b" "unat (sliceOffset x) = a" using coarse_join.prems by auto
  have tm: "tiles (a + unat (sliceSize x)) (m # ts) b"
    by (rule coarse_tiles [OF coarse_join.hyps(2) ti(1) coarse_join.prems(2)])
  have "unat (sliceSize x) + unat (sliceSize m) < 2 ^ 64"
    using tiles_range [OF tm, of m] coarse_join.prems(2) by simp
  then have y: "unat (sliceSize y) = unat (sliceSize x) + unat (sliceSize m)" "unat (sliceOffset y) = a"
    using coarse_join.hyps ti by (simp_all add: unat_add_exact)
  note IH = coarse_join.IH [OF ti(1) coarse_join.prems(2)]
  have st: "s = x \<or> s \<in> set ss" "t = y \<or> t \<in> set ts" using coarse_join.prems by auto
  show ?case
  proof (cases "s = x")
    case True
    moreover have "\<not> overlap t x" if "t \<in> set ts"
      using tiles_range [OF tm, of t] that ti(2) by (auto simp: overlap_def)
    ultimately show ?thesis using st coarse_join.hyps coarse_join.prems by auto
  next
    case False
    then have s: "s \<in> set ss" using st by simp
    show ?thesis
    proof (cases "t = y")
      case ty: True
      have "overlap m s"
        using coarse_join.prems(5) tiles_range [OF ti(1) s] y tm ty by (auto simp: overlap_def)
      with IH [of m s] s coarse_join.hyps ty show ?thesis by simp
    next
      case False
      with IH [of t s] s st coarse_join.prems show ?thesis by simp
    qed
  qed
qed simp

section \<open>Taking a slice\<close>

lemma reusableOnStream_spec:
  assumes "reusableOnStream env strm allow s w = (ok, t, w')"
  shows "settled (seenDone env (logLen w) (logLen w')) s t \<and> logLen w \<le> logLen w' \<and>
         api_world.more w' = api_world.more w \<and>
         (ok \<longleftrightarrow> sliceState t = SliceFree \<or>
                (allow \<and> sliceState t = SlicePending \<and> pendingStream t = strm \<and> t = s))"
  using assms reusable_spec [of env s w ok t w']
  by (auto simp: reusableOnStream_def settled_def markFree_def split: if_splits)

text \<open>
  The outcome of the search, over the list before and after it: the slices in front of the chosen
  one are settled, the chosen one is carved, the rest is unchanged.
\<close>

inductive taken ::
  "(ptr \<Rightarrow> bool) \<Rightarrow> ptr \<Rightarrow> bool \<Rightarrow> size_t \<Rightarrow> nat \<Rightarrow> BufferSlice \<Rightarrow> BufferSlice list \<Rightarrow> BufferSlice list \<Rightarrow> bool"
  for seen strm allow bytes nod c where
  taken_here: "settled seen s s1 \<Longrightarrow> bytes \<le> sliceSize s1 \<Longrightarrow>
    sliceState s1 = SliceFree \<or>
      allow \<and> sliceState s1 = SlicePending \<and> pendingStream s1 = strm \<and> s1 = s \<Longrightarrow>
    carve bytes nod s1 = (c, rmd) \<Longrightarrow> taken seen strm allow bytes nod c (s # post) (c # rmd @ post)"
| taken_there: "settled seen s s1 \<Longrightarrow> taken seen strm allow bytes nod c ss ts \<Longrightarrow>
    taken seen strm allow bytes nod c (s # ss) (s1 # ts)"

lemma taken_mono:
  "taken p strm allow bytes nod c ss ts \<Longrightarrow> (\<And>e. p e \<Longrightarrow> q e) \<Longrightarrow> taken q strm allow bytes nod c ss ts"
  by (induction rule: taken.induct) (auto intro: taken.intros settled_mono)

lemma takeSlice_spec:
  assumes "takeSlice env strm allow bytes nod ss w = (found, ts, w')"
  shows "logLen w \<le> logLen w' \<and> api_world.more w' = api_world.more w \<and>
    (case found of
       None \<Rightarrow> list_all2 (settled (seenDone env (logLen w) (logLen w'))) ss ts \<and>
               (\<forall>t \<in> set ts. sliceState t = SliceFree \<longrightarrow> sliceSize t < bytes)
     | Some c \<Rightarrow> taken (seenDone env (logLen w) (logLen w')) strm allow bytes nod c ss ts)"
  using assms
proof (induction ss arbitrary: w found ts w')
  case (Cons s rest)
  obtain ok s1 w1 where r: "reusableOnStream env strm allow s w = (ok, s1, w1)"
    by (cases "reusableOnStream env strm allow s w") auto
  note rs = reusableOnStream_spec [OF r]
  show ?case
  proof (cases "\<not> ok \<or> sliceSize s1 < bytes")
    case True
    obtain rest' where t: "takeSlice env strm allow bytes nod rest w1 = (found, rest', w')" "ts = s1 # rest'"
      using Cons.prems r True by (auto split: prod.splits)
    note IH = Cons.IH [OF t(1)]
    have up: "seenDone env (logLen w1) (logLen w') e \<Longrightarrow> seenDone env (logLen w) (logLen w') e" for e
      by (erule seenDone_mono) (use rs in auto)
    have s1: "settled (seenDone env (logLen w) (logLen w')) s s1"
      by (rule settled_mono [OF conjunct1 [OF rs]], erule seenDone_mono) (use IH in auto)
    have small: "sliceState s1 = SliceFree \<longrightarrow> sliceSize s1 < bytes" using True rs by auto
    show ?thesis
    proof (cases found)
      case None
      with IH have "list_all2 (settled (seenDone env (logLen w1) (logLen w'))) rest rest'" by simp
      then have "list_all2 (settled (seenDone env (logLen w) (logLen w'))) rest rest'"
        by (rule list_all2_mono) (erule settled_mono [OF _ up])
      with None IH s1 rs t(2) small show ?thesis by simp
    next
      case (Some c)
      with IH have "taken (seenDone env (logLen w1) (logLen w')) strm allow bytes nod c rest rest'" by simp
      from taken_there [OF s1 taken_mono [OF this up]] Some IH rs t(2) show ?thesis by simp
    qed
  next
    case False
    then obtain c rmd where "carve bytes nod s1 = (c, rmd)" "found = Some c" "ts = c # rmd @ rest" "w' = w1"
      using Cons.prems r by (auto split: prod.splits)
    with False rs taken_here [of "seenDone env (logLen w) (logLen w1)" s s1 bytes allow strm nod c rmd rest]
    show ?thesis by (auto simp: not_less)
  qed
qed simp

subsection \<open>Carving\<close>

lemma carve_spec:
  assumes "carve bytes nod s = (c, rmd)" and "bytes \<le> sliceSize s"
  shows "inUse c" "sliceNode c = sliceNode s" "sliceOffset c = sliceOffset s" "bytes \<le> sliceSize c"
    "sliceSize c \<le> sliceSize s" "filter inUse rmd = []" "set (map sliceNode rmd) \<subseteq> {nod}"
    "distinct (map sliceNode rmd)" "doneEvent c = doneEvent s"
  using assms by (auto simp: carve_def newSlice_def inUse_def Let_def split: if_splits)

lemma carve_tiles:
  assumes "carve bytes nod s = (c, rmd)" and "bytes \<le> sliceSize s"
    and "unat (sliceOffset s) + unat (sliceSize s) < 2 ^ 64"
  shows "tiles (unat (sliceOffset s)) (c # rmd) (unat (sliceOffset s) + unat (sliceSize s))"
proof (cases "sliceSize s > bytes \<and> sliceState s \<noteq> SlicePending")
  case True
  have le: "unat bytes \<le> unat (sliceSize s)" using assms(2) by (simp add: word_le_nat_alt)
  have "unat (sliceOffset s + bytes) = unat (sliceOffset s) + unat bytes"
    by (rule unat_add_exact) (use assms(3) le in linarith)
  moreover have "unat (sliceSize s - bytes) = unat (sliceSize s) - unat bytes"
    using assms(2) by (simp add: unat_sub_exact)
  ultimately show ?thesis using True assms(1) le by (auto simp: carve_def newSlice_def)
next
  case False
  with assms(1) show ?thesis by (auto simp: carve_def Let_def)
qed

subsection \<open>What taking a slice keeps\<close>

lemma taken_chosen:
  "taken seen strm allow bytes nod c ss ts \<Longrightarrow> c \<in> set ts \<and> inUse c \<and> bytes \<le> sliceSize c"
  by (induction rule: taken.induct) (auto dest: carve_spec)

lemma taken_inUse:
  "taken seen strm allow bytes nod c ss ts \<Longrightarrow>
     \<exists>xs ys. filter inUse ts = xs @ c # ys \<and> filter inUse ss = xs @ ys"
proof (induction rule: taken.induct)
  case (taken_here s s1 rmd post)
  then have "\<not> inUse s" by (auto simp: settled_def inUse_def)
  with carve_spec(1,6) [OF taken_here(4,2)] show ?case
    by (intro exI [of _ "[]"] exI [of _ "filter inUse post"]) simp
next
  case (taken_there s s1 ss ts)
  then obtain xs ys where *: "filter inUse ts = xs @ c # ys" "filter inUse ss = xs @ ys" by blast
  have "inUse s = inUse s1 \<and> (inUse s \<longrightarrow> s1 = s)"
    using taken_there(1) by (auto simp: settled_def markFree_def inUse_def)
  then show ?case
    using * by (cases "inUse s") (auto intro: exI [of _ "s # xs"] exI [of _ xs])
qed

lemma taken_tiles:
  "taken seen strm allow bytes nod c ss ts \<Longrightarrow> tiles a ss b \<Longrightarrow> b < 2 ^ 64 \<Longrightarrow> tiles a ts b"
proof (induction arbitrary: a rule: taken.induct)
  case (taken_here s s1 rmd post)
  have s1: "sliceOffset s1 = sliceOffset s" "sliceSize s1 = sliceSize s"
    using settled_range [OF taken_here(1)] by simp_all
  have rest: "unat (sliceOffset s) = a" "tiles (a + unat (sliceSize s)) post b"
    using taken_here.prems by simp_all
  have "unat (sliceOffset s1) + unat (sliceSize s1) < 2 ^ 64"
    using tiles_le [OF rest(2)] rest(1) s1 taken_here.prems(2) by simp
  from carve_tiles [OF taken_here(4,2) this] rest s1
  have "tiles a ((c # rmd) @ post) b" unfolding tiles_append by fastforce
  then show ?case by simp
next
  case (taken_there s s1 ss ts)
  then show ?case by (simp add: settled_range)
qed

lemma taken_nodes:
  "taken seen strm allow bytes nod c ss ts \<Longrightarrow> distinct (map sliceNode ss) \<Longrightarrow>
   nod \<notin> set (map sliceNode ss) \<Longrightarrow>
   distinct (map sliceNode ts) \<and> set (map sliceNode ts) \<subseteq> insert nod (set (map sliceNode ss)) \<and>
   sliceNode c \<in> set (map sliceNode ss)"
proof (induction rule: taken.induct)
  case (taken_here s s1 rmd post)
  note cs = carve_spec [OF taken_here(4,2)] and sr = settled_range(3) [OF taken_here(1)]
  have "distinct (map sliceNode rmd)" "set (map sliceNode rmd) \<subseteq> {nod}" by (fact cs)+
  with cs(2) sr taken_here.prems show ?case by auto
next
  case (taken_there s s1 ss ts)
  then have IH: "distinct (map sliceNode ts)" "set (map sliceNode ts) \<subseteq> insert nod (set (map sliceNode ss))"
    "sliceNode c \<in> set (map sliceNode ss)" by auto
  have "sliceNode s1 = sliceNode s" by (rule settled_range(3) [OF taken_there(1)])
  moreover have "sliceNode s \<noteq> nod" "sliceNode s \<notin> set (map sliceNode ss)" using taken_there.prems by auto
  ultimately show ?case using IH by auto
qed

text \<open>
  The bytes handed out lie in one slice of the list, which was free, was seen complete, or was
  pending on the same stream.
\<close>

lemma taken_source:
  "taken seen strm allow bytes nod c ss ts \<Longrightarrow> tiles a ss b \<Longrightarrow>
   \<exists>s \<in> set ss. sliceOffset c = sliceOffset s \<and> sliceSize c \<le> sliceSize s \<and>
     (freed seen s \<or> allow \<and> sliceState s = SlicePending \<and> pendingStream s = strm)"
proof (induction arbitrary: a rule: taken.induct)
  case (taken_here s s1 rmd post)
  have "freed seen s \<or> allow \<and> sliceState s = SlicePending \<and> pendingStream s = strm"
    using taken_here(1,3) by (auto simp: settled_def freed_def markFree_def)
  with carve_spec(3,5) [OF taken_here(4,2)] settled_range [OF taken_here(1)] show ?case by auto
next
  case (taken_there s s1 ss ts)
  then show ?case by (metis list.set_intros(2) tiles.simps(2))
qed

lemma taken_history:
  assumes tk: "taken seen strm allow bytes nod c ss ts" and ti: "tiles a ss b"
    and s: "s \<in> set ss" "overlap c s"
  shows "freed seen s \<or> allow \<and> sliceState s = SlicePending \<and> pendingStream s = strm"
proof -
  obtain x where x: "x \<in> set ss" "sliceOffset c = sliceOffset x" "sliceSize c \<le> sliceSize x"
    "freed seen x \<or> allow \<and> sliceState x = SlicePending \<and> pendingStream x = strm"
    using taken_source [OF tk ti] by blast
  have xs: "overlap x s" using s(2) x(2,3) by (auto simp: overlap_def word_le_nat_alt)
  obtain xs ys where split: "ss = xs @ x # ys" using x(1) by (meson split_list)
  have "s = x"
    using tiles_disjoint [OF ti [unfolded split]] s(1) split xs by auto
  with x(4) show ?thesis by simp
qed

section \<open>Acquiring from a block\<close>

text \<open>
  The part of \<^verbatim>\<open>acquireFromBlock\<close> that both backends share: merge, then search. The answer
  \<^verbatim>\<open>ncclInProgress\<close> ("nothing here, try the next block") is \<open>None\<close>.
\<close>

definition acquireSlice ::
  "api_env \<Rightarrow> ptr \<Rightarrow> bool \<Rightarrow> size_t \<Rightarrow> nat \<Rightarrow> BufferSlice list \<Rightarrow> 'w api_world_scheme \<Rightarrow>
   BufferSlice option \<times> BufferSlice list \<times> 'w api_world_scheme" where
  "acquireSlice env strm allow bytes nod ss w =
     (let (merged, w1) = mergeFreeSlices env ss w in takeSlice env strm allow bytes nod merged w1)"

text \<open>
  A block's slices: a partition of the block, with identities that are distinct and below the
  counter new identities are drawn from.
\<close>

definition slices_wf :: "nat \<Rightarrow> nat \<Rightarrow> BufferSlice list \<Rightarrow> bool" where
  "slices_wf nxt capacity ss \<longleftrightarrow> tiles 0 ss capacity \<and> capacity < 2 ^ 64 \<and>
     distinct (map sliceNode ss) \<and> (\<forall>s \<in> set ss. sliceNode s < nxt)"

lemma slices_wf_mono: "slices_wf n c ss \<Longrightarrow> n \<le> m \<Longrightarrow> slices_wf m c ss"
  by (auto simp: slices_wf_def)

text \<open>
  The contract of a successful acquisition. \<open>before\<close> and \<open>after\<close> are the slice lists, \<open>c\<close> the slice
  handed out on stream \<open>strm\<close>, \<open>seen\<close> the events observed complete meanwhile.
\<close>

definition slice_handed_out ::
  "(ptr \<Rightarrow> bool) \<Rightarrow> ptr \<Rightarrow> bool \<Rightarrow> size_t \<Rightarrow> BufferSlice list \<Rightarrow> BufferSlice list \<Rightarrow> BufferSlice \<Rightarrow> bool" where
  "slice_handed_out seen strm allow bytes before after c \<longleftrightarrow>
     bytes \<le> sliceSize c \<and>
     (\<exists>xs ys. filter inUse after = xs @ c # ys \<and> filter inUse before = xs @ ys) \<and>
     (\<forall>s \<in> set before. overlap c s \<longrightarrow>
        freed seen s \<or> allow \<and> sliceState s = SlicePending \<and> pendingStream s = strm)"

lemma coarse_wf:
  assumes "coarse seen ss ts" and "slices_wf nxt cap ss"
  shows "slices_wf nxt cap ts"
proof -
  have sub: "subseq (map sliceNode ts) (map sliceNode ss)" by (rule coarse_nodes [OF assms(1)])
  then obtain N where "map sliceNode ts = nths (map sliceNode ss) N"
    by (auto simp: subseq_conv_nths)
  then have "distinct (map sliceNode ts)"
    using assms(2) by (simp add: slices_wf_def)
  moreover have "set (map sliceNode ts) \<subseteq> set (map sliceNode ss)"
    using sub by (metis notin_set_nthsI subseq_conv_nths subsetI)
  ultimately show ?thesis
    using assms coarse_tiles [OF assms(1)] by (auto simp: slices_wf_def image_subset_iff)
qed

lemma settled_coarse: "list_all2 (settled seen) ss ts \<Longrightarrow> coarse seen ss ts"
  by (induction rule: list_all2_induct) (auto intro: coarse.intros)

lemma acquireSlice_log:
  "acquireSlice env strm allow bytes nod ss w = (found, ts, w') \<Longrightarrow>
     logLen w \<le> logLen w' \<and> api_world.more w' = api_world.more w"
  by (auto simp: acquireSlice_def split: prod.splits
      dest!: mergeFreeSlices_spec takeSlice_spec)

lemma acquireSlice_None:
  assumes run: "acquireSlice env strm allow bytes nod ss w = (None, ts, w')"
    and wf: "slices_wf nxt cap ss"
  shows "slices_wf nxt cap ts \<and> filter inUse ts = filter inUse ss"
proof -
  obtain ms w1 where m: "mergeFreeSlices env ss w = (ms, w1)"
    and t: "takeSlice env strm allow bytes nod ms w1 = (None, ts, w')"
    using run by (auto simp: acquireSlice_def split: prod.splits)
  note co = conjunct1 [OF mergeFreeSlices_spec [OF m]]
  have co2: "coarse (seenDone env (logLen w1) (logLen w')) ms ts"
    using takeSlice_spec [OF t] by (auto intro: settled_coarse)
  show ?thesis
    using coarse_wf [OF co2 coarse_wf [OF co wf]] coarse_inUse [OF co] coarse_inUse [OF co2] by simp
qed

lemma acquireSlice_Some:
  assumes run: "acquireSlice env strm allow bytes nod ss w = (Some c, ts, w')"
    and wf: "slices_wf nod cap ss"
  shows "slices_wf (Suc nod) cap ts" and "c \<in> set ts" and "inUse c"
    and "slice_handed_out (seenDone env (logLen w) (logLen w')) strm allow bytes ss ts c"
proof -
  let ?seen = "seenDone env (logLen w) (logLen w')"
  obtain ms w1 where m: "mergeFreeSlices env ss w = (ms, w1)"
    and t: "takeSlice env strm allow bytes nod ms w1 = (Some c, ts, w')"
    using run by (auto simp: acquireSlice_def split: prod.splits)
  note ms = mergeFreeSlices_spec [OF m] and tsp = takeSlice_spec [OF t]
  have co: "coarse ?seen ss ms"
    by (rule coarse_mono [OF conjunct1 [OF ms]], erule seenDone_mono) (use tsp in auto)
  have tk: "taken ?seen strm allow bytes nod c ms ts"
    by (rule taken_mono [of "seenDone env (logLen w1) (logLen w')"])
      (use tsp ms in \<open>auto elim: seenDone_mono\<close>)
  note wfm = coarse_wf [OF co wf]
  have ti: "tiles 0 ss cap" "tiles 0 ms cap" "cap < 2 ^ 64" using wf wfm by (auto simp: slices_wf_def)
  have "nod \<notin> set (map sliceNode ms)" "distinct (map sliceNode ms)"
    using wfm by (auto simp: slices_wf_def)
  from taken_nodes [OF tk this(2,1)] taken_tiles [OF tk ti(2,3)] wfm
  show "slices_wf (Suc nod) cap ts" by (auto simp: slices_wf_def less_Suc_eq)
  show "c \<in> set ts" "inUse c" using taken_chosen [OF tk] by auto
  have hist: "freed ?seen s \<or> allow \<and> sliceState s = SlicePending \<and> pendingStream s = strm"
    if s: "s \<in> set ss" "overlap c s" for s
  proof -
    obtain x where x: "x \<in> set ms" "sliceOffset c = sliceOffset x" "sliceSize c \<le> sliceSize x"
      "freed ?seen x \<or> allow \<and> sliceState x = SlicePending \<and> pendingStream x = strm"
      using taken_source [OF tk ti(2)] by blast
    have "overlap x s" using s(2) x(2,3) by (auto simp: overlap_def word_le_nat_alt)
    from coarse_history [OF co ti(1,3) x(1) s(1) this] x(4) show ?thesis
      by (auto split: if_splits)
  qed
  show "slice_handed_out ?seen strm allow bytes ss ts c"
    unfolding slice_handed_out_def
    using taken_chosen [OF tk] taken_inUse [OF tk] coarse_inUse [OF co] hist by auto
qed

text \<open>A fresh block, one free slice, always serves a request that is not larger than it.\<close>

lemma acquireSlice_fresh:
  assumes "bytes \<le> cap"
  shows "\<exists>c ts. acquireSlice env strm allow bytes nod [newSlice n 0 cap] w = (Some c, ts, w)"
  using assms
  by (auto simp: acquireSlice_def reusableOnStream_def reusable_def newSlice_def split_beta Let_def)

lemma acquireSlice_fresh_at:
  assumes "bytes \<le> cap"
  shows "\<exists>c ts. acquireSlice env strm allow bytes nod [newSlice n 0 cap] w = (Some c, ts, w) \<and> sliceOffset c = 0"
  using assms
  by (auto simp: acquireSlice_def reusableOnStream_def reusable_def newSlice_def carve_def split_beta Let_def)

text \<open>Two slices in use never share a byte.\<close>

lemma inUse_disjoint:
  assumes wf: "slices_wf nxt cap ss" and "s \<in> set ss" "t \<in> set ss" "sliceNode s \<noteq> sliceNode t"
  shows "\<not> overlap s t"
proof -
  obtain xs ys where split: "ss = xs @ s # ys" using assms(2) by (meson split_list)
  have "t \<in> set xs \<union> set ys" using assms split by auto
  from tiles_disjoint [OF _ this] wf split show ?thesis by (auto simp: slices_wf_def)
qed

section \<open>Updating one slice\<close>

text \<open>A handle's slice is found by its identity.\<close>

definition findSlice :: "nat \<Rightarrow> BufferSlice list \<Rightarrow> BufferSlice option" where
  "findSlice nod ss = find (\<lambda>s. sliceNode s = nod) ss"

definition updateSlice :: "nat \<Rightarrow> (BufferSlice \<Rightarrow> BufferSlice) \<Rightarrow> BufferSlice list \<Rightarrow> BufferSlice list" where
  "updateSlice nod f = map (\<lambda>s. if sliceNode s = nod then f s else s)"

lemma updateSlice_range [simp]:
  assumes "\<And>s. sliceNode (f s) = sliceNode s" "\<And>s. sliceOffset (f s) = sliceOffset s"
    "\<And>s. sliceSize (f s) = sliceSize s"
  shows "slices_wf n cap (updateSlice nod f ss) = slices_wf n cap ss"
proof -
  have "tiles a (updateSlice nod f ss) cap = tiles a ss cap" for a
    by (induction ss arbitrary: a) (auto simp: updateSlice_def assms)
  moreover have "map sliceNode (updateSlice nod f ss) = map sliceNode ss"
    by (simp add: updateSlice_def assms)
  moreover from this have "sliceNode ` set (updateSlice nod f ss) = sliceNode ` set ss"
    by (metis list.set_map)
  then have "(\<forall>k \<in> sliceNode ` set (updateSlice nod f ss). k < n) = (\<forall>k \<in> sliceNode ` set ss. k < n)"
    by simp
  ultimately show ?thesis by (simp add: slices_wf_def)
qed

text \<open>Ending the use of one slice removes it, and nothing else, from the slices in use.\<close>

lemma updateSlice_not_inUse:
  assumes "\<And>s. \<not> inUse (f s)"
  shows "filter inUse (updateSlice nod f ss) = filter (\<lambda>s. sliceNode s \<noteq> nod) (filter inUse ss)"
  using assms by (induction ss) (auto simp: updateSlice_def)

end
