(* ===== verification/Buffer_Lease.thy ===== *)
theory Buffer_Lease
  imports Buffer_Slice
begin

text \<open>
  What the workspace allocator promises, for either backend: leases, the byte ranges of the slices
  in use, never overlap. A pool is seen as a list of blocks (identity, base address, capacity,
  slices). The locale at the end is the contract a backend offers to the buffer management.
\<close>

section \<open>Handles and routines over blocks\<close>

text \<open>
  A handle names its block and its slice by their identities; a null pointer is \<open>None\<close>.
\<close>

record cocclBufferHandle =
  handlePtr :: ptr
  handleBytes :: size_t
  handleOwner :: ptr
  handleBlock :: "nat option"
  handleSlice :: "nat option"

definition emptyHandle :: cocclBufferHandle where
  "emptyHandle = \<lparr>handlePtr = nullptr, handleBytes = 0, handleOwner = nullptr, handleBlock = None,
     handleSlice = None\<rparr>"

text \<open>The world also supplies the identities of new blocks and slices.\<close>

record node_world = api_world +
  nextNode :: nat

text \<open>Routines over a block or pool and the world: an API call inside them.\<close>

definition inWorld :: "('w, 'a) comp \<Rightarrow> ('x \<times> 'w, 'a) comp" where
  "inWorld m s = (let (r, w') = m (snd s) in (r, (fst s, w')))"

definition updateC :: "('x \<Rightarrow> 'x) \<Rightarrow> ('x \<times> 'w, unit) comp" where
  "updateC f = modifyC (\<lambda>(x, w). (f x, w))"

definition getX :: "('x \<Rightarrow> 'a) \<Rightarrow> ('x \<times> 'w, 'a) comp" where
  "getX f = getC (\<lambda>(x, w). f x)"

text \<open>A loop over the blocks of a pool whose body may leave the function.\<close>

fun forBlocks ::
  "('b \<times> 'w, unit) comp \<Rightarrow> ('b list \<times> 'w, unit) comp" where
  "forBlocks f ([], w) = (Inr (), ([], w))"
| "forBlocks f (b # bs, w) =
     (case f (b, w) of
        (Inl e, (b', w')) \<Rightarrow> (Inl e, (b' # bs, w'))
      | (Inr _, (b', w')) \<Rightarrow>
          (case forBlocks f (bs, w') of (r, (bs', w'')) \<Rightarrow> (r, (b' # bs', w''))))"

definition overBlocks ::
  "('b list \<times> 'w, 'a) comp \<Rightarrow> ('p \<Rightarrow> 'b list) \<Rightarrow> ('b list \<Rightarrow> 'p \<Rightarrow> 'p) \<Rightarrow> ('p \<times> 'w, 'a) comp" where
  "overBlocks m get put s =
     (case m (get (fst s), snd s) of (r, (bs, w)) \<Rightarrow> (r, (put bs (fst s), w)))"

text \<open>The block a handle points to.\<close>

fun onBlock :: "('b \<Rightarrow> bool) \<Rightarrow> ('b \<times> 'w, 'a) comp \<Rightarrow> ('b list \<times> 'w, 'a) comp" where
  "onBlock P f ([], w) = (Inl ncclInternalError, ([], w))"
| "onBlock P f (b # bs, w) =
     (if P b then (case f (b, w) of (r, (b', w')) \<Rightarrow> (r, (b' # bs, w')))
      else (case onBlock P f (bs, w) of (r, (bs', w')) \<Rightarrow> (r, (b # bs', w'))))"

lemma onBlock_split:
  assumes "onBlock P f (bs, w) = (r, (bs', w'))"
  shows "(\<forall>b \<in> set bs. \<not> P b) \<and> bs' = bs \<and> w' = w \<and> r \<in> range Inl \<or>
    (\<exists>xs b ys b'. bs = xs @ b # ys \<and> P b \<and> f (b, w) = (r, (b', w')) \<and> bs' = xs @ b' # ys)"
  using assms
proof (induction bs arbitrary: bs')
  case (Cons b bs)
  show ?case
  proof (cases "P b")
    case True
    with Cons.prems have "\<exists>b'. f (b, w) = (r, (b', w')) \<and> bs' = b' # bs" by (auto split: prod.splits)
    with True show ?thesis by (metis append_Nil)
  next
    case False
    then obtain bs2 where o: "onBlock P f (bs, w) = (r, (bs2, w'))" "bs' = b # bs2"
      using Cons.prems by (auto split: prod.splits)
    from Cons.IH [OF o(1)] False o(2) show ?thesis by (metis append_Cons set_ConsD)
  qed
qed auto

section \<open>Blocks and leases\<close>

record block_view =
  viewNode :: nat
  viewBase :: ptr
  viewCapacity :: size_t
  viewSlices :: "BufferSlice list"

definition block_range :: "block_view \<Rightarrow> nat \<times> nat" where
  "block_range v = (unat (viewBase v), unat (viewCapacity v))"

text \<open>Two ranges share no byte.\<close>

definition ranges_disjoint :: "nat \<times> nat \<Rightarrow> nat \<times> nat \<Rightarrow> bool" where
  "ranges_disjoint r q \<longleftrightarrow> snd r = 0 \<or> snd q = 0 \<or> disjoint_ranges (fst r) (snd r) (fst q) (snd q)"

definition block_wf :: "nat \<Rightarrow> block_view \<Rightarrow> bool" where
  "block_wf nxt v \<longleftrightarrow> viewNode v < nxt \<and> slices_wf nxt (unat (viewCapacity v)) (viewSlices v) \<and>
     unat (viewBase v) + unat (viewCapacity v) \<le> 2 ^ 64"

text \<open>Well-formed pool: block identities differ, and so do the addresses the blocks cover.\<close>

definition blocks_wf :: "nat \<Rightarrow> block_view list \<Rightarrow> bool" where
  "blocks_wf nxt vs \<longleftrightarrow> (\<forall>v \<in> set vs. block_wf nxt v) \<and> distinct (map viewNode vs) \<and>
     pairwise (\<lambda>v u. ranges_disjoint (block_range v) (block_range u)) (set vs)"

record lease =
  leaseBlock :: nat
  leaseSlice :: nat
  leaseRange :: "nat \<times> nat"

definition slice_lease :: "block_view \<Rightarrow> BufferSlice \<Rightarrow> lease" where
  "slice_lease v s = \<lparr>leaseBlock = viewNode v, leaseSlice = sliceNode s,
     leaseRange = (unat (viewBase v) + unat (sliceOffset s), unat (sliceSize s))\<rparr>"

definition leases :: "block_view list \<Rightarrow> lease set" where
  "leases vs = {slice_lease v s |v s. v \<in> set vs \<and> s \<in> set (viewSlices v) \<and> inUse s}"

lemma leases_append: "leases (xs @ ys) = leases xs \<union> leases ys"
  by (auto simp: leases_def)

lemma leases_Cons: "leases (v # vs) = slice_lease v ` {s \<in> set (viewSlices v). inUse s} \<union> leases vs"
  by (auto simp: leases_def)

lemma leases_Nil [simp]: "leases [] = {}"
  by (simp add: leases_def)

lemma slice_in_block:
  assumes "block_wf nxt v" and "s \<in> set (viewSlices v)"
  shows "unat (sliceOffset s) + unat (sliceSize s) \<le> unat (viewCapacity v)"
  using assms tiles_range [of 0 "viewSlices v" "unat (viewCapacity v)" s]
  by (simp add: block_wf_def slices_wf_def)

lemma unat_slice_address:
  assumes "block_wf nxt v" and "s \<in> set (viewSlices v)" and "0 < unat (sliceSize s)"
  shows "unat (viewBase v + sliceOffset s) = unat (viewBase v) + unat (sliceOffset s)"
  by (rule unat_add_exact) (use slice_in_block [OF assms(1,2)] assms in \<open>simp add: block_wf_def\<close>)

theorem leases_disjoint:
  assumes wf: "blocks_wf nxt vs" and a: "a \<in> leases vs" and b: "b \<in> leases vs"
    and ne: "leaseBlock a \<noteq> leaseBlock b \<or> leaseSlice a \<noteq> leaseSlice b"
  shows "ranges_disjoint (leaseRange a) (leaseRange b)"
proof -
  obtain v s where v: "v \<in> set vs" "s \<in> set (viewSlices v)" "a = slice_lease v s"
    using a by (auto simp: leases_def)
  obtain u t where u: "u \<in> set vs" "t \<in> set (viewSlices u)" "b = slice_lease u t"
    using b by (auto simp: leases_def)
  have wv: "block_wf nxt v" "block_wf nxt u" using wf v u by (auto simp: blocks_wf_def)
  show ?thesis
  proof (cases "v = u")
    case True
    with ne v u have "sliceNode s \<noteq> sliceNode t" by (auto simp: slice_lease_def)
    then have "\<not> overlap s t"
      using inUse_disjoint [of nxt _ "viewSlices v" s t] wv v u True by (auto simp: block_wf_def)
    with v u True show ?thesis
      by (auto simp: ranges_disjoint_def slice_lease_def disjoint_ranges_def overlap_def)
  next
    case False
    then have "ranges_disjoint (block_range v) (block_range u)"
      using wf v(1) u(1) by (auto simp: blocks_wf_def pairwise_def)
    with slice_in_block [OF wv(1) v(2)] slice_in_block [OF wv(2) u(2)] v u show ?thesis
      by (auto simp: ranges_disjoint_def slice_lease_def disjoint_ranges_def block_range_def)
  qed
qed

text \<open>A lease is determined by its block and slice identities.\<close>

lemma lease_identity:
  assumes wf: "blocks_wf nxt vs" and a: "a \<in> leases vs" and b: "b \<in> leases vs"
    and eq: "leaseBlock a = leaseBlock b \<and> leaseSlice a = leaseSlice b"
  shows "a = b"
proof -
  obtain v s where v: "v \<in> set vs" "s \<in> set (viewSlices v)" "a = slice_lease v s"
    using a by (auto simp: leases_def)
  obtain u t where u: "u \<in> set vs" "t \<in> set (viewSlices u)" "b = slice_lease u t"
    using b by (auto simp: leases_def)
  have "viewNode v = viewNode u" "sliceNode s = sliceNode t"
    using eq v u by (auto simp: slice_lease_def)
  then have "v = u" using wf v u by (auto simp: blocks_wf_def inj_on_def distinct_map)
  moreover from this have "s = t"
    using wf v u \<open>sliceNode s = sliceNode t\<close>
    by (auto simp: blocks_wf_def block_wf_def slices_wf_def distinct_map inj_on_def)
  ultimately show ?thesis using v u by simp
qed

section \<open>One block changes\<close>

lemma blocks_wf_mono: "blocks_wf n vs \<Longrightarrow> n \<le> m \<Longrightarrow> blocks_wf m vs"
  by (auto simp: blocks_wf_def block_wf_def intro: slices_wf_mono)

text \<open>A block keeps its identity and place when only its slices change.\<close>

definition same_place :: "block_view \<Rightarrow> block_view \<Rightarrow> bool" where
  "same_place v u \<longleftrightarrow> viewNode u = viewNode v \<and> viewBase u = viewBase v \<and> viewCapacity u = viewCapacity v"

lemma same_place_refl [simp]: "same_place v v"
  by (simp add: same_place_def)

lemma blocks_wf_replace:
  assumes wf: "blocks_wf n (xs @ v # ys)" and sp: "same_place v u" and u: "block_wf m u" and nm: "n \<le> m"
  shows "blocks_wf m (xs @ u # ys)"
proof -
  have "\<forall>x \<in> set xs \<union> set ys. block_wf m x"
    using blocks_wf_mono [OF wf nm] by (auto simp: blocks_wf_def)
  moreover have r: "block_range u = block_range v" using sp by (simp add: same_place_def block_range_def)
  have d: "distinct (map viewNode (xs @ v # ys))"
    and p: "pairwise (\<lambda>v u. ranges_disjoint (block_range v) (block_range u)) (set (xs @ v # ys))"
    using wf by (auto simp: blocks_wf_def)
  have "distinct (map viewNode (xs @ u # ys))"
    using d sp by (simp add: same_place_def)
  moreover have "pairwise (\<lambda>v u. ranges_disjoint (block_range v) (block_range u)) (set (xs @ u # ys))"
  proof (rule pairwiseI)
    fix x y assume xy: "x \<in> set (xs @ u # ys)" "y \<in> set (xs @ u # ys)" "x \<noteq> y"
    have v: "v \<notin> set xs \<union> set ys" using d by (auto simp: image_iff)
    have "x = u \<or> x \<in> set xs \<union> set ys" "y = u \<or> y \<in> set xs \<union> set ys" using xy by auto
    then show "ranges_disjoint (block_range x) (block_range y)"
      using p xy(3) v r by (auto simp: pairwise_def)
  qed
  ultimately show ?thesis using u by (auto simp: blocks_wf_def)
qed

lemma blocks_wf_update:
  assumes "blocks_wf n vs" "i < length vs" "same_place (vs ! i) u" "block_wf m u" "n \<le> m"
  shows "blocks_wf m (vs[i := u])"
  using blocks_wf_replace [of n "take i vs" "vs ! i" "drop (Suc i) vs" u m] assms
  by (simp add: id_take_nth_drop [symmetric] upd_conv_take_nth_drop)

lemma blocks_wf_add:
  assumes "blocks_wf n vs" and "block_wf m v" and "n \<le> m" and "viewNode v \<ge> n"
    and "\<forall>u \<in> set vs. ranges_disjoint (block_range u) (block_range v)"
  shows "blocks_wf m (vs @ [v])"
proof -
  have "viewNode v \<notin> viewNode ` set vs"
    using assms(1,4) by (auto simp: blocks_wf_def block_wf_def)
  moreover have "\<forall>u \<in> set vs. ranges_disjoint (block_range v) (block_range u)"
    using assms(5) by (auto simp: ranges_disjoint_def disjoint_ranges_def)
  ultimately show ?thesis
    using blocks_wf_mono [OF assms(1,3)] assms(2,5)
    by (auto simp: blocks_wf_def pairwise_def)
qed

text \<open>A block may also move to addresses no other block covers.\<close>

lemma blocks_wf_move:
  assumes wf: "blocks_wf n vs" and i: "i < length vs" and nod: "viewNode u = viewNode (vs ! i)"
    and u: "block_wf m u" and nm: "n \<le> m"
    and dis: "\<forall>v \<in> set vs. ranges_disjoint (block_range v) (block_range u)"
  shows "blocks_wf m (vs[i := u])"
proof -
  have old: "\<forall>v \<in> set vs. block_wf m v" using blocks_wf_mono [OF wf nm] by (simp add: blocks_wf_def)
  have sym: "\<forall>v \<in> set vs. ranges_disjoint (block_range u) (block_range v)"
    using dis by (auto simp: ranges_disjoint_def disjoint_ranges_def)
  have sub: "set (vs[i := u]) \<subseteq> insert u (set vs)" by (rule set_update_subset_insert)
  have "map viewNode (vs[i := u]) = map viewNode vs"
    using i nod by (metis list_update_id map_update nth_map)
  moreover have "pairwise (\<lambda>v u. ranges_disjoint (block_range v) (block_range u)) (set (vs[i := u]))"
  proof (rule pairwiseI)
    fix x y assume xy: "x \<in> set (vs[i := u])" "y \<in> set (vs[i := u])" "x \<noteq> y"
    then have "x = u \<or> x \<in> set vs" "y = u \<or> y \<in> set vs" using sub by auto
    with xy(3) wf dis sym show "ranges_disjoint (block_range x) (block_range y)"
      by (auto simp: blocks_wf_def pairwise_def)
  qed
  ultimately show ?thesis using wf u old sub by (auto simp: blocks_wf_def)
qed

text \<open>The leases of a block, by its slices in use.\<close>

lemma leases_filter: "leases [v] = slice_lease v ` set (filter inUse (viewSlices v))"
  by (auto simp: leases_def)

lemma leases_update:
  assumes "i < length vs"
  shows "leases (vs[i := u]) = leases [u] \<union> leases (take i vs @ drop (Suc i) vs)"
    and "leases vs = leases [vs ! i] \<union> leases (take i vs @ drop (Suc i) vs)"
proof -
  show "leases (vs[i := u]) = leases [u] \<union> leases (take i vs @ drop (Suc i) vs)"
    using assms leases_append [of "[u]" "drop (Suc i) vs"]
    by (auto simp: upd_conv_take_nth_drop leases_append)
  show "leases vs = leases [vs ! i] \<union> leases (take i vs @ drop (Suc i) vs)"
    using assms leases_append [of "[vs ! i]" "drop (Suc i) vs"] leases_append [of "take i vs" "vs ! i # drop (Suc i) vs"]
    by (auto simp: id_take_nth_drop [symmetric] leases_append)
qed

lemma same_place_lease: "same_place v u \<Longrightarrow> slice_lease u s = slice_lease v s"
  by (simp add: slice_lease_def same_place_def)

lemma slice_lease_simps [simp]:
  "leaseBlock (slice_lease v s) = viewNode v" "leaseSlice (slice_lease v s) = sliceNode s"
  by (simp_all add: slice_lease_def)

lemma leases_same_place:
  assumes "same_place v u" and "filter inUse (viewSlices u) = filter inUse (viewSlices v)"
  shows "leases [u] = leases [v]"
  using assms by (simp add: leases_filter slice_lease_def same_place_def)

lemma leases_handed_out:
  assumes "same_place v u"
    and "slice_handed_out seen strm allow bytes (viewSlices v) (viewSlices u) c"
  shows "leases [u] = insert (slice_lease u c) (leases [v])"
proof -
  obtain xs ys where "filter inUse (viewSlices u) = xs @ c # ys" "filter inUse (viewSlices v) = xs @ ys"
    using assms(2) by (auto simp: slice_handed_out_def)
  with assms(1) show ?thesis by (auto simp: leases_filter slice_lease_def same_place_def)
qed

lemma updateSlice_keeps_inUse:
  assumes "\<And>s. inUse (f s) = inUse s" "\<And>s. sliceNode (f s) = sliceNode s"
    "\<And>s. sliceOffset (f s) = sliceOffset s" "\<And>s. sliceSize (f s) = sliceSize s"
  shows "slice_lease v ` set (filter inUse (updateSlice nod f ss)) = slice_lease v ` set (filter inUse ss)"
  using assms by (induction ss) (auto simp: updateSlice_def slice_lease_def)

text \<open>
  Handing out slice \<open>c\<close> of a block adds exactly one lease, a new one, over the bytes of the slice;
  taking it back removes it again.
\<close>

lemma handed_out_lease:
  assumes sp: "same_place v u" and wf: "block_wf n u"
    and out: "slice_handed_out seen strm allow bytes (viewSlices v) (viewSlices u) c"
    and c: "c \<in> set (viewSlices u)" and pos: "0 < bytes"
  shows "leases [u] = insert (slice_lease u c) (leases [v])" and "slice_lease u c \<notin> leases [v]"
    and "leaseRange (slice_lease u c) = (unat (viewBase u + sliceOffset c), unat (sliceSize c))"
    and "bytes \<le> sliceSize c"
    and "(\<And>s. \<not> inUse (f s)) \<Longrightarrow>
         filter inUse (updateSlice (sliceNode c) f (viewSlices u)) = filter inUse (viewSlices v)"
proof -
  show "leases [u] = insert (slice_lease u c) (leases [v])" by (rule leases_handed_out [OF sp out])
  show bytes: "bytes \<le> sliceSize c" using out by (simp add: slice_handed_out_def)
  have "0 < unat (sliceSize c)" using bytes pos by (simp add: word_le_nat_alt word_less_nat_alt)
  then show "leaseRange (slice_lease u c) = (unat (viewBase u + sliceOffset c), unat (sliceSize c))"
    using unat_slice_address [OF wf c] by (simp add: slice_lease_def)
  have d: "distinct (map sliceNode (filter inUse (viewSlices u)))"
    using wf by (simp add: block_wf_def slices_wf_def distinct_map_filter)
  obtain xs ys where xy: "filter inUse (viewSlices u) = xs @ c # ys" "filter inUse (viewSlices v) = xs @ ys"
    using out by (auto simp: slice_handed_out_def)
  show "slice_lease u c \<notin> leases [v]"
    using d xy sp by (auto simp: leases_filter slice_lease_def same_place_def image_iff)
  show "filter inUse (updateSlice (sliceNode c) f (viewSlices u)) = filter inUse (viewSlices v)"
    if "\<And>s. \<not> inUse (f s)"
  proof -
    have "filter (\<lambda>s. sliceNode s \<noteq> sliceNode c) xs = xs" "filter (\<lambda>s. sliceNode s \<noteq> sliceNode c) ys = ys"
      using d xy by (auto simp: filter_id_conv image_iff)
    with xy show ?thesis by (simp add: updateSlice_not_inUse that)
  qed
qed

text \<open>The lease a handle stands for.\<close>

definition handle_lease :: "cocclBufferHandle \<Rightarrow> lease" where
  "handle_lease h = \<lparr>leaseBlock = the (handleBlock h), leaseSlice = the (handleSlice h),
     leaseRange = (unat (handlePtr h), unat (handleBytes h))\<rparr>"

lemma more_nextNode: "api_world.more w = api_world.more w' \<Longrightarrow> nextNode w = nextNode w'"
  by (cases w; cases w') simp

lemma leases_replace:
  assumes "leases [u] = insert l (leases [v])"
  shows "leases (xs @ u # ys) = insert l (leases (xs @ v # ys))"
  using assms leases_append [of xs "[u] @ ys"] leases_append [of xs "[v] @ ys"]
    leases_append [of "[u]" ys] leases_append [of "[v]" ys] by auto

lemma leases_replace_same:
  assumes "leases [u] = leases [v]"
  shows "leases (xs @ u # ys) = leases (xs @ v # ys)"
  using assms leases_append [of xs "[u] @ ys"] leases_append [of xs "[v] @ ys"]
    leases_append [of "[u]" ys] leases_append [of "[v]" ys] by auto

lemma lease_added:
  assumes wf: "blocks_wf n (xs @ v # ys)" and sp: "same_place v u"
    and new: "leases [u] = insert l (leases [v])" "l \<notin> leases [v]"
  shows "leases (xs @ u # ys) = insert l (leases (xs @ v # ys)) \<and> l \<notin> leases (xs @ v # ys)"
proof
  show "leases (xs @ u # ys) = insert l (leases (xs @ v # ys))"
    by (rule leases_replace [OF new(1)])
  show "l \<notin> leases (xs @ v # ys)"
  proof
    assume "l \<in> leases (xs @ v # ys)"
    then obtain x t where x: "x \<in> set (xs @ v # ys)" "t \<in> set (viewSlices x)" "inUse t" "l = slice_lease x t"
      by (auto simp: leases_def)
    have "l \<in> leases [u]" using new by simp
    then have "viewNode x = viewNode v"
      using sp x(4) by (auto simp: leases_def slice_lease_def same_place_def)
    then have "x = v"
      using wf x(1) by (metis blocks_wf_def distinct_map inj_on_eq_iff in_set_conv_decomp)
    with x new(2) show False by (auto simp: leases_def)
  qed
qed

lemma lease_added_at:
  assumes "blocks_wf n vs" and "i < length vs" and "same_place (vs ! i) u"
    and "leases [u] = insert l (leases [vs ! i])" "l \<notin> leases [vs ! i]"
  shows "leases (vs[i := u]) = insert l (leases vs) \<and> l \<notin> leases vs"
  using lease_added [of n "take i vs" "vs ! i" "drop (Suc i) vs" u l] assms
  by (simp add: id_take_nth_drop [symmetric] upd_conv_take_nth_drop)

lemma leases_same_at:
  assumes "i < length vs" and "leases [u] = leases [vs ! i]"
  shows "leases (vs[i := u]) = leases vs"
  using assms leases_update [OF assms(1)] by simp

lemma fresh_block_wf:
  assumes "unat p + unat n \<le> 2 ^ 64"
  shows "block_wf (nxt + 2) \<lparr>viewNode = nxt, viewBase = p, viewCapacity = n,
     viewSlices = [newSlice (Suc nxt) 0 n]\<rparr>"
  using assms unat_lt_2p64 [of n] by (simp add: block_wf_def slices_wf_def newSlice_def)

lemma leases_fresh_block [simp]:
  "leases [\<lparr>viewNode = nd, viewBase = p, viewCapacity = n, viewSlices = [newSlice k 0 n]\<rparr>] = {}"
  by (auto simp: leases_def newSlice_def inUse_def)

text \<open>
  What a release does to the slice list: the completion event may be created, then the slice
  becomes pending on the stream.
\<close>

abbreviation setEvent :: "nat \<Rightarrow> ptr \<Rightarrow> BufferSlice list \<Rightarrow> BufferSlice list" where
  "setEvent k ev \<equiv> updateSlice k (\<lambda>s. s\<lparr>doneEvent := ev\<rparr>)"

abbreviation setPending :: "nat \<Rightarrow> ptr \<Rightarrow> BufferSlice list \<Rightarrow> BufferSlice list" where
  "setPending k strm \<equiv> updateSlice k (\<lambda>s. s\<lparr>sliceState := SlicePending, pendingStream := strm\<rparr>)"

lemma setPending_inUse:
  "filter inUse (setPending k strm ss) = filter (\<lambda>s. sliceNode s \<noteq> k) (filter inUse ss)"
  by (rule updateSlice_not_inUse) (simp add: inUse_def)

lemma setPending_setEvent_inUse:
  "filter inUse (setPending k strm (setEvent k ev ss)) = filter inUse (setPending k strm ss)"
  by (induction ss) (auto simp: updateSlice_def inUse_def)

lemma setEvent_leases:
  "same_place v u \<Longrightarrow> viewSlices u = setEvent k ev (viewSlices v) \<Longrightarrow> leases [u] = leases [v]"
  using updateSlice_keeps_inUse [of "\<lambda>s. s\<lparr>doneEvent := ev\<rparr>" v k "viewSlices v"]
  by (simp add: leases_filter same_place_lease inUse_def)

text \<open>Ending the use of the slice of a lease removes exactly that lease.\<close>

lemma lease_removed:
  assumes wf: "blocks_wf n (xs @ v # ys)" and sp: "same_place v u"
    and f: "filter inUse (viewSlices u) = filter (\<lambda>s. sliceNode s \<noteq> k) (filter inUse (viewSlices v))"
    and l: "l \<in> leases (xs @ v # ys)" "leaseBlock l = viewNode v" "leaseSlice l = k"
  shows "leases (xs @ u # ys) = leases (xs @ v # ys) - {l}"
proof -
  have one: "leases [u] = {m \<in> leases [v]. leaseSlice m \<noteq> k}"
    using sp by (auto simp: leases_filter f same_place_lease [OF sp])
  have "m = l \<longleftrightarrow> m \<in> leases [v] \<and> leaseSlice m = k" if "m \<in> leases (xs @ v # ys)" for m
  proof
    assume "m = l"
    then obtain x t where x: "x \<in> set (xs @ v # ys)" "t \<in> set (viewSlices x)" "inUse t" "l = slice_lease x t"
      using l(1) by (auto simp: leases_def)
    have "viewNode x = viewNode v" using l(2) x(4) by (simp add: slice_lease_def)
    then have "x = v"
      using wf x(1) by (metis blocks_wf_def distinct_map inj_on_eq_iff in_set_conv_decomp)
    with x l(3) \<open>m = l\<close> show "m \<in> leases [v] \<and> leaseSlice m = k" by (auto simp: leases_def)
  next
    assume m: "m \<in> leases [v] \<and> leaseSlice m = k"
    then have "leaseBlock m = leaseBlock l" using l(2) by (auto simp: leases_def slice_lease_def)
    with lease_identity [OF wf that l(1)] m l(3) show "m = l" by simp
  qed
  moreover have "m \<notin> leases [v]" if m: "m \<in> leases (xs @ ys)" for m
  proof
    assume "m \<in> leases [v]"
    then have mb: "leaseBlock m = viewNode v" by (auto simp: leases_def slice_lease_def)
    obtain x t where x: "x \<in> set xs \<union> set ys" "m = slice_lease x t"
      using m by (auto simp: leases_def)
    have "viewNode x = viewNode v" using mb x(2) by (simp add: slice_lease_def)
    moreover have "viewNode v \<notin> viewNode ` (set xs \<union> set ys)" using wf by (auto simp: blocks_wf_def)
    ultimately show False using x(1) by (metis image_eqI)
  qed
  moreover have "leases (xs @ z # ys) = leases [z] \<union> leases (xs @ ys)" for z
    using leases_append [of xs "z # ys"] leases_append [of "[z]" ys] leases_append [of xs ys] by auto
  ultimately show ?thesis using one by auto
qed

lemma lease_removed_at:
  assumes "blocks_wf n vs" and i: "i < length vs" and "same_place (vs ! i) u"
    and "filter inUse (viewSlices u) = filter (\<lambda>s. sliceNode s \<noteq> k) (filter inUse (viewSlices (vs ! i)))"
    and "l \<in> leases vs" "leaseBlock l = viewNode (vs ! i)" "leaseSlice l = k"
  shows "leases (vs[i := u]) = leases vs - {l}"
proof -
  have vs: "take i vs @ vs ! i # drop (Suc i) vs = vs" using i by (rule id_take_nth_drop [symmetric])
  show ?thesis
    using lease_removed [of n "take i vs" "vs ! i" "drop (Suc i) vs" u k l, unfolded vs] assms
    by (simp add: upd_conv_take_nth_drop)
qed

section \<open>The contract of a backend\<close>

text \<open>
  \<open>views\<close> shows the blocks of a pool; \<open>fresh\<close> says that memory allocated during the call does not
  overlap the pool's blocks, which is what an allocator promises of live allocations.
\<close>

locale lease_backend =
  fixes views :: "'p \<Rightarrow> block_view list"
    and fresh :: "api_env \<Rightarrow> 'c \<Rightarrow> size_t \<Rightarrow> 'p \<Rightarrow> bool"
    and acquire :: "api_env \<Rightarrow> 'c \<Rightarrow> ptr \<Rightarrow> size_t \<Rightarrow> ptr \<Rightarrow>
          ('p \<times> 'w node_world_scheme, cocclBufferHandle) comp"
    and release :: "api_env \<Rightarrow> cocclBufferHandle \<Rightarrow> ptr \<Rightarrow> ('p \<times> 'w node_world_scheme, unit) comp"
  assumes acquire_law:
    "blocks_wf (nextNode w) (views p) \<Longrightarrow> 0 < bytes \<Longrightarrow> fresh env cfg bytes p \<Longrightarrow>
     acquire env cfg comm bytes strm (p, w) = (r, (p', w')) \<Longrightarrow>
     nextNode w \<le> nextNode w' \<and> blocks_wf (nextNode w') (views p') \<and>
     (case r of
        Inl e \<Rightarrow> leases (views p') = leases (views p)
      | Inr h \<Rightarrow> leases (views p') = insert (handle_lease h) (leases (views p)) \<and>
          handle_lease h \<notin> leases (views p) \<and> bytes \<le> handleBytes h)"
    and release_law:
    "blocks_wf (nextNode w) (views p) \<Longrightarrow> handle_lease h \<in> leases (views p) \<Longrightarrow>
     release env h strm (p, w) = (q, (p', w')) \<Longrightarrow>
     nextNode w \<le> nextNode w' \<and> blocks_wf (nextNode w') (views p') \<and>
     (case q of
        Inl e \<Rightarrow> leases (views p') = leases (views p)
      | Inr _ \<Rightarrow> leases (views p') = leases (views p) - {handle_lease h})"
begin

text \<open>A new lease shares no byte with any lease that was live before.\<close>

lemma acquire_disjoint:
  assumes "blocks_wf (nextNode w) (views p)" "0 < bytes" "fresh env cfg bytes p"
    and run: "acquire env cfg comm bytes strm (p, w) = (Inr h, (p', w'))"
    and l: "l \<in> leases (views p)"
  shows "ranges_disjoint (leaseRange (handle_lease h)) (leaseRange l)"
proof -
  note law = acquire_law [OF assms(1-3) run, simplified]
  have ne: "handle_lease h \<noteq> l" using law l by auto
  have in': "handle_lease h \<in> leases (views p')" "l \<in> leases (views p')" using law l by auto
  show ?thesis
  proof (cases "leaseBlock (handle_lease h) = leaseBlock l \<and> leaseSlice (handle_lease h) = leaseSlice l")
    case True
    with lease_identity [OF conjunct1 [OF conjunct2 [OF law]] in'] ne show ?thesis by simp
  next
    case False
    with leases_disjoint [OF conjunct1 [OF conjunct2 [OF law]] in'] show ?thesis by simp
  qed
qed

text \<open>Releasing a lease right after taking it restores the set of leases.\<close>

lemma acquire_release:
  assumes "blocks_wf (nextNode w) (views p)" "0 < bytes" "fresh env cfg bytes p"
    and "acquire env cfg comm bytes strm (p, w) = (Inr h, (p', w'))"
    and "release env h strm' (p', w') = (Inr u, (p'', w''))"
  shows "leases (views p'') = leases (views p) \<and> blocks_wf (nextNode w'') (views p'')"
proof -
  note a = acquire_law [OF assms(1-4), simplified]
  have "handle_lease h \<in> leases (views p')" using a by simp
  from release_law [OF conjunct1 [OF conjunct2 [OF a]] this assms(5)] a show ?thesis by auto
qed

end

end
