(* ===== verification/Coccl_Operation.thy ===== *)
theory Coccl_Operation
  imports Coccl_Prelude
begin

text \<open>
  The operation table of \<^verbatim>\<open>include/runtime/coccl_operation.h\<close> and
  \<^verbatim>\<open>core/runtime/coccl_operation.cc\<close>: operations, policy keys and their order, operation traits
  as bit masks, and the descriptor lookup that routing, shape checks and grouping rely on.
\<close>

unbundle bit_operations_syntax

section \<open>Enumerations and policy keys\<close>

datatype cocclOperation =
  AllGather | ReduceScatter | AllReduce | AllToAll | SendRecv | OperationCount

datatype cocclPolicyVariant = VariantDefault | VariantForward | VariantBackward

datatype cocclCompressionScope = ScopeDefault | ScopeIntra | ScopeInter | ScopeCount

text \<open>The underlying \<^verbatim>\<open>uint8_t\<close> values of the scoped enumerations.\<close>

fun operationValue :: "cocclOperation \<Rightarrow> nat" where
  "operationValue AllGather = 0"
| "operationValue ReduceScatter = 1"
| "operationValue AllReduce = 2"
| "operationValue AllToAll = 3"
| "operationValue SendRecv = 4"
| "operationValue OperationCount = 5"

fun variantValue :: "cocclPolicyVariant \<Rightarrow> nat" where
  "variantValue VariantDefault = 0"
| "variantValue VariantForward = 1"
| "variantValue VariantBackward = 2"

fun scopeValue :: "cocclCompressionScope \<Rightarrow> nat" where
  "scopeValue ScopeDefault = 0"
| "scopeValue ScopeIntra = 1"
| "scopeValue ScopeInter = 2"
| "scopeValue ScopeCount = 3"

lemma operationValue_inject [simp]: "operationValue a = operationValue b \<longleftrightarrow> a = b"
  by (cases a; cases b) simp_all

lemma variantValue_inject [simp]: "variantValue a = variantValue b \<longleftrightarrow> a = b"
  by (cases a; cases b) simp_all

lemma scopeValue_inject [simp]: "scopeValue a = scopeValue b \<longleftrightarrow> a = b"
  by (cases a; cases b) simp_all

datatype cocclPolicyKey = PolicyKey
  (keyOperation: cocclOperation) (keyVariant: cocclPolicyVariant) (keyScope: cocclCompressionScope)

text \<open>\<^verbatim>\<open>operator<\<close> on policy keys: operation, then variant, then scope.\<close>

definition policyKeyLess :: "cocclPolicyKey \<Rightarrow> cocclPolicyKey \<Rightarrow> bool" where
  "policyKeyLess lhs rhs =
     (if keyOperation lhs \<noteq> keyOperation rhs
      then operationValue (keyOperation lhs) < operationValue (keyOperation rhs)
      else if keyVariant lhs \<noteq> keyVariant rhs
      then variantValue (keyVariant lhs) < variantValue (keyVariant rhs)
      else scopeValue (keyScope lhs) < scopeValue (keyScope rhs))"

lemma policyKeyLess_total: "a \<noteq> b \<Longrightarrow> policyKeyLess a b \<or> policyKeyLess b a"
  by (cases a; cases b) (auto simp: policyKeyLess_def linorder_not_less le_less)

text \<open>
  It is a strict total order, so the key can be used in ordered containers: the library's
  \<open>linorder\<close> class is instantiated with it.
\<close>

instantiation cocclPolicyKey :: linorder
begin

definition less_cocclPolicyKey :: "cocclPolicyKey \<Rightarrow> cocclPolicyKey \<Rightarrow> bool" where
  "less_cocclPolicyKey = policyKeyLess"

definition less_eq_cocclPolicyKey :: "cocclPolicyKey \<Rightarrow> cocclPolicyKey \<Rightarrow> bool" where
  "less_eq_cocclPolicyKey a b \<longleftrightarrow> policyKeyLess a b \<or> a = b"

instance
proof
  fix x y z :: cocclPolicyKey
  show "x < y \<longleftrightarrow> x \<le> y \<and> \<not> y \<le> x"
    by (auto simp: less_cocclPolicyKey_def less_eq_cocclPolicyKey_def policyKeyLess_def
        split: if_splits)
  show "x \<le> x"
    by (simp add: less_eq_cocclPolicyKey_def)
  show "x \<le> y \<Longrightarrow> y \<le> z \<Longrightarrow> x \<le> z"
    by (auto simp: less_eq_cocclPolicyKey_def policyKeyLess_def split: if_splits)
  show "x \<le> y \<Longrightarrow> y \<le> x \<Longrightarrow> x = y"
    by (auto simp: less_eq_cocclPolicyKey_def policyKeyLess_def split: if_splits)
  show "x \<le> y \<or> y \<le> x"
    using policyKeyLess_total by (auto simp: less_eq_cocclPolicyKey_def)
qed

end

definition cocclDefaultPolicy :: "cocclOperation \<Rightarrow> cocclCompressionScope \<Rightarrow> cocclPolicyKey" where
  "cocclDefaultPolicy operation scope = PolicyKey operation VariantDefault scope"

definition cocclDirectionalPolicy ::
  "cocclOperation \<Rightarrow> bool \<Rightarrow> cocclCompressionScope \<Rightarrow> cocclPolicyKey" where
  "cocclDirectionalPolicy operation forward scope =
     PolicyKey operation (if forward then VariantForward else VariantBackward) scope"

definition cocclPolicyForScope :: "cocclPolicyKey \<Rightarrow> cocclCompressionScope \<Rightarrow> cocclPolicyKey" where
  "cocclPolicyForScope key scope = PolicyKey (keyOperation key) (keyVariant key) scope"

section \<open>Traits and descriptors\<close>

type_synonym trait = "32 word"

definition cocclOperationTraitNone :: trait where
  "cocclOperationTraitNone = 0"
definition cocclOperationTraitScaleBytesByRanks :: trait where
  "cocclOperationTraitScaleBytesByRanks = push_bit 0 1"
definition cocclOperationTraitReduction :: trait where
  "cocclOperationTraitReduction = push_bit 1 1"
definition cocclOperationTraitGrouped :: trait where
  "cocclOperationTraitGrouped = push_bit 2 1"
definition cocclOperationTraitCountDivisibleByRanks :: trait where
  "cocclOperationTraitCountDivisibleByRanks = push_bit 3 1"
definition cocclOperationTraitHierarchicalPolicy :: trait where
  "cocclOperationTraitHierarchicalPolicy = push_bit 4 1"
definition cocclOperationTraitDirectionalPolicy :: trait where
  "cocclOperationTraitDirectionalPolicy = push_bit 5 1"

lemmas trait_defs =
  cocclOperationTraitNone_def cocclOperationTraitScaleBytesByRanks_def
  cocclOperationTraitReduction_def cocclOperationTraitGrouped_def
  cocclOperationTraitCountDivisibleByRanks_def cocclOperationTraitHierarchicalPolicy_def
  cocclOperationTraitDirectionalPolicy_def

record cocclOperationDescriptor =
  operation :: cocclOperation
  name :: string
  traits :: trait

definition kOperationDescriptors :: "cocclOperationDescriptor list" where
  "kOperationDescriptors =
    [\<lparr>operation = AllGather, name = ''AllGather'',
      traits = cocclOperationTraitScaleBytesByRanks OR cocclOperationTraitGrouped\<rparr>,
     \<lparr>operation = ReduceScatter, name = ''ReduceScatter'',
      traits = cocclOperationTraitScaleBytesByRanks OR cocclOperationTraitReduction OR
        cocclOperationTraitGrouped OR cocclOperationTraitHierarchicalPolicy\<rparr>,
     \<lparr>operation = AllReduce, name = ''AllReduce'',
      traits = cocclOperationTraitReduction OR cocclOperationTraitGrouped OR
        cocclOperationTraitCountDivisibleByRanks OR cocclOperationTraitHierarchicalPolicy\<rparr>,
     \<lparr>operation = AllToAll, name = ''AllToAll'',
      traits = cocclOperationTraitScaleBytesByRanks OR cocclOperationTraitGrouped\<rparr>,
     \<lparr>operation = SendRecv, name = ''SendRecv'',
      traits = cocclOperationTraitDirectionalPolicy OR cocclOperationTraitGrouped\<rparr>]"

definition cocclGetOperationDescriptor :: "cocclOperation \<Rightarrow> cocclOperationDescriptor option" where
  "cocclGetOperationDescriptor op =
     (let index = operationValue op in
      if index < operationValue OperationCount then Some (kOperationDescriptors ! index) else None)"

definition cocclOperationHasTrait :: "cocclOperationDescriptor option \<Rightarrow> trait \<Rightarrow> bool" where
  "cocclOperationHasTrait descriptor trait =
     (case descriptor of None \<Rightarrow> False | Some d \<Rightarrow> traits d AND trait \<noteq> 0)"

definition cocclOperationSupportsPolicy ::
  "cocclOperationDescriptor option \<Rightarrow> cocclPolicyVariant \<Rightarrow> bool" where
  "cocclOperationSupportsPolicy descriptor variant =
     (if descriptor = None then False
      else case variant of
        VariantDefault \<Rightarrow> True
      | VariantForward \<Rightarrow> cocclOperationHasTrait descriptor cocclOperationTraitDirectionalPolicy
      | VariantBackward \<Rightarrow> cocclOperationHasTrait descriptor cocclOperationTraitDirectionalPolicy)"

section \<open>Facts about the table\<close>

lemma kOperationDescriptors_nth:
  "kOperationDescriptors ! 0 = \<lparr>operation = AllGather, name = ''AllGather'', traits = 5\<rparr>"
  "kOperationDescriptors ! 1 = \<lparr>operation = ReduceScatter, name = ''ReduceScatter'', traits = 23\<rparr>"
  "kOperationDescriptors ! 2 = \<lparr>operation = AllReduce, name = ''AllReduce'', traits = 30\<rparr>"
  "kOperationDescriptors ! 3 = \<lparr>operation = AllToAll, name = ''AllToAll'', traits = 5\<rparr>"
  "kOperationDescriptors ! 4 = \<lparr>operation = SendRecv, name = ''SendRecv'', traits = 36\<rparr>"
  by (simp_all add: kOperationDescriptors_def trait_defs push_bit_eq_mult numeral_eq_Suc)

lemma cocclGetOperationDescriptor_simps [simp]:
  "cocclGetOperationDescriptor AllGather =
     Some \<lparr>operation = AllGather, name = ''AllGather'', traits = 5\<rparr>"
  "cocclGetOperationDescriptor ReduceScatter =
     Some \<lparr>operation = ReduceScatter, name = ''ReduceScatter'', traits = 23\<rparr>"
  "cocclGetOperationDescriptor AllReduce =
     Some \<lparr>operation = AllReduce, name = ''AllReduce'', traits = 30\<rparr>"
  "cocclGetOperationDescriptor AllToAll =
     Some \<lparr>operation = AllToAll, name = ''AllToAll'', traits = 5\<rparr>"
  "cocclGetOperationDescriptor SendRecv =
     Some \<lparr>operation = SendRecv, name = ''SendRecv'', traits = 36\<rparr>"
  "cocclGetOperationDescriptor OperationCount = None"
  by (simp_all add: cocclGetOperationDescriptor_def kOperationDescriptors_nth Let_def
      del: One_nat_def)

end
