(* ===== verification/Config_Types.thy ===== *)
theory Config_Types
  imports Coccl_Operation
begin

text \<open>
  The configuration data of \<^verbatim>\<open>core/config/coccl_config.h\<close>, with the default member initialisers,
  and the resolution of a compressor scope (\<^verbatim>\<open>core/config/coccl_config.cc\<close>). The configuration is
  immutable once published, so the code that reads it takes it as an argument.
\<close>

datatype cocclRuntimeMode = ModeNormal | ModeTraining

datatype cocclDataParallelStrategy = StrategyDdp | StrategySdp | StrategyFsdp

datatype cocclReduceScatterAlgorithmPolicy = RsAuto | RsOneShot | RsTwoShot

datatype cocclAllReduceAlgorithmPolicy = ArAuto | ArOneShot | ArTwoShot | ArTripleShot

text \<open>\<^verbatim>\<open>std::map<std::string, std::string>\<close>: pairs in key order.\<close>

type_synonym cocclConfigValues = "(string \<times> string) list"

record cocclCompressorScopeEntry =
  scopeConfigured :: bool
  scopeEnabled :: bool
  scopeName :: string
  scopeValues :: cocclConfigValues

definition emptyScopeEntry :: cocclCompressorScopeEntry where
  "emptyScopeEntry = \<lparr>scopeConfigured = False, scopeEnabled = False, scopeName = [], scopeValues = []\<rparr>"

definition MiB :: size_t where
  "MiB = 1024 * 1024"

text \<open>The array \<^verbatim>\<open>scopes\<close> is indexed by the three scopes.\<close>

record cocclPrimitivePolicy =
  scopes :: "cocclCompressionScope \<Rightarrow> cocclCompressorScopeEntry"
  policyThresholdBytes :: size_t

definition defaultPrimitivePolicy :: cocclPrimitivePolicy where
  "defaultPrimitivePolicy = \<lparr>scopes = (\<lambda>_. emptyScopeEntry), policyThresholdBytes = 8 * MiB\<rparr>"

definition cocclConfiguredCompressorScope ::
  "cocclPrimitivePolicy \<Rightarrow> cocclCompressionScope \<Rightarrow> cocclCompressorScopeEntry" where
  "cocclConfiguredCompressorScope policy scope = scopes policy scope"

text \<open>The effective entry and the scope it comes from; a null entry is \<open>None\<close>.\<close>

record cocclEffectiveCompressorScope =
  effectiveEntry :: "cocclCompressorScopeEntry option"
  effectiveSource :: cocclCompressionScope

definition effectiveEnabled :: "cocclEffectiveCompressorScope \<Rightarrow> bool" where
  "effectiveEnabled e \<longleftrightarrow> (case effectiveEntry e of None \<Rightarrow> False | Some entry \<Rightarrow> scopeEnabled entry)"

definition cocclEffectiveCompressorScopeFor ::
  "cocclPrimitivePolicy \<Rightarrow> cocclCompressionScope \<Rightarrow> cocclEffectiveCompressorScope" where
  "cocclEffectiveCompressorScopeFor policy scope =
     (let configured = cocclConfiguredCompressorScope policy scope in
      if scopeConfigured configured
      then \<lparr>effectiveEntry = Some configured, effectiveSource = scope\<rparr>
      else
        let defaults = cocclConfiguredCompressorScope policy ScopeDefault in
        if scopeConfigured defaults
        then \<lparr>effectiveEntry = Some defaults, effectiveSource = ScopeDefault\<rparr>
        else \<lparr>effectiveEntry = None, effectiveSource = ScopeDefault\<rparr>)"

record cocclCollectivePolicies =
  policyAllGather :: cocclPrimitivePolicy
  policyReduceScatter :: cocclPrimitivePolicy
  policyAllReduce :: cocclPrimitivePolicy

record cocclNormalPolicies = cocclCollectivePolicies +
  policyAllToAll :: cocclPrimitivePolicy
  policySendRecv :: cocclPrimitivePolicy

record cocclTrainingPolicies =
  dataParallel :: cocclCollectivePolicies
  tensorParallel :: cocclCollectivePolicies
  pipelineSendRecvForward :: cocclPrimitivePolicy
  pipelineSendRecvBackward :: cocclPrimitivePolicy

record cocclRuntimeConfig =
  runtimeMode :: cocclRuntimeMode
  compressionThresholdBytes :: size_t

record cocclPluginCatalog =
  compressors :: "string list"
  libraryPath :: string

record cocclPipelineConfig =
  pipelineDepth :: int

record cocclBufferConfig =
  poolLimitBytes :: size_t
  legacyBlockBytes :: size_t
  physicalChunkBytes :: size_t

record cocclAutotuneConfig =
  autotuneEnabled :: bool
  profileMinBytes :: size_t
  profileMaxBytes :: size_t
  warmup :: int
  iterations :: int
  reduceScatterAlgorithm :: cocclReduceScatterAlgorithmPolicy
  allReduceAlgorithm :: cocclAllReduceAlgorithmPolicy

record cocclTrainingConfig =
  observationIterations :: int
  dataParallelSize :: int
  tensorParallelSize :: int
  pipelineParallelSize :: int
  dataParallelStrategy :: cocclDataParallelStrategy
  sequenceParallel :: bool

record cocclConfig =
  runtimeConfig :: cocclRuntimeConfig
  plugins :: cocclPluginCatalog
  pipelineConfig :: cocclPipelineConfig
  bufferConfig :: cocclBufferConfig
  autotuneConfig :: cocclAutotuneConfig
  trainingConfig :: cocclTrainingConfig
  normalPolicies :: cocclNormalPolicies
  trainingPolicies :: cocclTrainingPolicies

definition defaultCollectivePolicies :: cocclCollectivePolicies where
  "defaultCollectivePolicies = \<lparr>policyAllGather = defaultPrimitivePolicy,
     policyReduceScatter = defaultPrimitivePolicy, policyAllReduce = defaultPrimitivePolicy\<rparr>"

definition defaultBufferConfig :: cocclBufferConfig where
  "defaultBufferConfig = \<lparr>poolLimitBytes = 0, legacyBlockBytes = 0, physicalChunkBytes = 8 * MiB\<rparr>"

definition defaultAutotuneConfig :: cocclAutotuneConfig where
  "defaultAutotuneConfig = \<lparr>autotuneEnabled = True, profileMinBytes = 256 * 1024,
     profileMaxBytes = 8 * 1024 * MiB, warmup = 3, iterations = 10,
     reduceScatterAlgorithm = RsAuto, allReduceAlgorithm = ArAuto\<rparr>"

definition defaultTrainingConfig :: cocclTrainingConfig where
  "defaultTrainingConfig = \<lparr>observationIterations = 5, dataParallelSize = 1, tensorParallelSize = 1,
     pipelineParallelSize = 1, dataParallelStrategy = StrategySdp, sequenceParallel = False\<rparr>"

definition defaultConfig :: cocclConfig where
  "defaultConfig = \<lparr>
     runtimeConfig = \<lparr>runtimeMode = ModeNormal, compressionThresholdBytes = 8 * MiB\<rparr>,
     plugins = \<lparr>compressors = [], libraryPath = []\<rparr>,
     pipelineConfig = \<lparr>pipelineDepth = 1\<rparr>,
     bufferConfig = defaultBufferConfig,
     autotuneConfig = defaultAutotuneConfig,
     trainingConfig = defaultTrainingConfig,
     normalPolicies = \<lparr>policyAllGather = defaultPrimitivePolicy,
       policyReduceScatter = defaultPrimitivePolicy, policyAllReduce = defaultPrimitivePolicy,
       policyAllToAll = defaultPrimitivePolicy, policySendRecv = defaultPrimitivePolicy\<rparr>,
     trainingPolicies = \<lparr>dataParallel = defaultCollectivePolicies,
       tensorParallel = defaultCollectivePolicies,
       pipelineSendRecvForward = defaultPrimitivePolicy,
       pipelineSendRecvBackward = defaultPrimitivePolicy\<rparr>\<rparr>"

text \<open>
  An explicitly configured scope always wins, also when it is switched off; only an absent one
  inherits the default scope.
\<close>

lemma effective_explicit:
  "scopeConfigured (scopes policy scope) \<Longrightarrow>
   effectiveEnabled (cocclEffectiveCompressorScopeFor policy scope) = scopeEnabled (scopes policy scope)"
  by (simp add: cocclEffectiveCompressorScopeFor_def cocclConfiguredCompressorScope_def
      effectiveEnabled_def Let_def)

lemma effective_inherits:
  "\<not> scopeConfigured (scopes policy scope) \<Longrightarrow>
   effectiveEnabled (cocclEffectiveCompressorScopeFor policy scope)
     = effectiveEnabled (cocclEffectiveCompressorScopeFor policy ScopeDefault)"
  by (simp add: cocclEffectiveCompressorScopeFor_def cocclConfiguredCompressorScope_def
      effectiveEnabled_def Let_def)

end
