(* ===== verification/Buffer_Legacy.thy ===== *)
theory Buffer_Legacy
  imports Buffer_Lease Config_Types
begin

text \<open>
  The legacy backend of the workspace allocator, \<^verbatim>\<open>core/memory/coccl_buffer_legacy.cc\<close>: blocks from
  \<^verbatim>\<open>ncclMemAlloc\<close>, carved into slices, registered with communicators on demand.
\<close>

section \<open>State\<close>

text \<open>
  \<^verbatim>\<open>std::map<ncclComm_t, LegacyRegistration>\<close>: pairs of communicator and handle in key order.
\<close>

record LegacyBlock =
  legacyNode :: nat
  legacyDev :: int
  legacyPtr :: ptr
  legacyCapacity :: size_t
  legacySlices :: "BufferSlice list"
  legacyRegistrations :: "(ptr \<times> ptr) list"

record legacy_pool =
  legacyOwner :: ptr
  legacyPoolDev :: int
  legacyTotalBytes :: size_t
  legacyBlocks :: "LegacyBlock list"

section \<open>Operations on a block\<close>

definition legacyRegistered :: "LegacyBlock \<Rightarrow> ptr \<Rightarrow> bool" where
  "legacyRegistered block comm \<longleftrightarrow> comm \<in> fst ` set (legacyRegistrations block)"

definition legacyEnsureRegistration ::
  "api_env \<Rightarrow> ptr \<Rightarrow> (LegacyBlock \<times> 'w api_world_scheme, unit) comp" where
  "legacyEnsureRegistration env registeredComm =
     bindC (getX (\<lambda>block. block)) (\<lambda>block.
       if registeredComm = nullptr \<or> legacyRegistered block registeredComm then returnC ()
       else bindC (inWorld (NCCLCHECK env (Nccl (ncclCommRegister registeredComm (legacyPtr block)
                     (legacyCapacity block)))))
         (\<lambda>handle. updateC (\<lambda>b. b\<lparr>legacyRegistrations :=
            insort_key fst (registeredComm, handle) (legacyRegistrations b)\<rparr>)))"

definition legacyAcquireFromBlock ::
  "api_env \<Rightarrow> size_t \<Rightarrow> ptr \<Rightarrow> ptr \<Rightarrow> bool \<Rightarrow> LegacyBlock \<Rightarrow> 'w node_world_scheme \<Rightarrow>
   cocclBufferHandle option \<times> LegacyBlock \<times> 'w node_world_scheme" where
  "legacyAcquireFromBlock env bytes owner strm allowPendingReuse block w =
     (let (found, ss, w1) = acquireSlice env strm allowPendingReuse bytes (nextNode w)
                              (legacySlices block) w;
          block' = block\<lparr>legacySlices := ss\<rparr> in
      case found of
        None \<Rightarrow> (None, block', w1)
      | Some c \<Rightarrow> (Some \<lparr>handlePtr = legacyPtr block + sliceOffset c, handleBytes = sliceSize c,
                     handleOwner = owner, handleBlock = Some (legacyNode block),
                     handleSlice = Some (sliceNode c)\<rparr>,
                   block', w1\<lparr>nextNode := Suc (nextNode w1)\<rparr>))"

definition legacyRollback :: "cocclBufferHandle \<Rightarrow> LegacyBlock \<Rightarrow> LegacyBlock" where
  "legacyRollback buffer block =
     (case handleSlice buffer of
        None \<Rightarrow> block
      | Some nod \<Rightarrow> block\<lparr>legacySlices :=
          updateSlice nod (\<lambda>s. s\<lparr>sliceState := SliceFree\<rparr>) (legacySlices block)\<rparr>)"

text \<open>\<^verbatim>\<open>legacyRelease\<close> on the handle's block and slice.\<close>

definition legacyRelease ::
  "api_env \<Rightarrow> nat \<Rightarrow> ptr \<Rightarrow> (LegacyBlock \<times> 'w api_world_scheme, unit) comp" where
  "legacyRelease env nod strm =
     bindC (getX (\<lambda>block. block)) (\<lambda>block.
     bindC (inWorld (CUDACHECK env (Cuda (cudaSetDevice (legacyDev block))))) (\<lambda>_.
     bindC (case findSlice nod (legacySlices block) of
              None \<Rightarrow> failC ncclInternalError
            | Some s \<Rightarrow>
                if doneEvent s = nullptr
                then bindC (inWorld (CUDACHECK env (Cuda cudaEventCreateWithFlags)))
                  (\<lambda>ev. thenC (updateC (\<lambda>b. b\<lparr>legacySlices :=
                      updateSlice nod (\<lambda>s. s\<lparr>doneEvent := ev\<rparr>) (legacySlices b)\<rparr>)) (returnC ev))
                else returnC (doneEvent s))
       (\<lambda>ev. bindC (inWorld (CUDACHECK env (Cuda (cudaEventRecord ev strm)))) (\<lambda>_.
         updateC (\<lambda>b. b\<lparr>legacySlices := updateSlice nod
           (\<lambda>s. s\<lparr>sliceState := SlicePending, pendingStream := strm\<rparr>) (legacySlices b)\<rparr>)))))"

definition legacyReleaseBlock :: "api_env \<Rightarrow> (LegacyBlock \<times> 'w api_world_scheme, unit) comp" where
  "legacyReleaseBlock env =
     bindC (getX legacyRegistrations) (\<lambda>regs.
     bindC (forC regs (\<lambda>(comm, handle).
              bindC (inWorld (NCCLCHECK env (Nccl (ncclCommDeregister comm handle)))) (\<lambda>_. returnC ())))
       (\<lambda>_. bindC (updateC (\<lambda>b. b\<lparr>legacyRegistrations := []\<rparr>))
       (\<lambda>_. bindC (getX legacySlices) (\<lambda>ss.
       bindC (forC ss (\<lambda>s. if doneEvent s \<noteq> nullptr
                then bindC (inWorld (CUDACHECK env (Cuda (cudaEventDestroy (doneEvent s)))))
                  (\<lambda>_. updateC (\<lambda>b. b\<lparr>legacySlices :=
                      updateSlice (sliceNode s) (\<lambda>s. s\<lparr>doneEvent := nullptr\<rparr>) (legacySlices b)\<rparr>))
                else returnC ()))
       (\<lambda>_. bindC (getX legacyPtr) (\<lambda>p.
          if p \<noteq> nullptr
          then bindC (inWorld (NCCLCHECK env (Nccl (ncclMemFree p))))
            (\<lambda>_. updateC (\<lambda>b. b\<lparr>legacyPtr := nullptr\<rparr>))
          else returnC ()))))))"

section \<open>Operations on a pool\<close>

definition legacyCreateBlock ::
  "api_env \<Rightarrow> cocclBufferConfig \<Rightarrow> size_t \<Rightarrow> (legacy_pool \<times> 'w node_world_scheme, unit) comp" where
  "legacyCreateBlock env cfg bytes =
     (let blockBytes = (if legacyBlockBytes cfg > bytes then alignUp (legacyBlockBytes cfg) else bytes) in
      bindC (inWorld (NCCLCHECK env (Nccl (ncclMemAlloc blockBytes))))
        (\<lambda>p. modifyC (\<lambda>(pool, w).
           (pool\<lparr>legacyTotalBytes := legacyTotalBytes pool + blockBytes,
                 legacyBlocks := legacyBlocks pool @
                   [\<lparr>legacyNode = nextNode w, legacyDev = legacyPoolDev pool, legacyPtr = p,
                     legacyCapacity = blockBytes,
                     legacySlices = [newSlice (Suc (nextNode w)) 0 blockBytes],
                     legacyRegistrations = []\<rparr>]\<rparr>,
            w\<lparr>nextNode := nextNode w + 2\<rparr>))))"

text \<open>
  One attempt on a block: \<open>None\<close> when the block cannot serve the request, otherwise the result of
  the acquisition, which is undone when the registration fails.
\<close>

definition legacyTryBlock ::
  "api_env \<Rightarrow> ptr \<Rightarrow> size_t \<Rightarrow> ptr \<Rightarrow> ptr \<Rightarrow> bool \<Rightarrow> LegacyBlock \<Rightarrow> 'w node_world_scheme \<Rightarrow>
   cocclBufferHandle result option \<times> LegacyBlock \<times> 'w node_world_scheme" where
  "legacyTryBlock env registeredComm bytes owner strm allow block w =
     (case legacyAcquireFromBlock env bytes owner strm allow block w of
        (None, block1, w1) \<Rightarrow> (None, block1, w1)
      | (Some buffer, block1, w1) \<Rightarrow>
          (case legacyEnsureRegistration env registeredComm (block1, w1) of
             (Inr _, (block2, w2)) \<Rightarrow> (Some (Inr buffer), block2, w2)
           | (Inl e, (block2, w2)) \<Rightarrow> (Some (Inl e), legacyRollback buffer block2, w2)))"

fun legacyTryBlocks ::
  "api_env \<Rightarrow> ptr \<Rightarrow> size_t \<Rightarrow> ptr \<Rightarrow> ptr \<Rightarrow> LegacyBlock list \<Rightarrow> 'w node_world_scheme \<Rightarrow>
   cocclBufferHandle result option \<times> LegacyBlock list \<times> 'w node_world_scheme" where
  "legacyTryBlocks env registeredComm bytes owner strm [] w = (None, [], w)"
| "legacyTryBlocks env registeredComm bytes owner strm (block # blocks) w =
     (case legacyTryBlock env registeredComm bytes owner strm
             (registeredComm = nullptr \<or> legacyRegistered block registeredComm) block w of
        (Some r, block', w1) \<Rightarrow> (Some r, block' # blocks, w1)
      | (None, block', w1) \<Rightarrow>
          (let (found, blocks', w2) = legacyTryBlocks env registeredComm bytes owner strm blocks w1 in
           (found, block' # blocks', w2)))"

text \<open>
  After \<^verbatim>\<open>createBlock\<close> the request is served from the new block. The macro lets \<^verbatim>\<open>ncclInProgress\<close>
  pass, so a new block that cannot serve the request would yield an empty handle and success.
\<close>

definition legacyAcquire ::
  "api_env \<Rightarrow> cocclBufferConfig \<Rightarrow> ptr \<Rightarrow> size_t \<Rightarrow> ptr \<Rightarrow>
   (legacy_pool \<times> 'w node_world_scheme, cocclBufferHandle) comp" where
  "legacyAcquire env cfg registeredComm bytes strm s =
     (let (pool, w) = s in
      case legacyTryBlocks env registeredComm bytes (legacyOwner pool) strm (legacyBlocks pool) w of
        (Some r, blocks, w1) \<Rightarrow> (r, (pool\<lparr>legacyBlocks := blocks\<rparr>, w1))
      | (None, blocks, w1) \<Rightarrow>
          bindC (legacyCreateBlock env cfg bytes)
            (\<lambda>_ (pool2, w2).
               let block = last (legacyBlocks pool2) in
               case legacyTryBlock env registeredComm bytes (legacyOwner pool2) strm False block w2 of
                 (Some r, block', w3) \<Rightarrow>
                   (r, (pool2\<lparr>legacyBlocks := butlast (legacyBlocks pool2) @ [block']\<rparr>, w3))
               | (None, block', w3) \<Rightarrow>
                   (case legacyEnsureRegistration env registeredComm (block', w3) of
                      (r, (block2, w4)) \<Rightarrow>
                        (bindE r (\<lambda>_. Inr emptyHandle),
                         (pool2\<lparr>legacyBlocks := butlast (legacyBlocks pool2) @ [block2]\<rparr>, w4))))
            (pool\<lparr>legacyBlocks := blocks\<rparr>, w1))"

definition putLegacyBlocks :: "LegacyBlock list \<Rightarrow> legacy_pool \<Rightarrow> legacy_pool" where
  "putLegacyBlocks bs pool = pool\<lparr>legacyBlocks := bs\<rparr>"

definition legacyDeregisterBlock ::
  "api_env \<Rightarrow> ptr \<Rightarrow> (LegacyBlock \<times> 'w api_world_scheme, unit) comp" where
  "legacyDeregisterBlock env comm =
     bindC (getX (\<lambda>b. map_of (legacyRegistrations b) comm)) (\<lambda>registration.
       case registration of
         None \<Rightarrow> returnC ()
       | Some handle \<Rightarrow>
           bindC (inWorld (NCCLCHECK env (Nccl (ncclCommDeregister comm handle))))
             (\<lambda>_. updateC (\<lambda>b. b\<lparr>legacyRegistrations :=
                filter (\<lambda>(c, _). c \<noteq> comm) (legacyRegistrations b)\<rparr>)))"

definition legacyDeregisterComm ::
  "api_env \<Rightarrow> ptr \<Rightarrow> (legacy_pool \<times> 'w api_world_scheme, unit) comp" where
  "legacyDeregisterComm env comm =
     overBlocks (forBlocks (legacyDeregisterBlock env comm)) legacyBlocks putLegacyBlocks"

definition legacyReleaseHandle ::
  "api_env \<Rightarrow> cocclBufferHandle \<Rightarrow> ptr \<Rightarrow> (legacy_pool \<times> 'w api_world_scheme, unit) comp" where
  "legacyReleaseHandle env buffer strm =
     overBlocks (onBlock (\<lambda>b. handleBlock buffer = Some (legacyNode b))
                   (legacyRelease env (the (handleSlice buffer)) strm)) legacyBlocks putLegacyBlocks"

definition legacyRegister ::
  "api_env \<Rightarrow> cocclBufferHandle \<Rightarrow> ptr \<Rightarrow> (legacy_pool \<times> 'w api_world_scheme, unit) comp" where
  "legacyRegister env buffer registeredComm =
     overBlocks (onBlock (\<lambda>b. handleBlock buffer = Some (legacyNode b))
                   (legacyEnsureRegistration env registeredComm)) legacyBlocks putLegacyBlocks"

definition legacyDestroy :: "api_env \<Rightarrow> (legacy_pool \<times> 'w api_world_scheme, unit) comp" where
  "legacyDestroy env =
     bindC (getX legacyPoolDev) (\<lambda>dev.
     bindC (inWorld (CUDACHECK env (Cuda (cudaSetDevice dev)))) (\<lambda>_.
     bindC (inWorld (CUDACHECK env (Cuda cudaDeviceSynchronize))) (\<lambda>_.
     bindC (overBlocks (forBlocks (legacyReleaseBlock env)) legacyBlocks putLegacyBlocks) (\<lambda>_.
     updateC (\<lambda>pool. pool\<lparr>legacyBlocks := [], legacyTotalBytes := 0\<rparr>)))))"

section \<open>The block view\<close>

definition legacyView :: "LegacyBlock \<Rightarrow> block_view" where
  "legacyView b = \<lparr>viewNode = legacyNode b, viewBase = legacyPtr b, viewCapacity = legacyCapacity b,
     viewSlices = legacySlices b\<rparr>"

lemma legacyView_simps [simp]:
  "viewNode (legacyView b) = legacyNode b" "viewBase (legacyView b) = legacyPtr b"
  "viewCapacity (legacyView b) = legacyCapacity b" "viewSlices (legacyView b) = legacySlices b"
  by (simp_all add: legacyView_def)

section \<open>Blocks keep their invariant\<close>

lemma legacyAcquireFromBlock_spec:
  assumes run: "legacyAcquireFromBlock env bytes owner strm allow b w = (found, b', w')"
    and wf: "block_wf (nextNode w) (legacyView b)"
  shows "same_place (legacyView b) (legacyView b') \<and> legacyRegistrations b' = legacyRegistrations b \<and>
    nextNode w \<le> nextNode w' \<and> block_wf (nextNode w') (legacyView b') \<and>
    (case found of
       None \<Rightarrow> filter inUse (legacySlices b') = filter inUse (legacySlices b)
     | Some h \<Rightarrow> \<exists>c. c \<in> set (legacySlices b') \<and> inUse c \<and>
         slice_handed_out (seenDone env (logLen w) (logLen w')) strm allow bytes
           (legacySlices b) (legacySlices b') c \<and>
         h = \<lparr>handlePtr = legacyPtr b + sliceOffset c, handleBytes = sliceSize c, handleOwner = owner,
              handleBlock = Some (legacyNode b), handleSlice = Some (sliceNode c)\<rparr>)"
proof -
  obtain fnd ss w1 where a: "acquireSlice env strm allow bytes (nextNode w) (legacySlices b) w = (fnd, ss, w1)"
    by (metis prod_cases3)
  have n1: "nextNode w1 = nextNode w" using acquireSlice_log [OF a] more_nextNode by metis
  have wf': "slices_wf (nextNode w) (unat (legacyCapacity b)) (legacySlices b)"
    using wf by (simp add: block_wf_def)
  show ?thesis
  proof (cases fnd)
    case None
    then have r: "found = None" "b' = b\<lparr>legacySlices := ss\<rparr>" "w' = w1"
      using run a by (auto simp: legacyAcquireFromBlock_def)
    with acquireSlice_None [OF a [unfolded None] wf'] wf n1 show ?thesis
      by (auto simp: same_place_def block_wf_def)
  next
    case (Some c)
    then have r: "b' = b\<lparr>legacySlices := ss\<rparr>" "w' = w1\<lparr>nextNode := Suc (nextNode w1)\<rparr>"
        "found = Some \<lparr>handlePtr = legacyPtr b + sliceOffset c, handleBytes = sliceSize c,
           handleOwner = owner, handleBlock = Some (legacyNode b), handleSlice = Some (sliceNode c)\<rparr>"
      using run a by (auto simp: legacyAcquireFromBlock_def)
    with acquireSlice_Some [OF a [unfolded Some] wf'] wf n1 show ?thesis
      by (auto simp: same_place_def block_wf_def)
  qed
qed

lemma legacyEnsureRegistration_spec:
  assumes "legacyEnsureRegistration env comm (b, w) = (r, (b', w'))"
  shows "legacyView b' = legacyView b \<and> legacyDev b' = legacyDev b \<and> nextNode w' = nextNode w"
  using assms
  by (auto simp: legacyEnsureRegistration_def bindC_def getX_def inWorld_def updateC_def NCCLCHECK_def
      callApi_def legacyView_def split: if_splits sum.splits prod.splits)

text \<open>A try on one block: every outcome keeps the invariant; only success adds a lease.\<close>

lemma legacyTryBlock_spec:
  assumes run: "legacyTryBlock env comm bytes owner strm allow b w = (found, b', w')"
    and wf: "block_wf (nextNode w) (legacyView b)" and pos: "0 < bytes"
  shows "same_place (legacyView b) (legacyView b') \<and> nextNode w \<le> nextNode w' \<and>
    block_wf (nextNode w') (legacyView b') \<and>
    (case found of
       Some (Inr h) \<Rightarrow> leases [legacyView b'] = insert (handle_lease h) (leases [legacyView b]) \<and>
         handle_lease h \<notin> leases [legacyView b] \<and> bytes \<le> handleBytes h
     | _ \<Rightarrow> leases [legacyView b'] = leases [legacyView b])"
proof -
  obtain f1 b1 w1 where a: "legacyAcquireFromBlock env bytes owner strm allow b w = (f1, b1, w1)"
    by (metis prod_cases3)
  note as = legacyAcquireFromBlock_spec [OF a wf]
  show ?thesis
  proof (cases f1)
    case None
    with run a as show ?thesis
      using leases_same_place [of "legacyView b" "legacyView b1"] by (auto simp: legacyTryBlock_def)
  next
    case (Some h)
    with as obtain c where c: "c \<in> set (legacySlices b1)" "inUse c"
      "slice_handed_out (seenDone env (logLen w) (logLen w1)) strm allow bytes (legacySlices b) (legacySlices b1) c"
      "h = \<lparr>handlePtr = legacyPtr b + sliceOffset c, handleBytes = sliceSize c, handleOwner = owner,
              handleBlock = Some (legacyNode b), handleSlice = Some (sliceNode c)\<rparr>" by auto
    obtain r b2 w2 where e: "legacyEnsureRegistration env comm (b1, w1) = (r, (b2, w2))"
      by (metis prod_cases3)
    note es = legacyEnsureRegistration_spec [OF e]
    have wf1: "block_wf (nextNode w1) (legacyView b1)" and sp: "same_place (legacyView b) (legacyView b1)"
      using as by auto
    have "slice_handed_out (seenDone env (logLen w) (logLen w1)) strm allow bytes
        (viewSlices (legacyView b)) (viewSlices (legacyView b1)) c" using c(3) by simp
    note ho = handed_out_lease [OF sp wf1 this _ pos]
    have hl: "handle_lease h = slice_lease (legacyView b1) c"
      using ho(3) c(1) sp by (simp add: handle_lease_def slice_lease_def c(4) same_place_def)
    show ?thesis
    proof (cases r)
      case (Inr u)
      with run a Some e have "found = Some (Inr h)" "b' = b2" "w' = w2" by (auto simp: legacyTryBlock_def)
      with as es ho(1,2,4) c(1) show ?thesis by (simp add: hl) (simp add: c(4))
    next
      case (Inl er)
      with run a Some e have f: "found = Some (Inl er)" "b' = legacyRollback h b2" "w' = w2"
        by (auto simp: legacyTryBlock_def)
      let ?free = "\<lambda>s. s\<lparr>sliceState := SliceFree\<rparr>"
      have s2: "legacySlices b2 = legacySlices b1" "legacyNode b2 = legacyNode b1"
          "legacyPtr b2 = legacyPtr b1" "legacyCapacity b2 = legacyCapacity b1"
        using es by (auto simp: legacyView_def)
      have "filter inUse (updateSlice (sliceNode c) ?free (legacySlices b1)) = filter inUse (legacySlices b)"
        using ho(5) [of ?free] c(1) by (simp add: inUse_def)
      then have "filter inUse (legacySlices b') = filter inUse (legacySlices b)"
        by (simp add: f(2) legacyRollback_def c(4) s2)
      moreover have sp': "same_place (legacyView b) (legacyView b')"
        using sp s2 by (simp add: f(2) legacyRollback_def c(4) same_place_def)
      moreover have "block_wf (nextNode w2) (legacyView b')"
        using wf1 es s2 by (simp add: f(2) legacyRollback_def c(4) block_wf_def)
      ultimately show ?thesis
        using leases_same_place [OF sp'] f as es by simp
    qed
  qed
qed

section \<open>Pools keep their invariant\<close>

definition legacyViews :: "legacy_pool \<Rightarrow> block_view list" where
  "legacyViews pool = map legacyView (legacyBlocks pool)"

text \<open>
  The loop over the blocks, as a change of one block in the middle of the list: the blocks in front
  were only settled, the blocks behind are untouched.
\<close>

lemma legacyTryBlocks_spec:
  assumes "legacyTryBlocks env comm bytes owner strm bs w = (found, bs', w')"
    and "blocks_wf (nextNode w) (pre @ map legacyView bs)" and "0 < bytes"
  shows "nextNode w \<le> nextNode w' \<and> blocks_wf (nextNode w') (pre @ map legacyView bs') \<and>
    map block_range (map legacyView bs') = map block_range (map legacyView bs) \<and>
    (case found of
       Some (Inr h) \<Rightarrow> leases (pre @ map legacyView bs') = insert (handle_lease h) (leases (pre @ map legacyView bs)) \<and>
         handle_lease h \<notin> leases (pre @ map legacyView bs) \<and> bytes \<le> handleBytes h
     | _ \<Rightarrow> leases (pre @ map legacyView bs') = leases (pre @ map legacyView bs))"
  using assms
proof (induction bs arbitrary: w found bs' w' pre)
  case (Cons b bs)
  let ?allow = "comm = nullptr \<or> legacyRegistered b comm"
  obtain f1 b1 w1 where t: "legacyTryBlock env comm bytes owner strm ?allow b w = (f1, b1, w1)"
    by (metis prod_cases3)
  have wfb: "block_wf (nextNode w) (legacyView b)" using Cons.prems(2) by (simp add: blocks_wf_def)
  note ts = legacyTryBlock_spec [OF t wfb Cons.prems(3)]
  have br: "block_range (legacyView b1) = block_range (legacyView b)"
    using ts by (simp add: same_place_def block_range_def)
  have wf1: "blocks_wf (nextNode w1) (pre @ legacyView b1 # map legacyView bs)"
    using blocks_wf_replace [of "nextNode w" pre "legacyView b"] Cons.prems(2) ts by simp
  show ?case
  proof (cases f1)
    case None
    obtain bs2 where r: "legacyTryBlocks env comm bytes owner strm bs w1 = (found, bs2, w')" "bs' = b1 # bs2"
      using Cons.prems(1) t None by (auto split: prod.splits)
    have wf1': "blocks_wf (nextNode w1) ((pre @ [legacyView b1]) @ map legacyView bs)" using wf1 by simp
    have same: "leases (pre @ legacyView b1 # map legacyView bs) = leases (pre @ legacyView b # map legacyView bs)"
      by (rule leases_replace_same) (use ts None in simp)
    note IH = Cons.IH [OF r(1) wf1' Cons.prems(3)]
    have "nextNode w \<le> nextNode w'" using IH ts by auto
    with IH same r(2) br show ?thesis by (auto split: option.splits sum.splits)
  next
    case (Some r)
    then have f: "found = Some r" "bs' = b1 # bs" "w' = w1" using Cons.prems(1) t by auto
    show ?thesis
    proof (cases r)
      case (Inl e)
      with ts Some f wf1 br leases_replace_same [of "legacyView b1" "legacyView b" pre "map legacyView bs"]
      show ?thesis by simp
    next
      case (Inr h)
      have new: "leases [legacyView b1] = insert (handle_lease h) (leases [legacyView b])"
        "handle_lease h \<notin> leases [legacyView b]" "bytes \<le> handleBytes h" using ts Some Inr by auto
      with lease_added [OF _ _ new(1,2)] Cons.prems(2) ts wf1 br f Some Inr show ?thesis by simp
    qed
  qed
qed simp

text \<open>The block size of a new block, and the freshness of its memory.\<close>

definition legacyBlockSize :: "cocclBufferConfig \<Rightarrow> size_t \<Rightarrow> size_t" where
  "legacyBlockSize cfg bytes = (if legacyBlockBytes cfg > bytes then alignUp (legacyBlockBytes cfg) else bytes)"

definition legacyFresh :: "api_env \<Rightarrow> cocclBufferConfig \<Rightarrow> size_t \<Rightarrow> legacy_pool \<Rightarrow> bool" where
  "legacyFresh env cfg bytes pool \<longleftrightarrow>
     unat (legacyBlockBytes cfg) + 255 < 2 ^ 64 \<and>
     (\<forall>i. let n = legacyBlockSize cfg bytes; p = outValue (env i (Nccl (ncclMemAlloc n))) in
        unat p + unat n \<le> 2 ^ 64 \<and>
        (\<forall>q \<in> set (map block_range (legacyViews pool)). ranges_disjoint q (unat p, unat n)))"

lemma legacyBlockSize_ge:
  assumes "unat (legacyBlockBytes cfg) + 255 < 2 ^ 64"
  shows "bytes \<le> legacyBlockSize cfg bytes"
proof (cases "legacyBlockBytes cfg > bytes")
  case True
  then have "unat bytes \<le> unat (alignUp (legacyBlockBytes cfg))"
    using alignUp_exact(2) [OF assms] by (simp add: word_less_nat_alt)
  with True show ?thesis by (simp add: legacyBlockSize_def word_le_nat_alt)
qed (simp add: legacyBlockSize_def)

lemma legacyCreateBlock_eq:
  "legacyCreateBlock env cfg bytes (pool, w) =
     (let n = legacyBlockSize cfg bytes; r = env (logLen w) (Nccl (ncclMemAlloc n));
          w1 = w\<lparr>apiLog := apiLog w @ [Nccl (ncclMemAlloc n)]\<rparr> in
      if nccl_ok (status r)
      then (Inr (), (pool\<lparr>legacyTotalBytes := legacyTotalBytes pool + n,
               legacyBlocks := legacyBlocks pool @
                 [\<lparr>legacyNode = nextNode w, legacyDev = legacyPoolDev pool, legacyPtr = outValue r,
                   legacyCapacity = n, legacySlices = [newSlice (Suc (nextNode w)) 0 n],
                   legacyRegistrations = []\<rparr>]\<rparr>,
             w1\<lparr>nextNode := nextNode w + 2\<rparr>))
      else (Inl (status r), (pool, w1)))"
  by (simp add: legacyCreateBlock_def legacyBlockSize_def [symmetric] Let_def bindC_def inWorld_def
      NCCLCHECK_def callApi_def)

text \<open>A new block is large enough, so the request is served from it.\<close>

lemma legacyTryBlock_fresh:
  assumes "legacySlices b = [newSlice k 0 n]" and "bytes \<le> n"
  shows "\<exists>r b' w'. legacyTryBlock env comm bytes owner strm False b w = (Some r, b', w')"
proof -
  obtain c ts where a: "acquireSlice env strm False bytes (nextNode w) (legacySlices b) w = (Some c, ts, w)"
    using acquireSlice_fresh [OF assms(2), of env strm False "nextNode w" k w] assms(1) by auto
  show ?thesis
    by (auto simp: legacyTryBlock_def legacyAcquireFromBlock_def a split: prod.splits sum.splits)
qed

text \<open>The state after \<^verbatim>\<open>createBlock\<close>: one more block, no lease in it.\<close>

lemma legacyCreateBlock_spec:
  assumes wf: "blocks_wf (nextNode w) (legacyViews p)" and fresh: "legacyFresh env cfg bytes p"
    and run: "legacyCreateBlock env cfg bytes (p, w) = (Inr u, (p', w'))"
  shows "\<exists>b. legacyBlocks p' = legacyBlocks p @ [b] \<and> legacyOwner p' = legacyOwner p \<and>
    nextNode w \<le> nextNode w' \<and>
    blocks_wf (nextNode w') (legacyViews p') \<and> leases (legacyViews p') = leases (legacyViews p) \<and>
    legacySlices b = [newSlice (Suc (nextNode w)) 0 (legacyBlockSize cfg bytes)]"
proof -
  let ?n = "legacyBlockSize cfg bytes"
  let ?r = "env (logLen w) (Nccl (ncclMemAlloc ?n))"
  let ?v = "\<lparr>viewNode = nextNode w, viewBase = outValue ?r, viewCapacity = ?n,
     viewSlices = [newSlice (Suc (nextNode w)) 0 ?n]\<rparr>"
  obtain b where b: "legacyBlocks p' = legacyBlocks p @ [b]" "legacyView b = ?v"
    "legacyOwner p' = legacyOwner p" "nextNode w' = nextNode w + 2"
    using run by (auto simp: legacyCreateBlock_eq Let_def legacyView_def split: if_splits)
  have "unat (outValue ?r) + unat ?n \<le> 2 ^ 64" and
    dis: "\<forall>u \<in> set (legacyViews p). ranges_disjoint (block_range u) (block_range ?v)"
    using fresh by (auto simp: legacyFresh_def Let_def legacyViews_def block_range_def)
  from fresh_block_wf [OF this(1), of "nextNode w"]
  have "blocks_wf (nextNode w + 2) (legacyViews p @ [?v])"
    by (intro blocks_wf_add [OF wf]) (use dis in auto)
  moreover have "legacyViews p' = legacyViews p @ [?v]" using b by (simp add: legacyViews_def)
  moreover have "legacySlices b = [newSlice (Suc (nextNode w)) 0 ?n]"
    using b(2) by (simp add: legacyView_def)
  ultimately show ?thesis using b by (auto simp: leases_append)
qed

lemma legacyAcquire_law:
  assumes wf: "blocks_wf (nextNode w) (legacyViews p)" and pos: "0 < bytes"
    and fresh: "legacyFresh env cfg bytes p"
    and run: "legacyAcquire env cfg comm bytes strm (p, w) = (r, (p', w'))"
  shows "nextNode w \<le> nextNode w' \<and> blocks_wf (nextNode w') (legacyViews p') \<and>
     (case r of
        Inl e \<Rightarrow> leases (legacyViews p') = leases (legacyViews p)
      | Inr h \<Rightarrow> leases (legacyViews p') = insert (handle_lease h) (leases (legacyViews p)) \<and>
          handle_lease h \<notin> leases (legacyViews p) \<and> bytes \<le> handleBytes h)"
proof -
  obtain found bs w1 where t: "legacyTryBlocks env comm bytes (legacyOwner p) strm (legacyBlocks p) w = (found, bs, w1)"
    by (metis prod_cases3)
  note ts = legacyTryBlocks_spec [OF t, of "[]", simplified, OF wf [unfolded legacyViews_def] pos]
  let ?p1 = "p\<lparr>legacyBlocks := bs\<rparr>"
  show ?thesis
  proof (cases found)
    case (Some x)
    then have "r = x" "p' = ?p1" "w' = w1" using run t by (auto simp: legacyAcquire_def)
    with ts Some show ?thesis by (auto simp: legacyViews_def split: sum.splits)
  next
    case None
    have wf1: "blocks_wf (nextNode w1) (legacyViews ?p1)"
      and same: "leases (legacyViews ?p1) = leases (legacyViews p)"
      using ts None by (simp_all add: legacyViews_def)
    have fresh1: "legacyFresh env cfg bytes ?p1"
      using fresh ts by (simp add: legacyFresh_def legacyViews_def)
    obtain c p2 w2 where cr: "legacyCreateBlock env cfg bytes (?p1, w1) = (c, (p2, w2))"
      by (metis prod_cases3)
    show ?thesis
    proof (cases c)
      case (Inl e)
      then have "r = Inl e" "p' = p2" "w' = w2"
        using run t None cr by (auto simp: legacyAcquire_def bindC_def)
      moreover have "p2 = ?p1" "nextNode w2 = nextNode w1"
        using cr Inl by (auto simp: legacyCreateBlock_eq Let_def split: if_splits)
      ultimately show ?thesis using wf1 same ts by simp
    next
      case (Inr u)
      obtain b where b: "legacyBlocks p2 = bs @ [b]" "legacyOwner p2 = legacyOwner p"
        "blocks_wf (nextNode w2) (legacyViews p2)" "leases (legacyViews p2) = leases (legacyViews p)"
        "legacySlices b = [newSlice (Suc (nextNode w1)) 0 (legacyBlockSize cfg bytes)]" "nextNode w1 \<le> nextNode w2"
        using legacyCreateBlock_spec [OF wf1 fresh1] cr Inr same by auto
      have "bytes \<le> legacyBlockSize cfg bytes"
        using fresh by (intro legacyBlockSize_ge) (simp add: legacyFresh_def)
      from legacyTryBlock_fresh [OF b(5) this, of env comm "legacyOwner p2" strm w2]
      obtain x b' w3 where f: "legacyTryBlock env comm bytes (legacyOwner p2) strm False b w2 = (Some x, b', w3)"
        by blast
      then have r: "r = x" "p' = p2\<lparr>legacyBlocks := bs @ [b']\<rparr>" "w' = w3"
        using run t None cr Inr b(1) by (auto simp: legacyAcquire_def bindC_def)
      have one: "legacyTryBlocks env nullptr bytes owner strm [] w2 = (None, [], w2)" for owner by simp
      have wfb: "block_wf (nextNode w2) (legacyView b)"
        using b(1,3) by (simp add: legacyViews_def blocks_wf_def)
      note fs = legacyTryBlock_spec [OF f wfb pos]
      have wf3: "blocks_wf (nextNode w3) (map legacyView bs @ legacyView b' # [])"
        using blocks_wf_replace [of "nextNode w2" "map legacyView bs" "legacyView b" "[]"] b(1,3) fs
        by (simp add: legacyViews_def)
      show ?thesis
        using fs wf3 r b(1,3,4,6) ts lease_added [of "nextNode w2" "map legacyView bs" "legacyView b" "[]" "legacyView b'"]
        by (auto simp: legacyViews_def leases_append split: sum.splits)
    qed
  qed
qed

section \<open>Release\<close>

lemma legacyRelease_spec:
  assumes run: "legacyRelease env nod strm (b, w) = (r, (b', w'))"
    and wf: "block_wf n (legacyView b)"
  shows "same_place (legacyView b) (legacyView b') \<and> block_wf n (legacyView b') \<and> nextNode w' = nextNode w \<and>
    (case r of
       Inl e \<Rightarrow> leases [legacyView b'] = leases [legacyView b]
     | Inr _ \<Rightarrow> filter inUse (legacySlices b') =
                 filter (\<lambda>s. sliceNode s \<noteq> nod) (filter inUse (legacySlices b)))"
proof -
  have nx: "nextNode w' = nextNode w" and
    cases: "b' = b \<and> r \<in> range Inl
     \<or> (\<exists>ev. b' = b\<lparr>legacySlices := setEvent nod ev (legacySlices b)\<rparr>) \<and> r \<in> range Inl
     \<or> (\<exists>ev. b' = b\<lparr>legacySlices := setPending nod strm (setEvent nod ev (legacySlices b))\<rparr>) \<and> r = Inr ()
     \<or> b' = b\<lparr>legacySlices := setPending nod strm (legacySlices b)\<rparr> \<and> r = Inr ()"
    using run
    by (auto simp: legacyRelease_def bindC_def thenC_def getX_def inWorld_def updateC_def CUDACHECK_def
        callApi_def split: if_splits sum.splits prod.splits option.splits)
  from cases show ?thesis
  proof (elim disjE conjE exE)
    fix ev assume b': "b' = b\<lparr>legacySlices := setEvent nod ev (legacySlices b)\<rparr>" and "r \<in> range Inl"
    moreover have "leases [legacyView b'] = leases [legacyView b]"
      by (rule setEvent_leases) (simp_all add: b' same_place_def)
    ultimately show ?thesis using wf nx by (auto simp: same_place_def block_wf_def)
  qed (use wf nx in \<open>auto simp: same_place_def block_wf_def setPending_setEvent_inUse,
        auto simp: setPending_inUse\<close>)
qed

lemma legacyRelease_law:
  assumes wf: "blocks_wf (nextNode w) (legacyViews p)" and l: "handle_lease h \<in> leases (legacyViews p)"
    and run: "legacyReleaseHandle env h strm (p, w) = (q, (p', w'))"
  shows "nextNode w \<le> nextNode w' \<and> blocks_wf (nextNode w') (legacyViews p') \<and>
     (case q of
        Inl e \<Rightarrow> leases (legacyViews p') = leases (legacyViews p)
      | Inr _ \<Rightarrow> leases (legacyViews p') = leases (legacyViews p) - {handle_lease h})"
proof -
  obtain bs' where o: "onBlock (\<lambda>b. handleBlock h = Some (legacyNode b))
      (legacyRelease env (the (handleSlice h)) strm) (legacyBlocks p, w) = (q, (bs', w'))"
    and p': "p' = p\<lparr>legacyBlocks := bs'\<rparr>"
    using run by (auto simp: legacyReleaseHandle_def overBlocks_def putLegacyBlocks_def split: prod.splits)
  from onBlock_split [OF o] show ?thesis
  proof (elim disjE conjE exE)
    assume "bs' = legacyBlocks p" "w' = w" "q \<in> range Inl"
    with wf p' show ?thesis by (auto simp: legacyViews_def)
  next
    fix xs b ys b'
    assume bs: "legacyBlocks p = xs @ b # ys" and h: "handleBlock h = Some (legacyNode b)"
      and f: "legacyRelease env (the (handleSlice h)) strm (b, w) = (q, (b', w'))" and bs': "bs' = xs @ b' # ys"
    let ?xs = "map legacyView xs" and ?ys = "map legacyView ys"
    have wf': "blocks_wf (nextNode w) (?xs @ legacyView b # ?ys)" using wf bs by (simp add: legacyViews_def)
    then have "block_wf (nextNode w) (legacyView b)" by (simp add: blocks_wf_def)
    note rs = legacyRelease_spec [OF f this]
    have "blocks_wf (nextNode w') (legacyViews p')"
      using blocks_wf_replace [OF wf', of "legacyView b'" "nextNode w'"] rs p' bs' by (simp add: legacyViews_def)
    moreover have "nextNode w \<le> nextNode w'" using rs by simp
    moreover have "leases (legacyViews p') = leases (legacyViews p)" if "q = Inl e" for e
      using leases_replace_same [of "legacyView b'" "legacyView b" ?xs ?ys] rs p' bs bs' that
      by (simp add: legacyViews_def)
    moreover have "leases (legacyViews p') = leases (legacyViews p) - {handle_lease h}" if "q = Inr u" for u
      using lease_removed [OF wf', of "legacyView b'" "the (handleSlice h)" "handle_lease h"]
        rs p' bs bs' that l h by (simp add: legacyViews_def handle_lease_def)
    ultimately show ?thesis by (cases q) auto
  qed
qed

text \<open>The legacy backend offers the contract.\<close>

interpretation legacy: lease_backend legacyViews legacyFresh legacyAcquire legacyReleaseHandle
  by unfold_locales (erule (3) legacyAcquire_law, erule (2) legacyRelease_law)

end
