(* ===== verification/Buffer_Vmm.thy ===== *)
theory Buffer_Vmm
  imports Buffer_Lease Config_Types
begin

text \<open>
  The VMM backend of the workspace allocator, \<^verbatim>\<open>core/memory/coccl_buffer_vmm.cc\<close>: virtual address
  reservations backed by physical chunks, which can grow in place of their old reservation when
  no slice is in use.
\<close>

section \<open>State\<close>

record VmmRegistration =
  regComm :: ptr
  regPtr :: ptr
  regBytes :: size_t
  regHandle :: ptr

record VmmBlock =
  vmmNode :: nat
  vmmDev :: int
  vmmPtr :: ptr
  vmmCapacity :: size_t
  vmmHandles :: "ptr list"
  vmmSlices :: "BufferSlice list"
  vmmRegistrations :: "VmmRegistration list"

record VmmPool =
  vmmOwner :: ptr
  vmmPoolDev :: int
  vmmCuDev :: "64 word"
  granularity :: size_t
  chunkBytes :: size_t
  virtualBytes :: size_t
  physicalBytes :: size_t
  vmmRegisteredBytes :: size_t
  gpuDirectRdma :: bool
  vmmBlocks :: "VmmBlock list"

text \<open>
  Operations on a block also change the counters of its pool, so they work on the pool and the
  position of the block.
\<close>

definition updateVmmBlock :: "nat \<Rightarrow> (VmmBlock \<Rightarrow> VmmBlock) \<Rightarrow> VmmPool \<Rightarrow> VmmPool" where
  "updateVmmBlock i f pool = pool\<lparr>vmmBlocks := (vmmBlocks pool)[i := f (vmmBlocks pool ! i)]\<rparr>"

definition alignUpTo :: "size_t \<Rightarrow> size_t \<Rightarrow> size_t" where
  "alignUpTo val alignment = (val + alignment - 1) div alignment * alignment"

section \<open>Block operations\<close>

definition canGrow :: "VmmBlock \<Rightarrow> bool" where
  "canGrow block \<longleftrightarrow> (\<forall>s \<in> set (vmmSlices block). sliceState s \<noteq> SliceInUse)"

definition waitForBlock :: "api_env \<Rightarrow> nat \<Rightarrow> (VmmPool \<times> 'w api_world_scheme, unit) comp" where
  "waitForBlock env i =
     bindC (getX (\<lambda>pool. vmmSlices (vmmBlocks pool ! i))) (\<lambda>ss. forC ss (\<lambda>s.
       if sliceState s = SlicePending
       then bindC (inWorld (CUDACHECK env (Cuda (cudaEventSynchronize (doneEvent s)))))
         (\<lambda>_. updateC (updateVmmBlock i (\<lambda>b. b\<lparr>vmmSlices :=
            updateSlice (sliceNode s) markFree (vmmSlices b)\<rparr>)))
       else returnC ()))"

definition setPeerAccess ::
  "api_env \<Rightarrow> int \<Rightarrow> ptr \<Rightarrow> size_t \<Rightarrow> ('w api_world_scheme, unit) comp" where
  "setPeerAccess env dev p bytes =
     bindC (CUDACHECK env (Cuda cudaGetDeviceCount)) (\<lambda>deviceCount.
       forC [0..<unat deviceCount] (\<lambda>d.
         bindC (if int d = dev then returnC True
                else bindC (CUDACHECK env (Cuda (cudaDeviceCanAccessPeer (int d) dev)))
                       (\<lambda>canAccess. returnC (canAccess \<noteq> 0)))
           (\<lambda>canAccess. if canAccess
              then bindC (CUDACHECK env (Driver (cuMemSetAccess p bytes (int d)))) (\<lambda>_. returnC ())
              else returnC ())))"

definition createPhysicalHandle :: "api_env \<Rightarrow> (VmmPool \<times> 'w api_world_scheme, ptr) comp" where
  "createPhysicalHandle env =
     bindC (getX chunkBytes) (\<lambda>chunk.
     bindC (inWorld (CUDACHECK env (Driver (cuMemCreate chunk)))) (\<lambda>handle.
     thenC (updateC (\<lambda>pool. pool\<lparr>physicalBytes := physicalBytes pool + chunkBytes pool\<rparr>))
       (returnC handle)))"

definition deregisterAll :: "api_env \<Rightarrow> nat \<Rightarrow> (VmmPool \<times> 'w api_world_scheme, unit) comp" where
  "deregisterAll env i =
     bindC (getX (\<lambda>pool. vmmRegistrations (vmmBlocks pool ! i))) (\<lambda>regs.
     bindC (forC regs (\<lambda>reg.
         bindC (inWorld (NCCLCHECK env (Nccl (ncclCommDeregister (regComm reg) (regHandle reg)))))
           (\<lambda>_. updateC (\<lambda>pool. pool\<lparr>vmmRegisteredBytes := vmmRegisteredBytes pool - regBytes reg\<rparr>))))
       (\<lambda>_. updateC (updateVmmBlock i (\<lambda>b. b\<lparr>vmmRegistrations := []\<rparr>))))"

definition vmmRegistered :: "VmmBlock \<Rightarrow> ptr \<Rightarrow> bool" where
  "vmmRegistered block comm \<longleftrightarrow> (\<exists>reg \<in> set (vmmRegistrations block). regComm reg = comm)"

definition vmmEnsureRegistration ::
  "api_env \<Rightarrow> ptr \<Rightarrow> nat \<Rightarrow> (VmmPool \<times> 'w api_world_scheme, unit) comp" where
  "vmmEnsureRegistration env comm i =
     bindC (getX (\<lambda>pool. vmmBlocks pool ! i)) (\<lambda>block.
       if comm = nullptr \<or> vmmRegistered block comm then returnC ()
       else bindC (inWorld (NCCLCHECK env (Nccl (ncclCommRegister comm (vmmPtr block) (vmmCapacity block)))))
         (\<lambda>handle. updateC (\<lambda>pool. (updateVmmBlock i (\<lambda>b. b\<lparr>vmmRegistrations := vmmRegistrations b @
              [\<lparr>regComm = comm, regPtr = vmmPtr b, regBytes = vmmCapacity b, regHandle = handle\<rparr>]\<rparr>) pool)
            \<lparr>vmmRegisteredBytes := vmmRegisteredBytes pool + vmmCapacity block\<rparr>)))"

text \<open>\<^verbatim>\<open>resetSlices\<close>: the events are destroyed, one free slice covers the block.\<close>

definition destroyEvents :: "api_env \<Rightarrow> BufferSlice list \<Rightarrow> ('w api_world_scheme, unit) comp" where
  "destroyEvents env ss =
     forC ss (\<lambda>s. if doneEvent s \<noteq> nullptr then ignoreC env (Cuda (cudaEventDestroy (doneEvent s)))
                  else returnC ())"

definition vmmAcquireFromBlock ::
  "api_env \<Rightarrow> nat \<Rightarrow> size_t \<Rightarrow> ptr \<Rightarrow> ptr \<Rightarrow> VmmPool \<times> 'w node_world_scheme \<Rightarrow>
   cocclBufferHandle result option \<times> VmmPool \<times> 'w node_world_scheme" where
  "vmmAcquireFromBlock env i bytes registeredComm strm s =
     (let (pool, w) = s; block = vmmBlocks pool ! i;
          registered = (registeredComm = nullptr \<or> vmmRegistered block registeredComm);
          (found, ss, w1) = acquireSlice env strm registered bytes (nextNode w) (vmmSlices block) w;
          pool1 = updateVmmBlock i (\<lambda>b. b\<lparr>vmmSlices := ss\<rparr>) pool in
      case found of
        None \<Rightarrow> (None, pool1, w1)
      | Some c \<Rightarrow>
          (case vmmEnsureRegistration env registeredComm i (pool1, w1\<lparr>nextNode := Suc (nextNode w1)\<rparr>) of
             (Inr _, (pool2, w2)) \<Rightarrow>
               (Some (Inr \<lparr>handlePtr = vmmPtr block + sliceOffset c, handleBytes = sliceSize c,
                  handleOwner = vmmOwner pool, handleBlock = Some (vmmNode block),
                  handleSlice = Some (sliceNode c)\<rparr>), pool2, w2)
           | (Inl e, (pool2, w2)) \<Rightarrow>
               (Some (Inl e), updateVmmBlock i (\<lambda>b. b\<lparr>vmmSlices :=
                  updateSlice (sliceNode c) (\<lambda>s. s\<lparr>sliceState := SliceFree\<rparr>) (vmmSlices b)\<rparr>) pool2, w2)))"

section \<open>Creating and growing blocks\<close>

text \<open>
  The local variables of \<^verbatim>\<open>createBlock\<close> that the clean-up after \<^verbatim>\<open>fail:\<close> reads.
\<close>

record vmm_build =
  buildReservation :: ptr
  buildHandles :: "ptr list"
  buildMapped :: nat

definition buildBlock ::
  "api_env \<Rightarrow> size_t \<Rightarrow> ((VmmPool \<times> vmm_build) \<times> 'w api_world_scheme, unit) comp" where
  "buildBlock env capacity =
     bindC (getX (\<lambda>(pool, loc). pool)) (\<lambda>pool0.
     bindC (inWorld (CUDACHECK env (Driver (cuMemAddressReserve capacity (granularity pool0))))) (\<lambda>reservation.
     bindC (updateC (\<lambda>(pool, loc). (pool, loc\<lparr>buildReservation := reservation\<rparr>))) (\<lambda>_.
     bindC (forC [0..<unat (capacity div chunkBytes pool0)] (\<lambda>i.
         bindC (\<lambda>((pool, loc), w). case createPhysicalHandle env (pool, w) of
                   (r, (pool', w')) \<Rightarrow> (r, ((pool', loc), w'))) (\<lambda>handle.
         bindC (updateC (\<lambda>(pool, loc). (pool, loc\<lparr>buildHandles := buildHandles loc @ [handle]\<rparr>))) (\<lambda>_.
         bindC (inWorld (CUDACHECK env (Driver (cuMemMap
                  (reservation + word_of_nat i * chunkBytes pool0) (chunkBytes pool0) handle)))) (\<lambda>_.
         updateC (\<lambda>(pool, loc). (pool, loc\<lparr>buildMapped := Suc (buildMapped loc)\<rparr>)))))))
       (\<lambda>_. inWorld (setPeerAccess env (vmmPoolDev pool0) reservation capacity)))))"

definition cleanUpBuild ::
  "api_env \<Rightarrow> size_t \<Rightarrow> vmm_build \<Rightarrow> (VmmPool \<times> 'w api_world_scheme, unit) comp" where
  "cleanUpBuild env capacity loc =
     bindC (getX chunkBytes) (\<lambda>chunk.
     bindC (if buildReservation loc \<noteq> 0 \<and> buildMapped loc \<noteq> 0
            then inWorld (ignoreC env (Driver (cuMemUnmap (buildReservation loc)
                   (word_of_nat (buildMapped loc) * chunk))))
            else returnC ()) (\<lambda>_.
     bindC (forC (buildHandles loc) (\<lambda>handle.
              bindC (inWorld (ignoreC env (Driver (cuMemRelease handle))))
                (\<lambda>_. updateC (\<lambda>pool. pool\<lparr>physicalBytes := physicalBytes pool - chunkBytes pool\<rparr>)))) (\<lambda>_.
     if buildReservation loc \<noteq> 0
     then inWorld (ignoreC env (Driver (cuMemAddressFree (buildReservation loc) capacity)))
     else returnC ())))"

definition vmmCreateBlock :: "api_env \<Rightarrow> size_t \<Rightarrow> (VmmPool \<times> 'w node_world_scheme, unit) comp" where
  "vmmCreateBlock env requested s =
     (let (pool0, w0) = s; capacity = alignUpTo requested (chunkBytes pool0) in
      case buildBlock env capacity
             ((pool0, \<lparr>buildReservation = 0, buildHandles = [], buildMapped = 0\<rparr>), w0) of
        (Inl e, ((pool, loc), w)) \<Rightarrow>
          (case cleanUpBuild env capacity loc (pool, w) of (_, s') \<Rightarrow> (Inl e, s'))
      | (Inr _, ((pool, loc), w)) \<Rightarrow>
          (Inr (), (pool\<lparr>virtualBytes := virtualBytes pool + capacity,
             vmmBlocks := vmmBlocks pool @
               [\<lparr>vmmNode = nextNode w, vmmDev = vmmPoolDev pool, vmmPtr = buildReservation loc,
                 vmmCapacity = capacity, vmmHandles = buildHandles loc,
                 vmmSlices = [newSlice (Suc (nextNode w)) 0 capacity], vmmRegistrations = []\<rparr>]\<rparr>,
           w\<lparr>nextNode := nextNode w + 2\<rparr>)))"

text \<open>The chunks a block lacks; a failure gives the new reservation back.\<close>

definition addHandles ::
  "api_env \<Rightarrow> nat \<Rightarrow> ptr \<Rightarrow> size_t \<Rightarrow> nat list \<Rightarrow> (VmmPool \<times> 'w api_world_scheme, unit) comp" where
  "addHandles env i newReservation newCapacity missing =
     forC missing (\<lambda>_ s.
       case createPhysicalHandle env s of
         (Inl e, s1) \<Rightarrow>
           (case inWorld (ignoreC env (Driver (cuMemAddressFree newReservation newCapacity))) s1 of
              (_, s2) \<Rightarrow> (Inl e, s2))
       | (Inr handle, s1) \<Rightarrow>
           updateC (updateVmmBlock i (\<lambda>b. b\<lparr>vmmHandles := vmmHandles b @ [handle]\<rparr>)) s1)"

text \<open>\<^verbatim>\<open>growBlock\<close>; \<open>pool0\<close> is the pool at the call.\<close>

definition growFrom :: "api_env \<Rightarrow> nat \<Rightarrow> size_t \<Rightarrow> VmmPool \<Rightarrow> (VmmPool \<times> 'w node_world_scheme, unit) comp" where
  "growFrom env i requested pool0 =
     (let block0 = vmmBlocks pool0 ! i; chunk = chunkBytes pool0;
         newCapacity = alignUpTo requested chunk; newChunks = unat (newCapacity div chunk) in
     bindC (inWorld (CUDACHECK env (Cuda (cudaSetDevice (vmmDev block0))))) (\<lambda>_.
     bindC (waitForBlock env i) (\<lambda>_.
     bindC (inWorld (CUDACHECK env (Driver (cuMemAddressReserve newCapacity (granularity pool0)))))
       (\<lambda>newReservation.
     bindC (addHandles env i newReservation newCapacity [length (vmmHandles block0)..<newChunks]) (\<lambda>_.
     bindC (deregisterAll env i) (\<lambda>_.
     bindC (inWorld (CUDACHECK env (Driver (cuMemUnmap (vmmPtr block0) (vmmCapacity block0))))) (\<lambda>_.
     bindC (getX (\<lambda>pool. vmmHandles (vmmBlocks pool ! i))) (\<lambda>handles.
     bindC (forC [0..<newChunks] (\<lambda>k. bindC (inWorld (CUDACHECK env (Driver (cuMemMap
              (newReservation + word_of_nat k * chunk) chunk (handles ! k))))) (\<lambda>_. returnC ()))) (\<lambda>_.
     bindC (inWorld (setPeerAccess env (vmmPoolDev pool0) newReservation newCapacity)) (\<lambda>_.
     bindC (inWorld (CUDACHECK env (Driver (cuMemAddressFree (vmmPtr block0) (vmmCapacity block0))))) (\<lambda>_.
     bindC (getX (\<lambda>pool. vmmSlices (vmmBlocks pool ! i))) (\<lambda>ss.
     bindC (inWorld (destroyEvents env ss)) (\<lambda>_.
     modifyC (\<lambda>(pool, w).
       ((updateVmmBlock i (\<lambda>b. b\<lparr>vmmPtr := newReservation, vmmCapacity := newCapacity,
            vmmSlices := [newSlice (nextNode w) 0 newCapacity]\<rparr>) pool)
          \<lparr>virtualBytes := virtualBytes pool + (newCapacity - vmmCapacity block0)\<rparr>,
        w\<lparr>nextNode := Suc (nextNode w)\<rparr>)))))))))))))))"

definition growBlock :: "api_env \<Rightarrow> nat \<Rightarrow> size_t \<Rightarrow> (VmmPool \<times> 'w node_world_scheme, unit) comp" where
  "growBlock env i requested = bindC (getX (\<lambda>pool. pool)) (growFrom env i requested)"

definition vmmReleaseBlock :: "api_env \<Rightarrow> nat \<Rightarrow> (VmmPool \<times> 'w api_world_scheme, unit) comp" where
  "vmmReleaseBlock env i =
     bindC (deregisterAll env i) (\<lambda>_.
     bindC (getX (\<lambda>pool. vmmBlocks pool ! i)) (\<lambda>block.
     bindC (forC (vmmSlices block) (\<lambda>s. if doneEvent s \<noteq> nullptr
              then bindC (inWorld (CUDACHECK env (Cuda (cudaEventDestroy (doneEvent s))))) (\<lambda>_. returnC ())
              else returnC ())) (\<lambda>_.
     bindC (inWorld (CUDACHECK env (Driver (cuMemUnmap (vmmPtr block) (vmmCapacity block))))) (\<lambda>_.
     bindC (forC (vmmHandles block) (\<lambda>handle.
              bindC (inWorld (CUDACHECK env (Driver (cuMemRelease handle))))
                (\<lambda>_. updateC (\<lambda>pool. pool\<lparr>physicalBytes := physicalBytes pool - chunkBytes pool\<rparr>)))) (\<lambda>_.
     bindC (inWorld (CUDACHECK env (Driver (cuMemAddressFree (vmmPtr block) (vmmCapacity block))))) (\<lambda>_.
     updateC (\<lambda>pool. pool\<lparr>virtualBytes := virtualBytes pool - vmmCapacity block\<rparr>)))))))"

section \<open>Initialisation\<close>

text \<open>
  The driver entry points, in the order the code tests them, and the device attributes. Any missing
  entry point, failed query or unsupported attribute leaves the backend unavailable; the function
  itself always succeeds. \<open>cfg\<close> is \<open>None\<close> when no configuration is published.
\<close>

definition vmmEntryPoints :: nat where
  "vmmEntryPoints = 10"

definition VIRTUAL_MEMORY_MANAGEMENT_SUPPORTED :: nat where
  "VIRTUAL_MEMORY_MANAGEMENT_SUPPORTED = 0"
definition GPU_DIRECT_RDMA_WITH_CUDA_VMM_SUPPORTED :: nat where
  "GPU_DIRECT_RDMA_WITH_CUDA_VMM_SUPPORTED = 1"
definition GPU_DIRECT_RDMA_SUPPORTED :: nat where
  "GPU_DIRECT_RDMA_SUPPORTED = 2"

definition vmmDriverReady :: "api_env \<Rightarrow> ('w api_world_scheme, unit) comp" where
  "vmmDriverReady env =
     bindC (queryC env (Nccl ncclCudaLibraryInit)) (\<lambda>r.
     bindC (guardC (status r = ncclSuccess) ncclSystemError) (\<lambda>_.
     bindC (queryC env (Nccl ncclCuMemEnable)) (\<lambda>r.
     bindC (guardC (outValue r \<noteq> 0) ncclSystemError) (\<lambda>_.
     forC [0..<vmmEntryPoints] (\<lambda>k.
       bindC (queryC env (Driver (cuDriverEntryPoint k))) (\<lambda>r.
         guardC (outValue r \<noteq> nullptr) ncclSystemError))))))"

definition vmmProbe ::
  "api_env \<Rightarrow> cocclBufferConfig option \<Rightarrow> (VmmPool \<times> 'w api_world_scheme, unit) comp" where
  "vmmProbe env cfg =
     bindC (getX vmmPoolDev) (\<lambda>dev.
     bindC (inWorld (CUDACHECK env (Cuda (cudaSetDevice dev)))) (\<lambda>_.
     bindC (inWorld (CUDACHECK env (Driver (cuDeviceGet dev)))) (\<lambda>cuDev.
     bindC (updateC (\<lambda>pool. pool\<lparr>vmmCuDev := cuDev\<rparr>)) (\<lambda>_.
     bindC (inWorld (CUDACHECK env (Driver (cuDeviceGetAttribute VIRTUAL_MEMORY_MANAGEMENT_SUPPORTED))))
       (\<lambda>vmmSupported.
     bindC (inWorld (CUDACHECK env (Driver (cuDeviceGetAttribute GPU_DIRECT_RDMA_WITH_CUDA_VMM_SUPPORTED))))
       (\<lambda>rdmaVmmSupported.
     bindC (guardC (vmmSupported \<noteq> 0 \<and> rdmaVmmSupported \<noteq> 0) ncclSystemError) (\<lambda>_.
     bindC (inWorld (CUDACHECK env (Driver (cuDeviceGetAttribute GPU_DIRECT_RDMA_SUPPORTED))))
       (\<lambda>rdmaSupported.
     bindC (updateC (\<lambda>pool. pool\<lparr>gpuDirectRdma := (rdmaSupported \<noteq> 0)\<rparr>)) (\<lambda>_.
     bindC (inWorld (CUDACHECK env (Driver cuMemGetAllocationGranularity))) (\<lambda>gran.
     updateC (\<lambda>pool. pool\<lparr>granularity := gran,
       chunkBytes := alignUpTo (max (physicalChunkBytes (case cfg of None \<Rightarrow> defaultBufferConfig
                                                        | Some c \<Rightarrow> c)) gran) gran\<rparr>)))))))))))"

definition vmmInit ::
  "api_env \<Rightarrow> cocclBufferConfig option \<Rightarrow> ncclComm \<Rightarrow> (VmmPool \<times> 'w api_world_scheme, bool) comp" where
  "vmmInit env cfg ownerComm s =
     (case bindC (updateC (\<lambda>pool. pool\<lparr>vmmOwner := self ownerComm, vmmPoolDev := cudaDev ownerComm\<rparr>))
             (\<lambda>_. bindC (inWorld (vmmDriverReady env)) (\<lambda>_. vmmProbe env cfg)) s of
        (Inr _, s') \<Rightarrow> (Inr True, s')
      | (Inl _, s') \<Rightarrow> (Inr False, s'))"

section \<open>Pool operations\<close>

text \<open>The block to grow: the largest that is too small and has no slice in use.\<close>

definition chooseGrow :: "size_t \<Rightarrow> VmmBlock list \<Rightarrow> nat option" where
  "chooseGrow bytes blocks = fold (\<lambda>i grow.
     if vmmCapacity (blocks ! i) < bytes \<and> canGrow (blocks ! i) \<and>
        (case grow of None \<Rightarrow> True | Some g \<Rightarrow> vmmCapacity (blocks ! i) > vmmCapacity (blocks ! g))
     then Some i else grow) [0..<length blocks] None"

fun vmmTryBlocks ::
  "api_env \<Rightarrow> ptr \<Rightarrow> size_t \<Rightarrow> ptr \<Rightarrow> nat list \<Rightarrow> VmmPool \<times> 'w node_world_scheme \<Rightarrow>
   cocclBufferHandle result option \<times> VmmPool \<times> 'w node_world_scheme" where
  "vmmTryBlocks env registeredComm bytes strm [] s = (None, s)"
| "vmmTryBlocks env registeredComm bytes strm (i # is) s =
     (case vmmAcquireFromBlock env i bytes registeredComm strm s of
        (Some r, s') \<Rightarrow> (Some r, s')
      | (None, s') \<Rightarrow> vmmTryBlocks env registeredComm bytes strm is s')"

text \<open>The last attempt returns its result code as it is, also \<^verbatim>\<open>ncclInProgress\<close>.\<close>

definition vmmLastTry ::
  "api_env \<Rightarrow> ptr \<Rightarrow> size_t \<Rightarrow> ptr \<Rightarrow> nat \<Rightarrow> (VmmPool \<times> 'w node_world_scheme, cocclBufferHandle) comp" where
  "vmmLastTry env registeredComm bytes strm i s =
     (case vmmAcquireFromBlock env i bytes registeredComm strm s of
        (Some r, s') \<Rightarrow> (r, s')
      | (None, s') \<Rightarrow> (Inl ncclInProgress, s'))"

definition vmmAcquire ::
  "api_env \<Rightarrow> unit \<Rightarrow> ptr \<Rightarrow> size_t \<Rightarrow> ptr \<Rightarrow> (VmmPool \<times> 'w node_world_scheme, cocclBufferHandle) comp" where
  "vmmAcquire env u registeredComm bytes strm s =
     (case vmmTryBlocks env registeredComm bytes strm [0..<length (vmmBlocks (fst s))] s of
        (Some r, s1) \<Rightarrow> (r, s1)
      | (None, s1) \<Rightarrow>
          (case chooseGrow bytes (vmmBlocks (fst s1)) of
             Some g \<Rightarrow> bindC (growBlock env g bytes) (\<lambda>_. vmmLastTry env registeredComm bytes strm g) s1
           | None \<Rightarrow> bindC (vmmCreateBlock env bytes)
               (\<lambda>_ s2. vmmLastTry env registeredComm bytes strm (length (vmmBlocks (fst s2)) - 1) s2) s1))"

text \<open>The position of a handle's block.\<close>

definition vmmFind :: "nat option \<Rightarrow> VmmPool \<Rightarrow> nat option" where
  "vmmFind nod pool = find (\<lambda>i. nod = Some (vmmNode (vmmBlocks pool ! i))) [0..<length (vmmBlocks pool)]"

definition vmmRegister ::
  "api_env \<Rightarrow> cocclBufferHandle \<Rightarrow> ptr \<Rightarrow> (VmmPool \<times> 'w api_world_scheme, unit) comp" where
  "vmmRegister env buffer registeredComm =
     bindC (getX (vmmFind (handleBlock buffer))) (\<lambda>found.
       case found of None \<Rightarrow> failC ncclInternalError
       | Some i \<Rightarrow> vmmEnsureRegistration env registeredComm i)"

definition vmmReleaseAt :: "api_env \<Rightarrow> nat \<Rightarrow> ptr \<Rightarrow> nat \<Rightarrow> (VmmPool \<times> 'w api_world_scheme, unit) comp" where
  "vmmReleaseAt env nod strm i =
     bindC (getX (\<lambda>pool. vmmBlocks pool ! i)) (\<lambda>block.
     bindC (inWorld (CUDACHECK env (Cuda (cudaSetDevice (vmmDev block))))) (\<lambda>_.
     bindC (case findSlice nod (vmmSlices block) of
              None \<Rightarrow> failC ncclInternalError
            | Some s \<Rightarrow>
                if doneEvent s = nullptr
                then bindC (inWorld (CUDACHECK env (Cuda cudaEventCreateWithFlags)))
                  (\<lambda>ev. thenC (updateC (updateVmmBlock i (\<lambda>b. b\<lparr>vmmSlices := setEvent nod ev (vmmSlices b)\<rparr>)))
                          (returnC ev))
                else returnC (doneEvent s))
       (\<lambda>ev. bindC (inWorld (CUDACHECK env (Cuda (cudaEventRecord ev strm)))) (\<lambda>_.
         updateC (updateVmmBlock i (\<lambda>b. b\<lparr>vmmSlices := setPending nod strm (vmmSlices b)\<rparr>))))))"

definition vmmRelease ::
  "api_env \<Rightarrow> cocclBufferHandle \<Rightarrow> ptr \<Rightarrow> (VmmPool \<times> 'w api_world_scheme, unit) comp" where
  "vmmRelease env buffer strm =
     bindC (getX (vmmFind (handleBlock buffer))) (\<lambda>found.
       case found of None \<Rightarrow> failC ncclInternalError
       | Some i \<Rightarrow> vmmReleaseAt env (the (handleSlice buffer)) strm i)"

text \<open>The registrations of one block, in order; the entries of \<open>comm\<close> are erased as they go.\<close>

definition vmmDeregisterBlock ::
  "api_env \<Rightarrow> ptr \<Rightarrow> nat \<Rightarrow> (VmmPool \<times> 'w api_world_scheme, unit) comp" where
  "vmmDeregisterBlock env comm i =
     bindC (getX (\<lambda>pool. vmmRegistrations (vmmBlocks pool ! i))) (\<lambda>regs.
       forC (filter (\<lambda>reg. regComm reg = comm) regs) (\<lambda>reg.
         bindC (inWorld (NCCLCHECK env (Nccl (ncclCommDeregister comm (regHandle reg))))) (\<lambda>_.
           updateC (\<lambda>pool. (updateVmmBlock i (\<lambda>b. b\<lparr>vmmRegistrations := remove1 reg (vmmRegistrations b)\<rparr>) pool)
             \<lparr>vmmRegisteredBytes := vmmRegisteredBytes pool - regBytes reg\<rparr>))))"

definition vmmDeregisterComm :: "api_env \<Rightarrow> ptr \<Rightarrow> (VmmPool \<times> 'w api_world_scheme, unit) comp" where
  "vmmDeregisterComm env comm =
     bindC (getX (\<lambda>pool. length (vmmBlocks pool))) (\<lambda>n. forC [0..<n] (vmmDeregisterBlock env comm))"

definition vmmDestroy :: "api_env \<Rightarrow> (VmmPool \<times> 'w api_world_scheme, unit) comp" where
  "vmmDestroy env =
     bindC (getX (\<lambda>pool. pool)) (\<lambda>pool.
     bindC (inWorld (CUDACHECK env (Cuda (cudaSetDevice (vmmPoolDev pool))))) (\<lambda>_.
     bindC (inWorld (CUDACHECK env (Cuda cudaDeviceSynchronize))) (\<lambda>_.
     bindC (forC [0..<length (vmmBlocks pool)] (vmmReleaseBlock env)) (\<lambda>_.
     updateC (\<lambda>pool. pool\<lparr>vmmBlocks := []\<rparr>)))))"

section \<open>The block view\<close>

definition vmmView :: "VmmBlock \<Rightarrow> block_view" where
  "vmmView b = \<lparr>viewNode = vmmNode b, viewBase = vmmPtr b, viewCapacity = vmmCapacity b,
     viewSlices = vmmSlices b\<rparr>"

definition vmmViews :: "VmmPool \<Rightarrow> block_view list" where
  "vmmViews pool = map vmmView (vmmBlocks pool)"

lemma vmmView_simps [simp]:
  "viewNode (vmmView b) = vmmNode b" "viewBase (vmmView b) = vmmPtr b"
  "viewCapacity (vmmView b) = vmmCapacity b" "viewSlices (vmmView b) = vmmSlices b"
  by (simp_all add: vmmView_def)

lemma vmmViews_update:
  "vmmViews (updateVmmBlock i f pool) = (vmmViews pool)[i := vmmView (f (vmmBlocks pool ! i))]"
  by (simp add: vmmViews_def updateVmmBlock_def map_update)

lemma length_vmmViews [simp]: "length (vmmViews pool) = length (vmmBlocks pool)"
  by (simp add: vmmViews_def)

lemma vmmViews_nth: "i < length (vmmBlocks pool) \<Longrightarrow> vmmViews pool ! i = vmmView (vmmBlocks pool ! i)"
  by (simp add: vmmViews_def)

text \<open>A pool whose blocks are where they were, with the same slices in use.\<close>

definition frame :: "block_view \<Rightarrow> nat \<times> ptr \<times> size_t \<times> BufferSlice list" where
  "frame v = (viewNode v, viewBase v, viewCapacity v, filter inUse (viewSlices v))"

lemma frame_leases:
  assumes "map frame vs = map frame us"
  shows "leases vs = leases us"
  using assms
proof (induction vs arbitrary: us)
  case (Cons v vs)
  then obtain u us' where us: "us = u # us'" "frame v = frame u" "map frame vs = map frame us'"
    by (cases us) auto
  have "leases [v] = leases [u]"
    using us(2) by (intro leases_same_place) (auto simp: frame_def same_place_def)
  with Cons.IH [OF us(3)] leases_append [of "[v]" vs] leases_append [of "[u]" us'] us(1)
  show ?case by simp
qed simp

definition calm :: "block_view list \<Rightarrow> nat \<Rightarrow> size_t \<Rightarrow> VmmPool \<times> 'w node_world_scheme \<Rightarrow> bool" where
  "calm V n c = (\<lambda>(pool, w). blocks_wf n (vmmViews pool) \<and> map frame (vmmViews pool) = map frame V \<and>
     nextNode w = n \<and> chunkBytes pool = c)"

lemma keeps_inWorld [keeps_intros]: "(\<And>x. keeps (\<lambda>w. P (x, w)) m) \<Longrightarrow> keeps P (inWorld m)"
  unfolding keeps_def inWorld_def by (auto simp: split_beta)

lemma keeps_updateC: "(\<And>x w. P (x, w) \<Longrightarrow> P (f x, w)) \<Longrightarrow> keeps P (updateC f)"
  by (auto simp: keeps_def updateC_def)

lemma keeps_getX [keeps_intros]: "keeps P (getX f)"
  by (simp add: getX_def keeps_get)

lemma calm_log_blind [simp]: "log_blind (\<lambda>w. calm V n c (x, w))"
  by (simp add: log_blind_def calm_def)

lemma keeps_calm_scalar:
  "(\<And>pool. vmmBlocks (f pool) = vmmBlocks pool) \<Longrightarrow> (\<And>pool. chunkBytes (f pool) = chunkBytes pool) \<Longrightarrow>
   keeps (calm V n c) (updateC f)"
  by (rule keeps_updateC) (simp add: calm_def vmmViews_def)

lemma keeps_calm_block:
  assumes "\<And>b. vmmView (f b) = vmmView b"
  shows "keeps (calm V n c) (updateC (updateVmmBlock i f))"
proof (rule keeps_updateC)
  fix p and w :: "'a node_world_scheme" assume calm: "calm V n c (p, w)"
  have "vmmViews (updateVmmBlock i f p) = vmmViews p"
    unfolding vmmViews_update assms
    by (cases "i < length (vmmBlocks p)") (simp_all add: vmmViews_nth [symmetric] list_update_beyond)
  with calm show "calm V n c (updateVmmBlock i f p, w)" by (simp add: calm_def updateVmmBlock_def)
qed

text \<open>In a block without slices in use the slices may settle.\<close>

lemma keeps_calm_markFree:
  assumes i: "i < length V" "filter inUse (viewSlices (V ! i)) = []"
  shows "keeps (calm V n c) (updateC (updateVmmBlock i (\<lambda>b. b\<lparr>vmmSlices := updateSlice k markFree (vmmSlices b)\<rparr>)))"
proof (rule keeps_updateC)
  fix p and w :: "'a node_world_scheme" assume calm: "calm V n c (p, w)"
  let ?v = "vmmViews p ! i" and ?b = "vmmBlocks p ! i"
  let ?u = "vmmView (?b\<lparr>vmmSlices := updateSlice k markFree (vmmSlices ?b)\<rparr>)"
  have eq: "map frame (vmmViews p) = map frame V" using calm by (simp add: calm_def)
  have len: "i < length (vmmBlocks p)" using arg_cong [OF eq, of length] i(1) by simp
  have fr: "frame ?v = frame (V ! i)" using arg_cong [OF eq, of "\<lambda>l. l ! i"] len i(1) by simp
  have v: "?v = vmmView ?b" using len by (simp add: vmmViews_nth)
  have wf: "block_wf n ?v" using calm len by (simp add: calm_def blocks_wf_def)
  have none: "filter inUse (vmmSlices ?b) = []" using fr i(2) v by (simp add: frame_def)
  have "\<not> inUse (markFree s)" for s by (simp add: markFree_def inUse_def)
  then have "filter inUse (updateSlice k markFree (vmmSlices ?b)) = []"
    by (simp add: updateSlice_not_inUse none)
  then have "frame ?u = frame ?v" using none v by (simp add: frame_def)
  then have "map frame ((vmmViews p)[i := ?u]) = map frame (vmmViews p)"
    by (metis length_vmmViews list_update_id map_update)
  moreover have "blocks_wf n ((vmmViews p)[i := ?u])"
    by (rule blocks_wf_update [of n]) (use calm len wf v in \<open>auto simp: calm_def same_place_def block_wf_def markFree_def\<close>)
  ultimately show "calm V n c (updateVmmBlock i (\<lambda>b. b\<lparr>vmmSlices := updateSlice k markFree (vmmSlices b)\<rparr>) p, w)"
    using calm by (simp add: calm_def vmmViews_update) (simp add: updateVmmBlock_def)
qed

section \<open>Helper routines keep the pool calm\<close>

lemma calm_createPhysicalHandle: "keeps (calm V n c) (createPhysicalHandle env)"
  unfolding createPhysicalHandle_def
  by (intro keeps_intros keeps_calm_scalar) simp_all

lemma calm_setPeerAccess: "keeps (\<lambda>w. calm V n c (x, w)) (setPeerAccess env dev p bytes)"
  unfolding setPeerAccess_def
  by (intro keeps_intros keeps_if) simp_all

lemma calm_destroyEvents: "keeps (\<lambda>w. calm V n c (x, w)) (destroyEvents env ss)"
  unfolding destroyEvents_def by (intro keeps_intros) simp_all

lemma calm_deregisterAll: "keeps (calm V n c) (deregisterAll env i)"
  unfolding deregisterAll_def
  by (intro keeps_intros keeps_calm_scalar keeps_calm_block) (simp_all add: vmmView_def)

lemma calm_waitForBlock:
  assumes "i < length V" "filter inUse (viewSlices (V ! i)) = []"
  shows "keeps (calm V n c) (waitForBlock env i)"
  unfolding waitForBlock_def
  by (intro keeps_intros keeps_calm_markFree [OF assms]) simp_all

lemma calm_ensureRegistration: "keeps (calm V n c) (vmmEnsureRegistration env comm i)"
  unfolding vmmEnsureRegistration_def
proof (intro keeps_intros keeps_updateC)
  fix x and w :: "'a node_world_scheme" and block handle assume "calm V n c (x, w)"
  moreover have "keeps (calm V n c) (updateC (updateVmmBlock i (\<lambda>b. b\<lparr>vmmRegistrations := vmmRegistrations b @
     [\<lparr>regComm = comm, regPtr = vmmPtr b, regBytes = vmmCapacity b, regHandle = handle\<rparr>]\<rparr>)) :: (VmmPool \<times> 'a node_world_scheme, unit) comp)"
    by (rule keeps_calm_block) (simp add: vmmView_def)
  ultimately show "calm V n c ((updateVmmBlock i (\<lambda>b. b\<lparr>vmmRegistrations := vmmRegistrations b @
     [\<lparr>regComm = comm, regPtr = vmmPtr b, regBytes = vmmCapacity b, regHandle = handle\<rparr>]\<rparr>) x)
            \<lparr>vmmRegisteredBytes := vmmRegisteredBytes x + vmmCapacity block\<rparr>, w)"
    by (auto simp: keeps_def updateC_def calm_def vmmViews_def dest: spec [of _ "(x, w)"])
qed simp_all

lemma calm_addHandles: "keeps (calm V n c) (addHandles env i res cap missing)"
  unfolding addHandles_def
proof (intro keeps_intros keepsI)
  fix s :: "VmmPool \<times> 'a node_world_scheme" assume calm: "calm V n c s"
  note k = keepsD [OF calm_createPhysicalHandle calm, of env]
  have ign: "keeps (calm V n c) (inWorld (ignoreC env d) :: (VmmPool \<times> 'a node_world_scheme, unit) comp)" for d
    by (intro keeps_intros) simp_all
  have upd: "keeps (calm V n c) (updateC (updateVmmBlock i (\<lambda>b. b\<lparr>vmmHandles := vmmHandles b @ [h]\<rparr>)) :: (VmmPool \<times> 'a node_world_scheme, unit) comp)" for h
    by (rule keeps_calm_block) (simp add: vmmView_def)
  show "calm V n c (snd (case createPhysicalHandle env s of
         (Inl e, s1) \<Rightarrow> (case inWorld (ignoreC env (Driver (cuMemAddressFree res cap))) s1 of (_, s2) \<Rightarrow> (Inl e, s2))
       | (Inr handle, s1) \<Rightarrow> updateC (updateVmmBlock i (\<lambda>b. b\<lparr>vmmHandles := vmmHandles b @ [handle]\<rparr>)) s1))"
    using k keepsD [OF ign] keepsD [OF upd] by (auto split: prod.splits sum.splits) (metis snd_conv)+
qed

section \<open>Acquiring from a block\<close>

lemma vmmEnsureRegistration_views:
  assumes "vmmEnsureRegistration env comm i (p, w) = (r, (p', w'))"
  shows "vmmViews p' = vmmViews p \<and> chunkBytes p' = chunkBytes p \<and> nextNode w' = nextNode w"
proof -
  have "vmmView ((vmmBlocks p ! i)\<lparr>vmmRegistrations := R\<rparr>) = vmmView (vmmBlocks p ! i)" for R
    by (simp add: vmmView_def)
  then have same: "(vmmBlocks p)[i := (vmmBlocks p ! i)\<lparr>vmmRegistrations := R\<rparr>] = bs \<Longrightarrow> map vmmView bs = map vmmView (vmmBlocks p)" for R bs
    by (metis list_update_id map_update)
  show ?thesis
    using assms
    by (auto simp: vmmEnsureRegistration_def bindC_def getX_def inWorld_def updateC_def NCCLCHECK_def
        callApi_def vmmViews_def updateVmmBlock_def same split: if_splits sum.splits prod.splits)
qed

lemma vmmAcquireFromBlock_views:
  assumes run: "vmmAcquireFromBlock env i bytes comm strm (p, w) = (found, p', w')"
    and wf: "block_wf (nextNode w) (vmmViews p ! i)" and i: "i < length (vmmBlocks p)" and pos: "0 < bytes"
  shows "\<exists>u. vmmViews p' = (vmmViews p)[i := u] \<and> chunkBytes p' = chunkBytes p \<and>
    same_place (vmmViews p ! i) u \<and> nextNode w \<le> nextNode w' \<and> block_wf (nextNode w') u \<and>
    (case found of
       Some (Inr h) \<Rightarrow> leases [u] = insert (handle_lease h) (leases [vmmViews p ! i]) \<and>
         handle_lease h \<notin> leases [vmmViews p ! i] \<and> bytes \<le> handleBytes h
     | _ \<Rightarrow> leases [u] = leases [vmmViews p ! i])"
proof -
  let ?b = "vmmBlocks p ! i" and ?free = "\<lambda>s. s\<lparr>sliceState := SliceFree\<rparr>"
  have v: "vmmViews p ! i = vmmView ?b" using i by (simp add: vmmViews_nth)
  let ?reg = "comm = nullptr \<or> vmmRegistered ?b comm"
  obtain fnd ss w1 where a: "acquireSlice env strm ?reg bytes (nextNode w) (vmmSlices ?b) w = (fnd, ss, w1)"
    by (metis prod_cases3)
  let ?p1 = "updateVmmBlock i (\<lambda>b. b\<lparr>vmmSlices := ss\<rparr>) p" and ?u = "(vmmView ?b)\<lparr>viewSlices := ss\<rparr>"
  have p1: "vmmViews ?p1 = (vmmViews p)[i := ?u]" "chunkBytes ?p1 = chunkBytes p"
    by (simp_all add: vmmViews_update vmmView_def) (simp add: updateVmmBlock_def)
  have sp: "same_place (vmmView ?b) ?u" by (simp add: same_place_def)
  have n1: "nextNode w1 = nextNode w" using acquireSlice_log [OF a] more_nextNode by metis
  have wf': "slices_wf (nextNode w) (unat (vmmCapacity ?b)) (vmmSlices ?b)"
    using wf v by (simp add: block_wf_def)
  show ?thesis
  proof (cases fnd)
    case None
    then have r: "found = None" "p' = ?p1" "w' = w1"
      using run a by (auto simp: vmmAcquireFromBlock_def Let_def)
    have "leases [?u] = leases [vmmView ?b]"
      by (rule leases_same_place [OF sp]) (use acquireSlice_None [OF a [unfolded None] wf'] in simp)
    then show ?thesis
      using r p1 sp n1 v wf acquireSlice_None [OF a [unfolded None] wf']
      by (intro exI [of _ ?u]) (simp add: block_wf_def)
  next
    case (Some c)
    note ac = acquireSlice_Some [OF a [unfolded Some] wf']
    have wfu: "block_wf (Suc (nextNode w)) ?u" using wf v ac(1) by (simp add: block_wf_def)
    have ho: "slice_handed_out (seenDone env (logLen w) (logLen w1)) strm ?reg bytes
        (viewSlices (vmmView ?b)) (viewSlices ?u) c" "c \<in> set (viewSlices ?u)" using ac by simp_all
    note hl = handed_out_lease [OF sp wfu ho pos]
    obtain r p2 w2 where e: "vmmEnsureRegistration env comm i (?p1, w1\<lparr>nextNode := Suc (nextNode w1)\<rparr>) = (r, (p2, w2))"
      by (metis prod_cases3)
    note es = vmmEnsureRegistration_views [OF e]
    show ?thesis
    proof (cases r)
      case (Inr x)
      have r: "p' = p2" "w' = w2" and f: "found = Some (Inr \<lparr>handlePtr = vmmPtr ?b + sliceOffset c,
           handleBytes = sliceSize c, handleOwner = vmmOwner p, handleBlock = Some (vmmNode ?b),
           handleSlice = Some (sliceNode c)\<rparr>)" (is "_ = Some (Inr ?h)")
        using run a Some e Inr by (auto simp: vmmAcquireFromBlock_def Let_def)
      have "handle_lease ?h = slice_lease ?u c"
        using hl(3) by (simp add: handle_lease_def slice_lease_def)
      with hl(1,2,4) es p1 r f sp wfu n1 v show ?thesis by (intro exI [of _ ?u]) simp
    next
      case (Inl er)
      have r: "found = Some (Inl er)" "w' = w2" "p' = updateVmmBlock i (\<lambda>b. b\<lparr>vmmSlices :=
          updateSlice (sliceNode c) ?free (vmmSlices b)\<rparr>) p2"
        using run a Some e Inl by (auto simp: vmmAcquireFromBlock_def Let_def)
      let ?z = "?u\<lparr>viewSlices := updateSlice (sliceNode c) ?free ss\<rparr>"
      have "vmmView (vmmBlocks p2 ! i) = ?u"
        using es p1 i by (metis length_list_update length_vmmViews nth_list_update_eq vmmViews_nth)
      then have z: "vmmView ((vmmBlocks p2 ! i)\<lparr>vmmSlices := updateSlice (sliceNode c) ?free (vmmSlices (vmmBlocks p2 ! i))\<rparr>) = ?z"
        by (auto simp: vmmView_def)
      then have vz: "vmmViews p' = (vmmViews p)[i := ?z]"
        using es p1 by (simp add: r(3) vmmViews_update)
      have spz: "same_place (vmmView ?b) ?z" by (simp add: same_place_def)
      have "leases [?z] = leases [vmmView ?b]"
        by (rule leases_same_place [OF spz]) (use hl(5) [of ?free] in \<open>simp add: inUse_def\<close>)
      moreover have "chunkBytes p' = chunkBytes p" using r(3) es p1 by (simp add: updateVmmBlock_def)
      moreover have "block_wf (Suc (nextNode w)) ?z" using wfu by (simp add: block_wf_def)
      ultimately show ?thesis using vz spz v r es n1 by (intro exI [of _ ?z]) simp
    qed
  qed
qed

section \<open>Growing and creating blocks\<close>

text \<open>
  A routine that starts in \<open>P\<close>, is still in \<open>P\<close> when it leaves early, and ends in \<open>Q\<close>.
\<close>

definition upto :: "('s \<Rightarrow> bool) \<Rightarrow> ('s \<Rightarrow> bool) \<Rightarrow> ('s, 'a) comp \<Rightarrow> bool" where
  "upto P Q m \<longleftrightarrow> (\<forall>s. P s \<longrightarrow> (case m s of (Inl e, s') \<Rightarrow> P s' | (Inr x, s') \<Rightarrow> Q s'))"

lemma upto_bind:
  assumes "keeps P m" and "\<And>s x s'. m s = (Inr x, s') \<Longrightarrow> R x" and "\<And>x. R x \<Longrightarrow> upto P Q (f x)"
  shows "upto P Q (bindC m f)"
  unfolding upto_def
proof (intro allI impI)
  fix s assume P: "P s"
  obtain r s1 where m: "m s = (r, s1)" by (cases "m s")
  have P1: "P s1" using keepsD [OF assms(1) P] m by simp
  show "case bindC m f s of (Inl e, s') \<Rightarrow> P s' | (Inr x, s') \<Rightarrow> Q s'"
  proof (cases r)
    case (Inl e)
    with m P1 show ?thesis by (simp add: bindC_def)
  next
    case (Inr x)
    with assms(3) [OF assms(2)] m P1 show ?thesis by (auto simp: bindC_def upto_def)
  qed
qed

lemmas upto_seq = upto_bind [where R = "\<lambda>_. True", OF _ TrueI, simplified]

lemma upto_then_keeps:
  assumes "upto P Q m" and "\<And>x. keeps Q (f x)" and "\<And>s. Q s \<Longrightarrow> P s"
  shows "upto P Q (bindC m f)"
  unfolding upto_def
proof (intro allI impI)
  fix s assume P: "P s"
  obtain r s1 where m: "m s = (r, s1)" by (cases "m s")
  show "case bindC m f s of (Inl e, s') \<Rightarrow> P s' | (Inr x, s') \<Rightarrow> Q s'"
  proof (cases r)
    case (Inl e)
    with m P assms(1) show ?thesis by (auto simp: bindC_def upto_def)
  next
    case (Inr x)
    then have "Q (snd (f x s1))" using m P assms(1) keepsD [OF assms(2)] by (auto simp: upto_def)
    with m Inr assms(3) show ?thesis by (auto simp: bindC_def split: prod.splits sum.splits)
  qed
qed

lemma upto_modify: "(\<And>s. P s \<Longrightarrow> Q (f s)) \<Longrightarrow> upto P Q (modifyC f)"
  by (simp add: upto_def)

text \<open>The addresses a reservation made during the call may return.\<close>

definition vmmFresh :: "api_env \<Rightarrow> unit \<Rightarrow> size_t \<Rightarrow> VmmPool \<Rightarrow> bool" where
  "vmmFresh env u bytes pool \<longleftrightarrow>
     chunkBytes pool \<noteq> 0 \<and> unat bytes + unat (chunkBytes pool) \<le> 2 ^ 64 \<and>
     (\<forall>i g. let n = alignUpTo bytes (chunkBytes pool);
              p = outValue (env i (Driver (cuMemAddressReserve n g))) in
        unat p + unat n \<le> 2 ^ 64 \<and>
        (\<forall>q \<in> set (map block_range (vmmViews pool)). ranges_disjoint q (unat p, unat n)))"

lemma alignUpTo_ge:
  assumes "a \<noteq> 0" and "unat b + unat a \<le> 2 ^ 64"
  shows "b \<le> alignUpTo b a"
proof -
  have a: "0 < unat a" using assms(1) by (simp add: unat_gt_0)
  have e: "b + a - 1 = b + (a - 1)" by simp
  have m: "unat (a - 1) = unat a - 1" using a by (simp add: unat_minus_one assms(1))
  have s: "unat (b + a - 1) = unat b + (unat a - 1)"
    unfolding e by (subst unat_add_exact) (use assms(2) a m in auto)
  have lt: "unat ((b + a - 1) div a) * unat a < 2 ^ 64"
    unfolding unat_div by (rule le_less_trans [OF div_times_less_eq_dividend unat_lt_2p64])
  have "unat b \<le> (unat b + (unat a - 1)) div unat a * unat a"
    using a dividend_less_div_times [of "unat a" "unat b + (unat a - 1)"] by linarith
  then show ?thesis
    unfolding alignUpTo_def word_le_nat_alt by (simp add: unat_mult_exact [OF lt] unat_div s)
qed

text \<open>The block after growth: moved to the new reservation, one free slice.\<close>

definition grown :: "block_view list \<Rightarrow> nat \<Rightarrow> nat \<Rightarrow> size_t \<Rightarrow> size_t \<Rightarrow> VmmPool \<times> 'w node_world_scheme \<Rightarrow> bool" where
  "grown V n i cap c = (\<lambda>(pool, w). blocks_wf (nextNode w) (vmmViews pool) \<and> i < length (vmmBlocks pool) \<and>
     leases (vmmViews pool) = leases V \<and> chunkBytes pool = c \<and> n \<le> nextNode w \<and>
     (\<exists>k. vmmSlices (vmmBlocks pool ! i) = [newSlice k 0 cap]))"

lemma grown_final:
  assumes calm: "calm V n c (p, w)" and i: "i < length V" "filter inUse (viewSlices (V ! i)) = []"
    and fit: "unat r + unat cap \<le> 2 ^ 64"
    and dis: "\<forall>v \<in> set V. ranges_disjoint (block_range v) (unat r, unat cap)"
  shows "grown V n i cap c
     ((updateVmmBlock i (\<lambda>b. b\<lparr>vmmPtr := r, vmmCapacity := cap, vmmSlices := [newSlice (nextNode w) 0 cap]\<rparr>) p)
        \<lparr>virtualBytes := vb\<rparr>, w\<lparr>nextNode := Suc (nextNode w)\<rparr>)"
proof -
  have eq: "map frame (vmmViews p) = map frame V" and wf: "blocks_wf n (vmmViews p)" and n: "nextNode w = n"
    and c: "chunkBytes p = c" using calm by (auto simp: calm_def)
  have len: "i < length (vmmBlocks p)" using arg_cong [OF eq, of length] i(1) by simp
  have "map block_range (vmmViews p) = map block_range V"
    using arg_cong [OF eq, of "map (\<lambda>(k, b, l, x). (unat b, unat l))"] by (simp add: frame_def block_range_def [abs_def] o_def)
  then have br: "block_range ` set (vmmViews p) = block_range ` set V" by (metis list.set_map)
  have "frame (vmmViews p ! i) = frame (V ! i)" using arg_cong [OF eq, of "\<lambda>l. l ! i"] len i(1) by simp
  then have none: "leases [vmmViews p ! i] = {}" using i(2) by (simp add: leases_filter frame_def)
  let ?u = "\<lparr>viewNode = vmmNode (vmmBlocks p ! i), viewBase = r, viewCapacity = cap, viewSlices = [newSlice n 0 cap]\<rparr>"
  have node: "vmmNode (vmmBlocks p ! i) < n"
    using wf len nth_mem [of i "vmmViews p"] by (auto simp: blocks_wf_def block_wf_def vmmViews_nth)
  have "block_wf (Suc n) ?u"
    using fit node unat_lt_2p64 [of cap] by (simp add: block_wf_def slices_wf_def newSlice_def)
  moreover have "\<forall>q \<in> block_range ` set (vmmViews p). ranges_disjoint q (block_range ?u)"
    using dis unfolding br by (simp add: block_range_def)
  ultimately have "blocks_wf (Suc n) ((vmmViews p)[i := ?u])"
    by (intro blocks_wf_move [OF wf]) (use len in \<open>simp_all add: vmmViews_nth\<close>)
  moreover have "leases ((vmmViews p)[i := ?u]) = leases (vmmViews p)"
    by (rule leases_same_at) (use len none in simp_all)
  moreover have "vmmViews ((updateVmmBlock i (\<lambda>b. b\<lparr>vmmPtr := r, vmmCapacity := cap,
        vmmSlices := [newSlice (nextNode w) 0 cap]\<rparr>) p)\<lparr>virtualBytes := vb\<rparr>) = (vmmViews p)[i := ?u]"
    by (simp add: vmmViews_def updateVmmBlock_def map_update vmmView_def n)
  ultimately show ?thesis
    using n c len frame_leases [OF eq] by (auto simp: grown_def updateVmmBlock_def)
qed

lemma calm_mapChunks: "keeps (calm V n c) (forC ks (\<lambda>k. bindC (inWorld (CUDACHECK env (g k))) (\<lambda>_. returnC ())))"
  by (intro keeps_intros) simp_all

lemma growBlock_spec:
  assumes i: "i < length V" "filter inUse (viewSlices (V ! i)) = []"
    and fresh: "\<And>k g. unat (outValue (env k (Driver (cuMemAddressReserve (alignUpTo req c) g)))) +
          unat (alignUpTo req c) \<le> 2 ^ 64 \<and>
        (\<forall>v \<in> set V. ranges_disjoint (block_range v)
          (unat (outValue (env k (Driver (cuMemAddressReserve (alignUpTo req c) g)))), unat (alignUpTo req c)))"
  shows "upto (calm V n c) (grown V n i (alignUpTo req c) c) (growBlock env i req)"
proof -
  let ?cap = "alignUpTo req c"
  let ?R = "\<lambda>r. \<exists>k g. r = outValue (env k (Driver (cuMemAddressReserve ?cap g)))"
  have start: "upto (calm V n c) (grown V n i ?cap c) (bindC (getX (\<lambda>pool. pool)) f)"
    if "\<And>pool. chunkBytes pool = c \<Longrightarrow> upto (calm V n c) (grown V n i ?cap c) (f pool)"
    for f :: "VmmPool \<Rightarrow> (VmmPool \<times> 'b node_world_scheme, unit) comp"
    using that unfolding upto_def by (auto simp: bindC_def getX_def calm_def)
  have res: "?R r" if "inWorld (CUDACHECK env (Driver (cuMemAddressReserve ?cap g))) s = (Inr r, s')" for g r and s s' :: "VmmPool \<times> 'b node_world_scheme"
    using that by (auto simp: inWorld_def CUDACHECK_def callApi_def split: if_splits)
  have last: "upto (calm V n c) (grown V n i ?cap c) (modifyC (\<lambda>(pool, w).
       ((updateVmmBlock i (\<lambda>b. b\<lparr>vmmPtr := r, vmmCapacity := ?cap, vmmSlices := [newSlice (nextNode w) 0 ?cap]\<rparr>) pool)
          \<lparr>virtualBytes := virtualBytes pool + d\<rparr>, w\<lparr>nextNode := Suc (nextNode w)\<rparr>)) :: (VmmPool \<times> 'b node_world_scheme, unit) comp)"
    if "?R r" for r d
    by (rule upto_modify) (use that fresh in \<open>auto intro!: grown_final [OF _ i]\<close>)
  show ?thesis
    unfolding growBlock_def
    apply (rule start, simp only: growFrom_def Let_def)
    apply (rule upto_seq, intro keeps_inWorld keeps_CUDACHECK calm_log_blind)
    apply (rule upto_seq, rule calm_waitForBlock [OF i])
    apply (rule upto_bind [where R = ?R], intro keeps_inWorld keeps_CUDACHECK calm_log_blind)
     apply (rule res, simp)
    apply (intro upto_seq last calm_addHandles calm_deregisterAll calm_mapChunks keeps_inWorld keeps_getX
        keeps_CUDACHECK calm_setPeerAccess calm_destroyEvents calm_log_blind)
    apply simp
    done
qed

text \<open>The construction of a block leaves the blocks of the pool alone.\<close>

abbreviation calmBuild :: "block_view list \<Rightarrow> nat \<Rightarrow> size_t \<Rightarrow> (VmmPool \<times> vmm_build) \<times> 'w node_world_scheme \<Rightarrow> bool" where
  "calmBuild V n c \<equiv> \<lambda>((pool, loc), w). calm V n c (pool, w)"

definition reserved :: "api_env \<Rightarrow> size_t \<Rightarrow> (VmmPool \<times> vmm_build) \<times> 'w \<Rightarrow> bool" where
  "reserved env cap = (\<lambda>((pool, loc), w).
     \<exists>k g. buildReservation loc = outValue (env k (Driver (cuMemAddressReserve cap g))))"

lemma buildBlock_spec:
  "upto (calmBuild V n c) (\<lambda>s. calmBuild V n c s \<and> reserved env cap s)
     (buildBlock env cap :: ((VmmPool \<times> vmm_build) \<times> 'w node_world_scheme, unit) comp)"
proof -
  let ?P = "calmBuild V n c :: _ \<times> 'w node_world_scheme \<Rightarrow> bool"
  let ?Q = "\<lambda>s. calmBuild V n c s \<and> reserved env cap (s :: _ \<times> 'w node_world_scheme)"
  let ?R = "\<lambda>r. \<exists>k g. r = outValue (env k (Driver (cuMemAddressReserve cap g)))"
  have blind: "log_blind (\<lambda>w. ?P (x, w))" "log_blind (\<lambda>w. ?Q (x, w))" for x
    by (auto simp: log_blind_def calm_def reserved_def split_beta)
  have create: "keeps ?Q (\<lambda>((pool, loc), w). case createPhysicalHandle env (pool, w) of (r, (pool', w')) \<Rightarrow> (r, ((pool', loc), w')))"
  proof (rule keepsI, clarify)
    fix pool loc and w :: "'w node_world_scheme"
    assume calm: "calm V n c (pool, w)" and res: "reserved env cap ((pool, loc), w)"
    obtain r q w' where c: "createPhysicalHandle env (pool, w) = (r, q, w')" by (metis prod_cases3)
    show "?Q (snd (case createPhysicalHandle env (pool, w) of (r, (pool', w')) \<Rightarrow> (r, ((pool', loc), w'))))"
      using keepsD [OF calm_createPhysicalHandle calm, of env] res by (simp add: c reserved_def)
  qed
  have upd: "keeps ?Q (updateC (\<lambda>(pool, loc). (pool, f loc)))" if "\<And>loc. buildReservation (f loc) = buildReservation loc" for f
    by (rule keeps_updateC) (auto simp: reserved_def that, blast)
  have peer: "keeps (\<lambda>w. ?Q (x, w)) (setPeerAccess env d r cap)" for x d r
    unfolding setPeerAccess_def by (intro keeps_intros keeps_if blind)
  have set: "upto ?P ?Q (updateC (\<lambda>(pool, loc). (pool, loc\<lparr>buildReservation := r\<rparr>)))" if "?R r" for r
    using that by (auto simp: upto_def updateC_def reserved_def)
  show ?thesis
    unfolding buildBlock_def
    apply (rule upto_seq, rule keeps_getX)
    apply (rule upto_bind [where R = ?R], intro keeps_inWorld keeps_CUDACHECK blind)
     apply (auto simp: inWorld_def CUDACHECK_def callApi_def split: if_splits) [1]
    apply (rule upto_then_keeps, erule set)
     apply (intro keeps_bind keeps_for keeps_inWorld keeps_CUDACHECK create upd peer blind)
      apply simp_all
    done
qed

lemma calm_cleanUpBuild: "keeps (calm V n c) (cleanUpBuild env cap loc)"
  unfolding cleanUpBuild_def
  by (intro keeps_intros keeps_if keeps_calm_scalar) simp_all

text \<open>The state after \<^verbatim>\<open>createBlock\<close>: one more block, no lease in it.\<close>

definition created :: "block_view list \<Rightarrow> nat \<Rightarrow> size_t \<Rightarrow> size_t \<Rightarrow> VmmPool \<times> 'w node_world_scheme \<Rightarrow> bool" where
  "created V n cap c s \<longleftrightarrow> length (vmmBlocks (fst s)) = Suc (length V) \<and> grown V n (length V) cap c s"

lemma vmmCreateBlock_spec:
  assumes wf: "blocks_wf (nextNode w) (vmmViews p)" and fresh: "vmmFresh env u bytes p"
    and run: "vmmCreateBlock env bytes (p, w) = (r, s')"
  shows "case r of Inl e \<Rightarrow> calm (vmmViews p) (nextNode w) (chunkBytes p) s'
    | Inr _ \<Rightarrow> created (vmmViews p) (nextNode w) (alignUpTo bytes (chunkBytes p)) (chunkBytes p) s'"
proof -
  let ?V = "vmmViews p" and ?n = "nextNode w" and ?c = "chunkBytes p" and ?cap = "alignUpTo bytes (chunkBytes p)"
  obtain b q loc w1 where b: "buildBlock env ?cap ((p, \<lparr>buildReservation = 0, buildHandles = [], buildMapped = 0\<rparr>), w) = (b, ((q, loc), w1))"
    by (metis prod.exhaust)
  have "calmBuild ?V ?n ?c ((p, loc0), w)" for loc0 using wf by (simp add: calm_def)
  with buildBlock_spec [of ?V ?n ?c env ?cap] b
  have built: "case b of Inl e \<Rightarrow> calm ?V ?n ?c (q, w1) | Inr _ \<Rightarrow> calm ?V ?n ?c (q, w1) \<and> reserved env ?cap ((q, loc), w1)"
    unfolding upto_def by (fastforce split: prod.splits sum.splits)
  show ?thesis
  proof (cases b)
    case (Inl e)
    then have "r = Inl e" "s' = snd (cleanUpBuild env ?cap loc (q, w1))"
      using run b by (auto simp: vmmCreateBlock_def Let_def split: prod.splits)
    with built Inl keepsD [OF calm_cleanUpBuild] show ?thesis by fastforce
  next
    case (Inr x)
    let ?r = "buildReservation loc"
    let ?v = "\<lparr>viewNode = ?n, viewBase = ?r, viewCapacity = ?cap, viewSlices = [newSlice (Suc ?n) 0 ?cap]\<rparr>"
    have calm: "calm ?V ?n ?c (q, w1)" and res: "reserved env ?cap ((q, loc), w1)" using built Inr by auto
    have eq: "map frame (vmmViews q) = map frame ?V" and wfq: "blocks_wf ?n (vmmViews q)" and n: "nextNode w1 = ?n"
      and c: "chunkBytes q = ?c" using calm by (auto simp: calm_def)
    have len: "length (vmmBlocks q) = length ?V" using arg_cong [OF eq, of length] by simp
    have "map block_range (vmmViews q) = map block_range ?V"
      using arg_cong [OF eq, of "map (\<lambda>(k, b, l, x). (unat b, unat l))"] by (simp add: frame_def block_range_def [abs_def] o_def)
    then have br: "block_range ` set (vmmViews q) = block_range ` set ?V" by (metis list.set_map)
    have fit: "unat ?r + unat ?cap \<le> 2 ^ 64" and dis: "\<forall>q \<in> block_range ` set ?V. ranges_disjoint q (unat ?r, unat ?cap)"
      using res fresh by (auto simp: reserved_def vmmFresh_def Let_def)
    have "blocks_wf (?n + 2) (vmmViews q @ [?v])"
      by (rule blocks_wf_add [OF wfq fresh_block_wf [OF fit]])
        (use dis in \<open>simp_all add: br [symmetric], simp add: block_range_def\<close>)
    moreover have "r = Inr ()" and "s' = (q\<lparr>virtualBytes := virtualBytes q + ?cap, vmmBlocks := vmmBlocks q @
               [\<lparr>vmmNode = ?n, vmmDev = vmmPoolDev q, vmmPtr = ?r, vmmCapacity = ?cap, vmmHandles = buildHandles loc,
                 vmmSlices = [newSlice (Suc ?n) 0 ?cap], vmmRegistrations = []\<rparr>]\<rparr>, w1\<lparr>nextNode := ?n + 2\<rparr>)"
      using run b Inr n by (auto simp: vmmCreateBlock_def Let_def)
    ultimately show ?thesis
      using frame_leases [OF eq] len c
      by (simp add: created_def grown_def vmmViews_def vmmView_def nth_append leases_append) blast
  qed
qed

section \<open>The contract\<close>

text \<open>What an acquisition from a pool with views \<open>V\<close> promises.\<close>

definition acquired :: "block_view list \<Rightarrow> nat \<Rightarrow> size_t \<Rightarrow> cocclBufferHandle result \<Rightarrow> VmmPool \<times> 'w node_world_scheme \<Rightarrow> bool" where
  "acquired V n bytes r = (\<lambda>(p, w). blocks_wf (nextNode w) (vmmViews p) \<and> n \<le> nextNode w \<and>
     (case r of Inl e \<Rightarrow> leases (vmmViews p) = leases V
      | Inr h \<Rightarrow> leases (vmmViews p) = insert (handle_lease h) (leases V) \<and> handle_lease h \<notin> leases V \<and>
          bytes \<le> handleBytes h))"

lemma acquired_leases: "acquired V n bytes r s \<Longrightarrow> leases V = leases V' \<Longrightarrow> m \<le> n \<Longrightarrow> acquired V' m bytes r s"
  by (cases s; cases r) (simp_all add: acquired_def)

lemma calm_acquired:
  assumes "calm V n c s"
  shows "acquired V n bytes (Inl e) s"
proof -
  obtain p w where "s = (p, w)" by (cases s)
  with assms frame_leases [of "vmmViews p" V] show ?thesis by (simp add: acquired_def calm_def)
qed

lemma vmmAcquireFromBlock_pool:
  assumes run: "vmmAcquireFromBlock env i bytes comm strm (p, w) = (found, p', w')"
    and wf: "blocks_wf (nextNode w) (vmmViews p)" and i: "i < length (vmmBlocks p)" and pos: "0 < bytes"
  shows "acquired (vmmViews p) (nextNode w) bytes (case found of None \<Rightarrow> Inl ncclInProgress | Some r \<Rightarrow> r) (p', w') \<and>
    map block_range (vmmViews p') = map block_range (vmmViews p) \<and> chunkBytes p' = chunkBytes p"
proof -
  have "block_wf (nextNode w) (vmmViews p ! i)" using wf i by (simp add: blocks_wf_def)
  from vmmAcquireFromBlock_views [OF run this i pos]
  obtain u where u: "vmmViews p' = (vmmViews p)[i := u]" "chunkBytes p' = chunkBytes p"
    "same_place (vmmViews p ! i) u" "nextNode w \<le> nextNode w'" "block_wf (nextNode w') u"
    "case found of
       Some (Inr h) \<Rightarrow> leases [u] = insert (handle_lease h) (leases [vmmViews p ! i]) \<and>
         handle_lease h \<notin> leases [vmmViews p ! i] \<and> bytes \<le> handleBytes h
     | _ \<Rightarrow> leases [u] = leases [vmmViews p ! i]" by blast
  have i': "i < length (vmmViews p)" using i by simp
  have wf': "blocks_wf (nextNode w') (vmmViews p')" using blocks_wf_update [OF wf i' u(3,5,4)] u(1) by simp
  have "block_range u = block_range (vmmViews p ! i)" using u(3) by (simp add: same_place_def block_range_def)
  then have br: "map block_range (vmmViews p') = map block_range (vmmViews p)"
    unfolding u(1) by (metis list_update_id map_update)
  show ?thesis
    using u(6) wf' br u(2,4) lease_added_at [OF wf i' u(3)] leases_same_at [OF i', of u]
    by (auto simp: acquired_def u(1) split: option.splits sum.splits)
qed

text \<open>A block of one free slice that is large enough serves the request.\<close>

lemma vmmAcquireFromBlock_fresh:
  assumes "vmmSlices (vmmBlocks p ! i) = [newSlice k 0 cap]" and "bytes \<le> cap"
  shows "\<exists>r s'. vmmAcquireFromBlock env i bytes comm strm (p, w) = (Some r, s')"
proof -
  let ?reg = "comm = nullptr \<or> vmmRegistered (vmmBlocks p ! i) comm"
  obtain c ts where "acquireSlice env strm ?reg bytes (nextNode w) (vmmSlices (vmmBlocks p ! i)) w = (Some c, ts, w)"
    using acquireSlice_fresh [OF assms(2), of env strm ?reg "nextNode w" k w] assms(1) by auto
  then show ?thesis
    by (auto simp: vmmAcquireFromBlock_def Let_def split: prod.splits sum.splits)
qed

lemma vmmTryBlocks_spec:
  assumes "vmmTryBlocks env comm bytes strm is (p, w) = (found, p', w')"
    and "blocks_wf (nextNode w) (vmmViews p)" and "\<forall>i \<in> set is. i < length (vmmBlocks p)" and "0 < bytes"
  shows "acquired (vmmViews p) (nextNode w) bytes (case found of None \<Rightarrow> Inl ncclInProgress | Some r \<Rightarrow> r) (p', w') \<and>
    map block_range (vmmViews p') = map block_range (vmmViews p) \<and> chunkBytes p' = chunkBytes p"
  using assms
proof (induction "is" arbitrary: p w)
  case Nil
  then show ?case by (simp add: acquired_def)
next
  case (Cons i "is")
  obtain f p1 w1 where a: "vmmAcquireFromBlock env i bytes comm strm (p, w) = (f, p1, w1)"
    by (metis prod_cases3)
  note as = vmmAcquireFromBlock_pool [OF a Cons.prems(2) _ Cons.prems(4)]
  show ?case
  proof (cases f)
    case None
    have l: "length (vmmBlocks p1) = length (vmmBlocks p)"
      using as Cons.prems(3) by (metis length_map length_vmmViews list.set_intros(1))
    have "vmmTryBlocks env comm bytes strm is (p1, w1) = (found, p', w')" using Cons.prems(1) a None by simp
    moreover have "blocks_wf (nextNode w1) (vmmViews p1)" "leases (vmmViews p1) = leases (vmmViews p)"
      using as None Cons.prems(3) by (auto simp: acquired_def)
    moreover have "nextNode w \<le> nextNode w1" using as Cons.prems(3) by (simp add: acquired_def)
    ultimately show ?thesis
      using Cons.IH [of p1 w1] Cons.prems(3,4) as l
        acquired_leases [of "vmmViews p1" "nextNode w1" bytes _ "(p', w')" "vmmViews p" "nextNode w"] by simp
  next
    case (Some r)
    with Cons.prems(1,3) a as show ?thesis by auto
  qed
qed

lemma chooseGrow_Some:
  assumes "chooseGrow bytes bs = Some g"
  shows "g < length bs \<and> vmmCapacity (bs ! g) < bytes \<and> canGrow (bs ! g)"
proof -
  have "x = Some g \<or> g \<in> set is \<and> P g"
    if "fold f is x = Some g" and f: "\<And>i y. f i y = y \<or> f i y = Some i \<and> P i"
    for f and "is" :: "nat list" and x P
    using that(1)
  proof (induction "is" arbitrary: x)
    case (Cons a "is")
    then have "f a x = Some g \<or> g \<in> set is \<and> P g" by simp
    with f [of a x] show ?case by auto
  qed simp
  from this [OF assms [unfolded chooseGrow_def], of "\<lambda>i. vmmCapacity (bs ! i) < bytes \<and> canGrow (bs ! i)"]
  show ?thesis by (auto split: if_splits)
qed

lemma vmmLastTry_spec:
  assumes run: "vmmLastTry env comm bytes strm i (p, w) = (r, s')"
    and grown: "grown V n i cap c (p, w)" and le: "bytes \<le> cap" and pos: "0 < bytes"
  shows "acquired V n bytes r s'"
proof -
  have wf: "blocks_wf (nextNode w) (vmmViews p)" "i < length (vmmBlocks p)" "leases (vmmViews p) = leases V"
    using grown by (auto simp: grown_def)
  obtain k where "vmmSlices (vmmBlocks p ! i) = [newSlice k 0 cap]" using grown by (auto simp: grown_def)
  from vmmAcquireFromBlock_fresh [OF this le, of env comm strm w]
  obtain p' w' where a: "vmmAcquireFromBlock env i bytes comm strm (p, w) = (Some r, p', w')" "s' = (p', w')"
    using run by (auto simp: vmmLastTry_def)
  have "n \<le> nextNode w" using grown by (simp add: grown_def)
  then show ?thesis
    using acquired_leases [of "vmmViews p" "nextNode w" bytes r s' V n] vmmAcquireFromBlock_pool [OF a(1) wf(1,2) pos] wf(3) a(2)
    by simp
qed

lemma vmmFresh_ranges:
  "map block_range (vmmViews p') = map block_range (vmmViews p) \<Longrightarrow> chunkBytes p' = chunkBytes p \<Longrightarrow>
   vmmFresh env u bytes p' = vmmFresh env u bytes p"
  by (simp only: vmmFresh_def)

lemma vmmGrow_law:
  assumes wf: "blocks_wf (nextNode w) (vmmViews p)" and pos: "0 < bytes" and fresh: "vmmFresh env u bytes p"
    and g: "chooseGrow bytes (vmmBlocks p) = Some g"
    and run: "bindC (growBlock env g bytes) (\<lambda>_. vmmLastTry env comm bytes strm g) (p, w) = (r, s')"
  shows "acquired (vmmViews p) (nextNode w) bytes r s'"
proof -
  let ?c = "chunkBytes p" and ?V = "vmmViews p" and ?n = "nextNode w"
  have i: "g < length ?V" "filter inUse (viewSlices (?V ! g)) = []"
    using chooseGrow_Some [OF g] by (auto simp: vmmViews_nth canGrow_def inUse_def filter_empty_conv)
  have up: "upto (calm ?V ?n ?c) (grown ?V ?n g (alignUpTo bytes ?c) ?c)
      (growBlock env g bytes :: (VmmPool \<times> 'a node_world_scheme, unit) comp)"
    by (rule growBlock_spec [OF i]) (use fresh in \<open>auto simp: vmmFresh_def Let_def\<close>)
  have calm: "calm ?V ?n ?c (p, w)" using wf by (simp add: calm_def)
  have le: "bytes \<le> alignUpTo bytes ?c" using fresh by (intro alignUpTo_ge) (auto simp: vmmFresh_def)
  obtain x p1 w1 where gr: "growBlock env g bytes (p, w) = (x, p1, w1)" by (metis prod_cases3)
  have cs: "case x of Inl e \<Rightarrow> calm ?V ?n ?c (p1, w1) | Inr _ \<Rightarrow> grown ?V ?n g (alignUpTo bytes ?c) ?c (p1, w1)"
    using up calm gr unfolding upto_def by (fastforce split: sum.splits)
  show ?thesis
  proof (cases x)
    case (Inl e)
    then have "r = Inl e" "s' = (p1, w1)" using run gr by (auto simp: bindC_def)
    with cs Inl calm_acquired show ?thesis by simp
  next
    case (Inr y)
    then have "vmmLastTry env comm bytes strm g (p1, w1) = (r, s')" using run gr by (auto simp: bindC_def)
    with vmmLastTry_spec [OF _ _ le pos] cs Inr show ?thesis by simp
  qed
qed

lemma vmmCreate_law:
  assumes wf: "blocks_wf (nextNode w) (vmmViews p)" and pos: "0 < bytes" and fresh: "vmmFresh env u bytes p"
    and run: "bindC (vmmCreateBlock env bytes)
       (\<lambda>_ s2. vmmLastTry env comm bytes strm (length (vmmBlocks (fst s2)) - 1) s2) (p, w) = (r, s')"
  shows "acquired (vmmViews p) (nextNode w) bytes r s'"
proof -
  obtain x p1 w1 where cr: "vmmCreateBlock env bytes (p, w) = (x, p1, w1)" by (metis prod_cases3)
  note cs = vmmCreateBlock_spec [OF wf fresh cr]
  have le: "bytes \<le> alignUpTo bytes (chunkBytes p)"
    using fresh by (intro alignUpTo_ge) (auto simp: vmmFresh_def)
  show ?thesis
  proof (cases x)
    case (Inl e)
    then have "r = Inl e" "s' = (p1, w1)" using run cr by (auto simp: bindC_def)
    with cs Inl calm_acquired show ?thesis by simp
  next
    case (Inr y)
    then have "vmmLastTry env comm bytes strm (length (vmmBlocks p)) (p1, w1) = (r, s')"
      using run cr cs by (auto simp: bindC_def created_def)
    moreover have "grown (vmmViews p) (nextNode w) (length (vmmBlocks p)) (alignUpTo bytes (chunkBytes p))
        (chunkBytes p) (p1, w1)" using cs Inr by (simp add: created_def)
    ultimately show ?thesis by (rule vmmLastTry_spec [OF _ _ le pos])
  qed
qed

lemma vmmAcquire_law:
  assumes wf: "blocks_wf (nextNode w) (vmmViews p)" and pos: "0 < bytes" and fresh: "vmmFresh env u bytes p"
    and run: "vmmAcquire env u comm bytes strm (p, w) = (r, (p', w'))"
  shows "nextNode w \<le> nextNode w' \<and> blocks_wf (nextNode w') (vmmViews p') \<and>
     (case r of
        Inl e \<Rightarrow> leases (vmmViews p') = leases (vmmViews p)
      | Inr h \<Rightarrow> leases (vmmViews p') = insert (handle_lease h) (leases (vmmViews p)) \<and>
          handle_lease h \<notin> leases (vmmViews p) \<and> bytes \<le> handleBytes h)"
proof -
  obtain f p1 w1 where t: "vmmTryBlocks env comm bytes strm [0..<length (vmmBlocks p)] (p, w) = (f, p1, w1)"
    by (metis prod_cases3)
  note ts = vmmTryBlocks_spec [OF t wf _ pos, simplified]
  have "acquired (vmmViews p) (nextNode w) bytes r (p', w')"
  proof (cases f)
    case (Some x)
    with ts run t show ?thesis by (simp add: vmmAcquire_def)
  next
    case None
    have wf1: "blocks_wf (nextNode w1) (vmmViews p1)" and same: "leases (vmmViews p1) = leases (vmmViews p)"
      using ts None by (simp_all add: acquired_def)
    have fresh1: "vmmFresh env u bytes p1" using fresh ts vmmFresh_ranges [of p1 p] by simp
    have "acquired (vmmViews p1) (nextNode w1) bytes r (p', w')"
    proof (cases "chooseGrow bytes (vmmBlocks p1)")
      case (Some g)
      with run t None vmmGrow_law [OF wf1 pos fresh1 Some] show ?thesis by (simp add: vmmAcquire_def)
    next
      case gn: None
      with run t None vmmCreate_law [OF wf1 pos fresh1] show ?thesis by (simp add: vmmAcquire_def)
    qed
    then show ?thesis by (rule acquired_leases [OF _ same]) (use ts in \<open>simp add: acquired_def\<close>)
  qed
  then show ?thesis by (simp add: acquired_def)
qed

section \<open>Release\<close>

lemma vmmFind_Some:
  assumes "vmmFind nod p = Some i"
  shows "i < length (vmmBlocks p) \<and> nod = Some (vmmNode (vmmBlocks p ! i))"
  using assms unfolding vmmFind_def find_Some_iff by auto

lemma vmmReleaseAt_spec:
  assumes run: "vmmReleaseAt env nod strm i (p, w) = (r, (p', w'))"
    and i: "i < length (vmmBlocks p)" and wf: "block_wf n (vmmViews p ! i)"
  shows "\<exists>u. vmmViews p' = (vmmViews p)[i := u] \<and> same_place (vmmViews p ! i) u \<and> block_wf n u \<and>
    nextNode w' = nextNode w \<and>
    (case r of
       Inl e \<Rightarrow> leases [u] = leases [vmmViews p ! i]
     | Inr _ \<Rightarrow> filter inUse (viewSlices u) =
                 filter (\<lambda>s. sliceNode s \<noteq> nod) (filter inUse (viewSlices (vmmViews p ! i))))"
proof -
  let ?v = "vmmViews p ! i" and ?upd = "\<lambda>ss. updateVmmBlock i (\<lambda>b. b\<lparr>vmmSlices := ss\<rparr>) p"
  have v: "?v = vmmView (vmmBlocks p ! i)" using i by (simp add: vmmViews_nth)
  have two: "updateVmmBlock i f (updateVmmBlock i g p) = updateVmmBlock i (f \<circ> g) p" for f g
    using i by (simp add: updateVmmBlock_def)
  have nx: "nextNode w' = nextNode w" and
    cases: "p' = p \<and> r \<in> range Inl
     \<or> (\<exists>ev. p' = ?upd (setEvent nod ev (viewSlices ?v))) \<and> r \<in> range Inl
     \<or> (\<exists>ev. p' = ?upd (setPending nod strm (setEvent nod ev (viewSlices ?v)))) \<and> r = Inr ()
     \<or> p' = ?upd (setPending nod strm (viewSlices ?v)) \<and> r = Inr ()"
    using run i two unfolding v
    by (auto simp: vmmReleaseAt_def bindC_def thenC_def getX_def inWorld_def updateC_def CUDACHECK_def
        callApi_def o_def updateVmmBlock_def split: if_splits sum.splits prod.splits option.splits)
  have vw: "vmmViews (?upd ss) = (vmmViews p)[i := ?v\<lparr>viewSlices := ss\<rparr>]" for ss
    unfolding v by (simp add: vmmViews_update vmmView_def)
  have pend: ?thesis if "r = Inr ()" "vmmViews p' = (vmmViews p)[i := ?v\<lparr>viewSlices := ss\<rparr>]"
      "filter inUse ss = filter (\<lambda>s. sliceNode s \<noteq> nod) (filter inUse (viewSlices ?v))"
      "slices_wf n (unat (viewCapacity ?v)) ss" for ss
    using that wf nx by (intro exI [of _ "?v\<lparr>viewSlices := ss\<rparr>"]) (simp add: same_place_def block_wf_def)
  from cases show ?thesis
  proof (elim disjE conjE exE)
    assume "p' = p" "r \<in> range Inl"
    then show ?thesis using wf nx by (intro exI [of _ ?v]) auto
  next
    fix ev assume p': "p' = ?upd (setEvent nod ev (viewSlices ?v))" and "r \<in> range Inl"
    let ?u = "?v\<lparr>viewSlices := setEvent nod ev (viewSlices ?v)\<rparr>"
    have "leases [?u] = leases [?v]" by (rule setEvent_leases) (simp_all add: same_place_def)
    then show ?thesis
      using wf nx vw p' \<open>r \<in> range Inl\<close> by (intro exI [of _ ?u]) (auto simp: same_place_def block_wf_def)
  next
    fix ev assume p': "p' = ?upd (setPending nod strm (setEvent nod ev (viewSlices ?v)))" and "r = Inr ()"
    then show ?thesis
      using wf by (intro pend [OF _ _ trans [OF setPending_setEvent_inUse setPending_inUse]])
        (simp_all add: vw block_wf_def)
  next
    assume p': "p' = ?upd (setPending nod strm (viewSlices ?v))" and "r = Inr ()"
    then show ?thesis
      using wf by (intro pend [OF _ _ setPending_inUse]) (simp_all add: vw block_wf_def)
  qed
qed

lemma vmmRelease_law:
  assumes wf: "blocks_wf (nextNode w) (vmmViews p)" and l: "handle_lease h \<in> leases (vmmViews p)"
    and run: "vmmRelease env h strm (p, w) = (q, (p', w'))"
  shows "nextNode w \<le> nextNode w' \<and> blocks_wf (nextNode w') (vmmViews p') \<and>
     (case q of
        Inl e \<Rightarrow> leases (vmmViews p') = leases (vmmViews p)
      | Inr _ \<Rightarrow> leases (vmmViews p') = leases (vmmViews p) - {handle_lease h})"
proof (cases "vmmFind (handleBlock h) p")
  case None
  with run have "q = Inl ncclInternalError" "p' = p" "w' = w"
    by (auto simp: vmmRelease_def bindC_def getX_def)
  with wf show ?thesis by simp
next
  case (Some i)
  note f = vmmFind_Some [OF Some]
  let ?V = "vmmViews p"
  have i: "i < length (vmmBlocks p)" "i < length ?V" using f by simp_all
  have r: "vmmReleaseAt env (the (handleSlice h)) strm i (p, w) = (q, (p', w'))"
    using run Some by (simp add: vmmRelease_def bindC_def getX_def)
  have "block_wf (nextNode w) (?V ! i)" using wf i by (simp add: blocks_wf_def)
  from vmmReleaseAt_spec [OF r i(1) this] obtain u where
    u: "vmmViews p' = ?V[i := u]" "same_place (?V ! i) u" "block_wf (nextNode w) u" "nextNode w' = nextNode w"
      "case q of Inl e \<Rightarrow> leases [u] = leases [?V ! i]
       | Inr _ \<Rightarrow> filter inUse (viewSlices u) =
           filter (\<lambda>s. sliceNode s \<noteq> the (handleSlice h)) (filter inUse (viewSlices (?V ! i)))" by blast
  have "blocks_wf (nextNode w') (vmmViews p')" using blocks_wf_update [OF wf i(2) u(2,3)] u(1,4) by simp
  moreover have "nextNode w \<le> nextNode w'" using u(4) by simp
  moreover have "leases (vmmViews p') = leases ?V" if "q = Inl e" for e
    using u(1,5) that leases_same_at [OF i(2)] by simp
  moreover have "leases (vmmViews p') = leases ?V - {handle_lease h}" if "q = Inr x" for x
    unfolding u(1) by (rule lease_removed_at [OF wf i(2) u(2) _ l])
      (use u(5) f i that in \<open>auto simp: handle_lease_def vmmViews_nth\<close>)
  ultimately show ?thesis by (cases q) auto
qed

text \<open>The VMM backend offers the same contract as the legacy backend.\<close>

interpretation vmm: lease_backend vmmViews vmmFresh vmmAcquire vmmRelease
  by unfold_locales (erule (3) vmmAcquire_law, erule (2) vmmRelease_law)

end
