(* ===== verification/Buffer_Management.thy ===== *)
theory Buffer_Management
  imports Buffer_Legacy Buffer_Vmm
begin

text \<open>
  The workspace allocator as its callers see it, \<^verbatim>\<open>core/memory/coccl_buffer_management.cc\<close>: one pool
  per communicator, served by the backend chosen when the pool was created. The global mutex makes
  each operation atomic, so an operation is one function on the table of pools.
\<close>

section \<open>Pools\<close>

record CommBufferPool =
  poolBackend :: BufferBackend
  poolLegacy :: legacy_pool
  poolVmm :: VmmPool

definition emptyPool :: CommBufferPool where
  "emptyPool = \<lparr>poolBackend = LegacyBackend,
     poolLegacy = \<lparr>legacyOwner = nullptr, legacyPoolDev = -1, legacyTotalBytes = 0, legacyBlocks = []\<rparr>,
     poolVmm = \<lparr>vmmOwner = nullptr, vmmPoolDev = -1, vmmCuDev = 0, granularity = 0, chunkBytes = 0,
       virtualBytes = 0, physicalBytes = 0, vmmRegisteredBytes = 0, gpuDirectRdma = False, vmmBlocks = []\<rparr>\<rparr>"

definition onLegacy :: "(legacy_pool \<times> 'w, 'a) comp \<Rightarrow> (CommBufferPool \<times> 'w, 'a) comp" where
  "onLegacy m s = (case m (poolLegacy (fst s), snd s) of (r, (l, w)) \<Rightarrow> (r, ((fst s)\<lparr>poolLegacy := l\<rparr>, w)))"

definition onVmm :: "(VmmPool \<times> 'w, 'a) comp \<Rightarrow> (CommBufferPool \<times> 'w, 'a) comp" where
  "onVmm m s = (case m (poolVmm (fst s), snd s) of (r, (v, w)) \<Rightarrow> (r, ((fst s)\<lparr>poolVmm := v\<rparr>, w)))"

text \<open>The dispatch every operation starts with.\<close>

definition byBackend ::
  "(VmmPool \<times> 'w, 'a) comp \<Rightarrow> (legacy_pool \<times> 'w, 'a) comp \<Rightarrow> (CommBufferPool \<times> 'w, 'a) comp" where
  "byBackend v l s = (case poolBackend (fst s) of VmmBackend \<Rightarrow> onVmm v s | LegacyBackend \<Rightarrow> onLegacy l s)"

text \<open>
  \<open>cfg\<close>: the published configuration, \<open>None\<close> when reading it failed. \<^verbatim>\<open>vmmInit\<close> reports availability
  and never fails, so the pool is always usable.
\<close>

definition initPool ::
  "api_env \<Rightarrow> cocclBufferConfig option \<Rightarrow> ncclComm \<Rightarrow> (CommBufferPool \<times> 'w api_world_scheme, unit) comp" where
  "initPool env cfg comm =
     bindC (updateC (\<lambda>pool. pool\<lparr>poolLegacy := (poolLegacy pool)\<lparr>legacyOwner := self comm,
              legacyPoolDev := cudaDev comm\<rparr>\<rparr>)) (\<lambda>_.
     bindC (onVmm (vmmInit env cfg comm)) (\<lambda>available.
       if available then updateC (\<lambda>pool. pool\<lparr>poolBackend := VmmBackend\<rparr>) else returnC ()))"

definition deregisterComm :: "api_env \<Rightarrow> ptr \<Rightarrow> (CommBufferPool \<times> 'w api_world_scheme, unit) comp" where
  "deregisterComm env comm = byBackend (vmmDeregisterComm env comm) (legacyDeregisterComm env comm)"

definition destroyPool :: "api_env \<Rightarrow> (CommBufferPool \<times> 'w api_world_scheme, unit) comp" where
  "destroyPool env = byBackend (vmmDestroy env) (legacyDestroy env)"

definition poolDev :: "CommBufferPool \<Rightarrow> int" where
  "poolDev pool = legacyPoolDev (poolLegacy pool)"

definition poolAcquire ::
  "api_env \<Rightarrow> cocclBufferConfig \<Rightarrow> ptr \<Rightarrow> size_t \<Rightarrow> ptr \<Rightarrow>
   (CommBufferPool \<times> 'w node_world_scheme, cocclBufferHandle) comp" where
  "poolAcquire env cfg registeredComm bytes strm =
     byBackend (vmmAcquire env () registeredComm bytes strm) (legacyAcquire env cfg registeredComm bytes strm)"

definition poolRelease ::
  "api_env \<Rightarrow> cocclBufferHandle \<Rightarrow> ptr \<Rightarrow> (CommBufferPool \<times> 'w api_world_scheme, unit) comp" where
  "poolRelease env buffer strm = byBackend (vmmRelease env buffer strm) (legacyReleaseHandle env buffer strm)"

definition poolRegister ::
  "api_env \<Rightarrow> cocclBufferHandle \<Rightarrow> ptr \<Rightarrow> (CommBufferPool \<times> 'w api_world_scheme, unit) comp" where
  "poolRegister env buffer comm = byBackend (vmmRegister env buffer comm) (legacyRegister env buffer comm)"

section \<open>The table of pools\<close>

text \<open>\<^verbatim>\<open>std::map<ncclComm_t, CommBufferPool>\<close>: pairs in key order.\<close>

type_synonym comm_pools = "(ptr \<times> CommBufferPool) list"

definition findPool :: "comm_pools \<Rightarrow> ptr \<Rightarrow> CommBufferPool option" where
  "findPool pools comm = map_of pools comm"

definition setPool :: "ptr \<Rightarrow> CommBufferPool \<Rightarrow> comm_pools \<Rightarrow> comm_pools" where
  "setPool comm pool pools = map (\<lambda>(k, p). (k, if k = comm then pool else p)) pools"

definition onPool ::
  "ncclResult_t \<Rightarrow> ptr \<Rightarrow> (CommBufferPool \<times> 'w, 'a) comp \<Rightarrow> (comm_pools \<times> 'w, 'a) comp" where
  "onPool missing comm m s =
     (case findPool (fst s) comm of
        None \<Rightarrow> (Inl missing, s)
      | Some pool \<Rightarrow> (case m (pool, snd s) of (r, (pool', w)) \<Rightarrow> (r, (setPool comm pool' (fst s), w))))"

text \<open>
  The handle's block is one of the pool's blocks; a dispatch on \<^verbatim>\<open>block->backend\<close> is the dispatch on
  the backend of the pool that has the block.
\<close>

definition hasBlock :: "nat option \<Rightarrow> CommBufferPool \<Rightarrow> bool" where
  "hasBlock nod pool \<longleftrightarrow>
     (case poolBackend pool of
        VmmBackend \<Rightarrow> nod \<in> Some ` vmmNode ` set (vmmBlocks (poolVmm pool))
      | LegacyBackend \<Rightarrow> nod \<in> Some ` legacyNode ` set (legacyBlocks (poolLegacy pool)))"

definition blockPool :: "comm_pools \<Rightarrow> nat option \<Rightarrow> ptr option" where
  "blockPool pools nod = map_option fst (find (\<lambda>(k, pool). hasBlock nod pool) pools)"

section \<open>Operations\<close>

text \<open>
  A null communicator is the null pointer. The handle the caller passes is never null in this code
  base; \<open>acquire\<close> returns the handle it fills.
\<close>

definition acquire ::
  "api_env \<Rightarrow> cocclBufferConfig \<Rightarrow> ptr \<Rightarrow> ptr \<Rightarrow> size_t \<Rightarrow> ptr \<Rightarrow>
   (comm_pools \<times> 'w node_world_scheme, cocclBufferHandle) comp" where
  "acquire env cfg ownerComm registeredComm bytes strm =
     (if ownerComm = nullptr then failC ncclInvalidArgument
      else onPool ncclInvalidUsage ownerComm
        (bindC (getX poolDev) (\<lambda>dev.
         bindC (inWorld (CUDACHECK env (Cuda (cudaSetDevice dev)))) (\<lambda>_.
           poolAcquire env cfg registeredComm (alignUp (if bytes = 0 then 1 else bytes)) strm))))"

definition cocclBufferCommInit ::
  "api_env \<Rightarrow> cocclBufferConfig option \<Rightarrow> ncclComm option \<Rightarrow> (comm_pools \<times> 'w api_world_scheme, unit) comp" where
  "cocclBufferCommInit env cfg comm s =
     (case comm of
        None \<Rightarrow> (Inl ncclInvalidArgument, s)
      | Some c \<Rightarrow>
          if findPool (fst s) (self c) \<noteq> None then (Inr (), s)
          else (case initPool env cfg c (emptyPool, snd s) of
                  (Inl e, (pool, w)) \<Rightarrow> (Inl e, (fst s, w))
                | (Inr _, (pool, w)) \<Rightarrow> (Inr (), (insort_key fst (self c, pool) (fst s), w))))"

definition cocclBufferCommDestroy :: "api_env \<Rightarrow> ptr \<Rightarrow> (comm_pools \<times> 'w api_world_scheme, unit) comp" where
  "cocclBufferCommDestroy env comm =
     (if comm = nullptr then returnC ()
      else bindC (getX (map fst)) (\<lambda>keys.
        bindC (forC keys (\<lambda>k. if k = comm then returnC ()
                 else onPool ncclInternalError k (deregisterComm env comm))) (\<lambda>_.
        bindC (getX (\<lambda>pools. findPool pools comm)) (\<lambda>found.
          case found of
            None \<Rightarrow> returnC ()
          | Some pool \<Rightarrow>
              bindC (onPool ncclInternalError comm (destroyPool env))
                (\<lambda>_. updateC (filter (\<lambda>(k, p). k \<noteq> comm)))))))"

definition cocclGetBufferForComm ::
  "api_env \<Rightarrow> cocclBufferConfig \<Rightarrow> ptr \<Rightarrow> ptr \<Rightarrow> size_t \<Rightarrow> ptr \<Rightarrow>
   (comm_pools \<times> 'w node_world_scheme, cocclBufferHandle) comp" where
  "cocclGetBufferForComm env cfg ownerComm registeredComm bytes strm =
     (if registeredComm = nullptr then failC ncclInvalidArgument
      else acquire env cfg ownerComm registeredComm bytes strm)"

definition cocclGetBuffer ::
  "api_env \<Rightarrow> cocclBufferConfig \<Rightarrow> ptr \<Rightarrow> size_t \<Rightarrow> ptr \<Rightarrow>
   (comm_pools \<times> 'w node_world_scheme, cocclBufferHandle) comp" where
  "cocclGetBuffer env cfg comm bytes strm = cocclGetBufferForComm env cfg comm comm bytes strm"

definition cocclGetUnregisteredBuffer ::
  "api_env \<Rightarrow> cocclBufferConfig \<Rightarrow> ptr \<Rightarrow> size_t \<Rightarrow> ptr \<Rightarrow>
   (comm_pools \<times> 'w node_world_scheme, cocclBufferHandle) comp" where
  "cocclGetUnregisteredBuffer env cfg ownerComm bytes strm = acquire env cfg ownerComm nullptr bytes strm"

definition cocclRegisterBufferForComm ::
  "api_env \<Rightarrow> cocclBufferHandle \<Rightarrow> ptr \<Rightarrow> (comm_pools \<times> 'w api_world_scheme, unit) comp" where
  "cocclRegisterBufferForComm env buffer registeredComm =
     (if handleSlice buffer = None \<or> registeredComm = nullptr then failC ncclInvalidArgument
      else bindC (getX (\<lambda>pools. blockPool pools (handleBlock buffer))) (\<lambda>found.
        case found of
          None \<Rightarrow> failC ncclInternalError
        | Some k \<Rightarrow> onPool ncclInternalError k (poolRegister env buffer registeredComm)))"

text \<open>The handle is emptied when the release succeeds: the result is the handle afterwards.\<close>

definition cocclReleaseBuffer ::
  "api_env \<Rightarrow> cocclBufferHandle \<Rightarrow> ptr \<Rightarrow> comm_pools \<times> 'w api_world_scheme \<Rightarrow>
   (ncclResult_t \<times> cocclBufferHandle) \<times> comm_pools \<times> 'w api_world_scheme" where
  "cocclReleaseBuffer env buffer strm s =
     (if handleSlice buffer = None then ((ncclSuccess, buffer), s)
      else
        case bindC (getX (\<lambda>pools. blockPool pools (handleBlock buffer))) (\<lambda>found.
               case found of
                 None \<Rightarrow> failC ncclInternalError
               | Some k \<Rightarrow> onPool ncclInternalError k (poolRelease env buffer strm)) s of
          (Inl e, s') \<Rightarrow> ((e, buffer), s')
        | (Inr _, s') \<Rightarrow> ((ncclSuccess, emptyHandle), s'))"

section \<open>The contract of a pool\<close>

definition poolViews :: "CommBufferPool \<Rightarrow> block_view list" where
  "poolViews pool =
     (case poolBackend pool of
        VmmBackend \<Rightarrow> vmmViews (poolVmm pool) | LegacyBackend \<Rightarrow> legacyViews (poolLegacy pool))"

definition poolFresh :: "api_env \<Rightarrow> cocclBufferConfig \<Rightarrow> size_t \<Rightarrow> CommBufferPool \<Rightarrow> bool" where
  "poolFresh env cfg bytes pool \<longleftrightarrow>
     (case poolBackend pool of
        VmmBackend \<Rightarrow> vmmFresh env () bytes (poolVmm pool)
      | LegacyBackend \<Rightarrow> legacyFresh env cfg bytes (poolLegacy pool))"

lemma byBackend_run:
  assumes "byBackend v l (p, w) = (r, (p', w'))"
  shows "(\<exists>q. poolBackend p = VmmBackend \<and> v (poolVmm p, w) = (r, (q, w')) \<and> p' = p\<lparr>poolVmm := q\<rparr>) \<or>
    (\<exists>q. poolBackend p = LegacyBackend \<and> l (poolLegacy p, w) = (r, (q, w')) \<and> p' = p\<lparr>poolLegacy := q\<rparr>)"
  using assms
  by (cases "poolBackend p") (auto simp: byBackend_def onVmm_def onLegacy_def split: prod.splits)

text \<open>The dispatch offers the contract of its backends.\<close>

interpretation pool: lease_backend poolViews poolFresh poolAcquire poolRelease
proof unfold_locales
  fix w :: "'a node_world_scheme" and p bytes env cfg comm strm r p' w'
  assume wf: "blocks_wf (nextNode w) (poolViews p)" "0 < bytes" "poolFresh env cfg bytes p"
    and run: "poolAcquire env cfg comm bytes strm (p, w) = (r, (p', w'))"
  from byBackend_run [OF run [unfolded poolAcquire_def]]
  show "nextNode w \<le> nextNode w' \<and> blocks_wf (nextNode w') (poolViews p') \<and>
     (case r of
        Inl e \<Rightarrow> leases (poolViews p') = leases (poolViews p)
      | Inr h \<Rightarrow> leases (poolViews p') = insert (handle_lease h) (leases (poolViews p)) \<and>
          handle_lease h \<notin> leases (poolViews p) \<and> bytes \<le> handleBytes h)"
  proof (elim disjE exE conjE)
    fix q assume b: "poolBackend p = VmmBackend" "vmmAcquire env () comm bytes strm (poolVmm p, w) = (r, (q, w'))"
      "p' = p\<lparr>poolVmm := q\<rparr>"
    with vmm.acquire_law [OF _ wf(2) _ b(2)] wf show ?thesis
      by (simp add: poolViews_def poolFresh_def split: sum.splits)
  next
    fix q assume b: "poolBackend p = LegacyBackend" "legacyAcquire env cfg comm bytes strm (poolLegacy p, w) = (r, (q, w'))"
      "p' = p\<lparr>poolLegacy := q\<rparr>"
    with legacy.acquire_law [OF _ wf(2) _ b(2)] wf show ?thesis
      by (simp add: poolViews_def poolFresh_def split: sum.splits)
  qed
next
  fix w :: "'a node_world_scheme" and p h env strm q p' w'
  assume wf: "blocks_wf (nextNode w) (poolViews p)" "handle_lease h \<in> leases (poolViews p)"
    and run: "poolRelease env h strm (p, w) = (q, (p', w'))"
  from byBackend_run [OF run [unfolded poolRelease_def]]
  show "nextNode w \<le> nextNode w' \<and> blocks_wf (nextNode w') (poolViews p') \<and>
     (case q of
        Inl e \<Rightarrow> leases (poolViews p') = leases (poolViews p)
      | Inr _ \<Rightarrow> leases (poolViews p') = leases (poolViews p) - {handle_lease h})"
  proof (elim disjE exE conjE)
    fix z assume b: "poolBackend p = VmmBackend" "vmmRelease env h strm (poolVmm p, w) = (q, (z, w'))"
      "p' = p\<lparr>poolVmm := z\<rparr>"
    with vmm.release_law [OF _ _ b(2)] wf show ?thesis by (simp add: poolViews_def split: sum.splits)
  next
    fix z assume b: "poolBackend p = LegacyBackend" "legacyReleaseHandle env h strm (poolLegacy p, w) = (q, (z, w'))"
      "p' = p\<lparr>poolLegacy := z\<rparr>"
    with legacy.release_law [OF _ _ b(2)] wf show ?thesis by (simp add: poolViews_def split: sum.splits)
  qed
qed

section \<open>Properties of the allocator\<close>

lemma findPool_setPool:
  "findPool (setPool k pool pools) j = (if j = k \<and> findPool pools k \<noteq> None then Some pool else findPool pools j)"
  by (induction pools) (auto simp: findPool_def setPool_def)

lemma onPool_run:
  assumes "onPool e k m (pools, w) = (r, (pools', w'))" and "findPool pools k = Some pool"
  shows "\<exists>pool'. m (pool, w) = (r, (pool', w')) \<and> pools' = setPool k pool' pools"
  using assms by (auto simp: onPool_def split: prod.splits)

lemma acquire_run:
  assumes run: "acquire env cfg owner comm bytes strm (pools, w) = (Inr h, (pools', w'))"
    and pool: "findPool pools owner = Some pool"
  obtains pool' w1 where "nextNode w1 = nextNode w" "pools' = setPool owner pool' pools"
    "poolAcquire env cfg comm (alignUp (if bytes = 0 then 1 else bytes)) strm (pool, w1) = (Inr h, (pool', w'))"
proof -
  let ?m = "bindC (getX poolDev) (\<lambda>dev.
         bindC (inWorld (CUDACHECK env (Cuda (cudaSetDevice dev)))) (\<lambda>_.
           poolAcquire env cfg comm (alignUp (if bytes = 0 then 1 else bytes)) strm))"
  have "onPool ncclInvalidUsage owner ?m (pools, w) = (Inr h, (pools', w'))"
    using run by (simp only: acquire_def split: if_splits) (auto simp: failC_def)
  from onPool_run [OF this pool]
  obtain pool' where m: "?m (pool, w) = (Inr h, (pool', w'))" and p: "pools' = setPool owner pool' pools" by blast
  let ?w1 = "w\<lparr>apiLog := apiLog w @ [Cuda (cudaSetDevice (poolDev pool))]\<rparr>"
  have "poolAcquire env cfg comm (alignUp (if bytes = 0 then 1 else bytes)) strm (pool, ?w1) = (Inr h, (pool', w'))"
    using m by (auto simp: bindC_eq_Inr getX_def inWorld_def CUDACHECK_def callApi_def split: if_split_asm)
  from that [OF _ p this] show thesis by simp
qed

lemma alignUp_request:
  assumes "unat bytes + 255 < 2 ^ 64"
  shows "0 < alignUp (if bytes = 0 then 1 else bytes)"
    and "unat bytes \<le> unat (alignUp (if bytes = 0 then 1 else bytes))"
proof -
  let ?b = "if bytes = 0 then 1 else bytes"
  have *: "unat ?b + 255 < 2 ^ 64" "unat bytes \<le> unat ?b" "0 < unat ?b"
    using assms by (auto simp: unat_gt_0)
  then show "unat bytes \<le> unat (alignUp ?b)" using alignUp_exact(2) [OF *(1)] by linarith
  show "0 < alignUp ?b" using alignUp_exact(2) [OF *(1)] *(3) by (simp add: word_less_nat_alt)
qed

text \<open>
  C5: a workspace lease is exclusive. When \<^verbatim>\<open>cocclGetBufferForComm\<close> succeeds, on either backend
  and whether the lease comes from a free slice, a pending slice, a grown block or a new block, the
  lease has at least the requested bytes and shares no byte with any lease that is live in the
  owner's pool; the live leases are exactly the previous ones and the new one, the pool stays well
  formed, and the pools of other communicators do not change. The memory the backend allocates is
  assumed not to overlap the pool's blocks, and the request is less than 255 bytes away from
  \<^verbatim>\<open>SIZE_MAX\<close> at most.
\<close>

theorem get_buffer_exclusive:
  assumes "findPool pools owner = Some pool" and "blocks_wf (nextNode w) (poolViews pool)"
    and "poolFresh env cfg (alignUp (if bytes = 0 then 1 else bytes)) pool"
    and "unat bytes + 255 < 2 ^ 64"
    and "cocclGetBufferForComm env cfg owner comm bytes strm (pools, w) = (Inr h, (pools', w'))"
  shows "\<exists>pool'. findPool pools' owner = Some pool' \<and> blocks_wf (nextNode w') (poolViews pool') \<and>
    leases (poolViews pool') = insert (handle_lease h) (leases (poolViews pool)) \<and>
    (\<forall>l \<in> leases (poolViews pool). ranges_disjoint (leaseRange (handle_lease h)) (leaseRange l)) \<and>
    unat bytes \<le> unat (handleBytes h) \<and>
    (\<forall>k. k \<noteq> owner \<longrightarrow> findPool pools' k = findPool pools k)"
proof -
  have "acquire env cfg owner comm bytes strm (pools, w) = (Inr h, (pools', w'))"
    using assms(5) by (auto simp: cocclGetBufferForComm_def split: if_splits)
  then obtain pool' w1 where a: "nextNode w1 = nextNode w" "pools' = setPool owner pool' pools"
    "poolAcquire env cfg comm (alignUp (if bytes = 0 then 1 else bytes)) strm (pool, w1) = (Inr h, (pool', w'))"
    using assms(1) by (rule acquire_run)
  note pos = alignUp_request [OF assms(4)]
  have wf: "blocks_wf (nextNode w1) (poolViews pool)" using assms(2) a(1) by simp
  note law = pool.acquire_law [OF wf pos(1) assms(3) a(3), simplified]
  have "unat bytes \<le> unat (handleBytes h)"
    using law pos(2) by (simp add: word_le_nat_alt)
  with law pool.acquire_disjoint [OF wf pos(1) assms(3) a(3)] a(2) assms(1) show ?thesis
    by (auto simp: findPool_setPool)
qed

text \<open>A pool with one lease of 256 bytes and the rest of its block free.\<close>

definition examplePool :: CommBufferPool where
  "examplePool = emptyPool\<lparr>poolLegacy := \<lparr>legacyOwner = 16, legacyPoolDev = 0, legacyTotalBytes = 1024,
     legacyBlocks = [\<lparr>legacyNode = 0, legacyDev = 0, legacyPtr = 4096, legacyCapacity = 1024,
       legacySlices = [\<lparr>sliceNode = 1, sliceOffset = 0, sliceSize = 256, sliceState = SliceInUse,
                         doneEvent = nullptr, pendingStream = nullptr\<rparr>, newSlice 2 256 768],
       legacyRegistrations = [(16, 1)]\<rparr>]\<rparr>\<rparr>"

definition exampleEnv :: api_env where
  "exampleEnv = (\<lambda>i c. \<lparr>status = ncclSuccess, outValue = 65536\<rparr>)"

definition exampleNodes :: "nat \<Rightarrow> node_world" where
  "exampleNodes n = \<lparr>apiLog = [], nextNode = n\<rparr>"

lemma examplePool_wf: "blocks_wf 3 (poolViews examplePool)"
  by (simp add: examplePool_def emptyPool_def poolViews_def legacyViews_def legacyView_def blocks_wf_def
      block_wf_def slices_wf_def newSlice_def)

lemma examplePool_fresh: "poolFresh exampleEnv defaultBufferConfig 256 examplePool"
  by (simp add: poolFresh_def legacyFresh_def legacyBlockSize_def examplePool_def emptyPool_def exampleEnv_def defaultBufferConfig_def
      legacyViews_def legacyView_def block_range_def ranges_disjoint_def disjoint_ranges_def)

theorem get_buffer_exclusive_witness:
  "\<exists>h s'. cocclGetBufferForComm exampleEnv defaultBufferConfig 16 16 100 1 ([(16, examplePool)], exampleNodes 3)
      = (Inr h, s') \<and> handlePtr h = 4096 + 256 \<and> 100 \<le> unat (handleBytes h) \<and>
      (\<forall>l \<in> leases (poolViews examplePool). ranges_disjoint (leaseRange (handle_lease h)) (leaseRange l))"
proof -
  let ?run = "cocclGetBufferForComm exampleEnv defaultBufferConfig 16 16 100 1 ([(16, examplePool)], exampleNodes 3)"
  have h: "fst ?run = Inr \<lparr>handlePtr = 4352, handleBytes = 256, handleOwner = 16, handleBlock = Some 0,
      handleSlice = Some 2\<rparr>" by code_simp
  obtain h pools' w' where run: "?run = (Inr h, (pools', w'))" using h by (metis fst_conv prod.exhaust)
  have al: "alignUp (if (100::size_t) = 0 then 1 else 100) = 256" by (simp add: alignUp_def kBufferAlignment_def)
  have "findPool [(16, examplePool)] 16 = Some examplePool" by (simp add: findPool_def)
  from get_buffer_exclusive [OF this _ _ _ run] examplePool_wf examplePool_fresh al
  have "100 \<le> unat (handleBytes h)"
    "\<forall>l \<in> leases (poolViews examplePool). ranges_disjoint (leaseRange (handle_lease h)) (leaseRange l)"
    by (auto simp: exampleNodes_def)
  with run h show ?thesis by auto
qed

text \<open>
  C6: returning a lease right after taking it restores the set of live leases of the pool, on
  either backend, and keeps the pool well formed.
\<close>

theorem pool_acquire_release:
  assumes "blocks_wf (nextNode w) (poolViews pool)" and "0 < bytes" and "poolFresh env cfg bytes pool"
    and "poolAcquire env cfg comm bytes strm (pool, w) = (Inr h, (pool', w'))"
    and "poolRelease env h strm' (pool', w') = (Inr u, (pool'', w''))"
  shows "leases (poolViews pool'') = leases (poolViews pool) \<and> blocks_wf (nextNode w'') (poolViews pool'')"
  using assms by (rule pool.acquire_release)

theorem pool_acquire_release_witness:
  "\<exists>h s' s''. poolAcquire exampleEnv defaultBufferConfig 16 256 1 (examplePool, exampleNodes 3) = (Inr h, s') \<and>
     poolRelease exampleEnv h 1 s' = (Inr (), s'') \<and>
     leases (poolViews (fst s'')) = leases (poolViews examplePool)"
proof -
  let ?run = "poolAcquire exampleEnv defaultBufferConfig 16 256 1 (examplePool, exampleNodes 3)"
  have "case ?run of (Inr h, s') \<Rightarrow> fst (poolRelease exampleEnv h 1 s') = Inr () | _ \<Rightarrow> False" by code_simp
  then obtain h p' w' p'' w'' where run: "?run = (Inr h, (p', w'))" "poolRelease exampleEnv h 1 (p', w') = (Inr (), (p'', w''))"
    by (auto split: prod.splits sum.splits) (metis fst_conv prod.exhaust)
  have "leases (poolViews p'') = leases (poolViews examplePool)"
    using pool_acquire_release [OF _ _ examplePool_fresh run] examplePool_wf by (simp add: exampleNodes_def)
  with run show ?thesis by auto
qed

text \<open>
  C7: reuse of a slice never races with the work that used it before. The slice an acquisition
  hands out lies over bytes that were free, or pending with a completion event that was observed
  complete during the call, or - only when the block is already registered for the caller -
  pending on the very stream the caller will use. The other slices in use keep their places and the
  slices still tile the block.
\<close>

theorem acquire_slice_no_hazard:
  assumes "acquireSlice env strm allow bytes nod ss w = (Some c, ts, w')" and "slices_wf nod cap ss"
  shows "slices_wf (Suc nod) cap ts \<and> inUse c \<and>
    slice_handed_out (seenDone env (logLen w) (logLen w')) strm allow bytes ss ts c"
  using acquireSlice_Some [OF assms] by simp

theorem acquire_slice_no_hazard_witness:
  "\<exists>c ts w'. acquireSlice exampleEnv 7 False 256 1
      [\<lparr>sliceNode = 0, sliceOffset = 0, sliceSize = 512, sliceState = SlicePending, doneEvent = 9,
        pendingStream = 8\<rparr>] (exampleNodes 1) = (Some c, ts, w') \<and> slices_wf 2 512 ts \<and> inUse c"
proof -
  let ?ss = "[\<lparr>sliceNode = 0, sliceOffset = 0, sliceSize = 512, sliceState = SlicePending, doneEvent = 9,
        pendingStream = 8\<rparr>]"
  have "fst (acquireSlice exampleEnv 7 False 256 1 ?ss (exampleNodes 1)) \<noteq> None" by code_simp
  then obtain c ts w' where run: "acquireSlice exampleEnv 7 False 256 1 ?ss (exampleNodes 1) = (Some c, ts, w')"
    by (metis fst_conv not_None_eq prod_cases3)
  have "slices_wf 1 512 ?ss" by (simp add: slices_wf_def)
  from acquire_slice_no_hazard [OF run this] run show ?thesis by (auto simp: numeral_2_eq_2)
qed

section \<open>A failed growth\<close>

text \<open>
  The ranges that are mapped after a sequence of driver calls, with the outcome of each call: a
  successful \<^verbatim>\<open>cuMemMap\<close> maps its range, a successful \<^verbatim>\<open>cuMemUnmap\<close> removes the ranges that begin inside it.
\<close>

definition beginsIn :: "ptr \<Rightarrow> size_t \<Rightarrow> ptr \<Rightarrow> bool" where
  "beginsIn p n q \<longleftrightarrow> unat p \<le> unat q \<and> unat q < unat p + unat n"

fun mappedRanges :: "api_env \<Rightarrow> nat \<Rightarrow> api_call list \<Rightarrow> (ptr \<times> size_t) list \<Rightarrow> (ptr \<times> size_t) list" where
  "mappedRanges env i [] m = m"
| "mappedRanges env i (c # cs) m =
     mappedRanges env (Suc i) cs
       (if status (env i c) \<noteq> ncclSuccess then m
        else case c of
          Driver (cuMemMap p n h) \<Rightarrow> (p, n) # m
        | Driver (cuMemUnmap p n) \<Rightarrow> filter (\<lambda>(q, k). \<not> beginsIn p n q) m
        | _ \<Rightarrow> m)"

fun mapsInto :: "ptr \<Rightarrow> size_t \<Rightarrow> api_call \<Rightarrow> bool" where
  "mapsInto p n (Driver (cuMemMap q k h)) \<longleftrightarrow> beginsIn p n q"
| "mapsInto p n _ \<longleftrightarrow> False"

lemma mapped_stays_out:
  assumes "\<forall>c \<in> set cs. \<not> mapsInto p n c" and "\<forall>(q, k) \<in> set m. \<not> beginsIn p n q"
  shows "\<forall>(q, k) \<in> set (mappedRanges env i cs m). \<not> beginsIn p n q"
  using assms
proof (induction cs arbitrary: i m)
  case (Cons c cs)
  let ?m = "if status (env i c) \<noteq> ncclSuccess then m
        else case c of
          Driver (cuMemMap p n h) \<Rightarrow> (p, n) # m
        | Driver (cuMemUnmap p n) \<Rightarrow> filter (\<lambda>(q, k). \<not> beginsIn p n q) m
        | _ \<Rightarrow> m"
  have "\<forall>(q, k) \<in> set ?m. \<not> beginsIn p n q"
    using Cons.prems by (auto split: api_call.splits driver_call.splits)
  with Cons.IH [of ?m "Suc i"] Cons.prems(1) show ?case by simp
qed simp

lemma unmapped_is_out:
  assumes "\<forall>c \<in> set cs. \<not> mapsInto p n c" and "Driver (cuMemUnmap p n) \<in> set cs"
    and "\<forall>j. status (env j (Driver (cuMemUnmap p n))) = ncclSuccess"
  shows "\<forall>(q, k) \<in> set (mappedRanges env i cs m). \<not> beginsIn p n q"
  using assms(1,2)
proof (induction cs arbitrary: i m)
  case (Cons c cs)
  show ?case
  proof (cases "c = Driver (cuMemUnmap p n)")
    case True
    have "\<forall>(q, k) \<in> set (mappedRanges env (Suc i) cs (filter (\<lambda>(q, k). \<not> beginsIn p n q) m)). \<not> beginsIn p n q"
      by (rule mapped_stays_out) (use Cons.prems(1) in auto)
    then show ?thesis using assms(3) by (simp add: True)
  next
    case False
    with Cons show ?thesis by simp
  qed
qed simp

text \<open>
  While a block grows and nothing has failed to the end: the block keeps its address, its capacity and
  its slices, and no call has mapped anything into its range.
\<close>

definition growing :: "nat \<Rightarrow> ptr \<Rightarrow> size_t \<Rightarrow> BufferSlice list \<Rightarrow> api_call list \<Rightarrow> VmmPool \<times> 'w node_world_scheme \<Rightarrow> bool" where
  "growing i a cap ss l s \<longleftrightarrow> i < length (vmmBlocks (fst s)) \<and> vmmPtr (vmmBlocks (fst s) ! i) = a \<and>
     vmmCapacity (vmmBlocks (fst s) ! i) = cap \<and> vmmSlices (vmmBlocks (fst s) ! i) = ss \<and>
     (\<exists>calls. apiLog (snd s) = l @ calls \<and> (\<forall>c \<in> set calls. \<not> mapsInto a cap c))"

lemma growing_call:
  assumes "\<not> mapsInto a cap c"
  shows "keeps (\<lambda>w. growing i a cap ss l (x, w)) (CUDACHECK env c)"
    and "keeps (\<lambda>w. growing i a cap ss l (x, w)) (NCCLCHECK env c)"
    and "keeps (\<lambda>w. growing i a cap ss l (x, w)) (ignoreC env c)"
  using assms
  by (auto simp: keeps_def growing_def CUDACHECK_def NCCLCHECK_def ignoreC_def callApi_def)

lemma growing_scalar:
  "(\<And>pool. vmmBlocks (f pool) = vmmBlocks pool) \<Longrightarrow> keeps (growing i a cap ss l) (updateC f)"
  by (rule keeps_updateC) (simp add: growing_def)

lemma growing_block:
  "(\<And>b. vmmPtr (f b) = vmmPtr b \<and> vmmCapacity (f b) = vmmCapacity b \<and> vmmSlices (f b) = vmmSlices b) \<Longrightarrow>
   keeps (growing i a cap ss l) (updateC (updateVmmBlock i f))"
  by (rule keeps_updateC) (simp add: growing_def updateVmmBlock_def)

lemma growing_wait: "keeps (growing i a cap [newSlice k 0 n] l) (waitForBlock env i)"
proof (rule keepsI)
  fix s :: "VmmPool \<times> 'a node_world_scheme"
  assume "growing i a cap [newSlice k 0 n] l s"
  moreover from this have "waitForBlock env i s = (Inr (), s)"
    by (cases s) (simp add: waitForBlock_def bindC_def growing_def newSlice_def getX_def getC_def returnC_def)
  ultimately show "growing i a cap [newSlice k 0 n] l (snd (waitForBlock env i s))" by simp
qed

lemma growing_handle: "keeps (growing i a cap ss l) (createPhysicalHandle env)"
  unfolding createPhysicalHandle_def by (intro keeps_intros growing_call growing_scalar) simp_all

lemma growing_handles: "keeps (growing i a cap ss l) (addHandles env i res n missing)"
  unfolding addHandles_def
proof (intro keeps_for keepsI)
  fix s :: "VmmPool \<times> 'a node_world_scheme" assume P: "growing i a cap ss l s"
  note k = keepsD [OF growing_handle P, of env]
  have ign: "keeps (growing i a cap ss l) (inWorld (ignoreC env (Driver (cuMemAddressFree res n))) :: (VmmPool \<times> 'a node_world_scheme, unit) comp)"
    by (intro keeps_inWorld growing_call) simp
  have upd: "keeps (growing i a cap ss l) (updateC (updateVmmBlock i (\<lambda>b. b\<lparr>vmmHandles := vmmHandles b @ [h]\<rparr>)) :: (VmmPool \<times> 'a node_world_scheme, unit) comp)" for h
    by (rule growing_block) simp
  show "growing i a cap ss l (snd (case createPhysicalHandle env s of
         (Inl e, s1) \<Rightarrow>
           (case inWorld (ignoreC env (Driver (cuMemAddressFree res n))) s1 of (_, s2) \<Rightarrow> (Inl e, s2))
       | (Inr handle, s1) \<Rightarrow>
           updateC (updateVmmBlock i (\<lambda>b. b\<lparr>vmmHandles := vmmHandles b @ [handle]\<rparr>)) s1))"
    using k by (auto simp: split_beta keepsD [OF ign] keepsD [OF upd] split: prod.splits sum.splits)
qed

lemma growing_deregister: "keeps (growing i a cap ss l) (deregisterAll env i)"
  unfolding deregisterAll_def by (intro keeps_intros growing_call growing_scalar growing_block) simp_all

lemma growing_peers: "keeps (\<lambda>w. growing i a cap ss l (x, w)) (setPeerAccess env dev p n)"
  unfolding setPeerAccess_def by (intro keeps_bind keeps_for keeps_if keeps_return growing_call) simp_all

lemma growing_destroyEvents: "keeps (\<lambda>w. growing i a cap ss l (x, w)) (destroyEvents env es)"
  unfolding destroyEvents_def by (intro keeps_for keeps_if keeps_return growing_call) simp_all

lemma chunk_outside:
  assumes "unat r + unat n \<le> 2 ^ 64" and "ranges_disjoint (unat a, unat cap) (unat r, unat n)" and "k < unat (n div c)"
  shows "\<not> beginsIn a cap (r + word_of_nat k * (c :: size_t))"
proof -
  have kd: "Suc k \<le> unat n div unat c" using assms(3) by (simp add: unat_div)
  have cpos: "0 < unat c" using kd by (cases "unat c") simp_all
  have "Suc k * unat c \<le> unat n div unat c * unat c" using kd by (rule mult_le_mono1)
  then have kc: "k * unat c < unat n" using div_times_less_eq_dividend [of "unat n" "unat c"] cpos unfolding mult_Suc by linarith
  have n64: "unat n < 2 ^ 64" by (rule unat_lt_2p64)
  have "k \<le> k * unat c" using cpos by simp
  then have k64: "k < 2 ^ 64" using kc n64 by linarith
  have uk: "unat (word_of_nat k :: size_t) = k" by (rule unat_word_of_nat_size [OF k64])
  have "unat (word_of_nat k * c) = k * unat c"
    using unat_mult_exact [of "word_of_nat k" c] kc n64 unfolding uk by linarith
  then have "unat (r + word_of_nat k * c) = unat r + k * unat c"
    using unat_add_exact [of r "word_of_nat k * c"] kc assms(1) by linarith
  then show ?thesis
    using assms(2) kc by (auto simp: beginsIn_def ranges_disjoint_def disjoint_ranges_def)
qed

lemma growBlock_growing:
  fixes p :: VmmPool and w :: "'w node_world_scheme"
  assumes i: "i < length (vmmBlocks p)" and idle: "vmmSlices (vmmBlocks p ! i) = [newSlice k 0 (vmmCapacity (vmmBlocks p ! i))]"
    and fresh: "vmmFresh env u req p" and run: "growBlock env i req (p, w) = (Inl e, s')"
  shows "growing i (vmmPtr (vmmBlocks p ! i)) (vmmCapacity (vmmBlocks p ! i)) (vmmSlices (vmmBlocks p ! i)) (apiLog w) s'"
proof -
  let ?b = "vmmBlocks p ! i" and ?cap = "alignUpTo req (chunkBytes p)"
  let ?P = "growing i (vmmPtr ?b) (vmmCapacity ?b) (vmmSlices ?b) (apiLog w) :: VmmPool \<times> 'w node_world_scheme \<Rightarrow> bool"
  let ?R = "\<lambda>r. \<exists>k g. r = outValue (env k (Driver (cuMemAddressReserve ?cap g)))"
  have res: "?R r" if "inWorld (CUDACHECK env (Driver (cuMemAddressReserve ?cap g))) s = (Inr r, s')" for g r and s s' :: "VmmPool \<times> 'w node_world_scheme"
    using that by (auto simp: inWorld_def CUDACHECK_def callApi_def split: if_splits)
  have "vmmView ?b \<in> set (vmmViews p)" using i by (simp add: vmmViews_def)
  have apart: "\<not> beginsIn (vmmPtr ?b) (vmmCapacity ?b) (r + word_of_nat k * chunkBytes p)"
    if "?R r" and "k < unat (?cap div chunkBytes p)" for r k
  proof -
    have "unat r + unat ?cap \<le> 2 ^ 64 \<and> (\<forall>q \<in> set (map block_range (vmmViews p)). ranges_disjoint q (unat r, unat ?cap))"
      using that(1) fresh unfolding vmmFresh_def Let_def by blast
    moreover have "(unat (vmmPtr ?b), unat (vmmCapacity ?b)) \<in> set (map block_range (vmmViews p))"
      using \<open>vmmView ?b \<in> set (vmmViews p)\<close> by (force simp: block_range_def)
    ultimately show ?thesis using that(2) by (intro chunk_outside [of _ ?cap]) auto
  qed
  have run1: "growBlock env i req (p, w) = growFrom env i req p (p, w)"
    by (simp add: growBlock_def bindC_def getX_def getC_def)
  have "upto ?P (\<lambda>_. True) (growFrom env i req p :: (VmmPool \<times> 'w node_world_scheme, unit) comp)"
    unfolding growFrom_def Let_def idle
    apply (rule upto_seq, intro keeps_inWorld growing_call, simp)
    apply (rule upto_seq, rule growing_wait)
    apply (rule upto_bind [where R = ?R], intro keeps_inWorld growing_call, simp)
     apply (rule res, simp)
    apply (intro upto_seq upto_modify growing_handles growing_deregister keeps_for keeps_bind keeps_inWorld keeps_getX
        keeps_return growing_peers growing_destroyEvents growing_call)
        apply (simp_all add: apart)
    done
  moreover have "?P (p, w)" using i by (simp add: growing_def)
  ultimately show ?thesis using run unfolding upto_def run1 by fastforce
qed

text \<open>
  C8: a growth that fails after the old range was unmapped leaves the block in the pool with its old
  address. Take any idle block, any environment that answers \<^verbatim>\<open>cuMemUnmap\<close> of its range with success and
  reserves addresses apart from the blocks, and a growth that issues that unmapping and then fails.
  Afterwards every request that fits the block is served from it, at the block's old address, where
  nothing is mapped any more.
\<close>

theorem failed_growth_hands_out_unmapped:
  assumes "i < length (vmmBlocks p)" and "vmmBlocks p ! i = b" and "vmmSlices b = [newSlice k 0 (vmmCapacity b)]"
    and "vmmFresh env () req p"
    and "growBlock env i req (p, w) = (Inl e, p', w')"
    and "Driver (cuMemUnmap (vmmPtr b) (vmmCapacity b)) \<in> set (drop (logLen w) (apiLog w'))"
    and "\<forall>j. status (env j (Driver (cuMemUnmap (vmmPtr b) (vmmCapacity b)))) = ncclSuccess"
    and "bytes \<le> vmmCapacity b"
  shows "\<exists>h s'. vmmAcquireFromBlock env i bytes nullptr strm (p', w') = (Some (Inr h), s') \<and>
    handlePtr h = vmmPtr b \<and> (i = 0 \<longrightarrow> vmmAcquire env () nullptr bytes strm (p', w') = (Inr h, s')) \<and>
    (\<forall>(q, n) \<in> set (mappedRanges env (logLen w) (drop (logLen w) (apiLog w')) m).
       \<not> beginsIn (vmmPtr b) (vmmCapacity b) q)"
proof -
  have idle: "vmmSlices (vmmBlocks p ! i) = [newSlice k 0 (vmmCapacity (vmmBlocks p ! i))]" using assms(2,3) by simp
  have g: "growing i (vmmPtr b) (vmmCapacity b) [newSlice k 0 (vmmCapacity b)] (apiLog w) (p', w')"
    using growBlock_growing [OF assms(1) idle assms(4,5)] assms(2,3) by simp
  then obtain calls where calls: "apiLog w' = apiLog w @ calls" "\<forall>c \<in> set calls. \<not> mapsInto (vmmPtr b) (vmmCapacity b) c"
    by (auto simp: growing_def)
  have out: "\<forall>(q, n) \<in> set (mappedRanges env (logLen w) (drop (logLen w) (apiLog w')) m). \<not> beginsIn (vmmPtr b) (vmmCapacity b) q"
    by (rule unmapped_is_out) (use assms(6,7) calls in simp_all)
  obtain c ts where acq: "acquireSlice env strm True bytes (nextNode w') [newSlice k 0 (vmmCapacity b)] w' = (Some c, ts, w')"
      "sliceOffset c = 0"
    using acquireSlice_fresh_at [OF assms(8)] by blast
  let ?p1 = "updateVmmBlock i (\<lambda>b. b\<lparr>vmmSlices := ts\<rparr>) p'"
  obtain h s' where h: "vmmAcquireFromBlock env i bytes nullptr strm (p', w') = (Some (Inr h), s')" "handlePtr h = vmmPtr b"
    using g acq by (auto simp: vmmAcquireFromBlock_def vmmEnsureRegistration_def growing_def Let_def bindC_def getX_def getC_def returnC_def)
  have "vmmAcquire env () nullptr bytes strm (p', w') = (Inr h, s')" if "i = 0"
    using h(1) g that by (simp add: vmmAcquire_def growing_def upt_conv_Cons)
  with h out show ?thesis by blast
qed

text \<open>A block of one chunk at address 4096, and a driver whose second mapping fails.\<close>

definition growPool :: VmmPool where
  "growPool = \<lparr>vmmOwner = 16, vmmPoolDev = 0, vmmCuDev = 0, granularity = 256, chunkBytes = 256,
     virtualBytes = 256, physicalBytes = 256, vmmRegisteredBytes = 0, gpuDirectRdma = False,
     vmmBlocks = [\<lparr>vmmNode = 0, vmmDev = 0, vmmPtr = 4096, vmmCapacity = 256, vmmHandles = [1],
       vmmSlices = [newSlice 1 0 256], vmmRegistrations = []\<rparr>]\<rparr>"

definition growEnv :: api_env where
  "growEnv = (\<lambda>i c. case c of
      Driver (cuMemMap p n h) \<Rightarrow> \<lparr>status = (if h = 1 then ncclSuccess else ncclUnhandledCudaError), outValue = 0\<rparr>
    | _ \<Rightarrow> \<lparr>status = ncclSuccess, outValue = 65536\<rparr>)"

theorem failed_growth_hands_out_unmapped_witness:
  "\<exists>e s h s'. growBlock growEnv 0 512 (growPool, exampleNodes 2) = (Inl e, s) \<and>
     vmmAcquire growEnv () nullptr 256 1 s = (Inr h, s') \<and> handlePtr h = 4096 \<and>
     (\<forall>(q, n) \<in> set (mappedRanges growEnv 0 (apiLog (snd s)) [(4096, 256)]). \<not> beginsIn 4096 256 q)"
proof -
  let ?run = "growBlock growEnv 0 512 (growPool, exampleNodes 2)"
  have "(case ?run of (Inl e, s) \<Rightarrow> Driver (cuMemUnmap 4096 256) \<in> set (apiLog (snd s)) | _ \<Rightarrow> False) = True" by code_simp
  then obtain e p' w' where run: "?run = (Inl e, p', w')" "Driver (cuMemUnmap 4096 256) \<in> set (apiLog w')"
    by (auto split: prod.splits sum.splits)
  have al: "alignUpTo 512 256 = 512" by code_simp
  have fresh: "vmmFresh growEnv () 512 growPool"
    by (simp add: vmmFresh_def growPool_def al growEnv_def vmmViews_def block_range_def ranges_disjoint_def disjoint_ranges_def)
  have "\<exists>h s'. vmmAcquireFromBlock growEnv 0 256 nullptr 1 (p', w') = (Some (Inr h), s') \<and> handlePtr h = 4096 \<and>
     (0 = (0 :: nat) \<longrightarrow> vmmAcquire growEnv () nullptr 256 1 (p', w') = (Inr h, s')) \<and>
     (\<forall>(q, n) \<in> set (mappedRanges growEnv 0 (apiLog w') [(4096, 256)]). \<not> beginsIn 4096 256 q)"
    using failed_growth_hands_out_unmapped [of 0 growPool "vmmBlocks growPool ! 0" 1 growEnv 512 "exampleNodes 2" e p' w'
      256 1 "[(4096, 256)]"] fresh run
    by (simp add: growPool_def exampleNodes_def growEnv_def)
  with run show ?thesis by fastforce
qed

end
