(* ===== verification/Compressor_Abi.thy ===== *)
theory Compressor_Abi
  imports Coccl_Prelude
begin

text \<open>
  The compressor plugin contract of \<^verbatim>\<open>include/compressor_plugin/detail/coccl_compressor_abi.h\<close> and
  the host-side queries over it: descriptor validation, capability tests and the encoded-size
  bound of \<^verbatim>\<open>core/compression/coccl_compressor_size.cc\<close>. The plugin's own code is a shared library:
  its callbacks are fields of the descriptor record, so every theorem holds for any plugin.
\<close>

unbundle bit_operations_syntax

section \<open>Descriptors\<close>

datatype cocclCompressorOperation =
  OperationCompress | OperationDecompress | OperationDecompressReduce
| OperationDecompressReduceCompress

definition COCCL_COMPRESSOR_ABI_VERSION :: "32 word" where
  "COCCL_COMPRESSOR_ABI_VERSION = 8"

definition COCCL_COMPRESSOR_RAW_PASSTHROUGH :: ncclDataType_t where
  "COCCL_COMPRESSOR_RAW_PASSTHROUGH = ncclUint8"

type_synonym capability = "64 word"

definition cocclCompressorCapabilityCompress :: capability where
  "cocclCompressorCapabilityCompress = push_bit 0 1"
definition cocclCompressorCapabilityDecompress :: capability where
  "cocclCompressorCapabilityDecompress = push_bit 1 1"
definition cocclCompressorCapabilityDecompressReduce :: capability where
  "cocclCompressorCapabilityDecompressReduce = push_bit 2 1"
definition cocclCompressorCapabilityDecompressReduceCompress :: capability where
  "cocclCompressorCapabilityDecompressReduceCompress = push_bit 3 1"
definition cocclCompressorCapabilityFramed :: capability where
  "cocclCompressorCapabilityFramed = push_bit 4 1"
definition cocclCompressorCapabilityFusedHierarchicalSwizzle :: capability where
  "cocclCompressorCapabilityFusedHierarchicalSwizzle = push_bit 5 1"
definition cocclCompressorCapabilityBytewiseLossless :: capability where
  "cocclCompressorCapabilityBytewiseLossless = push_bit 6 1"

definition COCCL_COMPRESSOR_REQUIRED_CAPABILITIES :: capability where
  "COCCL_COMPRESSOR_REQUIRED_CAPABILITIES =
     cocclCompressorCapabilityCompress OR cocclCompressorCapabilityDecompress"

lemmas capability_defs =
  cocclCompressorCapabilityCompress_def cocclCompressorCapabilityDecompress_def
  cocclCompressorCapabilityDecompressReduce_def
  cocclCompressorCapabilityDecompressReduceCompress_def cocclCompressorCapabilityFramed_def
  cocclCompressorCapabilityFusedHierarchicalSwizzle_def
  cocclCompressorCapabilityBytewiseLossless_def COCCL_COMPRESSOR_REQUIRED_CAPABILITIES_def

text \<open>Frame metadata is a 16-byte wire record.\<close>

record cocclCompressorFrameMetadata =
  payloadBytes :: "64 word"
  encoding :: "32 word"
  reserved :: "32 word"

definition sizeof_frameMetadata :: size_t where
  "sizeof_frameMetadata = 16"

definition cocclCompressorFrameEncoded :: "32 word" where
  "cocclCompressorFrameEncoded = 0"
definition cocclCompressorFrameRaw :: "32 word" where
  "cocclCompressorFrameRaw = 1"

record cocclCompressorView =
  viewData :: ptr
  viewCapacityBytes :: size_t
  viewBytes :: size_t
  viewElements :: size_t
  viewChunks :: size_t
  viewDatatype :: ncclDataType_t
  viewFrameMetadata :: ptr
  viewFrameStrideBytes :: size_t

text \<open>
  The host callbacks (\<^verbatim>\<open>cocclCompressorHostApi\<close>) a plugin may call while it runs: \<open>host_request\<close>
  below. The execution context keeps the values the plugin reads.
\<close>

record cocclCompressorExecutionContext =
  runStream :: ptr
  runDev :: int
  runRank :: int
  runRanks :: int
  runNodes :: int
  runDevicesPerNode :: int

record cocclCompressorCall =
  callOperation :: cocclCompressorOperation
  callInput :: cocclCompressorView
  callOutput :: cocclCompressorView
  callRank :: int
  callReduceChunks :: size_t
  originalDatatype :: ncclDataType_t
  originalElements :: size_t
  callConfig :: ptr
  callExecution :: cocclCompressorExecutionContext

record cocclCompressorSizeQuery =
  queryOperation :: cocclCompressorOperation
  queryElements :: size_t
  queryChunks :: size_t
  queryDatatype :: ncclDataType_t
  queryConfig :: ptr

text \<open>
  One run of a plugin's \<^verbatim>\<open>execute\<close>, as the host sees it: the plugin returns a result code and the
  output view it wrote, or asks the host for scratch memory, for the persistent buffer of a slot or
  for a state object (with what its own constructor would return and the address of its destructor),
  and goes on with the reply, a result code, an address and a byte count.
\<close>

datatype host_request =
  AllocateScratch size_t | AcquirePersistent size_t size_t | GetOrCreateState ptr "ncclResult_t \<times> ptr" ptr

type_synonym host_reply = "ncclResult_t \<times> ptr \<times> size_t"

datatype plugin_run =
  PluginReturn ncclResult_t cocclCompressorView
| PluginRequest host_request "host_reply \<Rightarrow> plugin_run"

text \<open>A plugin callback is \<open>None\<close> when its function pointer is null.\<close>

record cocclCompressorPlugin =
  abiVersion :: "32 word"
  structSize :: "32 word"
  pluginName :: "string option"
  capabilities :: "64 word"
  execute :: "(cocclCompressorCall \<Rightarrow> plugin_run) option"
  parseConfig :: "((string \<times> string) list \<Rightarrow> int \<Rightarrow> int \<Rightarrow> ncclResult_t \<times> ptr) option"
  destroyConfig :: "bool"
  getEncodedSizeBound :: "(cocclCompressorSizeQuery \<Rightarrow> ncclResult_t \<times> size_t) option"

text \<open>Two 32-bit fields, the name, the capability mask and four function pointers.\<close>

definition sizeof_plugin :: "32 word" where
  "sizeof_plugin = 4 + 4 + 8 + 8 + 4 * 8"

text \<open>
  Validation of a descriptor: the verdict, and the message left in the caller's buffer
  (\<open>errorCapacity\<close> is \<open>None\<close> for a null buffer).
\<close>

definition cocclValidateCompressorPlugin ::
  "string option \<Rightarrow> cocclCompressorPlugin option \<Rightarrow> size_t option \<Rightarrow> bool \<times> string option" where
  "cocclValidateCompressorPlugin expectedName plugin errorCapacity =
     (case plugin of
        None \<Rightarrow> (False, snprintf errorCapacity ''entry returned a null descriptor'')
      | Some p \<Rightarrow>
          if abiVersion p \<noteq> COCCL_COMPRESSOR_ABI_VERSION
          then (False, snprintf errorCapacity (''compressor ABI v'' @ decimal (unat (abiVersion p)) @
                  '' is unsupported; runtime requires v'' @
                  decimal (unat COCCL_COMPRESSOR_ABI_VERSION)))
          else if structSize p \<noteq> sizeof_plugin
          then (False, snprintf errorCapacity ''compressor descriptor size mismatch'')
          else if pluginName p = None \<or> expectedName = None \<or> pluginName p \<noteq> expectedName
          then (False, snprintf errorCapacity ''compressor descriptor name mismatch'')
          else if capabilities p AND COCCL_COMPRESSOR_REQUIRED_CAPABILITIES
                 \<noteq> COCCL_COMPRESSOR_REQUIRED_CAPABILITIES
          then (False, snprintf errorCapacity
                  ''compressor is missing compress or decompress capability'')
          else if execute p = None \<or> parseConfig p = None \<or> \<not> destroyConfig p
          then (False, snprintf errorCapacity
                  ''compressor descriptor is missing a required callback'')
          else (True, None))"

section \<open>Policies and capability tests\<close>

text \<open>
  A compressor handle is the address of a \<^verbatim>\<open>CompressorPolicy\<close>. The objects live in a store,
  a function from addresses to policies; a null handle is never dereferenced.
\<close>

record CompressorPolicy =
  plugin :: cocclCompressorPlugin
  config :: ptr
  thresholdBytes :: size_t

type_synonym compressor_store = "ptr \<Rightarrow> CompressorPolicy"

definition cocclCompressorSupports :: "compressor_store \<Rightarrow> ptr \<Rightarrow> capability \<Rightarrow> bool" where
  "cocclCompressorSupports cs compressor capability \<longleftrightarrow>
     compressor \<noteq> nullptr \<and> capabilities (plugin (cs compressor)) AND capability \<noteq> 0"

definition cocclQueryCompressorEncodedSizeBound ::
  "cocclCompressorPlugin option \<Rightarrow> ptr \<Rightarrow> cocclCompressorOperation \<Rightarrow> size_t \<Rightarrow> size_t \<Rightarrow>
   ncclDataType_t \<Rightarrow> size_t \<Rightarrow> ncclResult_t \<times> size_t" where
  "cocclQueryCompressorEncodedSizeBound plug conf oper elems chnks dtype encodedBytes =
     (if plug = None \<or> elems = 0 \<or> chnks = 0 \<or> elems mod chnks \<noteq> 0 \<or>
         (oper \<noteq> OperationCompress \<and> oper \<noteq> OperationDecompressReduceCompress)
      then (ncclInvalidArgument, encodedBytes)
      else
        let typeBytes = ncclTypeSize dtype in
        if typeBytes \<le> 0 \<or> elems > SIZE_MAX div size_of_int typeBytes
        then (ncclInvalidArgument, encodedBytes)
        else
          let rawBytes = elems * size_of_int typeBytes in
          (case getEncodedSizeBound (the plug) of
             None \<Rightarrow> (ncclSuccess, rawBytes)
           | Some bound \<Rightarrow>
               let (result, pluginBytes) =
                 bound \<lparr>queryOperation = oper, queryElements = elems, queryChunks = chnks,
                        queryDatatype = dtype, queryConfig = conf\<rparr> in
               if result = ncclInvalidUsage then (ncclSuccess, rawBytes)
               else if result \<noteq> ncclSuccess then (result, rawBytes)
               else if pluginBytes = 0 then (ncclInvalidArgument, rawBytes)
               else if pluginBytes mod chnks \<noteq> 0 then (ncclInvalidUsage, rawBytes)
               else (ncclSuccess, pluginBytes)))"

definition cocclGetCompressorEncodedSizeBound ::
  "compressor_store \<Rightarrow> ptr \<Rightarrow> cocclCompressorOperation \<Rightarrow> size_t \<Rightarrow> size_t \<Rightarrow> ncclDataType_t \<Rightarrow>
   size_t \<Rightarrow> ncclResult_t \<times> size_t" where
  "cocclGetCompressorEncodedSizeBound cs compressor oper elems chnks dtype encodedBytes =
     (if compressor = nullptr then (ncclInvalidUsage, encodedBytes)
      else cocclQueryCompressorEncodedSizeBound (Some (plugin (cs compressor)))
             (config (cs compressor)) oper elems chnks dtype encodedBytes)"

section \<open>Facts\<close>

lemma cocclCompressorSupports_null [simp]: "\<not> cocclCompressorSupports cs nullptr c"
  by (simp add: cocclCompressorSupports_def)

lemma unat_typeBytes:
  assumes "0 < ncclTypeSize t"
  shows "unat (size_of_int (ncclTypeSize t)) = nat (ncclTypeSize t)"
  using ncclTypeSize_le [of t] assms by (simp add: unat_size_of_int)

text \<open>The overflow guard of the code: the product of two sizes is exact.\<close>

lemma div_guard_exact:
  assumes "b \<noteq> 0" and "\<not> a > SIZE_MAX div b"
  shows "unat ((a :: size_t) * b) = unat a * unat b"
proof (rule unat_mult_exact)
  have b: "0 < unat b" using assms(1) by (simp add: unat_gt_0)
  have "unat a \<le> (2 ^ 64 - 1) div unat b"
    using assms(2) by (simp add: word_less_nat_alt unat_div_size not_less)
  then have "unat a * unat b \<le> (2 ^ 64 - 1) div unat b * unat b"
    by (rule mult_le_mono1)
  also have "\<dots> \<le> 2 ^ 64 - 1" by (rule div_times_less_eq_dividend)
  finally show "unat a * unat b < 2 ^ 64" by simp
qed

lemma div_guard_iff:
  assumes "b \<noteq> 0"
  shows "(a :: size_t) > SIZE_MAX div b \<longleftrightarrow> unat a * unat b \<ge> 2 ^ 64"
proof
  have b: "0 < unat b" using assms by (simp add: unat_gt_0)
  assume "a > SIZE_MAX div b"
  then have "(2 ^ 64 - 1) div unat b < unat a"
    by (simp add: word_less_nat_alt unat_div_size)
  then have "2 ^ 64 - 1 < unat a * unat b"
    using b by (simp add: div_less_iff_less_mult)
  then show "unat a * unat b \<ge> 2 ^ 64" by simp
next
  assume "unat a * unat b \<ge> 2 ^ 64"
  moreover have "unat (a * b) < 2 ^ 64" by (rule unat_lt_2p64)
  ultimately show "a > SIZE_MAX div b"
    using div_guard_exact [OF assms, of a] by (metis not_le)
qed

lemma rawBytes_exact:
  assumes "0 < ncclTypeSize t" and "\<not> elems > SIZE_MAX div size_of_int (ncclTypeSize t)"
  shows "unat (elems * size_of_int (ncclTypeSize t)) = unat elems * nat (ncclTypeSize t)"
proof -
  have "size_of_int (ncclTypeSize t) \<noteq> 0"
    using unat_typeBytes [OF assms(1)] assms(1) by auto
  from div_guard_exact [OF this assms(2)] show ?thesis
    by (simp add: unat_typeBytes assms(1))
qed

text \<open>
  A successful size query returns a positive bound that splits evenly over the chunks, whatever
  the plugin answers.
\<close>

lemma query_success_shape:
  assumes "cocclQueryCompressorEncodedSizeBound plug conf oper elems chnks dtype b0
             = (ncclSuccess, encodedBytes)"
  shows "0 < unat encodedBytes \<and> unat chnks dvd unat encodedBytes \<and> 0 < unat chnks"
proof -
  let ?raw = "elems * size_of_int (ncclTypeSize dtype)"
  have pre: "elems \<noteq> 0" "chnks \<noteq> 0" "elems mod chnks = 0" "0 < ncclTypeSize dtype"
    "\<not> elems > SIZE_MAX div size_of_int (ncclTypeSize dtype)"
    using assms by (auto simp: cocclQueryCompressorEncodedSizeBound_def Let_def split: if_splits)
  have "unat (elems mod chnks) = 0" by (simp only: pre(3) unsigned_0)
  then have "unat chnks dvd unat elems" by (simp add: unat_mod_size dvd_eq_mod_eq_0)
  moreover have "0 < unat elems" using pre(1) by (simp add: unat_gt_0)
  ultimately have raw: "0 < unat ?raw \<and> unat chnks dvd unat ?raw"
    using rawBytes_exact [OF pre(4,5)] pre(4) by simp
  have plug: "b \<noteq> 0 \<Longrightarrow> b mod chnks = 0 \<Longrightarrow> 0 < unat b \<and> unat chnks dvd unat b" for b
    by (metis unat_gt_0 unat_mod_size dvd_eq_mod_eq_0 unsigned_0)
  have "encodedBytes = ?raw \<or> (encodedBytes \<noteq> 0 \<and> encodedBytes mod chnks = 0)"
  proof (cases "getEncodedSizeBound (the plug)")
    case None
    with assms pre show ?thesis
      by (simp add: cocclQueryCompressorEncodedSizeBound_def Let_def split: if_splits)
  next
    case (Some bound)
    obtain result pluginBytes where "bound \<lparr>queryOperation = oper, queryElements = elems,
        queryChunks = chnks, queryDatatype = dtype, queryConfig = conf\<rparr> = (result, pluginBytes)"
      by fastforce
    with Some assms pre show ?thesis
      by (simp add: cocclQueryCompressorEncodedSizeBound_def Let_def split: if_splits)
  qed
  then show ?thesis
  proof
    assume "encodedBytes = ?raw"
    with raw pre(2) show ?thesis by (simp add: unat_gt_0)
  next
    assume "encodedBytes \<noteq> 0 \<and> encodedBytes mod chnks = 0"
    with plug [of encodedBytes] pre(2) show ?thesis by (simp add: unat_gt_0)
  qed
qed

end
