(* ===== verification/Compressor_Runtime.thy ===== *)
theory Compressor_Runtime
  imports Compressor_Abi Config_Types Buffer_Management
begin

text \<open>
  The compressor runtime, \<^verbatim>\<open>core/compression/coccl_compressor.cc\<close>: plugin loading, the table of
  policies, the resources a plugin holds per device, execution of a plugin and the reference counts
  of the devices; and the four entry points of \<^verbatim>\<open>core/compression/compress.cc\<close>.
\<close>

section \<open>State\<close>

datatype cocclTrainingRole =
  TrainingRoleUnknown | TrainingRoleDataParallel | TrainingRolePipelineParallel
| TrainingRoleTensorParallel | TrainingRoleCount

record PersistentBuffer =
  persistentData :: ptr
  persistentBytes :: size_t

text \<open>A state object with the address of its destructor, null until a constructor has succeeded.\<close>

record StateEntry =
  stateData :: ptr
  stateDestroy :: ptr

text \<open>\<^verbatim>\<open>std::map\<close> fields that are iterated are lists of pairs in key order.\<close>

record DeviceResources =
  persistent :: "(size_t \<times> PersistentBuffer) list"
  pluginStates :: "(ptr \<times> StateEntry) list"
  scratchPeakBytes :: size_t

definition emptyResources :: DeviceResources where
  "emptyResources = \<lparr>persistent = [], pluginStates = [], scratchPeakBytes = 0\<rparr>"

text \<open>
  The file's static variables. A policy is an address of the store; \<open>policyResources\<close> are the
  \<^verbatim>\<open>resources\<close> of each policy by device. In the table the null pointer is "no policy".
\<close>

record compressor_world = node_world +
  runtimeInitialized :: bool
  runtimeInitResult :: ncclResult_t
  runtimeHasPolicies :: bool
  runtimeRanks :: int
  runtimeNodes :: int
  runtimeDevicesPerNode :: int
  rankByDevice :: "int \<rightharpoonup> int"
  communicatorsByDevice :: "int \<rightharpoonup> size_t"
  loadedPlugins :: "string \<rightharpoonup> cocclCompressorPlugin"
  ownedPolicies :: "ptr list"
  policyStore :: compressor_store
  policyResources :: "ptr \<Rightarrow> int \<rightharpoonup> DeviceResources"
  policyTable :: "cocclTrainingRole \<Rightarrow> cocclPolicyVariant \<Rightarrow> cocclOperation \<Rightarrow> cocclCompressionScope \<Rightarrow> ptr"

text \<open>\<^verbatim>\<open>map[key]\<close> for writing: the entry is replaced, or inserted in key order.\<close>

fun assocPut :: "'k :: linorder \<Rightarrow> 'v \<Rightarrow> ('k \<times> 'v) list \<Rightarrow> ('k \<times> 'v) list" where
  "assocPut k v [] = [(k, v)]"
| "assocPut k v ((j, u) # xs) =
     (if j = k then (k, v) # xs else if k < j then (k, v) # (j, u) # xs else (j, u) # assocPut k v xs)"

lemma assocPut_lookup: "map_of (assocPut k v xs) j = (if j = k then Some v else map_of xs j)"
  by (induction k v xs rule: assocPut.induct) auto

definition resourcesOf :: "'w compressor_world_scheme \<Rightarrow> ptr \<Rightarrow> int \<Rightarrow> DeviceResources" where
  "resourcesOf w policy dev = (case policyResources w policy dev of None \<Rightarrow> emptyResources | Some r \<Rightarrow> r)"

definition putResources :: "ptr \<Rightarrow> int \<Rightarrow> DeviceResources \<Rightarrow> 'w compressor_world_scheme \<Rightarrow> 'w compressor_world_scheme" where
  "putResources policy dev r w = w\<lparr>policyResources := (policyResources w)(policy := (policyResources w policy)(dev \<mapsto> r))\<rparr>"

section \<open>Host callbacks\<close>

record ExecutionResources =
  execPolicy :: ptr
  execDev :: int
  execStream :: ptr
  scratch :: "ptr list"
  scratchBytes :: size_t

definition allocateScratch ::
  "api_env \<Rightarrow> size_t \<Rightarrow> ExecutionResources \<times> 'w compressor_world_scheme \<Rightarrow>
   host_reply \<times> ExecutionResources \<times> 'w compressor_world_scheme" where
  "allocateScratch env bytes s =
     (let (execution, w) = s; (r, w1) = callApi env (CudaMemory (cudaMallocAsync bytes (execStream execution))) w in
      if status r \<noteq> ncclSuccess then ((ncclUnhandledCudaError, nullptr, 0), execution, w1)
      else ((ncclSuccess, outValue r, bytes),
            execution\<lparr>scratch := scratch execution @ [outValue r], scratchBytes := scratchBytes execution + bytes\<rparr>, w1))"

text \<open>
  \<^verbatim>\<open>operator[]\<close> creates the slot. When the buffer must grow, the old memory is freed first; if the
  new allocation fails the slot keeps the freed address and its old size.
\<close>

definition acquirePersistent ::
  "api_env \<Rightarrow> size_t \<Rightarrow> size_t \<Rightarrow> ExecutionResources \<times> 'w compressor_world_scheme \<Rightarrow>
   host_reply \<times> ExecutionResources \<times> 'w compressor_world_scheme" where
  "acquirePersistent env slot bytes s =
     (let (execution, w) = s; policy = execPolicy execution; dev = execDev execution;
          res = resourcesOf w policy dev;
          entry = (case map_of (persistent res) slot of
                     None \<Rightarrow> \<lparr>persistentData = nullptr, persistentBytes = 0\<rparr> | Some e \<Rightarrow> e);
          put = (\<lambda>e. putResources policy dev (res\<lparr>persistent := assocPut slot e (persistent res)\<rparr>));
          w0 = put entry w in
      if bytes > persistentBytes entry
      then
        let (freed, w1) =
              (if persistentData entry \<noteq> nullptr
               then (let (r, w1) = callApi env (CudaMemory (cudaFree (persistentData entry))) w0 in
                     (status r = ncclSuccess, w1))
               else (True, w0)) in
        if \<not> freed then ((ncclUnhandledCudaError, nullptr, 0), execution, w1)
        else
          let (r, w2) = callApi env (CudaMemory (cudaMalloc bytes)) w1 in
          if status r \<noteq> ncclSuccess then ((ncclUnhandledCudaError, nullptr, 0), execution, w2)
          else ((ncclSuccess, outValue r, bytes), execution,
                put \<lparr>persistentData = outValue r, persistentBytes = bytes\<rparr> w2)
      else ((ncclSuccess, persistentData entry, persistentBytes entry), execution, w0))"

text \<open>
  \<^verbatim>\<open>operator[]\<close> creates the entry. The constructor writes the entry's \<^verbatim>\<open>data\<close> also when it fails, and then
  \<^verbatim>\<open>destroy\<close> is not set.
\<close>

definition getOrCreateState ::
  "ptr \<Rightarrow> ncclResult_t \<times> ptr \<Rightarrow> ptr \<Rightarrow> ExecutionResources \<times> 'w compressor_world_scheme \<Rightarrow>
   host_reply \<times> ExecutionResources \<times> 'w compressor_world_scheme" where
  "getOrCreateState typeKey create destroyState s =
     (let (execution, w) = s; policy = execPolicy execution; dev = execDev execution;
          res = resourcesOf w policy dev;
          entry = (case map_of (pluginStates res) typeKey of
                     None \<Rightarrow> \<lparr>stateData = nullptr, stateDestroy = nullptr\<rparr> | Some e \<Rightarrow> e);
          put = (\<lambda>e. putResources policy dev (res\<lparr>pluginStates := assocPut typeKey e (pluginStates res)\<rparr>)) in
      if stateData entry = nullptr
      then let entry1 = entry\<lparr>stateData := snd create\<rparr> in
           if nccl_ok (fst create)
           then ((ncclSuccess, stateData entry1, 0), execution, put (entry1\<lparr>stateDestroy := destroyState\<rparr>) w)
           else ((fst create, nullptr, 0), execution, put entry1 w)
      else ((ncclSuccess, stateData entry, 0), execution, put entry w))"

definition hostApi ::
  "api_env \<Rightarrow> host_request \<Rightarrow> ExecutionResources \<times> 'w compressor_world_scheme \<Rightarrow>
   host_reply \<times> ExecutionResources \<times> 'w compressor_world_scheme" where
  "hostApi env request s =
     (case request of
        AllocateScratch bytes \<Rightarrow> allocateScratch env bytes s
      | AcquirePersistent slot bytes \<Rightarrow> acquirePersistent env slot bytes s
      | GetOrCreateState typeKey create destroyState \<Rightarrow> getOrCreateState typeKey create destroyState s)"

text \<open>The plugin runs, calling back into the host.\<close>

primrec runPlugin ::
  "api_env \<Rightarrow> plugin_run \<Rightarrow> ExecutionResources \<times> 'w compressor_world_scheme \<Rightarrow>
   (ncclResult_t \<times> cocclCompressorView) \<times> ExecutionResources \<times> 'w compressor_world_scheme" where
  "runPlugin env (PluginReturn result out) s = ((result, out), s)"
| "runPlugin env (PluginRequest request next) s = (case hostApi env request s of (reply, s') \<Rightarrow> runPlugin env (next reply) s')"

section \<open>Execution\<close>

definition rankForDevice :: "int \<Rightarrow> 'w compressor_world_scheme \<Rightarrow> int" where
  "rankForDevice dev w = (case rankByDevice w dev of None \<Rightarrow> 0 | Some r \<Rightarrow> r)"

text \<open>Scratch memory goes back to the stream's pool; a failure to do so is reported when nothing else failed.\<close>

fun freeScratch :: "api_env \<Rightarrow> ptr \<Rightarrow> ptr list \<Rightarrow> ncclResult_t \<Rightarrow> 'w api_world_scheme \<Rightarrow> ncclResult_t \<times> 'w api_world_scheme" where
  "freeScratch env strm [] result w = (result, w)"
| "freeScratch env strm (p # ps) result w =
     (let (r, w1) = callApi env (CudaMemory (cudaFreeAsync p strm)) w in
      freeScratch env strm ps
        (if result = ncclSuccess \<and> status r \<noteq> ncclSuccess then ncclUnhandledCudaError else result) w1)"

text \<open>
  \<^verbatim>\<open>execute\<close>: the result code and the output view. A loaded plugin has the callback (it was validated).
\<close>

definition executePolicy ::
  "api_env \<Rightarrow> ptr \<Rightarrow> cocclCompressorCall \<Rightarrow> int \<Rightarrow> ptr \<Rightarrow> 'w compressor_world_scheme \<Rightarrow>
   (ncclResult_t \<times> cocclCompressorView) \<times> 'w compressor_world_scheme" where
  "executePolicy env policy call rnk strm w =
     (let (r, w0) = callApi env (Cuda cudaGetDevice) w in
      if status r \<noteq> ncclSuccess then ((ncclUnhandledCudaError, callOutput call), w0)
      else
        let dev = sint (outValue r);
            execution = \<lparr>runStream = strm, runDev = dev, runRank = rnk, runRanks = runtimeRanks w0,
              runNodes = runtimeNodes w0, runDevicesPerNode = runtimeDevicesPerNode w0\<rparr>;
            call' = call\<lparr>callConfig := config (policyStore w0 policy), callExecution := execution\<rparr> in
        case execute (plugin (policyStore w0 policy)) of
          None \<Rightarrow> ((ncclInternalError, callOutput call), w0)
        | Some run \<Rightarrow>
            let ((result, out), (resources, w1)) =
                  runPlugin env (run call') (\<lparr>execPolicy = policy, execDev = dev, execStream = strm,
                    scratch = [], scratchBytes = 0\<rparr>, w0);
                device = resourcesOf w1 policy dev;
                w2 = (if scratchBytes resources \<noteq> 0
                      then putResources policy dev (if scratchBytes resources > scratchPeakBytes device
                             then device\<lparr>scratchPeakBytes := scratchBytes resources\<rparr> else device) w1
                      else w1);
                (result', w3) = freeScratch env strm (scratch resources) result w2 in
            ((result', out), w3))"

definition validateEncodedOutput :: "cocclCompressorView \<Rightarrow> size_t \<Rightarrow> ncclResult_t" where
  "validateEncodedOutput out expectedChunks =
     (let typeBytes = size_of_int (ncclTypeSize (viewDatatype out)) in
      if viewData out = nullptr \<or> viewChunks out \<noteq> expectedChunks \<or> viewChunks out = 0 \<or>
         viewElements out mod viewChunks out \<noteq> 0 \<or>
         (viewDatatype out \<noteq> ncclInt8 \<and> viewDatatype out \<noteq> COCCL_COMPRESSOR_RAW_PASSTHROUGH) \<or>
         typeBytes = 0 \<or> viewElements out * typeBytes \<noteq> viewBytes out \<or>
         viewBytes out > viewCapacityBytes out
      then ncclInvalidUsage else ncclSuccess)"

text \<open>
  \<open>out\<close> is the view the caller passes, the result holds the view afterwards; a null \<open>compressor\<close> is
  the null address. Division by a zero \<open>reduceChunks\<close> does not occur: only callers with chunks use
  that operation.
\<close>

definition cocclExecuteCompressor ::
  "api_env \<Rightarrow> ptr \<Rightarrow> cocclCompressorOperation \<Rightarrow> cocclCompressorView \<Rightarrow> cocclCompressorView \<Rightarrow> int \<Rightarrow>
   size_t \<Rightarrow> ncclDataType_t \<Rightarrow> size_t \<Rightarrow> ptr \<Rightarrow> 'w compressor_world_scheme \<Rightarrow>
   (ncclResult_t \<times> cocclCompressorView) \<times> 'w compressor_world_scheme" where
  "cocclExecuteCompressor env compressor oper inp out rnk reduceChunks origType origElements strm w =
     (if compressor = nullptr then ((ncclInvalidArgument, out), w)
      else
        let (found, w1) =
              (if rnk < 0
               then (let (r, w1) = callApi env (Cuda cudaGetDevice) w in
                     (if status r = ncclSuccess then Some (rankForDevice (sint (outValue r)) w1) else None, w1))
               else (Some rnk, w)) in
        case found of
          None \<Rightarrow> ((ncclUnhandledCudaError, out), w1)
        | Some rnk' \<Rightarrow>
            let call = \<lparr>callOperation = oper, callInput = inp, callOutput = out, callRank = rnk',
                  callReduceChunks = reduceChunks, originalDatatype = origType, originalElements = origElements,
                  callConfig = nullptr,
                  callExecution = \<lparr>runStream = nullptr, runDev = 0, runRank = 0, runRanks = 0,
                    runNodes = 0, runDevicesPerNode = 0\<rparr>\<rparr>;
                ((result, out'), w2) = executePolicy env compressor call rnk' strm w1 in
            if \<not> nccl_ok result then ((result, out'), w2)
            else if oper = OperationCompress then ((validateEncodedOutput out' (viewChunks inp), out'), w2)
            else if oper = OperationDecompressReduceCompress
            then ((validateEncodedOutput out' (viewChunks inp div reduceChunks), out'), w2)
            else ((ncclSuccess, out'), w2))"

section \<open>Plugins and policies\<close>

text \<open>
  \<open>dl\<close> stands for \<^verbatim>\<open>dlopen\<close>, \<^verbatim>\<open>dlsym\<close> and the entry point of the library at a path: \<open>None\<close> when the
  library cannot be opened, otherwise the descriptor, which is \<open>None\<close> when the symbol is missing or
  the entry returns null.
\<close>

type_synonym dl_env = "string \<Rightarrow> cocclCompressorPlugin option option"

definition pluginPath :: "cocclConfig \<Rightarrow> string \<Rightarrow> string" where
  "pluginPath cfg nam =
     (let path = libraryPath (plugins cfg);
          path = (if path \<noteq> [] \<and> last path \<noteq> CHR ''/'' then path @ ''/'' else path) in
      path @ ''lib'' @ nam @ ''.so'')"

definition loadPlugin :: "dl_env \<Rightarrow> cocclConfig \<Rightarrow> string \<Rightarrow> ('w compressor_world_scheme, unit) comp" where
  "loadPlugin dl cfg nam =
     (case dl (pluginPath cfg nam) of
        None \<Rightarrow> failC ncclSystemError
      | Some plug \<Rightarrow>
          if \<not> fst (cocclValidateCompressorPlugin (Some nam) plug (Some 192)) then failC ncclInvalidArgument
          else modifyC (\<lambda>w. if nam \<in> dom (loadedPlugins w) then w
                            else w\<lparr>loadedPlugins := (loadedPlugins w)(nam \<mapsto> the plug)\<rparr>))"

definition loadPlugins :: "dl_env \<Rightarrow> cocclConfig \<Rightarrow> ('w compressor_world_scheme, unit) comp" where
  "loadPlugins dl cfg = forC (compressors (plugins cfg)) (loadPlugin dl cfg)"

text \<open>
  A policy object is owned by the list, its address is its place there. The threshold starts at 0
  and is set by the caller. A validated plugin has \<^verbatim>\<open>parseConfig\<close>.
\<close>

definition createPolicy :: "cocclCompressorScopeEntry \<Rightarrow> ('w compressor_world_scheme, ptr) comp" where
  "createPolicy configured =
     bindC (getC (\<lambda>w. w)) (\<lambda>w.
     bindC (liftE (fromOption ncclInvalidArgument (loadedPlugins w (scopeName configured)))) (\<lambda>plug.
     bindC (liftE (fromOption ncclInternalError (parseConfig plug))) (\<lambda>parse.
     let (result, parsed) = parse (scopeValues configured) (runtimeNodes w) (runtimeDevicesPerNode w);
         p = word_of_nat (Suc (length (ownedPolicies w))) in
     bindC (guardC (result = ncclSuccess) result) (\<lambda>_.
     bindC (modifyC (\<lambda>w. w\<lparr>policyStore := (policyStore w)(p := \<lparr>plugin = plug, config = parsed, thresholdBytes = 0\<rparr>),
              policyResources := (policyResources w)(p := Map.empty),
              ownedPolicies := ownedPolicies w @ [p]\<rparr>)) (\<lambda>_. returnC p)))))"

definition setPolicy ::
  "cocclTrainingRole \<Rightarrow> cocclPolicyVariant \<Rightarrow> cocclOperation \<Rightarrow> cocclCompressionScope \<Rightarrow> ptr \<Rightarrow>
   'w compressor_world_scheme \<Rightarrow> 'w compressor_world_scheme" where
  "setPolicy role variant oper scope p w =
     w\<lparr>policyTable := (\<lambda>r v oo s. if r = role \<and> v = variant \<and> oo = oper \<and> s = scope then p
                          else policyTable w r v oo s)\<rparr>"

definition installScope ::
  "cocclTrainingRole \<Rightarrow> cocclOperation \<Rightarrow> cocclPrimitivePolicy \<Rightarrow> cocclPolicyVariant \<Rightarrow>
   cocclCompressionScope \<Rightarrow> ('w compressor_world_scheme, unit) comp" where
  "installScope role oper configured variant scope =
     (let effective = cocclEffectiveCompressorScopeFor configured scope in
      if \<not> effectiveEnabled effective then returnC ()
      else
        bindC (modifyC (\<lambda>w. w\<lparr>runtimeHasPolicies := True\<rparr>)) (\<lambda>_.
        if scope \<noteq> ScopeDefault \<and> effectiveSource effective = ScopeDefault
        then modifyC (\<lambda>w. setPolicy role variant oper scope (policyTable w role variant oper ScopeDefault) w)
        else
          bindC (createPolicy (the (effectiveEntry effective))) (\<lambda>p.
            modifyC (\<lambda>w. setPolicy role variant oper scope p
              (w\<lparr>policyStore := (policyStore w)(p := (policyStore w p)\<lparr>thresholdBytes := policyThresholdBytes configured\<rparr>)\<rparr>)))))"

definition installPolicy ::
  "cocclTrainingRole \<Rightarrow> cocclOperation \<Rightarrow> cocclPrimitivePolicy \<Rightarrow> cocclPolicyVariant \<Rightarrow>
   ('w compressor_world_scheme, unit) comp" where
  "installPolicy role oper configured variant =
     forC [ScopeDefault, ScopeIntra, ScopeInter] (installScope role oper configured variant)"

definition installCollectivePolicies ::
  "cocclTrainingRole \<Rightarrow> 'p cocclCollectivePolicies_scheme \<Rightarrow> ('w compressor_world_scheme, unit) comp" where
  "installCollectivePolicies role configured =
     bindC (installPolicy role AllGather (policyAllGather configured) VariantDefault) (\<lambda>_.
     bindC (installPolicy role ReduceScatter (policyReduceScatter configured) VariantDefault) (\<lambda>_.
     installPolicy role AllReduce (policyAllReduce configured) VariantDefault))"

text \<open>
  \<open>register\<close> is \<^verbatim>\<open>cocclAutotuneRegisterEnabledCompressor\<close>, a routine of the autotuner: neighbouring scopes
  with the same policy are registered once.
\<close>

fun registerScopes ::
  "(ptr \<Rightarrow> cocclPolicyKey \<Rightarrow> ('w compressor_world_scheme, unit) comp) \<Rightarrow> cocclTrainingRole \<Rightarrow> cocclOperation \<Rightarrow>
   ptr \<Rightarrow> cocclCompressionScope list \<Rightarrow> ('w compressor_world_scheme, unit) comp" where
  "registerScopes register role oper previous [] = returnC ()"
| "registerScopes register role oper previous (scope # scs) =
     bindC (getC (\<lambda>w. policyTable w role VariantDefault oper scope)) (\<lambda>policy.
     bindC (if policy \<noteq> nullptr \<and> policy \<noteq> previous then register policy (cocclDefaultPolicy oper scope) else returnC ())
       (\<lambda>_. registerScopes register role oper policy scs))"

definition initializeRuntime ::
  "dl_env \<Rightarrow> (ptr \<Rightarrow> cocclPolicyKey \<Rightarrow> ('w compressor_world_scheme, unit) comp) \<Rightarrow> ncclComm \<Rightarrow> cocclConfig \<Rightarrow>
   ('w compressor_world_scheme, unit) comp" where
  "initializeRuntime dl register comm cfg =
     bindC (modifyC (\<lambda>w. w\<lparr>runtimeRanks := nRanks comm, runtimeNodes := nNodes comm,
              runtimeDevicesPerNode := localRanks comm\<rparr>)) (\<lambda>_.
     bindC (loadPlugins dl cfg) (\<lambda>_.
     bindC (if runtimeMode (runtimeConfig cfg) = ModeNormal
            then bindC (installCollectivePolicies TrainingRoleUnknown (normalPolicies cfg)) (\<lambda>_.
                 bindC (installPolicy TrainingRoleUnknown AllToAll (policyAllToAll (normalPolicies cfg)) VariantDefault) (\<lambda>_.
                 installPolicy TrainingRoleUnknown SendRecv (policySendRecv (normalPolicies cfg)) VariantDefault))
            else bindC (installCollectivePolicies TrainingRoleDataParallel (dataParallel (trainingPolicies cfg))) (\<lambda>_.
                 bindC (installCollectivePolicies TrainingRoleTensorParallel (tensorParallel (trainingPolicies cfg))) (\<lambda>_.
                 bindC (installPolicy TrainingRolePipelineParallel SendRecv
                          (pipelineSendRecvForward (trainingPolicies cfg)) VariantForward) (\<lambda>_.
                 installPolicy TrainingRolePipelineParallel SendRecv
                   (pipelineSendRecvBackward (trainingPolicies cfg)) VariantBackward)))) (\<lambda>_.
     forC [TrainingRoleUnknown, TrainingRoleDataParallel, TrainingRolePipelineParallel, TrainingRoleTensorParallel]
       (\<lambda>role. forC [ReduceScatter, AllReduce]
         (\<lambda>oper. registerScopes register role oper nullptr [ScopeDefault, ScopeIntra, ScopeInter])))))"

definition cocclCompressionEnabled :: "'w compressor_world_scheme \<Rightarrow> bool" where
  "cocclCompressionEnabled w \<longleftrightarrow> runtimeInitialized w \<and> runtimeInitResult w = ncclSuccess \<and> runtimeHasPolicies w"

record cocclResolvedCompressorPolicy =
  resolvedCompressor :: ptr
  resolvedThresholdBytes :: size_t

definition cocclResolveCompressorPolicy ::
  "'w compressor_world_scheme \<Rightarrow> cocclTrainingRole \<Rightarrow> cocclPolicyKey \<Rightarrow> cocclResolvedCompressorPolicy result" where
  "cocclResolveCompressorPolicy w role key =
     (if keyOperation key = OperationCount \<or> role = TrainingRoleCount \<or> keyScope key = ScopeCount
      then Inl ncclInvalidUsage
      else
        let policy = policyTable w role (keyVariant key) (keyOperation key) (keyScope key) in
        if policy = nullptr then Inl ncclInvalidUsage
        else Inr \<lparr>resolvedCompressor = policy, resolvedThresholdBytes = thresholdBytes (policyStore w policy)\<rparr>)"

section \<open>Initialisation and destruction\<close>

text \<open>
  \<open>cfg\<close> is \<open>None\<close> when no configuration is ready. \<open>assist\<close> and \<open>ensureModels\<close> are the training
  assistant's and the autotuner's part; an autotuning failure is only reported.
\<close>

definition cocclCompressorRuntimeInit ::
  "dl_env \<Rightarrow> (ptr \<Rightarrow> cocclPolicyKey \<Rightarrow> ('w compressor_world_scheme, unit) comp) \<Rightarrow>
   (ncclComm \<Rightarrow> 'w compressor_world_scheme \<Rightarrow> 'w compressor_world_scheme) \<Rightarrow>
   (ncclComm \<Rightarrow> ('w compressor_world_scheme, unit) comp) \<Rightarrow>
   cocclConfig option \<Rightarrow> ncclComm \<Rightarrow> ('w compressor_world_scheme, unit) comp" where
  "cocclCompressorRuntimeInit dl register assist ensureModels cfg comm w =
     (let w1 = (if runtimeInitialized w then w
                else case cfg of
                  None \<Rightarrow> w\<lparr>runtimeInitialized := True, runtimeInitResult := ncclSuccess\<rparr>
                | Some c \<Rightarrow>
                    (case initializeRuntime dl register comm c (w\<lparr>runtimeInitialized := True\<rparr>) of
                       (Inl e, w') \<Rightarrow> w'\<lparr>runtimeInitResult := e\<rparr>
                     | (Inr _, w') \<Rightarrow> w'\<lparr>runtimeInitResult := ncclSuccess\<rparr>));
          result = runtimeInitResult w1;
          dev = cudaDev comm;
          w2 = (if result = ncclSuccess \<and> cfg \<noteq> None
                then w1\<lparr>rankByDevice := (rankByDevice w1)(dev \<mapsto> rank comm),
                       communicatorsByDevice := (communicatorsByDevice w1)(dev \<mapsto>
                         (case communicatorsByDevice w1 dev of None \<Rightarrow> 0 | Some n \<Rightarrow> n) + 1)\<rparr>
                else w1) in
      if result \<noteq> ncclSuccess then (Inl result, w2)
      else if cfg = None then (Inr (), w2)
      else (Inr (), snd (ensureModels comm (assist comm w2))))"

text \<open>
  The state objects of one policy on a device: each is passed to its destructor. A call through a null
  destructor ends the process: the result is then \<open>False\<close>, and nothing after it happens.
\<close>

fun destroyStates :: "api_env \<Rightarrow> (ptr \<times> StateEntry) list \<Rightarrow> 'w api_world_scheme \<Rightarrow> bool \<times> 'w api_world_scheme" where
  "destroyStates env [] w = (True, w)"
| "destroyStates env ((typeKey, e) # es) w =
     (if stateDestroy e = nullptr then (False, w)
      else destroyStates env es (snd (callApi env (PluginDestroyState (stateDestroy e) (stateData e)) w)))"

text \<open>The persistent buffers of one policy on a device: all are given back, the first failure is kept.\<close>

fun freePersistent :: "api_env \<Rightarrow> (size_t \<times> PersistentBuffer) list \<Rightarrow> ncclResult_t \<Rightarrow> 'w api_world_scheme \<Rightarrow> ncclResult_t \<times> 'w api_world_scheme" where
  "freePersistent env [] result w = (result, w)"
| "freePersistent env ((slot, p) # ps) result w =
     (let (r, w1) = callApi env (CudaMemory (cudaFree (persistentData p))) w in
      freePersistent env ps
        (if status r \<noteq> ncclSuccess \<and> result = ncclSuccess then ncclUnhandledCudaError else result) w1)"

text \<open>
  The end of the process is the code \<open>ncclNumResults\<close>, which no function returns.
\<close>

fun releasePolicies :: "api_env \<Rightarrow> int \<Rightarrow> ptr list \<Rightarrow> ncclResult_t \<Rightarrow> 'w compressor_world_scheme \<Rightarrow> ncclResult_t \<times> 'w compressor_world_scheme" where
  "releasePolicies env dev [] result w = (result, w)"
| "releasePolicies env dev (p # ps) result w =
     (case policyResources w p dev of
        None \<Rightarrow> releasePolicies env dev ps result w
      | Some res \<Rightarrow>
          (let (alive, w0) = destroyStates env (pluginStates res) w in
           if \<not> alive then (ncclNumResults, w0)
           else
             let (result', w1) = freePersistent env (persistent res) result w0 in
             releasePolicies env dev ps result'
               (w1\<lparr>policyResources := (policyResources w1)(p := (policyResources w1 p)(dev := None))\<rparr>)))"

definition cocclCompressorRuntimeDestroy ::
  "api_env \<Rightarrow> (ncclComm \<Rightarrow> 'w compressor_world_scheme \<Rightarrow> 'w compressor_world_scheme) \<Rightarrow> ncclComm \<Rightarrow>
   'w compressor_world_scheme \<Rightarrow> ncclResult_t \<times> 'w compressor_world_scheme" where
  "cocclCompressorRuntimeDestroy env unregister comm w =
     (let w0 = unregister comm w; dev = cudaDev comm in
      case communicatorsByDevice w0 dev of
        None \<Rightarrow> (ncclSuccess, w0)
      | Some n \<Rightarrow>
          if n - 1 \<noteq> 0 then (ncclSuccess, w0\<lparr>communicatorsByDevice := (communicatorsByDevice w0)(dev \<mapsto> n - 1)\<rparr>)
          else releasePolicies env dev (ownedPolicies w0) ncclSuccess
                 (w0\<lparr>communicatorsByDevice := (communicatorsByDevice w0)(dev := None),
                     rankByDevice := (rankByDevice w0)(dev := None)\<rparr>))"

section \<open>The four operations\<close>

text \<open>
  \<^verbatim>\<open>compress.cc\<close>. They run over the pools and the runtime; the result is the code and the output view.
\<close>

type_synonym 'w view_comp = "comm_pools \<times> 'w compressor_world_scheme \<Rightarrow>
  (ncclResult_t \<times> cocclCompressorView) \<times> comm_pools \<times> 'w compressor_world_scheme"

definition overPools ::
  "('w compressor_world_scheme \<Rightarrow> 'a \<times> 'w compressor_world_scheme) \<Rightarrow>
   comm_pools \<times> 'w compressor_world_scheme \<Rightarrow> 'a \<times> comm_pools \<times> 'w compressor_world_scheme" where
  "overPools f s = (let (r, w) = f (snd s) in (r, (fst s, w)))"

definition ncclCompress ::
  "api_env \<Rightarrow> ptr \<Rightarrow> cocclCompressorView \<Rightarrow> cocclCompressorView \<Rightarrow> int \<Rightarrow> ptr \<Rightarrow> 'w view_comp" where
  "ncclCompress env compressor inp out rnk strm =
     overPools (cocclExecuteCompressor env compressor OperationCompress inp out rnk 0 (viewDatatype inp)
       (viewElements inp) strm)"

definition ncclDecompress ::
  "api_env \<Rightarrow> ptr \<Rightarrow> cocclCompressorView \<Rightarrow> cocclCompressorView \<Rightarrow> ptr \<Rightarrow> 'w view_comp" where
  "ncclDecompress env compressor inp out strm =
     (if viewDatatype inp = COCCL_COMPRESSOR_RAW_PASSTHROUGH
      then if viewBytes inp > viewCapacityBytes out then Pair (ncclInvalidUsage, out)
           else overPools (\<lambda>w. let (r, w1) = callApi env (CudaMemory (cudaMemcpyAsync (viewData out) (viewData inp) (viewBytes inp) strm)) w in
                  if status r \<noteq> ncclSuccess then ((ncclUnhandledCudaError, out), w1)
                  else ((ncclSuccess, out\<lparr>viewBytes := viewBytes inp\<rparr>), w1))
      else overPools (cocclExecuteCompressor env compressor OperationDecompress inp out (-1) 0 (viewDatatype out)
             (viewElements out) strm))"

text \<open>\<^verbatim>\<open>ncclReduceChunk\<close> launches one kernel.\<close>

definition ncclReduceChunk ::
  "api_env \<Rightarrow> ptr \<Rightarrow> size_t \<Rightarrow> ptr \<Rightarrow> ncclDataType_t \<Rightarrow> size_t \<Rightarrow> ptr \<Rightarrow> 'w api_world_scheme \<Rightarrow>
   ncclResult_t \<times> 'w api_world_scheme" where
  "ncclReduceChunk env inp chunkCount out dtype numChunks strm w =
     (let (r, w1) = callApi env (CudaMemory (cudaLaunchKernel ''ReduceChunk'' [inp, chunkCount, out, numChunks] strm)) w in
      (if nccl_ok (status r) then ncclSuccess else status r, w1))"

text \<open>
  The workspace of a call: it is released on every path, and a failed release is reported when the
  work itself succeeded. A failed acquisition leaves an empty handle, which the release skips.
\<close>

definition withUnregisteredBuffer ::
  "api_env \<Rightarrow> cocclBufferConfig \<Rightarrow> ptr \<Rightarrow> size_t \<Rightarrow> ptr \<Rightarrow> cocclCompressorView \<Rightarrow>
   (cocclBufferHandle \<Rightarrow> 'w view_comp) \<Rightarrow> 'w view_comp" where
  "withUnregisteredBuffer env cfg owner bytes strm out body s =
     (case cocclGetUnregisteredBuffer env cfg owner bytes strm s of
        (Inl e, s1) \<Rightarrow> ((e, out), s1)
      | (Inr workspace, s1) \<Rightarrow>
          let ((result, out'), s2) = body workspace s1;
              ((releaseResult, _), s3) = cocclReleaseBuffer env workspace strm s2 in
          ((if result = ncclSuccess then releaseResult else result, out'), s3))"

definition thenView ::
  "'w view_comp \<Rightarrow> (cocclCompressorView \<Rightarrow> 'w view_comp) \<Rightarrow> 'w view_comp" where
  "thenView m f s = (let ((result, out), s1) = m s in if result = ncclSuccess then f out s1 else ((result, out), s1))"

definition ncclDecompressReduce ::
  "api_env \<Rightarrow> cocclBufferConfig \<Rightarrow> ptr \<Rightarrow> ptr \<Rightarrow> cocclCompressorView \<Rightarrow> cocclCompressorView \<Rightarrow>
   size_t \<Rightarrow> ptr \<Rightarrow> 'w view_comp" where
  "ncclDecompressReduce env cfg compressor owner inp out reduceChunks strm s =
     (if viewFrameMetadata inp = nullptr \<and> viewDatatype inp \<noteq> COCCL_COMPRESSOR_RAW_PASSTHROUGH \<and>
         cocclCompressorSupports (policyStore (snd s)) compressor cocclCompressorCapabilityDecompressReduce
      then overPools (cocclExecuteCompressor env compressor OperationDecompressReduce inp out (-1) reduceChunks
             (viewDatatype out) (viewElements out) strm) s
      else
        let decompressedElements = viewElements out * reduceChunks;
            decompressedBytes = decompressedElements * size_of_int (ncclTypeSize (viewDatatype out)) in
        withUnregisteredBuffer env cfg owner decompressedBytes strm out (\<lambda>workspace.
          thenView (\<lambda>s. case ncclDecompress env compressor inp
                 \<lparr>viewData = handlePtr workspace, viewCapacityBytes = handleBytes workspace,
                  viewBytes = decompressedBytes, viewElements = decompressedElements, viewChunks = viewChunks inp,
                  viewDatatype = viewDatatype out, viewFrameMetadata = nullptr, viewFrameStrideBytes = 0\<rparr> strm s of
                ((result, _), s1) \<Rightarrow> ((result, out), s1)) (\<lambda>out.
          thenView (overPools (\<lambda>w. let (result, w1) = ncclReduceChunk env (handlePtr workspace) (viewElements out)
                 (viewData out) (viewDatatype out) reduceChunks strm w in ((result, out), w1))) (\<lambda>out.
          Pair (ncclSuccess, out\<lparr>viewBytes := viewElements out * size_of_int (ncclTypeSize (viewDatatype out)),
                  viewChunks := viewChunks inp div reduceChunks\<rparr>)))) s)"

definition ncclDecompReduceComp ::
  "api_env \<Rightarrow> cocclBufferConfig \<Rightarrow> ptr \<Rightarrow> ptr \<Rightarrow> ncclComm \<Rightarrow> cocclCompressorView \<Rightarrow> cocclCompressorView \<Rightarrow>
   size_t \<Rightarrow> ncclDataType_t \<Rightarrow> size_t \<Rightarrow> ptr \<Rightarrow> 'w view_comp" where
  "ncclDecompReduceComp env cfg decoder encoder owner inp out reduceChunks origType origElements strm s =
     (if viewFrameMetadata inp = nullptr \<and> viewDatatype inp \<noteq> COCCL_COMPRESSOR_RAW_PASSTHROUGH \<and>
         decoder = encoder \<and>
         cocclCompressorSupports (policyStore (snd s)) decoder cocclCompressorCapabilityDecompressReduceCompress
      then overPools (cocclExecuteCompressor env decoder OperationDecompressReduceCompress inp out (-1) reduceChunks
             origType origElements strm) s
      else
        let decompressedElements = origElements * reduceChunks;
            decompressedBytes = decompressedElements * size_of_int (ncclTypeSize origType);
            reducedBytes = origElements * size_of_int (ncclTypeSize origType) in
        withUnregisteredBuffer env cfg (self owner) decompressedBytes strm out (\<lambda>workspace.
          thenView (\<lambda>s. case ncclDecompress env decoder inp
                 \<lparr>viewData = handlePtr workspace, viewCapacityBytes = handleBytes workspace,
                  viewBytes = decompressedBytes, viewElements = decompressedElements, viewChunks = viewChunks inp,
                  viewDatatype = origType, viewFrameMetadata = nullptr, viewFrameStrideBytes = 0\<rparr> strm s of
                ((result, _), s1) \<Rightarrow> ((result, out), s1)) (\<lambda>out.
          thenView (overPools (\<lambda>w. let (result, w1) = ncclReduceChunk env (handlePtr workspace) origElements
                 (handlePtr workspace) origType reduceChunks strm w in ((result, out), w1))) (\<lambda>out.
          ncclCompress env encoder
            \<lparr>viewData = handlePtr workspace, viewCapacityBytes = reducedBytes, viewBytes = reducedBytes,
             viewElements = origElements, viewChunks = viewChunks inp div reduceChunks, viewDatatype = origType,
             viewFrameMetadata = nullptr, viewFrameStrideBytes = 0\<rparr> out (rank owner) strm))) s)"

section \<open>Scratch memory\<close>

text \<open>The addresses that successful scratch allocations returned in a sequence of calls.\<close>

fun scratchAllocated :: "api_env \<Rightarrow> nat \<Rightarrow> api_call list \<Rightarrow> ptr list" where
  "scratchAllocated env i [] = []"
| "scratchAllocated env i (c # cs) =
     (case c of
        CudaMemory (cudaMallocAsync n s) \<Rightarrow>
          (if status (env i c) = ncclSuccess then [outValue (env i c)] else [])
      | _ \<Rightarrow> []) @ scratchAllocated env (Suc i) cs"

lemma scratchAllocated_append:
  "scratchAllocated env i (xs @ ys) = scratchAllocated env i xs @ scratchAllocated env (i + length xs) ys"
  by (induction xs arbitrary: i) simp_all

text \<open>A call that gives scratch memory back.\<close>

fun freesScratch :: "api_call \<Rightarrow> bool" where
  "freesScratch (CudaMemory (cudaFreeAsync p s)) \<longleftrightarrow> True"
| "freesScratch _ \<longleftrightarrow> False"

text \<open>One host callback: what it adds to the log, and the scratch it recorded. It gives none back.\<close>

lemma hostApi_log:
  assumes "hostApi env request (e, w) = (reply, e', w')"
  shows "\<exists>calls. apiLog w' = apiLog w @ calls \<and> scratch e' = scratch e @ scratchAllocated env (logLen w) calls \<and>
    (\<forall>c \<in> set calls. \<not> freesScratch c) \<and>
    execPolicy e' = execPolicy e \<and> execDev e' = execDev e \<and> execStream e' = execStream e"
  using assms
  by (cases request)
    (auto simp: hostApi_def allocateScratch_def acquirePersistent_def getOrCreateState_def callApi_def Let_def
      putResources_def split: if_splits)

lemma runPlugin_log:
  assumes "runPlugin env run (e, w) = (r, e', w')"
  shows "\<exists>calls. apiLog w' = apiLog w @ calls \<and> scratch e' = scratch e @ scratchAllocated env (logLen w) calls \<and>
    (\<forall>c \<in> set calls. \<not> freesScratch c)"
  using assms
proof (induction run arbitrary: e w)
  case (PluginReturn result out)
  then show ?case by auto
next
  case (PluginRequest request nxt)
  obtain reply e1 w1 where h: "hostApi env request (e, w) = (reply, e1, w1)" by (metis prod_cases3)
  from hostApi_log [OF h] obtain c1 where
    c1: "apiLog w1 = apiLog w @ c1" "scratch e1 = scratch e @ scratchAllocated env (logLen w) c1"
      "\<forall>c \<in> set c1. \<not> freesScratch c" by blast
  have "runPlugin env (nxt reply) (e1, w1) = (r, e', w')" using PluginRequest.prems h by simp
  from PluginRequest.IH [OF _ this] obtain c2 where
    c2: "apiLog w' = apiLog w1 @ c2" "scratch e' = scratch e1 @ scratchAllocated env (logLen w1) c2"
      "\<forall>c \<in> set c2. \<not> freesScratch c" by blast
  show ?case
    using c1 c2 by (intro exI [of _ "c1 @ c2"]) (auto simp: scratchAllocated_append)
qed

lemma freeScratch_log:
  "apiLog (snd (freeScratch env strm ps result w)) = apiLog w @ map (\<lambda>p. CudaMemory (cudaFreeAsync p strm)) ps"
  by (induction ps arbitrary: result w) (simp_all add: callApi_def Let_def)

text \<open>
  C9: no plugin can leak scratch memory. Whatever a plugin does and however it returns, after
  \<^verbatim>\<open>execute\<close> every scratch allocation the plugin obtained has been given back exactly once, in
  order, on the stream of the call: the calls made while the plugin runs give none back, and after
  them come the frees of those allocations and nothing else.
\<close>

theorem execute_returns_scratch:
  assumes "status (env (logLen w) (Cuda cudaGetDevice)) = ncclSuccess"
    and "execute (plugin (policyStore w policy)) = Some run"
    and "executePolicy env policy call rnk strm w = (r, w')"
  shows "\<exists>calls. (\<forall>c \<in> set calls. \<not> freesScratch c) \<and>
    apiLog w' = apiLog w @ Cuda cudaGetDevice # calls @
      map (\<lambda>p. CudaMemory (cudaFreeAsync p strm)) (scratchAllocated env (Suc (logLen w)) calls)"
proof -
  let ?w0 = "w\<lparr>apiLog := apiLog w @ [Cuda cudaGetDevice]\<rparr>"
  let ?dev = "sint (outValue (env (logLen w) (Cuda cudaGetDevice)))"
  let ?ex = "\<lparr>execPolicy = policy, execDev = ?dev, execStream = strm, scratch = [], scratchBytes = 0\<rparr>"
  let ?call = "call\<lparr>callConfig := config (policyStore w policy), callExecution :=
     \<lparr>runStream = strm, runDev = ?dev, runRank = rnk, runRanks = runtimeRanks w,
      runNodes = runtimeNodes w, runDevicesPerNode = runtimeDevicesPerNode w\<rparr>\<rparr>"
  obtain res out e1 w1 where run: "runPlugin env (run ?call) (?ex, ?w0) = ((res, out), e1, w1)"
    by (metis prod.exhaust)
  from runPlugin_log [OF run] obtain calls where
    c: "apiLog w1 = apiLog w @ Cuda cudaGetDevice # calls" "scratch e1 = scratchAllocated env (Suc (logLen w)) calls"
      "\<forall>c \<in> set calls. \<not> freesScratch c"
    by auto
  let ?d = "resourcesOf w1 policy ?dev"
  let ?w2 = "if scratchBytes e1 \<noteq> 0
    then putResources policy ?dev (if scratchBytes e1 > scratchPeakBytes ?d then ?d\<lparr>scratchPeakBytes := scratchBytes e1\<rparr> else ?d) w1
    else w1"
  have log: "apiLog ?w2 = apiLog w1" by (simp add: putResources_def)
  have "w' = snd (freeScratch env strm (scratch e1) res ?w2)"
    using assms(3) by (simp add: executePolicy_def callApi_def Let_def assms(1,2) run split_beta) auto
  with c log freeScratch_log [of env strm "scratch e1" res ?w2] show ?thesis by auto
qed

text \<open>A compressor that asks for 64 bytes of scratch and then fails.\<close>

definition failingPlugin :: cocclCompressorPlugin where
  "failingPlugin = \<lparr>abiVersion = COCCL_COMPRESSOR_ABI_VERSION, structSize = sizeof_plugin, pluginName = Some ''x'',
     capabilities = 3,
     execute = Some (\<lambda>call. PluginRequest (AllocateScratch 64) (\<lambda>_. PluginReturn ncclInvalidUsage (callOutput call))),
     parseConfig = Some (\<lambda>_ _ _. (ncclSuccess, 1)), destroyConfig = True, getEncodedSizeBound = None\<rparr>"

definition emptyCompressorWorld :: compressor_world where
  "emptyCompressorWorld = \<lparr>apiLog = [], nextNode = 0, runtimeInitialized = False, runtimeInitResult = ncclSuccess,
     runtimeHasPolicies = False, runtimeRanks = 1, runtimeNodes = 1, runtimeDevicesPerNode = 1,
     rankByDevice = Map.empty, communicatorsByDevice = Map.empty, loadedPlugins = Map.empty, ownedPolicies = [],
     policyStore = (\<lambda>_. \<lparr>plugin = failingPlugin, config = 0, thresholdBytes = 0\<rparr>),
     policyResources = (\<lambda>_. Map.empty), policyTable = (\<lambda>_ _ _ _. nullptr)\<rparr>"

definition exampleView :: "ncclDataType_t \<Rightarrow> size_t \<Rightarrow> cocclCompressorView" where
  "exampleView t n = \<lparr>viewData = 4096, viewCapacityBytes = n, viewBytes = n, viewElements = n, viewChunks = 1,
     viewDatatype = t, viewFrameMetadata = nullptr, viewFrameStrideBytes = 0\<rparr>"

definition exampleCall :: cocclCompressorCall where
  "exampleCall = \<lparr>callOperation = OperationCompress, callInput = exampleView ncclFloat32 16,
     callOutput = exampleView ncclInt8 64, callRank = 0, callReduceChunks = 0, originalDatatype = ncclFloat32,
     originalElements = 16, callConfig = 0,
     callExecution = \<lparr>runStream = 0, runDev = 0, runRank = 0, runRanks = 0, runNodes = 0,
       runDevicesPerNode = 0\<rparr>\<rparr>"

theorem execute_returns_scratch_witness:
  "\<exists>r w' calls. executePolicy exampleEnv 1 exampleCall 0 7 emptyCompressorWorld = (r, w') \<and>
     fst r = ncclInvalidUsage \<and> (\<forall>c \<in> set calls. \<not> freesScratch c) \<and>
     apiLog w' = Cuda cudaGetDevice # calls @
       map (\<lambda>p. CudaMemory (cudaFreeAsync p 7)) (scratchAllocated exampleEnv 1 calls)"
proof -
  let ?run = "executePolicy exampleEnv 1 exampleCall 0 7 emptyCompressorWorld"
  have "fst (fst ?run) = ncclInvalidUsage" by code_simp
  then obtain r w' where run: "?run = (r, w')" "fst r = ncclInvalidUsage" by (cases ?run) auto
  have "execute (plugin (policyStore emptyCompressorWorld 1)) = Some (\<lambda>call. PluginRequest (AllocateScratch 64)
      (\<lambda>_. PluginReturn ncclInvalidUsage (callOutput call)))"
    by (simp add: emptyCompressorWorld_def failingPlugin_def)
  from execute_returns_scratch [OF _ this run(1)] run show ?thesis
    by (auto simp: exampleEnv_def emptyCompressorWorld_def)
qed

section \<open>Encoded output\<close>

lemma validate_success:
  assumes "validateEncodedOutput out n = ncclSuccess"
  shows "viewData out \<noteq> nullptr" "viewChunks out = n" "0 < unat n" "unat n dvd unat (viewElements out)"
    "unat (viewElements out) = unat (viewBytes out)" "viewBytes out \<le> viewCapacityBytes out"
    "viewDatatype out = ncclInt8 \<or> viewDatatype out = ncclUint8"
proof -
  have *: "viewData out \<noteq> nullptr" "viewChunks out = n" "viewChunks out \<noteq> 0" "viewElements out mod viewChunks out = 0"
    "viewDatatype out = ncclInt8 \<or> viewDatatype out = COCCL_COMPRESSOR_RAW_PASSTHROUGH"
    "viewElements out * size_of_int (ncclTypeSize (viewDatatype out)) = viewBytes out"
    "\<not> viewBytes out > viewCapacityBytes out"
    using assms unfolding validateEncodedOutput_def Let_def by (metis ncclResult_t.distinct(9))+
  then show "viewData out \<noteq> nullptr" "viewChunks out = n" "viewBytes out \<le> viewCapacityBytes out" by auto
  show "0 < unat n" using *(2,3) by (simp add: unat_gt_0)
  have "unat (viewElements out mod n) = 0" using *(2,4) by simp
  then show "unat n dvd unat (viewElements out)" by (simp add: unat_mod_size dvd_eq_mod_eq_0)
  show "viewDatatype out = ncclInt8 \<or> viewDatatype out = ncclUint8"
    using *(5) by (simp add: COCCL_COMPRESSOR_RAW_PASSTHROUGH_def)
  then have "size_of_int (ncclTypeSize (viewDatatype out)) = 1" by auto
  with *(6) show "unat (viewElements out) = unat (viewBytes out)" by simp
qed

text \<open>
  C10: a compression that reports success has produced a well-formed encoded view, whatever the
  plugin did: the payload is bytes, as many elements as bytes, within the capacity the view
  declares, and it splits evenly over exactly the chunks of the input.
\<close>

theorem compress_output_valid:
  assumes "ncclCompress env compressor inp out rnk strm s = ((ncclSuccess, out'), s')"
  shows "viewData out' \<noteq> nullptr \<and> viewChunks out' = viewChunks inp \<and> 0 < unat (viewChunks inp) \<and>
    unat (viewChunks inp) dvd unat (viewElements out') \<and> unat (viewElements out') = unat (viewBytes out') \<and>
    viewBytes out' \<le> viewCapacityBytes out' \<and> (viewDatatype out' = ncclInt8 \<or> viewDatatype out' = ncclUint8)"
proof -
  have "validateEncodedOutput out' (viewChunks inp) = ncclSuccess"
    using assms
    by (auto simp: ncclCompress_def overPools_def cocclExecuteCompressor_def Let_def split_beta
        split: if_splits option.splits)
  from validate_success [OF this] show ?thesis by simp
qed

text \<open>A compressor that writes one byte per element.\<close>

definition bytePlugin :: cocclCompressorPlugin where
  "bytePlugin = failingPlugin\<lparr>execute := Some (\<lambda>call. PluginReturn ncclSuccess
     (exampleView ncclInt8 (viewElements (callInput call))))\<rparr>"

definition byteWorld :: compressor_world where
  "byteWorld = emptyCompressorWorld\<lparr>policyStore := (\<lambda>_. \<lparr>plugin = bytePlugin, config = 0, thresholdBytes = 0\<rparr>)\<rparr>"

theorem compress_output_valid_witness:
  "\<exists>out' s'. ncclCompress exampleEnv 1 (exampleView ncclFloat32 16) (exampleView ncclInt8 64) 0 7 ([], byteWorld)
     = ((ncclSuccess, out'), s') \<and> viewBytes out' \<le> viewCapacityBytes out'"
proof -
  let ?run = "ncclCompress exampleEnv 1 (exampleView ncclFloat32 16) (exampleView ncclInt8 64) 0 7 ([], byteWorld)"
  have "fst (fst ?run) = ncclSuccess" by code_simp
  then obtain out' s' where run: "?run = ((ncclSuccess, out'), s')" by (metis prod.collapse)
  from compress_output_valid [OF run] run show ?thesis by blast
qed

section \<open>A failed growth of a persistent buffer\<close>

text \<open>
  A persistent buffer that cannot grow is left dangling. The slot holds 100 bytes at address
  4096; a request for 200 bytes frees them and fails to allocate; the next request for 100 bytes
  succeeds and returns the freed address.
\<close>

definition persistentEnv :: api_env where
  "persistentEnv = (\<lambda>i c. case c of
      CudaMemory (cudaMalloc n) \<Rightarrow> \<lparr>status = ncclUnhandledCudaError, outValue = 0\<rparr>
    | _ \<Rightarrow> \<lparr>status = ncclSuccess, outValue = 0\<rparr>)"

definition persistentWorld :: compressor_world where
  "persistentWorld = putResources 1 0 (emptyResources\<lparr>persistent := [(0, \<lparr>persistentData = 4096, persistentBytes = 100\<rparr>)]\<rparr>)
     emptyCompressorWorld"

theorem persistent_left_dangling:
  "let ex = \<lparr>execPolicy = 1, execDev = 0, execStream = 7, scratch = [], scratchBytes = 0\<rparr>;
       (r1, s1) = acquirePersistent persistentEnv 0 200 (ex, persistentWorld);
       (r2, s2) = acquirePersistent persistentEnv 0 100 s1 in
   fst r1 = ncclUnhandledCudaError \<and> r2 = (ncclSuccess, 4096, 100) \<and>
   apiLog (snd s2) = [CudaMemory (cudaFree 4096), CudaMemory (cudaMalloc 200)]"
  by code_simp

section \<open>Installed policies\<close>

text \<open>
  A table entry that serves a scope: a policy of the list, with the configured threshold, whose
  plugin was loaded under the name of the scope's effective entry.
\<close>

definition serves ::
  "'w compressor_world_scheme \<Rightarrow> cocclTrainingRole \<Rightarrow> cocclPolicyVariant \<Rightarrow> cocclOperation \<Rightarrow> cocclPrimitivePolicy \<Rightarrow>
   cocclCompressionScope \<Rightarrow> bool" where
  "serves w role variant oper configured scope \<longleftrightarrow>
     (let p = policyTable w role variant oper scope in
      0 < unat p \<and> unat p \<le> length (ownedPolicies w) \<and>
      thresholdBytes (policyStore w p) = policyThresholdBytes configured \<and>
      loadedPlugins w (scopeName (the (effectiveEntry (cocclEffectiveCompressorScopeFor configured scope))))
        = Some (plugin (policyStore w p)))"

lemma createPolicy_Inr:
  assumes "createPolicy e w = (Inr p, w')"
  obtains plug parsed where "p = word_of_nat (Suc (length (ownedPolicies w)))" "loadedPlugins w (scopeName e) = Some plug"
    "w' = w\<lparr>policyStore := (policyStore w)(p := \<lparr>plugin = plug, config = parsed, thresholdBytes = 0\<rparr>),
              policyResources := (policyResources w)(p := Map.empty),
              ownedPolicies := ownedPolicies w @ [p]\<rparr>"
  using assms
  by (auto simp: createPolicy_def bindC_def fromOption_def guardC_def failC_def returnC_def Let_def split_beta
      split: option.splits if_splits sum.splits)

lemma effective_default_entry:
  assumes "scope \<noteq> ScopeDefault" and "effectiveSource (cocclEffectiveCompressorScopeFor pol scope) = ScopeDefault"
    and "effectiveEnabled (cocclEffectiveCompressorScopeFor pol scope)"
  shows "cocclEffectiveCompressorScopeFor pol ScopeDefault = cocclEffectiveCompressorScopeFor pol scope"
  using assms
  by (auto simp: cocclEffectiveCompressorScopeFor_def Let_def effectiveEnabled_def split: if_splits)

text \<open>
  One scope is installed: it is served if it is enabled, the scopes served before stay served, and
  at most one policy is created.
\<close>

lemma installScope_serves:
  assumes run: "installScope role oper pol variant scope w = (Inr (), w')"
    and len: "length (ownedPolicies w) + 1 < 2 ^ 64"
    and default: "scope = ScopeDefault \<or> (effectiveEnabled (cocclEffectiveCompressorScopeFor pol ScopeDefault) \<longrightarrow>
        serves w role variant oper pol ScopeDefault)"
  shows "effectiveEnabled (cocclEffectiveCompressorScopeFor pol scope) \<longrightarrow> serves w' role variant oper pol scope"
    and "(role', variant', oper', scope') \<noteq> (role, variant, oper, scope) \<Longrightarrow>
      serves w role' variant' oper' pol' scope' \<Longrightarrow> serves w' role' variant' oper' pol' scope'"
    and "length (ownedPolicies w') \<le> length (ownedPolicies w) + 1"
proof -
  let ?eff = "cocclEffectiveCompressorScopeFor pol scope"
  let ?goal = "(effectiveEnabled ?eff \<longrightarrow> serves w' role variant oper pol scope) \<and>
    ((role', variant', oper', scope') \<noteq> (role, variant, oper, scope) \<longrightarrow>
      serves w role' variant' oper' pol' scope' \<longrightarrow> serves w' role' variant' oper' pol' scope') \<and>
    length (ownedPolicies w') \<le> length (ownedPolicies w) + 1"
  have ?goal
  proof (cases "effectiveEnabled ?eff")
    case False
    with run show ?thesis by (simp add: installScope_def Let_def)
  next
    case on: True
    show ?thesis
    proof (cases "scope \<noteq> ScopeDefault \<and> effectiveSource ?eff = ScopeDefault")
      case True
      have "w' = setPolicy role variant oper scope (policyTable w role variant oper ScopeDefault) (w\<lparr>runtimeHasPolicies := True\<rparr>)"
        using run on True by (simp add: installScope_def Let_def bindC_def setPolicy_def cong: if_cong)
      moreover have "serves w role variant oper pol ScopeDefault" and "cocclEffectiveCompressorScopeFor pol ScopeDefault = ?eff"
        using True default on effective_default_entry [of scope pol] by auto
      ultimately show ?thesis by (auto simp: serves_def setPolicy_def Let_def)
    next
      case False
      obtain p w1 where c: "createPolicy (the (effectiveEntry ?eff)) (w\<lparr>runtimeHasPolicies := True\<rparr>) = (Inr p, w1)"
        "w' = setPolicy role variant oper scope p
              (w1\<lparr>policyStore := (policyStore w1)(p := (policyStore w1 p)\<lparr>thresholdBytes := policyThresholdBytes pol\<rparr>)\<rparr>)"
        using run on False by (auto simp: installScope_def Let_def bindC_def split: prod.splits sum.splits)
      let ?w = "w\<lparr>runtimeHasPolicies := True\<rparr>"
      obtain plug parsed where p0: "p = word_of_nat (Suc (length (ownedPolicies ?w)))"
          "loadedPlugins ?w (scopeName (the (effectiveEntry ?eff))) = Some plug"
        and w1: "w1 = ?w\<lparr>policyStore := (policyStore ?w)(p := \<lparr>plugin = plug, config = parsed, thresholdBytes = 0\<rparr>),
              policyResources := (policyResources ?w)(p := Map.empty), ownedPolicies := ownedPolicies ?w @ [p]\<rparr>"
        using c(1) by (rule createPolicy_Inr)
      have p: "p = word_of_nat (Suc (length (ownedPolicies w)))"
        "loadedPlugins w (scopeName (the (effectiveEntry ?eff))) = Some plug" using p0 by simp_all
      have up: "unat p = Suc (length (ownedPolicies w))"
        unfolding p(1) by (rule unat_word_of_nat_size) (use len in simp)
      then show ?thesis using p(2) c(2) w1 by (auto simp: serves_def setPolicy_def Let_def)
    qed
  qed
  then show "effectiveEnabled ?eff \<longrightarrow> serves w' role variant oper pol scope"
    and "(role', variant', oper', scope') \<noteq> (role, variant, oper, scope) \<Longrightarrow>
      serves w role' variant' oper' pol' scope' \<Longrightarrow> serves w' role' variant' oper' pol' scope'"
    and "length (ownedPolicies w') \<le> length (ownedPolicies w) + 1" by auto
qed

text \<open>A whole policy: its scopes are served and those of every other policy stay served.\<close>

lemma installPolicy_serves:
  assumes "installPolicy role oper pol variant w = (Inr (), w')" and "length (ownedPolicies w) + 3 < 2 ^ 64"
  shows "scope \<noteq> ScopeCount \<Longrightarrow> effectiveEnabled (cocclEffectiveCompressorScopeFor pol scope) \<Longrightarrow>
      serves w' role variant oper pol scope"
    and "(role', variant', oper') \<noteq> (role, variant, oper) \<Longrightarrow>
      serves w role' variant' oper' pol' scope' \<Longrightarrow> serves w' role' variant' oper' pol' scope'"
    and "length (ownedPolicies w') \<le> length (ownedPolicies w) + 3"
proof -
  let ?on = "\<lambda>s. effectiveEnabled (cocclEffectiveCompressorScopeFor pol s)"
  let ?serves = "\<lambda>w s. serves w role variant oper pol s"
  obtain w1 w2 where
    s1: "installScope role oper pol variant ScopeDefault w = (Inr (), w1)" and
    s2: "installScope role oper pol variant ScopeIntra w1 = (Inr (), w2)" and
    s3: "installScope role oper pol variant ScopeInter w2 = (Inr (), w')"
    using assms(1) by (auto simp: installPolicy_def bindC_eq_Inr)
  note i1 = installScope_serves [OF s1]
  have l1: "length (ownedPolicies w1) \<le> length (ownedPolicies w) + 1" and d1: "?on ScopeDefault \<longrightarrow> ?serves w1 ScopeDefault"
    using i1(1,3) assms(2) by auto
  note i2 = installScope_serves [OF s2]
  have l2: "length (ownedPolicies w2) \<le> length (ownedPolicies w) + 2" and
    d2: "?on ScopeDefault \<longrightarrow> ?serves w2 ScopeDefault" "?on ScopeIntra \<longrightarrow> ?serves w2 ScopeIntra"
    using i2(1,3) i2(2) [of role variant oper ScopeDefault] l1 d1 assms(2) by auto
  note i3 = installScope_serves [OF s3]
  have "?on ScopeDefault \<longrightarrow> ?serves w' ScopeDefault" "?on ScopeIntra \<longrightarrow> ?serves w' ScopeIntra"
    "?on ScopeInter \<longrightarrow> ?serves w' ScopeInter"
    using i3(1) i3(2) [of role variant oper ScopeDefault] i3(2) [of role variant oper ScopeIntra] l2 d2 assms(2) by auto
  then show "scope \<noteq> ScopeCount \<Longrightarrow> ?on scope \<Longrightarrow> ?serves w' scope" by (cases scope) auto
  show "length (ownedPolicies w') \<le> length (ownedPolicies w) + 3" using i3(3) l2 d2 assms(2) by auto
  assume other: "(role', variant', oper') \<noteq> (role, variant, oper)" and "serves w role' variant' oper' pol' scope'"
  then have "serves w1 role' variant' oper' pol' scope'" using i1(2) [of role' variant' oper' scope'] assms(2) by auto
  then have "serves w2 role' variant' oper' pol' scope'" using other i2(2) [of role' variant' oper' scope'] l1 d1 assms(2) by auto
  then show "serves w' role' variant' oper' pol' scope'" using other i3(2) [of role' variant' oper' scope'] l2 d2 assms(2) by auto
qed

text \<open>A served scope resolves to its plugin and threshold.\<close>

lemma serves_resolves:
  assumes "serves w role variant oper pol scope"
    and "role \<noteq> TrainingRoleCount" and "oper \<noteq> OperationCount" and "scope \<noteq> ScopeCount"
  shows "\<exists>r. cocclResolveCompressorPolicy w role (PolicyKey oper variant scope) = Inr r \<and>
    resolvedThresholdBytes r = policyThresholdBytes pol \<and>
    loadedPlugins w (scopeName (the (effectiveEntry (cocclEffectiveCompressorScopeFor pol scope))))
      = Some (plugin (policyStore w (resolvedCompressor r)))"
  using assms by (auto simp: cocclResolveCompressorPolicy_def serves_def Let_def)

text \<open>
  After a policy was installed, every scope that is enabled (by itself or by the default)
  resolves to a compressor of the plugin the configuration names for it, with the configured
  threshold.
\<close>

theorem install_policy_resolves:
  assumes "installPolicy role oper pol variant w = (Inr (), w')"
    and "length (ownedPolicies w) + 3 < 2 ^ 64"
    and "role \<noteq> TrainingRoleCount" and "oper \<noteq> OperationCount" and "scope \<noteq> ScopeCount"
    and "effectiveEnabled (cocclEffectiveCompressorScopeFor pol scope)"
  shows "\<exists>r. cocclResolveCompressorPolicy w' role (PolicyKey oper variant scope) = Inr r \<and>
    resolvedThresholdBytes r = policyThresholdBytes pol \<and>
    loadedPlugins w' (scopeName (the (effectiveEntry (cocclEffectiveCompressorScopeFor pol scope))))
      = Some (plugin (policyStore w' (resolvedCompressor r)))"
  by (rule serves_resolves [OF installPolicy_serves(1) [OF assms(1,2,5,6)] assms(3-5)])

text \<open>A configuration with a default compressor and one of its own for the inter-node scope.\<close>

definition examplePolicy :: cocclPrimitivePolicy where
  "examplePolicy = \<lparr>scopes = (\<lambda>s. case s of
       ScopeDefault \<Rightarrow> \<lparr>scopeConfigured = True, scopeEnabled = True, scopeName = ''x'', scopeValues = []\<rparr>
     | ScopeInter \<Rightarrow> \<lparr>scopeConfigured = True, scopeEnabled = True, scopeName = ''x'', scopeValues = []\<rparr>
     | _ \<Rightarrow> emptyScopeEntry), policyThresholdBytes = 4096\<rparr>"

definition exampleLoaded :: compressor_world where
  "exampleLoaded = emptyCompressorWorld\<lparr>loadedPlugins := [''x'' \<mapsto> bytePlugin]\<rparr>"

theorem install_policy_resolves_witness:
  "\<exists>w' r. installPolicy TrainingRoleUnknown AllReduce examplePolicy VariantDefault exampleLoaded = (Inr (), w') \<and>
     cocclResolveCompressorPolicy w' TrainingRoleUnknown (PolicyKey AllReduce VariantDefault ScopeIntra) = Inr r \<and>
     resolvedThresholdBytes r = 4096"
proof -
  let ?run = "installPolicy TrainingRoleUnknown AllReduce examplePolicy VariantDefault exampleLoaded"
  have "fst ?run = Inr ()" by code_simp
  then obtain w' where run: "?run = (Inr (), w')" by (metis prod.collapse)
  have "length (ownedPolicies exampleLoaded) + 3 < 2 ^ 64" by (simp add: exampleLoaded_def emptyCompressorWorld_def)
  moreover have "effectiveEnabled (cocclEffectiveCompressorScopeFor examplePolicy ScopeIntra)" by code_simp
  ultimately show ?thesis
    using install_policy_resolves [OF run, of ScopeIntra] run by (auto simp: examplePolicy_def)
qed

section \<open>Release of a device\<close>

lemma freePersistent_effect:
  "snd (freePersistent env ps result w) =
     w\<lparr>apiLog := apiLog w @ map (\<lambda>(slot, p). CudaMemory (cudaFree (persistentData p))) ps\<rparr>"
  by (induction env ps result w rule: freePersistent.induct) (simp_all add: callApi_def Let_def)

lemma destroyStates_effect:
  assumes "\<forall>(k, e) \<in> set es. stateDestroy e \<noteq> nullptr"
  shows "destroyStates env es w =
     (True, w\<lparr>apiLog := apiLog w @ map (\<lambda>(k, e). PluginDestroyState (stateDestroy e) (stateData e)) es\<rparr>)"
  using assms by (induction env es w rule: destroyStates.induct) (simp_all add: callApi_def)

lemma destroyStates_null:
  assumes "(k, e) \<in> set es" and "stateDestroy e = nullptr"
  shows "fst (destroyStates env es w) = False"
  using assms by (induction env es w rule: destroyStates.induct) auto

text \<open>
  What giving back a policy's resources on a device calls: the destructor of every state object, then
  \<^verbatim>\<open>cudaFree\<close> for every persistent buffer. It is possible when every entry has a destructor.
\<close>

definition deviceReleases :: "'w compressor_world_scheme \<Rightarrow> int \<Rightarrow> ptr \<Rightarrow> api_call list" where
  "deviceReleases w dev p = (case policyResources w p dev of None \<Rightarrow> []
     | Some res \<Rightarrow> map (\<lambda>(k, e). PluginDestroyState (stateDestroy e) (stateData e)) (pluginStates res) @
         map (\<lambda>(slot, q). CudaMemory (cudaFree (persistentData q))) (persistent res))"

definition destroyable :: "'w compressor_world_scheme \<Rightarrow> int \<Rightarrow> ptr \<Rightarrow> bool" where
  "destroyable w dev p \<longleftrightarrow> (case policyResources w p dev of None \<Rightarrow> True
     | Some res \<Rightarrow> (\<forall>(k, e) \<in> set (pluginStates res). stateDestroy e \<noteq> nullptr))"

text \<open>Whether a \<^verbatim>\<open>cudaFree\<close> of a sequence of calls fails.\<close>

fun someFreeFails :: "api_env \<Rightarrow> nat \<Rightarrow> api_call list \<Rightarrow> bool" where
  "someFreeFails env i [] \<longleftrightarrow> False"
| "someFreeFails env i (c # cs) \<longleftrightarrow>
     (case c of CudaMemory (cudaFree p) \<Rightarrow> status (env i c) \<noteq> ncclSuccess | _ \<Rightarrow> False) \<or> someFreeFails env (Suc i) cs"

lemma someFreeFails_append:
  "someFreeFails env i (xs @ ys) \<longleftrightarrow> someFreeFails env i xs \<or> someFreeFails env (i + length xs) ys"
  by (induction xs arbitrary: i) (auto split: api_call.splits cuda_memory_call.splits)

lemma someFreeFails_destroys: "\<not> someFreeFails env i (map (\<lambda>(k, e). PluginDestroyState (f e) (g e)) es)"
  by (induction es arbitrary: i) auto

definition firstFailure :: "ncclResult_t \<Rightarrow> bool \<Rightarrow> ncclResult_t" where
  "firstFailure result failed = (if result = ncclSuccess \<and> failed then ncclUnhandledCudaError else result)"

lemma firstFailure_simps [simp]:
  "firstFailure result False = result" "firstFailure (firstFailure result a) b = firstFailure result (a \<or> b)"
  by (auto simp: firstFailure_def)

lemma freePersistent_result:
  "fst (freePersistent env ps result w) = firstFailure result
     (someFreeFails env (logLen w) (map (\<lambda>(slot, p). CudaMemory (cudaFree (persistentData p))) ps))"
  by (induction env ps result w rule: freePersistent.induct)
    (auto simp: callApi_def Let_def firstFailure_def)

text \<open>One policy of the loop.\<close>

definition withoutDevice :: "int \<Rightarrow> ptr \<Rightarrow> 'w compressor_world_scheme \<Rightarrow> 'w compressor_world_scheme" where
  "withoutDevice dev p w = w\<lparr>apiLog := apiLog w @ deviceReleases w dev p,
     policyResources := (policyResources w)(p := (policyResources w p)(dev := None))\<rparr>"

lemma releasePolicies_step:
  assumes "destroyable w dev p"
  shows "releasePolicies env dev (p # ps) result w = releasePolicies env dev ps
    (firstFailure result (someFreeFails env (logLen w) (deviceReleases w dev p))) (withoutDevice dev p w)"
proof (cases "policyResources w p dev")
  case None
  then have "(policyResources w p)(dev := None) = policyResources w p" by auto
  with None show ?thesis by (simp add: deviceReleases_def withoutDevice_def)
next
  case (Some res)
  let ?ds = "map (\<lambda>(k, e). PluginDestroyState (stateDestroy e) (stateData e)) (pluginStates res)"
  let ?w0 = "w\<lparr>apiLog := apiLog w @ ?ds\<rparr>"
  have d: "destroyStates env (pluginStates res) w = (True, ?w0)"
    by (rule destroyStates_effect) (use assms Some in \<open>simp add: destroyable_def\<close>)
  obtain r1 w1 where f: "freePersistent env (persistent res) result ?w0 = (r1, w1)"
    by (cases "freePersistent env (persistent res) result ?w0")
  have "r1 = firstFailure result (someFreeFails env (logLen w) (deviceReleases w dev p))"
    using freePersistent_result [of env "persistent res" result ?w0] f Some
    by (simp add: deviceReleases_def someFreeFails_append someFreeFails_destroys)
  moreover have "w1 = w\<lparr>apiLog := apiLog w @ deviceReleases w dev p\<rparr>"
    using freePersistent_effect [of env "persistent res" result ?w0] f Some by (simp add: deviceReleases_def)
  ultimately show ?thesis using Some d f by (simp add: withoutDevice_def)
qed

lemma withoutDevice_others:
  assumes "q \<noteq> p"
  shows "deviceReleases (withoutDevice dev p w) dev q = deviceReleases w dev q"
    and "destroyable (withoutDevice dev p w) dev q = destroyable w dev q"
  using assms by (simp_all add: withoutDevice_def deviceReleases_def destroyable_def)

lemma releasePolicies_effect:
  assumes "distinct ps" and "\<forall>p \<in> set ps. destroyable w dev p"
    and "releasePolicies env dev ps result w = (r, w')"
  shows "r = firstFailure result (someFreeFails env (logLen w) (concat (map (deviceReleases w dev) ps))) \<and>
    w' = w\<lparr>apiLog := apiLog w @ concat (map (deviceReleases w dev) ps),
      policyResources := (\<lambda>p. if p \<in> set ps then (policyResources w p)(dev := None) else policyResources w p)\<rparr>"
  using assms
proof (induction ps arbitrary: result w)
  case (Cons p ps)
  let ?w1 = "withoutDevice dev p w"
  have others: "map (deviceReleases ?w1 dev) ps = map (deviceReleases w dev) ps"
    using Cons.prems(1) by (intro map_cong refl withoutDevice_others(1)) auto
  have "\<forall>q \<in> set ps. destroyable ?w1 dev q"
  proof
    fix q assume "q \<in> set ps"
    then show "destroyable ?w1 dev q" using Cons.prems(1,2) withoutDevice_others(2) [of q p dev w] by auto
  qed
  moreover have "releasePolicies env dev ps
      (firstFailure result (someFreeFails env (logLen w) (deviceReleases w dev p))) ?w1 = (r, w')"
    using Cons.prems(2,3) releasePolicies_step [of w dev p env ps result] by simp
  ultimately have step: "r = firstFailure (firstFailure result (someFreeFails env (logLen w) (deviceReleases w dev p)))
      (someFreeFails env (logLen ?w1) (concat (map (deviceReleases w dev) ps))) \<and>
    w' = ?w1\<lparr>apiLog := apiLog ?w1 @ concat (map (deviceReleases w dev) ps),
      policyResources := (\<lambda>p. if p \<in> set ps then (policyResources ?w1 p)(dev := None) else policyResources ?w1 p)\<rparr>"
    using Cons.IH [of ?w1 "firstFailure result (someFreeFails env (logLen w) (deviceReleases w dev p))"] Cons.prems(1)
    unfolding others by (simp only: distinct.simps)
  have "logLen ?w1 = logLen w + length (deviceReleases w dev p)" by (simp add: withoutDevice_def)
  moreover have "(\<lambda>q. if q \<in> set ps then (policyResources ?w1 q)(dev := None) else policyResources ?w1 q) =
      (\<lambda>q. if q \<in> set (p # ps) then (policyResources w q)(dev := None) else policyResources w q)"
    by (auto simp: withoutDevice_def)
  ultimately show ?case using step by (simp add: someFreeFails_append) (simp add: withoutDevice_def)
qed auto

text \<open>An entry without a destructor ends the process.\<close>

lemma releasePolicies_null:
  assumes "p \<in> set ps" and "\<not> destroyable w dev p"
  shows "fst (releasePolicies env dev ps result w) = ncclNumResults"
  using assms
proof (induction ps arbitrary: result w)
  case (Cons q ps)
  show ?case
  proof (cases "destroyable w dev q")
    case True
    then have "p \<noteq> q" using Cons.prems(2) by auto
    with Cons True show ?thesis by (simp add: releasePolicies_step withoutDevice_others(2) del: releasePolicies.simps)
  next
    case False
    then obtain res k e where "policyResources w q dev = Some res" "(k, e) \<in> set (pluginStates res)" "stateDestroy e = nullptr"
      by (auto simp: destroyable_def split: option.splits)
    with destroyStates_null [of k e "pluginStates res" env w] show ?thesis by (simp add: split_beta)
  qed
qed simp

text \<open>
  Destroying a communicator. \<open>unregister\<close> is the training assistant's part; it leaves the state of this
  component alone.
\<close>

lemma destroy_releases:
  assumes "communicatorsByDevice w (cudaDev comm) = Some n" and "distinct (ownedPolicies w)"
    and "cocclCompressorRuntimeDestroy env unregister comm w = (r, w')"
    and w0: "unregister comm w = w0" "apiLog w0 = apiLog w" "communicatorsByDevice w0 = communicatorsByDevice w"
      "rankByDevice w0 = rankByDevice w" "ownedPolicies w0 = ownedPolicies w" "policyResources w0 = policyResources w"
  shows "if n \<noteq> 1
    then r = ncclSuccess \<and> w' = w0\<lparr>communicatorsByDevice := (communicatorsByDevice w)(cudaDev comm \<mapsto> n - 1)\<rparr>
    else if \<exists>p \<in> set (ownedPolicies w). \<not> destroyable w (cudaDev comm) p then r = ncclNumResults
    else
      let calls = concat (map (deviceReleases w (cudaDev comm)) (ownedPolicies w)) in
      r = (if someFreeFails env (logLen w) calls then ncclUnhandledCudaError else ncclSuccess) \<and>
      w' = w0\<lparr>communicatorsByDevice := (communicatorsByDevice w)(cudaDev comm := None),
        rankByDevice := (rankByDevice w)(cudaDev comm := None), apiLog := apiLog w @ calls,
        policyResources := (\<lambda>p. if p \<in> set (ownedPolicies w) then (policyResources w p)(cudaDev comm := None)
                                else policyResources w p)\<rparr>"
proof (cases "n = 1")
  case True
  let ?dev = "cudaDev comm"
  let ?w1 = "w0\<lparr>communicatorsByDevice := (communicatorsByDevice w)(?dev := None), rankByDevice := (rankByDevice w)(?dev := None)\<rparr>"
  have rel: "releasePolicies env ?dev (ownedPolicies w) ncclSuccess ?w1 = (r, w')"
    using assms True by (simp add: cocclCompressorRuntimeDestroy_def Let_def)
  have same: "deviceReleases ?w1 ?dev = deviceReleases w ?dev" "destroyable ?w1 ?dev = destroyable w ?dev"
    using w0 by (auto simp: deviceReleases_def destroyable_def)
  show ?thesis
  proof (cases "\<exists>p \<in> set (ownedPolicies w). \<not> destroyable w ?dev p")
    case crash: True
    then obtain p where "p \<in> set (ownedPolicies w)" "\<not> destroyable ?w1 ?dev p" unfolding same by blast
    from releasePolicies_null [OF this, of env ncclSuccess] rel True crash show ?thesis by simp
  next
    case False
    then have ok: "\<forall>p \<in> set (ownedPolicies w). destroyable ?w1 ?dev p" unfolding same by blast
    from releasePolicies_effect [OF assms(2) ok rel] False True w0 show ?thesis
      unfolding same by (simp add: Let_def firstFailure_def cong: if_cong)
  qed
next
  case False
  then have "n - 1 \<noteq> 0" by simp
  with assms False show ?thesis by (simp add: cocclCompressorRuntimeDestroy_def Let_def)
qed

text \<open>
  A constructor that fails leaves an entry without a destructor, so the release of the device by its
  last communicator ends the process.
\<close>

theorem failed_state_breaks_release:
  assumes "getOrCreateState typeKey create destroyState (ex, w) = (reply, ex', w1)"
    and "\<not> nccl_ok (fst create)" and "map_of (pluginStates (resourcesOf w (execPolicy ex) (execDev ex))) typeKey = None"
    and "execPolicy ex \<in> set (ownedPolicies w)" and "execDev ex = cudaDev comm"
    and "communicatorsByDevice w (cudaDev comm) = Some 1"
  shows "fst reply = fst create \<and>
    fst (cocclCompressorRuntimeDestroy env (\<lambda>_ w. w) comm w1) = ncclNumResults"
proof -
  let ?p = "execPolicy ex" and ?dev = "execDev ex"
  let ?res = "resourcesOf w ?p ?dev"
  let ?e = "\<lparr>stateData = snd create, stateDestroy = nullptr\<rparr>"
  have w1: "w1 = putResources ?p ?dev (?res\<lparr>pluginStates := assocPut typeKey ?e (pluginStates ?res)\<rparr>) w"
    and reply: "fst reply = fst create"
    using assms(1-3) by (auto simp: getOrCreateState_def Let_def)
  have "map_of (assocPut typeKey ?e (pluginStates ?res)) typeKey = Some ?e" by (simp add: assocPut_lookup)
  then have "(typeKey, ?e) \<in> set (assocPut typeKey ?e (pluginStates ?res))" by (rule map_of_SomeD)
  then have "\<not> destroyable w2 ?dev ?p" if "policyResources w2 = policyResources w1" for w2 :: "'a compressor_world_scheme"
    using that by (force simp: destroyable_def w1 putResources_def)
  with assms(4-6) reply show ?thesis
    by (auto simp: cocclCompressorRuntimeDestroy_def Let_def w1 putResources_def intro!: releasePolicies_null)
qed

text \<open>A communicator of two ranks on device 0.\<close>

definition exampleDeviceComm :: ncclComm where
  "exampleDeviceComm = \<lparr>self = 16, rank = 0, nRanks = 2, node = 0, nNodes = 1, localRanks = 2, cudaDev = 0, commHash = 0,
     rankToNode = (\<lambda>_. 0), nodeLocalRanks = (\<lambda>_. 2), localRank = 0, localRankToRank = (\<lambda>l. l), nodeLocalRankToRank = (\<lambda>_ l. l)\<rparr>"

end
