(* ===== verification/Native_Call.thy ===== *)
theory Native_Call
  imports Compressor_Runtime Coccl_Operation
begin

text \<open>
  The native side of a call: the parameters captured at the public boundary (\<^verbatim>\<open>cocclInfo\<close>), the group
  depth and error of \<^verbatim>\<open>group.cc\<close> and \<^verbatim>\<open>group.h\<close>, the enqueue step of the NCCL core, the native
  collective entry points of \<^verbatim>\<open>collectives.cc\<close> and the guarded replay \<^verbatim>\<open>cocclReplayNativeCall\<close>.

  A public entry point first offers the call to the COCCL layer. While \<^verbatim>\<open>callerGuardActive\<close> is set
  that offer is declined at once, so what a replay runs is the part of the entry point after it:
  \<open>nativeCollective\<close> and so on; theory \<open>Coccl_Group\<close> proves that the two are the same. Likewise the hooks
  of \<^verbatim>\<open>ncclGroupEnd\<close> do nothing in the groups that are opened here (lemma \<open>group_end_inner\<close> there), which
  therefore end with \<open>ncclGroupEndInternal\<close>. Argument checks, task queues and launches of the core are
  answered by the environment; communicators are blocking.
\<close>

section \<open>Routines that return a result code\<close>

type_synonym 's coded = "'s \<Rightarrow> ncclResult_t \<times> 's"

definition checkR :: "'s coded \<Rightarrow> ('s, unit) comp" where
  "checkR m s = (let (r, s') = m s in (if nccl_ok r then Inr () else Inl r, s'))"

definition codeOf :: "('s, unit) comp \<Rightarrow> 's coded" where
  "codeOf m s = (case m s of (Inl e, s') \<Rightarrow> (e, s') | (Inr _, s') \<Rightarrow> (ncclSuccess, s'))"

lemma checkR_Inr: "checkR m s = (Inr u, s') \<longleftrightarrow> (\<exists>r. m s = (r, s') \<and> nccl_ok r)"
  by (auto simp: checkR_def Let_def split: prod.splits)

lemma snd_checkR [simp]: "snd (checkR m s) = snd (m s)"
  by (simp add: checkR_def Let_def split_beta)

lemma snd_codeOf [simp]: "snd (codeOf m s) = snd (m s)"
  by (simp add: codeOf_def split: prod.splits sum.splits)

section \<open>Groups\<close>

record native_world = compressor_world +
  callerGuardActive :: bool
  ncclGroupDepth :: int
  ncclGroupError :: ncclResult_t

definition ncclGroupStartInternal :: "'w native_world_scheme coded" where
  "ncclGroupStartInternal w = (ncclSuccess, w\<lparr>ncclGroupDepth := ncclGroupDepth w + 1\<rparr>)"

definition ncclGroupStart :: "'w native_world_scheme coded" where
  "ncclGroupStart = codeOf (checkR ncclGroupStartInternal)"

definition ncclGroupErrCheck :: "ncclResult_t \<Rightarrow> 'w native_world_scheme \<Rightarrow> 'w native_world_scheme" where
  "ncclGroupErrCheck ret w =
     (if ncclGroupDepth w > 0 \<and> ret \<noteq> ncclSuccess \<and> ret \<noteq> ncclInProgress then w\<lparr>ncclGroupError := ret\<rparr> else w)"

text \<open>
  The launch of the queued work is one call of the environment. A failure clears the group's error
  (\<^verbatim>\<open>groupCleanup\<close>).
\<close>

definition ncclGroupEndInternal :: "api_env \<Rightarrow> 'w native_world_scheme coded" where
  "ncclGroupEndInternal env w =
     (if ncclGroupDepth w = 0 then (ncclInvalidUsage, w)
      else
        let w1 = w\<lparr>ncclGroupDepth := ncclGroupDepth w - 1\<rparr> in
        if ncclGroupDepth w1 > 0 then (ncclSuccess, w1)
        else if ncclGroupError w1 \<noteq> ncclSuccess
        then (ncclGroupError w1, w1\<lparr>ncclGroupError := ncclSuccess\<rparr>)
        else
          let (r, w2) = callApi env (Nccl groupLaunch) w1 in
          if nccl_ok (status r) then (status r, w2)
          else (status r, w2\<lparr>ncclGroupError := ncclSuccess\<rparr>))"

text \<open>\<^verbatim>\<open>ncclEnqueueCheck\<close>: the checks and \<^verbatim>\<open>taskAppend\<close> are the environment's reply to the call.\<close>

definition ncclEnqueueCheck :: "api_env \<Rightarrow> nccl_call \<Rightarrow> 'w native_world_scheme coded" where
  "ncclEnqueueCheck env c w =
     (let (_, w1) = ncclGroupStartInternal w;
          (r, w2) = callApi env (Nccl c) w1;
          (ended, w3) = ncclGroupEndInternal env (ncclGroupErrCheck (status r) w2) in
      if nccl_ok ended then (status r, w3) else (ended, w3))"

section \<open>Calls\<close>

text \<open>A null communicator is \<open>None\<close>.\<close>

record cocclInfo =
  infoSend :: ptr
  infoRecv :: ptr
  infoCount :: size_t
  infoDatatype :: ncclDataType_t
  infoOp :: ncclRedOp_t
  infoPeer :: int
  infoFunc :: ncclFunc_t
  infoOperation :: cocclOperation
  infoComm :: "ncclComm option"
  infoStream :: ptr

definition emptyInfo :: cocclInfo where
  "emptyInfo = \<lparr>infoSend = nullptr, infoRecv = nullptr, infoCount = 0, infoDatatype = ncclNumTypes, infoOp = ncclSum,
     infoPeer = 0, infoFunc = ncclNumFuncs, infoOperation = OperationCount, infoComm = None, infoStream = nullptr\<rparr>"

text \<open>The address of a communicator, null when there is none.\<close>

definition commPtr :: "ncclComm option \<Rightarrow> ptr" where
  "commPtr comm = (case comm of None \<Rightarrow> nullptr | Some c \<Rightarrow> self c)"

text \<open>The native parts of the entry points, after the call was not taken over.\<close>

definition nativeCollective ::
  "api_env \<Rightarrow> ncclFunc_t \<Rightarrow> ptr \<Rightarrow> ptr \<Rightarrow> size_t \<Rightarrow> ncclDataType_t \<Rightarrow> ncclRedOp_t \<Rightarrow> ncclComm option \<Rightarrow> ptr \<Rightarrow>
   'w native_world_scheme coded" where
  "nativeCollective env func sendbuf recvbuf cnt dtype redop comm strm =
     codeOf (checkR (ncclEnqueueCheck env
       (ncclCollective func sendbuf recvbuf cnt dtype redop (commPtr comm) strm)))"

definition nativePointToPoint ::
  "api_env \<Rightarrow> ncclFunc_t \<Rightarrow> ptr \<Rightarrow> size_t \<Rightarrow> ncclDataType_t \<Rightarrow> int \<Rightarrow> ncclComm option \<Rightarrow> ptr \<Rightarrow>
   'w native_world_scheme coded" where
  "nativePointToPoint env func buf cnt dtype peer comm strm =
     ncclEnqueueCheck env (ncclPointToPoint func buf cnt dtype peer (commPtr comm) strm)"

definition setGuard :: "bool \<Rightarrow> 'w native_world_scheme \<Rightarrow> 'w native_world_scheme" where
  "setGuard b w = w\<lparr>callerGuardActive := b\<rparr>"

text \<open>Run with the caller guard set, and put the previous value back.\<close>

definition guarded :: "'w native_world_scheme coded \<Rightarrow> 'w native_world_scheme coded" where
  "guarded m w =
     (let previous = callerGuardActive w; (result, w1) = m (setGuard True w) in
      (result, setGuard previous w1))"

definition replaySendRecv :: "api_env \<Rightarrow> cocclInfo \<Rightarrow> 'w native_world_scheme coded" where
  "replaySendRecv env info =
     (if infoFunc info = ncclFuncSend
      then nativePointToPoint env ncclFuncSend (infoSend info) (infoCount info) (infoDatatype info)
             (infoPeer info) (infoComm info) (infoStream info)
      else nativePointToPoint env ncclFuncRecv (infoRecv info) (infoCount info) (infoDatatype info)
             (infoPeer info) (infoComm info) (infoStream info))"

text \<open>
  Native \<^verbatim>\<open>ncclAllToAll\<close>: a group of one receive and one send per rank, each a replayed SendRecv call.
  An error inside the group leaves the function.
\<close>

definition allToAllPair ::
  "ptr \<Rightarrow> ptr \<Rightarrow> size_t \<Rightarrow> ncclDataType_t \<Rightarrow> ncclComm option \<Rightarrow> ptr \<Rightarrow> nat \<Rightarrow> cocclInfo \<times> cocclInfo" where
  "allToAllPair sendbuf recvbuf cnt dtype comm strm r =
     (let shift = word_of_nat r * cnt * size_of_int (ncclTypeSize dtype);
          base = emptyInfo\<lparr>infoCount := cnt, infoDatatype := dtype, infoPeer := int r,
            infoOperation := SendRecv, infoComm := comm, infoStream := strm\<rparr> in
      (base\<lparr>infoRecv := recvbuf + shift, infoFunc := ncclFuncRecv\<rparr>,
       base\<lparr>infoSend := sendbuf + shift, infoFunc := ncclFuncSend\<rparr>))"

definition nativeAllToAll ::
  "api_env \<Rightarrow> ptr \<Rightarrow> ptr \<Rightarrow> size_t \<Rightarrow> ncclDataType_t \<Rightarrow> ncclComm \<Rightarrow> ptr \<Rightarrow> 'w native_world_scheme coded" where
  "nativeAllToAll env sendbuf recvbuf cnt dtype comm strm =
     codeOf
       (bindC (checkR ncclGroupStart) (\<lambda>_.
        bindC (forC [0..<nat (nRanks comm)] (\<lambda>r.
          let (rcv, snt) = allToAllPair sendbuf recvbuf cnt dtype (Some comm) strm r in
          bindC (checkR (guarded (replaySendRecv env rcv))) (\<lambda>_.
          checkR (guarded (replaySendRecv env snt))))) (\<lambda>_.
        checkR (ncclGroupEndInternal env))))"

text \<open>Replay of a captured call; the callers replay calls with a communicator.\<close>

definition cocclReplayNativeCall :: "api_env \<Rightarrow> cocclInfo \<Rightarrow> 'w native_world_scheme coded" where
  "cocclReplayNativeCall env info =
     guarded (case infoOperation info of
        AllGather \<Rightarrow> nativeCollective env ncclFuncAllGather (infoSend info) (infoRecv info) (infoCount info)
          (infoDatatype info) ncclSum (infoComm info) (infoStream info)
      | ReduceScatter \<Rightarrow> nativeCollective env ncclFuncReduceScatter (infoSend info) (infoRecv info) (infoCount info)
          (infoDatatype info) (infoOp info) (infoComm info) (infoStream info)
      | AllReduce \<Rightarrow> nativeCollective env ncclFuncAllReduce (infoSend info) (infoRecv info) (infoCount info)
          (infoDatatype info) (infoOp info) (infoComm info) (infoStream info)
      | AllToAll \<Rightarrow> nativeAllToAll env (infoSend info) (infoRecv info) (infoCount info) (infoDatatype info)
          (the (infoComm info)) (infoStream info)
      | SendRecv \<Rightarrow> replaySendRecv env info
      | OperationCount \<Rightarrow> Pair ncclInvalidArgument)"

section \<open>Groups stay balanced\<close>

text \<open>Inside a group, or outside one: the depth is never negative.\<close>

lemma groupStart_run [simp]:
  "ncclGroupStart w = (ncclSuccess, w\<lparr>ncclGroupDepth := ncclGroupDepth w + 1\<rparr>)"
  by (simp add: ncclGroupStart_def codeOf_def checkR_def ncclGroupStartInternal_def)

lemma groupEnd_depth:
  assumes "0 < ncclGroupDepth w"
  shows "ncclGroupDepth (snd (ncclGroupEndInternal env w)) = ncclGroupDepth w - 1"
  using assms by (auto simp: ncclGroupEndInternal_def callApi_def Let_def)

lemma groupErrCheck_fields [simp]:
  "ncclGroupDepth (ncclGroupErrCheck r w) = ncclGroupDepth w"
  "callerGuardActive (ncclGroupErrCheck r w) = callerGuardActive w"
  "apiLog (ncclGroupErrCheck r w) = apiLog w"
  by (simp_all add: ncclGroupErrCheck_def)

lemma enqueue_depth:
  assumes "0 \<le> ncclGroupDepth w"
  shows "ncclGroupDepth (snd (ncclEnqueueCheck env c w)) = ncclGroupDepth w"
  using assms
  by (simp add: ncclEnqueueCheck_def ncclGroupStartInternal_def callApi_def Let_def split_beta groupEnd_depth)

lemma guarded_depth:
  assumes "\<And>w. 0 \<le> ncclGroupDepth w \<Longrightarrow> ncclGroupDepth (snd (m w)) = ncclGroupDepth w" and "0 \<le> ncclGroupDepth w"
  shows "ncclGroupDepth (snd (guarded m w)) = ncclGroupDepth w"
  using assms by (simp add: guarded_def setGuard_def Let_def split_beta)

lemma guarded_guard [simp]: "callerGuardActive (snd (guarded m w)) = callerGuardActive w"
  by (simp add: guarded_def setGuard_def Let_def split_beta)

lemma replaySendRecv_depth:
  "0 \<le> ncclGroupDepth w \<Longrightarrow> ncclGroupDepth (snd (replaySendRecv env info w)) = ncclGroupDepth w"
  by (simp add: replaySendRecv_def nativePointToPoint_def enqueue_depth)

text \<open>An append that fails inside a group: its code is the result, and the group's error.\<close>

lemma enqueue_fails_in_group:
  assumes "0 < ncclGroupDepth w" and "\<not> nccl_ok (status (env (length (apiLog w)) (Nccl c)))"
  shows "ncclEnqueueCheck env c w = (status (env (length (apiLog w)) (Nccl c)),
    w\<lparr>apiLog := apiLog w @ [Nccl c], ncclGroupError := status (env (length (apiLog w)) (Nccl c))\<rparr>)"
  using assms
  by (simp add: ncclEnqueueCheck_def ncclGroupStartInternal_def callApi_def ncclGroupErrCheck_def nccl_ok_def
      ncclGroupEndInternal_def Let_def)

text \<open>
  C14: a native all-to-all that fails leaves its group open. If the core refuses the first receive,
  \<^verbatim>\<open>ncclAllToAll\<close> returns the error with the group depth one higher than before and the error still
  recorded, so no later call of the thread is launched until somebody ends a group that the
  application never started.
\<close>

definition firstReceive :: "ptr \<Rightarrow> size_t \<Rightarrow> ncclDataType_t \<Rightarrow> ncclComm \<Rightarrow> ptr \<Rightarrow> nccl_call" where
  "firstReceive recvbuf cnt dtype comm strm = ncclPointToPoint ncclFuncRecv recvbuf cnt dtype 0 (self comm) strm"

theorem alltoall_failure_leaves_group_open:
  assumes "0 < nRanks comm" and "0 \<le> ncclGroupDepth w"
    and "status (env (length (apiLog w)) (Nccl (firstReceive recvbuf cnt dtype comm strm))) = e" and "\<not> nccl_ok e"
    and "nativeAllToAll env sendbuf recvbuf cnt dtype comm strm w = (r, w')"
  shows "r = e \<and> ncclGroupDepth w' = ncclGroupDepth w + 1 \<and> ncclGroupError w' = e"
proof -
  obtain ns where ranks: "[0..<nat (nRanks comm)] = 0 # ns" using assms(1) by (simp add: upt_rec)
  let ?w = "setGuard True (w\<lparr>ncclGroupDepth := ncclGroupDepth w + 1\<rparr>)"
  let ?rcv = "fst (allToAllPair sendbuf recvbuf cnt dtype (Some comm) strm 0)"
  have "replaySendRecv env ?rcv ?w = (e, ?w\<lparr>apiLog := apiLog ?w @ [Nccl (firstReceive recvbuf cnt dtype comm strm)], ncclGroupError := e\<rparr>)"
    using assms(2-4) enqueue_fails_in_group [of ?w env "firstReceive recvbuf cnt dtype comm strm"]
    by (simp add: replaySendRecv_def nativePointToPoint_def allToAllPair_def Let_def emptyInfo_def commPtr_def
        firstReceive_def setGuard_def)
  then show ?thesis
    using assms(4,5)
    by (simp add: nativeAllToAll_def codeOf_def bindC_def checkR_def ranks guarded_def Let_def split_beta setGuard_def)
      auto
qed

definition refusingEnv :: api_env where
  "refusingEnv = (\<lambda>i c. case c of
      Nccl (ncclPointToPoint f b n t p k s) \<Rightarrow> \<lparr>status = ncclInvalidArgument, outValue = 0\<rparr>
    | _ \<Rightarrow> \<lparr>status = ncclSuccess, outValue = 0\<rparr>)"

definition exampleNative :: native_world where
  "exampleNative = compressor_world.extend byteWorld \<lparr>callerGuardActive = False, ncclGroupDepth = 0, ncclGroupError = ncclSuccess\<rparr>"

theorem alltoall_failure_leaves_group_open_witness:
  "\<exists>r w'. nativeAllToAll refusingEnv 4096 8192 16 ncclInt8 exampleDeviceComm 7 exampleNative = (r, w') \<and>
     r = ncclInvalidArgument \<and> ncclGroupDepth w' = 1 \<and> ncclGroupError w' = ncclInvalidArgument"
proof -
  obtain r w' where run: "nativeAllToAll refusingEnv 4096 8192 16 ncclInt8 exampleDeviceComm 7 exampleNative = (r, w')"
    by fastforce
  have "ncclGroupDepth exampleNative = 0" by (simp add: exampleNative_def compressor_world.defs)
  with alltoall_failure_leaves_group_open [OF _ _ _ _ run, of ncclInvalidArgument] run show ?thesis
    by (simp add: exampleDeviceComm_def refusingEnv_def firstReceive_def)
qed

end
