(* ===== verification/Frame_Exchange.thy ===== *)
theory Frame_Exchange
  imports Native_Call
begin

text \<open>
  The byte exchange of framed payloads, \<^verbatim>\<open>core/pipeline/coccl_frame_exchange.cc\<close>: the entries of an
  all-to-all and of an all-gather of frames, and the commit of a list of entries as one group of
  native receives and sends.
\<close>

section \<open>Entries\<close>

record cocclFrameExchange =
  exPeer :: int
  sendSlot :: ptr
  recvSlot :: ptr
  sendBytes :: size_t
  recvBytes :: size_t
  slotBytes :: size_t
  exComm :: "ncclComm option"
  exStream :: ptr

definition validSlot :: "ptr \<Rightarrow> size_t \<Rightarrow> size_t \<Rightarrow> bool" where
  "validSlot slot bytes slotSize =
     (if bytes = 0 then slot = nullptr \<or> slotSize \<noteq> 0 else slot \<noteq> nullptr \<and> bytes \<le> slotSize)"

definition frameSlot :: "ptr \<Rightarrow> size_t \<Rightarrow> size_t \<Rightarrow> ptr option" where
  "frameSlot base frm strideBytes =
     (if base = nullptr \<or> strideBytes = 0 \<or> frm > SIZE_MAX div strideBytes then None
      else Some (base + frm * strideBytes))"

definition cocclFrameMetadataValid :: "cocclCompressorFrameMetadata \<Rightarrow> size_t \<Rightarrow> bool" where
  "cocclFrameMetadataValid metadata frameStrideBytes \<longleftrightarrow>
     payloadBytes metadata > 0 \<and> payloadBytes metadata \<le> frameStrideBytes \<and>
     (encoding metadata = cocclCompressorFrameEncoded \<or> encoding metadata = cocclCompressorFrameRaw)"

text \<open>
  The loop body the two builders share. The metadata arrays in host memory are functions of the
  index; the filled part of the array of exchanges is the result.
\<close>

definition frameEntry ::
  "int \<Rightarrow> ptr \<Rightarrow> size_t \<Rightarrow> ptr \<Rightarrow> size_t \<Rightarrow> size_t \<Rightarrow> cocclCompressorFrameMetadata \<Rightarrow> cocclCompressorFrameMetadata \<Rightarrow>
   cocclFrameExchange result" where
  "frameEntry peer sendBase sendIndex recvBase recvIndex strideBytes snt rcv =
     (if \<not> cocclFrameMetadataValid snt strideBytes \<or> \<not> cocclFrameMetadataValid rcv strideBytes
      then Inl ncclInvalidUsage
      else
        bindE (fromOption ncclInvalidUsage (frameSlot sendBase sendIndex strideBytes)) (\<lambda>sslot.
        bindE (fromOption ncclInvalidUsage (frameSlot recvBase recvIndex strideBytes)) (\<lambda>rslot.
          Inr \<lparr>exPeer = peer, sendSlot = sslot, recvSlot = rslot, sendBytes = payloadBytes snt,
               recvBytes = payloadBytes rcv, slotBytes = strideBytes, exComm = None, exStream = nullptr\<rparr>)))"

type_synonym frame_metadata = "size_t \<Rightarrow> cocclCompressorFrameMetadata"

definition cocclBuildAllToAllFrameExchanges ::
  "ptr \<Rightarrow> ptr \<Rightarrow> size_t \<Rightarrow> size_t \<Rightarrow> int \<Rightarrow> frame_metadata \<Rightarrow> frame_metadata \<Rightarrow> size_t \<Rightarrow>
   cocclFrameExchange list result" where
  "cocclBuildAllToAllFrameExchanges sendBase recvBase frames strideBytes ranks sendMeta recvMeta capacity =
     (if frames = 0 \<or> ranks \<le> 0 \<or> frames mod size_of_int ranks \<noteq> 0 \<or> capacity < frames
      then Inl ncclInvalidArgument
      else
        let framesPerPeer = frames div size_of_int ranks in
        mapE (\<lambda>(peer, frm).
            let frameIndex = word_of_nat peer * framesPerPeer + word_of_nat frm in
            frameEntry (int peer) sendBase frameIndex recvBase frameIndex strideBytes
              (sendMeta frameIndex) (recvMeta frameIndex))
          (List.product [0..<nat ranks] [0..<unat framesPerPeer]))"

definition cocclBuildAllGatherFrameExchanges ::
  "ptr \<Rightarrow> ptr \<Rightarrow> size_t \<Rightarrow> size_t \<Rightarrow> int \<Rightarrow> frame_metadata \<Rightarrow> frame_metadata \<Rightarrow> size_t \<Rightarrow>
   cocclFrameExchange list result" where
  "cocclBuildAllGatherFrameExchanges sendBase recvBase localFrames strideBytes ranks sendMeta recvMeta capacity =
     (if localFrames = 0 \<or> ranks \<le> 0 \<or> localFrames > SIZE_MAX div size_of_int ranks \<or>
         localFrames * size_of_int ranks = 0 \<or> capacity < localFrames * size_of_int ranks
      then Inl ncclInvalidArgument
      else
        mapE (\<lambda>(peer, frm).
            let recvIndex = word_of_nat peer * localFrames + word_of_nat frm in
            frameEntry (int peer) sendBase (word_of_nat frm) recvBase recvIndex strideBytes
              (sendMeta (word_of_nat frm)) (recvMeta recvIndex))
          (List.product [0..<nat ranks] [0..<unat localFrames]))"

section \<open>Commit\<close>

definition exchangeComm :: "cocclFrameExchange \<Rightarrow> ncclComm option \<Rightarrow> ncclComm option" where
  "exchangeComm x comm = (case exComm x of None \<Rightarrow> comm | Some c \<Rightarrow> Some c)"

definition exchangeStream :: "cocclFrameExchange \<Rightarrow> ptr \<Rightarrow> ptr" where
  "exchangeStream x strm = (if exComm x = None then strm else exStream x)"

definition exchangeValid :: "ncclComm option \<Rightarrow> cocclFrameExchange \<Rightarrow> bool" where
  "exchangeValid comm x \<longleftrightarrow>
     (case exchangeComm x comm of
        None \<Rightarrow> False
      | Some c \<Rightarrow> \<not> (exPeer x < 0 \<or> exPeer x \<ge> nRanks c \<or> (sendBytes x = 0 \<and> recvBytes x = 0) \<or>
                   \<not> validSlot (sendSlot x) (sendBytes x) (slotBytes x) \<or>
                   \<not> validSlot (recvSlot x) (recvBytes x) (slotBytes x)))"

definition recvInfo :: "cocclFrameExchange \<Rightarrow> ncclComm option \<Rightarrow> ptr \<Rightarrow> cocclInfo" where
  "recvInfo x comm strm = emptyInfo\<lparr>infoRecv := recvSlot x, infoCount := recvBytes x, infoDatatype := ncclInt8,
     infoPeer := exPeer x, infoFunc := ncclFuncRecv, infoOperation := SendRecv,
     infoComm := exchangeComm x comm, infoStream := exchangeStream x strm\<rparr>"

definition sendInfo :: "cocclFrameExchange \<Rightarrow> ncclComm option \<Rightarrow> ptr \<Rightarrow> cocclInfo" where
  "sendInfo x comm strm = emptyInfo\<lparr>infoSend := sendSlot x, infoCount := sendBytes x, infoDatatype := ncclInt8,
     infoPeer := exPeer x, infoFunc := ncclFuncSend, infoOperation := SendRecv,
     infoComm := exchangeComm x comm, infoStream := exchangeStream x strm\<rparr>"

text \<open>The calls of one entry: the receive, then the send, each unless its byte count is zero.\<close>

definition exchangeInfos :: "ncclComm option \<Rightarrow> ptr \<Rightarrow> cocclFrameExchange \<Rightarrow> cocclInfo list" where
  "exchangeInfos comm strm x =
     (if recvBytes x \<noteq> 0 then [recvInfo x comm strm] else []) @
     (if sendBytes x \<noteq> 0 then [sendInfo x comm strm] else [])"

text \<open>The loop, left by \<^verbatim>\<open>break\<close> at the first result that is not a success.\<close>

fun replayAll :: "api_env \<Rightarrow> cocclInfo list \<Rightarrow> 'w native_world_scheme coded" where
  "replayAll env [] w = (ncclSuccess, w)"
| "replayAll env (info # infos) w =
     (case cocclReplayNativeCall env info w of
        (ret, w1) \<Rightarrow> if ret \<noteq> ncclSuccess then (ret, w1) else replayAll env infos w1)"

definition cocclCommitFrameExchange ::
  "api_env \<Rightarrow> cocclFrameExchange list \<Rightarrow> ncclComm option \<Rightarrow> ptr \<Rightarrow> 'w native_world_scheme coded" where
  "cocclCommitFrameExchange env exchanges comm strm w =
     (if exchanges = [] \<or> \<not> list_all (exchangeValid comm) exchanges then (ncclInvalidArgument, w)
      else
        case ncclGroupStart w of
          (started, w0) \<Rightarrow>
            if started \<noteq> ncclSuccess then (started, w0)
            else
              let (ret, w1) = replayAll env (concat (map (exchangeInfos comm strm) exchanges)) w0;
                  (endResult, w2) = ncclGroupEndInternal env w1 in
              (if ret = ncclSuccess then endResult else ret, w2))"

section \<open>Frames of an exchange\<close>

lemma mapE_map:
  assumes "mapE f xs = Inr ys" and "\<And>x y. x \<in> set xs \<Longrightarrow> f x = Inr y \<Longrightarrow> y = g x"
  shows "ys = map g xs"
  using assms
proof (induction xs arbitrary: ys)
  case Nil
  then show ?case by simp
next
  case (Cons x xs)
  then obtain z zs where z: "f x = Inr z" "mapE f xs = Inr zs" "ys = z # zs"
    by (auto simp: bindE_eq_Inr)
  have "z = g x" by (rule Cons.prems(2) [OF _ z(1)]) simp
  moreover have "zs = map g xs" by (rule Cons.IH [OF z(2)]) (rule Cons.prems(2), simp_all)
  ultimately show ?case by (simp add: z(3))
qed

lemma frameSlot_Some:
  assumes "frameSlot base frm stride = Some slot"
  shows "slot = base + frm * stride" and "unat (frm * stride) = unat frm * unat stride" and "base \<noteq> 0"
proof -
  have *: "base \<noteq> 0" "stride \<noteq> 0" "\<not> frm > SIZE_MAX div stride" "slot = base + frm * stride"
    using assms by (auto simp: frameSlot_def split: if_splits)
  then show "slot = base + frm * stride" "base \<noteq> 0" by simp_all
  show "unat (frm * stride) = unat frm * unat stride" by (rule div_guard_exact) (use * in auto)
qed

lemma frameEntry_Inr:
  assumes "frameEntry peer sb si rb ri stride snt rcv = Inr x"
  shows "x = \<lparr>exPeer = peer, sendSlot = sb + si * stride, recvSlot = rb + ri * stride, sendBytes = payloadBytes snt,
      recvBytes = payloadBytes rcv, slotBytes = stride, exComm = None, exStream = nullptr\<rparr>"
    and "0 < payloadBytes snt" "payloadBytes snt \<le> stride" "0 < payloadBytes rcv" "payloadBytes rcv \<le> stride"
    and "unat (si * stride) = unat si * unat stride" "unat (ri * stride) = unat ri * unat stride"
    and "sb \<noteq> 0" "rb \<noteq> 0"
proof -
  obtain s r where *: "frameSlot sb si stride = Some s" "frameSlot rb ri stride = Some r"
    "cocclFrameMetadataValid snt stride" "cocclFrameMetadataValid rcv stride"
    and x: "x = \<lparr>exPeer = peer, sendSlot = s, recvSlot = r, sendBytes = payloadBytes snt,
      recvBytes = payloadBytes rcv, slotBytes = stride, exComm = None, exStream = nullptr\<rparr>"
    using assms by (auto simp: frameEntry_def result_simps split: if_splits)
  note s = frameSlot_Some [OF *(1)] and r = frameSlot_Some [OF *(2)]
  show "x = \<lparr>exPeer = peer, sendSlot = sb + si * stride, recvSlot = rb + ri * stride, sendBytes = payloadBytes snt,
      recvBytes = payloadBytes rcv, slotBytes = stride, exComm = None, exStream = nullptr\<rparr>"
    using x s(1) r(1) by simp
  show "0 < payloadBytes snt" "payloadBytes snt \<le> stride" "0 < payloadBytes rcv" "payloadBytes rcv \<le> stride"
    using *(3,4) by (simp_all add: cocclFrameMetadataValid_def)
  show "unat (si * stride) = unat si * unat stride" "unat (ri * stride) = unat ri * unat stride" "sb \<noteq> 0" "rb \<noteq> 0"
    using s r by simp_all
qed

text \<open>Row-major indices in 64 bits.\<close>

lemma word_of_nat_unat_size: "word_of_nat (unat x) = (x :: size_t)"
  by simp

lemma unat_row_index:
  assumes "peer < n" and "frm < unat m" and "n * unat m < 2 ^ 64"
  shows "unat (word_of_nat peer * m + word_of_nat frm :: size_t) = peer * unat m + frm"
proof -
  have "(peer + 1) * unat m \<le> n * unat m" using assms(1) by (intro mult_le_mono1) simp
  then have b: "peer * unat m + unat m \<le> n * unat m" by simp
  have "0 < unat m" using assms(2) by simp
  then have "n \<le> n * unat m" by simp
  with assms(1,3) have p: "unat (word_of_nat peer :: size_t) = peer" by (intro unat_word_of_nat_size) linarith
  have f: "unat (word_of_nat frm :: size_t) = frm" using assms(2,3) b by (intro unat_word_of_nat_size) linarith
  have pm: "unat (word_of_nat peer * m) = peer * unat m"
    using b assms by (subst unat_mult_exact) (simp_all add: p)
  show ?thesis
    using b assms by (subst unat_add_exact) (simp_all add: pm f)
qed

lemma row_index_nat:
  assumes "peer < n" and "frm < unat m" and "n * unat m < 2 ^ 64"
  shows "(word_of_nat peer * m + word_of_nat frm :: size_t) = word_of_nat (peer * unat m + frm)"
  using unat_row_index [OF assms] by (metis word_of_nat_unat_size)

text \<open>Both builders produce one entry per pair of a peer and a frame, peers first.\<close>

definition frameRow ::
  "ptr \<Rightarrow> ptr \<Rightarrow> size_t \<Rightarrow> frame_metadata \<Rightarrow> frame_metadata \<Rightarrow> (nat \<times> nat \<Rightarrow> nat) \<Rightarrow> (nat \<times> nat \<Rightarrow> nat) \<Rightarrow>
   nat \<times> nat \<Rightarrow> cocclFrameExchange" where
  "frameRow sb rb stride sendMeta recvMeta sendAt recvAt pf =
     \<lparr>exPeer = int (fst pf), sendSlot = sb + word_of_nat (sendAt pf) * stride,
      recvSlot = rb + word_of_nat (recvAt pf) * stride,
      sendBytes = payloadBytes (sendMeta (word_of_nat (sendAt pf))),
      recvBytes = payloadBytes (recvMeta (word_of_nat (recvAt pf))), slotBytes = stride, exComm = None, exStream = nullptr\<rparr>"

definition rowIndex :: "nat \<Rightarrow> nat \<times> nat \<Rightarrow> nat" where
  "rowIndex m pf = fst pf * m + snd pf"

definition entryFits :: "size_t \<Rightarrow> cocclFrameExchange \<Rightarrow> bool" where
  "entryFits stride x \<longleftrightarrow> 0 < sendBytes x \<and> sendBytes x \<le> stride \<and> 0 < recvBytes x \<and> recvBytes x \<le> stride"

lemma frameEntry_row:
  assumes "frameEntry (int (fst pf)) sb (word_of_nat (sendAt pf)) rb (word_of_nat (recvAt pf)) stride
             (sendMeta (word_of_nat (sendAt pf))) (recvMeta (word_of_nat (recvAt pf))) = Inr x"
  shows "x = frameRow sb rb stride sendMeta recvMeta sendAt recvAt pf" and "entryFits stride x"
    and "sendAt pf < 2 ^ 64 \<Longrightarrow> unat (word_of_nat (sendAt pf) * stride) = sendAt pf * unat stride"
    and "recvAt pf < 2 ^ 64 \<Longrightarrow> unat (word_of_nat (recvAt pf) * stride) = recvAt pf * unat stride"
  using frameEntry_Inr [OF assms] by (auto simp: frameRow_def entryFits_def unat_word_of_nat_size)

lemma unat_cint: "0 \<le> n \<Longrightarrow> n < 2 ^ 31 \<Longrightarrow> unat (size_of_int n) = nat n"
  by (rule unat_size_of_int) simp_all

lemma product_set: "pf \<in> set (List.product [0..<n] [0..<m]) \<longleftrightarrow> fst pf < n \<and> snd pf < m"
  by (cases pf) simp

lemma rowIndex_less: "fst pf < n \<Longrightarrow> snd pf < m \<Longrightarrow> rowIndex m pf < n * m"
proof -
  assume "fst pf < n" "snd pf < m"
  then have "rowIndex m pf < Suc (fst pf) * m" and "Suc (fst pf) * m \<le> n * m"
    by (simp add: rowIndex_def) (use \<open>fst pf < n\<close> in \<open>intro mult_le_mono1; simp\<close>)
  then show ?thesis by linarith
qed

text \<open>
  The two loops: all entries are rows, they fit the stride, and the offsets of the slots are exact.
\<close>

lemma build_rows:
  assumes run: "mapE (\<lambda>(peer, frm). frameEntry (int peer) sb (sendIx peer frm) rb (recvIx peer frm) stride
             (sendMeta (sendIx peer frm)) (recvMeta (recvIx peer frm))) (List.product [0..<n] [0..<m]) = Inr xs"
    and six: "\<And>p f. p < n \<Longrightarrow> f < m \<Longrightarrow> sendIx p f = word_of_nat (sendAt (p, f)) \<and> sendAt (p, f) < 2 ^ 64"
    and rix: "\<And>p f. p < n \<Longrightarrow> f < m \<Longrightarrow> recvIx p f = word_of_nat (recvAt (p, f)) \<and> recvAt (p, f) < 2 ^ 64"
  shows "xs = map (frameRow sb rb stride sendMeta recvMeta sendAt recvAt) (List.product [0..<n] [0..<m])"
    and "pf \<in> set (List.product [0..<n] [0..<m]) \<Longrightarrow>
      entryFits stride (frameRow sb rb stride sendMeta recvMeta sendAt recvAt pf) \<and>
      unat (word_of_nat (sendAt pf) * stride) = sendAt pf * unat stride \<and>
      unat (word_of_nat (recvAt pf) * stride) = recvAt pf * unat stride"
proof -
  let ?ps = "List.product [0..<n] [0..<m]"
  let ?row = "frameRow sb rb stride sendMeta recvMeta sendAt recvAt"
  let ?f = "\<lambda>(peer, frm). frameEntry (int peer) sb (sendIx peer frm) rb (recvIx peer frm) stride
             (sendMeta (sendIx peer frm)) (recvMeta (recvIx peer frm))"
  have entry: "?f pf = frameEntry (int (fst pf)) sb (word_of_nat (sendAt pf)) rb (word_of_nat (recvAt pf)) stride
             (sendMeta (word_of_nat (sendAt pf))) (recvMeta (word_of_nat (recvAt pf)))"
    and lt: "sendAt pf < 2 ^ 64" "recvAt pf < 2 ^ 64" if "pf \<in> set ?ps" for pf
    using that [unfolded product_set] six [of "fst pf" "snd pf"] rix [of "fst pf" "snd pf"] by (simp_all add: split_beta)
  show "xs = map ?row ?ps"
  proof (rule mapE_map [OF run])
    fix pf y
    assume pf: "pf \<in> set ?ps" and y: "?f pf = Inr y"
    show "y = ?row pf" 
      by (rule frameEntry_row(1) [where pf = pf and sendAt = sendAt and recvAt = recvAt and sendMeta = sendMeta and recvMeta = recvMeta])
        (rule y [unfolded entry [OF pf]])
  qed
  assume pf: "pf \<in> set ?ps"
  then obtain i where "i < length ?ps" "pf = ?ps ! i" by (metis in_set_conv_nth)
  with mapE_Inr_nth(2) [OF run, of i] obtain y where "?f pf = Inr y" by simp
  then have e: "frameEntry (int (fst pf)) sb (word_of_nat (sendAt pf)) rb (word_of_nat (recvAt pf)) stride
             (sendMeta (word_of_nat (sendAt pf))) (recvMeta (word_of_nat (recvAt pf))) = Inr y"
    unfolding entry [OF pf] .
  note f = frameEntry_row [where pf = pf and sendAt = sendAt and recvAt = recvAt and sendMeta = sendMeta and recvMeta = recvMeta, OF e]
  show "entryFits stride (?row pf) \<and> unat (word_of_nat (sendAt pf) * stride) = sendAt pf * unat stride \<and>
      unat (word_of_nat (recvAt pf) * stride) = recvAt pf * unat stride"
    using f(2) f(3) [OF lt(1) [OF pf]] f(4) [OF lt(2) [OF pf]] by (simp add: f(1))
qed

lemma build_alltoall_Inr:
  assumes build: "cocclBuildAllToAllFrameExchanges sb rb frames stride ranks sendMeta recvMeta capacity = Inr xs"
    and "ranks < 2 ^ 31"
  defines "m \<equiv> unat frames div nat ranks"
  shows "unat frames = nat ranks * m" and "0 < nat ranks" and "0 < m"
    and "xs = map (frameRow sb rb stride sendMeta recvMeta (rowIndex m) (rowIndex m)) (List.product [0..<nat ranks] [0..<m])"
    and "pf \<in> set (List.product [0..<nat ranks] [0..<m]) \<Longrightarrow>
      entryFits stride (frameRow sb rb stride sendMeta recvMeta (rowIndex m) (rowIndex m) pf) \<and>
      unat (word_of_nat (rowIndex m pf) * stride) = rowIndex m pf * unat stride"
proof -
  let ?r = "size_of_int ranks" and ?fpp = "frames div size_of_int ranks"
  have g: "frames \<noteq> 0" "0 < ranks" "frames mod ?r = 0"
    and run: "mapE (\<lambda>(peer, frm). frameEntry (int peer) sb (word_of_nat peer * ?fpp + word_of_nat frm) rb
        (word_of_nat peer * ?fpp + word_of_nat frm) stride (sendMeta (word_of_nat peer * ?fpp + word_of_nat frm))
        (recvMeta (word_of_nat peer * ?fpp + word_of_nat frm))) (List.product [0..<nat ranks] [0..<unat ?fpp]) = Inr xs"
    using build by (auto simp: cocclBuildAllToAllFrameExchanges_def Let_def split: if_splits)
  have r: "unat ?r = nat ranks" using g(2) assms(2) by (simp add: unat_cint)
  have m: "unat ?fpp = m" by (simp add: unat_div_size r m_def)
  have "unat (frames mod ?r) = 0" by (simp only: g(3) unsigned_0)
  then have dvd: "nat ranks dvd unat frames" by (simp add: unat_mod_size dvd_eq_mod_eq_0 r)
  then show fr: "unat frames = nat ranks * m" by (simp add: m_def)
  show "0 < nat ranks" using g(2) by simp
  have "unat frames \<noteq> 0" using g(1) by (simp add: unat_0_iff)
  then show "0 < m" unfolding fr by simp
  have total: "nat ranks * unat ?fpp < 2 ^ 64" using unat_lt_2p64 [of frames] by (simp add: m fr [symmetric])
  have ix: "word_of_nat p * ?fpp + word_of_nat f = word_of_nat (rowIndex m (p, f)) \<and> rowIndex m (p, f) < 2 ^ 64"
    if "p < nat ranks" "f < m" for p f
    using row_index_nat [of p "nat ranks" f ?fpp] rowIndex_less [of "(p, f)" "nat ranks" m] that total
    by (simp add: m rowIndex_def)
  note rows = build_rows [OF run [unfolded m] ix ix]
  show "xs = map (frameRow sb rb stride sendMeta recvMeta (rowIndex m) (rowIndex m)) (List.product [0..<nat ranks] [0..<m])"
    by (rule rows(1))
  show "pf \<in> set (List.product [0..<nat ranks] [0..<m]) \<Longrightarrow>
      entryFits stride (frameRow sb rb stride sendMeta recvMeta (rowIndex m) (rowIndex m) pf) \<and>
      unat (word_of_nat (rowIndex m pf) * stride) = rowIndex m pf * unat stride"
    using rows(2) by blast
qed

lemma build_allgather_Inr:
  assumes build: "cocclBuildAllGatherFrameExchanges sb rb localFrames stride ranks sendMeta recvMeta capacity = Inr xs"
    and "ranks < 2 ^ 31"
  defines "m \<equiv> unat localFrames"
  shows "nat ranks * m < 2 ^ 64" and "0 < nat ranks" and "0 < m"
    and "xs = map (frameRow sb rb stride sendMeta recvMeta snd (rowIndex m)) (List.product [0..<nat ranks] [0..<m])"
    and "pf \<in> set (List.product [0..<nat ranks] [0..<m]) \<Longrightarrow>
      entryFits stride (frameRow sb rb stride sendMeta recvMeta snd (rowIndex m) pf) \<and>
      unat (word_of_nat (snd pf) * stride) = snd pf * unat stride \<and>
      unat (word_of_nat (rowIndex m pf) * stride) = rowIndex m pf * unat stride"
proof -
  let ?r = "size_of_int ranks"
  have g: "localFrames \<noteq> 0" "0 < ranks" "\<not> localFrames > SIZE_MAX div ?r"
    and run: "mapE (\<lambda>(peer, frm). frameEntry (int peer) sb (word_of_nat frm) rb
        (word_of_nat peer * localFrames + word_of_nat frm) stride (sendMeta (word_of_nat frm))
        (recvMeta (word_of_nat peer * localFrames + word_of_nat frm))) (List.product [0..<nat ranks] [0..<m]) = Inr xs"
    using build by (auto simp: cocclBuildAllGatherFrameExchanges_def Let_def m_def split: if_splits)
  have r: "unat ?r = nat ranks" using g(2) assms(2) by (simp add: unat_cint)
  then have "?r \<noteq> 0" using g(2) by auto
  from div_guard_iff [OF this, of localFrames] g(3) show total: "nat ranks * m < 2 ^ 64"
    by (simp add: r m_def mult.commute)
  show n0: "0 < nat ranks" using g(2) by simp
  show "0 < m" using g(1) by (simp add: m_def unat_gt_0)
  have "1 * m \<le> nat ranks * m" using n0 by (intro mult_le_mono1) simp
  then have "m < 2 ^ 64" using total by linarith
  then have six: "word_of_nat f = word_of_nat (snd (p, f)) \<and> snd (p, f) < 2 ^ 64" if "p < nat ranks" "f < m" for p f
    using that by auto
  have rix: "word_of_nat p * localFrames + word_of_nat f = word_of_nat (rowIndex m (p, f)) \<and> rowIndex m (p, f) < 2 ^ 64"
    if "p < nat ranks" "f < m" for p f
    using row_index_nat [of p "nat ranks" f localFrames] rowIndex_less [of "(p, f)" "nat ranks" m] that total
    by (simp add: m_def rowIndex_def)
  note rows = build_rows [OF run six rix]
  show "xs = map (frameRow sb rb stride sendMeta recvMeta snd (rowIndex m)) (List.product [0..<nat ranks] [0..<m])"
    by (rule rows(1))
  show "pf \<in> set (List.product [0..<nat ranks] [0..<m]) \<Longrightarrow>
      entryFits stride (frameRow sb rb stride sendMeta recvMeta snd (rowIndex m) pf) \<and>
      unat (word_of_nat (snd pf) * stride) = snd pf * unat stride \<and>
      unat (word_of_nat (rowIndex m pf) * stride) = rowIndex m pf * unat stride"
    using rows(2) by blast
qed

lemma product_upt_nth:
  assumes "i < n * m"
  shows "List.product [0..<n] [0..<m] ! i = (i div m, i mod m)" and "i div m < n" and "i mod m < m"
proof -
  have "0 < m" using assms by (cases m) simp_all
  then show d: "i div m < n" and r: "i mod m < m" using assms by (simp_all add: less_mult_imp_div_less)
  show "List.product [0..<n] [0..<m] ! i = (i div m, i mod m)"
    using assms d r by (simp add: product_nth)
qed

text \<open>
  C15: the frames of an all-to-all. A successful build has one entry per frame, in order; entry \<open>i\<close>
  goes to the peer that owns frame \<open>i\<close>, its send and receive slots start exactly \<open>i\<close> strides behind
  their base, both payloads are non-empty and fit the stride, and so no two receive payloads (nor
  send payloads) share a byte.
\<close>

theorem alltoall_frames_partition:
  assumes "cocclBuildAllToAllFrameExchanges sb rb frames stride ranks sendMeta recvMeta capacity = Inr xs"
    and "ranks < 2 ^ 31"
  shows "length xs = unat frames \<and>
    (\<forall>i < unat frames. exPeer (xs ! i) = int (i div (unat frames div nat ranks)) \<and> entryFits stride (xs ! i) \<and>
       unat (sendSlot (xs ! i) - sb) = i * unat stride \<and> unat (recvSlot (xs ! i) - rb) = i * unat stride) \<and>
    (\<forall>i j. i < j \<and> j < unat frames \<longrightarrow>
       disjoint_ranges (unat (recvSlot (xs ! i) - rb)) (unat (recvBytes (xs ! i)))
         (unat (recvSlot (xs ! j) - rb)) (unat (recvBytes (xs ! j))) \<and>
       disjoint_ranges (unat (sendSlot (xs ! i) - sb)) (unat (sendBytes (xs ! i)))
         (unat (sendSlot (xs ! j) - sb)) (unat (sendBytes (xs ! j))))"
proof -
  let ?m = "unat frames div nat ranks" and ?n = "nat ranks"
  note b = build_alltoall_Inr [OF assms]
  have len: "length xs = unat frames" using b(4) b(1) by simp
  have at: "exPeer (xs ! i) = int (i div ?m) \<and> entryFits stride (xs ! i) \<and>
      unat (sendSlot (xs ! i) - sb) = i * unat stride \<and> unat (recvSlot (xs ! i) - rb) = i * unat stride"
    if i: "i < unat frames" for i
  proof -
    have i': "i < ?n * ?m" using i b(1) by simp
    note pn = product_upt_nth [OF i']
    let ?pf = "(i div ?m, i mod ?m)"
    have x: "xs ! i = frameRow sb rb stride sendMeta recvMeta (rowIndex ?m) (rowIndex ?m) ?pf"
      using i' pn(1) len i by (subst b(4)) simp
    have ix: "rowIndex ?m ?pf = i" by (simp only: rowIndex_def fst_conv snd_conv div_mult_mod_eq)
    have "?pf \<in> set (List.product [0..<?n] [0..<?m])" using pn(2,3) by (simp add: product_set)
    from b(5) [OF this] show ?thesis by (simp add: x ix) (simp add: frameRow_def ix)
  qed
  have apart: "disjoint_ranges (i * unat stride) a (j * unat stride) b"
    if "i < j" and "a \<le> unat stride" for i j a b
  proof -
    have "Suc i * unat stride \<le> j * unat stride" using that(1) by (intro mult_le_mono1) simp
    with that(2) show ?thesis by (auto simp: disjoint_ranges_def)
  qed
  have fits: "unat (recvBytes (xs ! i)) \<le> unat stride" "unat (sendBytes (xs ! i)) \<le> unat stride" if "i < unat frames" for i
    using at [OF that] by (simp_all add: entryFits_def word_le_nat_alt)
  show ?thesis
    using len at apart fits by simp
qed

definition exampleMetadata :: "size_t \<Rightarrow> cocclCompressorFrameMetadata" where
  "exampleMetadata i = \<lparr>payloadBytes = 8 * i + 8, encoding = cocclCompressorFrameEncoded, reserved = 0\<rparr>"

theorem alltoall_frames_partition_witness:
  "\<exists>xs. cocclBuildAllToAllFrameExchanges 4096 8192 4 64 2 exampleMetadata exampleMetadata 4 = Inr xs \<and> length xs = 4 \<and>
     exPeer (xs ! 3) = 1 \<and> unat (recvSlot (xs ! 3) - 8192) = 192"
proof -
  let ?b = "cocclBuildAllToAllFrameExchanges 4096 8192 4 64 2 exampleMetadata exampleMetadata 4"
  have "\<not> isl ?b" by code_simp
  then obtain xs where b: "?b = Inr xs" by (cases ?b) auto
  from alltoall_frames_partition [OF b] b show ?thesis by auto
qed

section \<open>Sends and receives of two ranks match\<close>

text \<open>What a list of entries sends to a peer, and receives from it, in order.\<close>

definition sentTo :: "nat \<Rightarrow> cocclFrameExchange list \<Rightarrow> size_t list" where
  "sentTo peer xs = map sendBytes (filter (\<lambda>x. exPeer x = int peer) xs)"

definition receivedFrom :: "nat \<Rightarrow> cocclFrameExchange list \<Rightarrow> size_t list" where
  "receivedFrom peer xs = map recvBytes (filter (\<lambda>x. exPeer x = int peer) xs)"

lemma filter_product_peer:
  assumes "q < n"
  shows "filter (\<lambda>pf. fst pf = q) (List.product [0..<n] ys) = map (Pair q) ys"
proof -
  have other: "filter (\<lambda>pf. fst pf = q) (List.product ps ys) = []" if "q \<notin> set ps" for ps
    using that by (auto simp: filter_empty_conv)
  have "[0..<n] = [0..<q] @ q # [Suc q..<n]" 
    using assms upt_add_eq_append [of 0 q "n - q"] by (simp add: upt_conv_Cons)
  moreover have "List.product (as @ bs) ys = List.product as ys @ List.product bs ys" for as bs :: "nat list"
    by (induction as) simp_all
  ultimately show ?thesis by (simp add: other filter_map comp_def)
qed

lemma rows_peer:
  assumes "q < n"
  shows "sentTo q (map (frameRow sb rb stride sendMeta recvMeta sendAt recvAt) (List.product [0..<n] [0..<m])) =
      map (\<lambda>f. payloadBytes (sendMeta (word_of_nat (sendAt (q, f))))) [0..<m]"
    and "receivedFrom q (map (frameRow sb rb stride sendMeta recvMeta sendAt recvAt) (List.product [0..<n] [0..<m])) =
      map (\<lambda>f. payloadBytes (recvMeta (word_of_nat (recvAt (q, f))))) [0..<m]"
  using filter_product_peer [OF assms, of "[0..<m]"]
  by (simp_all add: sentTo_def receivedFrom_def filter_map comp_def frameRow_def)

text \<open>
  C16: no rank waits for bytes nobody sends. Let every rank of an all-to-all build its entries from
  metadata that the metadata exchange has delivered (rank \<open>p\<close> holds, for the frames of peer \<open>q\<close>,
  what \<open>q\<close> computed for \<open>p\<close>). Then for any two ranks the byte counts of the sends of one are, in
  order, those of the receives the other has posted for it.
\<close>

theorem alltoall_frames_match:
  assumes "\<And>p. p < n \<Longrightarrow> cocclBuildAllToAllFrameExchanges (sb p) (rb p) frames stride (int n) (sendMeta p) (recvMeta p)
      (capacity p) = Inr (xs p)"
    and "n < 2 ^ 31"
    and "\<And>p q f. p < n \<Longrightarrow> q < n \<Longrightarrow> f < unat frames div n \<Longrightarrow>
      recvMeta p (word_of_nat (q * (unat frames div n) + f)) = sendMeta q (word_of_nat (p * (unat frames div n) + f))"
    and "p < n" and "q < n"
  shows "sentTo q (xs p) = receivedFrom p (xs q)"
proof -
  have n: "int n < 2 ^ 31" using assms(2) by simp
  note bp = build_alltoall_Inr(4) [OF assms(1) [OF assms(4)] n] and bq = build_alltoall_Inr(4) [OF assms(1) [OF assms(5)] n]
  show ?thesis
    using assms(3) [OF assms(5) assms(4)] assms(4,5)
    by (simp add: bp bq rows_peer rowIndex_def)
qed

text \<open>Two ranks with one frame each for the other and for themselves.\<close>

definition rankMetadata :: "nat \<Rightarrow> size_t \<Rightarrow> cocclCompressorFrameMetadata" where
  "rankMetadata p i = exampleMetadata (2 * word_of_nat p + i)"

definition deliveredMetadata :: "nat \<Rightarrow> size_t \<Rightarrow> cocclCompressorFrameMetadata" where
  "deliveredMetadata p i = exampleMetadata (2 * i + word_of_nat p)"

theorem alltoall_frames_match_witness:
  "\<exists>xs. (\<forall>p < 2. cocclBuildAllToAllFrameExchanges 4096 8192 2 64 2 (rankMetadata p) (deliveredMetadata p) 2 = Inr (xs p)) \<and>
     sentTo 1 (xs 0) = receivedFrom 0 (xs 1) \<and> sentTo 1 (xs 0) = [16]"
proof -
  let ?b = "\<lambda>p. cocclBuildAllToAllFrameExchanges 4096 8192 2 64 2 (rankMetadata p) (deliveredMetadata p) 2"
  have ok: "(case ?b 0 of Inl e \<Rightarrow> False | Inr ys \<Rightarrow> sentTo 1 ys = [16])" "\<not> isl (?b 1)" by code_simp+
  then obtain x0 x1 where x: "?b 0 = Inr x0" "sentTo 1 x0 = [16]" "?b 1 = Inr x1"
    by (cases "?b 0"; cases "?b 1") auto
  let ?xs = "\<lambda>p :: nat. if p = 0 then x0 else x1"
  have b: "cocclBuildAllToAllFrameExchanges 4096 8192 2 64 (int 2) (rankMetadata p) (deliveredMetadata p) 2 = Inr (?xs p)"
    if "p < 2" for p using that x by (cases "p = 0") (auto simp: less_2_cases_iff)
  have "sentTo 1 (?xs 0) = receivedFrom 0 (?xs 1)"
    using alltoall_frames_match [of 2 "\<lambda>_. 4096" "\<lambda>_. 8192" 2 64 rankMetadata deliveredMetadata "\<lambda>_. 2" ?xs 0 1] b
    by (simp add: rankMetadata_def deliveredMetadata_def add.commute)
  with b x(2) show ?thesis by (intro exI [of _ ?xs]) auto
qed

text \<open>
  The same for an all-gather. Every rank sends its own frames to every peer; when the metadata
  exchange delivered each rank's metadata to all, what one rank sends to another is, in order, what
  that one has posted receives for.
\<close>

theorem allgather_frames_match:
  assumes "\<And>p. p < n \<Longrightarrow> cocclBuildAllGatherFrameExchanges (sb p) (rb p) localFrames stride (int n) (sendMeta p) (recvMeta p)
      (capacity p) = Inr (xs p)"
    and "n < 2 ^ 31"
    and "\<And>p q f. p < n \<Longrightarrow> q < n \<Longrightarrow> f < unat localFrames \<Longrightarrow>
      recvMeta p (word_of_nat (q * unat localFrames + f)) = sendMeta q (word_of_nat f)"
    and "p < n" and "q < n"
  shows "sentTo q (xs p) = receivedFrom p (xs q) \<and> length (xs p) = n * unat localFrames"
proof -
  have n: "int n < 2 ^ 31" using assms(2) by simp
  note bp = build_allgather_Inr(4) [OF assms(1) [OF assms(4)] n] and bq = build_allgather_Inr(4) [OF assms(1) [OF assms(5)] n]
  show ?thesis
    using assms(3) [OF assms(5) assms(4)] assms(4,5)
    by (simp add: bp bq rows_peer rowIndex_def)
qed

definition gatheredMetadata :: "size_t \<Rightarrow> cocclCompressorFrameMetadata" where
  "gatheredMetadata i = exampleMetadata i"

definition localMetadata :: "nat \<Rightarrow> size_t \<Rightarrow> cocclCompressorFrameMetadata" where
  "localMetadata p i = exampleMetadata (word_of_nat p + i)"

theorem allgather_frames_match_witness:
  "\<exists>xs. (\<forall>p < 2. cocclBuildAllGatherFrameExchanges 4096 8192 1 64 2 (localMetadata p) gatheredMetadata 2 = Inr (xs p)) \<and>
     sentTo 0 (xs 1) = receivedFrom 1 (xs 0) \<and> sentTo 0 (xs 1) = [16]"
proof -
  let ?b = "\<lambda>p. cocclBuildAllGatherFrameExchanges 4096 8192 1 64 2 (localMetadata p) gatheredMetadata 2"
  have ok: "(case ?b 1 of Inl e \<Rightarrow> False | Inr ys \<Rightarrow> sentTo 0 ys = [16])" "\<not> isl (?b 0)" by code_simp+
  then obtain x0 x1 where x: "?b 1 = Inr x1" "sentTo 0 x1 = [16]" "?b 0 = Inr x0"
    by (cases "?b 0"; cases "?b 1") auto
  let ?xs = "\<lambda>p :: nat. if p = 0 then x0 else x1"
  have b: "cocclBuildAllGatherFrameExchanges 4096 8192 1 64 (int 2) (localMetadata p) gatheredMetadata 2 = Inr (?xs p)"
    if "p < 2" for p using that x by (cases "p = 0") (auto simp: less_2_cases_iff)
  have "sentTo 0 (?xs 1) = receivedFrom 1 (?xs 0)"
    using allgather_frames_match [of 2 "\<lambda>_. 4096" "\<lambda>_. 8192" 1 64 localMetadata "\<lambda>_. gatheredMetadata" "\<lambda>_. 2" ?xs 1 0] b
    by (simp add: localMetadata_def gatheredMetadata_def)
  with b x(2) show ?thesis by (intro exI [of _ ?xs]) auto
qed

section \<open>The group of a commit\<close>

definition pointToPointCall :: "cocclInfo \<Rightarrow> api_call" where
  "pointToPointCall info = Nccl
     (if infoFunc info = ncclFuncSend
      then ncclPointToPoint ncclFuncSend (infoSend info) (infoCount info) (infoDatatype info) (infoPeer info)
             (commPtr (infoComm info)) (infoStream info)
      else ncclPointToPoint ncclFuncRecv (infoRecv info) (infoCount info) (infoDatatype info) (infoPeer info)
             (commPtr (infoComm info)) (infoStream info))"

text \<open>Inside a group a replayed send or receive makes exactly its own call.\<close>

lemma enqueue_in_group_log:
  "0 < ncclGroupDepth w \<Longrightarrow> apiLog (snd (ncclEnqueueCheck env c w)) = apiLog w @ [Nccl c]"
  by (simp add: ncclEnqueueCheck_def ncclGroupStartInternal_def callApi_def ncclGroupEndInternal_def Let_def split_beta)

lemma replay_in_group:
  assumes "infoOperation info = SendRecv" and "0 < ncclGroupDepth w"
  shows "apiLog (snd (cocclReplayNativeCall env info w)) = apiLog w @ [pointToPointCall info]"
    and "ncclGroupDepth (snd (cocclReplayNativeCall env info w)) = ncclGroupDepth w"
proof -
  let ?w = "setGuard True w"
  have d: "ncclGroupDepth ?w = ncclGroupDepth w" "apiLog ?w = apiLog w" by (simp_all add: setGuard_def)
  show "apiLog (snd (cocclReplayNativeCall env info w)) = apiLog w @ [pointToPointCall info]"
    using assms d
    by (simp add: cocclReplayNativeCall_def guarded_def Let_def split_beta replaySendRecv_def nativePointToPoint_def
        pointToPointCall_def setGuard_def enqueue_in_group_log)
  show "ncclGroupDepth (snd (cocclReplayNativeCall env info w)) = ncclGroupDepth w"
    using assms unfolding cocclReplayNativeCall_def by (simp add: guarded_depth replaySendRecv_depth)
qed

lemma replay_guard [simp]: "callerGuardActive (snd (cocclReplayNativeCall env info w)) = callerGuardActive w"
  by (simp add: cocclReplayNativeCall_def)

lemma replayAll_in_group:
  assumes "\<forall>info \<in> set infos. infoOperation info = SendRecv" and "0 < ncclGroupDepth w"
    and "replayAll env infos w = (r, w')"
  shows "ncclGroupDepth w' = ncclGroupDepth w \<and> callerGuardActive w' = callerGuardActive w \<and>
    (r = ncclSuccess \<longrightarrow> apiLog w' = apiLog w @ map pointToPointCall infos)"
  using assms
proof (induction infos arbitrary: w)
  case Nil
  then show ?case by simp
next
  case (Cons info infos)
  obtain r1 w1 where one: "cocclReplayNativeCall env info w = (r1, w1)" by fastforce
  have w1: "apiLog w1 = apiLog w @ [pointToPointCall info]" "ncclGroupDepth w1 = ncclGroupDepth w"
    "callerGuardActive w1 = callerGuardActive w"
    using replay_in_group [of info w env] replay_guard [of env info w] Cons.prems(1,2) by (simp_all add: one)
  show ?case
  proof (cases "r1 = ncclSuccess")
    case True
    with Cons.prems(3) one have "replayAll env infos w1 = (r, w')" by simp
    with Cons.IH [of w1] Cons.prems(1,2) w1 show ?thesis by simp
  next
    case False
    with Cons.prems(3) one w1 show ?thesis by auto
  qed
qed

lemma exchangeInfos_sendrecv: "info \<in> set (exchangeInfos comm strm x) \<Longrightarrow> infoOperation info = SendRecv"
  by (auto simp: exchangeInfos_def recvInfo_def sendInfo_def split: if_splits)

lemma groupEnd_guard [simp]: "callerGuardActive (snd (ncclGroupEndInternal env w)) = callerGuardActive w"
  by (auto simp: ncclGroupEndInternal_def callApi_def Let_def)

lemma groupEnd_success_log:
  assumes "0 < ncclGroupDepth w" and "fst (ncclGroupEndInternal env w) = ncclSuccess"
  shows "apiLog (snd (ncclGroupEndInternal env w)) = apiLog w @ (if ncclGroupDepth w = 1 then [Nccl groupLaunch] else [])"
  using assms by (auto simp: ncclGroupEndInternal_def callApi_def Let_def split: if_splits)

text \<open>
  C18: a committed exchange is one balanced group. Whatever the core answers, the group depth and
  the caller guard are afterwards what they were before, also when a receive or a send was refused;
  and a successful commit has issued for every entry its receive and then its send, in the order of
  the entries, followed by one launch when it opened the outermost group.
\<close>

theorem commit_exchange_balanced:
  assumes "cocclCommitFrameExchange env xs comm strm w = (r, w')" and "0 \<le> ncclGroupDepth w"
  shows "ncclGroupDepth w' = ncclGroupDepth w \<and> callerGuardActive w' = callerGuardActive w \<and>
    (r = ncclSuccess \<longrightarrow> list_all (exchangeValid comm) xs \<and>
       apiLog w' = apiLog w @ map pointToPointCall (concat (map (exchangeInfos comm strm) xs)) @
         (if ncclGroupDepth w = 0 then [Nccl groupLaunch] else []))"
proof (cases "xs = [] \<or> \<not> list_all (exchangeValid comm) xs")
  case True
  with assms(1) show ?thesis by (auto simp: cocclCommitFrameExchange_def)
next
  case False
  let ?infos = "concat (map (exchangeInfos comm strm) xs)"
  let ?w0 = "w\<lparr>ncclGroupDepth := ncclGroupDepth w + 1\<rparr>"
  obtain r1 w1 where rep: "replayAll env ?infos ?w0 = (r1, w1)" by fastforce
  obtain r2 w2 where fin: "ncclGroupEndInternal env w1 = (r2, w2)" by fastforce
  have res: "r = (if r1 = ncclSuccess then r2 else r1)" "w' = w2"
    using assms(1) False rep fin by (auto simp: cocclCommitFrameExchange_def)
  have one: "ncclGroupDepth w1 = ncclGroupDepth w + 1" "callerGuardActive w1 = callerGuardActive w"
    "r1 = ncclSuccess \<longrightarrow> apiLog w1 = apiLog w @ map pointToPointCall ?infos"
    using replayAll_in_group [OF _ _ rep] assms(2) exchangeInfos_sendrecv by (auto simp: Ball_def)
  have two: "ncclGroupDepth w2 = ncclGroupDepth w" "callerGuardActive w2 = callerGuardActive w"
    using groupEnd_depth [of w1 env] groupEnd_guard [of env w1] one assms(2) by (simp_all add: fin)
  have "r = ncclSuccess \<Longrightarrow> apiLog w2 = apiLog w1 @ (if ncclGroupDepth w = 0 then [Nccl groupLaunch] else [])"
    using groupEnd_success_log [of w1 env] one(1) assms(2) res(1) by (simp add: fin split: if_splits)
  then show ?thesis
    using res one two False by (auto split: if_splits)
qed

definition exampleExchange :: cocclFrameExchange where
  "exampleExchange = \<lparr>exPeer = 1, sendSlot = 4096, recvSlot = 8192, sendBytes = 16, recvBytes = 24, slotBytes = 64,
     exComm = None, exStream = nullptr\<rparr>"

theorem commit_exchange_balanced_witness:
  "\<exists>w'. cocclCommitFrameExchange exampleEnv [exampleExchange] (Some exampleDeviceComm) 7 exampleNative = (ncclSuccess, w') \<and>
     apiLog w' = [Nccl (ncclPointToPoint ncclFuncRecv 8192 24 ncclInt8 1 16 7),
       Nccl (ncclPointToPoint ncclFuncSend 4096 16 ncclInt8 1 16 7), Nccl groupLaunch] \<and> ncclGroupDepth w' = 0"
proof -
  let ?run = "cocclCommitFrameExchange exampleEnv [exampleExchange] (Some exampleDeviceComm) 7 exampleNative"
  have "fst ?run = ncclSuccess" by code_simp
  then obtain w' where run: "?run = (ncclSuccess, w')" by (metis prod.collapse)
  from commit_exchange_balanced [OF run] run show ?thesis
    by (auto simp: exampleNative_def compressor_world.defs exampleExchange_def exchangeInfos_def recvInfo_def sendInfo_def
        emptyInfo_def pointToPointCall_def commPtr_def exchangeComm_def exchangeStream_def exampleDeviceComm_def
        byteWorld_def emptyCompressorWorld_def)
qed

end
