(* ===== verification/Pipeline_Types.thy ===== *)
theory Pipeline_Types
  imports Compressor_Abi
begin

text \<open>
  The data of the pipeline component: stages and specifications
  (\<^verbatim>\<open>core/pipeline/coccl_pipeline.h\<close>), edges, temporaries, plans and contexts
  (\<^verbatim>\<open>core/pipeline/coccl_pipeline_internal.h\<close>), and the guarded arithmetic of that header.
\<close>

section \<open>Stages and specifications\<close>

datatype cocclPipelineStageKind =
  StageCompress | StageAllToAll | StageAllGather | StageDecompReduceComp | StageDecompressReduce
| StageDecompress | StageReduceScatter | StagePack | StageUnpack

datatype cocclPipelineInPlaceLayout =
  InPlaceNone | InPlaceSameBuffer | InPlaceInputRankChunk | InPlaceOutputRankChunk

datatype cocclPipelineInputLayout = InputContiguous | InputHierarchicalSwizzle

text \<open>A null \<^verbatim>\<open>ncclComm_t\<close> in a stage is \<open>None\<close>.\<close>

record cocclPipelineStage =
  kind :: cocclPipelineStageKind
  stageComm :: "ncclComm option"
  reduceChunks :: size_t
  stageCompressor :: ptr

definition cocclPipelineCompress :: "ptr \<Rightarrow> cocclPipelineStage" where
  "cocclPipelineCompress compressor =
     \<lparr>kind = StageCompress, stageComm = None, reduceChunks = 0, stageCompressor = compressor\<rparr>"

definition cocclPipelineAllToAll :: "ncclComm \<Rightarrow> cocclPipelineStage" where
  "cocclPipelineAllToAll comm =
     \<lparr>kind = StageAllToAll, stageComm = Some comm, reduceChunks = 0, stageCompressor = nullptr\<rparr>"

definition cocclPipelineAllGather :: "ncclComm \<Rightarrow> cocclPipelineStage" where
  "cocclPipelineAllGather comm =
     \<lparr>kind = StageAllGather, stageComm = Some comm, reduceChunks = 0, stageCompressor = nullptr\<rparr>"

definition cocclPipelineDecompReduceComp :: "size_t \<Rightarrow> ptr \<Rightarrow> cocclPipelineStage" where
  "cocclPipelineDecompReduceComp rchunks compressor =
     \<lparr>kind = StageDecompReduceComp, stageComm = None, reduceChunks = rchunks,
      stageCompressor = compressor\<rparr>"

definition cocclPipelineDecompressReduce :: "size_t \<Rightarrow> cocclPipelineStage" where
  "cocclPipelineDecompressReduce rchunks =
     \<lparr>kind = StageDecompressReduce, stageComm = None, reduceChunks = rchunks,
      stageCompressor = nullptr\<rparr>"

definition cocclPipelineDecompress :: cocclPipelineStage where
  "cocclPipelineDecompress =
     \<lparr>kind = StageDecompress, stageComm = None, reduceChunks = 0, stageCompressor = nullptr\<rparr>"

definition cocclPipelineReduceScatter :: "ncclComm \<Rightarrow> cocclPipelineStage" where
  "cocclPipelineReduceScatter comm =
     \<lparr>kind = StageReduceScatter, stageComm = Some comm, reduceChunks = 0,
      stageCompressor = nullptr\<rparr>"

definition cocclPipelinePack :: cocclPipelineStage where
  "cocclPipelinePack =
     \<lparr>kind = StagePack, stageComm = None, reduceChunks = 0, stageCompressor = nullptr\<rparr>"

definition cocclPipelineUnpack :: cocclPipelineStage where
  "cocclPipelineUnpack =
     \<lparr>kind = StageUnpack, stageComm = None, reduceChunks = 0, stageCompressor = nullptr\<rparr>"

lemmas stage_constructor_defs =
  cocclPipelineCompress_def cocclPipelineAllToAll_def cocclPipelineAllGather_def
  cocclPipelineDecompReduceComp_def cocclPipelineDecompressReduce_def cocclPipelineDecompress_def
  cocclPipelineReduceScatter_def cocclPipelinePack_def cocclPipelineUnpack_def

text \<open>
  The array \<^verbatim>\<open>stages\<close> and its \<^verbatim>\<open>stageCount\<close> are one list; a null \<^verbatim>\<open>ownerComm\<close> is \<open>None\<close>.
\<close>

record cocclPipelineSpec =
  specName :: string
  specInput :: ptr
  specOutput :: ptr
  rawChunkCount :: size_t
  inputChunks :: size_t
  specDatatype :: ncclDataType_t
  ownerComm :: "ncclComm option"
  stream :: ptr
  stages :: "cocclPipelineStage list"
  inPlaceLayout :: cocclPipelineInPlaceLayout
  inputLayout :: cocclPipelineInputLayout

section \<open>Planner data\<close>

definition kCocclPipelineExplicitStages :: nat where
  "kCocclPipelineExplicitStages = 7"
definition kCocclPipelinePhysicalStages :: nat where
  "kCocclPipelinePhysicalStages = 9"
definition kCocclPipelineMaxTemps :: nat where
  "kCocclPipelineMaxTemps = 8"
definition kCocclPipelineMaxDepth :: nat where
  "kCocclPipelineMaxDepth = 16"
definition kCocclPipelineRawRingSlots :: nat where
  "kCocclPipelineRawRingSlots = 2"
definition kCocclPipelineAlignment :: size_t where
  "kCocclPipelineAlignment = 256"

lemmas pipeline_constants =
  kCocclPipelineExplicitStages_def kCocclPipelinePhysicalStages_def kCocclPipelineMaxTemps_def
  kCocclPipelineMaxDepth_def kCocclPipelineRawRingSlots_def kCocclPipelineAlignment_def

datatype cocclPipelineTempRole =
  TempInputStaging | TempCompressOutput | TempAllToAllOutput | TempAllGatherOutput
| TempDecompReduceCompOutput | TempDecompressReduceOutput | TempReduceScatterOutput
| TempOutputStaging

datatype cocclPipelineWorkspaceKind = WorkspaceUnified | WorkspaceSplit

datatype cocclPipelineTempStorage = RegisteredArena | RawRing

record cocclPipelineTempPlan =
  role :: cocclPipelineTempRole
  offset :: size_t
  logicalBytes :: size_t
  alignedBytes :: size_t
  tempPayloadBytes :: size_t
  frameMetadataOffset :: size_t
  frameMetadataBytes :: size_t
  tempFrameStrideBytes :: size_t
  storage :: cocclPipelineTempStorage

text \<open>The value-initialised entry \<^verbatim>\<open>{}\<close>.\<close>

definition emptyTemp :: cocclPipelineTempPlan where
  "emptyTemp = \<lparr>role = TempInputStaging, offset = 0, logicalBytes = 0, alignedBytes = 0,
     tempPayloadBytes = 0, frameMetadataOffset = 0, frameMetadataBytes = 0,
     tempFrameStrideBytes = 0, storage = RegisteredArena\<rparr>"

text \<open>
  A plan. The C arrays are lists of the declared length; the index \<^verbatim>\<open>-1\<close> for "no temporary" is
  \<open>None\<close>.
\<close>

record cocclPipelinePlan =
  workspaceKind :: cocclPipelineWorkspaceKind
  tempCount :: nat
  inputStagingTemp :: "nat option"
  outputStagingTemp :: "nat option"
  stageOutputTemp :: "nat option list"
  stageOutputCapacityBytes :: "size_t list"
  temps :: "cocclPipelineTempPlan list"
  finalChunks :: size_t
  registeredSliceBytes :: size_t
  registeredBytes :: size_t
  rawBytes :: size_t
  totalBytes :: size_t

definition emptyPlan :: cocclPipelinePlan where
  "emptyPlan = \<lparr>workspaceKind = WorkspaceUnified, tempCount = 0, inputStagingTemp = None,
     outputStagingTemp = None, stageOutputTemp = replicate kCocclPipelineExplicitStages None,
     stageOutputCapacityBytes = replicate kCocclPipelineExplicitStages 0,
     temps = replicate kCocclPipelineMaxTemps emptyTemp, finalChunks = 0,
     registeredSliceBytes = 0, registeredBytes = 0, rawBytes = 0, totalBytes = 0\<rparr>"

record cocclPipelineSliceShape =
  elementOffset :: size_t
  elementCount :: size_t
  byteOffset :: size_t
  sliceBytes :: size_t

record cocclPipelineStageContext =
  rawSliceCount :: size_t
  rawSliceBytes :: size_t
  rawChunkBytes :: size_t
  rawDatatype :: ncclDataType_t
  contextComm :: "ncclComm option"
  contextInputLayout :: cocclPipelineInputLayout
  contextNodes :: int
  ranksPerNode :: int

record cocclPipelineContext =
  spec :: cocclPipelineSpec
  depth :: nat
  slices :: "cocclPipelineSliceShape list"
  maxSliceCount :: size_t
  maxSliceBytes :: size_t
  sliceStageOutputBytes :: "size_t list list"
  sliceStageFrameStrideBytes :: "size_t list list"
  stageContext :: cocclPipelineStageContext
  plan :: cocclPipelinePlan

section \<open>Guarded arithmetic\<close>

definition cocclPipelineCheckedMultiply :: "size_t \<Rightarrow> size_t \<Rightarrow> size_t option" where
  "cocclPipelineCheckedMultiply lhs rhs =
     (if lhs \<noteq> 0 \<and> rhs > SIZE_MAX div lhs then None else Some (lhs * rhs))"

definition cocclPipelineCheckedAdd :: "size_t \<Rightarrow> size_t \<Rightarrow> size_t option" where
  "cocclPipelineCheckedAdd lhs rhs =
     (if rhs > SIZE_MAX - lhs then None else Some (lhs + rhs))"

definition cocclAlignPipelineBytes :: "size_t \<Rightarrow> size_t option" where
  "cocclAlignPipelineBytes bytes =
     (case cocclPipelineCheckedAdd bytes (kCocclPipelineAlignment - 1) of
        None \<Rightarrow> None
      | Some padded \<Rightarrow> Some (padded div kCocclPipelineAlignment * kCocclPipelineAlignment))"

subsection \<open>Exactness\<close>

lemma checkedMultiply_Some_iff:
  "cocclPipelineCheckedMultiply a b = Some c \<longleftrightarrow>
     unat a * unat b < 2 ^ 64 \<and> unat c = unat a * unat b"
proof (cases "a = 0")
  case True
  show ?thesis
    unfolding True by (auto simp: cocclPipelineCheckedMultiply_def unat_0_iff)
next
  case False
  show ?thesis
  proof (cases "b > SIZE_MAX div a")
    case True
    with False show ?thesis
      using div_guard_iff [OF False, of b]
      by (simp add: cocclPipelineCheckedMultiply_def mult.commute)
  next
    case fits: False
    then have lt: "unat a * unat b < 2 ^ 64"
      using div_guard_iff [OF False, of b] by (simp add: mult.commute)
    then have "unat (a * b) = unat a * unat b" by (rule unat_mult_exact)
    with False fits lt show ?thesis
      by (auto simp: cocclPipelineCheckedMultiply_def size_eq_iff_unat)
  qed
qed

lemma checkedMultiply_None_iff:
  "cocclPipelineCheckedMultiply a b = None \<longleftrightarrow> 2 ^ 64 \<le> unat a * unat b"
proof (cases "a = 0")
  case True
  then show ?thesis by (simp add: cocclPipelineCheckedMultiply_def)
next
  case False
  then show ?thesis
    using div_guard_iff [OF False, of b]
    by (simp add: cocclPipelineCheckedMultiply_def mult.commute)
qed

lemma add_guard_iff: "(b :: size_t) > SIZE_MAX - a \<longleftrightarrow> 2 ^ 64 \<le> unat a + unat b"
proof -
  have "unat (SIZE_MAX - a) = 2 ^ 64 - 1 - unat a"
    by (simp add: unat_sub)
  with unat_lt_2p64 [of a] show ?thesis
    by (auto simp: word_less_nat_alt)
qed

lemma checkedAdd_Some_iff:
  "cocclPipelineCheckedAdd a b = Some c \<longleftrightarrow>
     unat a + unat b < 2 ^ 64 \<and> unat c = unat a + unat b"
proof (cases "b > SIZE_MAX - a")
  case True
  then show ?thesis
    using add_guard_iff [of a b] by (simp add: cocclPipelineCheckedAdd_def)
next
  case False
  then have lt: "unat a + unat b < 2 ^ 64" using add_guard_iff [of a b] by simp
  then have "unat (a + b) = unat a + unat b" by (rule unat_add_exact)
  with False lt show ?thesis
    by (auto simp: cocclPipelineCheckedAdd_def size_eq_iff_unat)
qed

lemma checkedAdd_None_iff: "cocclPipelineCheckedAdd a b = None \<longleftrightarrow> 2 ^ 64 \<le> unat a + unat b"
  using add_guard_iff [of a b] by (simp add: cocclPipelineCheckedAdd_def)

lemmas checked_iffs =
  checkedMultiply_Some_iff checkedMultiply_None_iff checkedAdd_Some_iff checkedAdd_None_iff

lemma unat_alignment [simp]: "unat kCocclPipelineAlignment = 256"
  by (simp add: kCocclPipelineAlignment_def)

lemma align_Some_iff:
  "cocclAlignPipelineBytes b = Some c \<longleftrightarrow>
     unat b + 255 < 2 ^ 64 \<and> unat c = (unat b + 255) div 256 * 256"
proof (cases "cocclPipelineCheckedAdd b (kCocclPipelineAlignment - 1)")
  case None
  then have "\<not> unat b + 255 < 2 ^ 64"
    by (simp add: checkedAdd_None_iff kCocclPipelineAlignment_def)
  with None show ?thesis by (simp add: cocclAlignPipelineBytes_def)
next
  case (Some padded)
  then have p: "unat b + 255 < 2 ^ 64" "unat padded = unat b + 255"
    by (simp_all add: checkedAdd_Some_iff kCocclPipelineAlignment_def)
  have "unat padded div 256 * 256 \<le> unat padded" by simp
  then have "unat padded div 256 * 256 < 2 ^ 64" using unat_lt_2p64 [of padded] by linarith
  then have "unat (padded div kCocclPipelineAlignment * kCocclPipelineAlignment)
      = unat padded div 256 * 256"
    by (simp add: unat_mult_exact unat_div_size)
  with Some p show ?thesis
    by (auto simp: cocclAlignPipelineBytes_def size_eq_iff_unat)
qed

lemma align_bounds:
  assumes "cocclAlignPipelineBytes b = Some c"
  shows "unat b \<le> unat c" and "256 dvd unat c" and "unat c < unat b + 256"
proof -
  from assms have c: "unat c = (unat b + 255) div 256 * 256" by (simp add: align_Some_iff)
  then show "256 dvd unat c" by simp
  have "(unat b + 255) div 256 * 256 + (unat b + 255) mod 256 = unat b + 255"
    by (rule div_mult_mod_eq)
  moreover have "(unat b + 255) mod 256 \<le> 255" by simp
  ultimately show "unat b \<le> unat c" and "unat c < unat b + 256" using c by linarith+
qed

lemma align_mono:
  assumes "cocclAlignPipelineBytes a = Some a'" and "cocclAlignPipelineBytes b = Some b'"
    and "unat a \<le> unat b"
  shows "unat a' \<le> unat b'"
  using assms by (auto simp: align_Some_iff intro!: mult_le_mono1 div_le_mono)

end
