(* ===== verification/Pipeline_Layout.thy ===== *)
theory Pipeline_Layout
  imports Pipeline_Types Coccl_Api
begin

text \<open>
  The host side of the layout copies, \<^verbatim>\<open>core/device/pipeline/coccl_pipeline_layout.cu\<close>: the vector width
  and the grid of a launch, the choice between the copy engine and a kernel. The kernels themselves
  are in theory \<open>Layout_Kernel\<close>.
\<close>

unbundle bit_operations_syntax

definition kLayoutThreads :: size_t where
  "kLayoutThreads = 256"
definition kMaxLayoutBlocks :: "32 word" where
  "kMaxLayoutBlocks = 32 * 1024"
definition kTargetBytesPerBlock :: size_t where
  "kTargetBytesPerBlock = 32 * 1024"
definition kMaxGridY :: size_t where
  "kMaxGridY = 65535"
definition kLayoutKernelCrossoverBytes :: size_t where
  "kLayoutKernelCrossoverBytes = push_bit 20 128"

lemmas layout_constants =
  kLayoutThreads_def kMaxLayoutBlocks_def kTargetBytesPerBlock_def kMaxGridY_def kLayoutKernelCrossoverBytes_def

text \<open>The grid for elements of \<open>copyBytes\<close> bytes: blocks per row and rows, both \<^verbatim>\<open>unsigned int\<close>.\<close>

definition layoutGrid :: "size_t \<Rightarrow> size_t \<Rightarrow> size_t \<Rightarrow> 32 word \<times> 32 word" where
  "layoutGrid copyBytes sliceSize chunkCount =
     (let elementsPerChunk = sliceSize div copyBytes;
          neededBlocks = (elementsPerChunk + kLayoutThreads - 1) div kLayoutThreads;
          targetBlocks = (sliceSize + kTargetBytesPerBlock - 1) div kTargetBytesPerBlock;
          gridY = (ucast (if chunkCount < kMaxGridY then chunkCount else kMaxGridY) :: 32 word);
          blocks = kMaxLayoutBlocks div gridY;
          blocks = (if blocks = 0 then 1 else blocks);
          blocks = (if neededBlocks < ucast blocks then ucast neededBlocks else blocks);
          blocks = (if targetBlocks < ucast blocks then ucast targetBlocks else blocks) in
      (if blocks = 0 then 1 else blocks, gridY))"

definition layoutVectorBytes :: "ptr \<Rightarrow> size_t \<Rightarrow> ptr \<Rightarrow> size_t \<Rightarrow> size_t \<Rightarrow> size_t" where
  "layoutVectorBytes source sourcePitch destination destinationPitch sliceSize =
     (let alignment = source OR destination OR sourcePitch OR destinationPitch OR sliceSize in
      if alignment AND 15 = 0 then 16
      else if alignment AND 7 = 0 then 8
      else if alignment AND 3 = 0 then 4
      else if alignment AND 1 = 0 then 2
      else 1)"

text \<open>
  A launch names the kernel and passes the template arguments, the grid and the parameters. Its
  result is that of \<^verbatim>\<open>cudaGetLastError\<close>.
\<close>

definition launchResult :: "api_env \<Rightarrow> cuda_memory_call \<Rightarrow> 'w api_world_scheme \<Rightarrow> ncclResult_t \<times> 'w api_world_scheme" where
  "launchResult env c w =
     (let (r, w1) = callApi env (CudaMemory c) w in
      (if status r = ncclSuccess then ncclSuccess else ncclUnhandledCudaError, w1))"

definition launchPackTyped ::
  "api_env \<Rightarrow> size_t \<Rightarrow> bool \<Rightarrow> ptr \<Rightarrow> size_t \<Rightarrow> ptr \<Rightarrow> size_t \<Rightarrow> size_t \<Rightarrow> int \<Rightarrow> int \<Rightarrow> ptr \<Rightarrow>
   'w api_world_scheme \<Rightarrow> ncclResult_t \<times> 'w api_world_scheme" where
  "launchPackTyped env copyBytes swizzle source sourcePitch destination sliceSize chunkCount nodes perNode strm =
     (let (gridX, gridY) = layoutGrid copyBytes sliceSize chunkCount in
      launchResult env (cudaLaunchKernel ''packSliceKernel''
        [copyBytes, if swizzle then 1 else 0, ucast gridX, ucast gridY, source, sourcePitch, destination, sliceSize,
         chunkCount, size_of_int nodes, size_of_int perNode] strm))"

definition launchUnpackTyped ::
  "api_env \<Rightarrow> size_t \<Rightarrow> ptr \<Rightarrow> ptr \<Rightarrow> size_t \<Rightarrow> size_t \<Rightarrow> size_t \<Rightarrow> ptr \<Rightarrow>
   'w api_world_scheme \<Rightarrow> ncclResult_t \<times> 'w api_world_scheme" where
  "launchUnpackTyped env copyBytes source destination destinationPitch sliceSize chunkCount strm =
     (let (gridX, gridY) = layoutGrid copyBytes sliceSize chunkCount in
      launchResult env (cudaLaunchKernel ''unpackSliceKernel''
        [copyBytes, ucast gridX, ucast gridY, source, destination, destinationPitch, sliceSize, chunkCount] strm))"

text \<open>The type of the elements, by the vector width: 16, 8, 4, 2 bytes, otherwise single bytes.\<close>

definition copyTypeBytes :: "size_t \<Rightarrow> size_t" where
  "copyTypeBytes vectorBytes =
     (if vectorBytes = 16 then 16 else if vectorBytes = 8 then 8 else if vectorBytes = 4 then 4
      else if vectorBytes = 2 then 2 else 1)"

definition dispatchPack ::
  "api_env \<Rightarrow> bool \<Rightarrow> ptr \<Rightarrow> size_t \<Rightarrow> ptr \<Rightarrow> size_t \<Rightarrow> size_t \<Rightarrow> int \<Rightarrow> int \<Rightarrow> ptr \<Rightarrow>
   'w api_world_scheme \<Rightarrow> ncclResult_t \<times> 'w api_world_scheme" where
  "dispatchPack env swizzle source sourcePitch destination sliceSize chunkCount nodes perNode strm =
     launchPackTyped env
       (copyTypeBytes (layoutVectorBytes source sourcePitch destination sliceSize sliceSize)) swizzle
       source sourcePitch destination sliceSize chunkCount nodes perNode strm"

definition dispatchUnpack ::
  "api_env \<Rightarrow> ptr \<Rightarrow> ptr \<Rightarrow> size_t \<Rightarrow> size_t \<Rightarrow> size_t \<Rightarrow> ptr \<Rightarrow>
   'w api_world_scheme \<Rightarrow> ncclResult_t \<times> 'w api_world_scheme" where
  "dispatchUnpack env source destination destinationPitch sliceSize chunkCount strm =
     launchUnpackTyped env
       (copyTypeBytes (layoutVectorBytes source sliceSize destination destinationPitch sliceSize))
       source destination destinationPitch sliceSize chunkCount strm"

definition cocclLaunchPackSlice ::
  "api_env \<Rightarrow> ptr \<Rightarrow> size_t \<Rightarrow> ptr \<Rightarrow> size_t \<Rightarrow> size_t \<Rightarrow> cocclPipelineInputLayout \<Rightarrow> int \<Rightarrow> int \<Rightarrow> ptr \<Rightarrow>
   'w api_world_scheme \<Rightarrow> ncclResult_t \<times> 'w api_world_scheme" where
  "cocclLaunchPackSlice env source sourcePitch destination sliceSize chunkCount layout nodes perNode strm w =
     (if source = nullptr \<or> destination = nullptr \<or> sliceSize = 0 \<or> chunkCount = 0 \<or> sourcePitch < sliceSize
      then (ncclInvalidArgument, w)
      else
        let vectorBytes = layoutVectorBytes source sourcePitch destination sliceSize sliceSize in
        if layout = InputContiguous \<and> vectorBytes < 16 \<and>
           (vectorBytes > 2 \<or> sliceSize * chunkCount < kLayoutKernelCrossoverBytes)
        then launchResult env (cudaMemcpy2DAsync destination sliceSize source sourcePitch sliceSize chunkCount strm) w
        else dispatchPack env (layout = InputHierarchicalSwizzle) source sourcePitch destination sliceSize chunkCount
               nodes perNode strm w)"

definition cocclLaunchUnpackSlice ::
  "api_env \<Rightarrow> ptr \<Rightarrow> ptr \<Rightarrow> size_t \<Rightarrow> size_t \<Rightarrow> size_t \<Rightarrow> ptr \<Rightarrow>
   'w api_world_scheme \<Rightarrow> ncclResult_t \<times> 'w api_world_scheme" where
  "cocclLaunchUnpackSlice env source destination destinationPitch sliceSize chunkCount strm w =
     (if source = nullptr \<or> destination = nullptr \<or> sliceSize = 0 \<or> chunkCount = 0 \<or> destinationPitch < sliceSize
      then (ncclInvalidArgument, w)
      else
        let vectorBytes = layoutVectorBytes source sliceSize destination destinationPitch sliceSize in
        if vectorBytes < 16 \<and> (vectorBytes > 2 \<or> sliceSize * chunkCount < kLayoutKernelCrossoverBytes)
        then launchResult env (cudaMemcpy2DAsync destination destinationPitch source sliceSize sliceSize chunkCount strm) w
        else dispatchUnpack env source destination destinationPitch sliceSize chunkCount strm w)"

end
