(* ===== verification/Pipeline_Plan.thy ===== *)
theory Pipeline_Plan
  imports Pipeline_Types
begin

text \<open>
  The pipeline planner, \<^verbatim>\<open>core/pipeline/coccl_pipeline_plan.cc\<close>: slicing of the user buffers,
  sizes of every stage output, the logical plan with its temporaries, and the two workspace
  layouts (one arena per slice, or an arena plus a two-slot ring for the boundary buffers).
\<close>

section \<open>Workspace layouts\<close>

record cocclPipelinePlannedEdge =
  edgeBytes :: size_t
  totalElements :: size_t
  edgeDatatype :: ncclDataType_t
  logicalChunks :: size_t
  edgeCompressor :: ptr
  framed :: bool
  edgeFrameStrideBytes :: size_t

definition boundaryTemp :: "cocclPipelinePlan \<Rightarrow> nat \<Rightarrow> bool" where
  "boundaryTemp pl temp \<longleftrightarrow> Some temp = inputStagingTemp pl \<or> Some temp = outputStagingTemp pl"

text \<open>
  The loop over neighbouring temporaries that both layouts run: the largest sum of the aligned
  sizes of two consecutive elements, at least the given start value.
\<close>

fun adjacentMax :: "cocclPipelineTempPlan list \<Rightarrow> nat list \<Rightarrow> size_t \<Rightarrow> size_t option" where
  "adjacentMax ts (previous # temp # rest) m =
     (case cocclPipelineCheckedAdd (alignedBytes (ts ! previous)) (alignedBytes (ts ! temp)) of
        None \<Rightarrow> None
      | Some adjacentBytes \<Rightarrow>
          adjacentMax ts (temp # rest) (if adjacentBytes > m then adjacentBytes else m))"
| "adjacentMax ts _ m = Some m"

definition buildUnifiedWorkspace :: "cocclPipelinePlan \<Rightarrow> nat \<Rightarrow> cocclPipelinePlan option" where
  "buildUnifiedWorkspace logical dep =
     (case adjacentMax (temps logical) [0..<tempCount logical] (alignedBytes (temps logical ! 0)) of
        None \<Rightarrow> None
      | Some slc \<Rightarrow>
          (case cocclPipelineCheckedMultiply slc (word_of_nat dep) of
             None \<Rightarrow> None
           | Some registered \<Rightarrow> Some (logical\<lparr>
               workspaceKind := WorkspaceUnified,
               registeredSliceBytes := slc,
               rawBytes := 0,
               temps := map (\<lambda>(temp, item).
                   if temp < tempCount logical
                   then item\<lparr>storage := RegisteredArena,
                          offset := if temp mod 2 = 0 then 0 else slc - alignedBytes item\<rparr>
                   else item) (enumerate 0 (temps logical)),
               registeredBytes := registered,
               totalBytes := registered\<rparr>)))"

text \<open>One boundary buffer enters the ring: its offset and the bytes used so far.\<close>

definition addRawRing ::
  "nat option \<Rightarrow> cocclPipelineTempPlan list \<times> size_t \<Rightarrow> (cocclPipelineTempPlan list \<times> size_t) option" where
  "addRawRing tempIndex state =
     (case tempIndex of
        None \<Rightarrow> Some state
      | Some temp \<Rightarrow>
          (let (ts, raw) = state; item = ts ! temp in
           case cocclPipelineCheckedMultiply (alignedBytes item)
                  (word_of_nat kCocclPipelineRawRingSlots) of
             None \<Rightarrow> None
           | Some ringBytes \<Rightarrow>
               (case cocclPipelineCheckedAdd raw ringBytes of
                  None \<Rightarrow> None
                | Some raw' \<Rightarrow> Some (ts[temp := item\<lparr>storage := RawRing, offset := raw\<rparr>], raw'))))"

text \<open>The non-boundary temporaries in order; the loops skip the others with \<^verbatim>\<open>continue\<close>.\<close>

definition coreTemps :: "cocclPipelinePlan \<Rightarrow> nat list" where
  "coreTemps pl = filter (\<lambda>temp. \<not> boundaryTemp pl temp) [0..<tempCount pl]"

definition placeCore ::
  "size_t \<Rightarrow> nat \<times> nat \<Rightarrow> cocclPipelineTempPlan list \<Rightarrow> cocclPipelineTempPlan list" where
  "placeCore slc = (\<lambda>(corePosition, temp) ts.
     ts[temp := (ts ! temp)\<lparr>storage := RegisteredArena,
          offset := if corePosition mod 2 = 0 then 0 else slc - alignedBytes (ts ! temp)\<rparr>])"

definition buildSplitWorkspace :: "cocclPipelinePlan \<Rightarrow> nat \<Rightarrow> cocclPipelinePlan option" where
  "buildSplitWorkspace logical dep =
     (case Option.bind (addRawRing (inputStagingTemp logical) (temps logical, 0))
             (addRawRing (outputStagingTemp logical)) of
        None \<Rightarrow> None
      | Some (ts, raw) \<Rightarrow>
          (let core = coreTemps logical in
           if core = [] then None
           else case adjacentMax ts core (alignedBytes (ts ! hd core)) of
             None \<Rightarrow> None
           | Some slc \<Rightarrow>
               (case cocclPipelineCheckedMultiply slc (word_of_nat dep) of
                  None \<Rightarrow> None
                | Some registered \<Rightarrow>
                    (case cocclPipelineCheckedAdd registered raw of
                       None \<Rightarrow> None
                     | Some tot \<Rightarrow> Some (logical\<lparr>
                         workspaceKind := WorkspaceSplit,
                         registeredSliceBytes := slc,
                         registeredBytes := registered,
                         rawBytes := raw,
                         temps := fold (placeCore slc) (enumerate 0 core) ts,
                         totalBytes := tot\<rparr>)))))"

definition cocclPlanPipelineWorkspace :: "cocclPipelinePlan \<Rightarrow> nat \<Rightarrow> cocclPipelinePlan result" where
  "cocclPlanPipelineWorkspace pl dep =
     (case (buildUnifiedWorkspace pl dep, buildSplitWorkspace pl dep) of
        (None, None) \<Rightarrow> Inl ncclInvalidArgument
      | (Some unified, None) \<Rightarrow> Inr unified
      | (None, Some split) \<Rightarrow> Inr split
      | (Some unified, Some split) \<Rightarrow>
          Inr (if totalBytes split < totalBytes unified then split else unified))"

section \<open>Stage outputs and the logical plan\<close>

fun outputRole :: "cocclPipelineStageKind \<Rightarrow> cocclPipelineTempRole" where
  "outputRole StageCompress = TempCompressOutput"
| "outputRole StageAllToAll = TempAllToAllOutput"
| "outputRole StageAllGather = TempAllGatherOutput"
| "outputRole StageDecompReduceComp = TempDecompReduceCompOutput"
| "outputRole StageDecompressReduce = TempDecompressReduceOutput"
| "outputRole StageReduceScatter = TempReduceScatterOutput"
| "outputRole StageDecompress = TempOutputStaging"
| "outputRole StagePack = TempOutputStaging"
| "outputRole StageUnpack = TempOutputStaging"

text \<open>
  \<^verbatim>\<open>addTemp\<close> fills the entry at \<^verbatim>\<open>tempCount\<close> and returns the index it used. The sizes of the
  temporary are computed first; a failure leaves through \<^verbatim>\<open>ncclInvalidArgument\<close>.
\<close>

definition planTemp ::
  "cocclPipelineTempRole \<Rightarrow> cocclPipelinePlannedEdge \<Rightarrow> cocclPipelineTempPlan \<Rightarrow>
   cocclPipelineTempPlan result" where
  "planTemp rol edge temp =
     (let base = temp\<lparr>role := rol, tempPayloadBytes := edgeBytes edge,
            tempFrameStrideBytes := edgeFrameStrideBytes edge, logicalBytes := edgeBytes edge\<rparr> in
      bindE (if framed edge
             then bindE (fromOption ncclInvalidArgument (cocclAlignPipelineBytes (edgeBytes edge)))
               (\<lambda>moff. bindE (fromOption ncclInvalidArgument
                      (cocclPipelineCheckedMultiply (logicalChunks edge) sizeof_frameMetadata))
               (\<lambda>mbytes. bindE (fromOption ncclInvalidArgument (cocclPipelineCheckedAdd moff mbytes))
               (\<lambda>logical. Inr (base\<lparr>frameMetadataOffset := moff, frameMetadataBytes := mbytes,
                                  logicalBytes := logical\<rparr>))))
             else Inr base)
        (\<lambda>t. bindE (fromOption ncclInvalidArgument (cocclAlignPipelineBytes (logicalBytes t)))
           (\<lambda>aligned. Inr (t\<lparr>alignedBytes := aligned\<rparr>))))"

definition addTemp ::
  "cocclPipelinePlan \<Rightarrow> cocclPipelineTempRole \<Rightarrow> cocclPipelinePlannedEdge \<Rightarrow>
   (cocclPipelinePlan \<times> nat) result" where
  "addTemp pl rol edge =
     bindE (planTemp rol edge (temps pl ! tempCount pl))
       (\<lambda>temp. Inr (pl\<lparr>temps := (temps pl)[tempCount pl := temp],
                       tempCount := Suc (tempCount pl)\<rparr>, tempCount pl))"

definition planRawEdge ::
  "cocclPipelineContext \<Rightarrow> size_t \<Rightarrow> cocclPipelinePlannedEdge result" where
  "planRawEdge context chnks =
     bindE (fromOption ncclInvalidArgument
              (cocclPipelineCheckedMultiply (rawSliceCount (stageContext context)) chnks))
       (\<lambda>elems. bindE (fromOption ncclInvalidArgument
              (cocclPipelineCheckedMultiply (rawSliceBytes (stageContext context)) chnks))
       (\<lambda>byts. Inr \<lparr>edgeBytes = byts, totalElements = elems,
          edgeDatatype = specDatatype (spec context), logicalChunks = chnks,
          edgeCompressor = nullptr, framed = False, edgeFrameStrideBytes = 0\<rparr>))"

definition queryEncodedBound ::
  "compressor_store \<Rightarrow> ptr \<Rightarrow> cocclCompressorOperation \<Rightarrow> cocclPipelinePlannedEdge \<Rightarrow> size_t result" where
  "queryEncodedBound cs compressor oper rawShape =
     (let (r, encodedBytes) = cocclGetCompressorEncodedSizeBound cs compressor oper
            (totalElements rawShape) (logicalChunks rawShape) (edgeDatatype rawShape) 0 in
      if nccl_ok r then Inr encodedBytes else Inl r)"

definition stageRanks :: "cocclPipelineStage \<Rightarrow> size_t" where
  "stageRanks stage = size_of_int (nRanks (the (stageComm stage)))"

definition planStageOutput ::
  "compressor_store \<Rightarrow> cocclPipelineContext \<Rightarrow> cocclPipelineStage \<Rightarrow> size_t \<Rightarrow>
   cocclPipelinePlannedEdge \<Rightarrow> cocclPipelinePlannedEdge result" where
  "planStageOutput cs context stage outputChunks inp =
     (case kind stage of
        StageCompress \<Rightarrow>
          (let frm = cocclCompressorSupports cs (stageCompressor stage)
                       cocclCompressorCapabilityFramed in
           bindE (queryEncodedBound cs (stageCompressor stage) OperationCompress inp)
             (\<lambda>bound. let encodedBytes = (if \<not> frm \<and> bound > edgeBytes inp then edgeBytes inp
                                         else bound) in
               Inr \<lparr>edgeBytes = encodedBytes, totalElements = encodedBytes,
                    edgeDatatype = ncclInt8, logicalChunks = outputChunks,
                    edgeCompressor = stageCompressor stage, framed = frm,
                    edgeFrameStrideBytes = if frm then encodedBytes div logicalChunks inp else 0\<rparr>))
      | StageAllToAll \<Rightarrow> Inr (inp\<lparr>logicalChunks := outputChunks\<rparr>)
      | StagePack \<Rightarrow> Inr (inp\<lparr>logicalChunks := outputChunks\<rparr>)
      | StageUnpack \<Rightarrow> Inr (inp\<lparr>logicalChunks := outputChunks\<rparr>)
      | StageAllGather \<Rightarrow>
          bindE (fromOption ncclInvalidArgument
                   (cocclPipelineCheckedMultiply (edgeBytes inp) (stageRanks stage)))
            (\<lambda>byts. bindE (fromOption ncclInvalidArgument
                   (cocclPipelineCheckedMultiply (totalElements inp) (stageRanks stage)))
            (\<lambda>elems. Inr (inp\<lparr>edgeBytes := byts, totalElements := elems,
                             logicalChunks := outputChunks\<rparr>)))
      | StageDecompReduceComp \<Rightarrow>
          bindE (planRawEdge context outputChunks)
            (\<lambda>rawOutput. bindE (queryEncodedBound cs (stageCompressor stage) OperationCompress rawOutput)
            (\<lambda>genericBytes.
               let generic = (if genericBytes < edgeBytes rawOutput then genericBytes
                              else edgeBytes rawOutput);
                   frm = cocclCompressorSupports cs (stageCompressor stage)
                           cocclCompressorCapabilityFramed in
               bindE (if edgeCompressor inp = stageCompressor stage \<and>
                         cocclCompressorSupports cs (stageCompressor stage)
                           cocclCompressorCapabilityDecompressReduceCompress
                      then bindE (queryEncodedBound cs (stageCompressor stage)
                                    OperationDecompressReduceCompress rawOutput)
                        (\<lambda>fusedBytes. Inr (if fusedBytes \<le> edgeBytes rawOutput \<and> fusedBytes > generic
                                          then fusedBytes else generic))
                      else Inr generic)
                 (\<lambda>planned. let plannedBytes = (if frm then genericBytes else planned) in
                   Inr \<lparr>edgeBytes = plannedBytes, totalElements = plannedBytes,
                        edgeDatatype = ncclInt8, logicalChunks = outputChunks,
                        edgeCompressor = stageCompressor stage, framed = frm,
                        edgeFrameStrideBytes =
                          if frm then genericBytes div logicalChunks rawOutput else 0\<rparr>)))
      | StageDecompressReduce \<Rightarrow> planRawEdge context outputChunks
      | StageDecompress \<Rightarrow> planRawEdge context outputChunks
      | StageReduceScatter \<Rightarrow> planRawEdge context outputChunks)"

text \<open>
  One iteration of the stage loop of \<^verbatim>\<open>buildLogicalPlan\<close>: \<open>stage\<close> is the index, the state is the
  plan and the edge that enters the stage.
\<close>

definition planStage ::
  "compressor_store \<Rightarrow> cocclPipelineContext \<Rightarrow> cocclPipelineContext \<Rightarrow> size_t list \<Rightarrow> nat \<Rightarrow>
   cocclPipelinePlan \<times> cocclPipelinePlannedEdge \<Rightarrow>
   (cocclPipelinePlan \<times> cocclPipelinePlannedEdge) result" where
  "planStage cs context planning stageChunks stage state =
     (let (pl, edge) = state; st = stages (spec context) ! stage in
      bindE (planStageOutput cs planning st (stageChunks ! stage) edge)
        (\<lambda>out.
           let pl1 = pl\<lparr>stageOutputCapacityBytes :=
                         (stageOutputCapacityBytes pl)[stage := edgeBytes out]\<rparr> in
           if Suc stage = length (stages (spec context))
           then if depth context > 1 \<and> logicalChunks out > 1
                then bindE (addTemp pl1 TempOutputStaging out)
                  (\<lambda>(pl2, temp). Inr (pl2\<lparr>outputStagingTemp := Some temp,
                     stageOutputTemp := (stageOutputTemp pl2)[stage := Some temp]\<rparr>, out))
                else Inr (pl1, out)
           else bindE (addTemp pl1 (outputRole (kind st)) out)
                  (\<lambda>(pl2, temp). Inr (pl2\<lparr>stageOutputTemp :=
                     (stageOutputTemp pl2)[stage := Some temp]\<rparr>, out))))"

definition buildLogicalPlan ::
  "compressor_store \<Rightarrow> cocclPipelineContext \<Rightarrow> size_t list \<Rightarrow> cocclPipelineSliceShape \<Rightarrow>
   cocclPipelinePlan result" where
  "buildLogicalPlan cs context stageChunks slc =
     (let planning = context\<lparr>stageContext := (stageContext context)\<lparr>
            rawSliceCount := elementCount slc, rawSliceBytes := sliceBytes slc\<rparr>\<rparr> in
      bindE (planRawEdge planning (inputChunks (spec context)))
        (\<lambda>edge. bindE
           (if inputChunks (spec context) > 1 \<and>
               (depth context > 1 \<or>
                contextInputLayout (stageContext context) = InputHierarchicalSwizzle)
            then bindE (addTemp emptyPlan TempInputStaging edge)
                   (\<lambda>(pl, temp). Inr (pl\<lparr>inputStagingTemp := Some temp\<rparr>))
            else Inr emptyPlan)
        (\<lambda>pl0. bindE (foldE (planStage cs context planning stageChunks)
                        [0..<length (stages (spec context))] (pl0, edge))
        (\<lambda>(pl, final). Inr (pl\<lparr>finalChunks := logicalChunks final\<rparr>)))))"

definition mergeLogicalPlan :: "cocclPipelinePlan \<Rightarrow> cocclPipelinePlan \<Rightarrow> cocclPipelinePlan" where
  "mergeLogicalPlan source target = target\<lparr>
     stageOutputCapacityBytes := map2 (\<lambda>s t. if s > t then s else t)
       (stageOutputCapacityBytes source) (stageOutputCapacityBytes target),
     temps := map (\<lambda>(temp, t).
         if temp < tempCount target \<and> tempPayloadBytes (temps source ! temp) > tempPayloadBytes t
         then temps source ! temp else t) (enumerate 0 (temps target))\<rparr>"

section \<open>User buffers and chunk counts\<close>

definition cocclPipelineUserBuffersRequireSerial ::
  "ptr \<Rightarrow> size_t \<Rightarrow> ptr \<Rightarrow> size_t \<Rightarrow> size_t \<Rightarrow> int \<Rightarrow> cocclPipelineInPlaceLayout \<Rightarrow> bool result" where
  "cocclPipelineUserBuffersRequireSerial inp inChunks out outChunks chunkBytes rnk layout =
     (case (cocclPipelineCheckedMultiply chunkBytes inChunks,
            cocclPipelineCheckedMultiply chunkBytes outChunks) of
        (Some inBytes, Some outBytes) \<Rightarrow>
          if inBytes > SIZE_MAX - inp \<or> outBytes > SIZE_MAX - out then Inl ncclInvalidArgument
          else if inp \<ge> out + outBytes \<or> out \<ge> inp + inBytes then Inr False
          else (case layout of
             InPlaceNone \<Rightarrow> Inr True
           | InPlaceSameBuffer \<Rightarrow> Inr (\<not> (inChunks = outChunks \<and> inp = out))
           | InPlaceInputRankChunk \<Rightarrow>
               if rnk < 0 \<or> size_of_int rnk \<ge> outChunks then Inl ncclInvalidArgument
               else (case cocclPipelineCheckedMultiply chunkBytes (size_of_int rnk) of
                  None \<Rightarrow> Inl ncclInvalidArgument
                | Some rankOffset \<Rightarrow>
                    if rankOffset > SIZE_MAX - out then Inl ncclInvalidArgument
                    else Inr (\<not> (inChunks = 1 \<and> inp = out + rankOffset)))
           | InPlaceOutputRankChunk \<Rightarrow>
               if rnk < 0 \<or> size_of_int rnk \<ge> inChunks then Inl ncclInvalidArgument
               else (case cocclPipelineCheckedMultiply chunkBytes (size_of_int rnk) of
                  None \<Rightarrow> Inl ncclInvalidArgument
                | Some rankOffset \<Rightarrow>
                    if rankOffset > SIZE_MAX - inp then Inl ncclInvalidArgument
                    else Inr (\<not> (outChunks = 1 \<and> out = inp + rankOffset))))
      | _ \<Rightarrow> Inl ncclInvalidArgument)"

definition cocclPipelineStageOutputChunks :: "cocclPipelineStage \<Rightarrow> size_t \<Rightarrow> size_t result" where
  "cocclPipelineStageOutputChunks stage inChunks =
     (case kind stage of
        StageAllGather \<Rightarrow> fromOption ncclInvalidArgument
          (cocclPipelineCheckedMultiply inChunks (stageRanks stage))
      | StageDecompReduceComp \<Rightarrow>
          if reduceChunks stage = 0 \<or> inChunks mod reduceChunks stage \<noteq> 0
          then Inl ncclInvalidArgument else Inr (inChunks div reduceChunks stage)
      | StageDecompressReduce \<Rightarrow>
          if reduceChunks stage = 0 \<or> inChunks mod reduceChunks stage \<noteq> 0
          then Inl ncclInvalidArgument else Inr (inChunks div reduceChunks stage)
      | StageReduceScatter \<Rightarrow> Inr (inChunks div stageRanks stage)
      | _ \<Rightarrow> Inr inChunks)"

section \<open>Preparing a pipeline\<close>

definition clampDepth :: "int \<Rightarrow> size_t \<Rightarrow> nat" where
  "clampDepth requestedDepth count =
     (let d = (if requestedDepth > 1 then nat requestedDepth else 1) in
      if d > kCocclPipelineMaxDepth then 1
      else if count < word_of_nat d then unat count else d)"

text \<open>The chunk count after each stage.\<close>

definition stageChunkCounts ::
  "cocclPipelineStage list \<Rightarrow> size_t \<Rightarrow> (size_t list \<times> size_t) result" where
  "stageChunkCounts sts inChunks =
     foldE (\<lambda>st (acc, chnks). bindE (cocclPipelineStageOutputChunks st chnks)
              (\<lambda>out. Inr (acc @ [out], out))) sts ([], inChunks)"

definition sliceShape :: "size_t \<Rightarrow> size_t \<Rightarrow> size_t \<Rightarrow> nat \<Rightarrow> nat \<Rightarrow> cocclPipelineSliceShape option" where
  "sliceShape quot remd typeBytes dep slc =
     (let eoff = word_of_nat slc * quot;
          ecount = quot + (if Suc slc = dep then remd else 0) in
      case (cocclPipelineCheckedMultiply eoff typeBytes,
            cocclPipelineCheckedMultiply ecount typeBytes) of
        (Some boff, Some byts) \<Rightarrow>
          Some \<lparr>elementOffset = eoff, elementCount = ecount, byteOffset = boff, sliceBytes = byts\<rparr>
      | _ \<Rightarrow> None)"

definition buildSlices ::
  "size_t \<Rightarrow> size_t \<Rightarrow> nat \<Rightarrow> (cocclPipelineSliceShape list \<times> size_t \<times> size_t) result" where
  "buildSlices count typeBytes dep =
     (let quot = count div word_of_nat dep; remd = count mod word_of_nat dep in
      foldE (\<lambda>slc (shapes, maxCount, maxBytes).
          bindE (fromOption ncclInvalidArgument (sliceShape quot remd typeBytes dep slc))
            (\<lambda>shape. Inr (if elementCount shape > maxCount
                         then (shapes @ [shape], elementCount shape, sliceBytes shape)
                         else (shapes @ [shape], maxCount, maxBytes))))
        [0..<dep] ([], 0, 0))"

definition effectiveInputLayout ::
  "compressor_store \<Rightarrow> cocclPipelineSpec \<Rightarrow> cocclPipelineInputLayout" where
  "effectiveInputLayout cs sp =
     (if inputLayout sp = InputHierarchicalSwizzle \<and>
         \<not> (kind (hd (stages sp)) = StageCompress \<and>
            cocclCompressorSupports cs (stageCompressor (hd (stages sp)))
              cocclCompressorCapabilityFusedHierarchicalSwizzle)
      then InputHierarchicalSwizzle else InputContiguous)"

text \<open>
  The context before planning. C's truncating division of the non-negative rank counts is \<open>div\<close>.
\<close>

definition initialContext ::
  "compressor_store \<Rightarrow> cocclPipelineSpec \<Rightarrow> nat \<Rightarrow> size_t \<Rightarrow>
   cocclPipelineSliceShape list \<times> size_t \<times> size_t \<Rightarrow> cocclPipelineContext" where
  "initialContext cs sp dep chunkBytes = (\<lambda>(shapes, maxCount, maxBytes).
     let owner = the (ownerComm sp); layout = effectiveInputLayout cs sp in
     \<lparr>spec = sp, depth = dep, slices = shapes, maxSliceCount = maxCount,
      maxSliceBytes = maxBytes, sliceStageOutputBytes = [], sliceStageFrameStrideBytes = [],
      stageContext = \<lparr>rawSliceCount = maxCount, rawSliceBytes = maxBytes,
        rawChunkBytes = chunkBytes, rawDatatype = specDatatype sp,
        contextComm = ownerComm sp, contextInputLayout = layout,
        contextNodes = (if layout = InputHierarchicalSwizzle
                        then nRanks owner div localRanks owner else 1),
        ranksPerNode = (if layout = InputHierarchicalSwizzle then localRanks owner else 1)\<rparr>,
      plan = emptyPlan\<rparr>)"

text \<open>The logical plans of the regular slice and of the last one, and the arrays per slice.\<close>

definition planContext ::
  "compressor_store \<Rightarrow> size_t list \<Rightarrow> cocclPipelineContext \<Rightarrow> cocclPipelineContext result" where
  "planContext cs stageChunks context =
     (let dep = depth context; shapes = slices context; n = length (stages (spec context));
          differs = (elementCount (shapes ! (dep - 1)) \<noteq> elementCount (shapes ! 0)) in
      bindE (buildLogicalPlan cs context stageChunks (shapes ! 0))
        (\<lambda>regular. bindE (if differs then buildLogicalPlan cs context stageChunks (shapes ! (dep - 1))
                         else Inr regular)
        (\<lambda>tail.
           let merged = (if differs then mergeLogicalPlan tail regular else regular);
               slicePlan = (\<lambda>slc. if Suc slc = dep then tail else regular) in
           bindE (cocclPlanPipelineWorkspace merged dep)
             (\<lambda>pl. Inr (context\<lparr>
                sliceStageOutputBytes := map (\<lambda>slc. map (\<lambda>stage.
                    stageOutputCapacityBytes (slicePlan slc) ! stage) [0..<n]) [0..<dep],
                sliceStageFrameStrideBytes := map (\<lambda>slc. map (\<lambda>stage.
                    case stageOutputTemp (slicePlan slc) ! stage of
                      None \<Rightarrow> 0
                    | Some temp \<Rightarrow> tempFrameStrideBytes (temps (slicePlan slc) ! temp))
                    [0..<n]) [0..<dep],
                plan := pl\<rparr>)))))"

definition cocclPreparePipeline ::
  "compressor_store \<Rightarrow> cocclPipelineSpec \<Rightarrow> int \<Rightarrow> cocclPipelineContext result" where
  "cocclPreparePipeline cs sp requestedDepth =
     (if specInput sp = nullptr \<or> specOutput sp = nullptr \<or> ownerComm sp = None \<or>
         rawChunkCount sp = 0 \<or> inputChunks sp = 0 \<or> stages sp = [] \<or>
         length (stages sp) > kCocclPipelineExplicitStages \<or>
         ncclTypeSize (specDatatype sp) \<le> 0
      then Inl ncclInvalidArgument
      else
        let typeBytes = size_of_int (ncclTypeSize (specDatatype sp)) in
        bindE (fromOption ncclInvalidArgument
                 (cocclPipelineCheckedMultiply (rawChunkCount sp) typeBytes))
        (\<lambda>chunkBytes. bindE (stageChunkCounts (stages sp) (inputChunks sp))
        (\<lambda>(stageChunks, chnks). bindE (cocclPipelineUserBuffersRequireSerial
               (specInput sp) (inputChunks sp) (specOutput sp) chnks chunkBytes
               (rank (the (ownerComm sp))) (inPlaceLayout sp))
        (\<lambda>requireSerial.
          let dep = (if requireSerial then 1 else clampDepth requestedDepth (rawChunkCount sp)) in
          bindE (buildSlices (rawChunkCount sp) typeBytes dep)
          (\<lambda>sliced. planContext cs stageChunks (initialContext cs sp dep chunkBytes sliced))))))"

end
