(* ===== verification/Pipeline_Workspace.thy ===== *)
theory Pipeline_Workspace
  imports Pipeline_Plan
begin

text \<open>
  Safety of the two workspace layouts of \<^verbatim>\<open>coccl_pipeline_plan.cc\<close>: in whatever layout the planner
  chooses, temporaries that are live together do not overlap, every temporary lies inside its
  arena or ring, and the byte totals requested from the buffer pool are exact.
\<close>

section \<open>Well-formed plans\<close>

definition plan_wf :: "cocclPipelinePlan \<Rightarrow> bool" where
  "plan_wf pl \<longleftrightarrow>
     length (temps pl) = kCocclPipelineMaxTemps \<and>
     tempCount pl \<le> kCocclPipelineMaxTemps \<and>
     length (stageOutputTemp pl) = kCocclPipelineExplicitStages \<and>
     length (stageOutputCapacityBytes pl) = kCocclPipelineExplicitStages \<and>
     (\<forall>t. inputStagingTemp pl = Some t \<longrightarrow> t < tempCount pl) \<and>
     (\<forall>t. outputStagingTemp pl = Some t \<longrightarrow> t < tempCount pl) \<and>
     (inputStagingTemp pl \<noteq> None \<longrightarrow> inputStagingTemp pl \<noteq> outputStagingTemp pl)"

lemma plan_wf_lengths:
  "plan_wf pl \<Longrightarrow> length (temps pl) = 8"
  "plan_wf pl \<Longrightarrow> tempCount pl \<le> length (temps pl)"
  "plan_wf pl \<Longrightarrow> inputStagingTemp pl = Some t \<Longrightarrow> t < tempCount pl"
  "plan_wf pl \<Longrightarrow> outputStagingTemp pl = Some t \<Longrightarrow> t < tempCount pl"
  by (simp_all add: plan_wf_def pipeline_constants)

text \<open>
  A laid-out plan is safe when, slice by slice, neighbouring arena temporaries are disjoint and
  inside the slice's part of the arena, the two-slot rings of the boundary buffers are disjoint
  and inside the raw region, and the totals are exact.
\<close>

definition arena_item :: "cocclPipelinePlan \<Rightarrow> nat \<Rightarrow> bool" where
  "arena_item pl t \<longleftrightarrow> t < tempCount pl \<and> storage (temps pl ! t) = RegisteredArena"

definition ring_item :: "cocclPipelinePlan \<Rightarrow> nat \<Rightarrow> bool" where
  "ring_item pl t \<longleftrightarrow> t < tempCount pl \<and> storage (temps pl ! t) = RawRing"

definition temp_begin :: "cocclPipelinePlan \<Rightarrow> nat \<Rightarrow> nat" where
  "temp_begin pl t = unat (offset (temps pl ! t))"

definition temp_size :: "cocclPipelinePlan \<Rightarrow> nat \<Rightarrow> nat" where
  "temp_size pl t = unat (alignedBytes (temps pl ! t))"

definition workspace_safe :: "cocclPipelinePlan \<Rightarrow> nat \<Rightarrow> bool" where
  "workspace_safe pl dep \<longleftrightarrow>
     (\<forall>t. arena_item pl t \<longrightarrow> temp_begin pl t + temp_size pl t \<le> unat (registeredSliceBytes pl)) \<and>
     (\<forall>t. arena_item pl t \<and> arena_item pl (Suc t) \<longrightarrow>
        disjoint_ranges (temp_begin pl t) (temp_size pl t)
          (temp_begin pl (Suc t)) (temp_size pl (Suc t))) \<and>
     (\<forall>t. ring_item pl t \<longrightarrow> temp_begin pl t + 2 * temp_size pl t \<le> unat (rawBytes pl)) \<and>
     (\<forall>t u. ring_item pl t \<and> ring_item pl u \<and> t \<noteq> u \<longrightarrow>
        disjoint_ranges (temp_begin pl t) (2 * temp_size pl t)
          (temp_begin pl u) (2 * temp_size pl u)) \<and>
     unat (registeredBytes pl) = dep * unat (registeredSliceBytes pl) \<and>
     unat (totalBytes pl) = unat (registeredBytes pl) + unat (rawBytes pl)"

section \<open>The neighbour maximum\<close>

lemma adjacentMax_bounds:
  assumes "adjacentMax ts xs m = Some r"
  shows "unat m \<le> unat r \<and>
    (\<forall>k. Suc k < length xs \<longrightarrow>
       unat (alignedBytes (ts ! (xs ! k))) + unat (alignedBytes (ts ! (xs ! Suc k))) \<le> unat r)"
  using assms
proof (induction ts xs m rule: adjacentMax.induct)
  case (1 ts p t rest m)
  then obtain s where s: "cocclPipelineCheckedAdd (alignedBytes (ts ! p)) (alignedBytes (ts ! t)) = Some s"
    and rec: "adjacentMax ts (t # rest) (if s > m then s else m) = Some r"
    by (auto split: option.splits)
  have sum: "unat s = unat (alignedBytes (ts ! p)) + unat (alignedBytes (ts ! t))"
    using s by (simp add: checkedAdd_Some_iff)
  note IH = "1.IH" [OF s rec]
  have ms: "unat m \<le> unat r \<and> unat s \<le> unat r"
    using IH by (auto simp: word_less_nat_alt split: if_splits)
  show ?case
  proof (intro conjI allI impI)
    show "unat m \<le> unat r" using ms by simp
    fix k
    assume "Suc k < length (p # t # rest)"
    then show "unat (alignedBytes (ts ! ((p # t # rest) ! k)))
        + unat (alignedBytes (ts ! ((p # t # rest) ! Suc k))) \<le> unat r"
      using IH ms sum by (cases k) auto
  qed
qed simp_all

lemma adjacentMax_single:
  assumes "adjacentMax ts xs (alignedBytes (ts ! hd xs)) = Some r" and "k < length xs"
  shows "unat (alignedBytes (ts ! (xs ! k))) \<le> unat r"
proof (cases k)
  case 0
  with assms adjacentMax_bounds [OF assms(1)] show ?thesis
    by (cases xs) auto
next
  case (Suc j)
  with assms(2) adjacentMax_bounds [OF assms(1)] show ?thesis
    by (metis add_leD2)
qed

text \<open>Placing every second element at the far end of an arena of the maximal size.\<close>

lemma alternate_placement:
  assumes r: "a + b \<le> r" and "b \<le> r" and "a \<le> (r :: nat)"
  shows "disjoint_ranges (if even k then 0 else r - a) a (if even (Suc k) then 0 else r - b) b"
  using assms by (cases "even k") (auto simp: disjoint_ranges_def)

lemma alternate_offset:
  assumes "unat a \<le> unat (r :: size_t)"
  shows "unat (if k mod 2 = 0 then 0 else r - a) = (if even (k :: nat) then 0 else unat r - unat a)"
  using assms by (auto simp: unat_sub_exact word_le_nat_alt even_iff_mod_2_eq_zero)

lemma alternate_layout:
  assumes r: "adjacentMax ts xs (alignedBytes (ts ! hd xs)) = Some r"
    and item: "\<And>k. k < length xs \<Longrightarrow> temps pl ! (xs ! k) = (ts ! (xs ! k))\<lparr>
      storage := RegisteredArena,
      offset := if k mod 2 = 0 then 0 else r - alignedBytes (ts ! (xs ! k))\<rparr>"
  shows "k < length xs \<Longrightarrow> temp_begin pl (xs ! k) + temp_size pl (xs ! k) \<le> unat r"
    and "Suc k < length xs \<Longrightarrow> disjoint_ranges (temp_begin pl (xs ! k)) (temp_size pl (xs ! k))
           (temp_begin pl (xs ! Suc k)) (temp_size pl (xs ! Suc k))"
proof -
  let ?al = "\<lambda>k. unat (alignedBytes (ts ! (xs ! k)))"
  have off: "temp_begin pl (xs ! k) = (if even k then 0 else unat r - ?al k)"
    and sz: "temp_size pl (xs ! k) = ?al k" if "k < length xs" for k
    using alternate_offset [OF adjacentMax_single [OF r that], of k] that
    by (simp_all add: temp_begin_def temp_size_def item)
  show "k < length xs \<Longrightarrow> temp_begin pl (xs ! k) + temp_size pl (xs ! k) \<le> unat r"
    using adjacentMax_single [OF r, of k] by (simp add: off sz)
  assume k: "Suc k < length xs"
  have sum: "?al k + ?al (Suc k) \<le> unat r" using adjacentMax_bounds [OF r] k by simp
  show "disjoint_ranges (temp_begin pl (xs ! k)) (temp_size pl (xs ! k))
           (temp_begin pl (xs ! Suc k)) (temp_size pl (xs ! Suc k))"
    using alternate_placement [OF sum, of k] sum k by (simp add: off sz)
qed

section \<open>The unified layout\<close>

lemma unified_safe:
  assumes build: "buildUnifiedWorkspace pl dep = Some pl'"
    and cnt: "tempCount pl \<le> length (temps pl)" and dep: "dep < 2 ^ 64"
  shows "workspace_safe pl' dep"
proof -
  let ?xs = "[0..<tempCount pl]"
  obtain r reg where r0: "adjacentMax (temps pl) ?xs (alignedBytes (temps pl ! 0)) = Some r"
    and reg: "cocclPipelineCheckedMultiply r (word_of_nat dep) = Some reg"
    and pl': "pl' = pl\<lparr>workspaceKind := WorkspaceUnified, registeredSliceBytes := r, rawBytes := 0,
       temps := map (\<lambda>(temp, item). if temp < tempCount pl
           then item\<lparr>storage := RegisteredArena,
                  offset := if temp mod 2 = 0 then 0 else r - alignedBytes item\<rparr>
           else item) (enumerate 0 (temps pl)),
       registeredBytes := reg, totalBytes := reg\<rparr>"
    using build by (auto simp: buildUnifiedWorkspace_def split: option.splits)
  have fields: "tempCount pl' = tempCount pl" "registeredSliceBytes pl' = r"
    "registeredBytes pl' = reg" "rawBytes pl' = 0" "totalBytes pl' = reg"
    by (simp_all add: pl')
  have item: "temps pl' ! (?xs ! t) = (temps pl ! (?xs ! t))\<lparr>storage := RegisteredArena,
      offset := if t mod 2 = 0 then 0 else r - alignedBytes (temps pl ! (?xs ! t))\<rparr>"
    if "t < length ?xs" for t
    using that cnt by (simp add: pl' nth_enumerate_eq)
  have r: "adjacentMax (temps pl) ?xs (alignedBytes (temps pl ! hd ?xs)) = Some r"
    if "0 < tempCount pl" using r0 that by (simp add: upt_rec)
  have ring: "\<not> ring_item pl' t" for t
    using item [of t] by (auto simp: ring_item_def fields)
  show ?thesis
    unfolding workspace_safe_def
  proof (intro conjI allI impI)
    fix t assume "arena_item pl' t"
    then show "temp_begin pl' t + temp_size pl' t \<le> unat (registeredSliceBytes pl')"
      using alternate_layout(1) [OF r item, of t] by (simp add: arena_item_def fields)
  next
    fix t assume "arena_item pl' t \<and> arena_item pl' (Suc t)"
    then show "disjoint_ranges (temp_begin pl' t) (temp_size pl' t)
        (temp_begin pl' (Suc t)) (temp_size pl' (Suc t))"
      using alternate_layout(2) [OF r item, of t] by (simp add: arena_item_def fields)
  qed (use ring reg dep in \<open>auto simp: fields checkedMultiply_Some_iff unat_word_of_nat_size\<close>)
qed

section \<open>The split layout\<close>

lemma placeCore_length [simp]: "length (fold (placeCore r) ps ts) = length ts"
  by (induction ps arbitrary: ts) (auto simp: placeCore_def)

lemma placeCore_other:
  "t \<notin> set core \<Longrightarrow> fold (placeCore r) (enumerate n core) ts ! t = ts ! t"
  by (induction core arbitrary: n ts) (auto simp: placeCore_def)

lemma placeCore_nth:
  assumes "distinct core" and "\<forall>t \<in> set core. t < length ts" and "k < length core"
  shows "fold (placeCore r) (enumerate n core) ts ! (core ! k) = (ts ! (core ! k))\<lparr>
     storage := RegisteredArena,
     offset := if (n + k) mod 2 = 0 then 0 else r - alignedBytes (ts ! (core ! k))\<rparr>"
  using assms
proof (induction core arbitrary: n ts k)
  case Nil
  then show ?case by simp
next
  case (Cons t core)
  let ?ts = "placeCore r (n, t) ts"
  show ?case
  proof (cases k)
    case 0
    with Cons.prems placeCore_other [of t core r "Suc n" ?ts] show ?thesis
      by (simp add: placeCore_def)
  next
    case (Suc j)
    then have ne: "core ! j \<noteq> t" using Cons.prems by auto
    have "\<forall>u \<in> set core. u < length ?ts" using Cons.prems by (simp add: placeCore_def)
    from Cons.IH [OF _ this, of j "Suc n"] Cons.prems Suc ne show ?thesis
      by (simp add: placeCore_def)
  qed
qed

lemma coreTemps_props:
  "distinct (coreTemps pl)"
  "t \<in> set (coreTemps pl) \<longleftrightarrow> t < tempCount pl \<and> \<not> boundaryTemp pl t"
  by (auto simp: coreTemps_def)

lemma coreTemps_adjacent:
  assumes "t \<in> set (coreTemps pl)" and "Suc t \<in> set (coreTemps pl)"
  obtains k where "Suc k < length (coreTemps pl)" "coreTemps pl ! k = t"
    "coreTemps pl ! Suc k = Suc t"
proof -
  let ?P = "\<lambda>temp. \<not> boundaryTemp pl temp"
  let ?n = "tempCount pl"
  have t: "Suc t < ?n" "?P t" "?P (Suc t)" using assms by (auto simp: coreTemps_props)
  have "[0..<?n] = [0..<t] @ [t..<?n]" using t(1) upt_add_eq_append [of 0 t "?n - t"] by simp
  moreover have "[t..<?n] = t # Suc t # [Suc (Suc t)..<?n]"
    using t(1) by (simp add: upt_rec)
  ultimately have "coreTemps pl = filter ?P [0..<t] @ t # Suc t # filter ?P [Suc (Suc t)..<?n]"
    using t(2,3) by (simp add: coreTemps_def)
  then have "Suc (length (filter ?P [0..<t])) < length (coreTemps pl) \<and>
      coreTemps pl ! length (filter ?P [0..<t]) = t \<and>
      coreTemps pl ! Suc (length (filter ?P [0..<t])) = Suc t"
    by (simp add: nth_append)
  then show ?thesis using that by blast
qed

text \<open>What entering the ring does to the array of temporaries and to the raw byte count.\<close>

lemma addRawRing_None_iff: "addRawRing None s = Some s' \<longleftrightarrow> s' = s"
  by (auto simp: addRawRing_def)

lemma addRawRing_SomeD:
  assumes "addRawRing (Some t) (ts, raw) = Some (ts', raw')"
  shows "ts' = ts[t := (ts ! t)\<lparr>storage := RawRing, offset := raw\<rparr>]"
    and "unat raw' = unat raw + 2 * unat (alignedBytes (ts ! t))"
  using assms
  by (auto simp: addRawRing_def Let_def checked_iffs kCocclPipelineRawRingSlots_def
      split: option.splits)

text \<open>
  The ring part of the split layout: each boundary temporary is a ring item at its own offset,
  the rings follow one another from offset 0, and nothing else changes.
\<close>

definition ring_state ::
  "cocclPipelinePlan \<Rightarrow> cocclPipelineTempPlan list \<Rightarrow> nat \<Rightarrow> bool" where
  "ring_state pl ts raw \<longleftrightarrow>
     length ts = length (temps pl) \<and>
     (\<forall>t < length ts. boundaryTemp pl t \<longrightarrow>
        storage (ts ! t) = RawRing \<and>
        unat (offset (ts ! t)) + 2 * unat (alignedBytes (ts ! t)) \<le> raw) \<and>
     (\<forall>t u. t < length ts \<and> u < length ts \<and> boundaryTemp pl t \<and> boundaryTemp pl u \<and> t \<noteq> u \<longrightarrow>
        disjoint_ranges (unat (offset (ts ! t))) (2 * unat (alignedBytes (ts ! t)))
          (unat (offset (ts ! u))) (2 * unat (alignedBytes (ts ! u))))"

lemma addRawRing_ring_state:
  assumes wf: "plan_wf pl"
    and rings: "Option.bind (addRawRing (inputStagingTemp pl) (temps pl, 0))
                  (addRawRing (outputStagingTemp pl)) = Some (ts, raw)"
  shows "ring_state pl ts (unat raw)"
proof (cases "inputStagingTemp pl")
  case None
  then have out: "addRawRing (outputStagingTemp pl) (temps pl, 0) = Some (ts, raw)"
    using rings by (simp add: addRawRing_def)
  show ?thesis
  proof (cases "outputStagingTemp pl")
    case none: None
    with None out show ?thesis
      by (simp add: ring_state_def addRawRing_None_iff boundaryTemp_def)
  next
    case (Some o')
    note upd = addRawRing_SomeD [OF out [unfolded Some]]
    have "o' < length (temps pl)" using wf Some plan_wf_lengths by fastforce
    with None Some upd show ?thesis
      by (auto simp: ring_state_def boundaryTemp_def nth_list_update)
  qed
next
  case (Some i)
  then obtain ts1 raw1 where one: "addRawRing (Some i) (temps pl, 0) = Some (ts1, raw1)"
    and two: "addRawRing (outputStagingTemp pl) (ts1, raw1) = Some (ts, raw)"
    using rings by (cases "addRawRing (Some i) (temps pl, 0)") auto
  note upd1 = addRawRing_SomeD [OF one]
  have i: "i < length (temps pl)" using wf Some plan_wf_lengths by fastforce
  show ?thesis
  proof (cases "outputStagingTemp pl")
    case None
    with Some two upd1 i show ?thesis
      by (auto simp: ring_state_def addRawRing_None_iff boundaryTemp_def nth_list_update)
  next
    case out: (Some o')
    note upd2 = addRawRing_SomeD [OF two [unfolded out]]
    have o': "o' < length (temps pl)" using wf out plan_wf_lengths by fastforce
    have "i \<noteq> o'" using wf Some out by (simp add: plan_wf_def)
    with Some out upd1 upd2 i o' show ?thesis
      by (auto simp: ring_state_def boundaryTemp_def nth_list_update disjoint_ranges_def)
  qed
qed

lemma split_safe:
  assumes build: "buildSplitWorkspace pl dep = Some pl'" and wf: "plan_wf pl" and dep: "dep < 2 ^ 64"
  shows "workspace_safe pl' dep"
proof -
  let ?core = "coreTemps pl"
  obtain ts raw r reg tot where
    rings: "Option.bind (addRawRing (inputStagingTemp pl) (temps pl, 0))
              (addRawRing (outputStagingTemp pl)) = Some (ts, raw)"
    and r: "adjacentMax ts ?core (alignedBytes (ts ! hd ?core)) = Some r"
    and reg: "cocclPipelineCheckedMultiply r (word_of_nat dep) = Some reg"
    and tot: "cocclPipelineCheckedAdd reg raw = Some tot"
    and pl': "pl' = pl\<lparr>workspaceKind := WorkspaceSplit, registeredSliceBytes := r,
       registeredBytes := reg, rawBytes := raw,
       temps := fold (placeCore r) (enumerate 0 ?core) ts, totalBytes := tot\<rparr>"
    using build
    by (auto simp: buildSplitWorkspace_def Let_def split: option.splits if_splits prod.splits)
  note rs = addRawRing_ring_state [OF wf rings, unfolded ring_state_def]
  have fields: "tempCount pl' = tempCount pl" "registeredSliceBytes pl' = r" "rawBytes pl' = raw"
    "registeredBytes pl' = reg" "totalBytes pl' = tot"
    by (simp_all add: pl')
  have len: "length ts = length (temps pl)" using rs by simp
  have below: "\<forall>t \<in> set ?core. t < length ts"
    using plan_wf_lengths(2) [OF wf] len by (auto simp: coreTemps_props)
  have core: "temps pl' ! (?core ! k) = (ts ! (?core ! k))\<lparr>storage := RegisteredArena,
      offset := if k mod 2 = 0 then 0 else r - alignedBytes (ts ! (?core ! k))\<rparr>"
    if "k < length ?core" for k
    using placeCore_nth [OF coreTemps_props(1) below that, where r = r and n = 0] by (simp add: pl')
  have other: "temps pl' ! t = ts ! t" if "t \<notin> set ?core" for t
    using placeCore_other [OF that] by (simp add: pl')
  have boundary: "t < length ts \<and> boundaryTemp pl t \<and> temps pl' ! t = ts ! t"
    if "ring_item pl' t" for t
  proof -
    have t: "t < tempCount pl" "storage (temps pl' ! t) = RawRing"
      using that by (simp_all add: ring_item_def fields)
    then have "t \<notin> set ?core" using core by (auto simp: in_set_conv_nth)
    with t(1) len plan_wf_lengths(2) [OF wf] other show ?thesis by (auto simp: coreTemps_props)
  qed
  have arena: "t \<in> set ?core" if "arena_item pl' t" for t
  proof (rule ccontr)
    assume t: "t \<notin> set ?core"
    then have "temps pl' ! t = ts ! t" by (rule other)
    moreover have "boundaryTemp pl t" "t < length ts"
      using that t len plan_wf_lengths(2) [OF wf] by (auto simp: arena_item_def fields coreTemps_props)
    ultimately show False using rs that by (auto simp: arena_item_def)
  qed
  show ?thesis
    unfolding workspace_safe_def
  proof (intro conjI allI impI)
    fix t assume "arena_item pl' t"
    then obtain k where "k < length ?core" "?core ! k = t" using arena by (auto simp: in_set_conv_nth)
    with alternate_layout(1) [OF r core, of k]
    show "temp_begin pl' t + temp_size pl' t \<le> unat (registeredSliceBytes pl')"
      by (simp add: fields)
  next
    fix t assume "arena_item pl' t \<and> arena_item pl' (Suc t)"
    then obtain k where "Suc k < length ?core" "?core ! k = t" "?core ! Suc k = Suc t"
      using arena coreTemps_adjacent by metis
    with alternate_layout(2) [OF r core, of k]
    show "disjoint_ranges (temp_begin pl' t) (temp_size pl' t)
        (temp_begin pl' (Suc t)) (temp_size pl' (Suc t))" by simp
  next
    fix t assume "ring_item pl' t"
    with boundary [of t] rs show "temp_begin pl' t + 2 * temp_size pl' t \<le> unat (rawBytes pl')"
      by (simp add: temp_begin_def temp_size_def fields)
  next
    fix t u assume "ring_item pl' t \<and> ring_item pl' u \<and> t \<noteq> u"
    with boundary [of t] boundary [of u] rs
    show "disjoint_ranges (temp_begin pl' t) (2 * temp_size pl' t)
        (temp_begin pl' u) (2 * temp_size pl' u)"
      by (simp add: temp_begin_def temp_size_def)
  next
    show "unat (registeredBytes pl') = dep * unat (registeredSliceBytes pl')"
      using reg dep by (simp add: fields checkedMultiply_Some_iff unat_word_of_nat_size mult.commute)
  next
    show "unat (totalBytes pl') = unat (registeredBytes pl') + unat (rawBytes pl')"
      using tot by (simp add: fields checkedAdd_Some_iff)
  qed
qed

end
