(* ===== verification/Pipeline_Logical.thy ===== *)
theory Pipeline_Logical
  imports Pipeline_Workspace
begin

text \<open>
  The logical plan of \<^verbatim>\<open>coccl_pipeline_plan.cc\<close>: what \<^verbatim>\<open>buildLogicalPlan\<close> guarantees of the arrays
  it fills, that the plans of the regular slice and of the last slice have the same shape, and
  that their merge has room for both.
\<close>

section \<open>One temporary\<close>

text \<open>
  A temporary holds its payload, then the frame metadata from the next aligned offset on, within
  its aligned size.
\<close>

definition temp_ok :: "cocclPipelineTempPlan \<Rightarrow> bool" where
  "temp_ok t \<longleftrightarrow>
     unat (tempPayloadBytes t) \<le> unat (alignedBytes t) \<and>
     256 dvd unat (alignedBytes t) \<and>
     (frameMetadataBytes t \<noteq> 0 \<longrightarrow>
        unat (tempPayloadBytes t) \<le> unat (frameMetadataOffset t) \<and>
        unat (frameMetadataOffset t) + unat (frameMetadataBytes t) \<le> unat (alignedBytes t))"

lemma planTemp_framed_iff:
  assumes "framed e"
  shows "planTemp rol e emptyTemp = Inr t \<longleftrightarrow>
    (\<exists>moff mbytes logical aligned.
       cocclAlignPipelineBytes (edgeBytes e) = Some moff \<and>
       cocclPipelineCheckedMultiply (logicalChunks e) sizeof_frameMetadata = Some mbytes \<and>
       cocclPipelineCheckedAdd moff mbytes = Some logical \<and>
       cocclAlignPipelineBytes logical = Some aligned \<and>
       t = \<lparr>role = rol, offset = 0, logicalBytes = logical, alignedBytes = aligned,
            tempPayloadBytes = edgeBytes e, frameMetadataOffset = moff,
            frameMetadataBytes = mbytes, tempFrameStrideBytes = edgeFrameStrideBytes e,
            storage = RegisteredArena\<rparr>)"
  using assms by (auto simp: planTemp_def Let_def result_simps emptyTemp_def)

lemma planTemp_plain_iff:
  assumes "\<not> framed e"
  shows "planTemp rol e emptyTemp = Inr t \<longleftrightarrow>
    (\<exists>aligned. cocclAlignPipelineBytes (edgeBytes e) = Some aligned \<and>
       t = \<lparr>role = rol, offset = 0, logicalBytes = edgeBytes e, alignedBytes = aligned,
            tempPayloadBytes = edgeBytes e, frameMetadataOffset = 0, frameMetadataBytes = 0,
            tempFrameStrideBytes = edgeFrameStrideBytes e, storage = RegisteredArena\<rparr>)"
  using assms by (auto simp: planTemp_def Let_def result_simps emptyTemp_def)

lemma planTemp_ok:
  assumes "planTemp rol e emptyTemp = Inr t"
  shows "temp_ok t \<and> tempPayloadBytes t = edgeBytes e"
proof (cases "framed e")
  case True
  with assms obtain moff mbytes logical aligned where *:
    "cocclAlignPipelineBytes (edgeBytes e) = Some moff"
    "cocclPipelineCheckedAdd moff mbytes = Some logical"
    "cocclAlignPipelineBytes logical = Some aligned"
    "tempPayloadBytes t = edgeBytes e" "alignedBytes t = aligned"
    "frameMetadataOffset t = moff" "frameMetadataBytes t = mbytes"
    by (auto simp: planTemp_framed_iff)
  then show ?thesis
    using align_bounds [OF *(1)] align_bounds [OF *(3)]
    by (simp add: temp_ok_def checkedAdd_Some_iff)
next
  case False
  with assms show ?thesis
    by (auto simp: planTemp_plain_iff temp_ok_def dest: align_bounds)
qed

text \<open>The size of a temporary grows with its payload, for equal chunk counts and framing.\<close>

lemma planTemp_mono:
  assumes "planTemp r1 e1 emptyTemp = Inr t1" and "planTemp r2 e2 emptyTemp = Inr t2"
    and "framed e1 = framed e2" and "logicalChunks e1 = logicalChunks e2"
    and "unat (edgeBytes e1) \<le> unat (edgeBytes e2)"
  shows "unat (alignedBytes t1) \<le> unat (alignedBytes t2)"
proof (cases "framed e1")
  case True
  with assms(1,2,3) obtain m1 b1 l1 a1 m2 b2 l2 a2 where *:
    "cocclAlignPipelineBytes (edgeBytes e1) = Some m1"
    "cocclAlignPipelineBytes (edgeBytes e2) = Some m2"
    "cocclPipelineCheckedMultiply (logicalChunks e1) sizeof_frameMetadata = Some b1"
    "cocclPipelineCheckedMultiply (logicalChunks e2) sizeof_frameMetadata = Some b2"
    "cocclPipelineCheckedAdd m1 b1 = Some l1" "cocclPipelineCheckedAdd m2 b2 = Some l2"
    "cocclAlignPipelineBytes l1 = Some a1" "cocclAlignPipelineBytes l2 = Some a2"
    "alignedBytes t1 = a1" "alignedBytes t2 = a2"
    by (auto simp: planTemp_framed_iff)
  have "unat m1 \<le> unat m2" by (rule align_mono [OF *(1,2) assms(5)])
  moreover have "b1 = b2" using *(3,4) assms(4) by simp
  ultimately have "unat l1 \<le> unat l2" using *(5,6) by (simp add: checkedAdd_Some_iff)
  from align_mono [OF *(7,8) this] show ?thesis by (simp add: *)
next
  case False
  with assms show ?thesis
    by (auto simp: planTemp_plain_iff intro: align_mono)
qed

section \<open>The stage loop\<close>

text \<open>What holds of the plan after \<open>k\<close> of \<open>n\<close> stages.\<close>

definition logical_ok :: "nat \<Rightarrow> nat \<Rightarrow> cocclPipelinePlan \<Rightarrow> bool" where
  "logical_ok n k pl \<longleftrightarrow>
     length (temps pl) = 8 \<and> length (stageOutputTemp pl) = 7 \<and>
     length (stageOutputCapacityBytes pl) = 7 \<and>
     tempCount pl \<le> Suc k \<and>
     (inputStagingTemp pl \<noteq> None \<longrightarrow> inputStagingTemp pl = Some 0 \<and> 0 < tempCount pl) \<and>
     (\<forall>t. outputStagingTemp pl = Some t \<longrightarrow> t < tempCount pl \<and> inputStagingTemp pl \<noteq> Some t) \<and>
     (k < n \<longrightarrow> outputStagingTemp pl = None) \<and>
     (\<forall>t. tempCount pl \<le> t \<and> t < 8 \<longrightarrow> temps pl ! t = emptyTemp) \<and>
     (\<forall>t < tempCount pl. temp_ok (temps pl ! t)) \<and>
     (\<forall>i < 7. \<forall>t. stageOutputTemp pl ! i = Some t \<longrightarrow>
        i < k \<and> t < tempCount pl \<and>
        tempPayloadBytes (temps pl ! t) = stageOutputCapacityBytes pl ! i)"

lemma logical_ok_empty: "logical_ok n 0 emptyPlan"
  by (simp add: logical_ok_def emptyPlan_def pipeline_constants)

lemma addTemp_eq_Inr:
  "addTemp pl rol e = Inr (pl', i) \<longleftrightarrow>
     i = tempCount pl \<and> (\<exists>t. planTemp rol e (temps pl ! tempCount pl) = Inr t \<and>
       pl' = pl\<lparr>temps := (temps pl)[tempCount pl := t], tempCount := Suc (tempCount pl)\<rparr>)"
  by (auto simp: addTemp_def result_simps)

lemma logical_ok_fresh:
  "logical_ok n k pl \<Longrightarrow> k < 7 \<Longrightarrow> tempCount pl < 8 \<and> temps pl ! tempCount pl = emptyTemp"
  by (simp add: logical_ok_def)

text \<open>The three ways one iteration extends the plan.\<close>

lemma logical_ok_no_temp:
  assumes "logical_ok n k pl" and "k < 7"
  shows "logical_ok n (Suc k) (pl\<lparr>stageOutputCapacityBytes :=
           (stageOutputCapacityBytes pl)[k := b]\<rparr>)"
  using assms unfolding logical_ok_def by (auto simp: nth_list_update)

lemma logical_ok_stage_temp:
  assumes ok: "logical_ok n k pl" and k: "k < 7" and t: "temp_ok t" "tempPayloadBytes t = b"
    and ots: "ots = outputStagingTemp pl \<or> (Suc k = n \<and> ots = Some (tempCount pl))"
  shows "logical_ok n (Suc k) (pl\<lparr>
     stageOutputCapacityBytes := (stageOutputCapacityBytes pl)[k := b],
     temps := (temps pl)[tempCount pl := t], tempCount := Suc (tempCount pl),
     outputStagingTemp := ots,
     stageOutputTemp := (stageOutputTemp pl)[k := Some (tempCount pl)]\<rparr>)"
  using ok k t ots unfolding logical_ok_def
  by (auto simp: nth_list_update less_Suc_eq)

text \<open>The plan after one iteration, by what the iteration allocates.\<close>

definition with_stage_temp ::
  "cocclPipelinePlan \<Rightarrow> nat \<Rightarrow> size_t \<Rightarrow> cocclPipelineTempPlan \<Rightarrow> nat option \<Rightarrow> cocclPipelinePlan" where
  "with_stage_temp pl k b t ots = pl\<lparr>
     stageOutputCapacityBytes := (stageOutputCapacityBytes pl)[k := b],
     temps := (temps pl)[tempCount pl := t], tempCount := Suc (tempCount pl),
     outputStagingTemp := ots,
     stageOutputTemp := (stageOutputTemp pl)[k := Some (tempCount pl)]\<rparr>"

lemma planStage_elim:
  assumes step: "planStage cs context planning stageChunks k (pl, e) = Inr (pl', out)"
  obtains
    (plain) "Suc k = length (stages (spec context))"
      "\<not> (depth context > 1 \<and> logicalChunks out > 1)"
      "pl' = pl\<lparr>stageOutputCapacityBytes := (stageOutputCapacityBytes pl)[k := edgeBytes out]\<rparr>"
  | (last) t where "Suc k = length (stages (spec context))"
      "depth context > 1 \<and> logicalChunks out > 1"
      "planTemp TempOutputStaging out (temps pl ! tempCount pl) = Inr t"
      "pl' = with_stage_temp pl k (edgeBytes out) t (Some (tempCount pl))"
  | (inner) t where "Suc k \<noteq> length (stages (spec context))"
      "planTemp (outputRole (kind (stages (spec context) ! k))) out (temps pl ! tempCount pl) = Inr t"
      "pl' = with_stage_temp pl k (edgeBytes out) t (outputStagingTemp pl)"
proof -
  let ?n = "length (stages (spec context))"
  show ?thesis
  proof (cases "Suc k = ?n")
    case True
    show ?thesis
    proof (cases "depth context > 1 \<and> logicalChunks out > 1")
      case stg: True
      then have "\<exists>t. planTemp TempOutputStaging out (temps pl ! tempCount pl) = Inr t \<and>
          pl' = with_stage_temp pl k (edgeBytes out) t (Some (tempCount pl))"
        using step True
        by (auto simp: planStage_def result_simps addTemp_eq_Inr Let_def with_stage_temp_def
            split: if_splits)
      with True stg last show ?thesis by blast
    next
      case nostg: False
      with step True
      have "pl' = pl\<lparr>stageOutputCapacityBytes := (stageOutputCapacityBytes pl)[k := edgeBytes out]\<rparr>"
        by (auto simp: planStage_def result_simps Let_def split: if_splits)
      with True nostg plain show ?thesis by blast
    qed
  next
    case False
    then have "\<exists>t. planTemp (outputRole (kind (stages (spec context) ! k))) out
        (temps pl ! tempCount pl) = Inr t \<and>
        pl' = with_stage_temp pl k (edgeBytes out) t (outputStagingTemp pl)"
      using step
      by (auto simp: planStage_def result_simps addTemp_eq_Inr Let_def with_stage_temp_def)
    with False inner show ?thesis by blast
  qed
qed

lemma planStage_output:
  "planStage cs context planning stageChunks k (pl, e) = Inr (pl', out) \<Longrightarrow>
   planStageOutput cs planning (stages (spec context) ! k) (stageChunks ! k) e = Inr out"
  by (auto simp: planStage_def result_simps Let_def split: if_splits)

lemma planStage_logical_ok:
  assumes step: "planStage cs context planning stageChunks k (pl, e) = Inr (pl', out)"
    and ok: "logical_ok (length (stages (spec context))) k pl" and k: "k < 7"
  shows "logical_ok (length (stages (spec context))) (Suc k) pl'"
proof -
  note fresh = logical_ok_fresh [OF ok k]
  have temp: "temp_ok t \<and> tempPayloadBytes t = edgeBytes out"
    if "planTemp r out (temps pl ! tempCount pl) = Inr t" for r t
    using that planTemp_ok fresh by auto
  from step show ?thesis
  proof (cases rule: planStage_elim)
    case plain
    with logical_ok_no_temp [OF ok k] show ?thesis by simp
  next
    case (last t)
    with temp [OF last(3)] logical_ok_stage_temp [OF ok k] show ?thesis
      by (simp add: with_stage_temp_def)
  next
    case (inner t)
    with temp [OF inner(2)] logical_ok_stage_temp [OF ok k] show ?thesis
      by (simp add: with_stage_temp_def)
  qed
qed

text \<open>The slice-dependent copy of the context that \<^verbatim>\<open>buildLogicalPlan\<close> plans with.\<close>

definition planningContext ::
  "cocclPipelineContext \<Rightarrow> cocclPipelineSliceShape \<Rightarrow> cocclPipelineContext" where
  "planningContext context slc = context\<lparr>stageContext := (stageContext context)\<lparr>
     rawSliceCount := elementCount slc, rawSliceBytes := sliceBytes slc\<rparr>\<rparr>"

definition stagesInput :: "cocclPipelineContext \<Rightarrow> bool" where
  "stagesInput context \<longleftrightarrow> inputChunks (spec context) > 1 \<and>
     (depth context > 1 \<or> contextInputLayout (stageContext context) = InputHierarchicalSwizzle)"

lemma buildLogicalPlan_elim:
  assumes "buildLogicalPlan cs context stageChunks slc = Inr pl"
  obtains edge pl0 pl1 final where
    "planRawEdge (planningContext context slc) (inputChunks (spec context)) = Inr edge"
    "if stagesInput context
     then \<exists>t. planTemp TempInputStaging edge emptyTemp = Inr t \<and>
            pl0 = emptyPlan\<lparr>temps := (temps emptyPlan)[0 := t], tempCount := 1, inputStagingTemp := Some 0\<rparr>
     else pl0 = emptyPlan"
    "foldE (planStage cs context (planningContext context slc) stageChunks)
       [0..<length (stages (spec context))] (pl0, edge) = Inr (pl1, final)"
    "pl = pl1\<lparr>finalChunks := logicalChunks final\<rparr>"
proof -
  have e: "temps emptyPlan ! 0 = emptyTemp" "tempCount emptyPlan = 0"
    by (simp_all add: emptyPlan_def pipeline_constants)
  obtain edge pl0 pl1 final where *:
    "planRawEdge (planningContext context slc) (inputChunks (spec context)) = Inr edge"
    "(if stagesInput context
      then bindE (addTemp emptyPlan TempInputStaging edge)
             (\<lambda>(pl, temp). Inr (pl\<lparr>inputStagingTemp := Some temp\<rparr>))
      else Inr emptyPlan) = Inr pl0"
    "foldE (planStage cs context (planningContext context slc) stageChunks)
       [0..<length (stages (spec context))] (pl0, edge) = Inr (pl1, final)"
    "pl = pl1\<lparr>finalChunks := logicalChunks final\<rparr>"
    using assms
    unfolding buildLogicalPlan_def Let_def planningContext_def [symmetric] stagesInput_def [symmetric]
    by (auto simp: bindE_eq_Inr)
  have "if stagesInput context
     then \<exists>t. planTemp TempInputStaging edge emptyTemp = Inr t \<and>
            pl0 = emptyPlan\<lparr>temps := (temps emptyPlan)[0 := t], tempCount := 1, inputStagingTemp := Some 0\<rparr>
     else pl0 = emptyPlan"
    using *(2) by (auto simp: bindE_eq_Inr addTemp_eq_Inr e split: if_splits)
  from that [OF *(1) this *(3,4)] show ?thesis .
qed

lemma logical_ok_input_staging:
  assumes "planTemp TempInputStaging edge emptyTemp = Inr t"
  shows "logical_ok n 0 (emptyPlan\<lparr>temps := (temps emptyPlan)[0 := t], tempCount := 1,
           inputStagingTemp := Some 0\<rparr>)"
  using planTemp_ok [OF assms]
  by (auto simp: logical_ok_def emptyPlan_def pipeline_constants nth_list_update nth_replicate_update)

lemma buildLogicalPlan_ok:
  assumes build: "buildLogicalPlan cs context stageChunks slc = Inr pl"
    and n: "length (stages (spec context)) \<le> 7"
  shows "logical_ok (length (stages (spec context))) (length (stages (spec context))) pl"
  using build
proof (cases rule: buildLogicalPlan_elim)
  case (1 edge pl0 pl1 final)
  let ?n = "length (stages (spec context))"
  have "logical_ok ?n 0 pl0"
    using 1(2) logical_ok_empty logical_ok_input_staging by (auto split: if_splits)
  then have "logical_ok ?n ?n (fst (pl1, final))"
    by (intro foldE_upt_invariant [OF 1(3), where P = "\<lambda>k s. logical_ok ?n k (fst s)"])
      (use n in \<open>auto intro: planStage_logical_ok\<close>)
  then show ?thesis by (simp add: 1(4) logical_ok_def)
qed

lemma logical_ok_plan_wf: "logical_ok n k pl \<Longrightarrow> k \<le> 7 \<Longrightarrow> plan_wf pl"
  by (auto simp: logical_ok_def plan_wf_def pipeline_constants)

section \<open>The temporaries form a chain\<close>

text \<open>
  After \<open>k\<close> of \<open>n\<close> stages: with \<open>c\<close> the number of input staging buffers, the output of stage
  \<open>i\<close> is temporary \<open>i + c\<close>, and only the last stage may have none (it writes the user's buffer).
\<close>

definition inputTemps :: "cocclPipelinePlan \<Rightarrow> nat" where
  "inputTemps pl = (if inputStagingTemp pl = None then 0 else 1)"

definition chain_ok :: "nat \<Rightarrow> nat \<Rightarrow> cocclPipelinePlan \<Rightarrow> bool" where
  "chain_ok n k pl \<longleftrightarrow>
     length (stageOutputTemp pl) = 7 \<and>
     (inputStagingTemp pl = None \<or> inputStagingTemp pl = Some 0) \<and>
     (k < n \<longrightarrow> tempCount pl = k + inputTemps pl \<and> outputStagingTemp pl = None) \<and>
     (\<forall>i < k. Suc i < n \<longrightarrow> stageOutputTemp pl ! i = Some (i + inputTemps pl)) \<and>
     (k = n \<and> 0 < n \<longrightarrow> stageOutputTemp pl ! (n - 1) = outputStagingTemp pl \<and>
        (if outputStagingTemp pl = None then Suc (tempCount pl) = n + inputTemps pl
         else tempCount pl = n + inputTemps pl \<and>
              outputStagingTemp pl = Some (n - 1 + inputTemps pl)))"

lemma chain_ok_cong:
  "tempCount p = tempCount q \<Longrightarrow> inputStagingTemp p = inputStagingTemp q \<Longrightarrow>
   outputStagingTemp p = outputStagingTemp q \<Longrightarrow> stageOutputTemp p = stageOutputTemp q \<Longrightarrow>
   chain_ok n k p = chain_ok n k q"
  by (simp only: chain_ok_def inputTemps_def)

lemma chain_ok_step:
  assumes step: "planStage cs context planning stageChunks k (pl, e) = Inr (pl', out)"
    and ok: "chain_ok (length (stages (spec context))) k pl" and none: "stageOutputTemp pl ! k = None"
    and k: "k < 7" "k < length (stages (spec context))"
  shows "chain_ok (length (stages (spec context))) (Suc k) pl'"
  using step
proof (cases rule: planStage_elim)
  case plain
  then have "length (stages (spec context)) - Suc 0 = k" by simp
  with plain show ?thesis using ok none k
    by (auto simp: chain_ok_def inputTemps_def less_Suc_eq)
next
  case (last t)
  then show ?thesis using ok k
    by (auto simp: chain_ok_def inputTemps_def with_stage_temp_def nth_list_update less_Suc_eq)
next
  case (inner t)
  then show ?thesis using ok k
    by (auto simp: chain_ok_def inputTemps_def with_stage_temp_def nth_list_update less_Suc_eq)
qed

lemma buildLogicalPlan_chain:
  assumes build: "buildLogicalPlan cs context stageChunks slc = Inr pl"
    and n: "length (stages (spec context)) \<le> 7" "stages (spec context) \<noteq> []"
  shows "chain_ok (length (stages (spec context))) (length (stages (spec context))) pl"
  using build
proof (cases rule: buildLogicalPlan_elim)
  case (1 edge pl0 pl1 final)
  let ?n = "length (stages (spec context))"
  let ?P = "\<lambda>k s. logical_ok ?n k (fst s) \<and> chain_ok ?n k (fst s)"
  have "logical_ok ?n 0 pl0 \<and> chain_ok ?n 0 pl0"
    using 1(2) logical_ok_empty logical_ok_input_staging n(2)
    by (auto simp: chain_ok_def inputTemps_def emptyPlan_def pipeline_constants split: if_splits)
  moreover have "?P (Suc k) s'"
    if k: "k < ?n" and inv: "?P k s"
      and step: "planStage cs context (planningContext context slc) stageChunks k s = Inr s'" for k s s'
  proof -
    obtain p e p' out where s: "s = (p, e)" "s' = (p', out)" by (cases s, cases s')
    have k7: "k < 7" using k n by simp
    have "stageOutputTemp p ! k = None" using inv k7 by (auto simp: s logical_ok_def)
    with planStage_logical_ok [OF step [unfolded s]] chain_ok_step [OF step [unfolded s]] inv k k7
    show ?thesis by (simp add: s)
  qed
  ultimately have "?P ?n (pl1, final)"
    by (intro foldE_upt_invariant [OF 1(3), where P = ?P]) auto
  then have "chain_ok ?n ?n pl1" by simp
  then show ?thesis by (subst chain_ok_cong [of pl pl1]) (simp_all add: 1(4))
qed

section \<open>Two slices, one shape\<close>

text \<open>
  The regular slice and the last one are planned separately. Their plans differ in byte sizes
  only: temporary \<open>t\<close> has the same role, framing and chunk count in both.
\<close>

definition same_temp :: "cocclPipelineTempPlan \<Rightarrow> cocclPipelineTempPlan \<Rightarrow> bool" where
  "same_temp t u \<longleftrightarrow> (\<exists>r e f. planTemp r e emptyTemp = Inr t \<and> planTemp r f emptyTemp = Inr u \<and>
     framed e = framed f \<and> logicalChunks e = logicalChunks f)"

lemma same_tempI:
  "planTemp r e emptyTemp = Inr t \<Longrightarrow> planTemp r f emptyTemp = Inr u \<Longrightarrow>
   framed e = framed f \<Longrightarrow> logicalChunks e = logicalChunks f \<Longrightarrow> same_temp t u"
  unfolding same_temp_def by blast

lemma same_temp_sym: "same_temp t u \<Longrightarrow> same_temp u t"
  unfolding same_temp_def by metis

definition same_shape :: "cocclPipelinePlan \<Rightarrow> cocclPipelinePlan \<Rightarrow> bool" where
  "same_shape p q \<longleftrightarrow>
     tempCount p = tempCount q \<and> inputStagingTemp p = inputStagingTemp q \<and>
     outputStagingTemp p = outputStagingTemp q \<and> stageOutputTemp p = stageOutputTemp q \<and>
     (\<forall>t < tempCount p. same_temp (temps p ! t) (temps q ! t))"

definition same_edge :: "cocclPipelinePlannedEdge \<Rightarrow> cocclPipelinePlannedEdge \<Rightarrow> bool" where
  "same_edge e f \<longleftrightarrow> framed e = framed f \<and> logicalChunks e = logicalChunks f \<and>
     edgeCompressor e = edgeCompressor f"

lemma planRawEdge_fields:
  "planRawEdge c n = Inr e \<Longrightarrow>
     framed e = False \<and> logicalChunks e = n \<and> edgeCompressor e = nullptr"
  by (auto simp: planRawEdge_def result_simps)

lemma planStageOutput_same_edge:
  assumes "planStageOutput cs c1 st n e = Inr e'" and "planStageOutput cs c2 st n f = Inr f'"
    and "same_edge e f"
  shows "same_edge e' f'"
  using assms planRawEdge_fields
  by (cases "kind st") (auto simp: planStageOutput_def same_edge_def result_simps Let_def)

lemma same_shape_with_stage_temp:
  assumes "same_shape p q" and "same_temp t u" and "ots = ots'"
    and "length (temps p) = 8" "length (temps q) = 8" "tempCount p < 8"
  shows "same_shape (with_stage_temp p k b t ots) (with_stage_temp q k c u ots')"
  using assms by (auto simp: same_shape_def with_stage_temp_def nth_list_update less_Suc_eq)

lemma planStage_same_shape:
  assumes s1: "planStage cs context c1 stageChunks k (p, e) = Inr (p', e')"
    and s2: "planStage cs context c2 stageChunks k (q, f) = Inr (q', f')"
    and ok: "logical_ok n k p" "logical_ok n k q" "k < 7"
    and shp: "same_shape p q" and edg: "same_edge e f"
  shows "same_shape p' q' \<and> same_edge e' f'"
proof -
  have edg': "same_edge e' f'"
    by (rule planStageOutput_same_edge [OF planStage_output [OF s1] planStage_output [OF s2] edg])
  note fresh = logical_ok_fresh [OF ok(1,3)] logical_ok_fresh [OF ok(2,3)]
  have len: "length (temps p) = 8" "length (temps q) = 8" using ok by (auto simp: logical_ok_def)
  have tmp: "same_temp t u" if "planTemp r e' (temps p ! tempCount p) = Inr t"
      "planTemp r f' (temps q ! tempCount q) = Inr u" for r t u
    using that fresh edg' by (auto simp: same_edge_def intro: same_tempI)
  have cnt: "tempCount p = tempCount q" "outputStagingTemp p = outputStagingTemp q"
    using shp by (auto simp: same_shape_def)
  from s1 show ?thesis
  proof (cases rule: planStage_elim)
    case plain
    with s2 edg' have "q' = q\<lparr>stageOutputCapacityBytes := (stageOutputCapacityBytes q)[k := edgeBytes f']\<rparr>"
      by (elim planStage_elim) (auto simp: same_edge_def)
    with plain shp edg' show ?thesis by (simp add: same_shape_def)
  next
    case (last t)
    from s2 obtain u where "planTemp TempOutputStaging f' (temps q ! tempCount q) = Inr u"
        "q' = with_stage_temp q k (edgeBytes f') u (Some (tempCount q))"
      by (elim planStage_elim) (use last edg' in \<open>auto simp: same_edge_def\<close>)
    with same_shape_with_stage_temp [OF shp tmp [OF last(3)]] last len fresh cnt edg'
    show ?thesis by simp
  next
    case (inner t)
    from s2 obtain u where "planTemp (outputRole (kind (stages (spec context) ! k))) f'
          (temps q ! tempCount q) = Inr u"
        "q' = with_stage_temp q k (edgeBytes f') u (outputStagingTemp q)"
      by (elim planStage_elim) (use inner in auto)
    with same_shape_with_stage_temp [OF shp tmp [OF inner(2)]] inner len fresh cnt edg'
    show ?thesis by simp
  qed
qed

lemma buildLogicalPlan_same_shape:
  assumes b1: "buildLogicalPlan cs context stageChunks s1 = Inr p"
    and b2: "buildLogicalPlan cs context stageChunks s2 = Inr q"
    and n: "length (stages (spec context)) \<le> 7"
  shows "same_shape p q"
proof -
  let ?n = "length (stages (spec context))"
  obtain edge p0 p1 fin where A:
    "planRawEdge (planningContext context s1) (inputChunks (spec context)) = Inr edge"
    "if stagesInput context
     then \<exists>t. planTemp TempInputStaging edge emptyTemp = Inr t \<and>
            p0 = emptyPlan\<lparr>temps := (temps emptyPlan)[0 := t], tempCount := 1, inputStagingTemp := Some 0\<rparr>
     else p0 = emptyPlan"
    "foldE (planStage cs context (planningContext context s1) stageChunks) [0..<?n] (p0, edge)
       = Inr (p1, fin)"
    "p = p1\<lparr>finalChunks := logicalChunks fin\<rparr>"
    using b1 by (rule buildLogicalPlan_elim)
  obtain edge' q0 q1 fin' where B:
    "planRawEdge (planningContext context s2) (inputChunks (spec context)) = Inr edge'"
    "if stagesInput context
     then \<exists>t. planTemp TempInputStaging edge' emptyTemp = Inr t \<and>
            q0 = emptyPlan\<lparr>temps := (temps emptyPlan)[0 := t], tempCount := 1, inputStagingTemp := Some 0\<rparr>
     else q0 = emptyPlan"
    "foldE (planStage cs context (planningContext context s2) stageChunks) [0..<?n] (q0, edge')
       = Inr (q1, fin')"
    "q = q1\<lparr>finalChunks := logicalChunks fin'\<rparr>"
    using b2 by (rule buildLogicalPlan_elim)
  let ?R = "\<lambda>k s t. logical_ok ?n k (fst s) \<and> logical_ok ?n k (fst t) \<and>
    same_shape (fst s) (fst t) \<and> same_edge (snd s) (snd t)"
  have edge: "same_edge edge edge'"
    using planRawEdge_fields [OF A(1)] planRawEdge_fields [OF B(1)] by (simp add: same_edge_def)
  have "same_shape p0 q0"
    using A(2) B(2) edge
    by (auto simp: same_shape_def same_edge_def emptyPlan_def pipeline_constants
        split: if_splits intro: same_tempI)
  moreover have "logical_ok ?n 0 p0" "logical_ok ?n 0 q0"
    using A(2) B(2) logical_ok_empty logical_ok_input_staging by (auto split: if_splits)
  ultimately have "?R ?n (p1, fin) (q1, fin')"
    by (intro foldE_upt_related [OF A(3) B(3), where R = ?R])
      (use edge n in \<open>auto dest: planStage_same_shape planStage_logical_ok\<close>)
  then show ?thesis by (simp add: A(4) B(4) same_shape_def)
qed

section \<open>The merged plan\<close>

lemma same_temp_mono:
  assumes "same_temp t u" and "unat (tempPayloadBytes t) \<le> unat (tempPayloadBytes u)"
  shows "unat (alignedBytes t) \<le> unat (alignedBytes u)"
  using assms planTemp_ok planTemp_mono unfolding same_temp_def by metis

text \<open>\<open>covers n m p\<close>: with the same shape, every temporary and capacity of \<open>m\<close> has room for \<open>p\<close>'s.\<close>

definition covers :: "cocclPipelinePlan \<Rightarrow> cocclPipelinePlan \<Rightarrow> bool" where
  "covers m p \<longleftrightarrow> tempCount m = tempCount p \<and> stageOutputTemp m = stageOutputTemp p \<and>
     (\<forall>t < tempCount p. unat (tempPayloadBytes (temps p ! t)) \<le> unat (tempPayloadBytes (temps m ! t)) \<and>
        unat (alignedBytes (temps p ! t)) \<le> unat (alignedBytes (temps m ! t))) \<and>
     (\<forall>i < 7. unat (stageOutputCapacityBytes p ! i) \<le> unat (stageOutputCapacityBytes m ! i))"

lemma covers_refl: "covers p p"
  by (simp add: covers_def)

lemma mergeLogicalPlan_temp:
  assumes "t < length (temps q)"
  shows "temps (mergeLogicalPlan p q) ! t =
    (if t < tempCount q \<and> tempPayloadBytes (temps p ! t) > tempPayloadBytes (temps q ! t)
     then temps p ! t else temps q ! t)"
  using assms by (simp add: mergeLogicalPlan_def nth_enumerate_eq)

lemma mergeLogicalPlan_fields:
  "tempCount (mergeLogicalPlan p q) = tempCount q"
  "inputStagingTemp (mergeLogicalPlan p q) = inputStagingTemp q"
  "outputStagingTemp (mergeLogicalPlan p q) = outputStagingTemp q"
  "stageOutputTemp (mergeLogicalPlan p q) = stageOutputTemp q"
  "finalChunks (mergeLogicalPlan p q) = finalChunks q"
  "length (temps (mergeLogicalPlan p q)) = length (temps q)"
  by (simp_all add: mergeLogicalPlan_def)

lemma mergeLogicalPlan_capacity:
  assumes "i < length (stageOutputCapacityBytes p)" "i < length (stageOutputCapacityBytes q)"
  shows "unat (stageOutputCapacityBytes (mergeLogicalPlan p q) ! i) =
    max (unat (stageOutputCapacityBytes p ! i)) (unat (stageOutputCapacityBytes q ! i))"
  using assms by (auto simp: mergeLogicalPlan_def word_less_nat_alt max_def)

lemma merge_covers:
  assumes "logical_ok n k p" and "logical_ok n k q" and "same_shape p q" and "k \<le> 7"
  shows "covers (mergeLogicalPlan p q) p \<and> covers (mergeLogicalPlan p q) q"
proof -
  have len: "length (temps q) = 8" "tempCount q \<le> 8" "tempCount p = tempCount q"
    "length (stageOutputCapacityBytes p) = 7" "length (stageOutputCapacityBytes q) = 7"
    "stageOutputTemp p = stageOutputTemp q"
    using assms by (auto simp: logical_ok_def same_shape_def)
  have temp: "unat (tempPayloadBytes (temps r ! t)) \<le> unat (tempPayloadBytes (temps (mergeLogicalPlan p q) ! t)) \<and>
      unat (alignedBytes (temps r ! t)) \<le> unat (alignedBytes (temps (mergeLogicalPlan p q) ! t))"
    if "t < tempCount q" "r = p \<or> r = q" for r t
  proof -
    have st: "same_temp (temps p ! t) (temps q ! t)" using assms that len by (simp add: same_shape_def)
    show ?thesis
      using that len same_temp_mono [OF st] same_temp_mono [OF same_temp_sym [OF st]]
      by (auto simp: mergeLogicalPlan_temp word_less_nat_alt)
  qed
  show ?thesis
    using temp len by (auto simp: covers_def mergeLogicalPlan_fields mergeLogicalPlan_capacity)
qed

lemma merge_logical_ok:
  assumes ok: "logical_ok n k p" "logical_ok n k q" and shp: "same_shape p q" and k: "k \<le> 7"
  shows "logical_ok n k (mergeLogicalPlan p q)"
proof -
  have len: "length (temps q) = 8" "tempCount q \<le> 8"
    "length (stageOutputCapacityBytes p) = 7" "length (stageOutputCapacityBytes q) = 7"
    using ok k by (auto simp: logical_ok_def)
  have pay: "tempPayloadBytes (temps (mergeLogicalPlan p q) ! t) =
      stageOutputCapacityBytes (mergeLogicalPlan p q) ! i"
    if "i < 7" "stageOutputTemp q ! i = Some t" for i t
  proof -
    have "t < tempCount q" "tempPayloadBytes (temps q ! t) = stageOutputCapacityBytes q ! i"
      "tempPayloadBytes (temps p ! t) = stageOutputCapacityBytes p ! i"
      using ok shp that by (auto simp: logical_ok_def same_shape_def)
    with len that show ?thesis
      by (auto simp: mergeLogicalPlan_temp mergeLogicalPlan_capacity size_eq_iff_unat
          word_less_nat_alt max_def)
  qed
  have tok: "temp_ok (temps (mergeLogicalPlan p q) ! t)" if "t < tempCount q" for t
    using ok shp that len by (auto simp: mergeLogicalPlan_temp logical_ok_def same_shape_def)
  have emp: "temps (mergeLogicalPlan p q) ! t = emptyTemp" if "tempCount q \<le> t" "t < 8" for t
    using ok that len by (auto simp: mergeLogicalPlan_temp logical_ok_def)
  have cap: "length (stageOutputCapacityBytes (mergeLogicalPlan p q)) = 7"
    using len by (simp add: mergeLogicalPlan_def)
  have out: "i < k \<and> t < tempCount q" if "i < 7" "stageOutputTemp q ! i = Some t" for i t
    using ok(2) that by (auto simp: logical_ok_def)
  show ?thesis
    using ok(2) pay tok emp cap out
    unfolding logical_ok_def [of n k "mergeLogicalPlan p q"] mergeLogicalPlan_fields
    by (auto simp: logical_ok_def)
qed

lemma merge_chain_ok: "chain_ok n k q \<Longrightarrow> chain_ok n k (mergeLogicalPlan p q)"
  by (subst chain_ok_cong [of _ q]) (simp_all add: mergeLogicalPlan_fields)

end
