(* ===== verification/Pipeline_Prepare.thy ===== *)
theory Pipeline_Prepare
  imports Pipeline_Logical
begin

text \<open>
  Guarantees of \<^verbatim>\<open>cocclPreparePipeline\<close>, the entry of the planner: the slices partition the chunk,
  the workspace layout is safe at every depth, every stage output fits the temporary it is
  written to, and the depth falls back to one exactly when the user buffers overlap in a way
  the in-place layouts do not allow.
\<close>

section \<open>Slicing\<close>

lemma clampDepth_bounds:
  assumes "count \<noteq> 0"
  shows "1 \<le> clampDepth d count \<and> clampDepth d count \<le> 16 \<and> clampDepth d count \<le> unat count"
proof -
  have c: "1 \<le> unat count" using assms by (simp add: Suc_le_eq unat_gt_0)
  let ?d = "if d > 1 then nat d else 1"
  have d1: "1 \<le> ?d" by auto
  show ?thesis
  proof (cases "?d > 16")
    case True
    then have "clampDepth d count = 1"
      unfolding clampDepth_def kCocclPipelineMaxDepth_def Let_def by simp
    with c show ?thesis by simp
  next
    case False
    then have eq: "clampDepth d count = (if count < word_of_nat ?d then unat count else ?d)"
      unfolding clampDepth_def kCocclPipelineMaxDepth_def Let_def by simp
    have "unat (word_of_nat ?d :: size_t) = ?d" using False by (intro unat_word_of_nat_size) simp
    then show ?thesis using eq c d1 False
      by (auto simp: word_less_nat_alt split: if_splits)
  qed
qed

text \<open>
  The slices of a chunk of \<open>count\<close> elements: consecutive, non-empty, together the whole chunk,
  with byte offsets and sizes exact.
\<close>

definition slices_tile :: "cocclPipelineSliceShape list \<Rightarrow> nat \<Rightarrow> nat \<Rightarrow> bool" where
  "slices_tile shapes count typeBytes \<longleftrightarrow>
     shapes \<noteq> [] \<and> unat (elementOffset (hd shapes)) = 0 \<and>
     (\<forall>i. Suc i < length shapes \<longrightarrow>
        unat (elementOffset (shapes ! Suc i)) =
          unat (elementOffset (shapes ! i)) + unat (elementCount (shapes ! i))) \<and>
     unat (elementOffset (last shapes)) + unat (elementCount (last shapes)) = count \<and>
     (\<forall>shp \<in> set shapes. 0 < unat (elementCount shp) \<and>
        unat (byteOffset shp) = unat (elementOffset shp) * typeBytes \<and>
        unat (sliceBytes shp) = unat (elementCount shp) * typeBytes)"

lemma sliceShape_SomeD:
  assumes "sliceShape q r tb dep i = Some shp"
  shows "elementOffset shp = word_of_nat i * q"
    and "elementCount shp = q + (if Suc i = dep then r else 0)"
    and "unat (byteOffset shp) = unat (elementOffset shp) * unat tb"
    and "unat (sliceBytes shp) = unat (elementCount shp) * unat tb"
  using assms by (auto simp: sliceShape_def Let_def checked_iffs split: option.splits)

definition slices_state ::
  "size_t \<Rightarrow> size_t \<Rightarrow> size_t \<Rightarrow> nat \<Rightarrow> nat \<Rightarrow>
   cocclPipelineSliceShape list \<times> size_t \<times> size_t \<Rightarrow> bool" where
  "slices_state q r tb dep k st \<longleftrightarrow> (case st of (shapes, maxCount, maxBytes) \<Rightarrow>
     length shapes = k \<and> (\<forall>i < k. sliceShape q r tb dep i = Some (shapes ! i)) \<and>
     (\<forall>i < k. elementCount (shapes ! i) \<le> maxCount) \<and>
     (maxCount \<noteq> 0 \<longrightarrow> (\<exists>i < k. elementCount (shapes ! i) = maxCount \<and>
                              sliceBytes (shapes ! i) = maxBytes)))"

lemma buildSlices_state:
  assumes "buildSlices count tb dep = Inr st"
  shows "slices_state (count div word_of_nat dep) (count mod word_of_nat dep) tb dep dep st"
proof -
  let ?q = "count div word_of_nat dep" and ?r = "count mod word_of_nat dep"
  let ?f = "\<lambda>slc (shapes, maxCount, maxBytes).
          bindE (fromOption ncclInvalidArgument (sliceShape ?q ?r tb dep slc))
            (\<lambda>shape. Inr (if elementCount shape > maxCount
                         then (shapes @ [shape], elementCount shape, sliceBytes shape)
                         else (shapes @ [shape], maxCount, maxBytes)))"
  have run: "foldE ?f [0..<dep] ([], 0, 0) = Inr st"
    using assms by (simp add: buildSlices_def Let_def)
  show ?thesis
  proof (rule foldE_upt_invariant [OF run, where P = "slices_state ?q ?r tb dep"])
    fix k t t' assume inv: "slices_state ?q ?r tb dep k t" and step: "?f k t = Inr t'"
    obtain shapes mc mb where t: "t = (shapes, mc, mb)" by (cases t) auto
    with step obtain shp where shp: "sliceShape ?q ?r tb dep k = Some shp"
      and t': "t' = (if elementCount shp > mc then (shapes @ [shp], elementCount shp, sliceBytes shp)
                     else (shapes @ [shp], mc, mb))"
      by (auto simp: result_simps)
    have len: "length shapes = k" using inv by (simp add: t slices_state_def)
    have old: "i < k \<Longrightarrow> elementCount (shapes ! i) \<le> mc" for i
      using inv by (simp add: t slices_state_def)
    show "slices_state ?q ?r tb dep (Suc k) t'"
    proof (cases "elementCount shp > mc")
      case True
      with inv t t' shp len old show ?thesis
        by (auto simp: slices_state_def less_Suc_eq nth_append dest: order_trans less_imp_le)
    next
      case False
      moreover have "mc \<noteq> 0 \<longrightarrow> (\<exists>i < Suc k. elementCount ((shapes @ [shp]) ! i) = mc \<and>
          sliceBytes ((shapes @ [shp]) ! i) = mb)"
        using inv by (auto simp: t slices_state_def nth_append intro: less_SucI)
      ultimately show ?thesis
        using inv t t' shp len old by (auto simp: slices_state_def less_Suc_eq nth_append)
    qed
  qed (simp add: slices_state_def)
qed

lemma slices_state_tile:
  assumes st: "slices_state (count div word_of_nat dep) (count mod word_of_nat dep) tb dep dep
                 (shapes, mc, mb)"
    and dep: "1 \<le> dep" "dep \<le> unat count" "dep \<le> 16"
  shows "slices_tile shapes (unat count) (unat tb)"
proof -
  let ?w = "word_of_nat dep :: size_t"
  let ?q = "unat count div dep" and ?r = "unat count mod dep"
  have w: "unat ?w = dep" using dep(3) by (simp add: unat_word_of_nat_size)
  have q: "unat (count div ?w) = ?q" "unat (count mod ?w) = ?r"
    by (simp_all add: unat_div_size unat_mod_size w)
  have q0: "0 < ?q" using dep by (simp add: div_greater_zero_iff)
  have sum: "dep * ?q + ?r = unat count" by simp
  have len: "length shapes = dep" and shp: "\<And>i. i < dep \<Longrightarrow>
      sliceShape (count div ?w) (count mod ?w) tb dep i = Some (shapes ! i)"
    using st by (auto simp: slices_state_def)
  have off: "unat (elementOffset (shapes ! i)) = i * ?q" if "i < dep" for i
  proof -
    have "i * ?q \<le> dep * ?q" using that by simp
    then have "i * ?q < 2 ^ 64" using sum unat_lt_2p64 [of count] by linarith
    moreover have "unat (word_of_nat i :: size_t) = i"
      using that dep by (intro unat_word_of_nat_size) simp
    ultimately show ?thesis
      using sliceShape_SomeD(1) [OF shp [OF that]] by (simp add: unat_mult_exact q)
  qed
  have cnt: "unat (elementCount (shapes ! i)) = ?q + (if Suc i = dep then ?r else 0)"
    if "i < dep" for i
  proof -
    have "?q + ?r < 2 ^ 64"
      using sum dep(1) unat_lt_2p64 [of count] mult_le_mono1 [OF dep(1), of ?q] by linarith
    then show ?thesis
      using sliceShape_SomeD(2) [OF shp [OF that]] by (simp add: unat_add_exact q)
  qed
  have ne: "shapes \<noteq> []" using len dep by auto
  have lst: "last shapes = shapes ! (dep - 1)" using ne len by (simp add: last_conv_nth)
  have "unat (elementOffset (last shapes)) + unat (elementCount (last shapes)) = unat count"
    using off [of "dep - 1"] cnt [of "dep - 1"] dep sum
    by (simp add: lst algebra_simps diff_mult_distrib)
  then show ?thesis
    unfolding slices_tile_def
    using ne len off cnt q0 dep sliceShape_SomeD(3,4) [OF shp]
    by (auto simp: hd_conv_nth in_set_conv_nth)
qed

section \<open>The planner's workspace keeps the logical plan\<close>

text \<open>A temporary without its placement.\<close>

definition unplaced :: "cocclPipelineTempPlan \<Rightarrow> cocclPipelineTempPlan" where
  "unplaced t = t\<lparr>storage := RegisteredArena, offset := 0\<rparr>"

lemma unplaced_update [simp]:
  "unplaced (t\<lparr>storage := s, offset := off\<rparr>) = unplaced t"
  by (simp add: unplaced_def)

lemma unplaced_fields:
  assumes "unplaced t = unplaced u"
  shows "role t = role u" "logicalBytes t = logicalBytes u" "alignedBytes t = alignedBytes u"
    "tempPayloadBytes t = tempPayloadBytes u" "frameMetadataOffset t = frameMetadataOffset u"
    "frameMetadataBytes t = frameMetadataBytes u" "tempFrameStrideBytes t = tempFrameStrideBytes u"
  using assms by (cases t; cases u; simp add: unplaced_def)+

definition laid_out :: "cocclPipelinePlan \<Rightarrow> cocclPipelinePlan \<Rightarrow> bool" where
  "laid_out pl pl' \<longleftrightarrow>
     tempCount pl' = tempCount pl \<and> inputStagingTemp pl' = inputStagingTemp pl \<and>
     outputStagingTemp pl' = outputStagingTemp pl \<and> stageOutputTemp pl' = stageOutputTemp pl \<and>
     stageOutputCapacityBytes pl' = stageOutputCapacityBytes pl \<and> finalChunks pl' = finalChunks pl \<and>
     length (temps pl') = length (temps pl) \<and>
     (\<forall>t < length (temps pl). unplaced (temps pl' ! t) = unplaced (temps pl ! t)) \<and>
     (\<forall>t < tempCount pl. storage (temps pl' ! t) = RawRing \<longleftrightarrow>
        workspaceKind pl' = WorkspaceSplit \<and> boundaryTemp pl t)"

lemma unified_laid_out:
  assumes "buildUnifiedWorkspace pl dep = Some pl'" and "plan_wf pl"
  shows "laid_out pl pl'"
  using assms plan_wf_lengths(2) [OF assms(2)]
  by (auto simp: buildUnifiedWorkspace_def laid_out_def nth_enumerate_eq split: option.splits)

lemma addRawRing_unplaced:
  assumes "addRawRing i (ts, raw) = Some (ts', raw')"
  shows "length ts' = length ts \<and> (\<forall>t < length ts. unplaced (ts' ! t) = unplaced (ts ! t))"
proof (cases i)
  case (Some k)
  with addRawRing_SomeD(1) [of k ts raw ts' raw'] assms show ?thesis
    by (auto intro: nth_update_view)
qed (use assms in \<open>auto simp: addRawRing_def\<close>)

lemma placeCore_unplaced:
  "t < length ts \<Longrightarrow> unplaced (fold (placeCore r) ps ts ! t) = unplaced (ts ! t)"
proof (induction ps arbitrary: ts)
  case (Cons p ps)
  then have "unplaced (fold (placeCore r) ps (placeCore r p ts) ! t) = unplaced (placeCore r p ts ! t)"
    by (cases p) (simp add: placeCore_def)
  also have "\<dots> = unplaced (ts ! t)"
    using Cons.prems by (cases p) (auto simp: placeCore_def intro!: nth_update_view)
  finally show ?case by simp
qed simp

lemma split_laid_out:
  assumes build: "buildSplitWorkspace pl dep = Some pl'" and wf: "plan_wf pl"
  shows "laid_out pl pl'"
proof -
  obtain ts raw r reg tot where
    rings: "Option.bind (addRawRing (inputStagingTemp pl) (temps pl, 0))
              (addRawRing (outputStagingTemp pl)) = Some (ts, raw)"
    and pl': "pl' = pl\<lparr>workspaceKind := WorkspaceSplit, registeredSliceBytes := r,
       registeredBytes := reg, rawBytes := raw,
       temps := fold (placeCore r) (enumerate 0 (coreTemps pl)) ts, totalBytes := tot\<rparr>"
    using build
    by (auto simp: buildSplitWorkspace_def Let_def split: option.splits if_splits prod.splits)
  have ts: "length ts = length (temps pl) \<and> (\<forall>t < length (temps pl). unplaced (ts ! t) = unplaced (temps pl ! t))"
  proof -
    obtain ts1 raw1 where "addRawRing (inputStagingTemp pl) (temps pl, 0) = Some (ts1, raw1)"
        "addRawRing (outputStagingTemp pl) (ts1, raw1) = Some (ts, raw)"
      using rings by (auto simp: bind_eq_Some_conv)
    from this [THEN addRawRing_unplaced] show ?thesis by simp
  qed
  have below: "\<forall>t \<in> set (coreTemps pl). t < length ts"
    using plan_wf_lengths(2) [OF wf] ts by (auto simp: coreTemps_props)
  have st: "storage (temps pl' ! t) = RawRing \<longleftrightarrow> boundaryTemp pl t" if t: "t < tempCount pl" for t
  proof (cases "boundaryTemp pl t")
    case True
    then have "temps pl' ! t = ts ! t"
      unfolding pl' by (simp add: placeCore_other coreTemps_props)
    with True t addRawRing_ring_state [OF wf rings] plan_wf_lengths(2) [OF wf] show ?thesis
      by (auto simp: ring_state_def)
  next
    case False
    with t obtain k where k: "k < length (coreTemps pl)" "coreTemps pl ! k = t"
      by (metis coreTemps_props(2) in_set_conv_nth)
    with placeCore_nth [OF coreTemps_props(1) below k(1), where n = 0 and r = r] False
    show ?thesis by (simp add: pl')
  qed
  show ?thesis
    using ts st by (simp add: laid_out_def pl' placeCore_unplaced)
qed

lemma workspace_cases:
  assumes "cocclPlanPipelineWorkspace pl dep = Inr pl'"
  obtains "buildUnifiedWorkspace pl dep = Some pl'" | "buildSplitWorkspace pl dep = Some pl'"
  using assms by (auto simp: cocclPlanPipelineWorkspace_def split: option.splits if_splits)

lemma workspace_ok:
  assumes "cocclPlanPipelineWorkspace pl dep = Inr pl'" and "plan_wf pl" and "dep < 2 ^ 64"
  shows "workspace_safe pl' dep \<and> laid_out pl pl'"
  using assms plan_wf_lengths(2) [OF assms(2)] unified_safe unified_laid_out split_safe split_laid_out
  by (elim workspace_cases) blast+

section \<open>What a prepared context guarantees\<close>

text \<open>The successful run of \<^verbatim>\<open>cocclPreparePipeline\<close>, step by step.\<close>

lemma prepare_elim:
  assumes "cocclPreparePipeline cs sp d = Inr ctx"
  obtains chunkBytes stageChunks chnks serial sliced dep where
    "specInput sp \<noteq> 0" "specOutput sp \<noteq> 0" "ownerComm sp \<noteq> None"
    "rawChunkCount sp \<noteq> 0" "inputChunks sp \<noteq> 0" "stages sp \<noteq> []" "length (stages sp) \<le> 7"
    "0 < ncclTypeSize (specDatatype sp)"
    "cocclPipelineCheckedMultiply (rawChunkCount sp)
       (size_of_int (ncclTypeSize (specDatatype sp))) = Some chunkBytes"
    "stageChunkCounts (stages sp) (inputChunks sp) = Inr (stageChunks, chnks)"
    "cocclPipelineUserBuffersRequireSerial (specInput sp) (inputChunks sp) (specOutput sp) chnks
       chunkBytes (rank (the (ownerComm sp))) (inPlaceLayout sp) = Inr serial"
    "dep = (if serial then 1 else clampDepth d (rawChunkCount sp))"
    "buildSlices (rawChunkCount sp) (size_of_int (ncclTypeSize (specDatatype sp))) dep = Inr sliced"
    "planContext cs stageChunks (initialContext cs sp dep chunkBytes sliced) = Inr ctx"
proof -
  have guard: "specInput sp \<noteq> 0" "specOutput sp \<noteq> 0" "ownerComm sp \<noteq> None"
    "rawChunkCount sp \<noteq> 0" "inputChunks sp \<noteq> 0" "stages sp \<noteq> []" "length (stages sp) \<le> 7"
    "0 < ncclTypeSize (specDatatype sp)"
    using assms by (auto simp: cocclPreparePipeline_def kCocclPipelineExplicitStages_def
        split: if_split_asm)
  then have ng: "\<not> (specInput sp = 0 \<or> specOutput sp = 0 \<or> ownerComm sp = None \<or>
     rawChunkCount sp = 0 \<or> inputChunks sp = 0 \<or> stages sp = [] \<or>
     length (stages sp) > kCocclPipelineExplicitStages \<or> ncclTypeSize (specDatatype sp) \<le> 0)"
    by (simp add: kCocclPipelineExplicitStages_def)
  have "\<exists>chunkBytes p serial sliced.
    cocclPipelineCheckedMultiply (rawChunkCount sp)
       (size_of_int (ncclTypeSize (specDatatype sp))) = Some chunkBytes \<and>
    stageChunkCounts (stages sp) (inputChunks sp) = Inr p \<and>
    cocclPipelineUserBuffersRequireSerial (specInput sp) (inputChunks sp) (specOutput sp) (snd p)
       chunkBytes (rank (the (ownerComm sp))) (inPlaceLayout sp) = Inr serial \<and>
    buildSlices (rawChunkCount sp) (size_of_int (ncclTypeSize (specDatatype sp)))
      (if serial then 1 else clampDepth d (rawChunkCount sp)) = Inr sliced \<and>
    planContext cs (fst p) (initialContext cs sp
      (if serial then 1 else clampDepth d (rawChunkCount sp)) chunkBytes sliced) = Inr ctx"
    using assms
    unfolding cocclPreparePipeline_def Let_def if_not_P [OF ng] bindE_eq_Inr fromOption_eq_Inr split_beta
    by blast
  then obtain chunkBytes p serial sliced where *:
    "cocclPipelineCheckedMultiply (rawChunkCount sp)
       (size_of_int (ncclTypeSize (specDatatype sp))) = Some chunkBytes"
    "stageChunkCounts (stages sp) (inputChunks sp) = Inr (fst p, snd p)"
    "cocclPipelineUserBuffersRequireSerial (specInput sp) (inputChunks sp) (specOutput sp) (snd p)
       chunkBytes (rank (the (ownerComm sp))) (inPlaceLayout sp) = Inr serial"
    "buildSlices (rawChunkCount sp) (size_of_int (ncclTypeSize (specDatatype sp)))
      (if serial then 1 else clampDepth d (rawChunkCount sp)) = Inr sliced"
    "planContext cs (fst p) (initialContext cs sp
      (if serial then 1 else clampDepth d (rawChunkCount sp)) chunkBytes sliced) = Inr ctx"
    by auto
  show ?thesis by (rule that [OF guard *(1-3) refl *(4,5)])
qed

lemma planContext_elim:
  assumes "planContext cs stageChunks context = Inr ctx"
  obtains regular tail merged where
    "buildLogicalPlan cs context stageChunks (slices context ! 0) = Inr regular"
    "if elementCount (slices context ! (depth context - 1)) \<noteq> elementCount (slices context ! 0)
     then buildLogicalPlan cs context stageChunks (slices context ! (depth context - 1)) = Inr tail \<and>
          merged = mergeLogicalPlan tail regular
     else tail = regular \<and> merged = regular"
    "cocclPlanPipelineWorkspace merged (depth context) = Inr (plan ctx)"
    "spec ctx = spec context" "depth ctx = depth context" "slices ctx = slices context"
    "stageContext ctx = stageContext context" "maxSliceCount ctx = maxSliceCount context"
    "maxSliceBytes ctx = maxSliceBytes context"
    "sliceStageOutputBytes ctx = map (\<lambda>slc. map (\<lambda>stage.
        stageOutputCapacityBytes (if Suc slc = depth context then tail else regular) ! stage)
        [0..<length (stages (spec context))]) [0..<depth context]"
    "sliceStageFrameStrideBytes ctx = map (\<lambda>slc. map (\<lambda>stage.
        case stageOutputTemp (if Suc slc = depth context then tail else regular) ! stage of None \<Rightarrow> 0
        | Some temp \<Rightarrow>
            tempFrameStrideBytes (temps (if Suc slc = depth context then tail else regular) ! temp))
        [0..<length (stages (spec context))]) [0..<depth context]"
proof -
  let ?differs = "elementCount (slices context ! (depth context - 1)) \<noteq> elementCount (slices context ! 0)"
  obtain regular tail pl where *:
    "buildLogicalPlan cs context stageChunks (slices context ! 0) = Inr regular"
    "(if ?differs then buildLogicalPlan cs context stageChunks (slices context ! (depth context - 1))
      else Inr regular) = Inr tail"
    "cocclPlanPipelineWorkspace (if ?differs then mergeLogicalPlan tail regular else regular)
       (depth context) = Inr pl"
    "ctx = context\<lparr>
        sliceStageOutputBytes := map (\<lambda>slc. map (\<lambda>stage.
            stageOutputCapacityBytes (if Suc slc = depth context then tail else regular) ! stage)
            [0..<length (stages (spec context))]) [0..<depth context],
        sliceStageFrameStrideBytes := map (\<lambda>slc. map (\<lambda>stage.
            case stageOutputTemp (if Suc slc = depth context then tail else regular) ! stage of None \<Rightarrow> 0
            | Some temp \<Rightarrow> tempFrameStrideBytes
                (temps (if Suc slc = depth context then tail else regular) ! temp))
            [0..<length (stages (spec context))]) [0..<depth context],
        plan := pl\<rparr>"
    using assms unfolding planContext_def Let_def bindE_eq_Inr sum.inject by blast
  show ?thesis
    by (rule that [of regular tail "if ?differs then mergeLogicalPlan tail regular else regular"])
      (use * in \<open>auto split: if_splits\<close>)
qed

text \<open>
  The facts about a prepared context that the properties and the execution theories use:
  \<open>logical_ok\<close>, \<open>chain_ok\<close> and \<open>workspace_safe\<close> hold of its plan, and the plan has room for the
  per-slice sizes.
\<close>

lemma laid_out_logical_ok:
  assumes lo: "laid_out pl pl'" and ok: "logical_ok n k pl" and k: "k \<le> 7"
  shows "\<forall>t < tempCount pl'. temp_ok (temps pl' ! t)"
    and "i < 7 \<Longrightarrow> stageOutputTemp pl' ! i = Some t \<Longrightarrow> i < k \<and> t < tempCount pl' \<and>
      tempPayloadBytes (temps pl' ! t) = stageOutputCapacityBytes pl' ! i"
    and "plan_wf pl'"
proof -
  have len: "length (temps pl) = 8" "tempCount pl \<le> 8" using ok k by (auto simp: logical_ok_def)
  have un: "unplaced (temps pl' ! t) = unplaced (temps pl ! t)" if "t < tempCount pl" for t
    using lo that len by (simp add: laid_out_def)
  show "\<forall>t < tempCount pl'. temp_ok (temps pl' ! t)"
    using lo ok unplaced_fields [OF un] by (auto simp: laid_out_def logical_ok_def temp_ok_def)
  show "i < 7 \<Longrightarrow> stageOutputTemp pl' ! i = Some t \<Longrightarrow> i < k \<and> t < tempCount pl' \<and>
      tempPayloadBytes (temps pl' ! t) = stageOutputCapacityBytes pl' ! i"
    using lo ok unplaced_fields [OF un] by (auto simp: laid_out_def logical_ok_def)
  show "plan_wf pl'"
    using logical_ok_plan_wf [OF ok k] lo by (simp add: plan_wf_def laid_out_def)
qed

lemma laid_out_chain_ok: "laid_out pl pl' \<Longrightarrow> chain_ok n k pl \<Longrightarrow> chain_ok n k pl'"
  by (subst chain_ok_cong [of _ pl]) (simp_all add: laid_out_def)

lemma initialContext_fields:
  "spec (initialContext cs sp dep cb sliced) = sp"
  "depth (initialContext cs sp dep cb sliced) = dep"
  "slices (initialContext cs sp dep cb sliced) = fst sliced"
  "maxSliceCount (initialContext cs sp dep cb sliced) = fst (snd sliced)"
  "maxSliceBytes (initialContext cs sp dep cb sliced) = snd (snd sliced)"
  "rawChunkBytes (stageContext (initialContext cs sp dep cb sliced)) = cb"
  "rawDatatype (stageContext (initialContext cs sp dep cb sliced)) = specDatatype sp"
  "contextInputLayout (stageContext (initialContext cs sp dep cb sliced)) = effectiveInputLayout cs sp"
  by (simp_all add: initialContext_def Let_def split_beta)

definition slice_fits :: "cocclPipelineContext \<Rightarrow> bool" where
  "slice_fits ctx \<longleftrightarrow> (\<forall>s < depth ctx. \<forall>i < length (stages (spec ctx)).
     unat (sliceStageOutputBytes ctx ! s ! i) \<le> unat (stageOutputCapacityBytes (plan ctx) ! i))"

lemma planContext_ok:
  assumes pc: "planContext cs stageChunks context = Inr ctx"
    and n: "length (stages (spec context)) \<le> 7" "stages (spec context) \<noteq> []"
    and dep: "depth context < 2 ^ 64"
  shows "plan_wf (plan ctx)"
    and "chain_ok (length (stages (spec ctx))) (length (stages (spec ctx))) (plan ctx)"
    and "workspace_safe (plan ctx) (depth ctx)"
    and "\<forall>t < tempCount (plan ctx). temp_ok (temps (plan ctx) ! t)"
    and "\<forall>i < 7. \<forall>t. stageOutputTemp (plan ctx) ! i = Some t \<longrightarrow>
           t < tempCount (plan ctx) \<and>
           tempPayloadBytes (temps (plan ctx) ! t) = stageOutputCapacityBytes (plan ctx) ! i"
    and "slice_fits ctx"
    and "\<exists>pl. laid_out pl (plan ctx) \<and> plan_wf pl"
proof -
  let ?n = "length (stages (spec context))"
  from pc obtain regular tail merged where
    reg: "buildLogicalPlan cs context stageChunks (slices context ! 0) = Inr regular"
    and tl: "if elementCount (slices context ! (depth context - 1)) \<noteq> elementCount (slices context ! 0)
     then buildLogicalPlan cs context stageChunks (slices context ! (depth context - 1)) = Inr tail \<and>
          merged = mergeLogicalPlan tail regular
     else tail = regular \<and> merged = regular"
    and ws: "cocclPlanPipelineWorkspace merged (depth context) = Inr (plan ctx)"
    and f: "spec ctx = spec context" "depth ctx = depth context"
    and sz: "sliceStageOutputBytes ctx = map (\<lambda>slc. map (\<lambda>stage.
        stageOutputCapacityBytes (if Suc slc = depth context then tail else regular) ! stage)
        [0..<?n]) [0..<depth context]"
    by (rule planContext_elim)
  note rok = buildLogicalPlan_ok [OF reg n(1)] and rch = buildLogicalPlan_chain [OF reg n]
  have m: "logical_ok ?n ?n merged \<and> chain_ok ?n ?n merged \<and> covers merged regular \<and> covers merged tail"
  proof (cases "elementCount (slices context ! (depth context - 1)) \<noteq> elementCount (slices context ! 0)")
    case True
    with tl have t: "buildLogicalPlan cs context stageChunks (slices context ! (depth context - 1)) = Inr tail"
      and mg: "merged = mergeLogicalPlan tail regular" by auto
    note tok = buildLogicalPlan_ok [OF t n(1)] and shp = buildLogicalPlan_same_shape [OF t reg n(1)]
    show ?thesis
      using merge_logical_ok [OF tok rok shp n(1)] merge_chain_ok [OF rch] merge_covers [OF tok rok shp n(1)]
      by (simp add: mg)
  qed (use tl rok rch covers_refl in auto)
  then have mok: "logical_ok ?n ?n merged" by simp
  note w = workspace_ok [OF ws logical_ok_plan_wf [OF mok n(1)] dep]
  then have lo: "laid_out merged (plan ctx)" by simp
  show "workspace_safe (plan ctx) (depth ctx)" using w f by simp
  show "plan_wf (plan ctx)" by (rule laid_out_logical_ok(3) [OF lo mok n(1)])
  show "\<forall>t < tempCount (plan ctx). temp_ok (temps (plan ctx) ! t)"
    by (rule laid_out_logical_ok(1) [OF lo mok n(1)])
  show "\<forall>i < 7. \<forall>t. stageOutputTemp (plan ctx) ! i = Some t \<longrightarrow> t < tempCount (plan ctx) \<and>
      tempPayloadBytes (temps (plan ctx) ! t) = stageOutputCapacityBytes (plan ctx) ! i"
    using laid_out_logical_ok(2) [OF lo mok n(1)] by blast
  show "chain_ok (length (stages (spec ctx))) (length (stages (spec ctx))) (plan ctx)"
    using laid_out_chain_ok [OF lo] m f by simp
  show "\<exists>pl. laid_out pl (plan ctx) \<and> plan_wf pl"
    using lo logical_ok_plan_wf [OF mok n(1)] by blast
  show "slice_fits ctx"
    using m lo n by (auto simp: slice_fits_def sz f covers_def laid_out_def)
qed

lemma prepare_depth:
  assumes "cocclPreparePipeline cs sp d = Inr ctx"
  shows "1 \<le> depth ctx \<and> depth ctx \<le> 16 \<and> depth ctx \<le> unat (rawChunkCount sp)"
proof -
  from assms obtain dep where "rawChunkCount sp \<noteq> 0"
      "dep = 1 \<or> dep = clampDepth d (rawChunkCount sp)" "depth ctx = dep"
    by (elim prepare_elim planContext_elim) (auto simp: initialContext_fields split: if_splits)
  then show ?thesis
    using clampDepth_bounds [of "rawChunkCount sp" d] by (auto simp: Suc_le_eq unat_gt_0)
qed

lemma prepare_planContext:
  assumes "cocclPreparePipeline cs sp d = Inr ctx"
  obtains c0 stageChunks where "planContext cs stageChunks c0 = Inr ctx"
    "spec c0 = sp" "spec ctx = sp" "depth c0 = depth ctx" "stages sp \<noteq> []"
    "length (stages sp) \<le> 7" "depth c0 < 2 ^ 64"
proof -
  from assms obtain cb stageChunks sliced dep where *: "stages sp \<noteq> []" "length (stages sp) \<le> 7"
    "planContext cs stageChunks (initialContext cs sp dep cb sliced) = Inr ctx"
    by (rule prepare_elim)
  have "spec ctx = sp" "depth ctx = dep"
    using *(3) by (auto elim!: planContext_elim simp: initialContext_fields)
  moreover from this prepare_depth [OF assms] have "dep < 2 ^ 64" by simp
  ultimately show ?thesis using that [OF *(3)] *(1,2) by (simp add: initialContext_fields)
qed

section \<open>Overlap of the user buffers\<close>

text \<open>
  The in-place layouts of the collectives, over exact addresses: the same buffer, the input as
  the rank's chunk of the output (all-gather), the output as the rank's chunk of the input
  (reduce-scatter).
\<close>

definition exact_in_place ::
  "ptr \<Rightarrow> size_t \<Rightarrow> ptr \<Rightarrow> size_t \<Rightarrow> size_t \<Rightarrow> int \<Rightarrow> cocclPipelineInPlaceLayout \<Rightarrow> bool" where
  "exact_in_place inp inChunks out outChunks chunkBytes rnk layout \<longleftrightarrow>
     (case layout of
        InPlaceNone \<Rightarrow> False
      | InPlaceSameBuffer \<Rightarrow> inChunks = outChunks \<and> inp = out
      | InPlaceInputRankChunk \<Rightarrow>
          inChunks = 1 \<and> unat inp = unat out + unat chunkBytes * nat rnk
      | InPlaceOutputRankChunk \<Rightarrow>
          outChunks = 1 \<and> unat out = unat inp + unat chunkBytes * nat rnk)"

definition user_buffers_disjoint :: "ptr \<Rightarrow> size_t \<Rightarrow> ptr \<Rightarrow> size_t \<Rightarrow> size_t \<Rightarrow> bool" where
  "user_buffers_disjoint inp inChunks out outChunks chunkBytes \<longleftrightarrow>
     disjoint_ranges (unat inp) (unat chunkBytes * unat inChunks)
       (unat out) (unat chunkBytes * unat outChunks)"

lemma rank_chunk_address:
  assumes "0 \<le> rnk" "rnk < 2 ^ 31"
    and "cocclPipelineCheckedMultiply chunkBytes (size_of_int rnk) = Some off"
    and "\<not> off > SIZE_MAX - base"
  shows "p = base + off \<longleftrightarrow> unat p = unat base + unat chunkBytes * nat rnk"
proof -
  have "unat (size_of_int rnk) = nat rnk" using assms(1,2) by (intro unat_size_of_int) auto
  then have off: "unat off = unat chunkBytes * nat rnk"
    using assms(3) by (simp add: checkedMultiply_Some_iff)
  have "unat base + unat off < 2 ^ 64" using assms(4) add_guard_iff [of base off] by simp
  then have "unat (base + off) = unat base + unat off" by (rule unat_add_exact)
  then show ?thesis by (simp add: size_eq_iff_unat off)
qed

lemma buffers_disjoint_test:
  assumes "cocclPipelineCheckedMultiply cb ic = Some ib" "cocclPipelineCheckedMultiply cb oc = Some ob"
    and "\<not> ib > SIZE_MAX - inp" "\<not> ob > SIZE_MAX - out"
  shows "inp \<ge> out + ob \<or> out \<ge> inp + ib \<longleftrightarrow> user_buffers_disjoint inp ic out oc cb"
proof -
  have "unat inp + unat ib < 2 ^ 64" "unat out + unat ob < 2 ^ 64"
    using assms(3,4) add_guard_iff [of inp ib] add_guard_iff [of out ob] by simp_all
  then have "unat (inp + ib) = unat inp + unat ib" "unat (out + ob) = unat out + unat ob"
    by (simp_all add: unat_add_exact)
  then show ?thesis
    using assms(1,2)
    by (auto simp: user_buffers_disjoint_def disjoint_ranges_def word_le_nat_alt checkedMultiply_Some_iff)
qed

text \<open>A successful test reports exactly the overlaps that are not an in-place layout.\<close>

lemma requireSerial_iff:
  assumes run: "cocclPipelineUserBuffersRequireSerial inp ic out oc cb rnk layout = Inr serial"
    and rnk: "rnk < 2 ^ 31"
  shows "serial \<longleftrightarrow> \<not> user_buffers_disjoint inp ic out oc cb \<and>
           \<not> exact_in_place inp ic out oc cb rnk layout"
proof -
  obtain ib ob where m: "cocclPipelineCheckedMultiply cb ic = Some ib"
      "cocclPipelineCheckedMultiply cb oc = Some ob"
    and g: "\<not> ib > SIZE_MAX - inp" "\<not> ob > SIZE_MAX - out"
    using run by (auto simp: cocclPipelineUserBuffersRequireSerial_def split: option.splits if_split_asm)
  have body: "(if inp \<ge> out + ob \<or> out \<ge> inp + ib then Inr False else
       case layout of
         InPlaceNone \<Rightarrow> Inr True
       | InPlaceSameBuffer \<Rightarrow> Inr (\<not> (ic = oc \<and> inp = out))
       | InPlaceInputRankChunk \<Rightarrow>
           if rnk < 0 \<or> size_of_int rnk \<ge> oc then Inl ncclInvalidArgument
           else (case cocclPipelineCheckedMultiply cb (size_of_int rnk) of
              None \<Rightarrow> Inl ncclInvalidArgument
            | Some off \<Rightarrow> if off > SIZE_MAX - out then Inl ncclInvalidArgument
                else Inr (\<not> (ic = 1 \<and> inp = out + off)))
       | InPlaceOutputRankChunk \<Rightarrow>
           if rnk < 0 \<or> size_of_int rnk \<ge> ic then Inl ncclInvalidArgument
           else (case cocclPipelineCheckedMultiply cb (size_of_int rnk) of
              None \<Rightarrow> Inl ncclInvalidArgument
            | Some off \<Rightarrow> if off > SIZE_MAX - inp then Inl ncclInvalidArgument
                else Inr (\<not> (oc = 1 \<and> out = inp + off)))) = Inr serial"
    using run m g unfolding cocclPipelineUserBuffersRequireSerial_def by simp
  show ?thesis
  proof (cases "user_buffers_disjoint inp ic out oc cb")
    case True
    with buffers_disjoint_test [OF m g] have "inp \<ge> out + ob \<or> out \<ge> inp + ib" by blast
    with body True show ?thesis by simp
  next
    case False
    with buffers_disjoint_test [OF m g] have "\<not> (inp \<ge> out + ob \<or> out \<ge> inp + ib)" by blast
    note body' = body [unfolded if_not_P [OF this]]
    show ?thesis
      using body' False rnk rank_chunk_address [of rnk cb _ out inp] rank_chunk_address [of rnk cb _ inp out]
      by (cases layout) (auto simp: exact_in_place_def split: option.splits if_split_asm)
  qed
qed

section \<open>A concrete pipeline\<close>

text \<open>
  Rank 1 of four ranks on two nodes, a two-shot reduce-scatter of ten floats per chunk, with a
  compressor that bounds its output by one byte per element.
\<close>

definition examplePlugin :: cocclCompressorPlugin where
  "examplePlugin = \<lparr>abiVersion = COCCL_COMPRESSOR_ABI_VERSION, structSize = sizeof_plugin,
     pluginName = Some ''minmax'', capabilities = COCCL_COMPRESSOR_REQUIRED_CAPABILITIES,
     execute = None, parseConfig = None, destroyConfig = True,
     getEncodedSizeBound = Some (\<lambda>q. (ncclSuccess, queryElements q))\<rparr>"

definition exampleStore :: compressor_store where
  "exampleStore handle = \<lparr>plugin = examplePlugin, config = 0, thresholdBytes = 0\<rparr>"

definition exampleComm :: ncclComm where
  "exampleComm = \<lparr>self = 4096, rank = 1, nRanks = 4, node = 0, nNodes = 2, localRanks = 2,
     cudaDev = 0, commHash = 1, rankToNode = (\<lambda>r. r div 2), nodeLocalRanks = (\<lambda>n. 2),
     localRank = 1, localRankToRank = (\<lambda>l. l), nodeLocalRankToRank = (\<lambda>n l. 2 * n + l)\<rparr>"

definition exampleSpec :: "size_t \<Rightarrow> cocclPipelineSpec" where
  "exampleSpec count = \<lparr>specName = ''ReduceScatter'', specInput = 65536, specOutput = 131072,
     rawChunkCount = count, inputChunks = 4, specDatatype = ncclFloat32,
     ownerComm = Some exampleComm, stream = 0,
     stages = [cocclPipelineCompress 8192, cocclPipelineAllToAll exampleComm,
               cocclPipelineDecompressReduce 4],
     inPlaceLayout = InPlaceNone, inputLayout = InputContiguous\<rparr>"

definition prepared :: "cocclPipelineContext result \<Rightarrow> bool" where
  "prepared r = (case r of Inl _ \<Rightarrow> False | Inr _ \<Rightarrow> True)"

lemma preparedD: "prepared r \<Longrightarrow> r = Inr (projr r)"
  by (cases r) (simp_all add: prepared_def)

lemma example_prepared: "prepared (cocclPreparePipeline exampleStore (exampleSpec 10) 3)"
  by code_simp

definition exampleContext :: cocclPipelineContext where
  "exampleContext = projr (cocclPreparePipeline exampleStore (exampleSpec 10) 3)"

lemma example_context: "cocclPreparePipeline exampleStore (exampleSpec 10) 3 = Inr exampleContext"
  using preparedD [OF example_prepared] by (simp add: exampleContext_def)

section \<open>Properties of the planner\<close>

text \<open>
  C1: whatever pipeline is prepared, its workspace layout is safe. Neighbouring temporaries of a
  slice never overlap, every temporary stays inside its slice's part of the registered arena (or
  its two-slot ring inside the raw buffer), and the byte totals requested are exact.
\<close>

theorem prepare_workspace_safe:
  assumes "cocclPreparePipeline cs sp d = Inr ctx"
  shows "plan_wf (plan ctx) \<and> workspace_safe (plan ctx) (depth ctx)"
  using assms by (rule prepare_planContext) (auto dest: planContext_ok(1,3))

theorem prepare_workspace_safe_witness:
  "plan_wf (plan exampleContext) \<and> workspace_safe (plan exampleContext) (depth exampleContext)"
  by (rule prepare_workspace_safe [OF example_context])

text \<open>
  C2: the slices of a prepared pipeline partition the raw chunk: between 1 and 16 non-empty
  consecutive pieces that start at element 0 and end at the chunk's element count, with exact
  byte offsets and sizes; no product wraps.
\<close>

theorem prepare_slices_partition:
  assumes "cocclPreparePipeline cs sp d = Inr ctx"
  shows "slices_tile (slices ctx) (unat (rawChunkCount sp)) (nat (ncclTypeSize (specDatatype sp))) \<and>
    length (slices ctx) = depth ctx \<and> 1 \<le> depth ctx \<and> depth ctx \<le> 16"
proof -
  from assms obtain cb sts sliced dep where *: "0 < ncclTypeSize (specDatatype sp)"
    "buildSlices (rawChunkCount sp) (size_of_int (ncclTypeSize (specDatatype sp))) dep = Inr sliced"
    "planContext cs sts (initialContext cs sp dep cb sliced) = Inr ctx"
    by (rule prepare_elim)
  obtain shapes mc mb where sl: "sliced = (shapes, mc, mb)" by (cases sliced)
  have f: "depth ctx = dep" "slices ctx = shapes"
    using *(3) by (auto elim!: planContext_elim simp: initialContext_fields sl)
  note d = prepare_depth [OF assms]
  note st = buildSlices_state [OF *(2), unfolded sl]
  have "slices_tile shapes (unat (rawChunkCount sp)) (nat (ncclTypeSize (specDatatype sp)))"
    using slices_state_tile [OF st] d f unat_typeBytes [OF *(1)] by simp
  moreover have "length shapes = dep" using st by (simp add: slices_state_def)
  ultimately show ?thesis using d f by simp
qed

theorem prepare_slices_partition_witness:
  "slices_tile (slices exampleContext) 10 4 \<and> length (slices exampleContext) = 3"
proof -
  have "depth exampleContext = 3" by code_simp
  with prepare_slices_partition [OF example_context] show ?thesis by (simp add: exampleSpec_def)
qed

text \<open>
  C3: every stage's output fits the temporary the plan gives it, in every slice: the bytes the
  executor allows stage \<open>i\<close> of slice \<open>s\<close> to write do not exceed the temporary's payload area, the
  payload area does not reach the frame metadata behind it, and the metadata ends inside the
  temporary's aligned size.
\<close>

theorem prepare_stage_output_fits:
  assumes "cocclPreparePipeline cs sp d = Inr ctx"
    and "s < depth ctx" and "i < length (stages sp)"
    and "stageOutputTemp (plan ctx) ! i = Some t"
  shows "t < tempCount (plan ctx) \<and> temp_ok (temps (plan ctx) ! t) \<and>
    unat (sliceStageOutputBytes ctx ! s ! i) \<le> unat (tempPayloadBytes (temps (plan ctx) ! t))"
proof -
  from assms(1) obtain c0 sts where *: "planContext cs sts c0 = Inr ctx" "spec c0 = sp"
    "spec ctx = sp" "stages sp \<noteq> []" "length (stages sp) \<le> 7" "depth c0 < 2 ^ 64"
    by (rule prepare_planContext)
  note ok = planContext_ok [OF *(1)]
  have i: "i < 7" using assms(3) * by simp
  have t: "t < tempCount (plan ctx)"
      "tempPayloadBytes (temps (plan ctx) ! t) = stageOutputCapacityBytes (plan ctx) ! i"
    using ok(5) * i assms(4) by auto
  with ok(4,6) * assms(2,3) show ?thesis by (auto simp: slice_fits_def)
qed

theorem prepare_stage_output_fits_witness:
  "\<exists>t. stageOutputTemp (plan exampleContext) ! 1 = Some t \<and> t < tempCount (plan exampleContext) \<and>
     temp_ok (temps (plan exampleContext) ! t) \<and>
     unat (sliceStageOutputBytes exampleContext ! 2 ! 1)
       \<le> unat (tempPayloadBytes (temps (plan exampleContext) ! t))"
proof -
  have "depth exampleContext = 3" and t: "stageOutputTemp (plan exampleContext) ! 1 = Some 2"
    by code_simp+
  with prepare_stage_output_fits [OF example_context, of 2 1 2] show ?thesis
    by (simp add: exampleSpec_def)
qed

text \<open>
  C4: slices run concurrently only when that is sound. If more than one slice is planned, the
  input and output byte ranges are disjoint or form exactly the declared in-place layout; any
  other overlap forces one serial slice.
\<close>

theorem prepare_overlap_serial:
  assumes "cocclPreparePipeline cs sp d = Inr ctx" and "ownerComm sp = Some comm"
    and "rank comm < 2 ^ 31" and "depth ctx > 1"
    and "stageChunkCounts (stages sp) (inputChunks sp) = Inr (counts, outChunks)"
  shows "user_buffers_disjoint (specInput sp) (inputChunks sp) (specOutput sp) outChunks
           (rawChunkBytes (stageContext ctx)) \<or>
    exact_in_place (specInput sp) (inputChunks sp) (specOutput sp) outChunks
      (rawChunkBytes (stageContext ctx)) (rank comm) (inPlaceLayout sp)"
proof -
  from assms(1) obtain cb sts chnks serial sliced dep where *:
    "stageChunkCounts (stages sp) (inputChunks sp) = Inr (sts, chnks)"
    "cocclPipelineUserBuffersRequireSerial (specInput sp) (inputChunks sp) (specOutput sp) chnks
       cb (rank (the (ownerComm sp))) (inPlaceLayout sp) = Inr serial"
    "dep = (if serial then 1 else clampDepth d (rawChunkCount sp))"
    "planContext cs sts (initialContext cs sp dep cb sliced) = Inr ctx"
    by (rule prepare_elim)
  have "depth ctx = dep" "rawChunkBytes (stageContext ctx) = cb"
    using *(4) by (auto elim!: planContext_elim simp: initialContext_fields)
  moreover have "serial \<longleftrightarrow> \<not> user_buffers_disjoint (specInput sp) (inputChunks sp) (specOutput sp) chnks cb \<and>
     \<not> exact_in_place (specInput sp) (inputChunks sp) (specOutput sp) chnks cb (rank comm) (inPlaceLayout sp)"
    using requireSerial_iff [OF *(2)] assms(2,3) by simp
  ultimately show ?thesis using *(1,3) assms(4,5) by (auto split: if_splits)
qed

theorem prepare_overlap_serial_witness:
  "user_buffers_disjoint 65536 4 131072 1 (rawChunkBytes (stageContext exampleContext)) \<or>
   exact_in_place 65536 4 131072 1 (rawChunkBytes (stageContext exampleContext)) 1 InPlaceNone"
proof -
  have "depth exampleContext > 1" by code_simp
  moreover have "stageChunkCounts (stages (exampleSpec 10)) (inputChunks (exampleSpec 10))
      = Inr ([4, 4, 1], 1)" by code_simp
  ultimately show ?thesis
    using prepare_overlap_serial [OF example_context, of exampleComm "[4, 4, 1]" 1]
    by (simp add: exampleSpec_def exampleComm_def)
qed

end
