(* ===== verification/Pipeline_Stage.thy ===== *)
theory Pipeline_Stage
  imports Frame_Exchange Pipeline_Layout Pipeline_Prepare
begin

text \<open>
  The stage handlers of \<^verbatim>\<open>core/pipeline/coccl_pipeline_stage.cc\<close>: one function per stage kind, from the
  edge of a slice (the buffer that flows through the pipeline) to the next edge, over the pools and
  the world; the two halves of a framed exchange; and the dispatch.
\<close>

section \<open>Edges and resources\<close>

record cocclPipelineEdge =
  flowPtr :: ptr
  flowBytes :: size_t
  flowElements :: size_t
  flowDatatype :: ncclDataType_t
  flowChunks :: size_t
  flowCompressor :: ptr
  flowMetadata :: ptr
  flowStride :: size_t

record cocclPipelineStageOutput =
  outPtr :: ptr
  outCapacity :: size_t
  outMetadata :: ptr
  outStride :: size_t

record cocclPipelineFrameResources =
  sendMetadata :: ptr
  recvMetadata :: ptr
  exchangeArray :: ptr
  metadataCapacity :: size_t
  exchangeCapacity :: size_t

definition emptyFrameResources :: cocclPipelineFrameResources where
  "emptyFrameResources = \<lparr>sendMetadata = nullptr, recvMetadata = nullptr, exchangeArray = nullptr,
     metadataCapacity = 0, exchangeCapacity = 0\<rparr>"

text \<open>
  \<^verbatim>\<open>cocclPipelineResources\<close> of \<^verbatim>\<open>coccl_pipeline_execute.cc\<close>. Streams by phase, events by phase and slice; a
  null handle is 0. The object is kept per owner communicator, and the pointer \<^verbatim>\<open>frameResources\<close> of a
  stage context always points into the object of its owner: the handlers find it under that key.
\<close>

record cocclPipelineResources =
  resourceDepth :: nat
  phaseStreams :: "nat \<Rightarrow> ptr"
  phaseEvents :: "nat \<Rightarrow> nat \<Rightarrow> ptr"
  inputReady :: ptr
  inputRawConsumed :: "nat \<Rightarrow> ptr"
  outputRawConsumed :: "nat \<Rightarrow> ptr"
  frameResources :: cocclPipelineFrameResources

record pipeline_world = native_world +
  resourcesByComm :: "ptr \<rightharpoonup> cocclPipelineResources"

definition frameOf :: "'w pipeline_world_scheme \<Rightarrow> ptr \<Rightarrow> cocclPipelineFrameResources" where
  "frameOf w key = (case resourcesByComm w key of None \<Rightarrow> emptyFrameResources | Some r \<Rightarrow> frameResources r)"

definition setFrame :: "ptr \<Rightarrow> cocclPipelineFrameResources \<Rightarrow> 'w pipeline_world_scheme \<Rightarrow> 'w pipeline_world_scheme" where
  "setFrame key fr w = w\<lparr>resourcesByComm := (resourcesByComm w)(key := map_option (\<lambda>r. r\<lparr>frameResources := fr\<rparr>) (resourcesByComm w key))\<rparr>"

section \<open>Running parts in the pair of pools and world\<close>

type_synonym 'w stage_comp = "(comm_pools \<times> 'w pipeline_world_scheme, cocclPipelineEdge) comp"

definition inPools :: "'w coded \<Rightarrow> ('p \<times> 'w, unit) comp" where
  "inPools m s = (let (r, w) = m (snd s) in (if nccl_ok r then Inr () else Inl r, (fst s, w)))"

definition checkView ::
  "('s \<Rightarrow> (ncclResult_t \<times> cocclCompressorView) \<times> 's) \<Rightarrow> ('s, cocclCompressorView) comp" where
  "checkView m s = (let ((r, out), s') = m s in (if nccl_ok r then Inr out else Inl r, s'))"

text \<open>
  What a copy from device to host leaves in the host buffer at an address, at a point of the log:
  device memory is written by plugins and by the network, so its contents are a parameter.
\<close>

type_synonym memory_env = "nat \<Rightarrow> ptr \<Rightarrow> frame_metadata"

section \<open>Frame resources\<close>

definition buffersOverlap :: "ptr \<Rightarrow> size_t \<Rightarrow> ptr \<Rightarrow> size_t \<Rightarrow> bool" where
  "buffersOverlap p n q m \<longleftrightarrow> p < q + m \<and> q < p + n"

definition ensureFrameMetadataCapacity ::
  "api_env \<Rightarrow> ptr \<Rightarrow> size_t \<Rightarrow> ('w pipeline_world_scheme, unit) comp" where
  "ensureFrameMetadataCapacity env key frames =
     bindC (getC (\<lambda>w. frameOf w key)) (\<lambda>fr.
       if metadataCapacity fr \<ge> frames then returnC ()
       else
         let bytes = frames * sizeof_frameMetadata in
         bindC (CUDACHECK env (CudaMemory (cudaHostAlloc bytes))) (\<lambda>sendMeta.
         bindC (queryC env (CudaMemory (cudaHostAlloc bytes))) (\<lambda>recvResult.
           if status recvResult \<noteq> ncclSuccess
           then bindC (ignoreC env (CudaMemory (cudaFreeHost sendMeta))) (\<lambda>_. failC ncclUnhandledCudaError)
           else
             bindC (if sendMetadata fr \<noteq> nullptr then ignoreC env (CudaMemory (cudaFreeHost (sendMetadata fr))) else returnC ()) (\<lambda>_.
             bindC (if recvMetadata fr \<noteq> nullptr then ignoreC env (CudaMemory (cudaFreeHost (recvMetadata fr))) else returnC ()) (\<lambda>_.
             modifyC (setFrame key (fr\<lparr>sendMetadata := sendMeta, recvMetadata := outValue recvResult,
               metadataCapacity := frames\<rparr>)))))))"

text \<open>\<^verbatim>\<open>realloc\<close> returns null when it fails; an exchange has 64 bytes.\<close>

definition sizeof_frameExchange :: size_t where
  "sizeof_frameExchange = 64"

definition ensureFrameExchangeCapacity ::
  "api_env \<Rightarrow> ptr \<Rightarrow> size_t \<Rightarrow> ('w pipeline_world_scheme, unit) comp" where
  "ensureFrameExchangeCapacity env key cnt =
     bindC (getC (\<lambda>w. frameOf w key)) (\<lambda>fr.
       if exchangeCapacity fr \<ge> cnt then returnC ()
       else
         bindC (queryC env (CudaMemory (hostRealloc (exchangeArray fr) (cnt * sizeof_frameExchange)))) (\<lambda>r.
           if outValue r = nullptr then failC ncclSystemError
           else modifyC (setFrame key (fr\<lparr>exchangeArray := outValue r, exchangeCapacity := cnt\<rparr>))))"

text \<open>The value is the contents of the two host buffers after the copies have completed.\<close>

definition readFrameMetadata ::
  "api_env \<Rightarrow> memory_env \<Rightarrow> ptr \<Rightarrow> cocclPipelineEdge \<Rightarrow> cocclPipelineStageOutput \<Rightarrow> size_t \<Rightarrow> ptr \<Rightarrow>
   ('w pipeline_world_scheme, frame_metadata \<times> frame_metadata) comp" where
  "readFrameMetadata env mem key edge out outputFrames strm =
     (let capacity = (if flowChunks edge > outputFrames then flowChunks edge else outputFrames) in
      bindC (ensureFrameMetadataCapacity env key capacity) (\<lambda>_.
      bindC (getC (\<lambda>w. frameOf w key)) (\<lambda>fr.
      bindC (CUDACHECK env (CudaMemory (cudaMemcpyAsync (sendMetadata fr) (flowMetadata edge)
               (flowChunks edge * sizeof_frameMetadata) strm))) (\<lambda>_.
      bindC (CUDACHECK env (CudaMemory (cudaMemcpyAsync (recvMetadata fr) (outMetadata out)
               (outputFrames * sizeof_frameMetadata) strm))) (\<lambda>_.
      bindC (CUDACHECK env (Cuda (cudaStreamSynchronize strm))) (\<lambda>_.
      getC (\<lambda>w. (mem (logLen w) (sendMetadata fr), mem (logLen w) (recvMetadata fr)))))))))"

section \<open>Framed exchanges\<close>

definition cocclPipelineStageUsesFrameExchange :: "cocclPipelineStage \<Rightarrow> cocclPipelineEdge \<Rightarrow> bool" where
  "cocclPipelineStageUsesFrameExchange stage edge \<longleftrightarrow>
     flowMetadata edge \<noteq> nullptr \<and> (kind stage = StageAllToAll \<or> kind stage = StageAllGather)"

definition stageOwner :: "cocclPipelineStageContext \<Rightarrow> ptr" where
  "stageOwner sc = commPtr (contextComm sc)"

definition cocclPreparePipelineFrameExchange ::
  "api_env \<Rightarrow> cocclPipelineStage \<Rightarrow> cocclPipelineEdge \<Rightarrow> cocclPipelineStageOutput \<Rightarrow> ptr \<Rightarrow>
   ('p \<times> 'w native_world_scheme, unit) comp" where
  "cocclPreparePipelineFrameExchange env stage edge out strm =
     (if buffersOverlap (flowPtr edge) (flowBytes edge) (outPtr out) (outCapacity out) then failC ncclInvalidUsage
      else if kind stage = StageAllToAll
      then let bytes = flowChunks edge div stageRanks stage * sizeof_frameMetadata in
           inPools (nativeAllToAll env (flowMetadata edge) (outMetadata out) bytes ncclUint8 (the (stageComm stage)) strm)
      else let bytes = flowChunks edge * sizeof_frameMetadata in
           inPools (nativeCollective env ncclFuncAllGather (flowMetadata edge) (outMetadata out) bytes ncclUint8 ncclSum
             (stageComm stage) strm))"

definition cocclCommitPipelineFrameExchange ::
  "api_env \<Rightarrow> memory_env \<Rightarrow> cocclPipelineStageContext \<Rightarrow> cocclPipelineStage \<Rightarrow> cocclPipelineEdge \<Rightarrow>
   cocclPipelineStageOutput \<Rightarrow> ptr \<Rightarrow> 'w stage_comp" where
  "cocclCommitPipelineFrameExchange env mem sc stage edge out strm =
     (let outputFrames = (if kind stage = StageAllGather then flowChunks edge * stageRanks stage else flowChunks edge);
          ranks = nRanks (the (stageComm stage)); key = stageOwner sc in
      bindC (inWorld (readFrameMetadata env mem key edge out outputFrames strm)) (\<lambda>(sendMeta, recvMeta).
      bindC (inWorld (ensureFrameExchangeCapacity env key outputFrames)) (\<lambda>_.
      bindC (inWorld (getC (\<lambda>w. exchangeCapacity (frameOf w key)))) (\<lambda>capacity.
      bindC (liftE (if kind stage = StageAllToAll
          then cocclBuildAllToAllFrameExchanges (flowPtr edge) (outPtr out) (flowChunks edge) (flowStride edge) ranks
                 sendMeta recvMeta capacity
          else cocclBuildAllGatherFrameExchanges (flowPtr edge) (outPtr out) (flowChunks edge) (flowStride edge) ranks
                 sendMeta recvMeta capacity)) (\<lambda>exchanges.
      bindC (inPools (cocclCommitFrameExchange env exchanges (stageComm stage) strm)) (\<lambda>_.
      let edge' = (if kind stage = StageAllGather
            then edge\<lparr>flowBytes := flowBytes edge * stageRanks stage, flowElements := flowElements edge * stageRanks stage,
                   flowChunks := outputFrames\<rparr>
            else edge) in
      returnC (edge'\<lparr>flowPtr := outPtr out, flowMetadata := outMetadata out, flowStride := outStride out\<rparr>)))))))"

section \<open>Handlers\<close>

text \<open>The view of an edge as the input of a compressor, and an edge with the fields of an output view.\<close>

definition edgeView :: "cocclPipelineEdge \<Rightarrow> cocclCompressorView" where
  "edgeView edge = \<lparr>viewData = flowPtr edge, viewCapacityBytes = flowBytes edge, viewBytes = flowBytes edge,
     viewElements = flowElements edge, viewChunks = flowChunks edge, viewDatatype = flowDatatype edge,
     viewFrameMetadata = flowMetadata edge, viewFrameStrideBytes = flowStride edge\<rparr>"

definition viewEdge :: "cocclCompressorView \<Rightarrow> ptr \<Rightarrow> ptr \<Rightarrow> size_t \<Rightarrow> cocclPipelineEdge" where
  "viewEdge v compressor metadata stride = \<lparr>flowPtr = viewData v, flowBytes = viewBytes v, flowElements = viewElements v,
     flowDatatype = viewDatatype v, flowChunks = viewChunks v, flowCompressor = compressor, flowMetadata = metadata,
     flowStride = stride\<rparr>"

definition runCompress ::
  "api_env \<Rightarrow> cocclPipelineStageContext \<Rightarrow> cocclPipelineStage \<Rightarrow> cocclPipelineEdge \<Rightarrow> cocclPipelineStageOutput \<Rightarrow> ptr \<Rightarrow> 'w stage_comp" where
  "runCompress env sc stage edge out strm =
     bindC (checkView (ncclCompress env (stageCompressor stage) (edgeView edge)
         \<lparr>viewData = outPtr out, viewCapacityBytes = outCapacity out, viewBytes = 0, viewElements = 0,
          viewChunks = flowChunks edge, viewDatatype = ncclInt8, viewFrameMetadata = outMetadata out,
          viewFrameStrideBytes = outStride out\<rparr> (rank (the (contextComm sc))) strm)) (\<lambda>encoded.
     returnC (viewEdge encoded (stageCompressor stage) (viewFrameMetadata encoded) (viewFrameStrideBytes encoded)))"

definition runAllToAll ::
  "api_env \<Rightarrow> memory_env \<Rightarrow> cocclPipelineStageContext \<Rightarrow> cocclPipelineStage \<Rightarrow> cocclPipelineEdge \<Rightarrow> cocclPipelineStageOutput \<Rightarrow> ptr \<Rightarrow> 'w stage_comp" where
  "runAllToAll env mem sc stage edge out strm =
     (if flowMetadata edge \<noteq> nullptr
      then bindC (cocclPreparePipelineFrameExchange env stage edge out strm) (\<lambda>_.
           cocclCommitPipelineFrameExchange env mem sc stage edge out strm)
      else
        let bytes = flowBytes edge div stageRanks stage in
        bindC (inPools (nativeAllToAll env (flowPtr edge) (outPtr out) bytes ncclUint8 (the (stageComm stage)) strm)) (\<lambda>_.
        returnC (edge\<lparr>flowPtr := outPtr out\<rparr>)))"

definition runAllGather ::
  "api_env \<Rightarrow> memory_env \<Rightarrow> cocclPipelineStageContext \<Rightarrow> cocclPipelineStage \<Rightarrow> cocclPipelineEdge \<Rightarrow> cocclPipelineStageOutput \<Rightarrow> ptr \<Rightarrow> 'w stage_comp" where
  "runAllGather env mem sc stage edge out strm =
     (if flowMetadata edge \<noteq> nullptr
      then bindC (cocclPreparePipelineFrameExchange env stage edge out strm) (\<lambda>_.
           cocclCommitPipelineFrameExchange env mem sc stage edge out strm)
      else
        bindC (inPools (nativeCollective env ncclFuncAllGather (flowPtr edge) (outPtr out) (flowBytes edge) ncclUint8 ncclSum
                 (stageComm stage) strm)) (\<lambda>_.
        returnC (edge\<lparr>flowPtr := outPtr out, flowBytes := flowBytes edge * stageRanks stage,
          flowElements := flowElements edge * stageRanks stage, flowChunks := flowChunks edge * stageRanks stage\<rparr>)))"

definition runDecompress ::
  "api_env \<Rightarrow> cocclPipelineStageContext \<Rightarrow> cocclPipelineStage \<Rightarrow> cocclPipelineEdge \<Rightarrow> cocclPipelineStageOutput \<Rightarrow> ptr \<Rightarrow> 'w stage_comp" where
  "runDecompress env sc stage edge out strm =
     bindC (checkView (ncclDecompress env (flowCompressor edge) (edgeView edge)
         \<lparr>viewData = outPtr out, viewCapacityBytes = outCapacity out, viewBytes = 0,
          viewElements = rawSliceCount sc * flowChunks edge, viewChunks = flowChunks edge,
          viewDatatype = rawDatatype sc, viewFrameMetadata = nullptr, viewFrameStrideBytes = 0\<rparr> strm)) (\<lambda>decoded.
     returnC (viewEdge decoded nullptr nullptr 0))"

text \<open>Division by a zero \<^verbatim>\<open>reduceChunks\<close> does not occur: the planner rejects such a stage.\<close>

definition runDecompReduceComp ::
  "api_env \<Rightarrow> cocclBufferConfig \<Rightarrow> cocclPipelineStageContext \<Rightarrow> cocclPipelineStage \<Rightarrow> cocclPipelineEdge \<Rightarrow> cocclPipelineStageOutput \<Rightarrow> ptr \<Rightarrow> 'w stage_comp" where
  "runDecompReduceComp env cfg sc stage edge out strm =
     (let outputChunks = flowChunks edge div reduceChunks stage in
      case cocclPipelineCheckedMultiply (rawSliceCount sc) outputChunks of
        None \<Rightarrow> failC ncclInvalidArgument
      | Some reductionElements \<Rightarrow>
          bindC (checkView (ncclDecompReduceComp env cfg (flowCompressor edge) (stageCompressor stage) (the (contextComm sc))
              (edgeView edge)
              \<lparr>viewData = outPtr out, viewCapacityBytes = outCapacity out, viewBytes = 0, viewElements = 0,
               viewChunks = outputChunks, viewDatatype = ncclInt8, viewFrameMetadata = outMetadata out,
               viewFrameStrideBytes = outStride out\<rparr>
              (reduceChunks stage) (rawDatatype sc) reductionElements strm)) (\<lambda>encoded.
          returnC (viewEdge encoded (stageCompressor stage) (viewFrameMetadata encoded) (viewFrameStrideBytes encoded))))"

definition runDecompressReduce ::
  "api_env \<Rightarrow> cocclBufferConfig \<Rightarrow> cocclPipelineStageContext \<Rightarrow> cocclPipelineStage \<Rightarrow> cocclPipelineEdge \<Rightarrow> cocclPipelineStageOutput \<Rightarrow> ptr \<Rightarrow> 'w stage_comp" where
  "runDecompressReduce env cfg sc stage edge out strm =
     (let outputChunks = flowChunks edge div reduceChunks stage in
      case cocclPipelineCheckedMultiply (rawSliceCount sc) outputChunks of
        None \<Rightarrow> failC ncclInvalidArgument
      | Some reductionElements \<Rightarrow>
          bindC (checkView (ncclDecompressReduce env cfg (flowCompressor edge) (stageOwner sc) (edgeView edge)
              \<lparr>viewData = outPtr out, viewCapacityBytes = outCapacity out, viewBytes = 0, viewElements = reductionElements,
               viewChunks = outputChunks, viewDatatype = rawDatatype sc, viewFrameMetadata = nullptr,
               viewFrameStrideBytes = 0\<rparr> (reduceChunks stage) strm)) (\<lambda>reduced.
          returnC (viewEdge reduced nullptr nullptr 0)))"

definition runReduceScatter ::
  "api_env \<Rightarrow> cocclPipelineStageContext \<Rightarrow> cocclPipelineStage \<Rightarrow> cocclPipelineEdge \<Rightarrow> cocclPipelineStageOutput \<Rightarrow> ptr \<Rightarrow> 'w stage_comp" where
  "runReduceScatter env sc stage edge out strm =
     (let outputChunks = flowChunks edge div stageRanks stage;
          recvcount = rawSliceCount sc * outputChunks in
      bindC (inPools (nativeCollective env ncclFuncReduceScatter (flowPtr edge) (outPtr out) recvcount (rawDatatype sc) ncclSum
               (stageComm stage) strm)) (\<lambda>_.
      returnC \<lparr>flowPtr = outPtr out, flowBytes = recvcount * size_of_int (ncclTypeSize (rawDatatype sc)),
        flowElements = recvcount, flowDatatype = rawDatatype sc, flowChunks = outputChunks, flowCompressor = nullptr,
        flowMetadata = nullptr, flowStride = 0\<rparr>))"

definition runPack ::
  "api_env \<Rightarrow> cocclPipelineStageContext \<Rightarrow> cocclPipelineStage \<Rightarrow> cocclPipelineEdge \<Rightarrow> cocclPipelineStageOutput \<Rightarrow> ptr \<Rightarrow> 'w stage_comp" where
  "runPack env sc stage edge out strm =
     bindC (inPools (cocclLaunchPackSlice env (flowPtr edge) (rawChunkBytes sc) (outPtr out) (rawSliceBytes sc)
              (flowChunks edge) (contextInputLayout sc) (contextNodes sc) (ranksPerNode sc) strm)) (\<lambda>_.
     returnC (edge\<lparr>flowPtr := outPtr out\<rparr>))"

definition runUnpack ::
  "api_env \<Rightarrow> cocclPipelineStageContext \<Rightarrow> cocclPipelineStage \<Rightarrow> cocclPipelineEdge \<Rightarrow> cocclPipelineStageOutput \<Rightarrow> ptr \<Rightarrow> 'w stage_comp" where
  "runUnpack env sc stage edge out strm =
     bindC (inPools (cocclLaunchUnpackSlice env (flowPtr edge) (outPtr out) (rawChunkBytes sc) (rawSliceBytes sc)
              (flowChunks edge) strm)) (\<lambda>_.
     returnC (edge\<lparr>flowPtr := outPtr out\<rparr>))"

section \<open>Dispatch\<close>

definition handlers ::
  "api_env \<Rightarrow> memory_env \<Rightarrow> cocclBufferConfig \<Rightarrow> cocclPipelineStageKind \<Rightarrow> cocclPipelineStageContext \<Rightarrow> cocclPipelineStage \<Rightarrow>
   cocclPipelineEdge \<Rightarrow> cocclPipelineStageOutput \<Rightarrow> ptr \<Rightarrow> 'w stage_comp" where
  "handlers env mem cfg k =
     (case k of
        StageCompress \<Rightarrow> runCompress env
      | StageAllToAll \<Rightarrow> runAllToAll env mem
      | StageAllGather \<Rightarrow> runAllGather env mem
      | StageDecompReduceComp \<Rightarrow> runDecompReduceComp env cfg
      | StageDecompressReduce \<Rightarrow> runDecompressReduce env cfg
      | StageDecompress \<Rightarrow> runDecompress env
      | StageReduceScatter \<Rightarrow> runReduceScatter env
      | StagePack \<Rightarrow> runPack env
      | StageUnpack \<Rightarrow> runUnpack env)"

definition stageSpans :: "cocclPipelineStageContext \<Rightarrow> cocclPipelineStage \<Rightarrow> cocclPipelineEdge \<Rightarrow> cocclPipelineStageOutput \<Rightarrow> size_t \<times> size_t" where
  "stageSpans sc stage edge out =
     (let pitchedSpan = (flowChunks edge - 1) * rawChunkBytes sc + rawSliceBytes sc in
      if kind stage = StagePack then (pitchedSpan, flowBytes edge)
      else if kind stage = StageUnpack then (flowBytes edge, pitchedSpan)
      else (flowBytes edge, outCapacity out))"

definition cocclExecutePipelineStage ::
  "api_env \<Rightarrow> memory_env \<Rightarrow> cocclBufferConfig \<Rightarrow> cocclPipelineStageContext \<Rightarrow> cocclPipelineStage \<Rightarrow> cocclPipelineEdge \<Rightarrow>
   cocclPipelineStageOutput \<Rightarrow> ptr \<Rightarrow> 'w stage_comp" where
  "cocclExecutePipelineStage env mem cfg sc stage edge out strm =
     (let (inputSpan, outputSpan) = stageSpans sc stage edge out in
      if buffersOverlap (flowPtr edge) inputSpan (outPtr out) outputSpan then failC ncclInvalidUsage
      else handlers env mem cfg (kind stage) sc stage edge out strm)"

section \<open>Execution follows the plan\<close>

text \<open>Success of a plugin that encodes validates the chunks of its output.\<close>

lemma encoded_code:
  "nccl_ok (validateEncodedOutput out n) \<Longrightarrow> viewChunks out = n"
  by (auto simp: validateEncodedOutput_def Let_def split: if_splits)

lemma execute_code:
  assumes "cocclExecuteCompressor env compressor oper inp out rnk rc t n strm w = ((r, out'), w')" and "nccl_ok r"
  shows "oper = OperationCompress \<Longrightarrow> viewChunks out' = viewChunks inp"
    and "oper = OperationDecompressReduceCompress \<Longrightarrow> viewChunks out' = viewChunks inp div rc"
  using assms
  by (auto simp: cocclExecuteCompressor_def Let_def split_beta encoded_code split: if_splits option.splits)

text \<open>A property of the output view whenever a computation over views reports no error.\<close>

definition yields :: "(cocclCompressorView \<Rightarrow> bool) \<Rightarrow> 'w view_comp \<Rightarrow> bool" where
  "yields P m \<longleftrightarrow> (\<forall>s. nccl_ok (fst (fst (m s))) \<longrightarrow> P (snd (fst (m s))))"

lemma yieldsI: "(\<And>s r v s'. m s = ((r, v), s') \<Longrightarrow> nccl_ok r \<Longrightarrow> P v) \<Longrightarrow> yields P m"
  unfolding yields_def by (metis surjective_pairing)

lemma yieldsD: "yields P m \<Longrightarrow> m s = ((r, v), s') \<Longrightarrow> nccl_ok r \<Longrightarrow> P v"
  unfolding yields_def by (metis fst_conv snd_conv)

lemma yields_weaken: "yields P m \<Longrightarrow> (\<And>v. P v \<Longrightarrow> Q v) \<Longrightarrow> yields Q m"
  by (simp add: yields_def)

lemma yields_then:
  assumes "yields P m" and "\<And>out. P out \<Longrightarrow> yields P (f out)"
  shows "yields P (thenView m f)"
proof (rule yieldsI)
  fix s r v s'
  assume run: "thenView m f s = ((r, v), s')" and ok: "nccl_ok r"
  obtain r1 v1 s1 where m: "m s = ((r1, v1), s1)" by (metis prod.exhaust)
  show "P v"
  proof (cases "r1 = ncclSuccess")
    case True
    then have "P v1" using yieldsD [OF assms(1) m] by simp
    from yieldsD [OF assms(2) [OF this]] run ok m True show ?thesis by (simp add: thenView_def)
  next
    case False
    with run m have "r1 = r" "v1 = v" by (simp_all add: thenView_def)
    with yieldsD [OF assms(1) m] ok show ?thesis by simp
  qed
qed

lemma yields_with_buffer:
  assumes "P out" and "\<And>h. yields P (body h)"
  shows "yields P (withUnregisteredBuffer env cfg owner bytes strm out body)"
proof (rule yieldsI)
  fix s r v s'
  assume run: "withUnregisteredBuffer env cfg owner bytes strm out body s = ((r, v), s')" and ok: "nccl_ok r"
  obtain g s1 where g: "cocclGetUnregisteredBuffer env cfg owner bytes strm s = (g, s1)" by (metis prod.exhaust)
  show "P v"
  proof (cases g)
    case (Inl e)
    with g run assms(1) show ?thesis by (simp add: withUnregisteredBuffer_def)
  next
    case (Inr h)
    obtain r1 v1 s2 where b: "body h s1 = ((r1, v1), s2)" by (metis prod.exhaust)
    from run g Inr b ok have "v1 = v" and "nccl_ok r1"
      by (auto simp: withUnregisteredBuffer_def Let_def split_beta split: if_splits)
    with yieldsD [OF assms(2) b] show ?thesis by simp
  qed
qed

lemma yields_over_pools:
  assumes "\<And>w r v w'. f w = ((r, v), w') \<Longrightarrow> nccl_ok r \<Longrightarrow> P v"
  shows "yields P (overPools f)"
  by (rule yieldsI) (auto simp: overPools_def Let_def dest: assms split: prod.splits)

lemma yields_compress: "yields (\<lambda>v. viewChunks v = viewChunks inp) (ncclCompress env compressor inp out rnk strm)"
  unfolding ncclCompress_def by (rule yields_over_pools) (erule (1) execute_code(1), simp)

lemma yields_fused:
  "yields (\<lambda>v. viewChunks v = viewChunks inp div rc)
     (overPools (cocclExecuteCompressor env compressor OperationDecompressReduceCompress inp out rnk rc t n strm))"
  by (rule yields_over_pools) (erule (1) execute_code(2), simp)

lemma yields_stay: "P out \<Longrightarrow> yields P (\<lambda>s. case m s of ((result, _), s1) \<Rightarrow> ((result, out), s1))"
  by (rule yieldsI) (auto split: prod.splits)

lemma yields_kernel: "P v \<Longrightarrow> yields P (overPools (\<lambda>w. case f w of (result, w1) \<Rightarrow> ((result, v), w1)))"
  by (rule yields_over_pools) (auto simp: Let_def split: prod.splits)

text \<open>Decompress into a workspace, reduce there, compress from it.\<close>

lemma yields_generic:
  assumes "viewChunks out = n" and "\<And>h. viewChunks (inp' h) = n"
  shows "yields (\<lambda>v. viewChunks v = n) (withUnregisteredBuffer env cfg owner bytes strm out (\<lambda>workspace.
      thenView (\<lambda>s. case m workspace s of ((result, _), s1) \<Rightarrow> ((result, out), s1)) (\<lambda>out.
      thenView (overPools (\<lambda>w. case f workspace w of (result, w1) \<Rightarrow> ((result, out), w1))) (\<lambda>out.
      ncclCompress env encoder (inp' workspace) out rnk strm))))"
  by (intro yields_with_buffer yields_then yields_stay yields_kernel assms(1))
    (assumption, rule yields_weaken [OF yields_compress], simp add: assms(2))

lemma yields_decompReduceComp:
  assumes "viewChunks out = viewChunks inp div rc"
  shows "yields (\<lambda>v. viewChunks v = viewChunks inp div rc)
    (ncclDecompReduceComp env cfg decoder encoder owner inp out rc t n strm)"
proof -
  show ?thesis
  proof (rule yieldsI)
    fix s r v s'
    assume run: "ncclDecompReduceComp env cfg decoder encoder owner inp out rc t n strm s = ((r, v), s')" and ok: "nccl_ok r"
    show "viewChunks v = viewChunks inp div rc"
    proof (cases "viewFrameMetadata inp = nullptr \<and> viewDatatype inp \<noteq> COCCL_COMPRESSOR_RAW_PASSTHROUGH \<and>
         decoder = encoder \<and>
         cocclCompressorSupports (policyStore (snd s)) decoder cocclCompressorCapabilityDecompressReduceCompress")
      case True
      from run [unfolded ncclDecompReduceComp_def if_P [OF True]] ok show ?thesis
        by (rule yieldsD [OF yields_fused])
    next
      case False
      from run [unfolded ncclDecompReduceComp_def if_not_P [OF False] Let_def] ok show ?thesis
        by (rule yieldsD [rotated]) (rule yields_generic, simp_all add: assms)
    qed
  qed
qed

lemma checkView_Inr:
  "checkView m s = (Inr v, s') \<Longrightarrow> yields P m \<Longrightarrow> P v"
  by (auto simp: checkView_def Let_def split: prod.splits if_splits dest: yieldsD)

lemma commitFrames_chunks:
  assumes "cocclCommitPipelineFrameExchange env mem sc stage edge out strm s = (Inr edge', s')"
  shows "flowChunks edge' = (if kind stage = StageAllGather then flowChunks edge * stageRanks stage else flowChunks edge)"
  using assms by (auto simp: cocclCommitPipelineFrameExchange_def Let_def bindC_eq_Inr split: if_splits)

text \<open>
  C19: execution follows the plan. When a stage has run, the edge it hands on is divided into exactly
  the chunks the planner computed for it (and sized the temporaries and the following collective
  for), whatever the plugins do. The two stages whose output is raw data again are left out: there
  the chunk count is the plugin's own, and the planner's is used for the pieces behind it.
\<close>

theorem stage_chunks_follow_plan:
  assumes "cocclExecutePipelineStage env mem cfg sc stage edge out strm s = (Inr edge', s')"
    and "cocclPipelineStageOutputChunks stage (flowChunks edge) = Inr n"
    and "kind stage \<noteq> StageDecompress" and "kind stage \<noteq> StageDecompressReduce"
  shows "flowChunks edge' = n"
proof -
  have run: "handlers env mem cfg (kind stage) sc stage edge out strm s = (Inr edge', s')"
    using assms(1) by (auto simp: cocclExecutePipelineStage_def Let_def split: prod.splits if_splits)
  show ?thesis
  proof (cases "kind stage")
    case StageCompress
    with run obtain v where v: "checkView (ncclCompress env (stageCompressor stage) (edgeView edge)
         \<lparr>viewData = outPtr out, viewCapacityBytes = outCapacity out, viewBytes = 0, viewElements = 0,
          viewChunks = flowChunks edge, viewDatatype = ncclInt8, viewFrameMetadata = outMetadata out,
          viewFrameStrideBytes = outStride out\<rparr> (rank (the (contextComm sc))) strm) s = (Inr v, s')"
      and e: "flowChunks edge' = viewChunks v"
      by (auto simp: handlers_def runCompress_def bindC_eq_Inr viewEdge_def)
    from checkView_Inr [OF v yields_compress] e assms(2) StageCompress show ?thesis
      by (simp add: edgeView_def cocclPipelineStageOutputChunks_def)
  next
    case StageDecompReduceComp
    let ?n = "flowChunks edge div reduceChunks stage"
    from run StageDecompReduceComp obtain m v where v: "checkView (ncclDecompReduceComp env cfg (flowCompressor edge) (stageCompressor stage)
        (the (contextComm sc)) (edgeView edge) \<lparr>viewData = outPtr out, viewCapacityBytes = outCapacity out, viewBytes = 0,
         viewElements = 0, viewChunks = ?n, viewDatatype = ncclInt8, viewFrameMetadata = outMetadata out,
         viewFrameStrideBytes = outStride out\<rparr> (reduceChunks stage) (rawDatatype sc) m strm) s = (Inr v, s')"
      and e: "flowChunks edge' = viewChunks v"
      by (auto simp: handlers_def runDecompReduceComp_def Let_def bindC_eq_Inr viewEdge_def split: option.splits)
    have "viewChunks v = viewChunks (edgeView edge) div reduceChunks stage"
      by (rule checkView_Inr [OF v yields_decompReduceComp]) (simp add: edgeView_def)
    with e assms(2) StageDecompReduceComp show ?thesis
      by (simp add: edgeView_def cocclPipelineStageOutputChunks_def split: if_splits)
  next
    case StageAllGather
    with run have "flowChunks edge' = flowChunks edge * stageRanks stage"
      by (auto simp: handlers_def runAllGather_def bindC_eq_Inr commitFrames_chunks split: if_splits)
    with assms(2) StageAllGather show ?thesis
      by (auto simp: cocclPipelineStageOutputChunks_def cocclPipelineCheckedMultiply_def result_simps split: if_splits)
  next
    case StageAllToAll
    with run have "flowChunks edge' = flowChunks edge"
      by (auto simp: handlers_def runAllToAll_def Let_def bindC_eq_Inr commitFrames_chunks split: if_splits)
    with assms(2) StageAllToAll show ?thesis by (simp add: cocclPipelineStageOutputChunks_def)
  next
    case StageReduceScatter
    with run assms(2) show ?thesis
      by (auto simp: handlers_def runReduceScatter_def Let_def bindC_eq_Inr cocclPipelineStageOutputChunks_def)
  next
    case StagePack
    with run assms(2) show ?thesis
      by (auto simp: handlers_def runPack_def bindC_eq_Inr cocclPipelineStageOutputChunks_def)
  next
    case StageUnpack
    with run assms(2) show ?thesis
      by (auto simp: handlers_def runUnpack_def bindC_eq_Inr cocclPipelineStageOutputChunks_def)
  qed (use assms in simp_all)
qed

definition examplePipelineWorld :: pipeline_world where
  "examplePipelineWorld = native_world.extend exampleNative \<lparr>resourcesByComm = Map.empty\<rparr>"

definition exampleStageContext :: cocclPipelineStageContext where
  "exampleStageContext = \<lparr>rawSliceCount = 16, rawSliceBytes = 64, rawChunkBytes = 64, rawDatatype = ncclFloat32,
     contextComm = Some exampleDeviceComm, contextInputLayout = InputContiguous, contextNodes = 1, ranksPerNode = 1\<rparr>"

definition exampleEdge :: cocclPipelineEdge where
  "exampleEdge = \<lparr>flowPtr = 65536, flowBytes = 64, flowElements = 16, flowDatatype = ncclFloat32, flowChunks = 1,
     flowCompressor = nullptr, flowMetadata = nullptr, flowStride = 0\<rparr>"

definition exampleOutput :: cocclPipelineStageOutput where
  "exampleOutput = \<lparr>outPtr = 131072, outCapacity = 4096, outMetadata = nullptr, outStride = 0\<rparr>"

definition noMemory :: memory_env where
  "noMemory = (\<lambda>_ _. exampleMetadata)"

theorem stage_chunks_follow_plan_witness:
  "\<exists>edge' s'. cocclExecutePipelineStage exampleEnv noMemory defaultBufferConfig exampleStageContext
       (cocclPipelineAllGather exampleDeviceComm) exampleEdge exampleOutput 7 ([], examplePipelineWorld) = (Inr edge', s') \<and>
     flowChunks edge' = 2"
proof -
  let ?run = "cocclExecutePipelineStage exampleEnv noMemory defaultBufferConfig exampleStageContext
       (cocclPipelineAllGather exampleDeviceComm) exampleEdge exampleOutput 7 ([], examplePipelineWorld)"
  have "\<not> isl (fst ?run)" by code_simp
  then obtain edge' s' where run: "?run = (Inr edge', s')" by (cases ?run; cases "fst ?run") auto
  have "cocclPipelineStageOutputChunks (cocclPipelineAllGather exampleDeviceComm) (flowChunks exampleEdge) = Inr 2"
    by code_simp
  from stage_chunks_follow_plan [OF run this] run show ?thesis by (auto simp: cocclPipelineAllGather_def)
qed

end
