(* ===== verification/Pipeline_Execute.thy ===== *)
theory Pipeline_Execute
  imports Pipeline_Stage
begin

text \<open>
  The pipeline executor, \<^verbatim>\<open>core/pipeline/coccl_pipeline_execute.cc\<close>: streams and events per
  communicator, addresses of temporaries, the serial run, and the two overlapped runs. A run issues
  a sequence of operations (record an event, make a stream wait, run a stage on a stream) and stops
  at the first that fails. The sequence is a list, so that its order can be reasoned about (theory
  \<open>Pipeline_Schedule\<close>), and \<open>runOps\<close> executes it.
\<close>

section \<open>Streams and events\<close>

definition PhasePack :: nat where "PhasePack = 0"
definition PhaseFirstStage :: nat where "PhaseFirstStage = 1"
definition PhaseUnpack :: nat where "PhaseUnpack = kCocclPipelinePhysicalStages - 1"

lemmas phase_defs = PhasePack_def PhaseFirstStage_def PhaseUnpack_def

definition emptyPipelineResources :: "nat \<Rightarrow> cocclPipelineResources" where
  "emptyPipelineResources dep = \<lparr>resourceDepth = dep, phaseStreams = (\<lambda>_. nullptr), phaseEvents = (\<lambda>_ _. nullptr),
     inputReady = nullptr, inputRawConsumed = (\<lambda>_. nullptr), outputRawConsumed = (\<lambda>_. nullptr),
     frameResources = emptyFrameResources\<rparr>"

text \<open>The calls that give everything back; their results are ignored.\<close>

definition unlessNull :: "ptr \<Rightarrow> api_call \<Rightarrow> api_call list" where
  "unlessNull p c = (if p = nullptr then [] else [c])"

definition resourceReleases :: "cocclPipelineResources \<Rightarrow> api_call list" where
  "resourceReleases res =
     concat (map (\<lambda>phase.
         concat (map (\<lambda>slc. unlessNull (phaseEvents res phase slc) (Cuda (cudaEventDestroy (phaseEvents res phase slc))))
           [0..<resourceDepth res]) @
         unlessNull (phaseStreams res phase) (Cuda (cudaStreamDestroy (phaseStreams res phase))))
       [0..<kCocclPipelinePhysicalStages]) @
     unlessNull (inputReady res) (Cuda (cudaEventDestroy (inputReady res))) @
     concat (map (\<lambda>slot.
         unlessNull (inputRawConsumed res slot) (Cuda (cudaEventDestroy (inputRawConsumed res slot))) @
         unlessNull (outputRawConsumed res slot) (Cuda (cudaEventDestroy (outputRawConsumed res slot))))
       [0..<kCocclPipelineRawRingSlots]) @
     unlessNull (sendMetadata (frameResources res)) (CudaMemory (cudaFreeHost (sendMetadata (frameResources res)))) @
     unlessNull (recvMetadata (frameResources res)) (CudaMemory (cudaFreeHost (recvMetadata (frameResources res))))"

definition destroyResources :: "api_env \<Rightarrow> cocclPipelineResources \<Rightarrow> ('w api_world_scheme, unit) comp" where
  "destroyResources env res = forC (resourceReleases res) (ignoreC env)"

text \<open>One creation: the handle is stored in the resources; a failure has the code the caller returns.\<close>

definition createHandle ::
  "api_env \<Rightarrow> cuda_call \<Rightarrow> (ptr \<Rightarrow> cocclPipelineResources \<Rightarrow> cocclPipelineResources) \<Rightarrow>
   (cocclPipelineResources \<times> 'w api_world_scheme, unit) comp" where
  "createHandle env c put = bindC (inWorld (CUDACHECK env (Cuda c))) (\<lambda>h. updateC (put h))"

definition createPhase ::
  "api_env \<Rightarrow> nat \<Rightarrow> int \<Rightarrow> int \<Rightarrow> nat \<Rightarrow> (cocclPipelineResources \<times> 'w api_world_scheme, unit) comp" where
  "createPhase env dep leastPriority greatestPriority phase =
     (let priority = (if phase = PhasePack \<or> phase = PhaseUnpack then leastPriority else greatestPriority) in
      bindC (createHandle env (cudaStreamCreateWithPriority priority)
               (\<lambda>h res. res\<lparr>phaseStreams := (phaseStreams res)(phase := h)\<rparr>)) (\<lambda>_.
      forC [0..<dep] (\<lambda>slc.
        if phase = PhaseUnpack \<and> slc \<noteq> dep - 1 then returnC ()
        else createHandle env cudaEventCreateWithFlags
               (\<lambda>h res. res\<lparr>phaseEvents := (phaseEvents res)(phase := (phaseEvents res phase)(slc := h))\<rparr>))))"

definition createHandles ::
  "api_env \<Rightarrow> nat \<Rightarrow> int \<Rightarrow> int \<Rightarrow> (cocclPipelineResources \<times> 'w api_world_scheme, unit) comp" where
  "createHandles env dep leastPriority greatestPriority =
     bindC (forC [0..<kCocclPipelinePhysicalStages] (createPhase env dep leastPriority greatestPriority)) (\<lambda>_.
     bindC (createHandle env cudaEventCreateWithFlags (\<lambda>h res. res\<lparr>inputReady := h\<rparr>)) (\<lambda>_.
     forC [0..<kCocclPipelineRawRingSlots] (\<lambda>slot.
       bindC (createHandle env cudaEventCreateWithFlags
                (\<lambda>h res. res\<lparr>inputRawConsumed := (inputRawConsumed res)(slot := h)\<rparr>)) (\<lambda>_.
       createHandle env cudaEventCreateWithFlags
         (\<lambda>h res. res\<lparr>outputRawConsumed := (outputRawConsumed res)(slot := h)\<rparr>)))))"

text \<open>
  The two priorities are the halves of the reply's value. When a creation fails, what was created is
  destroyed; when the priority query fails, the object is lost.
\<close>

definition createResources ::
  "api_env \<Rightarrow> nat \<Rightarrow> ('w api_world_scheme, cocclPipelineResources) comp" where
  "createResources env dep =
     bindC (queryC env (CudaMemory hostNew)) (\<lambda>object.
       if outValue object = nullptr then failC ncclSystemError
       else
         bindC (CUDACHECK env (Cuda cudaDeviceGetStreamPriorityRange)) (\<lambda>range w.
           let leastPriority = sint (ucast range :: 32 word); greatestPriority = sint (ucast (drop_bit 32 range) :: 32 word) in
           (case createHandles env dep leastPriority greatestPriority (emptyPipelineResources dep, w) of
              (Inr _, (res, w1)) \<Rightarrow> (Inr res, w1)
            | (Inl _, (res, w1)) \<Rightarrow> (Inl ncclUnhandledCudaError, snd (destroyResources env res w1)))))"

text \<open>The resources of a communicator, created with the depth of the first call.\<close>

definition findOrCreateResources ::
  "api_env \<Rightarrow> ptr \<Rightarrow> nat \<Rightarrow> ('w pipeline_world_scheme, cocclPipelineResources) comp" where
  "findOrCreateResources env key dep =
     bindC (getC (\<lambda>w. resourcesByComm w key)) (\<lambda>found.
       case found of
         Some res \<Rightarrow> returnC res
       | None \<Rightarrow>
           bindC (createResources env dep) (\<lambda>res.
           bindC (modifyC (\<lambda>w. w\<lparr>resourcesByComm := (resourcesByComm w)(key \<mapsto> res)\<rparr>)) (\<lambda>_.
           returnC res)))"

definition cocclPipelineCommDestroy :: "api_env \<Rightarrow> ptr \<Rightarrow> ('w pipeline_world_scheme, unit) comp" where
  "cocclPipelineCommDestroy env key =
     bindC (getC (\<lambda>w. resourcesByComm w key)) (\<lambda>found.
       case found of
         None \<Rightarrow> returnC ()
       | Some res \<Rightarrow>
           bindC (modifyC (\<lambda>w. w\<lparr>resourcesByComm := (resourcesByComm w)(key := None)\<rparr>)) (\<lambda>_.
           destroyResources env res))"

section \<open>Addresses\<close>

record cocclPipelineWorkspace =
  registeredBase :: ptr
  rawBase :: ptr

definition tempPtr :: "cocclPipelineContext \<Rightarrow> cocclPipelineWorkspace \<Rightarrow> nat \<Rightarrow> nat \<Rightarrow> ptr" where
  "tempPtr ctx ws slc t =
     (let temp = temps (plan ctx) ! t in
      if storage temp = RawRing
      then rawBase ws + offset temp + word_of_nat (slc mod kCocclPipelineRawRingSlots) * alignedBytes temp
      else registeredBase ws + word_of_nat slc * registeredSliceBytes (plan ctx) + offset temp)"

definition stageContextForSlice :: "cocclPipelineContext \<Rightarrow> nat \<Rightarrow> cocclPipelineStageContext" where
  "stageContextForSlice ctx slc =
     (stageContext ctx)\<lparr>rawSliceCount := elementCount (slices ctx ! slc), rawSliceBytes := sliceBytes (slices ctx ! slc)\<rparr>"

definition inputEdge :: "cocclPipelineContext \<Rightarrow> nat \<Rightarrow> cocclPipelineEdge" where
  "inputEdge ctx slc =
     (let shape = slices ctx ! slc in
      \<lparr>flowPtr = specInput (spec ctx) + byteOffset shape, flowBytes = sliceBytes shape * inputChunks (spec ctx),
       flowElements = elementCount shape * inputChunks (spec ctx), flowDatatype = specDatatype (spec ctx),
       flowChunks = inputChunks (spec ctx), flowCompressor = nullptr, flowMetadata = nullptr, flowStride = 0\<rparr>)"

definition pipelineUsesFramedCompressor :: "compressor_store \<Rightarrow> cocclPipelineSpec \<Rightarrow> bool" where
  "pipelineUsesFramedCompressor cs sp \<longleftrightarrow>
     list_ex (\<lambda>stage. stageCompressor stage \<noteq> nullptr \<and>
       cocclCompressorSupports cs (stageCompressor stage) cocclCompressorCapabilityFramed) (stages sp)"

definition stageOutput :: "cocclPipelineContext \<Rightarrow> cocclPipelineWorkspace \<Rightarrow> nat \<Rightarrow> nat \<Rightarrow> cocclPipelineStageOutput" where
  "stageOutput ctx ws stage slc =
     (case stageOutputTemp (plan ctx) ! stage of
        Some t \<Rightarrow>
          let payload = tempPtr ctx ws slc t; temp = temps (plan ctx) ! t in
          \<lparr>outPtr = payload, outCapacity = sliceStageOutputBytes ctx ! slc ! stage,
           outMetadata = (if frameMetadataBytes temp = 0 then nullptr else payload + frameMetadataOffset temp),
           outStride = sliceStageFrameStrideBytes ctx ! slc ! stage\<rparr>
      | None \<Rightarrow>
          \<lparr>outPtr = specOutput (spec ctx) + byteOffset (slices ctx ! slc),
           outCapacity = sliceStageOutputBytes ctx ! slc ! stage, outMetadata = nullptr, outStride = 0\<rparr>)"

definition packOutput :: "cocclPipelineContext \<Rightarrow> cocclPipelineWorkspace \<Rightarrow> nat \<Rightarrow> cocclPipelineEdge \<Rightarrow> cocclPipelineStageOutput" where
  "packOutput ctx ws slc edge =
     \<lparr>outPtr = tempPtr ctx ws slc (the (inputStagingTemp (plan ctx))), outCapacity = flowBytes edge,
      outMetadata = nullptr, outStride = 0\<rparr>"

definition unpackOutput :: "cocclPipelineContext \<Rightarrow> nat \<Rightarrow> cocclPipelineEdge \<Rightarrow> cocclPipelineStageOutput" where
  "unpackOutput ctx slc edge =
     \<lparr>outPtr = specOutput (spec ctx) + byteOffset (slices ctx ! slc), outCapacity = flowBytes edge,
      outMetadata = nullptr, outStride = 0\<rparr>"

section \<open>Operations of a run\<close>

datatype stream_ref = UserStream | PhaseStream nat

datatype event_ref = PhaseEvent nat nat | InputReady | InputRawConsumed nat | OutputRawConsumed nat

text \<open>Units of work: the phases of a slice, and the two halves of a framed exchange.\<close>

datatype work = PackWork nat | StageWork nat nat | UnpackWork nat | PrepareWork nat nat | CommitWork nat nat

datatype pipeline_op =
  RecordOp event_ref stream_ref | WaitOp stream_ref event_ref | StartOp nat | WorkOp work stream_ref

fun streamOf :: "cocclPipelineContext \<Rightarrow> cocclPipelineResources \<Rightarrow> stream_ref \<Rightarrow> ptr" where
  "streamOf ctx res UserStream = stream (spec ctx)"
| "streamOf ctx res (PhaseStream phase) = phaseStreams res phase"

fun eventOf :: "cocclPipelineResources \<Rightarrow> event_ref \<Rightarrow> ptr" where
  "eventOf res (PhaseEvent phase slc) = phaseEvents res phase slc"
| "eventOf res InputReady = inputReady res"
| "eventOf res (InputRawConsumed slot) = inputRawConsumed res slot"
| "eventOf res (OutputRawConsumed slot) = outputRawConsumed res slot"

text \<open>The state of a run: the edge of each slice, in front of the pools and the world.\<close>

type_synonym 'w run_comp = "((nat \<Rightarrow> cocclPipelineEdge) \<times> comm_pools \<times> 'w pipeline_world_scheme, unit) comp"

definition apiOp :: "api_env \<Rightarrow> cuda_call \<Rightarrow> 'w run_comp" where
  "apiOp env c = bindC (inWorld (inWorld (CUDACHECK env (Cuda c)))) (\<lambda>_. returnC ())"

definition withEdge :: "nat \<Rightarrow> (cocclPipelineEdge \<Rightarrow> 'w stage_comp) \<Rightarrow> 'w run_comp" where
  "withEdge slc m =
     bindC (getX (\<lambda>edges. edges slc)) (\<lambda>edge.
     bindC (inWorld (m edge)) (\<lambda>edge'. updateC (\<lambda>edges. edges(slc := edge'))))"

fun runWork ::
  "api_env \<Rightarrow> memory_env \<Rightarrow> cocclBufferConfig \<Rightarrow> cocclPipelineContext \<Rightarrow> cocclPipelineWorkspace \<Rightarrow> work \<Rightarrow> ptr \<Rightarrow> 'w run_comp" where
  "runWork env mem cfg ctx ws (PackWork slc) strm = withEdge slc (\<lambda>edge.
     cocclExecutePipelineStage env mem cfg (stageContextForSlice ctx slc) cocclPipelinePack edge (packOutput ctx ws slc edge) strm)"
| "runWork env mem cfg ctx ws (StageWork stage slc) strm = withEdge slc (\<lambda>edge.
     cocclExecutePipelineStage env mem cfg (stageContextForSlice ctx slc) (stages (spec ctx) ! stage) edge
       (stageOutput ctx ws stage slc) strm)"
| "runWork env mem cfg ctx ws (UnpackWork slc) strm = withEdge slc (\<lambda>edge.
     cocclExecutePipelineStage env mem cfg (stageContextForSlice ctx slc) cocclPipelineUnpack edge (unpackOutput ctx slc edge) strm)"
| "runWork env mem cfg ctx ws (PrepareWork stage slc) strm = withEdge slc (\<lambda>edge.
     bindC (cocclPreparePipelineFrameExchange env (stages (spec ctx) ! stage) edge (stageOutput ctx ws stage slc) strm)
       (\<lambda>_. returnC edge))"
| "runWork env mem cfg ctx ws (CommitWork stage slc) strm = withEdge slc (\<lambda>edge.
     cocclCommitPipelineFrameExchange env mem (stageContextForSlice ctx slc) (stages (spec ctx) ! stage) edge
       (stageOutput ctx ws stage slc) strm)"

fun runOp ::
  "api_env \<Rightarrow> memory_env \<Rightarrow> cocclBufferConfig \<Rightarrow> cocclPipelineContext \<Rightarrow> cocclPipelineWorkspace \<Rightarrow> cocclPipelineResources \<Rightarrow>
   pipeline_op \<Rightarrow> 'w run_comp" where
  "runOp env mem cfg ctx ws res (RecordOp ev strm) = apiOp env (cudaEventRecord (eventOf res ev) (streamOf ctx res strm))"
| "runOp env mem cfg ctx ws res (WaitOp strm ev) = apiOp env (cudaStreamWaitEvent (streamOf ctx res strm) (eventOf res ev))"
| "runOp env mem cfg ctx ws res (StartOp slc) = updateC (\<lambda>edges. edges(slc := inputEdge ctx slc))"
| "runOp env mem cfg ctx ws res (WorkOp wk strm) = runWork env mem cfg ctx ws wk (streamOf ctx res strm)"

definition runOps ::
  "api_env \<Rightarrow> memory_env \<Rightarrow> cocclBufferConfig \<Rightarrow> cocclPipelineContext \<Rightarrow> cocclPipelineWorkspace \<Rightarrow> cocclPipelineResources \<Rightarrow>
   pipeline_op list \<Rightarrow> 'w run_comp" where
  "runOps env mem cfg ctx ws res ops = forC ops (runOp env mem cfg ctx ws res)"

section \<open>The three runs\<close>

definition stageCount :: "cocclPipelineContext \<Rightarrow> nat" where
  "stageCount ctx = length (stages (spec ctx))"

definition stagesIn :: "cocclPipelineContext \<Rightarrow> bool" where
  "stagesIn ctx \<longleftrightarrow> inputStagingTemp (plan ctx) \<noteq> None"

definition stagesOut :: "cocclPipelineContext \<Rightarrow> bool" where
  "stagesOut ctx \<longleftrightarrow> outputStagingTemp (plan ctx) \<noteq> None"

definition finalStagePhase :: "cocclPipelineContext \<Rightarrow> nat" where
  "finalStagePhase ctx = PhaseFirstStage + stageCount ctx - 1"

definition reusesInputRaw :: "cocclPipelineContext \<Rightarrow> bool" where
  "reusesInputRaw ctx \<longleftrightarrow> workspaceKind (plan ctx) = WorkspaceSplit \<and> stagesIn ctx"

definition reusesOutputRaw :: "cocclPipelineContext \<Rightarrow> bool" where
  "reusesOutputRaw ctx \<longleftrightarrow> workspaceKind (plan ctx) = WorkspaceSplit \<and> stagesOut ctx"

text \<open>\<^verbatim>\<open>runSerial\<close>: one slice, everything on the stream of the call.\<close>

definition serialOps :: "cocclPipelineContext \<Rightarrow> pipeline_op list" where
  "serialOps ctx =
     StartOp 0 #
     (if stagesIn ctx then [WorkOp (PackWork 0) UserStream] else []) @
     map (\<lambda>stage. WorkOp (StageWork stage 0) UserStream) [0..<stageCount ctx]"

definition startOps :: "cocclPipelineContext \<Rightarrow> pipeline_op list" where
  "startOps ctx =
     [RecordOp InputReady UserStream,
      WaitOp (PhaseStream (if stagesIn ctx then PhasePack else PhaseFirstStage)) InputReady]"

definition completionOps :: "cocclPipelineContext \<Rightarrow> pipeline_op list" where
  "completionOps ctx =
     [WaitOp UserStream (PhaseEvent (if stagesOut ctx then PhaseUnpack else finalStagePhase ctx) (depth ctx - 1))]"

definition packOps :: "cocclPipelineContext \<Rightarrow> nat \<Rightarrow> pipeline_op list" where
  "packOps ctx slc =
     (if stagesIn ctx
      then (if reusesInputRaw ctx \<and> slc \<ge> kCocclPipelineRawRingSlots
            then [WaitOp (PhaseStream PhasePack) (InputRawConsumed (slc mod kCocclPipelineRawRingSlots))] else []) @
           [WorkOp (PackWork slc) (PhaseStream PhasePack), RecordOp (PhaseEvent PhasePack slc) (PhaseStream PhasePack)]
      else [])"

definition stageOps :: "cocclPipelineContext \<Rightarrow> nat \<Rightarrow> nat \<Rightarrow> pipeline_op list" where
  "stageOps ctx slc stage =
     (let phase = PhaseFirstStage + stage in
      (if stage \<noteq> 0 \<or> stagesIn ctx then [WaitOp (PhaseStream phase) (PhaseEvent (phase - 1) slc)] else []) @
      (if reusesOutputRaw ctx \<and> Suc stage = stageCount ctx \<and> slc \<ge> kCocclPipelineRawRingSlots
       then [WaitOp (PhaseStream phase) (OutputRawConsumed (slc mod kCocclPipelineRawRingSlots))] else []) @
      [WorkOp (StageWork stage slc) (PhaseStream phase)] @
      (if reusesInputRaw ctx \<and> stage = 0
       then [RecordOp (InputRawConsumed (slc mod kCocclPipelineRawRingSlots)) (PhaseStream phase)] else []) @
      [RecordOp (PhaseEvent phase slc) (PhaseStream phase)])"

definition unpackOps :: "cocclPipelineContext \<Rightarrow> nat \<Rightarrow> pipeline_op list" where
  "unpackOps ctx slc =
     (if stagesOut ctx
      then [WaitOp (PhaseStream PhaseUnpack) (PhaseEvent (finalStagePhase ctx) slc),
            WorkOp (UnpackWork slc) (PhaseStream PhaseUnpack)] @
           (if reusesOutputRaw ctx
            then [RecordOp (OutputRawConsumed (slc mod kCocclPipelineRawRingSlots)) (PhaseStream PhaseUnpack)] else []) @
           (if slc = depth ctx - 1 then [RecordOp (PhaseEvent PhaseUnpack slc) (PhaseStream PhaseUnpack)] else [])
      else [])"

definition sliceOps :: "cocclPipelineContext \<Rightarrow> nat \<Rightarrow> pipeline_op list" where
  "sliceOps ctx slc =
     StartOp slc # packOps ctx slc @ concat (map (stageOps ctx slc) [0..<stageCount ctx]) @ unpackOps ctx slc"

text \<open>\<^verbatim>\<open>runOverlap\<close>: slice by slice, each phase on its own stream.\<close>

definition overlapOps :: "cocclPipelineContext \<Rightarrow> pipeline_op list" where
  "overlapOps ctx = startOps ctx @ concat (map (sliceOps ctx) [0..<depth ctx]) @ completionOps ctx"

text \<open>
  \<^verbatim>\<open>runFramedOverlap\<close>: first the pack and the first stage of every slice, then stage by stage over all
  slices. A stage that exchanges frames (\<open>variable\<close>, decided by the edge of slice 0 when the stage is
  reached) sends the metadata of all slices before it waits for any.
\<close>

definition framedFirstOps :: "cocclPipelineContext \<Rightarrow> nat \<Rightarrow> pipeline_op list" where
  "framedFirstOps ctx slc =
     StartOp slc # packOps ctx slc @
     (if stagesIn ctx then [WaitOp (PhaseStream PhaseFirstStage) (PhaseEvent PhasePack slc)] else []) @
     [WorkOp (StageWork 0 slc) (PhaseStream PhaseFirstStage)] @
     (if reusesInputRaw ctx
      then [RecordOp (InputRawConsumed (slc mod kCocclPipelineRawRingSlots)) (PhaseStream PhaseFirstStage)] else []) @
     [RecordOp (PhaseEvent PhaseFirstStage slc) (PhaseStream PhaseFirstStage)]"

definition framedStageOps :: "cocclPipelineContext \<Rightarrow> nat \<Rightarrow> bool \<Rightarrow> pipeline_op list" where
  "framedStageOps ctx stage variable =
     (let phase = PhaseFirstStage + stage in
      if variable
      then concat (map (\<lambda>slc. [WaitOp (PhaseStream phase) (PhaseEvent (phase - 1) slc),
                              WorkOp (PrepareWork stage slc) (PhaseStream phase)]) [0..<depth ctx]) @
           concat (map (\<lambda>slc. [WorkOp (CommitWork stage slc) (PhaseStream phase),
                              RecordOp (PhaseEvent phase slc) (PhaseStream phase)]) [0..<depth ctx])
      else concat (map (\<lambda>slc.
             [WaitOp (PhaseStream phase) (PhaseEvent (phase - 1) slc)] @
             (if reusesOutputRaw ctx \<and> Suc stage = stageCount ctx \<and> slc \<ge> kCocclPipelineRawRingSlots
              then [WaitOp (PhaseStream phase) (OutputRawConsumed (slc mod kCocclPipelineRawRingSlots))] else []) @
             [WorkOp (StageWork stage slc) (PhaseStream phase), RecordOp (PhaseEvent phase slc) (PhaseStream phase)] @
             (if Suc stage = stageCount ctx then unpackOps ctx slc else [])) [0..<depth ctx]))"

definition runSerial ::
  "api_env \<Rightarrow> memory_env \<Rightarrow> cocclBufferConfig \<Rightarrow> cocclPipelineContext \<Rightarrow> cocclPipelineWorkspace \<Rightarrow> 'w run_comp" where
  "runSerial env mem cfg ctx ws = runOps env mem cfg ctx ws (emptyPipelineResources 0) (serialOps ctx)"

definition runOverlap ::
  "api_env \<Rightarrow> memory_env \<Rightarrow> cocclBufferConfig \<Rightarrow> cocclPipelineContext \<Rightarrow> cocclPipelineWorkspace \<Rightarrow> cocclPipelineResources \<Rightarrow> 'w run_comp" where
  "runOverlap env mem cfg ctx ws res = runOps env mem cfg ctx ws res (overlapOps ctx)"

definition runFramedOverlap ::
  "api_env \<Rightarrow> memory_env \<Rightarrow> cocclBufferConfig \<Rightarrow> cocclPipelineContext \<Rightarrow> cocclPipelineWorkspace \<Rightarrow> cocclPipelineResources \<Rightarrow> 'w run_comp" where
  "runFramedOverlap env mem cfg ctx ws res =
     bindC (runOps env mem cfg ctx ws res (startOps ctx @ concat (map (framedFirstOps ctx) [0..<depth ctx]))) (\<lambda>_.
     bindC (forC [1..<stageCount ctx] (\<lambda>stage.
       bindC (getX (\<lambda>edges. cocclPipelineStageUsesFrameExchange (stages (spec ctx) ! stage) (edges 0))) (\<lambda>variable.
       runOps env mem cfg ctx ws res (framedStageOps ctx stage variable)))) (\<lambda>_.
     runOps env mem cfg ctx ws res (completionOps ctx)))"

section \<open>Running a pipeline\<close>

text \<open>A run starts with edges that are overwritten before they are read.\<close>

definition emptyEdge :: cocclPipelineEdge where
  "emptyEdge = \<lparr>flowPtr = nullptr, flowBytes = 0, flowElements = 0, flowDatatype = ncclInt8, flowChunks = 0,
     flowCompressor = nullptr, flowMetadata = nullptr, flowStride = 0\<rparr>"

definition runEdges :: "'w run_comp \<Rightarrow> (comm_pools \<times> 'w pipeline_world_scheme, unit) comp" where
  "runEdges m s = (case m (\<lambda>_. emptyEdge, s) of (r, (edges, s')) \<Rightarrow> (r, s'))"

definition executePlan ::
  "api_env \<Rightarrow> memory_env \<Rightarrow> cocclBufferConfig \<Rightarrow> cocclPipelineContext \<Rightarrow> cocclPipelineWorkspace \<Rightarrow>
   (comm_pools \<times> 'w pipeline_world_scheme, unit) comp" where
  "executePlan env mem cfg ctx ws =
     bindC (inWorld (getC (\<lambda>w. pipelineUsesFramedCompressor (policyStore w) (spec ctx)))) (\<lambda>framd.
       if depth ctx = 1 \<and> \<not> framd then runEdges (runSerial env mem cfg ctx ws)
       else
         bindC (inWorld (findOrCreateResources env (commPtr (ownerComm (spec ctx))) (depth ctx))) (\<lambda>res.
           if depth ctx = 1 then runEdges (runSerial env mem cfg ctx ws)
           else if framd then runEdges (runFramedOverlap env mem cfg ctx ws res)
           else runEdges (runOverlap env mem cfg ctx ws res)))"

definition releaseCode ::
  "api_env \<Rightarrow> cocclBufferHandle \<Rightarrow> ptr \<Rightarrow> (comm_pools \<times> 'w api_world_scheme) coded" where
  "releaseCode env buffer strm s = (case cocclReleaseBuffer env buffer strm s of ((r, _), s') \<Rightarrow> (r, s'))"

text \<open>After the workspace was acquired: run, synchronise the device after a failure, release both buffers.\<close>

definition executeAndRelease ::
  "api_env \<Rightarrow> memory_env \<Rightarrow> cocclBufferConfig \<Rightarrow> cocclPipelineContext \<Rightarrow> cocclBufferHandle \<Rightarrow> cocclBufferHandle \<Rightarrow>
   (comm_pools \<times> 'w pipeline_world_scheme) coded" where
  "executeAndRelease env mem cfg ctx registeredWorkspace rawWorkspace s =
     (let strm = stream (spec ctx);
          (result, s1) = codeOf (executePlan env mem cfg ctx
            \<lparr>registeredBase = handlePtr registeredWorkspace, rawBase = handlePtr rawWorkspace\<rparr>) s;
          s2 = (if result \<noteq> ncclSuccess then snd (inWorld (ignoreC env (Cuda cudaDeviceSynchronize)) s1) else s1);
          (rawRelease, s3) = releaseCode env rawWorkspace strm s2;
          (registeredRelease, s4) = releaseCode env registeredWorkspace strm s3;
          result = (if result = ncclSuccess then rawRelease else result) in
      (if result = ncclSuccess then registeredRelease else result, s4))"

definition cocclRunPipelineWithDepth ::
  "api_env \<Rightarrow> memory_env \<Rightarrow> cocclBufferConfig \<Rightarrow> cocclPipelineSpec \<Rightarrow> int \<Rightarrow> (comm_pools \<times> 'w pipeline_world_scheme) coded" where
  "cocclRunPipelineWithDepth env mem cfg sp requestedDepth s =
     (case cocclPreparePipeline (policyStore (snd s)) sp requestedDepth of
        Inl e \<Rightarrow> (e, s)
      | Inr ctx \<Rightarrow>
          let owner = the (ownerComm sp) in
          case inWorld (CUDACHECK env (Cuda (cudaSetDevice (cudaDev owner)))) s of
            (Inl e, s1) \<Rightarrow> (e, s1)
          | (Inr _, s1) \<Rightarrow>
            (case cocclGetBuffer env cfg (self owner) (registeredBytes (plan ctx)) (stream sp) s1 of
               (Inl e, s2) \<Rightarrow> (e, s2)
             | (Inr registeredWorkspace, s2) \<Rightarrow>
               (if rawBytes (plan ctx) = 0
                then executeAndRelease env mem cfg ctx registeredWorkspace emptyHandle s2
                else case cocclGetUnregisteredBuffer env cfg (self owner) (rawBytes (plan ctx)) (stream sp) s2 of
                  (Inl e, s3) \<Rightarrow> (e, snd (releaseCode env registeredWorkspace (stream sp) s3))
                | (Inr rawWorkspace, s3) \<Rightarrow> executeAndRelease env mem cfg ctx registeredWorkspace rawWorkspace s3)))"

definition cocclRunPipeline ::
  "api_env \<Rightarrow> memory_env \<Rightarrow> cocclConfig \<Rightarrow> cocclPipelineSpec \<Rightarrow> (comm_pools \<times> 'w pipeline_world_scheme) coded" where
  "cocclRunPipeline env mem conf sp s =
     (let owner = the (ownerComm sp); singleNode = (localRanks owner = nRanks owner);
          dep = (if singleNode \<and> \<not> pipelineUsesFramedCompressor (policyStore (snd s)) sp then 1
                 else pipelineDepth (pipelineConfig conf)) in
      cocclRunPipelineWithDepth env mem (bufferConfig conf) sp dep s)"

definition cocclRunPipelineSerial ::
  "api_env \<Rightarrow> memory_env \<Rightarrow> cocclConfig \<Rightarrow> cocclPipelineSpec \<Rightarrow> (comm_pools \<times> 'w pipeline_world_scheme) coded" where
  "cocclRunPipelineSerial env mem conf sp = cocclRunPipelineWithDepth env mem (bufferConfig conf) sp 1"

section \<open>Resources are cached with their first depth\<close>

text \<open>Events exist only for the slices of the depth the resources were created with.\<close>

definition events_within :: "nat \<Rightarrow> cocclPipelineResources \<Rightarrow> bool" where
  "events_within dep res \<longleftrightarrow> (\<forall>phase slc. dep \<le> slc \<longrightarrow> phaseEvents res phase slc = nullptr)"

lemma createHandle_within [keeps_intros]:
  assumes "\<And>h res. events_within dep res \<Longrightarrow> events_within dep (put h res)"
  shows "keeps (\<lambda>s. events_within dep (fst s)) (createHandle env c put)"
  unfolding createHandle_def keeps_def
  by (auto simp: bindC_def inWorld_def updateC_def Let_def split_beta assms split: sum.splits prod.splits)

lemma createHandles_within:
  "keeps (\<lambda>s. events_within dep (fst s)) (createHandles env dep a b)"
  unfolding createHandles_def createPhase_def Let_def
  by (intro keeps_intros) (auto simp: events_within_def)

lemma createResources_within:
  assumes "createResources env dep w = (Inr res, w')"
  shows "events_within dep res"
proof -
  obtain range :: "64 word" and w1 where c: "(case createHandles env dep (sint (ucast range :: 32 word)) (sint (ucast (drop_bit 32 range) :: 32 word))
      (emptyPipelineResources dep, w1) of (Inr _, (res, w1)) \<Rightarrow> (Inr res, w1)
      | (Inl _, (res, w1)) \<Rightarrow> (Inl ncclUnhandledCudaError, snd (destroyResources env res w1))) = (Inr res, w')"
    using assms by (auto simp: createResources_def bindC_eq_Inr Let_def split: if_splits)
  let ?h = "createHandles env dep (sint (ucast range :: 32 word)) (sint (ucast (drop_bit 32 range) :: 32 word))"
  from c have run: "?h (emptyPipelineResources dep, w1) = (Inr (), (res, w'))"
    by (cases "?h (emptyPipelineResources dep, w1)"; cases "fst (?h (emptyPipelineResources dep, w1))") auto
  have "events_within dep (emptyPipelineResources dep)"
    by (simp add: events_within_def emptyPipelineResources_def)
  with keepsD [OF createHandles_within, of dep "(emptyPipelineResources dep, w1)" env] run
  show ?thesis by (metis fst_conv snd_conv)
qed

text \<open>
  C20: the cached streams and events of a communicator are kept with the depth of the first call that
  needed them. A later call with more slices gets the same object, makes no call to create anything,
  and its schedule records the event of slice \<open>d\<close> of the first stage, which is the null handle.
\<close>

theorem cached_resources_miss_events:
  assumes "resourcesByComm w key = None" and "findOrCreateResources env key d w = (Inr res, w1)"
    and "d < depth ctx" and "0 < stageCount ctx"
  shows "findOrCreateResources env' key (depth ctx) w1 = (Inr res, w1) \<and>
    RecordOp (PhaseEvent PhaseFirstStage d) (PhaseStream PhaseFirstStage) \<in> set (overlapOps ctx) \<and>
    eventOf res (PhaseEvent PhaseFirstStage d) = nullptr"
proof (intro conjI)
  obtain w0 where c: "createResources env d w = (Inr res, w0)" "w1 = w0\<lparr>resourcesByComm := (resourcesByComm w0)(key \<mapsto> res)\<rparr>"
    using assms(1,2) by (auto simp: findOrCreateResources_def bindC_eq_Inr)
  then show "findOrCreateResources env' key (depth ctx) w1 = (Inr res, w1)"
    by (simp add: findOrCreateResources_def bindC_def)
  show "eventOf res (PhaseEvent PhaseFirstStage d) = nullptr"
    using createResources_within [OF c(1)] by (simp add: events_within_def)
  have "RecordOp (PhaseEvent PhaseFirstStage d) (PhaseStream PhaseFirstStage) \<in> set (stageOps ctx d 0)"
    by (simp add: stageOps_def Let_def)
  moreover have "stageOps ctx d 0 \<in> set (map (stageOps ctx d) [0..<stageCount ctx])" using assms(4) by auto
  ultimately have "RecordOp (PhaseEvent PhaseFirstStage d) (PhaseStream PhaseFirstStage) \<in> set (sliceOps ctx d)"
    unfolding sliceOps_def by auto
  with assms(3) show "RecordOp (PhaseEvent PhaseFirstStage d) (PhaseStream PhaseFirstStage) \<in> set (overlapOps ctx)"
    unfolding overlapOps_def by auto
qed

text \<open>Computations that end without an error, in any state.\<close>

definition succeeds :: "('s, 'a) comp \<Rightarrow> bool" where
  "succeeds m \<longleftrightarrow> (\<forall>s. \<exists>x s'. m s = (Inr x, s'))"

named_theorems succeeds_intros \<open>rules for computations that end without an error\<close>

lemma succeeds_basic [succeeds_intros]:
  "succeeds (returnC x)" "succeeds (getC f)" "succeeds (modifyC g)" "succeeds (updateC h)" "succeeds (queryC env c)"
  by (simp_all add: succeeds_def updateC_def queryC_def Let_def split_beta)

lemma succeeds_bind [succeeds_intros]: "succeeds m \<Longrightarrow> (\<And>x. succeeds (f x)) \<Longrightarrow> succeeds (bindC m f)"
  unfolding succeeds_def bindC_def by (metis (no_types, lifting) case_prod_conv sum.case(2))

lemma succeeds_for [succeeds_intros]: "(\<And>x. succeeds (f x)) \<Longrightarrow> succeeds (forC xs f)"
  by (induction xs) (simp_all add: succeeds_intros)

lemma succeeds_if [succeeds_intros]: "(b \<Longrightarrow> succeeds m) \<Longrightarrow> (\<not> b \<Longrightarrow> succeeds n) \<Longrightarrow> succeeds (if b then m else n)"
  by simp

lemma succeeds_inWorld [succeeds_intros]: "succeeds m \<Longrightarrow> succeeds (inWorld m)"
  unfolding succeeds_def inWorld_def by (metis (no_types, lifting) case_prod_conv)

lemma succeeds_CUDACHECK: "(\<And>i. status (env i c) = ncclSuccess) \<Longrightarrow> succeeds (CUDACHECK env c)"
  by (simp add: succeeds_def CUDACHECK_def callApi_def)

text \<open>With an environment that refuses nothing, the resources are created.\<close>

lemma createHandles_succeeds:
  assumes "\<And>i c. status (env i (Cuda c)) = ncclSuccess"
  shows "succeeds (createHandles env dep a b)"
  unfolding createHandles_def createPhase_def createHandle_def Let_def
  by (intro succeeds_intros succeeds_CUDACHECK assms)

lemma createResources_succeeds:
  assumes "\<And>i c. status (env i (Cuda c)) = ncclSuccess" and "\<And>i. outValue (env i (CudaMemory hostNew)) \<noteq> nullptr"
  shows "\<exists>res w'. createResources env dep w = (Inr res, w')"
proof -
  obtain object w0 where q: "queryC env (CudaMemory hostNew) w = (Inr object, w0)" "outValue object \<noteq> nullptr"
    using assms(2) by (simp add: queryC_def callApi_def)
  obtain range w1 where r: "CUDACHECK env (Cuda cudaDeviceGetStreamPriorityRange) w0 = (Inr range, w1)"
    using succeeds_CUDACHECK [of env "Cuda cudaDeviceGetStreamPriorityRange", OF assms(1)] unfolding succeeds_def by metis
  obtain res w2 where "createHandles env dep (sint (ucast range :: 32 word)) (sint (ucast (drop_bit 32 range) :: 32 word))
      (emptyPipelineResources dep, w1) = (Inr (), (res, w2))"
    using createHandles_succeeds [of env dep, OF assms(1)] unfolding succeeds_def by (metis old.unit.exhaust prod.exhaust)
  with q r show ?thesis
    by (simp add: createResources_def bindC_def)
qed

lemma findOrCreate_succeeds:
  assumes "\<And>i c. status (env i (Cuda c)) = ncclSuccess" and "\<And>i. outValue (env i (CudaMemory hostNew)) \<noteq> nullptr"
  shows "\<exists>res w'. findOrCreateResources env key dep w = (Inr res, w')"
proof (cases "resourcesByComm w key")
  case None
  obtain res w1 where "createResources env dep w = (Inr res, w1)"
    using createResources_succeeds [of env dep w, OF assms] by blast
  with None show ?thesis by (simp add: findOrCreateResources_def bindC_def)
qed (simp add: findOrCreateResources_def bindC_def)

theorem cached_resources_miss_events_witness:
  "\<exists>res w1. findOrCreateResources exampleEnv 4096 1 examplePipelineWorld = (Inr res, w1) \<and>
     findOrCreateResources exampleEnv 4096 (depth exampleContext) w1 = (Inr res, w1) \<and>
     RecordOp (PhaseEvent PhaseFirstStage 1) (PhaseStream PhaseFirstStage) \<in> set (overlapOps exampleContext) \<and>
     eventOf res (PhaseEvent PhaseFirstStage 1) = nullptr"
proof -
  let ?run = "findOrCreateResources exampleEnv 4096 1 examplePipelineWorld"
  obtain res w1 where run: "?run = (Inr res, w1)"
    using findOrCreate_succeeds [of exampleEnv 4096 1 examplePipelineWorld] by (auto simp: exampleEnv_def)
  have "resourcesByComm examplePipelineWorld 4096 = None"
    by (simp add: examplePipelineWorld_def native_world.defs)
  moreover have "1 < depth exampleContext" "0 < stageCount exampleContext" by code_simp+
  ultimately show ?thesis
    using cached_resources_miss_events [OF _ run, of exampleContext exampleEnv] run by blast
qed

section \<open>Addresses of temporaries\<close>

text \<open>The acquired buffers hold the planned bytes, do not wrap and do not meet.\<close>

definition workspace_fits :: "cocclPipelineContext \<Rightarrow> cocclPipelineWorkspace \<Rightarrow> bool" where
  "workspace_fits ctx ws \<longleftrightarrow>
     unat (registeredBase ws) + unat (registeredBytes (plan ctx)) < 2 ^ 64 \<and>
     unat (rawBase ws) + unat (rawBytes (plan ctx)) < 2 ^ 64 \<and>
     disjoint_ranges (unat (registeredBase ws)) (unat (registeredBytes (plan ctx)))
       (unat (rawBase ws)) (unat (rawBytes (plan ctx)))"

definition temp_at :: "cocclPipelineContext \<Rightarrow> cocclPipelineWorkspace \<Rightarrow> nat \<Rightarrow> nat \<Rightarrow> nat" where
  "temp_at ctx ws slc t = unat (tempPtr ctx ws slc t)"

text \<open>
  The only pairs that may share memory: temporaries of one slice that are not neighbours, and one
  ring temporary in slices of the same parity.
\<close>

definition may_share :: "cocclPipelinePlan \<Rightarrow> nat \<Rightarrow> nat \<Rightarrow> nat \<Rightarrow> nat \<Rightarrow> bool" where
  "may_share pl slc t slc' u \<longleftrightarrow>
     storage (temps pl ! t) = storage (temps pl ! u) \<and>
     (if storage (temps pl ! t) = RawRing then t = u \<and> slc mod 2 = slc' mod 2
      else slc = slc' \<and> u \<noteq> Suc t \<and> t \<noteq> Suc u)"

lemma slice_row:
  assumes "slc < dep" and "b + n \<le> (r :: nat)"
  shows "slc * r + b + n \<le> dep * r"
proof -
  have "Suc slc * r \<le> dep * r" using assms(1) by (intro mult_le_mono1) simp
  with assms(2) show ?thesis by simp
qed

lemma arena_address:
  assumes "workspace_safe (plan ctx) (depth ctx)" and "workspace_fits ctx ws" and "slc < depth ctx" and "depth ctx < 2 ^ 64"
    and "arena_item (plan ctx) t"
  shows "temp_at ctx ws slc t = unat (registeredBase ws) + slc * unat (registeredSliceBytes (plan ctx)) + temp_begin (plan ctx) t"
    and "slc * unat (registeredSliceBytes (plan ctx)) + temp_begin (plan ctx) t + temp_size (plan ctx) t
           \<le> unat (registeredBytes (plan ctx))"
proof -
  let ?r = "unat (registeredSliceBytes (plan ctx))"
  have in_slice: "temp_begin (plan ctx) t + temp_size (plan ctx) t \<le> ?r"
    and tot: "unat (registeredBytes (plan ctx)) = depth ctx * ?r"
    using assms(1,5) by (auto simp: workspace_safe_def)
  show le: "slc * ?r + temp_begin (plan ctx) t + temp_size (plan ctx) t \<le> unat (registeredBytes (plan ctx))"
    unfolding tot by (rule slice_row [OF assms(3) in_slice])
  have room: "unat (registeredBase ws) + unat (registeredBytes (plan ctx)) < 2 ^ 64"
    using assms(2) by (simp add: workspace_fits_def)
  have n: "unat (word_of_nat slc :: size_t) = slc" using assms(3,4) by (intro unat_word_of_nat_size) simp
  have m: "unat (word_of_nat slc * registeredSliceBytes (plan ctx)) = slc * ?r"
    using le room by (subst unat_mult_exact) (simp_all add: n)
  have b: "unat (registeredBase ws + word_of_nat slc * registeredSliceBytes (plan ctx)) = unat (registeredBase ws) + slc * ?r"
    using le room by (subst unat_add_exact) (simp_all add: m)
  have "unat (registeredBase ws + word_of_nat slc * registeredSliceBytes (plan ctx) + offset (temps (plan ctx) ! t))
      = unat (registeredBase ws) + slc * ?r + temp_begin (plan ctx) t"
    using le room by (subst unat_add_exact) (simp_all add: b temp_begin_def)
  moreover have "storage (temps (plan ctx) ! t) \<noteq> RawRing" using assms(5) by (simp add: arena_item_def)
  ultimately show "temp_at ctx ws slc t = unat (registeredBase ws) + slc * ?r + temp_begin (plan ctx) t"
    by (simp add: temp_at_def tempPtr_def Let_def)
qed

lemma ring_address:
  assumes "workspace_safe (plan ctx) (depth ctx)" and "workspace_fits ctx ws" and "ring_item (plan ctx) t"
  shows "temp_at ctx ws slc t = unat (rawBase ws) + temp_begin (plan ctx) t + slc mod 2 * temp_size (plan ctx) t"
    and "temp_begin (plan ctx) t + slc mod 2 * temp_size (plan ctx) t + temp_size (plan ctx) t \<le> unat (rawBytes (plan ctx))"
proof -
  let ?p = "slc mod 2" and ?b = "temp_begin (plan ctx) t" and ?n = "temp_size (plan ctx) t"
  have in_ring: "?b + 2 * ?n \<le> unat (rawBytes (plan ctx))" using assms(1,3) by (auto simp: workspace_safe_def)
  have "?p + 1 \<le> 2" by (simp add: Suc_le_eq mod_less_divisor)
  then have "(?p + 1) * ?n \<le> 2 * ?n" by (rule mult_le_mono1)
  then have p: "?p * ?n + ?n \<le> 2 * ?n" by simp
  then show le: "?b + ?p * ?n + ?n \<le> unat (rawBytes (plan ctx))" using in_ring by linarith
  have room: "unat (rawBase ws) + unat (rawBytes (plan ctx)) < 2 ^ 64"
    using assms(2) by (simp add: workspace_fits_def)
  have off: "unat (offset (temps (plan ctx) ! t)) = ?b" and al: "unat (alignedBytes (temps (plan ctx) ! t)) = ?n"
    by (simp_all add: temp_begin_def temp_size_def)
  have n: "unat (word_of_nat ?p :: size_t) = ?p" by (intro unat_word_of_nat_size) (simp add: mod_less_divisor less_trans)
  have b: "unat (rawBase ws + offset (temps (plan ctx) ! t)) = unat (rawBase ws) + ?b"
    using le room by (subst unat_add_exact) (simp_all add: off)
  have m: "unat (word_of_nat ?p * alignedBytes (temps (plan ctx) ! t)) = ?p * ?n"
    using le room by (subst unat_mult_exact) (simp_all add: n al)
  have "unat (rawBase ws + offset (temps (plan ctx) ! t) + word_of_nat ?p * alignedBytes (temps (plan ctx) ! t))
      = unat (rawBase ws) + ?b + ?p * ?n"
    using le room by (subst unat_add_exact) (simp_all add: b m)
  moreover have "storage (temps (plan ctx) ! t) = RawRing" using assms(3) by (simp add: ring_item_def)
  ultimately show "temp_at ctx ws slc t = unat (rawBase ws) + ?b + ?p * ?n"
    by (simp add: temp_at_def tempPtr_def Let_def kCocclPipelineRawRingSlots_def)
qed

lemma arena_pairs:
  assumes "workspace_safe (plan ctx) (depth ctx)" and "workspace_fits ctx ws" and "slc < depth ctx" and "slc' < depth ctx"
    and "depth ctx < 2 ^ 64" and "arena_item (plan ctx) t" and "arena_item (plan ctx) u"
    and "slc \<noteq> slc' \<or> u = Suc t \<or> t = Suc u"
  shows "disjoint_ranges (temp_at ctx ws slc t) (temp_size (plan ctx) t) (temp_at ctx ws slc' u) (temp_size (plan ctx) u)"
proof -
  let ?r = "unat (registeredSliceBytes (plan ctx))"
  note at = arena_address(1) [OF assms(1,2,3,5,6)] and at' = arena_address(1) [OF assms(1,2,4,5,7)]
  have fit: "temp_begin (plan ctx) v + temp_size (plan ctx) v \<le> ?r" if "arena_item (plan ctx) v" for v
    using assms(1) that by (auto simp: workspace_safe_def)
  have adj: "disjoint_ranges (temp_begin (plan ctx) v) (temp_size (plan ctx) v)
      (temp_begin (plan ctx) (Suc v)) (temp_size (plan ctx) (Suc v))"
    if "arena_item (plan ctx) v" "arena_item (plan ctx) (Suc v)" for v
    using assms(1) that by (auto simp: workspace_safe_def)
  show ?thesis
  proof (cases "slc = slc'")
    case True
    with assms(6,7,8) adj have "disjoint_ranges (temp_begin (plan ctx) t) (temp_size (plan ctx) t)
        (temp_begin (plan ctx) u) (temp_size (plan ctx) u)"
      by (auto intro: disjoint_ranges_sym)
    then show ?thesis unfolding at at' by (simp add: True disjoint_ranges_shift)
  next
    case False
    then consider "slc < slc'" | "slc' < slc" by linarith
    then show ?thesis
    proof cases
      case 1
      then have "slc * ?r + temp_begin (plan ctx) t + temp_size (plan ctx) t \<le> slc' * ?r"
        by (rule slice_row) (rule fit [OF assms(6)])
      then show ?thesis unfolding at at' by (simp add: disjoint_ranges_def)
    next
      case 2
      then have "slc' * ?r + temp_begin (plan ctx) u + temp_size (plan ctx) u \<le> slc * ?r"
        by (rule slice_row) (rule fit [OF assms(7)])
      then show ?thesis unfolding at at' by (simp add: disjoint_ranges_def)
    qed
  qed
qed

lemma ring_pairs:
  assumes "workspace_safe (plan ctx) (depth ctx)" and "workspace_fits ctx ws"
    and "ring_item (plan ctx) t" and "ring_item (plan ctx) u" and "t \<noteq> u \<or> slc mod 2 \<noteq> slc' mod 2"
  shows "disjoint_ranges (temp_at ctx ws slc t) (temp_size (plan ctx) t) (temp_at ctx ws slc' u) (temp_size (plan ctx) u)"
proof (cases "t = u")
  case True
  with assms(5) have "slc mod 2 = 0 \<and> slc' mod 2 = 1 \<or> slc mod 2 = 1 \<and> slc' mod 2 = 0" by linarith
  with True show ?thesis
    using ring_address(1) [OF assms(1,2,3), of slc] ring_address(1) [OF assms(1,2,4), of slc']
    by (auto simp: disjoint_ranges_def)
next
  case False
  have half: "slc mod 2 * n \<le> n" for slc n :: nat
  proof -
    have "slc mod 2 \<le> 1" using mod_less_divisor [of 2 slc] by linarith
    then have "slc mod 2 * n \<le> 1 * n" by (rule mult_le_mono1)
    then show ?thesis by simp
  qed
  have le: "slc mod 2 * temp_size (plan ctx) t \<le> temp_size (plan ctx) t"
    "slc' mod 2 * temp_size (plan ctx) u \<le> temp_size (plan ctx) u" by (rule half)+
  have "disjoint_ranges (temp_begin (plan ctx) t) (2 * temp_size (plan ctx) t)
      (temp_begin (plan ctx) u) (2 * temp_size (plan ctx) u)"
    using assms(1,3,4) False by (auto simp: workspace_safe_def)
  then show ?thesis
    using ring_address(1) [OF assms(1,2,3), of slc] ring_address(1) [OF assms(1,2,4), of slc'] le
    unfolding disjoint_ranges_def by linarith
qed

lemma arena_ring_pair:
  assumes "workspace_safe (plan ctx) (depth ctx)" and "workspace_fits ctx ws" and "slc < depth ctx" and "depth ctx < 2 ^ 64"
    and "arena_item (plan ctx) t" and "ring_item (plan ctx) u"
  shows "disjoint_ranges (temp_at ctx ws slc t) (temp_size (plan ctx) t) (temp_at ctx ws slc' u) (temp_size (plan ctx) u)"
  using arena_address [OF assms(1-5)] ring_address [OF assms(1,2,6), of slc'] assms(2)
  by (auto simp: disjoint_ranges_def workspace_fits_def)

text \<open>
  C21: the addresses the executor computes. In a prepared pipeline whose two buffers were acquired, a
  temporary of one slice and a temporary of another (or its neighbour in the same slice) never
  overlap; the only exceptions are those of \<open>may_share\<close>. Each temporary lies in its buffer.
\<close>

theorem temporaries_do_not_collide:
  assumes "cocclPreparePipeline cs sp d = Inr ctx" and "workspace_fits ctx ws"
    and "slc < depth ctx" and "slc' < depth ctx" and "t < tempCount (plan ctx)" and "u < tempCount (plan ctx)"
    and "\<not> may_share (plan ctx) slc t slc' u"
  shows "disjoint_ranges (temp_at ctx ws slc t) (temp_size (plan ctx) t) (temp_at ctx ws slc' u) (temp_size (plan ctx) u)"
proof -
  have safe: "workspace_safe (plan ctx) (depth ctx)"
    using assms(1) by (rule prepare_planContext) (auto dest: planContext_ok(3))
  have d: "depth ctx < 2 ^ 64" using prepare_depth [OF assms(1)] by simp
  have item: "arena_item (plan ctx) v \<or> ring_item (plan ctx) v" if "v < tempCount (plan ctx)" for v
    using that by (cases "storage (temps (plan ctx) ! v)") (simp_all add: arena_item_def ring_item_def)
  consider "arena_item (plan ctx) t" "arena_item (plan ctx) u" | "ring_item (plan ctx) t" "ring_item (plan ctx) u"
    | "arena_item (plan ctx) t" "ring_item (plan ctx) u" | "ring_item (plan ctx) t" "arena_item (plan ctx) u"
    using item assms(5,6) by blast
  then show ?thesis
  proof cases
    case 1
    with assms(7) show ?thesis
      by (intro arena_pairs [OF safe assms(2-4) d]) (auto simp: may_share_def arena_item_def)
  next
    case 2
    with assms(7) show ?thesis
      by (intro ring_pairs [OF safe assms(2)]) (auto simp: may_share_def ring_item_def)
  next
    case 3
    then show ?thesis by (rule arena_ring_pair [OF safe assms(2,3) d])
  next
    case 4
    then show ?thesis by (intro disjoint_ranges_sym [OF arena_ring_pair [OF safe assms(2,4) d]])
  qed
qed

definition exampleWorkspace :: cocclPipelineWorkspace where
  "exampleWorkspace = \<lparr>registeredBase = 1048576, rawBase = 4194304\<rparr>"

theorem temporaries_do_not_collide_witness:
  "disjoint_ranges (temp_at exampleContext exampleWorkspace 0 0) (temp_size (plan exampleContext) 0)
     (temp_at exampleContext exampleWorkspace 1 0) (temp_size (plan exampleContext) 0)"
proof (rule temporaries_do_not_collide [OF example_context])
  have "(registeredBytes (plan exampleContext) \<le> 1048576 \<and> rawBytes (plan exampleContext) \<le> 1048576) = True"
    by code_simp
  then have "unat (registeredBytes (plan exampleContext)) \<le> 1048576" "unat (rawBytes (plan exampleContext)) \<le> 1048576"
    by (simp_all add: word_le_nat_alt)
  then show "workspace_fits exampleContext exampleWorkspace"
    by (simp add: workspace_fits_def exampleWorkspace_def disjoint_ranges_def)
  show "0 < depth exampleContext" "1 < depth exampleContext" "0 < tempCount (plan exampleContext)"
    "0 < tempCount (plan exampleContext)" by code_simp+
  show "\<not> may_share (plan exampleContext) 0 0 1 0" by code_simp
qed

end
