(* ===== verification/Pipeline_Schedule.thy ===== *)
theory Pipeline_Schedule
  imports Pipeline_Execute
begin

text \<open>
  Ordering of the overlapped run. The operations are issued by one host thread to streams that run
  concurrently; work on a stream starts after everything issued to it before, and after the events
  it was made to wait for. The semantics keeps, for every stream, the work known to precede its next
  operation, and for every event what was known when it was last recorded. Two pieces of work are
  ordered when the relation it builds connects them; otherwise they may run at the same time.
\<close>

section \<open>Streams and events\<close>

text \<open>\<open>None\<close> is the work the caller had enqueued on its stream.\<close>

record sched =
  known :: "stream_ref \<Rightarrow> work option set"
  snap :: "event_ref \<Rightarrow> work option set"
  direct :: "(work option \<times> work option) set"

fun schedStep :: "pipeline_op \<Rightarrow> sched \<Rightarrow> sched" where
  "schedStep (RecordOp ev strm) st = st\<lparr>snap := (snap st)(ev := known st strm)\<rparr>"
| "schedStep (WaitOp strm ev) st = st\<lparr>known := (known st)(strm := known st strm \<union> snap st ev)\<rparr>"
| "schedStep (StartOp slc) st = st"
| "schedStep (WorkOp wk strm) st = st\<lparr>known := (known st)(strm := insert (Some wk) (known st strm)),
     direct := direct st \<union> (\<lambda>x. (x, Some wk)) ` known st strm\<rparr>"

definition schedOps :: "pipeline_op list \<Rightarrow> sched \<Rightarrow> sched" where
  "schedOps ops st = fold schedStep ops st"

definition schedStart :: sched where
  "schedStart = \<lparr>known = (\<lambda>s. if s = UserStream then {None} else {}), snap = (\<lambda>_. {}), direct = {}\<rparr>"

definition happensBefore :: "pipeline_op list \<Rightarrow> work option \<Rightarrow> work option \<Rightarrow> bool" where
  "happensBefore ops a b \<longleftrightarrow> (a, b) \<in> (direct (schedOps ops schedStart))\<^sup>+"

lemma schedOps_simps [simp]:
  "schedOps [] st = st" "schedOps (op # ops) st = schedOps ops (schedStep op st)"
  "schedOps (xs @ ys) st = schedOps ys (schedOps xs st)"
  by (simp_all add: schedOps_def)

text \<open>Knowledge and the relation only grow; a snapshot changes only when its event is recorded.\<close>

definition grows :: "sched \<Rightarrow> sched \<Rightarrow> bool" where
  "grows a b \<longleftrightarrow> (\<forall>s. known a s \<subseteq> known b s) \<and> direct a \<subseteq> direct b"

lemma grows_refl [simp]: "grows a a"
  by (simp add: grows_def)

lemma grows_trans: "grows a b \<Longrightarrow> grows b c \<Longrightarrow> grows a c"
  unfolding grows_def by blast

lemma schedStep_grows: "grows st (schedStep op st)"
  by (cases op) (auto simp: grows_def)

lemma schedOps_grows: "grows st (schedOps ops st)"
proof (induction ops arbitrary: st)
  case (Cons op ops)
  show ?case unfolding schedOps_simps by (rule grows_trans [OF schedStep_grows Cons.IH])
qed simp

lemma schedOps_known: "x \<in> known st s \<Longrightarrow> x \<in> known (schedOps ops st) s"
  using schedOps_grows [of st ops] by (auto simp: grows_def)

lemma schedOps_direct: "p \<in> direct st \<Longrightarrow> p \<in> direct (schedOps ops st)"
  using schedOps_grows [of st ops] by (auto simp: grows_def)

lemma schedOps_snap:
  "(\<And>strm. RecordOp ev strm \<notin> set ops) \<Longrightarrow> snap (schedOps ops st) ev = snap st ev"
proof (induction ops arbitrary: st)
  case (Cons op ops)
  have "snap (schedStep op st) ev = snap st ev" using Cons.prems by (cases op) auto
  with Cons show ?case by simp
qed simp

section \<open>The operations of a slice\<close>

abbreviation slot :: "nat \<Rightarrow> nat" where
  "slot slc \<equiv> slc mod kCocclPipelineRawRingSlots"

definition packKnown :: "cocclPipelineContext \<Rightarrow> nat \<Rightarrow> sched \<Rightarrow> work option set" where
  "packKnown ctx slc st = known st (PhaseStream PhasePack) \<union>
     (if reusesInputRaw ctx \<and> slc \<ge> kCocclPipelineRawRingSlots then snap st (InputRawConsumed (slot slc)) else {})"

lemma packOps_effect:
  "schedOps (packOps ctx slc) st =
     (if stagesIn ctx
      then st\<lparr>known := (known st)(PhaseStream PhasePack := insert (Some (PackWork slc)) (packKnown ctx slc st)),
              snap := (snap st)(PhaseEvent PhasePack slc := insert (Some (PackWork slc)) (packKnown ctx slc st)),
              direct := direct st \<union> (\<lambda>x. (x, Some (PackWork slc))) ` packKnown ctx slc st\<rparr>
      else st)"
  by (simp add: packOps_def packKnown_def)

definition stageKnown :: "cocclPipelineContext \<Rightarrow> nat \<Rightarrow> nat \<Rightarrow> sched \<Rightarrow> work option set" where
  "stageKnown ctx slc stage st = known st (PhaseStream (Suc stage)) \<union>
     (if stage \<noteq> 0 \<or> stagesIn ctx then snap st (PhaseEvent stage slc) else {}) \<union>
     (if reusesOutputRaw ctx \<and> Suc stage = stageCount ctx \<and> slc \<ge> kCocclPipelineRawRingSlots
      then snap st (OutputRawConsumed (slot slc)) else {})"

lemma guarded_work_effect:
  "schedOps ((if a then [WaitOp s e1] else []) @ (if b then [WaitOp s e2] else []) @ [WorkOp wk s] @
       (if c then [RecordOp e3 s] else []) @ [RecordOp e4 s]) st =
     (st\<lparr>known := (known st)(s := insert (Some wk) (known st s \<union> (if a then snap st e1 else {}) \<union> (if b then snap st e2 else {}))),
         snap := (if c then (snap st)(e3 := insert (Some wk) (known st s \<union> (if a then snap st e1 else {}) \<union> (if b then snap st e2 else {}))) else snap st)
           (e4 := insert (Some wk) (known st s \<union> (if a then snap st e1 else {}) \<union> (if b then snap st e2 else {}))),
         direct := direct st \<union> (\<lambda>x. (x, Some wk)) ` (known st s \<union> (if a then snap st e1 else {}) \<union> (if b then snap st e2 else {}))\<rparr>)"
  by simp

lemma stageOps_effect:
  "schedOps (stageOps ctx slc stage) st =
     (let k = stageKnown ctx slc stage st; k' = insert (Some (StageWork stage slc)) k in
      st\<lparr>known := (known st)(PhaseStream (Suc stage) := k'),
         snap := (if reusesInputRaw ctx \<and> stage = 0 then (snap st)(InputRawConsumed (slot slc) := k') else snap st)
           (PhaseEvent (Suc stage) slc := k'),
         direct := direct st \<union> (\<lambda>x. (x, Some (StageWork stage slc))) ` k\<rparr>)"
proof -
  have p: "PhaseFirstStage + stage = Suc stage" "Suc stage - 1 = stage" by (simp_all add: PhaseFirstStage_def)
  show ?thesis
    unfolding stageOps_def Let_def p guarded_work_effect stageKnown_def ..
qed

definition unpackKnown :: "cocclPipelineContext \<Rightarrow> nat \<Rightarrow> sched \<Rightarrow> work option set" where
  "unpackKnown ctx slc st = known st (PhaseStream PhaseUnpack) \<union> snap st (PhaseEvent (finalStagePhase ctx) slc)"

lemma unpackOps_effect:
  "schedOps (unpackOps ctx slc) st =
     (if stagesOut ctx
      then let k = unpackKnown ctx slc st; k' = insert (Some (UnpackWork slc)) k;
               sn = (if reusesOutputRaw ctx then (snap st)(OutputRawConsumed (slot slc) := k') else snap st) in
        st\<lparr>known := (known st)(PhaseStream PhaseUnpack := k'),
           snap := (if slc = depth ctx - 1 then sn(PhaseEvent PhaseUnpack slc := k') else sn),
           direct := direct st \<union> (\<lambda>x. (x, Some (UnpackWork slc))) ` k\<rparr>
      else st)"
  by (simp add: unpackOps_def unpackKnown_def Let_def)

section \<open>One slice\<close>

text \<open>The phases a pipeline has, and the work of a phase for a slice.\<close>

definition activePhase :: "cocclPipelineContext \<Rightarrow> nat \<Rightarrow> bool" where
  "activePhase ctx p \<longleftrightarrow> (p = PhasePack \<and> stagesIn ctx) \<or> (1 \<le> p \<and> p \<le> stageCount ctx) \<or> (p = PhaseUnpack \<and> stagesOut ctx)"

definition phaseWork :: "nat \<Rightarrow> nat \<Rightarrow> work" where
  "phaseWork p slc = (if p = PhasePack then PackWork slc else if p = PhaseUnpack then UnpackWork slc else StageWork (p - 1) slc)"

lemma phaseWork_simps [simp]:
  "phaseWork 0 slc = PackWork slc" "phaseWork 8 slc = UnpackWork slc" "phaseWork PhaseUnpack slc = UnpackWork slc"
  "i < 7 \<Longrightarrow> phaseWork (Suc i) slc = StageWork i slc"
  by (simp_all add: phaseWork_def phase_defs pipeline_constants)

text \<open>The state after the pack and \<open>j\<close> stages of a slice, against the state the slice started from.\<close>

definition stages_done :: "cocclPipelineContext \<Rightarrow> nat \<Rightarrow> sched \<Rightarrow> nat \<Rightarrow> sched \<Rightarrow> bool" where
  "stages_done ctx slc st0 j st \<longleftrightarrow>
     grows st0 st \<and>
     (\<forall>p > j. known st (PhaseStream p) = known st0 (PhaseStream p)) \<and>
     (j \<noteq> 0 \<or> stagesIn ctx \<longrightarrow> Some (phaseWork j slc) \<in> snap st (PhaseEvent j slc)) \<and>
     (\<forall>i < j. (\<forall>x \<in> known st0 (PhaseStream (Suc i)). (x, Some (StageWork i slc)) \<in> direct st) \<and>
        Some (StageWork i slc) \<in> known st (PhaseStream (Suc i)) \<and>
        (i \<noteq> 0 \<or> stagesIn ctx \<longrightarrow> (Some (phaseWork i slc), Some (StageWork i slc)) \<in> direct st)) \<and>
     (stagesIn ctx \<longrightarrow> (\<forall>x \<in> packKnown ctx slc st0. (x, Some (PackWork slc)) \<in> direct st) \<and>
        Some (PackWork slc) \<in> known st (PhaseStream 0)) \<and>
     (\<forall>s. snap st (OutputRawConsumed s) = snap st0 (OutputRawConsumed s)) \<and>
     (\<forall>s. s \<noteq> slot slc \<or> j = 0 \<or> \<not> reusesInputRaw ctx \<longrightarrow> snap st (InputRawConsumed s) = snap st0 (InputRawConsumed s)) \<and>
     (j \<noteq> 0 \<and> reusesInputRaw ctx \<longrightarrow> Some (StageWork 0 slc) \<in> snap st (InputRawConsumed (slot slc))) \<and>
     (j = stageCount ctx \<and> reusesOutputRaw ctx \<and> kCocclPipelineRawRingSlots \<le> slc \<and> 0 < j \<longrightarrow>
        (\<forall>x \<in> snap st0 (OutputRawConsumed (slot slc)). (x, Some (StageWork (j - 1) slc)) \<in> direct st))"

lemma stages_done_0: "stages_done ctx slc st0 0 (schedOps (packOps ctx slc) st0)"
  unfolding stages_done_def packOps_effect
  by (auto simp: grows_def phase_defs packKnown_def phaseWork_def)

lemma stages_done_step:
  assumes inv: "stages_done ctx slc st0 j st" and "j < stageCount ctx" and "stageCount ctx \<le> 7"
  shows "stages_done ctx slc st0 (Suc j) (schedOps (stageOps ctx slc j) st)"
proof -
  let ?w = "Some (StageWork j slc)"
  let ?k = "stageKnown ctx slc j st"
  let ?st = "schedOps (stageOps ctx slc j) st"
  have eff: "known ?st = (known st)(PhaseStream (Suc j) := insert ?w ?k)"
    "direct ?st = direct st \<union> (\<lambda>x. (x, ?w)) ` ?k"
    "snap ?st = (if reusesInputRaw ctx \<and> j = 0 then (snap st)(InputRawConsumed (slot slc) := insert ?w ?k) else snap st)
        (PhaseEvent (Suc j) slc := insert ?w ?k)"
    by (simp_all add: stageOps_effect Let_def)
  have g: "grows st ?st" by (rule schedOps_grows)
  have g0: "grows st0 st" and above: "p > j \<Longrightarrow> known st (PhaseStream p) = known st0 (PhaseStream p)"
    and prev: "j \<noteq> 0 \<or> stagesIn ctx \<Longrightarrow> Some (phaseWork j slc) \<in> snap st (PhaseEvent j slc)"
    and outs: "snap st (OutputRawConsumed s) = snap st0 (OutputRawConsumed s)"
    and ins: "s \<noteq> slot slc \<or> j = 0 \<or> \<not> reusesInputRaw ctx \<Longrightarrow> snap st (InputRawConsumed s) = snap st0 (InputRawConsumed s)"
    and first: "j \<noteq> 0 \<Longrightarrow> reusesInputRaw ctx \<Longrightarrow> Some (StageWork 0 slc) \<in> snap st (InputRawConsumed (slot slc))" for p s
    using inv unfolding stages_done_def by blast+
  have earlier: "i < j \<Longrightarrow> (\<forall>x \<in> known st0 (PhaseStream (Suc i)). (x, Some (StageWork i slc)) \<in> direct st) \<and>
        Some (StageWork i slc) \<in> known st (PhaseStream (Suc i)) \<and>
        (i \<noteq> 0 \<or> stagesIn ctx \<longrightarrow> (Some (phaseWork i slc), Some (StageWork i slc)) \<in> direct st)" for i
    using inv unfolding stages_done_def by blast
  have pack: "stagesIn ctx \<Longrightarrow> (\<forall>x \<in> packKnown ctx slc st0. (x, Some (PackWork slc)) \<in> direct st) \<and>
        Some (PackWork slc) \<in> known st (PhaseStream 0)"
    using inv unfolding stages_done_def by blast
  have pw: "phaseWork (Suc j) slc = StageWork j slc" using assms(2,3) by simp
  have d: "x \<in> direct st \<Longrightarrow> x \<in> direct ?st" and kn: "y \<in> known st s \<Longrightarrow> y \<in> known ?st s" for x y s
    using g by (auto simp: grows_def)
  have now: "(\<forall>x \<in> known st0 (PhaseStream (Suc j)). (x, ?w) \<in> direct ?st) \<and> ?w \<in> known ?st (PhaseStream (Suc j)) \<and>
      (j \<noteq> 0 \<or> stagesIn ctx \<longrightarrow> (Some (phaseWork j slc), ?w) \<in> direct ?st)"
    using prev above [of "Suc j"] by (auto simp: eff stageKnown_def)
  show ?thesis
    unfolding stages_done_def
  proof (intro conjI)
    show "grows st0 ?st" by (rule grows_trans [OF g0 g])
    show "\<forall>p > Suc j. known ?st (PhaseStream p) = known st0 (PhaseStream p)"
      using above by (simp add: eff)
    show "Suc j \<noteq> 0 \<or> stagesIn ctx \<longrightarrow> Some (phaseWork (Suc j) slc) \<in> snap ?st (PhaseEvent (Suc j) slc)"
      by (simp add: eff pw)
    show "\<forall>i < Suc j. (\<forall>x \<in> known st0 (PhaseStream (Suc i)). (x, Some (StageWork i slc)) \<in> direct ?st) \<and>
        Some (StageWork i slc) \<in> known ?st (PhaseStream (Suc i)) \<and>
        (i \<noteq> 0 \<or> stagesIn ctx \<longrightarrow> (Some (phaseWork i slc), Some (StageWork i slc)) \<in> direct ?st)"
      using earlier now d kn unfolding less_Suc_eq by blast
    show "stagesIn ctx \<longrightarrow> (\<forall>x \<in> packKnown ctx slc st0. (x, Some (PackWork slc)) \<in> direct ?st) \<and>
        Some (PackWork slc) \<in> known ?st (PhaseStream 0)"
      using pack d kn by blast
    show "\<forall>s. snap ?st (OutputRawConsumed s) = snap st0 (OutputRawConsumed s)"
      using outs by (simp add: eff)
    show "\<forall>s. s \<noteq> slot slc \<or> Suc j = 0 \<or> \<not> reusesInputRaw ctx \<longrightarrow>
        snap ?st (InputRawConsumed s) = snap st0 (InputRawConsumed s)"
      using ins by (simp add: eff)
    show "Suc j \<noteq> 0 \<and> reusesInputRaw ctx \<longrightarrow> Some (StageWork 0 slc) \<in> snap ?st (InputRawConsumed (slot slc))"
      unfolding eff using first by (cases "j = 0") simp_all
    show "Suc j = stageCount ctx \<and> reusesOutputRaw ctx \<and> kCocclPipelineRawRingSlots \<le> slc \<and> 0 < Suc j \<longrightarrow>
        (\<forall>x \<in> snap st0 (OutputRawConsumed (slot slc)). (x, Some (StageWork (Suc j - 1) slc)) \<in> direct ?st)"
    proof (intro impI ballI)
      fix x
      assume c: "Suc j = stageCount ctx \<and> reusesOutputRaw ctx \<and> kCocclPipelineRawRingSlots \<le> slc \<and> 0 < Suc j"
        and x: "x \<in> snap st0 (OutputRawConsumed (slot slc))"
      have "x \<in> ?k" using c x outs unfolding stageKnown_def by simp
      then show "(x, Some (StageWork (Suc j - 1) slc)) \<in> direct ?st" by (simp add: eff)
    qed
  qed
qed

lemma stages_done_all:
  assumes "stageCount ctx \<le> 7" and "j \<le> stageCount ctx"
  shows "stages_done ctx slc st0 j (schedOps (concat (map (stageOps ctx slc) [0..<j])) (schedOps (packOps ctx slc) st0))"
  using assms(2)
proof (induction j)
  case 0
  then show ?case by (simp add: stages_done_0)
next
  case (Suc j)
  with stages_done_step [OF Suc.IH _ assms(1)] show ?case by simp
qed

text \<open>
  A whole slice: every phase follows the earlier slices on its stream and the previous phase of the
  slice; the pack and the last stage follow what their ring slot's events had recorded; and the
  events of the slice's slot are recorded anew.
\<close>

definition slice_done :: "cocclPipelineContext \<Rightarrow> nat \<Rightarrow> sched \<Rightarrow> sched \<Rightarrow> bool" where
  "slice_done ctx slc st0 st \<longleftrightarrow>
     grows st0 st \<and>
     (\<forall>p. activePhase ctx p \<longrightarrow> (\<forall>x \<in> known st0 (PhaseStream p). (x, Some (phaseWork p slc)) \<in> direct st) \<and>
        Some (phaseWork p slc) \<in> known st (PhaseStream p)) \<and>
     (\<forall>i < stageCount ctx. i \<noteq> 0 \<or> stagesIn ctx \<longrightarrow> (Some (phaseWork i slc), Some (phaseWork (Suc i) slc)) \<in> direct st) \<and>
     (stagesOut ctx \<longrightarrow> (Some (phaseWork (stageCount ctx) slc), Some (UnpackWork slc)) \<in> direct st) \<and>
     (reusesInputRaw ctx \<longrightarrow> Some (StageWork 0 slc) \<in> snap st (InputRawConsumed (slot slc))) \<and>
     (reusesInputRaw ctx \<and> kCocclPipelineRawRingSlots \<le> slc \<longrightarrow>
        (\<forall>x \<in> snap st0 (InputRawConsumed (slot slc)). (x, Some (PackWork slc)) \<in> direct st)) \<and>
     (\<forall>s. s \<noteq> slot slc \<longrightarrow> snap st (InputRawConsumed s) = snap st0 (InputRawConsumed s)) \<and>
     (reusesOutputRaw ctx \<longrightarrow> Some (UnpackWork slc) \<in> snap st (OutputRawConsumed (slot slc))) \<and>
     (reusesOutputRaw ctx \<and> kCocclPipelineRawRingSlots \<le> slc \<longrightarrow>
        (\<forall>x \<in> snap st0 (OutputRawConsumed (slot slc)). (x, Some (StageWork (stageCount ctx - 1) slc)) \<in> direct st)) \<and>
     (\<forall>s. s \<noteq> slot slc \<longrightarrow> snap st (OutputRawConsumed s) = snap st0 (OutputRawConsumed s)) \<and>
     Some (phaseWork (stageCount ctx) slc) \<in> snap st (PhaseEvent (stageCount ctx) slc) \<and>
     (stagesOut ctx \<and> slc = depth ctx - 1 \<longrightarrow> Some (UnpackWork slc) \<in> snap st (PhaseEvent PhaseUnpack slc))"

lemma slice_doneD:
  assumes "slice_done ctx slc st0 st"
  shows "grows st0 st"
    and "\<forall>p. activePhase ctx p \<longrightarrow> (\<forall>x \<in> known st0 (PhaseStream p). (x, Some (phaseWork p slc)) \<in> direct st) \<and>
        Some (phaseWork p slc) \<in> known st (PhaseStream p)"
    and "\<forall>i < stageCount ctx. i \<noteq> 0 \<or> stagesIn ctx \<longrightarrow> (Some (phaseWork i slc), Some (phaseWork (Suc i) slc)) \<in> direct st"
    and "stagesOut ctx \<longrightarrow> (Some (phaseWork (stageCount ctx) slc), Some (UnpackWork slc)) \<in> direct st"
    and "reusesInputRaw ctx \<longrightarrow> Some (StageWork 0 slc) \<in> snap st (InputRawConsumed (slot slc))"
    and "reusesInputRaw ctx \<and> kCocclPipelineRawRingSlots \<le> slc \<longrightarrow>
        (\<forall>x \<in> snap st0 (InputRawConsumed (slot slc)). (x, Some (PackWork slc)) \<in> direct st)"
    and "\<forall>s. s \<noteq> slot slc \<longrightarrow> snap st (InputRawConsumed s) = snap st0 (InputRawConsumed s)"
    and "reusesOutputRaw ctx \<longrightarrow> Some (UnpackWork slc) \<in> snap st (OutputRawConsumed (slot slc))"
    and "reusesOutputRaw ctx \<and> kCocclPipelineRawRingSlots \<le> slc \<longrightarrow>
        (\<forall>x \<in> snap st0 (OutputRawConsumed (slot slc)). (x, Some (StageWork (stageCount ctx - 1) slc)) \<in> direct st)"
    and "\<forall>s. s \<noteq> slot slc \<longrightarrow> snap st (OutputRawConsumed s) = snap st0 (OutputRawConsumed s)"
    and "Some (phaseWork (stageCount ctx) slc) \<in> snap st (PhaseEvent (stageCount ctx) slc)"
    and "stagesOut ctx \<and> slc = depth ctx - 1 \<longrightarrow> Some (UnpackWork slc) \<in> snap st (PhaseEvent PhaseUnpack slc)"
  using assms unfolding slice_done_def by - (elim conjE, assumption)+

lemma sliceOps_done:
  assumes n: "0 < stageCount ctx" "stageCount ctx \<le> 7"
  shows "slice_done ctx slc st0 (schedOps (sliceOps ctx slc) st0)"
proof -
  let ?n = "stageCount ctx"
  define st1 where "st1 = schedOps (concat (map (stageOps ctx slc) [0..<?n])) (schedOps (packOps ctx slc) st0)"
  let ?st = "schedOps (unpackOps ctx slc) st1"
  have run: "schedOps (sliceOps ctx slc) st0 = ?st" by (simp add: sliceOps_def st1_def)
  have inv: "stages_done ctx slc st0 ?n st1" unfolding st1_def by (rule stages_done_all [OF n(2)]) simp
  have g1: "grows st1 ?st" by (rule schedOps_grows)
  have d: "x \<in> direct st1 \<Longrightarrow> x \<in> direct ?st" and kn: "y \<in> known st1 s \<Longrightarrow> y \<in> known ?st s" for x y s
    using g1 by (auto simp: grows_def)
  have u: "PhaseUnpack = 8" by (simp add: phase_defs pipeline_constants)
  have fp: "finalStagePhase ctx = ?n" using n by (simp add: finalStagePhase_def PhaseFirstStage_def)
  have sn: "snap ?st (InputRawConsumed s) = snap st1 (InputRawConsumed s)"
    "s \<noteq> slot slc \<Longrightarrow> snap ?st (OutputRawConsumed s) = snap st1 (OutputRawConsumed s)"
    "snap ?st (PhaseEvent ?n slc) = snap st1 (PhaseEvent ?n slc)" for s
    using n by (simp_all add: unpackOps_effect Let_def u)
  have last: "Some (phaseWork ?n slc) \<in> snap st1 (PhaseEvent ?n slc)" using inv n by (simp add: stages_done_def)
  have k8: "known st1 (PhaseStream 8) = known st0 (PhaseStream 8)"
    using inv n(2) unfolding stages_done_def by auto
  have pk: "stagesIn ctx \<Longrightarrow> x \<in> packKnown ctx slc st0 \<Longrightarrow> (x, Some (PackWork slc)) \<in> direct st1"
    "stagesIn ctx \<Longrightarrow> Some (PackWork slc) \<in> known st1 (PhaseStream 0)" for x
    using inv unfolding stages_done_def by blast+
  have out: "Some (UnpackWork slc) \<in> known ?st (PhaseStream PhaseUnpack)"
      "(Some (phaseWork ?n slc), Some (UnpackWork slc)) \<in> direct ?st"
      "x \<in> known st0 (PhaseStream PhaseUnpack) \<Longrightarrow> (x, Some (UnpackWork slc)) \<in> direct ?st"
      "slc = depth ctx - 1 \<Longrightarrow> Some (UnpackWork slc) \<in> snap ?st (PhaseEvent PhaseUnpack slc)"
    if "stagesOut ctx" for x
    using that last k8 by (simp_all add: unpackOps_effect Let_def unpackKnown_def fp u)
  have ring: "Some (UnpackWork slc) \<in> snap ?st (OutputRawConsumed (slot slc))" if "reusesOutputRaw ctx"
    using that by (simp add: unpackOps_effect Let_def reusesOutputRaw_def)
  have phase: "(\<forall>x \<in> known st0 (PhaseStream p). (x, Some (phaseWork p slc)) \<in> direct ?st) \<and>
        Some (phaseWork p slc) \<in> known ?st (PhaseStream p)" if "activePhase ctx p" for p
  proof -
    from that consider "p = 0" "stagesIn ctx" | i where "p = Suc i" "i < ?n" | "p = 8" "stagesOut ctx"
      by (cases p) (auto simp: activePhase_def phase_defs pipeline_constants)
    then show ?thesis
    proof cases
      case 1
      moreover have "known st0 (PhaseStream 0) \<subseteq> packKnown ctx slc st0" by (auto simp: packKnown_def phase_defs)
      ultimately show ?thesis using pk d kn by auto
    next
      case 2
      then have "(\<forall>x \<in> known st0 (PhaseStream (Suc i)). (x, Some (StageWork i slc)) \<in> direct st1) \<and>
          Some (StageWork i slc) \<in> known st1 (PhaseStream (Suc i))"
        using inv unfolding stages_done_def by blast
      with 2 n(2) d kn show ?thesis by simp
    next
      case 3
      then have p: "p = PhaseUnpack" by (simp add: u)
      show ?thesis unfolding p phaseWork_simps using out(1,3) 3(2) by blast
    qed
  qed
  have chain: "(Some (phaseWork i slc), Some (phaseWork (Suc i) slc)) \<in> direct ?st"
    if "i < ?n" "i \<noteq> 0 \<or> stagesIn ctx" for i
  proof -
    have "(Some (phaseWork i slc), Some (StageWork i slc)) \<in> direct st1"
      using inv that unfolding stages_done_def by blast
    with d that(1) n show ?thesis by simp
  qed
  have ring_in: "(x, Some (PackWork slc)) \<in> direct ?st"
    if "reusesInputRaw ctx" "kCocclPipelineRawRingSlots \<le> slc" "x \<in> snap st0 (InputRawConsumed (slot slc))" for x
    by (rule d [OF pk(1)]) (use that in \<open>simp_all add: packKnown_def reusesInputRaw_def\<close>)
  have ring_out: "(x, Some (StageWork (?n - 1) slc)) \<in> direct ?st"
    if "reusesOutputRaw ctx" "kCocclPipelineRawRingSlots \<le> slc" "x \<in> snap st0 (OutputRawConsumed (slot slc))" for x
    by (rule d) (use inv that n(1) in \<open>unfold stages_done_def, blast\<close>)
  have "grows st0 st1" using inv unfolding stages_done_def by blast
  from this g1 have "grows st0 ?st" by (rule grows_trans)
  moreover have "\<forall>s. s \<noteq> slot slc \<longrightarrow> snap ?st (InputRawConsumed s) = snap st0 (InputRawConsumed s)"
    "\<forall>s. s \<noteq> slot slc \<longrightarrow> snap ?st (OutputRawConsumed s) = snap st0 (OutputRawConsumed s)"
    "reusesInputRaw ctx \<longrightarrow> Some (StageWork 0 slc) \<in> snap ?st (InputRawConsumed (slot slc))"
    using inv n sn by (simp_all add: stages_done_def)
  moreover have "Some (phaseWork ?n slc) \<in> snap ?st (PhaseEvent ?n slc)" using last sn(3) by simp
  ultimately show ?thesis
    unfolding run slice_done_def using phase chain out ring ring_in ring_out by blast
qed

section \<open>All slices\<close>

definition firstPhase :: "cocclPipelineContext \<Rightarrow> nat" where
  "firstPhase ctx = (if stagesIn ctx then PhasePack else PhaseFirstStage)"

text \<open>The state after \<open>k\<close> slices: what is known, what is ordered, and what the ring events hold.\<close>

definition slices_known :: "cocclPipelineContext \<Rightarrow> nat \<Rightarrow> sched \<Rightarrow> bool" where
  "slices_known ctx k st \<longleftrightarrow>
     None \<in> known st (PhaseStream (firstPhase ctx)) \<and>
     (\<forall>p s. activePhase ctx p \<and> s < k \<longrightarrow> Some (phaseWork p s) \<in> known st (PhaseStream p)) \<and>
     (\<forall>s < k. k \<le> s + 2 \<and> reusesInputRaw ctx \<longrightarrow> Some (StageWork 0 s) \<in> snap st (InputRawConsumed (slot s))) \<and>
     (\<forall>s < k. k \<le> s + 2 \<and> reusesOutputRaw ctx \<longrightarrow> Some (UnpackWork s) \<in> snap st (OutputRawConsumed (slot s))) \<and>
     (0 < k \<longrightarrow> Some (phaseWork (stageCount ctx) (k - 1)) \<in> snap st (PhaseEvent (stageCount ctx) (k - 1))) \<and>
     (0 < k \<and> stagesOut ctx \<and> k = depth ctx \<longrightarrow> Some (UnpackWork (k - 1)) \<in> snap st (PhaseEvent PhaseUnpack (k - 1)))"

text \<open>The ordered pairs of a run with \<open>k\<close> slices.\<close>

definition run_order :: "cocclPipelineContext \<Rightarrow> nat \<Rightarrow> (work option \<times> work option) set \<Rightarrow> bool" where
  "run_order ctx k R \<longleftrightarrow>
     (\<forall>s < k. (None, Some (phaseWork (firstPhase ctx) s)) \<in> R) \<and>
     (\<forall>p s s'. activePhase ctx p \<and> s < s' \<and> s' < k \<longrightarrow> (Some (phaseWork p s), Some (phaseWork p s')) \<in> R) \<and>
     (\<forall>i s. i < stageCount ctx \<and> (i \<noteq> 0 \<or> stagesIn ctx) \<and> s < k \<longrightarrow>
        (Some (phaseWork i s), Some (phaseWork (Suc i) s)) \<in> R) \<and>
     (\<forall>s < k. stagesOut ctx \<longrightarrow> (Some (phaseWork (stageCount ctx) s), Some (UnpackWork s)) \<in> R) \<and>
     (\<forall>s. s + 2 < k \<and> reusesInputRaw ctx \<longrightarrow> (Some (StageWork 0 s), Some (PackWork (s + 2))) \<in> R) \<and>
     (\<forall>s. s + 2 < k \<and> reusesOutputRaw ctx \<longrightarrow>
        (Some (UnpackWork s), Some (StageWork (stageCount ctx - 1) (s + 2))) \<in> R)"

lemma firstPhase_active: "0 < stageCount ctx \<Longrightarrow> activePhase ctx (firstPhase ctx)"
  by (simp add: activePhase_def firstPhase_def PhaseFirstStage_def)

lemma slot_shift: "slot (s + 2) = slot s" "slot (Suc s) \<noteq> slot s"
  by (simp_all add: kCocclPipelineRawRingSlots_def) presburger

lemma slices_knownD:
  assumes "slices_known ctx k st"
  shows "None \<in> known st (PhaseStream (firstPhase ctx))"
    and "\<forall>p s. activePhase ctx p \<and> s < k \<longrightarrow> Some (phaseWork p s) \<in> known st (PhaseStream p)"
    and "\<forall>s < k. k \<le> s + 2 \<and> reusesInputRaw ctx \<longrightarrow> Some (StageWork 0 s) \<in> snap st (InputRawConsumed (slot s))"
    and "\<forall>s < k. k \<le> s + 2 \<and> reusesOutputRaw ctx \<longrightarrow> Some (UnpackWork s) \<in> snap st (OutputRawConsumed (slot s))"
    and "0 < k \<longrightarrow> Some (phaseWork (stageCount ctx) (k - 1)) \<in> snap st (PhaseEvent (stageCount ctx) (k - 1))"
    and "0 < k \<and> stagesOut ctx \<and> k = depth ctx \<longrightarrow> Some (UnpackWork (k - 1)) \<in> snap st (PhaseEvent PhaseUnpack (k - 1))"
  using assms unfolding slices_known_def by - (elim conjE, assumption)+

lemma slices_known_step:
  assumes inv: "slices_known ctx k st" and slc: "slice_done ctx k st st'"
  shows "slices_known ctx (Suc k) st'"
proof -
  note sd = slice_doneD [OF slc]
  have g: "x \<in> known st s \<Longrightarrow> x \<in> known st' s" for x s
    using sd(1) unfolding grows_def by blast
  have work: "activePhase ctx p \<Longrightarrow> Some (phaseWork p k) \<in> known st' (PhaseStream p)" for p
    using sd(2) by blast
  note ins = sd(5) [rule_format] and ins' = sd(7) [rule_format]
    and outs = sd(8) [rule_format] and outs' = sd(10) [rule_format]
    and fin = sd(11) and fin' = sd(12) [rule_format, OF conjI]
  have recent: "s = k \<or> (Suc s = k \<and> k \<le> s + 2 \<and> s < k \<and> slot s \<noteq> slot k)" if "s < Suc k" "Suc k \<le> s + 2" for s
  proof (cases "s = k")
    case False
    with that have "k = Suc s" by simp
    with slot_shift(2) [of s] show ?thesis by simp
  qed simp
  note known = slices_knownD [OF inv, rule_format]
  show ?thesis
    unfolding slices_known_def
  proof (intro conjI allI impI)
    show "None \<in> known st' (PhaseStream (firstPhase ctx))" by (rule g [OF known(1)])
    fix p s
    assume "activePhase ctx p \<and> s < Suc k"
    then show "Some (phaseWork p s) \<in> known st' (PhaseStream p)"
      using work [of p] g known(2) [of p s] by (auto simp: less_Suc_eq)
  next
    fix s assume "s < Suc k" "Suc k \<le> s + 2 \<and> reusesInputRaw ctx"
    with recent [of s] ins ins' [of "slot s"] known(3) [of s]
    show "Some (StageWork 0 s) \<in> snap st' (InputRawConsumed (slot s))" by auto
  next
    fix s assume "s < Suc k" "Suc k \<le> s + 2 \<and> reusesOutputRaw ctx"
    with recent [of s] outs outs' [of "slot s"] known(4) [of s]
    show "Some (UnpackWork s) \<in> snap st' (OutputRawConsumed (slot s))" by auto
  next
    show "Some (phaseWork (stageCount ctx) (Suc k - 1)) \<in> snap st' (PhaseEvent (stageCount ctx) (Suc k - 1))"
      using fin by simp
  next
    assume "0 < Suc k \<and> stagesOut ctx \<and> Suc k = depth ctx"
    then show "Some (UnpackWork (Suc k - 1)) \<in> snap st' (PhaseEvent PhaseUnpack (Suc k - 1))"
      using fin' by auto
  qed
qed

lemma run_order_step:
  assumes n: "0 < stageCount ctx" and inv: "slices_known ctx k st" and ord: "run_order ctx k (direct st)"
    and slc: "slice_done ctx k st st'"
  shows "run_order ctx (Suc k) (direct st')"
proof -
  note sd = slice_doneD [OF slc] and known = slices_knownD [OF inv, rule_format]
  have d: "x \<in> direct st \<Longrightarrow> x \<in> direct st'" for x
    using sd(1) unfolding grows_def by blast
  have follow: "activePhase ctx p \<Longrightarrow> x \<in> known st (PhaseStream p) \<Longrightarrow> (x, Some (phaseWork p k)) \<in> direct st'" for p x
    using sd(2) by blast
  note chain = sd(3) [rule_format] and unp = sd(4) [rule_format]
    and rin = sd(6) [rule_format, OF conjI] and rout = sd(9) [rule_format, OF conjI]
  note i1 = known(1)
  have two: "kCocclPipelineRawRingSlots = 2" by (simp add: kCocclPipelineRawRingSlots_def)
  note old = ord [unfolded run_order_def]
  have o1: "s < k \<Longrightarrow> (None, Some (phaseWork (firstPhase ctx) s)) \<in> direct st'" for s
    using old [THEN conjunct1] d by blast
  have o2: "activePhase ctx p \<Longrightarrow> s < s' \<Longrightarrow> s' < k \<Longrightarrow> (Some (phaseWork p s), Some (phaseWork p s')) \<in> direct st'" for p s s'
    using old [THEN conjunct2, THEN conjunct1] d by blast
  have o3: "i < stageCount ctx \<Longrightarrow> i \<noteq> 0 \<or> stagesIn ctx \<Longrightarrow> s < k \<Longrightarrow>
      (Some (phaseWork i s), Some (phaseWork (Suc i) s)) \<in> direct st'" for i s
    using old [THEN conjunct2, THEN conjunct2, THEN conjunct1] d by blast
  note old = old [THEN conjunct2, THEN conjunct2, THEN conjunct2]
  have o4: "s < k \<Longrightarrow> stagesOut ctx \<Longrightarrow> (Some (phaseWork (stageCount ctx) s), Some (UnpackWork s)) \<in> direct st'" for s
    using old [THEN conjunct1] d by blast
  have o5: "s + 2 < k \<Longrightarrow> reusesInputRaw ctx \<Longrightarrow> (Some (StageWork 0 s), Some (PackWork (s + 2))) \<in> direct st'" for s
    using old [THEN conjunct2, THEN conjunct1] d by blast
  have o6: "s + 2 < k \<Longrightarrow> reusesOutputRaw ctx \<Longrightarrow>
      (Some (UnpackWork s), Some (StageWork (stageCount ctx - 1) (s + 2))) \<in> direct st'" for s
    using old [THEN conjunct2, THEN conjunct2] d by blast
  show ?thesis
    unfolding run_order_def
  proof (intro conjI allI impI)
    fix s assume "s < Suc k"
    then show "(None, Some (phaseWork (firstPhase ctx) s)) \<in> direct st'"
      using o1 [of s] follow [OF firstPhase_active [OF n] i1] by (auto simp: less_Suc_eq)
  next
    fix p s s' assume "activePhase ctx p \<and> s < s' \<and> s' < Suc k"
    then show "(Some (phaseWork p s), Some (phaseWork p s')) \<in> direct st'"
      using o2 [of p s s'] follow [of p] known(2) [of p s] by (auto simp: less_Suc_eq)
  next
    fix i s assume "i < stageCount ctx \<and> (i \<noteq> 0 \<or> stagesIn ctx) \<and> s < Suc k"
    then show "(Some (phaseWork i s), Some (phaseWork (Suc i) s)) \<in> direct st'"
      using o3 [of i s] chain [of i] by (auto simp: less_Suc_eq)
  next
    fix s assume "s < Suc k" "stagesOut ctx"
    then show "(Some (phaseWork (stageCount ctx) s), Some (UnpackWork s)) \<in> direct st'"
      using o4 [of s] unp by (auto simp: less_Suc_eq)
  next
    fix s assume a: "s + 2 < Suc k \<and> reusesInputRaw ctx"
    show "(Some (StageWork 0 s), Some (PackWork (s + 2))) \<in> direct st'"
    proof (cases "s + 2 = k")
      case True
      with rin [of "Some (StageWork 0 s)"] known(3) [of s] a slot_shift(1) [of s] two show ?thesis by auto
    next
      case False
      with a o5 [of s] show ?thesis by auto
    qed
  next
    fix s assume a: "s + 2 < Suc k \<and> reusesOutputRaw ctx"
    show "(Some (UnpackWork s), Some (StageWork (stageCount ctx - 1) (s + 2))) \<in> direct st'"
    proof (cases "s + 2 = k")
      case True
      with rout [of "Some (UnpackWork s)"] known(4) [of s] a slot_shift(1) [of s] two show ?thesis by auto
    next
      case False
      with a o6 [of s] show ?thesis by auto
    qed
  qed
qed


lemma slices_run:
  assumes n: "0 < stageCount ctx" "stageCount ctx \<le> 7"
  shows "slices_known ctx k (schedOps (startOps ctx @ concat (map (sliceOps ctx) [0..<k])) schedStart) \<and>
    run_order ctx k (direct (schedOps (startOps ctx @ concat (map (sliceOps ctx) [0..<k])) schedStart))"
proof (induction k)
  case 0
  show ?case
    by (simp add: slices_known_def run_order_def startOps_def schedStart_def firstPhase_def)
next
  case (Suc k)
  have step: "schedOps (startOps ctx @ concat (map (sliceOps ctx) [0..<Suc k])) schedStart =
      schedOps (sliceOps ctx k) (schedOps (startOps ctx @ concat (map (sliceOps ctx) [0..<k])) schedStart)"
    by simp
  note slc = sliceOps_done [OF n, of k "schedOps (startOps ctx @ concat (map (sliceOps ctx) [0..<k])) schedStart"]
  show ?case
    unfolding step using slices_known_step [OF _ slc] run_order_step [OF n(1) _ _ slc] Suc.IH by blast
qed

section \<open>Order of a whole run\<close>

abbreviation overlapOrder :: "cocclPipelineContext \<Rightarrow> (work option \<times> work option) set" where
  "overlapOrder ctx \<equiv> direct (schedOps (overlapOps ctx) schedStart)"

lemma overlap_run_order:
  assumes "0 < stageCount ctx" "stageCount ctx \<le> 7"
  shows "run_order ctx (depth ctx) (overlapOrder ctx)"
proof -
  have "direct (schedOps (overlapOps ctx) schedStart) =
      direct (schedOps (startOps ctx @ concat (map (sliceOps ctx) [0..<depth ctx])) schedStart)"
    by (simp add: overlapOps_def completionOps_def)
  with slices_run [OF assms, of "depth ctx"] show ?thesis by simp
qed

text \<open>What follows from the ordered pairs by transitivity.\<close>

lemma order_slice:
  assumes ord: "run_order ctx k R" and "s < k" and n: "0 < stageCount ctx" "stageCount ctx \<le> 7"
    and p: "activePhase ctx p" and q: "activePhase ctx q" and "p < q"
  shows "(Some (phaseWork p s), Some (phaseWork q s)) \<in> R\<^sup>+"
proof -
  have chain: "i < stageCount ctx \<Longrightarrow> i \<noteq> 0 \<or> stagesIn ctx \<Longrightarrow> (Some (phaseWork i s), Some (phaseWork (Suc i) s)) \<in> R"
    and unp: "stagesOut ctx \<Longrightarrow> (Some (phaseWork (stageCount ctx) s), Some (UnpackWork s)) \<in> R" for i
    using ord \<open>s < k\<close> unfolding run_order_def by blast+
  have stagesUp: "(Some (phaseWork p s), Some (phaseWork (p + Suc m) s)) \<in> R\<^sup>+" if "p + Suc m \<le> stageCount ctx" for m
    using that
  proof (induction m)
    case 0
    with chain [of p] p n show ?case by (cases "p = 0") (auto simp: activePhase_def phase_defs pipeline_constants)
  next
    case (Suc m)
    from Suc.prems have "(Some (phaseWork (p + Suc m) s), Some (phaseWork (p + Suc (Suc m)) s)) \<in> R"
      using chain [of "p + Suc m"] by simp
    with Suc.IH Suc.prems show ?case by (simp add: trancl.trancl_into_trancl)
  qed
  have u: "PhaseUnpack = 8" by (simp add: phase_defs pipeline_constants)
  from q \<open>p < q\<close> consider "q \<le> stageCount ctx" | "q = 8" "stagesOut ctx"
    by (auto simp: activePhase_def u phase_defs)
  then show ?thesis
  proof cases
    case 1
    with \<open>p < q\<close> have "q = p + Suc (q - p - 1)" by simp
    with stagesUp [of "q - p - 1"] 1 show ?thesis by metis
  next
    case 2
    from p \<open>p < q\<close> 2 have "p \<le> stageCount ctx" by (auto simp: activePhase_def u phase_defs)
    then consider "p = stageCount ctx" | "p < stageCount ctx" by linarith
    then have "(Some (phaseWork p s), Some (phaseWork (stageCount ctx) s)) \<in> R\<^sup>*"
    proof cases
      case 2
      with stagesUp [of "stageCount ctx - p - 1"] show ?thesis by (simp add: trancl_into_rtrancl)
    qed simp
    with unp 2 show ?thesis by (simp add: rtrancl_into_trancl1)
  qed
qed

lemma order_phase:
  "run_order ctx k R \<Longrightarrow> activePhase ctx p \<Longrightarrow> s < s' \<Longrightarrow> s' < k \<Longrightarrow> (Some (phaseWork p s), Some (phaseWork p s')) \<in> R\<^sup>+"
  unfolding run_order_def by blast

lemma slot_distance: "slot s = slot s' \<Longrightarrow> s < s' \<Longrightarrow> s + 2 \<le> s'"
  using slot_shift(2) [of s] by (cases "s' = Suc s") auto

lemma order_ring:
  assumes ord: "run_order ctx k R" and act: "activePhase ctx p"
    and ring: "\<And>t. t + 2 < k \<Longrightarrow> (a t, Some (phaseWork p (t + 2))) \<in> R"
    and "slot s = slot s'" "s < s'" "s' < k"
  shows "(a s, Some (phaseWork p s')) \<in> R\<^sup>+"
proof -
  have "s + 2 \<le> s'" using assms(4,5) by (rule slot_distance)
  then consider "s' = s + 2" | "s + 2 < s'" by linarith
  then show ?thesis
  proof cases
    case 1
    with ring [of s] \<open>s' < k\<close> show ?thesis by (simp add: r_into_trancl)
  next
    case 2
    have "(a s, Some (phaseWork p (s + 2))) \<in> R" using ring [of s] 2 \<open>s' < k\<close> by simp
    with order_phase [OF ord act 2 \<open>s' < k\<close>] show ?thesis by (rule trancl_into_trancl2 [rotated])
  qed
qed


lemma overlap_conflicts:
  assumes n: "0 < stageCount ctx" "stageCount ctx \<le> 7" and s: "s < depth ctx"
  shows "\<lbrakk>activePhase ctx p; activePhase ctx q; p < q\<rbrakk> \<Longrightarrow>
      happensBefore (overlapOps ctx) (Some (phaseWork p s)) (Some (phaseWork q s))"
    and "\<lbrakk>activePhase ctx p; t < s\<rbrakk> \<Longrightarrow>
      happensBefore (overlapOps ctx) (Some (phaseWork p t)) (Some (phaseWork p s))"
    and "\<lbrakk>reusesInputRaw ctx; t < s; slot t = slot s\<rbrakk> \<Longrightarrow>
      happensBefore (overlapOps ctx) (Some (StageWork 0 t)) (Some (PackWork s))"
    and "\<lbrakk>reusesOutputRaw ctx; t < s; slot t = slot s\<rbrakk> \<Longrightarrow>
      happensBefore (overlapOps ctx) (Some (UnpackWork t)) (Some (StageWork (stageCount ctx - 1) s))"
proof -
  note ord = overlap_run_order [OF n]
  show "happensBefore (overlapOps ctx) (Some (phaseWork p s)) (Some (phaseWork q s))"
    if "activePhase ctx p" "activePhase ctx q" "p < q"
    unfolding happensBefore_def by (rule order_slice [OF ord s n that])
  show "happensBefore (overlapOps ctx) (Some (phaseWork p t)) (Some (phaseWork p s))"
    if "activePhase ctx p" "t < s"
    unfolding happensBefore_def by (rule order_phase [OF ord that s])
  show "happensBefore (overlapOps ctx) (Some (StageWork 0 t)) (Some (PackWork s))"
    if "reusesInputRaw ctx" "t < s" "slot t = slot s"
  proof -
    have act: "activePhase ctx 0" using that(1) by (simp add: activePhase_def reusesInputRaw_def phase_defs)
    have "(Some (StageWork 0 u), Some (phaseWork 0 (u + 2))) \<in> overlapOrder ctx" if "u + 2 < depth ctx" for u
      using ord that \<open>reusesInputRaw ctx\<close> unfolding run_order_def by simp
    from order_ring [OF ord act this that(3,2) s] show ?thesis by (simp add: happensBefore_def)
  qed
  show "happensBefore (overlapOps ctx) (Some (UnpackWork t)) (Some (StageWork (stageCount ctx - 1) s))"
    if "reusesOutputRaw ctx" "t < s" "slot t = slot s"
  proof -
    have act: "activePhase ctx (stageCount ctx)" using n by (simp add: activePhase_def)
    have lst: "phaseWork (stageCount ctx) u = StageWork (stageCount ctx - 1) u" for u
      using n phaseWork_simps(4) [of "stageCount ctx - 1" u] by simp
    have "(Some (UnpackWork u), Some (phaseWork (stageCount ctx) (u + 2))) \<in> overlapOrder ctx" if "u + 2 < depth ctx" for u
      unfolding lst using ord that \<open>reusesOutputRaw ctx\<close> unfolding run_order_def by blast
    from order_ring [OF ord act this that(3,2) s] show ?thesis by (simp add: happensBefore_def lst)
  qed
qed

text \<open>
  C22. The overlapped run is free of races. Work of one slice runs phase after phase; work of one phase
  runs slice after slice; a pack into a staging slot runs after the first stage that read the slot
  two slices before, and a last stage into a staging slot runs after the unpack that emptied it.
\<close>

theorem overlap_orders_conflicts:
  assumes "0 < stageCount ctx" "stageCount ctx \<le> 7" and "s < depth ctx"
  shows "(\<forall>p q. activePhase ctx p \<and> activePhase ctx q \<and> p < q \<longrightarrow>
      happensBefore (overlapOps ctx) (Some (phaseWork p s)) (Some (phaseWork q s))) \<and>
    (\<forall>p t. activePhase ctx p \<and> t < s \<longrightarrow>
      happensBefore (overlapOps ctx) (Some (phaseWork p t)) (Some (phaseWork p s))) \<and>
    (\<forall>t < s. slot t = slot s \<longrightarrow>
      (reusesInputRaw ctx \<longrightarrow> happensBefore (overlapOps ctx) (Some (StageWork 0 t)) (Some (PackWork s))) \<and>
      (reusesOutputRaw ctx \<longrightarrow>
         happensBefore (overlapOps ctx) (Some (UnpackWork t)) (Some (StageWork (stageCount ctx - 1) s))))"
  using overlap_conflicts [OF assms] by blast

lemma example_shape: "stageCount exampleContext = 3 \<and> depth exampleContext = 3 \<and> stagesIn exampleContext"
  by code_simp

lemma example_active: "activePhase exampleContext p" if "p \<le> 3"
  using that example_shape by (cases p) (simp_all add: activePhase_def phase_defs)

theorem overlap_orders_conflicts_witness:
  "happensBefore (overlapOps exampleContext) (Some (PackWork 2)) (Some (StageWork 2 2)) \<and>
   happensBefore (overlapOps exampleContext) (Some (StageWork 1 0)) (Some (StageWork 1 2))"
proof -
  have "(\<forall>p q. activePhase exampleContext p \<and> activePhase exampleContext q \<and> p < q \<longrightarrow>
      happensBefore (overlapOps exampleContext) (Some (phaseWork p 2)) (Some (phaseWork q 2))) \<and>
    (\<forall>p t. activePhase exampleContext p \<and> t < 2 \<longrightarrow>
      happensBefore (overlapOps exampleContext) (Some (phaseWork p t)) (Some (phaseWork p 2)))"
    using overlap_orders_conflicts [of exampleContext 2] example_shape by simp
  moreover have "activePhase exampleContext 0" "activePhase exampleContext 2" "activePhase exampleContext 3"
    by (rule example_active; simp)+
  ultimately have "happensBefore (overlapOps exampleContext) (Some (phaseWork 0 2)) (Some (phaseWork 3 2))"
    "happensBefore (overlapOps exampleContext) (Some (phaseWork 2 0)) (Some (phaseWork 2 2))"
    by (metis zero_less_numeral)+
  then show ?thesis by (simp add: phaseWork_def phase_defs pipeline_constants)
qed

text \<open>The work the user's stream waits for when the run returns.\<close>

definition lastPhase :: "cocclPipelineContext \<Rightarrow> nat" where
  "lastPhase ctx = (if stagesOut ctx then PhaseUnpack else stageCount ctx)"

text \<open>
  C23. The run starts after the caller's earlier work and the caller's stream continues after the run:
  every piece of work of every slice runs after what the caller had enqueued, and before anything
  the caller enqueues on its stream afterwards.
\<close>

theorem overlap_joins_user_stream:
  assumes n: "0 < stageCount ctx" "stageCount ctx \<le> 7" and s: "s < depth ctx" and act: "activePhase ctx p"
  shows "happensBefore (overlapOps ctx) None (Some (phaseWork p s))
      \<and> (\<exists>w \<in> known (schedOps (overlapOps ctx) schedStart) UserStream.
        w = Some (phaseWork p s) \<or> happensBefore (overlapOps ctx) (Some (phaseWork p s)) w)"
proof (rule conjI)
  note ord = overlap_run_order [OF n]
  have f: "(None, Some (phaseWork (firstPhase ctx) s)) \<in> overlapOrder ctx"
    using ord s unfolding run_order_def by blast
  have "firstPhase ctx \<le> p"
    using act by (auto simp: firstPhase_def activePhase_def phase_defs pipeline_constants)
  then consider "firstPhase ctx = p" | "firstPhase ctx < p" by linarith
  then show "happensBefore (overlapOps ctx) None (Some (phaseWork p s))"
  proof cases
    case 2
    from order_slice [OF ord s n firstPhase_active [OF n(1)] act 2] f
    show ?thesis unfolding happensBefore_def by (rule trancl_into_trancl2 [rotated])
  next
    case 1
    with f show ?thesis unfolding happensBefore_def by (simp only: r_into_trancl)
  qed
  let ?e = "depth ctx - 1"
  have e: "?e < depth ctx" "s \<le> ?e" using s by simp_all
  have lact: "activePhase ctx (lastPhase ctx)" "p \<le> lastPhase ctx"
    using n act by (auto simp: lastPhase_def activePhase_def phase_defs pipeline_constants)
  define st where "st = schedOps (startOps ctx @ concat (map (sliceOps ctx) [0..<depth ctx])) schedStart"
  have k: "slices_known ctx (depth ctx) st" unfolding st_def using slices_run [OF n] by blast
  have fp: "finalStagePhase ctx = stageCount ctx" using n by (simp add: finalStagePhase_def PhaseFirstStage_def)
  have "Some (phaseWork (lastPhase ctx) ?e) \<in> snap st (PhaseEvent (lastPhase ctx) ?e)"
    using slices_knownD(5,6) [OF k] s by (simp add: lastPhase_def)
  then have fin: "Some (phaseWork (lastPhase ctx) ?e) \<in> known (schedOps (overlapOps ctx) schedStart) UserStream"
    unfolding overlapOps_def completionOps_def schedOps_simps st_def [unfolded schedOps_simps, symmetric]
    by (cases "stagesOut ctx") (simp_all add: fp lastPhase_def)
  have a: "p = lastPhase ctx \<or> (Some (phaseWork p s), Some (phaseWork (lastPhase ctx) s)) \<in> (overlapOrder ctx)\<^sup>+"
    using order_slice [OF ord s n act lact(1)] lact(2) by linarith
  have b: "s = ?e \<or> (Some (phaseWork (lastPhase ctx) s), Some (phaseWork (lastPhase ctx) ?e)) \<in> (overlapOrder ctx)\<^sup>+"
    using order_phase [OF ord lact(1) _ e(1), of s] e(2) by linarith
  have "Some (phaseWork (lastPhase ctx) ?e) = Some (phaseWork p s) \<or>
      happensBefore (overlapOps ctx) (Some (phaseWork p s)) (Some (phaseWork (lastPhase ctx) ?e))"
    unfolding happensBefore_def using a b trancl_trans by metis
  with fin show "\<exists>w \<in> known (schedOps (overlapOps ctx) schedStart) UserStream.
      w = Some (phaseWork p s) \<or> happensBefore (overlapOps ctx) (Some (phaseWork p s)) w" by (rule bexI [rotated])
qed

theorem overlap_joins_user_stream_witness:
  "happensBefore (overlapOps exampleContext) None (Some (PackWork 1)) \<and>
   (\<exists>w \<in> known (schedOps (overlapOps exampleContext) schedStart) UserStream.
      w = Some (PackWork 1) \<or> happensBefore (overlapOps exampleContext) (Some (PackWork 1)) w)"
  using overlap_joins_user_stream [of exampleContext 1 0] example_shape example_active [of 0] by simp

end
