(* ===== verification/Coccl_Double.thy ===== *)
theory Coccl_Double
  imports Complex_Main Coccl_Prelude
begin

text \<open>
  The \<^verbatim>\<open>double\<close> values the autotuner and the training classifier compute with: a finite number, an
  infinity, or not a number; the sign of a zero is not kept. Every operation takes the rounding \<open>fl\<close>
  of the processor as an argument: its result is the rounded exact result, which may be an infinity.
\<close>

datatype double = Fin real | PosInf | NegInf | NaN

type_synonym rounding = "real \<Rightarrow> double"

definition dsign :: "real \<Rightarrow> double" where
  "dsign x = (if x = 0 then NaN else if 0 < x then PosInf else NegInf)"

fun dneg :: "double \<Rightarrow> double" where
  "dneg (Fin x) = Fin (- x)"
| "dneg PosInf = NegInf"
| "dneg NegInf = PosInf"
| "dneg NaN = NaN"

fun dadd :: "rounding \<Rightarrow> double \<Rightarrow> double \<Rightarrow> double" where
  "dadd fl (Fin x) (Fin y) = fl (x + y)"
| "dadd fl (Fin x) b = b"
| "dadd fl a (Fin y) = a"
| "dadd fl PosInf PosInf = PosInf"
| "dadd fl NegInf NegInf = NegInf"
| "dadd fl _ _ = NaN"

definition dsub :: "rounding \<Rightarrow> double \<Rightarrow> double \<Rightarrow> double" where
  "dsub fl a b = dadd fl a (dneg b)"

fun dmul :: "rounding \<Rightarrow> double \<Rightarrow> double \<Rightarrow> double" where
  "dmul fl (Fin x) (Fin y) = fl (x * y)"
| "dmul fl NaN _ = NaN"
| "dmul fl _ NaN = NaN"
| "dmul fl (Fin x) PosInf = dsign x"
| "dmul fl (Fin x) NegInf = dsign (- x)"
| "dmul fl PosInf (Fin y) = dsign y"
| "dmul fl NegInf (Fin y) = dsign (- y)"
| "dmul fl PosInf PosInf = PosInf"
| "dmul fl NegInf NegInf = PosInf"
| "dmul fl _ _ = NegInf"

fun ddiv :: "rounding \<Rightarrow> double \<Rightarrow> double \<Rightarrow> double" where
  "ddiv fl (Fin x) (Fin y) = (if y = 0 then dsign x else fl (x / y))"
| "ddiv fl NaN _ = NaN"
| "ddiv fl _ NaN = NaN"
| "ddiv fl (Fin x) _ = Fin 0"
| "ddiv fl PosInf (Fin y) = (if y < 0 then NegInf else PosInf)"
| "ddiv fl NegInf (Fin y) = (if y < 0 then PosInf else NegInf)"
| "ddiv fl _ _ = NaN"

fun dlt :: "double \<Rightarrow> double \<Rightarrow> bool" where
  "dlt (Fin x) (Fin y) \<longleftrightarrow> x < y"
| "dlt (Fin x) PosInf \<longleftrightarrow> True"
| "dlt NegInf (Fin y) \<longleftrightarrow> True"
| "dlt NegInf PosInf \<longleftrightarrow> True"
| "dlt _ _ \<longleftrightarrow> False"

definition dle :: "double \<Rightarrow> double \<Rightarrow> bool" where
  "dle a b \<longleftrightarrow> dlt a b \<or> (a = b \<and> a \<noteq> NaN)"

text \<open>\<^verbatim>\<open>std::max\<close>, \<^verbatim>\<open>std::min\<close>, \<^verbatim>\<open>std::isfinite\<close> and \<^verbatim>\<open>std::fabs\<close>.\<close>

definition dmax :: "double \<Rightarrow> double \<Rightarrow> double" where
  "dmax a b = (if dlt a b then b else a)"

definition dmin :: "double \<Rightarrow> double \<Rightarrow> double" where
  "dmin a b = (if dlt b a then b else a)"

fun isfinite :: "double \<Rightarrow> bool" where
  "isfinite (Fin _) \<longleftrightarrow> True"
| "isfinite _ \<longleftrightarrow> False"

fun dabs :: "double \<Rightarrow> double" where
  "dabs (Fin x) = Fin \<bar>x\<bar>"
| "dabs NaN = NaN"
| "dabs _ = PosInf"

section \<open>Order\<close>

lemma dlt_irrefl [simp]: "\<not> dlt a a"
  by (cases a) simp_all

lemma dlt_trans: "dlt a b \<Longrightarrow> dlt b c \<Longrightarrow> dlt a c"
  by (cases a; cases b; cases c) simp_all

lemma dlt_NaN [simp]: "\<not> dlt NaN a" "\<not> dlt a NaN"
  by (cases a; simp)+

lemma dle_refl [simp]: "dle a a \<longleftrightarrow> a \<noteq> NaN"
  by (auto simp: dle_def)

lemma dle_trans: "dle a b \<Longrightarrow> dle b c \<Longrightarrow> dle a c"
  using dlt_trans by (auto simp: dle_def)

lemma dle_Fin [simp]: "dle (Fin x) (Fin y) \<longleftrightarrow> x \<le> y"
  by (auto simp: dle_def)

lemma not_dlt_dle: "a \<noteq> NaN \<Longrightarrow> b \<noteq> NaN \<Longrightarrow> \<not> dlt a b \<longleftrightarrow> dle b a"
  by (cases a; cases b) (auto simp: dle_def)

lemma isfinite_Fin: "isfinite a \<longleftrightarrow> (\<exists>x. a = Fin x)"
  by (cases a) simp_all

text \<open>
  What the results below use of the rounding: it never makes up a NaN, it is monotone, and it keeps
  zero. IEEE 754 promises all three for every rounding direction.
\<close>

definition ieee_rounding :: "rounding \<Rightarrow> bool" where
  "ieee_rounding fl \<longleftrightarrow> (\<forall>x. fl x \<noteq> NaN) \<and> (\<forall>x y. x \<le> y \<longrightarrow> dle (fl x) (fl y)) \<and> fl 0 = Fin 0"

lemma exact_rounding [simp]: "ieee_rounding Fin"
  by (simp add: ieee_rounding_def)

definition nonneg :: "double \<Rightarrow> bool" where
  "nonneg a \<longleftrightarrow> dle (Fin 0) a"

lemma nonneg_simps [simp]: "nonneg (Fin x) \<longleftrightarrow> 0 \<le> x" "nonneg PosInf" "\<not> nonneg NegInf" "\<not> nonneg NaN"
  by (auto simp: nonneg_def dle_def)

lemma nonneg_fl: "ieee_rounding fl \<Longrightarrow> 0 \<le> x \<Longrightarrow> nonneg (fl x)"
  unfolding ieee_rounding_def nonneg_def by metis

lemma nonneg_dadd: "ieee_rounding fl \<Longrightarrow> nonneg a \<Longrightarrow> nonneg b \<Longrightarrow> nonneg (dadd fl a b)"
  by (cases a; cases b) (simp_all add: nonneg_fl)

lemma nonneg_dmax: "nonneg a \<Longrightarrow> nonneg (dmax a b)"
  by (cases a; cases b) (auto simp: dmax_def)

lemma nonneg_ddiv: "ieee_rounding fl \<Longrightarrow> nonneg a \<Longrightarrow> 0 < y \<Longrightarrow> nonneg (ddiv fl a (Fin y))"
  by (cases a) (auto simp: nonneg_fl)

end
