(* ===== verification/Training_Trace.thy ===== *)
theory Training_Trace
  imports Coccl_Double Compressor_Runtime
begin

text \<open>
  Traces of observed calls and the detection of training iterations in them
  (\<^verbatim>\<open>core/training/coccl_training_classifier.h\<close> and the first half of \<^verbatim>\<open>.cc\<close>): the role a configured
  communicator size gives, the rolling hash over canonical events, the exact and the approximate
  search for a repeated suffix. A trace holds at most 65536 events, so positions in it are \<open>nat\<close>.
\<close>

unbundle bit_operations_syntax

section \<open>Data\<close>

record cocclTrainingTraceComm =
  traceCommId :: "64 word"
  traceCommHash :: "64 word"
  traceRank :: int
  traceRanks :: int
  traceNodes :: int
  traceLocalRanks :: int

record cocclTrainingTraceEvent =
  eventSequence :: "64 word"
  eventComm :: "64 word"
  eventOperation :: ncclFunc_t
  eventBytes :: size_t
  eventDatatype :: ncclDataType_t
  eventPeer :: int
  eventTimeNs :: "64 word"
  eventGroupDepth :: int

record cocclTrainingIterationRange =
  rangeBegin :: nat
  rangeEnd :: nat

definition kMinimumCycleEvents :: nat where
  "kMinimumCycleEvents = 2"

text \<open>The literals of the source are the nearest \<^verbatim>\<open>double\<close>.\<close>

definition kCycleMatchThreshold :: "rounding \<Rightarrow> double" where
  "kCycleMatchThreshold fl = fl (90 / 100)"

definition kMinimumBoundaryGapScore :: double where
  "kMinimumBoundaryGapScore = Fin 2"

definition isCollective :: "ncclFunc_t \<Rightarrow> bool" where
  "isCollective oper \<longleftrightarrow> oper = ncclFuncAllGather \<or> oper = ncclFuncReduceScatter \<or> oper = ncclFuncAllReduce"

definition isP2p :: "ncclFunc_t \<Rightarrow> bool" where
  "isP2p oper \<longleftrightarrow> oper = ncclFuncSend \<or> oper = ncclFuncRecv"

definition isObservedOperation :: "ncclFunc_t \<Rightarrow> bool" where
  "isObservedOperation oper \<longleftrightarrow> isCollective oper \<or> isP2p oper"

section \<open>Role by configured size\<close>

definition cocclTrainingTopologyRole ::
  "cocclTrainingTraceComm \<Rightarrow> ncclFunc_t \<Rightarrow> cocclTrainingConfig \<Rightarrow> cocclTrainingRole" where
  "cocclTrainingTopologyRole communicator oper cfg =
     (if isP2p oper
      then (if pipelineParallelSize cfg > 1 \<and> traceRanks communicator = pipelineParallelSize cfg
            then TrainingRolePipelineParallel else TrainingRoleUnknown)
      else if \<not> isCollective oper then TrainingRoleUnknown
      else
        let dataPar = (traceRanks communicator = dataParallelSize cfg);
            tensorPar = (traceRanks communicator = tensorParallelSize cfg) in
        if dataPar = tensorPar then TrainingRoleUnknown
        else if dataPar then TrainingRoleDataParallel else TrainingRoleTensorParallel)"

section \<open>Canonical events and the rolling hash\<close>

fun funcValue :: "ncclFunc_t \<Rightarrow> nat" where
  "funcValue ncclFuncBroadcast = 0"
| "funcValue ncclFuncReduce = 1"
| "funcValue ncclFuncAllGather = 2"
| "funcValue ncclFuncReduceScatter = 3"
| "funcValue ncclFuncAllReduce = 4"
| "funcValue ncclFuncSendRecv = 5"
| "funcValue ncclFuncSend = 6"
| "funcValue ncclFuncRecv = 7"
| "funcValue ncclNumFuncs = 8"

definition mixToken :: "64 word \<Rightarrow> 64 word" where
  "mixToken v =
     (let v1 = v XOR drop_bit 30 v;
          v2 = v1 * 0xbf58476d1ce4e5b9;
          v3 = v2 XOR drop_bit 27 v2;
          v4 = v3 * 0x94d049bb133111eb in
      v4 XOR drop_bit 31 v4)"

definition canonicalToken :: "cocclTrainingTraceEvent \<Rightarrow> 64 word" where
  "canonicalToken event =
     mixToken (eventComm event) XOR
     mixToken (word_of_nat (funcValue (eventOperation event)) + 0x9e3779b9) XOR
     mixToken (eventBytes event + 0x9e3779b97f4a7c15)"

definition sameCanonicalEvent :: "cocclTrainingTraceEvent \<Rightarrow> cocclTrainingTraceEvent \<Rightarrow> bool" where
  "sameCanonicalEvent lhs rhs \<longleftrightarrow>
     eventComm lhs = eventComm rhs \<and> eventOperation lhs = eventOperation rhs \<and> eventBytes lhs = eventBytes rhs"

definition hashBase :: "64 word" where
  "hashBase = 0x9e3779b185ebca87"

text \<open>The arrays \<^verbatim>\<open>powers\<close> and \<^verbatim>\<open>prefixes\<close>, entry by entry.\<close>

primrec powersAt :: "nat \<Rightarrow> 64 word" where
  "powersAt 0 = 1"
| "powersAt (Suc i) = powersAt i * hashBase"

primrec prefixesAt :: "cocclTrainingTraceEvent list \<Rightarrow> nat \<Rightarrow> 64 word" where
  "prefixesAt events 0 = 0"
| "prefixesAt events (Suc i) = prefixesAt events i * hashBase + canonicalToken (events ! i)"

definition blockHash :: "cocclTrainingTraceEvent list \<Rightarrow> nat \<Rightarrow> nat \<Rightarrow> 64 word" where
  "blockHash events start len = prefixesAt events (start + len) - prefixesAt events start * powersAt len"

section \<open>Scores\<close>

text \<open>\<^verbatim>\<open>std::nth_element\<close> puts the element of the sorted sequence in its place.\<close>

definition median64 :: "64 word list \<Rightarrow> 64 word" where
  "median64 values =
     (if values = [] then 0
      else
        let sorted = sort values; middle = length values div 2; result = sorted ! middle in
        if even (length values) then (sorted ! (middle - 1) + result) div 2 else result)"

definition gapAt :: "cocclTrainingTraceEvent list \<Rightarrow> nat \<Rightarrow> 64 word list" where
  "gapAt events i =
     (if eventTimeNs (events ! i) \<ge> eventTimeNs (events ! (i - 1))
      then [eventTimeNs (events ! i) - eventTimeNs (events ! (i - 1))] else [])"

definition boundaryGapScore :: "rounding \<Rightarrow> cocclTrainingTraceEvent list \<Rightarrow> nat \<Rightarrow> nat \<Rightarrow> nat \<Rightarrow> double" where
  "boundaryGapScore fl events start period iters =
     (if length events < 2 \<or> period = 0 then Fin 1
      else
        let allGaps = concat (map (gapAt events) [1..<length events]);
            typical = median64 allGaps;
            normalGap = (if typical = 0 then 1 else typical);
            boundaryGaps = concat (map (\<lambda>iter.
              let boundary = start + iter * period in
              if boundary < length events then gapAt events boundary else []) [1..<iters]) in
        if boundaryGaps = [] then Fin 1
        else ddiv fl (fl (real (unat (median64 boundaryGaps)))) (fl (real (unat normalGap))))"

definition candidateHasWork :: "cocclTrainingTraceEvent list \<Rightarrow> nat \<Rightarrow> nat \<Rightarrow> bool" where
  "candidateHasWork events from upTo \<longleftrightarrow> (\<exists>i \<in> set [from..<upTo]. isObservedOperation (eventOperation (events ! i)))"

text \<open>How many of the compared pairs agree.\<close>

definition agreeing :: "cocclTrainingTraceEvent list \<Rightarrow> (nat \<times> nat) list \<Rightarrow> nat" where
  "agreeing events pairs = length (filter (\<lambda>(i, j). sameCanonicalEvent (events ! i) (events ! j)) pairs)"

definition agreement :: "rounding \<Rightarrow> cocclTrainingTraceEvent list \<Rightarrow> (nat \<times> nat) list \<Rightarrow> double" where
  "agreement fl events pairs = ddiv fl (fl (real (agreeing events pairs))) (fl (real (length pairs)))"

definition candidatePairs :: "nat \<Rightarrow> nat \<Rightarrow> nat \<Rightarrow> (nat \<times> nat) list" where
  "candidatePairs start period iters =
     concat (map (\<lambda>iter. map (\<lambda>off. (start + off, start + iter * period + off)) [0..<period]) [1..<iters])"

definition candidateSimilarity :: "rounding \<Rightarrow> cocclTrainingTraceEvent list \<Rightarrow> nat \<Rightarrow> nat \<Rightarrow> nat \<Rightarrow> double" where
  "candidateSimilarity fl events start period iters =
     (let pairs = candidatePairs start period iters in
      if length pairs = 0 then Fin 0 else agreement fl events pairs)"

section \<open>Detection\<close>

text \<open>The best candidate so far: period, start and gap score.\<close>

type_synonym best_cycle = "nat \<times> nat \<times> double"

definition betterCycle :: "rounding \<Rightarrow> nat \<Rightarrow> double \<Rightarrow> best_cycle \<Rightarrow> bool" where
  "betterCycle fl period gapScore best \<longleftrightarrow>
     (case best of (bestPeriod, _, bestGapScore) \<Rightarrow>
        dlt (dadd fl bestGapScore (fl (1 / 10 ^ 9))) gapScore \<or>
        (dle (dabs (dsub fl gapScore bestGapScore)) (fl (1 / 10 ^ 9)) \<and> period > bestPeriod))"

definition considerCycle ::
  "rounding \<Rightarrow> cocclTrainingTraceEvent list \<Rightarrow> nat \<Rightarrow> (nat \<Rightarrow> nat \<Rightarrow> bool) \<Rightarrow> nat \<Rightarrow> best_cycle \<Rightarrow> best_cycle" where
  "considerCycle fl events iters accepts period best =
     (let start = length events - iters * period in
      if accepts start period
      then let gapScore = boundaryGapScore fl events start period iters in
        if betterCycle fl period gapScore best then (period, start, gapScore) else best
      else best)"

definition exactCandidate :: "cocclTrainingTraceEvent list \<Rightarrow> nat \<Rightarrow> nat \<Rightarrow> nat \<Rightarrow> bool" where
  "exactCandidate events iters start period \<longleftrightarrow>
     candidateHasWork events start (start + period) \<and>
     (\<forall>iter \<in> set [1..<iters]. blockHash events (start + iter * period) period = blockHash events start period)"

definition boundariesMatch :: "cocclTrainingTraceEvent list \<Rightarrow> nat \<Rightarrow> nat \<Rightarrow> nat \<Rightarrow> bool" where
  "boundariesMatch events iters start period \<longleftrightarrow>
     (\<forall>iter \<in> set [1..<iters]. let current = start + iter * period in
        sameCanonicalEvent (events ! start) (events ! current) \<and>
        sameCanonicalEvent (events ! (start + period - 1)) (events ! (current + period - 1)))"

definition samplePairs :: "nat \<Rightarrow> nat \<Rightarrow> nat \<Rightarrow> (nat \<times> nat) list" where
  "samplePairs start period iters =
     (let sampleCount = min 16 period in
      concat (map (\<lambda>iter. map (\<lambda>sample. let off = sample * period div sampleCount in
        (start + off, start + iter * period + off)) [0..<sampleCount]) [1..<iters]))"

definition similarCandidate :: "rounding \<Rightarrow> cocclTrainingTraceEvent list \<Rightarrow> nat \<Rightarrow> nat \<Rightarrow> nat \<Rightarrow> bool" where
  "similarCandidate fl events iters start period \<longleftrightarrow>
     boundariesMatch events iters start period \<and>
     \<not> (length (samplePairs start period iters) = 0 \<or>
        dlt (agreement fl events (samplePairs start period iters)) (fl (85 / 100))) \<and>
     \<not> dlt (candidateSimilarity fl events start period iters) (kCycleMatchThreshold fl)"

definition searchCycles ::
  "rounding \<Rightarrow> cocclTrainingTraceEvent list \<Rightarrow> nat \<Rightarrow> (nat \<Rightarrow> nat \<Rightarrow> bool) \<Rightarrow> best_cycle \<Rightarrow> best_cycle" where
  "searchCycles fl events iters accepts best =
     fold (considerCycle fl events iters accepts) [kMinimumCycleEvents..<Suc (length events div iters)] best"

text \<open>The detected iterations, oldest first; \<open>None\<close> when the function returns false.\<close>

definition cocclTrainingDetectIterations ::
  "rounding \<Rightarrow> cocclTrainingTraceEvent list \<Rightarrow> int \<Rightarrow> cocclTrainingIterationRange list option" where
  "cocclTrainingDetectIterations fl events targetIterations =
     (if targetIterations < 2 \<or> length events < nat targetIterations * kMinimumCycleEvents then None
      else
        let iters = nat targetIterations;
            exact = searchCycles fl events iters (exactCandidate events iters) (0, 0, Fin (- 1));
            best = (if fst exact = 0
              then searchCycles fl events iters (similarCandidate fl events iters) exact else exact) in
        case best of (bestPeriod, bestStart, bestGapScore) \<Rightarrow>
          if bestPeriod = 0 \<or> dlt bestGapScore kMinimumBoundaryGapScore then None
          else Some (map (\<lambda>iter. \<lparr>rangeBegin = bestStart + iter * bestPeriod,
                                  rangeEnd = bestStart + iter * bestPeriod + bestPeriod\<rparr>) [0..<iters]))"

section \<open>The hash of a block\<close>

text \<open>The hash of a list of events, computed directly.\<close>

definition eventsHash :: "cocclTrainingTraceEvent list \<Rightarrow> 64 word" where
  "eventsHash events = foldl (\<lambda>h event. h * hashBase + canonicalToken event) 0 events"

lemma eventsHash_snoc: "eventsHash (events @ [event]) = eventsHash events * hashBase + canonicalToken event"
  by (simp add: eventsHash_def)

lemma prefixesAt_split:
  assumes "start + len \<le> length events"
  shows "prefixesAt events (start + len) = prefixesAt events start * powersAt len + eventsHash (take len (drop start events))"
  using assms
proof (induction len)
  case 0
  then show ?case by (simp add: eventsHash_def)
next
  case (Suc len)
  then have "take (Suc len) (drop start events) = take len (drop start events) @ [events ! (start + len)]"
    by (simp add: take_Suc_conv_app_nth)
  with Suc show ?case by (simp add: eventsHash_snoc algebra_simps)
qed

text \<open>
  C27. The rolling hash of a block, taken from the prefix table in constant time, is the hash of the
  block's events: equal blocks anywhere in the trace have equal hashes.
\<close>

theorem blockHash_is_eventsHash:
  assumes "start + len \<le> length events"
  shows "blockHash events start len = eventsHash (take len (drop start events))"
  using prefixesAt_split [OF assms] by (simp add: blockHash_def)

lemma eventsHash_tokens: "eventsHash events = foldl (\<lambda>h t. h * hashBase + t) 0 (map canonicalToken events)"
  by (simp add: eventsHash_def foldl_map)

lemma canonical_tokens_hash:
  assumes "list_all2 sameCanonicalEvent xs ys"
  shows "eventsHash xs = eventsHash ys"
proof -
  from assms have "map canonicalToken xs = map canonicalToken ys"
    by (induction rule: list_all2_induct) (simp_all add: canonicalToken_def sameCanonicalEvent_def)
  then show ?thesis by (simp add: eventsHash_tokens)
qed

lemma blockHash_repeats:
  assumes "a + len \<le> length events" "b + len \<le> length events"
    and "\<forall>off < len. sameCanonicalEvent (events ! (a + off)) (events ! (b + off))"
  shows "blockHash events b len = blockHash events a len"
proof -
  have "list_all2 sameCanonicalEvent (take len (drop a events)) (take len (drop b events))"
    using assms by (simp add: list_all2_conv_all_nth)
  then show ?thesis
    using prefixesAt_split [OF assms(1)] prefixesAt_split [OF assms(2)] canonical_tokens_hash by (simp add: blockHash_def)
qed

section \<open>What a detection means\<close>

definition cycle_found :: "cocclTrainingTraceEvent list \<Rightarrow> nat \<Rightarrow> (nat \<Rightarrow> nat \<Rightarrow> bool) \<Rightarrow> best_cycle \<Rightarrow> bool" where
  "cycle_found events iters accepts best \<longleftrightarrow>
     (case best of (period, start, _) \<Rightarrow>
        kMinimumCycleEvents \<le> period \<and> start + iters * period = length events \<and> accepts start period)"

lemma considerCycle_found:
  assumes "fst best = 0 \<or> cycle_found events iters accepts best"
    and "kMinimumCycleEvents \<le> period" "iters * period \<le> length events"
  shows "fst (considerCycle fl events iters accepts period best) = 0 \<or>
    cycle_found events iters accepts (considerCycle fl events iters accepts period best)"
  using assms by (simp add: considerCycle_def Let_def cycle_found_def)

lemma searchCycles_found:
  assumes "fst best = 0 \<or> cycle_found events iters accepts best"
  shows "fst (searchCycles fl events iters accepts best) = 0 \<or>
    cycle_found events iters accepts (searchCycles fl events iters accepts best)"
proof -
  have loop: "fst (fold (considerCycle fl events iters accepts) ps best) = 0 \<or>
      cycle_found events iters accepts (fold (considerCycle fl events iters accepts) ps best)"
    if "\<forall>p \<in> set ps. kMinimumCycleEvents \<le> p \<and> iters * p \<le> length events" for ps
    using that assms
  proof (induction ps arbitrary: best)
    case (Cons p ps)
    then show ?case using considerCycle_found [of best events iters accepts p fl] by simp
  qed simp
  have bound: "iters * p \<le> length events" if "p < Suc (length events div iters)" for p
    using that by (metis less_Suc_eq_le mult.commute mult_le_mono1 order_trans times_div_less_eq_dividend)
  show ?thesis unfolding searchCycles_def by (rule loop) (auto simp del: upt_Suc intro: bound)
qed

text \<open>
  C28. Detected iterations are as many as asked for, equally long, at least two events each, adjacent,
  and end with the trace. Either the blocks have equal hashes, or their boundaries agree and at
  least the threshold share of all compared events does.
\<close>

theorem detected_iterations_tile_suffix:
  assumes "cocclTrainingDetectIterations fl events targetIterations = Some ranges"
  shows "\<exists>period start. kMinimumCycleEvents \<le> period \<and> start + nat targetIterations * period = length events \<and>
    ranges = map (\<lambda>i. \<lparr>rangeBegin = start + i * period, rangeEnd = start + i * period + period\<rparr>) [0..<nat targetIterations] \<and>
    (exactCandidate events (nat targetIterations) start period \<or>
     similarCandidate fl events (nat targetIterations) start period)"
proof -
  let ?n = "nat targetIterations"
  define exact where "exact = searchCycles fl events ?n (exactCandidate events ?n) (0, 0, Fin (- 1))"
  define best where "best = (if fst exact = 0 then searchCycles fl events ?n (similarCandidate fl events ?n) exact else exact)"
  obtain period start gap where b: "best = (period, start, gap)" by (cases best) auto
  from assms b have nz: "period \<noteq> 0"
    and ranges: "ranges = map (\<lambda>i. \<lparr>rangeBegin = start + i * period, rangeEnd = start + i * period + period\<rparr>) [0..<?n]"
    by (auto simp: cocclTrainingDetectIterations_def Let_def exact_def best_def split: if_splits)
  have e: "fst exact = 0 \<or> cycle_found events ?n (exactCandidate events ?n) exact"
    unfolding exact_def by (rule searchCycles_found) simp
  have "cycle_found events ?n (exactCandidate events ?n) best \<or> cycle_found events ?n (similarCandidate fl events ?n) best"
  proof (cases "fst exact = 0")
    case True
    from searchCycles_found [of exact events ?n "similarCandidate fl events ?n" fl] True nz b show ?thesis
      by (simp add: best_def)
  next
    case False
    with e show ?thesis by (simp add: best_def)
  qed
  with ranges show ?thesis by (auto simp: b cycle_found_def)
qed

section \<open>Example\<close>

definition exampleEvent :: "64 word \<Rightarrow> 64 word \<Rightarrow> cocclTrainingTraceEvent" where
  "exampleEvent comm time = \<lparr>eventSequence = 0, eventComm = comm, eventOperation = ncclFuncAllReduce, eventBytes = 1048576,
     eventDatatype = ncclFloat32, eventPeer = 0, eventTimeNs = time, eventGroupDepth = 0\<rparr>"

definition exampleTrace :: "cocclTrainingTraceEvent list" where
  "exampleTrace = [exampleEvent 1 0, exampleEvent 2 1, exampleEvent 1 10, exampleEvent 2 11]"

theorem blockHash_is_eventsHash_witness:
  "blockHash exampleTrace 2 2 = eventsHash [exampleEvent 1 10, exampleEvent 2 11]"
proof -
  have "blockHash exampleTrace 2 2 = eventsHash (take 2 (drop 2 exampleTrace))"
    by (rule blockHash_is_eventsHash) (simp add: exampleTrace_def)
  then show ?thesis by (simp add: exampleTrace_def)
qed

lemma example_detected:
  "cocclTrainingDetectIterations Fin exampleTrace 2 =
     Some [\<lparr>rangeBegin = 0, rangeEnd = 2\<rparr>, \<lparr>rangeBegin = 2, rangeEnd = 4\<rparr>]"
  by code_simp

theorem detected_iterations_tile_suffix_witness:
  "\<exists>period start. kMinimumCycleEvents \<le> period \<and> start + 2 * period = length exampleTrace \<and>
     (exactCandidate exampleTrace 2 start period \<or> similarCandidate Fin exampleTrace 2 start period)"
  using detected_iterations_tile_suffix [OF example_detected] by auto

end
