(* ===== verification/Training_Classify.thy ===== *)
theory Training_Classify
  imports Training_Trace
begin

text \<open>
  Classification of the communicators of a trace (second half of
  \<^verbatim>\<open>core/training/coccl_training_classifier.cc\<close>): statistics of a communicator, evidence for each role,
  the passes that relate communicators to each other, and the final decision. Call counts are bounded
  by the length of a trace and are \<open>nat\<close>. \<^verbatim>\<open>long double\<close> sums round with \<open>ext\<close>.
\<close>

section \<open>Statistics of one communicator\<close>

record cocclTrainingCommStats =
  statsDescriptor :: cocclTrainingTraceComm
  statsCalls :: nat
  collectiveCalls :: nat
  p2pCalls :: nat
  allGatherCalls :: nat
  reduceScatterCalls :: nat
  allReduceCalls :: nat
  statsMedianBytes :: size_t
  statsCallsPerIteration :: double
  p2pShare :: double
  peerConcentration :: double
  statsSizeConsistency :: double
  patternSupport :: double
  statsOverlapSupport :: double
  ratioSupport :: double
  representativeAgToRsRatio :: double
  stableCollectivePattern :: bool

definition ofCount :: "rounding \<Rightarrow> nat \<Rightarrow> double" where
  "ofCount fl n = fl (real n)"

definition share :: "rounding \<Rightarrow> nat \<Rightarrow> nat \<Rightarrow> double" where
  "share fl part whole = (if whole = 0 then Fin 0 else ddiv fl (ofCount fl part) (ofCount fl whole))"

definition ratioNear :: "rounding \<Rightarrow> double \<Rightarrow> double \<Rightarrow> bool" where
  "ratioNear fl v target \<longleftrightarrow>
     dlt (Fin 0) target \<and> dle (ddiv fl (dabs (dsub fl v target)) target) (fl (20 / 100))"

text \<open>Conversion of a \<^verbatim>\<open>long double\<close> to \<^verbatim>\<open>double\<close>, and of a non-negative \<^verbatim>\<open>double\<close> to \<^verbatim>\<open>size_t\<close>.\<close>

fun narrow :: "rounding \<Rightarrow> double \<Rightarrow> double" where
  "narrow fl (Fin x) = fl x"
| "narrow fl d = d"

fun toUnsigned :: "double \<Rightarrow> 64 word" where
  "toUnsigned (Fin x) = word_of_int \<lfloor>x\<rfloor>"
| "toUnsigned _ = 0"

definition medianCount :: "nat list \<Rightarrow> nat" where
  "medianCount values =
     (if values = [] then 0
      else
        let sorted = sort values; middle = length values div 2; result = sorted ! middle in
        if even (length values) then (sorted ! (middle - 1) + result) div 2 else result)"

fun finiteValue :: "double \<Rightarrow> real" where
  "finiteValue (Fin x) = x"
| "finiteValue _ = 0"

definition medianDouble :: "rounding \<Rightarrow> double list \<Rightarrow> double" where
  "medianDouble fl values =
     (if values = [] then Fin 0
      else
        let sorted = sort_key finiteValue values; middle = length values div 2; result = sorted ! middle in
        if even (length values) then ddiv fl (dadd fl (sorted ! (middle - 1)) result) (Fin 2) else result)"

text \<open>The most frequent size, the smallest one on a tie; the map is walked in key order.\<close>

definition modeOf :: "size_t list \<Rightarrow> size_t \<times> nat" where
  "modeOf sizes =
     fold (\<lambda>bytes best. if count_list sizes bytes > snd best then (bytes, count_list sizes bytes) else best)
       (sort (remdups sizes)) (0, 0)"

definition sizeDeviation :: "rounding \<Rightarrow> size_t \<Rightarrow> size_t \<Rightarrow> double" where
  "sizeDeviation fl modeBytes bytes =
     ddiv fl (dabs (dsub fl (fl (real (unat bytes))) (fl (real (unat modeBytes))))) (fl (real (unat modeBytes)))"

definition segment :: "cocclTrainingTraceEvent list \<Rightarrow> cocclTrainingIterationRange \<Rightarrow> cocclTrainingTraceEvent list" where
  "segment events rg = drop (rangeBegin rg) (take (rangeEnd rg) events)"

definition ofComm :: "64 word \<Rightarrow> cocclTrainingTraceEvent list \<Rightarrow> cocclTrainingTraceEvent list" where
  "ofComm comm events = filter (\<lambda>event. eventComm event = comm) events"

type_synonym pattern = "(nat \<times> size_t) list"

definition iterationPattern :: "cocclTrainingTraceEvent list \<Rightarrow> pattern" where
  "iterationPattern mine =
     map (\<lambda>event. (funcValue (eventOperation event), eventBytes event)) (filter (isCollective \<circ> eventOperation) mine)"

definition multiSize :: "pattern \<Rightarrow> bool" where
  "multiSize pattern \<longleftrightarrow>
     (\<exists>entry \<in> set pattern. \<exists>entry' \<in> set pattern. fst entry = fst entry' \<and> snd entry \<noteq> snd entry')"

definition bytesOf :: "rounding \<Rightarrow> ncclFunc_t \<Rightarrow> cocclTrainingTraceEvent list \<Rightarrow> double" where
  "bytesOf ext func mine =
     foldl (\<lambda>acc event. dadd ext acc (ext (real (unat (eventBytes event))))) (Fin 0)
       (filter (\<lambda>event. eventOperation event = func) mine)"

definition matchingRatio :: "rounding \<Rightarrow> rounding \<Rightarrow> cocclTrainingTraceEvent list \<Rightarrow> double list" where
  "matchingRatio fl ext mine =
     (let gathered = bytesOf ext ncclFuncAllGather mine; scattered = bytesOf ext ncclFuncReduceScatter mine in
      if dlt (Fin 0) gathered \<and> dlt (Fin 0) scattered
      then let ratio = narrow fl (ddiv ext gathered scattered) in
        if ratioNear fl ratio (Fin (1 / 2)) \<or> ratioNear fl ratio (Fin (1 / 4)) then [ratio] else []
      else [])"

definition bestCount :: "pattern list \<Rightarrow> nat" where
  "bestCount patterns = fold max (map (count_list patterns) patterns) 0"

definition topTwoPeers :: "int list \<Rightarrow> nat" where
  "topTwoPeers peers = sum_list (take 2 (rev (sort (map (count_list peers) (remdups peers)))))"

definition countOf :: "ncclFunc_t \<Rightarrow> cocclTrainingTraceEvent list \<Rightarrow> nat" where
  "countOf func mine = length (filter (\<lambda>event. eventOperation event = func) mine)"

definition buildCommStats ::
  "rounding \<Rightarrow> rounding \<Rightarrow> cocclTrainingTraceComm \<Rightarrow> cocclTrainingTraceEvent list \<Rightarrow> cocclTrainingIterationRange list \<Rightarrow>
   cocclTrainingCommStats" where
  "buildCommStats fl ext descriptor events iters =
     (let mine = ofComm (traceCommId descriptor) events;
          peers = map eventPeer (filter (isP2p \<circ> eventOperation) mine);
          collectives = filter (isCollective \<circ> eventOperation) mine;
          sizes = map eventBytes collectives;
          (modeBytes, modeCount) = modeOf sizes;
          modeCoverage = share fl modeCount (length collectives);
          withinFivePercent = (modeBytes \<noteq> 0 \<and>
            list_all (\<lambda>bytes. \<not> dlt (fl (5 / 100)) (sizeDeviation fl modeBytes bytes)) sizes);
          perIteration = map (\<lambda>rg. ofComm (traceCommId descriptor) (segment events rg)) iters;
          patterns = filter (\<lambda>pattern. pattern \<noteq> []) (map iterationPattern perIteration);
          ratios = concat (map (matchingRatio fl ext) perIteration);
          iterationCount = ofCount fl (max 1 (length iters));
          support = ddiv fl (ofCount fl (bestCount patterns)) iterationCount in
      \<lparr>statsDescriptor = descriptor, statsCalls = length mine, collectiveCalls = length collectives,
       p2pCalls = length peers, allGatherCalls = countOf ncclFuncAllGather mine,
       reduceScatterCalls = countOf ncclFuncReduceScatter mine, allReduceCalls = countOf ncclFuncAllReduce mine,
       statsMedianBytes = median64 sizes,
       statsCallsPerIteration = ofCount fl (medianCount (map length perIteration)),
       p2pShare = share fl (length peers) (length mine),
       peerConcentration = share fl (topTwoPeers peers) (length peers),
       statsSizeConsistency = (if withinFivePercent then modeCoverage else dmul fl modeCoverage (Fin (1 / 2))),
       patternSupport = support,
       statsOverlapSupport = ddiv fl (ofCount fl (bestCount (filter multiSize patterns))) iterationCount,
       ratioSupport = ddiv fl (ofCount fl (length ratios)) iterationCount,
       representativeAgToRsRatio = medianDouble fl ratios,
       stableCollectivePattern = (collectives \<noteq> [] \<and> dle (fl (60 / 100)) support)\<rparr>)"

section \<open>Relations between communicators\<close>

text \<open>A gather of one communicator, two collectives of the other, then a scatter of the first.\<close>

fun bracketAfter :: "64 word \<Rightarrow> 64 word \<Rightarrow> nat \<Rightarrow> cocclTrainingTraceEvent list \<Rightarrow> bool" where
  "bracketAfter dpComm tpComm seen [] \<longleftrightarrow> False"
| "bracketAfter dpComm tpComm seen (event # events) \<longleftrightarrow>
     (let seen' = (if eventComm event = tpComm \<and> isCollective (eventOperation event) then Suc seen else seen) in
      if eventComm event = dpComm \<and> eventOperation event = ncclFuncReduceScatter then 2 \<le> seen'
      else bracketAfter dpComm tpComm seen' events)"

fun bracketIn :: "64 word \<Rightarrow> 64 word \<Rightarrow> cocclTrainingTraceEvent list \<Rightarrow> bool" where
  "bracketIn dpComm tpComm [] \<longleftrightarrow> False"
| "bracketIn dpComm tpComm (event # events) \<longleftrightarrow>
     (eventComm event = dpComm \<and> eventOperation event = ncclFuncAllGather \<and> bracketAfter dpComm tpComm 0 events) \<or>
     bracketIn dpComm tpComm events"

text \<open>A reduction of the first communicator whose last eight collectives hold two of the second.\<close>

fun tailIn :: "64 word \<Rightarrow> 64 word \<Rightarrow> cocclTrainingTraceEvent list \<Rightarrow> cocclTrainingTraceEvent list \<Rightarrow> bool" where
  "tailIn dpComm tpComm before [] \<longleftrightarrow> False"
| "tailIn dpComm tpComm before (event # events) \<longleftrightarrow>
     (eventComm event = dpComm \<and>
      (eventOperation event = ncclFuncReduceScatter \<or> eventOperation event = ncclFuncAllReduce) \<and>
      2 \<le> length (filter (\<lambda>prev. eventComm prev = tpComm) (take 8 before))) \<or>
     tailIn dpComm tpComm (if isCollective (eventOperation event) then event # before else before) events"

definition orderRelationSupport ::
  "rounding \<Rightarrow> 64 word \<Rightarrow> 64 word \<Rightarrow> cocclTrainingTraceEvent list \<Rightarrow> cocclTrainingIterationRange list \<Rightarrow> double" where
  "orderRelationSupport fl dpComm tpComm events iters =
     (if iters = [] then Fin 0
      else share fl (length (filter (\<lambda>rg. bracketIn dpComm tpComm (segment events rg) \<or>
             tailIn dpComm tpComm [] (segment events rg)) iters)) (length iters))"

text \<open>Two collectives of the candidate between two point-to-point calls of the pipeline communicators.\<close>

definition interiorStep ::
  "64 word \<Rightarrow> 64 word list \<Rightarrow> cocclTrainingTraceEvent \<Rightarrow> bool \<times> nat \<times> bool \<Rightarrow> bool \<times> nat \<times> bool" where
  "interiorStep candidate ppComms event st =
     (case st of (haveBoundary, seen, foundBurst) \<Rightarrow>
        if eventComm event \<in> set ppComms \<and> isP2p (eventOperation event)
        then (True, 0, foundBurst \<or> (haveBoundary \<and> 2 \<le> seen))
        else if haveBoundary \<and> eventComm event = candidate \<and> isCollective (eventOperation event)
        then (haveBoundary, Suc seen, foundBurst)
        else st)"

definition ppInteriorSupport ::
  "rounding \<Rightarrow> 64 word \<Rightarrow> 64 word list \<Rightarrow> cocclTrainingTraceEvent list \<Rightarrow> cocclTrainingIterationRange list \<Rightarrow> double" where
  "ppInteriorSupport fl candidate ppComms events iters =
     (if ppComms = [] \<or> iters = [] then Fin 0
      else share fl (length (filter (\<lambda>rg.
             snd (snd (fold (interiorStep candidate ppComms) (segment events rg) (False, 0, False)))) iters)) (length iters))"

section \<open>Evidence\<close>

record cocclTrainingClassification =
  classRole :: cocclTrainingRole
  candidateRole :: cocclTrainingRole
  confidence :: double
  sizeConsistency :: double
  cycleSupport :: double
  overlapPatternSupport :: double
  orderSupport :: double
  agToRsRatio :: double
  callsPerIteration :: double
  medianBytes :: size_t
  observedCalls :: "64 word"
  committed :: bool

definition emptyClassification :: cocclTrainingClassification where
  "emptyClassification = \<lparr>classRole = TrainingRoleUnknown, candidateRole = TrainingRoleUnknown, confidence = Fin 0,
     sizeConsistency = Fin 0, cycleSupport = Fin 0, overlapPatternSupport = Fin 0, orderSupport = Fin 0,
     agToRsRatio = Fin 0, callsPerIteration = Fin 0, medianBytes = 0, observedCalls = 0, committed = False\<rparr>"

record cocclTrainingEvidence =
  evidenceDp :: double
  evidencePp :: double
  evidenceTp :: double
  orderAsDp :: double
  orderAsTp :: double

definition noEvidence :: cocclTrainingEvidence where
  "noEvidence = \<lparr>evidenceDp = Fin 0, evidencePp = Fin 0, evidenceTp = Fin 0, orderAsDp = Fin 0, orderAsTp = Fin 0\<rparr>"

definition kRoleEvidenceThreshold :: "rounding \<Rightarrow> double" where
  "kRoleEvidenceThreshold fl = fl (60 / 100)"
definition kOverlapPatternThreshold :: "rounding \<Rightarrow> double" where
  "kOverlapPatternThreshold fl = fl (80 / 100)"
definition kRoleConflictMargin :: "rounding \<Rightarrow> double" where
  "kRoleConflictMargin fl = fl (15 / 100)"

definition statsTopologyRole :: "cocclTrainingConfig \<Rightarrow> cocclTrainingCommStats \<Rightarrow> cocclTrainingRole" where
  "statsTopologyRole cfg stats =
     (if p2pCalls stats = statsCalls stats \<and> statsCalls stats \<noteq> 0
      then cocclTrainingTopologyRole (statsDescriptor stats) ncclFuncSend cfg
      else if collectiveCalls stats \<noteq> 0
      then cocclTrainingTopologyRole (statsDescriptor stats) ncclFuncAllReduce cfg
      else TrainingRoleUnknown)"

text \<open>The evidence for data parallelism; \<open>previous\<close> is the value the field has.\<close>

definition dataParallelEvidence ::
  "rounding \<Rightarrow> cocclTrainingConfig \<Rightarrow> double \<Rightarrow> cocclTrainingCommStats \<Rightarrow> double \<Rightarrow> double" where
  "dataParallelEvidence fl cfg coverage stats previous =
     (let overlapEvidence = dmul fl (statsOverlapSupport stats) coverage;
          ratioEvidence = dmul fl (ratioSupport stats) coverage;
          reduceScatterBuckets = (reduceScatterCalls stats \<noteq> 0 \<and> allGatherCalls stats = 0 \<and> allReduceCalls stats = 0) in
      case dataParallelStrategy cfg of
        StrategyDdp \<Rightarrow>
          if traceNodes (statsDescriptor stats) > 1 \<and> allReduceCalls stats \<noteq> 0 \<and> allGatherCalls stats = 0 \<and>
             reduceScatterCalls stats = 0 \<and> stableCollectivePattern stats \<and> dle (Fin 2) (statsCallsPerIteration stats)
          then dmul fl (patternSupport stats) coverage else previous
      | StrategyFsdp \<Rightarrow>
          if traceNodes (statsDescriptor stats) > 1 \<and> allGatherCalls stats \<noteq> 0 \<and> reduceScatterCalls stats \<noteq> 0 \<and>
             stableCollectivePattern stats
          then dmul fl (patternSupport stats) coverage else previous
      | StrategySdp \<Rightarrow>
          dmax (if \<not> reduceScatterBuckets \<or> dlt overlapEvidence (kOverlapPatternThreshold fl) then Fin 0 else overlapEvidence)
               (if dlt ratioEvidence (kRoleEvidenceThreshold fl) then Fin 0 else ratioEvidence))"

definition tensorAllReduce :: "cocclTrainingConfig \<Rightarrow> cocclTrainingCommStats \<Rightarrow> bool" where
  "tensorAllReduce cfg stats \<longleftrightarrow>
     \<not> sequenceParallel cfg \<and> dataParallelStrategy cfg \<noteq> StrategyDdp \<and> traceNodes (statsDescriptor stats) = 1 \<and>
     allReduceCalls stats \<noteq> 0 \<and> allGatherCalls stats = 0 \<and> reduceScatterCalls stats = 0 \<and>
     stableCollectivePattern stats \<and> dle (Fin 2) (statsCallsPerIteration stats)"

text \<open>The evidence of a communicator on its own, written into its entry of \<^verbatim>\<open>evidenceById\<close>.\<close>

definition ownEvidence ::
  "rounding \<Rightarrow> cocclTrainingConfig \<Rightarrow> double \<Rightarrow> cocclTrainingCommStats \<Rightarrow> cocclTrainingEvidence \<Rightarrow> cocclTrainingEvidence" where
  "ownEvidence fl cfg coverage stats evidence =
     (let topologyRole = statsTopologyRole cfg stats in
      if topologyRole \<noteq> TrainingRoleUnknown
      then (if topologyRole = TrainingRoleDataParallel then evidence\<lparr>evidenceDp := Fin 1\<rparr>
            else if topologyRole = TrainingRoleTensorParallel then evidence\<lparr>evidenceTp := Fin 1\<rparr>
            else evidence\<lparr>evidencePp := Fin 1\<rparr>)
      else if pipelineParallelSize cfg > 1 \<and> dle (fl (70 / 100)) (p2pShare stats) \<and>
              dle (fl (80 / 100)) (peerConcentration stats)
      then evidence\<lparr>evidencePp := dmin (p2pShare stats) (peerConcentration stats)\<rparr>
      else evidence\<lparr>evidenceDp := dataParallelEvidence fl cfg coverage stats (evidenceDp evidence),
             evidenceTp := (if tensorAllReduce cfg stats then dmul fl (patternSupport stats) coverage
                            else evidenceTp evidence)\<rparr>)"

type_synonym evidence_map = "64 word \<Rightarrow> cocclTrainingEvidence"
type_synonym stats_entry = "64 word \<times> cocclTrainingCommStats"

definition isPipeline :: "rounding \<Rightarrow> cocclTrainingEvidence \<Rightarrow> bool" where
  "isPipeline fl evidence \<longleftrightarrow> dle (fl (70 / 100)) (evidencePp evidence)"

definition seededDp :: "rounding \<Rightarrow> cocclTrainingEvidence \<Rightarrow> bool" where
  "seededDp fl evidence \<longleftrightarrow> dle (kRoleEvidenceThreshold fl) (evidenceDp evidence)"

text \<open>The first pass relates a data-parallel candidate to a tensor-parallel candidate.\<close>

definition sparseNodeLocalTail :: "rounding \<Rightarrow> cocclTrainingCommStats \<Rightarrow> cocclTrainingCommStats \<Rightarrow> bool" where
  "sparseNodeLocalTail fl dp tp \<longleftrightarrow>
     traceNodes (statsDescriptor dp) = 1 \<and> stableCollectivePattern dp \<and> stableCollectivePattern tp \<and>
     dlt (statsCallsPerIteration dp) (statsCallsPerIteration tp) \<and>
     toUnsigned (dmul fl (fl (real (unat (statsMedianBytes tp)))) (Fin (5 / 4))) \<le> statsMedianBytes dp"

definition orderPair ::
  "rounding \<Rightarrow> cocclTrainingTraceEvent list \<Rightarrow> cocclTrainingIterationRange list \<Rightarrow> double \<Rightarrow> stats_entry \<Rightarrow> stats_entry \<Rightarrow>
   evidence_map \<Rightarrow> evidence_map" where
  "orderPair fl events iters coverage dp tp E =
     (if fst dp = fst tp \<or> isPipeline fl (E (fst tp)) \<or> traceNodes (statsDescriptor (snd tp)) > 1 then E
      else
        let relation = dmul fl (orderRelationSupport fl (fst dp) (fst tp) events iters) coverage in
        if dlt relation (kRoleEvidenceThreshold fl) then E
        else
          let seeded = seededDp fl (E (fst dp)) in
          if \<not> seeded \<and> \<not> sparseNodeLocalTail fl (snd dp) (snd tp) then E
          else
            let E1 = (if seeded then E else E(fst dp := (E (fst dp))\<lparr>evidenceDp := relation\<rparr>));
                E2 = E1(fst dp := (E1 (fst dp))\<lparr>orderAsDp := dmax (orderAsDp (E1 (fst dp))) relation\<rparr>) in
            if dlt (evidenceDp (E2 (fst tp))) (kRoleEvidenceThreshold fl) \<and> stableCollectivePattern (snd tp) \<and>
               dle (Fin 2) (statsCallsPerIteration (snd tp))
            then E2(fst tp := (E2 (fst tp))\<lparr>evidenceTp := dmax (evidenceTp (E2 (fst tp))) relation,
                                orderAsTp := dmax (orderAsTp (E2 (fst tp))) relation\<rparr>)
            else E2)"

definition orderPass ::
  "rounding \<Rightarrow> cocclTrainingTraceEvent list \<Rightarrow> cocclTrainingIterationRange list \<Rightarrow> double \<Rightarrow> stats_entry list \<Rightarrow>
   evidence_map \<Rightarrow> evidence_map" where
  "orderPass fl events iters coverage table E =
     fold (\<lambda>dp E. if isPipeline fl (E (fst dp)) then E
                  else fold (\<lambda>tp E. orderPair fl events iters coverage dp tp E) table E) table E"

text \<open>The second pass uses bursts between pipeline calls, the third a known data-parallel communicator.\<close>

definition interiorPass ::
  "rounding \<Rightarrow> cocclTrainingTraceEvent list \<Rightarrow> cocclTrainingIterationRange list \<Rightarrow> double \<Rightarrow> 64 word list \<Rightarrow> stats_entry list \<Rightarrow>
   evidence_map \<Rightarrow> evidence_map" where
  "interiorPass fl events iters coverage ppComms table E =
     fold (\<lambda>entry E.
       if traceNodes (statsDescriptor (snd entry)) > 1 \<or> isPipeline fl (E (fst entry)) \<or> seededDp fl (E (fst entry)) \<or>
          \<not> stableCollectivePattern (snd entry) \<or> dlt (statsCallsPerIteration (snd entry)) (Fin 2)
       then E
       else
         let interior = dmul fl (ppInteriorSupport fl (fst entry) ppComms events iters) coverage in
         E(fst entry := (E (fst entry))\<lparr>evidenceTp := dmax (evidenceTp (E (fst entry))) interior,
             orderAsTp := dmax (orderAsTp (E (fst entry))) interior\<rparr>)) table E"

definition residualPass :: "rounding \<Rightarrow> double \<Rightarrow> stats_entry list \<Rightarrow> evidence_map \<Rightarrow> evidence_map" where
  "residualPass fl coverage table E =
     (if \<exists>entry \<in> set table. seededDp fl (E (fst entry))
      then fold (\<lambda>entry E.
        if traceNodes (statsDescriptor (snd entry)) = 1 \<and>
           dlt (evidenceDp (E (fst entry))) (kRoleEvidenceThreshold fl) \<and>
           dlt (evidencePp (E (fst entry))) (fl (70 / 100)) \<and>
           stableCollectivePattern (snd entry) \<and> dle (Fin 2) (statsCallsPerIteration (snd entry))
        then E(fst entry := (E (fst entry))\<lparr>evidenceTp :=
               dmax (evidenceTp (E (fst entry))) (dmul fl (fl (60 / 100)) coverage)\<rparr>)
        else E) table E
      else E)"

section \<open>Decision\<close>

definition weighRoles :: "rounding \<Rightarrow> double \<Rightarrow> double \<Rightarrow> cocclTrainingClassification \<Rightarrow> cocclTrainingClassification" where
  "weighRoles fl dp tp c =
     (let c1 = c\<lparr>candidateRole := (if dle tp dp
            then (if dlt (Fin 0) dp then TrainingRoleDataParallel else TrainingRoleUnknown)
            else TrainingRoleTensorParallel)\<rparr> in
      if dle (kRoleEvidenceThreshold fl) dp \<and>
         (dlt tp (kRoleEvidenceThreshold fl) \<or> dle (kRoleConflictMargin fl) (dsub fl dp tp))
      then c1\<lparr>classRole := TrainingRoleDataParallel, confidence := dp\<rparr>
      else if dle (kRoleEvidenceThreshold fl) tp \<and>
         (dlt dp (kRoleEvidenceThreshold fl) \<or> dle (kRoleConflictMargin fl) (dsub fl tp dp))
      then c1\<lparr>classRole := TrainingRoleTensorParallel, confidence := tp\<rparr>
      else c1\<lparr>classRole := TrainingRoleUnknown, confidence := dmax dp tp\<rparr>)"

definition decideRole ::
  "rounding \<Rightarrow> cocclTrainingCommStats \<Rightarrow> cocclTrainingEvidence \<Rightarrow> cocclTrainingClassification \<Rightarrow> cocclTrainingClassification" where
  "decideRole fl stats evidence c =
     (if isPipeline fl evidence
      then c\<lparr>classRole := TrainingRolePipelineParallel, candidateRole := TrainingRolePipelineParallel,
             confidence := evidencePp evidence\<rparr>
      else weighRoles fl (evidenceDp evidence)
             (if traceNodes (statsDescriptor stats) > 1 then Fin 0 else evidenceTp evidence) c)"

definition classificationOf :: "rounding \<Rightarrow> cocclTrainingCommStats \<Rightarrow> cocclTrainingEvidence \<Rightarrow> cocclTrainingClassification" where
  "classificationOf fl stats evidence =
     decideRole fl stats evidence (emptyClassification\<lparr>observedCalls := word_of_nat (statsCalls stats),
       sizeConsistency := statsSizeConsistency stats, cycleSupport := patternSupport stats,
       overlapPatternSupport := statsOverlapSupport stats,
       orderSupport := dmax (orderAsDp evidence) (orderAsTp evidence),
       agToRsRatio := representativeAgToRsRatio stats, callsPerIteration := statsCallsPerIteration stats,
       medianBytes := statsMedianBytes stats, committed := True\<rparr>)"

text \<open>
  \<^verbatim>\<open>statsById\<close>, in the order of the communicator ids; a further communicator with the same id replaces
  the statistics and goes on with the evidence of the one before.
\<close>

definition statsTable ::
  "rounding \<Rightarrow> rounding \<Rightarrow> cocclTrainingTraceComm list \<Rightarrow> cocclTrainingTraceEvent list \<Rightarrow> cocclTrainingIterationRange list \<Rightarrow>
   stats_entry list" where
  "statsTable fl ext communicators events iters =
     fold (\<lambda>communicator. assocPut (traceCommId communicator) (buildCommStats fl ext communicator events iters))
       communicators []"

definition firstEvidence ::
  "rounding \<Rightarrow> rounding \<Rightarrow> cocclTrainingConfig \<Rightarrow> cocclTrainingTraceEvent list \<Rightarrow> cocclTrainingIterationRange list \<Rightarrow> double \<Rightarrow>
   cocclTrainingTraceComm list \<Rightarrow> evidence_map" where
  "firstEvidence fl ext cfg events iters coverage communicators =
     fold (\<lambda>communicator E. E(traceCommId communicator :=
         ownEvidence fl cfg coverage (buildCommStats fl ext communicator events iters) (E (traceCommId communicator))))
       communicators (\<lambda>_. noEvidence)"

definition calibrationCoverage :: "rounding \<Rightarrow> cocclTrainingIterationRange list \<Rightarrow> int \<Rightarrow> double" where
  "calibrationCoverage fl iters targetIterations =
     (if targetIterations \<le> 0 then Fin 0
      else dmin (Fin 1) (ddiv fl (ofCount fl (length iters)) (fl (real_of_int targetIterations))))"

definition evidenceTable ::
  "rounding \<Rightarrow> cocclTrainingTraceEvent list \<Rightarrow> cocclTrainingIterationRange list \<Rightarrow> double \<Rightarrow>
   stats_entry list \<Rightarrow> evidence_map \<Rightarrow> evidence_map" where
  "evidenceTable fl events iters coverage table E0 =
     (let ppComms = map fst (filter (\<lambda>entry. isPipeline fl (E0 (fst entry))) table) in
      residualPass fl coverage table
        (interiorPass fl events iters coverage ppComms table
          (orderPass fl events iters coverage table E0)))"

definition traceEvidence ::
  "rounding \<Rightarrow> rounding \<Rightarrow> cocclTrainingTraceComm list \<Rightarrow> cocclTrainingTraceEvent list \<Rightarrow> cocclTrainingIterationRange list \<Rightarrow>
   int \<Rightarrow> cocclTrainingConfig \<Rightarrow> evidence_map" where
  "traceEvidence fl ext communicators events iters targetIterations cfg =
     (let coverage = calibrationCoverage fl iters targetIterations in
      evidenceTable fl events iters coverage (statsTable fl ext communicators events iters)
        (firstEvidence fl ext cfg events iters coverage communicators))"

definition cocclTrainingClassifyTrace ::
  "rounding \<Rightarrow> rounding \<Rightarrow> cocclTrainingTraceComm list \<Rightarrow> cocclTrainingTraceEvent list \<Rightarrow> cocclTrainingIterationRange list \<Rightarrow>
   int \<Rightarrow> cocclTrainingConfig \<Rightarrow> (64 word \<times> cocclTrainingClassification) list" where
  "cocclTrainingClassifyTrace fl ext communicators events iters targetIterations cfg =
     (let E = traceEvidence fl ext communicators events iters targetIterations cfg in
      map (\<lambda>(comm, stats). (comm, classificationOf fl stats (E comm))) (statsTable fl ext communicators events iters))"

section \<open>What a classification means\<close>

lemma dlt_not_dle: "dlt a b \<Longrightarrow> \<not> dle b a"
  using dlt_trans dlt_irrefl unfolding dle_def by blast

lemma assocPut_keys:
  assumes "sorted_wrt (<) (map fst xs)"
  shows "sorted_wrt (<) (map fst (assocPut k v xs)) \<and> set (map fst (assocPut k v xs)) = insert k (set (map fst xs))"
  using assms
proof (induction k v xs rule: assocPut.induct)
  case (2 k v j u xs)
  show ?case
  proof (cases "j = k \<or> k < j")
    case True
    with 2(2) show ?thesis by (auto intro: less_trans)
  next
    case False
    then have "j < k" by auto
    with False 2 show ?thesis by auto
  qed
qed simp

lemma statsTable_keys:
  "map fst (statsTable fl ext communicators events iters) = sorted_list_of_set (traceCommId ` set communicators)"
proof -
  have "sorted_wrt (<) (map fst (fold (\<lambda>c. assocPut (traceCommId c) (f c)) cs xs)) \<and>
      set (map fst (fold (\<lambda>c. assocPut (traceCommId c) (f c)) cs xs)) = traceCommId ` set cs \<union> set (map fst xs)"
    if "sorted_wrt (<) (map fst xs)" for cs xs and f :: "_ \<Rightarrow> cocclTrainingCommStats"
    using that
  proof (induction cs arbitrary: xs)
    case (Cons c cs)
    from assocPut_keys [OF Cons.prems, of "traceCommId c" "f c"] Cons.IH [of "assocPut (traceCommId c) (f c) xs"]
    show ?case by auto
  qed simp
  from this [of "[]" "\<lambda>c. buildCommStats fl ext c events iters" communicators]
  have t: "sorted_wrt (<) (map fst (statsTable fl ext communicators events iters))"
    "set (map fst (statsTable fl ext communicators events iters)) = traceCommId ` set communicators"
    by (simp_all add: statsTable_def)
  then have "sorted (map fst (statsTable fl ext communicators events iters))" "distinct (map fst (statsTable fl ext communicators events iters))"
    by (simp_all add: strict_sorted_iff)
  from sorted_list_of_set.idem_if_sorted_distinct [OF this] show ?thesis unfolding t(2) by (rule sym)
qed

lemma statsTable_lookup:
  assumes "distinct (map traceCommId communicators)" and "communicator \<in> set communicators"
  shows "map_of (statsTable fl ext communicators events iters) (traceCommId communicator) =
    Some (buildCommStats fl ext communicator events iters)"
proof -
  let ?b = "\<lambda>c. buildCommStats fl ext c events iters"
  have keep: "map_of (fold (\<lambda>c. assocPut (traceCommId c) (?b c)) cs xs) k = map_of xs k" if "k \<notin> traceCommId ` set cs" for k cs xs
    using that by (induction cs arbitrary: xs) (simp_all add: assocPut_lookup)
  have "map_of (fold (\<lambda>c. assocPut (traceCommId c) (?b c)) cs xs) (traceCommId communicator) = Some (?b communicator)"
    if "distinct (map traceCommId cs)" "communicator \<in> set cs" for cs xs
    using that
  proof (induction cs arbitrary: xs)
    case (Cons c cs)
    show ?case
    proof (cases "c = communicator")
      case True
      with Cons.prems keep [of "traceCommId communicator" cs] show ?thesis by (simp add: assocPut_lookup)
    next
      case False
      with Cons show ?thesis by simp
    qed
  qed simp
  from this [OF assms] show ?thesis by (simp add: statsTable_def)
qed

lemma firstEvidence_own:
  assumes "distinct (map traceCommId communicators)" and "communicator \<in> set communicators"
  shows "firstEvidence fl ext cfg events iters coverage communicators (traceCommId communicator) =
    ownEvidence fl cfg coverage (buildCommStats fl ext communicator events iters) noEvidence"
proof -
  let ?f = "\<lambda>c E. E(traceCommId c := ownEvidence fl cfg coverage (buildCommStats fl ext c events iters) (E (traceCommId c)))"
  have keep: "fold ?f cs E k = E k" if "k \<notin> traceCommId ` set cs" for k cs E
    using that by (induction cs arbitrary: E) simp_all
  have "fold ?f cs E (traceCommId communicator) =
      ownEvidence fl cfg coverage (buildCommStats fl ext communicator events iters) (E (traceCommId communicator))"
    if "distinct (map traceCommId cs)" "communicator \<in> set cs" for cs E
    using that
  proof (induction cs arbitrary: E)
    case (Cons c cs)
    show ?case
    proof (cases "c = communicator")
      case True
      have "fold ?f (c # cs) E (traceCommId communicator) = fold ?f cs (?f c E) (traceCommId communicator)"
        by (simp only: fold_simps)
      also have "\<dots> = ?f c E (traceCommId communicator)" by (rule keep) (use Cons.prems True in simp)
      also have "\<dots> = ownEvidence fl cfg coverage (buildCommStats fl ext communicator events iters) (E (traceCommId communicator))"
        unfolding True by (rule fun_upd_same)
      finally show ?thesis .
    next
      case False
      then have other: "traceCommId communicator \<noteq> traceCommId c" using Cons.prems by (auto simp: image_iff)
      have "fold ?f (c # cs) E (traceCommId communicator) = fold ?f cs (?f c E) (traceCommId communicator)"
        by (simp only: fold_simps)
      also have "\<dots> = ownEvidence fl cfg coverage (buildCommStats fl ext communicator events iters) (?f c E (traceCommId communicator))"
        by (rule Cons.IH) (use Cons.prems False in auto)
      also have "?f c E (traceCommId communicator) = E (traceCommId communicator)" by (rule fun_upd_other [OF other])
      finally show ?thesis .
    qed
  qed simp
  from this [OF assms] show ?thesis by (simp add: firstEvidence_def)
qed

text \<open>The passes never touch the evidence for a pipeline role.\<close>

definition pipelineIs :: "64 word \<Rightarrow> double \<Rightarrow> evidence_map \<Rightarrow> bool" where
  "pipelineIs k pp E \<longleftrightarrow> evidencePp (E k) = pp"

text \<open>Nor a communicator whose data-parallel evidence is full.\<close>

definition settledDp :: "64 word \<Rightarrow> evidence_map \<Rightarrow> bool" where
  "settledDp k E \<longleftrightarrow> evidenceDp (E k) = Fin 1 \<and> evidenceTp (E k) = Fin 0"

lemma fold_keeps: "(\<And>x E. x \<in> set xs \<Longrightarrow> P E \<Longrightarrow> P (f x E)) \<Longrightarrow> P E \<Longrightarrow> P (fold f xs E)"
  by (induction xs arbitrary: E) auto

lemma orderPair_keeps:
  "pipelineIs k pp E \<Longrightarrow> pipelineIs k pp (orderPair fl events iters coverage dp tp E)"
  "dle (fl (60 / 100)) (Fin 1) \<Longrightarrow> settledDp k E \<Longrightarrow> settledDp k (orderPair fl events iters coverage dp tp E)"
  by (auto simp: orderPair_def pipelineIs_def settledDp_def Let_def seededDp_def kRoleEvidenceThreshold_def dest: dlt_not_dle)

lemma orderPass_keeps:
  assumes "\<And>dp tp E. P E \<Longrightarrow> P (orderPair fl events iters coverage dp tp E)" and "P E"
  shows "P (orderPass fl events iters coverage table E)"
  unfolding orderPass_def
proof (rule fold_keeps [where P = P])
  fix dp and E :: evidence_map assume "P E"
  then have "P (fold (\<lambda>tp E. orderPair fl events iters coverage dp tp E) table E)"
    by (intro fold_keeps [where P = P] assms(1))
  with \<open>P E\<close> show "P (if isPipeline fl (E (fst dp)) then E
      else fold (\<lambda>tp E. orderPair fl events iters coverage dp tp E) table E)" by simp
qed (rule assms(2))

lemma interiorPass_keeps:
  "pipelineIs k pp E \<Longrightarrow> pipelineIs k pp (interiorPass fl events iters coverage pps table E)"
  "dle (kRoleEvidenceThreshold fl) (Fin 1) \<Longrightarrow> settledDp k E \<Longrightarrow> settledDp k (interiorPass fl events iters coverage pps table E)"
proof -
  show "pipelineIs k pp E \<Longrightarrow> pipelineIs k pp (interiorPass fl events iters coverage pps table E)"
    unfolding interiorPass_def by (rule fold_keeps [where P = "pipelineIs k pp"]) (auto simp: pipelineIs_def Let_def)
  show "settledDp k E \<Longrightarrow> settledDp k (interiorPass fl events iters coverage pps table E)"
    if "dle (kRoleEvidenceThreshold fl) (Fin 1)"
    unfolding interiorPass_def
    by (rule fold_keeps [where P = "settledDp k"]) (use that in \<open>auto simp: settledDp_def seededDp_def Let_def\<close>)
qed

lemma residualPass_keeps:
  "pipelineIs k pp E \<Longrightarrow> pipelineIs k pp (residualPass fl coverage table E)"
  "\<not> dlt (Fin 1) (kRoleEvidenceThreshold fl) \<Longrightarrow> settledDp k E \<Longrightarrow> settledDp k (residualPass fl coverage table E)"
proof -
  have both: "P (residualPass fl coverage table E)" if "P E" and "\<And>(entry :: stats_entry) E. P E \<Longrightarrow>
      dlt (evidenceDp (E (fst entry))) (kRoleEvidenceThreshold fl) \<Longrightarrow>
      P (E(fst entry := (E (fst entry))\<lparr>evidenceTp := dmax (evidenceTp (E (fst entry))) (dmul fl (fl (60 / 100)) coverage)\<rparr>))"
    for P E
    unfolding residualPass_def
  proof (rule if_split [where P = P, THEN iffD2], intro conjI impI)
    show "P (fold (\<lambda>entry E.
        if traceNodes (statsDescriptor (snd entry)) = 1 \<and>
           dlt (evidenceDp (E (fst entry))) (kRoleEvidenceThreshold fl) \<and>
           dlt (evidencePp (E (fst entry))) (fl (70 / 100)) \<and>
           stableCollectivePattern (snd entry) \<and> dle (Fin 2) (statsCallsPerIteration (snd entry))
        then E(fst entry := (E (fst entry))\<lparr>evidenceTp :=
               dmax (evidenceTp (E (fst entry))) (dmul fl (fl (60 / 100)) coverage)\<rparr>)
        else E) table E)"
      by (rule fold_keeps [where P = P, OF _ that(1)], rule if_split [where P = P, THEN iffD2], intro conjI impI)
        (blast intro: that(2))+
  qed (rule that(1))
  show "pipelineIs k pp E \<Longrightarrow> pipelineIs k pp (residualPass fl coverage table E)"
    by (rule both [where P = "pipelineIs k pp"]) (auto simp: pipelineIs_def)
  show "settledDp k E \<Longrightarrow> settledDp k (residualPass fl coverage table E)"
    if "\<not> dlt (Fin 1) (kRoleEvidenceThreshold fl)"
    by (rule both [where P = "settledDp k"]) (use that in \<open>auto simp: settledDp_def\<close>)
qed

lemma evidenceTable_keeps:
  "pipelineIs k pp E \<Longrightarrow> pipelineIs k pp (evidenceTable fl events iters coverage table E)"
  "dle (fl (60 / 100)) (Fin 1) \<Longrightarrow> settledDp k E \<Longrightarrow> settledDp k (evidenceTable fl events iters coverage table E)"
proof -
  show "pipelineIs k pp E \<Longrightarrow> pipelineIs k pp (evidenceTable fl events iters coverage table E)"
    unfolding evidenceTable_def Let_def
    by (intro residualPass_keeps(1) interiorPass_keeps(1) orderPass_keeps [where P = "pipelineIs k pp"] orderPair_keeps(1))
  assume one: "dle (fl (60 / 100)) (Fin 1)"
  have full: "dle (kRoleEvidenceThreshold fl) (Fin 1)" "\<not> dlt (Fin 1) (kRoleEvidenceThreshold fl)"
    using one dlt_not_dle unfolding kRoleEvidenceThreshold_def by blast+
  show "settledDp k E \<Longrightarrow> settledDp k (evidenceTable fl events iters coverage table E)"
    unfolding evidenceTable_def Let_def
    by (intro residualPass_keeps(2) interiorPass_keeps(2) full orderPass_keeps [where P = "settledDp k"] orderPair_keeps(2) [where fl = fl, OF one])
qed

lemma decideRole_committed [simp]: "committed (decideRole fl stats evidence c) = committed c"
  by (simp add: decideRole_def weighRoles_def Let_def)

lemma stats_descriptor [simp]: "statsDescriptor (buildCommStats fl ext descriptor events iters) = descriptor"
  by (simp add: buildCommStats_def Let_def split: prod.splits)

lemma classify_lookup:
  assumes "distinct (map traceCommId communicators)" and "communicator \<in> set communicators"
  shows "map_of (cocclTrainingClassifyTrace fl ext communicators events iters targetIterations cfg) (traceCommId communicator) =
    Some (classificationOf fl (buildCommStats fl ext communicator events iters)
      (traceEvidence fl ext communicators events iters targetIterations cfg (traceCommId communicator)))"
proof -
  have "map_of (map (\<lambda>(comm, stats). (comm, f comm stats)) xs) k = map_option (f k) (map_of xs k)"
    for f :: "64 word \<Rightarrow> cocclTrainingCommStats \<Rightarrow> cocclTrainingClassification" and xs k
    by (induction xs) auto
  then show ?thesis
    by (simp add: cocclTrainingClassifyTrace_def Let_def statsTable_lookup [OF assms])
qed

lemma topology_not_count: "statsTopologyRole cfg stats \<noteq> TrainingRoleCount"
  by (auto simp: statsTopologyRole_def cocclTrainingTopologyRole_def Let_def)

text \<open>The pipeline evidence reaches its threshold exactly when the statistics do.\<close>

lemma own_pipeline:
  assumes "ieee_rounding fl" and "fl 1 = Fin 1" and "dlt (Fin 0) (fl (60 / 100))"
  shows "dle (fl (70 / 100)) (evidencePp (ownEvidence fl cfg coverage stats noEvidence)) \<longleftrightarrow>
    statsTopologyRole cfg stats = TrainingRolePipelineParallel \<or>
    statsTopologyRole cfg stats = TrainingRoleUnknown \<and> 1 < pipelineParallelSize cfg \<and>
      dle (fl (70 / 100)) (p2pShare stats) \<and> dle (fl (80 / 100)) (peerConcentration stats)"
proof -
  have mono: "dle (fl x) (fl y)" if "x \<le> y" for x y using assms(1) that by (simp add: ieee_rounding_def)
  have zero: "\<not> dle (fl (70 / 100)) (Fin 0)"
  proof
    assume "dle (fl (70 / 100)) (Fin 0)"
    moreover have "dle (fl (60 / 100)) (fl (70 / 100))" by (rule mono) simp
    ultimately have "dle (fl (60 / 100)) (Fin 0)" using dle_trans by blast
    with dlt_not_dle [OF assms(3)] show False by contradiction
  qed
  have one: "dle (fl (70 / 100)) (Fin 1)" using mono [of "70 / 100" 1] assms(2) by simp
  have min: "dle (fl (70 / 100)) (dmin a b)" if "dle (fl (70 / 100)) a" "dle (fl (80 / 100)) b" for a b
  proof -
    have "dle (fl (70 / 100)) (fl (80 / 100))" by (rule mono) simp
    with that(2) have "dle (fl (70 / 100)) b" using dle_trans by blast
    with that(1) show ?thesis by (simp add: dmin_def)
  qed
  show ?thesis
    using zero one min topology_not_count [of cfg stats]
    by (cases "statsTopologyRole cfg stats") (auto simp: ownEvidence_def noEvidence_def Let_def)
qed


section \<open>Examples\<close>

definition wideComm :: cocclTrainingTraceComm where
  "wideComm = \<lparr>traceCommId = 1, traceCommHash = 9, traceRank = 0, traceRanks = 8, traceNodes = 2, traceLocalRanks = 4\<rparr>"

definition wideConfig :: cocclTrainingConfig where
  "wideConfig = defaultTrainingConfig\<lparr>tensorParallelSize := 8, dataParallelSize := 2\<rparr>"

text \<open>
  The configured size of a tensor-parallel communicator decides its role on its own, but the
  classification of its trace drops that evidence when the communicator spans nodes.
\<close>

theorem wide_tensor_parallel_dropped:
  assumes "statsTopologyRole cfg (buildCommStats fl ext communicator events iters) = TrainingRoleTensorParallel"
    and "1 < traceNodes communicator"
    and "dlt (Fin 0) (kRoleEvidenceThreshold fl)" "dlt (Fin 0) (fl (70 / 100))"
  shows "map (classRole \<circ> snd) (cocclTrainingClassifyTrace fl ext [communicator] events iters targetIterations cfg) =
    [TrainingRoleUnknown]"
proof -
  let ?stats = "buildCommStats fl ext communicator events iters"
  let ?cov = "calibrationCoverage fl iters targetIterations"
  let ?E = "firstEvidence fl ext cfg events iters ?cov [communicator]"
  have own: "?E (traceCommId communicator) = noEvidence\<lparr>evidenceTp := Fin 1\<rparr>"
    using assms(1) by (simp add: firstEvidence_def ownEvidence_def Let_def)
  have weak: "\<not> isPipeline fl (noEvidence\<lparr>evidenceTp := Fin 1\<rparr>)" "\<not> seededDp fl (noEvidence\<lparr>evidenceTp := Fin 1\<rparr>)"
    using assms(3,4) dlt_not_dle by (simp_all add: isPipeline_def seededDp_def noEvidence_def)
  have "evidenceTable fl events iters ?cov [(traceCommId communicator, ?stats)] ?E = ?E"
    using assms(2) own weak
    by (simp add: evidenceTable_def Let_def orderPass_def orderPair_def interiorPass_def residualPass_def)
  then have "cocclTrainingClassifyTrace fl ext [communicator] events iters targetIterations cfg =
      [(traceCommId communicator, classificationOf fl ?stats (noEvidence\<lparr>evidenceTp := Fin 1\<rparr>))]"
    using own by (simp add: cocclTrainingClassifyTrace_def traceEvidence_def Let_def statsTable_def)
  moreover have "classRole (classificationOf fl ?stats (noEvidence\<lparr>evidenceTp := Fin 1\<rparr>)) = TrainingRoleUnknown"
    using assms(2-4) weak(1) dlt_not_dle [OF assms(3)]
    by (simp add: classificationOf_def decideRole_def weighRoles_def Let_def noEvidence_def)
  ultimately show ?thesis by simp
qed

theorem wide_tensor_parallel_dropped_witness:
  "cocclTrainingTopologyRole wideComm ncclFuncAllReduce wideConfig = TrainingRoleTensorParallel \<and>
   map (classRole \<circ> snd) (cocclTrainingClassifyTrace Fin Fin [wideComm] exampleTrace
     [\<lparr>rangeBegin = 0, rangeEnd = 2\<rparr>, \<lparr>rangeBegin = 2, rangeEnd = 4\<rparr>] 2 wideConfig) = [TrainingRoleUnknown]"
proof
  show topo: "cocclTrainingTopologyRole wideComm ncclFuncAllReduce wideConfig = TrainingRoleTensorParallel"
    by (simp add: cocclTrainingTopologyRole_def isP2p_def isCollective_def wideComm_def wideConfig_def defaultTrainingConfig_def)
  have "statsCalls (buildCommStats Fin Fin wideComm exampleTrace iters) = 2"
    "p2pCalls (buildCommStats Fin Fin wideComm exampleTrace iters) = 0"
    "collectiveCalls (buildCommStats Fin Fin wideComm exampleTrace iters) = 2" for iters
    by (simp_all add: buildCommStats_def Let_def split_beta ofComm_def exampleTrace_def exampleEvent_def wideComm_def
        isP2p_def isCollective_def)
  then have "statsTopologyRole wideConfig (buildCommStats Fin Fin wideComm exampleTrace iters) = TrainingRoleTensorParallel" for iters
    using topo by (simp add: statsTopologyRole_def)
  then show "map (classRole \<circ> snd) (cocclTrainingClassifyTrace Fin Fin [wideComm] exampleTrace
     [\<lparr>rangeBegin = 0, rangeEnd = 2\<rparr>, \<lparr>rangeBegin = 2, rangeEnd = 4\<rparr>] 2 wideConfig) = [TrainingRoleUnknown]"
    by (rule wide_tensor_parallel_dropped) (simp_all add: wideComm_def kRoleEvidenceThreshold_def)
qed


end
