(* ===== verification/Training_Assist.thy ===== *)
theory Training_Assist
  imports Training_Classify Native_Call
begin

text \<open>
  The training assistant (\<^verbatim>\<open>core/training/coccl_training_assist.cc\<close>): the registry of communicators, the
  trace of observed calls, and the activation of a role. The mutex makes each exported operation one
  step. Logging is left out.
\<close>

section \<open>State\<close>

record cocclTrainingAssistCommState =
  assistDescriptor :: cocclTrainingTraceComm
  assistClassification :: cocclTrainingClassification
  assistCalls :: "64 word"
  routingActivationCall :: "64 word"

text \<open>\<^verbatim>\<open>std::map<ncclComm_t, ...>\<close>: entries in the order of the addresses.\<close>

record training_state =
  nextCommId :: "64 word"
  nextSequence :: "64 word"
  assistComms :: "(ptr \<times> cocclTrainingAssistCommState) list"
  trainingEvents :: "cocclTrainingTraceEvent list"

definition initialTraining :: training_state where
  "initialTraining = \<lparr>nextCommId = 1, nextSequence = 1, assistComms = [], trainingEvents = []\<rparr>"

definition kMaxTrainingEvents :: nat where
  "kMaxTrainingEvents = 65536"

definition kCocclTrainingMinimumObservedBytes :: size_t where
  "kCocclTrainingMinimumObservedBytes = push_bit 20 1"

definition cocclTrainingAssistEnabled :: "cocclConfig \<Rightarrow> bool" where
  "cocclTrainingAssistEnabled cfg \<longleftrightarrow> runtimeMode (runtimeConfig cfg) = ModeTraining"

definition checkedLogicalBytes :: "cocclInfo \<Rightarrow> size_t option" where
  "checkedLogicalBytes info =
     (case infoComm info of
        None \<Rightarrow> None
      | Some comm \<Rightarrow>
          (case cocclGetOperationDescriptor (infoOperation info) of
             None \<Rightarrow> None
           | Some descriptor \<Rightarrow>
               let datatypeBytes = ncclTypeSize (infoDatatype info) in
               if datatypeBytes \<le> 0 \<or> infoCount info > SIZE_MAX div size_of_int datatypeBytes then None
               else
                 let result = infoCount info * size_of_int datatypeBytes in
                 if cocclOperationHasTrait (Some descriptor) cocclOperationTraitScaleBytesByRanks
                 then (if nRanks comm \<le> 0 \<or> result > SIZE_MAX div size_of_int (nRanks comm) then None
                       else Some (result * size_of_int (nRanks comm)))
                 else Some result))"

definition allCommsCommittedLocked :: "training_state \<Rightarrow> bool" where
  "allCommsCommittedLocked st \<longleftrightarrow> list_all (\<lambda>entry. committed (assistClassification (snd entry))) (assistComms st)"

definition releaseTraceLocked :: "training_state \<Rightarrow> training_state" where
  "releaseTraceLocked st = st\<lparr>trainingEvents := []\<rparr>"

definition releaseWhenDone :: "training_state \<Rightarrow> training_state" where
  "releaseWhenDone st = (if allCommsCommittedLocked st then releaseTraceLocked st else st)"

definition updateComm ::
  "ptr \<Rightarrow> (cocclTrainingAssistCommState \<Rightarrow> cocclTrainingAssistCommState) \<Rightarrow> training_state \<Rightarrow> training_state" where
  "updateComm comm f st =
     st\<lparr>assistComms := map (\<lambda>entry. if fst entry = comm then (fst entry, f (snd entry)) else entry) (assistComms st)\<rparr>"

section \<open>Registration\<close>

definition cocclTrainingAssistRegister :: "cocclConfig \<Rightarrow> ncclComm option \<Rightarrow> training_state \<Rightarrow> training_state" where
  "cocclTrainingAssistRegister cfg comm st =
     (case comm of
        None \<Rightarrow> st
      | Some c \<Rightarrow>
          if \<not> cocclTrainingAssistEnabled cfg \<or> map_of (assistComms st) (self c) \<noteq> None then st
          else st\<lparr>nextCommId := nextCommId st + 1,
                  assistComms := insort_key fst (self c,
                    \<lparr>assistDescriptor = \<lparr>traceCommId = nextCommId st, traceCommHash = commHash c, traceRank = rank c,
                       traceRanks = nRanks c, traceNodes = nNodes c, traceLocalRanks = localRanks c\<rparr>,
                     assistClassification = emptyClassification, assistCalls = 0, routingActivationCall = 0\<rparr>) (assistComms st)\<rparr>)"

definition cocclTrainingAssistUnregister :: "ncclComm option \<Rightarrow> training_state \<Rightarrow> training_state" where
  "cocclTrainingAssistUnregister comm st =
     (case comm of
        None \<Rightarrow> st
      | Some c \<Rightarrow>
          let st1 = st\<lparr>assistComms := filter (\<lambda>entry. fst entry \<noteq> self c) (assistComms st)\<rparr> in
          if assistComms st1 = [] then releaseTraceLocked st1 else st1)"

section \<open>Observation\<close>

definition commitComm ::
  "int \<Rightarrow> (64 word \<times> cocclTrainingClassification) list \<Rightarrow> cocclTrainingAssistCommState \<Rightarrow> cocclTrainingAssistCommState" where
  "commitComm targetIterations results cs =
     (if committed (assistClassification cs) then cs
      else
        let found = (case map_of results (traceCommId (assistDescriptor cs)) of
              Some c \<Rightarrow> c | None \<Rightarrow> assistClassification cs);
            cs1 = cs\<lparr>assistClassification := found\<lparr>committed := True\<rparr>\<rparr> in
        if classRole found \<noteq> TrainingRoleUnknown
        then cs1\<lparr>routingActivationCall :=
               2 * word_of_int targetIterations * max 1 (toUnsigned (callsPerIteration found))\<rparr>
        else cs1)"

definition commitTraceLocked ::
  "rounding \<Rightarrow> rounding \<Rightarrow> cocclTrainingConfig \<Rightarrow> cocclTrainingIterationRange list \<Rightarrow> int \<Rightarrow> training_state \<Rightarrow> training_state" where
  "commitTraceLocked fl ext cfg iters targetIterations st =
     (let communicators = map (\<lambda>entry. assistDescriptor (snd entry)) (assistComms st);
          results = cocclTrainingClassifyTrace fl ext communicators (trainingEvents st) iters targetIterations cfg in
      releaseWhenDone (st\<lparr>assistComms := map (\<lambda>(comm, cs). (comm, commitComm targetIterations results cs)) (assistComms st)\<rparr>))"

text \<open>The event is stored, and the trace is committed when iterations are detected or it is full.\<close>

definition recordEvent ::
  "rounding \<Rightarrow> rounding \<Rightarrow> cocclTrainingConfig \<Rightarrow> cocclTrainingTraceEvent \<Rightarrow> training_state \<Rightarrow> training_state" where
  "recordEvent fl ext cfg event st =
     (let st1 = st\<lparr>nextSequence := nextSequence st + 1, trainingEvents := trainingEvents st @ [event]\<rparr>;
          targetIterations = observationIterations cfg;
          reachedLimit = (length (trainingEvents st1) \<ge> kMaxTrainingEvents);
          detectionPoint = (length (trainingEvents st1) \<ge> nat targetIterations * kMinimumCycleEvents);
          detected = (if detectionPoint then cocclTrainingDetectIterations fl (trainingEvents st1) targetIterations else None) in
      case detected of
        Some iters \<Rightarrow> commitTraceLocked fl ext cfg iters targetIterations st1
      | None \<Rightarrow>
          if reachedLimit
          then commitTraceLocked fl ext cfg
            (case cocclTrainingDetectIterations fl (trainingEvents st1) (min 3 targetIterations) of
               Some iters \<Rightarrow> iters
             | None \<Rightarrow> [\<lparr>rangeBegin = 0, rangeEnd = length (trainingEvents st1)\<rparr>]) targetIterations st1
          else st1)"

definition commitRole :: "cocclTrainingRole \<Rightarrow> cocclTrainingAssistCommState \<Rightarrow> cocclTrainingAssistCommState" where
  "commitRole topologyRole cs =
     cs\<lparr>assistClassification := (assistClassification cs)\<lparr>classRole := topologyRole, candidateRole := topologyRole,
          confidence := Fin 1, committed := True\<rparr>\<rparr>"

definition topologyOf :: "cocclTrainingConfig \<Rightarrow> cocclInfo \<Rightarrow> ncclComm \<Rightarrow> cocclTrainingRole" where
  "topologyOf cfg info comm =
     cocclTrainingTopologyRole \<lparr>traceCommId = 0, traceCommHash = 0, traceRank = 0, traceRanks = nRanks comm, traceNodes = 0,
       traceLocalRanks = 0\<rparr> (infoFunc info) cfg"

text \<open>\<open>now\<close> is the monotonic clock in nanoseconds.\<close>

definition cocclTrainingAssistObserve ::
  "rounding \<Rightarrow> rounding \<Rightarrow> cocclConfig \<Rightarrow> 64 word \<Rightarrow> cocclInfo \<Rightarrow> int \<Rightarrow> training_state \<Rightarrow> training_state" where
  "cocclTrainingAssistObserve fl ext cfg now info groupDepth st =
     (case infoComm info of
        None \<Rightarrow> st
      | Some comm \<Rightarrow>
          if \<not> cocclTrainingAssistEnabled cfg \<or> \<not> isObservedOperation (infoFunc info) then st
          else
            let topologyRole = topologyOf (trainingConfig cfg) info comm;
                bytes = checkedLogicalBytes info;
                logicalBytes = (if topologyRole = TrainingRoleUnknown then (case bytes of Some b \<Rightarrow> b | None \<Rightarrow> 0) else 0) in
            if topologyRole = TrainingRoleUnknown \<and>
               (bytes = None \<or> logicalBytes < kCocclTrainingMinimumObservedBytes) then st
            else
              case map_of (assistComms st) (self comm) of
                None \<Rightarrow> st
              | Some cs \<Rightarrow>
                  let st1 = (if topologyRole = TrainingRoleUnknown
                             then updateComm (self comm) (\<lambda>cs. cs\<lparr>assistCalls := assistCalls cs + 1\<rparr>) st else st) in
                  if committed (assistClassification cs) then st1
                  else if topologyRole \<noteq> TrainingRoleUnknown
                  then releaseWhenDone (updateComm (self comm) (commitRole topologyRole) st1)
                  else recordEvent fl ext (trainingConfig cfg)
                    \<lparr>eventSequence = nextSequence st1, eventComm = traceCommId (assistDescriptor cs),
                     eventOperation = infoFunc info, eventBytes = logicalBytes, eventDatatype = infoDatatype info,
                     eventPeer = infoPeer info, eventTimeNs = now, eventGroupDepth = groupDepth\<rparr> st1)"

definition cocclTrainingAssistQuery ::
  "cocclConfig \<Rightarrow> ncclComm option \<Rightarrow> training_state \<Rightarrow> cocclTrainingClassification option" where
  "cocclTrainingAssistQuery cfg comm st =
     (case comm of
        None \<Rightarrow> None
      | Some c \<Rightarrow>
          if \<not> cocclTrainingAssistEnabled cfg then None
          else case map_of (assistComms st) (self c) of
              None \<Rightarrow> None
            | Some cs \<Rightarrow>
                if committed (assistClassification cs) \<and>
                   (routingActivationCall cs = 0 \<or> assistCalls cs \<ge> routingActivationCall cs)
                then Some (assistClassification cs) else None)"

section \<open>A committed role is stable\<close>

lemma updateComm_lookup:
  "map_of (assistComms (updateComm comm f st)) p =
     map_option (\<lambda>cs. if p = comm then f cs else cs) (map_of (assistComms st) p)"
proof -
  have "map_of (map (\<lambda>entry. if fst entry = comm then (fst entry, f (snd entry)) else entry) xs) p =
      map_option (\<lambda>cs. if p = comm then f cs else cs) (map_of xs p)" for xs
    by (induction xs) auto
  then show ?thesis by (simp add: updateComm_def)
qed

lemma releaseWhenDone_comms [simp]: "assistComms (releaseWhenDone st) = assistComms st"
  by (simp add: releaseWhenDone_def releaseTraceLocked_def)

lemma commit_lookup:
  "map_of (assistComms (commitTraceLocked fl ext cfg iters target st)) p =
     map_option (commitComm target (cocclTrainingClassifyTrace fl ext (map (\<lambda>entry. assistDescriptor (snd entry)) (assistComms st))
       (trainingEvents st) iters target cfg)) (map_of (assistComms st) p)"
  by (simp add: commitTraceLocked_def Let_def map_of_map)

text \<open>What an observation may do to an entry that is committed.\<close>

definition still_committed :: "cocclTrainingAssistCommState \<Rightarrow> cocclTrainingAssistCommState \<Rightarrow> bool" where
  "still_committed cs cs' \<longleftrightarrow>
     assistClassification cs' = assistClassification cs \<and> routingActivationCall cs' = routingActivationCall cs \<and>
     assistDescriptor cs' = assistDescriptor cs \<and>
     (assistCalls cs' = assistCalls cs \<or> assistCalls cs' = assistCalls cs + 1)"

lemma commitComm_committed [simp]: "committed (assistClassification cs) \<Longrightarrow> commitComm target results cs = cs"
  by (simp add: commitComm_def)

lemma recordEvent_lookup:
  assumes "map_of (assistComms st) p = Some cs" and "committed (assistClassification cs)"
  shows "map_of (assistComms (recordEvent fl ext cfg event st)) p = Some cs"
  using assms by (simp add: recordEvent_def Let_def commit_lookup split: option.splits)

lemma observe_committed:
  assumes look: "map_of (assistComms st) p = Some cs" and com: "committed (assistClassification cs)"
  shows "\<exists>cs'. map_of (assistComms (cocclTrainingAssistObserve fl ext cfg now info gd st)) p = Some cs' \<and> still_committed cs cs'"
proof -
  let ?same = "\<lambda>st'. \<exists>cs'. map_of (assistComms st') p = Some cs' \<and> still_committed cs cs'"
  have keep: "?same st" using look by (simp add: still_committed_def)
  have bump: "?same (updateComm comm (\<lambda>cs. cs\<lparr>assistCalls := assistCalls cs + 1\<rparr>) st)" for comm
    using look by (simp add: updateComm_lookup still_committed_def)
  have role: "?same (updateComm comm (commitRole r) st)"
    if "map_of (assistComms st) comm = Some cs2" "\<not> committed (assistClassification cs2)" for comm r cs2
  proof -
    from that look com have "p \<noteq> comm" by auto
    with keep show ?thesis by (simp add: updateComm_lookup)
  qed
  have event: "?same (recordEvent fl ext c e st1)" if "?same st1" for c e st1
  proof -
    from that obtain cs' where cs': "map_of (assistComms st1) p = Some cs'" "still_committed cs cs'" by blast
    with com have "committed (assistClassification cs')" by (simp add: still_committed_def)
    from recordEvent_lookup [OF cs'(1) this] cs'(2) show ?thesis by blast
  qed
  show ?thesis
    unfolding cocclTrainingAssistObserve_def Let_def
    by (auto intro: keep bump role event split: option.splits)
qed

lemma word_step_le: "a \<le> x + 1" if "a \<le> x" "x \<noteq> - 1" for a x :: "64 word"
proof -
  have "x < x + 1" using inc_less_eq_self_iff_eq [of x] that(2) by (simp add: not_le)
  with that(1) show ?thesis by simp
qed

lemma query_simp:
  "cocclTrainingAssistQuery cfg (Some comm) st = Some c \<longleftrightarrow>
     cocclTrainingAssistEnabled cfg \<and> (\<exists>cs. map_of (assistComms st) (self comm) = Some cs \<and> c = assistClassification cs \<and>
       committed c \<and> (routingActivationCall cs = 0 \<or> routingActivationCall cs \<le> assistCalls cs))"
  by (auto simp: cocclTrainingAssistQuery_def split: option.splits)

text \<open>
  C31. A role that routing sees stays: no later observation and no registration or removal of another
  communicator changes the answer, as long as the call counter has not run through all 64-bit values.
\<close>

theorem committed_role_stable:
  assumes q: "cocclTrainingAssistQuery cfg (Some comm) st = Some c"
    and nowrap: "\<forall>cs. map_of (assistComms st) (self comm) = Some cs \<longrightarrow> assistCalls cs \<noteq> - 1"
  shows "cocclTrainingAssistQuery cfg (Some comm) (cocclTrainingAssistObserve fl ext cfg now info gd st) = Some c \<and>
    cocclTrainingAssistQuery cfg (Some comm) (cocclTrainingAssistRegister cfg other st) = Some c \<and>
    (\<forall>other. self other \<noteq> self comm \<longrightarrow>
       cocclTrainingAssistQuery cfg (Some comm) (cocclTrainingAssistUnregister (Some other) st) = Some c)"
proof (intro conjI allI impI)
  from q obtain cs where on: "cocclTrainingAssistEnabled cfg" and cs: "map_of (assistComms st) (self comm) = Some cs"
    "c = assistClassification cs" "committed c" "routingActivationCall cs = 0 \<or> routingActivationCall cs \<le> assistCalls cs"
    unfolding query_simp by blast
  obtain cs' where cs': "map_of (assistComms (cocclTrainingAssistObserve fl ext cfg now info gd st)) (self comm) = Some cs'"
    "still_committed cs cs'"
    using observe_committed [OF cs(1), of fl ext cfg now info gd] cs(2,3) by auto
  have "routingActivationCall cs' = 0 \<or> routingActivationCall cs' \<le> assistCalls cs'"
    using cs(4) cs'(2) word_step_le [of "routingActivationCall cs" "assistCalls cs"] nowrap cs(1)
    by (auto simp: still_committed_def)
  with on cs cs' show "cocclTrainingAssistQuery cfg (Some comm) (cocclTrainingAssistObserve fl ext cfg now info gd st) = Some c"
    unfolding query_simp by (auto simp: still_committed_def)
  have "map_of (insort_key fst (k, v) xs) p = (if p = k then Some v else map_of xs p)"
    if "map_of xs k = None" for k p v and xs :: "(ptr \<times> cocclTrainingAssistCommState) list"
    using that by (induction xs) (auto split: if_splits)
  with on cs show "cocclTrainingAssistQuery cfg (Some comm) (cocclTrainingAssistRegister cfg other st) = Some c"
    unfolding query_simp cocclTrainingAssistRegister_def by (auto split: option.splits if_splits)
  fix other :: ncclComm
  assume diff: "self other \<noteq> self comm"
  have flt: "map_of (filter (\<lambda>entry. fst entry \<noteq> k) xs) p = (if p = k then None else map_of xs p)"
    for k p and xs :: "(ptr \<times> cocclTrainingAssistCommState) list"
    by (induction xs) auto
  have left: "map_of (filter (\<lambda>entry. fst entry \<noteq> self other) (assistComms st)) (self comm) = Some cs"
    using diff cs(1) by (simp add: flt)
  then have "filter (\<lambda>entry. fst entry \<noteq> self other) (assistComms st) \<noteq> []" by auto
  with on cs left show "cocclTrainingAssistQuery cfg (Some comm) (cocclTrainingAssistUnregister (Some other) st) = Some c"
    unfolding query_simp cocclTrainingAssistUnregister_def by (simp add: Let_def releaseTraceLocked_def)
qed

section \<open>The trace stays bounded\<close>

lemma commitComm_commits [simp]: "committed (assistClassification (commitComm target results cs))"
  by (simp add: commitComm_def Let_def)

lemma commit_releases: "trainingEvents (commitTraceLocked fl ext cfg iters target st) = []"
  by (simp add: commitTraceLocked_def Let_def releaseWhenDone_def allCommsCommittedLocked_def releaseTraceLocked_def
      list_all_iff split_beta)

lemma recordEvent_bounded:
  assumes "length (trainingEvents st) < kMaxTrainingEvents"
  shows "length (trainingEvents (recordEvent fl ext cfg event st)) < kMaxTrainingEvents"
proof -
  have "0 < kMaxTrainingEvents" by (simp add: kMaxTrainingEvents_def)
  with assms show ?thesis
    by (auto simp: recordEvent_def Let_def commit_releases split: option.splits)
qed

text \<open>Whether a call is stored in the trace: a communicator that is registered and not committed, a large enough call, no configured size that decides.\<close>

definition traced :: "cocclConfig \<Rightarrow> cocclInfo \<Rightarrow> training_state \<Rightarrow> bool" where
  "traced cfg info st \<longleftrightarrow> cocclTrainingAssistEnabled cfg \<and> isObservedOperation (infoFunc info) \<and>
     (case infoComm info of None \<Rightarrow> False
      | Some comm \<Rightarrow>
          topologyOf (trainingConfig cfg) info comm = TrainingRoleUnknown \<and>
          (case checkedLogicalBytes info of None \<Rightarrow> False | Some b \<Rightarrow> kCocclTrainingMinimumObservedBytes \<le> b) \<and>
          (case map_of (assistComms st) (self comm) of None \<Rightarrow> False | Some cs \<Rightarrow> \<not> committed (assistClassification cs)))"

definition allCommitted :: "training_state \<Rightarrow> bool" where
  "allCommitted st \<longleftrightarrow> (\<forall>entry \<in> set (assistComms st). committed (assistClassification (snd entry)))"

text \<open>How the trace may change: kept, extended by one event, or given back with every communicator committed.\<close>

definition trace_step :: "training_state \<Rightarrow> training_state \<Rightarrow> bool" where
  "trace_step st st' \<longleftrightarrow>
     trainingEvents st' = trainingEvents st \<or> (\<exists>e. trainingEvents st' = trainingEvents st @ [e]) \<or>
     trainingEvents st' = [] \<and> allCommitted st'"

lemma trace_step_refl [simp]: "trace_step st st"
  by (simp add: trace_step_def)

lemma commit_all: "allCommitted (commitTraceLocked fl ext cfg iters target st)"
  by (simp add: commitTraceLocked_def Let_def allCommitted_def split_beta)

lemma commit_keys: "map fst (assistComms (commitTraceLocked fl ext cfg iters target st)) = map fst (assistComms st)"
  by (simp add: commitTraceLocked_def Let_def comp_def split_beta)

lemma release_step: "trace_step st (releaseWhenDone st1)" if "trainingEvents st1 = trainingEvents st"
  using that
  by (auto simp: trace_step_def releaseWhenDone_def releaseTraceLocked_def allCommsCommittedLocked_def allCommitted_def list_all_iff)

lemma recordEvent_step:
  assumes "trainingEvents st1 = trainingEvents st"
  shows "trace_step st (recordEvent fl ext cfg event st1)"
    and "kMaxTrainingEvents \<le> Suc (length (trainingEvents st)) \<Longrightarrow>
      trainingEvents (recordEvent fl ext cfg event st1) = [] \<and> allCommitted (recordEvent fl ext cfg event st1) \<and>
      map fst (assistComms (recordEvent fl ext cfg event st1)) = map fst (assistComms st1)"
  using assms
  by (auto simp: recordEvent_def Let_def trace_step_def commit_releases commit_all commit_keys split: option.splits)

text \<open>The four ways an observation ends; a traced call ends in the last.\<close>

lemma observe_cases:
  fixes st :: training_state
  defines "same \<equiv> (\<lambda>st'. trainingEvents st' = trainingEvents st \<and> map fst (assistComms st') = map fst (assistComms st))"
  shows "(\<exists>e st1. same st1 \<and> cocclTrainingAssistObserve fl ext cfg now info gd st = recordEvent fl ext (trainingConfig cfg) e st1) \<or>
    \<not> traced cfg info st \<and> (same (cocclTrainingAssistObserve fl ext cfg now info gd st) \<or>
      (\<exists>st1. same st1 \<and> cocclTrainingAssistObserve fl ext cfg now info gd st = releaseWhenDone st1))"
proof -
  have upd: "same (updateComm comm f st)" for comm f
    by (simp add: same_def updateComm_def comp_def if_distrib)
  have refl: "same st" by (simp add: same_def)
  show ?thesis
  proof (cases "infoComm info")
    case None
    then show ?thesis using refl by (simp add: cocclTrainingAssistObserve_def traced_def)
  next
    case (Some comm)
    let ?topo = "topologyOf (trainingConfig cfg) info comm"
    show ?thesis
    proof (cases "cocclTrainingAssistEnabled cfg \<and> isObservedOperation (infoFunc info) \<and>
        (?topo = TrainingRoleUnknown \<longrightarrow> (\<exists>b. checkedLogicalBytes info = Some b \<and> kCocclTrainingMinimumObservedBytes \<le> b)) \<and>
        map_of (assistComms st) (self comm) \<noteq> None")
      case False
      then have "cocclTrainingAssistObserve fl ext cfg now info gd st = st \<and> \<not> traced cfg info st"
        using Some by (auto simp: cocclTrainingAssistObserve_def traced_def Let_def split: option.splits)
      with refl show ?thesis by simp
    next
      case True
      then obtain cs where cs: "map_of (assistComms st) (self comm) = Some cs" by blast
      show ?thesis
      proof (cases "?topo = TrainingRoleUnknown")
        case unknown: True
        then obtain b where b: "checkedLogicalBytes info = Some b" "kCocclTrainingMinimumObservedBytes \<le> b" using True by blast
        show ?thesis
        proof (cases "committed (assistClassification cs)")
          case com: True
          have "cocclTrainingAssistObserve fl ext cfg now info gd st =
              updateComm (self comm) (\<lambda>cs. cs\<lparr>assistCalls := assistCalls cs + 1\<rparr>) st \<and> \<not> traced cfg info st"
            using True Some cs unknown b com by (simp add: cocclTrainingAssistObserve_def traced_def Let_def not_less)
          with upd show ?thesis by simp
        next
          case False
          then have "\<exists>e. cocclTrainingAssistObserve fl ext cfg now info gd st = recordEvent fl ext (trainingConfig cfg) e
              (updateComm (self comm) (\<lambda>cs. cs\<lparr>assistCalls := assistCalls cs + 1\<rparr>) st)"
            using True Some cs unknown b by (auto simp: cocclTrainingAssistObserve_def Let_def not_less)
          with upd show ?thesis by blast
        qed
      next
        case known: False
        then have "\<not> traced cfg info st" using Some by (simp add: traced_def)
        moreover have "cocclTrainingAssistObserve fl ext cfg now info gd st =
            (if committed (assistClassification cs) then st
             else releaseWhenDone (updateComm (self comm) (commitRole ?topo) st))"
          using True Some cs known by (simp add: cocclTrainingAssistObserve_def Let_def)
        ultimately show ?thesis
          using upd [of "self comm" "commitRole ?topo"] refl by (cases "committed (assistClassification cs)") auto
      qed
    qed
  qed
qed

text \<open>
  C32. The trace never reaches its limit. An observation keeps it, or adds one event, or gives it back, and it
  is only given back when every registered communicator is committed. When one place is left, the call
  that would be stored in it commits every registered communicator and empties the trace.
\<close>

theorem training_trace_bounded:
  assumes "length (trainingEvents st) < kMaxTrainingEvents"
    and "cocclTrainingAssistObserve fl ext cfg now info gd st = st'"
  shows "length (trainingEvents st') < kMaxTrainingEvents \<and> trace_step st st' \<and>
    (traced cfg info st \<and> Suc (length (trainingEvents st)) = kMaxTrainingEvents \<longrightarrow>
       trainingEvents st' = [] \<and> allCommitted st' \<and> map fst (assistComms st') = map fst (assistComms st))"
proof -
  have pos: "0 < kMaxTrainingEvents" by (simp add: kMaxTrainingEvents_def)
  show ?thesis
    using observe_cases [of st fl ext cfg now info gd, unfolded assms(2)]
  proof (elim disjE exE conjE)
    fix e st1
    assume st1: "trainingEvents st1 = trainingEvents st" "map fst (assistComms st1) = map fst (assistComms st)"
      and st': "st' = recordEvent fl ext (trainingConfig cfg) e st1"
    show ?thesis
      using recordEvent_step [OF st1(1), of fl ext "trainingConfig cfg" e] recordEvent_bounded [of st1 fl ext "trainingConfig cfg" e]
        assms(1) st1 unfolding st' by simp
  next
    assume "\<not> traced cfg info st" "trainingEvents st' = trainingEvents st"
    with assms(1) show ?thesis by (simp add: trace_step_def)
  next
    fix st1
    assume "\<not> traced cfg info st" and st1: "trainingEvents st1 = trainingEvents st" and st': "st' = releaseWhenDone st1"
    with release_step [OF st1] pos assms(1) show ?thesis
      by (simp add: releaseWhenDone_def releaseTraceLocked_def)
  qed
qed

section \<open>Examples\<close>

definition trainingExampleConfig :: cocclConfig where
  "trainingExampleConfig = defaultConfig\<lparr>runtimeConfig := \<lparr>runtimeMode = ModeTraining, compressionThresholdBytes = 0\<rparr>\<rparr>"

definition committedEntry :: cocclTrainingAssistCommState where
  "committedEntry = \<lparr>assistDescriptor = wideComm,
     assistClassification = emptyClassification\<lparr>classRole := TrainingRoleDataParallel, committed := True\<rparr>,
     assistCalls = 20, routingActivationCall = 20\<rparr>"

definition committedState :: training_state where
  "committedState = initialTraining\<lparr>assistComms := [(16, committedEntry)]\<rparr>"

theorem committed_role_stable_witness:
  "cocclTrainingAssistQuery trainingExampleConfig (Some exampleDeviceComm)
     (cocclTrainingAssistObserve Fin Fin trainingExampleConfig 5 emptyInfo 0 committedState) =
   Some (assistClassification committedEntry)"
proof -
  have "cocclTrainingAssistQuery trainingExampleConfig (Some exampleDeviceComm) committedState = Some (assistClassification committedEntry)"
    by (simp add: query_simp cocclTrainingAssistEnabled_def trainingExampleConfig_def committedState_def committedEntry_def
        exampleDeviceComm_def)
  then show ?thesis
    by (rule committed_role_stable [THEN conjunct1]) (simp add: committedState_def committedEntry_def exampleDeviceComm_def)
qed

text \<open>One communicator, a trace with one place left, and a large all-reduce.\<close>

definition fullState :: training_state where
  "fullState = initialTraining\<lparr>assistComms := [(16, committedEntry\<lparr>assistClassification := emptyClassification\<rparr>)],
     trainingEvents := replicate (kMaxTrainingEvents - 1) (exampleEvent 1 0)\<rparr>"

definition largeCall :: cocclInfo where
  "largeCall = emptyInfo\<lparr>infoCount := 16777216, infoDatatype := ncclFloat32, infoFunc := ncclFuncAllReduce,
     infoOperation := AllReduce, infoComm := Some exampleDeviceComm\<rparr>"

theorem training_trace_bounded_witness:
  "\<exists>st'. cocclTrainingAssistObserve Fin Fin trainingExampleConfig 5 largeCall 0 fullState = st' \<and>
     trainingEvents fullState \<noteq> [] \<and> trainingEvents st' = [] \<and> allCommitted st' \<and> map fst (assistComms st') = [16]"
proof -
  have "(case checkedLogicalBytes largeCall of None \<Rightarrow> False | Some b \<Rightarrow> kCocclTrainingMinimumObservedBytes \<le> b) = True"
    "(topologyOf (trainingConfig trainingExampleConfig) largeCall exampleDeviceComm = TrainingRoleUnknown) = True"
    by code_simp+
  moreover have "infoComm largeCall = Some exampleDeviceComm" "infoFunc largeCall = ncclFuncAllReduce"
    by (simp_all add: largeCall_def)
  ultimately have tr: "traced trainingExampleConfig largeCall fullState"
    by (simp add: traced_def cocclTrainingAssistEnabled_def trainingExampleConfig_def fullState_def isObservedOperation_def
        isCollective_def exampleDeviceComm_def emptyClassification_def)
  have len: "Suc (length (trainingEvents fullState)) = kMaxTrainingEvents" "length (trainingEvents fullState) < kMaxTrainingEvents"
    "trainingEvents fullState \<noteq> []"
    by (simp_all add: fullState_def kMaxTrainingEvents_def)
  from training_trace_bounded [OF len(2) refl, of Fin Fin trainingExampleConfig 5 largeCall 0] tr len
  show ?thesis by (auto simp: fullState_def)
qed

end
