(* ===== verification/Prepared_Call.thy ===== *)
theory Prepared_Call
  imports Native_Call Coccl_Double
begin

text \<open>
  A call that routing has resolved (\<^verbatim>\<open>core/runtime/coccl_prepared_call.h\<close> and \<^verbatim>\<open>.cc\<close>): the captured
  parameters, the compressor of each scope, the chosen algorithm, and which algorithms the resolved
  compressors can serve.
\<close>

datatype cocclAlgorithmKind =
  AlgorithmNone
| AlgorithmReduceScatterOneShot
| AlgorithmReduceScatterTwoShot
| AlgorithmAllReduceOneShot
| AlgorithmAllReduceTwoShot
| AlgorithmAllReduceTripleShot

record cocclPreparedCompressorSet =
  handles :: "cocclCompressionScope \<Rightarrow> ptr"
  datatypeSupported :: "cocclCompressionScope \<Rightarrow> bool"
  setThresholdBytes :: size_t

definition emptyCompressorSet :: cocclPreparedCompressorSet where
  "emptyCompressorSet = \<lparr>handles = (\<lambda>_. nullptr), datatypeSupported = (\<lambda>_. False), setThresholdBytes = 0\<rparr>"

definition setGet :: "cocclPreparedCompressorSet \<Rightarrow> cocclCompressionScope \<Rightarrow> ptr" where
  "setGet cs scope = handles cs scope"

definition setSupports :: "cocclPreparedCompressorSet \<Rightarrow> cocclCompressionScope \<Rightarrow> bool" where
  "setSupports cs scope \<longleftrightarrow> handles cs scope \<noteq> nullptr \<and> datatypeSupported cs scope"

text \<open>The array has the three scopes before \<^verbatim>\<open>Count\<close>.\<close>

definition anyEnabled :: "cocclPreparedCompressorSet \<Rightarrow> bool" where
  "anyEnabled cs \<longleftrightarrow> (\<exists>scope \<in> set [ScopeDefault, ScopeIntra, ScopeInter]. handles cs scope \<noteq> nullptr)"

text \<open>The scores are in microseconds; the descriptor is the entry of the operation table.\<close>

record cocclPreparedCall =
  preparedInfo :: cocclInfo
  preparedDescriptor :: "cocclOperationDescriptor option"
  preparedRole :: cocclTrainingRole
  preparedPolicyKey :: cocclPolicyKey
  preparedAlgorithm :: cocclAlgorithmKind
  preparedCompressors :: cocclPreparedCompressorSet
  oneShotUs :: double
  twoShotUs :: double
  tripleShotUs :: double
  preparedUsedModel :: bool

text \<open>The communicator of a call; only calls with a communicator are prepared.\<close>

definition callComm :: "cocclInfo \<Rightarrow> ncclComm" where
  "callComm info = the (infoComm info)"

definition flatScope :: "cocclInfo \<Rightarrow> cocclCompressionScope" where
  "flatScope info =
     (if infoOperation info = SendRecv
      then (if rankToNode (callComm info) (infoPeer info) = node (callComm info) then ScopeIntra else ScopeInter)
      else if nNodes (callComm info) = 1 then ScopeIntra else ScopeDefault)"

text \<open>Which scopes an algorithm uses.\<close>

definition algorithmScopes :: "cocclInfo \<Rightarrow> cocclAlgorithmKind \<Rightarrow> cocclCompressionScope list" where
  "algorithmScopes info algorithm =
     (if algorithm = AlgorithmReduceScatterTwoShot then [ScopeIntra, ScopeInter]
      else if algorithm = AlgorithmAllReduceTripleShot then [ScopeDefault, ScopeIntra, ScopeInter]
      else [flatScope info])"

definition cocclPreparedAlgorithmHasCompression :: "cocclPreparedCall \<Rightarrow> cocclAlgorithmKind \<Rightarrow> bool" where
  "cocclPreparedAlgorithmHasCompression prepared algorithm \<longleftrightarrow>
     (\<exists>scope \<in> set (algorithmScopes (preparedInfo prepared) algorithm).
        setGet (preparedCompressors prepared) scope \<noteq> nullptr)"

definition cocclPreparedAlgorithmSupported :: "cocclPreparedCall \<Rightarrow> cocclAlgorithmKind \<Rightarrow> bool" where
  "cocclPreparedAlgorithmSupported prepared algorithm \<longleftrightarrow>
     cocclPreparedAlgorithmHasCompression prepared algorithm \<and>
     (\<forall>scope \<in> set (algorithmScopes (preparedInfo prepared) algorithm).
        setGet (preparedCompressors prepared) scope = nullptr \<or> setSupports (preparedCompressors prepared) scope)"

lemma flatScope_valid: "flatScope info \<in> {ScopeDefault, ScopeIntra, ScopeInter}"
  by (simp add: flatScope_def)

lemma hasCompression_anyEnabled:
  "cocclPreparedAlgorithmHasCompression prepared algorithm \<Longrightarrow> anyEnabled (preparedCompressors prepared)"
  using flatScope_valid [of "preparedInfo prepared"]
  by (auto simp: cocclPreparedAlgorithmHasCompression_def algorithmScopes_def anyEnabled_def setGet_def split: if_splits)

lemma supported_anyEnabled:
  "cocclPreparedAlgorithmSupported prepared algorithm \<Longrightarrow> anyEnabled (preparedCompressors prepared)"
  unfolding cocclPreparedAlgorithmSupported_def by (blast intro: hasCompression_anyEnabled)

end
