(* ===== verification/Primitive_Stages.thy ===== *)
theory Primitive_Stages
  imports Prepared_Call Pipeline_Prepare
begin

text \<open>
  The collective primitives of \<^verbatim>\<open>extensions/primitives\<close>: the stage list and the pipeline specification
  each algorithm builds from a prepared call, and the two reduction phases that the hierarchical
  algorithms share. What a stage list needs from the data that flows through it is stated as a type
  system; every specification built for a supported call is well typed.
\<close>

section \<open>Specifications\<close>

text \<open>The scope of the flat algorithms: one compressor for the whole communicator.\<close>

definition primitiveScope :: "cocclInfo \<Rightarrow> cocclCompressionScope" where
  "primitiveScope info = (if nNodes (callComm info) = 1 then ScopeIntra else ScopeDefault)"

definition flatCompressor :: "cocclPreparedCall \<Rightarrow> ptr" where
  "flatCompressor call = setGet (preparedCompressors call) (primitiveScope (preparedInfo call))"

text \<open>The part of a specification every primitive fills from the call.\<close>

definition primitiveSpec ::
  "string \<Rightarrow> cocclInfo \<Rightarrow> size_t \<Rightarrow> size_t \<Rightarrow> cocclPipelineStage list \<Rightarrow> cocclPipelineInPlaceLayout \<Rightarrow>
   cocclPipelineInputLayout \<Rightarrow> cocclPipelineSpec" where
  "primitiveSpec label info chunkCount chunks sts inPlace layout =
     \<lparr>specName = label, specInput = infoSend info, specOutput = infoRecv info, rawChunkCount = chunkCount,
      inputChunks = chunks, specDatatype = infoDatatype info, ownerComm = infoComm info, stream = infoStream info,
      stages = sts, inPlaceLayout = inPlace, inputLayout = layout\<rparr>"

definition commRanks :: "cocclInfo \<Rightarrow> size_t" where
  "commRanks info = size_of_int (nRanks (callComm info))"

definition allGatherSpec :: "cocclPreparedCall \<Rightarrow> cocclPipelineSpec" where
  "allGatherSpec call =
     (let info = preparedInfo call in
      primitiveSpec ''allgather'' info (infoCount info) 1
        [cocclPipelineCompress (flatCompressor call), cocclPipelineAllGather (callComm info), cocclPipelineDecompress]
        InPlaceInputRankChunk InputContiguous)"

definition allToAllSpec :: "cocclPreparedCall \<Rightarrow> cocclPipelineSpec" where
  "allToAllSpec call =
     (let info = preparedInfo call in
      primitiveSpec ''alltoall'' info (infoCount info) (commRanks info)
        [cocclPipelineCompress (flatCompressor call), cocclPipelineAllToAll (callComm info), cocclPipelineDecompress]
        InPlaceNone InputContiguous)"

definition reduceScatterOneShotSpec :: "cocclPreparedCall \<Rightarrow> cocclPipelineSpec" where
  "reduceScatterOneShotSpec call =
     (let info = preparedInfo call in
      primitiveSpec ''reducescatter-oneshot'' info (infoCount info) (commRanks info)
        [cocclPipelineCompress (flatCompressor call), cocclPipelineAllToAll (callComm info),
         cocclPipelineDecompressReduce (commRanks info)]
        InPlaceOutputRankChunk InputContiguous)"

definition allReduceOneShotSpec :: "cocclPreparedCall \<Rightarrow> cocclPipelineSpec" where
  "allReduceOneShotSpec call =
     (let info = preparedInfo call in
      primitiveSpec ''allreduce-oneshot'' info (infoCount info div commRanks info) (commRanks info)
        [cocclPipelineCompress (flatCompressor call), cocclPipelineAllGather (callComm info),
         cocclPipelineDecompressReduce (commRanks info)]
        InPlaceSameBuffer InputContiguous)"

definition allReduceTwoShotSpec :: "cocclPreparedCall \<Rightarrow> cocclPipelineSpec" where
  "allReduceTwoShotSpec call =
     (let info = preparedInfo call in
      primitiveSpec ''allreduce-twoshot'' info (infoCount info div commRanks info) (commRanks info)
        [cocclPipelineCompress (flatCompressor call), cocclPipelineAllToAll (callComm info),
         cocclPipelineDecompReduceComp (commRanks info) (flatCompressor call),
         cocclPipelineAllGather (callComm info), cocclPipelineDecompress]
        InPlaceSameBuffer InputContiguous)"

text \<open>
  \<^verbatim>\<open>cocclBuildHierarchicalReduction\<close>: within a node, then between nodes. A phase without a compressor is a
  native reduce-scatter; \<open>finalCompressor\<close> is null when the caller wants raw data.
\<close>

definition cocclBuildHierarchicalReduction ::
  "cocclPreparedCall \<Rightarrow> ncclComm \<Rightarrow> ncclComm \<Rightarrow> ptr \<Rightarrow> cocclPipelineStage list" where
  "cocclBuildHierarchicalReduction call intraComm interComm finalCompressor =
     (let intra = setGet (preparedCompressors call) ScopeIntra; inter = setGet (preparedCompressors call) ScopeInter in
      (if intra \<noteq> nullptr
       then [cocclPipelineCompress intra, cocclPipelineAllToAll intraComm,
             if inter \<noteq> nullptr then cocclPipelineDecompReduceComp (size_of_int (nRanks intraComm)) inter
             else cocclPipelineDecompressReduce (size_of_int (nRanks intraComm))]
       else cocclPipelineReduceScatter intraComm # (if inter \<noteq> nullptr then [cocclPipelineCompress inter] else [])) @
      (if inter \<noteq> nullptr
       then [cocclPipelineAllToAll interComm,
             if finalCompressor \<noteq> nullptr then cocclPipelineDecompReduceComp (size_of_int (nRanks interComm)) finalCompressor
             else cocclPipelineDecompressReduce (size_of_int (nRanks interComm))]
       else cocclPipelineReduceScatter interComm #
            (if finalCompressor \<noteq> nullptr then [cocclPipelineCompress finalCompressor] else [])))"

definition reduceScatterTwoShotSpec :: "cocclPreparedCall \<Rightarrow> ncclComm \<Rightarrow> ncclComm \<Rightarrow> cocclPipelineSpec" where
  "reduceScatterTwoShotSpec call intraComm interComm =
     (let info = preparedInfo call in
      primitiveSpec ''reducescatter-twoshot'' info (infoCount info) (commRanks info)
        (cocclBuildHierarchicalReduction call intraComm interComm nullptr)
        InPlaceOutputRankChunk InputHierarchicalSwizzle)"

definition allReduceTripleShotSpec :: "cocclPreparedCall \<Rightarrow> ncclComm \<Rightarrow> ncclComm \<Rightarrow> cocclPipelineSpec" where
  "allReduceTripleShotSpec call intraComm interComm =
     (let info = preparedInfo call; finalCompressor = setGet (preparedCompressors call) ScopeDefault in
      primitiveSpec ''allreduce-tripleshot'' info (infoCount info div commRanks info) (commRanks info)
        (cocclBuildHierarchicalReduction call intraComm interComm finalCompressor @
         cocclPipelineAllGather (callComm info) #
         (if finalCompressor \<noteq> nullptr then [cocclPipelineDecompress] else []))
        InPlaceSameBuffer InputHierarchicalSwizzle)"

text \<open>Which specification a call runs, by operation and algorithm; \<open>None\<close> for the calls that are refused.\<close>

definition specOfCall :: "cocclPreparedCall \<Rightarrow> ncclComm \<Rightarrow> ncclComm \<Rightarrow> cocclPipelineSpec option" where
  "specOfCall call intraComm interComm =
     (case infoOperation (preparedInfo call) of
        AllGather \<Rightarrow> Some (allGatherSpec call)
      | AllToAll \<Rightarrow> Some (allToAllSpec call)
      | ReduceScatter \<Rightarrow>
          (if preparedAlgorithm call = AlgorithmReduceScatterOneShot then Some (reduceScatterOneShotSpec call)
           else Some (reduceScatterTwoShotSpec call intraComm interComm))
      | AllReduce \<Rightarrow>
          (case preparedAlgorithm call of
             AlgorithmAllReduceOneShot \<Rightarrow> Some (allReduceOneShotSpec call)
           | AlgorithmAllReduceTwoShot \<Rightarrow> Some (allReduceTwoShotSpec call)
           | AlgorithmAllReduceTripleShot \<Rightarrow> Some (allReduceTripleShotSpec call intraComm interComm)
           | _ \<Rightarrow> None)
      | _ \<Rightarrow> None)"

lemmas primitive_specs =
  allGatherSpec_def allToAllSpec_def reduceScatterOneShotSpec_def reduceScatterTwoShotSpec_def allReduceOneShotSpec_def
  allReduceTwoShotSpec_def allReduceTripleShotSpec_def

section \<open>Types of the data between stages\<close>

text \<open>
  Between two stages the data is raw or encoded and has a number of chunks. A stage accepts only
  some of these types: only raw data is compressed or reduced natively, only encoded data is
  decoded, an exchange or a reduction needs a chunk count its group divides.
\<close>

datatype flow_type = Raw nat | Encoded nat

definition evenly :: "(nat \<Rightarrow> flow_type) \<Rightarrow> nat \<Rightarrow> nat \<Rightarrow> flow_type option" where
  "evenly build n parts = (if parts \<noteq> 0 \<and> n mod parts = 0 then Some (build (n div parts)) else None)"

definition gathered :: "(nat \<Rightarrow> flow_type) \<Rightarrow> nat \<Rightarrow> nat \<Rightarrow> flow_type option" where
  "gathered build n parts = (if parts \<noteq> 0 \<and> n * parts < 2 ^ 64 then Some (build (n * parts)) else None)"

definition ranksOf :: "cocclPipelineStage \<Rightarrow> nat" where
  "ranksOf stage = (case stageComm stage of None \<Rightarrow> 0 | Some comm \<Rightarrow> nat (nRanks comm))"

fun stageType :: "cocclPipelineStage \<Rightarrow> flow_type \<Rightarrow> flow_type option" where
  "stageType stage (Raw n) =
     (case kind stage of
        StageCompress \<Rightarrow> if stageCompressor stage \<noteq> nullptr then Some (Encoded n) else None
      | StageAllToAll \<Rightarrow> if ranksOf stage \<noteq> 0 \<and> n mod ranksOf stage = 0 then Some (Raw n) else None
      | StageAllGather \<Rightarrow> gathered Raw n (ranksOf stage)
      | StageReduceScatter \<Rightarrow> evenly Raw n (ranksOf stage)
      | _ \<Rightarrow> None)"
| "stageType stage (Encoded n) =
     (case kind stage of
        StageAllToAll \<Rightarrow> if ranksOf stage \<noteq> 0 \<and> n mod ranksOf stage = 0 then Some (Encoded n) else None
      | StageAllGather \<Rightarrow> gathered Encoded n (ranksOf stage)
      | StageDecompReduceComp \<Rightarrow>
          if stageCompressor stage \<noteq> nullptr then evenly Encoded n (unat (reduceChunks stage)) else None
      | StageDecompressReduce \<Rightarrow> evenly Raw n (unat (reduceChunks stage))
      | StageDecompress \<Rightarrow> Some (Raw n)
      | _ \<Rightarrow> None)"

fun stagesType :: "cocclPipelineStage list \<Rightarrow> flow_type \<Rightarrow> flow_type option" where
  "stagesType [] t = Some t"
| "stagesType (stage # rest) t = (case stageType stage t of None \<Rightarrow> None | Some t' \<Rightarrow> stagesType rest t')"

fun flowTypeChunks :: "flow_type \<Rightarrow> nat" where
  "flowTypeChunks (Raw n) = n"
| "flowTypeChunks (Encoded n) = n"

lemmas flow_type_defs = evenly_def gathered_def

text \<open>The types of the stage constructors.\<close>

lemma stage_types:
  "stageType (cocclPipelineCompress p) (Raw n) = (if p \<noteq> nullptr then Some (Encoded n) else None)"
  "stageType (cocclPipelineAllToAll comm) (Encoded n) =
     (if nat (nRanks comm) \<noteq> 0 \<and> n mod nat (nRanks comm) = 0 then Some (Encoded n) else None)"
  "stageType (cocclPipelineAllGather comm) (Encoded n) = gathered Encoded n (nat (nRanks comm))"
  "stageType (cocclPipelineAllGather comm) (Raw n) = gathered Raw n (nat (nRanks comm))"
  "stageType (cocclPipelineReduceScatter comm) (Raw n) = evenly Raw n (nat (nRanks comm))"
  "stageType (cocclPipelineDecompReduceComp k p) (Encoded n) = (if p \<noteq> nullptr then evenly Encoded n (unat k) else None)"
  "stageType (cocclPipelineDecompressReduce k) (Encoded n) = evenly Raw n (unat k)"
  "stageType cocclPipelineDecompress (Encoded n) = Some (Raw n)"
  by (simp_all add: stage_constructor_defs ranksOf_def)

text \<open>The planner counts the chunks of a well-typed stage the way its type does.\<close>

definition ranks_small :: "cocclPipelineStage \<Rightarrow> bool" where
  "ranks_small stage \<longleftrightarrow> (\<forall>comm. stageComm stage = Some comm \<longrightarrow> 0 < nRanks comm \<and> nRanks comm < 2 ^ 31)"

lemma stageRanks_nat:
  assumes "ranks_small stage" and "ranksOf stage \<noteq> 0"
  shows "unat (stageRanks stage) = ranksOf stage"
proof -
  from assms(2) obtain comm where c: "stageComm stage = Some comm" by (auto simp: ranksOf_def split: option.splits)
  with assms(1) have "0 \<le> nRanks comm" "nRanks comm < 2 ^ 64" by (auto simp: ranks_small_def)
  with c show ?thesis by (simp add: stageRanks_def ranksOf_def unat_size_of_int)
qed

lemma checkedMultiply_Some_iff_exact:
  "unat a * unat b < 2 ^ 64 \<Longrightarrow> cocclPipelineCheckedMultiply a b = Some (a * b)"
  by (simp add: checkedMultiply_Some_iff unat_mult_exact)

lemma stage_chunks_typed:
  assumes typed: "stageType stage t = Some t'" and small: "ranks_small stage" and c: "unat c = flowTypeChunks t"
  shows "\<exists>c'. cocclPipelineStageOutputChunks stage c = Inr c' \<and> unat c' = flowTypeChunks t'"
proof -
  have gather: "cocclPipelineCheckedMultiply c (stageRanks stage) = Some (c * stageRanks stage) \<and>
      unat (c * stageRanks stage) = flowTypeChunks t * ranksOf stage"
    if "ranksOf stage \<noteq> 0" "flowTypeChunks t * ranksOf stage < 2 ^ 64"
    using that c stageRanks_nat [OF small that(1)]
    by (simp add: checkedMultiply_Some_iff_exact unat_mult_exact)
  have split: "reduceChunks stage \<noteq> 0 \<and> c mod reduceChunks stage = 0 \<and>
      unat (c div reduceChunks stage) = flowTypeChunks t div unat (reduceChunks stage)"
    if "unat (reduceChunks stage) \<noteq> 0" "flowTypeChunks t mod unat (reduceChunks stage) = 0"
    using that c by (auto simp: unat_div_size unat_mod_size word_unat_eq_iff)
  have scatter: "unat (c div stageRanks stage) = flowTypeChunks t div ranksOf stage" if "ranksOf stage \<noteq> 0"
    using c stageRanks_nat [OF small that] by (simp add: unat_div_size)
  show ?thesis
    using typed gather split scatter c
    by (cases t; cases "kind stage")
      (auto simp: cocclPipelineStageOutputChunks_def flow_type_defs split: if_splits)
qed

lemma stages_chunks_typed:
  assumes "stagesType sts t = Some t'" and "\<forall>stage \<in> set sts. ranks_small stage" and "unat c = flowTypeChunks t"
  shows "\<exists>counts c'. foldE (\<lambda>st (acc, chnks). bindE (cocclPipelineStageOutputChunks st chnks)
           (\<lambda>out. Inr (acc @ [out], out))) sts (acc, c) = Inr (counts, c') \<and> unat c' = flowTypeChunks t'"
  using assms
proof (induction sts arbitrary: t c acc)
  case Nil
  then show ?case by simp
next
  case (Cons stage sts)
  then obtain t1 where t1: "stageType stage t = Some t1" "stagesType sts t1 = Some t'"
    by (auto split: option.splits)
  with Cons.prems obtain c1 where c1: "cocclPipelineStageOutputChunks stage c = Inr c1" "unat c1 = flowTypeChunks t1"
    using stage_chunks_typed [of stage t t1 c] by auto
  from Cons.IH [OF t1(2) _ c1(2), of "acc @ [c1]"] Cons.prems(2) c1(1) show ?case by simp
qed


section \<open>Every supported call is well typed\<close>

text \<open>How many chunks the collectives read and write.\<close>

fun collectiveChunks :: "cocclOperation \<Rightarrow> nat \<Rightarrow> nat \<times> nat" where
  "collectiveChunks AllGather n = (1, n)"
| "collectiveChunks ReduceScatter n = (n, 1)"
| "collectiveChunks _ n = (n, n)"

text \<open>A communicator and the two it is split into: ranks of a node, and the nodes.\<close>

definition hierarchy_of :: "ncclComm \<Rightarrow> ncclComm \<Rightarrow> ncclComm \<Rightarrow> bool" where
  "hierarchy_of comm intraComm interComm \<longleftrightarrow>
     0 < nRanks intraComm \<and> 0 < nRanks interComm \<and> nRanks comm = nRanks intraComm * nRanks interComm \<and> nRanks comm < 2 ^ 31"

lemma factor_le: "0 < a \<Longrightarrow> 0 < b \<Longrightarrow> (a :: int) \<le> a * b"
  using mult_left_mono [of 1 b a] by simp

lemma hierarchyD:
  assumes "hierarchy_of comm intraComm interComm"
  shows "0 < nRanks intraComm" "nRanks intraComm < 2 ^ 31" "0 < nRanks interComm" "nRanks interComm < 2 ^ 31"
    "0 < nRanks comm" "nRanks comm < 2 ^ 31" "nat (nRanks comm) = nat (nRanks intraComm) * nat (nRanks interComm)"
proof -
  from assms have h: "0 < nRanks intraComm" "0 < nRanks interComm" "nRanks comm = nRanks intraComm * nRanks interComm"
      "nRanks comm < 2 ^ 31"
    unfolding hierarchy_of_def by blast+
  then show "0 < nRanks intraComm" "0 < nRanks interComm" "nRanks comm < 2 ^ 31" "0 < nRanks comm"
      "nat (nRanks comm) = nat (nRanks intraComm) * nat (nRanks interComm)"
    by (simp_all only: nat_mult_distrib less_imp_le mult_pos_pos)
  have "nRanks intraComm \<le> nRanks comm" "nRanks interComm \<le> nRanks comm"
    using h(1-3) factor_le [of "nRanks intraComm" "nRanks interComm"] factor_le [of "nRanks interComm" "nRanks intraComm"]
    by (simp_all only: mult.commute)
  with h(4) show "nRanks intraComm < 2 ^ 31" "nRanks interComm < 2 ^ 31" by linarith+
qed

lemma hierarchical_reduction_typed:
  assumes h: "hierarchy_of comm intraComm interComm"
  shows "stagesType (cocclBuildHierarchicalReduction call intraComm interComm final @ rest) (Raw (nat (nRanks comm))) =
    stagesType rest (if final \<noteq> nullptr then Encoded 1 else Raw 1)"
proof -
  let ?a = "nat (nRanks intraComm)" and ?b = "nat (nRanks interComm)"
  note hD = hierarchyD [OF h]
  have counts: "unat (size_of_int (nRanks intraComm)) = ?a" "unat (size_of_int (nRanks interComm)) = ?b"
    using hD(1-4) by (auto intro!: unat_size_of_int)
  have reduce: "evenly f (?a * ?b) ?a = Some (f ?b)" "evenly f ?b ?b = Some (f 1)" for f
    using hD(1,3) by (simp_all add: evenly_def)
  show ?thesis
    using hD(1,3)
    unfolding hD(7) cocclBuildHierarchicalReduction_def Let_def
    by (simp add: stage_types reduce counts del: stageType.simps)
qed

lemma hierarchical_reduction_ranks:
  assumes "hierarchy_of comm intraComm interComm"
  shows "stage \<in> set (cocclBuildHierarchicalReduction call intraComm interComm final) \<Longrightarrow> ranks_small stage"
    and "length (cocclBuildHierarchicalReduction call intraComm interComm final) \<le> 5"
proof -
  from hierarchyD(1-4) [OF assms] have "ranks_small (cocclPipelineAllToAll intraComm)" "ranks_small (cocclPipelineAllToAll interComm)"
      "ranks_small (cocclPipelineReduceScatter intraComm)" "ranks_small (cocclPipelineReduceScatter interComm)"
    by (simp_all add: ranks_small_def stage_constructor_defs)
  moreover have "ranks_small (cocclPipelineCompress p)" "ranks_small (cocclPipelineDecompReduceComp k p)"
      "ranks_small (cocclPipelineDecompressReduce k)" for p k
    by (simp_all add: ranks_small_def stage_constructor_defs)
  ultimately show "stage \<in> set (cocclBuildHierarchicalReduction call intraComm interComm final) \<Longrightarrow> ranks_small stage"
    by (auto simp: cocclBuildHierarchicalReduction_def Let_def split: if_splits)
  show "length (cocclBuildHierarchicalReduction call intraComm interComm final) \<le> 5"
    by (simp add: cocclBuildHierarchicalReduction_def Let_def)
qed

lemma flat_compressor:
  assumes "cocclPreparedAlgorithmSupported call alg" and "infoOperation (preparedInfo call) \<noteq> SendRecv"
    and "alg \<noteq> AlgorithmReduceScatterTwoShot" and "alg \<noteq> AlgorithmAllReduceTripleShot"
  shows "flatCompressor call \<noteq> nullptr"
  using assms
  by (simp add: cocclPreparedAlgorithmSupported_def cocclPreparedAlgorithmHasCompression_def algorithmScopes_def
      flatScope_def flatCompressor_def primitiveScope_def)

lemma spec_typed:
  assumes comm: "infoComm (preparedInfo call) = Some comm" and h: "hierarchy_of comm intraComm interComm"
    and supp: "cocclPreparedAlgorithmSupported call (preparedAlgorithm call)"
    and alg: "infoOperation (preparedInfo call) \<in> {AllGather, AllToAll} \<longrightarrow> preparedAlgorithm call = AlgorithmNone"
    and sp: "specOfCall call intraComm interComm = Some sp"
    and chunks: "collectiveChunks (infoOperation (preparedInfo call)) (nat (nRanks comm)) = (inChunks, outChunks)"
  shows "unat (inputChunks sp) = inChunks \<and> stagesType (stages sp) (Raw inChunks) = Some (Raw outChunks) \<and>
      (\<forall>stage \<in> set (stages sp). ranks_small stage) \<and> length (stages sp) \<le> 7"
proof -
  let ?N = "nat (nRanks comm)" and ?info = "preparedInfo call"
  note hD = hierarchyD [OF h]
  have comm': "callComm ?info = comm" using comm by (simp add: callComm_def)
  have ranks: "unat (commRanks ?info) = ?N" using hD(5,6) by (simp add: commRanks_def comm' unat_size_of_int)
  have N: "?N \<noteq> 0" "?N < 2 ^ 31" using hD(5,6) by simp_all
  then have "?N * ?N < 2 ^ 31 * 2 ^ 31" by (intro mult_strict_mono) auto
  with N have types: "gathered f ?N ?N = Some (f (?N * ?N))" "gathered f 1 ?N = Some (f ?N)" "gathered f (Suc 0) ?N = Some (f ?N)"
      "evenly f (?N * ?N) ?N = Some (f ?N)" "evenly f ?N ?N = Some (f 1)" for f
    by (simp_all add: flow_type_defs)
  have small: "ranks_small (cocclPipelineAllToAll comm)" "ranks_small (cocclPipelineAllGather comm)"
      "ranks_small (cocclPipelineCompress p)" "ranks_small (cocclPipelineDecompReduceComp k p)"
      "ranks_small (cocclPipelineDecompressReduce k)" "ranks_small cocclPipelineDecompress" for p k
    using hD(5,6) by (simp_all add: ranks_small_def stage_constructor_defs)
  have len: "length (cocclBuildHierarchicalReduction call intraComm interComm p) \<le> 7"
      "length (cocclBuildHierarchicalReduction call intraComm interComm p) \<le> 6"
      "length (cocclBuildHierarchicalReduction call intraComm interComm p) \<le> 5" for p
    using hierarchical_reduction_ranks(2) [OF h, of call p] by simp_all
  note flat = flat_compressor [OF supp]
  note simps = specOfCall_def primitive_specs primitiveSpec_def Let_def comm' ranks types stage_types small N
    hierarchical_reduction_typed [OF h] hierarchical_reduction_ranks(1) [OF h] len
    hierarchical_reduction_typed [OF h, where rest = "[]", simplified]
  show ?thesis
  proof (cases "infoOperation ?info")
    case AllGather
    with sp chunks flat alg hD(5) show ?thesis by (auto simp add: simps simp del: stageType.simps)
  next
    case AllToAll
    with sp chunks flat alg hD(5) show ?thesis by (auto simp add: simps simp del: stageType.simps)
  next
    case ReduceScatter
    with sp chunks flat hD(5) show ?thesis
      by (auto simp add: simps simp del: stageType.simps split: if_splits)
  next
    case AllReduce
    with sp chunks flat hD(5) show ?thesis
      by (cases "preparedAlgorithm call") (auto simp add: simps simp del: stageType.simps split: if_splits)
  qed (use sp in \<open>simp_all add: specOfCall_def\<close>)
qed

text \<open>
  C33: the pipeline of every supported call is well typed. The data is raw where a stage reads raw
  data and encoded where it decodes, every group divides the chunk count it exchanges or reduces,
  the chunk counts are those of the collective, the planner computes the same, and the stage
  array has room.
\<close>

theorem primitive_stages_typed:
  assumes comm: "infoComm (preparedInfo call) = Some comm" and h: "hierarchy_of comm intraComm interComm"
    and supp: "cocclPreparedAlgorithmSupported call (preparedAlgorithm call)"
    and alg: "infoOperation (preparedInfo call) \<in> {AllGather, AllToAll} \<longrightarrow> preparedAlgorithm call = AlgorithmNone"
    and sp: "specOfCall call intraComm interComm = Some sp"
    and chunks: "collectiveChunks (infoOperation (preparedInfo call)) (nat (nRanks comm)) = (inChunks, outChunks)"
  shows "unat (inputChunks sp) = inChunks \<and> stagesType (stages sp) (Raw inChunks) = Some (Raw outChunks) \<and>
    (\<exists>counts c. stageChunkCounts (stages sp) (inputChunks sp) = Inr (counts, c) \<and> unat c = outChunks) \<and>
    length (stages sp) \<le> kCocclPipelineExplicitStages"
proof -
  have typed: "unat (inputChunks sp) = inChunks \<and> stagesType (stages sp) (Raw inChunks) = Some (Raw outChunks) \<and>
      (\<forall>stage \<in> set (stages sp). ranks_small stage) \<and> length (stages sp) \<le> 7"
    by (rule spec_typed [OF assms])
  from stages_chunks_typed [of "stages sp" "Raw inChunks" "Raw outChunks" "inputChunks sp" "[]"] typed
  show ?thesis by (auto simp: stageChunkCounts_def kCocclPipelineExplicitStages_def)
qed

text \<open>A triple-shot all-reduce of rank 1 on two nodes of two ranks, with a compressor for each phase.\<close>

definition exampleInfo :: "cocclOperation \<Rightarrow> cocclInfo" where
  "exampleInfo op = emptyInfo\<lparr>infoSend := 65536, infoRecv := 131072, infoCount := 64, infoDatatype := ncclFloat32,
     infoOperation := op, infoComm := Some exampleComm\<rparr>"

definition examplePrepared :: "cocclOperation \<Rightarrow> cocclAlgorithmKind \<Rightarrow> cocclPreparedCall" where
  "examplePrepared op alg = \<lparr>preparedInfo = exampleInfo op, preparedDescriptor = cocclGetOperationDescriptor op,
     preparedRole = TrainingRoleUnknown, preparedPolicyKey = cocclDefaultPolicy op ScopeDefault, preparedAlgorithm = alg,
     preparedCompressors = \<lparr>handles = (\<lambda>_. 8192), datatypeSupported = (\<lambda>_. True), setThresholdBytes = 0\<rparr>,
     oneShotUs = Fin 0, twoShotUs = Fin 0, tripleShotUs = Fin 0, preparedUsedModel = False\<rparr>"

definition exampleSubComm :: "ptr \<Rightarrow> ncclComm" where
  "exampleSubComm p = exampleComm\<lparr>self := p, nRanks := 2\<rparr>"

theorem primitive_stages_typed_witness:
  "let call = examplePrepared AllReduce AlgorithmAllReduceTripleShot;
       sp = allReduceTripleShotSpec call (exampleSubComm 1) (exampleSubComm 2) in
   stagesType (stages sp) (Raw 4) = Some (Raw 4) \<and> length (stages sp) = 7"
proof -
  let ?call = "examplePrepared AllReduce AlgorithmAllReduceTripleShot"
  let ?sp = "allReduceTripleShotSpec ?call (exampleSubComm 1) (exampleSubComm 2)"
  have h: "hierarchy_of exampleComm (exampleSubComm 1) (exampleSubComm 2)"
    by (simp add: hierarchy_of_def exampleComm_def exampleSubComm_def)
  have c: "infoComm (preparedInfo ?call) = Some exampleComm" "nat (nRanks exampleComm) = 4"
      "infoOperation (preparedInfo ?call) = AllReduce" "preparedAlgorithm ?call = AlgorithmAllReduceTripleShot"
    by (simp_all add: examplePrepared_def exampleInfo_def exampleComm_def)
  have s: "cocclPreparedAlgorithmSupported ?call (preparedAlgorithm ?call)"
    by (auto simp: examplePrepared_def cocclPreparedAlgorithmSupported_def cocclPreparedAlgorithmHasCompression_def
        algorithmScopes_def setGet_def setSupports_def)
  have "specOfCall ?call (exampleSubComm 1) (exampleSubComm 2) = Some ?sp" by (simp add: specOfCall_def c)
  from primitive_stages_typed [OF c(1) h s _ this, of 4 4] have "stagesType (stages ?sp) (Raw 4) = Some (Raw 4)"
    by (simp add: c)
  then show ?thesis
    by (simp add: Let_def allReduceTripleShotSpec_def primitiveSpec_def cocclBuildHierarchicalReduction_def
        examplePrepared_def setGet_def)
qed

end
