(* ===== verification/Primitive_Dataflow.thy ===== *)
theory Primitive_Dataflow
  imports Primitive_Stages
begin

text \<open>
  What the primitives compute. All ranks of a communicator run their stage lists in step; a rank
  holds a list of chunks, raw values or encoded ones. The result of every specification of theory
  \<open>Primitive_Stages\<close> is the result of its collective, for compressors that lose nothing and an
  associative and commutative addition.
\<close>

section \<open>Stages on the data of all ranks\<close>

text \<open>A chunk is a raw value, or the bytes a compressor made of one.\<close>

datatype ('v, 'e) chunk = RawChunk 'v | EncodedChunk ptr 'e

text \<open>The compressors: encoding and decoding by handle.\<close>

type_synonym ('v, 'e) codec = "(ptr \<Rightarrow> 'v \<Rightarrow> 'e) \<times> (ptr \<Rightarrow> 'e \<Rightarrow> 'v)"

definition lossless :: "('v, 'e) codec \<Rightarrow> bool" where
  "lossless codec \<longleftrightarrow> (\<forall>p v. snd codec p (fst codec p v) = v)"

text \<open>
  Encoded bytes are not a value; reading them as one is an error of the stage list, which the types
  exclude.
\<close>

fun rawValue :: "('v :: zero, 'e) chunk \<Rightarrow> 'v" where
  "rawValue (RawChunk v) = v"
| "rawValue (EncodedChunk p e) = 0"

fun decodedValue :: "('v, 'e) codec \<Rightarrow> ('v, 'e) chunk \<Rightarrow> 'v" where
  "decodedValue codec (RawChunk v) = v"
| "decodedValue codec (EncodedChunk p e) = snd codec p e"

text \<open>
  The exchanges of a group \<open>m\<close> of ranks, seen from the member at position \<open>i\<close>: block \<open>i\<close> of every
  member, everything of every member, and the sums over the members of block \<open>i\<close>. A reduction adds
  \<open>k\<close> consecutive blocks of a rank's own chunks.
\<close>

definition exchanged :: "nat list \<Rightarrow> nat \<Rightarrow> (nat \<Rightarrow> 'a list) \<Rightarrow> nat \<Rightarrow> 'a list" where
  "exchanged m i held n = (let b = n div length m in concat (map (\<lambda>p. take b (drop (i * b) (held p))) m))"

definition collected :: "nat list \<Rightarrow> (nat \<Rightarrow> 'a list) \<Rightarrow> 'a list" where
  "collected m held = concat (map held m)"

definition addedBlocks :: "nat \<Rightarrow> ('v :: comm_monoid_add) list \<Rightarrow> 'v list" where
  "addedBlocks k vs = (let b = length vs div k in map (\<lambda>j. \<Sum>i<k. vs ! (i * b + j)) [0..<b])"

definition scattered :: "nat list \<Rightarrow> nat \<Rightarrow> (nat \<Rightarrow> ('v :: comm_monoid_add) list) \<Rightarrow> nat \<Rightarrow> 'v list" where
  "scattered m i held n =
     (let b = n div length m in map (\<lambda>j. sum_list (map (\<lambda>p. held p ! (i * b + j)) m)) [0..<b])"

definition positionIn :: "nat list \<Rightarrow> nat \<Rightarrow> nat" where
  "positionIn m r = length (takeWhile (\<lambda>p. p \<noteq> r) m)"

text \<open>
  One stage on every rank; \<open>members\<close> gives the ranks of a communicator in its order. Staging copies
  are not part of a specification.
\<close>

definition runStage ::
  "('v :: comm_monoid_add, 'e) codec \<Rightarrow> (ncclComm \<Rightarrow> nat list) \<Rightarrow> (nat \<Rightarrow> cocclPipelineStage) \<Rightarrow>
   (nat \<Rightarrow> ('v, 'e) chunk list) \<Rightarrow> nat \<Rightarrow> ('v, 'e) chunk list" where
  "runStage codec members sts held r =
     (let stage = sts r; p = stageCompressor stage; m = members (the (stageComm stage)); n = length (held r) in
      case kind stage of
        StageCompress \<Rightarrow> map (\<lambda>c. EncodedChunk p (fst codec p (rawValue c))) (held r)
      | StageAllToAll \<Rightarrow> exchanged m (positionIn m r) held n
      | StageAllGather \<Rightarrow> collected m held
      | StageDecompReduceComp \<Rightarrow>
          map (\<lambda>v. EncodedChunk p (fst codec p v)) (addedBlocks (unat (reduceChunks stage)) (map (decodedValue codec) (held r)))
      | StageDecompressReduce \<Rightarrow> map RawChunk (addedBlocks (unat (reduceChunks stage)) (map (decodedValue codec) (held r)))
      | StageDecompress \<Rightarrow> map (\<lambda>c. RawChunk (decodedValue codec c)) (held r)
      | StageReduceScatter \<Rightarrow> map RawChunk (scattered m (positionIn m r) (\<lambda>p. map rawValue (held p)) n)
      | StagePack \<Rightarrow> held r
      | StageUnpack \<Rightarrow> held r)"

text \<open>The same on values alone.\<close>

definition valueStage ::
  "(ncclComm \<Rightarrow> nat list) \<Rightarrow> (nat \<Rightarrow> cocclPipelineStage) \<Rightarrow> (nat \<Rightarrow> ('v :: comm_monoid_add) list) \<Rightarrow> nat \<Rightarrow> 'v list" where
  "valueStage members sts held r =
     (let stage = sts r; m = members (the (stageComm stage)); n = length (held r) in
      case kind stage of
        StageAllToAll \<Rightarrow> exchanged m (positionIn m r) held n
      | StageAllGather \<Rightarrow> collected m held
      | StageDecompReduceComp \<Rightarrow> addedBlocks (unat (reduceChunks stage)) (held r)
      | StageDecompressReduce \<Rightarrow> addedBlocks (unat (reduceChunks stage)) (held r)
      | StageReduceScatter \<Rightarrow> scattered m (positionIn m r) held n
      | _ \<Rightarrow> held r)"

text \<open>A run: the stage lists of all ranks, in step.\<close>

definition stepsOf :: "nat \<Rightarrow> (nat \<Rightarrow> cocclPipelineStage list) \<Rightarrow> (nat \<Rightarrow> cocclPipelineStage) list" where
  "stepsOf n sts = map (\<lambda>i r. sts r ! i) [0..<n]"

definition runSteps ::
  "('v :: comm_monoid_add, 'e) codec \<Rightarrow> (ncclComm \<Rightarrow> nat list) \<Rightarrow> (nat \<Rightarrow> cocclPipelineStage) list \<Rightarrow>
   (nat \<Rightarrow> ('v, 'e) chunk list) \<Rightarrow> nat \<Rightarrow> ('v, 'e) chunk list" where
  "runSteps codec members steps held = foldl (\<lambda>h sts. runStage codec members sts h) held steps"

definition valueSteps ::
  "(ncclComm \<Rightarrow> nat list) \<Rightarrow> (nat \<Rightarrow> cocclPipelineStage) list \<Rightarrow> (nat \<Rightarrow> ('v :: comm_monoid_add) list) \<Rightarrow> nat \<Rightarrow> 'v list" where
  "valueSteps members steps held = foldl (\<lambda>h sts. valueStage members sts h) held steps"

section \<open>Well-typed runs follow the values\<close>

fun isEncoded :: "('v, 'e) chunk \<Rightarrow> bool" where
  "isEncoded (RawChunk v) \<longleftrightarrow> False"
| "isEncoded (EncodedChunk p e) \<longleftrightarrow> True"

text \<open>A list of chunks of a type stands for a list of values.\<close>

fun stands_for :: "('v :: zero, 'e) codec \<Rightarrow> flow_type \<Rightarrow> ('v, 'e) chunk list \<Rightarrow> 'v list \<Rightarrow> bool" where
  "stands_for codec (Raw n) cs vs \<longleftrightarrow> length vs = n \<and> cs = map RawChunk vs"
| "stands_for codec (Encoded n) cs vs \<longleftrightarrow>
     length vs = n \<and> map (decodedValue codec) cs = vs \<and> list_all isEncoded cs"

lemma stands_for_decoded: "stands_for codec t cs vs \<Longrightarrow> map (decodedValue codec) cs = vs"
  by (cases t) (auto simp: comp_def)

lemma stands_for_length: "stands_for codec t cs vs \<Longrightarrow> length cs = flowTypeChunks t \<and> length vs = flowTypeChunks t"
  by (cases t) auto

lemma stands_for_concat:
  assumes "\<And>p. p \<in> set m \<Longrightarrow> stands_for codec (build b) (f p) (g p)" and "build \<in> {Raw, Encoded}"
  shows "stands_for codec (build (length m * b)) (concat (map f m)) (concat (map g m))"
proof -
  have "stands_for codec (build (length m * b)) (concat (map f m)) (concat (map g m))" if "build = Raw"
    using assms(1) that by (induction m) (auto simp: map_concat)
  moreover have "stands_for codec (build (length m * b)) (concat (map f m)) (concat (map g m))" if "build = Encoded"
    using assms(1) that by (induction m) auto
  ultimately show ?thesis using assms(2) by blast
qed

lemma stands_for_block:
  assumes "stands_for codec (build n) cs vs" and "build \<in> {Raw, Encoded}" and "i * b + b \<le> n"
  shows "stands_for codec (build b) (take b (drop (i * b) cs)) (take b (drop (i * b) vs))"
  using assms by (auto simp: take_map drop_map list_all_iff dest!: in_set_takeD in_set_dropD)

lemma addedBlocks_length: "length (addedBlocks k vs) = length vs div k"
  by (simp add: addedBlocks_def Let_def)

lemma scattered_length: "length (scattered m i held n) = n div length m"
  by (simp add: scattered_def Let_def)

text \<open>The group of a stage, as it is held by rank \<open>r\<close>: its members are ranks, and \<open>r\<close> is one of them.\<close>

definition group_ok :: "nat \<Rightarrow> (ncclComm \<Rightarrow> nat list) \<Rightarrow> cocclPipelineStage \<Rightarrow> nat \<Rightarrow> bool" where
  "group_ok N members stage r \<longleftrightarrow>
     (\<forall>comm. stageComm stage = Some comm \<longrightarrow> set (members comm) \<subseteq> {..<N} \<and> r \<in> set (members comm) \<and>
        length (members comm) = nat (nRanks comm))"

lemma positionIn_less: "r \<in> set m \<Longrightarrow> positionIn m r < length m"
  unfolding positionIn_def by (induction m) auto

lemma block_fits: "k \<noteq> 0 \<Longrightarrow> n mod k = 0 \<Longrightarrow> i < k \<Longrightarrow> i * (n div k) + n div k \<le> (n :: nat)"
  by (metis Suc_leI add.commute div_mult_mod_eq add_0_right mult.commute mult_Suc mult_le_mono1)

lemma runStage_follows:
  assumes loss: "lossless codec" and r: "r < N"
    and held: "\<And>p. p < N \<Longrightarrow> stands_for codec t (held p) (vals p)"
    and typed: "stageType (sts r) t = Some t'" and ok: "group_ok N members (sts r) r"
  shows "stands_for codec t' (runStage codec members sts held r) (valueStage members sts vals r)"
proof -
  obtain build n where t: "t = build n" "build \<in> {Raw, Encoded}" by (cases t) auto
  have mine: "stands_for codec t (held r) (vals r)" by (rule held [OF r])
  from stands_for_length [OF mine] t have len: "length (held r) = n" "length (vals r) = n" by auto
  have decoded: "map (decodedValue codec) (held r) = vals r" by (rule stands_for_decoded [OF mine])
  have encode: "stands_for codec (Encoded (length vs)) (map (\<lambda>v. EncodedChunk p (fst codec p v)) vs) vs" for p vs
    using loss by (simp add: lossless_def comp_def list_all_iff)
  let ?m = "members (the (stageComm (sts r)))"
  have group: "set ?m \<subseteq> {..<N}" "r \<in> set ?m" "length ?m = ranksOf (sts r)" if "ranksOf (sts r) \<noteq> 0"
    using ok that by (auto simp: group_ok_def ranksOf_def split: option.splits)
  have exchange: "stands_for codec t (exchanged ?m (positionIn ?m r) held n) (exchanged ?m (positionIn ?m r) vals n)"
    if "ranksOf (sts r) \<noteq> 0" "n mod ranksOf (sts r) = 0"
  proof -
    note g = group [OF that(1)]
    let ?b = "n div length ?m"
    have "positionIn ?m r * ?b + ?b \<le> n" using block_fits that positionIn_less [OF g(2)] g(3) by metis
    then have "stands_for codec (build (length ?m * ?b)) (exchanged ?m (positionIn ?m r) held n) (exchanged ?m (positionIn ?m r) vals n)"
      unfolding exchanged_def Let_def using g(1) held t
      by (intro stands_for_concat stands_for_block) auto
    moreover have "length ?m * ?b = n" using g(3) that by (metis mult_div_mod_eq add_0_right)
    ultimately show ?thesis using t by simp
  qed
  have gather: "stands_for codec (build (n * ranksOf (sts r))) (collected ?m held) (collected ?m vals)"
    if "ranksOf (sts r) \<noteq> 0"
    using group [OF that] stands_for_concat [of ?m codec build n held vals] held t
    by (auto simp: collected_def mult.commute)
  have scatter: "scattered ?m (positionIn ?m r) (\<lambda>p. map rawValue (held p)) n = scattered ?m (positionIn ?m r) vals n"
    if "ranksOf (sts r) \<noteq> 0" "t = Raw n"
  proof -
    have "map rawValue (held p) = vals p" if "p \<in> set ?m" for p
      using held [of p] group(1) [OF \<open>ranksOf (sts r) \<noteq> 0\<close>] that \<open>t = Raw n\<close> by (auto simp: comp_def)
    then show ?thesis unfolding scattered_def Let_def by (simp cong: map_cong)
  qed
  note run = runStage_def valueStage_def Let_def len
  show ?thesis
  proof (cases "kind (sts r)")
    case StageCompress
    with typed t have "t = Raw n" "t' = Encoded n" by (cases t; auto split: if_splits)+
    with mine encode [of "vals r" "stageCompressor (sts r)"] StageCompress show ?thesis
      by (simp add: run comp_def)
  next
    case StageAllToAll
    with typed t have "ranksOf (sts r) \<noteq> 0" "n mod ranksOf (sts r) = 0" "t' = t" by (cases t; auto split: if_splits)+
    with exchange StageAllToAll show ?thesis by (simp add: run)
  next
    case StageAllGather
    with typed t have "ranksOf (sts r) \<noteq> 0" "t' = build (n * ranksOf (sts r))"
      by (cases t; auto simp: gathered_def split: if_splits)+
    with gather StageAllGather show ?thesis by (simp add: run)
  next
    case StageDecompReduceComp
    with typed t have "t = Encoded n" "t' = Encoded (n div unat (reduceChunks (sts r)))"
      by (cases t; auto simp: evenly_def split: if_splits)+
    with StageDecompReduceComp decoded encode [of "addedBlocks (unat (reduceChunks (sts r))) (vals r)" "stageCompressor (sts r)"]
    show ?thesis by (simp add: run addedBlocks_length)
  next
    case StageDecompressReduce
    with typed t have "t' = Raw (n div unat (reduceChunks (sts r)))" by (cases t; auto simp: evenly_def split: if_splits)
    with StageDecompressReduce decoded show ?thesis by (simp add: run addedBlocks_length)
  next
    case StageDecompress
    with typed t have "t' = Raw n" by (cases t; auto)
    with StageDecompress len(1) show ?thesis by (simp add: run comp_def decoded [symmetric])
  next
    case StageReduceScatter
    with typed t have "ranksOf (sts r) \<noteq> 0" "t = Raw n" "t' = Raw (n div ranksOf (sts r))"
      by (cases t; auto simp: evenly_def split: if_splits)+
    with scatter StageReduceScatter group(3) show ?thesis by (simp add: run scattered_length)
  qed (use typed in \<open>cases t; simp\<close>)+
qed

lemma runSteps_follows:
  assumes loss: "lossless codec"
    and held: "\<And>p. p < N \<Longrightarrow> stands_for codec t (held p) (vals p)"
    and typed: "\<And>r. r < N \<Longrightarrow> stagesType (map (\<lambda>sts. sts r) steps) t = Some t'"
    and same: "\<And>sts r r' u. sts \<in> set steps \<Longrightarrow> r < N \<Longrightarrow> r' < N \<Longrightarrow> stageType (sts r) u = stageType (sts r') u"
    and ok: "\<And>sts r. sts \<in> set steps \<Longrightarrow> r < N \<Longrightarrow> group_ok N members (sts r) r"
    and r: "r < N"
  shows "stands_for codec t' (runSteps codec members steps held r) (valueSteps members steps vals r)"
  using assms
proof (induction steps arbitrary: t held vals)
  case Nil
  then show ?case by (simp add: runSteps_def valueSteps_def)
next
  case (Cons sts steps)
  from Cons.prems(3) [OF r] obtain t1 where t1: "stageType (sts r) t = Some t1" by (auto split: option.splits)
  have all: "stageType (sts p) t = Some t1" if "p < N" for p
    using Cons.prems(4) [of sts p r t] that r t1 by simp
  have "stands_for codec t' (runSteps codec members steps (runStage codec members sts held) r)
      (valueSteps members steps (valueStage members sts vals) r)"
  proof (rule Cons.IH [OF loss _ _ _ _ r])
    show "stands_for codec t1 (runStage codec members sts held p) (valueStage members sts vals p)" if "p < N" for p
      by (rule runStage_follows [where sts = sts and held = held and vals = vals and t = t, OF loss that _ all [OF that]])
        (erule Cons.prems(2), simp add: Cons.prems(5) that)
    show "stagesType (map (\<lambda>sts. sts p) steps) t1 = Some t'" if "p < N" for p
      using Cons.prems(3) [OF that] all [OF that] by simp
    show "stageType (s q) u = stageType (s q') u" if "s \<in> set steps" "q < N" "q' < N" for s q q' u
      using Cons.prems(4) [of s q q' u] that by simp
    show "group_ok N members (s q) q" if "s \<in> set steps" "q < N" for s q
      using Cons.prems(5) [of s q] that by simp
  qed
  then show ?case by (simp add: runSteps_def valueSteps_def)
qed


section \<open>What the stages compute\<close>

text \<open>Lists given by their entries.\<close>

lemma concat_blocks:
  "concat (map (\<lambda>q. map (G q) [0..<b]) [0..<k]) = map (\<lambda>d. G (d div b) (d mod b)) [0..<k * b]"
proof (induction k)
  case 0
  then show ?case by simp
next
  case (Suc k)
  have "map (\<lambda>d. G (d div b) (d mod b)) [k * b..<k * b + b] = map (G k) [0..<b]"
    by (rule nth_equalityI) auto
  moreover have "[0..<Suc k * b] = [0..<k * b] @ [k * b..<k * b + b]"
    by (metis add.commute le_add1 mult_Suc upt_add_eq_append zero_le add_0)
  ultimately show ?case using Suc.IH by simp
qed

lemma concat_members:
  assumes "\<And>q. q < length m \<Longrightarrow> f (m ! q) = map (G q) [0..<b]"
  shows "concat (map f m) = map (\<lambda>d. G (d div b) (d mod b)) [0..<length m * b]"
proof -
  have "map f m = map (\<lambda>q. map (G q) [0..<b]) [0..<length m]"
    using assms by (intro nth_equalityI) auto
  then show ?thesis by (simp add: concat_blocks)
qed

lemma exchanged_entries:
  assumes "\<And>p. p \<in> set m \<Longrightarrow> held p = map (F p) [0..<length m * b]" and "i < length m"
  shows "exchanged m i held (length m * b) = map (\<lambda>d. F (m ! (d div b)) (i * b + d mod b)) [0..<length m * b]"
proof -
  have "i * b + b \<le> length m * b" using assms(2) by (metis Suc_leI add.commute mult_Suc mult_le_mono1)
  then have "take b (drop (i * b) (held (m ! q))) = map (\<lambda>j. F (m ! q) (i * b + j)) [0..<b]" if "q < length m" for q
    using assms(1) [of "m ! q"] that by (auto simp: take_map drop_map intro!: nth_equalityI)
  from concat_members [where f = "\<lambda>p. take b (drop (i * b) (held p))", OF this]
  have "concat (map (\<lambda>p. take b (drop (i * b) (held p))) m) = map (\<lambda>d. F (m ! (d div b)) (i * b + d mod b)) [0..<length m * b]" .
  moreover have "length m * b div length m = b" using assms(2) by auto
  ultimately show ?thesis by (simp add: exchanged_def)
qed

lemma collected_entries:
  assumes "\<And>p. p \<in> set m \<Longrightarrow> held p = map (F p) [0..<b]"
  shows "collected m held = map (\<lambda>d. F (m ! (d div b)) (d mod b)) [0..<length m * b]"
  unfolding collected_def by (rule concat_members) (simp add: assms)

lemma in_block: "i < k \<Longrightarrow> j < b \<Longrightarrow> i * b + j < k * (b :: nat)"
  by (metis Suc_leI add.commute less_le_trans mult_Suc mult_le_mono1 nat_add_left_cancel_less)

lemma addedBlocks_entries:
  assumes "k \<noteq> 0"
  shows "addedBlocks k (map F [0..<k * b]) = map (\<lambda>j. \<Sum>i<k. F (i * b + j)) [0..<b]"
  using assms by (auto simp: addedBlocks_def Let_def in_block)

lemma scattered_entries:
  assumes "\<And>p. p \<in> set m \<Longrightarrow> held p = map (F p) [0..<length m * b]" and "i < length m"
  shows "scattered m i held (length m * b) = map (\<lambda>j. sum_list (map (\<lambda>p. F p (i * b + j)) m)) [0..<b]"
proof -
  have "map (\<lambda>p. held p ! (i * b + j)) m = map (\<lambda>p. F p (i * b + j)) m" if "j < b" for j
    using that assms by (intro map_cong) (auto simp: in_block)
  moreover have "length m * b div length m = b" using assms(2) by auto
  ultimately show ?thesis by (simp add: scattered_def Let_def cong: map_cong)
qed


text \<open>The data of all ranks, by rank and chunk.\<close>

definition entries :: "nat \<Rightarrow> nat \<Rightarrow> (nat \<Rightarrow> 'v list) \<Rightarrow> (nat \<Rightarrow> nat \<Rightarrow> 'v) \<Rightarrow> bool" where
  "entries N n held F \<longleftrightarrow> (\<forall>p<N. held p = map (F p) [0..<n])"

text \<open>Communicators \<open>c r\<close> of \<open>k\<close> ranks: the members \<open>m r\<close>, among which \<open>r\<close> has position \<open>i r\<close>.\<close>

definition groups_of ::
  "nat \<Rightarrow> (ncclComm \<Rightarrow> nat list) \<Rightarrow> (nat \<Rightarrow> ncclComm) \<Rightarrow> nat \<Rightarrow> (nat \<Rightarrow> nat list) \<Rightarrow> (nat \<Rightarrow> nat) \<Rightarrow> bool" where
  "groups_of N members c k m i \<longleftrightarrow>
     (\<forall>r<N. members (c r) = m r \<and> length (m r) = k \<and> set (m r) \<subseteq> {..<N} \<and> i r < k \<and> positionIn (m r) r = i r)"

named_theorems entries_intros \<open>what a stage does to the data of all ranks\<close>

lemma entries_local [entries_intros]:
  "entries N n held F \<Longrightarrow> entries N n (valueStage members (\<lambda>r. cocclPipelineCompress (p r)) held) F"
  "entries N n held F \<Longrightarrow> entries N n (valueStage members (\<lambda>r. cocclPipelineDecompress) held) F"
  by (simp_all add: entries_def valueStage_def stage_constructor_defs)

lemma entries_exchange:
  assumes "entries N (k * b) held F" and "groups_of N members c k m i"
  shows "entries N (k * b) (valueStage members (\<lambda>r. cocclPipelineAllToAll (c r)) held)
    (\<lambda>r d. F (m r ! (d div b)) (i r * b + d mod b))"
  unfolding entries_def
proof (intro allI impI)
  fix r assume r: "r < N"
  with assms(2) have g: "members (c r) = m r" "length (m r) = k" "set (m r) \<subseteq> {..<N}" "i r < k" "positionIn (m r) r = i r"
    unfolding groups_of_def by auto
  have "length (held r) = k * b" using assms(1) r by (simp add: entries_def)
  with exchanged_entries [of "m r" held F b "i r"] assms(1) g
  show "valueStage members (\<lambda>r. cocclPipelineAllToAll (c r)) held r =
      map (\<lambda>d. F (m r ! (d div b)) (i r * b + d mod b)) [0..<k * b]"
    by (auto simp: valueStage_def cocclPipelineAllToAll_def entries_def)
qed

lemma entries_gather:
  assumes "entries N b held F" and "groups_of N members c k m i"
  shows "entries N (k * b) (valueStage members (\<lambda>r. cocclPipelineAllGather (c r)) held) (\<lambda>r d. F (m r ! (d div b)) (d mod b))"
  unfolding entries_def
proof (intro allI impI)
  fix r assume r: "r < N"
  with assms(2) have g: "members (c r) = m r" "length (m r) = k" "set (m r) \<subseteq> {..<N}"
    unfolding groups_of_def by auto
  with collected_entries [of "m r" held F b] assms(1)
  show "valueStage members (\<lambda>r. cocclPipelineAllGather (c r)) held r = map (\<lambda>d. F (m r ! (d div b)) (d mod b)) [0..<k * b]"
    by (auto simp: valueStage_def cocclPipelineAllGather_def entries_def)
qed

lemma entries_reduce:
  assumes "entries N (k * b) held F" and "k \<noteq> 0" and "\<And>r. unat (w r) = k"
  shows "entries N b (valueStage members (\<lambda>r. cocclPipelineDecompressReduce (w r)) held) (\<lambda>r j. \<Sum>i<k. F r (i * b + j))"
    and "entries N b (valueStage members (\<lambda>r. cocclPipelineDecompReduceComp (w r) (p r)) held) (\<lambda>r j. \<Sum>i<k. F r (i * b + j))"
  using assms(1,3)
  by (simp_all add: entries_def valueStage_def stage_constructor_defs addedBlocks_entries [OF assms(2)] del: upt_Suc)

lemma entries_scatter:
  assumes "entries N (k * b) held F" and "groups_of N members c k m i"
  shows "entries N b (valueStage members (\<lambda>r. cocclPipelineReduceScatter (c r)) held)
    (\<lambda>r j. sum_list (map (\<lambda>p. F p (i r * b + j)) (m r)))"
  unfolding entries_def
proof (intro allI impI)
  fix r assume r: "r < N"
  with assms(2) have g: "members (c r) = m r" "length (m r) = k" "set (m r) \<subseteq> {..<N}" "i r < k" "positionIn (m r) r = i r"
    unfolding groups_of_def by auto
  have "length (held r) = k * b" using assms(1) r by (simp add: entries_def)
  with scattered_entries [of "m r" held F b "i r"] assms(1) g
  show "valueStage members (\<lambda>r. cocclPipelineReduceScatter (c r)) held r =
      map (\<lambda>j. sum_list (map (\<lambda>p. F p (i r * b + j)) (m r))) [0..<b]"
    by (auto simp: valueStage_def cocclPipelineReduceScatter_def entries_def)
qed

lemma entries_cong: "entries N n held F \<Longrightarrow> (\<And>r d. r < N \<Longrightarrow> d < n \<Longrightarrow> F r d = G r d) \<Longrightarrow> entries N n held G"
  by (simp add: entries_def)

text \<open>
  An exchange followed by a reduction is a reduce-scatter: both leave at rank \<open>r\<close> the sums over the
  group of the chunks of its block.
\<close>

lemma entries_exchange_reduce:
  assumes "entries N (k * b) held F" and g: "groups_of N members c k m i" and w: "\<And>r. unat (w r) = k" and "k \<noteq> 0"
  shows "entries N b (valueStage members (\<lambda>r. cocclPipelineDecompressReduce (w r))
        (valueStage members (\<lambda>r. cocclPipelineAllToAll (c r)) held)) (\<lambda>r j. \<Sum>q<k. F (m r ! q) (i r * b + j))"
    and "entries N b (valueStage members (\<lambda>r. cocclPipelineDecompReduceComp (w r) (p r))
        (valueStage members (\<lambda>r. cocclPipelineAllToAll (c r)) held)) (\<lambda>r j. \<Sum>q<k. F (m r ! q) (i r * b + j))"
proof -
  have "(\<Sum>q<k. F (m r ! ((q * b + j) div b)) (i r * b + (q * b + j) mod b)) = (\<Sum>q<k. F (m r ! q) (i r * b + j))" if "j < b" for r j
    using that by (intro sum.cong) auto
  note same = entries_cong [OF _ this]
  show "entries N b (valueStage members (\<lambda>r. cocclPipelineDecompressReduce (w r))
        (valueStage members (\<lambda>r. cocclPipelineAllToAll (c r)) held)) (\<lambda>r j. \<Sum>q<k. F (m r ! q) (i r * b + j))"
    by (rule same [OF entries_reduce(1) [OF entries_exchange [OF assms(1,2)] assms(4) w]])
  show "entries N b (valueStage members (\<lambda>r. cocclPipelineDecompReduceComp (w r) (p r))
        (valueStage members (\<lambda>r. cocclPipelineAllToAll (c r)) held)) (\<lambda>r j. \<Sum>q<k. F (m r ! q) (i r * b + j))"
    by (rule same [OF entries_reduce(2) [OF entries_exchange [OF assms(1,2)] assms(4) w]])
qed

lemma entries_reduce_scatter:
  assumes "entries N (k * b) held F" and g: "groups_of N members c k m i"
  shows "entries N b (valueStage members (\<lambda>r. cocclPipelineReduceScatter (c r)) held) (\<lambda>r j. \<Sum>q<k. F (m r ! q) (i r * b + j))"
  using entries_scatter [OF assms] g
  by (auto elim!: entries_cong simp: groups_of_def sum_list_sum_nth atLeast0LessThan)


section \<open>The collectives\<close>

text \<open>
  All ranks of a communicator of \<open>M\<close> nodes with \<open>L\<close> ranks each make the same call, with the same
  compressors. The communicators of the hierarchy are those of \<^verbatim>\<open>ncclCommSplit\<close> with the colours
  \<^verbatim>\<open>rank / localRanks\<close> and \<^verbatim>\<open>rank % localRanks\<close> and the rank as key: members in the order of their ranks.
\<close>

definition fleet ::
  "nat \<Rightarrow> nat \<Rightarrow> (ncclComm \<Rightarrow> nat list) \<Rightarrow> (nat \<Rightarrow> cocclPreparedCall) \<Rightarrow> (nat \<Rightarrow> ncclComm) \<Rightarrow> (nat \<Rightarrow> ncclComm) \<Rightarrow> bool" where
  "fleet M L members calls intraOf interOf \<longleftrightarrow>
     0 < M \<and> 0 < L \<and> M * L < 2 ^ 31 \<and>
     (\<forall>r. infoComm (preparedInfo (calls r)) \<noteq> None \<and>
        infoOperation (preparedInfo (calls r)) = infoOperation (preparedInfo (calls 0)) \<and>
        preparedAlgorithm (calls r) = preparedAlgorithm (calls 0) \<and>
        preparedCompressors (calls r) = preparedCompressors (calls 0) \<and>
        nNodes (callComm (preparedInfo (calls r))) = nNodes (callComm (preparedInfo (calls 0))) \<and>
        nRanks (callComm (preparedInfo (calls r))) = int (M * L) \<and> nRanks (intraOf r) = int L \<and> nRanks (interOf r) = int M) \<and>
     (\<forall>r<M * L. members (callComm (preparedInfo (calls r))) = [0..<M * L] \<and>
        members (intraOf r) = [r div L * L..<r div L * L + L] \<and>
        members (interOf r) = map (\<lambda>k. k * L + r mod L) [0..<M])"

text \<open>The order in which the chunks of the input enter the pipeline: the pack kernel's permutation for the hierarchy.\<close>

fun arranged :: "nat \<Rightarrow> nat \<Rightarrow> cocclPipelineInputLayout \<Rightarrow> 'v list \<Rightarrow> 'v list" where
  "arranged M L InputContiguous xs = xs"
| "arranged M L InputHierarchicalSwizzle xs = map (\<lambda>d. xs ! (d mod M * L + d div M)) [0..<length xs]"

text \<open>What the collectives promise: the chunks of rank \<open>r\<close>, from the chunks of all ranks.\<close>

fun collectiveResult :: "cocclOperation \<Rightarrow> nat \<Rightarrow> (nat \<Rightarrow> ('v :: comm_monoid_add) list) \<Rightarrow> nat \<Rightarrow> 'v list" where
  "collectiveResult AllGather N x r = map (\<lambda>p. x p ! 0) [0..<N]"
| "collectiveResult AllToAll N x r = map (\<lambda>p. x p ! r) [0..<N]"
| "collectiveResult ReduceScatter N x r = [\<Sum>p<N. x p ! r]"
| "collectiveResult AllReduce N x r = map (\<lambda>c. \<Sum>p<N. x p ! c) [0..<N]"
| "collectiveResult _ N x r = []"

lemma positionIn_nth:
  assumes "distinct m" and "i < length m"
  shows "positionIn m (m ! i) = i"
proof -
  have "takeWhile (\<lambda>p. p \<noteq> m ! i) m = take i m"
    using assms by (intro takeWhile_eq_take_P_nth) (auto simp: nth_eq_iff_index_eq)
  with assms show ?thesis by (simp add: positionIn_def)
qed

lemma fleet_sizes:
  assumes "fleet M L members calls intraOf interOf"
  shows "0 < M" "0 < L" "M * L < 2 ^ 31" "M < 2 ^ 31" "L < 2 ^ 31" "nRanks (callComm (preparedInfo (calls r))) = int (M * L)"
    "nRanks (intraOf r) = int L" "nRanks (interOf r) = int M"
proof -
  from assms show m: "0 < M" "0 < L" "M * L < 2 ^ 31" "nRanks (callComm (preparedInfo (calls r))) = int (M * L)"
      "nRanks (intraOf r) = int L" "nRanks (interOf r) = int M"
    unfolding fleet_def by blast+
  then have "M \<le> M * L" "L \<le> M * L" by simp_all
  with m(3) show "M < 2 ^ 31" "L < 2 ^ 31" by (blast intro: le_less_trans)+
qed

lemma fleet_hierarchy:
  assumes "fleet M L members calls intraOf interOf"
  shows "hierarchy_of (callComm (preparedInfo (calls r))) (intraOf r) (interOf r)"
proof -
  note z = fleet_sizes [OF assms]
  have "int M * int L < 2 ^ 31" using z(3) by (metis of_nat_less_iff of_nat_mult of_nat_numeral of_nat_power)
  with z show ?thesis by (simp add: hierarchy_of_def mult.commute)
qed

definition group_of_member :: "nat \<Rightarrow> (ncclComm \<Rightarrow> nat list) \<Rightarrow> ncclComm \<Rightarrow> nat \<Rightarrow> bool" where
  "group_of_member N members comm r \<longleftrightarrow>
     set (members comm) \<subseteq> {..<N} \<and> r \<in> set (members comm) \<and> length (members comm) = nat (nRanks comm)"

lemma positionIn_member: "positionIn m r < length m \<Longrightarrow> r \<in> set m"
  unfolding positionIn_def by (induction m) (auto split: if_splits)

lemma groups_member:
  assumes "groups_of N members c k m i" and "r < N" and "nRanks (c r) = int k"
  shows "group_of_member N members (c r) r"
  using assms positionIn_member [of "m r" r] by (auto simp: groups_of_def group_of_member_def)

lemma fleet_groups:
  assumes f: "fleet M L members calls intraOf interOf"
  shows "groups_of (M * L) members (\<lambda>r. callComm (preparedInfo (calls r))) (M * L) (\<lambda>r. [0..<M * L]) (\<lambda>r. r)"
    and "groups_of (M * L) members intraOf L (\<lambda>r. [r div L * L..<r div L * L + L]) (\<lambda>r. r mod L)"
    and "groups_of (M * L) members interOf M (\<lambda>r. map (\<lambda>k. k * L + r mod L) [0..<M]) (\<lambda>r. r div L)"
proof -
  from f have L: "0 < L" "0 < M" unfolding fleet_def by auto
  have node: "r div L < M" if "r < M * L" for r using that by (simp add: less_mult_imp_div_less)
  have ends: "r div L * L + L \<le> M * L" if "r < M * L" for r
    using node [OF that] by (metis Suc_leI add.commute mult_Suc mult_le_mono1)
  have whole: "positionIn [0..<M * L] r = r" if "r < M * L" for r
    using positionIn_nth [of "[0..<M * L]" r] that by simp
  have inNode: "positionIn [r div L * L..<r div L * L + L] r = r mod L" for r
  proof -
    have "r div L * L + r mod L < r div L * L + L" using mod_less_divisor [OF L(1)] by (simp only: add_less_cancel_left)
    then have "[r div L * L..<r div L * L + L] ! (r mod L) = r" by (subst nth_upt) simp_all
    with positionIn_nth [of "[r div L * L..<r div L * L + L]" "r mod L"] L show ?thesis by simp
  qed
  have acrossNodes: "positionIn (map (\<lambda>k. k * L + r mod L) [0..<M]) r = r div L" if "r < M * L" for r
    using positionIn_nth [of "map (\<lambda>k. k * L + r mod L) [0..<M]" "r div L"] L node [OF that]
    by (simp add: distinct_map inj_on_def)
  have across: "k * L + r mod L < M * L" if "k < M" for k r
    using L that by (intro in_block) auto
  show "groups_of (M * L) members (\<lambda>r. callComm (preparedInfo (calls r))) (M * L) (\<lambda>r. [0..<M * L]) (\<lambda>r. r)"
    using f whole by (auto simp: groups_of_def fleet_def)
  show "groups_of (M * L) members intraOf L (\<lambda>r. [r div L * L..<r div L * L + L]) (\<lambda>r. r mod L)"
    using f inNode L ends by (fastforce simp: groups_of_def fleet_def)
  show "groups_of (M * L) members interOf M (\<lambda>r. map (\<lambda>k. k * L + r mod L) [0..<M]) (\<lambda>r. r div L)"
    using f acrossNodes node across by (auto simp: groups_of_def fleet_def)
qed


text \<open>The two phases of the hierarchical reduction: the sums over the node, then over the nodes.\<close>

lemma hierarchy_sum:
  fixes x :: "nat \<Rightarrow> nat \<Rightarrow> 'v :: comm_monoid_add"
  shows "(\<Sum>k<M. \<Sum>q<L. x (k * L + q) c) = (\<Sum>p<M * L. x p c)"
proof -
  have "(\<Sum>q<L. x (k * L + q) c) = (\<Sum>p = k * L..<k * L + L. x p c)" for k
    by (simp add: sum.shift_bounds_nat_ivl [of _ 0 "k * L" L, simplified] lessThan_atLeast0 add.commute)
  then show ?thesis by (simp add: sum.nat_group)
qed

lemma node_phase:
  assumes f: "fleet M L members calls intraOf interOf"
    and held: "entries (M * L) (L * M) held (\<lambda>p d. x p (d mod M * L + d div M))"
    and w: "\<And>r. unat (w r) = L"
  shows "entries (M * L) M (valueStage members (\<lambda>r. cocclPipelineDecompressReduce (w r))
        (valueStage members (\<lambda>r. cocclPipelineAllToAll (intraOf r)) held))
      (\<lambda>r j. \<Sum>q<L. x (r div L * L + q) (j * L + r mod L))"
    and "entries (M * L) M (valueStage members (\<lambda>r. cocclPipelineDecompReduceComp (w r) (p r))
        (valueStage members (\<lambda>r. cocclPipelineAllToAll (intraOf r)) held))
      (\<lambda>r j. \<Sum>q<L. x (r div L * L + q) (j * L + r mod L))"
    and "entries (M * L) M (valueStage members (\<lambda>r. cocclPipelineReduceScatter (intraOf r)) held)
      (\<lambda>r j. \<Sum>q<L. x (r div L * L + q) (j * L + r mod L))"
proof -
  from f have L: "L \<noteq> 0" by (simp add: fleet_def)
  note g = fleet_groups(2) [OF f]
  have "(\<Sum>q<L. x ([r div L * L..<r div L * L + L] ! q) ((r mod L * M + j) mod M * L + (r mod L * M + j) div M)) =
      (\<Sum>q<L. x (r div L * L + q) (j * L + r mod L))" if "j < M" for r j
    using that by (intro sum.cong) auto
  note same = entries_cong [OF _ this]
  show "entries (M * L) M (valueStage members (\<lambda>r. cocclPipelineDecompressReduce (w r))
        (valueStage members (\<lambda>r. cocclPipelineAllToAll (intraOf r)) held))
      (\<lambda>r j. \<Sum>q<L. x (r div L * L + q) (j * L + r mod L))"
    by (rule same [OF entries_exchange_reduce(1) [OF held g w L]])
  show "entries (M * L) M (valueStage members (\<lambda>r. cocclPipelineDecompReduceComp (w r) (p r))
        (valueStage members (\<lambda>r. cocclPipelineAllToAll (intraOf r)) held))
      (\<lambda>r j. \<Sum>q<L. x (r div L * L + q) (j * L + r mod L))"
    by (rule same [OF entries_exchange_reduce(2) [OF held g w L]])
  show "entries (M * L) M (valueStage members (\<lambda>r. cocclPipelineReduceScatter (intraOf r)) held)
      (\<lambda>r j. \<Sum>q<L. x (r div L * L + q) (j * L + r mod L))"
    by (rule same [OF entries_reduce_scatter [OF held g]])
qed

lemma nodes_phase:
  assumes f: "fleet M L members calls intraOf interOf"
    and held: "entries (M * L) M held (\<lambda>r j. \<Sum>q<L. x (r div L * L + q) (j * L + r mod L))"
    and w: "\<And>r. unat (w r) = M"
  shows "entries (M * L) 1 (valueStage members (\<lambda>r. cocclPipelineDecompressReduce (w r))
        (valueStage members (\<lambda>r. cocclPipelineAllToAll (interOf r)) held)) (\<lambda>r j. \<Sum>p<M * L. x p r)"
    and "entries (M * L) 1 (valueStage members (\<lambda>r. cocclPipelineDecompReduceComp (w r) (p r))
        (valueStage members (\<lambda>r. cocclPipelineAllToAll (interOf r)) held)) (\<lambda>r j. \<Sum>p<M * L. x p r)"
    and "entries (M * L) 1 (valueStage members (\<lambda>r. cocclPipelineReduceScatter (interOf r)) held) (\<lambda>r j. \<Sum>p<M * L. x p r)"
proof -
  from f have L: "L \<noteq> 0" "M \<noteq> 0" by (simp_all add: fleet_def)
  note g = fleet_groups(3) [OF f]
  from held have held': "entries (M * L) (M * 1) held (\<lambda>r j. \<Sum>q<L. x (r div L * L + q) (j * L + r mod L))" by simp
  let ?m = "\<lambda>r. map (\<lambda>k. k * L + r mod L) [0..<M]"
  have "(\<Sum>k<M. \<Sum>q<L. x (?m r ! k div L * L + q) ((r div L * 1 + j) * L + ?m r ! k mod L)) = (\<Sum>p<M * L. x p r)"
    if "j < 1" for r j
    unfolding hierarchy_sum [symmetric] using that L by (intro sum.cong) auto
  note same = entries_cong [OF _ this]
  show "entries (M * L) 1 (valueStage members (\<lambda>r. cocclPipelineDecompressReduce (w r))
        (valueStage members (\<lambda>r. cocclPipelineAllToAll (interOf r)) held)) (\<lambda>r j. \<Sum>p<M * L. x p r)"
    by (rule same [OF entries_exchange_reduce(1) [OF held' g w L(2)]])
  show "entries (M * L) 1 (valueStage members (\<lambda>r. cocclPipelineDecompReduceComp (w r) (p r))
        (valueStage members (\<lambda>r. cocclPipelineAllToAll (interOf r)) held)) (\<lambda>r j. \<Sum>p<M * L. x p r)"
    by (rule same [OF entries_exchange_reduce(2) [OF held' g w L(2)]])
  show "entries (M * L) 1 (valueStage members (\<lambda>r. cocclPipelineReduceScatter (interOf r)) held) (\<lambda>r j. \<Sum>p<M * L. x p r)"
    by (rule same [OF entries_reduce_scatter [OF held' g]])
qed


lemma steps_append:
  assumes "\<And>r. length (A r) = a" and "\<And>r. length (B r) = b"
  shows "stepsOf (a + b) (\<lambda>r. A r @ B r) = stepsOf a A @ stepsOf b B"
  using assms by (auto simp: stepsOf_def upt_add_eq_append [of 0 a b] nth_append intro!: nth_equalityI)

lemma steps_simps:
  "stepsOf 0 sts = []" "stepsOf (Suc n) (\<lambda>r. s r # t r) = s # stepsOf n t"
  by (auto simp: stepsOf_def upt_conv_Cons map_Suc_upt [symmetric] simp del: upt_Suc)

lemma valueSteps_simps:
  "valueSteps members [] held = held" "valueSteps members (s # steps) held = valueSteps members steps (valueStage members s held)"
  "valueSteps members (steps @ steps') held = valueSteps members steps' (valueSteps members steps held)"
  by (simp_all add: valueSteps_def)

lemma hierarchical_values:
  fixes final :: ptr
  assumes f: "fleet M L members calls intraOf interOf" and cs: "\<And>r. preparedCompressors (calls r) = cs"
    and held: "entries (M * L) (L * M) held (\<lambda>p d. x p (d mod M * L + d div M))"
  defines "sts \<equiv> \<lambda>r. cocclBuildHierarchicalReduction (calls r) (intraOf r) (interOf r) final"
  shows "entries (M * L) 1 (valueSteps members (stepsOf (length (sts 0)) sts) held) (\<lambda>r j. \<Sum>p<M * L. x p r)"
proof -
  note z = fleet_sizes [OF f]
  have w: "unat (size_of_int (nRanks (intraOf r))) = L" "unat (size_of_int (nRanks (interOf r))) = M" for r
    using z(4,5) by (simp_all add: z(7,8) unat_word_of_nat_size)
  note phases = entries_local node_phase [OF f _ w(1)] nodes_phase [OF f _ w(2)]
  show ?thesis
    unfolding sts_def cocclBuildHierarchicalReduction_def Let_def cs
    by (cases "setGet cs ScopeIntra = nullptr"; cases "setGet cs ScopeInter = nullptr"; cases "final = nullptr")
      (simp_all only: if_True if_False append.simps list.size steps_simps valueSteps_simps simp_thms
        add_Suc_right add_0_right add_Suc add_0, (intro phases held)+)
qed


text \<open>The specifications of two ranks differ in their communicators only.\<close>

definition alike :: "cocclPipelineStage \<Rightarrow> cocclPipelineStage \<Rightarrow> bool" where
  "alike s s' \<longleftrightarrow> kind s = kind s' \<and> stageCompressor s = stageCompressor s' \<and> reduceChunks s = reduceChunks s' \<and>
     ranksOf s = ranksOf s'"

lemma alike_type:
  assumes "alike s s'"
  shows "stageType s u = stageType s' u"
proof -
  from assms have "kind s = kind s'" "stageCompressor s = stageCompressor s'" "reduceChunks s = reduceChunks s'"
      "ranksOf s = ranksOf s'" by (simp_all add: alike_def)
  then show ?thesis by (cases u) (simp_all only: stageType.simps)
qed

lemma alike_stages:
  assumes "nRanks c = nRanks c'"
  shows "alike (cocclPipelineAllToAll c) (cocclPipelineAllToAll c')" "alike (cocclPipelineAllGather c) (cocclPipelineAllGather c')"
    "alike (cocclPipelineReduceScatter c) (cocclPipelineReduceScatter c')"
  using assms by (simp_all add: alike_def stage_constructor_defs ranksOf_def)

lemma alike_refl [simp]: "alike s s"
  by (simp add: alike_def)

lemma hier_alike:
  assumes f: "fleet M L members calls intraOf interOf"
  shows "list_all2 alike (cocclBuildHierarchicalReduction (calls r) (intraOf r) (interOf r) p)
    (cocclBuildHierarchicalReduction (calls r') (intraOf r') (interOf r') p)"
proof -
  have cs: "preparedCompressors (calls r') = preparedCompressors (calls r)" using f unfolding fleet_def by metis
  have al: "alike (cocclPipelineAllToAll (intraOf r)) (cocclPipelineAllToAll (intraOf r'))"
      "alike (cocclPipelineReduceScatter (intraOf r)) (cocclPipelineReduceScatter (intraOf r'))"
      "alike (cocclPipelineAllToAll (interOf r)) (cocclPipelineAllToAll (interOf r'))"
      "alike (cocclPipelineReduceScatter (interOf r)) (cocclPipelineReduceScatter (interOf r'))"
    by (simp_all add: alike_stages fleet_sizes(7,8) [OF f])
  show ?thesis
    unfolding cocclBuildHierarchicalReduction_def Let_def cs fleet_sizes(7,8) [OF f]
    by (simp add: al list_all2_appendI)
qed

lemma hier_comms:
  "s \<in> set (cocclBuildHierarchicalReduction call ic xc p) \<Longrightarrow> stageComm s = Some c \<Longrightarrow> c = ic \<or> c = xc"
  by (auto simp: cocclBuildHierarchicalReduction_def Let_def stage_constructor_defs split: if_splits)

lemma specs_alike:
  assumes f: "fleet M L members calls intraOf interOf"
    and sp: "specOfCall (calls r) (intraOf r) (interOf r) = Some sp" "specOfCall (calls r') (intraOf r') (interOf r') = Some sp'"
  shows "list_all2 alike (stages sp) (stages sp') \<and> inputLayout sp = inputLayout sp' \<and>
    (\<forall>s \<in> set (stages sp). stageComm s \<in> {None, Some (callComm (preparedInfo (calls r))), Some (intraOf r), Some (interOf r)})"
proof -
  obtain oper alg cs nodes where same: "infoOperation (preparedInfo (calls r)) = oper" "preparedAlgorithm (calls r) = alg"
      "preparedCompressors (calls r) = cs" "nNodes (callComm (preparedInfo (calls r))) = nodes" for r
    using f unfolding fleet_def by blast
  have flat: "flatCompressor (calls r) = setGet cs (if nodes = 1 then ScopeIntra else ScopeDefault)"
      "commRanks (preparedInfo (calls r)) = size_of_int (int (M * L))" for r
    by (simp_all add: flatCompressor_def primitiveScope_def same commRanks_def fleet_sizes(6) [OF f])
  have al: "alike (cocclPipelineAllToAll (callComm (preparedInfo (calls r)))) (cocclPipelineAllToAll (callComm (preparedInfo (calls r'))))"
      "alike (cocclPipelineAllGather (callComm (preparedInfo (calls r)))) (cocclPipelineAllGather (callComm (preparedInfo (calls r'))))"
    by (simp_all add: alike_stages fleet_sizes(6) [OF f])
  have comms: "stageComm (cocclPipelineCompress p) = None" "stageComm cocclPipelineDecompress = None"
      "stageComm (cocclPipelineDecompressReduce k) = None" "stageComm (cocclPipelineDecompReduceComp k p) = None"
      "stageComm (cocclPipelineAllToAll c) = Some c" "stageComm (cocclPipelineAllGather c) = Some c" for c p k
    by (simp_all add: stage_constructor_defs)
  note hier = hier_alike [OF f, where r = r and r' = r']
  show ?thesis
  proof (cases oper)
    case AllGather
    with sp al show ?thesis by (auto simp: specOfCall_def same flat allGatherSpec_def primitiveSpec_def Let_def comms)
  next
    case AllToAll
    with sp al show ?thesis by (auto simp: specOfCall_def same flat allToAllSpec_def primitiveSpec_def Let_def comms)
  next
    case ReduceScatter
    with sp al hier show ?thesis
      by (auto simp: specOfCall_def same flat reduceScatterOneShotSpec_def reduceScatterTwoShotSpec_def primitiveSpec_def
          Let_def comms dest: hier_comms split: if_splits)
  next
    case AllReduce
    show ?thesis
    proof (cases alg)
      case AlgorithmAllReduceOneShot
      with AllReduce sp al show ?thesis
        by (auto simp: specOfCall_def same flat allReduceOneShotSpec_def primitiveSpec_def Let_def comms)
    next
      case AlgorithmAllReduceTwoShot
      with AllReduce sp al show ?thesis
        by (auto simp: specOfCall_def same flat allReduceTwoShotSpec_def primitiveSpec_def Let_def comms)
    next
      case AlgorithmAllReduceTripleShot
      with AllReduce sp al hier show ?thesis
        by (auto simp: specOfCall_def same flat allReduceTripleShotSpec_def primitiveSpec_def Let_def comms
            intro!: list_all2_appendI dest: hier_comms split: if_splits)
    qed (use AllReduce sp in \<open>simp_all add: specOfCall_def same\<close>)
  qed (use sp in \<open>simp_all add: specOfCall_def same\<close>)
qed


text \<open>The flat primitives, on the whole communicator.\<close>

lemma flat_values:
  fixes x :: "nat \<Rightarrow> nat \<Rightarrow> 'v :: comm_monoid_add"
  assumes g: "groups_of N members c N (\<lambda>r. [0..<N]) (\<lambda>r. r)" and w: "\<And>r. unat (w r) = N" and N: "N \<noteq> 0"
  shows "entries N 1 held x \<Longrightarrow> entries N N (valueStage members (\<lambda>r. cocclPipelineAllGather (c r)) held) (\<lambda>r d. x d 0)"
    and "entries N N held x \<Longrightarrow> entries N N (valueStage members (\<lambda>r. cocclPipelineAllToAll (c r)) held) (\<lambda>r d. x d r)"
    and "entries N N held x \<Longrightarrow> entries N 1 (valueStage members (\<lambda>r. cocclPipelineDecompressReduce (w r))
        (valueStage members (\<lambda>r. cocclPipelineAllToAll (c r)) held)) (\<lambda>r d. \<Sum>p<N. x p r)"
    and "entries N N held x \<Longrightarrow> entries N 1 (valueStage members (\<lambda>r. cocclPipelineDecompReduceComp (w r) (p r))
        (valueStage members (\<lambda>r. cocclPipelineAllToAll (c r)) held)) (\<lambda>r d. \<Sum>p<N. x p r)"
    and "entries N N held x \<Longrightarrow> entries N N (valueStage members (\<lambda>r. cocclPipelineDecompressReduce (w r))
        (valueStage members (\<lambda>r. cocclPipelineAllGather (c r)) held)) (\<lambda>r d. \<Sum>p<N. x p d)"
proof -
  show "entries N N (valueStage members (\<lambda>r. cocclPipelineAllGather (c r)) held) (\<lambda>r d. x d 0)" if "entries N 1 held x"
    using entries_cong [OF entries_gather [OF that g], of "\<lambda>r d. x d 0"] by simp
  assume "entries N N held x"
  then have e: "entries N (N * 1) held x" by simp
  show "entries N N (valueStage members (\<lambda>r. cocclPipelineAllToAll (c r)) held) (\<lambda>r d. x d r)"
    using entries_cong [OF entries_exchange [OF e g], of "\<lambda>r d. x d r"] by simp
  have sums: "(\<Sum>q<N. x ([0..<N] ! q) (r * 1 + j)) = (\<Sum>p<N. x p r)" if "j < 1" for r j
    using that by (intro sum.cong) auto
  show "entries N 1 (valueStage members (\<lambda>r. cocclPipelineDecompressReduce (w r))
        (valueStage members (\<lambda>r. cocclPipelineAllToAll (c r)) held)) (\<lambda>r d. \<Sum>p<N. x p r)"
    by (rule entries_cong [OF entries_exchange_reduce(1) [OF e g w N] sums])
  show "entries N 1 (valueStage members (\<lambda>r. cocclPipelineDecompReduceComp (w r) (p r))
        (valueStage members (\<lambda>r. cocclPipelineAllToAll (c r)) held)) (\<lambda>r d. \<Sum>p<N. x p r)"
    by (rule entries_cong [OF entries_exchange_reduce(2) [OF e g w N] sums])
  have "(\<Sum>i<N. x ([0..<N] ! ((i * N + j) div N)) ((i * N + j) mod N)) = (\<Sum>p<N. x p j)" if "j < N" for j
    using that by (intro sum.cong) auto
  from entries_cong [OF entries_reduce(1) [OF entries_gather [OF \<open>entries N N held x\<close> g] N w] this]
  show "entries N N (valueStage members (\<lambda>r. cocclPipelineDecompressReduce (w r))
        (valueStage members (\<lambda>r. cocclPipelineAllGather (c r)) held)) (\<lambda>r d. \<Sum>p<N. x p d)" .
qed

text \<open>The values after the steps of every primitive.\<close>

lemma primitive_values:
  fixes x :: "nat \<Rightarrow> ('v :: comm_monoid_add) list"
  assumes f: "fleet M L members calls intraOf interOf" and r: "r < M * L"
    and sp: "\<And>r. specOfCall (calls r) (intraOf r) (interOf r) = Some (sps r)"
    and chunks: "collectiveChunks (infoOperation (preparedInfo (calls 0))) (M * L) = (inChunks, outChunks)"
    and x: "\<And>p. p < M * L \<Longrightarrow> length (x p) = inChunks"
  shows "valueSteps members (stepsOf (length (stages (sps 0))) (\<lambda>r. stages (sps r)))
      (\<lambda>p. arranged M L (inputLayout (sps p)) (x p)) r = collectiveResult (infoOperation (preparedInfo (calls 0))) (M * L) x r"
proof -
  let ?N = "M * L"
  obtain oper alg cs nodes where same: "infoOperation (preparedInfo (calls r)) = oper" "preparedAlgorithm (calls r) = alg"
      "preparedCompressors (calls r) = cs" "nNodes (callComm (preparedInfo (calls r))) = nodes" for r
    using f unfolding fleet_def by blast
  note z = fleet_sizes [OF f]
  have w: "unat (commRanks (preparedInfo (calls r))) = ?N" for r
    using z(3) by (simp add: commRanks_def z(6) unat_word_of_nat_size del: of_nat_mult)
  have N: "?N \<noteq> 0" using z(1,2) by simp
  note flat = flat_values [OF fleet_groups(1) [OF f] w N]
  have raw: "entries ?N inChunks x (\<lambda>p d. x p ! d)"
    unfolding entries_def using x by (auto intro!: nth_equalityI)
  have swizzled: "entries ?N (L * M) (\<lambda>p. arranged M L InputHierarchicalSwizzle (x p)) (\<lambda>p d. x p ! (d mod M * L + d div M))"
    if "inChunks = ?N"
    unfolding entries_def using x that by (auto simp: mult.commute)
  have at: "entries ?N n held F \<Longrightarrow> held r = map (F r) [0..<n]" for n and held :: "nat \<Rightarrow> 'v list" and F
    using r by (simp add: entries_def)
  note steps = specOfCall_def same primitive_specs primitiveSpec_def Let_def steps_simps valueSteps_simps
  have S: "sps r = the (specOfCall (calls r) (intraOf r) (interOf r))" for r by (simp add: sp)
  show ?thesis
  proof (cases oper)
    case AllGather
    with chunks raw have "entries ?N 1 x (\<lambda>p d. x p ! d)" by (simp add: same)
    note at [OF entries_local(2) [OF flat(1) [OF entries_local(1) [OF this]]]]
    with AllGather show ?thesis unfolding S by (simp add: steps)
  next
    case AllToAll
    with chunks raw have "entries ?N ?N x (\<lambda>p d. x p ! d)" by (simp add: same)
    note at [OF entries_local(2) [OF flat(2) [OF entries_local(1) [OF this]]]]
    with AllToAll show ?thesis unfolding S by (simp add: steps)
  next
    case ReduceScatter
    with chunks have n: "inChunks = ?N" by (simp add: same)
    show ?thesis
    proof (cases "alg = AlgorithmReduceScatterOneShot")
      case True
      from raw n have "entries ?N ?N x (\<lambda>p d. x p ! d)" by simp
      note at [OF flat(3) [OF entries_local(1) [OF this]]]
      with True ReduceScatter show ?thesis unfolding S by (simp add: steps)
    next
      case False
      note at [OF hierarchical_values [OF f same(3) swizzled [OF n], where final = nullptr]]
      with False ReduceScatter show ?thesis unfolding S by (simp add: steps)
    qed
  next
    case AllReduce
    with chunks raw have n: "inChunks = ?N" and e: "entries ?N ?N x (\<lambda>p d. x p ! d)" by (simp_all add: same)
    show ?thesis
    proof (cases alg)
      case AlgorithmAllReduceOneShot
      note at [OF flat(5) [OF entries_local(1) [OF e]]]
      with AlgorithmAllReduceOneShot AllReduce show ?thesis unfolding S by (simp add: steps)
    next
      case AlgorithmAllReduceTwoShot
      note at [OF entries_local(2) [OF flat(1) [OF flat(4) [OF entries_local(1) [OF e]]]]]
      with AlgorithmAllReduceTwoShot AllReduce show ?thesis unfolding S by (simp add: steps)
    next
      case AlgorithmAllReduceTripleShot
      let ?fin = "setGet cs ScopeDefault"
      let ?A = "\<lambda>r. cocclBuildHierarchicalReduction (calls r) (intraOf r) (interOf r) ?fin"
      have "length (?A r) = length (?A 0)" for r
        by (rule list_all2_lengthD [OF hier_alike [OF f]])
      note app = steps_append [of ?A "length (?A 0)", OF this]
      note h = flat(1) [OF hierarchical_values [OF f same(3) swizzled [OF n], where final = ?fin]]
      show ?thesis
      proof (cases "?fin = nullptr")
        case True
        with AlgorithmAllReduceTripleShot AllReduce at [OF h] app [of "\<lambda>r. [cocclPipelineAllGather (callComm (preparedInfo (calls r)))]" 1]
        show ?thesis unfolding S by (simp add: steps)
      next
        case False
        with AlgorithmAllReduceTripleShot AllReduce at [OF entries_local(2) [OF h]]
          app [of "\<lambda>r. [cocclPipelineAllGather (callComm (preparedInfo (calls r))), cocclPipelineDecompress]" "Suc (Suc 0)"]
        show ?thesis unfolding S by (simp add: steps)
      qed
    qed (use AllReduce sp in \<open>simp_all add: specOfCall_def same\<close>)
  qed (use sp in \<open>simp_all add: specOfCall_def same\<close>)
qed


lemma steps_at: "length (sts r) = n \<Longrightarrow> map (\<lambda>step. step r) (stepsOf n sts) = sts r"
  by (auto simp: stepsOf_def intro!: nth_equalityI)

text \<open>The specifications of all ranks, as one run.\<close>

definition fleet_specs ::
  "(nat \<Rightarrow> cocclPreparedCall) \<Rightarrow> (nat \<Rightarrow> ncclComm) \<Rightarrow> (nat \<Rightarrow> ncclComm) \<Rightarrow> (nat \<Rightarrow> cocclPipelineSpec) \<Rightarrow> bool" where
  "fleet_specs calls intraOf interOf sps \<longleftrightarrow> (\<forall>r. specOfCall (calls r) (intraOf r) (interOf r) = Some (sps r))"

lemma fleet_specs_alike:
  assumes "fleet M L members calls intraOf interOf" and "fleet_specs calls intraOf interOf sps"
  shows "list_all2 alike (stages (sps r)) (stages (sps r'))" and "length (stages (sps r)) = length (stages (sps 0))"
    and "s \<in> set (stages (sps r)) \<Longrightarrow> stageComm s = Some c \<Longrightarrow> c \<in> {callComm (preparedInfo (calls r)), intraOf r, interOf r}"
proof -
  have sp: "specOfCall (calls q) (intraOf q) (interOf q) = Some (sps q)" for q using assms(2) by (simp add: fleet_specs_def)
  have a: "list_all2 alike (stages (sps r)) (stages (sps r'))" for r r'
    using specs_alike [OF assms(1) sp [of r] sp [of r']] by blast
  show "list_all2 alike (stages (sps r)) (stages (sps r'))" by (rule a)
  show "length (stages (sps r)) = length (stages (sps 0))" by (rule list_all2_lengthD [OF a])
  show "c \<in> {callComm (preparedInfo (calls r)), intraOf r, interOf r}" if "s \<in> set (stages (sps r))" "stageComm s = Some c"
    using specs_alike [OF assms(1) sp [of r] sp [of r]] that by force
qed

lemma fleet_step_types:
  assumes "fleet M L members calls intraOf interOf" and "fleet_specs calls intraOf interOf sps"
    and "s \<in> set (stepsOf (length (stages (sps 0))) (\<lambda>r. stages (sps r)))"
  shows "stageType (s q) u = stageType (s q') u"
proof -
  from assms(3) obtain i where i: "s = (\<lambda>r. stages (sps r) ! i)" "i < length (stages (sps 0))" by (auto simp: stepsOf_def)
  from list_all2_nthD [OF fleet_specs_alike(1) [OF assms(1,2), of q q'], of i] i fleet_specs_alike(2) [OF assms(1,2), of q]
  have "alike (s q) (s q')" by simp
  then show ?thesis by (rule alike_type)
qed

lemma fleet_step_groups:
  assumes "fleet M L members calls intraOf interOf" and "fleet_specs calls intraOf interOf sps"
    and "s \<in> set (stepsOf (length (stages (sps 0))) (\<lambda>r. stages (sps r)))" and "q < M * L"
  shows "group_ok (M * L) members (s q) q"
proof -
  from assms(3) obtain i where i: "s = (\<lambda>r. stages (sps r) ! i)" "i < length (stages (sps 0))" by (auto simp: stepsOf_def)
  then have "s q \<in> set (stages (sps q))" using fleet_specs_alike(2) [OF assms(1,2), of q] by simp
  note c = fleet_specs_alike(3) [OF assms(1,2) this]
  note z = fleet_sizes [OF assms(1)]
  have "group_of_member (M * L) members (callComm (preparedInfo (calls q))) q"
    by (rule groups_member [OF fleet_groups(1) [OF assms(1)] assms(4) z(6)])
  moreover have "group_of_member (M * L) members (intraOf q) q"
    by (rule groups_member [OF fleet_groups(2) [OF assms(1)] assms(4) z(7)])
  moreover have "group_of_member (M * L) members (interOf q) q"
    by (rule groups_member [OF fleet_groups(3) [OF assms(1)] assms(4) z(8)])
  ultimately show ?thesis using c unfolding group_ok_def group_of_member_def by blast
qed

lemma fleet_typed:
  assumes f: "fleet M L members calls intraOf interOf" and s: "fleet_specs calls intraOf interOf sps"
    and supp: "cocclPreparedAlgorithmSupported (calls r) (preparedAlgorithm (calls r))"
    and alg: "infoOperation (preparedInfo (calls 0)) \<in> {AllGather, AllToAll} \<longrightarrow> preparedAlgorithm (calls 0) = AlgorithmNone"
    and chunks: "collectiveChunks (infoOperation (preparedInfo (calls 0))) (M * L) = (inChunks, outChunks)"
  shows "stagesType (map (\<lambda>sts. sts r) (stepsOf (length (stages (sps 0))) (\<lambda>r. stages (sps r)))) (Raw inChunks) = Some (Raw outChunks)"
proof -
  have same: "infoOperation (preparedInfo (calls r)) = infoOperation (preparedInfo (calls 0))"
      "preparedAlgorithm (calls r) = preparedAlgorithm (calls 0)" "infoComm (preparedInfo (calls r)) \<noteq> None"
    using f unfolding fleet_def by blast+
  have comm: "infoComm (preparedInfo (calls r)) = Some (callComm (preparedInfo (calls r)))"
    using same(3) by (auto simp: callComm_def)
  have sp: "specOfCall (calls r) (intraOf r) (interOf r) = Some (sps r)" using s by (simp add: fleet_specs_def)
  have "nat (nRanks (callComm (preparedInfo (calls r)))) = M * L" using fleet_sizes(6) [OF f, of r] by (simp only: nat_int)
  with chunks same(1) have "collectiveChunks (infoOperation (preparedInfo (calls r))) (nat (nRanks (callComm (preparedInfo (calls r))))) = (inChunks, outChunks)"
    by simp
  from spec_typed [OF comm fleet_hierarchy [OF f] supp _ sp this] alg
  have "stagesType (stages (sps r)) (Raw inChunks) = Some (Raw outChunks)" unfolding same by blast
  then show ?thesis by (simp only: steps_at [where sts = "\<lambda>r. stages (sps r)", OF fleet_specs_alike(2) [OF f s]])
qed

text \<open>
  C34: the primitives compute their collectives. When all ranks run the specification of the same
  supported call, with compressors that lose nothing, every rank ends with exactly the chunks of the
  collective: the gathered chunks, the exchanged chunks, the sum for its own chunk, or the sums of all
  chunks. For the hierarchical algorithms that includes the permutation of the input and the order in
  which the sub-communicators reduce.
\<close>

theorem primitives_compute_collectives:
  fixes x :: "nat \<Rightarrow> ('v :: comm_monoid_add) list"
  assumes f: "fleet M L members calls intraOf interOf" and loss: "lossless codec"
    and supp: "\<And>r. cocclPreparedAlgorithmSupported (calls r) (preparedAlgorithm (calls r))"
    and alg: "infoOperation (preparedInfo (calls 0)) \<in> {AllGather, AllToAll} \<longrightarrow> preparedAlgorithm (calls 0) = AlgorithmNone"
    and s: "fleet_specs calls intraOf interOf sps"
    and chunks: "collectiveChunks (infoOperation (preparedInfo (calls 0))) (M * L) = (inChunks, outChunks)"
    and x: "\<And>p. p < M * L \<Longrightarrow> length (x p) = inChunks" and r: "r < M * L"
  shows "runSteps codec members (stepsOf (length (stages (sps 0))) (\<lambda>r. stages (sps r)))
      (\<lambda>p. map RawChunk (arranged M L (inputLayout (sps p)) (x p))) r =
    map RawChunk (collectiveResult (infoOperation (preparedInfo (calls 0))) (M * L) x r)"
proof -
  let ?steps = "stepsOf (length (stages (sps 0))) (\<lambda>r. stages (sps r))"
  let ?vals = "\<lambda>p. arranged M L (inputLayout (sps p)) (x p)"
  have sp: "specOfCall (calls q) (intraOf q) (interOf q) = Some (sps q)" for q using s by (simp add: fleet_specs_def)
  have "stands_for codec (Raw outChunks) (runSteps codec members ?steps (\<lambda>p. map RawChunk (?vals p)) r) (valueSteps members ?steps ?vals r)"
  proof (rule runSteps_follows [where N = "M * L" and t = "Raw inChunks", OF loss])
    show "stands_for codec (Raw inChunks) (map RawChunk (?vals p)) (?vals p)" if "p < M * L" for p
      using x [OF that] by (cases "inputLayout (sps p)") simp_all
    show "stagesType (map (\<lambda>sts. sts q) ?steps) (Raw inChunks) = Some (Raw outChunks)" for q
      by (rule fleet_typed [OF f s supp alg chunks])
    show "stageType (step q) u = stageType (step q') u" if "step \<in> set ?steps" for step q q' u
      by (rule fleet_step_types [OF f s that])
    show "group_ok (M * L) members (step q) q" if "step \<in> set ?steps" "q < M * L" for step q
      by (rule fleet_step_groups [OF f s that])
    show "r < M * L" by (rule r)
  qed
  then show ?thesis using primitive_values [OF f r sp chunks x] by simp
qed


text \<open>A triple-shot all-reduce of two nodes with two ranks each; the codec shifts values.\<close>

definition exampleIntra :: "nat \<Rightarrow> ncclComm" where
  "exampleIntra r = exampleSubComm (if r div 2 = 0 then 10 else 11)"

definition exampleInter :: "nat \<Rightarrow> ncclComm" where
  "exampleInter r = exampleSubComm (if r mod 2 = 0 then 20 else 21)"

definition exampleMembers :: "ncclComm \<Rightarrow> nat list" where
  "exampleMembers comm =
     (if self comm = 10 then [0, 1] else if self comm = 11 then [2, 3] else if self comm = 20 then [0, 2]
      else if self comm = 21 then [1, 3] else [0, 1, 2, 3])"

definition shiftCodec :: "(nat, nat) codec" where
  "shiftCodec = (\<lambda>p v. v + 7, \<lambda>p e. e - 7)"

lemma example_fleet:
  "fleet 2 2 exampleMembers (\<lambda>r. examplePrepared AllReduce AlgorithmAllReduceTripleShot) exampleIntra exampleInter"
proof -
  have "r < 2 * 2 \<Longrightarrow> r = 0 \<or> r = 1 \<or> r = 2 \<or> r = 3" for r :: nat by linarith
  then show ?thesis
    by (auto simp: fleet_def examplePrepared_def exampleInfo_def exampleComm_def callComm_def exampleIntra_def exampleInter_def
        exampleSubComm_def exampleMembers_def upt_rec)
qed

theorem primitives_compute_collectives_witness:
  "let sp = \<lambda>r. allReduceTripleShotSpec (examplePrepared AllReduce AlgorithmAllReduceTripleShot) (exampleIntra r) (exampleInter r) in
   runSteps shiftCodec exampleMembers (stepsOf 7 (\<lambda>r. stages (sp r)))
     (\<lambda>p. map RawChunk (arranged 2 2 InputHierarchicalSwizzle [p, p + 1, p + 2, p + 3])) 3 = map RawChunk [6, 10, 14, 18]"
proof -
  let ?call = "examplePrepared AllReduce AlgorithmAllReduceTripleShot"
  let ?sp = "\<lambda>r. allReduceTripleShotSpec ?call (exampleIntra r) (exampleInter r)"
  have c: "infoOperation (preparedInfo ?call) = AllReduce" "preparedAlgorithm ?call = AlgorithmAllReduceTripleShot"
    by (simp_all add: examplePrepared_def exampleInfo_def)
  have sp: "fleet_specs (\<lambda>r. ?call) exampleIntra exampleInter ?sp" by (simp add: fleet_specs_def specOfCall_def c)
  have supp: "cocclPreparedAlgorithmSupported ?call (preparedAlgorithm ?call)"
    by (auto simp: examplePrepared_def cocclPreparedAlgorithmSupported_def cocclPreparedAlgorithmHasCompression_def
        algorithmScopes_def setGet_def setSupports_def)
  have len: "length (stages (?sp r)) = 7" "inputLayout (?sp r) = InputHierarchicalSwizzle" for r
    by (simp_all add: allReduceTripleShotSpec_def primitiveSpec_def cocclBuildHierarchicalReduction_def examplePrepared_def
        setGet_def Let_def)
  have "lossless shiftCodec" by (simp add: lossless_def shiftCodec_def)
  from primitives_compute_collectives [OF example_fleet this supp _ sp, of 4 4 "\<lambda>p. [p, p + 1, p + 2, p + 3]" 3]
  show ?thesis unfolding c len by (simp add: Let_def numeral_eq_Suc)
qed

end
