(* ===== verification/Autotune_Cost.thy ===== *)
theory Autotune_Cost
  imports Prepared_Call
begin

text \<open>
  The cost model of the autotuner (\<^verbatim>\<open>core/tuning/coccl_autotune_cost_model.cc\<close>): the linear latency
  model, its least-squares fit, and the predicted time of each algorithm.
\<close>

section \<open>Models\<close>

record cocclLinearModel =
  alphaUs :: double
  betaUsPerByte :: double
  linearValid :: bool

definition emptyLinearModel :: cocclLinearModel where
  "emptyLinearModel = \<lparr>alphaUs = Fin 0, betaUsPerByte = Fin 0, linearValid = False\<rparr>"

record cocclCodecModel =
  codecModelTime :: cocclLinearModel
  codecModelRatio :: double
  codecValid :: bool

definition emptyCodecModel :: cocclCodecModel where
  "emptyCodecModel = \<lparr>codecModelTime = emptyLinearModel, codecModelRatio = Fin 1, codecValid = False\<rparr>"

record cocclSelectionPerformanceModel =
  intraP2p :: cocclLinearModel
  interP2p :: cocclLinearModel

text \<open>A null model is \<open>None\<close>.\<close>

record cocclAutotunePhaseCodec =
  compressed :: bool
  phaseModel :: "cocclCodecModel option"

record cocclAutotuneCodecSet =
  codecDefault :: cocclAutotunePhaseCodec
  codecIntra :: cocclAutotunePhaseCodec
  codecInter :: cocclAutotunePhaseCodec

record cocclAutotuneProfilePoint =
  pointBytes :: double
  pointTimeUs :: double

datatype cocclAutotuneCostKind =
  CostReduceScatterOneShot | CostReduceScatterTwoShot
| CostAllReduceOneShot | CostAllReduceTwoShot | CostAllReduceTripleShot

section \<open>Fit and prediction\<close>

definition pointUsable :: "cocclAutotuneProfilePoint \<Rightarrow> bool" where
  "pointUsable pt \<longleftrightarrow>
     \<not> (\<not> isfinite (pointBytes pt) \<or> \<not> isfinite (pointTimeUs pt) \<or>
        dle (pointBytes pt) (Fin 0) \<or> dle (pointTimeUs pt) (Fin 0))"

definition fitMean :: "rounding \<Rightarrow> (cocclAutotuneProfilePoint \<Rightarrow> double) \<Rightarrow> cocclAutotuneProfilePoint list \<Rightarrow> double" where
  "fitMean fl field points =
     ddiv fl (foldl (\<lambda>acc pt. dadd fl acc (field pt)) (Fin 0) points) (fl (real (length points)))"

definition cocclAutotuneFitLinearModel :: "rounding \<Rightarrow> cocclAutotuneProfilePoint list \<Rightarrow> cocclLinearModel" where
  "cocclAutotuneFitLinearModel fl points =
     (if length points < 2 then emptyLinearModel
      else if \<not> list_all pointUsable points then emptyLinearModel
      else
        let meanX = fitMean fl pointBytes points;
            meanY = fitMean fl pointTimeUs points;
            covariance = foldl (\<lambda>acc pt. dadd fl acc
              (dmul fl (dsub fl (pointBytes pt) meanX) (dsub fl (pointTimeUs pt) meanY))) (Fin 0) points;
            variance = foldl (\<lambda>acc pt. dadd fl acc
              (dmul fl (dsub fl (pointBytes pt) meanX) (dsub fl (pointBytes pt) meanX))) (Fin 0) points in
        if \<not> dlt (Fin 0) variance \<or> \<not> isfinite variance then emptyLinearModel
        else
          let beta = dmax (Fin 0) (ddiv fl covariance variance);
              alpha = dmax (Fin 0) (dsub fl meanY (dmul fl beta meanX)) in
          \<lparr>alphaUs = alpha, betaUsPerByte = beta, linearValid = isfinite alpha \<and> isfinite beta\<rparr>)"

definition cocclAutotunePredict :: "rounding \<Rightarrow> cocclLinearModel \<Rightarrow> double \<Rightarrow> double" where
  "cocclAutotunePredict fl model bytes =
     (if \<not> linearValid model \<or> \<not> isfinite bytes \<or> dlt bytes (Fin 0) then PosInf
      else dmax (Fin 0) (dadd fl (alphaUs model) (dmul fl (betaUsPerByte model) bytes)))"

section \<open>Costs\<close>

definition codecTime :: "rounding \<Rightarrow> cocclAutotunePhaseCodec \<Rightarrow> double \<Rightarrow> double" where
  "codecTime fl codec messageBytes =
     (if \<not> compressed codec then Fin 0
      else case phaseModel codec of
        None \<Rightarrow> PosInf
      | Some model \<Rightarrow>
          if \<not> codecValid model \<or> dle (codecModelRatio model) (Fin 0) then PosInf
          else cocclAutotunePredict fl (codecModelTime model) messageBytes)"

text \<open>Read only after \<open>codecTime\<close> was finite, when a compressed phase has a model.\<close>

definition compressionRatio :: "cocclAutotunePhaseCodec \<Rightarrow> double" where
  "compressionRatio codec = (if compressed codec then codecModelRatio (the (phaseModel codec)) else Fin 1)"

definition pccaCost :: "rounding \<Rightarrow> cocclLinearModel \<Rightarrow> cocclAutotunePhaseCodec \<Rightarrow> double \<Rightarrow> int \<Rightarrow> double" where
  "pccaCost fl p2p codec messageBytes ranks =
     (let codecUs = codecTime fl codec messageBytes in
      if \<not> isfinite codecUs \<or> dlt messageBytes (Fin 0) then PosInf
      else if ranks \<le> 1 then codecUs
      else
        let wireBytes = ddiv fl messageBytes (dmul fl (compressionRatio codec) (fl (real_of_int ranks))) in
        dadd fl codecUs (cocclAutotunePredict fl p2p wireBytes))"

definition globalPccaCost ::
  "rounding \<Rightarrow> cocclSelectionPerformanceModel \<Rightarrow> cocclAutotunePhaseCodec \<Rightarrow> double \<Rightarrow> int \<Rightarrow> int \<Rightarrow> double" where
  "globalPccaCost fl model codec messageBytes locals nodes =
     (let codecUs = codecTime fl codec messageBytes in
      if \<not> isfinite codecUs then PosInf
      else
        let intra = (if locals > 1
              then Some (cocclAutotunePredict fl (intraP2p model)
                (ddiv fl messageBytes
                  (dmul fl (dmul fl (fl (real_of_int nodes)) (fl (real_of_int locals))) (compressionRatio codec))))
              else None);
            communicationUs = (if nodes > 1
              then let interUs = cocclAutotunePredict fl (interP2p model)
                     (ddiv fl (dmul fl messageBytes (fl (real_of_int (nodes - 1))))
                       (dmul fl (fl (real_of_int nodes)) (compressionRatio codec))) in
                   Some (case intra of Some us \<Rightarrow> dmax us interUs | None \<Rightarrow> interUs)
              else intra) in
        dadd fl codecUs (case communicationUs of Some us \<Rightarrow> us | None \<Rightarrow> Fin 0))"

definition reduceScatterTwoShotCost ::
  "rounding \<Rightarrow> cocclSelectionPerformanceModel \<Rightarrow> cocclAutotuneCodecSet \<Rightarrow> double \<Rightarrow> int \<Rightarrow> int \<Rightarrow> double" where
  "reduceScatterTwoShotCost fl model codecs messageBytes locals nodes =
     dadd fl (pccaCost fl (intraP2p model) (codecIntra codecs) messageBytes locals)
       (pccaCost fl (interP2p model) (codecInter codecs) (ddiv fl messageBytes (fl (real_of_int locals))) nodes)"

definition allReduceOneShotCost ::
  "rounding \<Rightarrow> cocclSelectionPerformanceModel \<Rightarrow> cocclAutotunePhaseCodec \<Rightarrow> double \<Rightarrow> int \<Rightarrow> int \<Rightarrow> double" where
  "allReduceOneShotCost fl model codec messageBytes locals nodes =
     (let intra = (if locals > 1
            then Some (pccaCost fl (intraP2p model) codec (dmul fl messageBytes (fl (real_of_int locals))) locals)
            else None);
          cost = (if nodes > 1
            then let interBytes = dmul fl (dmul fl messageBytes (fl (real_of_int locals))) (fl (real_of_int (nodes - 1)));
                     interRanks = locals * (nodes - 1) + 1;
                     interCost = pccaCost fl (interP2p model) codec interBytes interRanks in
                 Some (case intra of Some us \<Rightarrow> dadd fl us interCost | None \<Rightarrow> interCost)
            else intra) in
      case cost of Some us \<Rightarrow> us | None \<Rightarrow> Fin 0)"

fun cocclAutotuneEvaluateCost ::
  "rounding \<Rightarrow> cocclAutotuneCostKind \<Rightarrow> cocclSelectionPerformanceModel \<Rightarrow> cocclAutotuneCodecSet \<Rightarrow> double \<Rightarrow>
   int \<Rightarrow> int \<Rightarrow> double" where
  "cocclAutotuneEvaluateCost fl CostReduceScatterOneShot model codecs bytes locals nodes =
     globalPccaCost fl model (if nodes = 1 then codecIntra codecs else codecDefault codecs) bytes locals nodes"
| "cocclAutotuneEvaluateCost fl CostReduceScatterTwoShot model codecs bytes locals nodes =
     reduceScatterTwoShotCost fl model codecs bytes locals nodes"
| "cocclAutotuneEvaluateCost fl CostAllReduceOneShot model codecs bytes locals nodes =
     allReduceOneShotCost fl model (if nodes = 1 then codecIntra codecs else codecDefault codecs) bytes locals nodes"
| "cocclAutotuneEvaluateCost fl CostAllReduceTwoShot model codecs bytes locals nodes =
     dmul fl (Fin 2)
       (globalPccaCost fl model (if nodes = 1 then codecIntra codecs else codecDefault codecs) bytes locals nodes)"
| "cocclAutotuneEvaluateCost fl CostAllReduceTripleShot model codecs bytes locals nodes =
     dadd fl (reduceScatterTwoShotCost fl model codecs bytes locals nodes)
       (globalPccaCost fl model (codecDefault codecs) bytes locals nodes)"

section \<open>Facts\<close>

text \<open>A fitted model that is valid has finite, non-negative coefficients.\<close>

definition sound_linear :: "cocclLinearModel \<Rightarrow> bool" where
  "sound_linear model \<longleftrightarrow>
     (linearValid model \<longrightarrow> (\<exists>a b. alphaUs model = Fin a \<and> betaUsPerByte model = Fin b \<and> 0 \<le> a \<and> 0 \<le> b))"

lemma dmax_zero_Fin: "isfinite (dmax (Fin 0) x) \<Longrightarrow> \<exists>a. dmax (Fin 0) x = Fin a \<and> 0 \<le> a"
  by (cases x) (auto simp: dmax_def)

lemma empty_model_sound [simp]: "sound_linear emptyLinearModel"
  by (simp add: sound_linear_def emptyLinearModel_def)

lemma clamped_sound [simp]:
  "sound_linear \<lparr>alphaUs = dmax (Fin 0) x, betaUsPerByte = dmax (Fin 0) y,
     linearValid = isfinite (dmax (Fin 0) x) \<and> isfinite (dmax (Fin 0) y)\<rparr>"
  using dmax_zero_Fin [of x] dmax_zero_Fin [of y] by (auto simp: sound_linear_def)

lemma fit_sound: "sound_linear (cocclAutotuneFitLinearModel fl points)"
  unfolding cocclAutotuneFitLinearModel_def Let_def by simp

lemma predict_nonneg: "nonneg (cocclAutotunePredict fl model bytes)"
  by (simp add: cocclAutotunePredict_def nonneg_dmax)

text \<open>Every predicted cost is a non-negative number or infinity, never NaN.\<close>

lemma codecTime_nonneg: "nonneg (codecTime fl codec bytes)"
  by (simp add: codecTime_def predict_nonneg split: option.splits)

lemma pccaCost_nonneg: "ieee_rounding fl \<Longrightarrow> nonneg (pccaCost fl p2p codec bytes ranks)"
  by (simp add: pccaCost_def Let_def codecTime_nonneg predict_nonneg nonneg_dadd)

lemma globalPccaCost_nonneg: "ieee_rounding fl \<Longrightarrow> nonneg (globalPccaCost fl model codec bytes locals nodes)"
  by (auto simp: globalPccaCost_def Let_def codecTime_nonneg predict_nonneg nonneg_dadd nonneg_dmax)

lemma twoShotCost_nonneg: "ieee_rounding fl \<Longrightarrow> nonneg (reduceScatterTwoShotCost fl model codecs bytes locals nodes)"
  by (simp add: reduceScatterTwoShotCost_def pccaCost_nonneg nonneg_dadd)

lemma oneShotCost_nonneg: "ieee_rounding fl \<Longrightarrow> nonneg (allReduceOneShotCost fl model codec bytes locals nodes)"
  by (simp add: allReduceOneShotCost_def Let_def pccaCost_nonneg nonneg_dadd)

lemma nonneg_double: "ieee_rounding fl \<Longrightarrow> nonneg a \<Longrightarrow> nonneg (dmul fl (Fin 2) a)"
  by (cases a) (simp_all add: nonneg_fl dsign_def)

lemma cost_nonneg:
  "ieee_rounding fl \<Longrightarrow> nonneg (cocclAutotuneEvaluateCost fl kind model codecs bytes locals nodes)"
  by (cases kind) (simp_all add: globalPccaCost_nonneg twoShotCost_nonneg oneShotCost_nonneg nonneg_double nonneg_dadd)

end
