(* ===== verification/Autotune_Select.thy ===== *)
theory Autotune_Select
  imports Autotune_Cost
begin

text \<open>
  Algorithm selection for the reductions (\<^verbatim>\<open>core/tuning/coccl_autotune_internal.h\<close> and
  \<^verbatim>\<open>coccl_autotune_selector.cc\<close>): the candidate table, eligibility, the configured algorithm, the
  scored choice with its heuristic fallback.
\<close>

unbundle bit_operations_syntax

section \<open>Candidates\<close>

type_synonym requirement = "32 word"

definition cocclAutotuneRequiresNone :: requirement where
  "cocclAutotuneRequiresNone = 0"
definition cocclAutotuneRequiresHierarchical :: requirement where
  "cocclAutotuneRequiresHierarchical = push_bit 0 1"
definition cocclAutotuneRequiresDivisibleByRanks :: requirement where
  "cocclAutotuneRequiresDivisibleByRanks = push_bit 1 1"

datatype cocclAutotuneScoreSlot = SlotOneShot | SlotTwoShot | SlotTripleShot

record cocclAutotuneCandidateSpec =
  specOperation :: cocclOperation
  specAlgorithm :: cocclAlgorithmKind
  specRequirements :: requirement
  unavailableFallback :: cocclAlgorithmKind
  heuristicPriority :: int
  costKind :: cocclAutotuneCostKind
  scoreSlot :: cocclAutotuneScoreSlot
  specName :: string

text \<open>The table, in its order.\<close>

definition kCocclAutotuneCandidateSpecs :: "cocclAutotuneCandidateSpec list" where
  "kCocclAutotuneCandidateSpecs =
     [\<lparr>specOperation = ReduceScatter, specAlgorithm = AlgorithmReduceScatterOneShot,
        specRequirements = cocclAutotuneRequiresNone, unavailableFallback = AlgorithmReduceScatterOneShot,
        heuristicPriority = 1, costKind = CostReduceScatterOneShot, scoreSlot = SlotOneShot, specName = ''oneshot''\<rparr>,
      \<lparr>specOperation = ReduceScatter, specAlgorithm = AlgorithmReduceScatterTwoShot,
        specRequirements = cocclAutotuneRequiresHierarchical, unavailableFallback = AlgorithmReduceScatterOneShot,
        heuristicPriority = 0, costKind = CostReduceScatterTwoShot, scoreSlot = SlotTwoShot, specName = ''twoshot''\<rparr>,
      \<lparr>specOperation = AllReduce, specAlgorithm = AlgorithmAllReduceOneShot,
        specRequirements = cocclAutotuneRequiresDivisibleByRanks, unavailableFallback = AlgorithmAllReduceOneShot,
        heuristicPriority = 1, costKind = CostAllReduceOneShot, scoreSlot = SlotOneShot, specName = ''oneshot''\<rparr>,
      \<lparr>specOperation = AllReduce, specAlgorithm = AlgorithmAllReduceTwoShot,
        specRequirements = cocclAutotuneRequiresDivisibleByRanks, unavailableFallback = AlgorithmAllReduceTwoShot,
        heuristicPriority = 0, costKind = CostAllReduceTwoShot, scoreSlot = SlotTwoShot, specName = ''twoshot''\<rparr>,
      \<lparr>specOperation = AllReduce, specAlgorithm = AlgorithmAllReduceTripleShot,
        specRequirements = cocclAutotuneRequiresHierarchical OR cocclAutotuneRequiresDivisibleByRanks,
        unavailableFallback = AlgorithmAllReduceTwoShot,
        heuristicPriority = 2, costKind = CostAllReduceTripleShot, scoreSlot = SlotTripleShot,
        specName = ''tripleshot''\<rparr>]"

record cocclAutotuneEligibility =
  hierarchical :: bool
  divisibleByRanks :: bool

text \<open>The candidate set is an array with a count: a list here.\<close>

record cocclAutotuneCandidate =
  candidateSpec :: cocclAutotuneCandidateSpec
  scoreUs :: double

record cocclAutotuneDecision =
  decisionCandidate :: "cocclAutotuneCandidateSpec option"
  usedModel :: bool
  forcedFallback :: bool

definition cocclAutotuneFindCandidateSpec ::
  "cocclOperation \<Rightarrow> cocclAlgorithmKind \<Rightarrow> cocclAutotuneCandidateSpec option" where
  "cocclAutotuneFindCandidateSpec oper algorithm =
     find (\<lambda>spec. specOperation spec = oper \<and> specAlgorithm spec = algorithm) kCocclAutotuneCandidateSpecs"

definition cocclAutotuneFindCandidate ::
  "cocclAutotuneCandidate list \<Rightarrow> cocclAlgorithmKind \<Rightarrow> cocclAutotuneCandidate option" where
  "cocclAutotuneFindCandidate candidates algorithm =
     find (\<lambda>cand. specAlgorithm (candidateSpec cand) = algorithm) candidates"

definition specEligible :: "cocclOperation \<Rightarrow> cocclAutotuneEligibility \<Rightarrow> cocclAutotuneCandidateSpec \<Rightarrow> bool" where
  "specEligible oper eligibility spec \<longleftrightarrow>
     specOperation spec = oper \<and>
     (specRequirements spec AND cocclAutotuneRequiresHierarchical = 0 \<or> hierarchical eligibility) \<and>
     (specRequirements spec AND cocclAutotuneRequiresDivisibleByRanks = 0 \<or> divisibleByRanks eligibility)"

definition cocclAutotuneBuildCandidates ::
  "cocclOperation \<Rightarrow> cocclAutotuneEligibility \<Rightarrow> cocclAutotuneCandidate list" where
  "cocclAutotuneBuildCandidates oper eligibility =
     map (\<lambda>spec. \<lparr>candidateSpec = spec, scoreUs = PosInf\<rparr>)
       (filter (specEligible oper eligibility) kCocclAutotuneCandidateSpecs)"

text \<open>The first candidate with the smallest priority.\<close>

definition lowerPriority :: "cocclAutotuneCandidate \<Rightarrow> cocclAutotuneCandidate \<Rightarrow> cocclAutotuneCandidate" where
  "lowerPriority selected cand =
     (if heuristicPriority (candidateSpec cand) < heuristicPriority (candidateSpec selected) then cand else selected)"

definition cocclAutotuneHeuristicCandidate :: "cocclAutotuneCandidate list \<Rightarrow> cocclAutotuneCandidate option" where
  "cocclAutotuneHeuristicCandidate candidates =
     (case candidates of [] \<Rightarrow> None | first # rest \<Rightarrow> Some (foldl lowerPriority first rest))"

definition lowerScore :: "cocclAutotuneCandidate \<Rightarrow> cocclAutotuneCandidate \<Rightarrow> cocclAutotuneCandidate" where
  "lowerScore selected cand = (if dlt (scoreUs cand) (scoreUs selected) then cand else selected)"

definition noDecision :: cocclAutotuneDecision where
  "noDecision = \<lparr>decisionCandidate = None, usedModel = False, forcedFallback = False\<rparr>"

definition cocclAutotuneChooseCandidate ::
  "cocclAutotuneCandidate list \<Rightarrow> cocclAlgorithmKind \<Rightarrow> bool \<Rightarrow> cocclAutotuneDecision" where
  "cocclAutotuneChooseCandidate candidates requested enabled =
     (if requested \<noteq> AlgorithmNone
      then case cocclAutotuneFindCandidate candidates requested of
          Some selected \<Rightarrow> noDecision\<lparr>decisionCandidate := Some (candidateSpec selected)\<rparr>
        | None \<Rightarrow>
            (case cocclAutotuneFindCandidateSpec
                (case candidates of [] \<Rightarrow> OperationCount | first # _ \<Rightarrow> specOperation (candidateSpec first)) requested of
               None \<Rightarrow> noDecision
             | Some requestedSpec \<Rightarrow>
                 (case cocclAutotuneFindCandidate candidates (unavailableFallback requestedSpec) of
                    None \<Rightarrow> noDecision
                  | Some selected \<Rightarrow> noDecision\<lparr>decisionCandidate := Some (candidateSpec selected), forcedFallback := True\<rparr>))
      else if enabled \<and> candidates \<noteq> [] \<and> list_all (\<lambda>cand. isfinite (scoreUs cand)) candidates
      then noDecision\<lparr>decisionCandidate := Some (candidateSpec (foldl lowerScore (hd candidates) candidates)), usedModel := True\<rparr>
      else noDecision\<lparr>decisionCandidate := map_option candidateSpec (cocclAutotuneHeuristicCandidate candidates)\<rparr>)"

definition cocclAutotuneAlgorithmName :: "cocclAlgorithmKind \<Rightarrow> string" where
  "cocclAutotuneAlgorithmName algorithm =
     (case find (\<lambda>spec. specAlgorithm spec = algorithm) kCocclAutotuneCandidateSpecs of
        Some spec \<Rightarrow> specName spec | None \<Rightarrow> ''none'')"

section \<open>Performance models of the process\<close>

record cocclProfiledCompressor =
  profiledCompressor :: ptr
  profiledPolicy :: cocclPolicyKey

record cocclProcessPerformanceModel =
  processIntraP2p :: cocclLinearModel
  processInterP2p :: cocclLinearModel
  enabledCompressors :: "cocclProfiledCompressor list"
  compressorModels :: "ptr \<rightharpoonup> cocclCodecModel"
  attemptedProfiles :: "32 word"

definition emptyPerformanceModel :: cocclProcessPerformanceModel where
  "emptyPerformanceModel = \<lparr>processIntraP2p = emptyLinearModel, processInterP2p = emptyLinearModel,
     enabledCompressors = [], compressorModels = Map.empty, attemptedProfiles = 0\<rparr>"

definition copyCompressorModelLocked :: "cocclProcessPerformanceModel \<Rightarrow> ptr \<Rightarrow> cocclCodecModel" where
  "copyCompressorModelLocked perf compressor =
     (case compressorModels perf compressor of Some model \<Rightarrow> model | None \<Rightarrow> emptyCodecModel)"

definition cocclAutotuneSnapshotPerformanceModel ::
  "cocclProcessPerformanceModel \<Rightarrow> cocclSelectionPerformanceModel" where
  "cocclAutotuneSnapshotPerformanceModel perf = \<lparr>intraP2p = processIntraP2p perf, interP2p = processInterP2p perf\<rparr>"

section \<open>Selection\<close>

definition uniformNodeRanks :: "ncclComm \<Rightarrow> bool" where
  "uniformNodeRanks comm \<longleftrightarrow>
     (\<forall>n \<in> set [0..<nat (nNodes comm)]. nodeLocalRanks comm (int n) = localRanks comm) \<and>
     nRanks comm = nNodes comm * localRanks comm"

definition configuredAlgorithm :: "cocclAutotuneConfig \<Rightarrow> cocclOperation \<Rightarrow> cocclAlgorithmKind" where
  "configuredAlgorithm cfg oper =
     (if oper = ReduceScatter
      then (case reduceScatterAlgorithm cfg of
              RsAuto \<Rightarrow> AlgorithmNone | RsOneShot \<Rightarrow> AlgorithmReduceScatterOneShot
            | RsTwoShot \<Rightarrow> AlgorithmReduceScatterTwoShot)
      else if oper = AllReduce
      then (case allReduceAlgorithm cfg of
              ArAuto \<Rightarrow> AlgorithmNone | ArOneShot \<Rightarrow> AlgorithmAllReduceOneShot
            | ArTwoShot \<Rightarrow> AlgorithmAllReduceTwoShot | ArTripleShot \<Rightarrow> AlgorithmAllReduceTripleShot)
      else AlgorithmNone)"

text \<open>The score goes into the candidate and into the slot of the call.\<close>

definition storeScore :: "cocclAutotuneScoreSlot \<Rightarrow> double \<Rightarrow> cocclPreparedCall \<Rightarrow> cocclPreparedCall" where
  "storeScore slt score call =
     (case slt of SlotOneShot \<Rightarrow> call\<lparr>oneShotUs := score\<rparr> | SlotTwoShot \<Rightarrow> call\<lparr>twoShotUs := score\<rparr>
      | SlotTripleShot \<Rightarrow> call\<lparr>tripleShotUs := score\<rparr>)"

definition setCandidateScore ::
  "cocclPreparedCall \<Rightarrow> cocclAutotuneCandidate \<Rightarrow> double \<Rightarrow> cocclPreparedCall \<times> cocclAutotuneCandidate" where
  "setCandidateScore call cand score =
     (storeScore (scoreSlot (candidateSpec cand)) score call, cand\<lparr>scoreUs := score\<rparr>)"

definition messageBytes :: "rounding \<Rightarrow> cocclPreparedCall \<Rightarrow> double" where
  "messageBytes fl call =
     (let info = preparedInfo call;
          bytes = dmul fl (fl (real (unat (infoCount info)))) (fl (real_of_int (ncclTypeSize (infoDatatype info)))) in
      if infoOperation info = ReduceScatter then dmul fl bytes (fl (real_of_int (nRanks (callComm info)))) else bytes)"

definition phaseCodec :: "cocclProcessPerformanceModel \<Rightarrow> cocclPreparedCall \<Rightarrow> cocclCompressionScope \<Rightarrow> cocclAutotunePhaseCodec" where
  "phaseCodec perf call scope =
     (let compressor = setGet (preparedCompressors call) scope in
      \<lparr>compressed = (compressor \<noteq> nullptr), phaseModel = Some (copyCompressorModelLocked perf compressor)\<rparr>)"

definition candidateScore ::
  "rounding \<Rightarrow> cocclProcessPerformanceModel \<Rightarrow> cocclPreparedCall \<Rightarrow> cocclAutotuneCandidate \<Rightarrow> double" where
  "candidateScore fl perf call cand =
     cocclAutotuneEvaluateCost fl (costKind (candidateSpec cand)) (cocclAutotuneSnapshotPerformanceModel perf)
       \<lparr>codecDefault = phaseCodec perf call ScopeDefault, codecIntra = phaseCodec perf call ScopeIntra,
        codecInter = phaseCodec perf call ScopeInter\<rparr>
       (messageBytes fl call) (localRanks (callComm (preparedInfo call))) (nNodes (callComm (preparedInfo call)))"

fun scoreAll ::
  "rounding \<Rightarrow> cocclProcessPerformanceModel \<Rightarrow> cocclPreparedCall \<Rightarrow> cocclAutotuneCandidate list \<Rightarrow>
   cocclPreparedCall \<times> cocclAutotuneCandidate list" where
  "scoreAll fl perf call [] = (call, [])"
| "scoreAll fl perf call (cand # cands) =
     (let (call1, scored) = setCandidateScore call cand (candidateScore fl perf call cand);
          (call2, rest) = scoreAll fl perf call1 cands in
      (call2, scored # rest))"

definition callEligibility :: "cocclInfo \<Rightarrow> cocclAutotuneEligibility" where
  "callEligibility info =
     (let comm = callComm info in
      \<lparr>hierarchical = (nNodes comm > 1 \<and> localRanks comm > 1 \<and> uniformNodeRanks comm),
       divisibleByRanks = (infoCount info mod size_of_int (nRanks comm) = 0)\<rparr>)"

definition usableCandidates :: "cocclPreparedCall \<Rightarrow> cocclAutotuneCandidate list" where
  "usableCandidates call =
     filter (\<lambda>cand. cocclPreparedAlgorithmSupported call (specAlgorithm (candidateSpec cand)))
       (cocclAutotuneBuildCandidates (infoOperation (preparedInfo call)) (callEligibility (preparedInfo call)))"

definition selectCandidate ::
  "rounding \<Rightarrow> cocclAutotuneConfig \<Rightarrow> cocclProcessPerformanceModel \<Rightarrow> cocclPreparedCall \<Rightarrow>
   ncclResult_t \<times> cocclPreparedCall" where
  "selectCandidate fl cfg perf call =
     (let candidates = usableCandidates call in
      if candidates = [] then (ncclInvalidArgument, call)
      else
        let requested = configuredAlgorithm cfg (infoOperation (preparedInfo call));
            (call1, candidates1) =
              (if requested = AlgorithmNone \<and> autotuneEnabled cfg then scoreAll fl perf call candidates
               else (call, candidates));
            decision = cocclAutotuneChooseCandidate candidates1 requested (autotuneEnabled cfg) in
        case decisionCandidate decision of
          None \<Rightarrow> (ncclInvalidArgument, call1)
        | Some spec \<Rightarrow>
            (ncclSuccess, call1\<lparr>preparedAlgorithm := specAlgorithm spec, preparedUsedModel := usedModel decision\<rparr>))"

definition cocclSelectAlgorithm ::
  "rounding \<Rightarrow> cocclAutotuneConfig \<Rightarrow> cocclProcessPerformanceModel \<Rightarrow> cocclPreparedCall \<Rightarrow>
   ncclResult_t \<times> cocclPreparedCall" where
  "cocclSelectAlgorithm fl cfg perf call =
     selectCandidate fl cfg perf
       (call\<lparr>preparedAlgorithm := AlgorithmNone, oneShotUs := PosInf, twoShotUs := PosInf, tripleShotUs := PosInf,
             preparedUsedModel := False\<rparr>)"

section \<open>The choice\<close>

lemma foldl_lowerScore:
  assumes "isfinite (scoreUs c)" "\<forall>d \<in> set cs. isfinite (scoreUs d)"
  shows "foldl lowerScore c cs \<in> insert c (set cs) \<and>
    (\<forall>d \<in> insert c (set cs). dle (scoreUs (foldl lowerScore c cs)) (scoreUs d))"
  using assms
proof (induction cs arbitrary: c)
  case Nil
  then show ?case by (auto simp: isfinite_Fin)
next
  case (Cons d cs)
  let ?c = "lowerScore c d"
  have fin: "isfinite (scoreUs ?c)" using Cons.prems by (simp add: lowerScore_def)
  have low: "dle (scoreUs ?c) (scoreUs c)" "dle (scoreUs ?c) (scoreUs d)" "?c \<in> {c, d}"
    using Cons.prems by (auto simp: lowerScore_def isfinite_Fin)
  from Cons.IH [OF fin] Cons.prems
  have ih: "foldl lowerScore ?c cs \<in> insert ?c (set cs)"
    "\<forall>e \<in> insert ?c (set cs). dle (scoreUs (foldl lowerScore ?c cs)) (scoreUs e)" by auto
  have le: "dle (scoreUs (foldl lowerScore ?c cs)) (scoreUs ?c)" using ih(2) by simp
  have "dle (scoreUs (foldl lowerScore ?c cs)) (scoreUs c)" "dle (scoreUs (foldl lowerScore ?c cs)) (scoreUs d)"
    using dle_trans [OF le low(1)] dle_trans [OF le low(2)] by simp_all
  moreover have "foldl lowerScore ?c cs \<in> insert c (insert d (set cs))" using ih(1) low(3) by auto
  ultimately show ?case using ih(2) by simp
qed

lemma foldl_lowerPriority: "foldl lowerPriority c cs \<in> insert c (set cs)"
  by (induction cs arbitrary: c) (auto simp: lowerPriority_def)

lemma heuristic_in: "cocclAutotuneHeuristicCandidate cs = Some c \<Longrightarrow> c \<in> set cs"
  using foldl_lowerPriority by (fastforce simp: cocclAutotuneHeuristicCandidate_def split: list.splits)

lemma find_in: "find P xs = Some x \<Longrightarrow> x \<in> set xs \<and> P x"
  by (auto simp: find_Some_iff)

lemma noDecision_simps [simp]:
  "decisionCandidate noDecision = None" "usedModel noDecision = False" "forcedFallback noDecision = False"
  by (simp_all add: noDecision_def)

lemma choose_in:
  assumes "decisionCandidate (cocclAutotuneChooseCandidate cs requested enabled) = Some spec"
  shows "\<exists>c \<in> set cs. candidateSpec c = spec"
proof (cases "requested = AlgorithmNone")
  case False
  with assms show ?thesis
    by (auto simp: cocclAutotuneChooseCandidate_def cocclAutotuneFindCandidate_def split: option.splits dest!: find_in)
next
  case True
  show ?thesis
  proof (cases "enabled \<and> cs \<noteq> [] \<and> list_all (\<lambda>cand. isfinite (scoreUs cand)) cs")
    case fin: True
    with True assms have spec: "spec = candidateSpec (foldl lowerScore (hd cs) cs)"
      by (simp add: cocclAutotuneChooseCandidate_def)
    from fin foldl_lowerScore [of "hd cs" cs] have "foldl lowerScore (hd cs) cs \<in> set cs"
      by (auto simp: list_all_iff)
    with spec show ?thesis by auto
  next
    case other: False
    with True assms heuristic_in show ?thesis by (auto simp: cocclAutotuneChooseCandidate_def)
  qed
qed

lemma choose_used_model:
  assumes "usedModel (cocclAutotuneChooseCandidate cs requested enabled)"
  shows "\<exists>c \<in> set cs. decisionCandidate (cocclAutotuneChooseCandidate cs requested enabled) = Some (candidateSpec c) \<and>
    isfinite (scoreUs c) \<and> (\<forall>d \<in> set cs. dle (scoreUs c) (scoreUs d))"
proof -
  have req: "requested = AlgorithmNone"
    using assms by (auto simp: cocclAutotuneChooseCandidate_def split: if_splits option.splits)
  with assms have fin: "enabled" "cs \<noteq> []" "list_all (\<lambda>cand. isfinite (scoreUs cand)) cs"
    by (auto simp: cocclAutotuneChooseCandidate_def split: if_splits)
  with foldl_lowerScore [of "hd cs" cs]
  have best: "foldl lowerScore (hd cs) cs \<in> set cs" "\<forall>d \<in> set cs. dle (scoreUs (foldl lowerScore (hd cs) cs)) (scoreUs d)"
    by (auto simp: list_all_iff)
  moreover have "decisionCandidate (cocclAutotuneChooseCandidate cs requested enabled) =
      Some (candidateSpec (foldl lowerScore (hd cs) cs))"
    using req fin by (simp add: cocclAutotuneChooseCandidate_def)
  ultimately show ?thesis using fin(3) by (auto simp: list_all_iff)
qed

text \<open>Scoring leaves everything a score depends on as it was.\<close>

lemma storeScore_fields [simp]:
  "preparedInfo (storeScore slt score call) = preparedInfo call"
  "preparedCompressors (storeScore slt score call) = preparedCompressors call"
  "preparedDescriptor (storeScore slt score call) = preparedDescriptor call"
  "preparedRole (storeScore slt score call) = preparedRole call"
  "preparedPolicyKey (storeScore slt score call) = preparedPolicyKey call"
  by (cases slt; simp add: storeScore_def)+

lemma candidateScore_storeScore [simp]:
  "candidateScore fl perf (storeScore slt score call) cand = candidateScore fl perf call cand"
  by (simp add: candidateScore_def phaseCodec_def messageBytes_def)

lemma scoreAll_candidates:
  "snd (scoreAll fl perf call cands) = map (\<lambda>cand. cand\<lparr>scoreUs := candidateScore fl perf call cand\<rparr>) cands"
  by (induction cands arbitrary: call) (simp_all add: setCandidateScore_def Let_def split_beta)

lemma scoreAll_fields:
  "preparedInfo (fst (scoreAll fl perf call cands)) = preparedInfo call \<and>
   preparedCompressors (fst (scoreAll fl perf call cands)) = preparedCompressors call"
  by (induction cands arbitrary: call) (simp_all add: setCandidateScore_def Let_def split_beta)

text \<open>Nothing a selection reads changes when the call's own selection fields are reset.\<close>

definition resetSelection :: "cocclPreparedCall \<Rightarrow> cocclPreparedCall" where
  "resetSelection call = call\<lparr>preparedAlgorithm := AlgorithmNone, oneShotUs := PosInf, twoShotUs := PosInf,
     tripleShotUs := PosInf, preparedUsedModel := False\<rparr>"

lemma resetSelection_simps [simp]:
  "preparedInfo (resetSelection call) = preparedInfo call"
  "preparedCompressors (resetSelection call) = preparedCompressors call"
  "usableCandidates (resetSelection call) = usableCandidates call"
  "candidateScore fl perf (resetSelection call) cand = candidateScore fl perf call cand"
  by (simp_all add: resetSelection_def usableCandidates_def cocclPreparedAlgorithmSupported_def
      cocclPreparedAlgorithmHasCompression_def candidateScore_def phaseCodec_def messageBytes_def)

definition scoredCandidates ::
  "rounding \<Rightarrow> cocclAutotuneConfig \<Rightarrow> cocclProcessPerformanceModel \<Rightarrow> cocclPreparedCall \<Rightarrow> cocclAutotuneCandidate list" where
  "scoredCandidates fl cfg perf call =
     (if configuredAlgorithm cfg (infoOperation (preparedInfo call)) = AlgorithmNone \<and> autotuneEnabled cfg
      then map (\<lambda>cand. cand\<lparr>scoreUs := candidateScore fl perf call cand\<rparr>) (usableCandidates call)
      else usableCandidates call)"

definition selectDecision ::
  "rounding \<Rightarrow> cocclAutotuneConfig \<Rightarrow> cocclProcessPerformanceModel \<Rightarrow> cocclPreparedCall \<Rightarrow> cocclAutotuneDecision" where
  "selectDecision fl cfg perf call =
     cocclAutotuneChooseCandidate (scoredCandidates fl cfg perf call)
       (configuredAlgorithm cfg (infoOperation (preparedInfo call))) (autotuneEnabled cfg)"

lemma choose_nil: "decisionCandidate (cocclAutotuneChooseCandidate [] requested enabled) = None"
  by (simp add: cocclAutotuneChooseCandidate_def cocclAutotuneFindCandidate_def cocclAutotuneHeuristicCandidate_def
      split: option.splits)

lemma selectAlgorithm_decision:
  "fst (cocclSelectAlgorithm fl cfg perf call) =
     (if decisionCandidate (selectDecision fl cfg perf call) = None then ncclInvalidArgument else ncclSuccess) \<and>
   (\<forall>spec. decisionCandidate (selectDecision fl cfg perf call) = Some spec \<longrightarrow>
      preparedAlgorithm (snd (cocclSelectAlgorithm fl cfg perf call)) = specAlgorithm spec \<and>
      preparedUsedModel (snd (cocclSelectAlgorithm fl cfg perf call)) = usedModel (selectDecision fl cfg perf call))"
proof -
  have run: "cocclSelectAlgorithm fl cfg perf call = selectCandidate fl cfg perf (resetSelection call)"
    by (simp add: cocclSelectAlgorithm_def resetSelection_def)
  show ?thesis
  proof (cases "usableCandidates call = []")
    case True
    then show ?thesis
      by (simp add: run selectCandidate_def selectDecision_def scoredCandidates_def choose_nil)
  next
    case False
    then show ?thesis
      by (simp add: run selectCandidate_def Let_def selectDecision_def scoredCandidates_def split_beta scoreAll_candidates
          split: option.splits)
  qed
qed

lemma usable_spec:
  assumes "c \<in> set (usableCandidates call)"
  shows "candidateSpec c \<in> set kCocclAutotuneCandidateSpecs"
    and "specEligible (infoOperation (preparedInfo call)) (callEligibility (preparedInfo call)) (candidateSpec c)"
    and "cocclPreparedAlgorithmSupported call (specAlgorithm (candidateSpec c))"
  using assms by (auto simp: usableCandidates_def cocclAutotuneBuildCandidates_def)

lemma scored_spec:
  "c \<in> set (scoredCandidates fl cfg perf call) \<Longrightarrow> \<exists>d \<in> set (usableCandidates call). candidateSpec d = candidateSpec c"
  by (auto simp: scoredCandidates_def split: if_splits)

lemma candidateScore_spec: "candidateSpec c = candidateSpec d \<Longrightarrow> candidateScore fl perf call c = candidateScore fl perf call d"
  by (simp add: candidateScore_def)

text \<open>
  C24. A selected algorithm is one of the table's for the call's operation, the topology and the count
  allow it, the resolved compressors serve it, and when the model was used its predicted time is no
  larger than that of any other usable algorithm.
\<close>

theorem select_algorithm_sound:
  assumes "cocclSelectAlgorithm fl cfg perf call = (ncclSuccess, call')"
  shows "\<exists>c \<in> set (usableCandidates call).
    candidateSpec c \<in> set kCocclAutotuneCandidateSpecs \<and>
    preparedAlgorithm call' = specAlgorithm (candidateSpec c) \<and>
    specEligible (infoOperation (preparedInfo call)) (callEligibility (preparedInfo call)) (candidateSpec c) \<and>
    cocclPreparedAlgorithmSupported call (preparedAlgorithm call') \<and>
    (preparedUsedModel call' \<longrightarrow> (\<forall>d \<in> set (usableCandidates call).
       dle (candidateScore fl perf call c) (candidateScore fl perf call d)))"
proof -
  from selectAlgorithm_decision [of fl cfg perf call] assms
  obtain spec where spec: "decisionCandidate (selectDecision fl cfg perf call) = Some spec"
    and call': "preparedAlgorithm call' = specAlgorithm spec" "preparedUsedModel call' = usedModel (selectDecision fl cfg perf call)"
    by (auto split: if_splits)
  have ex: "\<exists>c \<in> set (usableCandidates call). candidateSpec c = spec \<and>
    (preparedUsedModel call' \<longrightarrow> (\<forall>d \<in> set (usableCandidates call).
       dle (candidateScore fl perf call c) (candidateScore fl perf call d)))"
  proof (cases "preparedUsedModel call'")
    case False
    from choose_in [OF spec [unfolded selectDecision_def]] scored_spec False show ?thesis by metis
  next
    case True
    then have used: "usedModel (selectDecision fl cfg perf call)" by (simp add: call')
    then have auto: "configuredAlgorithm cfg (infoOperation (preparedInfo call)) = AlgorithmNone" "autotuneEnabled cfg"
      by (auto simp: selectDecision_def cocclAutotuneChooseCandidate_def split: if_splits option.splits)
    from choose_used_model [OF used [unfolded selectDecision_def]]
    obtain c where c: "c \<in> set (scoredCandidates fl cfg perf call)"
      "decisionCandidate (selectDecision fl cfg perf call) = Some (candidateSpec c)"
      "\<forall>d \<in> set (scoredCandidates fl cfg perf call). dle (scoreUs c) (scoreUs d)"
      unfolding selectDecision_def by blast
    from c(1) auto obtain e where e: "e \<in> set (usableCandidates call)" "c = e\<lparr>scoreUs := candidateScore fl perf call e\<rparr>"
      by (auto simp: scoredCandidates_def)
    have "\<forall>d \<in> set (usableCandidates call). dle (candidateScore fl perf call e) (candidateScore fl perf call d)"
      using c(3) auto e(2) by (simp add: scoredCandidates_def)
    moreover have "candidateSpec e = spec" using c(2) spec e(2) by simp
    ultimately show ?thesis using e(1) by blast
  qed
  then show ?thesis using usable_spec call'(1) by (metis (no_types, lifting))
qed

section \<open>Agreement between ranks\<close>

text \<open>
  Two ranks of one communicator see the same nodes, and each knows the number of ranks on its own node.
\<close>

definition same_communicator :: "ncclComm \<Rightarrow> ncclComm \<Rightarrow> bool" where
  "same_communicator a b \<longleftrightarrow>
     nRanks a = nRanks b \<and> nNodes a = nNodes b \<and> nodeLocalRanks a = nodeLocalRanks b \<and>
     0 \<le> node a \<and> node a < nNodes a \<and> 0 \<le> node b \<and> node b < nNodes b \<and>
     localRanks a = nodeLocalRanks a (node a) \<and> localRanks b = nodeLocalRanks b (node b)"

lemma same_communicatorD:
  assumes "same_communicator a b"
  shows "nRanks b = nRanks a" "nNodes b = nNodes a" "nodeLocalRanks b = nodeLocalRanks a"
    "0 \<le> node b" "node b < nNodes a" "localRanks b = nodeLocalRanks a (node b)"
  using assms unfolding same_communicator_def by (elim conjE; simp)+

lemma uniform_localRanks:
  assumes same: "same_communicator a b" and uni: "uniformNodeRanks a"
  shows "localRanks b = localRanks a" and "uniformNodeRanks b"
proof -
  note same = same_communicatorD [OF same]
  have "nat (node b) \<in> set [0..<nat (nNodes a)]" "int (nat (node b)) = node b" using same(4,5) by auto
  with uni have "nodeLocalRanks a (node b) = localRanks a" unfolding uniformNodeRanks_def by metis
  then show eq: "localRanks b = localRanks a" using same(6) by simp
  show "uniformNodeRanks b" using uni unfolding uniformNodeRanks_def eq same(1-3) .
qed

lemma same_communicator_sym: "same_communicator a b \<Longrightarrow> same_communicator b a"
  unfolding same_communicator_def by (elim conjE) (intro conjI; simp)

text \<open>The same collective call, seen by two ranks whose processes resolved equivalent compressors.\<close>

definition same_call :: "cocclPreparedCall \<Rightarrow> cocclPreparedCall \<Rightarrow> bool" where
  "same_call a b \<longleftrightarrow>
     infoOperation (preparedInfo a) = infoOperation (preparedInfo b) \<and>
     infoOperation (preparedInfo a) \<noteq> SendRecv \<and>
     infoCount (preparedInfo a) = infoCount (preparedInfo b) \<and>
     infoDatatype (preparedInfo a) = infoDatatype (preparedInfo b) \<and>
     same_communicator (callComm (preparedInfo a)) (callComm (preparedInfo b)) \<and>
     (\<forall>scope. (handles (preparedCompressors a) scope = nullptr \<longleftrightarrow> handles (preparedCompressors b) scope = nullptr) \<and>
        datatypeSupported (preparedCompressors a) scope = datatypeSupported (preparedCompressors b) scope)"

definition same_models :: "cocclProcessPerformanceModel \<Rightarrow> cocclPreparedCall \<Rightarrow> cocclProcessPerformanceModel \<Rightarrow> cocclPreparedCall \<Rightarrow> bool" where
  "same_models perf a perf' b \<longleftrightarrow>
     cocclAutotuneSnapshotPerformanceModel perf = cocclAutotuneSnapshotPerformanceModel perf' \<and>
     (\<forall>scope \<in> {ScopeDefault, ScopeIntra, ScopeInter}. phaseCodec perf a scope = phaseCodec perf' b scope)"

lemma same_callD:
  assumes "same_call a b"
  shows "infoOperation (preparedInfo b) = infoOperation (preparedInfo a)"
    "infoOperation (preparedInfo a) \<noteq> SendRecv"
    "infoCount (preparedInfo b) = infoCount (preparedInfo a)"
    "infoDatatype (preparedInfo b) = infoDatatype (preparedInfo a)"
    "same_communicator (callComm (preparedInfo a)) (callComm (preparedInfo b))"
    "handles (preparedCompressors b) scope = nullptr \<longleftrightarrow> handles (preparedCompressors a) scope = nullptr"
    "datatypeSupported (preparedCompressors b) scope = datatypeSupported (preparedCompressors a) scope"
  using assms unfolding same_call_def by (elim conjE; simp)+

lemma same_call_supported:
  assumes "same_call a b"
  shows "cocclPreparedAlgorithmSupported b = cocclPreparedAlgorithmSupported a"
proof
  fix algorithm
  note same = same_callD [OF assms] and comm = same_communicatorD [OF same_callD(5) [OF assms]]
  have "algorithmScopes (preparedInfo b) algorithm = algorithmScopes (preparedInfo a) algorithm"
    unfolding algorithmScopes_def flatScope_def same(1) comm(2) using same(2) by simp
  then show "cocclPreparedAlgorithmSupported b algorithm = cocclPreparedAlgorithmSupported a algorithm"
    unfolding cocclPreparedAlgorithmSupported_def cocclPreparedAlgorithmHasCompression_def setGet_def setSupports_def
    by (simp add: same(6,7))
qed

lemma same_call_usable:
  assumes "same_call a b"
  shows "usableCandidates b = usableCandidates a"
proof -
  note same = same_callD [OF assms]
  note comm = same_communicatorD [OF same(5)]
  have "uniformNodeRanks (callComm (preparedInfo b)) = uniformNodeRanks (callComm (preparedInfo a))"
    using uniform_localRanks(2) [OF same(5)] uniform_localRanks(2) [OF same_communicator_sym [OF same(5)]] by blast
  moreover have "uniformNodeRanks (callComm (preparedInfo a)) \<Longrightarrow>
      localRanks (callComm (preparedInfo b)) = localRanks (callComm (preparedInfo a))"
    using uniform_localRanks(1) [OF same(5)] .
  ultimately have "callEligibility (preparedInfo b) = callEligibility (preparedInfo a)"
    unfolding callEligibility_def Let_def comm(1,2) same(3) by auto
  then show ?thesis
    by (simp add: usableCandidates_def same(1) same_call_supported [OF assms])
qed

lemma same_call_score:
  assumes "same_call a b" "same_models perf a perf' b" "uniformNodeRanks (callComm (preparedInfo a))"
  shows "candidateScore fl perf' b = candidateScore fl perf a"
proof
  fix cand
  note same = same_callD [OF assms(1)]
  note comm = same_communicatorD [OF same(5)]
  have "messageBytes fl b = messageBytes fl a"
    unfolding messageBytes_def Let_def same(1,3,4) comm(1) ..
  moreover have "phaseCodec perf' b scope = phaseCodec perf a scope" if "scope \<in> {ScopeDefault, ScopeIntra, ScopeInter}" for scope
    using assms(2) that unfolding same_models_def by auto
  moreover have "cocclAutotuneSnapshotPerformanceModel perf' = cocclAutotuneSnapshotPerformanceModel perf"
    using assms(2) unfolding same_models_def by simp
  ultimately show "candidateScore fl perf' b cand = candidateScore fl perf a cand"
    by (simp add: candidateScore_def uniform_localRanks(1) [OF same(5) assms(3)] comm(2))
qed

text \<open>
  C25. Two ranks of a collective choose the same algorithm when they see the same call (its collective
  arguments, node count and compressors) and have the same fitted models and codecs, and either every node has
  the same number of ranks or the choice does not use the model.
\<close>

theorem select_rank_independent:
  assumes "same_call a b" and "same_models perf a perf' b"
    and "uniformNodeRanks (callComm (preparedInfo a)) \<or> \<not> autotuneEnabled cfg \<or>
      configuredAlgorithm cfg (infoOperation (preparedInfo a)) \<noteq> AlgorithmNone"
  shows "fst (cocclSelectAlgorithm fl cfg perf a) = fst (cocclSelectAlgorithm fl cfg perf' b) \<and>
    (fst (cocclSelectAlgorithm fl cfg perf a) = ncclSuccess \<longrightarrow>
      preparedAlgorithm (snd (cocclSelectAlgorithm fl cfg perf a)) = preparedAlgorithm (snd (cocclSelectAlgorithm fl cfg perf' b)))"
proof -
  have oper: "infoOperation (preparedInfo b) = infoOperation (preparedInfo a)" by (rule same_callD(1) [OF assms(1)])
  have "scoredCandidates fl cfg perf a = scoredCandidates fl cfg perf' b"
    unfolding scoredCandidates_def oper same_call_usable [OF assms(1)]
    using assms(3) same_call_score [OF assms(1,2)] by (metis (no_types))
  then have eq: "selectDecision fl cfg perf a = selectDecision fl cfg perf' b"
    by (simp add: selectDecision_def oper)
  show ?thesis
  proof (cases "decisionCandidate (selectDecision fl cfg perf' b)")
    case None
    with selectAlgorithm_decision [of fl cfg perf a] selectAlgorithm_decision [of fl cfg perf' b] eq show ?thesis
      by simp
  next
    case (Some spec)
    with selectAlgorithm_decision [of fl cfg perf a] selectAlgorithm_decision [of fl cfg perf' b] eq show ?thesis
      by simp
  qed
qed

section \<open>Examples\<close>

text \<open>Two nodes; node 0 has \<open>first\<close> ranks, node 1 has \<open>second\<close>. An all-reduce of 4096 floats, seen on node \<open>n\<close>.\<close>

definition twoNodeComm :: "int \<Rightarrow> int \<Rightarrow> int \<Rightarrow> ncclComm" where
  "twoNodeComm first second n = \<lparr>self = 4096, rank = (if n = 0 then 0 else first), nRanks = first + second, node = n, nNodes = 2,
     localRanks = (if n = 0 then first else second), cudaDev = 0, commHash = 7,
     rankToNode = (\<lambda>r. if r < first then 0 else 1), nodeLocalRanks = (\<lambda>m. if m = 0 then first else second),
     localRank = 0, localRankToRank = (\<lambda>l. if n = 0 then l else first + l), nodeLocalRankToRank = (\<lambda>m l. if m = 0 then l else first + l)\<rparr>"

definition exampleSet :: cocclPreparedCompressorSet where
  "exampleSet = \<lparr>handles = (\<lambda>_. 64), datatypeSupported = (\<lambda>_. True), setThresholdBytes = 1024\<rparr>"

definition exampleAllReduce :: "int \<Rightarrow> int \<Rightarrow> int \<Rightarrow> cocclPreparedCall" where
  "exampleAllReduce first second n = \<lparr>
     preparedInfo = emptyInfo\<lparr>infoSend := 8192, infoRecv := 65536, infoCount := 4096, infoDatatype := ncclFloat32,
       infoFunc := ncclFuncAllReduce, infoOperation := AllReduce, infoComm := Some (twoNodeComm first second n)\<rparr>,
     preparedDescriptor = None, preparedRole = TrainingRoleUnknown,
     preparedPolicyKey = cocclDefaultPolicy AllReduce ScopeDefault, preparedAlgorithm = AlgorithmNone,
     preparedCompressors = exampleSet, oneShotUs = PosInf, twoShotUs = PosInf, tripleShotUs = PosInf,
     preparedUsedModel = False\<rparr>"

text \<open>Fitted models: a codec and an inter-node link of one microsecond per byte, a free intra-node link.\<close>

definition perByte :: "real \<Rightarrow> cocclLinearModel" where
  "perByte b = \<lparr>alphaUs = Fin 0, betaUsPerByte = Fin b, linearValid = True\<rparr>"

definition exampleModels :: cocclProcessPerformanceModel where
  "exampleModels = emptyPerformanceModel\<lparr>processIntraP2p := perByte 0, processInterP2p := perByte 1,
     compressorModels := [64 \<mapsto> \<lparr>codecModelTime = perByte 1, codecModelRatio = Fin 1, codecValid = True\<rparr>]\<rparr>"

lemmas example_select_defs =
  exampleAllReduce_def exampleSet_def twoNodeComm_def exampleModels_def perByte_def emptyPerformanceModel_def emptyInfo_def
  cocclSelectAlgorithm_def selectCandidate_def usableCandidates_def cocclAutotuneBuildCandidates_def
  kCocclAutotuneCandidateSpecs_def specEligible_def callEligibility_def uniformNodeRanks_def callComm_def
  cocclAutotuneRequiresNone_def cocclAutotuneRequiresHierarchical_def cocclAutotuneRequiresDivisibleByRanks_def
  cocclPreparedAlgorithmSupported_def cocclPreparedAlgorithmHasCompression_def algorithmScopes_def flatScope_def
  setGet_def setSupports_def configuredAlgorithm_def defaultAutotuneConfig_def setCandidateScore_def storeScore_def
  candidateScore_def messageBytes_def phaseCodec_def copyCompressorModelLocked_def
  cocclAutotuneSnapshotPerformanceModel_def globalPccaCost_def allReduceOneShotCost_def reduceScatterTwoShotCost_def
  pccaCost_def codecTime_def compressionRatio_def cocclAutotunePredict_def dmax_def dle_def
  cocclAutotuneChooseCandidate_def lowerScore_def noDecision_def

lemma four_divides: "(4096 :: 64 word) mod 4 = 0" "unat (4096 :: 64 word) = 4096"
  by simp_all

definition candidateOf :: "nat \<Rightarrow> cocclAutotuneCandidate" where
  "candidateOf i = \<lparr>candidateSpec = kCocclAutotuneCandidateSpecs ! i, scoreUs = PosInf\<rparr>"

lemma candidateOf_spec [simp]: "candidateSpec (candidateOf i) = kCocclAutotuneCandidateSpecs ! i"
  by (simp add: candidateOf_def)

lemma example_operation [simp]: "infoOperation (preparedInfo (exampleAllReduce i j n)) = AllReduce"
  by (simp add: exampleAllReduce_def)

lemma example_usable: "usableCandidates (exampleAllReduce 3 1 n) = [candidateOf 2, candidateOf 3]"
  by (simp add: example_select_defs candidateOf_def four_divides)

lemma example_scores:
  "candidateScore Fin exampleModels (exampleAllReduce 3 1 0) (candidateOf 2) = Fin 110592"
  "candidateScore Fin exampleModels (exampleAllReduce 3 1 0) (candidateOf 3) = Fin 49152"
  "candidateScore Fin exampleModels (exampleAllReduce 3 1 1) (candidateOf 2) = Fin 24576"
  "candidateScore Fin exampleModels (exampleAllReduce 3 1 1) (candidateOf 3) = Fin 49152"
  by (simp_all add: example_select_defs candidateOf_def)

lemma example_decisions:
  "decisionCandidate (selectDecision Fin defaultAutotuneConfig exampleModels (exampleAllReduce 3 1 0)) =
     Some (kCocclAutotuneCandidateSpecs ! 3)"
  "decisionCandidate (selectDecision Fin defaultAutotuneConfig exampleModels (exampleAllReduce 3 1 1)) =
     Some (kCocclAutotuneCandidateSpecs ! 2)"
proof -
  have auto: "configuredAlgorithm defaultAutotuneConfig AllReduce = AlgorithmNone" "autotuneEnabled defaultAutotuneConfig"
    by (simp_all add: configuredAlgorithm_def defaultAutotuneConfig_def)
  show "decisionCandidate (selectDecision Fin defaultAutotuneConfig exampleModels (exampleAllReduce 3 1 0)) =
      Some (kCocclAutotuneCandidateSpecs ! 3)"
    "decisionCandidate (selectDecision Fin defaultAutotuneConfig exampleModels (exampleAllReduce 3 1 1)) =
      Some (kCocclAutotuneCandidateSpecs ! 2)"
    by (simp_all add: selectDecision_def scoredCandidates_def auto example_usable example_scores
        cocclAutotuneChooseCandidate_def lowerScore_def)
qed

text \<open>
  With different numbers of ranks per node the model scores the same call differently on the two
  nodes, and the ranks of one all-reduce disagree: the lone rank of node 1 runs the one-shot
  algorithm, the ranks of node 0 the two-shot algorithm, whose collectives do not match.
\<close>

theorem select_diverges_on_uneven_nodes:
  "same_call (exampleAllReduce 3 1 0) (exampleAllReduce 3 1 1) \<and>
   same_models exampleModels (exampleAllReduce 3 1 0) exampleModels (exampleAllReduce 3 1 1) \<and>
   preparedAlgorithm (snd (cocclSelectAlgorithm Fin defaultAutotuneConfig exampleModels (exampleAllReduce 3 1 0))) =
     AlgorithmAllReduceTwoShot \<and>
   preparedAlgorithm (snd (cocclSelectAlgorithm Fin defaultAutotuneConfig exampleModels (exampleAllReduce 3 1 1))) =
     AlgorithmAllReduceOneShot"
proof (intro conjI)
  show "same_call (exampleAllReduce 3 1 0) (exampleAllReduce 3 1 1)"
    by (simp add: same_call_def same_communicator_def exampleAllReduce_def twoNodeComm_def callComm_def emptyInfo_def)
  show "same_models exampleModels (exampleAllReduce 3 1 0) exampleModels (exampleAllReduce 3 1 1)"
    by (simp add: same_models_def phaseCodec_def exampleAllReduce_def)
  show "preparedAlgorithm (snd (cocclSelectAlgorithm Fin defaultAutotuneConfig exampleModels (exampleAllReduce 3 1 0))) =
      AlgorithmAllReduceTwoShot"
    using selectAlgorithm_decision [of Fin defaultAutotuneConfig exampleModels "exampleAllReduce 3 1 0"] example_decisions(1)
    by (simp add: kCocclAutotuneCandidateSpecs_def)
  show "preparedAlgorithm (snd (cocclSelectAlgorithm Fin defaultAutotuneConfig exampleModels (exampleAllReduce 3 1 1))) =
      AlgorithmAllReduceOneShot"
    using selectAlgorithm_decision [of Fin defaultAutotuneConfig exampleModels "exampleAllReduce 3 1 1"] example_decisions(2)
    by (simp add: kCocclAutotuneCandidateSpecs_def)
qed

theorem select_algorithm_sound_witness:
  "\<exists>call'. cocclSelectAlgorithm Fin defaultAutotuneConfig exampleModels (exampleAllReduce 3 1 1) = (ncclSuccess, call') \<and>
     cocclPreparedAlgorithmSupported (exampleAllReduce 3 1 1) (preparedAlgorithm call')"
proof -
  let ?run = "cocclSelectAlgorithm Fin defaultAutotuneConfig exampleModels (exampleAllReduce 3 1 1)"
  have "fst ?run = ncclSuccess"
    using selectAlgorithm_decision [of Fin defaultAutotuneConfig exampleModels "exampleAllReduce 3 1 1"] example_decisions(2)
    by simp
  then have run: "?run = (ncclSuccess, snd ?run)" by (metis prod.collapse)
  from select_algorithm_sound [OF this] run show ?thesis by blast
qed

theorem select_rank_independent_witness:
  "preparedAlgorithm (snd (cocclSelectAlgorithm Fin (defaultAutotuneConfig\<lparr>autotuneEnabled := False\<rparr>) exampleModels (exampleAllReduce 3 1 0))) =
   preparedAlgorithm (snd (cocclSelectAlgorithm Fin (defaultAutotuneConfig\<lparr>autotuneEnabled := False\<rparr>) exampleModels (exampleAllReduce 3 1 1)))"
proof -
  let ?cfg = "defaultAutotuneConfig\<lparr>autotuneEnabled := False\<rparr>"
  have same: "same_call (exampleAllReduce 3 1 0) (exampleAllReduce 3 1 1)"
    by (simp add: same_call_def same_communicator_def exampleAllReduce_def twoNodeComm_def callComm_def emptyInfo_def)
  have models: "same_models exampleModels (exampleAllReduce 3 1 0) exampleModels (exampleAllReduce 3 1 1)"
    by (simp add: same_models_def phaseCodec_def exampleAllReduce_def)
  have "decisionCandidate (selectDecision Fin ?cfg exampleModels (exampleAllReduce 3 1 0)) \<noteq> None"
    by (simp add: selectDecision_def scoredCandidates_def example_usable configuredAlgorithm_def defaultAutotuneConfig_def
        cocclAutotuneChooseCandidate_def cocclAutotuneHeuristicCandidate_def)
  then have "fst (cocclSelectAlgorithm Fin ?cfg exampleModels (exampleAllReduce 3 1 0)) = ncclSuccess"
    using selectAlgorithm_decision [of Fin ?cfg exampleModels "exampleAllReduce 3 1 0"] by simp
  with select_rank_independent [OF same models, of ?cfg Fin] show ?thesis by simp
qed

end
