(* ===== verification/Layout_Kernel.thy ===== *)
theory Layout_Kernel
  imports Pipeline_Layout "HOL-Library.Multiset"
begin

text \<open>
  The device side of the layout copies, \<^verbatim>\<open>core/device/pipeline/coccl_pipeline_layout.cu\<close>: what one thread
  of \<^verbatim>\<open>packSliceKernel\<close> or \<^verbatim>\<open>unpackSliceKernel\<close> copies. A grid-stride loop over 64-bit indices may fail to
  end if its index wraps around, so the loops are partial; for the grids that are launched they end,
  and the threads together copy every element of every row exactly once.
\<close>

section \<open>Loops of a thread\<close>

text \<open>\<^verbatim>\<open>for (; element < n; element += stride)\<close>: the values of the index.\<close>

partial_function (option) strideLoop :: "size_t \<Rightarrow> size_t \<Rightarrow> size_t \<Rightarrow> size_t list option" where
  "strideLoop stride n element =
     (if element < n
      then Option.bind (strideLoop stride n (element + stride)) (\<lambda>rest. Some (element # rest))
      else Some [])"

text \<open>The unrolled loop: the copied indices and the value the index is left with.\<close>

partial_function (option) unrolledLoop :: "nat \<Rightarrow> size_t \<Rightarrow> size_t \<Rightarrow> size_t \<Rightarrow> (size_t list \<times> size_t) option" where
  "unrolledLoop unroll stride n element =
     (if element < n \<and> word_of_nat (unroll - 1) * stride < n - element
      then Option.bind (unrolledLoop unroll stride n (element + word_of_nat unroll * stride))
        (\<lambda>(rest, last). Some (map (\<lambda>i. element + word_of_nat i * stride) [0..<unroll] @ rest, last))
      else Some ([], element))"

text \<open>The position of a thread in its grid.\<close>

record thread =
  blockX :: size_t
  blockY :: size_t
  threadX :: size_t

definition gridStride :: "32 word \<Rightarrow> size_t" where
  "gridStride gridX = ucast gridX * kLayoutThreads"

definition firstElement :: "thread \<Rightarrow> size_t" where
  "firstElement t = blockX t * kLayoutThreads + threadX t"

text \<open>\<^verbatim>\<open>LayoutRowCopier::copy\<close>, with its specialisation for \<^verbatim>\<open>Unroll = 1\<close>.\<close>

definition rowCopier :: "nat \<Rightarrow> 32 word \<Rightarrow> thread \<Rightarrow> size_t \<Rightarrow> size_t list option" where
  "rowCopier unroll gridX t elementsPerChunk =
     (let stride = gridStride gridX in
      if unroll = 1 then strideLoop stride elementsPerChunk (firstElement t)
      else Option.bind (unrolledLoop unroll stride elementsPerChunk (firstElement t)) (\<lambda>(copied, element).
        Option.bind (strideLoop stride elementsPerChunk element) (\<lambda>rest. Some (copied @ rest))))"

definition kUnroll :: "size_t \<Rightarrow> nat" where
  "kUnroll copyBytes = unat (kTargetBytesPerBlock div (kLayoutThreads * copyBytes))"

definition copyLayoutRow :: "size_t \<Rightarrow> 32 word \<Rightarrow> thread \<Rightarrow> ptr \<Rightarrow> ptr \<Rightarrow> size_t \<Rightarrow> (ptr \<times> ptr) list option" where
  "copyLayoutRow copyBytes gridX t source destination elementsPerChunk =
     map_option (map (\<lambda>e. (destination + e * copyBytes, source + e * copyBytes)))
       (rowCopier (kUnroll copyBytes) gridX t elementsPerChunk)"

text \<open>The copies of a list of rows, in order.\<close>

fun copyRows :: "('r \<Rightarrow> 'c list option) \<Rightarrow> 'r list \<Rightarrow> 'c list option" where
  "copyRows copy [] = Some []"
| "copyRows copy (row # rows) =
     Option.bind (copy row) (\<lambda>cs. Option.bind (copyRows copy rows) (\<lambda>rest. Some (cs @ rest)))"

text \<open>The kernels: the copies (destination and source address of \<open>copyBytes\<close> bytes) of one thread.\<close>

definition swizzledChunk :: "bool \<Rightarrow> int \<Rightarrow> int \<Rightarrow> size_t \<Rightarrow> size_t" where
  "swizzledChunk swizzle nodes perNode sourceChunk =
     (if swizzle
      then sourceChunk mod size_of_int perNode * size_of_int nodes + sourceChunk div size_of_int perNode
      else sourceChunk)"

definition packSliceKernel ::
  "size_t \<Rightarrow> bool \<Rightarrow> 32 word \<times> 32 word \<Rightarrow> thread \<Rightarrow> ptr \<Rightarrow> size_t \<Rightarrow> ptr \<Rightarrow> size_t \<Rightarrow> size_t \<Rightarrow> int \<Rightarrow> int \<Rightarrow>
   (ptr \<times> ptr) list option" where
  "packSliceKernel copyBytes swizzle = (\<lambda>(gridX, gridY) t source sourcePitch destination sliceSize chunkCount nodes perNode.
     Option.bind (strideLoop (ucast gridY) chunkCount (blockY t))
       (copyRows (\<lambda>sourceChunk.
          copyLayoutRow copyBytes gridX t (source + sourceChunk * sourcePitch)
            (destination + swizzledChunk swizzle nodes perNode sourceChunk * sliceSize) (sliceSize div copyBytes))))"

definition unpackSliceKernel ::
  "size_t \<Rightarrow> 32 word \<times> 32 word \<Rightarrow> thread \<Rightarrow> ptr \<Rightarrow> ptr \<Rightarrow> size_t \<Rightarrow> size_t \<Rightarrow> size_t \<Rightarrow> (ptr \<times> ptr) list option" where
  "unpackSliceKernel copyBytes = (\<lambda>(gridX, gridY) t source destination destinationPitch sliceSize chunkCount.
     Option.bind (strideLoop (ucast gridY) chunkCount (blockY t))
       (copyRows (\<lambda>chunk.
          copyLayoutRow copyBytes gridX t (source + chunk * sliceSize) (destination + chunk * destinationPitch)
            (sliceSize div copyBytes))))"

section \<open>The loops end\<close>

text \<open>The indices a loop with this stride visits.\<close>

definition strided :: "nat \<Rightarrow> nat \<Rightarrow> nat \<Rightarrow> nat list" where
  "strided s n e = filter (\<lambda>x. (x - e) mod s = 0) [e..<n]"

lemma strided_done: "n \<le> e \<Longrightarrow> strided s n e = []"
  by (simp add: strided_def)

lemma strided_step:
  assumes "e < n" and "0 < s"
  shows "strided s n e = e # strided s n (e + s)"
proof -
  have tail: "filter (\<lambda>x. (x - e) mod s = 0) [Suc e..<n] = filter (\<lambda>x. (x - (e + s)) mod s = 0) [e + s..<n]"
  proof (cases "e + s \<le> n")
    case True
    have "[Suc e..<n] = [Suc e..<e + s] @ [e + s..<n]"
      using assms True by (metis Suc_leI add.commute less_add_same_cancel1 upt_add_eq_append le_add_diff_inverse)
    moreover have "filter (\<lambda>x. (x - e) mod s = 0) [Suc e..<e + s] = []"
      by (auto simp: filter_empty_conv)
    moreover have "filter (\<lambda>x. (x - e) mod s = 0) [e + s..<n] = filter (\<lambda>x. (x - (e + s)) mod s = 0) [e + s..<n]"
    proof (rule filter_cong [OF refl])
      fix x assume "x \<in> set [e + s..<n]"
      then obtain d where "x = e + s + d" by (auto simp: le_iff_add)
      then show "((x - e) mod s = 0) = ((x - (e + s)) mod s = 0)" by simp
    qed
    ultimately show ?thesis by simp
  next
    case False
    then have "filter (\<lambda>x. (x - e) mod s = 0) [Suc e..<n] = []" by (auto simp: filter_empty_conv)
    with False show ?thesis by simp
  qed
  then show ?thesis using assms by (simp add: strided_def upt_conv_Cons)
qed

lemma strided_steps:
  assumes "0 < s" and "e + k * s < n + s"
  shows "strided s n e = map (\<lambda>i. e + i * s) [0..<k] @ strided s n (e + k * s)"
  using assms(2)
proof (induction k)
  case 0
  then show ?case by simp
next
  case (Suc k)
  then have "e + k * s < n" by simp
  with Suc strided_step [OF this assms(1)] show ?case by (simp add: algebra_simps)
qed

lemma strideLoop_runs:
  assumes "0 < stride" and "unat n + unat stride < 2 ^ 64"
  shows "\<exists>xs. strideLoop stride n element = Some xs \<and> map unat xs = strided (unat stride) (unat n) (unat element)"
proof (induction "unat n - unat element" arbitrary: element rule: less_induct)
  case less
  show ?case
  proof (cases "element < n")
    case True
    then have lt: "unat element < unat n" by (simp add: word_less_nat_alt)
    with assms(2) have sum: "unat (element + stride) = unat element + unat stride" by (intro unat_add_exact) simp
    have pos: "0 < unat stride" using assms(1) by (simp add: word_less_nat_alt)
    have "unat n - unat (element + stride) < unat n - unat element" unfolding sum using lt pos by linarith
    from less [OF this] obtain xs where "strideLoop stride n (element + stride) = Some xs"
      "map unat xs = strided (unat stride) (unat n) (unat element + unat stride)" by (auto simp: sum)
    with True strided_step [OF lt pos] show ?thesis by (subst strideLoop.simps) simp
  next
    case False
    then show ?thesis by (subst strideLoop.simps) (simp add: strided_done word_less_nat_alt)
  qed
qed


lemma unrolledLoop_runs:
  assumes stride: "0 < stride" and unroll: "0 < unroll" and fits: "unat n + unroll * unat stride < 2 ^ 64"
  shows "\<exists>xs last. unrolledLoop unroll stride n element = Some (xs, last) \<and>
    strided (unat stride) (unat n) (unat element) = map unat xs @ strided (unat stride) (unat n) (unat last)"
proof (induction "unat n - unat element" arbitrary: element rule: less_induct)
  case less
  let ?s = "unat stride" and ?e = "unat element"
  have pos: "0 < ?s" using stride by (simp add: word_less_nat_alt)
  show ?case
  proof (cases "element < n \<and> word_of_nat (unroll - 1) * stride < n - element")
    case True
    then have lt: "?e < unat n" by (simp add: word_less_nat_alt)
    have small: "i * ?s < 2 ^ 64" if "i \<le> unroll" for i
      using fits mult_le_mono1 [OF that, of ?s] by linarith
    have mult: "unat (word_of_nat i * stride) = i * ?s" if "i \<le> unroll" for i
    proof -
      have "i \<le> i * ?s" using pos by simp
      with small [OF that] have "i < 2 ^ 64" by linarith
      then show ?thesis using small [OF that] by (simp add: unat_mult_exact unat_word_of_nat_size)
    qed
    have step: "unat (element + word_of_nat i * stride) = ?e + i * ?s" if "i \<le> unroll" for i
    proof -
      have "?e + i * ?s < 2 ^ 64" using lt fits mult_le_mono1 [OF that, of ?s] by linarith
      with mult [OF that] show ?thesis by (simp add: unat_add_exact)
    qed
    have "(unroll - 1) * ?s < unat n - ?e"
    proof -
      have "unat (n - element) = unat n - ?e" by (rule unat_sub [OF less_imp_le]) (use True in blast)
      with True mult [of "unroll - 1"] show ?thesis by (simp add: word_less_nat_alt)
    qed
    then have "?e + unroll * ?s < unat n + ?s" using unroll lt by (cases unroll) auto
    note unfolded = strided_steps [OF pos this]
    have "unat n - unat (element + word_of_nat unroll * stride) < unat n - ?e"
      unfolding step [OF order_refl] using lt pos unroll by (simp add: diff_less_mono2)
    from less [OF this] obtain xs last where "unrolledLoop unroll stride n (element + word_of_nat unroll * stride) = Some (xs, last)"
      "strided ?s (unat n) (?e + unroll * ?s) = map unat xs @ strided ?s (unat n) (unat last)"
      by (auto simp: step)
    with True unfolded step show ?thesis by (subst unrolledLoop.simps) (auto simp: comp_def intro!: map_cong)
  next
    case False
    then show ?thesis by (subst unrolledLoop.simps) auto
  qed
qed

lemma rowCopier_runs:
  assumes "0 < gridStride gridX" and "0 < unroll" and "unat n + unroll * unat (gridStride gridX) < 2 ^ 64"
  shows "\<exists>xs. rowCopier unroll gridX t n = Some xs \<and>
    map unat xs = strided (unat (gridStride gridX)) (unat n) (unat (firstElement t))"
proof -
  let ?s = "gridStride gridX" and ?e = "firstElement t"
  have "unat ?s \<le> unroll * unat ?s" using assms(2) by simp
  with assms(3) have fits: "unat n + unat ?s < 2 ^ 64" by linarith
  obtain xs last where u: "unrolledLoop unroll ?s n ?e = Some (xs, last)"
    "strided (unat ?s) (unat n) (unat ?e) = map unat xs @ strided (unat ?s) (unat n) (unat last)"
    using unrolledLoop_runs [OF assms] by blast
  obtain ys where y: "strideLoop ?s n last = Some ys" "map unat ys = strided (unat ?s) (unat n) (unat last)"
    using strideLoop_runs [OF assms(1) fits] by blast
  obtain zs where z: "strideLoop ?s n ?e = Some zs" "map unat zs = strided (unat ?s) (unat n) (unat ?e)"
    using strideLoop_runs [OF assms(1) fits] by blast
  from u y z show ?thesis by (simp add: rowCopier_def Let_def)
qed


lemma set_strided:
  assumes "e < s"
  shows "set (strided s n e) = {x. x < n \<and> x mod s = e}"
proof -
  have hit: "s dvd x - e \<longleftrightarrow> x mod s = e" if "e \<le> x" for x
  proof -
    have "x mod s = e mod s \<longleftrightarrow> s dvd x - e" by (rule mod_eq_dvd_iff_nat [OF that])
    with assms show ?thesis by simp
  qed
  have "e \<le> x" if "x mod s = e" for x using that mod_less_eq_dividend [of x s] by simp
  with hit show ?thesis by (auto simp: strided_def mod_eq_0_iff_dvd)
qed

lemma distinct_strided: "distinct (strided s n e)"
  by (simp add: strided_def)

section \<open>The threads of a grid\<close>

definition threadAt :: "nat \<times> nat \<times> nat \<Rightarrow> thread" where
  "threadAt = (\<lambda>(y, x, k). \<lparr>blockX = word_of_nat x, blockY = word_of_nat y, threadX = word_of_nat k\<rparr>)"

definition threadsOf :: "32 word \<times> 32 word \<Rightarrow> thread list" where
  "threadsOf = (\<lambda>(gridX, gridY).
     map threadAt (List.product [0..<unat gridY] (List.product [0..<unat gridX] [0..<256])))"

text \<open>Chunk and element of every copy of a thread; the addresses follow from them.\<close>

definition threadWork :: "nat \<Rightarrow> 32 word \<times> 32 word \<Rightarrow> size_t \<Rightarrow> size_t \<Rightarrow> thread \<Rightarrow> (size_t \<times> size_t) list option" where
  "threadWork unroll = (\<lambda>(gridX, gridY) elementsPerChunk chunkCount t.
     Option.bind (strideLoop (ucast gridY) chunkCount (blockY t))
       (copyRows (\<lambda>chunk. map_option (map (Pair chunk)) (rowCopier unroll gridX t elementsPerChunk))))"

lemma unat_lt32: "unat (w :: 32 word) < 2 ^ 64"
  using unsigned_less [of w, where ?'a = nat] by simp

lemma copyRows_map:
  "copyRows (\<lambda>row. map_option (map (g row)) (copy row)) rows = map_option (map (\<lambda>(row, e). g row e))
     (copyRows (\<lambda>row. map_option (map (Pair row)) (copy row)) rows)"
proof (induction rows)
  case Nil
  then show ?case by simp
next
  case (Cons row rows)
  then show ?case by (cases "copy row"; cases "copyRows (\<lambda>row. map_option (map (Pair row)) (copy row)) rows") (simp_all add: comp_def)
qed

lemma packSliceKernel_work:
  "packSliceKernel copyBytes swizzle grid t source sourcePitch destination sliceSize chunkCount nodes perNode =
     map_option (map (\<lambda>(chunk, e). (destination + swizzledChunk swizzle nodes perNode chunk * sliceSize + e * copyBytes,
         source + chunk * sourcePitch + e * copyBytes)))
       (threadWork (kUnroll copyBytes) grid (sliceSize div copyBytes) chunkCount t)"
proof (cases grid)
  case (Pair gridX gridY)
  show ?thesis
  proof (cases "strideLoop (ucast gridY) chunkCount (blockY t)")
    case None
    then show ?thesis by (simp add: packSliceKernel_def threadWork_def Pair)
  next
    case (Some rows)
    show ?thesis
      unfolding Pair packSliceKernel_def threadWork_def copyLayoutRow_def prod.case Some bind.bind_lunit
      by (rule copyRows_map)
  qed
qed

lemma unpackSliceKernel_work:
  "unpackSliceKernel copyBytes grid t source destination destinationPitch sliceSize chunkCount =
     map_option (map (\<lambda>(chunk, e). (destination + chunk * destinationPitch + e * copyBytes,
         source + chunk * sliceSize + e * copyBytes)))
       (threadWork (kUnroll copyBytes) grid (sliceSize div copyBytes) chunkCount t)"
proof (cases grid)
  case (Pair gridX gridY)
  show ?thesis
  proof (cases "strideLoop (ucast gridY) chunkCount (blockY t)")
    case None
    then show ?thesis by (simp add: unpackSliceKernel_def threadWork_def Pair)
  next
    case (Some rows)
    show ?thesis
      unfolding Pair unpackSliceKernel_def threadWork_def copyLayoutRow_def prod.case Some bind.bind_lunit
      by (rule copyRows_map)
  qed
qed

lemma copyRows_product:
  "copyRows (\<lambda>row. Some (map (Pair row) es)) rows = Some (List.product rows es)"
  by (induction rows) simp_all

lemma threadWork_runs:
  assumes "0 < gridX" "0 < gridY" and "0 < unroll"
    and "unat n + unroll * unat (gridStride gridX) < 2 ^ 64" and "unat chunkCount + unat gridY < 2 ^ 64"
    and "0 < gridStride gridX"
  shows "\<exists>rows es. threadWork unroll (gridX, gridY) n chunkCount t = Some (List.product rows es) \<and>
    map unat rows = strided (unat gridY) (unat chunkCount) (unat (blockY t)) \<and>
    map unat es = strided (unat (gridStride gridX)) (unat n) (unat (firstElement t))"
proof -
  have y: "unat (ucast gridY :: size_t) = unat gridY"
    using take_bit_nat_eq_self [OF unat_lt32 [of gridY]] by (simp add: unsigned_ucast_eq)
  obtain rows where r: "strideLoop (ucast gridY) chunkCount (blockY t) = Some rows"
    "map unat rows = strided (unat gridY) (unat chunkCount) (unat (blockY t))"
    using strideLoop_runs [of "ucast gridY" chunkCount "blockY t"] assms(2,5) y by (auto simp: word_less_nat_alt)
  obtain es where e: "rowCopier unroll gridX t n = Some es"
    "map unat es = strided (unat (gridStride gridX)) (unat n) (unat (firstElement t))"
    using rowCopier_runs [OF assms(6,3,4)] by blast
  from r e show ?thesis by (auto simp: threadWork_def copyRows_product)
qed


lemma unat_ucast_up: "unat (ucast w :: size_t) = unat w" for w :: "32 word"
  using take_bit_nat_eq_self [OF unat_lt32 [of w]] by (simp add: unsigned_ucast_eq)

lemma unat_ucast_down:
  fixes w :: size_t
  assumes "unat w < 2 ^ 32"
  shows "unat (ucast w :: 32 word) = unat w"
  using take_bit_nat_eq_self [OF assms] by (simp add: unsigned_ucast_eq)

lemma ucast_capped: "w < ucast b \<Longrightarrow> unat (ucast w :: 32 word) \<le> unat b" for w :: size_t and b :: "32 word"
proof -
  assume "w < ucast b"
  then have "unat w < unat b" by (simp add: word_less_nat_alt unat_ucast_up)
  moreover have "unat b < 2 ^ 32" using unsigned_less [of b, where ?'a = nat] by simp
  ultimately show ?thesis by (simp add: unat_ucast_down)
qed

lemma layoutGrid_bounds:
  assumes "chunkCount \<noteq> 0" and "layoutGrid copyBytes sliceSize chunkCount = (gridX, gridY)"
  shows "0 < gridX" "unat gridX \<le> 32768" "0 < gridY" "unat gridY \<le> 65535"
proof -
  let ?rows = "if chunkCount < kMaxGridY then chunkCount else kMaxGridY"
  have rows: "unat ?rows \<le> 65535" "unat ?rows \<noteq> 0"
    using assms(1) by (auto simp: kMaxGridY_def word_less_nat_alt unat_eq_zero)
  then have gy: "unat (ucast ?rows :: 32 word) = unat ?rows" by (intro unat_ucast_down) simp
  from assms(2) have y: "gridY = ucast ?rows" by (simp add: layoutGrid_def Let_def)
  with gy rows show "0 < gridY" "unat gridY \<le> 65535" by (simp_all add: word_less_nat_alt)
  define b0 where "b0 = (let b = kMaxLayoutBlocks div (ucast ?rows :: 32 word) in if b = 0 then 1 else b)"
  have b0: "unat b0 \<le> 32768"
    by (simp add: b0_def Let_def kMaxLayoutBlocks_def unat_div div_le_dividend order_trans [OF div_le_dividend])
  define b1 where "b1 = (let n = (sliceSize div copyBytes + kLayoutThreads - 1) div kLayoutThreads in if n < ucast b0 then ucast n else b0)"
  have b1: "unat b1 \<le> unat b0" by (auto simp: b1_def Let_def ucast_capped)
  define b2 where "b2 = (let n = (sliceSize + kTargetBytesPerBlock - 1) div kTargetBytesPerBlock in if n < ucast b1 then ucast n else b1)"
  have b2: "unat b2 \<le> unat b1" by (auto simp: b2_def Let_def ucast_capped)
  have "layoutGrid copyBytes sliceSize chunkCount = (if b2 = 0 then 1 else b2, ucast ?rows)"
    unfolding layoutGrid_def b2_def b1_def b0_def Let_def by (rule refl)
  with assms(2) have x: "gridX = (if b2 = 0 then 1 else b2)" by simp
  from x b0 b1 b2 show "0 < gridX" "unat gridX \<le> 32768" by (auto simp: word_gt_0)
qed

text \<open>A list made of the lists of many threads has no entry twice when no two threads share one.\<close>

lemma distinct_concat_map:
  assumes "distinct ts" and "\<And>t. t \<in> set ts \<Longrightarrow> distinct (f t)"
    and "\<And>t u. t \<in> set ts \<Longrightarrow> u \<in> set ts \<Longrightarrow> t \<noteq> u \<Longrightarrow> set (f t) \<inter> set (f u) = {}"
  shows "distinct (concat (map f ts))"
  using assms
proof (induction ts)
  case Nil
  then show ?case by simp
next
  case (Cons t ts)
  have "set (f t) \<inter> set (f u) = {}" if "u \<in> set ts" for u
    using Cons.prems(1) Cons.prems(3) [of t u] that by auto
  with Cons show ?case by auto
qed

lemma word_of_nat_inj:
  assumes "(word_of_nat a :: size_t) = word_of_nat b" and "a < 2 ^ 64" and "b < 2 ^ 64"
  shows "a = b"
  by (metis assms unat_word_of_nat_size)

lemma threadAt_inj:
  assumes "threadAt (y, x, k) = threadAt (y', x', k')"
    and "y < 2 ^ 64" "x < 2 ^ 64" "k < 2 ^ 64" "y' < 2 ^ 64" "x' < 2 ^ 64" "k' < 2 ^ 64"
  shows "y = y' \<and> x = x' \<and> k = k'"
proof -
  from assms(1) have "blockX (threadAt (y, x, k)) = blockX (threadAt (y', x', k'))"
    "blockY (threadAt (y, x, k)) = blockY (threadAt (y', x', k'))"
    "threadX (threadAt (y, x, k)) = threadX (threadAt (y', x', k'))" by (simp_all only:)
  then have w: "(word_of_nat x :: size_t) = word_of_nat x'" "(word_of_nat y :: size_t) = word_of_nat y'"
    "(word_of_nat k :: size_t) = word_of_nat k'"
    unfolding threadAt_def prod.case thread.simps by (simp_all only:)
  show ?thesis
    using word_of_nat_inj [OF w(1) assms(3,6)] word_of_nat_inj [OF w(2) assms(2,5)] word_of_nat_inj [OF w(3) assms(4,7)]
    by blast
qed


lemma set_threads:
  "set (threadsOf (gridX, gridY)) = threadAt ` ({..<unat gridY} \<times> {..<unat gridX} \<times> {..<256})"
  by (simp add: threadsOf_def atLeast0LessThan)

lemma threads_member:
  assumes "t \<in> set (threadsOf (gridX, gridY))"
  shows "\<exists>y x k. t = threadAt (y, x, k) \<and> y < unat gridY \<and> x < unat gridX \<and> k < 256"
proof -
  from assms obtain p where "p \<in> {..<unat gridY} \<times> {..<unat gridX} \<times> {..<256}" "t = threadAt p"
    unfolding set_threads by blast
  then show ?thesis by (cases p) auto
qed

lemma distinct_threads: "distinct (threadsOf (gridX, gridY))"
proof -
  have "inj_on threadAt ({0..<unat gridY} \<times> {0..<unat gridX} \<times> {0..<256})"
  proof (rule inj_onI)
    fix t u
    assume t: "t \<in> {0..<unat gridY} \<times> {0..<unat gridX} \<times> {0..<256}" and u: "u \<in> {0..<unat gridY} \<times> {0..<unat gridX} \<times> {0..<256}"
      and eq: "threadAt t = threadAt u"
    obtain y x k y' x' k' where c: "t = (y, x, k)" "u = (y', x', k')" by (cases t; cases u)
    from t u c have "y < 2 ^ 64" "x < 2 ^ 64" "k < 2 ^ 64" "y' < 2 ^ 64" "x' < 2 ^ 64" "k' < 2 ^ 64"
      using unat_lt32 [of gridX] unat_lt32 [of gridY] by simp_all
    from threadAt_inj [OF eq [unfolded c] this] c show "t = u" by simp
  qed
  then show ?thesis by (simp add: threadsOf_def distinct_map distinct_product)
qed

section \<open>Every element once\<close>

lemma layoutGrid_strides:
  assumes "layoutGrid copyBytes sliceSize chunkCount = (gridX, gridY)" and "chunkCount \<noteq> 0"
  shows "unat (gridStride gridX) = unat gridX * 256" and "0 < gridStride gridX" and "unat (gridStride gridX) \<le> 2 ^ 23"
proof -
  note b = layoutGrid_bounds [OF assms(2,1)]
  have "unat (ucast gridX * kLayoutThreads :: size_t) = unat gridX * 256"
    using b(2) by (simp add: kLayoutThreads_def unat_mult_exact unat_ucast_up)
  then show s: "unat (gridStride gridX) = unat gridX * 256" by (simp add: gridStride_def)
  with b(1,2) show "0 < gridStride gridX" "unat (gridStride gridX) \<le> 2 ^ 23" by (simp_all add: word_less_nat_alt)
qed

lemma kUnroll_bounds: "copyBytes \<in> {1, 2, 4, 8, 16} \<Longrightarrow> 0 < kUnroll copyBytes \<and> kUnroll copyBytes \<le> 128"
  by (auto simp: kUnroll_def kTargetBytesPerBlock_def kLayoutThreads_def unat_div)


text \<open>The words a strided loop visits.\<close>

lemma strided_words:
  fixes xs :: "size_t list"
  assumes "map unat xs = strided s (unat n) e" and "e < s"
  shows "set xs = {w. w < n \<and> unat w mod s = e}" and "distinct xs"
proof -
  have u: "unat ` set xs = {x. x < unat n \<and> x mod s = e}"
    using arg_cong [OF assms(1), of set] set_strided [OF assms(2), of "unat n"] by simp
  have "w \<in> set xs \<longleftrightarrow> unat w \<in> unat ` set xs" for w
    unfolding image_iff by (simp only: word_unat_eq_iff [symmetric]) blast
  then show "set xs = {w. w < n \<and> unat w mod s = e}"
    unfolding u by (simp only: set_eq_iff mem_Collect_eq word_less_nat_alt) blast
  show "distinct xs" using distinct_strided [of s "unat n" e] unfolding assms(1) [symmetric] distinct_map by blast
qed

lemma thread_fields:
  fixes gridX gridY :: "32 word"
  assumes "t = threadAt (y, x, k)" and "y < unat gridY" and "x < unat gridX" and "k < 256" and "unat gridX \<le> 32768"
  shows "unat (blockY t) = y" and "unat (firstElement t) = x * 256 + k"
proof -
  have "y < 2 ^ 64" using assms(2) unat_lt32 [of gridY] by simp
  then show "unat (blockY t) = y" using unat_word_of_nat_size [of y] by (simp add: assms(1) threadAt_def)
  have "x < 32768" using assms(3,5) by simp
  then have "unat (word_of_nat x * kLayoutThreads + word_of_nat k :: size_t) = x * 256 + k"
    using assms(4) unat_word_of_nat_size [of x] unat_word_of_nat_size [of k]
    by (simp add: kLayoutThreads_def unat_mult_exact unat_add_exact)
  then show "unat (firstElement t) = x * 256 + k" by (simp add: firstElement_def assms(1) threadAt_def)
qed

definition gridWork :: "size_t \<Rightarrow> 32 word \<times> 32 word \<Rightarrow> size_t \<Rightarrow> size_t \<Rightarrow> thread \<Rightarrow> (size_t \<times> size_t) list" where
  "gridWork copyBytes grid sliceSize chunkCount t =
     the (threadWork (kUnroll copyBytes) grid (sliceSize div copyBytes) chunkCount t)"

lemma gridWork_thread:
  assumes grid: "layoutGrid copyBytes sliceSize chunkCount = (gridX, gridY)" and width: "copyBytes \<in> {1, 2, 4, 8, 16}"
    and sizes: "chunkCount \<noteq> 0" "unat sliceSize < 2 ^ 63" "unat chunkCount < 2 ^ 63"
    and t: "t = threadAt (y, x, k)" "y < unat gridY" "x < unat gridX" "k < 256"
  shows "threadWork (kUnroll copyBytes) (gridX, gridY) (sliceSize div copyBytes) chunkCount t =
      Some (gridWork copyBytes (gridX, gridY) sliceSize chunkCount t)"
    and "distinct (gridWork copyBytes (gridX, gridY) sliceSize chunkCount t)"
    and "set (gridWork copyBytes (gridX, gridY) sliceSize chunkCount t) =
      {(chunk, e). chunk < chunkCount \<and> e < sliceSize div copyBytes \<and> unat chunk mod unat gridY = y \<and>
        unat e mod (unat gridX * 256) = x * 256 + k}"
proof -
  note b = layoutGrid_bounds [OF sizes(1) grid] and st = layoutGrid_strides [OF grid sizes(1)]
  note f = thread_fields [OF t b(2)] and un = kUnroll_bounds [OF width]
  have "unat (sliceSize div copyBytes) \<le> unat sliceSize" by (simp add: unat_div div_le_dividend)
  moreover have "kUnroll copyBytes * unat (gridStride gridX) \<le> 128 * 2 ^ 23" using un st(3) by (intro mult_le_mono) auto
  ultimately have A: "unat (sliceSize div copyBytes) + kUnroll copyBytes * unat (gridStride gridX) < 2 ^ 64" using sizes(2) by simp
  have B: "unat chunkCount + unat gridY < 2 ^ 64" using sizes(3) b(4) by simp
  obtain rows es where w: "threadWork (kUnroll copyBytes) (gridX, gridY) (sliceSize div copyBytes) chunkCount t = Some (List.product rows es)"
    "map unat rows = strided (unat gridY) (unat chunkCount) (unat (blockY t))"
    "map unat es = strided (unat (gridStride gridX)) (unat (sliceSize div copyBytes)) (unat (firstElement t))"
    using threadWork_runs [OF b(1,3) conjunct1 [OF un] A B st(2), of t] by blast
  then show "threadWork (kUnroll copyBytes) (gridX, gridY) (sliceSize div copyBytes) chunkCount t =
      Some (gridWork copyBytes (gridX, gridY) sliceSize chunkCount t)" by (simp add: gridWork_def)
  have "x * 256 + k < unat gridX * 256" using t(3,4) by linarith
  then have inS: "x * 256 + k < unat (gridStride gridX)" using st(1) by simp
  note rows = strided_words [OF w(2) [unfolded f(1)] t(2)] and es = strided_words [OF w(3) [unfolded f(2)] inS]
  from w(1) rows es st(1) show "distinct (gridWork copyBytes (gridX, gridY) sliceSize chunkCount t)"
    by (simp add: gridWork_def distinct_product)
  from w(1) rows es st(1) show "set (gridWork copyBytes (gridX, gridY) sliceSize chunkCount t) =
      {(chunk, e). chunk < chunkCount \<and> e < sliceSize div copyBytes \<and> unat chunk mod unat gridY = y \<and>
        unat e mod (unat gridX * 256) = x * 256 + k}"
    by (auto simp: gridWork_def)
qed


lemma threads_disjoint:
  assumes grid: "layoutGrid copyBytes sliceSize chunkCount = (gridX, gridY)" and width: "copyBytes \<in> {1, 2, 4, 8, 16}"
    and sizes: "chunkCount \<noteq> 0" "unat sliceSize < 2 ^ 63" "unat chunkCount < 2 ^ 63"
    and tu: "t \<in> set (threadsOf (gridX, gridY))" "u \<in> set (threadsOf (gridX, gridY))" "t \<noteq> u"
  shows "set (gridWork copyBytes (gridX, gridY) sliceSize chunkCount t) \<inter> set (gridWork copyBytes (gridX, gridY) sliceSize chunkCount u) = {}"
proof -
  obtain y x k where t: "t = threadAt (y, x, k)" "y < unat gridY" "x < unat gridX" "k < 256"
    using threads_member [OF tu(1)] by blast
  obtain y' x' k' where u: "u = threadAt (y', x', k')" "y' < unat gridY" "x' < unat gridX" "k' < 256"
    using threads_member [OF tu(2)] by blast
  have "(y, x, k) \<noteq> (y', x', k')" using tu(3) t(1) u(1) by blast
  then have "y \<noteq> y' \<or> x * 256 + k \<noteq> x' * 256 + k'" 
  proof -
    have "(x * 256 + k) div 256 = x" "(x * 256 + k) mod 256 = k" "(x' * 256 + k') div 256 = x'" "(x' * 256 + k') mod 256 = k'"
      using t(4) u(4) by simp_all
    with \<open>(y, x, k) \<noteq> (y', x', k')\<close> show ?thesis by metis
  qed
  then show ?thesis
    using gridWork_thread(3) [OF grid width sizes t] gridWork_thread(3) [OF grid width sizes u] by auto
qed

lemma threads_cover:
  assumes grid: "layoutGrid copyBytes sliceSize chunkCount = (gridX, gridY)" and width: "copyBytes \<in> {1, 2, 4, 8, 16}"
    and sizes: "chunkCount \<noteq> 0" "unat sliceSize < 2 ^ 63" "unat chunkCount < 2 ^ 63"
  shows "set (concat (map (gridWork copyBytes (gridX, gridY) sliceSize chunkCount) (threadsOf (gridX, gridY)))) =
    {chunk. chunk < chunkCount} \<times> {e. e < sliceSize div copyBytes}"
proof -
  note b = layoutGrid_bounds [OF sizes(1) grid] and thread = gridWork_thread(3) [OF grid width sizes]
  have sound: "p \<in> {chunk. chunk < chunkCount} \<times> {e. e < sliceSize div copyBytes}"
    if "t \<in> set (threadsOf (gridX, gridY))" "p \<in> set (gridWork copyBytes (gridX, gridY) sliceSize chunkCount t)" for t p
  proof -
    note mem = that(1)
    obtain y x k where t: "t = threadAt (y, x, k)" "y < unat gridY" "x < unat gridX" "k < 256"
      using threads_member [OF mem] by blast
    with that(2) thread [OF t] show ?thesis by auto
  qed
  have "\<exists>t \<in> set (threadsOf (gridX, gridY)). (chunk, e) \<in> set (gridWork copyBytes (gridX, gridY) sliceSize chunkCount t)"
    if "chunk < chunkCount" "e < sliceSize div copyBytes" for chunk e
  proof -
    let ?r = "unat e mod (unat gridX * 256)"
    have pos: "0 < unat gridY" "0 < unat gridX" using b(1,3) by (simp_all add: word_less_nat_alt)
    then have "?r < unat gridX * 256" by simp
    then have k: "?r div 256 < unat gridX" "?r mod 256 < 256" by (simp_all add: less_mult_imp_div_less)
    let ?t = "threadAt (unat chunk mod unat gridY, ?r div 256, ?r mod 256)"
    have y: "unat chunk mod unat gridY < unat gridY" using pos(1) by simp
    have "?t \<in> set (threadsOf (gridX, gridY))" using y k by (simp add: set_threads)
    moreover have "(chunk, e) \<in> set (gridWork copyBytes (gridX, gridY) sliceSize chunkCount ?t)"
      using thread [OF refl y k] that by simp
    ultimately show ?thesis by blast
  qed
  note complete = this
  show ?thesis
  proof (rule subset_antisym)
    show "set (concat (map (gridWork copyBytes (gridX, gridY) sliceSize chunkCount) (threadsOf (gridX, gridY))))
        \<subseteq> {chunk. chunk < chunkCount} \<times> {e. e < sliceSize div copyBytes}"
      unfolding set_concat set_map using sound by blast
    show "{chunk. chunk < chunkCount} \<times> {e. e < sliceSize div copyBytes} \<subseteq>
        set (concat (map (gridWork copyBytes (gridX, gridY) sliceSize chunkCount) (threadsOf (gridX, gridY))))"
    proof (rule subsetI, elim SigmaE)
      fix p chunk e
      assume "chunk \<in> {chunk. chunk < chunkCount}" "e \<in> {e. e < sliceSize div copyBytes}" "p = (chunk, e)"
      with complete [of chunk e] show "p \<in> set (concat (map (gridWork copyBytes (gridX, gridY) sliceSize chunkCount) (threadsOf (gridX, gridY))))"
        by (simp only: mem_Collect_eq set_concat set_map) blast
    qed
  qed
qed

lemma layout_work:
  assumes grid: "layoutGrid copyBytes sliceSize chunkCount = grid" and width: "copyBytes \<in> {1, 2, 4, 8, 16}"
    and sizes: "chunkCount \<noteq> 0" "unat sliceSize < 2 ^ 63" "unat chunkCount < 2 ^ 63"
  shows "\<exists>work.
    (\<forall>t \<in> set (threadsOf grid).
      packSliceKernel copyBytes swizzle grid t source pitch destination sliceSize chunkCount nodes perNode =
        Some (map (\<lambda>(chunk, e). (destination + swizzledChunk swizzle nodes perNode chunk * sliceSize + e * copyBytes,
          source + chunk * pitch + e * copyBytes)) (work t)) \<and>
      unpackSliceKernel copyBytes grid t source destination pitch sliceSize chunkCount =
        Some (map (\<lambda>(chunk, e). (destination + chunk * pitch + e * copyBytes,
          source + chunk * sliceSize + e * copyBytes)) (work t))) \<and>
    distinct (concat (map work (threadsOf grid))) \<and>
    set (concat (map work (threadsOf grid))) = {chunk. chunk < chunkCount} \<times> {e. e < sliceSize div copyBytes}"
proof -
  obtain gridX gridY where g: "grid = (gridX, gridY)" by (cases grid)
  note grid' = grid [unfolded g]
  note b = layoutGrid_bounds [OF sizes(1) grid']
  let ?work = "gridWork copyBytes grid sliceSize chunkCount"
  have member: "\<exists>y x k. t = threadAt (y, x, k) \<and> y < unat gridY \<and> x < unat gridX \<and> k < 256" if "t \<in> set (threadsOf grid)" for t
    using threads_member that unfolding g by blast
  note thread = gridWork_thread [OF grid' width sizes, folded g]
  show ?thesis
  proof (intro exI [of _ ?work] conjI ballI)
    fix t assume "t \<in> set (threadsOf grid)"
    then have "threadWork (kUnroll copyBytes) grid (sliceSize div copyBytes) chunkCount t = Some (?work t)"
      using member thread(1) by blast
    then show "packSliceKernel copyBytes swizzle grid t source pitch destination sliceSize chunkCount nodes perNode =
        Some (map (\<lambda>(chunk, e). (destination + swizzledChunk swizzle nodes perNode chunk * sliceSize + e * copyBytes,
          source + chunk * pitch + e * copyBytes)) (?work t))"
      and "unpackSliceKernel copyBytes grid t source destination pitch sliceSize chunkCount =
        Some (map (\<lambda>(chunk, e). (destination + chunk * pitch + e * copyBytes,
          source + chunk * sliceSize + e * copyBytes)) (?work t))"
      by (simp_all only: packSliceKernel_work unpackSliceKernel_work option.map)
  next
    show "distinct (concat (map ?work (threadsOf grid)))"
    proof (rule distinct_concat_map)
      show "distinct (threadsOf grid)" unfolding g by (rule distinct_threads)
      show "distinct (?work t)" if "t \<in> set (threadsOf grid)" for t using member [OF that] thread(2) by blast
      show "set (?work t) \<inter> set (?work u) = {}" if "t \<in> set (threadsOf grid)" "u \<in> set (threadsOf grid)" "t \<noteq> u" for t u
        by (rule threads_disjoint [OF grid' width sizes, folded g, OF that])
    qed
    show "set (concat (map ?work (threadsOf grid))) = {chunk. chunk < chunkCount} \<times> {e. e < sliceSize div copyBytes}"
      by (rule threads_cover [OF grid' width sizes, folded g])
  qed
qed


text \<open>
  C35: the layout kernels end and copy everything once. For every slice that is launched, each thread of
  the grid leaves its loops, the index never wraps around, and the threads together copy each element
  of each chunk exactly once, from and to the addresses of that chunk.
\<close>

theorem layout_kernels_cover:
  assumes "layoutGrid copyBytes sliceSize chunkCount = grid" and "copyBytes \<in> {1, 2, 4, 8, 16}"
    and "chunkCount \<noteq> 0" "unat sliceSize < 2 ^ 63" "unat chunkCount < 2 ^ 63"
  shows "\<exists>work.
    (\<forall>t \<in> set (threadsOf grid).
      packSliceKernel copyBytes swizzle grid t source pitch destination sliceSize chunkCount nodes perNode =
        Some (map (\<lambda>(chunk, e). (destination + swizzledChunk swizzle nodes perNode chunk * sliceSize + e * copyBytes,
          source + chunk * pitch + e * copyBytes)) (work t)) \<and>
      unpackSliceKernel copyBytes grid t source destination pitch sliceSize chunkCount =
        Some (map (\<lambda>(chunk, e). (destination + chunk * pitch + e * copyBytes,
          source + chunk * sliceSize + e * copyBytes)) (work t))) \<and>
    distinct (concat (map work (threadsOf grid))) \<and>
    set (concat (map work (threadsOf grid))) = {chunk. chunk < chunkCount} \<times> {e. e < sliceSize div copyBytes}"
  by (rule layout_work [OF assms])

theorem layout_kernels_cover_witness:
  "\<exists>work.
    (\<forall>t \<in> set (threadsOf (layoutGrid 16 4096 6)).
      packSliceKernel 16 True (layoutGrid 16 4096 6) t 65536 8192 1048576 4096 6 3 2 =
        Some (map (\<lambda>(chunk, e). (1048576 + swizzledChunk True 3 2 chunk * 4096 + e * 16, 65536 + chunk * 8192 + e * 16)) (work t)) \<and>
      unpackSliceKernel 16 (layoutGrid 16 4096 6) t 65536 1048576 8192 4096 6 =
        Some (map (\<lambda>(chunk, e). (1048576 + chunk * 8192 + e * 16, 65536 + chunk * 4096 + e * 16)) (work t))) \<and>
    distinct (concat (map work (threadsOf (layoutGrid 16 4096 6)))) \<and>
    set (concat (map work (threadsOf (layoutGrid 16 4096 6)))) = {chunk. chunk < 6} \<times> {e. e < 4096 div 16}"
  by (rule layout_kernels_cover [OF refl]) simp_all

section \<open>What the copies do to memory\<close>

type_synonym memory = "ptr \<Rightarrow> 8 word"

text \<open>One copy of \<open>width\<close> bytes: the bytes at the distance \<open>a - destination < width\<close> are replaced.\<close>

definition copyOne :: "size_t \<Rightarrow> ptr \<times> ptr \<Rightarrow> memory \<Rightarrow> memory" where
  "copyOne width = (\<lambda>(destination, source) m a. if a - destination < width then m (source + (a - destination)) else m a)"

definition copyAll :: "size_t \<Rightarrow> (ptr \<times> ptr) list \<Rightarrow> memory \<Rightarrow> memory" where
  "copyAll width cs = fold (copyOne width) cs"

text \<open>Copies that do not disturb each other: no destination byte belongs to two copies, and none is a source byte.\<close>

definition independent :: "size_t \<Rightarrow> (ptr \<times> ptr) set \<Rightarrow> bool" where
  "independent width C \<longleftrightarrow>
     (\<forall>d s d' s' i. (d, s) \<in> C \<and> (d', s') \<in> C \<and> i < width \<longrightarrow>
        ((d, s) \<noteq> (d', s') \<longrightarrow> \<not> d + i - d' < width) \<and> \<not> s + i - d' < width)"

lemma independentD:
  assumes "independent width C" and "(d, s) \<in> C" and "(d', s') \<in> C" and "i < width"
  shows "(d, s) \<noteq> (d', s') \<Longrightarrow> \<not> d + i - d' < width" and "\<not> s + i - d' < width"
  using assms unfolding independent_def by blast+

lemma independent_subset: "independent width C \<Longrightarrow> D \<subseteq> C \<Longrightarrow> independent width D"
  unfolding independent_def by blast

lemma copyAll_simps [simp]:
  "copyAll width [] m = m" "copyAll width (c # cs) m = copyAll width cs (copyOne width c m)"
  by (simp_all add: copyAll_def)

lemma copyOne_pair: "copyOne width (d, s) m a = (if a - d < width then m (s + (a - d)) else m a)"
  by (simp add: copyOne_def)

lemma in_row: "r < n \<Longrightarrow> b < p \<Longrightarrow> r * p + b < n * (p :: nat)"
  by (metis Suc_leI add.commute less_le_trans mult_Suc mult_le_mono1 nat_add_left_cancel_less)

lemma copyAll_elsewhere:
  "(\<And>d s. (d, s) \<in> set cs \<Longrightarrow> \<not> a - d < width) \<Longrightarrow> copyAll width cs m a = m a"
proof (induction cs arbitrary: m)
  case Nil
  then show ?case by simp
next
  case (Cons c cs)
  obtain d s where c: "c = (d, s)" by (cases c)
  with Cons.prems [of d s] have "copyOne width c m a = m a" by (simp add: copyOne_pair)
  with Cons.IH [of "copyOne width c m"] Cons.prems show ?case by (metis copyAll_simps(2) list.set_intros(2))
qed

lemma copyAll_copies:
  assumes "independent width (set cs)" and "distinct cs" and "(d, s) \<in> set cs" and "i < width"
  shows "copyAll width cs m (d + i) = m (s + i)"
  using assms
proof (induction cs arbitrary: m)
  case Nil
  then show ?case by simp
next
  case (Cons c cs)
  obtain d1 s1 where c: "c = (d1, s1)" by (cases c)
  have ind: "independent width (set cs)" by (rule independent_subset [OF Cons.prems(1)]) auto
  show ?case
  proof (cases "(d, s) = c")
    case True
    have "\<not> d + i - d' < width" if "(d', s') \<in> set cs" for d' s'
    proof (rule independentD(1) [OF Cons.prems(1,3) _ Cons.prems(4)])
      show "(d', s') \<in> set (c # cs)" using that by simp
      show "(d, s) \<noteq> (d', s')" using that Cons.prems(2) True by auto
    qed
    then have "copyAll width cs (copyOne width c m) (d + i) = copyOne width c m (d + i)" by (rule copyAll_elsewhere)
    moreover have "copyOne width c m (d + i) = m (s + i)" using True Cons.prems(4) by (auto simp: copyOne_pair)
    ultimately show ?thesis by simp
  next
    case False
    with Cons.prems(3) have mem: "(d, s) \<in> set cs" by simp
    have "\<not> s + i - d1 < width"
      using independentD(2) [OF Cons.prems(1,3) _ Cons.prems(4), of d1 s1] c by simp
    then have "copyOne width c m (s + i) = m (s + i)" by (simp add: c copyOne_pair)
    with Cons.IH [OF ind _ mem Cons.prems(4), of "copyOne width c m"] Cons.prems(2) show ?thesis by simp
  qed
qed

text \<open>Rows of a matrix: a chunk of \<open>sliceSize\<close> bytes every \<open>pitch\<close> bytes.\<close>

lemma row_address:
  fixes base rows pitch row sliceSize b :: "64 word"
  assumes "unat base + unat rows * unat pitch < 2 ^ 64" and "row < rows" and "sliceSize \<le> pitch" and "b < sliceSize"
  shows "unat (base + row * pitch + b) = unat base + unat row * unat pitch + unat b"
proof -
  have "unat row < unat rows" "unat b < unat pitch" using assms(2-4) by (auto simp: word_less_nat_alt word_le_nat_alt)
  then have "unat row * unat pitch + unat b < unat rows * unat pitch" by (rule in_row)
  then have sum: "unat base + unat row * unat pitch + unat b < 2 ^ 64" using assms(1) by linarith
  then have m: "unat (row * pitch) = unat row * unat pitch" by (intro unat_mult_exact) linarith
  with sum have "unat (base + row * pitch) = unat base + unat row * unat pitch" by (subst unat_add_exact) simp_all
  with sum show ?thesis by (subst unat_add_exact) simp_all
qed

lemma element_offset:
  fixes width n sliceSize e i :: "64 word"
  assumes "unat width * unat n = unat sliceSize" and "e < n" and "i < width"
  shows "unat (e * width + i) = unat e * unat width + unat i" and "e * width + i < sliceSize"
proof -
  have "unat e * unat width + unat i < unat n * unat width"
    using assms(2,3) by (intro in_row) (simp_all add: word_less_nat_alt)
  then have lt: "unat e * unat width + unat i < unat sliceSize" using assms(1) by (simp add: mult.commute)
  then have sum: "unat e * unat width + unat i < 2 ^ 64" using unat_lt_2p64 [of sliceSize] by linarith
  then have "unat (e * width) = unat e * unat width" by (intro unat_mult_exact) linarith
  with sum show u: "unat (e * width + i) = unat e * unat width + unat i" by (subst unat_add_exact) simp_all
  with lt show "e * width + i < sliceSize" by (simp add: word_less_nat_alt)
qed

text \<open>The copies of a slice: element \<open>e\<close> of chunk \<open>c\<close> goes to chunk \<open>\<sigma> c\<close> of the destination.\<close>

definition sliceCopy ::
  "ptr \<Rightarrow> size_t \<Rightarrow> ptr \<Rightarrow> size_t \<Rightarrow> size_t \<Rightarrow> (size_t \<Rightarrow> size_t) \<Rightarrow> size_t \<times> size_t \<Rightarrow> ptr \<times> ptr" where
  "sliceCopy destination destinationPitch source sourcePitch width \<sigma> = (\<lambda>(c, e).
     (destination + \<sigma> c * destinationPitch + e * width, source + c * sourcePitch + e * width))"

text \<open>Two matrices of \<open>rows\<close> chunks that neither wrap around nor meet.\<close>

definition separate_matrices :: "size_t \<Rightarrow> size_t \<Rightarrow> ptr \<Rightarrow> size_t \<Rightarrow> ptr \<Rightarrow> size_t \<Rightarrow> bool" where
  "separate_matrices rows sliceSize destination destinationPitch source sourcePitch \<longleftrightarrow>
     sliceSize \<le> destinationPitch \<and> sliceSize \<le> sourcePitch \<and>
     unat destination + unat rows * unat destinationPitch < 2 ^ 64 \<and> unat source + unat rows * unat sourcePitch < 2 ^ 64 \<and>
     disjoint_ranges (unat destination) (unat rows * unat destinationPitch) (unat source) (unat rows * unat sourcePitch)"

lemma sliceCopy_byte:
  assumes sep: "separate_matrices rows sliceSize dst dp src sp" and w: "unat width * unat n = unat sliceSize"
    and \<sigma>: "\<forall>c. c < rows \<longrightarrow> \<sigma> c < rows" and p: "c < rows" "e < n" "i < width"
  shows "unat (fst (sliceCopy dst dp src sp width \<sigma> (c, e)) + i) = unat dst + unat (\<sigma> c) * unat dp + (unat e * unat width + unat i)"
    and "unat (snd (sliceCopy dst dp src sp width \<sigma> (c, e)) + i) = unat src + unat c * unat sp + (unat e * unat width + unat i)"
    and "unat e * unat width + unat i < unat sliceSize"
proof -
  note o = element_offset [OF w p(2,3)]
  from sep have s: "sliceSize \<le> dp" "sliceSize \<le> sp" "unat dst + unat rows * unat dp < 2 ^ 64" "unat src + unat rows * unat sp < 2 ^ 64"
    by (simp_all add: separate_matrices_def)
  show "unat (fst (sliceCopy dst dp src sp width \<sigma> (c, e)) + i) = unat dst + unat (\<sigma> c) * unat dp + (unat e * unat width + unat i)"
    using row_address [OF s(3) mp [OF spec [OF \<sigma>] p(1)] s(1) o(2)] o(1) by (simp add: sliceCopy_def add.assoc)
  show "unat (snd (sliceCopy dst dp src sp width \<sigma> (c, e)) + i) = unat src + unat c * unat sp + (unat e * unat width + unat i)"
    using row_address [OF s(4) p(1) s(2) o(2)] o(1) by (simp add: sliceCopy_def add.assoc)
  show "unat e * unat width + unat i < unat sliceSize" using o by (simp add: word_less_nat_alt)
qed


lemma row_unique:
  assumes "a * p + b = a' * p + (b' :: nat)" and "b < p" and "b' < p"
  shows "a = a' \<and> b = b'"
proof -
  have "(a * p + b) div p = a" "(a * p + b) mod p = b" "(a' * p + b') div p = a'" "(a' * p + b') mod p = b'"
    using assms(2,3) by simp_all
  with assms(1) show ?thesis by metis
qed

text \<open>No two copies share a destination byte, and no copy overwrites what another reads.\<close>

lemma sliceCopy_destinations:
  assumes sep: "separate_matrices rows sliceSize dst dp src sp" and w: "unat width * unat n = unat sliceSize"
    and \<sigma>: "\<forall>c. c < rows \<longrightarrow> \<sigma> c < rows" and inj: "inj_on \<sigma> {c. c < rows}"
    and p: "c < rows" "e < n" "i < width" and q: "c' < rows" "e' < n" "j < width"
    and eq: "fst (sliceCopy dst dp src sp width \<sigma> (c, e)) + i = fst (sliceCopy dst dp src sp width \<sigma> (c', e')) + j"
  shows "c = c' \<and> e = e'"
proof -
  note P = sliceCopy_byte [where \<sigma> = \<sigma>, OF sep w \<sigma> p] and Q = sliceCopy_byte [where \<sigma> = \<sigma>, OF sep w \<sigma> q]
  have "unat sliceSize \<le> unat dp" using sep by (simp add: separate_matrices_def word_le_nat_alt)
  with P(3) Q(3) have lt: "unat e * unat width + unat i < unat dp" "unat e' * unat width + unat j < unat dp" by linarith+
  from arg_cong [OF eq, of unat] have "unat (\<sigma> c) * unat dp + (unat e * unat width + unat i) =
      unat (\<sigma> c') * unat dp + (unat e' * unat width + unat j)"
    unfolding P(1) Q(1) by simp
  note r = row_unique [OF this lt]
  then have "c = c'" using inj p(1) q(1) by (auto dest: inj_onD simp: word_unat_eq_iff [symmetric])
  moreover have "unat e = unat e'"
    using row_unique [of "unat e" "unat width" "unat i" "unat e'" "unat j"] r p(3) q(3) by (simp add: word_less_nat_alt)
  ultimately show ?thesis by (simp add: word_unat_eq_iff)
qed

lemma sliceCopy_sources:
  assumes sep: "separate_matrices rows sliceSize dst dp src sp" and w: "unat width * unat n = unat sliceSize"
    and \<sigma>: "\<forall>c. c < rows \<longrightarrow> \<sigma> c < rows"
    and p: "c < rows" "e < n" "i < width" and q: "c' < rows" "e' < n" "j < width"
  shows "snd (sliceCopy dst dp src sp width \<sigma> (c, e)) + i \<noteq> fst (sliceCopy dst dp src sp width \<sigma> (c', e')) + j"
proof
  assume eq: "snd (sliceCopy dst dp src sp width \<sigma> (c, e)) + i = fst (sliceCopy dst dp src sp width \<sigma> (c', e')) + j"
  note P = sliceCopy_byte [where \<sigma> = \<sigma>, OF sep w \<sigma> p] and Q = sliceCopy_byte [where \<sigma> = \<sigma>, OF sep w \<sigma> q]
  from sep have s: "unat sliceSize \<le> unat dp" "unat sliceSize \<le> unat sp"
    "disjoint_ranges (unat dst) (unat rows * unat dp) (unat src) (unat rows * unat sp)"
    by (simp_all add: separate_matrices_def word_le_nat_alt)
  have "unat c * unat sp + (unat e * unat width + unat i) < unat rows * unat sp"
    using p(1) P(3) s(2) by (intro in_row) (simp_all add: word_less_nat_alt)
  moreover have "unat (\<sigma> c') * unat dp + (unat e' * unat width + unat j) < unat rows * unat dp"
    using mp [OF spec [OF \<sigma>] q(1)] Q(3) s(1) by (intro in_row) (simp_all add: word_less_nat_alt)
  moreover from arg_cong [OF eq, of unat] have "unat src + unat c * unat sp + (unat e * unat width + unat i) =
      unat dst + unat (\<sigma> c') * unat dp + (unat e' * unat width + unat j)" unfolding P(2) Q(1) .
  ultimately show False using s(3) unfolding disjoint_ranges_def by linarith
qed

lemma sliceCopies_independent:
  assumes sep: "separate_matrices rows sliceSize dst dp src sp" and w: "unat width * unat n = unat sliceSize"
    and \<sigma>: "\<forall>c. c < rows \<longrightarrow> \<sigma> c < rows" and inj: "inj_on \<sigma> {c. c < rows}"
  shows "independent width (sliceCopy dst dp src sp width \<sigma> ` ({c. c < rows} \<times> {e. e < n}))"
    and "0 < width \<Longrightarrow> inj_on (sliceCopy dst dp src sp width \<sigma>) ({c. c < rows} \<times> {e. e < n})"
proof -
  let ?f = "sliceCopy dst dp src sp width \<sigma>"
  show "independent width (?f ` ({c. c < rows} \<times> {e. e < n}))"
    unfolding independent_def
  proof (intro allI impI)
    fix d s d' s' i
    assume a: "(d, s) \<in> ?f ` ({c. c < rows} \<times> {e. e < n}) \<and> (d', s') \<in> ?f ` ({c. c < rows} \<times> {e. e < n}) \<and> i < width"
    then obtain c e c' e' where p: "c < rows" "e < n" "?f (c, e) = (d, s)" and q: "c' < rows" "e' < n" "?f (c', e') = (d', s')"
      by auto
    have i: "i < width" using a by blast
    let ?j = "d + i - d'" and ?k = "s + i - d'"
    have "\<not> ?j < width" if "(d, s) \<noteq> (d', s')"
    proof
      assume "?j < width"
      from sliceCopy_destinations [OF sep w \<sigma> inj p(1,2) i q(1,2) this] p(3) q(3) have "c = c' \<and> e = e'" by simp
      with p(3) q(3) that show False by simp
    qed
    moreover have "\<not> ?k < width"
      using sliceCopy_sources [where \<sigma> = \<sigma>, OF sep w \<sigma> p(1,2) i q(1,2), of ?k] p(3) q(3) by auto
    ultimately show "((d, s) \<noteq> (d', s') \<longrightarrow> \<not> d + i - d' < width) \<and> \<not> s + i - d' < width" by blast
  qed
  show "inj_on ?f ({c. c < rows} \<times> {e. e < n})" if "0 < width"
  proof (rule inj_onI)
    fix t u
    assume "t \<in> {c. c < rows} \<times> {e. e < n}" "u \<in> {c. c < rows} \<times> {e. e < n}" and eq: "?f t = ?f u"
    then obtain c e c' e' where p: "c < rows" "e < n" "t = (c, e)" and q: "c' < rows" "e' < n" "u = (c', e')" by auto
    from sliceCopy_destinations [OF sep w \<sigma> inj p(1,2) that q(1,2) that] eq p(3) q(3) show "t = u" by simp
  qed
qed

text \<open>Whatever order the threads run in, a slice is copied chunk by chunk.\<close>

lemma sliceCopies_effect:
  assumes sep: "separate_matrices rows sliceSize dst dp src sp" and w: "unat width * unat n = unat sliceSize" and pos: "0 < width"
    and \<sigma>: "\<forall>c. c < rows \<longrightarrow> \<sigma> c < rows" and inj: "inj_on \<sigma> {c. c < rows}"
    and cs: "mset cs = mset (map (sliceCopy dst dp src sp width \<sigma>) work)"
    and work: "distinct work" "set work = {c. c < rows} \<times> {e. e < n}"
    and byte: "c < rows" "b < sliceSize"
  shows "copyAll width cs m (dst + \<sigma> c * dp + b) = m (src + c * sp + b)"
proof -
  let ?f = "sliceCopy dst dp src sp width \<sigma>"
  note ind = sliceCopies_independent [OF sep w \<sigma> inj]
  have set: "set cs = ?f ` ({c. c < rows} \<times> {e. e < n})" using mset_eq_setD [OF cs] work(2) by simp
  have "distinct (map ?f work)" using ind(2) [OF pos] work by (simp add: distinct_map)
  with cs have dist: "distinct cs" by (metis mset_eq_imp_distinct_iff)
  let ?e = "b div width" and ?i = "b mod width"
  have "unat ?e < unat n"
    using byte(2) w pos by (simp add: unat_div word_less_nat_alt less_mult_imp_div_less mult.commute)
  then have e: "?e < n" by (simp add: word_less_nat_alt)
  have i: "?i < width" using pos by (simp add: word_less_nat_alt unat_mod)
  have b: "?e * width + ?i = b" by (rule div_mult_mod_eq)
  have "?f (c, ?e) \<in> set cs" unfolding set using byte(1) e by blast
  then have "copyAll width cs m (fst (?f (c, ?e)) + ?i) = m (snd (?f (c, ?e)) + ?i)"
    using copyAll_copies [OF _ dist _ i, of "fst (?f (c, ?e))" "snd (?f (c, ?e))" m] ind(1) set by simp
  then show ?thesis by (simp add: sliceCopy_def add.assoc b)
qed


lemma or_and_zero: "(a OR b) AND m = 0 \<Longrightarrow> a AND m = 0 \<and> b AND m = 0" for a b m :: "64 word"
  by (simp only: bit.conj_disj_distrib2 or_eq_0_iff)

lemma aligned_dvd:
  assumes "x AND mask k = 0"
  shows "unat (x :: 64 word) mod 2 ^ k = 0"
proof -
  have "take_bit k x = 0" using assms by (simp only: take_bit_eq_mask)
  moreover have "take_bit k (unat x) = unat (take_bit k x)" by (simp only: unsigned_take_bit_eq)
  ultimately have "take_bit k (unat x) = 0" by (simp only: unsigned_0)
  then show ?thesis by (simp only: take_bit_eq_mod)
qed

text \<open>The vector width divides a slice evenly.\<close>

lemma layoutVectorBytes_width:
  assumes "w = copyTypeBytes (layoutVectorBytes source sourcePitch destination destinationPitch sliceSize)"
  shows "w \<in> {1, 2, 4, 8, 16}" and "unat w * unat (sliceSize div w) = unat sliceSize" and "0 < w"
proof -
  have masks: "(15 :: 64 word) = mask 4" "(7 :: 64 word) = mask 3" "(3 :: 64 word) = mask 2" "(1 :: 64 word) = mask 1"
    by (simp_all add: mask_eq_exp_minus_1)
  let ?a = "source OR destination OR sourcePitch OR destinationPitch OR sliceSize"
  have slc: "unat sliceSize mod 2 ^ k = 0" if "?a AND mask k = 0" for k
    using or_and_zero [of "source OR destination OR sourcePitch OR destinationPitch" sliceSize "mask k"] that aligned_dvd
    by (simp add: or.assoc)
  consider "w = 16" "?a AND mask 4 = 0" | "w = 8" "?a AND mask 3 = 0" | "w = 4" "?a AND mask 2 = 0" | "w = 2" "?a AND mask 1 = 0" | "w = 1"
    using assms unfolding layoutVectorBytes_def copyTypeBytes_def Let_def masks [symmetric] by (auto split: if_splits)
  then have "w \<in> {1, 2, 4, 8, 16} \<and> unat sliceSize mod unat w = 0"
    using slc [of 4] slc [of 3] slc [of 2] slc [of 1] by cases simp_all
  then show "w \<in> {1, 2, 4, 8, 16}" "unat w * unat (sliceSize div w) = unat sliceSize" "0 < w"
    by (auto simp: unat_div)
qed


text \<open>The permutation of the chunks: \<open>perNode\<close> chunks for each of \<open>nodes\<close> nodes become \<open>nodes\<close> chunks for each local rank.\<close>

definition swizzle_ok :: "bool \<Rightarrow> int \<Rightarrow> int \<Rightarrow> size_t \<Rightarrow> bool" where
  "swizzle_ok swizzle nodes perNode rows \<longleftrightarrow>
     swizzle \<longrightarrow> 0 < nodes \<and> nodes < 2 ^ 31 \<and> 0 < perNode \<and> perNode < 2 ^ 31 \<and> unat rows = nat nodes * nat perNode"

lemma swizzledChunk_nat:
  assumes "swizzle_ok True nodes perNode rows" and "c < rows"
  shows "unat (swizzledChunk True nodes perNode c) = unat c mod nat perNode * nat nodes + unat c div nat perNode"
    and "unat c div nat perNode < nat nodes" and "unat c mod nat perNode < nat perNode"
proof -
  from assms(1) have p: "0 < nodes" "nodes < 2 ^ 31" "0 < perNode" "perNode < 2 ^ 31" "unat rows = nat nodes * nat perNode"
    by (simp_all add: swizzle_ok_def)
  show d: "unat c div nat perNode < nat nodes"
    using assms(2) p(5) by (intro less_mult_imp_div_less) (simp add: word_less_nat_alt)
  show m: "unat c mod nat perNode < nat perNode" using p(3) by simp
  have u: "unat (size_of_int nodes) = nat nodes" "unat (size_of_int perNode) = nat perNode"
    using p(1-4) by (auto intro!: unat_size_of_int)
  have "unat c mod nat perNode * nat nodes + unat c div nat perNode < nat perNode * nat nodes" by (rule in_row [OF m d])
  then have lt: "unat c mod nat perNode * nat nodes + unat c div nat perNode < 2 ^ 64"
    using p(5) unat_lt_2p64 [of rows] by (simp add: mult.commute)
  then have "unat (c mod size_of_int perNode * size_of_int nodes) = unat c mod nat perNode * nat nodes"
    by (subst unat_mult_exact) (simp_all add: unat_mod u)
  with lt show "unat (swizzledChunk True nodes perNode c) = unat c mod nat perNode * nat nodes + unat c div nat perNode"
    by (simp add: swizzledChunk_def unat_add_exact unat_div u)
qed

lemma swizzledChunk_permutes:
  assumes "swizzle_ok swizzle nodes perNode rows"
  shows "\<forall>c. c < rows \<longrightarrow> swizzledChunk swizzle nodes perNode c < rows"
    and "inj_on (swizzledChunk swizzle nodes perNode) {c. c < rows}"
proof -
  have "(\<forall>c. c < rows \<longrightarrow> swizzledChunk swizzle nodes perNode c < rows) \<and> inj_on (swizzledChunk swizzle nodes perNode) {c. c < rows}"
  proof (cases swizzle)
    case False
    then show ?thesis by (auto simp: swizzledChunk_def inj_on_def)
  next
    case True
    with assms have ok: "swizzle_ok True nodes perNode rows" by simp
    note nat = swizzledChunk_nat [OF ok]
    have rows: "unat rows = nat perNode * nat nodes" using ok by (simp add: swizzle_ok_def mult.commute)
    have "swizzledChunk True nodes perNode c < rows" if "c < rows" for c
      using in_row [OF nat(3) [OF that] nat(2) [OF that]] nat(1) [OF that] rows by (simp add: word_less_nat_alt)
    moreover have "c = c'" if "c < rows" "c' < rows" "swizzledChunk True nodes perNode c = swizzledChunk True nodes perNode c'" for c c'
    proof -
      from arg_cong [OF that(3), of unat] row_unique [OF _ nat(2) [OF that(1)] nat(2) [OF that(2)]]
      have "unat c mod nat perNode = unat c' mod nat perNode \<and> unat c div nat perNode = unat c' div nat perNode"
        by (simp only: nat(1) [OF that(1)] nat(1) [OF that(2)])
      then have "unat c = unat c'" by (metis div_mult_mod_eq)
      then show ?thesis by (simp add: word_unat_eq_iff)
    qed
    ultimately show ?thesis using True by (auto intro: inj_onI)
  qed
  then show "\<forall>c. c < rows \<longrightarrow> swizzledChunk swizzle nodes perNode c < rows"
    "inj_on (swizzledChunk swizzle nodes perNode) {c. c < rows}" by blast+
qed

text \<open>A run of a kernel: the copies of all threads, in any order.\<close>

definition gridRun :: "(thread \<Rightarrow> (ptr \<times> ptr) list option) \<Rightarrow> 32 word \<times> 32 word \<Rightarrow> (ptr \<times> ptr) list \<Rightarrow> bool" where
  "gridRun body grid cs \<longleftrightarrow> (\<exists>issued. (\<forall>t \<in> set (threadsOf grid). body t = Some (issued t)) \<and>
     mset cs = mset (concat (map issued (threadsOf grid))))"


lemma gridRun_exists: "\<forall>t \<in> set (threadsOf grid). body t = Some (issued t) \<Longrightarrow> \<exists>cs. gridRun body grid cs"
  unfolding gridRun_def
  by (rule exI [of _ "concat (map issued (threadsOf grid))"], rule exI [of _ issued]) simp

lemma gridRun_work:
  assumes "gridRun body grid cs" and "\<And>t. t \<in> set (threadsOf grid) \<Longrightarrow> body t = Some (map f (work t))"
  shows "mset cs = mset (map f (concat (map work (threadsOf grid))))"
proof -
  obtain issued where i: "\<forall>t \<in> set (threadsOf grid). body t = Some (issued t)" "mset cs = mset (concat (map issued (threadsOf grid)))"
    using assms(1) unfolding gridRun_def by blast
  have "issued t = map f (work t)" if "t \<in> set (threadsOf grid)" for t using i(1) assms(2) [OF that] that by auto
  then have "map issued (threadsOf grid) = map (map f \<circ> work) (threadsOf grid)" by simp
  with i(2) show ?thesis by (simp add: map_concat)
qed

text \<open>Each kernel, for the width and the grid its launcher computes.\<close>

lemma pack_run_effect:
  assumes w: "w = copyTypeBytes (layoutVectorBytes source pitch staging sliceSize sliceSize)"
    and run: "gridRun (\<lambda>t. packSliceKernel w swizzle (layoutGrid w sliceSize rows) t source pitch staging sliceSize rows nodes perNode)
      (layoutGrid w sliceSize rows) cs"
    and sep: "separate_matrices rows sliceSize staging sliceSize source pitch" and sw: "swizzle_ok swizzle nodes perNode rows"
    and sizes: "rows \<noteq> 0" "unat sliceSize < 2 ^ 63" "unat rows < 2 ^ 63" and byte: "c < rows" "b < sliceSize"
  shows "copyAll w cs m (staging + swizzledChunk swizzle nodes perNode c * sliceSize + b) = m (source + c * pitch + b)"
proof -
  note width = layoutVectorBytes_width [OF w] and perm = swizzledChunk_permutes [OF sw]
  let ?f = "sliceCopy staging sliceSize source pitch w (swizzledChunk swizzle nodes perNode)"
  obtain work where work: "\<forall>t \<in> set (threadsOf (layoutGrid w sliceSize rows)).
      packSliceKernel w swizzle (layoutGrid w sliceSize rows) t source pitch staging sliceSize rows nodes perNode = Some (map ?f (work t))"
    "distinct (concat (map work (threadsOf (layoutGrid w sliceSize rows))))"
    "set (concat (map work (threadsOf (layoutGrid w sliceSize rows)))) = {c. c < rows} \<times> {e. e < sliceSize div w}"
    using layout_work [OF refl width(1) sizes, of swizzle source pitch staging nodes perNode] unfolding sliceCopy_def by blast
  have "mset cs = mset (map ?f (concat (map work (threadsOf (layoutGrid w sliceSize rows)))))"
    by (rule gridRun_work [OF run]) (use work(1) in blast)
  from sliceCopies_effect [OF sep width(2,3) perm this work(2,3) byte] show ?thesis .
qed

lemma unpack_run_effect:
  assumes w: "w = copyTypeBytes (layoutVectorBytes staging sliceSize destination pitch sliceSize)"
    and run: "gridRun (\<lambda>t. unpackSliceKernel w (layoutGrid w sliceSize rows) t staging destination pitch sliceSize rows)
      (layoutGrid w sliceSize rows) cs"
    and sep: "separate_matrices rows sliceSize destination pitch staging sliceSize"
    and sizes: "rows \<noteq> 0" "unat sliceSize < 2 ^ 63" "unat rows < 2 ^ 63" and byte: "c < rows" "b < sliceSize"
  shows "copyAll w cs m (destination + c * pitch + b) = m (staging + c * sliceSize + b)"
proof -
  note width = layoutVectorBytes_width [OF w]
  let ?f = "sliceCopy destination pitch staging sliceSize w (\<lambda>c. c)"
  obtain work where work: "\<forall>t \<in> set (threadsOf (layoutGrid w sliceSize rows)).
      unpackSliceKernel w (layoutGrid w sliceSize rows) t staging destination pitch sliceSize rows = Some (map ?f (work t))"
    "distinct (concat (map work (threadsOf (layoutGrid w sliceSize rows))))"
    "set (concat (map work (threadsOf (layoutGrid w sliceSize rows)))) = {c. c < rows} \<times> {e. e < sliceSize div w}"
    using layout_work [OF refl width(1) sizes, of False staging pitch destination] unfolding sliceCopy_def by blast
  have "mset cs = mset (map ?f (concat (map work (threadsOf (layoutGrid w sliceSize rows)))))"
    by (rule gridRun_work [OF run]) (use work(1) in blast)
  from sliceCopies_effect [OF sep width(2,3) _ _ this work(2,3) byte] show ?thesis by simp
qed

text \<open>
  C36: pack and unpack move whole chunks. Whatever order the threads of the two kernels run in, and with
  the vector width each launch chooses, packing a slice into the staging buffer and unpacking it again
  puts every byte of chunk \<open>c\<close> into the same place of chunk \<open>\<sigma> c\<close>, where \<open>\<sigma>\<close> is the identity for the
  contiguous layout and the permutation of the hierarchy otherwise.
\<close>

theorem pack_unpack_roundtrip:
  assumes "w1 = copyTypeBytes (layoutVectorBytes source pitch staging sliceSize sliceSize)"
    and "w2 = copyTypeBytes (layoutVectorBytes staging sliceSize destination outPitch sliceSize)"
    and "gridRun (\<lambda>t. packSliceKernel w1 swizzle (layoutGrid w1 sliceSize rows) t source pitch staging sliceSize rows nodes perNode)
      (layoutGrid w1 sliceSize rows) packed"
    and "gridRun (\<lambda>t. unpackSliceKernel w2 (layoutGrid w2 sliceSize rows) t staging destination outPitch sliceSize rows)
      (layoutGrid w2 sliceSize rows) unpacked"
    and "separate_matrices rows sliceSize staging sliceSize source pitch"
    and "separate_matrices rows sliceSize destination outPitch staging sliceSize"
    and "swizzle_ok swizzle nodes perNode rows"
    and "rows \<noteq> 0" "unat sliceSize < 2 ^ 63" "unat rows < 2 ^ 63" "c < rows" "b < sliceSize"
  shows "copyAll w2 unpacked (copyAll w1 packed m) (destination + swizzledChunk swizzle nodes perNode c * outPitch + b) =
    m (source + c * pitch + b)"
proof -
  have "swizzledChunk swizzle nodes perNode c < rows" using swizzledChunk_permutes(1) [OF assms(7)] assms(11) by blast
  from unpack_run_effect [OF assms(2,4,6,8-10) this assms(12)] pack_run_effect [OF assms(1,3,5,7-12)] show ?thesis by simp
qed


text \<open>Six chunks of 4096 bytes with the permutation of three nodes of two ranks.\<close>

theorem pack_unpack_roundtrip_witness:
  "\<exists>packed unpacked. \<forall>m.
     gridRun (\<lambda>t. packSliceKernel 16 True (layoutGrid 16 4096 6) t 65536 8192 1048576 4096 6 3 2) (layoutGrid 16 4096 6) packed \<and>
     copyAll 16 unpacked (copyAll 16 packed m) (4194304 + swizzledChunk True 3 2 3 * 8192 + 100) = m (65536 + 3 * 8192 + 100)"
proof -
  let ?g = "layoutGrid 16 4096 6"
  obtain work where work: "\<forall>t \<in> set (threadsOf ?g).
      packSliceKernel 16 True ?g t 65536 8192 1048576 4096 6 3 2 = Some (map (\<lambda>(chunk, e).
        (1048576 + swizzledChunk True 3 2 chunk * 4096 + e * 16, 65536 + chunk * 8192 + e * 16)) (work t))"
    using layout_work [OF refl, of 16 6 4096 True 65536 8192 1048576 3 2] by auto
  obtain work' where work': "\<forall>t \<in> set (threadsOf ?g).
      unpackSliceKernel 16 ?g t 1048576 4194304 8192 4096 6 = Some (map (\<lambda>(chunk, e).
        (4194304 + chunk * 8192 + e * 16, 1048576 + chunk * 4096 + e * 16)) (work' t))"
    using layout_work [OF refl, of 16 6 4096 True 1048576 8192 4194304 3 2] by auto
  obtain packed where packed: "gridRun (\<lambda>t. packSliceKernel 16 True ?g t 65536 8192 1048576 4096 6 3 2) ?g packed"
    using gridRun_exists [OF work] by blast
  obtain unpacked where unpacked: "gridRun (\<lambda>t. unpackSliceKernel 16 ?g t 1048576 4194304 8192 4096 6) ?g unpacked"
    using gridRun_exists [OF work'] by blast
  have w: "16 = copyTypeBytes (layoutVectorBytes 65536 8192 1048576 4096 4096)"
    "16 = copyTypeBytes (layoutVectorBytes 1048576 4096 4194304 8192 4096)" by code_simp+
  have sep: "separate_matrices 6 4096 1048576 4096 65536 8192" "separate_matrices 6 4096 4194304 8192 1048576 4096"
    by (simp_all add: separate_matrices_def disjoint_ranges_def)
  have sw: "swizzle_ok True 3 2 6" by (simp add: swizzle_ok_def)
  have "copyAll 16 unpacked (copyAll 16 packed m) (4194304 + swizzledChunk True 3 2 3 * 8192 + 100) = m (65536 + 3 * 8192 + 100)" for m
    by (rule pack_unpack_roundtrip [OF w packed unpacked sep sw]) simp_all
  with packed show ?thesis by blast
qed

end
