(* ===== verification/Config_Parse.thy ===== *)
theory Config_Parse
  imports Config_Types Coccl_Double
begin

text \<open>
  The configuration parser, \<^verbatim>\<open>core/config/coccl_config.cc\<close>, and the publication of the process
  configuration, \<^verbatim>\<open>core/config/coccl_config_runtime.cc\<close>. The text of the file is read by the vendored
  toml++ library; the parser walks the tree it returns. A routine of the parser returns false or its
  value, and may write a message through its pointer \<^verbatim>\<open>error\<close>, which may be null: some callers look at
  the message to tell an absent table from one of the wrong kind.

  Shown here: a configuration that is accepted is valid, whatever the file holds and with or without a
  place for the message, and a file that is rejected leaves a message.
\<close>

section \<open>TOML trees\<close>

text \<open>
  A node of the tree. A table is its entries in key order. The contents of dates and times are not
  read.
\<close>

datatype toml_node =
  TomlString string | TomlInteger int | TomlFloat double | TomlBoolean bool | TomlDateTime
| TomlArray "toml_node list" | TomlTable "(string \<times> toml_node) list"

type_synonym toml_table = "(string \<times> toml_node) list"

text \<open>
  \<^verbatim>\<open>node::value<T>()\<close> of toml++: strings are exact; a float with an integral value that \<^verbatim>\<open>int64_t\<close> can hold
  and a boolean are also integers, an integer is also a boolean.
\<close>

fun valueString :: "toml_node \<Rightarrow> string option" where
  "valueString (TomlString s) = Some s"
| "valueString _ = None"

fun valueInt :: "toml_node \<Rightarrow> int option" where
  "valueInt (TomlInteger i) = Some i"
| "valueInt (TomlFloat (Fin x)) =
     (if x = of_int \<lfloor>x\<rfloor> \<and> - (2 ^ 63) \<le> \<lfloor>x\<rfloor> \<and> \<lfloor>x\<rfloor> < 2 ^ 63 then Some \<lfloor>x\<rfloor> else None)"
| "valueInt (TomlBoolean b) = Some (if b then 1 else 0)"
| "valueInt _ = None"

fun valueBool :: "toml_node \<Rightarrow> bool option" where
  "valueBool (TomlBoolean b) = Some b"
| "valueBool (TomlInteger i) = Some (i \<noteq> 0)"
| "valueBool _ = None"

fun asTable :: "toml_node \<Rightarrow> toml_table option" where
  "asTable (TomlTable t) = Some t"
| "asTable _ = None"

fun asArray :: "toml_node \<Rightarrow> toml_node list option" where
  "asArray (TomlArray xs) = Some xs"
| "asArray _ = None"

section \<open>Routines that may fail\<close>

text \<open>The state is \<^verbatim>\<open>error\<close>: \<open>None\<close> for the null pointer, else the message, empty when there is none.\<close>

type_synonym message = "string option"

type_synonym 'a parser = "message \<Rightarrow> 'a option \<times> message"

definition returnP :: "'a \<Rightarrow> 'a parser" where
  "returnP x err = (Some x, err)"

definition setError :: "string \<Rightarrow> message \<Rightarrow> message" where
  "setError msg err = map_option (\<lambda>_. msg) err"

definition failP :: "string \<Rightarrow> 'a parser" where
  "failP msg err = (None, setError msg err)"

definition bindP :: "'a parser \<Rightarrow> ('a \<Rightarrow> 'b parser) \<Rightarrow> 'b parser" where
  "bindP m f err = (case m err of (None, err') \<Rightarrow> (None, err') | (Some x, err') \<Rightarrow> f x err')"

text \<open>\<^verbatim>\<open>error != nullptr && !error->empty()\<close>, and the return of a routine that stops when it holds.\<close>

definition hasError :: "message \<Rightarrow> bool" where
  "hasError err \<longleftrightarrow> (case err of None \<Rightarrow> False | Some msg \<Rightarrow> msg \<noteq> [])"

definition unlessError :: "'a \<Rightarrow> 'a parser" where
  "unlessError x err = (if hasError err then None else Some x, err)"

primrec forP :: "'a list \<Rightarrow> ('a \<Rightarrow> unit parser) \<Rightarrow> unit parser" where
  "forP [] f = returnP ()"
| "forP (x # xs) f = bindP (f x) (\<lambda>_. forP xs f)"

section \<open>Reading keys\<close>

definition dotted :: "string \<Rightarrow> string \<Rightarrow> string" where
  "dotted path key = path @ ''.'' @ key"

definition validateKeys :: "toml_table \<Rightarrow> string list \<Rightarrow> string \<Rightarrow> unit parser" where
  "validateKeys table allowed path =
     forP (map fst table) (\<lambda>key. if key \<in> set allowed then returnP ()
       else failP (path @ '': unknown key '' @ [CHR 0x27] @ key @ [CHR 0x27]))"

text \<open>The table at a key, if there is one. A node of another kind writes the message and counts as absent.\<close>

definition optionalTable :: "toml_table \<Rightarrow> string \<Rightarrow> string \<Rightarrow> toml_table option parser" where
  "optionalTable parent key path err =
     (case map_of parent key of
        None \<Rightarrow> (Some None, err)
      | Some item \<Rightarrow>
          (case asTable item of
             None \<Rightarrow> (Some None, setError (dotted path key @ '' must be a table'') err)
           | Some table \<Rightarrow> (Some (Some table), err)))"

definition readString :: "toml_table \<Rightarrow> string \<Rightarrow> string \<Rightarrow> bool \<Rightarrow> string \<Rightarrow> string parser" where
  "readString table key value required path =
     (case map_of table key of
        None \<Rightarrow> if required then failP (dotted path key @ '' is required'') else returnP value
      | Some item \<Rightarrow>
          (case valueString item of
             None \<Rightarrow> failP (dotted path key @ '' must be a string'')
           | Some parsed \<Rightarrow> returnP parsed))"

definition readBool :: "toml_table \<Rightarrow> string \<Rightarrow> bool \<Rightarrow> string \<Rightarrow> bool parser" where
  "readBool table key value path =
     (case map_of table key of
        None \<Rightarrow> returnP value
      | Some item \<Rightarrow>
          (case valueBool item of
             None \<Rightarrow> failP (dotted path key @ '' must be a boolean'')
           | Some parsed \<Rightarrow> returnP parsed))"

definition readSize :: "toml_table \<Rightarrow> string \<Rightarrow> size_t \<Rightarrow> string \<Rightarrow> size_t parser" where
  "readSize table key value path =
     (case map_of table key of
        None \<Rightarrow> returnP value
      | Some item \<Rightarrow>
          (case valueInt item of
             None \<Rightarrow> failP (dotted path key @ '' must be a non-negative integer'')
           | Some parsed \<Rightarrow>
               if parsed < 0 \<or> parsed > uint SIZE_MAX then failP (dotted path key @ '' must be a non-negative integer'')
               else returnP (size_of_int parsed)))"

text \<open>\<^verbatim>\<open>std::to_string\<close> of an integer.\<close>

definition to_string :: "int \<Rightarrow> string" where
  "to_string i = (if i < 0 then ''-'' @ decimal (nat (- i)) else decimal (nat i))"

definition readInt :: "toml_table \<Rightarrow> string \<Rightarrow> int \<Rightarrow> int \<Rightarrow> int \<Rightarrow> string \<Rightarrow> int parser" where
  "readInt table key value lo hi path =
     (let refuse = failP (dotted path key @ '' must be an integer in ['' @ to_string lo @ '', '' @ to_string hi @ '']'') in
      case map_of table key of
        None \<Rightarrow> returnP value
      | Some item \<Rightarrow>
          (case valueInt item of
             None \<Rightarrow> refuse
           | Some parsed \<Rightarrow> if parsed < lo \<or> parsed > hi then refuse else returnP parsed))"

definition readRequiredInt :: "toml_table \<Rightarrow> string \<Rightarrow> int \<Rightarrow> int \<Rightarrow> int \<Rightarrow> string \<Rightarrow> int parser" where
  "readRequiredInt table key value lo hi path =
     (if map_of table key = None then failP (dotted path key @ '' is required'')
      else readInt table key value lo hi path)"

text \<open>\<^verbatim>\<open>std::isalnum\<close> in the C locale.\<close>

definition isalnum :: "char \<Rightarrow> bool" where
  "isalnum c = (let n = (of_char c :: nat) in
     (48 \<le> n \<and> n \<le> 57) \<or> (65 \<le> n \<and> n \<le> 90) \<or> (97 \<le> n \<and> n \<le> 122))"

definition nameChar :: "char \<Rightarrow> bool" where
  "nameChar c \<longleftrightarrow> isalnum c \<or> c = CHR ''_'' \<or> c = CHR ''-''"

definition validCompressorName :: "string \<Rightarrow> bool" where
  "validCompressorName txt \<longleftrightarrow> txt \<noteq> [] \<and> list_all nameChar txt"

text \<open>The loop of \<^verbatim>\<open>readStringArray\<close>; \<open>vals\<close> are the names read so far, which are also the set \<^verbatim>\<open>unique\<close>.\<close>

fun readNames :: "string \<Rightarrow> toml_node list \<Rightarrow> string list \<Rightarrow> string list parser" where
  "readNames place [] vals = returnP vals"
| "readNames place (entry # entries) vals =
     (case valueString entry of
        None \<Rightarrow> failP (place @ '' contains a non-string or empty name'')
      | Some txt \<Rightarrow>
          if txt = [] then failP (place @ '' contains a non-string or empty name'')
          else if \<not> list_all nameChar txt
          then failP (place @ '' contains invalid compressor name '' @ [CHR 0x27] @ txt @ [CHR 0x27])
          else if txt \<in> set vals
          then failP (place @ '' contains duplicate compressor '' @ [CHR 0x27] @ txt @ [CHR 0x27])
          else readNames place entries (vals @ [txt]))"

definition readStringArray :: "toml_table \<Rightarrow> string \<Rightarrow> string list \<Rightarrow> string \<Rightarrow> string list parser" where
  "readStringArray table key vals path =
     (case map_of table key of
        None \<Rightarrow> returnP vals
      | Some item \<Rightarrow>
          (case asArray item of
             None \<Rightarrow> failP (dotted path key @ '' must be an array of strings'')
           | Some entries \<Rightarrow> readNames (dotted path key) entries []))"

section \<open>Compressor options\<close>

text \<open>
  Output of a finite \<^verbatim>\<open>double\<close> with 17 significant digits to a stream: the digits of the nearest
  17-digit decimal, in positional notation for exponents from -4 to 16 and in scientific notation
  otherwise, without trailing zeros. The sign of a zero is not kept.
\<close>

definition tenPow :: "int \<Rightarrow> real" where
  "tenPow k = (if 0 \<le> k then 10 ^ nat k else 1 / 10 ^ nat (- k))"

definition decimalExponent :: "real \<Rightarrow> int" where
  "decimalExponent x =
     (case List.find (\<lambda>k. tenPow k \<le> x) (map (\<lambda>i. 308 - int i) [0..<633]) of None \<Rightarrow> - 324 | Some k \<Rightarrow> k)"

definition roundHalfEven :: "real \<Rightarrow> int" where
  "roundHalfEven y =
     (let f = \<lfloor>y\<rfloor>; d = y - of_int f in
      if d < 1 / 2 then f else if d > 1 / 2 then f + 1 else if even f then f else f + 1)"

definition stripZeros :: "string \<Rightarrow> string" where
  "stripZeros ds = rev (dropWhile (\<lambda>c. c = CHR ''0'') (rev ds))"

definition withFraction :: "string \<Rightarrow> string \<Rightarrow> string" where
  "withFraction whole digits = (if stripZeros digits = [] then whole else whole @ ''.'' @ stripZeros digits)"

definition formatPositive :: "real \<Rightarrow> string" where
  "formatPositive x =
     (let e0 = decimalExponent x;
          m0 = roundHalfEven (x / tenPow (e0 - 16));
          (e, m) = (if m0 = 10 ^ 17 then (e0 + 1, 10 ^ 16) else (e0, m0));
          ds = decimal (nat m) in
      if 0 \<le> e \<and> e < 17 then withFraction (take (nat e + 1) ds) (drop (nat e + 1) ds)
      else if - 4 \<le> e \<and> e < 0 then withFraction ''0'' (replicate (nat (- e - 1)) CHR ''0'' @ ds)
      else withFraction (take 1 ds) (drop 1 ds) @ ''e'' @ (if e < 0 then ''-'' else ''+'') @
           (if \<bar>e\<bar> < 10 then ''0'' else []) @ decimal (nat \<bar>e\<bar>))"

definition formatDouble :: "real \<Rightarrow> string" where
  "formatDouble x = (if x = 0 then ''0'' else if x < 0 then ''-'' @ formatPositive (- x) else formatPositive x)"

fun scalarToString :: "toml_node \<Rightarrow> string option" where
  "scalarToString (TomlString s) = Some s"
| "scalarToString (TomlBoolean b) = Some (if b then ''true'' else ''false'')"
| "scalarToString (TomlInteger i) = Some (to_string i)"
| "scalarToString (TomlFloat (Fin x)) = Some (formatDouble x)"
| "scalarToString _ = None"

text \<open>The entries of a table have different keys and are visited in key order, so emplacing them appends.\<close>

fun parseOptionValues :: "toml_table \<Rightarrow> string \<Rightarrow> cocclConfigValues parser" where
  "parseOptionValues [] path = returnP []"
| "parseOptionValues ((key, item) # table) path =
     (case scalarToString item of
        None \<Rightarrow> failP (dotted path key @ '' must be a string, integer, float, or boolean'')
      | Some value \<Rightarrow> bindP (parseOptionValues table path) (\<lambda>vals. returnP ((key, value) # vals)))"

section \<open>Policies\<close>

definition parseCompressorScope :: "toml_table option \<Rightarrow> string \<Rightarrow> cocclCompressorScopeEntry parser" where
  "parseCompressorScope tableOpt path =
     (case tableOpt of
        None \<Rightarrow> returnP emptyScopeEntry
      | Some table \<Rightarrow>
          bindP (validateKeys table [''enabled'', ''compressor'', ''config''] path) (\<lambda>_.
          bindP (readBool table ''enabled'' True path) (\<lambda>enabled.
          bindP (readString table ''compressor'' [] enabled path) (\<lambda>txt.
          let scope = \<lparr>scopeConfigured = True, scopeEnabled = enabled, scopeName = txt, scopeValues = []\<rparr> in
          if \<not> enabled
          then if txt \<noteq> [] \<or> map_of table ''config'' \<noteq> None
               then failP (path @ '' disabled scope cannot configure a compressor'')
               else returnP scope
          else if \<not> validCompressorName txt
          then failP (path @ ''.compressor contains invalid compressor name '' @ [CHR 0x27] @ txt @ [CHR 0x27])
          else
            bindP (optionalTable table ''config'' path) (\<lambda>options.
              case options of
                None \<Rightarrow> unlessError scope
              | Some entries \<Rightarrow>
                  bindP (parseOptionValues entries (path @ ''.config'')) (\<lambda>vals.
                  returnP (scope\<lparr>scopeValues := vals\<rparr>)))))))"

definition parsePrimitivePolicy :: "toml_table option \<Rightarrow> size_t \<Rightarrow> string \<Rightarrow> cocclPrimitivePolicy parser" where
  "parsePrimitivePolicy tableOpt defaultThreshold path =
     (case tableOpt of
        None \<Rightarrow> returnP \<lparr>scopes = (\<lambda>_. emptyScopeEntry), policyThresholdBytes = defaultThreshold\<rparr>
      | Some table \<Rightarrow>
          bindP (validateKeys table [''threshold_bytes'', ''default'', ''intra'', ''inter''] path) (\<lambda>_.
          bindP (readSize table ''threshold_bytes'' defaultThreshold path) (\<lambda>threshold.
          bindP (optionalTable table ''default'' path) (\<lambda>defaults.
          bindP (optionalTable table ''intra'' path) (\<lambda>intraTable.
          bindP (optionalTable table ''inter'' path) (\<lambda>interTable.
          bindP (unlessError ()) (\<lambda>_.
          bindP (parseCompressorScope defaults (path @ ''.default'')) (\<lambda>s0.
          bindP (parseCompressorScope intraTable (path @ ''.intra'')) (\<lambda>s1.
          bindP (parseCompressorScope interTable (path @ ''.inter'')) (\<lambda>s2.
          returnP \<lparr>scopes = (\<lambda>_. emptyScopeEntry)(ScopeDefault := s0, ScopeIntra := s1, ScopeInter := s2),
                   policyThresholdBytes = threshold\<rparr>))))))))))"

text \<open>A table that is needed to go on: leave when its lookup has written a message.\<close>

definition checkedTable :: "toml_table \<Rightarrow> string \<Rightarrow> string \<Rightarrow> toml_table option parser" where
  "checkedTable parent key path =
     bindP (optionalTable parent key path) (\<lambda>found. case found of None \<Rightarrow> unlessError None | Some t \<Rightarrow> returnP (Some t))"

definition parentTable :: "toml_table option \<Rightarrow> toml_table" where
  "parentTable tableOpt = (case tableOpt of None \<Rightarrow> [] | Some t \<Rightarrow> t)"

definition parseCollectiveChildren :: "toml_table option \<Rightarrow> size_t \<Rightarrow> string \<Rightarrow> cocclCollectivePolicies parser" where
  "parseCollectiveChildren tableOpt defaultThreshold path =
     (let parent = parentTable tableOpt in
      bindP (checkedTable parent ''all_gather'' path) (\<lambda>gatherTable.
      bindP (checkedTable parent ''reduce_scatter'' path) (\<lambda>scatterTable.
      bindP (checkedTable parent ''all_reduce'' path) (\<lambda>reduceTable.
      bindP (parsePrimitivePolicy gatherTable defaultThreshold (path @ ''.all_gather'')) (\<lambda>p0.
      bindP (parsePrimitivePolicy scatterTable defaultThreshold (path @ ''.reduce_scatter'')) (\<lambda>p1.
      bindP (parsePrimitivePolicy reduceTable defaultThreshold (path @ ''.all_reduce'')) (\<lambda>p2.
      returnP \<lparr>policyAllGather = p0, policyReduceScatter = p1, policyAllReduce = p2\<rparr>)))))))"

definition parseCollectivePolicies :: "toml_table option \<Rightarrow> size_t \<Rightarrow> string \<Rightarrow> cocclCollectivePolicies parser" where
  "parseCollectivePolicies tableOpt defaultThreshold path =
     bindP (case tableOpt of None \<Rightarrow> returnP ()
            | Some table \<Rightarrow> validateKeys table [''all_gather'', ''reduce_scatter'', ''all_reduce''] path) (\<lambda>_.
     parseCollectiveChildren tableOpt defaultThreshold path)"

definition parseNormal :: "toml_table option \<Rightarrow> cocclConfig \<Rightarrow> cocclConfig parser" where
  "parseNormal tableOpt cfg =
     (let path = ''normal''; parent = parentTable tableOpt;
          threshold = compressionThresholdBytes (runtimeConfig cfg) in
      bindP (case tableOpt of None \<Rightarrow> returnP ()
             | Some table \<Rightarrow> validateKeys table
                 [''all_gather'', ''reduce_scatter'', ''all_reduce'', ''all_to_all'', ''sendrecv''] path) (\<lambda>_.
      bindP (parseCollectiveChildren tableOpt threshold path) (\<lambda>coll.
      bindP (optionalTable parent ''all_to_all'' path) (\<lambda>allToAllTable.
      bindP (optionalTable parent ''sendrecv'' path) (\<lambda>sendRecvTable.
      bindP (unlessError ()) (\<lambda>_.
      bindP (parsePrimitivePolicy allToAllTable threshold (path @ ''.all_to_all'')) (\<lambda>p3.
      bindP (parsePrimitivePolicy sendRecvTable threshold (path @ ''.sendrecv'')) (\<lambda>p4.
      returnP (cfg\<lparr>normalPolicies := cocclCollectivePolicies.extend coll \<lparr>policyAllToAll = p3, policySendRecv = p4\<rparr>\<rparr>)))))))))"

section \<open>Training\<close>

definition parseStrategy :: "string \<Rightarrow> string \<Rightarrow> cocclDataParallelStrategy parser" where
  "parseStrategy txt path =
     (if txt = ''ddp'' then returnP StrategyDdp
      else if txt = ''sdp'' then returnP StrategySdp
      else if txt = ''fsdp'' then returnP StrategyFsdp
      else failP (path @ ''.dp_strategy must be '' @ [CHR 0x27] @ ''ddp'' @ [CHR 0x27] @ '', '' @ [CHR 0x27] @ ''sdp'' @
             [CHR 0x27] @ '', or '' @ [CHR 0x27] @ ''fsdp'' @ [CHR 0x27]))"

text \<open>\<^verbatim>\<open>std::numeric_limits<int>::max()\<close>\<close>

definition intMax :: int where
  "intMax = 2 ^ 31 - 1"

definition readParallelSize :: "bool \<Rightarrow> toml_table \<Rightarrow> string \<Rightarrow> int \<Rightarrow> string \<Rightarrow> int parser" where
  "readParallelSize required table key value path =
     (if required then readRequiredInt table key value 1 intMax path else readInt table key value 1 intMax path)"

definition parseClassifier :: "bool \<Rightarrow> toml_table \<Rightarrow> string \<Rightarrow> cocclTrainingConfig \<Rightarrow> cocclTrainingConfig parser" where
  "parseClassifier required table path t =
     bindP (validateKeys table [''data_parallel_size'', ''tensor_parallel_size'', ''pipeline_parallel_size'',
        ''dp_strategy'', ''sequence_parallel''] path) (\<lambda>_.
     bindP (readParallelSize required table ''data_parallel_size'' (dataParallelSize t) path) (\<lambda>dp.
     bindP (readParallelSize required table ''tensor_parallel_size'' (tensorParallelSize t) path) (\<lambda>tp.
     bindP (readParallelSize required table ''pipeline_parallel_size'' (pipelineParallelSize t) path) (\<lambda>pp.
     bindP (readString table ''dp_strategy'' ''sdp'' False path) (\<lambda>dpStrategy.
     bindP (readBool table ''sequence_parallel'' (sequenceParallel t) path) (\<lambda>sequenceFlag.
     bindP (parseStrategy dpStrategy path) (\<lambda>strategy.
     returnP (t\<lparr>dataParallelSize := dp, tensorParallelSize := tp, pipelineParallelSize := pp,
       sequenceParallel := sequenceFlag, dataParallelStrategy := strategy\<rparr>))))))))"

definition parsePipelinePolicies ::
  "toml_table option \<Rightarrow> size_t \<Rightarrow> string \<Rightarrow> (cocclPrimitivePolicy \<times> cocclPrimitivePolicy) parser" where
  "parsePipelinePolicies tableOpt threshold path =
     bindP (case tableOpt of None \<Rightarrow> returnP () | Some table \<Rightarrow> validateKeys table [''sendrecv''] path) (\<lambda>_.
     bindP (optionalTable (parentTable tableOpt) ''sendrecv'' path) (\<lambda>sendRecvTable.
     bindP (case sendRecvTable of None \<Rightarrow> returnP ()
            | Some table \<Rightarrow> validateKeys table [''forward'', ''backward''] (path @ ''.sendrecv'')) (\<lambda>_.
     bindP (optionalTable (parentTable sendRecvTable) ''forward'' (path @ ''.sendrecv'')) (\<lambda>forwardTable.
     bindP (optionalTable (parentTable sendRecvTable) ''backward'' (path @ ''.sendrecv'')) (\<lambda>backwardTable.
     bindP (unlessError ()) (\<lambda>_.
     bindP (parsePrimitivePolicy forwardTable threshold (path @ ''.sendrecv.forward'')) (\<lambda>p0.
     bindP (parsePrimitivePolicy backwardTable threshold (path @ ''.sendrecv.backward'')) (\<lambda>p1.
     returnP (p0, p1)))))))))"

definition parseTraining :: "toml_table option \<Rightarrow> cocclConfig \<Rightarrow> cocclConfig parser" where
  "parseTraining tableOpt cfg =
     (let path = ''training''; required = (runtimeMode (runtimeConfig cfg) = ModeTraining);
          threshold = compressionThresholdBytes (runtimeConfig cfg); parent = parentTable tableOpt in
      if required \<and> tableOpt = None then failP ''training is required in training mode''
      else
        bindP (case tableOpt of None \<Rightarrow> returnP ()
               | Some table \<Rightarrow> validateKeys table
                   [''observation_iterations'', ''classifier'', ''dp'', ''tp'', ''pp''] path) (\<lambda>_.
        bindP (readInt parent ''observation_iterations'' (observationIterations (trainingConfig cfg)) 2 100 path) (\<lambda>obs.
        bindP (optionalTable parent ''classifier'' path) (\<lambda>classifier.
        bindP (let t = (trainingConfig cfg)\<lparr>observationIterations := obs\<rparr> in
               case classifier of
                 None \<Rightarrow> if required then failP ''training.classifier is required in training mode'' else returnP t
               | Some table \<Rightarrow> parseClassifier required table (path @ ''.classifier'') t) (\<lambda>t.
        bindP (optionalTable parent ''dp'' path) (\<lambda>dpTable.
        bindP (optionalTable parent ''tp'' path) (\<lambda>tpTable.
        bindP (optionalTable parent ''pp'' path) (\<lambda>ppTable.
        bindP (unlessError ()) (\<lambda>_.
        bindP (parseCollectivePolicies dpTable threshold (path @ ''.dp'')) (\<lambda>dp.
        bindP (parseCollectivePolicies tpTable threshold (path @ ''.tp'')) (\<lambda>tp.
        bindP (parsePipelinePolicies ppTable threshold (path @ ''.pp'')) (\<lambda>(p0, p1).
        returnP (cfg\<lparr>trainingConfig := t,
          trainingPolicies := \<lparr>dataParallel = dp, tensorParallel = tp,
            pipelineSendRecvForward = p0, pipelineSendRecvBackward = p1\<rparr>\<rparr>)))))))))))))"

section \<open>Sections of the file\<close>

definition parseRuntime :: "toml_table \<Rightarrow> cocclConfig \<Rightarrow> cocclConfig parser" where
  "parseRuntime doc cfg =
     bindP (optionalTable doc ''runtime'' ''root'') (\<lambda>found.
     case found of
       None \<Rightarrow> (\<lambda>err. if hasError err then (None, err) else failP ''runtime table is required'' err)
     | Some table \<Rightarrow>
         bindP (validateKeys table [''mode'', ''compression_threshold_bytes''] ''runtime'') (\<lambda>_.
         bindP (readString table ''mode'' [] True ''runtime'') (\<lambda>mode.
         bindP (readSize table ''compression_threshold_bytes'' (compressionThresholdBytes (runtimeConfig cfg)) ''runtime'') (\<lambda>threshold.
         if mode = ''normal'' then returnP (cfg\<lparr>runtimeConfig := \<lparr>runtimeMode = ModeNormal, compressionThresholdBytes = threshold\<rparr>\<rparr>)
         else if mode = ''training'' then returnP (cfg\<lparr>runtimeConfig := \<lparr>runtimeMode = ModeTraining, compressionThresholdBytes = threshold\<rparr>\<rparr>)
         else failP (''runtime.mode must be '' @ [CHR 0x27] @ ''normal'' @ [CHR 0x27] @ '' or '' @ [CHR 0x27] @ ''training'' @ [CHR 0x27])))))"

definition configDirectory :: "string \<Rightarrow> string" where
  "configDirectory path =
     (if CHR ''/'' \<notin> set path then ''.''
      else rev (tl (dropWhile (\<lambda>c. c \<noteq> CHR ''/'') (rev path))))"

definition resolvePath :: "string \<Rightarrow> string \<Rightarrow> string" where
  "resolvePath configPath path =
     (if path = [] \<or> hd path = CHR ''/'' then path
      else let directory = configDirectory configPath in
           if directory = ''.'' then path else directory @ ''/'' @ path)"

definition parsePlugins :: "toml_table \<Rightarrow> string \<Rightarrow> cocclConfig \<Rightarrow> cocclConfig parser" where
  "parsePlugins doc configPath cfg =
     bindP (optionalTable doc ''compressor_plugins'' ''root'') (\<lambda>found.
     case found of
       None \<Rightarrow> unlessError cfg
     | Some table \<Rightarrow>
         bindP (validateKeys table [''compressors'', ''library_path''] ''compressor_plugins'') (\<lambda>_.
         bindP (readStringArray table ''compressors'' (compressors (plugins cfg)) ''compressor_plugins'') (\<lambda>names.
         bindP (readString table ''library_path'' (libraryPath (plugins cfg)) False ''compressor_plugins'') (\<lambda>path.
         if names \<noteq> [] \<and> path = []
         then failP ''compressor_plugins.library_path is required when compressors are configured''
         else returnP (cfg\<lparr>plugins := \<lparr>compressors = names, libraryPath = resolvePath configPath path\<rparr>\<rparr>)))))"

definition kCocclMinPipelineDepth :: int where
  "kCocclMinPipelineDepth = 1"

definition kCocclMaxPipelineDepth :: int where
  "kCocclMaxPipelineDepth = 16"

definition parsePipeline :: "toml_table \<Rightarrow> cocclConfig \<Rightarrow> cocclConfig parser" where
  "parsePipeline doc cfg =
     bindP (optionalTable doc ''pipeline'' ''root'') (\<lambda>found.
     case found of
       None \<Rightarrow> unlessError cfg
     | Some table \<Rightarrow>
         bindP (validateKeys table [''depth''] ''pipeline'') (\<lambda>_.
         bindP (readInt table ''depth'' (pipelineDepth (pipelineConfig cfg)) kCocclMinPipelineDepth kCocclMaxPipelineDepth
                  ''pipeline'') (\<lambda>dep.
         returnP (cfg\<lparr>pipelineConfig := \<lparr>pipelineDepth = dep\<rparr>\<rparr>))))"

definition parseBuffer :: "toml_table \<Rightarrow> cocclConfig \<Rightarrow> cocclConfig parser" where
  "parseBuffer doc cfg =
     bindP (optionalTable doc ''buffer'' ''root'') (\<lambda>found.
     case found of
       None \<Rightarrow> unlessError cfg
     | Some table \<Rightarrow>
         bindP (validateKeys table [''pool_limit_bytes'', ''legacy_block_bytes'', ''physical_chunk_bytes''] ''buffer'') (\<lambda>_.
         bindP (readSize table ''pool_limit_bytes'' (poolLimitBytes (bufferConfig cfg)) ''buffer'') (\<lambda>limit.
         bindP (readSize table ''legacy_block_bytes'' (legacyBlockBytes (bufferConfig cfg)) ''buffer'') (\<lambda>block.
         bindP (readSize table ''physical_chunk_bytes'' (physicalChunkBytes (bufferConfig cfg)) ''buffer'') (\<lambda>chunk.
         if chunk > 0
         then returnP (cfg\<lparr>bufferConfig := \<lparr>poolLimitBytes = limit, legacyBlockBytes = block, physicalChunkBytes = chunk\<rparr>\<rparr>)
         else failP ''buffer.physical_chunk_bytes must be greater than zero'')))))"

definition parseReduceScatterAlgorithm :: "string \<Rightarrow> cocclReduceScatterAlgorithmPolicy parser" where
  "parseReduceScatterAlgorithm txt =
     (if txt = ''auto'' then returnP RsAuto
      else if txt = ''oneshot'' then returnP RsOneShot
      else if txt = ''twoshot'' then returnP RsTwoShot
      else failP ''autotune.reduce_scatter_algorithm must be auto, oneshot, or twoshot'')"

definition parseAllReduceAlgorithm :: "string \<Rightarrow> cocclAllReduceAlgorithmPolicy parser" where
  "parseAllReduceAlgorithm txt =
     (if txt = ''auto'' then returnP ArAuto
      else if txt = ''oneshot'' then returnP ArOneShot
      else if txt = ''twoshot'' then returnP ArTwoShot
      else if txt = ''tripleshot'' then returnP ArTripleShot
      else failP ''autotune.all_reduce_algorithm must be auto, oneshot, twoshot, or tripleshot'')"

definition parseAutotune :: "toml_table \<Rightarrow> cocclConfig \<Rightarrow> cocclConfig parser" where
  "parseAutotune doc cfg =
     bindP (optionalTable doc ''autotune'' ''root'') (\<lambda>found.
     case found of
       None \<Rightarrow> unlessError cfg
     | Some table \<Rightarrow>
         let a = autotuneConfig cfg in
         bindP (validateKeys table [''enabled'', ''profile_min_bytes'', ''profile_max_bytes'', ''warmup'', ''iterations'',
            ''reduce_scatter_algorithm'', ''all_reduce_algorithm''] ''autotune'') (\<lambda>_.
         bindP (readBool table ''enabled'' (autotuneEnabled a) ''autotune'') (\<lambda>enabled.
         bindP (readSize table ''profile_min_bytes'' (profileMinBytes a) ''autotune'') (\<lambda>lo.
         bindP (readSize table ''profile_max_bytes'' (profileMaxBytes a) ''autotune'') (\<lambda>hi.
         bindP (readInt table ''warmup'' (warmup a) 0 100000 ''autotune'') (\<lambda>warm.
         bindP (readInt table ''iterations'' (iterations a) 1 100000 ''autotune'') (\<lambda>iters.
         if lo = 0 \<or> hi < lo
         then failP ''autotune profile sizes require 0 < profile_min_bytes <= profile_max_bytes''
         else
           bindP (readString table ''reduce_scatter_algorithm'' ''auto'' False ''autotune'') (\<lambda>rs.
           bindP (readString table ''all_reduce_algorithm'' ''auto'' False ''autotune'') (\<lambda>ar.
           bindP (parseReduceScatterAlgorithm rs) (\<lambda>rsPolicy.
           bindP (parseAllReduceAlgorithm ar) (\<lambda>arPolicy.
           returnP (cfg\<lparr>autotuneConfig := \<lparr>autotuneEnabled = enabled, profileMinBytes = lo, profileMaxBytes = hi,
             warmup = warm, iterations = iters, reduceScatterAlgorithm = rsPolicy, allReduceAlgorithm = arPolicy\<rparr>\<rparr>))))))))))))"

section \<open>All policies\<close>

datatype cocclConfigPolicyId =
  NormalAllGather | NormalReduceScatter | NormalAllReduce | NormalAllToAll | NormalSendRecv
| TrainingDpAllGather | TrainingDpReduceScatter | TrainingDpAllReduce
| TrainingTpAllGather | TrainingTpReduceScatter | TrainingTpAllReduce
| TrainingPpSendRecvForward | TrainingPpSendRecvBackward | PolicyIdCount

datatype cocclPolicyScope =
  PolicyScopeNormal | PolicyScopeDataParallel | PolicyScopeTensorParallel | PolicyScopePipelineParallel

record cocclConfigPolicyView =
  viewId :: cocclConfigPolicyId
  viewPath :: string
  viewMode :: cocclRuntimeMode
  viewScope :: cocclPolicyScope
  viewKey :: cocclPolicyKey
  viewPolicy :: cocclPrimitivePolicy

definition cocclEnumeratePolicies :: "cocclConfig \<Rightarrow> cocclConfigPolicyView list" where
  "cocclEnumeratePolicies cfg =
     (let key = (\<lambda>oper. cocclDefaultPolicy oper ScopeDefault);
          way = cocclDirectionalPolicy SendRecv;
          normal = normalPolicies cfg;
          dp = dataParallel (trainingPolicies cfg);
          tp = tensorParallel (trainingPolicies cfg) in
      [\<lparr>viewId = NormalAllGather, viewPath = ''normal.all_gather'', viewMode = ModeNormal,
        viewScope = PolicyScopeNormal, viewKey = key AllGather, viewPolicy = policyAllGather normal\<rparr>,
       \<lparr>viewId = NormalReduceScatter, viewPath = ''normal.reduce_scatter'', viewMode = ModeNormal,
        viewScope = PolicyScopeNormal, viewKey = key ReduceScatter, viewPolicy = policyReduceScatter normal\<rparr>,
       \<lparr>viewId = NormalAllReduce, viewPath = ''normal.all_reduce'', viewMode = ModeNormal,
        viewScope = PolicyScopeNormal, viewKey = key AllReduce, viewPolicy = policyAllReduce normal\<rparr>,
       \<lparr>viewId = NormalAllToAll, viewPath = ''normal.all_to_all'', viewMode = ModeNormal,
        viewScope = PolicyScopeNormal, viewKey = key AllToAll, viewPolicy = policyAllToAll normal\<rparr>,
       \<lparr>viewId = NormalSendRecv, viewPath = ''normal.sendrecv'', viewMode = ModeNormal,
        viewScope = PolicyScopeNormal, viewKey = key SendRecv, viewPolicy = policySendRecv normal\<rparr>,
       \<lparr>viewId = TrainingDpAllGather, viewPath = ''training.dp.all_gather'', viewMode = ModeTraining,
        viewScope = PolicyScopeDataParallel, viewKey = key AllGather, viewPolicy = policyAllGather dp\<rparr>,
       \<lparr>viewId = TrainingDpReduceScatter, viewPath = ''training.dp.reduce_scatter'', viewMode = ModeTraining,
        viewScope = PolicyScopeDataParallel, viewKey = key ReduceScatter, viewPolicy = policyReduceScatter dp\<rparr>,
       \<lparr>viewId = TrainingDpAllReduce, viewPath = ''training.dp.all_reduce'', viewMode = ModeTraining,
        viewScope = PolicyScopeDataParallel, viewKey = key AllReduce, viewPolicy = policyAllReduce dp\<rparr>,
       \<lparr>viewId = TrainingTpAllGather, viewPath = ''training.tp.all_gather'', viewMode = ModeTraining,
        viewScope = PolicyScopeTensorParallel, viewKey = key AllGather, viewPolicy = policyAllGather tp\<rparr>,
       \<lparr>viewId = TrainingTpReduceScatter, viewPath = ''training.tp.reduce_scatter'', viewMode = ModeTraining,
        viewScope = PolicyScopeTensorParallel, viewKey = key ReduceScatter, viewPolicy = policyReduceScatter tp\<rparr>,
       \<lparr>viewId = TrainingTpAllReduce, viewPath = ''training.tp.all_reduce'', viewMode = ModeTraining,
        viewScope = PolicyScopeTensorParallel, viewKey = key AllReduce, viewPolicy = policyAllReduce tp\<rparr>,
       \<lparr>viewId = TrainingPpSendRecvForward, viewPath = ''training.pp.sendrecv.forward'', viewMode = ModeTraining,
        viewScope = PolicyScopePipelineParallel, viewKey = way True ScopeDefault,
        viewPolicy = pipelineSendRecvForward (trainingPolicies cfg)\<rparr>,
       \<lparr>viewId = TrainingPpSendRecvBackward, viewPath = ''training.pp.sendrecv.backward'', viewMode = ModeTraining,
        viewScope = PolicyScopePipelineParallel, viewKey = way False ScopeDefault,
        viewPolicy = pipelineSendRecvBackward (trainingPolicies cfg)\<rparr>])"

definition policyScopes :: "cocclPrimitivePolicy \<Rightarrow> cocclCompressorScopeEntry list" where
  "policyScopes policy = map (scopes policy) [ScopeDefault, ScopeIntra, ScopeInter]"

definition validateCatalogReferences :: "cocclConfig \<Rightarrow> unit parser" where
  "validateCatalogReferences cfg =
     forP (concat (map (policyScopes \<circ> viewPolicy) (cocclEnumeratePolicies cfg))) (\<lambda>scope.
       if scopeEnabled scope \<and> scopeName scope \<notin> set (compressors (plugins cfg))
       then failP (''compressor '' @ [CHR 0x27] @ scopeName scope @ [CHR 0x27] @
              '' is used by a policy but missing from compressor_plugins.compressors'')
       else returnP ())"

section \<open>The file\<close>

text \<open>\<^verbatim>\<open>toml::parse_file\<close>: the tree of a file, or the text of the exception it throws.\<close>

type_synonym toml_reader = "string \<Rightarrow> string + toml_table"

definition parseConfigFileImpl :: "toml_reader \<Rightarrow> string \<Rightarrow> cocclConfig \<Rightarrow> cocclConfig parser" where
  "parseConfigFileImpl parse_file path cfg =
     (case parse_file path of
        Inl what \<Rightarrow> failP what
      | Inr doc \<Rightarrow>
          bindP (validateKeys doc [''runtime'', ''compressor_plugins'', ''pipeline'', ''buffer'', ''autotune'',
             ''normal'', ''training''] ''root'') (\<lambda>_.
          bindP (parseRuntime doc cfg) (\<lambda>c1.
          bindP (parsePlugins doc path c1) (\<lambda>c2.
          bindP (parsePipeline doc c2) (\<lambda>c3.
          bindP (parseBuffer doc c3) (\<lambda>c4.
          bindP (parseAutotune doc c4) (\<lambda>c5.
          bindP (optionalTable doc ''normal'' ''root'') (\<lambda>normalTable.
          bindP (optionalTable doc ''training'' ''root'') (\<lambda>trainingTable.
          bindP (unlessError ()) (\<lambda>_.
          bindP (parseNormal normalTable c5) (\<lambda>c6.
          bindP (parseTraining trainingTable c6) (\<lambda>c7.
          bindP (validateCatalogReferences c7) (\<lambda>_.
          returnP c7)))))))))))))"

text \<open>The configuration that is stored, if any; \<open>outGiven\<close> is \<^verbatim>\<open>config != nullptr\<close>.\<close>

definition cocclLoadConfigFile :: "toml_reader \<Rightarrow> string \<Rightarrow> bool \<Rightarrow> cocclConfig parser" where
  "cocclLoadConfigFile parse_file path outGiven err =
     (let err = map_option (\<lambda>_. []) err in
      if \<not> outGiven then failP ''config output is required'' err
      else if path = [] then failP ''config file path is empty'' err
      else parseConfigFileImpl parse_file path defaultConfig err)"

section \<open>Publication\<close>

text \<open>
  \<^verbatim>\<open>initializeConfigOnce\<close>: what the process publishes, from its environment variables. It runs once, so the
  published configuration is a constant of the process; the warnings are left out.
\<close>

definition initializeConfigOnce :: "(string \<Rightarrow> string option) \<Rightarrow> toml_reader \<Rightarrow> cocclConfig option" where
  "initializeConfigOnce getenv parse_file =
     (case getenv ''COCCL_ENABLE'' of
        None \<Rightarrow> None
      | Some enabled \<Rightarrow>
          if enabled = ''0'' then None
          else if enabled \<noteq> ''1'' then None
          else
            (case getenv ''COCCL_CONFIG_FILE'' of
               None \<Rightarrow> None
             | Some path \<Rightarrow>
                 if path = [] then None
                 else fst (cocclLoadConfigFile parse_file path True (Some []))))"

definition cocclConfigInitialize :: "(string \<Rightarrow> string option) \<Rightarrow> toml_reader \<Rightarrow> bool" where
  "cocclConfigInitialize getenv parse_file \<longleftrightarrow> initializeConfigOnce getenv parse_file \<noteq> None"

section \<open>Accepted configurations are valid\<close>

definition valid_scope :: "string list \<Rightarrow> cocclCompressorScopeEntry \<Rightarrow> bool" where
  "valid_scope catalog scope \<longleftrightarrow>
     (if scopeEnabled scope then scopeConfigured scope \<and> validCompressorName (scopeName scope) \<and> scopeName scope \<in> set catalog
      else scopeName scope = [] \<and> scopeValues scope = [])"

definition valid_catalog :: "cocclPluginCatalog \<Rightarrow> bool" where
  "valid_catalog cat \<longleftrightarrow>
     distinct (compressors cat) \<and> (\<forall>txt \<in> set (compressors cat). validCompressorName txt) \<and>
     (compressors cat \<noteq> [] \<longrightarrow> libraryPath cat \<noteq> [])"

definition valid_pipeline :: "cocclPipelineConfig \<Rightarrow> bool" where
  "valid_pipeline p \<longleftrightarrow> 1 \<le> pipelineDepth p \<and> pipelineDepth p \<le> 16"

definition valid_buffer :: "cocclBufferConfig \<Rightarrow> bool" where
  "valid_buffer b \<longleftrightarrow> 0 < physicalChunkBytes b"

definition valid_autotune :: "cocclAutotuneConfig \<Rightarrow> bool" where
  "valid_autotune a \<longleftrightarrow> 0 < profileMinBytes a \<and> profileMinBytes a \<le> profileMaxBytes a \<and>
     0 \<le> warmup a \<and> warmup a \<le> 100000 \<and> 1 \<le> iterations a \<and> iterations a \<le> 100000"

definition valid_training :: "cocclTrainingConfig \<Rightarrow> bool" where
  "valid_training t \<longleftrightarrow> 2 \<le> observationIterations t \<and> observationIterations t \<le> 100 \<and>
     (\<forall>n \<in> {dataParallelSize t, tensorParallelSize t, pipelineParallelSize t}. 1 \<le> n \<and> n \<le> intMax)"

text \<open>Policies before the references into the catalog are checked.\<close>

definition well_formed_scope :: "cocclCompressorScopeEntry \<Rightarrow> bool" where
  "well_formed_scope scope \<longleftrightarrow>
     (if scopeEnabled scope then scopeConfigured scope \<and> validCompressorName (scopeName scope)
      else scopeName scope = [] \<and> scopeValues scope = [])"

definition well_formed_policy :: "cocclPrimitivePolicy \<Rightarrow> bool" where
  "well_formed_policy policy \<longleftrightarrow> (\<forall>scope. well_formed_scope (scopes policy scope))"

definition well_formed_collectives :: "'a cocclCollectivePolicies_scheme \<Rightarrow> bool" where
  "well_formed_collectives p \<longleftrightarrow>
     well_formed_policy (policyAllGather p) \<and> well_formed_policy (policyReduceScatter p) \<and> well_formed_policy (policyAllReduce p)"

definition well_formed_normal :: "cocclNormalPolicies \<Rightarrow> bool" where
  "well_formed_normal p \<longleftrightarrow>
     well_formed_collectives p \<and> well_formed_policy (policyAllToAll p) \<and> well_formed_policy (policySendRecv p)"

definition well_formed_training :: "cocclTrainingPolicies \<Rightarrow> bool" where
  "well_formed_training p \<longleftrightarrow>
     well_formed_collectives (dataParallel p) \<and> well_formed_collectives (tensorParallel p) \<and>
     well_formed_policy (pipelineSendRecvForward p) \<and> well_formed_policy (pipelineSendRecvBackward p)"

definition valid_settings :: "cocclConfig \<Rightarrow> bool" where
  "valid_settings cfg \<longleftrightarrow> valid_catalog (plugins cfg) \<and> valid_pipeline (pipelineConfig cfg) \<and>
     valid_buffer (bufferConfig cfg) \<and> valid_autotune (autotuneConfig cfg) \<and> valid_training (trainingConfig cfg)"

definition valid_config :: "cocclConfig \<Rightarrow> bool" where
  "valid_config cfg \<longleftrightarrow> valid_settings cfg \<and>
     (\<forall>view \<in> set (cocclEnumeratePolicies cfg). \<forall>scope \<in> {ScopeDefault, ScopeIntra, ScopeInter}.
        valid_scope (compressors (plugins cfg)) (scopes (viewPolicy view) scope))"

text \<open>What a routine returns when it does not fail, for every message.\<close>

definition accepts :: "'a parser \<Rightarrow> ('a \<Rightarrow> bool) \<Rightarrow> bool" where
  "accepts m P \<longleftrightarrow> (\<forall>err x err'. m err = (Some x, err') \<longrightarrow> P x)"

named_theorems accepts_intros \<open>rules for the results of parser routines\<close>

lemma acceptsI: "(\<And>err x err'. m err = (Some x, err') \<Longrightarrow> P x) \<Longrightarrow> accepts m P"
  unfolding accepts_def by blast

lemma acceptsD: "accepts m P \<Longrightarrow> m err = (Some x, err') \<Longrightarrow> P x"
  unfolding accepts_def by blast

lemma accepts_return [accepts_intros]: "P x \<Longrightarrow> accepts (returnP x) P"
  by (simp add: accepts_def returnP_def)

lemma accepts_fail [accepts_intros]: "accepts (failP msg) P"
  by (simp add: accepts_def failP_def)

lemma accepts_unless [accepts_intros]: "P x \<Longrightarrow> accepts (unlessError x) P"
  by (simp add: accepts_def unlessError_def)

lemma accepts_bind: "accepts m P \<Longrightarrow> (\<And>x. P x \<Longrightarrow> accepts (f x) Q) \<Longrightarrow> accepts (bindP m f) Q"
  unfolding accepts_def bindP_def by (fastforce split: prod.splits option.splits)

lemma accepts_any: "accepts m (\<lambda>_. True)"
  by (simp add: accepts_def)

text \<open>Steps whose result is not constrained.\<close>

lemma accepts_skip: "(\<And>x. accepts (f x) Q) \<Longrightarrow> accepts (bindP m f) Q"
  by (rule accepts_bind [OF accepts_any])

lemmas accepts_skips =
  accepts_skip [of _ _ "validateKeys t ks p" for t ks p] accepts_skip [of _ _ "readBool t k v p" for t k v p]
  accepts_skip [of _ _ "readString t k v r p" for t k v r p] accepts_skip [of _ _ "readSize t k v p" for t k v p]
  accepts_skip [of _ _ "optionalTable t k p" for t k p] accepts_skip [of _ _ "checkedTable t k p" for t k p]
  accepts_skip [of _ _ "unlessError ()"] accepts_skip [of _ _ "parseOptionValues t p" for t p]
  accepts_skip [of _ _ "parseStrategy t p" for t p]
  accepts_skip [of _ _ "parseReduceScatterAlgorithm t" for t] accepts_skip [of _ _ "parseAllReduceAlgorithm t" for t]

declare accepts_skips [accepts_intros]

lemma accepts_if [accepts_intros]:
  "(b \<Longrightarrow> accepts m P) \<Longrightarrow> (\<not> b \<Longrightarrow> accepts n P) \<Longrightarrow> accepts (if b then m else n) P"
  by simp

lemma accepts_option [accepts_intros]:
  "(opt = None \<Longrightarrow> accepts m P) \<Longrightarrow> (\<And>x. opt = Some x \<Longrightarrow> accepts (f x) P) \<Longrightarrow>
   accepts (case opt of None \<Rightarrow> m | Some x \<Rightarrow> f x) P"
  by (cases opt) simp_all

lemma accepts_for: "accepts (forP xs f) (\<lambda>_. \<forall>x \<in> set xs. \<exists>err. fst (f x err) \<noteq> None)"
proof (induction xs)
  case (Cons x xs)
  have "accepts (f x) (\<lambda>_. \<exists>err. fst (f x err) \<noteq> None)" by (rule acceptsI) (metis fst_conv option.distinct(1))
  from accepts_bind [OF this, of "\<lambda>_. forP xs f"] Cons show ?case by (auto simp: accepts_def)
qed (simp add: accepts_def)

lemma accepts_readInt:
  assumes "lo \<le> value" and "value \<le> hi"
  shows "accepts (readInt table key value lo hi path) (\<lambda>n. lo \<le> n \<and> n \<le> hi)"
  unfolding readInt_def Let_def by (intro accepts_intros) (use assms in auto)

lemma accepts_readParallelSize:
  "1 \<le> value \<Longrightarrow> value \<le> intMax \<Longrightarrow>
   accepts (readParallelSize required table key value path) (\<lambda>n. 1 \<le> n \<and> n \<le> intMax)"
  unfolding readParallelSize_def readRequiredInt_def by (intro accepts_intros accepts_readInt)

lemma accepts_names:
  assumes "distinct vals" and "\<forall>txt \<in> set vals. validCompressorName txt"
  shows "accepts (readNames place entries vals) (\<lambda>names. distinct names \<and> (\<forall>txt \<in> set names. validCompressorName txt))"
  using assms
proof (induction entries arbitrary: vals)
  case (Cons entry entries)
  show ?case
    unfolding readNames.simps
    by (intro accepts_intros Cons.IH) (use Cons.prems in \<open>auto simp: validCompressorName_def\<close>)
qed (auto intro: accepts_intros)

lemma accepts_readStringArray:
  assumes "distinct vals" and "\<forall>txt \<in> set vals. validCompressorName txt"
  shows "accepts (readStringArray table key vals path) (\<lambda>names. distinct names \<and> (\<forall>txt \<in> set names. validCompressorName txt))"
  unfolding readStringArray_def by (intro accepts_intros accepts_names) (use assms in auto)

lemma accepts_scope: "accepts (parseCompressorScope tableOpt path) well_formed_scope"
  unfolding parseCompressorScope_def Let_def
  by (intro accepts_intros) (simp_all add: well_formed_scope_def emptyScopeEntry_def)

lemma accepts_policy: "accepts (parsePrimitivePolicy tableOpt threshold path) well_formed_policy"
proof -
  have last: "well_formed_scope s0 \<Longrightarrow> well_formed_scope s1 \<Longrightarrow> well_formed_scope s2 \<Longrightarrow>
      well_formed_policy \<lparr>scopes = (\<lambda>_. emptyScopeEntry)(ScopeDefault := s0, ScopeIntra := s1, ScopeInter := s2), policyThresholdBytes = n\<rparr>"
    for s0 s1 s2 n by (simp add: well_formed_policy_def well_formed_scope_def emptyScopeEntry_def)
  have none: "well_formed_policy \<lparr>scopes = (\<lambda>_. emptyScopeEntry), policyThresholdBytes = threshold\<rparr>"
    by (simp add: well_formed_policy_def well_formed_scope_def emptyScopeEntry_def)
  show ?thesis
    unfolding parsePrimitivePolicy_def
    by (intro accepts_option accepts_return none accepts_skips accepts_bind [OF accepts_scope] last)
qed

lemma accepts_collectives: "accepts (parseCollectiveChildren tableOpt threshold path) well_formed_collectives"
  unfolding parseCollectiveChildren_def Let_def
  by (intro accepts_skips accepts_bind [OF accepts_policy] accepts_return) (simp add: well_formed_collectives_def)

lemma accepts_collectivePolicies: "accepts (parseCollectivePolicies tableOpt threshold path) well_formed_collectives"
  unfolding parseCollectivePolicies_def by (rule accepts_skip [OF accepts_collectives])

lemma accepts_normal:
  assumes "valid_settings cfg"
  shows "accepts (parseNormal tableOpt cfg) (\<lambda>c. valid_settings c \<and> well_formed_normal (normalPolicies c))"
  unfolding parseNormal_def Let_def
  by (rule accepts_skip)
    (intro accepts_skips accepts_bind [OF accepts_collectives] accepts_bind [OF accepts_policy] accepts_return,
     use assms in \<open>simp add: valid_settings_def well_formed_normal_def well_formed_collectives_def cocclCollectivePolicies.defs\<close>)

lemma accepts_classifier:
  assumes "valid_training t"
  shows "accepts (parseClassifier required table path t) valid_training"
  unfolding parseClassifier_def
  by (intro accepts_skips accepts_bind [OF accepts_readParallelSize] accepts_return)
    (use assms in \<open>auto simp: valid_training_def\<close>)

lemma accepts_pipelinePolicies:
  "accepts (parsePipelinePolicies tableOpt threshold path) (\<lambda>(p0, p1). well_formed_policy p0 \<and> well_formed_policy p1)"
  unfolding parsePipelinePolicies_def
  by (rule accepts_skip, rule accepts_skip, rule accepts_skip)
    (intro accepts_skips accepts_bind [OF accepts_policy] accepts_return, simp)

lemma accepts_training:
  assumes settings: "valid_settings cfg" and normal: "well_formed_normal (normalPolicies cfg)"
  shows "accepts (parseTraining tableOpt cfg)
    (\<lambda>c. valid_settings c \<and> well_formed_normal (normalPolicies c) \<and> well_formed_training (trainingPolicies c))"
proof -
  have obs: "accepts (readInt table key (observationIterations (trainingConfig cfg)) 2 100 path) (\<lambda>n. 2 \<le> n \<and> n \<le> 100)" for table key path
    by (rule accepts_readInt) (use settings in \<open>simp_all add: valid_settings_def valid_training_def\<close>)
  have classifier: "accepts (let t = (trainingConfig cfg)\<lparr>observationIterations := n\<rparr> in
      case opt of None \<Rightarrow> if required then failP msg else returnP t | Some table \<Rightarrow> parseClassifier required table path t) valid_training"
    if "2 \<le> n \<and> n \<le> 100" for n opt required msg path
    unfolding Let_def
    by (intro accepts_intros accepts_classifier) (use that settings in \<open>simp_all add: valid_settings_def valid_training_def\<close>)
  show ?thesis
    unfolding parseTraining_def Let_def [of "''training''"] Let_def [of "(_ = ModeTraining)"] Let_def [of "compressionThresholdBytes _"]
      Let_def [of "parentTable _"]
    by (rule accepts_if, rule accepts_fail, rule accepts_skip)
      (intro accepts_skips accepts_bind [OF obs] accepts_bind [OF classifier] accepts_bind [OF accepts_collectivePolicies]
        accepts_bind [OF accepts_pipelinePolicies],
       use settings normal in \<open>auto simp: valid_settings_def well_formed_training_def intro: accepts_return\<close>)
qed

text \<open>The sections that are read first.\<close>

lemma accepts_runtime:
  assumes "valid_settings cfg"
  shows "accepts (parseRuntime doc cfg) valid_settings"
proof -
  have fails: "accepts (\<lambda>err. if hasError err then (None, err) else failP msg err) valid_settings" for msg
    by (simp add: accepts_def failP_def)
  show ?thesis
    unfolding parseRuntime_def
    by (intro accepts_option fails accepts_skips accepts_if accepts_return accepts_fail)
      (use assms in \<open>simp_all add: valid_settings_def\<close>)
qed

lemma resolvePath_nonempty: "path \<noteq> [] \<Longrightarrow> resolvePath base path \<noteq> []"
  by (simp add: resolvePath_def Let_def)

lemma accepts_plugins:
  assumes "valid_settings cfg"
  shows "accepts (parsePlugins doc base cfg) valid_settings"
proof -
  have names: "accepts (readStringArray table key (compressors (plugins cfg)) path)
      (\<lambda>ns. distinct ns \<and> (\<forall>txt \<in> set ns. validCompressorName txt))" for table key path
    by (rule accepts_readStringArray) (use assms in \<open>simp_all add: valid_settings_def valid_catalog_def\<close>)
  show ?thesis
    unfolding parsePlugins_def
    by (intro accepts_option accepts_unless accepts_skips accepts_bind [OF names] accepts_if accepts_return accepts_fail assms)
      (use assms in \<open>auto simp: valid_settings_def valid_catalog_def resolvePath_nonempty\<close>)
qed

lemma accepts_pipeline:
  assumes "valid_settings cfg"
  shows "accepts (parsePipeline doc cfg) valid_settings"
proof -
  have dep: "accepts (readInt table key (pipelineDepth (pipelineConfig cfg)) kCocclMinPipelineDepth kCocclMaxPipelineDepth path)
      (\<lambda>n. kCocclMinPipelineDepth \<le> n \<and> n \<le> kCocclMaxPipelineDepth)" for table key path
    by (rule accepts_readInt)
      (use assms in \<open>simp_all add: valid_settings_def valid_pipeline_def kCocclMinPipelineDepth_def kCocclMaxPipelineDepth_def\<close>)
  show ?thesis
    unfolding parsePipeline_def
    by (intro accepts_option accepts_unless accepts_skips accepts_bind [OF dep] accepts_return assms)
      (use assms in \<open>simp add: valid_settings_def valid_pipeline_def kCocclMinPipelineDepth_def kCocclMaxPipelineDepth_def\<close>)
qed

lemma accepts_buffer:
  assumes "valid_settings cfg"
  shows "accepts (parseBuffer doc cfg) valid_settings"
  unfolding parseBuffer_def
  by (intro accepts_option accepts_unless accepts_skips accepts_if accepts_return accepts_fail assms)
    (use assms in \<open>simp add: valid_settings_def valid_buffer_def\<close>)

lemma accepts_autotune:
  assumes "valid_settings cfg"
  shows "accepts (parseAutotune doc cfg) valid_settings"
proof -
  have warm: "accepts (readInt table key (warmup (autotuneConfig cfg)) 0 100000 path) (\<lambda>n. 0 \<le> n \<and> n \<le> 100000)"
    and iters: "accepts (readInt table key (iterations (autotuneConfig cfg)) 1 100000 path) (\<lambda>n. 1 \<le> n \<and> n \<le> 100000)"
    for table key path
    by (rule accepts_readInt; use assms in \<open>simp add: valid_settings_def valid_autotune_def\<close>)+
  show ?thesis
    unfolding parseAutotune_def Let_def
    by (intro accepts_option accepts_unless accepts_skips accepts_bind [OF warm] accepts_bind [OF iters] accepts_if
        accepts_return accepts_fail assms)
      (use assms in \<open>auto simp: valid_settings_def valid_autotune_def word_gt_0 not_less\<close>)
qed

lemma default_settings: "valid_settings defaultConfig"
proof -
  have "valid_autotune defaultAutotuneConfig" "valid_buffer defaultBufferConfig"
    by (code_simp, code_simp)
  then show ?thesis
    by (simp add: valid_settings_def defaultConfig_def valid_catalog_def valid_pipeline_def valid_training_def
        defaultTrainingConfig_def intMax_def)
qed

lemma accepts_references:
  "accepts (validateCatalogReferences cfg)
     (\<lambda>_. \<forall>view \<in> set (cocclEnumeratePolicies cfg). \<forall>scope \<in> {ScopeDefault, ScopeIntra, ScopeInter}.
        scopeEnabled (scopes (viewPolicy view) scope) \<longrightarrow> scopeName (scopes (viewPolicy view) scope) \<in> set (compressors (plugins cfg)))"
proof (rule acceptsI)
  fix err u err'
  let ?xs = "concat (map (policyScopes \<circ> viewPolicy) (cocclEnumeratePolicies cfg))"
  assume "validateCatalogReferences cfg err = (Some u, err')"
  from acceptsD [OF accepts_for this [unfolded validateCatalogReferences_def]]
  have "\<forall>e \<in> set ?xs. scopeEnabled e \<longrightarrow> scopeName e \<in> set (compressors (plugins cfg))"
    by (fastforce simp: failP_def split: if_splits)
  then show "\<forall>view \<in> set (cocclEnumeratePolicies cfg). \<forall>scope \<in> {ScopeDefault, ScopeIntra, ScopeInter}.
        scopeEnabled (scopes (viewPolicy view) scope) \<longrightarrow> scopeName (scopes (viewPolicy view) scope) \<in> set (compressors (plugins cfg))"
    by (fastforce simp: policyScopes_def)
qed

lemma enumerated_well_formed:
  assumes "well_formed_normal (normalPolicies cfg)" and "well_formed_training (trainingPolicies cfg)"
    and "view \<in> set (cocclEnumeratePolicies cfg)"
  shows "well_formed_scope (scopes (viewPolicy view) scope)"
  using assms(3,1,2)
  by (auto simp: cocclEnumeratePolicies_def Let_def well_formed_normal_def well_formed_training_def well_formed_collectives_def
      well_formed_policy_def)

lemma accepts_file: "accepts (parseConfigFileImpl parse_file path defaultConfig) valid_config"
proof -
  have last: "accepts (bindP (validateCatalogReferences c) (\<lambda>_. returnP c)) valid_config"
    if "valid_settings c \<and> well_formed_normal (normalPolicies c) \<and> well_formed_training (trainingPolicies c)" for c
    by (rule accepts_bind [OF accepts_references])
      (use that enumerated_well_formed [of c] in \<open>auto intro!: accepts_return simp: valid_config_def valid_scope_def well_formed_scope_def\<close>)
  show ?thesis
    unfolding parseConfigFileImpl_def
    by (cases "parse_file path", simp add: accepts_fail, simp)
      (intro accepts_skips accepts_bind [OF accepts_runtime] accepts_bind [OF accepts_plugins] accepts_bind [OF accepts_pipeline]
        accepts_bind [OF accepts_buffer] accepts_bind [OF accepts_autotune] accepts_bind [OF accepts_normal]
        accepts_bind [OF accepts_training] last default_settings; simp)
qed

lemma load_Some:
  "cocclLoadConfigFile parse_file path outGiven err = (Some cfg, err') \<Longrightarrow>
   parseConfigFileImpl parse_file path defaultConfig (map_option (\<lambda>_. []) err) = (Some cfg, err')"
  by (auto simp: cocclLoadConfigFile_def failP_def Let_def split: if_splits)

text \<open>
  C17: a configuration that is accepted is valid, whatever the file holds: ranges hold, every name is a
  valid plugin name, the catalog has no duplicates, every enabled scope of every policy names a
  compressor of the catalog, and a disabled scope carries no compressor.
\<close>

theorem load_config_valid:
  assumes "cocclLoadConfigFile parse_file path outGiven err = (Some cfg, err')"
  shows "valid_config cfg"
  using load_Some [OF assms] by (rule acceptsD [OF accepts_file])

text \<open>A file with an enabled policy: the parser accepts it, and the theorem applies.\<close>

definition exampleToml :: toml_table where
  "exampleToml =
     [(''compressor_plugins'', TomlTable [(''compressors'', TomlArray [TomlString ''taco'']), (''library_path'', TomlString ''lib'')]),
      (''normal'', TomlTable [(''all_reduce'', TomlTable
         [(''default'', TomlTable [(''compressor'', TomlString ''taco''), (''config'', TomlTable [(''bits'', TomlInteger 8)])]),
          (''threshold_bytes'', TomlInteger 65536)])]),
      (''runtime'', TomlTable [(''mode'', TomlString ''normal'')])]"

lemmas parser_run = Let_def bindP_def returnP_def failP_def unlessError_def setError_def hasError_def

lemmas parse_defs =
  parser_run cocclLoadConfigFile_def parseConfigFileImpl_def parseRuntime_def parsePlugins_def parsePipeline_def parseBuffer_def
  parseAutotune_def parseNormal_def parseTraining_def validateCatalogReferences_def parseCollectivePolicies_def
  parseCollectiveChildren_def checkedTable_def parsePrimitivePolicy_def parseCompressorScope_def parsePipelinePolicies_def
  parentTable_def optionalTable_def readString_def readBool_def readSize_def readInt_def readStringArray_def validateKeys_def
  resolvePath_def configDirectory_def validCompressorName_def nameChar_def isalnum_def defaultConfig_def
  policyScopes_def cocclEnumeratePolicies_def emptyScopeEntry_def cocclCollectivePolicies.defs to_string_def decimal.simps

lemma example_accepted:
  "(case cocclLoadConfigFile (\<lambda>_. Inr exampleToml) ''/etc/coccl.toml'' True (Some []) of
     (None, _) \<Rightarrow> False
   | (Some cfg, err) \<Rightarrow> err = Some [] \<and> libraryPath (plugins cfg) = ''/etc/lib'' \<and> compressors (plugins cfg) = [''taco''] \<and>
       scopes (policyAllReduce (normalPolicies cfg)) ScopeDefault =
         \<lparr>scopeConfigured = True, scopeEnabled = True, scopeName = ''taco'', scopeValues = [(''bits'', ''8'')]\<rparr> \<and>
       scopes (policyAllReduce (normalPolicies cfg)) ScopeIntra = emptyScopeEntry \<and> runtimeMode (runtimeConfig cfg) = ModeNormal \<and>
       policyThresholdBytes (policyAllReduce (normalPolicies cfg)) = 65536)"
proof -
  have "char_of (56 :: nat) = CHR ''8''" by code_simp
  then show ?thesis by (simp add: exampleToml_def parse_defs unsigned_minus_1_eq_mask mask_eq_exp_minus_1)
qed

theorem load_config_valid_witness:
  "\<exists>cfg err. cocclLoadConfigFile (\<lambda>_. Inr exampleToml) ''/etc/coccl.toml'' True (Some []) = (Some cfg, err) \<and>
     compressors (plugins cfg) = [''taco''] \<and> valid_config cfg"
proof -
  obtain cfg err where run: "cocclLoadConfigFile (\<lambda>_. Inr exampleToml) ''/etc/coccl.toml'' True (Some []) = (Some cfg, err)"
      "compressors (plugins cfg) = [''taco'']"
    using example_accepted by (auto split: prod.splits option.splits)
  from load_config_valid [OF run(1)] run show ?thesis by blast
qed

section \<open>Rejected files leave a message\<close>

definition reports :: "'a parser \<Rightarrow> bool" where
  "reports m \<longleftrightarrow> (\<forall>msg err'. m (Some msg) = (None, err') \<longrightarrow> hasError err') \<and> (\<forall>msg. snd (m (Some msg)) \<noteq> None)"

named_theorems reports_intros \<open>rules for routines that explain a failure\<close>

lemma reports_return [reports_intros]: "reports (returnP x)"
  by (simp add: reports_def returnP_def)

lemma reports_fail [reports_intros]: "msg \<noteq> [] \<Longrightarrow> reports (failP msg)"
  by (simp add: reports_def failP_def hasError_def setError_def)

lemma reports_unless [reports_intros]: "reports (unlessError x)"
  by (simp add: reports_def unlessError_def)

lemma reports_bind [reports_intros]:
  assumes "reports m" and "\<And>x. reports (f x)"
  shows "reports (bindP m f)"
proof -
  have "(fst (bindP m f (Some msg)) = None \<longrightarrow> hasError (snd (bindP m f (Some msg)))) \<and> snd (bindP m f (Some msg)) \<noteq> None" for msg
  proof (cases "m (Some msg)")
    case (Pair r err)
    with assms(1) obtain msg' where "err = Some msg'" unfolding reports_def by (metis not_Some_eq snd_conv)
    with Pair assms show ?thesis
      by (cases r) (auto simp: reports_def bindP_def, metis fst_conv prod.collapse)
  qed
  then show ?thesis unfolding reports_def by (metis fst_conv snd_conv)
qed

lemma reports_if [reports_intros]: "(b \<Longrightarrow> reports m) \<Longrightarrow> (\<not> b \<Longrightarrow> reports n) \<Longrightarrow> reports (if b then m else n)"
  by simp

lemma reports_option [reports_intros]:
  "reports m \<Longrightarrow> (\<And>x. reports (f x)) \<Longrightarrow> reports (case opt of None \<Rightarrow> m | Some x \<Rightarrow> f x)"
  by (cases opt) simp_all

lemma reports_prod [reports_intros]: "(\<And>a b. reports (f a b)) \<Longrightarrow> reports (case p of (a, b) \<Rightarrow> f a b)"
  by (cases p) simp

lemma reports_for [reports_intros]: "(\<And>x. reports (f x)) \<Longrightarrow> reports (forP xs f)"
  by (induction xs) (auto intro: reports_intros)

lemma reports_optionalTable [reports_intros]: "reports (optionalTable table key path)"
  by (simp add: reports_def optionalTable_def setError_def split: option.splits)

lemma reports_readers [reports_intros]:
  "reports (validateKeys table keys path)" "reports (readString table key txt required path)"
  "reports (readBool table key b path)" "reports (readSize table key n path)" "reports (readInt table key i lo hi path)"
  "reports (readRequiredInt table key i lo hi path)" "reports (readParallelSize required table key i path)"
  unfolding validateKeys_def readString_def readBool_def readSize_def readInt_def readRequiredInt_def readParallelSize_def Let_def
  by (intro reports_intros; simp add: dotted_def)+

lemma reports_names [reports_intros]: "reports (readNames place entries vals)"
  by (induction entries arbitrary: vals) (auto simp only: readNames.simps intro!: reports_intros)

lemma reports_vals [reports_intros]: "reports (parseOptionValues table path)"
  by (induction table) (auto simp only: parseOptionValues.simps split_paired_all dotted_def intro!: reports_intros)

lemma reports_policy [reports_intros]: "reports (parsePrimitivePolicy tableOpt threshold path)"
  unfolding parsePrimitivePolicy_def parseCompressorScope_def Let_def by (intro reports_intros) simp_all

lemma reports_collectives [reports_intros]:
  "reports (parseCollectiveChildren tableOpt threshold path)" "reports (parseCollectivePolicies tableOpt threshold path)"
  unfolding parseCollectivePolicies_def parseCollectiveChildren_def checkedTable_def Let_def
  by (intro reports_intros)+

lemma reports_sections [reports_intros]:
  "reports (parseNormal tableOpt cfg)" "reports (parsePlugins doc path cfg)" "reports (parsePipeline doc cfg)"
  "reports (parseBuffer doc cfg)" "reports (parseAutotune doc cfg)" "reports (parseStrategy txt path)"
  unfolding parseNormal_def parsePlugins_def parsePipeline_def parseBuffer_def parseAutotune_def Let_def
    parseReduceScatterAlgorithm_def parseAllReduceAlgorithm_def parseStrategy_def readStringArray_def
  by (intro reports_intros; simp add: dotted_def)+

lemma reports_training [reports_intros]: "reports (parseTraining tableOpt cfg)"
  unfolding parseTraining_def parseClassifier_def parsePipelinePolicies_def Let_def by (intro reports_intros) simp_all

lemma reports_runtime [reports_intros]: "reports (parseRuntime doc cfg)"
proof -
  have "reports (\<lambda>err. if hasError err then (None, err) else failP ''runtime table is required'' err)"
    by (simp add: reports_def failP_def hasError_def setError_def)
  then show ?thesis unfolding parseRuntime_def by (intro reports_intros) simp_all
qed

lemma load_config_reports:
  assumes "parse_file path \<noteq> Inl []" and "cocclLoadConfigFile parse_file path outGiven (Some msg) = (None, err)"
  shows "hasError err"
proof -
  have "reports (parseConfigFileImpl parse_file path defaultConfig)"
    using assms(1) unfolding parseConfigFileImpl_def validateCatalogReferences_def
    by (cases "parse_file path") (auto intro!: reports_intros)
  then show ?thesis
    using assms(2) by (auto simp: cocclLoadConfigFile_def Let_def reports_def failP_def setError_def hasError_def [of "Some _"] split: if_splits)
qed

end
