(* ===== verification/Autotune_Profile.thy ===== *)
theory Autotune_Profile
  imports Autotune_Select Pipeline_Stage Config_Parse
begin

text \<open>
  The profiler of the autotuner, \<^verbatim>\<open>core/tuning/coccl_autotune_profiler.cc\<close>: when a communicator is
  initialised its ranks agree on what has to be measured, time exchanges and compressor runs for a
  range of sizes, combine the measurements of all ranks and publish the fitted models process-wide.

  Ranks talk through \<^verbatim>\<open>bootstrapAllGather\<close> of the NCCL core. What the peers contribute to the n-th
  all-gather is an environment; the world keeps what was received, so that statements about several
  ranks can say that they received the same. A loop that does not end is the code \<open>ncclNumResults\<close>,
  which no function returns; with a valid configuration it does not occur.
\<close>

section \<open>Data\<close>

record cocclProfileObservation =
  timeUs :: double
  observedRatio :: double
  obsActive :: bool
  obsValid :: bool

definition emptyObservation :: cocclProfileObservation where
  "emptyObservation = \<lparr>timeUs = Fin 0, observedRatio = Fin 0, obsActive = False, obsValid = False\<rparr>"

datatype gather =
  GatherNeeds "32 word list" | GatherBytes "64 word list" | GatherObservations "cocclProfileObservation list"

record bootstrap_env =
  peerNeeds :: "nat \<Rightarrow> nat \<Rightarrow> 32 word"
  peerBytes :: "nat \<Rightarrow> nat \<Rightarrow> 64 word"
  peerObservation :: "nat \<Rightarrow> nat \<Rightarrow> cocclProfileObservation"

record profile_world = pipeline_world +
  performance :: cocclProcessPerformanceModel
  gathered :: "gather list"

text \<open>The array every rank has after the all-gather: its own contribution in its place.\<close>

definition allGather ::
  "api_env \<Rightarrow> ncclComm \<Rightarrow> size_t \<Rightarrow> (nat \<Rightarrow> nat \<Rightarrow> 'a) \<Rightarrow> ('a list \<Rightarrow> gather) \<Rightarrow> 'a \<Rightarrow>
   ('w profile_world_scheme, 'a list) comp" where
  "allGather env comm bytes peers wrap own =
     bindC (NCCLCHECK env (Nccl (bootstrapAllGather (self comm) bytes))) (\<lambda>_.
     bindC (getC (\<lambda>w. map (\<lambda>r. if int r = rank comm then own else peers (length (gathered w)) r) [0..<nat (nRanks comm)])) (\<lambda>xs.
     bindC (modifyC (\<lambda>w. w\<lparr>gathered := gathered w @ [wrap xs]\<rparr>)) (\<lambda>_. returnC xs)))"

section \<open>Needs\<close>

definition cocclProfileNeedIntra :: "32 word" where
  "cocclProfileNeedIntra = 1"

definition cocclProfileNeedInter :: "32 word" where
  "cocclProfileNeedInter = 2"

definition cocclProfileNeedCompressors :: "32 word" where
  "cocclProfileNeedCompressors = 4"

definition localProfileNeeds :: "ncclComm \<Rightarrow> cocclProcessPerformanceModel \<Rightarrow> 32 word" where
  "localProfileNeeds comm perf =
     (let hasCompressors = (enabledCompressors perf \<noteq> []);
          missing = (\<lambda>need. attemptedProfiles perf AND need = 0) in
      (if hasCompressors \<and> localRanks comm > 1 \<and> missing cocclProfileNeedIntra then cocclProfileNeedIntra else 0) OR
      (if hasCompressors \<and> nNodes comm > 1 \<and> missing cocclProfileNeedInter then cocclProfileNeedInter else 0) OR
      (if hasCompressors \<and> missing cocclProfileNeedCompressors then cocclProfileNeedCompressors else 0))"

definition updatePerformance ::
  "(cocclProcessPerformanceModel \<Rightarrow> cocclProcessPerformanceModel) \<Rightarrow> ('w profile_world_scheme, unit) comp" where
  "updatePerformance f = modifyC (\<lambda>w. w\<lparr>performance := f (performance w)\<rparr>)"

definition markProfilesAttempted :: "32 word \<Rightarrow> ('w profile_world_scheme, unit) comp" where
  "markProfilesAttempted needs = updatePerformance (\<lambda>perf. perf\<lparr>attemptedProfiles := attemptedProfiles perf OR needs\<rparr>)"

definition collectiveProfileNeeds ::
  "api_env \<Rightarrow> bootstrap_env \<Rightarrow> ncclComm \<Rightarrow> 32 word \<Rightarrow> ('w profile_world_scheme, 32 word) comp" where
  "collectiveProfileNeeds env boot comm localNeeds =
     bindC (allGather env comm 4 (peerNeeds boot) GatherNeeds localNeeds) (\<lambda>allNeeds.
     returnC (foldl (OR) 0 allNeeds))"

definition cocclAutotuneRegisterEnabledCompressor :: "ptr \<Rightarrow> cocclPolicyKey \<Rightarrow> ('w profile_world_scheme, unit) comp" where
  "cocclAutotuneRegisterEnabledCompressor compressor policy =
     updatePerformance (\<lambda>perf.
       if list_ex (\<lambda>item. profiledCompressor item = compressor) (enabledCompressors perf) then perf
       else perf\<lparr>enabledCompressors := enabledCompressors perf @
              [\<lparr>profiledCompressor = compressor, profiledPolicy = policy\<rparr>]\<rparr>)"

section \<open>Sample sizes\<close>

partial_function (option) sampleLoop :: "size_t \<Rightarrow> size_t \<Rightarrow> size_t list option" where
  "sampleLoop effectiveMax bytes =
     (if bytes \<le> effectiveMax
      then if bytes > effectiveMax div 4 then Some [bytes]
           else Option.bind (sampleLoop effectiveMax (bytes * 4)) (\<lambda>sizes. Some (bytes # sizes))
      else Some [])"

declare sampleLoop.simps [code]

text \<open>The sizes between two bounds: powers of four times the lower one, and the upper one at the end.\<close>

definition sampleSizes :: "size_t \<Rightarrow> size_t \<Rightarrow> size_t list option" where
  "sampleSizes configuredMin effectiveMax =
     (if effectiveMax < configuredMin then Some []
      else Option.bind (sampleLoop effectiveMax configuredMin) (\<lambda>sizes.
        Some (if last sizes < effectiveMax then sizes @ [effectiveMax] else sizes)))"

definition buildSampleSizes ::
  "api_env \<Rightarrow> bootstrap_env \<Rightarrow> cocclAutotuneConfig \<Rightarrow> ncclComm \<Rightarrow> ('w profile_world_scheme, size_t list) comp" where
  "buildSampleSizes env boot cfg comm =
     bindC (CUDACHECK env (CudaMemory cudaMemGetInfo)) (\<lambda>freeBytes.
     bindC (allGather env comm 8 (peerBytes boot) GatherBytes (min (profileMaxBytes cfg) (freeBytes div 4))) (\<lambda>allMax.
     liftE (fromOption ncclNumResults (sampleSizes (profileMinBytes cfg) (foldl min (profileMaxBytes cfg) allMax)))))"

section \<open>Aggregation\<close>

text \<open>
  \<^verbatim>\<open>std::nth_element\<close> on a copy of the values: the order statistic. It is applied to finite values; the
  order of a NaN is not specified by the library.
\<close>

fun insertDouble :: "double \<Rightarrow> double list \<Rightarrow> double list" where
  "insertDouble x [] = [x]"
| "insertDouble x (y # ys) = (if dlt y x then y # insertDouble x ys else x # y # ys)"

definition sortDoubles :: "double list \<Rightarrow> double list" where
  "sortDoubles xs = foldr insertDouble xs []"

definition median :: "rounding \<Rightarrow> double list \<Rightarrow> double" where
  "median fl vals =
     (if vals = [] then Fin 0
      else
        let middle = length vals div 2; sorted = sortDoubles vals; result = sorted ! middle in
        if even (length vals) then dmul fl (dadd fl result (sorted ! (middle - 1))) (Fin (1 / 2)) else result)"

fun aggregateLoop ::
  "cocclProfileObservation list \<Rightarrow> cocclProfileObservation \<times> bool \<times> double list \<Rightarrow>
   cocclProfileObservation \<times> bool \<times> double list" where
  "aggregateLoop [] st = st"
| "aggregateLoop (obs # observations) (aggregate, allActiveRanksValid, ratios) =
     (if \<not> obsActive obs then aggregateLoop observations (aggregate, allActiveRanksValid, ratios)
      else
        let aggregate = aggregate\<lparr>obsActive := True\<rparr> in
        if \<not> obsValid obs \<or> \<not> isfinite (timeUs obs) \<or> dle (timeUs obs) (Fin 0)
        then aggregateLoop observations (aggregate, False, ratios)
        else aggregateLoop observations
               (aggregate\<lparr>timeUs := dmax (timeUs aggregate) (timeUs obs)\<rparr>, allActiveRanksValid,
                if isfinite (observedRatio obs) \<and> dlt (Fin 0) (observedRatio obs) then ratios @ [observedRatio obs] else ratios))"

definition aggregateAll :: "rounding \<Rightarrow> cocclProfileObservation list \<Rightarrow> cocclProfileObservation" where
  "aggregateAll fl observations =
     (case aggregateLoop observations (emptyObservation, True, []) of
        (aggregate, allActiveRanksValid, ratios) \<Rightarrow>
          let aggregate = aggregate\<lparr>obsValid := obsActive aggregate \<and> allActiveRanksValid\<rparr> in
          if obsValid aggregate \<and> ratios \<noteq> [] then aggregate\<lparr>observedRatio := median fl ratios\<rparr> else aggregate)"

definition aggregateObservation ::
  "api_env \<Rightarrow> bootstrap_env \<Rightarrow> rounding \<Rightarrow> ncclComm \<Rightarrow> cocclProfileObservation \<Rightarrow>
   ('w profile_world_scheme, cocclProfileObservation) comp" where
  "aggregateObservation env boot fl comm own =
     bindC (allGather env comm 24 (peerObservation boot) GatherObservations own) (\<lambda>observations.
     returnC (aggregateAll fl observations))"

section \<open>Exchanges between two ranks\<close>

definition exchangeInfo :: "ncclComm \<Rightarrow> size_t \<Rightarrow> int \<Rightarrow> ptr \<Rightarrow> cocclInfo" where
  "exchangeInfo comm bytes peer strm =
     emptyInfo\<lparr>infoCount := bytes, infoDatatype := ncclInt8, infoPeer := peer, infoOperation := SendRecv,
       infoComm := Some comm, infoStream := strm\<rparr>"

text \<open>
  The profiler runs on the thread that initialises the communicator, on which the layer has no pending
  calls, so that \<^verbatim>\<open>ncclGroupEnd\<close> is the end of the group in the core.
\<close>

definition enqueueP2pExchange ::
  "api_env \<Rightarrow> ncclComm \<Rightarrow> ptr \<Rightarrow> ptr \<Rightarrow> size_t \<Rightarrow> int \<Rightarrow> int \<Rightarrow> ptr \<Rightarrow> 'w native_world_scheme coded" where
  "enqueueP2pExchange env comm sendBuffer recvBuffer bytes sendPeer recvPeer strm w =
     (let (started, w1) = ncclGroupStart w in
      if \<not> nccl_ok started then (started, w1)
      else
        let (r1, w2) = cocclReplayNativeCall env
              ((exchangeInfo comm bytes recvPeer strm)\<lparr>infoRecv := recvBuffer, infoFunc := ncclFuncRecv\<rparr>) w1;
            (ret, w3) = (if nccl_ok r1
              then cocclReplayNativeCall env
                ((exchangeInfo comm bytes sendPeer strm)\<lparr>infoSend := sendBuffer, infoFunc := ncclFuncSend\<rparr>) w2
              else (r1, w2));
            (groupResult, w4) = ncclGroupEndInternal env w3 in
        (if ret = ncclSuccess then groupResult else ret, w4))"

text \<open>The neighbours on the ring of the node, or of the ranks with the same local rank on all nodes.\<close>

definition topologyPeers :: "ncclComm \<Rightarrow> bool \<Rightarrow> (int \<times> int) option" where
  "topologyPeers comm interNode =
     (if \<not> interNode
      then if localRanks comm \<le> 1 then None
           else Some (localRankToRank comm ((localRank comm + 1) mod localRanks comm),
                      localRankToRank comm ((localRank comm - 1 + localRanks comm) mod localRanks comm))
      else if nNodes comm \<le> 1 then None
      else
        let commonLocalRanks = foldl (\<lambda>common n. min common (nodeLocalRanks comm (int n))) (nodeLocalRanks comm 0)
              [1..<nat (nNodes comm)] in
        if localRank comm \<ge> commonLocalRanks then None
        else Some (nodeLocalRankToRank comm ((node comm + 1) mod nNodes comm) (localRank comm),
                   nodeLocalRankToRank comm ((node comm - 1 + nNodes comm) mod nNodes comm) (localRank comm)))"

text \<open>
  A handle that is created, used and given back when it is not null, on every way out. The code has
  one exit for all handles, which gives them back in the opposite order.
\<close>

definition withHandle ::
  "api_env \<Rightarrow> api_call \<Rightarrow> (ptr \<Rightarrow> api_call) \<Rightarrow> (ptr \<Rightarrow> ('w api_world_scheme, 'a) comp) \<Rightarrow> ('w api_world_scheme, 'a) comp" where
  "withHandle env create destroy body w =
     (case CUDACHECK env create w of
        (Inl e, w1) \<Rightarrow> (Inl e, w1)
      | (Inr h, w1) \<Rightarrow>
          (case body h w1 of
             (r, w2) \<Rightarrow> (r, if h \<noteq> nullptr then snd (callApi env (destroy h) w2) else w2)))"

primrec repeatC :: "nat \<Rightarrow> ('s, 'a) comp \<Rightarrow> ('s, 'a list) comp" where
  "repeatC 0 m = returnC []"
| "repeatC (Suc n) m = bindC m (\<lambda>x. bindC (repeatC n m) (\<lambda>xs. returnC (x # xs)))"

primrec collectC :: "'a list \<Rightarrow> ('a \<Rightarrow> ('s, 'b option) comp) \<Rightarrow> ('s, 'b list) comp" where
  "collectC [] f = returnC []"
| "collectC (x # xs) f =
     bindC (f x) (\<lambda>y. bindC (collectC xs f) (\<lambda>ys. returnC (case y of None \<Rightarrow> ys | Some v \<Rightarrow> v # ys)))"

text \<open>The value of the \<^verbatim>\<open>float\<close> with the given bits.\<close>

definition floatOf :: "64 word \<Rightarrow> double" where
  "floatOf v =
     (let bits = uint v mod 2 ^ 32; expo = bits div 2 ^ 23 mod 256; frct = bits mod 2 ^ 23;
          magnitude = (if expo = 255 then (if frct = 0 then PosInf else NaN)
                       else if expo = 0 then Fin (of_int frct / 2 ^ 149)
                       else Fin (of_int (2 ^ 23 + frct) * 2 ^ nat expo / 2 ^ 150)) in
      if bits div 2 ^ 31 = 1 then dneg magnitude else magnitude)"

definition elapsedUs :: "rounding \<Rightarrow> 64 word \<Rightarrow> double" where
  "elapsedUs fl v = dmul fl (floatOf v) (Fin 1000)"

definition timedExchange ::
  "api_env \<Rightarrow> rounding \<Rightarrow> ptr \<Rightarrow> ptr \<Rightarrow> ptr \<Rightarrow> ('w profile_world_scheme, unit) comp \<Rightarrow> ('w profile_world_scheme, double) comp" where
  "timedExchange env fl start stop strm exchange =
     bindC (CUDACHECK env (Cuda (cudaEventRecord start strm))) (\<lambda>_.
     bindC exchange (\<lambda>_.
     bindC (CUDACHECK env (Cuda (cudaEventRecord stop strm))) (\<lambda>_.
     bindC (CUDACHECK env (Cuda (cudaEventSynchronize stop))) (\<lambda>_.
     bindC (CUDACHECK env (Cuda (cudaEventElapsedTime start stop))) (\<lambda>v.
     returnC (elapsedUs fl v))))))"

definition observeP2p ::
  "api_env \<Rightarrow> rounding \<Rightarrow> cocclAutotuneConfig \<Rightarrow> ncclComm \<Rightarrow> (int \<times> int) option \<Rightarrow> ptr \<Rightarrow> ptr \<Rightarrow> ptr \<Rightarrow> ptr \<Rightarrow> ptr \<Rightarrow> size_t \<Rightarrow>
   ('w profile_world_scheme, cocclProfileObservation) comp" where
  "observeP2p env fl cfg comm peers sendBuffer recvBuffer strm start stop bytes =
     (case peers of
        None \<Rightarrow> returnC emptyObservation
      | Some (sendPeer, recvPeer) \<Rightarrow>
          let exchange = checkR (enqueueP2pExchange env comm sendBuffer recvBuffer bytes sendPeer recvPeer strm) in
          bindC (repeatC (nat (warmup cfg)) exchange) (\<lambda>_.
          bindC (CUDACHECK env (Cuda (cudaStreamSynchronize strm))) (\<lambda>_.
          bindC (repeatC (nat (iterations cfg)) (timedExchange env fl start stop strm exchange)) (\<lambda>times.
          let t = median fl times in
          returnC (emptyObservation\<lparr>obsActive := True, timeUs := t, obsValid := dlt (Fin 0) t\<rparr>)))))"

text \<open>A conversion of a size to \<^verbatim>\<open>double\<close> rounds.\<close>

definition doubleOfSize :: "rounding \<Rightarrow> size_t \<Rightarrow> double" where
  "doubleOfSize fl n = fl (real (unat n))"

definition p2pPoint :: "rounding \<Rightarrow> size_t \<Rightarrow> cocclProfileObservation \<Rightarrow> cocclAutotuneProfilePoint option" where
  "p2pPoint fl bytes aggregate =
     (if obsValid aggregate then Some \<lparr>pointBytes = doubleOfSize fl bytes, pointTimeUs = timeUs aggregate\<rparr> else None)"

definition profileP2p ::
  "api_env \<Rightarrow> bootstrap_env \<Rightarrow> rounding \<Rightarrow> cocclAutotuneConfig \<Rightarrow> ncclComm \<Rightarrow> bool \<Rightarrow> size_t list \<Rightarrow>
   ('w profile_world_scheme, cocclLinearModel) comp" where
  "profileP2p env boot fl cfg comm interNode sizes =
     (let peers = topologyPeers comm interNode; bytes = last sizes in
      bindC (CUDACHECK env (Cuda (cudaSetDevice (cudaDev comm)))) (\<lambda>_.
      withHandle env (CudaMemory (cudaMalloc bytes)) (CudaMemory \<circ> cudaFree) (\<lambda>sendBuffer.
      withHandle env (CudaMemory (cudaMalloc bytes)) (CudaMemory \<circ> cudaFree) (\<lambda>recvBuffer.
      bindC (CUDACHECK env (CudaMemory (cudaMemset sendBuffer bytes))) (\<lambda>_.
      withHandle env (Cuda cudaStreamCreateWithFlags) (Cuda \<circ> cudaStreamDestroy) (\<lambda>strm.
      withHandle env (Cuda cudaEventCreate) (Cuda \<circ> cudaEventDestroy) (\<lambda>start.
      withHandle env (Cuda cudaEventCreate) (Cuda \<circ> cudaEventDestroy) (\<lambda>stop.
      bindC (collectC sizes (\<lambda>bytes.
        bindC (observeP2p env fl cfg comm peers sendBuffer recvBuffer strm start stop bytes) (\<lambda>own.
        bindC (aggregateObservation env boot fl comm own) (\<lambda>aggregate. returnC (p2pPoint fl bytes aggregate))))) (\<lambda>points.
      returnC (cocclAutotuneFitLinearModel fl points))))))))))"

section \<open>Compressor runs\<close>

text \<open>The compressor entry points use no pool.\<close>

definition withoutPools :: "'w view_comp \<Rightarrow> 'w compressor_world_scheme \<Rightarrow> (ncclResult_t \<times> cocclCompressorView) \<times> 'w compressor_world_scheme" where
  "withoutPools m w = (case m ([], w) of (r, _, w') \<Rightarrow> (r, w'))"

text \<open>\<^verbatim>\<open>&&\<close> of two steps, and a call whose result is compared with \<^verbatim>\<open>cudaSuccess\<close>.\<close>

definition andThen :: "('s \<Rightarrow> bool \<times> 's) \<Rightarrow> ('s \<Rightarrow> bool \<times> 's) \<Rightarrow> 's \<Rightarrow> bool \<times> 's" where
  "andThen m n s = (case m s of (b, s1) \<Rightarrow> if b then n s1 else (False, s1))"

definition succeeded :: "api_env \<Rightarrow> api_call \<Rightarrow> 'w api_world_scheme \<Rightarrow> bool \<times> 'w api_world_scheme" where
  "succeeded env c w = (case callApi env c w of (r, w1) \<Rightarrow> (status r = ncclSuccess, w1))"

text \<open>One compression and decompression: whether it went well, and the variable \<^verbatim>\<open>compressedBytes\<close>.\<close>

definition runCompressorIteration ::
  "api_env \<Rightarrow> ncclComm \<Rightarrow> ptr \<Rightarrow> ptr \<Rightarrow> ptr \<Rightarrow> size_t \<Rightarrow> size_t \<Rightarrow> ptr \<Rightarrow> ptr \<Rightarrow> size_t \<Rightarrow> 'w profile_world_scheme \<Rightarrow>
   (bool \<times> size_t) \<times> 'w profile_world_scheme" where
  "runCompressorIteration env comm compressor rawBuffer compressedBuffer bytes compressedCapacity strm frameMetadata
     compressedBytes w =
     (let elems = bytes div 4;
          input = \<lparr>viewData = rawBuffer, viewCapacityBytes = bytes, viewBytes = bytes, viewElements = elems, viewChunks = 1,
            viewDatatype = ncclFloat32, viewFrameMetadata = nullptr, viewFrameStrideBytes = 0\<rparr>;
          encoded = \<lparr>viewData = compressedBuffer, viewCapacityBytes = compressedCapacity, viewBytes = 0, viewElements = 0,
            viewChunks = 1, viewDatatype = ncclInt8, viewFrameMetadata = frameMetadata,
            viewFrameStrideBytes = (if frameMetadata = nullptr then 0 else bytes)\<rparr>;
          ((result, encoded), w1) = withoutPools (ncclCompress env compressor input encoded (rank comm) strm) w in
      if result \<noteq> ncclSuccess then ((False, compressedBytes), w1)
      else
        let compressedBytes = viewBytes encoded in
        if compressedBytes = 0 \<or> compressedBytes > bytes then ((False, compressedBytes), w1)
        else
          let decoded = input\<lparr>viewBytes := 0\<rparr>;
              ((result, _), w2) = withoutPools (ncclDecompress env compressor
                 (encoded\<lparr>viewCapacityBytes := viewBytes encoded\<rparr>) decoded strm) w1 in
          ((result = ncclSuccess, compressedBytes), w2))"

record compressor_run =
  runValid :: bool
  runBytes :: size_t
  runTimes :: "double list"

text \<open>\<open>iter\<close> is \<^verbatim>\<open>runCompressorIteration\<close> with everything but \<^verbatim>\<open>compressedBytes\<close>, \<open>clear\<close> the \<^verbatim>\<open>cudaMemsetAsync\<close> before it.\<close>

type_synonym 'w run_iteration = "size_t \<Rightarrow> 'w profile_world_scheme \<Rightarrow> (bool \<times> size_t) \<times> 'w profile_world_scheme"

fun warmRuns ::
  "api_env \<Rightarrow> api_call \<Rightarrow> 'w run_iteration \<Rightarrow> nat \<Rightarrow> compressor_run \<Rightarrow> 'w profile_world_scheme \<Rightarrow> compressor_run \<times> 'w profile_world_scheme" where
  "warmRuns env clear iter 0 st w = (st, w)"
| "warmRuns env clear iter (Suc n) st w =
     (if \<not> runValid st then (st, w)
      else
        let (cleared, w1) = succeeded env clear w in
        if \<not> cleared then (st\<lparr>runValid := False\<rparr>, w1)
        else
          let ((fine, bytes), w2) = iter (runBytes st) w1 in
          warmRuns env clear iter n (st\<lparr>runValid := fine, runBytes := bytes\<rparr>) w2)"

fun timedRuns ::
  "api_env \<Rightarrow> rounding \<Rightarrow> api_call \<Rightarrow> ptr \<Rightarrow> ptr \<Rightarrow> ptr \<Rightarrow> 'w run_iteration \<Rightarrow> nat \<Rightarrow> compressor_run \<Rightarrow> 'w profile_world_scheme \<Rightarrow>
   compressor_run \<times> 'w profile_world_scheme" where
  "timedRuns env fl clear start stop strm iter 0 st w = (st, w)"
| "timedRuns env fl clear start stop strm iter (Suc n) st w =
     (if \<not> runValid st then (st, w)
      else
        let (ready, w1) = andThen (succeeded env clear) (succeeded env (Cuda (cudaEventRecord start strm))) w in
        if \<not> ready then (st\<lparr>runValid := False\<rparr>, w1)
        else
          let ((fine, bytes), w2) = iter (runBytes st) w1;
              (stopped, w3) = (if fine then andThen (succeeded env (Cuda (cudaEventRecord stop strm)))
                 (succeeded env (Cuda (cudaEventSynchronize stop))) w2 else (False, w2));
              st = st\<lparr>runValid := stopped, runBytes := bytes\<rparr> in
          if \<not> stopped then (st, w3)
          else
            let (r, w4) = callApi env (Cuda (cudaEventElapsedTime start stop)) w3 in
            if status r = ncclSuccess
            then timedRuns env fl clear start stop strm iter n (st\<lparr>runTimes := runTimes st @ [elapsedUs fl (outValue r)]\<rparr>) w4
            else timedRuns env fl clear start stop strm iter n (st\<lparr>runValid := False\<rparr>) w4)"

definition frameUsable :: "cocclCompressorFrameMetadata \<Rightarrow> size_t \<Rightarrow> bool" where
  "frameUsable metadata bytes \<longleftrightarrow>
     payloadBytes metadata > 0 \<and> payloadBytes metadata \<le> bytes \<and>
     (encoding metadata = cocclCompressorFrameEncoded \<or>
      (encoding metadata = cocclCompressorFrameRaw \<and> payloadBytes metadata = bytes))"

text \<open>\<open>mem\<close> is the metadata record the plugin left on the device, as the copy to the host finds it.\<close>

definition readFrame ::
  "api_env \<Rightarrow> (nat \<Rightarrow> ptr \<Rightarrow> cocclCompressorFrameMetadata) \<Rightarrow> ptr \<Rightarrow> ptr \<Rightarrow> size_t \<Rightarrow> compressor_run \<Rightarrow> 'w profile_world_scheme \<Rightarrow>
   compressor_run \<times> 'w profile_world_scheme" where
  "readFrame env mem hostFrame deviceFrame bytes st w =
     (let metadata = mem (length (apiLog w)) deviceFrame;
          (copied, w1) = succeeded env (CudaMemory (cudaMemcpy hostFrame deviceFrame sizeof_frameMetadata)) w in
      if copied \<and> frameUsable metadata bytes then (st\<lparr>runBytes := payloadBytes metadata\<rparr>, w1)
      else (st\<lparr>runValid := False\<rparr>, w1))"

definition runObservation :: "rounding \<Rightarrow> size_t \<Rightarrow> compressor_run \<Rightarrow> cocclProfileObservation" where
  "runObservation fl bytes st =
     (if runValid st \<and> runTimes st \<noteq> [] \<and> runBytes st > 0
      then emptyObservation\<lparr>obsActive := True, timeUs := median fl (runTimes st),
             observedRatio := ddiv fl (doubleOfSize fl bytes) (doubleOfSize fl (runBytes st)), obsValid := True\<rparr>
      else emptyObservation\<lparr>obsActive := True\<rparr>)"

definition observeCompressor ::
  "api_env \<Rightarrow> (nat \<Rightarrow> ptr \<Rightarrow> cocclCompressorFrameMetadata) \<Rightarrow> rounding \<Rightarrow> cocclAutotuneConfig \<Rightarrow> ncclComm \<Rightarrow> ptr \<Rightarrow> bool \<Rightarrow>
   ptr \<Rightarrow> ptr \<Rightarrow> ptr \<Rightarrow> ptr \<Rightarrow> size_t \<Rightarrow> ptr \<Rightarrow> ptr \<Rightarrow> ptr \<Rightarrow> size_t \<Rightarrow>
   'w profile_world_scheme \<Rightarrow> cocclProfileObservation \<times> 'w profile_world_scheme" where
  "observeCompressor env mem fl cfg comm compressor isFramed rawBuffer compressedBuffer deviceFrame hostFrame capacity
     strm start stop bytes w =
     (let clear = CudaMemory (cudaMemsetAsync rawBuffer bytes strm);
          iter = runCompressorIteration env comm compressor rawBuffer compressedBuffer bytes capacity strm deviceFrame;
          (st, w1) = warmRuns env clear iter (nat (warmup cfg)) \<lparr>runValid = True, runBytes = 0, runTimes = []\<rparr> w;
          (synced, w2) = (if runValid st then succeeded env (Cuda (cudaStreamSynchronize strm)) w1 else (False, w1));
          (st, w3) = timedRuns env fl clear start stop strm iter (nat (iterations cfg)) (st\<lparr>runValid := synced\<rparr>) w2;
          (st, w4) = (if runValid st \<and> isFramed then readFrame env mem hostFrame deviceFrame bytes st w3 else (st, w3)) in
      (runObservation fl bytes st, w4))"

definition whenFramed ::
  "bool \<Rightarrow> api_env \<Rightarrow> api_call \<Rightarrow> (ptr \<Rightarrow> api_call) \<Rightarrow> (ptr \<Rightarrow> ('w api_world_scheme, 'a) comp) \<Rightarrow> ('w api_world_scheme, 'a) comp" where
  "whenFramed isFramed env create destroy body = (if isFramed then withHandle env create destroy body else body nullptr)"

definition compressorPoint :: "rounding \<Rightarrow> size_t \<Rightarrow> cocclProfileObservation \<Rightarrow> (cocclAutotuneProfilePoint \<times> double) option" where
  "compressorPoint fl bytes aggregate =
     (if obsValid aggregate \<and> dlt (Fin 0) (observedRatio aggregate)
      then Some (\<lparr>pointBytes = doubleOfSize fl bytes, pointTimeUs = timeUs aggregate\<rparr>, observedRatio aggregate)
      else None)"

definition fitCodecModel :: "rounding \<Rightarrow> (cocclAutotuneProfilePoint \<times> double) list \<Rightarrow> cocclCodecModel" where
  "fitCodecModel fl samples =
     (let time = cocclAutotuneFitLinearModel fl (map fst samples); ratio = median fl (map snd samples) in
      \<lparr>codecModelTime = time, codecModelRatio = ratio,
       codecValid = (linearValid time \<and> dlt (Fin 0) ratio \<and> isfinite ratio)\<rparr>)"

definition profileCompressor ::
  "api_env \<Rightarrow> bootstrap_env \<Rightarrow> (nat \<Rightarrow> ptr \<Rightarrow> cocclCompressorFrameMetadata) \<Rightarrow> rounding \<Rightarrow> cocclAutotuneConfig \<Rightarrow> ncclComm \<Rightarrow>
   ptr \<Rightarrow> size_t list \<Rightarrow> ('w profile_world_scheme, cocclCodecModel) comp" where
  "profileCompressor env boot mem fl cfg comm compressor sizes =
     bindC (getC (\<lambda>w. cocclCompressorSupports (policyStore w) compressor cocclCompressorCapabilityFramed)) (\<lambda>isFramed.
     bindC (CUDACHECK env (Cuda (cudaSetDevice (cudaDev comm)))) (\<lambda>_.
     withHandle env (CudaMemory (cudaMalloc (last sizes))) (CudaMemory \<circ> cudaFree) (\<lambda>rawBuffer.
     withHandle env (CudaMemory (cudaMalloc (last sizes))) (CudaMemory \<circ> cudaFree) (\<lambda>compressedBuffer.
     whenFramed isFramed env (CudaMemory (cudaMalloc sizeof_frameMetadata)) (CudaMemory \<circ> cudaFree) (\<lambda>deviceFrame.
     whenFramed isFramed env (CudaMemory (cudaHostAlloc sizeof_frameMetadata)) (CudaMemory \<circ> cudaFreeHost) (\<lambda>hostFrame.
     withHandle env (Cuda cudaStreamCreateWithFlags) (Cuda \<circ> cudaStreamDestroy) (\<lambda>strm.
     withHandle env (Cuda cudaEventCreate) (Cuda \<circ> cudaEventDestroy) (\<lambda>start.
     withHandle env (Cuda cudaEventCreate) (Cuda \<circ> cudaEventDestroy) (\<lambda>stop.
     bindC (collectC sizes (\<lambda>bytes.
       bindC (\<lambda>w. case observeCompressor env mem fl cfg comm compressor isFramed rawBuffer compressedBuffer deviceFrame hostFrame
                 (last sizes) strm start stop bytes w of (own, w1) \<Rightarrow> (Inr own, w1)) (\<lambda>own.
       bindC (aggregateObservation env boot fl comm own) (\<lambda>aggregate. returnC (compressorPoint fl bytes aggregate))))) (\<lambda>samples.
     returnC (fitCodecModel fl samples)))))))))))"

section \<open>Publishing\<close>

definition publishP2pModel :: "bool \<Rightarrow> cocclLinearModel \<Rightarrow> cocclProcessPerformanceModel \<Rightarrow> cocclProcessPerformanceModel" where
  "publishP2pModel interNode model perf =
     (if \<not> linearValid model then perf
      else if interNode then perf\<lparr>processInterP2p := model\<rparr> else perf\<lparr>processIntraP2p := model\<rparr>)"

definition publishCompressorModel :: "ptr \<Rightarrow> cocclCodecModel \<Rightarrow> cocclProcessPerformanceModel \<Rightarrow> cocclProcessPerformanceModel" where
  "publishCompressorModel compressor model perf =
     (if \<not> codecValid model then perf
      else perf\<lparr>compressorModels := (compressorModels perf)(compressor \<mapsto> model)\<rparr>)"

text \<open>A profile whose failure is not passed on: it is published when it succeeded.\<close>

definition publishIf ::
  "('w profile_world_scheme, 'a) comp \<Rightarrow> ('a \<Rightarrow> cocclProcessPerformanceModel \<Rightarrow> cocclProcessPerformanceModel) \<Rightarrow>
   ('w profile_world_scheme, unit) comp" where
  "publishIf m publish w =
     (case m w of (Inl _, w1) \<Rightarrow> (Inr (), w1) | (Inr model, w1) \<Rightarrow> updatePerformance (publish model) w1)"

text \<open>The three kinds of profiles, in the order of the code.\<close>

definition runProfiles ::
  "api_env \<Rightarrow> bootstrap_env \<Rightarrow> (nat \<Rightarrow> ptr \<Rightarrow> cocclCompressorFrameMetadata) \<Rightarrow> rounding \<Rightarrow> cocclAutotuneConfig \<Rightarrow> ncclComm \<Rightarrow>
   size_t list \<Rightarrow> 32 word \<Rightarrow> ('w profile_world_scheme, unit) comp" where
  "runProfiles env boot mem fl cfg comm sizes needs =
     bindC (if needs AND cocclProfileNeedIntra \<noteq> 0
            then publishIf (profileP2p env boot fl cfg comm False sizes) (publishP2pModel False) else returnC ()) (\<lambda>_.
     bindC (if needs AND cocclProfileNeedInter \<noteq> 0
            then publishIf (profileP2p env boot fl cfg comm True sizes) (publishP2pModel True) else returnC ()) (\<lambda>_.
     if needs AND cocclProfileNeedCompressors \<noteq> 0
     then bindC (getC (enabledCompressors \<circ> performance)) (\<lambda>items.
          forC items (\<lambda>item. publishIf (profileCompressor env boot mem fl cfg comm (profiledCompressor item) sizes)
            (publishCompressorModel (profiledCompressor item))))
     else returnC ()))"

definition cocclAutotuneEnsureGlobalModels ::
  "api_env \<Rightarrow> bootstrap_env \<Rightarrow> (nat \<Rightarrow> ptr \<Rightarrow> cocclCompressorFrameMetadata) \<Rightarrow> rounding \<Rightarrow> cocclAutotuneConfig \<Rightarrow> ncclComm \<Rightarrow>
   ('w profile_world_scheme, unit) comp" where
  "cocclAutotuneEnsureGlobalModels env boot mem fl cfg comm =
     (if \<not> autotuneEnabled cfg then returnC ()
      else
        bindC (getC (\<lambda>w. localProfileNeeds comm (performance w))) (\<lambda>localNeeds.
        if localNeeds = 0 then returnC ()
        else
          bindC (collectiveProfileNeeds env boot comm localNeeds) (\<lambda>needs.
          if needs = 0 then returnC ()
          else
            bindC (markProfilesAttempted needs) (\<lambda>_.
            bindC (buildSampleSizes env boot cfg comm) (\<lambda>sizes.
            if length sizes < 2 then returnC ()
            else
              runProfiles env boot mem fl cfg comm sizes needs)))))"

section \<open>The sizes are geometric and the loop ends\<close>

lemma sampleLoop_powers:
  assumes "0 < bytes" and "bytes \<le> effectiveMax"
  shows "\<exists>n. sampleLoop effectiveMax bytes = Some (map (\<lambda>k. word_of_nat (unat bytes * 4 ^ k)) [0..<Suc n]) \<and>
    unat bytes * 4 ^ n \<le> unat effectiveMax \<and> unat effectiveMax div 4 < unat bytes * 4 ^ n"
  using assms
proof (induction "unat effectiveMax - unat bytes" arbitrary: bytes rule: less_induct)
  case less
  have pos: "0 < unat bytes" using less.prems(1) by (simp add: word_less_nat_alt)
  show ?case
  proof (cases "bytes > effectiveMax div 4")
    case True
    then have "unat effectiveMax div 4 < unat bytes" by (simp add: word_less_nat_alt unat_div_size)
    with less.prems True show ?thesis
      by (intro exI [of _ 0]) (simp add: sampleLoop.simps [of _ bytes] word_le_nat_alt)
  next
    case False
    then have small: "unat bytes \<le> unat effectiveMax div 4" by (simp add: word_le_nat_alt unat_div_size not_less)
    then have le: "unat bytes * 4 \<le> unat effectiveMax" by linarith
    then have exact: "unat (bytes * 4) = unat bytes * 4"
      using unat_lt_2p64 [of effectiveMax] by (simp add: unat_mult_exact)
    have "0 < bytes * 4" "bytes * 4 \<le> effectiveMax" using exact pos le by (simp_all add: word_less_nat_alt word_le_nat_alt)
    moreover have "unat effectiveMax - unat (bytes * 4) < unat effectiveMax - unat bytes" using exact pos le by linarith
    ultimately obtain n where
      n: "sampleLoop effectiveMax (bytes * 4) = Some (map (\<lambda>k. word_of_nat (unat bytes * 4 * 4 ^ k)) [0..<Suc n])"
        "unat bytes * 4 * 4 ^ n \<le> unat effectiveMax" "unat effectiveMax div 4 < unat bytes * 4 * 4 ^ n"
      using less.hyps [of "bytes * 4"] exact by auto
    have "map (\<lambda>k. word_of_nat (unat bytes * 4 ^ k)) [0..<Suc (Suc n)] =
        bytes # map (\<lambda>k. word_of_nat (unat bytes * 4 * 4 ^ k)) [0..<Suc n]"
      by (subst upt_conv_Cons) (simp_all add: map_Suc_upt [symmetric] mult.assoc del: upt_Suc)
    with n False less.prems(2) show ?thesis
      by (intro exI [of _ "Suc n"]) (simp add: sampleLoop.simps [of _ bytes] mult.assoc del: upt_Suc)
  qed
qed

text \<open>The sizes as numbers.\<close>

lemma powers_exact:
  assumes "m * 4 ^ n < 2 ^ 64" and "k \<le> n"
  shows "unat (word_of_nat (m * 4 ^ k) :: size_t) = m * 4 ^ k"
proof -
  have "m * 4 ^ k \<le> m * 4 ^ n" using assms(2) by (simp add: power_increasing)
  with assms(1) show ?thesis by (intro unat_word_of_nat_size) linarith
qed

definition geometric_sizes :: "size_t \<Rightarrow> size_t \<Rightarrow> size_t list \<Rightarrow> bool" where
  "geometric_sizes lo hi sizes \<longleftrightarrow>
     hd sizes = lo \<and> last sizes = hi \<and> sizes \<noteq> [] \<and> length sizes \<le> 33 \<and> sorted_wrt (<) sizes \<and>
     (\<forall>i. Suc i < length sizes \<longrightarrow> unat (sizes ! Suc i) \<le> 4 * unat (sizes ! i))"

lemma sampleSizes_geometric:
  assumes "0 < lo" and "lo \<le> hi"
  shows "\<exists>sizes. sampleSizes lo hi = Some sizes \<and> geometric_sizes lo hi sizes"
proof -
  define pw :: "nat \<Rightarrow> size_t" where "pw k = word_of_nat (unat lo * 4 ^ k)" for k
  obtain n where n: "sampleLoop hi lo = Some (map pw [0..<Suc n])"
      "unat lo * 4 ^ n \<le> unat hi" "unat hi div 4 < unat lo * 4 ^ n"
    using sampleLoop_powers [OF assms] unfolding pw_def by blast
  have pos: "0 < unat lo" using assms(1) by (simp add: word_less_nat_alt)
  have lt: "unat lo * 4 ^ n < 2 ^ 64" using n(2) unat_lt_2p64 [of hi] by linarith
  have un: "unat (pw k) = unat lo * 4 ^ k" if "k \<le> n" for k unfolding pw_def by (rule powers_exact [OF lt that])
  have "(2 :: nat) ^ (2 * n) = 4 ^ n" by (simp add: power_mult)
  also have "\<dots> \<le> unat lo * 4 ^ n" using pos by simp
  also note lt
  finally have "2 * n < 64" by (rule power_less_imp_less_exp [rotated]) simp
  then have len: "n \<le> 31" by simp
  have step: "pw i < pw j" if "i < j" "j \<le> n" for i j
    using that un [of i] un [of j] pos by (simp add: word_less_nat_alt)
  let ?base = "map pw [0..<Suc n]"
  have base: "hd ?base = lo" "last ?base = pw n" "sorted_wrt (<) ?base"
      "\<forall>i. Suc i < length ?base \<longrightarrow> unat (?base ! Suc i) \<le> 4 * unat (?base ! i)"
    subgoal by (simp add: hd_map pw_def [of 0] del: upt_Suc)
    subgoal by simp
    subgoal using step by (simp add: sorted_wrt_iff_nth_less del: upt_Suc)
    subgoal using un by (simp del: upt_Suc)
    done
  show ?thesis
  proof (cases "pw n < hi")
    case True
    have "\<forall>x \<in> set ?base. x < hi"
      using True step by (auto simp: less_Suc_eq) (meson less_trans order_refl)
    moreover have "unat hi \<le> 4 * unat (pw n)" using n(3) un [of n] by simp
    ultimately have "geometric_sizes lo hi (?base @ [hi])"
      using base len by (auto simp: geometric_sizes_def sorted_wrt_append nth_append hd_append less_Suc_eq simp del: upt_Suc)
    with n(1) True assms(2) base(2) show ?thesis by (simp add: sampleSizes_def not_less [symmetric] del: upt_Suc)
  next
    case False
    with n(2) un [of n] have "pw n = hi" by (auto simp: word_less_nat_alt size_eq_iff_unat)
    with base len have "geometric_sizes lo hi ?base" by (simp add: geometric_sizes_def del: upt_Suc)
    with n(1) False assms(2) base(2) show ?thesis by (simp add: sampleSizes_def not_less [symmetric] del: upt_Suc)
  qed
qed

lemma sampleSizes_total: "0 < lo \<Longrightarrow> \<exists>sizes. sampleSizes lo hi = Some sizes"
  using sampleSizes_geometric [of lo hi] by (cases "hi < lo") (auto simp: sampleSizes_def [of lo hi] not_less)

end
