(* ===== verification/Sendrecv_Batch.thy ===== *)
theory Sendrecv_Batch
  imports Prepared_Call Frame_Exchange
begin

text \<open>
  Compressed point-to-point calls, \<^verbatim>\<open>extensions/primitives/coccl_sendrecv.cc\<close>: the layout of the
  buffer a call leases, and the batch that compresses the sends, exchanges one metadata record per
  call, exchanges the payloads and decompresses the receives. Every exit of the batch goes through
  the loop that returns the leased buffers.
\<close>

section \<open>Layout of a buffer\<close>

definition kMetadataAlignment :: size_t where
  "kMetadataAlignment = 256"

text \<open>The raw bytes, the offset of the metadata record behind them, and the bytes to lease.\<close>

definition sendRecvLayout :: "size_t \<Rightarrow> ncclDataType_t \<Rightarrow> (size_t \<times> size_t \<times> size_t) option" where
  "sendRecvLayout cnt dtype =
     (let typeBytes = ncclTypeSize dtype in
      if typeBytes \<le> 0 \<or> cnt > SIZE_MAX div size_of_int typeBytes then None
      else
        let raw = cnt * size_of_int typeBytes in
        if raw > SIZE_MAX - (kMetadataAlignment - 1) then None
        else
          let metadataAt = (raw + kMetadataAlignment - 1) AND NOT (kMetadataAlignment - 1) in
          if metadataAt > SIZE_MAX - sizeof_frameMetadata then None
          else Some (raw, metadataAt, metadataAt + sizeof_frameMetadata))"

section \<open>State of a call\<close>

record cocclSendRecvCallState =
  callBuffer :: cocclBufferHandle
  callEncoded :: cocclCompressorView
  callMetadata :: cocclCompressorFrameMetadata
  callRawBytes :: size_t
  callMetadataOffset :: size_t
  callFramed :: bool
  callReadMetadata :: bool

definition emptyView :: cocclCompressorView where
  "emptyView = \<lparr>viewData = nullptr, viewCapacityBytes = 0, viewBytes = 0, viewElements = 0, viewChunks = 0,
     viewDatatype = ncclInt8, viewFrameMetadata = nullptr, viewFrameStrideBytes = 0\<rparr>"

definition emptyCallState :: cocclSendRecvCallState where
  "emptyCallState = \<lparr>callBuffer = emptyHandle, callEncoded = emptyView,
     callMetadata = \<lparr>payloadBytes = 0, encoding = 0, reserved = 0\<rparr>, callRawBytes = 0, callMetadataOffset = 0,
     callFramed = False, callReadMetadata = False\<rparr>"

definition deviceMetadata :: "cocclSendRecvCallState \<Rightarrow> ptr" where
  "deviceMetadata st = handlePtr (callBuffer st) + callMetadataOffset st"

definition sendRecvCompressor :: "cocclPreparedCall \<Rightarrow> ptr" where
  "sendRecvCompressor call =
     (let info = preparedInfo call in
      setGet (preparedCompressors call)
        (if rankToNode (callComm info) (infoPeer info) = node (callComm info) then ScopeIntra else ScopeInter))"

section \<open>The batch\<close>

text \<open>
  The locals of the function: the result variable \<^verbatim>\<open>ret\<close> and the state of each call, in front of the
  pools and the world. A \<^verbatim>\<open>goto exit\<close> is a failure of the computation with the value \<^verbatim>\<open>ret\<close> has then;
  without one, \<^verbatim>\<open>ret\<close> is the last result \<^verbatim>\<open>NCCLCHECKGOTO\<close> assigned, which may be \<^verbatim>\<open>ncclInProgress\<close>.
\<close>

type_synonym 'w batch_comp =
  "((ncclResult_t \<times> cocclSendRecvCallState list) \<times> comm_pools \<times> 'w native_world_scheme, unit) comp"

definition updateCall ::
  "nat \<Rightarrow> (cocclSendRecvCallState \<Rightarrow> cocclSendRecvCallState) \<Rightarrow> 'w batch_comp" where
  "updateCall i f = updateC (\<lambda>(ret, sts). (ret, sts[i := f (sts ! i)]))"

definition setRet :: "ncclResult_t \<Rightarrow> 'w batch_comp" where
  "setRet r = updateC (\<lambda>(ret, sts). (r, sts))"

definition callState ::
  "nat \<Rightarrow> ((ncclResult_t \<times> cocclSendRecvCallState list) \<times> 's, cocclSendRecvCallState) comp" where
  "callState i = getX (\<lambda>(ret, sts). sts ! i)"

definition batchCuda :: "api_env \<Rightarrow> api_call \<Rightarrow> 'w batch_comp" where
  "batchCuda env c = bindC (inWorld (inWorld (CUDACHECK env c))) (\<lambda>_. returnC ())"

definition batchView ::
  "(comm_pools \<times> 'w native_world_scheme \<Rightarrow> (ncclResult_t \<times> 'a) \<times> comm_pools \<times> 'w native_world_scheme) \<Rightarrow>
   ((ncclResult_t \<times> cocclSendRecvCallState list) \<times> comm_pools \<times> 'w native_world_scheme, 'a) comp" where
  "batchView m s =
     (case m (snd s) of ((r, out), s1) \<Rightarrow>
        bindC (setRet r) (\<lambda>_. if nccl_ok r then returnC out else failC r) (fst s, s1))"

definition batchCoded :: "(comm_pools \<times> 'w native_world_scheme) coded \<Rightarrow> 'w batch_comp" where
  "batchCoded m = batchView (\<lambda>s. case m s of (r, s1) \<Rightarrow> ((r, ()), s1))"

text \<open>
  The address of \<^verbatim>\<open>states[i].metadata\<close> in host memory, and what is found in a metadata record of
  device memory when the copy to it has completed: the peer and the plugin write there.
\<close>

type_synonym metadata_env = "nat \<Rightarrow> ptr \<Rightarrow> cocclCompressorFrameMetadata"

definition compressSend ::
  "api_env \<Rightarrow> (nat \<Rightarrow> ptr) \<Rightarrow> cocclPreparedCall \<Rightarrow> nat \<Rightarrow> 'w batch_comp" where
  "compressSend env hostAt call i =
     (let info = preparedInfo call in
      bindC (callState i) (\<lambda>st.
      let inp = \<lparr>viewData = infoSend info, viewCapacityBytes = callRawBytes st, viewBytes = callRawBytes st,
            viewElements = infoCount info, viewChunks = 1, viewDatatype = infoDatatype info,
            viewFrameMetadata = nullptr, viewFrameStrideBytes = 0\<rparr>;
          out = \<lparr>viewData = handlePtr (callBuffer st), viewCapacityBytes = callRawBytes st, viewBytes = 0,
            viewElements = 0, viewChunks = 1, viewDatatype = ncclInt8,
            viewFrameMetadata = (if callFramed st then deviceMetadata st else nullptr),
            viewFrameStrideBytes = (if callFramed st then callRawBytes st else 0)\<rparr> in
      bindC (batchView (ncclCompress env (sendRecvCompressor call) inp out (rank (callComm info)) (infoStream info))) (\<lambda>enc.
      bindC (updateCall i (\<lambda>st. st\<lparr>callEncoded := enc\<rparr>)) (\<lambda>_.
        if callFramed st then updateCall i (\<lambda>st. st\<lparr>callReadMetadata := True\<rparr>)
        else
          bindC (updateCall i (\<lambda>st. st\<lparr>callMetadata := \<lparr>payloadBytes = viewBytes enc,
              encoding = (if viewDatatype enc = COCCL_COMPRESSOR_RAW_PASSTHROUGH then cocclCompressorFrameRaw
                          else cocclCompressorFrameEncoded), reserved = 0\<rparr>\<rparr>)) (\<lambda>_.
          batchCuda env (CudaMemory (cudaMemcpyAsync (deviceMetadata st) (hostAt i) sizeof_frameMetadata
            (infoStream info))))))))"

text \<open>First loop: lease, compress, and the entry of the metadata exchange.\<close>

definition prepareCall ::
  "api_env \<Rightarrow> cocclBufferConfig \<Rightarrow> (nat \<Rightarrow> ptr) \<Rightarrow> cocclPreparedCall \<Rightarrow> nat \<Rightarrow> 'w batch_comp" where
  "prepareCall env cfg hostAt call i =
     (let info = preparedInfo call; owner = self (callComm info) in
      case sendRecvLayout (infoCount info) (infoDatatype info) of
        None \<Rightarrow> failC ncclInvalidArgument
      | Some (raw, metadataAt, allocation) \<Rightarrow>
          bindC (updateCall i (\<lambda>st. st\<lparr>callRawBytes := raw, callMetadataOffset := metadataAt\<rparr>)) (\<lambda>_ s.
          case cocclGetBufferForComm env cfg owner owner allocation (infoStream info) (snd s) of
            (Inl e, s1) \<Rightarrow> (Inl e, (fst s, s1))
          | (Inr h, s1) \<Rightarrow>
              bindC (setRet ncclSuccess) (\<lambda>_.
              bindC (updateCall i (\<lambda>st. st\<lparr>callBuffer := h\<rparr>)) (\<lambda>_.
              bindC (inWorld (inWorld (getC policyStore))) (\<lambda>store.
              bindC (updateCall i (\<lambda>st. st\<lparr>callFramed :=
                 cocclCompressorSupports store (sendRecvCompressor call) cocclCompressorCapabilityFramed\<rparr>)) (\<lambda>_.
              if infoFunc info = ncclFuncSend then compressSend env hostAt call i
              else updateCall i (\<lambda>st. st\<lparr>callReadMetadata := True\<rparr>))))) (fst s, s1)))"

definition metadataExchange :: "cocclPreparedCall \<Rightarrow> cocclSendRecvCallState \<Rightarrow> cocclFrameExchange" where
  "metadataExchange call st =
     (let info = preparedInfo call; snt = (infoFunc info = ncclFuncSend); rcv = (infoFunc info = ncclFuncRecv) in
      \<lparr>exPeer = infoPeer info, sendSlot = (if snt then deviceMetadata st else nullptr),
       recvSlot = (if rcv then deviceMetadata st else nullptr), sendBytes = (if snt then sizeof_frameMetadata else 0),
       recvBytes = (if rcv then sizeof_frameMetadata else 0), slotBytes = sizeof_frameMetadata,
       exComm = infoComm info, exStream = infoStream info\<rparr>)"

definition payloadExchange :: "cocclPreparedCall \<Rightarrow> cocclSendRecvCallState \<Rightarrow> cocclFrameExchange" where
  "payloadExchange call st =
     (let info = preparedInfo call; snt = (infoFunc info = ncclFuncSend); rcv = (infoFunc info = ncclFuncRecv) in
      \<lparr>exPeer = infoPeer info, sendSlot = (if snt then viewData (callEncoded st) else nullptr),
       recvSlot = (if rcv then handlePtr (callBuffer st) else nullptr),
       sendBytes = (if snt then payloadBytes (callMetadata st) else 0),
       recvBytes = (if rcv then payloadBytes (callMetadata st) else 0), slotBytes = callRawBytes st,
       exComm = infoComm info, exStream = infoStream info\<rparr>)"

definition commitExchanges ::
  "api_env \<Rightarrow> (cocclPreparedCall \<Rightarrow> cocclSendRecvCallState \<Rightarrow> cocclFrameExchange) \<Rightarrow> cocclPreparedCall list \<Rightarrow> 'w batch_comp" where
  "commitExchanges env entry calls =
     bindC (getX (\<lambda>(ret, sts). map2 entry calls sts)) (\<lambda>exchanges.
       batchCoded (\<lambda>s. case cocclCommitFrameExchange env exchanges None nullptr (snd s) of (r, w) \<Rightarrow> (r, (fst s, w))))"

definition copyMetadata :: "api_env \<Rightarrow> (nat \<Rightarrow> ptr) \<Rightarrow> cocclPreparedCall \<Rightarrow> nat \<Rightarrow> 'w batch_comp" where
  "copyMetadata env hostAt call i =
     bindC (callState i) (\<lambda>st.
       if \<not> callReadMetadata st then returnC ()
       else batchCuda env (CudaMemory (cudaMemcpyAsync (hostAt i) (deviceMetadata st) sizeof_frameMetadata
              (infoStream (preparedInfo call)))))"

definition awaitMetadata :: "api_env \<Rightarrow> metadata_env \<Rightarrow> cocclPreparedCall \<Rightarrow> nat \<Rightarrow> 'w batch_comp" where
  "awaitMetadata env found call i =
     bindC (callState i) (\<lambda>st.
       if \<not> callReadMetadata st then returnC ()
       else
         bindC (batchCuda env (Cuda (cudaStreamSynchronize (infoStream (preparedInfo call))))) (\<lambda>_.
         bindC (inWorld (inWorld (getC (\<lambda>w. found (logLen w) (deviceMetadata st))))) (\<lambda>metadata.
         updateCall i (\<lambda>st. st\<lparr>callMetadata := metadata\<rparr>))))"

definition checkMetadata :: "nat \<Rightarrow> 'w batch_comp" where
  "checkMetadata i =
     bindC (callState i) (\<lambda>st.
       if cocclFrameMetadataValid (callMetadata st) (callRawBytes st) then returnC ()
       else failC ncclInvalidUsage)"

definition decompressRecv :: "api_env \<Rightarrow> cocclPreparedCall \<Rightarrow> nat \<Rightarrow> 'w batch_comp" where
  "decompressRecv env call i =
     (let info = preparedInfo call in
      if infoFunc info \<noteq> ncclFuncRecv then returnC ()
      else bindC (callState i) (\<lambda>st.
        let bytes = (if callFramed st then callRawBytes st else payloadBytes (callMetadata st));
            inp = \<lparr>viewData = handlePtr (callBuffer st), viewCapacityBytes = bytes, viewBytes = bytes,
              viewElements = bytes, viewChunks = 1,
              viewDatatype = (if callFramed st then ncclInt8
                else if encoding (callMetadata st) = cocclCompressorFrameRaw then COCCL_COMPRESSOR_RAW_PASSTHROUGH
                else ncclInt8),
              viewFrameMetadata = (if callFramed st then deviceMetadata st else nullptr),
              viewFrameStrideBytes = (if callFramed st then callRawBytes st else 0)\<rparr>;
            out = \<lparr>viewData = infoRecv info, viewCapacityBytes = callRawBytes st, viewBytes = 0,
              viewElements = infoCount info, viewChunks = 1, viewDatatype = infoDatatype info,
              viewFrameMetadata = nullptr, viewFrameStrideBytes = 0\<rparr> in
        batchCoded (\<lambda>s. case ncclDecompress env (sendRecvCompressor call) inp out (infoStream info) s of
          ((r, _), s1) \<Rightarrow> (r, s1))))"

definition batchBody ::
  "api_env \<Rightarrow> metadata_env \<Rightarrow> cocclBufferConfig \<Rightarrow> (nat \<Rightarrow> ptr) \<Rightarrow> cocclPreparedCall list \<Rightarrow> 'w batch_comp" where
  "batchBody env found cfg hostAt calls =
     (let each = (\<lambda>f. forC [0..<length calls] (\<lambda>i. f (calls ! i) i)) in
      bindC (batchCuda env (Cuda (cudaSetDevice (cudaDev (callComm (preparedInfo (hd calls))))))) (\<lambda>_.
      bindC (each (prepareCall env cfg hostAt)) (\<lambda>_.
      bindC (commitExchanges env metadataExchange calls) (\<lambda>_.
      bindC (each (copyMetadata env hostAt)) (\<lambda>_.
      bindC (each (awaitMetadata env found)) (\<lambda>_.
      bindC (each (\<lambda>call. checkMetadata)) (\<lambda>_.
      bindC (commitExchanges env payloadExchange calls) (\<lambda>_.
      each (decompressRecv env)))))))))"

text \<open>The label \<^verbatim>\<open>exit\<close>: every buffer that was leased goes back; the first error is the result.\<close>

fun releaseCalls ::
  "api_env \<Rightarrow> (cocclPreparedCall \<times> cocclSendRecvCallState) list \<Rightarrow> ncclResult_t \<Rightarrow>
   (comm_pools \<times> 'w native_world_scheme) coded" where
  "releaseCalls env [] ret s = (ret, s)"
| "releaseCalls env ((call, st) # rest) ret s =
     (if handlePtr (callBuffer st) = nullptr then releaseCalls env rest ret s
      else
        case cocclReleaseBuffer env (callBuffer st) (infoStream (preparedInfo call)) s of
          ((releaseResult, _), s1) \<Rightarrow>
            releaseCalls env rest (if ret = ncclSuccess then releaseResult else ret) s1)"

definition cocclExecuteSendRecvBatch ::
  "api_env \<Rightarrow> metadata_env \<Rightarrow> cocclBufferConfig \<Rightarrow> (nat \<Rightarrow> ptr) \<Rightarrow> cocclPreparedCall list \<Rightarrow>
   (comm_pools \<times> 'w native_world_scheme) coded" where
  "cocclExecuteSendRecvBatch env found cfg hostAt calls s =
     (case batchBody env found cfg hostAt calls ((ncclSuccess, replicate (length calls) emptyCallState), s) of
        (r, ((ret, sts), s1)) \<Rightarrow>
          releaseCalls env (zip calls sts) (case r of Inl e \<Rightarrow> e | Inr _ \<Rightarrow> ret) s1)"

definition cocclExecuteSendRecv ::
  "api_env \<Rightarrow> metadata_env \<Rightarrow> cocclBufferConfig \<Rightarrow> (nat \<Rightarrow> ptr) \<Rightarrow> cocclPreparedCall \<Rightarrow>
   (comm_pools \<times> 'w native_world_scheme) coded" where
  "cocclExecuteSendRecv env found cfg hostAt call = cocclExecuteSendRecvBatch env found cfg hostAt [call]"

end
