(* ===== verification/Coccl_Comm.thy ===== *)
theory Coccl_Comm
  imports Pipeline_Execute Training_Assist Autotune_Profile Sendrecv_Batch "HOL-Library.AList"
begin

text \<open>
  Communicators of the COCCL layer: the two sub-communicators the hierarchical algorithms run on
  (\<^verbatim>\<open>core/runtime/coccl_comm.cc\<close>) and what is set up and torn down with a communicator
  (\<^verbatim>\<open>core/runtime/coccl_init.cc\<close>), together with the state of the whole layer.

  Splitting and destroying a communicator are routines of the NCCL core. Their own work is one call
  of the environment, and both come back to this layer: \<^verbatim>\<open>init.cc\<close> calls \<^verbatim>\<open>cocclInit\<close> for the child
  of a split and \<^verbatim>\<open>cocclDestroy\<close> for a communicator that goes away.
\<close>

section \<open>State of the layer\<close>

text \<open>
  What is fixed during a run: the replies of the environment, memory contents other ranks and
  plugins write, the fields of a communicator at an address, rounding, the clock, the published
  configuration (\<open>None\<close> when there is none, see \<open>initializeConfigOnce\<close>) and what the other ranks contribute
  to all-gathers.
\<close>

record runtime_env =
  apiEnv :: api_env
  memoryEnv :: memory_env
  metadataEnv :: metadata_env
  hostAddress :: "nat \<Rightarrow> ptr"
  commAt :: "ptr \<Rightarrow> ncclComm"
  roundDouble :: rounding
  roundExtended :: rounding
  clockNs :: "nat \<Rightarrow> 64 word"
  publishedConfig :: "cocclConfig option"
  loader :: dl_env
  bootstrapEnv :: bootstrap_env

definition cocclGetConfig :: "runtime_env \<Rightarrow> cocclConfig" where
  "cocclGetConfig R = the (publishedConfig R)"

text \<open>The world with the process-wide state of the training assistant.\<close>

record runtime_world = profile_world +
  trainingState :: training_state

record cocclHierarchicalCommState =
  intraComm :: ptr
  interComm :: ptr

record runtime_state =
  core :: "comm_pools \<times> runtime_world"
  hierarchies :: "(ptr \<times> cocclHierarchicalCommState) list"
  pendingCalls :: "cocclPreparedCall list"

definition world :: "runtime_state \<Rightarrow> runtime_world" where
  "world s = snd (core s)"

definition updateWorld :: "(runtime_world \<Rightarrow> runtime_world) \<Rightarrow> runtime_state \<Rightarrow> runtime_state" where
  "updateWorld f s = s\<lparr>core := (fst (core s), f (world s))\<rparr>"

definition onCore :: "(comm_pools \<times> runtime_world) coded \<Rightarrow> runtime_state coded" where
  "onCore m s = (case m (core s) of (r, c) \<Rightarrow> (r, s\<lparr>core := c\<rparr>))"

definition onWorld :: "runtime_world coded \<Rightarrow> runtime_state coded" where
  "onWorld m s = (case m (world s) of (r, w) \<Rightarrow> (r, updateWorld (\<lambda>_. w) s))"

section \<open>Initialisation\<close>

text \<open>
  The core initialises a communicator in a job of its own thread, whose group state is fresh; that of
  the caller is not touched.
\<close>

definition onJobThread :: "('w native_world_scheme, 'a) comp \<Rightarrow> ('w native_world_scheme, 'a) comp" where
  "onJobThread m w =
     (case m (w\<lparr>callerGuardActive := False, ncclGroupDepth := 0, ncclGroupError := ncclSuccess\<rparr>) of
        (r, w1) \<Rightarrow> (r, w1\<lparr>callerGuardActive := callerGuardActive w, ncclGroupDepth := ncclGroupDepth w,
                         ncclGroupError := ncclGroupError w\<rparr>))"

definition ensureGlobalModels :: "runtime_env \<Rightarrow> ncclComm \<Rightarrow> (runtime_world, unit) comp" where
  "ensureGlobalModels R comm =
     onJobThread (cocclAutotuneEnsureGlobalModels (apiEnv R) (bootstrapEnv R) (metadataEnv R) (roundDouble R)
       (autotuneConfig (cocclGetConfig R)) comm)"

definition trainingUpdate :: "(training_state \<Rightarrow> training_state) \<Rightarrow> runtime_world \<Rightarrow> runtime_world" where
  "trainingUpdate f w = w\<lparr>trainingState := f (trainingState w)\<rparr>"

definition cocclCommCreate :: "ncclComm \<Rightarrow> runtime_state \<Rightarrow> runtime_state" where
  "cocclCommCreate comm s =
     (if map_of (hierarchies s) (self comm) \<noteq> None then s
      else s\<lparr>hierarchies := (self comm, \<lparr>intraComm = nullptr, interComm = nullptr\<rparr>) # hierarchies s\<rparr>)"

definition cocclInit :: "runtime_env \<Rightarrow> ncclComm \<Rightarrow> (runtime_state, unit) comp" where
  "cocclInit R comm =
     bindC (checkR (onWorld (codeOf (cocclCompressorRuntimeInit (loader R) cocclAutotuneRegisterEnabledCompressor
              (\<lambda>c. trainingUpdate (cocclTrainingAssistRegister (cocclGetConfig R) (Some c)))
              (ensureGlobalModels R)
              (publishedConfig R) comm)))) (\<lambda>_.
     bindC (getC (\<lambda>s. cocclCompressionEnabled (world s))) (\<lambda>enabled.
       if \<not> enabled then returnC ()
       else
         bindC (modifyC (cocclCommCreate comm)) (\<lambda>_.
         checkR (onCore (codeOf (cocclBufferCommInit (apiEnv R) (map_option bufferConfig (publishedConfig R)) (Some comm)))))))"

text \<open>\<^verbatim>\<open>ncclCommSplit\<close>: the address of the child, once the layer has initialised it.\<close>

definition splitComm :: "runtime_env \<Rightarrow> ncclComm \<Rightarrow> int \<Rightarrow> int \<Rightarrow> (runtime_state, ptr) comp" where
  "splitComm R comm color key s =
     (case callApi (apiEnv R) (Nccl (ncclCommSplit (self comm) color key)) (world s) of
        (r, w) \<Rightarrow>
          if status r \<noteq> ncclSuccess then (Inl (status r), updateWorld (\<lambda>_. w) s)
          else bindC (cocclInit R (commAt R (outValue r))) (\<lambda>_. returnC (outValue r)) (updateWorld (\<lambda>_. w) s))"

section \<open>Destruction\<close>

definition keepFirstError :: "ncclResult_t \<Rightarrow> ncclResult_t \<Rightarrow> ncclResult_t" where
  "keepFirstError candidate result = (if result = ncclSuccess then candidate else result)"

text \<open>
  Run a further step and keep the first error. The code \<open>ncclNumResults\<close> stands for the end of the process
  in a plugin's missing destructor (\<open>releasePolicies\<close>): nothing happens after it.
\<close>

definition keepFirst :: "'s coded \<Rightarrow> 's coded \<Rightarrow> 's coded" where
  "keepFirst m n s =
     (case m s of (r1, s1) \<Rightarrow>
        if r1 = ncclNumResults then (r1, s1)
        else case n s1 of (r2, s2) \<Rightarrow> (if r2 = ncclNumResults then r2 else keepFirstError r2 r1, s2))"

definition destroyOne :: "(ptr \<Rightarrow> runtime_state coded) \<Rightarrow> ptr \<Rightarrow> runtime_state coded" where
  "destroyOne destroyComm p = (if p \<noteq> nullptr then destroyComm p else Pair ncclSuccess)"

definition destroyHierarchy ::
  "(ptr \<Rightarrow> runtime_state coded) \<Rightarrow> cocclHierarchicalCommState \<Rightarrow> runtime_state coded" where
  "destroyHierarchy destroyComm hier =
     keepFirst (destroyOne destroyComm (intraComm hier)) (destroyOne destroyComm (interComm hier))"

text \<open>The entry leaves the table before its two communicators are destroyed.\<close>

definition cocclCommDestroy :: "(ptr \<Rightarrow> runtime_state coded) \<Rightarrow> ptr \<Rightarrow> runtime_state coded" where
  "cocclCommDestroy destroyComm p s =
     (case map_of (hierarchies s) p of
        None \<Rightarrow> (ncclSuccess, s)
      | Some hier \<Rightarrow>
          destroyHierarchy destroyComm hier (s\<lparr>hierarchies := filter (\<lambda>entry. fst entry \<noteq> p) (hierarchies s)\<rparr>))"

text \<open>\<^verbatim>\<open>ncclCommDestroy\<close>: the core's work, which comes back to \<^verbatim>\<open>cocclDestroy\<close> of the same communicator.\<close>

definition destroyVia :: "runtime_env \<Rightarrow> (ptr \<Rightarrow> runtime_state coded) \<Rightarrow> ptr \<Rightarrow> runtime_state coded" where
  "destroyVia R layer p s =
     (case callApi (apiEnv R) (Nccl (ncclCommDestroy p)) (world s) of
        (r, w) \<Rightarrow> if \<not> nccl_ok (status r) then (status r, updateWorld (\<lambda>_. w) s)
                  else layer p (updateWorld (\<lambda>_. w) s))"

text \<open>
  An entry of the table is removed before the recursion, so the number of entries bounds its depth:
  with one more than that the bound is never reached.
\<close>

fun destroyLayer :: "nat \<Rightarrow> runtime_env \<Rightarrow> ptr \<Rightarrow> runtime_state coded" where
  "destroyLayer 0 R p = Pair ncclInternalError"
| "destroyLayer (Suc n) R p =
     keepFirst (keepFirst (keepFirst
       (cocclCommDestroy (destroyVia R (destroyLayer n R)) p)
       (onWorld (codeOf (cocclPipelineCommDestroy (apiEnv R) p))))
       (onCore (codeOf (cocclBufferCommDestroy (apiEnv R) p))))
       (onWorld (cocclCompressorRuntimeDestroy (apiEnv R)
          (\<lambda>c. trainingUpdate (cocclTrainingAssistUnregister (Some c))) (commAt R p)))"

definition cocclDestroy :: "runtime_env \<Rightarrow> ptr \<Rightarrow> runtime_state coded" where
  "cocclDestroy R p s = destroyLayer (Suc (length (hierarchies s))) R p s"

section \<open>Hierarchical communicators\<close>

text \<open>
  Created at the first use. \<^verbatim>\<open>comms.at\<close> throws for a communicator without an entry; the exception is
  the code \<open>ncclNumResults\<close>, which no function returns.
\<close>

definition createHierarchy :: "runtime_env \<Rightarrow> ncclComm \<Rightarrow> (runtime_state, ptr \<times> ptr) comp" where
  "createHierarchy R comm =
     bindC (\<lambda>s. case callApi (apiEnv R) (Cuda (cudaSetDevice (cudaDev comm))) (world s) of
              (r, w) \<Rightarrow> (if status r = ncclSuccess then Inr () else Inl ncclUnhandledCudaError, updateWorld (\<lambda>_. w) s)) (\<lambda>_.
     bindC (splitComm R comm (rank comm div localRanks comm) (rank comm)) (\<lambda>child1.
     bindC (modifyC (updateWorld (trainingUpdate (cocclTrainingAssistUnregister (Some (commAt R child1)))))) (\<lambda>_ s.
       case splitComm R comm (rank comm mod localRanks comm) (rank comm) s of
         (Inl e, s1) \<Rightarrow>
           (case destroyHierarchy (destroyVia R (cocclDestroy R)) \<lparr>intraComm = child1, interComm = nullptr\<rparr> s1 of
              (r, s2) \<Rightarrow> (Inl (if r = ncclNumResults then r else e), s2))
       | (Inr child2, s1) \<Rightarrow>
           (Inr (child1, child2),
            updateWorld (trainingUpdate (cocclTrainingAssistUnregister (Some (commAt R child2)))) s1))))"

definition cocclCommGetHierarchicalComms :: "runtime_env \<Rightarrow> ncclComm \<Rightarrow> (runtime_state, ptr \<times> ptr) comp" where
  "cocclCommGetHierarchicalComms R comm s =
     (case map_of (hierarchies s) (self comm) of
        None \<Rightarrow> (Inl ncclNumResults, s)
      | Some hier \<Rightarrow>
          if intraComm hier \<noteq> nullptr then (Inr (intraComm hier, interComm hier), s)
          else bindC (createHierarchy R comm) (\<lambda>(child1, child2).
            bindC (getC (\<lambda>s. map_of (hierarchies s) (self comm))) (\<lambda>found.
              if found = None then failC ncclNumResults
              else
                bindC (modifyC (\<lambda>s. s\<lparr>hierarchies := AList.update (self comm)
                   \<lparr>intraComm = child1, interComm = child2\<rparr> (hierarchies s)\<rparr>)) (\<lambda>_.
                returnC (child1, child2)))) s)"

section \<open>What the lower layers leave alone\<close>

lemma onCore_fields [simp]:
  "pendingCalls (snd (onCore m s)) = pendingCalls s" "hierarchies (snd (onCore m s)) = hierarchies s"
  by (simp_all add: onCore_def split: prod.splits)

lemma updateWorld_fields [simp]:
  "pendingCalls (updateWorld f s) = pendingCalls s" "hierarchies (updateWorld f s) = hierarchies s"
  "world (updateWorld f s) = f (world s)" "fst (core (updateWorld f s)) = fst (core s)"
  by (simp_all add: updateWorld_def world_def)

lemma onWorld_fields [simp]:
  "pendingCalls (snd (onWorld m s)) = pendingCalls s" "hierarchies (snd (onWorld m s)) = hierarchies s"
  "world (snd (onWorld m s)) = snd (m (world s))" "fst (onWorld m s) = fst (m (world s))"
  by (simp_all add: onWorld_def split: prod.splits)

lemma world_pending [simp]: "world (s\<lparr>pendingCalls := ps\<rparr>) = world s"
  by (simp add: world_def)

lemma updateWorld_updateWorld [simp]: "updateWorld f (updateWorld g s) = updateWorld (f \<circ> g) s"
  by (simp add: updateWorld_def world_def)

definition pending_is :: "cocclPreparedCall list \<Rightarrow> runtime_state \<Rightarrow> bool" where
  "pending_is ps s \<longleftrightarrow> pendingCalls s = ps"

lemma keeps_checkR: "(\<And>s. P s \<Longrightarrow> P (snd (m s))) \<Longrightarrow> keeps P (checkR m)"
  by (simp add: keeps_def)

lemma pending_init: "keeps (pending_is ps) (cocclInit R comm)"
  unfolding cocclInit_def
  by (intro keeps_intros keeps_checkR) (simp_all add: pending_is_def cocclCommCreate_def)

lemma pending_split: "keeps (pending_is ps) (splitComm R comm color key)"
  unfolding splitComm_def
  by (rule keepsI)
    (auto simp: pending_is_def split: prod.splits
      intro!: keepsD [OF keeps_bind [OF pending_init keeps_return], unfolded pending_is_def])

text \<open>Destruction keeps the pending calls and never adds an entry to the table.\<close>

definition calm_destroy :: "runtime_state coded \<Rightarrow> bool" where
  "calm_destroy m \<longleftrightarrow> (\<forall>s. pendingCalls (snd (m s)) = pendingCalls s \<and>
     length (hierarchies (snd (m s))) \<le> length (hierarchies s))"

lemma calm_destroyD:
  assumes "calm_destroy m"
  shows "pendingCalls (snd (m s)) = pendingCalls s" and "length (hierarchies s) \<le> k \<Longrightarrow> length (hierarchies (snd (m s))) \<le> k"
  using assms by (auto simp: calm_destroy_def intro: le_trans)

lemma calm_destroyI:
  "(\<And>s. pendingCalls (snd (m s)) = pendingCalls s) \<Longrightarrow>
   (\<And>s. length (hierarchies (snd (m s))) \<le> length (hierarchies s)) \<Longrightarrow> calm_destroy m"
  by (simp add: calm_destroy_def)

lemma calm_keepFirst: "calm_destroy m \<Longrightarrow> calm_destroy n \<Longrightarrow> calm_destroy (keepFirst m n)"
  by (rule calm_destroyI) (simp_all add: keepFirst_def split_beta calm_destroyD)

lemma calm_pure: "calm_destroy (Pair r)" "calm_destroy (onWorld f)" "calm_destroy (onCore g)"
  by (simp_all add: calm_destroy_def)

lemma calm_destroyHierarchy:
  assumes "\<And>p. calm_destroy (destroyComm p)"
  shows "calm_destroy (destroyHierarchy destroyComm hier)"
  unfolding destroyHierarchy_def destroyOne_def by (intro calm_keepFirst) (simp_all add: assms calm_pure)

lemma calm_commDestroy:
  assumes "\<And>p. calm_destroy (destroyComm p)"
  shows "calm_destroy (cocclCommDestroy destroyComm p)"
  by (rule calm_destroyI)
    (simp_all add: cocclCommDestroy_def calm_destroyD [OF calm_destroyHierarchy, OF assms] split: option.splits)

lemma calm_destroyVia:
  assumes "\<And>p. calm_destroy (layer p)"
  shows "calm_destroy (destroyVia R layer p)"
  by (rule calm_destroyI) (simp_all add: destroyVia_def split_beta calm_destroyD [OF assms])

lemma calm_destroyLayer: "calm_destroy (destroyLayer n R p)"
  by (induction n arbitrary: p)
    (simp_all only: destroyLayer.simps, simp_all add: calm_pure calm_keepFirst calm_commDestroy calm_destroyVia)

lemma calm_cocclDestroy: "calm_destroy (cocclDestroy R p)"
  by (rule calm_destroyI) (simp_all only: cocclDestroy_def calm_destroyD [OF calm_destroyLayer] order_refl)

text \<open>Enough fuel: with more than the number of entries the outcome does not depend on it.\<close>

lemma destroyHierarchy_cong:
  assumes "\<And>c t. length (hierarchies t) \<le> k \<Longrightarrow> f c t = g c t" and "\<And>c. calm_destroy (g c)"
    and "length (hierarchies s) \<le> k"
  shows "destroyHierarchy f h s = destroyHierarchy g h s"
proof -
  have one: "destroyOne f c t = destroyOne g c t" if "length (hierarchies t) \<le> k" for c t
    using assms(1) [OF that] by (simp add: destroyOne_def)
  have "calm_destroy (destroyOne g c)" for c using assms(2) by (simp add: destroyOne_def calm_pure)
  with one assms(3) show ?thesis
    by (simp add: destroyHierarchy_def keepFirst_def split_beta calm_destroyD)
qed

lemma destroyLayer_fuel:
  assumes "length (hierarchies s) < n" and "length (hierarchies s) < m"
  shows "destroyLayer n R p s = destroyLayer m R p s"
  using assms
proof (induction n arbitrary: s m p)
  case (Suc n)
  obtain l where m: "m = Suc l" using Suc.prems by (cases m) auto
  have "cocclCommDestroy (destroyVia R (destroyLayer n R)) p s = cocclCommDestroy (destroyVia R (destroyLayer l R)) p s"
  proof (cases "map_of (hierarchies s) p")
    case (Some h)
    let ?t = "s\<lparr>hierarchies := filter (\<lambda>entry. fst entry \<noteq> p) (hierarchies s)\<rparr>"
    have "(p, h) \<in> set (hierarchies s)" using Some by (rule map_of_SomeD)
    then have less: "length (hierarchies ?t) < length (hierarchies s)"
      using length_filter_less [of "(p, h)" "hierarchies s" "\<lambda>entry. fst entry \<noteq> p"] by simp
    have "destroyHierarchy (destroyVia R (destroyLayer n R)) h ?t = destroyHierarchy (destroyVia R (destroyLayer l R)) h ?t"
    proof (rule destroyHierarchy_cong)
      show "destroyVia R (destroyLayer n R) c t = destroyVia R (destroyLayer l R) c t"
        if "length (hierarchies t) \<le> length (hierarchies ?t)" for c t
        using Suc.IH [of "updateWorld f t" l c for f] that less Suc.prems m
        by (simp add: destroyVia_def split_beta)
    qed (simp_all only: calm_destroyVia [OF calm_destroyLayer] order_refl)
    with Some show ?thesis by (simp add: cocclCommDestroy_def)
  qed (simp add: cocclCommDestroy_def)
  then show ?case unfolding m destroyLayer.simps keepFirst_def by simp
qed simp

lemma pending_hierarchy: "keeps (pending_is ps) (createHierarchy R comm)"
proof -
  have split: "pendingCalls (snd (splitComm R comm color key s)) = pendingCalls s" for color key s
    using keepsD [OF pending_split, of "pendingCalls s" s R comm color key] by (simp add: pending_is_def)
  note destroy = calm_destroyD(1) [OF calm_destroyHierarchy [OF calm_destroyVia [OF calm_cocclDestroy]]]
  have second: "keeps (pending_is ps) (\<lambda>s. case splitComm R comm c k s of
         (Inl e, s1) \<Rightarrow> (case destroyHierarchy (destroyVia R (cocclDestroy R)) h s1 of
            (r, s2) \<Rightarrow> (Inl (if r = ncclNumResults then r else e), s2))
       | (Inr child2, s1) \<Rightarrow> (Inr (child1, child2), updateWorld (f child2) s1))" for c k h child1 f
  proof (rule keepsI)
    fix s assume "pending_is ps s"
    then show "pending_is ps (snd (case splitComm R comm c k s of
         (Inl e, s1) \<Rightarrow> (case destroyHierarchy (destroyVia R (cocclDestroy R)) h s1 of
            (r, s2) \<Rightarrow> (Inl (if r = ncclNumResults then r else e), s2))
       | (Inr child2, s1) \<Rightarrow> (Inr (child1, child2), updateWorld (f child2) s1)))"
      using split [of c k s] by (auto simp: pending_is_def split_beta destroy split: prod.splits sum.splits)
  qed
  show ?thesis
    unfolding createHierarchy_def
    by (intro keeps_bind keeps_modify pending_split second keepsI) (simp_all add: pending_is_def split_beta)
qed

lemma pending_getHierarchical: "pendingCalls (snd (cocclCommGetHierarchicalComms R comm s)) = pendingCalls s"
proof -
  have upd: "keeps (pending_is ps) (modifyC (\<lambda>s. s\<lparr>hierarchies := f s\<rparr>))" for f ps
    by (simp add: keeps_def pending_is_def)
  have "keeps (pending_is ps) (bindC (createHierarchy R comm) (\<lambda>(child1, child2).
            bindC (getC (\<lambda>s. map_of (hierarchies s) (self comm))) (\<lambda>found.
              if found = None then failC ncclNumResults
              else
                bindC (modifyC (\<lambda>s. s\<lparr>hierarchies := AList.update (self comm)
                   \<lparr>intraComm = child1, interComm = child2\<rparr> (hierarchies s)\<rparr>)) (\<lambda>_.
                returnC (child1, child2)))))" for ps
    by (rule keeps_bind [OF pending_hierarchy]) (auto intro!: keeps_intros upd split: prod.splits)
  from keepsD [OF this, of "pendingCalls s" s] show ?thesis
    by (simp add: cocclCommGetHierarchicalComms_def pending_is_def split: option.splits)
qed

section \<open>Release of a device\<close>

text \<open>
  C13: destroying communicators releases a device exactly when its last communicator goes. Before that
  only the count changes (and the training assistant forgets the communicator). With the last one, when
  every state object on the device has a destructor, each policy's state objects are destroyed and then its
  persistent buffers freed, each once and nothing else, a failing \<^verbatim>\<open>cudaFree\<close> is reported, no policy
  keeps resources there and other devices keep theirs. When some entry has no destructor (which is what
  a failed constructor leaves), the destruction does not return: it calls a null function.
\<close>

theorem last_communicator_releases_device:
  assumes "communicatorsByDevice w (cudaDev comm) = Some n" and "distinct (ownedPolicies w)"
    and "cocclCompressorRuntimeDestroy env (\<lambda>c. trainingUpdate (cocclTrainingAssistUnregister (Some c))) comm w = (r, w')"
  shows "if n \<noteq> 1
    then r = ncclSuccess \<and>
      w' = (trainingUpdate (cocclTrainingAssistUnregister (Some comm)) w)
             \<lparr>communicatorsByDevice := (communicatorsByDevice w)(cudaDev comm \<mapsto> n - 1)\<rparr>
    else if \<exists>p \<in> set (ownedPolicies w). \<not> destroyable w (cudaDev comm) p then r = ncclNumResults
    else
      let calls = concat (map (deviceReleases w (cudaDev comm)) (ownedPolicies w)) in
      r = (if someFreeFails env (logLen w) calls then ncclUnhandledCudaError else ncclSuccess) \<and>
      w' = (trainingUpdate (cocclTrainingAssistUnregister (Some comm)) w)
             \<lparr>communicatorsByDevice := (communicatorsByDevice w)(cudaDev comm := None),
              rankByDevice := (rankByDevice w)(cudaDev comm := None), apiLog := apiLog w @ calls,
              policyResources := (\<lambda>p. if p \<in> set (ownedPolicies w) then (policyResources w p)(cudaDev comm := None)
                                      else policyResources w p)\<rparr>"
  by (rule destroy_releases [OF assms refl]) (simp_all add: trainingUpdate_def)

text \<open>One policy with a state object and a buffer on device 0, and the only communicator there.\<close>

definition exampleRuntimeWorld :: "int \<Rightarrow> runtime_world" where
  "exampleRuntimeWorld groupDepth =
     (profile_world.extend (pipeline_world.extend examplePipelineWorld \<lparr>performance = emptyPerformanceModel, gathered = []\<rparr>)
        \<lparr>trainingState = initialTraining\<rparr>)
       \<lparr>runtimeInitialized := True, runtimeHasPolicies := True, policyTable := (\<lambda>_ _ _ _. 1), ncclGroupDepth := groupDepth\<rparr>"

definition exampleLastWorld :: runtime_world where
  "exampleLastWorld = (exampleRuntimeWorld 0)\<lparr>apiLog := [], ownedPolicies := [1], communicatorsByDevice := [0 \<mapsto> 1],
     policyResources := (\<lambda>_. [0 \<mapsto> \<lparr>persistent = [(0, \<lparr>persistentData = 4096, persistentBytes = 100\<rparr>)],
       pluginStates = [(8, \<lparr>stateData = 32, stateDestroy = 64\<rparr>)], scratchPeakBytes = 0\<rparr>])\<rparr>"

theorem last_communicator_releases_device_witness:
  "\<exists>r w'. cocclCompressorRuntimeDestroy exampleEnv (\<lambda>c. trainingUpdate (cocclTrainingAssistUnregister (Some c)))
       exampleDeviceComm exampleLastWorld = (r, w') \<and>
     apiLog w' = [PluginDestroyState 64 32, CudaMemory (cudaFree 4096)] \<and> policyResources w' 1 0 = None"
proof -
  let ?run = "cocclCompressorRuntimeDestroy exampleEnv (\<lambda>c. trainingUpdate (cocclTrainingAssistUnregister (Some c)))
       exampleDeviceComm exampleLastWorld"
  obtain r w' where run: "?run = (r, w')" by fastforce
  have own: "communicatorsByDevice exampleLastWorld (cudaDev exampleDeviceComm) = Some 1" "distinct (ownedPolicies exampleLastWorld)"
    by (simp_all add: exampleLastWorld_def exampleDeviceComm_def)
  have calls: "\<forall>p \<in> set (ownedPolicies exampleLastWorld). destroyable exampleLastWorld (cudaDev exampleDeviceComm) p"
    "concat (map (deviceReleases exampleLastWorld (cudaDev exampleDeviceComm)) (ownedPolicies exampleLastWorld)) =
       [PluginDestroyState 64 32, CudaMemory (cudaFree 4096)]"
    by (simp_all add: exampleLastWorld_def exampleDeviceComm_def destroyable_def deviceReleases_def)
  from last_communicator_releases_device [OF own run] calls
  have "w' = (trainingUpdate (cocclTrainingAssistUnregister (Some exampleDeviceComm)) exampleLastWorld)
      \<lparr>communicatorsByDevice := (communicatorsByDevice exampleLastWorld)(cudaDev exampleDeviceComm := None),
       rankByDevice := (rankByDevice exampleLastWorld)(cudaDev exampleDeviceComm := None),
       apiLog := apiLog exampleLastWorld @ [PluginDestroyState 64 32, CudaMemory (cudaFree 4096)],
       policyResources := (\<lambda>p. if p \<in> set (ownedPolicies exampleLastWorld)
          then (policyResources exampleLastWorld p)(cudaDev exampleDeviceComm := None) else policyResources exampleLastWorld p)\<rparr>"
    by (simp add: Let_def cong: if_cong)
  then have "apiLog w' = [PluginDestroyState 64 32, CudaMemory (cudaFree 4096)]" "policyResources w' 1 0 = None"
    by (simp_all add: exampleLastWorld_def exampleDeviceComm_def)
  with run show ?thesis by blast
qed

end
