(* ===== verification/Coccl_Runtime.thy ===== *)
theory Coccl_Runtime
  imports Coccl_Comm Primitive_Stages
begin

text \<open>
  Routing, \<^verbatim>\<open>core/runtime/coccl_runtime.cc\<close>: which calls at the public boundary the layer takes over,
  with which compressors and algorithm, and their execution (\<^verbatim>\<open>extensions/primitives\<close>). The part of
  \<^verbatim>\<open>core/runtime/coccl_group.cc\<close> that keeps a call for the end of the group is here too; the end of a
  group is theory \<open>Coccl_Group\<close>.
\<close>

section \<open>Which calls are supported\<close>

text \<open>\<^verbatim>\<open>__CUDA_BF16_TYPES_EXIST__\<close> is defined.\<close>

definition floatingDatatypeSupported :: "ncclDataType_t \<Rightarrow> bool" where
  "floatingDatatypeSupported dtype \<longleftrightarrow> dtype = ncclFloat16 \<or> dtype = ncclFloat32 \<or> dtype = ncclBfloat16"

definition compressorDatatypeSupported :: "compressor_store \<Rightarrow> ncclDataType_t \<Rightarrow> ptr \<Rightarrow> bool" where
  "compressorDatatypeSupported cs dtype compressor \<longleftrightarrow>
     floatingDatatypeSupported dtype \<or>
     (dtype \<in> {ncclInt8, ncclInt32, ncclInt64} \<and>
      cocclCompressorSupports cs compressor cocclCompressorCapabilityBytewiseLossless)"

definition shapeSupported :: "cocclInfo \<Rightarrow> cocclOperationDescriptor \<Rightarrow> bool" where
  "shapeSupported info descriptor \<longleftrightarrow>
     (if infoCount info = 0 then False
      else if infoOperation info = SendRecv
      then (if infoFunc info = ncclFuncSend then infoSend info \<noteq> nullptr
            else infoFunc info = ncclFuncRecv \<and> infoRecv info \<noteq> nullptr)
      else if infoSend info = nullptr \<or> infoRecv info = nullptr then False
      else \<not> cocclOperationHasTrait (Some descriptor) cocclOperationTraitCountDivisibleByRanks \<or>
           infoCount info mod size_of_int (nRanks (callComm info)) = 0)"

definition totalBytes :: "cocclInfo \<Rightarrow> cocclOperationDescriptor \<Rightarrow> size_t option" where
  "totalBytes info descriptor =
     (let typeBytes = ncclTypeSize (infoDatatype info); ranks = size_of_int (nRanks (callComm info)) in
      if typeBytes \<le> 0 \<or> infoCount info > SIZE_MAX div size_of_int typeBytes then None
      else
        let amount = infoCount info * size_of_int typeBytes in
        if cocclOperationHasTrait (Some descriptor) cocclOperationTraitScaleBytesByRanks
        then (if amount > SIZE_MAX div ranks then None else Some (amount * ranks))
        else Some amount)"

definition tunableReduction :: "cocclOperation \<Rightarrow> bool" where
  "tunableReduction oper \<longleftrightarrow> oper = ReduceScatter \<or> oper = AllReduce"

definition sendRecvForward :: "cocclInfo \<Rightarrow> bool" where
  "sendRecvForward info \<longleftrightarrow>
     (if infoFunc info = ncclFuncSend then rank (callComm info) < infoPeer info
      else rank (callComm info) > infoPeer info)"

definition callSupported :: "cocclInfo \<Rightarrow> cocclOperationDescriptor \<Rightarrow> bool" where
  "callSupported info descriptor \<longleftrightarrow>
     \<not> nRanks (callComm info) \<le> 1 \<and>
     \<not> (cocclOperationHasTrait (Some descriptor) cocclOperationTraitReduction \<and> infoOp info \<noteq> ncclSum) \<and>
     shapeSupported info descriptor"

section \<open>Compressors of a call\<close>

definition trainingRole :: "runtime_env \<Rightarrow> ncclComm option \<Rightarrow> training_state \<Rightarrow> cocclTrainingRole" where
  "trainingRole R comm st =
     (if \<not> cocclTrainingAssistEnabled (cocclGetConfig R) then TrainingRoleUnknown
      else case cocclTrainingAssistQuery (cocclGetConfig R) comm st of
             Some classification \<Rightarrow> classRole classification
           | None \<Rightarrow> TrainingRoleUnknown)"

definition preparedPolicy :: "cocclPreparedCall \<Rightarrow> cocclPolicyKey" where
  "preparedPolicy call =
     (let oper = infoOperation (preparedInfo call) in
      if oper = SendRecv \<and> preparedRole call = TrainingRolePipelineParallel
      then cocclDirectionalPolicy SendRecv (sendRecvForward (preparedInfo call)) ScopeDefault
      else cocclDefaultPolicy oper ScopeDefault)"

text \<open>A scope whose policy does not resolve is skipped; the threshold is the one of the last scope that resolves.\<close>

definition resolveScope ::
  "'w compressor_world_scheme \<Rightarrow> cocclPreparedCall \<Rightarrow> cocclCompressionScope \<Rightarrow> cocclPreparedCompressorSet \<Rightarrow>
   cocclPreparedCompressorSet" where
  "resolveScope w call scope cset =
     (case cocclResolveCompressorPolicy w (preparedRole call) (cocclPolicyForScope (preparedPolicyKey call) scope) of
        Inl e \<Rightarrow> cset
      | Inr resolved \<Rightarrow>
          \<lparr>handles = (handles cset)(scope := resolvedCompressor resolved),
           datatypeSupported = (datatypeSupported cset)(scope := compressorDatatypeSupported (policyStore w)
             (infoDatatype (preparedInfo call)) (resolvedCompressor resolved)),
           setThresholdBytes = resolvedThresholdBytes resolved\<rparr>)"

definition resolvePreparedCompressors ::
  "'w compressor_world_scheme \<Rightarrow> cocclPreparedCall \<Rightarrow> ncclResult_t \<times> cocclPreparedCall" where
  "resolvePreparedCompressors w call =
     (let call1 = call\<lparr>preparedPolicyKey := preparedPolicy call\<rparr>;
          call2 = call1\<lparr>preparedCompressors :=
            fold (resolveScope w call1) [ScopeDefault, ScopeIntra, ScopeInter] emptyCompressorSet\<rparr> in
      (if anyEnabled (preparedCompressors call2) then ncclSuccess else ncclInvalidUsage, call2))"

text \<open>A default-constructed call around the captured parameters.\<close>

definition newCall :: "cocclInfo \<Rightarrow> cocclPreparedCall" where
  "newCall info = \<lparr>preparedInfo = info, preparedDescriptor = None, preparedRole = TrainingRoleUnknown,
     preparedPolicyKey = PolicyKey OperationCount VariantDefault ScopeDefault, preparedAlgorithm = AlgorithmNone,
     preparedCompressors = emptyCompressorSet, oneShotUs = Fin 0, twoShotUs = Fin 0, tripleShotUs = Fin 0,
     preparedUsedModel = False\<rparr>"

section \<open>Pending calls\<close>

definition cocclGroupHasPending :: "runtime_state \<Rightarrow> bool" where
  "cocclGroupHasPending s \<longleftrightarrow> pendingCalls s \<noteq> []"

definition cocclGroupEnqueue :: "cocclPreparedCall \<Rightarrow> runtime_state coded" where
  "cocclGroupEnqueue call s = (ncclSuccess, s\<lparr>pendingCalls := pendingCalls s @ [call]\<rparr>)"

definition cocclGroupEnqueueNative :: "cocclInfo \<Rightarrow> runtime_state coded" where
  "cocclGroupEnqueueNative info s = (ncclSuccess, s\<lparr>pendingCalls := pendingCalls s @ [newCall info]\<rparr>)"

section \<open>Execution\<close>

definition runPipeline :: "runtime_env \<Rightarrow> cocclPipelineSpec \<Rightarrow> runtime_state coded" where
  "runPipeline R sp = onCore (cocclRunPipeline (apiEnv R) (memoryEnv R) (cocclGetConfig R) sp)"

definition runPipelineSerial :: "runtime_env \<Rightarrow> cocclPipelineSpec \<Rightarrow> runtime_state coded" where
  "runPipelineSerial R sp = onCore (cocclRunPipelineSerial (apiEnv R) (memoryEnv R) (cocclGetConfig R) sp)"

text \<open>The hierarchical algorithms, on the communicators of the call.\<close>

definition runHierarchical ::
  "runtime_env \<Rightarrow> cocclPreparedCall \<Rightarrow> (ncclComm \<Rightarrow> ncclComm \<Rightarrow> cocclPipelineSpec) \<Rightarrow> runtime_state coded" where
  "runHierarchical R call sp s =
     (case cocclCommGetHierarchicalComms R (callComm (preparedInfo call)) s of
        (Inl e, s1) \<Rightarrow> (e, s1)
      | (Inr (child1, child2), s1) \<Rightarrow> runPipeline R (sp (commAt R child1) (commAt R child2)) s1)"

definition unevenNodes :: "cocclInfo \<Rightarrow> bool" where
  "unevenNodes info \<longleftrightarrow>
     localRanks (callComm info) \<le> 0 \<or> nRanks (callComm info) mod localRanks (callComm info) \<noteq> 0"

definition cocclExecuteAllGather :: "runtime_env \<Rightarrow> cocclPreparedCall \<Rightarrow> runtime_state coded" where
  "cocclExecuteAllGather R call = runPipeline R (allGatherSpec call)"

definition cocclExecuteAllToAll :: "runtime_env \<Rightarrow> cocclPreparedCall \<Rightarrow> runtime_state coded" where
  "cocclExecuteAllToAll R call = runPipeline R (allToAllSpec call)"

definition cocclExecuteReduceScatter :: "runtime_env \<Rightarrow> cocclPreparedCall \<Rightarrow> runtime_state coded" where
  "cocclExecuteReduceScatter R call =
     (if preparedAlgorithm call = AlgorithmReduceScatterOneShot then runPipeline R (reduceScatterOneShotSpec call)
      else if unevenNodes (preparedInfo call) then Pair ncclInvalidArgument
      else runHierarchical R call (reduceScatterTwoShotSpec call))"

definition cocclExecuteAllReduce :: "runtime_env \<Rightarrow> cocclPreparedCall \<Rightarrow> runtime_state coded" where
  "cocclExecuteAllReduce R call =
     (let info = preparedInfo call in
      if infoCount info mod commRanks info \<noteq> 0 then Pair ncclInvalidArgument
      else if preparedAlgorithm call = AlgorithmAllReduceTripleShot \<and> unevenNodes info then Pair ncclInvalidArgument
      else case preparedAlgorithm call of
          AlgorithmAllReduceOneShot \<Rightarrow> runPipelineSerial R (allReduceOneShotSpec call)
        | AlgorithmAllReduceTwoShot \<Rightarrow> runPipeline R (allReduceTwoShotSpec call)
        | AlgorithmAllReduceTripleShot \<Rightarrow> runHierarchical R call (allReduceTripleShotSpec call)
        | _ \<Rightarrow> Pair ncclInternalError)"

definition sendRecvBatch :: "runtime_env \<Rightarrow> cocclPreparedCall list \<Rightarrow> runtime_state coded" where
  "sendRecvBatch R calls =
     onCore (cocclExecuteSendRecvBatch (apiEnv R) (metadataEnv R) (bufferConfig (cocclGetConfig R)) (hostAddress R) calls)"

text \<open>Run with the caller guard set, and put the previous value back.\<close>

definition guardedCall :: "runtime_state coded \<Rightarrow> runtime_state coded" where
  "guardedCall m s =
     (let previous = callerGuardActive (world s) in
      case m (updateWorld (setGuard True) s) of (result, s1) \<Rightarrow> (result, updateWorld (setGuard previous) s1))"

definition cocclExecutePreparedCall :: "runtime_env \<Rightarrow> cocclPreparedCall \<Rightarrow> runtime_state coded" where
  "cocclExecutePreparedCall R call =
     (if preparedDescriptor call = None \<or> \<not> anyEnabled (preparedCompressors call) then Pair ncclInvalidArgument
      else guardedCall (case infoOperation (preparedInfo call) of
          AllGather \<Rightarrow> cocclExecuteAllGather R call
        | AllToAll \<Rightarrow> cocclExecuteAllToAll R call
        | ReduceScatter \<Rightarrow> cocclExecuteReduceScatter R call
        | AllReduce \<Rightarrow> cocclExecuteAllReduce R call
        | SendRecv \<Rightarrow> sendRecvBatch R [call]
        | OperationCount \<Rightarrow> Pair ncclInvalidArgument))"

definition cocclEnqueuePreparedCall :: "runtime_env \<Rightarrow> cocclPreparedCall \<Rightarrow> runtime_state coded" where
  "cocclEnqueuePreparedCall R call s =
     (if ncclGroupDepth (world s) > 0 then cocclGroupEnqueue call s else cocclExecutePreparedCall R call s)"

section \<open>Execution leaves the pending calls alone\<close>

lemma guardedCall_pending:
  "(\<And>s. pendingCalls (snd (m s)) = pendingCalls s) \<Longrightarrow> pendingCalls (snd (guardedCall m s)) = pendingCalls s"
  by (simp add: guardedCall_def Let_def split_beta)

lemma pending_hierarchical: "pendingCalls (snd (runHierarchical R call sp s)) = pendingCalls s"
  using pending_getHierarchical [of R "callComm (preparedInfo call)" s]
  by (auto simp: runHierarchical_def runPipeline_def split: prod.splits sum.splits)

lemma pending_execute: "pendingCalls (snd (cocclExecutePreparedCall R call s)) = pendingCalls s"
proof -
  have "pendingCalls (snd ((case infoOperation (preparedInfo call) of
          AllGather \<Rightarrow> cocclExecuteAllGather R call
        | AllToAll \<Rightarrow> cocclExecuteAllToAll R call
        | ReduceScatter \<Rightarrow> cocclExecuteReduceScatter R call
        | AllReduce \<Rightarrow> cocclExecuteAllReduce R call
        | SendRecv \<Rightarrow> sendRecvBatch R [call]
        | OperationCount \<Rightarrow> Pair ncclInvalidArgument) t)) = pendingCalls t" for t
    by (simp add: cocclExecuteAllGather_def cocclExecuteAllToAll_def cocclExecuteReduceScatter_def cocclExecuteAllReduce_def
        sendRecvBatch_def runPipeline_def runPipelineSerial_def pending_hierarchical Let_def
        split: cocclOperation.split cocclAlgorithmKind.split)
  from guardedCall_pending [OF this] show ?thesis by (simp add: cocclExecutePreparedCall_def)
qed

section \<open>Routing\<close>

text \<open>The result and \<^verbatim>\<open>isEnqueued\<close>.\<close>

type_synonym routed = "runtime_state \<Rightarrow> (ncclResult_t \<times> bool) \<times> runtime_state"

definition routeNativeGroupedSendRecv :: "cocclInfo \<Rightarrow> routed" where
  "routeNativeGroupedSendRecv info s =
     (if ncclGroupDepth (world s) = 0 \<or> infoOperation info \<noteq> SendRecv then ((ncclSuccess, False), s)
      else case cocclGroupEnqueueNative info s of
          (r, s1) \<Rightarrow> if nccl_ok r then ((ncclSuccess, True), s1) else ((r, False), s1))"

text \<open>The call as far as it was prepared when routing declines it is not used; \<open>None\<close> declines.\<close>

definition prepareRoute ::
  "runtime_env \<Rightarrow> cocclInfo \<Rightarrow> runtime_world \<Rightarrow> cocclPreparedCall option" where
  "prepareRoute R info w =
     (case cocclGetOperationDescriptor (infoOperation info) of
        None \<Rightarrow> None
      | Some descriptor \<Rightarrow>
          if \<not> callSupported info descriptor then None
          else
            case totalBytes info descriptor of
              None \<Rightarrow> None
            | Some bytes \<Rightarrow>
                let trole = trainingRole R (infoComm info) (trainingState w);
                    call = (newCall info)\<lparr>preparedDescriptor := Some descriptor, preparedRole := trole\<rparr>;
                    (resolved, call1) = resolvePreparedCompressors w call in
                if cocclTrainingAssistEnabled (cocclGetConfig R) \<and> trole = TrainingRoleUnknown then None
                else if resolved \<noteq> ncclSuccess then None
                else if bytes \<le> setThresholdBytes (preparedCompressors call1) then None
                else if tunableReduction (infoOperation info)
                then (case cocclSelectAlgorithm (roundDouble R) (autotuneConfig (cocclGetConfig R)) (performance w) call1 of
                        (selected, call2) \<Rightarrow> if selected = ncclSuccess then Some call2 else None)
                else if \<not> cocclPreparedAlgorithmSupported call1 AlgorithmNone then None
                else Some call1)"

definition observeCall :: "runtime_env \<Rightarrow> cocclInfo \<Rightarrow> runtime_world \<Rightarrow> runtime_world" where
  "observeCall R info w =
     trainingUpdate (cocclTrainingAssistObserve (roundDouble R) (roundExtended R) (cocclGetConfig R) (clockNs R (logLen w))
       info (ncclGroupDepth w)) w"

text \<open>The entry points pass the addresses of local variables, so the two null checks at the start are not met.\<close>

definition cocclEnqueueCheck :: "runtime_env \<Rightarrow> cocclInfo \<Rightarrow> routed" where
  "cocclEnqueueCheck R info s =
     (if \<not> cocclCompressionEnabled (world s) \<or> callerGuardActive (world s) \<or> infoComm info = None
      then ((ncclSuccess, False), s)
      else
        let s1 = updateWorld (observeCall R info) s in
        case prepareRoute R info (world s1) of
          None \<Rightarrow> routeNativeGroupedSendRecv info s1
        | Some call \<Rightarrow>
            (case cocclEnqueuePreparedCall R call s1 of
               (r, s2) \<Rightarrow> if nccl_ok r then ((ncclSuccess, True), s2) else ((r, False), s2)))"

section \<open>What routing decides\<close>

text \<open>Selection changes only its own fields, and what it selects is served by the compressors.\<close>

lemma scoreAll_keeps:
  "preparedDescriptor (fst (scoreAll fl perf call cands)) = preparedDescriptor call \<and>
   preparedRole (fst (scoreAll fl perf call cands)) = preparedRole call \<and>
   preparedPolicyKey (fst (scoreAll fl perf call cands)) = preparedPolicyKey call"
  by (induction cands arbitrary: call) (simp_all add: setCandidateScore_def Let_def split_beta)

lemma select_keeps:
  assumes "cocclSelectAlgorithm fl cfg perf call = (r, call')"
  shows "preparedInfo call' = preparedInfo call \<and> preparedCompressors call' = preparedCompressors call \<and>
    preparedDescriptor call' = preparedDescriptor call \<and> preparedRole call' = preparedRole call \<and>
    preparedPolicyKey call' = preparedPolicyKey call"
  using assms
  by (auto simp: cocclSelectAlgorithm_def selectCandidate_def Let_def split_beta scoreAll_fields scoreAll_keeps
      split: if_splits option.splits)

lemma supported_same:
  "preparedInfo call' = preparedInfo call \<Longrightarrow> preparedCompressors call' = preparedCompressors call \<Longrightarrow>
   cocclPreparedAlgorithmSupported call' algorithm = cocclPreparedAlgorithmSupported call algorithm"
  by (simp add: cocclPreparedAlgorithmSupported_def cocclPreparedAlgorithmHasCompression_def)

lemma select_supported:
  assumes "cocclSelectAlgorithm fl cfg perf call = (ncclSuccess, call')"
  shows "cocclPreparedAlgorithmSupported call' (preparedAlgorithm call')"
proof -
  from selectAlgorithm_decision [of fl cfg perf call] assms
  obtain spec where d: "decisionCandidate (selectDecision fl cfg perf call) = Some spec"
    and alg: "preparedAlgorithm call' = specAlgorithm spec" by (auto split: if_splits)
  from choose_in [OF d [unfolded selectDecision_def]] scored_spec
  obtain c where c: "c \<in> set (usableCandidates call)" "candidateSpec c = spec" by metis
  from usable_spec(3) [OF c(1)] c(2) alg have "cocclPreparedAlgorithmSupported call (preparedAlgorithm call')" by simp
  with select_keeps [OF assms] supported_same show ?thesis by blast
qed

text \<open>The compressor of each scope is the one the policy table holds.\<close>

definition tableCompressor ::
  "'w compressor_world_scheme \<Rightarrow> cocclTrainingRole \<Rightarrow> cocclPolicyKey \<Rightarrow> cocclCompressionScope \<Rightarrow> ptr" where
  "tableCompressor w trole key scope = policyTable w trole (keyVariant key) (keyOperation key) scope"

lemma resolve_compressors:
  assumes "resolvePreparedCompressors w call = (ncclSuccess, call')" and "scope \<noteq> ScopeCount"
  shows "setGet (preparedCompressors call') scope = tableCompressor w (preparedRole call) (preparedPolicy call) scope"
proof -
  let ?call = "call\<lparr>preparedPolicyKey := preparedPolicy call\<rparr>"
  let ?set = "fold (resolveScope w ?call) [ScopeDefault, ScopeIntra, ScopeInter] emptyCompressorSet"
  have set: "preparedCompressors call' = ?set" and any: "anyEnabled ?set"
    using assms(1) by (auto simp: resolvePreparedCompressors_def Let_def split: if_splits)
  have key: "keyOperation (cocclPolicyForScope k sc) = keyOperation k" "keyVariant (cocclPolicyForScope k sc) = keyVariant k"
    "keyScope (cocclPolicyForScope k sc) = sc" for k sc by (simp_all add: cocclPolicyForScope_def)
  have "preparedRole call \<noteq> TrainingRoleCount" "keyOperation (preparedPolicy call) \<noteq> OperationCount"
    using any by (auto simp: resolveScope_def cocclResolveCompressorPolicy_def key anyEnabled_def emptyCompressorSet_def)
  then show ?thesis
    using assms(2) unfolding set setGet_def tableCompressor_def
    by (cases scope) (auto simp: resolveScope_def cocclResolveCompressorPolicy_def key Let_def emptyCompressorSet_def)
qed

text \<open>The size that is compared with the threshold is the exact number of bytes.\<close>

definition callBytes :: "cocclInfo \<Rightarrow> nat" where
  "callBytes info =
     unat (infoCount info) * nat (ncclTypeSize (infoDatatype info)) *
     (if infoOperation info \<in> {AllGather, ReduceScatter, AllToAll} then nat (nRanks (callComm info)) else 1)"

lemma descriptor_traits:
  assumes "cocclGetOperationDescriptor oper = Some descriptor"
  shows "cocclOperationHasTrait (Some descriptor) cocclOperationTraitScaleBytesByRanks \<longleftrightarrow>
      oper \<in> {AllGather, ReduceScatter, AllToAll}"
    and "cocclOperationHasTrait (Some descriptor) cocclOperationTraitReduction \<longleftrightarrow> oper \<in> {ReduceScatter, AllReduce}"
    and "cocclOperationHasTrait (Some descriptor) cocclOperationTraitCountDivisibleByRanks \<longleftrightarrow> oper = AllReduce"
  using assms by (cases oper; auto simp: cocclOperationHasTrait_def trait_defs)+

lemma totalBytes_exact:
  assumes "cocclGetOperationDescriptor (infoOperation info) = Some descriptor"
    and "totalBytes info descriptor = Some bytes" and "0 < nRanks (callComm info)" and "nRanks (callComm info) < 2 ^ 31"
  shows "unat bytes = callBytes info"
proof -
  let ?t = "ncclTypeSize (infoDatatype info)" and ?n = "nRanks (callComm info)"
  have t: "0 < ?t" "?t \<le> 8" "\<not> infoCount info > SIZE_MAX div size_of_int ?t"
    using assms(2) ncclTypeSize_le [of "infoDatatype info"] by (auto simp: totalBytes_def Let_def split: if_splits)
  have ut: "unat (size_of_int ?t) = nat ?t" by (rule unat_cint) (use t in simp_all)
  have un: "unat (size_of_int ?n) = nat ?n" by (rule unat_cint) (use assms in simp_all)
  have nz: "size_of_int ?t \<noteq> 0" "size_of_int ?n \<noteq> 0"
    using ut un t(1) assms(3) by (auto simp: unat_eq_zero)
  have raw: "unat (infoCount info * size_of_int ?t) = unat (infoCount info) * nat ?t"
    using div_guard_exact [OF nz(1) t(3)] ut by simp
  have scaled: "unat (a * size_of_int ?n) = unat a * nat ?n" if "\<not> a > SIZE_MAX div size_of_int ?n" for a
    using div_guard_exact [OF nz(2) that] un by simp
  show ?thesis
    using assms(2) t raw scaled descriptor_traits(1) [OF assms(1)]
    by (auto simp: totalBytes_def Let_def callBytes_def split: if_splits)
qed

text \<open>
  What the layer promises of a call it routes, written out over the call, the policy table and the
  plugins. The policy is that of the call's own operation for the communicator's role; only point-to-point
  calls of the pipeline role have a direction, forward towards higher ranks.
\<close>

definition callVariant :: "cocclInfo \<Rightarrow> cocclTrainingRole \<Rightarrow> cocclPolicyVariant" where
  "callVariant info trole =
     (if infoOperation info = SendRecv \<and> trole = TrainingRolePipelineParallel
      then (if if infoFunc info = ncclFuncSend then rank (callComm info) < infoPeer info
               else infoPeer info < rank (callComm info)
            then VariantForward else VariantBackward)
      else VariantDefault)"

definition callCompressor :: "runtime_env \<Rightarrow> cocclInfo \<Rightarrow> runtime_world \<Rightarrow> cocclCompressionScope \<Rightarrow> ptr" where
  "callCompressor R info w scope =
     (let trole = trainingRole R (infoComm info) (trainingState w) in
      policyTable w trole (callVariant info trole) (infoOperation info) scope)"

definition servingScopes :: "runtime_env \<Rightarrow> cocclInfo \<Rightarrow> runtime_world \<Rightarrow> cocclCompressionScope list" where
  "servingScopes R info w =
     filter (\<lambda>scope. callCompressor R info w scope \<noteq> nullptr) [ScopeDefault, ScopeIntra, ScopeInter]"

text \<open>The threshold of a call is that of the last scope its policy has a compressor for.\<close>

definition callThreshold :: "runtime_env \<Rightarrow> cocclInfo \<Rightarrow> runtime_world \<Rightarrow> size_t" where
  "callThreshold R info w = thresholdBytes (policyStore w (callCompressor R info w (last (servingScopes R info w))))"

text \<open>A compressor encodes floating data; integers only when it is lossless byte by byte.\<close>

definition encodes :: "compressor_store \<Rightarrow> ncclDataType_t \<Rightarrow> ptr \<Rightarrow> bool" where
  "encodes cs dtype p \<longleftrightarrow> dtype \<in> {ncclFloat16, ncclFloat32, ncclBfloat16} \<or>
     dtype \<in> {ncclInt8, ncclInt32, ncclInt64} \<and>
     capabilities (plugin (cs p)) AND cocclCompressorCapabilityBytewiseLossless \<noteq> 0"

definition wellFormedCall :: "cocclInfo \<Rightarrow> bool" where
  "wellFormedCall info \<longleftrightarrow> 1 < nRanks (callComm info) \<and> infoCount info \<noteq> 0 \<and>
     (case infoOperation info of
        SendRecv \<Rightarrow> infoFunc info = ncclFuncSend \<and> infoSend info \<noteq> nullptr \<or>
          infoFunc info = ncclFuncRecv \<and> infoRecv info \<noteq> nullptr
      | OperationCount \<Rightarrow> False
      | oper \<Rightarrow> infoSend info \<noteq> nullptr \<and> infoRecv info \<noteq> nullptr \<and>
          (oper \<in> {ReduceScatter, AllReduce} \<longrightarrow> infoOp info = ncclSum) \<and>
          (oper = AllReduce \<longrightarrow> infoCount info mod size_of_int (nRanks (callComm info)) = 0))"

definition routedCall :: "runtime_env \<Rightarrow> cocclInfo \<Rightarrow> runtime_world \<Rightarrow> cocclPreparedCall \<Rightarrow> bool" where
  "routedCall R info w call \<longleftrightarrow>
     preparedInfo call = info \<and> wellFormedCall info \<and>
     preparedRole call = trainingRole R (infoComm info) (trainingState w) \<and>
     (cocclTrainingAssistEnabled (cocclGetConfig R) \<longrightarrow> preparedRole call \<noteq> TrainingRoleUnknown) \<and>
     servingScopes R info w \<noteq> [] \<and>
     (\<forall>scope \<in> {ScopeDefault, ScopeIntra, ScopeInter}.
        setGet (preparedCompressors call) scope = callCompressor R info w scope) \<and>
     (\<exists>scope \<in> set (algorithmScopes info (preparedAlgorithm call)). callCompressor R info w scope \<noteq> nullptr) \<and>
     (\<forall>scope \<in> set (algorithmScopes info (preparedAlgorithm call)).
        callCompressor R info w scope \<noteq> nullptr \<longrightarrow>
        encodes (policyStore w) (infoDatatype info) (callCompressor R info w scope))"

text \<open>A call that routing takes over, in terms of its own fields.\<close>

definition taken_over :: "cocclInfo \<Rightarrow> runtime_world \<Rightarrow> cocclPreparedCall \<Rightarrow> bool" where
  "taken_over info w call \<longleftrightarrow>
     preparedInfo call = info \<and>
     (\<exists>descriptor. cocclGetOperationDescriptor (infoOperation info) = Some descriptor \<and>
        preparedDescriptor call = Some descriptor \<and> callSupported info descriptor) \<and>
     (\<forall>scope. scope \<noteq> ScopeCount \<longrightarrow>
        setGet (preparedCompressors call) scope = tableCompressor w (preparedRole call) (preparedPolicyKey call) scope) \<and>
     cocclPreparedAlgorithmSupported call (preparedAlgorithm call)"

lemma resolve_keeps:
  "resolvePreparedCompressors w call = (r, call') \<Longrightarrow>
     preparedInfo call' = preparedInfo call \<and> preparedDescriptor call' = preparedDescriptor call \<and>
     preparedRole call' = preparedRole call \<and> preparedPolicyKey call' = preparedPolicy call \<and>
     preparedAlgorithm call' = preparedAlgorithm call"
  by (auto simp: resolvePreparedCompressors_def Let_def)

lemma newCall_fields [simp]:
  "preparedInfo (newCall info) = info" "preparedAlgorithm (newCall info) = AlgorithmNone"
  "preparedCompressors (newCall info) = emptyCompressorSet" "\<not> anyEnabled emptyCompressorSet"
  by (simp_all add: newCall_def anyEnabled_def emptyCompressorSet_def)

text \<open>Preparing a call, on either path: resolve, then select where the operation is tunable.\<close>

lemma prepared_taken_over:
  assumes d: "cocclGetOperationDescriptor (infoOperation info) = Some descriptor" "callSupported info descriptor"
    and call: "preparedInfo call = info" "preparedDescriptor call = Some descriptor"
    and resolved: "resolvePreparedCompressors w call = (ncclSuccess, call1)"
    and selected: "cocclSelectAlgorithm fl cfg perf call1 = (ncclSuccess, call2) \<or>
      call2 = call1 \<and> cocclPreparedAlgorithmSupported call1 (preparedAlgorithm call1)"
  shows "taken_over info w call2" and "preparedCompressors call2 = preparedCompressors call1"
proof -
  have keep: "preparedInfo call2 = preparedInfo call1 \<and> preparedCompressors call2 = preparedCompressors call1 \<and>
    preparedDescriptor call2 = preparedDescriptor call1 \<and> preparedRole call2 = preparedRole call1 \<and>
    preparedPolicyKey call2 = preparedPolicyKey call1" using selected select_keeps by auto
  then show "preparedCompressors call2 = preparedCompressors call1" by simp
  have "cocclPreparedAlgorithmSupported call2 (preparedAlgorithm call2)"
    using selected select_supported by auto
  with keep resolve_keeps [OF resolved] call d resolve_compressors [OF resolved] show "taken_over info w call2"
    by (simp add: taken_over_def)
qed

lemma prepareRoute_taken:
  assumes "prepareRoute R info w = Some call"
  shows "taken_over info w call \<and>
    (\<exists>descriptor bytes. cocclGetOperationDescriptor (infoOperation info) = Some descriptor \<and>
       totalBytes info descriptor = Some bytes \<and> setThresholdBytes (preparedCompressors call) < bytes)"
proof -
  obtain descriptor bytes where d: "cocclGetOperationDescriptor (infoOperation info) = Some descriptor"
      "callSupported info descriptor" "totalBytes info descriptor = Some bytes"
    using assms by (auto simp: prepareRoute_def split: option.splits if_splits)
  let ?call = "(newCall info)\<lparr>preparedDescriptor := Some descriptor,
     preparedRole := trainingRole R (infoComm info) (trainingState w)\<rparr>"
  obtain res call1 where res: "resolvePreparedCompressors w ?call = (res, call1)" by fastforce
  note run = assms [unfolded prepareRoute_def d(1) option.case if_not_P [OF not_not [THEN iffD2, OF d(2)]] d(3) Let_def res prod.case]
  have ok: "res = ncclSuccess" "\<not> bytes \<le> setThresholdBytes (preparedCompressors call1)"
    using run by (auto split: if_splits)
  note res = res [unfolded ok(1)]
  have alg: "preparedAlgorithm call1 = AlgorithmNone" using resolve_keeps [OF res] by simp
  have sel: "cocclSelectAlgorithm (roundDouble R) (autotuneConfig (cocclGetConfig R)) (performance w) call1 = (ncclSuccess, call) \<or>
      call = call1 \<and> cocclPreparedAlgorithmSupported call1 (preparedAlgorithm call1)"
    using run ok by (auto simp: alg split: if_splits prod.splits)
  note t = prepared_taken_over [OF d(1,2) _ _ res sel]
  from t ok(2) d(1,3) show ?thesis by auto
qed

text \<open>The compressor set of a call, scope by scope.\<close>

lemma resolve_datatypes:
  assumes "resolvePreparedCompressors w call = (ncclSuccess, call')" and "scope \<noteq> ScopeCount"
    and "setSupports (preparedCompressors call') scope"
  shows "encodes (policyStore w) (infoDatatype (preparedInfo call))
    (tableCompressor w (preparedRole call) (preparedPolicy call) scope)"
proof -
  let ?call = "call\<lparr>preparedPolicyKey := preparedPolicy call\<rparr>"
  have key: "keyOperation (cocclPolicyForScope k sc) = keyOperation k" "keyVariant (cocclPolicyForScope k sc) = keyVariant k"
    "keyScope (cocclPolicyForScope k sc) = sc" for k sc by (simp_all add: cocclPolicyForScope_def)
  have set: "preparedCompressors call' = fold (resolveScope w ?call) [ScopeDefault, ScopeIntra, ScopeInter] emptyCompressorSet"
    using assms(1) by (auto simp: resolvePreparedCompressors_def Let_def split: if_splits)
  have "compressorDatatypeSupported (policyStore w) (infoDatatype (preparedInfo call))
      (tableCompressor w (preparedRole call) (preparedPolicy call) scope)"
    using assms(2,3) unfolding set setSupports_def tableCompressor_def
    by (cases scope) (auto simp: resolveScope_def cocclResolveCompressorPolicy_def key Let_def emptyCompressorSet_def
        split: if_splits)
  then show ?thesis
    by (auto simp: compressorDatatypeSupported_def floatingDatatypeSupported_def cocclCompressorSupports_def encodes_def)
qed

lemma resolve_threshold:
  assumes "resolvePreparedCompressors w call = (ncclSuccess, call')"
  defines "serving \<equiv> filter (\<lambda>scope. tableCompressor w (preparedRole call) (preparedPolicy call) scope \<noteq> nullptr)
    [ScopeDefault, ScopeIntra, ScopeInter]"
  shows "serving \<noteq> [] \<and> setThresholdBytes (preparedCompressors call') =
    thresholdBytes (policyStore w (tableCompressor w (preparedRole call) (preparedPolicy call) (last serving)))"
proof -
  let ?call = "call\<lparr>preparedPolicyKey := preparedPolicy call\<rparr>"
  let ?set = "fold (resolveScope w ?call) [ScopeDefault, ScopeIntra, ScopeInter] emptyCompressorSet"
  have key: "keyOperation (cocclPolicyForScope k sc) = keyOperation k" "keyVariant (cocclPolicyForScope k sc) = keyVariant k"
    "keyScope (cocclPolicyForScope k sc) = sc" for k sc by (simp_all add: cocclPolicyForScope_def)
  have set: "preparedCompressors call' = ?set" and any: "anyEnabled ?set"
    using assms(1) by (auto simp: resolvePreparedCompressors_def Let_def split: if_splits)
  have "preparedRole call \<noteq> TrainingRoleCount" "keyOperation (preparedPolicy call) \<noteq> OperationCount"
    using any by (auto simp: resolveScope_def cocclResolveCompressorPolicy_def key anyEnabled_def emptyCompressorSet_def)
  with any show ?thesis
    unfolding set serving_def tableCompressor_def anyEnabled_def
    by (auto simp: resolveScope_def cocclResolveCompressorPolicy_def key Let_def emptyCompressorSet_def)
qed

text \<open>The table entry of a prepared call is the one of its own operation, role and direction.\<close>

lemma tableCompressor_call:
  assumes "preparedInfo call = info" and "preparedRole call = trainingRole R (infoComm info) (trainingState w)"
  shows "tableCompressor w (preparedRole call) (preparedPolicy call) = callCompressor R info w"
  using assms
  by (auto simp: fun_eq_iff tableCompressor_def callCompressor_def preparedPolicy_def callVariant_def sendRecvForward_def
      cocclDirectionalPolicy_def cocclDefaultPolicy_def Let_def)

lemma callSupported_wellFormed:
  assumes "cocclGetOperationDescriptor (infoOperation info) = Some descriptor" and "callSupported info descriptor"
  shows "wellFormedCall info"
  using assms(2) descriptor_traits [OF assms(1)] assms(1)
  by (auto simp: callSupported_def shapeSupported_def wellFormedCall_def split: cocclOperation.splits if_splits)

lemma prepareRoute_sound:
  assumes "prepareRoute R info w = Some call" and "0 < nRanks (callComm info)" and "nRanks (callComm info) < 2 ^ 31"
  shows "routedCall R info w call \<and> unat (callThreshold R info w) < callBytes info"
proof -
  obtain descriptor bytes where d: "cocclGetOperationDescriptor (infoOperation info) = Some descriptor"
      "callSupported info descriptor" "totalBytes info descriptor = Some bytes"
    using assms by (auto simp: prepareRoute_def split: option.splits if_splits)
  let ?call = "(newCall info)\<lparr>preparedDescriptor := Some descriptor,
     preparedRole := trainingRole R (infoComm info) (trainingState w)\<rparr>"
  obtain res call1 where res: "resolvePreparedCompressors w ?call = (res, call1)" by fastforce
  note run = assms(1) [unfolded prepareRoute_def d(1) option.case if_not_P [OF not_not [THEN iffD2, OF d(2)]] d(3) Let_def res prod.case]
  have ok: "res = ncclSuccess" "setThresholdBytes (preparedCompressors call1) < bytes"
    "cocclTrainingAssistEnabled (cocclGetConfig R) \<longrightarrow> trainingRole R (infoComm info) (trainingState w) \<noteq> TrainingRoleUnknown"
    using run by (auto split: if_splits)
  note res = res [unfolded ok(1)]
  have same: "preparedCompressors call = preparedCompressors call1" "preparedInfo call = info"
      "preparedRole call = trainingRole R (infoComm info) (trainingState w)"
    using run resolve_keeps [OF res] select_keeps [of _ _ _ call1] by (auto split: if_splits prod.splits)
  have table: "tableCompressor w (preparedRole ?call) (preparedPolicy ?call) = callCompressor R info w"
    by (rule tableCompressor_call) simp_all
  have sup: "cocclPreparedAlgorithmSupported call (preparedAlgorithm call)"
    using prepareRoute_taken [OF assms(1)] by (simp add: taken_over_def)
  note thr = resolve_threshold [OF res, unfolded table]
  have handles: "setGet (preparedCompressors call) scope = callCompressor R info w scope" if "scope \<noteq> ScopeCount" for scope
    using resolve_compressors [OF res that] unfolding table same(1) .
  have enc: "encodes (policyStore w) (infoDatatype info) (callCompressor R info w scope)"
    if "scope \<noteq> ScopeCount" "setSupports (preparedCompressors call) scope" for scope
    using resolve_datatypes [OF res that(1)] that(2) unfolding table same(1) by simp
  have scopes: "scope \<noteq> ScopeCount" if "scope \<in> set (algorithmScopes info algorithm)" for scope algorithm
    using that flatScope_valid [of info] by (auto simp: algorithmScopes_def split: if_splits)
  have "routedCall R info w call"
    using sup thr ok(3) callSupported_wellFormed [OF d(1,2)]
    unfolding routedCall_def cocclPreparedAlgorithmSupported_def cocclPreparedAlgorithmHasCompression_def same(2,3) servingScopes_def
    by (auto simp: handles enc dest: scopes) (metis enc handles scopes)+
  moreover have "unat (callThreshold R info w) < callBytes info"
    using thr ok(2) totalBytes_exact [OF d(1,3) assms(2,3)] by (simp add: callThreshold_def servingScopes_def word_less_nat_alt)
  ultimately show ?thesis by blast
qed

lemma observe_world [simp]:
  "ncclGroupDepth (observeCall R info w) = ncclGroupDepth w" "policyTable (observeCall R info w) = policyTable w"
  "callerGuardActive (observeCall R info w) = callerGuardActive w"
  "cocclCompressionEnabled (observeCall R info w) = cocclCompressionEnabled w"
  "policyStore (observeCall R info w) = policyStore w"
  by (simp_all add: observeCall_def trainingUpdate_def cocclCompressionEnabled_def)

lemma observe_table [simp]: "tableCompressor (observeCall R info w) = tableCompressor w"
  by (intro ext) (simp add: tableCompressor_def)

lemma taken_over_observe [simp]: "taken_over info (observeCall R info' w) call = taken_over info w call"
  by (simp add: taken_over_def)

lemma enqueue_check_cases:
  assumes "cocclEnqueueCheck R info s = ((r, enqueued), s')"
  shows "r = ncclSuccess \<and> \<not> enqueued \<and> (s' = s \<or> s' = updateWorld (observeCall R info) s) \<or>
    r = ncclSuccess \<and> enqueued \<and> infoComm info \<noteq> None \<and> infoOperation info = SendRecv \<and>
      ncclGroupDepth (world s) \<noteq> 0 \<and>
      s' = (updateWorld (observeCall R info) s)\<lparr>pendingCalls := pendingCalls s @ [newCall info]\<rparr> \<or>
    (\<exists>call. infoComm info \<noteq> None \<and> prepareRoute R info (observeCall R info (world s)) = Some call \<and>
      (if ncclGroupDepth (world s) > 0
       then r = ncclSuccess \<and> enqueued \<and>
         s' = (updateWorld (observeCall R info) s)\<lparr>pendingCalls := pendingCalls s @ [call]\<rparr>
       else \<exists>result. cocclExecutePreparedCall R call (updateWorld (observeCall R info) s) = (result, s') \<and>
         enqueued = nccl_ok result \<and> r = (if nccl_ok result then ncclSuccess else result)))"
proof (cases "\<not> cocclCompressionEnabled (world s) \<or> callerGuardActive (world s) \<or> infoComm info = None")
  case True
  with assms(1) show ?thesis by (auto simp: cocclEnqueueCheck_def)
next
  case False
  let ?s = "updateWorld (observeCall R info) s"
  note run = assms(1) [unfolded cocclEnqueueCheck_def if_not_P [OF False] Let_def]
  show ?thesis
  proof (cases "prepareRoute R info (world ?s)")
    case None
    with run have "routeNativeGroupedSendRecv info ?s = ((r, enqueued), s')"
      by simp
    with False show ?thesis
      by (auto simp: routeNativeGroupedSendRecv_def cocclGroupEnqueueNative_def split: if_splits)
  next
    case (Some call)
    with run obtain result where
      e: "cocclEnqueuePreparedCall R call ?s = (result, s')" "enqueued = nccl_ok result"
        "r = (if nccl_ok result then ncclSuccess else result)"
      by (auto split: prod.splits if_splits)
    from Some False e show ?thesis
      by (auto simp: cocclEnqueuePreparedCall_def cocclGroupEnqueue_def split: if_splits)
  qed
qed


text \<open>An all-gather of 256 floats on four ranks, inside a group, with one compressor for every policy.\<close>

definition exampleRuntimeState :: "int \<Rightarrow> runtime_state" where
  "exampleRuntimeState groupDepth = \<lparr>core = ([], exampleRuntimeWorld groupDepth), hierarchies = [], pendingCalls = []\<rparr>"

definition exampleRuntimeEnv :: runtime_env where
  "exampleRuntimeEnv = \<lparr>apiEnv = (\<lambda>i c. \<lparr>status = ncclSuccess, outValue = 0\<rparr>), memoryEnv = noMemory,
     metadataEnv = (\<lambda>i p. \<lparr>payloadBytes = 64, encoding = 0, reserved = 0\<rparr>), hostAddress = (\<lambda>i. 4096),
     commAt = (\<lambda>p. exampleComm\<lparr>self := p\<rparr>), roundDouble = Fin, roundExtended = Fin, clockNs = (\<lambda>_. 0),
     publishedConfig = Some defaultConfig, loader = (\<lambda>_. None),
     bootstrapEnv = \<lparr>peerNeeds = (\<lambda>_ _. 0), peerBytes = (\<lambda>_ _. 0), peerObservation = (\<lambda>_ _. emptyObservation)\<rparr>\<rparr>"

definition exampleGatherInfo :: cocclInfo where
  "exampleGatherInfo = emptyInfo\<lparr>infoSend := 65536, infoRecv := 131072, infoCount := 256, infoDatatype := ncclFloat32,
     infoFunc := ncclFuncAllGather, infoOperation := AllGather, infoComm := Some exampleComm\<rparr>"


end
