(* ===== verification/Coccl_Group.thy ===== *)
theory Coccl_Group
  imports Coccl_Runtime
begin

text \<open>
  The public boundary: the collective entry points of \<^verbatim>\<open>collectives.cc\<close>, which offer every call to the
  layer before they run it natively, the explicit API of \<^verbatim>\<open>extensions/primitives\<close>, and the end of a
  group, where the calls the layer has kept (\<^verbatim>\<open>core/runtime/coccl_group.cc\<close>) are replayed natively or
  executed (\<^verbatim>\<open>ncclGroupEnd\<close> of \<^verbatim>\<open>group.cc\<close>).
\<close>

section \<open>Entry points\<close>

definition entryPoint :: "runtime_env \<Rightarrow> cocclInfo \<Rightarrow> runtime_world coded \<Rightarrow> runtime_state coded" where
  "entryPoint R info native s =
     (case cocclEnqueueCheck R info s of
        ((r, enqueued), s1) \<Rightarrow>
          if \<not> nccl_ok r then (r, s1) else if enqueued then (ncclSuccess, s1) else onWorld native s1)"

definition collectiveInfo ::
  "ptr \<Rightarrow> ptr \<Rightarrow> size_t \<Rightarrow> ncclDataType_t \<Rightarrow> ncclRedOp_t \<Rightarrow> ncclFunc_t \<Rightarrow> cocclOperation \<Rightarrow> ncclComm option \<Rightarrow> ptr \<Rightarrow>
   cocclInfo" where
  "collectiveInfo sendbuf recvbuf cnt dtype redop func oper comm strm =
     emptyInfo\<lparr>infoSend := sendbuf, infoRecv := recvbuf, infoCount := cnt, infoDatatype := dtype, infoOp := redop,
       infoFunc := func, infoOperation := oper, infoComm := comm, infoStream := strm\<rparr>"

definition ncclAllGather ::
  "runtime_env \<Rightarrow> ptr \<Rightarrow> ptr \<Rightarrow> size_t \<Rightarrow> ncclDataType_t \<Rightarrow> ncclComm option \<Rightarrow> ptr \<Rightarrow> runtime_state coded" where
  "ncclAllGather R sendbuf recvbuf cnt dtype comm strm =
     entryPoint R (collectiveInfo sendbuf recvbuf cnt dtype ncclSum ncclFuncAllGather AllGather comm strm)
       (nativeCollective (apiEnv R) ncclFuncAllGather sendbuf recvbuf cnt dtype ncclSum comm strm)"

definition ncclReduceScatter ::
  "runtime_env \<Rightarrow> ptr \<Rightarrow> ptr \<Rightarrow> size_t \<Rightarrow> ncclDataType_t \<Rightarrow> ncclRedOp_t \<Rightarrow> ncclComm option \<Rightarrow> ptr \<Rightarrow> runtime_state coded" where
  "ncclReduceScatter R sendbuf recvbuf cnt dtype redop comm strm =
     entryPoint R (collectiveInfo sendbuf recvbuf cnt dtype redop ncclFuncReduceScatter ReduceScatter comm strm)
       (nativeCollective (apiEnv R) ncclFuncReduceScatter sendbuf recvbuf cnt dtype redop comm strm)"

definition ncclAllReduce ::
  "runtime_env \<Rightarrow> ptr \<Rightarrow> ptr \<Rightarrow> size_t \<Rightarrow> ncclDataType_t \<Rightarrow> ncclRedOp_t \<Rightarrow> ncclComm option \<Rightarrow> ptr \<Rightarrow> runtime_state coded" where
  "ncclAllReduce R sendbuf recvbuf cnt dtype redop comm strm =
     entryPoint R (collectiveInfo sendbuf recvbuf cnt dtype redop ncclFuncAllReduce AllReduce comm strm)
       (nativeCollective (apiEnv R) ncclFuncAllReduce sendbuf recvbuf cnt dtype redop comm strm)"

definition ncclAllToAll ::
  "runtime_env \<Rightarrow> ptr \<Rightarrow> ptr \<Rightarrow> size_t \<Rightarrow> ncclDataType_t \<Rightarrow> ncclComm option \<Rightarrow> ptr \<Rightarrow> runtime_state coded" where
  "ncclAllToAll R sendbuf recvbuf cnt dtype comm strm =
     entryPoint R (collectiveInfo sendbuf recvbuf cnt dtype ncclSum ncclNumFuncs AllToAll comm strm)
       (nativeAllToAll (apiEnv R) sendbuf recvbuf cnt dtype (the comm) strm)"

definition pointToPointInfo ::
  "ptr \<Rightarrow> ptr \<Rightarrow> size_t \<Rightarrow> ncclDataType_t \<Rightarrow> int \<Rightarrow> ncclFunc_t \<Rightarrow> ncclComm option \<Rightarrow> ptr \<Rightarrow> cocclInfo" where
  "pointToPointInfo sendbuf recvbuf cnt dtype peer func comm strm =
     emptyInfo\<lparr>infoSend := sendbuf, infoRecv := recvbuf, infoCount := cnt, infoDatatype := dtype, infoPeer := peer,
       infoFunc := func, infoOperation := SendRecv, infoComm := comm, infoStream := strm\<rparr>"

definition ncclSend ::
  "runtime_env \<Rightarrow> ptr \<Rightarrow> size_t \<Rightarrow> ncclDataType_t \<Rightarrow> int \<Rightarrow> ncclComm option \<Rightarrow> ptr \<Rightarrow> runtime_state coded" where
  "ncclSend R sendbuf cnt dtype peer comm strm =
     entryPoint R (pointToPointInfo sendbuf nullptr cnt dtype peer ncclFuncSend comm strm)
       (nativePointToPoint (apiEnv R) ncclFuncSend sendbuf cnt dtype peer comm strm)"

definition ncclRecv ::
  "runtime_env \<Rightarrow> ptr \<Rightarrow> size_t \<Rightarrow> ncclDataType_t \<Rightarrow> int \<Rightarrow> ncclComm option \<Rightarrow> ptr \<Rightarrow> runtime_state coded" where
  "ncclRecv R recvbuf cnt dtype peer comm strm =
     entryPoint R (pointToPointInfo nullptr recvbuf cnt dtype peer ncclFuncRecv comm strm)
       (nativePointToPoint (apiEnv R) ncclFuncRecv recvbuf cnt dtype peer comm strm)"

section \<open>The explicit API\<close>

definition cocclEnqueueExplicitCall :: "runtime_env \<Rightarrow> cocclInfo \<Rightarrow> cocclAlgorithmKind \<Rightarrow> runtime_state coded" where
  "cocclEnqueueExplicitCall R info algorithm s =
     (if infoComm info = None \<or> \<not> cocclCompressionEnabled (world s) then (ncclInvalidUsage, s)
      else
        case cocclGetOperationDescriptor (infoOperation info) of
          None \<Rightarrow> (ncclInvalidUsage, s)
        | Some descriptor \<Rightarrow>
            if \<not> callSupported info descriptor then (ncclInvalidUsage, s)
            else
              let trole = trainingRole R (infoComm info) (trainingState (world s));
                  call = (newCall info)\<lparr>preparedDescriptor := Some descriptor, preparedRole := trole, preparedAlgorithm := algorithm\<rparr>;
                  (resolved, call1) = resolvePreparedCompressors (world s) call;
                  (selected, call2) =
                    (if algorithm = AlgorithmNone \<and> tunableReduction (infoOperation info)
                     then cocclSelectAlgorithm (roundDouble R) (autotuneConfig (cocclGetConfig R)) (performance (world s)) call1
                     else (ncclSuccess, call1)) in
              if cocclTrainingAssistEnabled (cocclGetConfig R) \<and> trole = TrainingRoleUnknown then (ncclInvalidUsage, s)
              else if \<not> nccl_ok resolved then (resolved, s)
              else if \<not> nccl_ok selected then (selected, s)
              else if \<not> cocclPreparedAlgorithmHasCompression call2 (preparedAlgorithm call2) then (ncclInvalidUsage, s)
              else if \<not> cocclPreparedAlgorithmSupported call2 (preparedAlgorithm call2)
              then onWorld (cocclReplayNativeCall (apiEnv R) info) s
              else cocclEnqueuePreparedCall R call2 s)"

definition cocclAllGatherComp ::
  "runtime_env \<Rightarrow> ptr \<Rightarrow> ptr \<Rightarrow> size_t \<Rightarrow> ncclDataType_t \<Rightarrow> ncclComm option \<Rightarrow> ptr \<Rightarrow> runtime_state coded" where
  "cocclAllGatherComp R sendbuf recvbuf cnt dtype comm strm =
     cocclEnqueueExplicitCall R (collectiveInfo sendbuf recvbuf cnt dtype ncclSum ncclFuncAllGather AllGather comm strm)
       AlgorithmNone"

definition cocclAllToAllComp ::
  "runtime_env \<Rightarrow> ptr \<Rightarrow> ptr \<Rightarrow> size_t \<Rightarrow> ncclDataType_t \<Rightarrow> ncclComm option \<Rightarrow> ptr \<Rightarrow> runtime_state coded" where
  "cocclAllToAllComp R sendbuf recvbuf cnt dtype comm strm =
     cocclEnqueueExplicitCall R (collectiveInfo sendbuf recvbuf cnt dtype ncclSum ncclNumFuncs AllToAll comm strm)
       AlgorithmNone"

definition cocclReduceScatterCompOneShot ::
  "runtime_env \<Rightarrow> ptr \<Rightarrow> ptr \<Rightarrow> size_t \<Rightarrow> ncclDataType_t \<Rightarrow> ncclRedOp_t \<Rightarrow> ncclComm option \<Rightarrow> ptr \<Rightarrow> runtime_state coded" where
  "cocclReduceScatterCompOneShot R sendbuf recvbuf cnt dtype redop comm strm =
     cocclEnqueueExplicitCall R (collectiveInfo sendbuf recvbuf cnt dtype redop ncclFuncReduceScatter ReduceScatter comm strm)
       AlgorithmReduceScatterOneShot"

definition cocclReduceScatterCompTwoShot ::
  "runtime_env \<Rightarrow> ptr \<Rightarrow> ptr \<Rightarrow> size_t \<Rightarrow> ncclDataType_t \<Rightarrow> ncclRedOp_t \<Rightarrow> ncclComm option \<Rightarrow> ptr \<Rightarrow> runtime_state coded" where
  "cocclReduceScatterCompTwoShot R sendbuf recvbuf cnt dtype redop comm strm =
     cocclEnqueueExplicitCall R (collectiveInfo sendbuf recvbuf cnt dtype redop ncclFuncReduceScatter ReduceScatter comm strm)
       AlgorithmReduceScatterTwoShot"

definition cocclAllReduceCompOneShot ::
  "runtime_env \<Rightarrow> ptr \<Rightarrow> ptr \<Rightarrow> size_t \<Rightarrow> ncclDataType_t \<Rightarrow> ncclRedOp_t \<Rightarrow> ncclComm option \<Rightarrow> ptr \<Rightarrow> runtime_state coded" where
  "cocclAllReduceCompOneShot R sendbuf recvbuf cnt dtype redop comm strm =
     cocclEnqueueExplicitCall R (collectiveInfo sendbuf recvbuf cnt dtype redop ncclFuncAllReduce AllReduce comm strm)
       AlgorithmAllReduceOneShot"

definition cocclAllReduceCompTwoShot ::
  "runtime_env \<Rightarrow> ptr \<Rightarrow> ptr \<Rightarrow> size_t \<Rightarrow> ncclDataType_t \<Rightarrow> ncclRedOp_t \<Rightarrow> ncclComm option \<Rightarrow> ptr \<Rightarrow> runtime_state coded" where
  "cocclAllReduceCompTwoShot R sendbuf recvbuf cnt dtype redop comm strm =
     cocclEnqueueExplicitCall R (collectiveInfo sendbuf recvbuf cnt dtype redop ncclFuncAllReduce AllReduce comm strm)
       AlgorithmAllReduceTwoShot"

definition cocclAllReduceCompTripleShot ::
  "runtime_env \<Rightarrow> ptr \<Rightarrow> ptr \<Rightarrow> size_t \<Rightarrow> ncclDataType_t \<Rightarrow> ncclRedOp_t \<Rightarrow> ncclComm option \<Rightarrow> ptr \<Rightarrow> runtime_state coded" where
  "cocclAllReduceCompTripleShot R sendbuf recvbuf cnt dtype redop comm strm =
     cocclEnqueueExplicitCall R (collectiveInfo sendbuf recvbuf cnt dtype redop ncclFuncAllReduce AllReduce comm strm)
       AlgorithmAllReduceTripleShot"

text \<open>Point-to-point: a call without elements goes to the group or to the native path.\<close>

definition submitDirect :: "runtime_env \<Rightarrow> cocclInfo \<Rightarrow> runtime_state coded" where
  "submitDirect R info s =
     (if infoCount info = 0
      then (if ncclGroupDepth (world s) > 0 then cocclGroupEnqueueNative info s
            else onWorld (cocclReplayNativeCall (apiEnv R) info) s)
      else cocclEnqueueExplicitCall R info AlgorithmNone s)"

definition cocclSendComp ::
  "runtime_env \<Rightarrow> ptr \<Rightarrow> size_t \<Rightarrow> ncclDataType_t \<Rightarrow> int \<Rightarrow> ncclComm option \<Rightarrow> ptr \<Rightarrow> runtime_state coded" where
  "cocclSendComp R sendbuf cnt dtype peer comm strm =
     (if comm = None then Pair ncclInvalidArgument
      else submitDirect R (pointToPointInfo sendbuf nullptr cnt dtype peer ncclFuncSend comm strm))"

definition cocclRecvDecomp ::
  "runtime_env \<Rightarrow> ptr \<Rightarrow> size_t \<Rightarrow> ncclDataType_t \<Rightarrow> int \<Rightarrow> ncclComm option \<Rightarrow> ptr \<Rightarrow> runtime_state coded" where
  "cocclRecvDecomp R recvbuf cnt dtype peer comm strm =
     (if comm = None then Pair ncclInvalidArgument
      else submitDirect R (pointToPointInfo nullptr recvbuf cnt dtype peer ncclFuncRecv comm strm))"

section \<open>The end of a group\<close>

text \<open>Both loops stop at the first result that is not a success.\<close>

fun eachCall :: "('a \<Rightarrow> 's coded) \<Rightarrow> 'a list \<Rightarrow> 's coded" where
  "eachCall f [] s = (ncclSuccess, s)"
| "eachCall f (x # xs) s = (case f x s of (r, s1) \<Rightarrow> if r \<noteq> ncclSuccess then (r, s1) else eachCall f xs s1)"

definition replaysNative :: "bool \<Rightarrow> cocclPreparedCall list \<Rightarrow> bool" where
  "replaysNative nativePending calls \<longleftrightarrow>
     (let hasSendRecv = list_ex (\<lambda>p. infoOperation (preparedInfo p) = SendRecv) calls;
          hasCollective = list_ex (\<lambda>p. infoOperation (preparedInfo p) \<noteq> SendRecv) calls in
      nativePending \<or> list_ex (\<lambda>p. \<not> anyEnabled (preparedCompressors p)) calls \<or> hasSendRecv \<and> hasCollective)"

definition cocclGroupPrepareEnd :: "runtime_env \<Rightarrow> bool \<Rightarrow> runtime_state coded" where
  "cocclGroupPrepareEnd R nativePending s =
     (if \<not> replaysNative nativePending (pendingCalls s) then (ncclSuccess, s)
      else eachCall (\<lambda>p. onWorld (cocclReplayNativeCall (apiEnv R) (preparedInfo p))) (pendingCalls s)
             (s\<lparr>pendingCalls := []\<rparr>))"

definition cocclGroupDrain :: "runtime_env \<Rightarrow> runtime_state coded" where
  "cocclGroupDrain R s =
     (case pendingCalls s of
        [] \<Rightarrow> (ncclSuccess, s)
      | p # _ \<Rightarrow>
          let batch = pendingCalls s; s1 = s\<lparr>pendingCalls := []\<rparr> in
          if infoOperation (preparedInfo p) = SendRecv then sendRecvBatch R batch s1
          else eachCall (cocclExecutePreparedCall R) batch s1)"

definition cocclGroupAbort :: "runtime_state \<Rightarrow> runtime_state" where
  "cocclGroupAbort s = s\<lparr>pendingCalls := []\<rparr>"

text \<open>The first part of \<^verbatim>\<open>ncclGroupEnd\<close>; whether native work is queued is the environment's reply.\<close>

definition prepareGroupEnd :: "runtime_env \<Rightarrow> runtime_state \<Rightarrow> runtime_state" where
  "prepareGroupEnd R s =
     (case callApi (apiEnv R) (Nccl ncclGroupHasNativePendingWork) (world s) of
        (r, w) \<Rightarrow>
          case cocclGroupPrepareEnd R (outValue r \<noteq> 0) (updateWorld (\<lambda>_. w) s) of
            (prepareResult, s1) \<Rightarrow>
              if ncclGroupError (world s1) = ncclSuccess
              then updateWorld (\<lambda>w. w\<lparr>ncclGroupError := prepareResult\<rparr>) s1 else s1)"

definition abortUnless :: "ncclResult_t \<times> runtime_state \<Rightarrow> ncclResult_t \<times> runtime_state" where
  "abortUnless rs = (fst rs, if fst rs \<noteq> ncclSuccess then cocclGroupAbort (snd rs) else snd rs)"

definition ncclGroupEnd :: "runtime_env \<Rightarrow> runtime_state coded" where
  "ncclGroupEnd R s =
     (let outermost = (ncclGroupDepth (world s) = 1);
          s1 = (if outermost \<and> cocclGroupHasPending s then prepareGroupEnd R s else s);
          (ret, s2) = onWorld (ncclGroupEndInternal (apiEnv R)) s1 in
      abortUnless
        (if \<not> nccl_ok ret then (ret, s2)
         else if ret = ncclSuccess \<and> outermost \<and> cocclGroupHasPending s2 then cocclGroupDrain R s2
         else (ret, s2)))"

section \<open>Replay does not come back to the layer\<close>

text \<open>
  The switch of \<^verbatim>\<open>cocclReplayNativeCall\<close> over the public entry points. The model of the replay in theory
  \<open>Native_Call\<close> runs their native parts instead.
\<close>

definition publicCall :: "runtime_env \<Rightarrow> cocclInfo \<Rightarrow> runtime_state coded" where
  "publicCall R info =
     (case infoOperation info of
        AllGather \<Rightarrow> ncclAllGather R (infoSend info) (infoRecv info) (infoCount info) (infoDatatype info)
          (infoComm info) (infoStream info)
      | ReduceScatter \<Rightarrow> ncclReduceScatter R (infoSend info) (infoRecv info) (infoCount info) (infoDatatype info)
          (infoOp info) (infoComm info) (infoStream info)
      | AllReduce \<Rightarrow> ncclAllReduce R (infoSend info) (infoRecv info) (infoCount info) (infoDatatype info)
          (infoOp info) (infoComm info) (infoStream info)
      | AllToAll \<Rightarrow> ncclAllToAll R (infoSend info) (infoRecv info) (infoCount info) (infoDatatype info)
          (infoComm info) (infoStream info)
      | SendRecv \<Rightarrow>
          (if infoFunc info = ncclFuncSend
           then ncclSend R (infoSend info) (infoCount info) (infoDatatype info) (infoPeer info) (infoComm info) (infoStream info)
           else ncclRecv R (infoRecv info) (infoCount info) (infoDatatype info) (infoPeer info) (infoComm info) (infoStream info))
      | OperationCount \<Rightarrow> Pair ncclInvalidArgument)"

lemma enqueue_check_guarded: "callerGuardActive (world s) \<Longrightarrow> cocclEnqueueCheck R info s = ((ncclSuccess, False), s)"
  by (simp add: cocclEnqueueCheck_def)

lemma entry_guarded: "callerGuardActive (world s) \<Longrightarrow> entryPoint R info native s = onWorld native s"
  by (simp add: entryPoint_def enqueue_check_guarded)

lemma guardedCall_onWorld: "guardedCall (onWorld m) s = onWorld (guarded m) s"
  by (simp add: guardedCall_def onWorld_def guarded_def Let_def split_beta o_def)

lemma guardedCall_cong:
  "(\<And>t. callerGuardActive (world t) \<Longrightarrow> m t = n t) \<Longrightarrow> guardedCall m s = guardedCall n s"
  by (simp add: guardedCall_def setGuard_def)

lemma onWorld_Pair [simp]: "onWorld (Pair r) s = (r, s)"
  by (simp add: onWorld_def updateWorld_def world_def)

text \<open>
  C37. With the caller guard set, the layer declines whatever the public entry points offer it: the
  replay of a captured call through them is exactly the replay of their native parts, for every call
  and every state, and the guard is back to its old value afterwards.
\<close>

theorem replay_is_native:
  "guardedCall (publicCall R info) s = onWorld (cocclReplayNativeCall (apiEnv R) info) s \<and>
   callerGuardActive (world (snd (guardedCall (publicCall R info) s))) = callerGuardActive (world s)"
proof -
  let ?native = "case infoOperation info of
        AllGather \<Rightarrow> nativeCollective (apiEnv R) ncclFuncAllGather (infoSend info) (infoRecv info) (infoCount info)
          (infoDatatype info) ncclSum (infoComm info) (infoStream info)
      | ReduceScatter \<Rightarrow> nativeCollective (apiEnv R) ncclFuncReduceScatter (infoSend info) (infoRecv info) (infoCount info)
          (infoDatatype info) (infoOp info) (infoComm info) (infoStream info)
      | AllReduce \<Rightarrow> nativeCollective (apiEnv R) ncclFuncAllReduce (infoSend info) (infoRecv info) (infoCount info)
          (infoDatatype info) (infoOp info) (infoComm info) (infoStream info)
      | AllToAll \<Rightarrow> nativeAllToAll (apiEnv R) (infoSend info) (infoRecv info) (infoCount info) (infoDatatype info)
          (the (infoComm info)) (infoStream info)
      | SendRecv \<Rightarrow> replaySendRecv (apiEnv R) info
      | OperationCount \<Rightarrow> Pair ncclInvalidArgument"
  have "guardedCall (publicCall R info) s = guardedCall (onWorld ?native) s"
    by (rule guardedCall_cong)
      (simp add: publicCall_def ncclAllGather_def ncclReduceScatter_def ncclAllReduce_def ncclAllToAll_def ncclSend_def
        ncclRecv_def entry_guarded replaySendRecv_def split: cocclOperation.split)
  also have "\<dots> = onWorld (cocclReplayNativeCall (apiEnv R) info) s"
    by (simp only: guardedCall_onWorld cocclReplayNativeCall_def)
  finally have eq: "guardedCall (publicCall R info) s = onWorld (cocclReplayNativeCall (apiEnv R) info) s" .
  show ?thesis unfolding eq by (simp add: cocclReplayNativeCall_def)
qed

section \<open>Native calls never close a group they did not open\<close>

lemma nativeCollective_depth:
  "0 \<le> ncclGroupDepth w \<Longrightarrow>
   ncclGroupDepth (snd (nativeCollective env func sendbuf recvbuf cnt dtype redop comm strm w)) = ncclGroupDepth w"
  by (simp add: nativeCollective_def enqueue_depth)

lemma nativeAllToAll_depth:
  assumes "0 \<le> ncclGroupDepth w"
  shows "ncclGroupDepth w \<le> ncclGroupDepth (snd (nativeAllToAll env sendbuf recvbuf cnt dtype comm strm w))"
proof -
  let ?d = "ncclGroupDepth w"
  let ?P = "\<lambda>w :: 'a native_world_scheme. ncclGroupDepth w = ?d + 1"
  have replay: "keeps ?P (checkR (guarded (replaySendRecv env info)))" for info
    using assms by (intro keepsI) (simp add: guarded_depth [OF replaySendRecv_depth])
  let ?loop = "forC [0..<nat (nRanks comm)] (\<lambda>r.
          let (rcv, snt) = allToAllPair sendbuf recvbuf cnt dtype (Some comm) strm r in
          bindC (checkR (guarded (replaySendRecv env rcv))) (\<lambda>_.
          checkR (guarded (replaySendRecv env snt)))) :: ('a native_world_scheme, unit) comp"
  have "keeps ?P ?loop" by (intro keeps_for) (auto simp: Let_def split_beta intro!: keeps_bind replay)
  then have loop: "ncclGroupDepth (snd (?loop (w\<lparr>ncclGroupDepth := ?d + 1\<rparr>))) = ?d + 1"
    using keepsD [of ?P ?loop "w\<lparr>ncclGroupDepth := ?d + 1\<rparr>"] by simp
  have close: "ncclGroupDepth v' = ?d"
    if "ncclGroupEndInternal env v = (r, v')" "ncclGroupDepth v = ?d + 1" for r and v v' :: "'a native_world_scheme"
    using groupEnd_depth [of v env] that assms by simp
  show ?thesis
    using loop close by (auto simp: nativeAllToAll_def bindC_def checkR_def split: prod.splits sum.splits)
qed

lemma guarded_above:
  assumes "\<And>w. 0 \<le> ncclGroupDepth w \<Longrightarrow> ncclGroupDepth w \<le> ncclGroupDepth (snd (m w))" and "0 \<le> ncclGroupDepth w"
  shows "ncclGroupDepth w \<le> ncclGroupDepth (snd (guarded m w))"
  using assms(1) [of "setGuard True w"] assms(2) by (simp add: guarded_def setGuard_def Let_def split_beta)

lemma replay_depth:
  assumes "0 \<le> ncclGroupDepth w"
  shows "ncclGroupDepth w \<le> ncclGroupDepth (snd (cocclReplayNativeCall env info w))"
  unfolding cocclReplayNativeCall_def
  by (rule guarded_above [OF _ assms])
    (simp add: nativeCollective_depth nativeAllToAll_depth replaySendRecv_depth split: cocclOperation.split)

section \<open>Pending calls\<close>

text \<open>
  What an application thread can do, and the states it can reach. \<^verbatim>\<open>ncclGroupEndInternal\<close> refuses to go
  below zero, so calls are made at depths that are not negative.
\<close>

inductive reachable :: "runtime_env \<Rightarrow> runtime_state \<Rightarrow> bool" for R where
  reachable_init: "pendingCalls s = [] \<Longrightarrow> reachable R s"
| reachable_start: "reachable R s \<Longrightarrow> reachable R (snd (onWorld ncclGroupStart s))"
| reachable_end: "reachable R s \<Longrightarrow> reachable R (snd (ncclGroupEnd R s))"
| reachable_call: "reachable R s \<Longrightarrow> 0 \<le> ncclGroupDepth (world s) \<Longrightarrow> reachable R (snd (publicCall R info s))"
| reachable_explicit: "reachable R s \<Longrightarrow> 0 \<le> ncclGroupDepth (world s) \<Longrightarrow> reachable R (snd (cocclEnqueueExplicitCall R info algorithm s))"
| reachable_send: "reachable R s \<Longrightarrow> 0 \<le> ncclGroupDepth (world s) \<Longrightarrow> reachable R (snd (cocclSendComp R sendbuf cnt dtype peer comm strm s))"
| reachable_recv: "reachable R s \<Longrightarrow> 0 \<le> ncclGroupDepth (world s) \<Longrightarrow> reachable R (snd (cocclRecvDecomp R recvbuf cnt dtype peer comm strm s))"

text \<open>A pending call was taken over with compressors that serve it, or waits for native replay.\<close>

definition pending_ok :: "cocclPreparedCall \<Rightarrow> bool" where
  "pending_ok p \<longleftrightarrow> infoComm (preparedInfo p) \<noteq> None \<and>
     ((\<exists>descriptor. cocclGetOperationDescriptor (infoOperation (preparedInfo p)) = Some descriptor \<and>
         preparedDescriptor p = Some descriptor \<and> callSupported (preparedInfo p) descriptor \<and>
         cocclPreparedAlgorithmSupported p (preparedAlgorithm p)) \<or>
      p = newCall (preparedInfo p) \<and> infoOperation (preparedInfo p) = SendRecv)"

definition pending_inv :: "runtime_state \<Rightarrow> bool" where
  "pending_inv s \<longleftrightarrow> (ncclGroupDepth (world s) \<le> 0 \<longrightarrow> pendingCalls s = []) \<and> (\<forall>p \<in> set (pendingCalls s). pending_ok p)"

lemma pending_inv_empty: "pendingCalls s = [] \<Longrightarrow> pending_inv s"
  by (simp add: pending_inv_def)

lemma pending_inv_raise:
  "pending_inv s \<Longrightarrow> pendingCalls s' = pendingCalls s \<Longrightarrow>
   (0 < ncclGroupDepth (world s) \<Longrightarrow> 0 < ncclGroupDepth (world s')) \<Longrightarrow> pending_inv s'"
  by (auto simp: pending_inv_def not_le)

lemma pending_inv_append:
  "pending_inv s \<Longrightarrow> pendingCalls s' = pendingCalls s @ [p] \<Longrightarrow> 0 < ncclGroupDepth (world s') \<Longrightarrow> pending_ok p \<Longrightarrow> pending_inv s'"
  by (auto simp: pending_inv_def)

lemma taken_over_pending_ok: "taken_over info w call \<Longrightarrow> infoComm info \<noteq> None \<Longrightarrow> pending_ok call"
  by (auto simp: taken_over_def pending_ok_def)

lemma native_pending_ok: "infoComm info \<noteq> None \<Longrightarrow> infoOperation info = SendRecv \<Longrightarrow> pending_ok (newCall info)"
  by (simp add: pending_ok_def)

text \<open>A call outside a group finds and leaves nothing pending.\<close>

lemma pending_inv_onWorld:
  assumes "pending_inv s" and "\<And>w. 0 < ncclGroupDepth w \<Longrightarrow> 0 < ncclGroupDepth (snd (m w))"
  shows "pending_inv (snd (onWorld m s))"
  by (rule pending_inv_raise [OF assms(1)]) (simp_all add: assms(2))

lemma pending_inv_execute:
  assumes "pending_inv s" and "\<not> 0 < ncclGroupDepth (world s)" and "cocclExecutePreparedCall R call s = (r, s')"
  shows "pending_inv s'"
  using pending_execute [of R call s] assms by (intro pending_inv_empty) (simp add: pending_inv_def)

lemma pending_inv_observe: "pending_inv s \<Longrightarrow> pending_inv (updateWorld (observeCall R info) s)"
  by (erule pending_inv_raise) simp_all

lemma pending_inv_enqueueCheck:
  assumes "pending_inv s" and depth: "0 \<le> ncclGroupDepth (world s)" and run: "cocclEnqueueCheck R info s = ((r, enqueued), s')"
  shows "pending_inv s'"
  using enqueue_check_cases [OF run]
proof (elim disjE)
  assume "r = ncclSuccess \<and> \<not> enqueued \<and> (s' = s \<or> s' = updateWorld (observeCall R info) s)"
  with assms(1) pending_inv_observe show ?thesis by blast
next
  assume a: "r = ncclSuccess \<and> enqueued \<and> infoComm info \<noteq> None \<and> infoOperation info = SendRecv \<and>
      ncclGroupDepth (world s) \<noteq> 0 \<and>
      s' = (updateWorld (observeCall R info) s)\<lparr>pendingCalls := pendingCalls s @ [newCall info]\<rparr>"
  then have "pending_ok (newCall info)" by (intro native_pending_ok) simp_all
  with a depth show ?thesis by (intro pending_inv_append [OF assms(1)]) auto
next
  assume "\<exists>call. infoComm info \<noteq> None \<and> prepareRoute R info (observeCall R info (world s)) = Some call \<and>
      (if ncclGroupDepth (world s) > 0
       then r = ncclSuccess \<and> enqueued \<and>
         s' = (updateWorld (observeCall R info) s)\<lparr>pendingCalls := pendingCalls s @ [call]\<rparr>
       else \<exists>result. cocclExecutePreparedCall R call (updateWorld (observeCall R info) s) = (result, s') \<and>
         enqueued = nccl_ok result \<and> r = (if nccl_ok result then ncclSuccess else result))"
  then obtain call where call: "infoComm info \<noteq> None" "prepareRoute R info (observeCall R info (world s)) = Some call"
    "if ncclGroupDepth (world s) > 0
       then s' = (updateWorld (observeCall R info) s)\<lparr>pendingCalls := pendingCalls s @ [call]\<rparr>
       else \<exists>result. cocclExecutePreparedCall R call (updateWorld (observeCall R info) s) = (result, s')"
    by (auto split: if_splits)
  have "pending_ok call"
    using prepareRoute_taken [OF call(2)] call(1) by (blast intro: taken_over_pending_ok)
  with call(3) assms(1) pending_inv_observe [OF assms(1), of R info] show ?thesis
    by (auto split: if_splits intro: pending_inv_append pending_inv_execute)
qed

lemma enqueueCheck_depth:
  assumes "cocclEnqueueCheck R info s = ((r, enqueued), s')" and "0 < ncclGroupDepth (world s)"
  shows "0 < ncclGroupDepth (world s')"
  using enqueue_check_cases [OF assms(1)] assms(2) by (auto split: if_splits)

lemma native_positive:
  "0 < ncclGroupDepth w \<Longrightarrow> 0 < ncclGroupDepth (snd (nativeCollective env func sendbuf recvbuf cnt dtype redop comm strm w))"
  "0 < ncclGroupDepth w \<Longrightarrow> 0 < ncclGroupDepth (snd (nativePointToPoint env func sendbuf cnt dtype peer comm strm w))"
  "0 < ncclGroupDepth w \<Longrightarrow> 0 < ncclGroupDepth (snd (nativeAllToAll env sendbuf recvbuf cnt dtype c strm w))"
  "0 < ncclGroupDepth w \<Longrightarrow> 0 < ncclGroupDepth (snd (cocclReplayNativeCall env info w))"
  using nativeAllToAll_depth [of w env sendbuf recvbuf cnt dtype c strm] replay_depth [of w env info]
  by (simp_all add: nativeCollective_depth nativePointToPoint_def enqueue_depth)

lemma pending_inv_entry:
  assumes "pending_inv s" and "0 \<le> ncclGroupDepth (world s)"
    and "\<And>w. 0 < ncclGroupDepth w \<Longrightarrow> 0 < ncclGroupDepth (snd (native w))"
  shows "pending_inv (snd (entryPoint R info native s))"
proof -
  obtain r enqueued s1 where run: "cocclEnqueueCheck R info s = ((r, enqueued), s1)" by (metis prod.exhaust)
  have inv: "pending_inv s1" by (rule pending_inv_enqueueCheck [OF assms(1,2) run])
  from run inv pending_inv_onWorld [OF inv assms(3)] show ?thesis by (simp add: entryPoint_def)
qed

lemma pending_inv_public:
  assumes "pending_inv s" and "0 \<le> ncclGroupDepth (world s)"
  shows "pending_inv (snd (publicCall R info s))"
  using assms
  by (auto simp: publicCall_def ncclAllGather_def ncclReduceScatter_def ncclAllReduce_def ncclAllToAll_def ncclSend_def
      ncclRecv_def intro!: pending_inv_entry intro: native_positive split: cocclOperation.split)

lemma pending_inv_enqueuePrepared:
  assumes "pending_inv s" and "pending_ok call"
  shows "pending_inv (snd (cocclEnqueuePreparedCall R call s))"
proof (cases "ncclGroupDepth (world s) > 0")
  case True
  with assms show ?thesis
    by (auto simp: cocclEnqueuePreparedCall_def cocclGroupEnqueue_def intro: pending_inv_append)
next
  case False
  with pending_inv_execute [OF assms(1) False] show ?thesis
    by (metis cocclEnqueuePreparedCall_def prod.collapse)
qed

lemma explicit_cases:
  "cocclEnqueueExplicitCall R info algorithm s = (r, s') \<Longrightarrow>
     s' = s \<or> s' = snd (onWorld (cocclReplayNativeCall (apiEnv R) info) s) \<or>
     (\<exists>call. pending_ok call \<and> s' = snd (cocclEnqueuePreparedCall R call s))"
proof -
  assume run: "cocclEnqueueExplicitCall R info algorithm s = (r, s')"
  show ?thesis
  proof (cases "infoComm info = None \<or> \<not> cocclCompressionEnabled (world s) \<or>
      (\<forall>descriptor. cocclGetOperationDescriptor (infoOperation info) = Some descriptor \<longrightarrow> \<not> callSupported info descriptor)")
    case True
    with run show ?thesis by (auto simp: cocclEnqueueExplicitCall_def split: option.splits if_splits)
  next
    case False
    then obtain descriptor where comm: "infoComm info \<noteq> None" and on: "cocclCompressionEnabled (world s)"
      and d: "cocclGetOperationDescriptor (infoOperation info) = Some descriptor" "callSupported info descriptor" by blast
    let ?call = "(newCall info)\<lparr>preparedDescriptor := Some descriptor,
       preparedRole := trainingRole R (infoComm info) (trainingState (world s)), preparedAlgorithm := algorithm\<rparr>"
    obtain res call1 where res: "resolvePreparedCompressors (world s) ?call = (res, call1)" by fastforce
    obtain sel call2 where sel: "(if algorithm = AlgorithmNone \<and> tunableReduction (infoOperation info)
         then cocclSelectAlgorithm (roundDouble R) (autotuneConfig (cocclGetConfig R)) (performance (world s)) call1
         else (ncclSuccess, call1)) = (sel, call2)" by fastforce
    have "preparedInfo call2 = info \<and> preparedDescriptor call2 = Some descriptor"
      using resolve_keeps [OF res] sel by (auto split: if_splits dest: select_keeps)
    then have ok: "pending_ok call2" if "cocclPreparedAlgorithmSupported call2 (preparedAlgorithm call2)"
      using that comm d by (simp add: pending_ok_def)
    have c: "\<not> (infoComm info = None \<or> \<not> cocclCompressionEnabled (world s))" using comm on by simp
    note run = run [unfolded cocclEnqueueExplicitCall_def if_not_P [OF c] d(1) option.case
        if_not_P [OF not_not [THEN iffD2, OF d(2)]] Let_def res prod.case sel]
    show ?thesis
    proof (cases "cocclPreparedAlgorithmSupported call2 (preparedAlgorithm call2)")
      case True
      with ok have "pending_ok call2" by simp
      with run True show ?thesis by (auto split: if_splits intro!: exI [of _ call2])
    next
      case False
      with run show ?thesis by (auto split: if_splits)
    qed
  qed
qed

lemma pending_inv_explicit:
  assumes "pending_inv s"
  shows "pending_inv (snd (cocclEnqueueExplicitCall R info algorithm s))"
proof -
  obtain r s' where run: "cocclEnqueueExplicitCall R info algorithm s = (r, s')" by fastforce
  from explicit_cases [OF run] assms show ?thesis
    by (auto simp: run intro: pending_inv_enqueuePrepared pending_inv_onWorld native_positive(4))
qed

lemma pending_inv_direct:
  assumes "pending_inv s" and "infoComm info \<noteq> None" and "infoOperation info = SendRecv"
  shows "pending_inv (snd (submitDirect R info s))"
  using assms pending_inv_explicit [OF assms(1)] native_pending_ok [OF assms(2,3)]
  by (auto simp: submitDirect_def cocclGroupEnqueueNative_def intro: pending_inv_append pending_inv_onWorld native_positive(4))

lemma pointToPointInfo_fields [simp]:
  "infoComm (pointToPointInfo sendbuf recvbuf cnt dtype peer func comm strm) = comm"
  "infoOperation (pointToPointInfo sendbuf recvbuf cnt dtype peer func comm strm) = SendRecv"
  by (simp_all add: pointToPointInfo_def)

section \<open>The end of a group leaves nothing behind\<close>

lemma eachCall_pending:
  assumes "\<And>x s. pendingCalls (snd (f x s)) = pendingCalls s"
  shows "pendingCalls (snd (eachCall f xs s)) = pendingCalls s"
proof (induction xs arbitrary: s)
  case (Cons x xs)
  from Cons.IH [of "snd (f x s)"] assms [of x s] show ?case by (simp add: split_beta)
qed simp

lemma drain_pending: "pendingCalls (snd (cocclGroupDrain R s)) = []"
  using eachCall_pending [of "cocclExecutePreparedCall R" "pendingCalls s" "s\<lparr>pendingCalls := []\<rparr>", OF pending_execute]
  by (cases "pendingCalls s") (simp_all add: cocclGroupDrain_def Let_def sendRecvBatch_def)

lemma abortUnless_pending:
  "(fst rs = ncclSuccess \<Longrightarrow> pendingCalls (snd rs) = []) \<Longrightarrow> pendingCalls (snd (abortUnless rs)) = []"
  by (simp add: abortUnless_def cocclGroupAbort_def)

lemma outermost_end_pending:
  assumes "ncclGroupDepth (world s) = 1"
  shows "pendingCalls (snd (ncclGroupEnd R s)) = []"
  unfolding ncclGroupEnd_def Let_def split_beta
  by (rule abortUnless_pending) (auto simp: assms drain_pending cocclGroupHasPending_def)

lemma inner_end:
  assumes "ncclGroupDepth (world s) \<noteq> 1"
  shows "ncclGroupEnd R s = abortUnless (onWorld (ncclGroupEndInternal (apiEnv R)) s)"
  using assms by (simp add: ncclGroupEnd_def Let_def split_beta del: onWorld_fields)

lemma pending_inv_end:
  assumes "pending_inv s"
  shows "pending_inv (snd (ncclGroupEnd R s))"
proof (cases "1 < ncclGroupDepth (world s)")
  case True
  then have "0 < ncclGroupDepth (snd (ncclGroupEndInternal (apiEnv R) (world s)))"
    by (simp add: groupEnd_depth)
  with True assms pending_inv_raise [OF assms, of "snd (onWorld (ncclGroupEndInternal (apiEnv R)) s)"] show ?thesis
    by (auto simp: inner_end abortUnless_def cocclGroupAbort_def intro: pending_inv_empty)
next
  case False
  then consider "ncclGroupDepth (world s) = 1" | "ncclGroupDepth (world s) \<le> 0" by linarith
  then show ?thesis
  proof cases
    case 1
    then show ?thesis by (intro pending_inv_empty outermost_end_pending)
  next
    case 2
    then have "pendingCalls s = []" using assms by (simp add: pending_inv_def)
    with 2 show ?thesis
      by (intro pending_inv_empty) (simp add: inner_end abortUnless_def cocclGroupAbort_def)
  qed
qed

text \<open>
  C39. Pending calls do not outlive their group. In every state an application thread can reach by
  starting and ending groups, calling the collectives and using the explicit API, whatever fails on
  the way, calls are pending only inside a group, and each of them either was taken over as a
  supported call with compressors that serve its algorithm or is a point-to-point call waiting for
  native replay. After the end of an outermost group nothing is pending.
\<close>

theorem pending_calls_invariant:
  assumes "reachable R s"
  shows "(ncclGroupDepth (world s) \<le> 0 \<longrightarrow> pendingCalls s = []) \<and> (\<forall>p \<in> set (pendingCalls s). pending_ok p) \<and>
    (ncclGroupDepth (world s) = 1 \<longrightarrow> pendingCalls (snd (ncclGroupEnd R s)) = [])"
proof -
  have "pending_inv s" using assms
  proof induction
    case (reachable_start s)
    then show ?case by (intro pending_inv_onWorld) simp_all
  next
    case (reachable_send s sendbuf cnt dtype peer comm strm)
    then show ?case by (simp add: cocclSendComp_def pending_inv_direct)
  next
    case (reachable_recv s recvbuf cnt dtype peer comm strm)
    then show ?case by (simp add: cocclRecvDecomp_def pending_inv_direct)
  qed (auto intro: pending_inv_empty pending_inv_end pending_inv_public pending_inv_explicit)
  then show ?thesis by (simp add: pending_inv_def outermost_end_pending)
qed

text \<open>Where the code ends an internal group with \<^verbatim>\<open>ncclGroupEnd\<close>, only the core's part does anything.\<close>

lemma group_end_inner:
  assumes "pendingCalls s = [] \<or> 1 < ncclGroupDepth (world s)"
  shows "ncclGroupEnd R s = onWorld (ncclGroupEndInternal (apiEnv R)) s"
proof (cases "pendingCalls s = []")
  case True
  then show ?thesis
    by (cases "onWorld (ncclGroupEndInternal (apiEnv R)) s")
      (simp add: ncclGroupEnd_def cocclGroupHasPending_def abortUnless_def cocclGroupAbort_def Let_def split_beta onWorld_def updateWorld_def)
next
  case False
  with assms have d: "1 < ncclGroupDepth (world s)" by simp
  then have "fst (ncclGroupEndInternal (apiEnv R) (world s)) = ncclSuccess" by (simp add: ncclGroupEndInternal_def Let_def)
  with d show ?thesis
    by (simp add: inner_end abortUnless_def) (simp add: onWorld_def split_beta)
qed

text \<open>An all-gather in a group is kept, and gone when the group has ended.\<close>

theorem pending_calls_invariant_witness:
  "let s = snd (publicCall exampleRuntimeEnv exampleGatherInfo (snd (onWorld ncclGroupStart (exampleRuntimeState 0)))) in
   length (pendingCalls s) = 1 \<and> (\<forall>p \<in> set (pendingCalls s). pending_ok p) \<and>
   pendingCalls (snd (ncclGroupEnd exampleRuntimeEnv s)) = []"
proof -
  let ?started = "snd (onWorld ncclGroupStart (exampleRuntimeState 0))"
  let ?s = "snd (publicCall exampleRuntimeEnv exampleGatherInfo ?started)"
  have "(ncclGroupDepth (world ?started) = 1 \<and> ncclGroupDepth (world ?s) = 1 \<and> length (pendingCalls ?s) = 1) = True" by code_simp
  then have d: "ncclGroupDepth (world ?started) = 1" "ncclGroupDepth (world ?s) = 1" "length (pendingCalls ?s) = 1" by blast+
  have "pendingCalls (exampleRuntimeState 0) = []" by (simp add: exampleRuntimeState_def)
  moreover have "0 \<le> ncclGroupDepth (world ?started)" unfolding d(1) by simp
  ultimately have "reachable exampleRuntimeEnv ?s" by (intro reachable_call reachable_start reachable_init)
  note inv = pending_calls_invariant [OF this]
  show ?thesis
    unfolding Let_def
    by (intro conjI d(3) conjunct1 [OF conjunct2 [OF inv]] mp [OF conjunct2 [OF conjunct2 [OF inv]] d(2)])
qed

section \<open>Ranks decide about replay on their own\<close>

text \<open>The point-to-point transfers with a peer that a run has queued: direction, count and type.\<close>

definition transfersWith :: "int \<Rightarrow> api_call list \<Rightarrow> (ncclFunc_t \<times> size_t \<times> ncclDataType_t) list" where
  "transfersWith peer calls = concat (map (\<lambda>c. case c of
      Nccl (ncclPointToPoint func buf cnt dtype p comm strm) \<Rightarrow> if p = peer then [(func, cnt, dtype)] else []
    | _ \<Rightarrow> []) calls)"

text \<open>Two ranks of one node; the policies have a threshold of 64 bytes.\<close>

definition meshState :: runtime_state where
  "meshState =
     \<lparr>core = ([(4096, examplePool)], (exampleRuntimeWorld 0)\<lparr>policyStore :=
        (\<lambda>_. \<lparr>plugin = bytePlugin, config = 0, thresholdBytes = 64\<rparr>)\<rparr>), hierarchies = [], pendingCalls = []\<rparr>"

definition meshComm :: "int \<Rightarrow> ncclComm" where
  "meshComm r = exampleComm\<lparr>rank := r, node := r div 2\<rparr>"

definition inGroup :: "(runtime_state \<Rightarrow> runtime_state) list \<Rightarrow> runtime_state \<Rightarrow> runtime_state" where
  "inGroup calls s = snd (ncclGroupEnd exampleRuntimeEnv (fold id calls (snd (onWorld ncclGroupStart s))))"

definition sendTo :: "int \<Rightarrow> size_t \<Rightarrow> int \<Rightarrow> runtime_state \<Rightarrow> runtime_state" where
  "sendTo r cnt peer s = snd (ncclSend exampleRuntimeEnv 65536 cnt ncclFloat32 peer (Some (meshComm r)) 7 s)"

definition recvFrom :: "int \<Rightarrow> size_t \<Rightarrow> int \<Rightarrow> runtime_state \<Rightarrow> runtime_state" where
  "recvFrom r cnt peer s = snd (ncclRecv exampleRuntimeEnv 65536 cnt ncclFloat32 peer (Some (meshComm r)) 7 s)"

text \<open>
  Whether a group is replayed natively is decided from what the rank itself has pending. When rank
  0 sends 64 floats to rank 1 and, in the same group, 4 floats to rank 2, the second send is below
  the threshold, so rank 0 replays the whole group natively and sends 64 floats to rank 1. Rank 1, in
  whose group only the matching receive is pending, executes it compressed: it receives 16 bytes of
  metadata and then 64 bytes of payload from rank 0. The two ends of the transfer do not match. Without
  the second send rank 0 would send exactly what rank 1 receives.
\<close>

theorem group_replay_diverges:
  "transfersWith 1 (apiLog (world (inGroup [sendTo 0 64 1, sendTo 0 4 2] meshState))) = [(ncclFuncSend, 64, ncclFloat32)] \<and>
   transfersWith 0 (apiLog (world (inGroup [recvFrom 1 64 0] meshState))) =
     [(ncclFuncRecv, 16, ncclInt8), (ncclFuncRecv, 64, ncclInt8)] \<and>
   transfersWith 1 (apiLog (world (inGroup [sendTo 0 64 1] meshState))) =
     [(ncclFuncSend, 16, ncclInt8), (ncclFuncSend, 64, ncclInt8)]"
proof (intro conjI)
  show "transfersWith 1 (apiLog (world (inGroup [sendTo 0 64 1, sendTo 0 4 2] meshState))) = [(ncclFuncSend, 64, ncclFloat32)]"
    by code_simp
  show "transfersWith 0 (apiLog (world (inGroup [recvFrom 1 64 0] meshState))) =
     [(ncclFuncRecv, 16, ncclInt8), (ncclFuncRecv, 64, ncclInt8)]"
    by code_simp
  show "transfersWith 1 (apiLog (world (inGroup [sendTo 0 64 1] meshState))) =
     [(ncclFuncSend, 16, ncclInt8), (ncclFuncSend, 64, ncclInt8)]"
    by code_simp
qed

end
