(* ===== verification/Config_Format.thy ===== *)
theory Config_Format
  imports Config_Parse "HOL-Library.Sublist"
begin

text \<open>
  The printer of \<^verbatim>\<open>core/config/coccl_config_format.cc\<close>: the lines that show the effective configuration in the
  log and in the configuration checker. The results say that what is printed can be read back: a quoted string
  gives the string, the printed name of an enumerator is the one the parser maps to it, and the printed
  settings determine the settings.
\<close>

section \<open>Names\<close>

definition runtimeModeName :: "cocclRuntimeMode \<Rightarrow> string" where
  "runtimeModeName mode = (if mode = ModeTraining then ''training'' else ''normal'')"

fun dataParallelStrategyName :: "cocclDataParallelStrategy \<Rightarrow> string" where
  "dataParallelStrategyName StrategyDdp = ''ddp''"
| "dataParallelStrategyName StrategySdp = ''sdp''"
| "dataParallelStrategyName StrategyFsdp = ''fsdp''"

fun reduceScatterAlgorithmName :: "cocclReduceScatterAlgorithmPolicy \<Rightarrow> string" where
  "reduceScatterAlgorithmName RsOneShot = ''oneshot''"
| "reduceScatterAlgorithmName RsTwoShot = ''twoshot''"
| "reduceScatterAlgorithmName RsAuto = ''auto''"

fun allReduceAlgorithmName :: "cocclAllReduceAlgorithmPolicy \<Rightarrow> string" where
  "allReduceAlgorithmName ArOneShot = ''oneshot''"
| "allReduceAlgorithmName ArTwoShot = ''twoshot''"
| "allReduceAlgorithmName ArTripleShot = ''tripleshot''"
| "allReduceAlgorithmName ArAuto = ''auto''"

fun compressionScopeName :: "cocclCompressionScope \<Rightarrow> string" where
  "compressionScopeName ScopeDefault = ''default''"
| "compressionScopeName ScopeIntra = ''intra''"
| "compressionScopeName ScopeInter = ''inter''"
| "compressionScopeName ScopeCount = ''unknown''"

section \<open>Strings\<close>

definition quoteChar :: "char \<Rightarrow> string" where
  "quoteChar c =
     (if c = CHR 0x5C then [CHR 0x5C, CHR 0x5C]
      else if c = CHR 0x22 then [CHR 0x5C, CHR 0x22]
      else if c = CHR 0x0A then [CHR 0x5C, CHR ''n'']
      else if c = CHR 0x0D then [CHR 0x5C, CHR ''r'']
      else if c = CHR 0x09 then [CHR 0x5C, CHR ''t'']
      else if (of_char c :: nat) \<ge> 0x20 then [c]
      else [CHR 0x5C, CHR ''u'', CHR ''0'', CHR ''0'', ''0123456789abcdef'' ! (of_char c div 16), ''0123456789abcdef'' ! (of_char c mod 16)])"

definition quote :: "string \<Rightarrow> string" where
  "quote str = [CHR 0x22] @ concat (map quoteChar str) @ [CHR 0x22]"

fun formatStrings :: "string list \<Rightarrow> string" where
  "formatStrings [] = []"
| "formatStrings [v] = quote v"
| "formatStrings (v # w # vs) = quote v @ '', '' @ formatStrings (w # vs)"

definition formatStringArray :: "string list \<Rightarrow> string" where
  "formatStringArray vals = ''['' @ formatStrings vals @ '']''"

section \<open>Lines\<close>

definition appendConfigValues :: "string \<Rightarrow> cocclConfigValues \<Rightarrow> string list" where
  "appendConfigValues path vals =
     (if vals = [] then [path @ '' = {}'']
      else map (\<lambda>(key, val). path @ ''.'' @ key @ '' = '' @ quote val) vals)"

definition boolName :: "bool \<Rightarrow> string" where
  "boolName b = (if b then ''true'' else ''false'')"

definition appendScope :: "string \<Rightarrow> cocclPrimitivePolicy \<Rightarrow> cocclCompressionScope \<Rightarrow> string list" where
  "appendScope path policy scope =
     (let effective = cocclEffectiveCompressorScopeFor policy scope;
          scopePath = path @ ''.'' @ compressionScopeName scope in
      [''# '' @ scopePath @ '' source='' @ compressionScopeName (effectiveSource effective),
       scopePath @ ''.enabled = '' @ boolName (effectiveEnabled effective)] @
      (case effectiveEntry effective of
         Some entry \<Rightarrow>
           if effectiveEnabled effective
           then (scopePath @ ''.compressor = '' @ quote (scopeName entry)) # appendConfigValues (scopePath @ ''.config'') (scopeValues entry)
           else []
       | None \<Rightarrow> []))"

definition appendPolicy :: "string \<Rightarrow> cocclPrimitivePolicy \<Rightarrow> string list" where
  "appendPolicy path policy =
     (path @ ''.threshold_bytes = '' @ to_string (uint (policyThresholdBytes policy))) #
     concat (map (appendScope path policy) [ScopeDefault, ScopeIntra, ScopeInter])"

definition formatSettings :: "cocclConfig \<Rightarrow> string list" where
  "formatSettings cfg =
     (let buffer = bufferConfig cfg; autotune = autotuneConfig cfg; training = trainingConfig cfg in
      [''runtime.mode = '' @ quote (runtimeModeName (runtimeMode (runtimeConfig cfg))),
       ''runtime.compression_threshold_bytes = '' @ to_string (uint (compressionThresholdBytes (runtimeConfig cfg))),
       ''compressor_plugins.library_path = '' @ quote (libraryPath (plugins cfg)),
       ''compressor_plugins.compressors = '' @ formatStringArray (compressors (plugins cfg)),
       ''pipeline.depth = '' @ to_string (pipelineDepth (pipelineConfig cfg)),
       ''buffer.pool_limit_bytes = '' @ to_string (uint (poolLimitBytes buffer)),
       ''buffer.legacy_block_bytes = '' @ to_string (uint (legacyBlockBytes buffer)),
       ''buffer.physical_chunk_bytes = '' @ to_string (uint (physicalChunkBytes buffer)),
       ''autotune.enabled = '' @ boolName (autotuneEnabled autotune),
       ''autotune.profile_min_bytes = '' @ to_string (uint (profileMinBytes autotune)),
       ''autotune.profile_max_bytes = '' @ to_string (uint (profileMaxBytes autotune)),
       ''autotune.warmup = '' @ to_string (warmup autotune),
       ''autotune.iterations = '' @ to_string (iterations autotune),
       ''autotune.reduce_scatter_algorithm = '' @ quote (reduceScatterAlgorithmName (reduceScatterAlgorithm autotune)),
       ''autotune.all_reduce_algorithm = '' @ quote (allReduceAlgorithmName (allReduceAlgorithm autotune)),
       ''training.observation_iterations = '' @ to_string (observationIterations training),
       ''training.classifier.data_parallel_size = '' @ to_string (dataParallelSize training),
       ''training.classifier.tensor_parallel_size = '' @ to_string (tensorParallelSize training),
       ''training.classifier.pipeline_parallel_size = '' @ to_string (pipelineParallelSize training),
       ''training.classifier.dp_strategy = '' @ quote (dataParallelStrategyName (dataParallelStrategy training)),
       ''training.classifier.sequence_parallel = '' @ boolName (sequenceParallel training)])"

definition cocclFormatEffectiveConfig :: "cocclConfig \<Rightarrow> string list" where
  "cocclFormatEffectiveConfig cfg =
     formatSettings cfg @ concat (map (\<lambda>view. appendPolicy (viewPath view) (viewPolicy view)) (cocclEnumeratePolicies cfg))"

section \<open>Reading a quoted string\<close>

text \<open>What the notation means: the string up to the closing quote, and the rest of the line.\<close>

definition hexValue :: "char \<Rightarrow> nat option" where
  "hexValue c =
     (let n = of_char c :: nat in
      if 48 \<le> n \<and> n \<le> 57 then Some (n - 48) else if 97 \<le> n \<and> n \<le> 102 then Some (n - 87) else None)"

definition shortEscape :: "char \<Rightarrow> char option" where
  "shortEscape e = map_of [(CHR 0x5C, CHR 0x5C), (CHR 0x22, CHR 0x22), (CHR ''n'', CHR 0x0A), (CHR ''r'', CHR 0x0D), (CHR ''t'', CHR 0x09)] e"

fun unescape :: "string \<Rightarrow> (string \<times> string) option" where
  "unescape [] = None"
| "unescape (c # cs) =
     (if c = CHR 0x22 then Some ([], cs)
      else if c \<noteq> CHR 0x5C then map_option (apfst (Cons c)) (unescape cs)
      else case cs of
             [] \<Rightarrow> None
           | e # rest \<Rightarrow>
               if e = CHR ''u''
               then (case rest of
                       z # z' # h # l # rest' \<Rightarrow>
                         (case (hexValue h, hexValue l) of
                            (Some a, Some b) \<Rightarrow> map_option (apfst (Cons (char_of (16 * a + b)))) (unescape rest')
                          | _ \<Rightarrow> None)
                     | _ \<Rightarrow> None)
               else (case shortEscape e of
                       None \<Rightarrow> None
                     | Some x \<Rightarrow> map_option (apfst (Cons x)) (unescape rest)))"

definition unquote :: "string \<Rightarrow> (string \<times> string) option" where
  "unquote str = (case str of c # cs \<Rightarrow> if c = CHR 0x22 then unescape cs else None | [] \<Rightarrow> None)"

lemma hexValue_digit: "n < 16 \<Longrightarrow> hexValue (''0123456789abcdef'' ! n) = Some n"
  by (auto simp: less_Suc_eq numeral_eq_Suc hexValue_def)

lemma unescape_quoteChar: "unescape (quoteChar c @ rest) = map_option (apfst (Cons c)) (unescape rest)"
proof (cases "c \<in> {CHR 0x5C, CHR 0x22, CHR 0x0A, CHR 0x0D, CHR 0x09} \<or> (of_char c :: nat) \<ge> 0x20")
  case True
  then show ?thesis by (auto simp: quoteChar_def shortEscape_def)
next
  case False
  define n where "n = (of_char c :: nat)"
  have n: "n < 32" "n div 16 < 16" "n mod 16 < 16" using False by (auto simp: n_def)
  have c: "char_of (16 * (n div 16) + n mod 16) = c" by (simp add: n_def)
  have "quoteChar c = [CHR 0x5C, CHR ''u'', CHR ''0'', CHR ''0'', ''0123456789abcdef'' ! (n div 16), ''0123456789abcdef'' ! (n mod 16)]"
    using False unfolding quoteChar_def n_def by simp
  then have "unescape (quoteChar c @ rest) = map_option (apfst (Cons (char_of (16 * (n div 16) + n mod 16)))) (unescape rest)"
    by (simp add: hexValue_digit [OF n(2)] hexValue_digit [OF n(3)] del: mult_div_mod_eq)
  then show ?thesis by (simp only: c)
qed

lemma unescape_quoted: "unescape (concat (map quoteChar str) @ CHR 0x22 # rest) = Some (str, rest)"
  by (induction str) (simp_all add: unescape_quoteChar)

lemma unquote_quote: "unquote (quote str @ rest) = Some (str, rest)"
  by (simp add: unquote_def quote_def unescape_quoted)

lemma quote_inject: "quote a @ x = quote b @ y \<longleftrightarrow> a = b \<and> x = y"
proof
  assume "quote a @ x = quote b @ y"
  then have "unquote (quote a @ x) = unquote (quote b @ y)" by (rule arg_cong)
  then show "a = b \<and> x = y" by (simp add: unquote_quote)
qed simp

lemma quote_eq_iff [simp]: "quote a = quote b \<longleftrightarrow> a = b"
  using quote_inject [of a "[]" b "[]"] by simp

section \<open>Reading a number\<close>

definition digitsValue :: "string \<Rightarrow> nat" where
  "digitsValue ds = foldl (\<lambda>v c. 10 * v + (of_char c - 48)) 0 ds"

lemma digitsValue_decimal: "digitsValue (decimal n) = n"
proof (induction n rule: decimal.induct)
  case (1 n)
  then show ?case by (cases "n < 10") (simp_all add: decimal.simps [of n] digitsValue_def)
qed

lemma decimal_digits: "\<forall>c \<in> set (decimal n). 48 \<le> (of_char c :: nat)"
proof (induction n rule: decimal.induct)
  case (1 n)
  then show ?case by (cases "n < 10") (simp_all add: decimal.simps [of n])
qed

lemma decimal_eq_iff [simp]: "decimal a = decimal b \<longleftrightarrow> a = b"
  by (metis digitsValue_decimal)

lemma decimal_not_minus: "decimal a \<noteq> CHR ''-'' # ds"
  using decimal_digits [of a] by auto

lemma to_string_eq_iff [simp]: "to_string a = to_string b \<longleftrightarrow> a = b"
  by (auto simp: to_string_def decimal_not_minus decimal_not_minus [symmetric])

section \<open>Reading a list of strings\<close>

lemma formatStrings_inject: "formatStrings xs @ '']'' = formatStrings ys @ '']'' \<Longrightarrow> xs = ys"
proof (induction xs arbitrary: ys rule: formatStrings.induct)
  case 1
  then show ?case by (cases ys rule: formatStrings.cases) (simp_all add: quote_def)
next
  case (2 v)
  show ?case
  proof (cases ys rule: formatStrings.cases)
    case 1
    with 2 show ?thesis by (simp add: quote_def)
  qed (use 2 in \<open>simp_all add: quote_inject\<close>)
next
  case (3 v w vs)
  show ?case
  proof (cases ys rule: formatStrings.cases)
    case 1
    with 3 show ?thesis by (simp add: quote_def)
  next
    case (3 v' w' vs')
    with \<open>formatStrings (v # w # vs) @ '']'' = formatStrings ys @ '']''\<close>
    have "v = v'" "formatStrings (w # vs) @ '']'' = formatStrings (w' # vs') @ '']''" by (simp_all add: quote_inject)
    with 3 "3.IH" show ?thesis by blast
  qed (use 3 in \<open>simp add: quote_inject\<close>)
qed

lemma formatStringArray_eq_iff [simp]: "formatStringArray xs = formatStringArray ys \<longleftrightarrow> xs = ys"
  using formatStrings_inject [of xs ys] by (auto simp: formatStringArray_def)

lemma names_eq_iff [simp]:
  "boolName a = boolName b \<longleftrightarrow> a = b"
  "runtimeModeName m = runtimeModeName m' \<longleftrightarrow> m = m'"
  "dataParallelStrategyName s = dataParallelStrategyName s' \<longleftrightarrow> s = s'"
  "reduceScatterAlgorithmName r = reduceScatterAlgorithmName r' \<longleftrightarrow> r = r'"
  "allReduceAlgorithmName p = allReduceAlgorithmName p' \<longleftrightarrow> p = p'"
proof -
  show "boolName a = boolName b \<longleftrightarrow> a = b" by (simp add: boolName_def)
  show "runtimeModeName m = runtimeModeName m' \<longleftrightarrow> m = m'" by (cases m; cases m') (simp_all add: runtimeModeName_def)
  show "dataParallelStrategyName s = dataParallelStrategyName s' \<longleftrightarrow> s = s'" by (cases s; cases s') simp_all
  show "reduceScatterAlgorithmName r = reduceScatterAlgorithmName r' \<longleftrightarrow> r = r'" by (cases r; cases r') simp_all
  show "allReduceAlgorithmName p = allReduceAlgorithmName p' \<longleftrightarrow> p = p'" by (cases p; cases p') simp_all
qed

text \<open>The parser reads the names the printer writes.\<close>

lemma names_parse:
  "parseReduceScatterAlgorithm (reduceScatterAlgorithmName r) = returnP r"
  "parseAllReduceAlgorithm (allReduceAlgorithmName p) = returnP p"
  "parseStrategy (dataParallelStrategyName s) path = returnP s"
proof -
  show "parseReduceScatterAlgorithm (reduceScatterAlgorithmName r) = returnP r" by (cases r) (simp_all add: parseReduceScatterAlgorithm_def)
  show "parseAllReduceAlgorithm (allReduceAlgorithmName p) = returnP p" by (cases p) (simp_all add: parseAllReduceAlgorithm_def)
  show "parseStrategy (dataParallelStrategyName s) path = returnP s" by (cases s) (simp_all add: parseStrategy_def)
qed

section \<open>The printed settings\<close>

lemma formatSettings_inject:
  assumes "formatSettings c = formatSettings d"
  shows "runtimeConfig c = runtimeConfig d" "plugins c = plugins d" "pipelineConfig c = pipelineConfig d"
    "bufferConfig c = bufferConfig d" "autotuneConfig c = autotuneConfig d" "trainingConfig c = trainingConfig d"
  using assms by (simp_all add: formatSettings_def Let_def flip: word_uint_eq_iff)

lemma formatSettings_length: "length (formatSettings c) = 21"
  by (simp add: formatSettings_def Let_def)

section \<open>The printed policies\<close>

text \<open>Inside a quoted string a quote always follows a backslash.\<close>

definition guardedQuote :: "char \<Rightarrow> char \<Rightarrow> bool" where
  "guardedQuote a b \<longleftrightarrow> (b = CHR 0x22 \<longrightarrow> a = CHR 0x5C)"

lemma quoteChar_guarded: "quoteChar c \<noteq> [] \<and> hd (quoteChar c) \<noteq> CHR 0x22 \<and> successively guardedQuote (quoteChar c)"
proof -
  have "''0123456789abcdef'' ! n \<noteq> CHR 0x22" if "n < 16" for n
    using hexValue_digit [OF that] by (auto simp: hexValue_def)
  moreover have "of_char c div 16 < (16 :: nat)"
  proof -
    have "(of_char c :: nat) < 16 * 16" by simp
    then show ?thesis by (rule less_mult_imp_div_less)
  qed
  ultimately show ?thesis by (auto simp: quoteChar_def guardedQuote_def)
qed

lemma quoted_guarded:
  "successively guardedQuote (concat (map quoteChar str)) \<and> (str \<noteq> [] \<longrightarrow> hd (concat (map quoteChar str)) \<noteq> CHR 0x22)"
proof (induction str)
  case (Cons c str)
  then show ?case using quoteChar_guarded [of c]
    by (auto simp: successively_append_iff guardedQuote_def hd_append)
qed simp

lemma quoted_no_opening: "concat (map quoteChar str) \<noteq> xs @ '' '' @ [CHR 0x22] @ ys"
  using quoted_guarded [of str] by (auto simp: successively_append_iff guardedQuote_def)

text \<open>So a line has one reading as a key and a value, whatever the key.\<close>

lemma key_value_shift: "'' = '' @ quote a = us @ '' = '' @ quote b \<Longrightarrow> us = []"
proof (rule ccontr)
  assume eq: "'' = '' @ quote a = us @ '' = '' @ quote b" and "us \<noteq> []"
  then consider u where "us = [u]" | u v where "us = [u, v]" | u v w where "us = [u, v, w]"
    | u v w x rest where "us = u # v # w # x # rest"
    by (metis list.exhaust)
  then show False
  proof cases
    case 4
    with eq have "concat (map quoteChar a) @ [CHR 0x22] = (rest @ '' = '' @ [CHR 0x22] @ concat (map quoteChar b)) @ [CHR 0x22]"
      by (simp add: quote_def)
    then have "concat (map quoteChar a) = (rest @ '' ='') @ '' '' @ [CHR 0x22] @ concat (map quoteChar b)"
      by (simp only: append1_eq_conv) simp
    with quoted_no_opening show False by blast
  qed (use eq in \<open>simp_all add: quote_def\<close>)
qed

lemma key_value_inject: "k @ '' = '' @ quote a = l @ '' = '' @ quote b \<longleftrightarrow> k = l \<and> a = b"
proof
  assume "k @ '' = '' @ quote a = l @ '' = '' @ quote b"
  from this [unfolded append_eq_append_conv2 [of k]]
  consider us where "k @ us = l" "'' = '' @ quote a = us @ '' = '' @ quote b"
    | us where "k = l @ us" "us @ '' = '' @ quote a = '' = '' @ quote b"
    by blast
  then show "k = l \<and> a = b"
  proof cases
    case 1
    with key_value_shift [OF 1(2)] show ?thesis by simp
  next
    case 2
    with key_value_shift [OF 2(2) [symmetric]] show ?thesis by simp
  qed
qed simp

text \<open>The lines of the options of a compressor end at the first line with another prefix.\<close>

definition startsOutside :: "string \<Rightarrow> string list \<Rightarrow> bool" where
  "startsOutside path ls = (ls = [] \<or> \<not> prefix path (hd ls))"

lemma appendConfigValues_prefix: "l \<in> set (appendConfigValues path vals) \<Longrightarrow> prefix path l"
  by (auto simp: appendConfigValues_def split: if_splits)

lemma takeWhile_section:
  "(\<And>l. l \<in> set ls \<Longrightarrow> prefix path l) \<Longrightarrow> startsOutside path rest \<Longrightarrow> takeWhile (prefix path) (ls @ rest) = ls"
  by (cases rest) (simp_all add: startsOutside_def)

lemma appendConfigValues_eq_iff: "appendConfigValues path vals = appendConfigValues path vals' \<longleftrightarrow> vals = vals'"
proof
  have inj: "inj (\<lambda>(key, val). path @ ''.'' @ key @ '' = '' @ quote val)"
    by (rule injI) (use key_value_inject in auto)
  assume eq: "appendConfigValues path vals = appendConfigValues path vals'"
  show "vals = vals'"
  proof (cases "vals = [] \<or> vals' = []")
    case True
    with eq show ?thesis by (auto simp: appendConfigValues_def split: if_splits prod.splits)
  next
    case False
    with eq inj show ?thesis by (simp add: appendConfigValues_def inj_map_eq_map)
  qed
qed simp

lemma appendConfigValues_inject:
  assumes "appendConfigValues path vals @ rest = appendConfigValues path vals' @ rest'"
    and "startsOutside path rest" and "startsOutside path rest'"
  shows "vals = vals' \<and> rest = rest'"
proof -
  have cut: "takeWhile (prefix path) (appendConfigValues path v @ r) = appendConfigValues path v" if "startsOutside path r" for v r
    by (rule takeWhile_section [OF appendConfigValues_prefix that])
  have "appendConfigValues path vals = appendConfigValues path vals'"
    using cut [OF assms(2), of vals] cut [OF assms(3), of vals'] assms(1) by simp
  with assms(1) show ?thesis by (simp add: appendConfigValues_eq_iff)
qed

text \<open>What the lines of a scope show: where it comes from, and the compressor with its options when it is enabled.\<close>

definition shownScope :: "cocclPrimitivePolicy \<Rightarrow> cocclCompressionScope \<Rightarrow> cocclCompressionScope \<times> (string \<times> cocclConfigValues) option" where
  "shownScope policy scope =
     (let effective = cocclEffectiveCompressorScopeFor policy scope in
      (effectiveSource effective,
       if effectiveEnabled effective then map_option (\<lambda>entry. (scopeName entry, scopeValues entry)) (effectiveEntry effective) else None))"

definition scopeConfigPath :: "string \<Rightarrow> cocclCompressionScope \<Rightarrow> string" where
  "scopeConfigPath path scope = path @ ''.'' @ compressionScopeName scope @ ''.config''"

lemma appendScope_shown:
  "appendScope path policy scope =
     (case shownScope policy scope of (source, shown) \<Rightarrow>
       [''# '' @ path @ ''.'' @ compressionScopeName scope @ '' source='' @ compressionScopeName source,
        path @ ''.'' @ compressionScopeName scope @ ''.enabled = '' @ boolName (shown \<noteq> None)] @
       (case shown of
          None \<Rightarrow> []
        | Some (nm, vals) \<Rightarrow> (path @ ''.'' @ compressionScopeName scope @ ''.compressor = '' @ quote nm) #
            appendConfigValues (scopeConfigPath path scope) vals))"
  by (auto simp: appendScope_def shownScope_def scopeConfigPath_def Let_def effectiveEnabled_def split: option.splits)

lemma compressionScopeName_eq_iff [simp]: "compressionScopeName a = compressionScopeName b \<longleftrightarrow> a = b"
  by (cases a; cases b) simp_all

lemma appendScope_inject:
  assumes eq: "appendScope path p scope @ rest = appendScope path q scope @ rest'"
    and "startsOutside (scopeConfigPath path scope) rest" and "startsOutside (scopeConfigPath path scope) rest'"
  shows "shownScope p scope = shownScope q scope \<and> rest = rest'"
proof -
  obtain a shown b shown' where s: "shownScope p scope = (a, shown)" "shownScope q scope = (b, shown')" by fastforce
  show ?thesis
  proof (cases shown)
    case None
    with eq show ?thesis by (cases shown') (auto simp: appendScope_shown s)
  next
    case (Some x)
    with eq show ?thesis using appendConfigValues_inject [OF _ assms(2,3)]
      by (cases x; cases shown') (auto simp: appendScope_shown s)
  qed
qed

text \<open>What the lines of a policy show.\<close>

definition shownPolicy ::
  "cocclPrimitivePolicy \<Rightarrow> size_t \<times> (cocclCompressionScope \<times> (string \<times> cocclConfigValues) option) list" where
  "shownPolicy policy = (policyThresholdBytes policy, map (shownScope policy) [ScopeDefault, ScopeIntra, ScopeInter])"

lemma startsOutside_scope:
  assumes "path \<noteq> []" and "hd path \<noteq> CHR ''#''"
  shows "startsOutside (scopeConfigPath path scope) (appendScope path p scope' @ rest)"
  using assms by (cases path) (simp_all add: startsOutside_def scopeConfigPath_def appendScope_def Let_def)

lemma appendPolicy_inject:
  assumes eq: "appendPolicy path p @ rest = appendPolicy path q @ rest'"
    and path: "path \<noteq> []" "hd path \<noteq> CHR ''#''"
    and out: "startsOutside (scopeConfigPath path ScopeInter) rest" "startsOutside (scopeConfigPath path ScopeInter) rest'"
  shows "shownPolicy p = shownPolicy q \<and> rest = rest'"
proof -
  have threshold: "policyThresholdBytes p = policyThresholdBytes q" using eq by (simp add: appendPolicy_def flip: word_uint_eq_iff)
  have scopes: "appendScope path p ScopeDefault @ appendScope path p ScopeIntra @ appendScope path p ScopeInter @ rest =
      appendScope path q ScopeDefault @ appendScope path q ScopeIntra @ appendScope path q ScopeInter @ rest'"
    using eq by (simp add: appendPolicy_def)
  note s1 = appendScope_inject [OF scopes startsOutside_scope [OF path] startsOutside_scope [OF path]]
  note s2 = appendScope_inject [OF conjunct2 [OF s1] startsOutside_scope [OF path] startsOutside_scope [OF path]]
  note s3 = appendScope_inject [OF conjunct2 [OF s2] out]
  from threshold s1 s2 s3 show ?thesis by (simp add: shownPolicy_def)
qed

definition pathFollows :: "string \<Rightarrow> string \<Rightarrow> bool" where
  "pathFollows path path' \<longleftrightarrow> \<not> prefix (scopeConfigPath path ScopeInter) (path' @ ''.threshold_bytes = '') \<and>
     length (scopeConfigPath path ScopeInter) \<le> length (path' @ ''.threshold_bytes = '')"

definition formatPolicies :: "string list \<Rightarrow> cocclPrimitivePolicy list \<Rightarrow> string list" where
  "formatPolicies paths policies = concat (map2 appendPolicy paths policies)"

lemma formatPolicies_outside:
  assumes "successively pathFollows (path # paths)" and "length policies = length paths"
  shows "startsOutside (scopeConfigPath path ScopeInter) (formatPolicies paths policies)"
proof (cases paths)
  case (Cons path' paths')
  then obtain policy policies' where p: "policies = policy # policies'" using assms(2) by (cases policies) auto
  let ?line = "path' @ ''.threshold_bytes = ''"
  from assms Cons have f: "pathFollows path path'" by simp
  have "\<not> prefix (scopeConfigPath path ScopeInter) (?line @ n)" for n
  proof
    assume "prefix (scopeConfigPath path ScopeInter) (?line @ n)"
    then have "prefix (scopeConfigPath path ScopeInter) ?line" using f
      by (auto simp: pathFollows_def intro: prefix_length_prefix)
    with f show False by (simp add: pathFollows_def)
  qed
  then show ?thesis by (simp add: startsOutside_def Cons p formatPolicies_def appendPolicy_def)
qed (use assms in \<open>simp add: startsOutside_def formatPolicies_def\<close>)

lemma formatPolicies_inject:
  assumes "length ps = length paths" and "length qs = length paths" and "successively pathFollows paths"
    and "\<forall>path \<in> set paths. path \<noteq> [] \<and> hd path \<noteq> CHR ''#''" and "formatPolicies paths ps = formatPolicies paths qs"
  shows "map shownPolicy ps = map shownPolicy qs"
  using assms
proof (induction paths arbitrary: ps qs)
  case (Cons path paths)
  from Cons.prems(1,2) obtain p ps' q qs' where pq: "ps = p # ps'" "qs = q # qs'" by (auto simp: length_Suc_conv)
  have "appendPolicy path p @ formatPolicies paths ps' = appendPolicy path q @ formatPolicies paths qs'"
    using Cons.prems(5) by (simp add: formatPolicies_def pq)
  then have "shownPolicy p = shownPolicy q \<and> formatPolicies paths ps' = formatPolicies paths qs'"
    by (rule appendPolicy_inject)
      (use Cons.prems(1,2,4) formatPolicies_outside [OF Cons.prems(3)] in \<open>simp_all add: pq\<close>)
  moreover have "successively pathFollows paths" using Cons.prems(3) by (cases paths) simp_all
  ultimately have "map shownPolicy ps' = map shownPolicy qs'"
    using Cons.prems(1,2,4) by (intro Cons.IH) (simp_all add: pq)
  with \<open>shownPolicy p = shownPolicy q \<and> formatPolicies paths ps' = formatPolicies paths qs'\<close> show ?case by (simp add: pq)
qed simp

definition policyPaths :: "string list" where
  "policyPaths =
     [''normal.all_gather'', ''normal.reduce_scatter'', ''normal.all_reduce'', ''normal.all_to_all'', ''normal.sendrecv'',
      ''training.dp.all_gather'', ''training.dp.reduce_scatter'', ''training.dp.all_reduce'',
      ''training.tp.all_gather'', ''training.tp.reduce_scatter'', ''training.tp.all_reduce'',
      ''training.pp.sendrecv.forward'', ''training.pp.sendrecv.backward'']"

lemma enumerated_paths: "map viewPath (cocclEnumeratePolicies cfg) = policyPaths"
  by (simp add: cocclEnumeratePolicies_def policyPaths_def Let_def)

lemma policyPaths_follow: "successively pathFollows policyPaths"
  by (simp add: policyPaths_def pathFollows_def scopeConfigPath_def)

lemma policyPaths_plain: "\<forall>path \<in> set policyPaths. path \<noteq> [] \<and> hd path \<noteq> CHR ''#''"
  by (simp add: policyPaths_def)

lemma format_split:
  "cocclFormatEffectiveConfig cfg = formatSettings cfg @ formatPolicies policyPaths (map viewPolicy (cocclEnumeratePolicies cfg))"
  unfolding cocclFormatEffectiveConfig_def formatPolicies_def enumerated_paths [of cfg, symmetric]
  by (simp add: zip_map_map zip_same_conv_map comp_def)

text \<open>
  C11. What is printed shows the configuration in effect: two configurations with the same lines have the same
  runtime, plug-in, pipeline, buffer, autotuning and training settings, and every policy of one has the
  threshold of the same policy of the other and, scope by scope, comes from the same table, is enabled or not
  alike and has the same compressor with the same options, whatever characters names, paths, keys and values hold.
\<close>

theorem format_shows_config:
  assumes "cocclFormatEffectiveConfig c = cocclFormatEffectiveConfig d"
  shows "runtimeConfig c = runtimeConfig d \<and> plugins c = plugins d \<and> pipelineConfig c = pipelineConfig d \<and>
    bufferConfig c = bufferConfig d \<and> autotuneConfig c = autotuneConfig d \<and> trainingConfig c = trainingConfig d \<and>
    map (shownPolicy \<circ> viewPolicy) (cocclEnumeratePolicies c) = map (shownPolicy \<circ> viewPolicy) (cocclEnumeratePolicies d)"
proof -
  have eq: "formatSettings c = formatSettings d"
    "formatPolicies policyPaths (map viewPolicy (cocclEnumeratePolicies c)) = formatPolicies policyPaths (map viewPolicy (cocclEnumeratePolicies d))"
    using assms by (simp_all add: format_split formatSettings_length)
  have len: "length (map viewPolicy (cocclEnumeratePolicies e)) = length policyPaths" for e
    by (metis enumerated_paths length_map)
  from formatSettings_inject [OF eq(1)] formatPolicies_inject [OF len len policyPaths_follow policyPaths_plain eq(2)]
  show ?thesis by simp
qed

text \<open>A configuration whose unconfigured scope carries a name prints as the default configuration.\<close>

definition renamedConfig :: cocclConfig where
  "renamedConfig = defaultConfig\<lparr>normalPolicies := normalPolicies defaultConfig
     \<lparr>policyAllGather := defaultPrimitivePolicy\<lparr>scopes := (\<lambda>_. emptyScopeEntry\<lparr>scopeName := ''zfp''\<rparr>)\<rparr>\<rparr>\<rparr>"

lemma renamed_scope:
  "cocclEffectiveCompressorScopeFor (defaultPrimitivePolicy\<lparr>scopes := (\<lambda>_. emptyScopeEntry\<lparr>scopeName := ''zfp''\<rparr>)\<rparr>) scope =
   cocclEffectiveCompressorScopeFor defaultPrimitivePolicy scope"
  by (simp add: cocclEffectiveCompressorScopeFor_def cocclConfiguredCompressorScope_def emptyScopeEntry_def defaultPrimitivePolicy_def)

lemma renamed_same_lines: "cocclFormatEffectiveConfig renamedConfig = cocclFormatEffectiveConfig defaultConfig"
proof -
  have "appendPolicy path (defaultPrimitivePolicy\<lparr>scopes := (\<lambda>_. emptyScopeEntry\<lparr>scopeName := ''zfp''\<rparr>)\<rparr>) =
      appendPolicy path defaultPrimitivePolicy" for path
    by (simp add: appendPolicy_def appendScope_def renamed_scope)
  then show ?thesis
    by (simp add: cocclFormatEffectiveConfig_def formatSettings_def cocclEnumeratePolicies_def renamedConfig_def Let_def)
      (simp add: defaultConfig_def)
qed

theorem format_shows_config_witness:
  "renamedConfig \<noteq> defaultConfig \<and> cocclFormatEffectiveConfig renamedConfig = cocclFormatEffectiveConfig defaultConfig \<and>
   map (shownPolicy \<circ> viewPolicy) (cocclEnumeratePolicies renamedConfig) = map (shownPolicy \<circ> viewPolicy) (cocclEnumeratePolicies defaultConfig)"
proof (intro conjI)
  have "scopeName (scopes (policyAllGather (normalPolicies renamedConfig)) ScopeDefault) \<noteq>
      scopeName (scopes (policyAllGather (normalPolicies defaultConfig)) ScopeDefault)"
    by (simp add: renamedConfig_def defaultConfig_def defaultPrimitivePolicy_def emptyScopeEntry_def)
  then show "renamedConfig \<noteq> defaultConfig" by auto
qed (use renamed_same_lines format_shows_config [OF renamed_same_lines] in simp_all)

end
