(* ===== verification/Runtime_Startup.thy ===== *)
theory Runtime_Startup
  imports Autotune_Profile
begin

text \<open>
  Start of the layer: a configuration accepted by the parser (theory \<open>Config_Parse\<close>) is what the compressor
  runtime installs (theory \<open>Compressor_Runtime\<close>). When the libraries of the catalog can be loaded and their
  plugins accept their options, initialisation succeeds, and routing finds for every policy of the active
  mode the compressor and the threshold the file gives it.
\<close>

section \<open>Policies of the active mode\<close>

definition roleOfScope :: "cocclPolicyScope \<Rightarrow> cocclTrainingRole" where
  "roleOfScope scope = (case scope of
       PolicyScopeNormal \<Rightarrow> TrainingRoleUnknown | PolicyScopeDataParallel \<Rightarrow> TrainingRoleDataParallel
     | PolicyScopeTensorParallel \<Rightarrow> TrainingRoleTensorParallel | PolicyScopePipelineParallel \<Rightarrow> TrainingRolePipelineParallel)"

definition viewTriple :: "cocclConfigPolicyView \<Rightarrow> cocclTrainingRole \<times> cocclPolicyVariant \<times> cocclOperation" where
  "viewTriple v = (roleOfScope (viewScope v), keyVariant (viewKey v), keyOperation (viewKey v))"

definition activePolicies :: "cocclConfig \<Rightarrow> cocclConfigPolicyView list" where
  "activePolicies cfg = filter (\<lambda>v. viewMode v = runtimeMode (runtimeConfig cfg)) (cocclEnumeratePolicies cfg)"

abbreviation threeScopes :: "cocclCompressionScope set" where
  "threeScopes \<equiv> {ScopeDefault, ScopeIntra, ScopeInter}"

definition installView :: "cocclConfigPolicyView \<Rightarrow> ('w compressor_world_scheme, unit) comp" where
  "installView v = installPolicy (roleOfScope (viewScope v)) (keyOperation (viewKey v)) (viewPolicy v) (keyVariant (viewKey v))"

lemma bindC_unit: "bindC m returnC = m"
  by (rule ext) (auto simp: bindC_def split: prod.splits sum.splits)

lemmas enumerate_defs = cocclEnumeratePolicies_def Let_def cocclDefaultPolicy_def cocclDirectionalPolicy_def

text \<open>What initialisation installs is exactly the list of the configuration module.\<close>

lemma install_normal:
  "runtimeMode (runtimeConfig cfg) = ModeNormal \<Longrightarrow> forC (activePolicies cfg) installView =
      bindC (installCollectivePolicies TrainingRoleUnknown (normalPolicies cfg)) (\<lambda>_.
      bindC (installPolicy TrainingRoleUnknown AllToAll (policyAllToAll (normalPolicies cfg)) VariantDefault) (\<lambda>_.
      installPolicy TrainingRoleUnknown SendRecv (policySendRecv (normalPolicies cfg)) VariantDefault))"
  by (simp add: activePolicies_def enumerate_defs installView_def roleOfScope_def installCollectivePolicies_def bindC_assoc bindC_unit)

lemma install_training:
  "runtimeMode (runtimeConfig cfg) \<noteq> ModeNormal \<Longrightarrow> forC (activePolicies cfg) installView =
      bindC (installCollectivePolicies TrainingRoleDataParallel (dataParallel (trainingPolicies cfg))) (\<lambda>_.
      bindC (installCollectivePolicies TrainingRoleTensorParallel (tensorParallel (trainingPolicies cfg))) (\<lambda>_.
      bindC (installPolicy TrainingRolePipelineParallel SendRecv (pipelineSendRecvForward (trainingPolicies cfg)) VariantForward) (\<lambda>_.
      installPolicy TrainingRolePipelineParallel SendRecv (pipelineSendRecvBackward (trainingPolicies cfg)) VariantBackward)))"
  by (cases "runtimeMode (runtimeConfig cfg)")
    (simp_all add: activePolicies_def enumerate_defs installView_def roleOfScope_def installCollectivePolicies_def bindC_assoc bindC_unit)

lemma initializeRuntime_views:
  "initializeRuntime dl register comm cfg =
     bindC (modifyC (\<lambda>w. w\<lparr>runtimeRanks := nRanks comm, runtimeNodes := nNodes comm,
              runtimeDevicesPerNode := localRanks comm\<rparr>)) (\<lambda>_.
     bindC (loadPlugins dl cfg) (\<lambda>_.
     bindC (forC (activePolicies cfg) installView) (\<lambda>_.
     forC [TrainingRoleUnknown, TrainingRoleDataParallel, TrainingRolePipelineParallel, TrainingRoleTensorParallel]
       (\<lambda>role. forC [ReduceScatter, AllReduce]
         (\<lambda>oper. registerScopes register role oper nullptr [ScopeDefault, ScopeIntra, ScopeInter])))))"
  unfolding initializeRuntime_def
  by (cases "runtimeMode (runtimeConfig cfg) = ModeNormal") (simp_all only: install_normal install_training if_True if_False simp_thms not_False_eq_True)

lemma active_distinct: "distinct (map viewTriple (activePolicies cfg))"
  by (cases "runtimeMode (runtimeConfig cfg)") (simp_all add: activePolicies_def enumerate_defs viewTriple_def roleOfScope_def)

lemma active_keys:
  "v \<in> set (cocclEnumeratePolicies cfg) \<Longrightarrow> roleOfScope (viewScope v) \<noteq> TrainingRoleCount \<and> keyOperation (viewKey v) \<noteq> OperationCount"
  by (auto simp: enumerate_defs roleOfScope_def)

lemma active_length: "length (activePolicies cfg) \<le> 13"
proof -
  have "length (cocclEnumeratePolicies cfg) = 13" by (simp add: enumerate_defs)
  then show ?thesis by (metis activePolicies_def length_filter_le)
qed

section \<open>Loading\<close>

text \<open>The library of a name gives a valid plugin, which accepts the options of every scope that uses it.\<close>

definition library_ready :: "dl_env \<Rightarrow> cocclConfig \<Rightarrow> ncclComm \<Rightarrow> string \<Rightarrow> cocclCompressorPlugin \<Rightarrow> bool" where
  "library_ready dl cfg comm nam plug \<longleftrightarrow>
     dl (pluginPath cfg nam) = Some (Some plug) \<and> fst (cocclValidateCompressorPlugin (Some nam) (Some plug) (Some 192)) \<and>
     (\<forall>v \<in> set (cocclEnumeratePolicies cfg). \<forall>scope \<in> threeScopes.
        let e = scopes (viewPolicy v) scope in
        scopeEnabled e \<and> scopeName e = nam \<longrightarrow>
        fst (the (parseConfig plug) (scopeValues e) (nNodes comm) (localRanks comm)) = ncclSuccess)"

lemma validated_plugin:
  assumes "fst (cocclValidateCompressorPlugin (Some nam) (Some plug) n)"
  shows "pluginName plug = Some nam" "\<exists>f. parseConfig plug = Some f"
  using assms by (auto simp: cocclValidateCompressorPlugin_def split: if_splits)

lemma loadPlugins_run:
  assumes "\<And>nam. nam \<in> set names \<Longrightarrow> library_ready dl cfg comm nam (lib nam)"
    and "distinct names" and "\<forall>nam \<in> set names. loadedPlugins w nam = None"
  shows "\<exists>w'. forC names (loadPlugin dl cfg) w = (Inr (), w') \<and> w' = w\<lparr>loadedPlugins := loadedPlugins w'\<rparr> \<and>
    (\<forall>nam \<in> set names. loadedPlugins w' nam = Some (lib nam)) \<and>
    (\<forall>nam. nam \<notin> set names \<longrightarrow> loadedPlugins w' nam = loadedPlugins w nam)"
  using assms
proof (induction names arbitrary: w)
  case (Cons nam names)
  let ?w = "w\<lparr>loadedPlugins := (loadedPlugins w)(nam \<mapsto> lib nam)\<rparr>"
  have step: "loadPlugin dl cfg nam w = (Inr (), ?w)"
    using Cons.prems(1) [of nam] Cons.prems(3) by (auto simp: loadPlugin_def library_ready_def dom_def)
  obtain w' where "forC names (loadPlugin dl cfg) ?w = (Inr (), w')" "w' = ?w\<lparr>loadedPlugins := loadedPlugins w'\<rparr>"
      "\<forall>nam \<in> set names. loadedPlugins w' nam = Some (lib nam)" "\<forall>nam. nam \<notin> set names \<longrightarrow> loadedPlugins w' nam = loadedPlugins ?w nam"
  proof -
    have "\<forall>other \<in> set names. loadedPlugins ?w other = None" using Cons.prems(2,3) by auto
    with Cons.IH [of ?w] Cons.prems(1,2) that show thesis by auto
  qed
  with step Cons.prems(2) show ?case by (intro exI [of _ w']) (auto simp: bindC_def)
qed simp

section \<open>Installing\<close>

definition ready :: "cocclConfig \<Rightarrow> ncclComm \<Rightarrow> (string \<Rightarrow> cocclCompressorPlugin) \<Rightarrow> 'w compressor_world_scheme \<Rightarrow> bool" where
  "ready cfg comm lib w \<longleftrightarrow> runtimeNodes w = nNodes comm \<and> runtimeDevicesPerNode w = localRanks comm \<and>
     (\<forall>nam \<in> set (compressors (plugins cfg)). loadedPlugins w nam = Some (lib nam))"

text \<open>The entry that is effective for a scope is one of the configured ones.\<close>

lemma effective_entry_scope:
  assumes "scope \<in> threeScopes" and "effectiveEnabled (cocclEffectiveCompressorScopeFor pol scope)"
  shows "\<exists>scope' \<in> threeScopes. effectiveEntry (cocclEffectiveCompressorScopeFor pol scope) = Some (scopes pol scope') \<and>
    scopeEnabled (scopes pol scope')"
  using assms
  by (auto simp: cocclEffectiveCompressorScopeFor_def cocclConfiguredCompressorScope_def effectiveEnabled_def Let_def split: if_splits)

lemma installScope_run:
  assumes ready: "ready cfg comm lib w" and valid: "valid_config cfg"
    and libs: "\<And>nam. nam \<in> set (compressors (plugins cfg)) \<Longrightarrow> library_ready dl cfg comm nam (lib nam)"
    and v: "v \<in> set (cocclEnumeratePolicies cfg)" and scope: "scope \<in> threeScopes"
  shows "\<exists>w'. installScope trole oper (viewPolicy v) variant scope w = (Inr (), w') \<and> ready cfg comm lib w'"
proof (cases "effectiveEnabled (cocclEffectiveCompressorScopeFor (viewPolicy v) scope)")
  case True
  let ?eff = "cocclEffectiveCompressorScopeFor (viewPolicy v) scope"
  obtain scope' where e: "scope' \<in> threeScopes" "effectiveEntry ?eff = Some (scopes (viewPolicy v) scope')" "scopeEnabled (scopes (viewPolicy v) scope')"
    using effective_entry_scope [OF scope True] by blast
  let ?e = "scopes (viewPolicy v) scope'"
  have nam: "scopeName ?e \<in> set (compressors (plugins cfg))"
    using valid v e by (auto simp: valid_config_def valid_scope_def)
  note lib = libs [OF nam, unfolded library_ready_def]
  obtain f where f: "parseConfig (lib (scopeName ?e)) = Some f" using validated_plugin lib by blast
  have ok: "fst (f (scopeValues ?e) (nNodes comm) (localRanks comm)) = ncclSuccess"
    using lib v e f by (auto simp: Let_def)
  have "loadedPlugins w (scopeName ?e) = Some (lib (scopeName ?e))" using ready nam by (simp add: ready_def)
  with f ok ready show ?thesis
    by (auto simp: installScope_def Let_def True e(2) createPolicy_def bindC_def fromOption_def guardC_def ready_def setPolicy_def
        split: prod.splits)
qed (use ready in \<open>simp add: installScope_def Let_def\<close>)

lemma installView_run:
  assumes "ready cfg comm lib w" and "valid_config cfg"
    and "\<And>nam. nam \<in> set (compressors (plugins cfg)) \<Longrightarrow> library_ready dl cfg comm nam (lib nam)"
    and "v \<in> set (cocclEnumeratePolicies cfg)"
  shows "\<exists>w'. installView v w = (Inr (), w') \<and> ready cfg comm lib w'"
proof -
  note run = installScope_run [OF _ assms(2,3,4), where trole = "roleOfScope (viewScope v)" and oper = "keyOperation (viewKey v)"
      and variant = "keyVariant (viewKey v)"]
  obtain w1 where 1: "installScope (roleOfScope (viewScope v)) (keyOperation (viewKey v)) (viewPolicy v) (keyVariant (viewKey v)) ScopeDefault w = (Inr (), w1)"
    "ready cfg comm lib w1" using run [of w ScopeDefault] assms(1) by auto
  obtain w2 where 2: "installScope (roleOfScope (viewScope v)) (keyOperation (viewKey v)) (viewPolicy v) (keyVariant (viewKey v)) ScopeIntra w1 = (Inr (), w2)"
    "ready cfg comm lib w2" using run [of w1 ScopeIntra] 1(2) by auto
  obtain w3 where 3: "installScope (roleOfScope (viewScope v)) (keyOperation (viewKey v)) (viewPolicy v) (keyVariant (viewKey v)) ScopeInter w2 = (Inr (), w3)"
    "ready cfg comm lib w3" using run [of w2 ScopeInter] 2(2) by auto
  from 1 2 3 show ?thesis by (intro exI [of _ w3]) (simp add: installView_def installPolicy_def bindC_def)
qed

text \<open>The whole list: every policy is served at the end.\<close>

definition view_served :: "cocclConfigPolicyView \<Rightarrow> 'w compressor_world_scheme \<Rightarrow> bool" where
  "view_served v w \<longleftrightarrow> (\<forall>scope \<in> threeScopes. effectiveEnabled (cocclEffectiveCompressorScopeFor (viewPolicy v) scope) \<longrightarrow>
     serves w (roleOfScope (viewScope v)) (keyVariant (viewKey v)) (keyOperation (viewKey v)) (viewPolicy v) scope)"

lemma installViews_run:
  assumes valid: "valid_config cfg"
    and libs: "\<And>nam. nam \<in> set (compressors (plugins cfg)) \<Longrightarrow> library_ready dl cfg comm nam (lib nam)"
  shows "ready cfg comm lib w \<Longrightarrow> set vs \<subseteq> set (cocclEnumeratePolicies cfg) \<Longrightarrow> distinct (map viewTriple (old @ vs)) \<Longrightarrow>
    (\<forall>v \<in> set old. view_served v w) \<Longrightarrow> length (ownedPolicies w) + 3 * length vs < 2 ^ 64 \<Longrightarrow>
    \<exists>w'. forC vs installView w = (Inr (), w') \<and> ready cfg comm lib w' \<and> (\<forall>v \<in> set (old @ vs). view_served v w')"
proof (induction vs arbitrary: old w)
  case (Cons v vs)
  obtain w1 where w1: "installView v w = (Inr (), w1)" "ready cfg comm lib w1"
    using installView_run [OF Cons.prems(1) valid libs] Cons.prems(2) by auto
  have len: "length (ownedPolicies w) + 3 < 2 ^ 64" using Cons.prems(5) by simp
  note served = installPolicy_serves [OF w1(1) [unfolded installView_def] len]
  have "view_served v w1" using served(1) by (auto simp: view_served_def)
  moreover have "view_served u w1" if u: "u \<in> set old" for u
  proof -
    have "viewTriple u \<noteq> viewTriple v" using u Cons.prems(3) by (auto simp: image_iff)
    then have "(roleOfScope (viewScope u), keyVariant (viewKey u), keyOperation (viewKey u)) \<noteq>
      (roleOfScope (viewScope v), keyVariant (viewKey v), keyOperation (viewKey v))" by (simp add: viewTriple_def)
    from served(2) [OF this] Cons.prems(4) u show ?thesis unfolding view_served_def by blast
  qed
  ultimately have "\<forall>u \<in> set (old @ [v]). view_served u w1" by auto
  moreover have "length (ownedPolicies w1) + 3 * length vs < 2 ^ 64" using served(3) Cons.prems(5) by simp
  ultimately obtain w' where "forC vs installView w1 = (Inr (), w')" "ready cfg comm lib w'" "\<forall>u \<in> set ((old @ [v]) @ vs). view_served u w'"
    using Cons.IH [OF w1(2), of "old @ [v]"] Cons.prems(2,3) by auto
  with w1(1) show ?case by (intro exI [of _ w']) (simp add: bindC_def)
qed simp

section \<open>Registration with the autotuner\<close>

text \<open>Registration changes only the autotuner's list, so what is served stays served.\<close>

definition same_policies :: "'w compressor_world_scheme \<Rightarrow> 'w compressor_world_scheme \<Rightarrow> bool" where
  "same_policies w w' \<longleftrightarrow> policyTable w' = policyTable w \<and> policyStore w' = policyStore w \<and>
     ownedPolicies w' = ownedPolicies w \<and> loadedPlugins w' = loadedPlugins w"

definition leaves_policies :: "('w compressor_world_scheme, unit) comp \<Rightarrow> bool" where
  "leaves_policies m \<longleftrightarrow> (\<forall>w. \<exists>w'. m w = (Inr (), w') \<and> same_policies w w')"

lemma leaves_bind:
  fixes m :: "('w compressor_world_scheme, unit) comp"
  assumes "leaves_policies m" and "leaves_policies n"
  shows "leaves_policies (bindC m (\<lambda>_. n))"
  unfolding leaves_policies_def
proof
  fix w :: "'w compressor_world_scheme"
  obtain w1 where 1: "m w = (Inr (), w1)" "same_policies w w1" using assms(1) unfolding leaves_policies_def by blast
  obtain w2 where "n w1 = (Inr (), w2)" "same_policies w1 w2" using assms(2) unfolding leaves_policies_def by blast
  with 1 show "\<exists>w'. bindC m (\<lambda>_. n) w = (Inr (), w') \<and> same_policies w w'" by (auto simp: bindC_def same_policies_def)
qed

lemma leaves_return: "leaves_policies (returnC ())"
  by (simp add: leaves_policies_def same_policies_def)

lemma leaves_for: "(\<And>x. leaves_policies (f x)) \<Longrightarrow> leaves_policies (forC xs f)"
  by (induction xs) (simp_all add: leaves_return leaves_bind)

lemma leaves_register: "leaves_policies (cocclAutotuneRegisterEnabledCompressor p key)"
  by (simp add: leaves_policies_def same_policies_def cocclAutotuneRegisterEnabledCompressor_def updatePerformance_def)

lemma leaves_scopes:
  fixes register :: "ptr \<Rightarrow> cocclPolicyKey \<Rightarrow> ('w compressor_world_scheme, unit) comp"
  assumes "\<And>p key. leaves_policies (register p key)"
  shows "leaves_policies (registerScopes register trole oper previous scs)"
proof (induction scs arbitrary: previous)
  case (Cons scope scs)
  have "leaves_policies (bindC (if b then register p key else returnC ()) (\<lambda>_. registerScopes register trole oper p scs))" for b p key
    by (rule leaves_bind) (simp_all add: assms leaves_return Cons.IH)
  then show ?case by (simp add: leaves_policies_def bindC_def)
qed (simp add: leaves_return)

lemma same_policies_served: "same_policies w w' \<Longrightarrow> view_served v w \<Longrightarrow> view_served v w'"
  by (simp add: same_policies_def view_served_def serves_def)

section \<open>Start\<close>

text \<open>
  C12: the layer starts with every accepted configuration. If the library of every compressor of the
  catalog gives a valid plugin under its name whose \<^verbatim>\<open>parseConfig\<close> accepts the options of every enabled scope
  that names it, then initialising the runtime succeeds, and every scope of a
  policy of the configured mode that is enabled, by itself or by the default, resolves to a compressor
  of the plugin the file names for it with the threshold of the file.
\<close>

theorem accepted_config_starts:
  fixes w :: "'w profile_world_scheme"
  assumes config: "cocclLoadConfigFile parse_file path outGiven err = (Some cfg, err')"
    and libs: "\<And>nam. nam \<in> set (compressors (plugins cfg)) \<Longrightarrow> library_ready dl cfg comm nam (lib nam)"
    and fresh: "loadedPlugins w = Map.empty" "ownedPolicies w = []"
  shows "\<exists>w'. initializeRuntime dl cocclAutotuneRegisterEnabledCompressor comm cfg w = (Inr (), w') \<and>
    (\<forall>v \<in> set (cocclEnumeratePolicies cfg). viewMode v = runtimeMode (runtimeConfig cfg) \<longrightarrow>
     (\<forall>scope \<in> threeScopes. effectiveEnabled (cocclEffectiveCompressorScopeFor (viewPolicy v) scope) \<longrightarrow>
      (\<exists>r. cocclResolveCompressorPolicy w' (roleOfScope (viewScope v))
             (PolicyKey (keyOperation (viewKey v)) (keyVariant (viewKey v)) scope) = Inr r \<and>
           resolvedThresholdBytes r = policyThresholdBytes (viewPolicy v) \<and>
           pluginName (plugin (policyStore w' (resolvedCompressor r))) =
             Some (scopeName (the (effectiveEntry (cocclEffectiveCompressorScopeFor (viewPolicy v) scope)))))))"
proof -
  have valid: "valid_config cfg" using load_Some [OF config] acceptsD [OF accepts_file] by blast
  let ?w0 = "w\<lparr>runtimeRanks := nRanks comm, runtimeNodes := nNodes comm, runtimeDevicesPerNode := localRanks comm\<rparr>"
  obtain w1 where w1: "loadPlugins dl cfg ?w0 = (Inr (), w1)" "w1 = ?w0\<lparr>loadedPlugins := loadedPlugins w1\<rparr>"
      "\<forall>nam \<in> set (compressors (plugins cfg)). loadedPlugins w1 nam = Some (lib nam)"
    using loadPlugins_run [of "compressors (plugins cfg)" dl cfg comm lib ?w0] libs valid fresh
    by (auto simp: loadPlugins_def valid_config_def valid_settings_def valid_catalog_def)
  have r1: "ready cfg comm lib w1" "ownedPolicies w1 = []"
    using w1(3) fresh(2) arg_cong [OF w1(2), of ownedPolicies] arg_cong [OF w1(2), of runtimeNodes] arg_cong [OF w1(2), of runtimeDevicesPerNode]
    by (simp_all add: ready_def)
  obtain w2 where w2: "forC (activePolicies cfg) installView w1 = (Inr (), w2)" "ready cfg comm lib w2"
      "\<forall>v \<in> set (activePolicies cfg). view_served v w2"
    using installViews_run [OF valid libs r1(1), of "activePolicies cfg" "[]"] active_distinct [of cfg] active_length [of cfg] r1(2)
    by (auto simp: activePolicies_def)
  let ?registration = "forC [TrainingRoleUnknown, TrainingRoleDataParallel, TrainingRolePipelineParallel, TrainingRoleTensorParallel]
       (\<lambda>trole. forC [ReduceScatter, AllReduce]
         (\<lambda>oper. registerScopes (cocclAutotuneRegisterEnabledCompressor :: _ \<Rightarrow> _ \<Rightarrow> ('w profile_world_scheme, unit) comp)
            trole oper nullptr [ScopeDefault, ScopeIntra, ScopeInter]))"
  have "leaves_policies ?registration" by (intro leaves_for leaves_scopes leaves_register)
  then obtain w3 where w3: "?registration w2 = (Inr (), w3)" "same_policies w2 w3" unfolding leaves_policies_def by blast
  have resolved: "\<exists>r. cocclResolveCompressorPolicy w3 (roleOfScope (viewScope v))
             (PolicyKey (keyOperation (viewKey v)) (keyVariant (viewKey v)) scope) = Inr r \<and>
           resolvedThresholdBytes r = policyThresholdBytes (viewPolicy v) \<and>
           pluginName (plugin (policyStore w3 (resolvedCompressor r))) =
             Some (scopeName (the (effectiveEntry (cocclEffectiveCompressorScopeFor (viewPolicy v) scope))))"
    if v: "v \<in> set (cocclEnumeratePolicies cfg)" "viewMode v = runtimeMode (runtimeConfig cfg)" and scope: "scope \<in> threeScopes"
      and on: "effectiveEnabled (cocclEffectiveCompressorScopeFor (viewPolicy v) scope)" for v scope
  proof -
    let ?nam = "scopeName (the (effectiveEntry (cocclEffectiveCompressorScopeFor (viewPolicy v) scope)))"
    have "view_served v w2" using w2(3) v by (simp add: activePolicies_def)
    then have "view_served v w3" by (rule same_policies_served [OF w3(2)])
    then have serves: "serves w3 (roleOfScope (viewScope v)) (keyVariant (viewKey v)) (keyOperation (viewKey v)) (viewPolicy v) scope"
      using scope on unfolding view_served_def by blast
    have keys: "roleOfScope (viewScope v) \<noteq> TrainingRoleCount" "keyOperation (viewKey v) \<noteq> OperationCount" "scope \<noteq> ScopeCount"
      using active_keys [OF v(1)] scope by auto
    have nam: "?nam \<in> set (compressors (plugins cfg))"
      using effective_entry_scope [OF scope on] valid v(1) by (auto simp: valid_config_def valid_scope_def)
    then have "loadedPlugins w3 ?nam = Some (lib ?nam)" using w2(2) w3(2) by (simp add: ready_def same_policies_def)
    moreover have "pluginName (lib ?nam) = Some ?nam"
      using validated_plugin(1) libs [OF nam] by (auto simp: library_ready_def)
    ultimately show ?thesis using serves_resolves [OF serves keys] by auto
  qed
  show ?thesis
    using resolved w1(1) w2(1) w3(1)
    by (intro exI [of _ w3]) (simp add: initializeRuntime_views bindC_Inr_run del: forC.simps)
qed

text \<open>The file of theory \<open>Config_Parse\<close> with a plugin that takes every option.\<close>

definition startPlugin :: cocclCompressorPlugin where
  "startPlugin = bytePlugin\<lparr>pluginName := Some ''taco''\<rparr>"

definition startWorld :: profile_world where
  "startWorld = pipeline_world.extend (native_world.extend (compressor_world.extend emptyCompressorWorld
       \<lparr>callerGuardActive = False, ncclGroupDepth = 0, ncclGroupError = ncclSuccess\<rparr>) \<lparr>resourcesByComm = Map.empty\<rparr>)
     \<lparr>performance = emptyPerformanceModel, gathered = []\<rparr>"

theorem accepted_config_starts_witness:
  "\<exists>cfg err w' r. cocclLoadConfigFile (\<lambda>_. Inr exampleToml) ''/etc/coccl.toml'' True (Some []) = (Some cfg, err) \<and>
     initializeRuntime (\<lambda>_. Some (Some startPlugin)) cocclAutotuneRegisterEnabledCompressor exampleDeviceComm cfg startWorld = (Inr (), w') \<and>
     cocclResolveCompressorPolicy w' TrainingRoleUnknown (PolicyKey AllReduce VariantDefault ScopeIntra) = Inr r \<and>
     resolvedThresholdBytes r = 65536"
proof -
  obtain cfg err where run: "cocclLoadConfigFile (\<lambda>_. Inr exampleToml) ''/etc/coccl.toml'' True (Some []) = (Some cfg, err)"
      and names: "compressors (plugins cfg) = [''taco'']" and mode: "runtimeMode (runtimeConfig cfg) = ModeNormal"
      and pol: "scopes (policyAllReduce (normalPolicies cfg)) ScopeDefault =
         \<lparr>scopeConfigured = True, scopeEnabled = True, scopeName = ''taco'', scopeValues = [(''bits'', ''8'')]\<rparr>"
        "policyThresholdBytes (policyAllReduce (normalPolicies cfg)) = 65536"
        "scopes (policyAllReduce (normalPolicies cfg)) ScopeIntra = emptyScopeEntry"
    using example_accepted by (auto split: prod.splits option.splits)
  have "fst (cocclValidateCompressorPlugin (Some ''taco'') (Some startPlugin) (Some 192))" by code_simp
  then have libs: "library_ready (\<lambda>_. Some (Some startPlugin)) cfg exampleDeviceComm nam startPlugin"
    if "nam \<in> set (compressors (plugins cfg))" for nam
    using that by (simp add: library_ready_def names startPlugin_def bytePlugin_def failingPlugin_def Let_def)
  let ?v = "\<lparr>viewId = NormalAllReduce, viewPath = ''normal.all_reduce'', viewMode = ModeNormal, viewScope = PolicyScopeNormal,
    viewKey = cocclDefaultPolicy AllReduce ScopeDefault, viewPolicy = policyAllReduce (normalPolicies cfg)\<rparr>"
  have v: "?v \<in> set (cocclEnumeratePolicies cfg)" by (simp add: enumerate_defs)
  have on: "effectiveEnabled (cocclEffectiveCompressorScopeFor (viewPolicy ?v) ScopeIntra)"
    using pol(1,3) by (simp add: emptyScopeEntry_def cocclEffectiveCompressorScopeFor_def cocclConfiguredCompressorScope_def effectiveEnabled_def Let_def)
  have fresh: "loadedPlugins startWorld = Map.empty" "ownedPolicies startWorld = []"
    by (simp_all add: startWorld_def emptyCompressorWorld_def compressor_world.defs native_world.defs pipeline_world.defs)
  from accepted_config_starts [OF run libs fresh] obtain w' where
    w': "initializeRuntime (\<lambda>_. Some (Some startPlugin)) cocclAutotuneRegisterEnabledCompressor exampleDeviceComm cfg startWorld = (Inr (), w')"
    and served: "\<And>v scope. v \<in> set (cocclEnumeratePolicies cfg) \<Longrightarrow> viewMode v = runtimeMode (runtimeConfig cfg) \<Longrightarrow> scope \<in> threeScopes \<Longrightarrow>
      effectiveEnabled (cocclEffectiveCompressorScopeFor (viewPolicy v) scope) \<Longrightarrow>
      \<exists>r. cocclResolveCompressorPolicy w' (roleOfScope (viewScope v)) (PolicyKey (keyOperation (viewKey v)) (keyVariant (viewKey v)) scope) = Inr r \<and>
          resolvedThresholdBytes r = policyThresholdBytes (viewPolicy v)"
    by meson
  from served [OF v _ _ on] mode pol(2) w' run show ?thesis
    by (auto simp: roleOfScope_def cocclDefaultPolicy_def)
qed

end
