(* ===== verification/Profile_Agreement.thy ===== *)
theory Profile_Agreement
  imports Coccl_Comm
begin

text \<open>
  What the profiler of theory \<open>Autotune_Profile\<close> publishes is a function of what was received in the
  all-gathers: timings, topology and plugins of the rank itself enter only through its contribution.
  Ranks that received the same therefore publish the same models.
\<close>

section \<open>The models as a function of the all-gathers\<close>

fun observationsOf :: "gather \<Rightarrow> cocclProfileObservation list" where
  "observationsOf (GatherObservations observations) = observations"
| "observationsOf _ = []"

definition sampled :: "('a \<Rightarrow> gather \<Rightarrow> 'b option) \<Rightarrow> 'a list \<Rightarrow> gather list \<Rightarrow> 'b list" where
  "sampled f xs gs = List.map_filter (\<lambda>(x, g). f x g) (zip xs gs)"

definition p2pModel :: "rounding \<Rightarrow> size_t list \<Rightarrow> gather list \<Rightarrow> cocclLinearModel" where
  "p2pModel fl sizes gs =
     cocclAutotuneFitLinearModel fl (sampled (\<lambda>bytes g. p2pPoint fl bytes (aggregateAll fl (observationsOf g))) sizes gs)"

definition codecModel :: "rounding \<Rightarrow> size_t list \<Rightarrow> gather list \<Rightarrow> cocclCodecModel" where
  "codecModel fl sizes gs =
     fitCodecModel fl (sampled (\<lambda>bytes g. compressorPoint fl bytes (aggregateAll fl (observationsOf g))) sizes gs)"

text \<open>A profile takes one all-gather per size from the front of the list.\<close>

type_synonym profile_step = "cocclProcessPerformanceModel \<times> gather list \<Rightarrow> cocclProcessPerformanceModel \<times> gather list"

definition consumeGathers ::
  "nat \<Rightarrow> (gather list \<Rightarrow> 'a) \<Rightarrow> ('a \<Rightarrow> cocclProcessPerformanceModel \<Rightarrow> cocclProcessPerformanceModel) \<Rightarrow> profile_step" where
  "consumeGathers n model publish = (\<lambda>(perf, gs). (publish (model (take n gs)) perf, drop n gs))"

definition profileAll :: "rounding \<Rightarrow> size_t list \<Rightarrow> 32 word \<Rightarrow> profile_step" where
  "profileAll fl sizes needs st =
     (let n = length sizes;
          st = (if needs AND cocclProfileNeedIntra \<noteq> 0 then consumeGathers n (p2pModel fl sizes) (publishP2pModel False) st else st);
          st = (if needs AND cocclProfileNeedInter \<noteq> 0 then consumeGathers n (p2pModel fl sizes) (publishP2pModel True) st else st) in
      if needs AND cocclProfileNeedCompressors \<noteq> 0
      then fold (\<lambda>item. consumeGathers n (codecModel fl sizes) (publishCompressorModel (profiledCompressor item)))
             (enabledCompressors (fst st)) st
      else st)"

definition modelsFrom ::
  "rounding \<Rightarrow> cocclAutotuneConfig \<Rightarrow> cocclProcessPerformanceModel \<Rightarrow> gather list \<Rightarrow> cocclProcessPerformanceModel" where
  "modelsFrom fl cfg perf gs =
     (case gs of
        GatherNeeds allNeeds # gs1 \<Rightarrow>
          (let needs = foldl (OR) 0 allNeeds;
               marked = perf\<lparr>attemptedProfiles := attemptedProfiles perf OR needs\<rparr> in
           if needs = 0 then perf
           else
             (case gs1 of
                GatherBytes allMax # gs2 \<Rightarrow>
                  (case sampleSizes (profileMinBytes cfg) (foldl min (profileMaxBytes cfg) allMax) of
                     None \<Rightarrow> marked
                   | Some sizes \<Rightarrow> if length sizes < 2 then marked else fst (profileAll fl sizes needs (marked, gs2)))
              | _ \<Rightarrow> marked))
      | _ \<Rightarrow> perf)"

section \<open>Runs without failing calls\<close>

definition never_fails :: "api_env \<Rightarrow> bool" where
  "never_fails env \<longleftrightarrow> (\<forall>i c. status (env i c) = ncclSuccess)"

text \<open>A thread outside of groups.\<close>

definition idle :: "'w native_world_scheme \<Rightarrow> bool" where
  "idle w \<longleftrightarrow> ncclGroupDepth w = 0 \<and> ncclGroupError w = ncclSuccess"

text \<open>
  A computation that ends without an error, keeps the published models, and whose result is related to
  what it gathered.
\<close>

definition determined :: "('w profile_world_scheme, 'a) comp \<Rightarrow> (gather list \<Rightarrow> 'a \<Rightarrow> bool) \<Rightarrow> bool" where
  "determined m P \<longleftrightarrow> (\<forall>w. idle w \<longrightarrow> (\<exists>x w' gs. m w = (Inr x, w') \<and> idle w' \<and>
     performance w' = performance w \<and> gathered w' = gathered w @ gs \<and> P gs x))"

abbreviation quiet :: "('w profile_world_scheme, 'a) comp \<Rightarrow> bool" where
  "quiet m \<equiv> determined m (\<lambda>gs x. gs = [])"

lemma determinedI:
  assumes "\<And>w. idle w \<Longrightarrow> \<exists>x w' gs. m w = (Inr x, w') \<and> idle w' \<and> performance w' = performance w \<and>
    gathered w' = gathered w @ gs \<and> P gs x"
  shows "determined m P"
  using assms by (simp add: determined_def)

lemma determinedE:
  assumes "determined m P" and "idle w"
  obtains x w' gs where "m w = (Inr x, w')" "idle w'" "performance w' = performance w" "gathered w' = gathered w @ gs" "P gs x"
  using assms unfolding determined_def by blast

lemma determined_weaken: "determined m P \<Longrightarrow> (\<And>gs x. P gs x \<Longrightarrow> Q gs x) \<Longrightarrow> determined m Q"
  unfolding determined_def by blast

lemma determined_return: "P [] x \<Longrightarrow> determined (returnC x) P"
  by (simp add: determined_def)

lemma determined_get: "quiet (getC f)"
  by (simp add: determined_def)

lemma determined_bind:
  fixes m :: "('w profile_world_scheme, 'a) comp"
  assumes "determined m P" and "\<And>x gs. P gs x \<Longrightarrow> determined (f x) (\<lambda>gs' y. Q (gs @ gs') y)"
  shows "determined (bindC m f) Q"
proof (rule determinedI)
  fix w :: "'w profile_world_scheme" assume "idle w"
  with assms(1) obtain x w1 gs where
    1: "m w = (Inr x, w1)" "idle w1" "performance w1 = performance w" "gathered w1 = gathered w @ gs" "P gs x" by (rule determinedE)
  from assms(2) [OF 1(5)] 1(2) obtain y w2 gs2 where
    "f x w1 = (Inr y, w2)" "idle w2" "performance w2 = performance w1" "gathered w2 = gathered w1 @ gs2" "Q (gs @ gs2) y"
    by (rule determinedE)
  with 1 show "\<exists>x w' gs. bindC m f w = (Inr x, w') \<and> idle w' \<and> performance w' = performance w \<and> gathered w' = gathered w @ gs \<and> Q gs x"
    by (intro exI [of _ y] exI [of _ w2] exI [of _ "gs @ gs2"]) (simp add: bindC_def)
qed

lemma determined_after: "quiet m \<Longrightarrow> (\<And>x. determined (f x) Q) \<Longrightarrow> determined (bindC m f) Q"
  by (rule determined_bind [of m "\<lambda>gs x. gs = []"]) auto

lemma quiet_CUDACHECK: "never_fails env \<Longrightarrow> quiet (CUDACHECK env c)"
  by (auto simp: determined_def CUDACHECK_def callApi_def never_fails_def idle_def)

lemma determined_allGather:
  assumes "never_fails env"
  shows "determined (allGather env comm bytes peers wrap own) (\<lambda>gs xs. gs = [wrap xs])"
  using assms by (auto simp: determined_def allGather_def NCCLCHECK_def callApi_def never_fails_def nccl_ok_def idle_def bindC_def)

lemma quiet_repeat: "quiet m \<Longrightarrow> quiet (repeatC n m)"
  by (induction n) (auto intro!: determined_return determined_after)

lemma determined_collect:
  assumes "\<And>x. x \<in> set xs \<Longrightarrow> determined (f x) (\<lambda>gs y. \<exists>g. gs = [g] \<and> y = h x g)"
  shows "determined (collectC xs f) (\<lambda>gs ys. length gs = length xs \<and> ys = sampled h xs gs)"
  using assms
proof (induction xs)
  case (Cons x xs)
  then have IH: "determined (collectC xs f) (\<lambda>gs ys. length gs = length xs \<and> ys = sampled h xs gs)" by simp
  show ?case
    unfolding collectC.simps
    by (rule determined_bind [OF Cons.prems]) (auto intro!: determined_bind [OF IH] determined_return
        simp: sampled_def List.map_filter_def split: option.splits)
qed (simp add: determined_return sampled_def List.map_filter_def)

lemma determined_withHandle:
  fixes body :: "ptr \<Rightarrow> ('w profile_world_scheme, 'a) comp"
  assumes "never_fails env" and "\<And>h. determined (body h) P"
  shows "determined (withHandle env create destroy body) P"
proof (rule determinedI)
  fix w :: "'w profile_world_scheme" assume w: "idle w"
  obtain h w1 where 1: "CUDACHECK env create w = (Inr h, w1)" "idle w1" "performance w1 = performance w" "gathered w1 = gathered w"
    using determinedE [OF quiet_CUDACHECK [OF assms(1)] w] by (metis append_Nil2)
  from assms(2) 1(2) obtain x w2 gs where
    2: "body h w1 = (Inr x, w2)" "idle w2" "performance w2 = performance w1" "gathered w2 = gathered w1 @ gs" "P gs x" by (rule determinedE)
  then show "\<exists>x w' gs. withHandle env create destroy body w = (Inr x, w') \<and> idle w' \<and> performance w' = performance w \<and>
      gathered w' = gathered w @ gs \<and> P gs x"
    using 1 by (auto simp: withHandle_def callApi_def idle_def)
qed

section \<open>Exchanges\<close>

lemma enqueue_run:
  assumes "never_fails env" and "0 < ncclGroupDepth w"
  shows "ncclEnqueueCheck env c w = (ncclSuccess, w\<lparr>apiLog := apiLog w @ [Nccl c]\<rparr>)"
  using assms
  by (simp add: ncclEnqueueCheck_def ncclGroupStartInternal_def callApi_def never_fails_def ncclGroupErrCheck_def
      ncclGroupEndInternal_def Let_def nccl_ok_def)

lemma guard_again: "w\<lparr>callerGuardActive := True, apiLog := l, callerGuardActive := callerGuardActive w\<rparr> = w\<lparr>apiLog := l\<rparr>"
  by (cases w) simp

lemma replay_run:
  assumes "never_fails env" and "0 < ncclGroupDepth w" and "infoOperation info = SendRecv"
  shows "\<exists>l. cocclReplayNativeCall env info w = (ncclSuccess, w\<lparr>apiLog := l\<rparr>)"
proof -
  obtain c where "replaySendRecv env info (w\<lparr>callerGuardActive := True\<rparr>) = ncclEnqueueCheck env c (w\<lparr>callerGuardActive := True\<rparr>)"
    unfolding replaySendRecv_def nativePointToPoint_def by (cases "infoFunc info = ncclFuncSend") auto
  then have "cocclReplayNativeCall env info w =
      (ncclSuccess, w\<lparr>callerGuardActive := True, apiLog := apiLog w @ [Nccl c], callerGuardActive := callerGuardActive w\<rparr>)"
    using assms enqueue_run [of env "w\<lparr>callerGuardActive := True\<rparr>" c]
    by (simp add: cocclReplayNativeCall_def guarded_def setGuard_def Let_def)
  then show ?thesis unfolding guard_again by blast
qed

lemma quiet_exchange:
  assumes "never_fails env"
  shows "quiet (checkR (enqueueP2pExchange env comm sendBuffer recvBuffer bytes sendPeer recvPeer strm))"
proof (rule determinedI)
  fix w :: "'w profile_world_scheme" assume w: "idle w"
  let ?w1 = "w\<lparr>ncclGroupDepth := 1\<rparr>"
  let ?r = "(exchangeInfo comm bytes recvPeer strm)\<lparr>infoRecv := recvBuffer, infoFunc := ncclFuncRecv\<rparr>"
  let ?s = "(exchangeInfo comm bytes sendPeer strm)\<lparr>infoSend := sendBuffer, infoFunc := ncclFuncSend\<rparr>"
  have op: "infoOperation ?r = SendRecv" "infoOperation ?s = SendRecv" by (simp_all add: exchangeInfo_def)
  have d: "0 < ncclGroupDepth ?w1" by simp
  obtain l1 where r: "cocclReplayNativeCall env ?r ?w1 = (ncclSuccess, ?w1\<lparr>apiLog := l1\<rparr>)" using replay_run [OF assms d op(1)] by blast
  have "0 < ncclGroupDepth (?w1\<lparr>apiLog := l1\<rparr>)" using d by simp
  from replay_run [OF assms this op(2)] obtain l2 where
    s: "cocclReplayNativeCall env ?s (?w1\<lparr>apiLog := l1\<rparr>) = (ncclSuccess, ?w1\<lparr>apiLog := l2\<rparr>)" by auto
  have "\<exists>w'. enqueueP2pExchange env comm sendBuffer recvBuffer bytes sendPeer recvPeer strm w = (ncclSuccess, w') \<and>
      idle w' \<and> performance w' = performance w \<and> gathered w' = gathered w"
    using w assms
    by (simp add: enqueueP2pExchange_def nccl_ok_def r s ncclGroupEndInternal_def callApi_def idle_def never_fails_def Let_def)
  then show "\<exists>x w' gs. checkR (enqueueP2pExchange env comm sendBuffer recvBuffer bytes sendPeer recvPeer strm) w = (Inr x, w') \<and>
      idle w' \<and> performance w' = performance w \<and> gathered w' = gathered w @ gs \<and> gs = []"
    by (auto simp: checkR_def nccl_ok_def)
qed

lemma quiet_observeP2p:
  assumes "never_fails env"
  shows "quiet (observeP2p env fl cfg comm peers sendBuffer recvBuffer strm start stop bytes)"
proof (cases peers)
  case None
  then show ?thesis by (simp add: observeP2p_def determined_return)
next
  case (Some p)
  obtain a b where p: "p = (a, b)" by fastforce
  note steps = determined_after [OF quiet_CUDACHECK [OF assms]] determined_after [OF quiet_exchange [OF assms]]
    determined_after [OF quiet_repeat [OF quiet_exchange [OF assms]]]
  have "quiet (timedExchange env fl start stop strm
      (checkR (enqueueP2pExchange env comm sendBuffer recvBuffer bytes sp rp strm)))" for sp rp
    unfolding timedExchange_def by (intro steps) (rule determined_return, rule refl)
  note timed = determined_after [OF quiet_repeat [OF this]]
  show ?thesis
    unfolding Some p observeP2p_def Let_def option.case prod.case
    by (intro steps timed) (rule determined_return, rule refl)
qed

lemma determined_aggregate:
  assumes "never_fails env"
  shows "determined (aggregateObservation env boot fl comm own) (\<lambda>gs x. \<exists>g. gs = [g] \<and> x = aggregateAll fl (observationsOf g))"
  unfolding aggregateObservation_def
  by (rule determined_bind [OF determined_allGather [OF assms]]) (auto intro: determined_return)

text \<open>One size: an observation of the rank itself, then the aggregate of all ranks.\<close>

lemma determined_sample:
  assumes "never_fails env" and "quiet m"
  shows "determined (bindC m (\<lambda>own. bindC (aggregateObservation env boot fl comm own) (\<lambda>aggregate. returnC (point aggregate))))
    (\<lambda>gs y. \<exists>g. gs = [g] \<and> y = point (aggregateAll fl (observationsOf g)))"
  by (rule determined_after [OF assms(2)], rule determined_bind [OF determined_aggregate [OF assms(1)]])
    (auto intro: determined_return)

lemma determined_profileP2p:
  assumes "never_fails env"
  shows "determined (profileP2p env boot fl cfg comm interNode sizes) (\<lambda>gs model. length gs = length sizes \<and> model = p2pModel fl sizes gs)"
  unfolding profileP2p_def Let_def p2pModel_def
  by (intro determined_after [OF quiet_CUDACHECK [OF assms]] determined_withHandle [OF assms])
    (rule determined_bind [OF determined_collect [OF determined_sample [OF assms quiet_observeP2p [OF assms]]]],
     auto intro: determined_return)

section \<open>Compressor runs\<close>

text \<open>A compressor run touches only the part of the world it knows.\<close>

lemma more_callApi: "compressor_world.more (snd (callApi env c w)) = compressor_world.more w"
  by (simp add: callApi_def)

lemma more_hostApi:
  assumes "hostApi env request (e, w) = (reply, e', w')"
  shows "compressor_world.more w' = compressor_world.more w"
  using assms
  by (cases request)
    (auto simp: hostApi_def allocateScratch_def acquirePersistent_def getOrCreateState_def callApi_def Let_def putResources_def
      split: if_splits)

lemma more_runPlugin: "runPlugin env run (e, w) = (r, e', w') \<Longrightarrow> compressor_world.more w' = compressor_world.more w"
proof (induction run arbitrary: e w)
  case (PluginRequest request nxt)
  obtain reply e1 w1 where h: "hostApi env request (e, w) = (reply, e1, w1)" by (metis prod_cases3)
  with PluginRequest show ?case by (metis more_hostApi prod.case rangeI runPlugin.simps(2))
qed simp

lemma more_freeScratch: "freeScratch env strm ps result w = (r, w') \<Longrightarrow> compressor_world.more w' = compressor_world.more w"
  by (induction ps arbitrary: result w) (auto simp: callApi_def Let_def)

lemma more_executePolicy: "compressor_world.more (snd (executePolicy env policy call rnk strm w)) = compressor_world.more w"
  unfolding executePolicy_def
  by (auto simp: Let_def callApi_def putResources_def dest!: more_runPlugin more_freeScratch split: prod.splits option.splits)

lemma more_execute:
  "cocclExecuteCompressor env compressor oper inp out rnk chunks dtype elems strm w = (r, w') \<Longrightarrow>
   compressor_world.more w' = compressor_world.more w"
  using more_executePolicy [of env compressor]
  by (auto simp: cocclExecuteCompressor_def Let_def callApi_def split_beta split: if_splits option.splits) (metis more_callApi callApi_def snd_conv)+

lemma more_compress:
  "withoutPools (ncclCompress env compressor inp out rnk strm) w = (r, w') \<Longrightarrow> compressor_world.more w' = compressor_world.more w"
  "withoutPools (ncclDecompress env compressor inp out strm) w = (r, w') \<Longrightarrow> compressor_world.more w' = compressor_world.more w"
  by (auto simp: withoutPools_def ncclCompress_def ncclDecompress_def overPools_def Let_def callApi_def
      dest!: more_execute split: prod.splits if_splits)

lemma more_iteration:
  "runCompressorIteration env comm compressor raw encoded bytes capacity strm metadata n w = (r, w') \<Longrightarrow>
   compressor_world.more w' = compressor_world.more w"
  by (auto simp: runCompressorIteration_def Let_def dest!: more_compress split: prod.splits if_splits)

lemma more_succeeded:
  "succeeded env c w = (b, w') \<Longrightarrow> compressor_world.more w' = compressor_world.more w"
  by (auto simp: succeeded_def callApi_def)

lemma more_andThen:
  "andThen (succeeded env c) (succeeded env d) w = (b, w') \<Longrightarrow> compressor_world.more w' = compressor_world.more w"
  by (auto simp: andThen_def dest!: more_succeeded split: prod.splits if_splits)

text \<open>The loops, for an iteration that keeps the rest of the world.\<close>

lemma more_warmRuns:
  assumes "\<And>n w r w'. iter n w = (r, w') \<Longrightarrow> compressor_world.more w' = compressor_world.more w"
  shows "warmRuns env clear iter k st w = (st', w') \<Longrightarrow> compressor_world.more w' = compressor_world.more w"
  by (induction k arbitrary: st w) (auto simp: Let_def dest!: more_succeeded assms split: prod.splits if_splits)

lemma more_timedRuns:
  assumes "\<And>n w r w'. iter n w = (r, w') \<Longrightarrow> compressor_world.more w' = compressor_world.more w"
  shows "timedRuns env fl clear start stop strm iter k st w = (st', w') \<Longrightarrow> compressor_world.more w' = compressor_world.more w"
proof (induction k arbitrary: st w)
  case (Suc k)
  obtain b1 w1 where 1: "andThen (succeeded env clear) (succeeded env (Cuda (cudaEventRecord start strm))) w = (b1, w1)" by fastforce
  obtain fine n w2 where 2: "iter (runBytes st) w1 = ((fine, n), w2)" by (metis prod.collapse)
  obtain b3 w3 where 3: "andThen (succeeded env (Cuda (cudaEventRecord stop strm))) (succeeded env (Cuda (cudaEventSynchronize stop))) w2 = (b3, w3)"
    by fastforce
  have m: "compressor_world.more w1 = compressor_world.more w" "compressor_world.more w2 = compressor_world.more w1"
    "compressor_world.more w3 = compressor_world.more w2" by (rule more_andThen [OF 1] assms [OF 2] more_andThen [OF 3])+
  show ?case
    using Suc.prems m
    by (auto simp: 1 2 3 Let_def callApi_def dest!: Suc.IH split: if_splits)
qed simp

lemma more_runs:
  "warmRuns env clear (runCompressorIteration env comm compressor raw encoded bytes capacity strm metadata) k st w = (st', w') \<Longrightarrow>
   compressor_world.more w' = compressor_world.more w"
  "timedRuns env fl clear start stop strm (runCompressorIteration env comm compressor raw encoded bytes capacity strm metadata) k st w =
     (st', w') \<Longrightarrow> compressor_world.more w' = compressor_world.more w"
  by (rule more_warmRuns more_timedRuns; blast intro: more_iteration)+

lemma more_observe:
  "observeCompressor env mem fl cfg comm compressor isFramed raw encoded dev host capacity strm start stop bytes w = (r, w') \<Longrightarrow>
   compressor_world.more w' = compressor_world.more w"
  by (auto simp: observeCompressor_def readFrame_def Let_def dest!: more_runs more_succeeded split: prod.splits if_splits)

text \<open>Group state, models and received data are in the rest.\<close>

lemma more_fields:
  assumes "compressor_world.more w' = compressor_world.more w"
  shows "idle w' = idle w" "performance w' = performance w" "gathered w' = gathered w"
  using assms by (cases w; cases w'; simp add: idle_def)+

lemma quiet_lift:
  fixes f :: "'w profile_world_scheme \<Rightarrow> 'a \<times> 'w profile_world_scheme"
  assumes "\<And>w r w'. f w = (r, w') \<Longrightarrow> compressor_world.more w' = compressor_world.more w"
  shows "quiet (\<lambda>w. case f w of (own, w1) \<Rightarrow> (Inr own, w1))"
proof (rule determinedI)
  fix w :: "'w profile_world_scheme" assume "idle w"
  obtain r w' where run: "f w = (r, w')" by fastforce
  from more_fields [OF assms [OF this]] \<open>idle w\<close> run
  show "\<exists>x w' gs. (case f w of (own, w1) \<Rightarrow> (Inr own, w1)) = (Inr x, w') \<and> idle w' \<and> performance w' = performance w \<and>
      gathered w' = gathered w @ gs \<and> gs = []" by simp
qed

lemmas quiet_observeCompressor = quiet_lift [OF more_observe]

lemma determined_whenFramed:
  "never_fails env \<Longrightarrow> (\<And>h. determined (body h) P) \<Longrightarrow> determined (whenFramed isFramed env create destroy body) P"
  by (simp add: whenFramed_def determined_withHandle)

lemma determined_profileCompressor:
  assumes "never_fails env"
  shows "determined (profileCompressor env boot mem fl cfg comm compressor sizes)
    (\<lambda>gs model. length gs = length sizes \<and> model = codecModel fl sizes gs)"
  unfolding profileCompressor_def codecModel_def
  by (intro determined_after [OF determined_get] determined_after [OF quiet_CUDACHECK [OF assms]] determined_withHandle [OF assms]
      determined_whenFramed [OF assms])
    (rule determined_bind [OF determined_collect [OF determined_sample [OF assms quiet_observeCompressor]]],
     auto intro: determined_return)

section \<open>The profiler\<close>

text \<open>A step that publishes: it turns the models and the all-gathers it takes into new models.\<close>

definition steps :: "('w profile_world_scheme, unit) comp \<Rightarrow> profile_step \<Rightarrow> bool" where
  "steps m T \<longleftrightarrow> (\<forall>w. idle w \<longrightarrow> (\<exists>w' gs. m w = (Inr (), w') \<and> idle w' \<and> gathered w' = gathered w @ gs \<and>
     (\<forall>rest. T (performance w, gs @ rest) = (performance w', rest))))"

lemma steps_return: "steps (returnC ()) (\<lambda>st. st)"
  by (simp add: steps_def)

lemma steps_bind:
  fixes m :: "('w profile_world_scheme, unit) comp"
  assumes "steps m T" and "steps n U"
  shows "steps (bindC m (\<lambda>_. n)) (\<lambda>st. U (T st))"
  unfolding steps_def
proof (intro allI impI)
  fix w :: "'w profile_world_scheme" assume "idle w"
  with assms(1) obtain w1 gs where 1: "m w = (Inr (), w1)" "idle w1" "gathered w1 = gathered w @ gs"
    "\<forall>rest. T (performance w, gs @ rest) = (performance w1, rest)" unfolding steps_def by blast
  with assms(2) obtain w2 gs2 where 2: "n w1 = (Inr (), w2)" "idle w2" "gathered w2 = gathered w1 @ gs2"
    "\<forall>rest. U (performance w1, gs2 @ rest) = (performance w2, rest)" unfolding steps_def by blast
  show "\<exists>w' gs. bindC m (\<lambda>_. n) w = (Inr (), w') \<and> idle w' \<and> gathered w' = gathered w @ gs \<and>
      (\<forall>rest. U (T (performance w, gs @ rest)) = (performance w', rest))"
    using 1 2 by (intro exI [of _ w2] exI [of _ "gs @ gs2"]) (simp add: bindC_def)
qed

lemma steps_if: "steps m T \<Longrightarrow> steps (if b then m else returnC ()) (\<lambda>st. if b then T st else st)"
  by (simp add: steps_return)

lemma steps_for: "(\<And>x. steps (f x) (T x)) \<Longrightarrow> steps (forC xs f) (fold T xs)"
proof (induction xs)
  case (Cons x xs)
  then show ?case using steps_bind [of "f x" "T x" "forC xs f" "fold T xs"] by (simp add: comp_def)
qed (simp add: steps_return id_def)

lemma steps_publish:
  fixes m :: "('w profile_world_scheme, 'a) comp"
  assumes "determined m (\<lambda>gs model. length gs = n \<and> model = f gs)"
  shows "steps (publishIf m publish) (consumeGathers n f publish)"
  unfolding steps_def
proof (intro allI impI)
  fix w :: "'w profile_world_scheme" assume "idle w"
  with assms obtain x w1 gs where "m w = (Inr x, w1)" "idle w1" "performance w1 = performance w" "gathered w1 = gathered w @ gs"
    "length gs = n \<and> x = f gs" by (rule determinedE)
  then show "\<exists>w' gs. publishIf m publish w = (Inr (), w') \<and> idle w' \<and> gathered w' = gathered w @ gs \<and>
      (\<forall>rest. consumeGathers n f publish (performance w, gs @ rest) = (performance w', rest))"
    by (auto simp: publishIf_def updatePerformance_def consumeGathers_def idle_def)
qed

lemma steps_items:
  assumes "\<And>items. steps (f items) (T items)"
  shows "steps (bindC (getC (enabledCompressors \<circ> performance)) f) (\<lambda>st. T (enabledCompressors (fst st)) st)"
  using assms by (fastforce simp: steps_def bindC_def)

lemma steps_profiles:
  assumes "never_fails env"
  shows "steps (runProfiles env boot mem fl cfg comm sizes needs) (profileAll fl sizes needs)"
proof -
  let ?n = "length sizes"
  note p2p = steps_if [OF steps_publish [OF determined_profileP2p [OF assms]]]
  note codec = steps_if [OF steps_items [OF steps_for [OF steps_publish [OF determined_profileCompressor [OF assms]]]]]
  have eq: "profileAll fl sizes needs = (\<lambda>st.
     (\<lambda>st. if needs AND cocclProfileNeedCompressors \<noteq> 0
       then fold (\<lambda>item. consumeGathers ?n (codecModel fl sizes) (publishCompressorModel (profiledCompressor item)))
              (enabledCompressors (fst st)) st else st)
     ((\<lambda>st. if needs AND cocclProfileNeedInter \<noteq> 0 then consumeGathers ?n (p2pModel fl sizes) (publishP2pModel True) st else st)
      ((\<lambda>st. if needs AND cocclProfileNeedIntra \<noteq> 0 then consumeGathers ?n (p2pModel fl sizes) (publishP2pModel False) st else st) st)))"
    by (rule ext) (simp only: profileAll_def Let_def)
  show ?thesis unfolding eq runProfiles_def bindC_assoc [symmetric] by (rule steps_bind [OF steps_bind [OF p2p p2p] codec])
qed

text \<open>The run of the profiler on a rank where no call fails.\<close>

lemma ensure_models:
  fixes w :: "'w profile_world_scheme"
  assumes env: "never_fails env" and cfg: "valid_autotune cfg" and w: "idle w"
  shows "\<exists>w' gs. cocclAutotuneEnsureGlobalModels env boot mem fl cfg comm w = (Inr (), w') \<and>
    gathered w' = gathered w @ gs \<and> performance w' = modelsFrom fl cfg (performance w) gs"
proof (cases "autotuneEnabled cfg \<and> localProfileNeeds comm (performance w) \<noteq> 0")
  case False
  then show ?thesis by (auto simp: cocclAutotuneEnsureGlobalModels_def modelsFrom_def bindC_def)
next
  case True
  let ?local = "localProfileNeeds comm (performance w)"
  obtain allNeeds w1 where g1: "allGather env comm 4 (peerNeeds boot) GatherNeeds ?local w = (Inr allNeeds, w1)" "idle w1"
      "performance w1 = performance w" "gathered w1 = gathered w @ [GatherNeeds allNeeds]"
    using determinedE [OF determined_allGather [OF env] w] by metis
  let ?needs = "foldl (OR) 0 allNeeds"
  show ?thesis
  proof (cases "?needs = 0")
    case zero: True
    with True g1 show ?thesis
      by (auto simp: cocclAutotuneEnsureGlobalModels_def collectiveProfileNeeds_def modelsFrom_def bindC_def)
  next
    case False
    let ?w2 = "w1\<lparr>performance := (performance w1)\<lparr>attemptedProfiles := attemptedProfiles (performance w1) OR ?needs\<rparr>\<rparr>"
    have i2: "idle ?w2" using g1(2) by (simp add: idle_def)
    obtain free w3 where g3: "CUDACHECK env (CudaMemory cudaMemGetInfo) ?w2 = (Inr free, w3)" "idle w3"
        "performance w3 = performance ?w2" "gathered w3 = gathered ?w2"
      using determinedE [OF quiet_CUDACHECK [OF env] i2] by (metis append_Nil2)
    obtain allMax w4 where g4: "allGather env comm 8 (peerBytes boot) GatherBytes (min (profileMaxBytes cfg) (free div 4)) w3 = (Inr allMax, w4)"
        "idle w4" "performance w4 = performance w3" "gathered w4 = gathered w3 @ [GatherBytes allMax]"
      using determinedE [OF determined_allGather [OF env] g3(2)] by metis
    obtain sizes where sizes: "sampleSizes (profileMinBytes cfg) (foldl min (profileMaxBytes cfg) allMax) = Some sizes"
      using sampleSizes_total [of "profileMinBytes cfg"] cfg unfolding valid_autotune_def by blast
    have run: "cocclAutotuneEnsureGlobalModels env boot mem fl cfg comm w =
       (if length sizes < 2 then returnC () else runProfiles env boot mem fl cfg comm sizes ?needs) w4"
      using True False g1(1) g3(1) g4(1) sizes
      by (simp add: cocclAutotuneEnsureGlobalModels_def collectiveProfileNeeds_def markProfilesAttempted_def updatePerformance_def
          buildSampleSizes_def fromOption_def bindC_Inr_run)
    show ?thesis
    proof (cases "length sizes < 2")
      case short: True
      with run g1 g3 g4 sizes False show ?thesis by (simp add: modelsFrom_def)
    next
      case long: False
      obtain w5 gs where w5: "gathered w5 = gathered w4 @ gs" "\<forall>rest. profileAll fl sizes ?needs (performance w4, gs @ rest) = (performance w5, rest)"
        and "cocclAutotuneEnsureGlobalModels env boot mem fl cfg comm w = (Inr (), w5)"
        using steps_profiles [OF env, of boot mem fl cfg comm sizes ?needs] g4(2) run long unfolding steps_def by auto
      moreover have "profileAll fl sizes ?needs (performance w4, gs) = (performance w5, [])" using w5(2) by (metis append_Nil2)
      ultimately show ?thesis
        using g1 g3 g4 sizes False long
        by (intro exI [of _ w5] exI [of _ "GatherNeeds allNeeds # GatherBytes allMax # gs"]) (simp add: modelsFrom_def Let_def)
    qed
  qed
qed

text \<open>On the thread of the initialisation, whatever the caller is doing.\<close>

lemma ensureGlobalModels_run:
  assumes "never_fails (apiEnv R)" and "valid_autotune (autotuneConfig (cocclGetConfig R))"
  shows "\<exists>w' gs. ensureGlobalModels R comm w = (Inr (), w') \<and> gathered w' = gathered w @ gs \<and>
    performance w' = modelsFrom (roundDouble R) (autotuneConfig (cocclGetConfig R)) (performance w) gs"
proof -
  let ?w = "w\<lparr>callerGuardActive := False, ncclGroupDepth := 0, ncclGroupError := ncclSuccess\<rparr>"
  have "idle ?w" by (simp add: idle_def)
  from ensure_models [OF assms this, of "bootstrapEnv R" "metadataEnv R" "roundDouble R" comm] show ?thesis
    by (auto simp: ensureGlobalModels_def onJobThread_def)
qed

text \<open>
  C30: the ranks of a communicator publish the same models. When no call of CUDA or of the core fails
  on either rank, both have the same valid configuration and started from the same models, and the
  all-gathers gave both the same data, then profiling ends without an error on both and leaves the same
  models, however different timings, topology, plugins and contributions of the two ranks are.
\<close>

theorem profiled_models_agree:
  assumes "never_fails (apiEnv Ra)" and "never_fails (apiEnv Rb)"
    and "autotuneConfig (cocclGetConfig Ra) = cfg" and "autotuneConfig (cocclGetConfig Rb) = cfg" and "valid_autotune cfg"
    and "roundDouble Ra = roundDouble Rb"
    and "ensureGlobalModels Ra comma wa = (ra, wa')" and "ensureGlobalModels Rb commb wb = (rb, wb')"
    and "performance wa = performance wb" and "gathered wa = gathered wb" and "gathered wa' = gathered wb'"
  shows "ra = Inr () \<and> rb = Inr () \<and> performance wa' = performance wb'"
  using ensureGlobalModels_run [of Ra comma wa] ensureGlobalModels_run [of Rb commb wb] assms by auto

text \<open>
  Two ranks of a node on the same device model. The compressors were profiled before; both ranks time the
  exchange between them at two sizes, send each other what they measured and fit the model.
\<close>

definition measuredUs :: cocclProfileObservation where
  "measuredUs = \<lparr>timeUs = Fin 8388608000, observedRatio = Fin 0, obsActive = True, obsValid = True\<rparr>"

definition profileConfig :: cocclAutotuneConfig where
  "profileConfig = defaultAutotuneConfig\<lparr>profileMinBytes := 8, profileMaxBytes := 16, warmup := 0, iterations := 1\<rparr>"

definition profileEnv :: runtime_env where
  "profileEnv = \<lparr>apiEnv = (\<lambda>i c. \<lparr>status = ncclSuccess, outValue = (case c of Cuda (cudaEventElapsedTime a b) \<Rightarrow> 1258291200 | _ \<Rightarrow> 64)\<rparr>),
     memoryEnv = (\<lambda>i p n. \<lparr>payloadBytes = 0, encoding = 0, reserved = 0\<rparr>),
     metadataEnv = (\<lambda>i p. \<lparr>payloadBytes = 0, encoding = 0, reserved = 0\<rparr>), hostAddress = (\<lambda>i. 0), commAt = (\<lambda>p. exampleDeviceComm),
     roundDouble = Fin, roundExtended = Fin, clockNs = (\<lambda>_. 0), publishedConfig = Some (defaultConfig\<lparr>autotuneConfig := profileConfig\<rparr>),
     loader = (\<lambda>_. None),
     bootstrapEnv = \<lparr>peerNeeds = (\<lambda>_ _. 1), peerBytes = (\<lambda>_ _. 16), peerObservation = (\<lambda>_ _. measuredUs)\<rparr>\<rparr>"

definition profileState :: runtime_world where
  "profileState = profile_world.extend (pipeline_world.extend (native_world.extend exampleNative \<lparr>resourcesByComm = Map.empty\<rparr>)
     \<lparr>performance = emptyPerformanceModel\<lparr>attemptedProfiles := 4,
        enabledCompressors := [\<lparr>profiledCompressor = 1, profiledPolicy = cocclDefaultPolicy AllReduce ScopeDefault\<rparr>]\<rparr>,
      gathered = []\<rparr>) \<lparr>trainingState = initialTraining\<rparr>"

text \<open>What a step of this run returns and gathers, from any idle state.\<close>

definition emits :: "('w profile_world_scheme, 'a) comp \<Rightarrow> 'a \<Rightarrow> gather list \<Rightarrow> bool" where
  "emits m x gs \<longleftrightarrow> (\<forall>w. idle w \<longrightarrow> (\<exists>w'. m w = (Inr x, w') \<and> idle w' \<and> gathered w' = gathered w @ gs))"

lemma emits_return: "emits (returnC x) x []"
  by (simp add: emits_def)

lemma emits_bind:
  fixes m :: "('w profile_world_scheme, 'a) comp"
  assumes "emits m x gs" and "emits (f x) y hs"
  shows "emits (bindC m f) y (gs @ hs)"
  unfolding emits_def
proof (intro allI impI)
  fix w :: "'w profile_world_scheme" assume "idle w"
  with assms(1) obtain w1 where "m w = (Inr x, w1)" "idle w1" "gathered w1 = gathered w @ gs" unfolding emits_def by blast
  with assms(2) show "\<exists>w'. bindC m f w = (Inr y, w') \<and> idle w' \<and> gathered w' = gathered w @ gs @ hs"
    unfolding emits_def by (fastforce simp: bindC_def)
qed

lemma emits_quiet: "emits m x [] \<Longrightarrow> emits (f x) y hs \<Longrightarrow> emits (bindC m f) y hs"
  using emits_bind [of m x "[]"] by simp

lemma emits_collect:
  assumes "\<And>x. emits (f x) (h x) [g]"
  shows "\<exists>ys. emits (collectC xs f) ys (replicate (length xs) g)"
proof (induction xs)
  case (Cons x xs)
  then obtain ys where "emits (collectC xs f) ys (replicate (length xs) g)" by blast
  then have "\<exists>ys. emits (collectC (x # xs) f) ys ([g] @ replicate (length xs) g @ [])"
    unfolding collectC.simps by (intro exI) (rule emits_bind [OF assms emits_bind [OF _ emits_return]])
  then show ?case by simp
next
  case Nil
  show ?case unfolding collectC.simps list.size replicate_0 by (rule exI) (rule emits_return)
qed

abbreviation (input) profileApi :: api_env where
  "profileApi \<equiv> apiEnv profileEnv"

lemma profile_never_fails: "never_fails profileApi"
  by (simp add: never_fails_def profileEnv_def)

lemma emits_exchange: "emits (checkR (enqueueP2pExchange profileApi comm s r bytes p q strm)) () []"
  using quiet_exchange [OF profile_never_fails, of comm s r bytes p q strm] unfolding determined_def emits_def by force

lemma emits_call: "emits (CUDACHECK profileApi c) (outValue (profileApi 0 c)) []"
  by (simp add: emits_def CUDACHECK_def callApi_def profileEnv_def idle_def)

lemma emits_gather:
  assumes "nRanks comm = 2" and "rank comm \<in> {0, 1}" and "\<And>n r. peers n r = own"
  shows "emits (allGather profileApi comm bytes peers wrap own) [own, own] [wrap [own, own]]"
  using assms
  by (simp add: emits_def allGather_def bindC_def NCCLCHECK_def callApi_def profileEnv_def nccl_ok_def idle_def numeral_2_eq_2)

lemma emits_withHandle:
  fixes body :: "ptr \<Rightarrow> ('w profile_world_scheme, 'a) comp"
  assumes "emits (body (outValue (profileApi 0 create))) x gs"
  shows "emits (withHandle profileApi create destroy body) x gs"
  unfolding emits_def
proof (intro allI impI)
  fix w :: "'w profile_world_scheme" assume "idle w"
  with emits_call [of create] obtain w1 where
    1: "CUDACHECK profileApi create w = (Inr (outValue (profileApi 0 create)), w1)" "idle w1" "gathered w1 = gathered w"
    unfolding emits_def by (metis append_Nil2)
  with assms obtain w2 where "body (outValue (profileApi 0 create)) w1 = (Inr x, w2)" "idle w2" "gathered w2 = gathered w1 @ gs"
    unfolding emits_def by blast
  with 1 show "\<exists>w'. withHandle profileApi create destroy body w = (Inr x, w') \<and> idle w' \<and> gathered w' = gathered w @ gs"
    by (simp add: withHandle_def callApi_def idle_def)
qed

lemma measured_value: "elapsedUs Fin 1258291200 = Fin 8388608000"
  by code_simp

lemma emits_observe: "emits (observeP2p profileApi Fin profileConfig comm (Some (p, q)) s r strm start stop bytes) measuredUs []"
proof -
  have timed: "emits (timedExchange profileApi Fin start stop strm (checkR (enqueueP2pExchange profileApi comm s r bytes p q strm)))
      (Fin 8388608000) []"
    unfolding timedExchange_def measured_value [symmetric]
    by (intro emits_quiet [OF emits_call] emits_quiet [OF emits_exchange]) (simp add: profileEnv_def emits_return)
  have once: "emits (repeatC 1 m) [v] []" if "emits m v []" for m :: "('w profile_world_scheme, double) comp" and v
    using emits_quiet [OF that emits_quiet [OF emits_return emits_return]] by simp
  have final: "measuredUs = emptyObservation\<lparr>obsActive := True, timeUs := median Fin [Fin 8388608000],
      obsValid := dlt (Fin 0) (median Fin [Fin 8388608000])\<rparr>" by code_simp
  have cfg: "nat (warmup profileConfig) = 0" "nat (iterations profileConfig) = 1" by (simp_all add: profileConfig_def)
  show ?thesis
    unfolding observeP2p_def option.case prod.case Let_def cfg repeatC.simps(1) final
    by (rule emits_quiet [OF emits_return] emits_quiet [OF emits_call] emits_quiet [OF once [OF timed]] emits_return)+
qed

definition profilePeer :: "int \<Rightarrow> ncclComm" where
  "profilePeer r = exampleDeviceComm\<lparr>rank := r, localRank := r\<rparr>"

lemma profilePeer_fields:
  "nRanks (profilePeer r) = 2" "rank (profilePeer r) = r"
  "topologyPeers (profilePeer r) False = Some ((r + 1) mod 2, (r + 1) mod 2)"
  by (simp_all add: profilePeer_def exampleDeviceComm_def topologyPeers_def add.commute)

lemma emits_then: "emits m x gs \<Longrightarrow> emits (bindC m (\<lambda>a. returnC (k a))) (k x) gs"
  by (subst append_Nil2 [of gs, symmetric]) (rule emits_bind [OF _ emits_return])

lemma emits_step: "emits m x gs \<Longrightarrow> emits (f x) y hs \<Longrightarrow> ks = gs @ hs \<Longrightarrow> emits (bindC m f) y ks"
  by (simp add: emits_bind)

lemma emits_some: "\<exists>x. emits m x gs \<Longrightarrow> \<exists>y. emits (bindC m (\<lambda>a. returnC (k a))) y gs"
  by (blast intro: emits_then)

lemma emits_sample:
  assumes "r \<in> {0, 1}"
  shows "emits (bindC (observeP2p profileApi Fin profileConfig (profilePeer r) (topologyPeers (profilePeer r) False) s q strm start stop bytes) (\<lambda>own.
      bindC (aggregateObservation profileApi (bootstrapEnv profileEnv) Fin (profilePeer r) own) (\<lambda>aggregate.
      returnC (p2pPoint Fin bytes aggregate)))) (p2pPoint Fin bytes (aggregateAll Fin [measuredUs, measuredUs]))
    [GatherObservations [measuredUs, measuredUs]]"
proof -
  have "peerObservation (bootstrapEnv profileEnv) n i = measuredUs" for n i by (simp add: profileEnv_def)
  then have "emits (aggregateObservation profileApi (bootstrapEnv profileEnv) Fin (profilePeer r) measuredUs)
      (aggregateAll Fin [measuredUs, measuredUs]) [GatherObservations [measuredUs, measuredUs]]"
    unfolding aggregateObservation_def using assms by (intro emits_then emits_gather) (simp_all add: profilePeer_fields)
  then show ?thesis unfolding profilePeer_fields by (intro emits_quiet [OF emits_observe] emits_then)
qed

lemma emits_p2p:
  assumes "r \<in> {0, 1}"
  shows "\<exists>model. emits (profileP2p profileApi (bootstrapEnv profileEnv) Fin profileConfig (profilePeer r) False [8, 16]) model
    [GatherObservations [measuredUs, measuredUs], GatherObservations [measuredUs, measuredUs]]"
proof -
  have after: "\<exists>y. emits (f x) y hs \<Longrightarrow> emits m x [] \<Longrightarrow> \<exists>y. emits (bindC m f) y hs"
    for f :: "ptr \<Rightarrow> ('w profile_world_scheme, 'b) comp" and m x hs by (blast intro: emits_quiet)
  have handle: "\<exists>y. emits (body (outValue (profileApi 0 create))) y hs \<Longrightarrow> \<exists>y. emits (withHandle profileApi create destroy body) y hs"
    for body :: "ptr \<Rightarrow> ('w profile_world_scheme, 'b) comp" and create destroy hs by (blast intro: emits_withHandle)
  have "\<exists>model. emits (bindC (collectC [8, 16] (\<lambda>bytes.
      bindC (observeP2p profileApi Fin profileConfig (profilePeer r) (topologyPeers (profilePeer r) False) s q strm start stop bytes) (\<lambda>own.
      bindC (aggregateObservation profileApi (bootstrapEnv profileEnv) Fin (profilePeer r) own) (\<lambda>aggregate.
      returnC (p2pPoint Fin bytes aggregate))))) (\<lambda>points. returnC (cocclAutotuneFitLinearModel Fin points))) model
      (replicate (length [8, 16 :: size_t]) (GatherObservations [measuredUs, measuredUs]))"
    for s q strm start stop by (rule emits_some, rule emits_collect, rule emits_sample [OF assms])
  then show ?thesis
    unfolding profileP2p_def Let_def by (intro after [OF _ emits_call] handle) (simp add: numeral_2_eq_2)
qed

lemma emits_update: "emits (updatePerformance f) () []"
  by (simp add: emits_def updatePerformance_def idle_def)

lemma emits_publish: "emits m x gs \<Longrightarrow> emits (publishIf m publish) () gs"
  unfolding emits_def by (fastforce simp: publishIf_def updatePerformance_def idle_def)

lemma emits_profiles:
  assumes "r \<in> {0, 1}"
  shows "emits (runProfiles profileApi (bootstrapEnv profileEnv) mem Fin profileConfig (profilePeer r) [8, 16] 1 ::
      ('w profile_world_scheme, unit) comp) ()
    [GatherObservations [measuredUs, measuredUs], GatherObservations [measuredUs, measuredUs]]"
proof -
  obtain model where m: "emits (profileP2p profileApi (bootstrapEnv profileEnv) Fin profileConfig (profilePeer r) False [8, 16] ::
      ('w profile_world_scheme, cocclLinearModel) comp) model
    [GatherObservations [measuredUs, measuredUs], GatherObservations [measuredUs, measuredUs]]" using emits_p2p [OF assms] by blast
  have p: "(runProfiles profileApi (bootstrapEnv profileEnv) mem Fin profileConfig (profilePeer r) [8, 16] 1 ::
      ('w profile_world_scheme, unit) comp) =
      bindC (publishIf (profileP2p profileApi (bootstrapEnv profileEnv) Fin profileConfig (profilePeer r) False [8, 16]) (publishP2pModel False))
        (\<lambda>_. returnC ())"
    by (simp add: runProfiles_def cocclProfileNeedIntra_def cocclProfileNeedInter_def cocclProfileNeedCompressors_def)
      (intro arg_cong [where f = "bindC _"] ext, simp)
  show ?thesis unfolding p by (rule emits_then [OF emits_publish [OF m], where k = "\<lambda>_. ()"])
qed

lemma emits_sizes:
  assumes "r \<in> {0, 1}"
  shows "emits (buildSampleSizes profileApi (bootstrapEnv profileEnv) profileConfig (profilePeer r)) [8, 16] [GatherBytes [16, 16]]"
proof -
  have sizes: "liftE (fromOption ncclNumResults (sampleSizes (profileMinBytes profileConfig) (foldl min (profileMaxBytes profileConfig) [16, 16]))) =
      returnC [8, 16]" by (simp add: profileConfig_def sampleSizes_def sampleLoop.simps fromOption_def liftE_def fun_eq_iff)
  have own: "min (profileMaxBytes profileConfig) (outValue (profileApi 0 (CudaMemory cudaMemGetInfo)) div 4) = 16"
    by (simp add: profileConfig_def profileEnv_def)
  have gather: "emits (allGather profileApi (profilePeer r) 8 (peerBytes (bootstrapEnv profileEnv)) GatherBytes 16) [16, 16] [GatherBytes [16, 16]]"
    using assms by (intro emits_gather) (simp_all add: profilePeer_fields, simp add: profileEnv_def)
  have "emits (buildSampleSizes profileApi (bootstrapEnv profileEnv) profileConfig (profilePeer r)) [8, 16] ([GatherBytes [16, 16]] @ [])"
    unfolding buildSampleSizes_def
    by (rule emits_quiet [OF emits_call], unfold own, rule emits_bind [OF gather], unfold sizes, rule emits_return)
  then show ?thesis by simp
qed

lemma emits_needs:
  assumes "r \<in> {0, 1}"
  shows "emits (collectiveProfileNeeds profileApi (bootstrapEnv profileEnv) (profilePeer r) 1) 1 [GatherNeeds [1, 1]]"
proof -
  have "emits (allGather profileApi (profilePeer r) 4 (peerNeeds (bootstrapEnv profileEnv)) GatherNeeds 1) [1, 1] [GatherNeeds [1, 1]]"
    using assms by (intro emits_gather) (simp_all add: profilePeer_fields, simp add: profileEnv_def)
  from emits_then [OF this, of "foldl (OR) 0"] show ?thesis unfolding collectiveProfileNeeds_def by simp
qed

definition profileGathers :: "gather list" where
  "profileGathers = [GatherNeeds [1, 1], GatherBytes [16, 16], GatherObservations [measuredUs, measuredUs],
     GatherObservations [measuredUs, measuredUs]]"

lemma profile_example:
  assumes "r \<in> {0, 1}" and "ensureGlobalModels profileEnv (profilePeer r) profileState = (x, w)"
  shows "gathered w = profileGathers"
proof -
  let ?w0 = "profileState\<lparr>callerGuardActive := False, ncclGroupDepth := 0, ncclGroupError := ncclSuccess\<rparr>"
  have sized: "emits (bindC (buildSampleSizes profileApi (bootstrapEnv profileEnv) profileConfig (profilePeer r)) (\<lambda>sizes.
      if length sizes < 2 then returnC ()
      else runProfiles profileApi (bootstrapEnv profileEnv) (metadataEnv profileEnv) Fin profileConfig (profilePeer r) sizes 1)) ()
      (drop 1 profileGathers)"
    by (rule emits_step [OF emits_sizes [OF assms(1)]]) (use emits_profiles [OF assms(1)] in \<open>simp_all add: profileGathers_def\<close>)
  have run: "emits (bindC (collectiveProfileNeeds profileApi (bootstrapEnv profileEnv) (profilePeer r) 1) (\<lambda>needs.
      if needs = 0 then returnC ()
      else bindC (markProfilesAttempted needs) (\<lambda>_.
           bindC (buildSampleSizes profileApi (bootstrapEnv profileEnv) profileConfig (profilePeer r)) (\<lambda>sizes.
           if length sizes < 2 then returnC ()
           else runProfiles profileApi (bootstrapEnv profileEnv) (metadataEnv profileEnv) Fin profileConfig (profilePeer r) sizes needs))))
      () profileGathers" (is "emits ?m () _")
    by (rule emits_step [OF emits_needs [OF assms(1)]], subst if_not_P, simp, unfold markProfilesAttempted_def,
        rule emits_quiet, rule emits_update, rule sized) (simp add: profileGathers_def)
  have "idle ?w0" by (simp add: idle_def)
  with run obtain w1 where w1: "?m ?w0 = (Inr (), w1)" "gathered w1 = gathered ?w0 @ profileGathers" unfolding emits_def by blast
  have needs: "localProfileNeeds (profilePeer r) (performance profileState) = 1"
    by (simp add: localProfileNeeds_def profilePeer_def exampleDeviceComm_def profileState_def profile_world.defs pipeline_world.defs
        native_world.defs cocclProfileNeedIntra_def cocclProfileNeedInter_def cocclProfileNeedCompressors_def)
  have env: "autotuneConfig (cocclGetConfig profileEnv) = profileConfig" "roundDouble profileEnv = Fin"
    by (simp_all add: cocclGetConfig_def profileEnv_def)
  have "autotuneEnabled profileConfig" by (simp add: profileConfig_def defaultAutotuneConfig_def)
  then have "cocclAutotuneEnsureGlobalModels profileApi (bootstrapEnv profileEnv) (metadataEnv profileEnv) Fin profileConfig (profilePeer r) ?w0 =
      ?m ?w0"
    unfolding cocclAutotuneEnsureGlobalModels_def by (subst if_not_P, simp, subst bindC_Inr_run [of _ _ 1 ?w0]) (simp_all add: needs)
  moreover have "gathered profileState = []" by (simp add: profileState_def profile_world.defs pipeline_world.defs)
  ultimately show ?thesis using assms(2) w1 by (auto simp: ensureGlobalModels_def onJobThread_def env)
qed

theorem profiled_models_agree_witness:
  "\<exists>wa wb. ensureGlobalModels profileEnv (profilePeer 0) profileState = (Inr (), wa) \<and>
     ensureGlobalModels profileEnv (profilePeer 1) profileState = (Inr (), wb) \<and>
     gathered wa = profileGathers \<and> performance wa = performance wb"
proof -
  obtain ra wa rb wb where runs: "ensureGlobalModels profileEnv (profilePeer 0) profileState = (ra, wa)"
      "ensureGlobalModels profileEnv (profilePeer 1) profileState = (rb, wb)" by fastforce
  have received: "gathered wa = profileGathers" "gathered wb = profileGathers" using profile_example runs by blast+
  have "autotuneConfig (cocclGetConfig profileEnv) = profileConfig" by (simp add: cocclGetConfig_def profileEnv_def)
  moreover have "valid_autotune profileConfig" by (simp add: valid_autotune_def profileConfig_def)
  ultimately show ?thesis
    using profiled_models_agree [OF profile_never_fails profile_never_fails _ _ _ refl runs refl refl] runs received by simp
qed

end
