(* ===== verification/Reduce_Kernel.thy ===== *)
theory Reduce_Kernel
  imports Coccl_Prelude
begin

text \<open>
  The summation kernels of \<^verbatim>\<open>core/device/reduce_helper/reduce_extend_kernel.cu\<close>: \<^verbatim>\<open>reduceChunk\<close> and
  \<^verbatim>\<open>reduceChunkInteger\<close> add the chunks of a buffer element by element. A block has a column of threads for
  every element; each thread adds its share of the chunks, then the column is added up in shared memory by a
  tree with a barrier after every level.

  The kernels are the same program over two arithmetics, so the model takes the conversion from the element
  type, the addition, zero and the conversion back as arguments. Indices are 32-bit and wrap, as in the code.
  Memory is a function from element addresses; input and output may be the same buffer. Between two barriers
  the threads of a column run in any order, and so do the columns.
\<close>

section \<open>A thread\<close>

text \<open>
  The loop over the chunks \<^verbatim>\<open>for (int i = idy; i < numChunks && idx < chunkCount; i += blockDim.y)\<close>; the
  comparison of \<^verbatim>\<open>i\<close> is signed, that of \<^verbatim>\<open>idx\<close> unsigned. In the index \<^verbatim>\<open>chunkCount * i + idx\<close> the product
  is of type \<^verbatim>\<open>int\<close> and the sum of type \<^verbatim>\<open>unsigned\<close>; both are 32 bits wide and the model wraps, which is
  what the code defines only while the product fits.
\<close>

partial_function (option) chunkLoop ::
  "(nat \<Rightarrow> 'v) \<Rightarrow> ('v \<Rightarrow> 'v \<Rightarrow> 'v) \<Rightarrow> 32 word \<Rightarrow> 32 word \<Rightarrow> 32 word \<Rightarrow> 32 word \<Rightarrow> 32 word \<Rightarrow> 'v \<Rightarrow> 'v option" where
  "chunkLoop load add chunkCount numChunks blockDimY idx i acc =
     (if sint i < sint numChunks \<and> idx < chunkCount
      then chunkLoop load add chunkCount numChunks blockDimY idx (i + blockDimY) (add acc (load (unat (chunkCount * i + idx))))
      else Some acc)"

section \<open>A column\<close>

text \<open>One level of the tree: the threads below \<open>s\<close> in some order.\<close>

definition halveStep :: "('v \<Rightarrow> 'v \<Rightarrow> 'v) \<Rightarrow> nat \<Rightarrow> nat list \<Rightarrow> (nat \<Rightarrow> 'v) \<Rightarrow> nat \<Rightarrow> 'v" where
  "halveStep add s order sdata = fold (\<lambda>t sd. if t < s then sd(t := add (sd t) (sd (t + s))) else sd) order sdata"

text \<open>\<^verbatim>\<open>block_y_reduce\<close>; \<open>order s\<close> is the order of the threads in the level with stride \<open>s\<close>.\<close>

definition block_y_reduce :: "('v \<Rightarrow> 'v \<Rightarrow> 'v) \<Rightarrow> nat \<Rightarrow> (nat \<Rightarrow> nat list) \<Rightarrow> (nat \<Rightarrow> 'v) \<Rightarrow> nat \<Rightarrow> 'v" where
  "block_y_reduce add blockDimY order sdata =
     (let sd = (if blockDimY \<ge> 32 then halveStep add 16 (order 16) sdata else sdata);
          sd = (if blockDimY \<ge> 16 then halveStep add 8 (order 8) sd else sd);
          sd = (if blockDimY \<ge> 8 then halveStep add 4 (order 4) sd else sd);
          sd = (if blockDimY \<ge> 4 then halveStep add 2 (order 2) sd else sd) in
      if blockDimY \<ge> 2 then halveStep add 1 (order 1) sd else sd)"

text \<open>The arithmetic of a kernel.\<close>

record ('a, 'v) reduce_arith =
  castIn :: "'a \<Rightarrow> 'v"
  castOut :: "'v \<Rightarrow> 'a"
  sumOp :: "'v \<Rightarrow> 'v \<Rightarrow> 'v"
  sumZero :: 'v

definition reduceColumn ::
  "('a, 'v) reduce_arith \<Rightarrow> (nat \<Rightarrow> nat list) \<Rightarrow> nat \<Rightarrow> 32 word \<Rightarrow> 32 word \<Rightarrow> nat \<Rightarrow> nat \<Rightarrow> 32 word \<Rightarrow>
   (nat \<Rightarrow> 'a) \<Rightarrow> (nat \<Rightarrow> 'a) option" where
  "reduceColumn A order blockDimY chunkCount numChunks input out idx mem =
     (case those (map (\<lambda>tidy. chunkLoop (\<lambda>j. castIn A (mem (input + j))) (sumOp A) chunkCount numChunks (word_of_nat blockDimY)
                   idx (word_of_nat tidy) (sumZero A)) [0..<blockDimY]) of
        None \<Rightarrow> None
      | Some sums \<Rightarrow>
          (let sdata = block_y_reduce (sumOp A) blockDimY order ((!) sums) in
           Some (if idx < chunkCount then mem(out + unat idx := castOut A (sdata 0)) else mem)))"

section \<open>The launch\<close>

text \<open>\<^verbatim>\<open>blockDim.x\<close> and \<^verbatim>\<open>blockDim.y\<close> by the number of chunks.\<close>

definition reduceShape :: "int \<Rightarrow> nat \<times> nat" where
  "reduceShape numChunks =
     (if numChunks \<le> 4 then (512, 2) else if numChunks \<le> 8 then (256, 4) else if numChunks \<le> 16 then (128, 8)
      else if numChunks \<le> 32 then (64, 16) else (32, 32))"

definition DIVUP :: "size_t \<Rightarrow> size_t \<Rightarrow> size_t" where
  "DIVUP x y = (x + y - 1) div y"

text \<open>
  The number of blocks, converted to the 32 bits of a \<^verbatim>\<open>dim3\<close>, and the columns of the grid:
  \<^verbatim>\<open>blockIdx.x * blockDim.x + threadIdx.x\<close>.
\<close>

definition gridBlocks :: "size_t \<Rightarrow> int \<Rightarrow> 32 word" where
  "gridBlocks chunkCount numChunks = ucast (DIVUP chunkCount (word_of_nat (fst (reduceShape numChunks))))"

definition gridColumns :: "size_t \<Rightarrow> int \<Rightarrow> nat list" where
  "gridColumns chunkCount numChunks = [0..<unat (gridBlocks chunkCount numChunks) * fst (reduceShape numChunks)]"

fun runColumns ::
  "('a, 'v) reduce_arith \<Rightarrow> (nat \<Rightarrow> nat list) \<Rightarrow> nat \<Rightarrow> 32 word \<Rightarrow> 32 word \<Rightarrow> nat \<Rightarrow> nat \<Rightarrow> nat list \<Rightarrow>
   (nat \<Rightarrow> 'a) \<Rightarrow> (nat \<Rightarrow> 'a) option" where
  "runColumns A order blockDimY chunkCount numChunks input out [] mem = Some mem"
| "runColumns A order blockDimY chunkCount numChunks input out (c # cs) mem =
     Option.bind (reduceColumn A order blockDimY chunkCount numChunks input out (word_of_nat c) mem)
       (runColumns A order blockDimY chunkCount numChunks input out cs)"

text \<open>
  \<^verbatim>\<open>launchReduceChunk\<close> for one element type: the count is converted to \<^verbatim>\<open>int\<close> when it is passed to the
  kernel. \<open>cols\<close> is the order of the columns of the grid. CUDA refuses a grid without blocks or with more than
  2147483647; \<^verbatim>\<open>cudaGetLastError\<close> reports it and nothing has run. The result is the code and the memory,
  \<open>None\<close> when a thread does not end.
\<close>

definition runReduceChunk ::
  "('a, 'v) reduce_arith \<Rightarrow> (nat \<Rightarrow> nat list) \<Rightarrow> nat list \<Rightarrow> nat \<Rightarrow> nat \<Rightarrow> size_t \<Rightarrow> int \<Rightarrow> (nat \<Rightarrow> 'a) \<Rightarrow>
   (ncclResult_t \<times> (nat \<Rightarrow> 'a)) option" where
  "runReduceChunk A order cols input out chunkCount numChunks mem =
     (if gridBlocks chunkCount numChunks = 0 \<or> gridBlocks chunkCount numChunks > 2147483647
      then Some (ncclUnhandledCudaError, mem)
      else map_option (Pair ncclSuccess)
        (runColumns A order (snd (reduceShape numChunks)) (ucast chunkCount) (word_of_int numChunks) input out cols mem))"

text \<open>The element type of the kernel a data type selects; for the others nothing is launched.\<close>

datatype reduceElement = ElementUint8 | ElementUint32 | ElementUint64 | ElementFloat | ElementHalf | ElementBfloat16

definition reduceElementOf :: "ncclDataType_t \<Rightarrow> reduceElement option" where
  "reduceElementOf dtype =
     (if dtype = ncclInt8 then Some ElementUint8
      else if dtype = ncclInt32 then Some ElementUint32
      else if dtype = ncclInt64 then Some ElementUint64
      else if dtype = ncclFloat32 then Some ElementFloat
      else if dtype = ncclFloat16 then Some ElementHalf
      else if dtype = ncclBfloat16 then Some ElementBfloat16
      else None)"

text \<open>Integer kernels add in the element type, modulo its size.\<close>

definition integerArith :: "('w :: len word, 'w word) reduce_arith" where
  "integerArith = \<lparr>castIn = id, castOut = id, sumOp = (+), sumZero = 0\<rparr>"

section \<open>What a thread adds\<close>

text \<open>The chunks of a thread: those with its residue.\<close>

definition chunksFrom :: "nat \<Rightarrow> nat \<Rightarrow> nat \<Rightarrow> nat list" where
  "chunksFrom y n i = filter (\<lambda>k. k mod y = i mod y) [i..<n]"

lemma chunksFrom_step:
  assumes "0 < y" and "i < n"
  shows "chunksFrom y n i = i # chunksFrom y n (i + y)"
proof -
  let ?m = "min (i + y) n"
  have "[i..<n] = [i..<?m] @ [?m..<n]" using assms upt_add_eq_append [of i ?m "n - ?m"] by simp
  moreover have "[i..<?m] = i # [Suc i..<?m]" using assms by (simp add: upt_conv_Cons)
  moreover have "filter (\<lambda>k. k mod y = i mod y) [Suc i..<?m] = []"
  proof -
    have "k mod y \<noteq> i mod y" if "Suc i \<le> k" "k < i + y" for k
    proof
      assume "k mod y = i mod y"
      then have "y dvd k - i" using that by (simp add: mod_eq_dvd_iff_nat)
      with that show False by (auto dest: dvd_imp_le)
    qed
    then show ?thesis by (auto simp: filter_empty_conv)
  qed
  moreover have "[?m..<n] = [i + y..<n]" by (cases "i + y \<le> n") (simp_all add: min_def)
  ultimately show ?thesis by (simp add: chunksFrom_def)
qed

lemma chunkLoop_run:
  assumes "0 < y" and "y \<le> 32" and "n + 32 < 2 ^ 31" and "idx < chunkCount"
  shows "i \<le> n + y \<Longrightarrow>
    chunkLoop load add chunkCount (word_of_nat n) (word_of_nat y) idx (word_of_nat i) acc =
      Some (foldl (\<lambda>s k. add s (load (unat (chunkCount * word_of_nat k + idx)))) acc (chunksFrom y n i))"
proof (induction "n + y - i" arbitrary: i acc rule: less_induct)
  case less
  have s: "sint (word_of_nat m :: 32 word) = int m" if "m < 2 ^ 31" for m
    using that by (simp add: sint_uint uint_nat unat_of_nat signed_take_bit_int_eq_self)
  show ?case
  proof (cases "i < n")
    case True
    then have cmp: "sint (word_of_nat i :: 32 word) < sint (word_of_nat n :: 32 word)" using assms(3) by (simp add: s)
    have next_i: "word_of_nat i + word_of_nat y = (word_of_nat (i + y) :: 32 word)" by simp
    show ?thesis
      using less.hyps [of "i + y"] True assms(1) cmp assms(4) chunksFrom_step [OF assms(1) True]
      by (simp add: chunkLoop.simps [of _ _ _ _ _ _ "word_of_nat i"] next_i del: of_nat_add)
  next
    case False
    then have "\<not> sint (word_of_nat i :: 32 word) < sint (word_of_nat n :: 32 word)" using assms less.prems by (simp add: s)
    with False show ?thesis by (simp add: chunkLoop.simps [of _ _ _ _ _ _ "word_of_nat i"] chunksFrom_def)
  qed
qed

lemma chunkLoop_idle:
  "\<not> idx < chunkCount \<Longrightarrow> chunkLoop load add chunkCount numChunks blockDimY idx i acc = Some acc"
  by (simp add: chunkLoop.simps)

lemma chunksFrom_set: "t < y \<Longrightarrow> set (chunksFrom y n t) = {k. k < n \<and> k mod y = t}"
  by (auto simp: chunksFrom_def)

lemma chunksFrom_distinct: "distinct (chunksFrom y n t)"
  by (simp add: chunksFrom_def)

section \<open>What a column adds\<close>

lemma halveStep_apply:
  assumes "distinct order"
  shows "halveStep add s order sdata t = (if t < s \<and> t \<in> set order then add (sdata t) (sdata (t + s)) else sdata t)"
  using assms unfolding halveStep_def by (induction order arbitrary: sdata) auto

text \<open>The value of the tree, whatever the order of the threads between two barriers.\<close>

fun treeSum :: "('v \<Rightarrow> 'v \<Rightarrow> 'v) \<Rightarrow> nat \<Rightarrow> (nat \<Rightarrow> 'v) \<Rightarrow> 'v" where
  "treeSum add 0 f = f 0"
| "treeSum add (Suc k) f = treeSum add k (\<lambda>t. add (f t) (f (t + 2 ^ k)))"

lemma treeSum_cong: "(\<And>t. t < 2 ^ k \<Longrightarrow> f t = g t) \<Longrightarrow> treeSum add k f = treeSum add k g"
proof (induction k arbitrary: f g)
  case (Suc k)
  show ?case by simp (rule Suc.IH, simp add: Suc.prems)
qed simp

definition threadOrders :: "nat \<Rightarrow> (nat \<Rightarrow> nat list) \<Rightarrow> bool" where
  "threadOrders y order = (\<forall>s. distinct (order s) \<and> set (order s) = {..<y})"

lemma treeSum_halve:
  assumes "threadOrders y order" and "2 ^ k \<le> y"
  shows "treeSum add k (halveStep add (2 ^ k) (order s) f) = treeSum add (Suc k) f"
  using assms by simp (rule treeSum_cong, simp add: halveStep_apply threadOrders_def)

definition levels :: "nat \<Rightarrow> nat" where
  "levels y = (if y = 2 then 1 else if y = 4 then 2 else if y = 8 then 3 else if y = 16 then 4 else 5)"

lemma block_y_reduce_tree:
  assumes "y \<in> {2, 4, 8, 16, 32}" and "threadOrders y order"
  shows "block_y_reduce add y order f 0 = treeSum add (levels y) f"
proof -
  note halve = treeSum_halve [OF assms(2), of _ add]
  have h0: "treeSum add 0 (halveStep add 1 (order s) g) = treeSum add 1 g" for g s
    using halve [of 0 s g] assms(1) by (auto simp del: treeSum.simps)
  have h1: "4 \<le> y \<Longrightarrow> treeSum add 1 (halveStep add 2 (order s) g) = treeSum add 2 g" for g s
    using halve [of 1 s g] by (simp del: treeSum.simps One_nat_def)
  have h2: "8 \<le> y \<Longrightarrow> treeSum add 2 (halveStep add 4 (order s) g) = treeSum add 3 g" for g s
    using halve [of 2 s g] by (simp del: treeSum.simps)
  have h3: "16 \<le> y \<Longrightarrow> treeSum add 3 (halveStep add 8 (order s) g) = treeSum add 4 g" for g s
    using halve [of 3 s g] by (simp del: treeSum.simps)
  have h4: "32 \<le> y \<Longrightarrow> treeSum add 4 (halveStep add 16 (order s) g) = treeSum add 5 g" for g s
    using halve [of 4 s g] by (simp del: treeSum.simps)
  note h = h0 h1 h2 h3 h4
  have "block_y_reduce add y order f 0 = treeSum add 0 (block_y_reduce add y order f)" by simp
  also have "\<dots> = treeSum add (levels y) f"
    using assms(1) by (auto simp: block_y_reduce_def levels_def Let_def h simp del: treeSum.simps One_nat_def)
  finally show ?thesis .
qed

definition threadSum :: "('a, 'v) reduce_arith \<Rightarrow> nat \<Rightarrow> nat \<Rightarrow> nat \<Rightarrow> (nat \<Rightarrow> 'a) \<Rightarrow> nat \<Rightarrow> nat \<Rightarrow> 'v" where
  "threadSum A y count n chunk c t =
     foldl (\<lambda>s k. sumOp A s (castIn A (chunk (count * k + c)))) (sumZero A) (chunksFrom y n t)"

definition columnSum :: "('a, 'v) reduce_arith \<Rightarrow> nat \<Rightarrow> nat \<Rightarrow> nat \<Rightarrow> (nat \<Rightarrow> 'a) \<Rightarrow> nat \<Rightarrow> 'a" where
  "columnSum A y count n chunk c = castOut A (treeSum (sumOp A) (levels y) (threadSum A y count n chunk c))"

section \<open>The whole grid\<close>

lemma unat_index:
  assumes "count * n < 2 ^ 31" and "c < count" and "k < n"
  shows "unat (word_of_nat count * word_of_nat k + word_of_nat c :: 32 word) = count * k + c"
proof -
  have "count * k + c < count * Suc k" using assms(2) by simp
  also have "\<dots> \<le> count * n" using assms(3) by (intro mult_le_mono2) simp
  finally have "count * k + c < 2 ^ 32" using assms(1) by simp
  moreover have "word_of_nat count * word_of_nat k + word_of_nat c = (word_of_nat (count * k + c) :: 32 word)" by simp
  ultimately show ?thesis by (simp add: unat_of_nat del: of_nat_add of_nat_mult)
qed

lemma word_of_nat_less32:
  "a < 2 ^ 32 \<Longrightarrow> b < 2 ^ 32 \<Longrightarrow> ((word_of_nat a :: 32 word) < word_of_nat b) = (a < b)"
  by (simp add: word_less_nat_alt unat_of_nat)

lemma chunkLoop_thread:
  assumes "y \<in> {2, 4, 8, 16, 32}" and "n + 32 < 2 ^ 31" and "count * n < 2 ^ 31" and "c < count" and "count < 2 ^ 31" and "t < y"
  shows "chunkLoop (\<lambda>j. castIn A (chunk j)) (sumOp A) (word_of_nat count) (word_of_nat n) (word_of_nat y)
      (word_of_nat c) (word_of_nat t) (sumZero A) = Some (threadSum A y count n chunk c t)"
proof -
  have y: "0 < y" "y \<le> 32" using assms(1) by auto
  have c: "(word_of_nat c :: 32 word) < word_of_nat count" using assms(4,5) by (simp add: word_of_nat_less32)
  have "t \<le> n + y" using assms(6) by simp
  then have "chunkLoop (\<lambda>j. castIn A (chunk j)) (sumOp A) (word_of_nat count) (word_of_nat n) (word_of_nat y)
      (word_of_nat c) (word_of_nat t) (sumZero A) =
      Some (foldl (\<lambda>s k. sumOp A s (castIn A (chunk (unat (word_of_nat count * word_of_nat k + word_of_nat c :: 32 word)))))
        (sumZero A) (chunksFrom y n t))"
    by (rule chunkLoop_run [OF y assms(2) c])
  also have "\<dots> = Some (threadSum A y count n chunk c t)"
    unfolding threadSum_def option.inject
  proof (rule foldl_cong)
    fix s k assume "k \<in> set (chunksFrom y n t)"
    then have "k < n" by (simp add: chunksFrom_set [OF assms(6)])
    then show "sumOp A s (castIn A (chunk (unat (word_of_nat count * word_of_nat k + word_of_nat c :: 32 word)))) =
        sumOp A s (castIn A (chunk (count * k + c)))"
      by (simp only: unat_index [OF assms(3,4)])
  qed simp_all
  finally show ?thesis .
qed

lemma those_map_Some: "(\<And>x. x \<in> set xs \<Longrightarrow> f x = Some (g x)) \<Longrightarrow> those (map f xs) = Some (map g xs)"
  by (induction xs) auto

definition columnWrite ::
  "('a, 'v) reduce_arith \<Rightarrow> nat \<Rightarrow> nat \<Rightarrow> nat \<Rightarrow> nat \<Rightarrow> nat \<Rightarrow> nat \<Rightarrow> (nat \<Rightarrow> 'a) \<Rightarrow> nat \<Rightarrow> 'a" where
  "columnWrite A y count n inp out c mem =
     (if c < count then mem(out + c := columnSum A y count n (\<lambda>j. mem (inp + j)) c) else mem)"

lemma reduceColumn_run:
  assumes "y \<in> {2, 4, 8, 16, 32}" and "threadOrders y order" and "n + 32 < 2 ^ 31" and "count * n < 2 ^ 31"
    and "count < 2 ^ 31" and "c < 2 ^ 32"
  shows "reduceColumn A order y (word_of_nat count) (word_of_nat n) inp out (word_of_nat c) mem =
    Some (columnWrite A y count n inp out c mem)"
proof (cases "c < count")
  case True
  let ?sum = "threadSum A y count n (\<lambda>j. mem (inp + j)) c"
  have sums: "those (map (\<lambda>tidy. chunkLoop (\<lambda>j. castIn A (mem (inp + j))) (sumOp A) (word_of_nat count) (word_of_nat n)
      (word_of_nat y) (word_of_nat c) (word_of_nat tidy) (sumZero A)) [0..<y]) = Some (map ?sum [0..<y])"
    using assms True by (intro those_map_Some chunkLoop_thread) auto
  have "treeSum (sumOp A) (levels y) ((!) (map ?sum [0..<y])) = treeSum (sumOp A) (levels y) ?sum"
    using assms(1) by (intro treeSum_cong) (auto simp: levels_def)
  then show ?thesis using assms True
    by (simp add: reduceColumn_def sums block_y_reduce_tree columnWrite_def columnSum_def word_of_nat_less32 unat_of_nat)
next
  case False
  then have idle: "\<not> (word_of_nat c :: 32 word) < word_of_nat count" using assms by (simp add: word_of_nat_less32)
  then have "those (map (\<lambda>tidy. chunkLoop (\<lambda>j. castIn A (mem (inp + j))) (sumOp A) (word_of_nat count) (word_of_nat n)
      (word_of_nat y) (word_of_nat c) (word_of_nat tidy) (sumZero A)) [0..<y]) = Some (map (\<lambda>_. sumZero A) [0..<y])"
    by (intro those_map_Some chunkLoop_idle)
  with False idle show ?thesis by (simp add: reduceColumn_def columnWrite_def)
qed

text \<open>Input and output are the same buffer, or apart.\<close>

definition apartOrInPlace :: "nat \<Rightarrow> nat \<Rightarrow> nat \<Rightarrow> nat \<Rightarrow> bool" where
  "apartOrInPlace inp out count n = (out = inp \<or> out + count \<le> inp \<or> inp + count * n \<le> out)"

lemma columnSum_cong:
  assumes "y \<in> {2, 4, 8, 16, 32}" and "\<And>k. k < n \<Longrightarrow> f (count * k + c) = g (count * k + c)"
  shows "columnSum A y count n f c = columnSum A y count n g c"
proof -
  have "threadSum A y count n f c t = threadSum A y count n g c t" if "t < y" for t
    using chunksFrom_set [OF that, of n] assms(2) unfolding threadSum_def by (auto intro!: foldl_cong)
  moreover have "2 ^ levels y = y" using assms(1) by (auto simp: levels_def)
  ultimately show ?thesis unfolding columnSum_def by (auto intro!: arg_cong [where f = "castOut A"] treeSum_cong)
qed

text \<open>A column does not read what another column has written.\<close>

lemma columnSum_other_column:
  assumes "y \<in> {2, 4, 8, 16, 32}" and "apartOrInPlace inp out count n" and "c < count" and "d < count" and "c \<noteq> d"
  shows "columnSum A y count n (\<lambda>j. (mem(out + d := v)) (inp + j)) c = columnSum A y count n (\<lambda>j. mem (inp + j)) c"
proof (rule columnSum_cong [OF assms(1)])
  fix k assume k: "k < n"
  have "count * k + c < count * n"
  proof -
    have "count * k + c < count * Suc k" using assms(3) by simp
    also have "\<dots> \<le> count * n" using k by (intro mult_le_mono2) simp
    finally show ?thesis .
  qed
  moreover have "count * k + c \<noteq> d"
  proof
    assume "count * k + c = d"
    then have "(count * k + c) mod count = d mod count" by simp
    with assms show False by simp
  qed
  ultimately have "out + d \<noteq> inp + (count * k + c)" using assms unfolding apartOrInPlace_def by auto
  then show "(mem(out + d := v)) (inp + (count * k + c)) = mem (inp + (count * k + c))" by simp
qed

definition reducedMem ::
  "('a, 'v) reduce_arith \<Rightarrow> nat \<Rightarrow> nat \<Rightarrow> nat \<Rightarrow> nat \<Rightarrow> nat \<Rightarrow> nat set \<Rightarrow> (nat \<Rightarrow> 'a) \<Rightarrow> nat \<Rightarrow> 'a" where
  "reducedMem A y count n inp out cs mem j =
     (if out \<le> j \<and> j < out + count \<and> j - out \<in> cs then columnSum A y count n (\<lambda>i. mem (inp + i)) (j - out) else mem j)"

lemma reducedMem_insert:
  assumes "y \<in> {2, 4, 8, 16, 32}" and "apartOrInPlace inp out count n" and "c \<notin> cs"
  shows "reducedMem A y count n inp out cs (columnWrite A y count n inp out c mem) = reducedMem A y count n inp out (insert c cs) mem"
proof
  fix j
  show "reducedMem A y count n inp out cs (columnWrite A y count n inp out c mem) j = reducedMem A y count n inp out (insert c cs) mem j"
  proof (cases "c < count \<and> out \<le> j \<and> j < out + count \<and> j - out \<in> cs")
    case True
    then have "columnSum A y count n (\<lambda>i. (mem(out + c := v)) (inp + i)) (j - out) = columnSum A y count n (\<lambda>i. mem (inp + i)) (j - out)" for v
      using assms by (intro columnSum_other_column) auto
    with True show ?thesis by (simp add: reducedMem_def columnWrite_def)
  next
    case False
    with assms(3) show ?thesis by (auto simp: reducedMem_def columnWrite_def)
  qed
qed

lemma runColumns_run:
  assumes "y \<in> {2, 4, 8, 16, 32}" and "threadOrders y order" and "n + 32 < 2 ^ 31" and "count * n < 2 ^ 31"
    and "count < 2 ^ 31" and "apartOrInPlace inp out count n"
  shows "distinct cols \<Longrightarrow> (\<forall>c \<in> set cols. c < 2 ^ 32) \<Longrightarrow>
    runColumns A order y (word_of_nat count) (word_of_nat n) inp out cols mem = Some (reducedMem A y count n inp out (set cols) mem)"
proof (induction cols arbitrary: mem)
  case Nil
  show ?case by (simp add: reducedMem_def fun_eq_iff)
next
  case (Cons c cols)
  then show ?case
    using reduceColumn_run [OF assms(1-5), of c A inp out mem] reducedMem_insert [OF assms(1,6), of c "set cols" A mem] by simp
qed

section \<open>Exact sums\<close>

lemma sum_halves: "(\<Sum>t<m + m. f t) = (\<Sum>t<m. f t + f (t + m))" for f :: "nat \<Rightarrow> 'v :: comm_monoid_add"
proof -
  have "(\<Sum>t<m + k. f t) = (\<Sum>t<m. f t) + (\<Sum>t<k. f (t + m))" for k
    by (induction k) (simp_all add: ac_simps)
  then show ?thesis by (simp add: sum.distrib)
qed

lemma treeSum_sum: "treeSum (+) k f = (\<Sum>t<2 ^ k. f t)" for f :: "nat \<Rightarrow> 'v :: comm_monoid_add"
proof (induction k arbitrary: f)
  case (Suc k)
  then show ?case using sum_halves [of f "2 ^ k"] by (simp add: mult_2)
qed (simp add: lessThan_Suc)

lemma foldl_sum_list: "foldl (\<lambda>s k. s + g k) a xs = a + sum_list (map g xs)" for a :: "'v :: comm_monoid_add"
  by (induction xs arbitrary: a) (simp_all add: add.assoc)

lemma columnSum_integer:
  assumes "y \<in> {2, 4, 8, 16, 32}"
  shows "columnSum integerArith y count n f c = (\<Sum>k<n. f (count * k + c))"
proof -
  have y: "2 ^ levels y = y" "0 < y" using assms by (auto simp: levels_def)
  have "threadSum integerArith y count n f c t = (\<Sum>k \<in> {k \<in> {..<n}. k mod y = t}. f (count * k + c))" if "t < y" for t
  proof -
    have "threadSum integerArith y count n f c t = sum_list (map (\<lambda>k. f (count * k + c)) (chunksFrom y n t))"
      by (simp add: threadSum_def integerArith_def foldl_sum_list)
    also have "\<dots> = (\<Sum>k \<in> set (chunksFrom y n t). f (count * k + c))"
      by (rule sum_list_distinct_conv_sum_set [OF chunksFrom_distinct])
    finally show ?thesis using chunksFrom_set [OF that, of n] by simp
  qed
  then have "columnSum integerArith y count n f c = (\<Sum>t<y. \<Sum>k \<in> {k \<in> {..<n}. k mod y = t}. f (count * k + c))"
    by (simp add: columnSum_def treeSum_sum y(1) integerArith_def)
  also have "\<dots> = (\<Sum>k<n. f (count * k + c))"
    by (rule sum.group) (use y(2) in auto)
  finally show ?thesis .
qed

section \<open>The grid covers the chunk\<close>

lemma reduceShape_cases:
  "fst (reduceShape m) \<in> {32, 64, 128, 256, 512}" "snd (reduceShape m) \<in> {2, 4, 8, 16, 32}"
  by (simp_all add: reduceShape_def)

lemma unat_DIVUP:
  assumes "count < 2 ^ 31" and "0 < x" and "x \<le> 512"
  shows "unat (DIVUP (word_of_nat count) (word_of_nat x)) = (count + x - 1) div x"
proof -
  have "word_of_nat count + word_of_nat x - 1 = (word_of_nat (count + x - 1) :: size_t)"
    using assms(2) by (simp add: of_nat_diff)
  then have "unat (word_of_nat count + word_of_nat x - 1 :: size_t) = count + x - 1"
    using assms by (simp only: unat_of_nat) simp
  then show ?thesis using assms by (simp add: DIVUP_def unat_div unat_of_nat)
qed

lemma unat_gridBlocks:
  assumes "count < 2 ^ 31"
  shows "unat (gridBlocks (word_of_nat count) m) = (count + fst (reduceShape m) - 1) div fst (reduceShape m)"
    and "gridBlocks (word_of_nat count) m = 0 \<longleftrightarrow> count = 0" and "gridBlocks (word_of_nat count) m \<le> 2147483647"
proof -
  define x where "x = fst (reduceShape m)"
  have x: "32 \<le> x" "x \<le> 512" using reduceShape_cases(1) [of m] by (auto simp: x_def)
  have "(count + x - 1) div x \<le> (count + x - 1) div 32" using x by (intro div_le_mono2) simp_all
  also have "\<dots> \<le> 2147483647" using assms x by simp
  finally have le: "(count + x - 1) div x \<le> 2147483647" .
  have "unat (gridBlocks (word_of_nat count) m) = (count + x - 1) div x mod 2 ^ 32"
    using unat_DIVUP [OF assms, of x] x by (simp add: gridBlocks_def unsigned_ucast_eq take_bit_eq_mod flip: x_def)
  with le have u: "unat (gridBlocks (word_of_nat count) m) = (count + x - 1) div x" by simp
  then show "unat (gridBlocks (word_of_nat count) m) = (count + fst (reduceShape m) - 1) div fst (reduceShape m)"
    by (simp add: x_def)
  have "(count + x - 1) div x = 0 \<longleftrightarrow> count = 0" using x by (auto simp: div_eq_0_iff)
  with u show "gridBlocks (word_of_nat count) m = 0 \<longleftrightarrow> count = 0" by (simp add: unat_eq_zero [symmetric])
  show "gridBlocks (word_of_nat count) m \<le> 2147483647" using u le by (simp add: word_le_nat_alt)
qed

lemma gridColumns_cover:
  assumes "count < 2 ^ 31"
  shows "{..<count} \<subseteq> set (gridColumns (word_of_nat count) m)" and "\<forall>c \<in> set (gridColumns (word_of_nat count) m). c < 2 ^ 32"
proof -
  define x where "x = fst (reduceShape m)"
  have x: "0 < x" "x \<le> 512" using reduceShape_cases(1) [of m] by (auto simp: x_def)
  have g: "set (gridColumns (word_of_nat count) m) = {..<(count + x - 1) div x * x}"
    using unat_gridBlocks(1) [OF assms, of m] by (auto simp: gridColumns_def x_def)
  have "(count + x - 1) div x * x + (count + x - 1) mod x = count + x - 1" by simp
  moreover have "(count + x - 1) mod x < x" using x by simp
  ultimately have b: "count \<le> (count + x - 1) div x * x" "(count + x - 1) div x * x \<le> count + x - 1" by linarith+
  show "{..<count} \<subseteq> set (gridColumns (word_of_nat count) m)" using b(1) by (simp add: g)
  have "count + x - 1 < 2 ^ 32" using assms x by simp
  then show "\<forall>c \<in> set (gridColumns (word_of_nat count) m). c < 2 ^ 32" using b(2) unfolding g by (meson lessThan_iff less_le_trans less_trans)
qed

lemma runReduceChunk_run:
  assumes "0 < n" and "n + 32 < 2 ^ 31" and "count * n < 2 ^ 31" and "apartOrInPlace inp out count n"
    and "threadOrders (snd (reduceShape (int n))) order"
    and "distinct cols" and "set cols = set (gridColumns (word_of_nat count) (int n))"
  shows "runReduceChunk A order cols inp out (word_of_nat count) (int n) mem =
    Some (if count = 0 then ncclUnhandledCudaError else ncclSuccess,
      reducedMem A (snd (reduceShape (int n))) count n inp out {..<count} mem)"
proof -
  have count: "count < 2 ^ 31"
  proof -
    have "count * 1 \<le> count * n" using assms(1) by (intro mult_le_mono2) simp
    with assms(3) show ?thesis by (simp only: mult_1_right)
  qed
  have w: "ucast (word_of_nat count :: size_t) = (word_of_nat count :: 32 word)"
    using count by (simp add: word_eq_iff_unsigned unsigned_ucast_eq unsigned_of_nat take_bit_nat_eq_self)
  note cover = gridColumns_cover [OF count, of "int n", folded assms(7)]
  have grid: "(gridBlocks (word_of_nat count) (int n) = 0) = (count = 0)" "\<not> gridBlocks (word_of_nat count) (int n) > 2147483647"
    using unat_gridBlocks(2,3) [OF count, of "int n"] by auto
  have run: "runColumns A order (snd (reduceShape (int n))) (word_of_nat count) (word_of_nat n) inp out cols mem =
      Some (reducedMem A (snd (reduceShape (int n))) count n inp out (set cols) mem)"
    by (rule runColumns_run [OF reduceShape_cases(2) assms(5,2,3) count assms(4,6) cover(2)])
  have all: "reducedMem A y count n inp out (set cols) mem = reducedMem A y count n inp out {..<count} mem" for y
    using cover(1) by (auto simp: reducedMem_def fun_eq_iff)
  show ?thesis
  proof (cases "count = 0")
    case True
    then have "reducedMem A (snd (reduceShape (int n))) count n inp out {..<count} mem = mem" by (simp add: reducedMem_def fun_eq_iff)
    with True grid(1) show ?thesis by (simp add: runReduceChunk_def)
  next
    case False
    with grid show ?thesis using run by (simp add: runReduceChunk_def w all)
  qed
qed

section \<open>Results\<close>

text \<open>
  C26. The integer kernels add the chunks: whatever the order in which the columns of the grid run, and the
  threads of a column between two barriers, the launch ends, element \<open>e\<close> of the output is the sum of
  element \<open>e\<close> of all the chunks modulo the width of the type, and nothing else is written; only an empty chunk is
  refused, with a CUDA error and no change. This holds for chunks of together fewer than 2 to the 31 elements,
  with the output apart from the input or in its place.
\<close>

theorem reduce_chunk_sums:
  fixes mem :: "nat \<Rightarrow> 'w :: len word"
  assumes "0 < n" and "n + 32 < 2 ^ 31" and "count * n < 2 ^ 31" and "apartOrInPlace inp out count n"
    and "threadOrders (snd (reduceShape (int n))) order"
    and "distinct cols" and "set cols = set (gridColumns (word_of_nat count) (int n))"
  shows "\<exists>mem'. runReduceChunk integerArith order cols inp out (word_of_nat count) (int n) mem =
      Some (if count = 0 then ncclUnhandledCudaError else ncclSuccess, mem') \<and>
    (\<forall>e. e < count \<longrightarrow> mem' (out + e) = (\<Sum>k<n. mem (inp + (count * k + e)))) \<and>
    (\<forall>j. j < out \<or> out + count \<le> j \<longrightarrow> mem' j = mem j)"
  by (intro exI conjI, rule runReduceChunk_run [OF assms])
    (simp_all add: reducedMem_def columnSum_integer [OF reduceShape_cases(2)])

theorem reduce_chunk_sums_witness:
  "\<exists>mem'. runReduceChunk integerArith (\<lambda>_. [1, 0]) (rev [0..<512]) 0 0 1 2 (\<lambda>j. if j = 0 then 200 else 100 :: 8 word) =
      Some (ncclSuccess, mem') \<and>
    mem' 0 = 44 \<and> mem' 1 = 100"
proof -
  have cols: "set (rev [0..<512]) = set (gridColumns (word_of_nat 1) (int 2))"
    by (simp add: gridColumns_def gridBlocks_def reduceShape_def DIVUP_def Let_def)
  have orders: "threadOrders (snd (reduceShape (int 2))) (\<lambda>_. [1, 0])"
    by (auto simp: threadOrders_def reduceShape_def)
  have two: "{..<2 :: nat} = {0, 1}" by auto
  obtain mem' where m: "runReduceChunk integerArith (\<lambda>_. [1, 0]) (rev [0..<512]) 0 0 (word_of_nat 1) (int 2)
      (\<lambda>j. if j = 0 then 200 else 100 :: 8 word) = Some (ncclSuccess, mem')"
    and e: "\<forall>e. e < 1 \<longrightarrow> mem' (0 + e) = (\<Sum>k<2. if 0 + (1 * k + e) = 0 then 200 else 100)"
    and r: "\<forall>j. j < 0 \<or> 0 + 1 \<le> j \<longrightarrow> mem' j = (if j = 0 then 200 else 100)"
    using reduce_chunk_sums [OF _ _ _ _ orders _ cols, of 0 0 "\<lambda>j. if j = 0 then 200 else 100 :: 8 word"]
    by (auto simp: apartOrInPlace_def)
  have "mem' 0 = 44" using e two by simp
  moreover have "mem' 1 = 100" using r by simp
  ultimately show ?thesis using m by auto
qed

text \<open>
  For any arithmetic, that of floating-point numbers included, the result does not depend on the order of the
  columns and of the threads: every launch rounds the same sums.
\<close>

theorem reduce_chunk_deterministic:
  assumes "0 < n" and "n + 32 < 2 ^ 31" and "count * n < 2 ^ 31" and "apartOrInPlace inp out count n"
    and "threadOrders (snd (reduceShape (int n))) order" and "threadOrders (snd (reduceShape (int n))) order'"
    and "distinct cols" and "set cols = set (gridColumns (word_of_nat count) (int n))"
    and "distinct cols'" and "set cols' = set (gridColumns (word_of_nat count) (int n))"
  shows "runReduceChunk A order cols inp out (word_of_nat count) (int n) mem =
    runReduceChunk A order' cols' inp out (word_of_nat count) (int n) mem"
  by (simp only: runReduceChunk_run [OF assms(1-5,7,8)] runReduceChunk_run [OF assms(1-4,6,9,10)])

text \<open>
  From 2 to the 32 elements on the index wraps: of five chunks of 2 to the 30 elements, the thread that adds
  chunk 0 and chunk 4 adds chunk 0 twice.
\<close>

theorem reduce_chunk_index_wraps:
  "chunkLoop load (+) (2 ^ 30) 5 4 7 0 0 = Some (load 7 + load 7)" for load :: "nat \<Rightarrow> 'w :: len word"
  by (simp add: chunkLoop.simps)

end
