(* ===== verification/Plugin_Sdk.thy ===== *)
theory Plugin_Sdk
  imports Compressor_Runtime Config_Format
begin

text \<open>
  The plugin side of the compressor contract, \<^verbatim>\<open>include/compressor_plugin/coccl_compressor_plugin.h\<close>: the reader
  of configuration options, the output object a compressor commits to, and the adapter that turns a
  compressor class into the descriptor the host loads.

  A compressor is a record of its static members, with \<open>None\<close> for a member the class does not have. What one of
  them does is a program of the calls it makes: requests to the host, and commits of the output. The host
  fills the size and version fields of a call, so that the checks of those fields are not repeated here. The
  reader for floating-point options, which is \<^verbatim>\<open>strtod\<close> with a range check, is an argument like any other
  parser of a value.
\<close>

section \<open>Helpers\<close>

text \<open>With CUDA's 16-bit brain floats, which the build of the library has.\<close>

fun dataTypeSize :: "ncclDataType_t \<Rightarrow> size_t" where
  "dataTypeSize ncclInt8 = 1"
| "dataTypeSize ncclUint8 = 1"
| "dataTypeSize ncclFloat16 = 2"
| "dataTypeSize ncclBfloat16 = 2"
| "dataTypeSize ncclInt32 = 4"
| "dataTypeSize ncclUint32 = 4"
| "dataTypeSize ncclFloat32 = 4"
| "dataTypeSize ncclInt64 = 8"
| "dataTypeSize ncclUint64 = 8"
| "dataTypeSize ncclFloat64 = 8"
| "dataTypeSize ncclNumTypes = 0"

definition checkedAdd :: "size_t \<Rightarrow> size_t \<Rightarrow> size_t option" where
  "checkedAdd lhs rhs = (if rhs > SIZE_MAX - lhs then None else Some (lhs + rhs))"

definition checkedMultiply :: "size_t \<Rightarrow> size_t \<Rightarrow> size_t option" where
  "checkedMultiply lhs rhs = (if lhs \<noteq> 0 \<and> rhs > SIZE_MAX div lhs then None else Some (lhs * rhs))"

text \<open>\<^verbatim>\<open>elementsPerChunk\<close> of an input or a shape, and \<^verbatim>\<open>Shape::bytes\<close>.\<close>

definition elementsPerChunk :: "size_t \<Rightarrow> size_t \<Rightarrow> size_t" where
  "elementsPerChunk elems chnks = (if chnks = 0 then 0 else elems div chnks)"

definition shapeBytes :: "cocclCompressorSizeQuery \<Rightarrow> size_t" where
  "shapeBytes query = (case checkedMultiply (queryElements query) (dataTypeSize (queryDatatype query)) of None \<Rightarrow> 0 | Some n \<Rightarrow> n)"

definition shouldPassthrough :: "cocclCompressorView \<Rightarrow> size_t \<Rightarrow> bool" where
  "shouldPassthrough inp encodedBytes \<longleftrightarrow> encodedBytes > viewBytes inp"

definition isPassthrough :: "cocclCompressorView \<Rightarrow> bool" where
  "isPassthrough inp \<longleftrightarrow> viewDatatype inp = COCCL_COMPRESSOR_RAW_PASSTHROUGH"

section \<open>The output object\<close>

record Output =
  outView :: cocclCompressorView
  plannedElements :: size_t
  plannedChunks :: size_t
  plannedDatatype :: ncclDataType_t
  outCommitted :: bool

definition newOutput :: "cocclCompressorView \<Rightarrow> Output" where
  "newOutput view = \<lparr>outView = view, plannedElements = viewElements view, plannedChunks = viewChunks view,
     plannedDatatype = viewDatatype view, outCommitted = False\<rparr>"

definition commit :: "size_t \<Rightarrow> ncclDataType_t \<Rightarrow> size_t \<Rightarrow> Output \<Rightarrow> ncclResult_t \<times> Output" where
  "commit elems dtype chnks out =
     (let view = outView out; typeBytes = dataTypeSize dtype in
      if viewData view = nullptr \<or> chnks = 0 \<or> elems mod chnks \<noteq> 0 \<or> typeBytes = 0 \<or>
         (elems \<noteq> 0 \<and> typeBytes > SIZE_MAX div elems)
      then (ncclInvalidArgument, out)
      else
        let bytes = elems * typeBytes in
        if bytes > viewCapacityBytes view then (ncclInvalidArgument, out)
        else (ncclSuccess, out\<lparr>outView := view\<lparr>viewBytes := bytes, viewElements := elems, viewChunks := chnks, viewDatatype := dtype\<rparr>,
               outCommitted := True\<rparr>))"

definition commitBytes :: "size_t \<Rightarrow> size_t \<Rightarrow> Output \<Rightarrow> ncclResult_t \<times> Output" where
  "commitBytes bytes chnks = commit bytes ncclInt8 chnks"

definition commitPassthrough :: "cocclCompressorView \<Rightarrow> Output \<Rightarrow> ncclResult_t \<times> Output" where
  "commitPassthrough inp = commit (viewBytes inp) COCCL_COMPRESSOR_RAW_PASSTHROUGH (viewChunks inp)"

text \<open>\<open>copied\<close> is the result of \<^verbatim>\<open>cudaMemcpyAsync\<close>, which is called when the buffers differ.\<close>

definition passthrough :: "cocclCompressorView \<Rightarrow> ncclResult_t \<Rightarrow> Output \<Rightarrow> ncclResult_t \<times> Output" where
  "passthrough inp copied out =
     (if viewData (outView out) = nullptr \<or> viewData inp = nullptr \<or> viewBytes inp > viewCapacityBytes (outView out)
      then (ncclInvalidArgument, out)
      else if viewData (outView out) \<noteq> viewData inp \<and> copied \<noteq> ncclSuccess then (ncclUnhandledCudaError, out)
      else commitPassthrough inp out)"

definition commitFrames :: "Output \<Rightarrow> ncclResult_t \<times> Output" where
  "commitFrames out =
     (let view = outView out in
      if viewFrameMetadata view = nullptr \<or> viewFrameStrideBytes view = 0 \<or> plannedChunks out = 0 then (ncclInvalidArgument, out)
      else
        case checkedMultiply (viewFrameStrideBytes view) (plannedChunks out) of
          None \<Rightarrow> (ncclInvalidArgument, out)
        | Some bytes \<Rightarrow>
            if bytes > viewCapacityBytes view then (ncclInvalidArgument, out)
            else commit bytes ncclInt8 (plannedChunks out) out)"

definition commitPlanned :: "Output \<Rightarrow> ncclResult_t \<times> Output" where
  "commitPlanned out = commit (plannedElements out) (plannedDatatype out) (plannedChunks out) out"

section \<open>Programs of a compressor\<close>

text \<open>The ways to commit, and the requests to the host.\<close>

datatype sdk_commit =
  Commit size_t ncclDataType_t size_t | CommitBytes size_t size_t | Passthrough cocclCompressorView ncclResult_t | CommitFrames

datatype sdk_run =
  SdkReturn ncclResult_t
| SdkRequest host_request "host_reply \<Rightarrow> sdk_run"
| SdkCommit sdk_commit "ncclResult_t \<Rightarrow> sdk_run"

fun runCommit :: "sdk_commit \<Rightarrow> Output \<Rightarrow> ncclResult_t \<times> Output" where
  "runCommit (Commit elems dtype chnks) out = commit elems dtype chnks out"
| "runCommit (CommitBytes bytes chnks) out = commitBytes bytes chnks out"
| "runCommit (Passthrough inp copied) out = passthrough inp copied out"
| "runCommit CommitFrames out = commitFrames out"

text \<open>\<^verbatim>\<open>Context::scratch\<close>, \<^verbatim>\<open>persistent\<close> and \<^verbatim>\<open>instance\<close>: the buffer or object only on success.\<close>

definition sdkScratch :: "size_t \<Rightarrow> (ncclResult_t \<Rightarrow> (ptr \<times> size_t) option \<Rightarrow> sdk_run) \<Rightarrow> sdk_run" where
  "sdkScratch bytes k = SdkRequest (AllocateScratch bytes) (\<lambda>(r, p, n). k r (if r = ncclSuccess then Some (p, n) else None))"

definition sdkPersistent :: "size_t \<Rightarrow> size_t \<Rightarrow> (ncclResult_t \<Rightarrow> (ptr \<times> size_t) option \<Rightarrow> sdk_run) \<Rightarrow> sdk_run" where
  "sdkPersistent slt bytes k = SdkRequest (AcquirePersistent slt bytes) (\<lambda>(r, p, n). k r (if r = ncclSuccess then Some (p, n) else None))"

text \<open>\<open>object\<close> is what \<^verbatim>\<open>new (std::nothrow) State()\<close> returns, \<open>destroyState\<close> the address of the destructor.\<close>

definition createState :: "ptr \<Rightarrow> ncclResult_t \<times> ptr" where
  "createState object = (if object = nullptr then ncclSystemError else ncclSuccess, object)"

definition sdkInstance :: "ptr \<Rightarrow> ptr \<Rightarrow> ptr \<Rightarrow> (ncclResult_t \<Rightarrow> ptr option \<Rightarrow> sdk_run) \<Rightarrow> sdk_run" where
  "sdkInstance typeKey object destroyState k =
     SdkRequest (GetOrCreateState typeKey (createState object) destroyState) (\<lambda>(r, p, n). k r (if r = ncclSuccess then Some p else None))"

primrec runSdk :: "sdk_run \<Rightarrow> Output \<Rightarrow> (ncclResult_t \<Rightarrow> Output \<Rightarrow> plugin_run) \<Rightarrow> plugin_run" where
  "runSdk (SdkReturn result) out k = k result out"
| "runSdk (SdkRequest request nxt) out k = PluginRequest request (\<lambda>reply. runSdk (nxt reply) out k)"
| "runSdk (SdkCommit how nxt) out k = (case runCommit how out of (r, out') \<Rightarrow> runSdk (nxt r) out' k)"

section \<open>Reading options\<close>

text \<open>
  \<^verbatim>\<open>ConfigReader\<close>. The host passes pairs of strings that are not null; \<open>readerCapacity\<close> is \<open>None\<close> for a null error
  buffer, and \<open>readerError\<close> is what was written to it.
\<close>

record ConfigReader =
  readerPairs :: "(string \<times> string) list"
  consumed :: "bool list"
  readerStatus :: ncclResult_t
  readerCapacity :: "size_t option"
  readerError :: "string option"

definition newReader :: "(string \<times> string) list \<Rightarrow> size_t option \<Rightarrow> ConfigReader" where
  "newReader pairs capacity = \<lparr>readerPairs = pairs, consumed = replicate (length pairs) False, readerStatus = ncclSuccess,
     readerCapacity = capacity, readerError = snprintf capacity []\<rparr>"

definition failReader :: "string \<Rightarrow> string \<Rightarrow> ConfigReader \<Rightarrow> ConfigReader" where
  "failReader key reason r =
     (if readerStatus r \<noteq> ncclSuccess then r
      else r\<lparr>readerStatus := ncclInvalidArgument,
             readerError := (case snprintf (readerCapacity r) (key @ '' '' @ reason) of None \<Rightarrow> readerError r | Some msg \<Rightarrow> Some msg)\<rparr>)"

text \<open>The first pair with a key.\<close>

fun findKey :: "string \<Rightarrow> (string \<times> string) list \<Rightarrow> nat option" where
  "findKey key [] = None"
| "findKey key ((k, v) # pairs) = (if k = key then Some 0 else map_option Suc (findKey key pairs))"

definition consume :: "string \<Rightarrow> ConfigReader \<Rightarrow> string option \<times> ConfigReader" where
  "consume key r =
     (case findKey key (readerPairs r) of
        None \<Rightarrow> (None, r)
      | Some i \<Rightarrow>
          if consumed r ! i then (None, failReader key ''is duplicated or has no value'' r)
          else (Some (snd (readerPairs r ! i)), r\<lparr>consumed := (consumed r)[i := True]\<rparr>))"

text \<open>
  \<^verbatim>\<open>get\<close> with a parser of the value: the new value of the variable, \<open>None\<close> when it is left as it is. The other
  forms differ in what they accept and in the message.
\<close>

definition getWith :: "string \<Rightarrow> (string \<Rightarrow> 'v option) \<Rightarrow> string \<Rightarrow> ConfigReader \<Rightarrow> 'v option \<times> ConfigReader" where
  "getWith reason parse key r =
     (if readerStatus r \<noteq> ncclSuccess then (None, r)
      else
        case consume key r of
          (None, r1) \<Rightarrow> (None, r1)
        | (Some val, r1) \<Rightarrow>
            (case parse val of None \<Rightarrow> (None, failReader key reason r1) | Some v \<Rightarrow> (Some v, r1)))"

definition getValue :: "(string \<Rightarrow> 'v option) \<Rightarrow> string \<Rightarrow> ConfigReader \<Rightarrow> 'v option \<times> ConfigReader" where
  "getValue = getWith ''has an invalid value''"

text \<open>With a range, the variable is written before the range is checked.\<close>

definition getRange :: "(string \<Rightarrow> 'v :: linorder option) \<Rightarrow> 'v \<Rightarrow> 'v \<Rightarrow> string \<Rightarrow> ConfigReader \<Rightarrow> 'v option \<times> ConfigReader" where
  "getRange parse minimum maximum key r =
     (if readerStatus r \<noteq> ncclSuccess then (None, r)
      else if maximum < minimum then (None, failReader key ''has an invalid range'' r)
      else
        case consume key r of
          (None, r1) \<Rightarrow> (None, r1)
        | (Some val, r1) \<Rightarrow>
            (case parse val of
               None \<Rightarrow> (None, failReader key ''is outside the allowed range'' r1)
             | Some v \<Rightarrow> (Some v, if v < minimum \<or> v > maximum
                 then failReader key ''is outside the allowed range'' r1 else r1)))"

definition getEnum :: "(string \<times> 'v) list \<Rightarrow> string \<Rightarrow> ConfigReader \<Rightarrow> 'v option \<times> ConfigReader" where
  "getEnum entries = getWith ''is not a supported enum value'' (map_of entries)"

text \<open>The first pair nobody asked for is an error.\<close>

definition finish :: "ConfigReader \<Rightarrow> ConfigReader" where
  "finish r =
     (case filter (Not \<circ> snd) (zip (readerPairs r) (consumed r)) of
        [] \<Rightarrow> r
      | ((key, _), _) # _ \<Rightarrow> failReader key ''is not recognized by this compressor'' r)"

text \<open>
  \<^verbatim>\<open>std::from_chars\<close> to the end of the text, for an integer type with the given range; only a signed type takes
  a minus sign.
\<close>

definition isDigit :: "char \<Rightarrow> bool" where
  "isDigit c \<longleftrightarrow> 48 \<le> (of_char c :: nat) \<and> (of_char c :: nat) \<le> 57"

definition parseInteger :: "int \<Rightarrow> int \<Rightarrow> string \<Rightarrow> int option" where
  "parseInteger lo hi str =
     (let negative = (lo < 0 \<and> str \<noteq> [] \<and> hd str = CHR ''-''); ds = (if negative then tl str else str) in
      if ds = [] \<or> \<not> list_all isDigit ds then None
      else
        let v = (if negative then - int (digitsValue ds) else int (digitsValue ds)) in
        if lo \<le> v \<and> v \<le> hi then Some v else None)"

definition parseBool :: "string \<Rightarrow> bool option" where
  "parseBool str = (if str = ''true'' then Some True else if str = ''false'' then Some False else None)"

definition parseString :: "string \<Rightarrow> string option" where
  "parseString str = Some str"

section \<open>The adapter\<close>

text \<open>
  A compressor class. \<open>configure\<close> reads options and returns its own result; \<open>hasConfig\<close> says that the class has
  a configuration type.
\<close>

record sdk_compressor =
  compressFn :: "cocclCompressorCall \<Rightarrow> sdk_run"
  decompressFn :: "cocclCompressorCall \<Rightarrow> sdk_run"
  decompressReduceFn :: "(cocclCompressorCall \<Rightarrow> sdk_run) option"
  decompressReduceCompressFn :: "(cocclCompressorCall \<Rightarrow> sdk_run) option"
  encodedSizeBoundFn :: "(cocclCompressorSizeQuery \<Rightarrow> ncclResult_t \<times> size_t) option"
  hasConfig :: bool
  configureFn :: "(int \<Rightarrow> int \<Rightarrow> ConfigReader \<Rightarrow> ncclResult_t \<times> ConfigReader) option"
  kFramed :: bool
  kFusedHierarchicalSwizzle :: bool
  kBytewiseLossless :: bool

definition sdkCapabilities :: "sdk_compressor \<Rightarrow> capability" where
  "sdkCapabilities c =
     COCCL_COMPRESSOR_REQUIRED_CAPABILITIES OR
     (if decompressReduceFn c \<noteq> None then cocclCompressorCapabilityDecompressReduce else 0) OR
     (if decompressReduceCompressFn c \<noteq> None then cocclCompressorCapabilityDecompressReduceCompress else 0) OR
     (if kFramed c then cocclCompressorCapabilityFramed else 0) OR
     (if kFusedHierarchicalSwizzle c then cocclCompressorCapabilityFusedHierarchicalSwizzle else 0) OR
     (if kBytewiseLossless c then cocclCompressorCapabilityBytewiseLossless else 0)"

definition memberOf :: "(cocclCompressorCall \<Rightarrow> sdk_run) option \<Rightarrow> cocclCompressorCall \<Rightarrow> sdk_run" where
  "memberOf member call = (case member of None \<Rightarrow> SdkReturn ncclInvalidUsage | Some f \<Rightarrow> f call)"

fun dispatch :: "sdk_compressor \<Rightarrow> cocclCompressorOperation \<Rightarrow> cocclCompressorCall \<Rightarrow> sdk_run" where
  "dispatch c OperationCompress = compressFn c"
| "dispatch c OperationDecompress = decompressFn c"
| "dispatch c OperationDecompressReduce = memberOf (decompressReduceFn c)"
| "dispatch c OperationDecompressReduceCompress = memberOf (decompressReduceCompressFn c)"

definition encodedOutput :: "cocclCompressorOperation \<Rightarrow> bool" where
  "encodedOutput oper \<longleftrightarrow> oper = OperationCompress \<or> oper = OperationDecompressReduceCompress"

definition finishExecute :: "cocclCompressorOperation \<Rightarrow> ncclResult_t \<Rightarrow> Output \<Rightarrow> plugin_run" where
  "finishExecute oper result out =
     (if result \<noteq> ncclSuccess then PluginReturn result (outView out)
      else if encodedOutput oper
      then PluginReturn (if outCommitted out then ncclSuccess else ncclInvalidUsage) (outView out)
      else if outCommitted out then PluginReturn ncclSuccess (outView out)
      else case commitPlanned out of (r, out') \<Rightarrow> PluginReturn r (outView out'))"

definition executeSdk :: "sdk_compressor \<Rightarrow> cocclCompressorCall \<Rightarrow> plugin_run" where
  "executeSdk c call =
     runSdk (dispatch c (callOperation call) call) (newOutput (callOutput call)) (finishExecute (callOperation call))"

text \<open>\<open>object\<close> is what \<^verbatim>\<open>new (std::nothrow) Config()\<close> returns; the host reads the error into a buffer of 256 bytes.\<close>

definition parseConfigSdk ::
  "sdk_compressor \<Rightarrow> ptr \<Rightarrow> (string \<times> string) list \<Rightarrow> int \<Rightarrow> int \<Rightarrow> ncclResult_t \<times> ptr" where
  "parseConfigSdk c object vals nodes devices =
     (let reader = newReader vals (Some 256) in
      if \<not> hasConfig c then (readerStatus (finish reader), nullptr)
      else if object = nullptr then (ncclSystemError, nullptr)
      else
        let (result, reader) =
              (case configureFn c of
                 None \<Rightarrow> (let r = finish reader in (readerStatus r, r))
               | Some f \<Rightarrow> f nodes devices reader);
            result = (if result = ncclSuccess then readerStatus (finish reader) else result) in
        if result \<noteq> ncclSuccess then (result, nullptr) else (ncclSuccess, object))"

definition encodedSizeBoundSdk :: "sdk_compressor \<Rightarrow> cocclCompressorSizeQuery \<Rightarrow> ncclResult_t \<times> size_t" where
  "encodedSizeBoundSdk c query = (case encodedSizeBoundFn c of None \<Rightarrow> (ncclInvalidUsage, 0) | Some f \<Rightarrow> f query)"

definition descriptor :: "sdk_compressor \<Rightarrow> ptr \<Rightarrow> string \<Rightarrow> cocclCompressorPlugin" where
  "descriptor c object nam =
     \<lparr>abiVersion = COCCL_COMPRESSOR_ABI_VERSION, structSize = sizeof_plugin, pluginName = Some nam,
      capabilities = sdkCapabilities c, execute = Some (executeSdk c), parseConfig = Some (parseConfigSdk c object),
      destroyConfig = True, getEncodedSizeBound = Some (encodedSizeBoundSdk c)\<rparr>"

section \<open>Committed output\<close>

text \<open>
  What a committed view promises about the view of the call: its buffer, capacity and frame metadata are
  those of the call, and its contents fill a whole number of elements per chunk within the capacity.
\<close>

definition honoured :: "cocclCompressorView \<Rightarrow> cocclCompressorView \<Rightarrow> bool" where
  "honoured view view' \<longleftrightarrow>
     viewData view' = viewData view \<and> viewCapacityBytes view' = viewCapacityBytes view \<and>
     viewFrameMetadata view' = viewFrameMetadata view \<and> viewFrameStrideBytes view' = viewFrameStrideBytes view \<and>
     viewData view' \<noteq> nullptr \<and> 0 < unat (viewChunks view') \<and> unat (viewChunks view') dvd unat (viewElements view') \<and>
     0 < ncclTypeSize (viewDatatype view') \<and>
     unat (viewBytes view') = unat (viewElements view') * nat (ncclTypeSize (viewDatatype view')) \<and>
     viewBytes view' \<le> viewCapacityBytes view'"

lemma dataTypeSize_typeSize: "unat (dataTypeSize t) = nat (ncclTypeSize t)"
  by (cases t) simp_all

lemma commit_honoured:
  assumes "commit elems dtype chnks out = (r, out')"
  shows "(r = ncclSuccess \<and> outCommitted out' \<and> honoured (outView out) (outView out')) \<or> (r = ncclInvalidArgument \<and> out' = out)"
proof (cases "r = ncclSuccess")
  case True
  let ?t = "dataTypeSize dtype"
  from assms True have ok: "viewData (outView out) \<noteq> nullptr" "chnks \<noteq> 0" "elems mod chnks = 0" "?t \<noteq> 0"
      "elems \<noteq> 0 \<Longrightarrow> \<not> ?t > SIZE_MAX div elems" "\<not> elems * ?t > viewCapacityBytes (outView out)"
    and out': "out' = out\<lparr>outView := (outView out)\<lparr>viewBytes := elems * ?t, viewElements := elems, viewChunks := chnks, viewDatatype := dtype\<rparr>,
      outCommitted := True\<rparr>"
    by (auto simp: commit_def Let_def split: if_splits)
  have exact: "unat (elems * ?t) = unat elems * unat ?t"
  proof (cases "elems = 0")
    case False
    from div_guard_exact [OF False ok(5) [OF False]] show ?thesis by (simp add: mult.commute)
  qed simp
  have "unat (elems mod chnks) = 0" by (simp only: ok(3) unsigned_0)
  then have "unat chnks dvd unat elems" by (simp add: unat_mod_size dvd_eq_mod_eq_0)
  moreover have "0 < ncclTypeSize dtype" using ok(4) by (cases dtype) simp_all
  ultimately show ?thesis
    using True ok exact by (simp add: out' honoured_def dataTypeSize_typeSize unat_gt_0 not_less)
next
  case False
  with assms show ?thesis by (auto simp: commit_def Let_def split: if_splits)
qed

lemma runCommit_honoured:
  assumes "runCommit how out = (r, out')"
  shows "(r = ncclSuccess \<and> outCommitted out' \<and> honoured (outView out) (outView out')) \<or> (r \<noteq> ncclSuccess \<and> out' = out)"
  using assms
  by (cases how)
    (auto simp: commitBytes_def passthrough_def commitPassthrough_def commitFrames_def Let_def dest!: commit_honoured
      split: if_splits option.splits)

lemma honoured_trans: "honoured a b \<Longrightarrow> honoured b c \<Longrightarrow> honoured a c"
  by (auto simp: honoured_def)

text \<open>The state of the output object during a run, for the view of the call.\<close>

definition output_ok :: "cocclCompressorView \<Rightarrow> Output \<Rightarrow> bool" where
  "output_ok view out \<longleftrightarrow> (if outCommitted out then honoured view (outView out) else outView out = view)"

lemma output_ok_commit: "output_ok view out \<Longrightarrow> runCommit how out = (r, out') \<Longrightarrow> output_ok view out'"
  using runCommit_honoured [of how out r out'] by (auto simp: output_ok_def split: if_splits intro: honoured_trans)

lemma finishExecute_honoured:
  assumes "output_ok view out" and "finishExecute oper result out = PluginReturn ncclSuccess view'"
  shows "honoured view view'"
  using assms by (auto simp: finishExecute_def output_ok_def commitPlanned_def dest!: commit_honoured split: if_splits prod.splits)

lemma finishExecute_returns: "\<exists>r view'. finishExecute oper result out = PluginReturn r view'"
  by (auto simp: finishExecute_def split: prod.splits)

text \<open>Success promises a committed view; without success the view is committed or untouched.\<close>

lemma runSdk_honoured:
  "output_ok view out \<Longrightarrow> runPlugin env (runSdk run out (finishExecute oper)) s = ((r, view'), s') \<Longrightarrow>
     (r = ncclSuccess \<longrightarrow> honoured view view') \<and> (view' = view \<or> honoured view view')"
proof (induction run arbitrary: out s)
  case (SdkReturn result)
  have "finishExecute oper result out = PluginReturn r view'"
    using SdkReturn.prems(2) finishExecute_returns [of oper result out] by auto
  moreover from this have "view' = view \<or> honoured view view'"
    using SdkReturn.prems(1)
    by (auto simp: finishExecute_def output_ok_def commitPlanned_def dest!: commit_honoured split: if_splits prod.splits)
  ultimately show ?case using finishExecute_honoured [OF SdkReturn.prems(1)] by blast
next
  case (SdkRequest request nxt)
  then show ?case using SdkRequest.IH [OF rangeI, of out] by (auto split: prod.splits)
next
  case (SdkCommit how nxt)
  obtain q out' where commit: "runCommit how out = (q, out')" by fastforce
  have ok: "output_ok view out'" using SdkCommit.prems(1) commit by (rule output_ok_commit)
  have "runPlugin env (runSdk (nxt q) out' (finishExecute oper)) s = ((r, view'), s')"
    using SdkCommit.prems(2) commit by simp
  from SdkCommit.IH [OF rangeI ok this] show ?case .
qed

lemma executeSdk_honoured:
  "runPlugin env (executeSdk c call) s = ((r, view'), s') \<Longrightarrow>
     (r = ncclSuccess \<longrightarrow> honoured (callOutput call) view') \<and> (view' = callOutput call \<or> honoured (callOutput call) view')"
  unfolding executeSdk_def by (rule runSdk_honoured) (simp_all add: output_ok_def newOutput_def)

text \<open>The host runs such a plugin: the view it gets back is its own, or a committed one in the same buffer.\<close>

lemma freeScratch_success: "fst (freeScratch env strm ps result w) = ncclSuccess \<Longrightarrow> result = ncclSuccess"
  by (induction ps arbitrary: result w) (force simp: callApi_def Let_def split: if_splits)+

lemma executePolicy_sdk:
  assumes "plugin (policyStore w policy) = descriptor c object nam"
    and "executePolicy env policy call rnk strm w = ((r, view'), w')"
  shows "(view' = callOutput call \<or> honoured (callOutput call) view') \<and> (r = ncclSuccess \<longrightarrow> honoured (callOutput call) view')"
proof (cases "status (env (logLen w) (Cuda cudaGetDevice)) = ncclSuccess")
  case False
  with assms(2) show ?thesis by (auto simp: executePolicy_def callApi_def Let_def)
next
  case True
  let ?w0 = "w\<lparr>apiLog := apiLog w @ [Cuda cudaGetDevice]\<rparr>"
  let ?dev = "sint (outValue (env (logLen w) (Cuda cudaGetDevice)))"
  let ?ex = "\<lparr>execPolicy = policy, execDev = ?dev, execStream = strm, scratch = [], scratchBytes = 0\<rparr>"
  let ?call = "call\<lparr>callConfig := config (policyStore w policy), callExecution :=
     \<lparr>runStream = strm, runDev = ?dev, runRank = rnk, runRanks = runtimeRanks w,
      runNodes = runtimeNodes w, runDevicesPerNode = runtimeDevicesPerNode w\<rparr>\<rparr>"
  obtain q out e1 w1 where run: "runPlugin env (executeSdk c ?call) (?ex, ?w0) = ((q, out), e1, w1)"
    by (metis prod.exhaust)
  have view: "view' = out" and "r = ncclSuccess \<Longrightarrow> q = ncclSuccess"
    using assms
    by (auto simp: executePolicy_def callApi_def Let_def True descriptor_def run split_beta dest!: freeScratch_success)
  with executeSdk_honoured [OF run] show ?thesis by auto
qed

lemma execute_compressor_sdk:
  assumes "plugin (policyStore w p) = descriptor c object nam"
    and "cocclExecuteCompressor env p oper inp out rnk reduceChunks origType origElements strm w = ((r, out'), w')"
  shows "out' = out \<or> honoured out out'"
proof -
  have "plugin (policyStore (w\<lparr>apiLog := l\<rparr>) p) = descriptor c object nam" for l using assms(1) by simp
  note sdk = executePolicy_sdk [OF this] executePolicy_sdk [OF assms(1)]
  show ?thesis
    using assms(2)
    by (auto simp: cocclExecuteCompressor_def callApi_def Let_def split: if_splits prod.splits option.splits dest!: sdk)
qed

section \<open>Capabilities\<close>

lemma capability_bit: "sdkCapabilities c AND push_bit n 1 \<noteq> 0 \<longleftrightarrow> bit (sdkCapabilities c) n"
  by (simp add: bit_iff_and_push_bit_not_eq_0)

lemma sdkCapabilities_bits:
  "bit (sdkCapabilities c) 0" "bit (sdkCapabilities c) (Suc 0)"
  "bit (sdkCapabilities c) 2 \<longleftrightarrow> decompressReduceFn c \<noteq> None"
  "bit (sdkCapabilities c) 3 \<longleftrightarrow> decompressReduceCompressFn c \<noteq> None"
  "bit (sdkCapabilities c) 4 \<longleftrightarrow> kFramed c"
  "bit (sdkCapabilities c) 5 \<longleftrightarrow> kFusedHierarchicalSwizzle c"
  "bit (sdkCapabilities c) 6 \<longleftrightarrow> kBytewiseLossless c"
  by (auto simp: sdkCapabilities_def capability_defs bit_or_iff bit_push_bit_iff bit_1_iff)

lemma sdkCapabilities_required:
  "sdkCapabilities c AND COCCL_COMPRESSOR_REQUIRED_CAPABILITIES = COCCL_COMPRESSOR_REQUIRED_CAPABILITIES"
  unfolding sdkCapabilities_def by (simp only: and.commute [of _ COCCL_COMPRESSOR_REQUIRED_CAPABILITIES] word_ao_absorbs)

lemma descriptor_valid: "fst (cocclValidateCompressorPlugin (Some nam) (Some (descriptor c object nam)) capacity)"
  by (simp add: cocclValidateCompressorPlugin_def descriptor_def sdkCapabilities_required)

text \<open>
  C40. What every compressor built with the SDK keeps, whatever its members do. Its descriptor passes the
  host's validation under its own name; the capability bits say exactly which optional members and flags the
  class has; and a member the class lacks is refused with the output untouched. When the host executes an
  operation, the view that comes back is the caller's own or one the plugin committed, and after success it
  is committed: the same buffer, a number of elements that the chunks divide, their exact size in bytes, and
  that within the capacity. After a successful compression the buffer of the caller holds whole bytes, split
  evenly over the chunks of the input, within its capacity.
\<close>

theorem sdk_plugin_contract:
  assumes "plugin (policyStore w p) = descriptor c object nam"
  shows "fst (cocclValidateCompressorPlugin (Some nam) (Some (plugin (policyStore w p))) capacity) \<and>
    (p \<noteq> nullptr \<longrightarrow>
      cocclCompressorSupports (policyStore w) p cocclCompressorCapabilityDecompressReduce = (decompressReduceFn c \<noteq> None) \<and>
      cocclCompressorSupports (policyStore w) p cocclCompressorCapabilityDecompressReduceCompress = (decompressReduceCompressFn c \<noteq> None) \<and>
      cocclCompressorSupports (policyStore w) p cocclCompressorCapabilityFramed = kFramed c \<and>
      cocclCompressorSupports (policyStore w) p cocclCompressorCapabilityFusedHierarchicalSwizzle = kFusedHierarchicalSwizzle c \<and>
      cocclCompressorSupports (policyStore w) p cocclCompressorCapabilityBytewiseLossless = kBytewiseLossless c) \<and>
    (\<forall>call. callOperation call = OperationDecompressReduce \<and> decompressReduceFn c = None \<or>
        callOperation call = OperationDecompressReduceCompress \<and> decompressReduceCompressFn c = None \<longrightarrow>
      executeSdk c call = PluginReturn ncclInvalidUsage (callOutput call)) \<and>
    (\<forall>env call rnk strm r view' w'. executePolicy env p call rnk strm w = ((r, view'), w') \<longrightarrow>
      (view' = callOutput call \<or> honoured (callOutput call) view') \<and>
      (r = ncclSuccess \<longrightarrow> honoured (callOutput call) view')) \<and>
    (\<forall>env oper inp out rnk reduceChunks origType origElements strm r out' w'.
      cocclExecuteCompressor env p oper inp out rnk reduceChunks origType origElements strm w = ((r, out'), w') \<longrightarrow>
      viewData out' = viewData out \<and> viewCapacityBytes out' = viewCapacityBytes out \<and>
      (oper = OperationCompress \<and> r = ncclSuccess \<longrightarrow>
         viewData out \<noteq> nullptr \<and> viewBytes out' \<le> viewCapacityBytes out \<and> unat (viewElements out') = unat (viewBytes out') \<and>
         viewChunks out' = viewChunks inp \<and> unat (viewChunks inp) dvd unat (viewBytes out')))"
proof -
  have caps: "capabilities (plugin (policyStore w p)) = sdkCapabilities c" using assms by (simp add: descriptor_def)
  have valid: "fst (cocclValidateCompressorPlugin (Some nam) (Some (plugin (policyStore w p))) capacity)"
    unfolding assms by (rule descriptor_valid)
  have bits: "cocclCompressorSupports (policyStore w) p (push_bit n 1) = bit (sdkCapabilities c) n" if "p \<noteq> nullptr" for n
    using that capability_bit [of c n] by (simp add: cocclCompressorSupports_def caps)
  have flags: "p \<noteq> nullptr \<longrightarrow>
      cocclCompressorSupports (policyStore w) p cocclCompressorCapabilityDecompressReduce = (decompressReduceFn c \<noteq> None) \<and>
      cocclCompressorSupports (policyStore w) p cocclCompressorCapabilityDecompressReduceCompress = (decompressReduceCompressFn c \<noteq> None) \<and>
      cocclCompressorSupports (policyStore w) p cocclCompressorCapabilityFramed = kFramed c \<and>
      cocclCompressorSupports (policyStore w) p cocclCompressorCapabilityFusedHierarchicalSwizzle = kFusedHierarchicalSwizzle c \<and>
      cocclCompressorSupports (policyStore w) p cocclCompressorCapabilityBytewiseLossless = kBytewiseLossless c"
    using bits [of 2] bits [of 3] bits [of 4] bits [of 5] bits [of 6] by (simp add: capability_defs sdkCapabilities_bits)
  have lacks: "executeSdk c call = PluginReturn ncclInvalidUsage (callOutput call)"
    if "callOperation call = OperationDecompressReduce \<and> decompressReduceFn c = None \<or>
        callOperation call = OperationDecompressReduceCompress \<and> decompressReduceCompressFn c = None" for call
    using that by (auto simp: executeSdk_def memberOf_def finishExecute_def newOutput_def)
  have view: "viewData out' = viewData out \<and> viewCapacityBytes out' = viewCapacityBytes out \<and>
      (oper = OperationCompress \<and> r = ncclSuccess \<longrightarrow>
         viewData out \<noteq> nullptr \<and> viewBytes out' \<le> viewCapacityBytes out \<and> unat (viewElements out') = unat (viewBytes out') \<and>
         viewChunks out' = viewChunks inp \<and> unat (viewChunks inp) dvd unat (viewBytes out'))"
    if run: "cocclExecuteCompressor env p oper inp out rnk reduceChunks origType origElements strm w = ((r, out'), w')"
    for env oper inp out rnk reduceChunks origType origElements strm r out' w'
  proof -
    have same: "viewData out' = viewData out" "viewCapacityBytes out' = viewCapacityBytes out"
      using execute_compressor_sdk [OF assms run] by (auto simp: honoured_def)
    have "validateEncodedOutput out' (viewChunks inp) = ncclSuccess" if "oper = OperationCompress \<and> r = ncclSuccess"
      using run that by (auto simp: cocclExecuteCompressor_def Let_def split_beta split: if_splits option.splits)
    with same show ?thesis using validate_success [of out' "viewChunks inp"] by auto
  qed
  show ?thesis
    using valid flags lacks executePolicy_sdk [OF assms] view by blast
qed

section \<open>Options\<close>

text \<open>What the host writes for a number or a truth value reads back as that value.\<close>

lemma decimal_isDigit: "list_all isDigit (decimal n)"
proof (induction n rule: decimal.induct)
  case (1 n)
  have "isDigit (char_of (48 + m))" if "m < 10" for m :: nat using that by (simp add: isDigit_def)
  with 1 show ?case by (cases "n < 10") (simp_all add: decimal.simps [of n])
qed

lemma decimal_nonempty: "decimal n \<noteq> []"
  by (simp add: decimal.simps [of n])

lemma parseInteger_to_string:
  assumes "lo \<le> i" and "i \<le> hi"
  shows "parseInteger lo hi (to_string i) = Some i"
proof (cases "i < 0")
  case True
  with assms show ?thesis
    by (simp add: parseInteger_def to_string_def decimal_isDigit decimal_nonempty digitsValue_decimal Let_def)
next
  case False
  have "hd (decimal (nat i)) \<noteq> CHR ''-''" using decimal_not_minus [of "nat i"] decimal_nonempty by (metis list.collapse)
  with False assms show ?thesis
    by (simp add: parseInteger_def to_string_def decimal_isDigit decimal_nonempty digitsValue_decimal Let_def)
qed

lemma option_values:
  "scalarToString (TomlInteger i) = Some (to_string i)"
  "parseBool (the (scalarToString (TomlBoolean b))) = Some b"
  "parseString (the (scalarToString (TomlString str))) = Some str"
  by (simp_all add: parseBool_def parseString_def)

text \<open>A reader that asks for a list of keys, each with its parser.\<close>

fun readAll :: "(string \<times> (string \<Rightarrow> 'v option)) list \<Rightarrow> ConfigReader \<Rightarrow> 'v option list \<times> ConfigReader" where
  "readAll [] r = ([], r)"
| "readAll ((key, parse) # requests) r =
     (case getValue parse key r of (v, r1) \<Rightarrow> case readAll requests r1 of (vs, r2) \<Rightarrow> (v # vs, r2))"

text \<open>The reader after some keys were read without an error.\<close>

definition readerAt :: "(string \<times> string) list \<Rightarrow> size_t option \<Rightarrow> string set \<Rightarrow> ConfigReader \<Rightarrow> bool" where
  "readerAt pairs capacity keys r \<longleftrightarrow> readerPairs r = pairs \<and> readerStatus r = ncclSuccess \<and> readerCapacity r = capacity \<and>
     consumed r = map (\<lambda>(k, v). k \<in> keys) pairs"

lemma findKey_map_of: "findKey key pairs = None \<longleftrightarrow> map_of pairs key = None"
  by (induction pairs) auto

lemma findKey_Some:
  assumes "findKey key pairs = Some i"
  shows "i < length pairs" "fst (pairs ! i) = key" "map_of pairs key = Some (snd (pairs ! i))"
proof -
  have "i < length pairs \<and> fst (pairs ! i) = key \<and> map_of pairs key = Some (snd (pairs ! i))"
    using assms
  proof (induction pairs arbitrary: i)
    case (Cons p pairs)
    then show ?case by (cases p) (auto split: if_splits)
  qed simp
  then show "i < length pairs" "fst (pairs ! i) = key" "map_of pairs key = Some (snd (pairs ! i))" by simp_all
qed

lemma getValue_step:
  assumes r: "readerAt pairs capacity keys r" and "distinct (map fst pairs)" and "key \<notin> keys"
  shows "getValue parse key r =
    (case map_of pairs key of
       None \<Rightarrow> (None, r)
     | Some val \<Rightarrow>
         let r1 = r\<lparr>consumed := map (\<lambda>(k, v). k \<in> insert key keys) pairs\<rparr> in
         case parse val of None \<Rightarrow> (None, failReader key ''has an invalid value'' r1) | Some v \<Rightarrow> (Some v, r1))"
proof (cases "findKey key pairs")
  case None
  with r findKey_map_of [of key pairs] show ?thesis by (simp add: getValue_def getWith_def consume_def readerAt_def)
next
  case (Some i)
  note i = findKey_Some [OF Some]
  have "(map (\<lambda>(k, v). k \<in> keys) pairs)[i := True] = map (\<lambda>(k, v). k \<in> insert key keys) pairs"
  proof (rule nth_equalityI)
    fix j assume "j < length ((map (\<lambda>(k, v). k \<in> keys) pairs)[i := True])"
    then have j: "j < length pairs" by simp
    have "fst (pairs ! j) = key \<Longrightarrow> j = i"
      using assms(2) i(1,2) j nth_eq_iff_index_eq [of "map fst pairs" j i] by simp
    with j i show "((map (\<lambda>(k, v). k \<in> keys) pairs)[i := True]) ! j = map (\<lambda>(k, v). k \<in> insert key keys) pairs ! j"
      by (cases "i = j") (auto simp: case_prod_beta)
  qed simp
  moreover have "\<not> consumed r ! i" using r i assms(3) by (simp add: readerAt_def case_prod_beta)
  ultimately show ?thesis
    using r i Some by (simp add: getValue_def getWith_def consume_def readerAt_def Let_def split: option.splits)
qed

lemma getValue_failed [simp]: "readerStatus r \<noteq> ncclSuccess \<Longrightarrow> getValue parse key r = (None, r)"
  by (simp add: getValue_def getWith_def)

lemma readAll_failed: "readerStatus r \<noteq> ncclSuccess \<Longrightarrow> snd (readAll requests r) = r"
  by (induction requests r rule: readAll.induct) (simp_all add: split_beta)

text \<open>The options a list of requests can read: those present parse.\<close>

definition readable :: "(string \<times> string) list \<Rightarrow> (string \<times> (string \<Rightarrow> 'v option)) list \<Rightarrow> bool" where
  "readable pairs requests \<longleftrightarrow>
     list_all (\<lambda>(key, parse). case map_of pairs key of None \<Rightarrow> True | Some val \<Rightarrow> parse val \<noteq> None) requests"

lemma readAll_run:
  assumes "readerAt pairs capacity keys r" and "distinct (map fst pairs)" and "distinct (map fst requests)"
    and "keys \<inter> fst ` set requests = {}"
  shows "if readable pairs requests
    then readerAt pairs capacity (keys \<union> fst ` set requests) (snd (readAll requests r)) \<and>
      fst (readAll requests r) = map (\<lambda>(key, parse). Option.bind (map_of pairs key) parse) requests
    else readerStatus (snd (readAll requests r)) \<noteq> ncclSuccess"
  using assms(1,3,4)
proof (induction requests arbitrary: keys r)
  case Nil
  then show ?case by (simp add: readable_def)
next
  case (Cons q requests)
  obtain key parse where q: "q = (key, parse)" by fastforce
  have key: "key \<notin> keys" using Cons.prems(3) by (auto simp: q)
  note step = getValue_step [OF Cons.prems(1) assms(2) key, of parse]
  show ?case
  proof (cases "map_of pairs key")
    case None
    then have "key \<notin> fst ` set pairs" by (simp add: map_of_eq_None_iff)
    then have "readerAt pairs capacity (insert key keys) r"
      using Cons.prems(1) by (force simp: readerAt_def)
    from Cons.IH [OF this] Cons.prems(2,3) None step show ?thesis
      by (auto simp: q readable_def split_beta)
  next
    case (Some val)
    let ?r1 = "r\<lparr>consumed := map (\<lambda>(k, v). k \<in> insert key keys) pairs\<rparr>"
    have r1: "readerAt pairs capacity (insert key keys) ?r1" using Cons.prems(1) by (simp add: readerAt_def)
    show ?thesis
    proof (cases "parse val")
      case None
      have "readerStatus (failReader key ''has an invalid value'' ?r1) \<noteq> ncclSuccess"
        using Cons.prems(1) by (simp add: failReader_def readerAt_def)
      with Some None step show ?thesis by (auto simp: q readable_def split_beta Let_def readAll_failed)
    next
      case (Some v)
      with Cons.IH [OF r1] Cons.prems(2,3) \<open>map_of pairs key = Some val\<close> step show ?thesis
        by (auto simp: q readable_def split_beta Let_def)
    qed
  qed
qed

text \<open>
  A compressor that reads its options with a list of requests and then finishes accepts exactly the option
  lists all of whose keys it asks for and whose values parse; it then has those values.
\<close>

theorem sdk_options_read:
  assumes "distinct (map fst pairs)" and "distinct (map fst requests)"
    and "readAll requests (newReader pairs capacity) = (vals, r)"
  shows "(readerStatus (finish r) = ncclSuccess \<longleftrightarrow> readable pairs requests \<and> fst ` set pairs \<subseteq> fst ` set requests) \<and>
    (readerStatus (finish r) = ncclSuccess \<longrightarrow>
       vals = map (\<lambda>(key, parse). Option.bind (map_of pairs key) parse) requests)"
proof -
  have "readerAt pairs capacity {} (newReader pairs capacity)"
    by (simp add: readerAt_def newReader_def case_prod_beta map_replicate_const split_def)
  from readAll_run [OF this assms(1,2)]
  have run: "if readable pairs requests
    then readerAt pairs capacity (fst ` set requests) r \<and>
      vals = map (\<lambda>(key, parse). Option.bind (map_of pairs key) parse) requests
    else readerStatus r \<noteq> ncclSuccess" by (simp add: assms(3) split: if_splits)
  show ?thesis
  proof (cases "readable pairs requests")
    case True
    with run have r: "readerAt pairs capacity (fst ` set requests) r" by simp
    have zip: "zip pairs (map (\<lambda>(k, v). k \<in> K) pairs) = map (\<lambda>p. (p, fst p \<in> K)) pairs" for K
      by (induction pairs) auto
    have "readerStatus (finish r) = ncclSuccess \<longleftrightarrow> filter (Not \<circ> snd) (map (\<lambda>p. (p, fst p \<in> fst ` set requests)) pairs) = []"
      using r unfolding finish_def readerAt_def by (auto simp: zip failReader_def split: list.splits)
    also have "\<dots> \<longleftrightarrow> fst ` set pairs \<subseteq> fst ` set requests" by (auto simp: filter_empty_conv)
    finally show ?thesis using True run by simp
  next
    case False
    with run have "readerStatus r \<noteq> ncclSuccess" by simp
    then have "readerStatus (finish r) \<noteq> ncclSuccess" by (simp add: finish_def failReader_def split: list.splits prod.splits)
    with False show ?thesis by simp
  qed
qed

section \<open>Example\<close>

text \<open>A compressor that asks for scratch memory and commits one byte per element.\<close>

definition byteCompressor :: sdk_compressor where
  "byteCompressor = \<lparr>
     compressFn = (\<lambda>call. sdkScratch 64 (\<lambda>r _. if r \<noteq> ncclSuccess then SdkReturn r
       else SdkCommit (CommitBytes (viewElements (callInput call)) (viewChunks (callInput call))) SdkReturn)),
     decompressFn = (\<lambda>_. SdkReturn ncclSuccess), decompressReduceFn = None, decompressReduceCompressFn = None,
     encodedSizeBoundFn = None, hasConfig = False, configureFn = None, kFramed = False,
     kFusedHierarchicalSwizzle = False, kBytewiseLossless = True\<rparr>"

definition sdkWorld :: compressor_world where
  "sdkWorld = emptyCompressorWorld\<lparr>policyStore :=
     (\<lambda>_. \<lparr>plugin = descriptor byteCompressor 1 ''byte'', config = 0, thresholdBytes = 0\<rparr>)\<rparr>"

theorem sdk_plugin_contract_witness:
  "\<exists>out' w'. cocclExecuteCompressor exampleEnv 1 OperationCompress (exampleView ncclFloat32 16) (exampleView ncclInt8 64) 0 0
       ncclFloat32 16 7 sdkWorld = ((ncclSuccess, out'), w') \<and>
     viewData out' = 4096 \<and> viewBytes out' \<le> 64 \<and> viewChunks out' = 1 \<and>
     cocclCompressorSupports (policyStore sdkWorld) 1 cocclCompressorCapabilityBytewiseLossless \<and>
     \<not> cocclCompressorSupports (policyStore sdkWorld) 1 cocclCompressorCapabilityFramed"
proof -
  let ?run = "cocclExecuteCompressor exampleEnv 1 OperationCompress (exampleView ncclFloat32 16) (exampleView ncclInt8 64) 0 0
       ncclFloat32 16 7 sdkWorld"
  have "fst (fst ?run) = ncclSuccess" by code_simp
  then obtain out' w' where run: "?run = ((ncclSuccess, out'), w')" by (metis prod.collapse)
  have "plugin (policyStore sdkWorld 1) = descriptor byteCompressor 1 ''byte''" by (simp add: sdkWorld_def)
  note contract = sdk_plugin_contract [OF this, of None]
  have "viewData out' = viewData (exampleView ncclInt8 64) \<and> viewBytes out' \<le> viewCapacityBytes (exampleView ncclInt8 64) \<and>
      viewChunks out' = viewChunks (exampleView ncclFloat32 16)"
    using contract run by blast
  moreover have "cocclCompressorSupports (policyStore sdkWorld) 1 cocclCompressorCapabilityBytewiseLossless"
    "\<not> cocclCompressorSupports (policyStore sdkWorld) 1 cocclCompressorCapabilityFramed"
    using contract by (simp_all add: byteCompressor_def)
  ultimately show ?thesis using run by (simp add: exampleView_def)
qed

end
