(* ===== verification/Spec2Isabelle.thy ===== *)
theory Spec2Isabelle
  imports Buffer_Management Pipeline_Schedule Training_Assist Primitive_Dataflow Autotune_Select Layout_Kernel Coccl_Group
    Config_Format Runtime_Startup Profile_Agreement Reduce_Kernel Plugin_Sdk
begin

text \<open>
  COCCL, a compression layer over NCCL: a verification development.

  \<^bold>\<open>The program.\<close> COCCL is a fork of NCCL 2.21.5. The collective entry points of \<^verbatim>\<open>src/src/collectives.cc\<close>
  offer every call to the layer under \<^verbatim>\<open>src/src/coccl-extend\<close>. Routing decides from the configuration,
  the size of the call and the role of its communicator whether the layer takes it over. A call it
  takes over becomes a pipeline specification, a list of stages (compress, exchange, decompress and
  reduce). The planner cuts it into slices and lays out the workspace, the executor leases the
  workspace from the allocator and issues the stages to streams, serially or overlapped. Compressors
  are plugins behind a C contract. An autotuner chooses the algorithm of a reduction from fitted cost
  models, and a training assistant classifies communicators from the trace of their calls. A call the
  layer does not take over runs natively; calls inside a group are kept until the group ends and are
  then executed, or replayed natively, as a batch.

  \<^bold>\<open>Method.\<close> The model is a shallow embedding. Routines become functions on a state; \<^verbatim>\<open>size_t\<close> and pointers
  are 64-bit words and wrap, C \<^verbatim>\<open>int\<close> is an integer, an index that may be -1 is an optional natural
  number. Routines that use \<^verbatim>\<open>NCCLCHECK\<close> and \<^verbatim>\<open>CUDACHECK\<close> return a result code or a value, so that every
  early return is a branch. CUDA, the driver, \<^verbatim>\<open>dlopen\<close>, plugin callbacks and the NCCL core below the
  group machinery are not part of the layer: they are answered by an environment, a function of the
  model from the number of the call and its arguments to the reply. A theorem that does not restrict the
  environment holds for every sequence of successes and failures. Worlds are records that grow from
  component to component (calls of the API, node, compressor tables, group state, pipeline resources,
  runtime); operations under a mutex are single steps. Doubles are finite numbers, infinities and NaN,
  with the rounding of an operation as an argument.

  \<^bold>\<open>Theories and sources\<close> (paths under \<^verbatim>\<open>src/src/coccl-extend\<close> unless they start with \<^verbatim>\<open>src/\<close>).
  \<^item> \<open>Coccl_Prelude\<close>: machine types, result codes and the check macros (\<^verbatim>\<open>src/src/include/checks.h\<close>), shared
    lemmas on lists and words. \<open>Coccl_Api\<close>: the environment and computations over a world. \<open>Coccl_Double\<close>:
    doubles.
  \<^item> \<open>Coccl_Operation\<close>, \<open>Config_Types\<close>: operations, policy keys and traits
    (\<^verbatim>\<open>core/runtime/coccl_operation.cc\<close>), configuration records and scope inheritance (\<^verbatim>\<open>core/config/coccl_config.h\<close>).
  \<^item> \<open>Config_Parse\<close>, \<open>Config_Format\<close>: the parser of the configuration file with its messages, the start-up from
    environment variables, and the printer of the effective configuration (\<^verbatim>\<open>core/config/coccl_config.cc\<close>,
    \<^verbatim>\<open>coccl_config_runtime.cc\<close>, \<^verbatim>\<open>coccl_config_format.cc\<close>). The vendored toml++ library hands over a tree
    (\<open>toml_node\<close>) or the text of an exception.
  \<^item> \<open>Compressor_Abi\<close>, \<open>Compressor_Runtime\<close>: the plugin contract and the runtime that loads plugins,
    resolves policies and runs compressors with scratch and persistent buffers and state objects, which it
    destroys at the end (\<^verbatim>\<open>core/compression\<close>). \<open>Plugin_Sdk\<close>: the other side of the contract, the header with which
    compressors are written (\<^verbatim>\<open>include/compressor_plugin/coccl_compressor_plugin.h\<close>), with a compressor as a record of
    the members of its class.
    \<open>Runtime_Startup\<close>: parser and runtime together. \<open>Reduce_Kernel\<close>: the summation kernels
    (\<^verbatim>\<open>core/device/reduce_helper\<close>), over any arithmetic, with the 32-bit grid of their launch, which fails when the grid
    is empty or too large.
  \<^item> \<open>Buffer_Slice\<close>, \<open>Buffer_Lease\<close>, \<open>Buffer_Legacy\<close>, \<open>Buffer_Vmm\<close>, \<open>Buffer_Management\<close>: the workspace
    allocator (\<^verbatim>\<open>core/memory\<close>). Its contract is the locale \<open>lease_backend\<close>, interpreted for both backends
    and for the pool that chooses between them.
  \<^item> \<open>Pipeline_Types\<close>, \<open>Pipeline_Plan\<close>, \<open>Pipeline_Workspace\<close>, \<open>Pipeline_Logical\<close>, \<open>Pipeline_Prepare\<close>: the
    planner (\<^verbatim>\<open>core/pipeline/coccl_pipeline_plan.cc\<close>).
  \<^item> \<open>Native_Call\<close>: the captured call, group depth and error, native replay
    (\<^verbatim>\<open>src/src/group.cc\<close>, \<^verbatim>\<open>src/src/include/group.h\<close>, \<^verbatim>\<open>src/src/enqueue.cc\<close>). \<open>Frame_Exchange\<close>: the exchange of framed
    payloads (\<^verbatim>\<open>core/pipeline/coccl_frame_exchange.cc\<close>).
  \<^item> \<open>Pipeline_Layout\<close>, \<open>Layout_Kernel\<close>: host and device side of the pack and unpack copies
    (\<^verbatim>\<open>core/device/pipeline/coccl_pipeline_layout.cu\<close>).
  \<^item> \<open>Pipeline_Stage\<close>, \<open>Pipeline_Execute\<close>, \<open>Pipeline_Schedule\<close>: stage handlers, the executor, and the order the
    streams and events of the overlapped run enforce (\<^verbatim>\<open>coccl_pipeline_stage.cc\<close>,
    \<^verbatim>\<open>coccl_pipeline_execute.cc\<close>).
  \<^item> \<open>Prepared_Call\<close>, \<open>Primitive_Stages\<close>, \<open>Primitive_Dataflow\<close>, \<open>Sendrecv_Batch\<close>: a resolved call, the
    specifications of the collectives, what they compute, and the point-to-point batch
    (\<^verbatim>\<open>extensions/primitives\<close>).
  \<^item> \<open>Autotune_Cost\<close>, \<open>Autotune_Select\<close>, \<open>Autotune_Profile\<close>: cost models, the choice of an algorithm and the
    profiler (\<^verbatim>\<open>core/tuning\<close>); what the peers contribute to an all-gather is an environment. \<open>Profile_Agreement\<close>: the
    published models as a function of what was gathered.
  \<^item> \<open>Training_Trace\<close>, \<open>Training_Classify\<close>, \<open>Training_Assist\<close>: iteration detection, classification, the
    registry and the query of routing (\<^verbatim>\<open>core/training\<close>).
  \<^item> \<open>Coccl_Comm\<close>, \<open>Coccl_Runtime\<close>, \<open>Coccl_Group\<close>: set-up and teardown with a communicator, routing and
    execution, the public entry points and the end of a group (\<^verbatim>\<open>core/runtime\<close>,
    \<^verbatim>\<open>src/src/collectives.cc\<close>, two places of \<^verbatim>\<open>src/src/init.cc\<close>).

  \<^bold>\<open>What is shown.\<close>
  \<^item> Planner (C1 to C4): temporaries of a prepared plan do not overlap and stay inside their arena; slices
    partition the chunk; what a stage may write fits; more than one slice only for disjoint or exactly
    aliased user buffers.
  \<^item> Allocator (C5 to C8): leases are exclusive, acquire and release are inverse on the leases, a slice is
    handed out only over bytes no other stream still uses; a growth that fails after its unmapping leaves a block
    that is handed out again without memory behind it.
  \<^item> Compressors (C9, C10, C12, C13, C40): scratch is returned exactly once whatever the plugin does, reported
    payloads are within capacity; an accepted configuration starts and its policies resolve, when the libraries
    hold the catalogued plugins and these accept their options; state objects and device resources go with the
    last communicator; a compressor written with the plugin header passes validation and honours the output view of every
    call. \<open>sdk_options_read\<close> says which options such a compressor accepts. \<open>persistent_left_dangling\<close> shows that a failed
    growth leaves a dangling persistent buffer, \<open>failed_state_breaks_release\<close> that a state object whose
    construction failed ends the process at the teardown.
  \<^item> Configuration (C11, C17): what is printed determines the configuration in effect; a configuration the
    parser accepts is valid, and \<open>load_config_reports\<close> shows that a rejected one leaves a message.
  \<^item> Exchange and native calls (C14 to C16, C18): exchange tables partition the buffers and match between
    ranks, a committed exchange restores group and guard; the native all-to-all leaves its group open.
  \<^item> Execution (C19 to C23): the stages that produce planned chunks (all but the decoding ones) follow the plan, live temporaries are disjoint at run time, conflicting
    work of the overlapped run is ordered and joined with the stream of the caller; cached resources can
    lack events.
  \<^item> Tuning (C24, C25, C30): the choice is sound and minimal, and for the same models the same on all ranks when
    nodes are uniform (\<open>select_diverges_on_uneven_nodes\<close>: it diverges otherwise); ranks that started from the same
    models and gathered the same publish the same models.
  \<^item> Summation (C26): the integer kernels write the sums of the chunks, whatever the order of the threads, while
    the chunks have fewer than 2 to the 31 elements; for any arithmetic the result does not depend on that order.
  \<^item> Training (C27 to C29, C31, C32): the block hash is the hash of the block, detected iterations tile the end
    of the trace, roles are exactly those the thresholds on the evidence give and stay, the trace is bounded, and at the
    bound every communicator is committed.
  \<^item> Primitives (C33, C34): specifications are well typed and compute their collectives.
  \<^item> Layout kernels (C35, C36): every thread terminates, every element is copied once, unpacking inverts
    packing.
  \<^item> Boundary (C37 to C39): replay is the native call, routing takes a call over only with the policies, data type
    and size the configuration asks for, the pending calls are bound to their group. \<open>group_replay_diverges\<close>
    shows that the decision to replay can diverge between peers.

  \<^bold>\<open>Loops and fuel.\<close> Recursion over lists and counters is structural or has a termination proof; the
  grid-stride loops of the kernels are shown to end for every grid the host computes, as are the chunk loop of
  the summation and the loop over the sample sizes of a valid configuration. The one loop with fuel is
  \<open>destroyLayer\<close>: destroying a communicator destroys its hierarchical sub-communicators, which are
  communicators themselves; \<open>destroyLayer_fuel\<close> shows that any fuel above the number of entries in the table of
  hierarchies gives the same result.

  \<^bold>\<open>Not modelled.\<close> The NCCL core below the group machinery (task scheduling, transports, proxies,
  topology, device kernels), which is upstream code the layer calls. The compressor plugins,
  built as separate libraries, largely vendored; their contract, the header they are written with and every use of it are
  modelled. The vendored
  toml++ reader. Floating-point formats on the device: the summation kernels are over an abstract arithmetic, and
  \<open>Primitive_Dataflow\<close> takes compression as lossless. The minimum and maximum and the pairwise kernels of
  \<^verbatim>\<open>reduce_extend_kernel.cu\<close>, which nothing calls. Log lines and the stand-alone configuration checker.
\<close>

text \<open>Every data type that routing hands to a compressor has a summation kernel.\<close>

lemma routed_datatype_has_kernel:
  "compressorDatatypeSupported cs dtype compressor \<Longrightarrow> reduceElementOf dtype \<noteq> None"
  by (auto simp: compressorDatatypeSupported_def floatingDatatypeSupported_def reduceElementOf_def)

end
